(* ===== verification/Owb_Prelude.thy ===== *)
theory Owb_Prelude
  imports Main "HOL-Library.Word"
begin

text \<open>
  What every theory of the development shares: the names of the machine types
  of the C++ and Objective-C sources, the collections of simplification rules
  that the components extend, and lemmas on words, lists and options that more
  than one component needs.

  \<^item> \<open>int32\<close> and \<open>uint32\<close> are both words of 32 bits; a signed reading is \<open>sint\<close>.
    \<open>float32\<close> is the bit pattern of an IEEE single, which is how protobuf stores,
    copies and ships \<open>float\<close> fields.
  \<^item> \<open>bytes\<close> is the content of a \<^verbatim>\<open>std::string\<close> or of a byte array.
\<close>

unbundle bit_operations_syntax

section \<open>Machine types\<close>

type_synonym byte = "8 word"
type_synonym bytes = "byte list"
type_synonym uint32 = "32 word"
type_synonym int32 = "32 word"
type_synonym uint64 = "64 word"
type_synonym float32 = "32 word"

text \<open>The limits of a C++ \<^verbatim>\<open>int\<close> on the targets of the project.\<close>

definition INT_MAX :: int where
  "INT_MAX = 2147483647"

definition INT_MIN :: int where
  "INT_MIN = - 2147483648"

text \<open>
  Conversions between \<^verbatim>\<open>int\<close> values and 32-bit words: \<open>to_int32\<close> wraps as a C cast
  does, \<open>sint\<close> reads a word back.
\<close>

definition to_int32 :: "int \<Rightarrow> int32" where
  "to_int32 i = word_of_int i"

definition in_int_range :: "int \<Rightarrow> bool" where
  "in_int_range i \<longleftrightarrow> INT_MIN \<le> i \<and> i \<le> INT_MAX"

lemma sint_to_int32: "in_int_range i \<Longrightarrow> sint (to_int32 i) = i"
  unfolding to_int32_def in_int_range_def INT_MAX_def INT_MIN_def
  by (subst int_word_sint) (simp add: mod_pos_pos_trivial)

lemma to_int32_sint [simp]: "to_int32 (sint w) = w"
  by (simp add: to_int32_def)

text \<open>A C string: the bytes up to the first zero byte.\<close>

definition c_string :: "bytes \<Rightarrow> bytes" where
  "c_string value = takeWhile (\<lambda>b. b \<noteq> 0) value"

lemma c_string_id: "0 \<notin> set s \<Longrightarrow> c_string s = s"
  unfolding c_string_def by (rule takeWhile_eq_all_conv [THEN iffD2]) auto

section \<open>Collections\<close>

named_theorems hasbits \<open>rules that read and write the presence bits of a message\<close>
named_theorems wire \<open>rules of the wire format\<close>
named_theorems board \<open>rules of the drawing pipeline\<close>

section \<open>Bits and masks\<close>

text \<open>
  A presence test of the generated code masks one bit of a word. These rules
  turn every mask of the generated sources into \<open>bit\<close>.
\<close>

lemma and_pow2_neq_0: "w AND (2 ^ k) \<noteq> 0 \<longleftrightarrow> bit w k" for w :: "32 word"
proof -
  have "w AND (2 ^ k) = of_bool (bit w k) * 2 ^ k"
    by (rule bit_word_eqI) (auto simp: bit_simps)
  moreover have "(2 ^ k :: 32 word) \<noteq> 0" if "bit w k"
    using bit_imp_le_length [OF that] by (simp add: exp_eq_zero_iff)
  ultimately show ?thesis
    by simp
qed

lemma bit_or_pow2: "bit (w OR (2 ^ k)) i \<longleftrightarrow> bit w i \<or> (i = k \<and> k < 32)" for w :: "32 word"
  by (auto simp: bit_simps)

lemma bit_and_not_pow2: "bit (w AND NOT (2 ^ k)) i \<longleftrightarrow> bit w i \<and> i \<noteq> k" for w :: "32 word"
  by (auto simp: bit_simps dest: bit_imp_le_length)

section \<open>Lists\<close>

lemma take_append_eq [simp]: "length xs = n \<Longrightarrow> take n (xs @ ys) = xs"
  by simp

lemma drop_append_eq [simp]: "length xs = n \<Longrightarrow> drop n (xs @ ys) = ys"
  by simp

lemma take_Suc_conv_snoc: "n < length xs \<Longrightarrow> take (Suc n) xs = take n xs @ [xs ! n]"
  by (rule take_Suc_conv_app_nth)

end
