(* ===== verification/Varint.thy ===== *)
theory Varint
  imports Owb_Prelude "HOL-Library.Monad_Syntax"
begin

text \<open>
  The variable-length integers of \<^verbatim>\<open>coded_stream.cc\<close> and \<^verbatim>\<open>coded_stream.h\<close>: the
  routines that write them to an array, that read them from an array, and that
  compute their size, each unrolled as the source unrolls it, and their
  equivalence with one reference encoder and decoder on natural numbers.

  An array that is written through a moving pointer is the list of the bytes
  written so far, so \<^verbatim>\<open>target\<close> is passed in and returned longer. An array that is
  read is the list of bytes from the pointer on; reading past its end is
  undefined in C++ and \<open>None\<close> here, and a \<^verbatim>\<open>NULL\<close> result is the inner \<open>None\<close>.
\<close>

section \<open>The code\<close>

definition kMaxVarintBytes :: nat where
  "kMaxVarintBytes = 10"

definition kMaxVarint32Bytes :: nat where
  "kMaxVarint32Bytes = 5"

subsection \<open>Writing\<close>

definition WriteVarint32FallbackToArrayInline :: "uint32 \<Rightarrow> bytes \<Rightarrow> bytes" where
  "WriteVarint32FallbackToArrayInline value target =
     (let t0 = ucast (value OR 0x80) :: byte in
      if value \<ge> push_bit 7 1 then
        let t1 = ucast (drop_bit 7 value OR 0x80) in
        if value \<ge> push_bit 14 1 then
          let t2 = ucast (drop_bit 14 value OR 0x80) in
          if value \<ge> push_bit 21 1 then
            let t3 = ucast (drop_bit 21 value OR 0x80) in
            if value \<ge> push_bit 28 1 then
              let t4 = ucast (drop_bit 28 value)
              in target @ [t0, t1, t2, t3, t4]
            else target @ [t0, t1, t2, t3 AND 0x7F]
          else target @ [t0, t1, t2 AND 0x7F]
        else target @ [t0, t1 AND 0x7F]
      else target @ [t0 AND 0x7F])"

definition WriteVarint32FallbackToArray :: "uint32 \<Rightarrow> bytes \<Rightarrow> bytes" where
  "WriteVarint32FallbackToArray value target = WriteVarint32FallbackToArrayInline value target"

definition WriteVarint32ToArray :: "uint32 \<Rightarrow> bytes \<Rightarrow> bytes" where
  "WriteVarint32ToArray value target =
     (if value < 0x80 then target @ [ucast value]
      else WriteVarint32FallbackToArray value target)"

text \<open>
  The size search of \<^verbatim>\<open>WriteVarint64ToArrayInline\<close>, then its fall-through writes
  \<^verbatim>\<open>size10\<close> to \<^verbatim>\<open>size1\<close> and the final \<^verbatim>\<open>target[size-1] &= 0x7F\<close>.
\<close>

definition WriteVarint64_size :: "uint32 \<Rightarrow> uint32 \<Rightarrow> uint32 \<Rightarrow> nat" where
  "WriteVarint64_size part0 part1 part2 =
     (if part2 = 0 then
        if part1 = 0 then
          if part0 < push_bit 14 1 then (if part0 < push_bit 7 1 then 1 else 2)
          else (if part0 < push_bit 21 1 then 3 else 4)
        else
          if part1 < push_bit 14 1 then (if part1 < push_bit 7 1 then 5 else 6)
          else (if part1 < push_bit 21 1 then 7 else 8)
      else (if part2 < push_bit 7 1 then 9 else 10))"

definition WriteVarint64ToArrayInline :: "uint64 \<Rightarrow> bytes \<Rightarrow> bytes" where
  "WriteVarint64ToArrayInline value target =
     (let part0 = ucast value :: uint32;
          part1 = ucast (drop_bit 28 value) :: uint32;
          part2 = ucast (drop_bit 56 value) :: uint32;
          size = WriteVarint64_size part0 part1 part2;
          out = [ucast (part0 OR 0x80), ucast (drop_bit 7 part0 OR 0x80),
                 ucast (drop_bit 14 part0 OR 0x80), ucast (drop_bit 21 part0 OR 0x80),
                 ucast (part1 OR 0x80), ucast (drop_bit 7 part1 OR 0x80),
                 ucast (drop_bit 14 part1 OR 0x80), ucast (drop_bit 21 part1 OR 0x80),
                 ucast (part2 OR 0x80), ucast (drop_bit 7 part2 OR 0x80)] :: bytes;
          out = take size out
      in target @ out[size - 1 := out ! (size - 1) AND 0x7F])"

definition WriteVarint64ToArray :: "uint64 \<Rightarrow> bytes \<Rightarrow> bytes" where
  "WriteVarint64ToArray value target = WriteVarint64ToArrayInline value target"

definition WriteVarint32SignExtendedToArray :: "int32 \<Rightarrow> bytes \<Rightarrow> bytes" where
  "WriteVarint32SignExtendedToArray value target =
     (if sint value < 0 then WriteVarint64ToArray (scast value) target
      else WriteVarint32ToArray value target)"

text \<open>
  The slow path of \<^verbatim>\<open>WriteVarint32\<close> and \<^verbatim>\<open>WriteVarint64\<close> on a stream whose buffer is
  nearly full: the loop that composes the bytes.
\<close>

fun WriteVarint_compose :: "uint64 \<Rightarrow> nat \<Rightarrow> bytes" where
  "WriteVarint_compose value 0 = []"
| "WriteVarint_compose value (Suc room) =
     (if value > 0x7F
      then ((ucast value AND 0x7F) OR 0x80) # WriteVarint_compose (drop_bit 7 value) room
      else [ucast value AND 0x7F])"

subsection \<open>Sizes\<close>

definition VarintSize32Fallback :: "uint32 \<Rightarrow> nat" where
  "VarintSize32Fallback value =
     (if value < push_bit 7 1 then 1
      else if value < push_bit 14 1 then 2
      else if value < push_bit 21 1 then 3
      else if value < push_bit 28 1 then 4
      else 5)"

definition VarintSize32 :: "uint32 \<Rightarrow> nat" where
  "VarintSize32 value = (if value < push_bit 7 1 then 1 else VarintSize32Fallback value)"

definition VarintSize64 :: "uint64 \<Rightarrow> nat" where
  "VarintSize64 value =
     (if value < push_bit 35 1 then
        if value < push_bit 7 1 then 1
        else if value < push_bit 14 1 then 2
        else if value < push_bit 21 1 then 3
        else if value < push_bit 28 1 then 4
        else 5
      else
        if value < push_bit 42 1 then 6
        else if value < push_bit 49 1 then 7
        else if value < push_bit 56 1 then 8
        else if value < push_bit 63 1 then 9
        else 10)"

definition VarintSize32SignExtended :: "int32 \<Rightarrow> nat" where
  "VarintSize32SignExtended value = (if sint value < 0 then 10 else VarintSize32 value)"

subsection \<open>Reading from an array\<close>

definition rd :: "bytes \<Rightarrow> nat \<Rightarrow> uint32 option" where
  "rd buf i = (if i < length buf then Some (ucast (buf ! i)) else None)"

text \<open>The tail loop that discards the high bytes of a varint longer than 32 bits.\<close>

fun ReadVarint32_discard :: "nat \<Rightarrow> bytes \<Rightarrow> nat \<Rightarrow> uint32 \<Rightarrow> (uint32 \<times> nat) option option" where
  "ReadVarint32_discard 0 buf ptr result = Some None"
| "ReadVarint32_discard (Suc n) buf ptr result =
     do {
       b \<leftarrow> rd buf ptr;
       if b AND 0x80 = 0 then Some (Some (result, ptr + 1))
       else ReadVarint32_discard n buf (ptr + 1) result
     }"

definition ReadVarint32FromArray :: "bytes \<Rightarrow> (uint32 \<times> nat) option option" where
  "ReadVarint32FromArray buf =
     do {
       b \<leftarrow> rd buf 0;
       let result = b AND 0x7F;
       if b AND 0x80 = 0 then Some (Some (result, 1)) else do {
       b \<leftarrow> rd buf 1;
       let result = result OR push_bit 7 (b AND 0x7F);
       if b AND 0x80 = 0 then Some (Some (result, 2)) else do {
       b \<leftarrow> rd buf 2;
       let result = result OR push_bit 14 (b AND 0x7F);
       if b AND 0x80 = 0 then Some (Some (result, 3)) else do {
       b \<leftarrow> rd buf 3;
       let result = result OR push_bit 21 (b AND 0x7F);
       if b AND 0x80 = 0 then Some (Some (result, 4)) else do {
       b \<leftarrow> rd buf 4;
       let result = result OR push_bit 28 b;
       if b AND 0x80 = 0 then Some (Some (result, 5)) else
       ReadVarint32_discard (kMaxVarintBytes - kMaxVarint32Bytes) buf 5 result }}}}
     }"

text \<open>The fast path of \<^verbatim>\<open>ReadVarint64Fallback\<close>: three parts of 28, 28 and 8 bits.\<close>

definition ReadVarint64_join :: "uint32 \<Rightarrow> uint32 \<Rightarrow> uint32 \<Rightarrow> uint64" where
  "ReadVarint64_join part0 part1 part2 =
     ucast part0 OR push_bit 28 (ucast part1) OR push_bit 56 (ucast part2)"

definition ReadVarint64FromArray :: "bytes \<Rightarrow> (uint64 \<times> nat) option option" where
  "ReadVarint64FromArray buf =
     do {
       b \<leftarrow> rd buf 0; let part0 = b AND 0x7F;
       if b AND 0x80 = 0 then Some (Some (ReadVarint64_join part0 0 0, 1)) else do {
       b \<leftarrow> rd buf 1; let part0 = part0 OR push_bit 7 (b AND 0x7F);
       if b AND 0x80 = 0 then Some (Some (ReadVarint64_join part0 0 0, 2)) else do {
       b \<leftarrow> rd buf 2; let part0 = part0 OR push_bit 14 (b AND 0x7F);
       if b AND 0x80 = 0 then Some (Some (ReadVarint64_join part0 0 0, 3)) else do {
       b \<leftarrow> rd buf 3; let part0 = part0 OR push_bit 21 (b AND 0x7F);
       if b AND 0x80 = 0 then Some (Some (ReadVarint64_join part0 0 0, 4)) else do {
       b \<leftarrow> rd buf 4; let part1 = b AND 0x7F;
       if b AND 0x80 = 0 then Some (Some (ReadVarint64_join part0 part1 0, 5)) else do {
       b \<leftarrow> rd buf 5; let part1 = part1 OR push_bit 7 (b AND 0x7F);
       if b AND 0x80 = 0 then Some (Some (ReadVarint64_join part0 part1 0, 6)) else do {
       b \<leftarrow> rd buf 6; let part1 = part1 OR push_bit 14 (b AND 0x7F);
       if b AND 0x80 = 0 then Some (Some (ReadVarint64_join part0 part1 0, 7)) else do {
       b \<leftarrow> rd buf 7; let part1 = part1 OR push_bit 21 (b AND 0x7F);
       if b AND 0x80 = 0 then Some (Some (ReadVarint64_join part0 part1 0, 8)) else do {
       b \<leftarrow> rd buf 8; let part2 = b AND 0x7F;
       if b AND 0x80 = 0 then Some (Some (ReadVarint64_join part0 part1 part2, 9)) else do {
       b \<leftarrow> rd buf 9; let part2 = part2 OR push_bit 7 (b AND 0x7F);
       if b AND 0x80 = 0 then Some (Some (ReadVarint64_join part0 part1 part2, 10)) else
       Some None }}}}}}}}}
     }"

section \<open>The reference\<close>

definition last_byte :: "nat \<Rightarrow> byte" where
  "last_byte n = of_nat (n mod 128)"

definition cont_byte :: "nat \<Rightarrow> byte" where
  "cont_byte n = of_nat (n mod 128 + 128)"

fun varint :: "nat \<Rightarrow> bytes" where
  "varint n = (if n < 128 then [last_byte n] else cont_byte n # varint (n div 128))"

declare varint.simps [simp del]

fun unvarint :: "bytes \<Rightarrow> (nat \<times> bytes) option" where
  "unvarint [] = None"
| "unvarint (b # bs) =
     (if b < 128 then Some (unat b, bs)
      else case unvarint bs of
          None \<Rightarrow> None
        | Some (v, rest) \<Rightarrow> Some (unat b mod 128 + 128 * v, rest))"

text \<open>A complete varint at the front of a list: all bytes but the last are at least 128.\<close>

fun is_varint :: "bytes \<Rightarrow> bool" where
  "is_varint [] = False"
| "is_varint (b # bs) = (if b < 128 then bs = [] else is_varint bs)"

fun varint_value :: "bytes \<Rightarrow> nat" where
  "varint_value [] = 0"
| "varint_value (b # bs) = unat b mod 128 + 128 * varint_value bs"

section \<open>Bytes of a varint\<close>

lemma or_push_bit_of_nat:
  assumes "v < 2 ^ k"
  shows "(of_nat v :: 'a::len word) OR push_bit k (of_nat w) = of_nat (v + w * 2 ^ k)"
proof -
  have v: "take_bit k v = v"
    using assms by (simp add: take_bit_nat_eq_self)
  have "v AND push_bit k w = 0"
    by (subst v [symmetric]) (auto intro!: bit_eqI simp: bit_simps)
  then have "v + push_bit k w = v OR push_bit k w"
    by (simp add: disjunctive_add_eq_or)
  then have "v + w * 2 ^ k = v OR push_bit k w"
    by (simp add: push_bit_eq_mult)
  then show ?thesis
    by (auto intro!: bit_word_eqI simp: bit_simps)
qed

lemma ucast_byte_of_nat: "(ucast b :: 'a::len word) = of_nat (unat b)" for b :: byte
  by simp

lemma and_7F_take_bit: "x AND 0x7F = take_bit 7 x" for x :: "'a::len word"
proof -
  have "(0x7F :: 'a word) = mask 7"
    by (simp add: mask_eq_exp_minus_1)
  then show ?thesis
    by (simp add: take_bit_eq_mask)
qed

lemma and_7F: "(of_nat n :: 'a::len word) AND 0x7F = of_nat (n mod 128)"
proof -
  have "n mod 128 = take_bit 7 n"
    by (simp add: take_bit_nat_def)
  then show ?thesis
    by (auto intro!: bit_word_eqI simp: and_7F_take_bit bit_simps)
qed

lemma bit7_byte: "bit b 7 \<longleftrightarrow> \<not> b < 128" for b :: byte
proof -
  have "unat b < 256"
    using unsigned_less [of b] by simp
  moreover have "bit b 7 \<longleftrightarrow> bit (unat b) 7"
    by (simp add: bit_unsigned_iff)
  moreover have "unat b div 128 = (if unat b < 128 then 0 else 1)" if "unat b < 256"
    using that by (auto intro!: div_nat_eqI)
  ultimately show ?thesis
    by (simp add: word_less_nat_alt bit_iff_odd)
qed

lemma byte_msb_clear: "(ucast b :: uint32) AND 0x80 = 0 \<longleftrightarrow> b < 128" for b :: byte
proof -
  have "(ucast b :: uint32) AND 2 ^ 7 \<noteq> 0 \<longleftrightarrow> bit (ucast b :: uint32) 7"
    by (rule and_pow2_neq_0)
  moreover have "bit (ucast b :: uint32) 7 \<longleftrightarrow> bit b 7"
    by (simp add: bit_simps)
  ultimately show ?thesis
    by (simp add: bit7_byte)
qed

lemma bit_128_int: "bit (128 :: int) n \<longleftrightarrow> n = 7"
proof -
  have "bit (2 ^ 7 :: int) n \<longleftrightarrow> n = 7"
    by (simp only: bit_exp_iff possible_bit_int) auto
  then show ?thesis by simp
qed

lemma byte_cont:
  fixes v :: "'a::len word"
  assumes "8 \<le> LENGTH('a)"
  shows "(ucast (drop_bit k v OR 0x80) :: byte) = cont_byte (unat v div 2 ^ k)"
proof -
  have m: "unat v div 2 ^ k mod 128 = take_bit 7 (drop_bit k (unat v))"
    by (simp add: take_bit_nat_def drop_bit_nat_def)
  have "of_nat (take_bit 7 m + 1 * 2 ^ 7) = (of_nat (take_bit 7 m) :: byte) OR push_bit 7 (of_nat 1)" for m
    by (rule or_push_bit_of_nat [symmetric]) (rule take_bit_nat_less_exp)
  then have r: "of_nat (take_bit 7 m + 128) = (of_nat (take_bit 7 m) :: byte) OR push_bit 7 1" for m
    by (simp del: of_nat_add)
  show ?thesis
    unfolding cont_byte_def m r using assms
    by (auto intro!: bit_word_eqI simp: bit_simps bit_128_int)
qed

lemma cont_byte_and [simp]: "cont_byte n AND 0x7F = last_byte n"
  by (simp add: cont_byte_def last_byte_def and_7F del: of_nat_add)

lemma unat_last_byte [simp]: "unat (last_byte n) = n mod 128"
  by (simp add: last_byte_def unat_of_nat)

lemma unat_cont_byte [simp]: "unat (cont_byte n) = n mod 128 + 128"
  by (simp add: cont_byte_def unat_of_nat del: of_nat_add)

lemma last_byte_less [simp]: "last_byte n < 128"
  by (simp add: word_less_nat_alt)

lemma cont_byte_less [simp]: "\<not> cont_byte n < 128"
  by (simp add: word_less_nat_alt)

lemma ucast_last_byte: "unat v < 128 \<Longrightarrow> (ucast v :: byte) = last_byte (unat v)" for v :: "'a::len word"
  by (simp add: last_byte_def of_nat_unat)

lemma unat_ge_pow2: "v \<ge> push_bit k 1 \<longleftrightarrow> unat v \<ge> 2 ^ k" if "k < LENGTH('a)" for v :: "'a::len word"
proof -
  have "(push_bit k 1 :: 'a word) = of_nat (2 ^ k)"
    by simp
  then have "unat (push_bit k 1 :: 'a word) = 2 ^ k"
    using that by (simp only: unsigned_of_nat) (simp add: take_bit_nat_eq_self)
  then show ?thesis
    by (simp add: word_le_nat_alt)
qed

lemma unat_less_pow2: "v < push_bit k 1 \<longleftrightarrow> unat v < 2 ^ k" if "k < LENGTH('a)" for v :: "'a::len word"
  using unat_ge_pow2 [OF that, of v] by (simp add: not_le [symmetric])

lemma varint_small: "n < 128 \<Longrightarrow> varint n = [last_byte n]"
  by (simp add: varint.simps)

lemma varint_big: "128 \<le> n \<Longrightarrow> varint n = cont_byte n # varint (n div 128)"
  by (subst varint.simps) simp

lemmas byte_cont32 = byte_cont [where 'a = 32, simplified] byte_cont [where 'a = 32 and k = 0, simplified]

lemma unat_drop_bit [simp]: "unat (drop_bit k v) = unat v div 2 ^ k" for v :: "'a::len word"
  using unsigned_less [of v] by (simp add: unsigned_drop_bit_eq drop_bit_nat_def take_bit_nat_eq_self)

lemma WriteVarint32FallbackToArrayInline_eq:
  "WriteVarint32FallbackToArrayInline v t = t @ varint (unat v)"
proof -
  have "unat v < 2 ^ 32"
    using unsigned_less [of v] by simp
  moreover have "(ucast (drop_bit 28 v) :: byte) = of_nat (drop_bit 28 (unat v))"
    by (rule bit_word_eqI) (auto simp: bit_simps)
  ultimately have "(ucast (drop_bit 28 v) :: byte) = last_byte (unat v div 268435456)"
    by (simp add: drop_bit_nat_def last_byte_def)
  with \<open>unat v < 2 ^ 32\<close> show ?thesis
    by (simp add: WriteVarint32FallbackToArrayInline_def Let_def unat_ge_pow2 byte_cont32 varint_small varint_big
       div_mult2_eq [symmetric] del: push_bit_of_1)
qed

lemma WriteVarint32ToArray_eq [wire]: "WriteVarint32ToArray v t = t @ varint (unat v)"
  by (simp add: WriteVarint32ToArray_def WriteVarint32FallbackToArray_def word_less_nat_alt
      WriteVarint32FallbackToArrayInline_eq varint_small ucast_last_byte)
text \<open>The three 32-bit parts of a 64-bit value carry its bytes.\<close>

lemma part_byte:
  assumes "k + 7 \<le> 32"
  shows "cont_byte (take_bit 32 n div 2 ^ k) = cont_byte (n div 2 ^ k)"
proof -
  have "take_bit 7 (drop_bit k (take_bit 32 n)) = take_bit 7 (drop_bit k n)"
    using assms by (auto intro!: bit_eqI simp: bit_simps)
  then show ?thesis
    by (simp add: cont_byte_def take_bit_nat_def drop_bit_nat_def)
qed

lemma ucast_or_80 [simp]:
  fixes v :: uint32
  shows "(ucast (drop_bit k v OR 0x80) :: byte) = cont_byte (unat v div 2 ^ k)"
    "(ucast (v OR 0x80) :: byte) = cont_byte (unat v)"
  using byte_cont [of k v] byte_cont [of 0 v] by simp_all

lemma WriteVarint64ToArrayInline_eq:
  "WriteVarint64ToArrayInline v t = t @ varint (unat v)"
proof -
  define N where "N = unat v"
  have N: "N < 2 ^ 64"
    using unsigned_less [of v] by (simp add: N_def)
  have p: "unat (ucast (drop_bit k v) :: uint32) = take_bit 32 (N div 2 ^ k)" for k
    by (simp add: N_def unsigned_ucast_eq)
  note p0 = p [of 0, simplified]
  have small: "take_bit 32 m = m" if "m < 2 ^ 32" for m :: nat
    using that by (simp add: take_bit_nat_eq_self)
  note rules = WriteVarint64ToArrayInline_def Let_def WriteVarint64_size_def p p0 small
     N_def [symmetric] unat_eq_0 [symmetric] part_byte [of 0, simplified] part_byte [of 7, simplified]
     part_byte [of 14, simplified] part_byte [of 21, simplified] div_less_iff_less_mult div_greater_zero_iff div_eq_0_iff
     unat_less_pow2
     varint_small varint_big div_mult2_eq [symmetric]
  consider "N < 2^7" | "2^7 \<le> N" "N < 2^14" | "2^14 \<le> N" "N < 2^21"| "2^21 \<le> N" "N < 2^28"
    | "2^28 \<le> N" "N < 2^35"| "2^35 \<le> N" "N < 2^42"| "2^42 \<le> N" "N < 2^49"| "2^49 \<le> N" "N < 2^56"
    | "2^56 \<le> N" "N < 2^63"| "2^63 \<le> N" "N < 2^64"
    using N by linarith
  then show ?thesis
    by cases (simp_all add: rules del: push_bit_of_1)
qed
lemma WriteVarint64ToArray_eq [wire]: "WriteVarint64ToArray v t = t @ varint (unat v)"
  by (simp add: WriteVarint64ToArray_def WriteVarint64ToArrayInline_eq)


text \<open>The composing loop of the slow path writes the same bytes in the room it has.\<close>

lemma WriteVarint_compose_eq:
  "unat v < 128 ^ room \<Longrightarrow> 0 < room \<Longrightarrow> WriteVarint_compose v room = varint (unat v)"
proof (induction v room rule: WriteVarint_compose.induct)
  case (1 v)
  then show ?case by simp
next
  case (2 v room)
  have l: "v > 0x7F \<longleftrightarrow> 128 \<le> unat v"
    by (simp add: word_less_nat_alt) linarith
  have a: "(ucast v :: byte) AND 0x7F = last_byte (unat v)"
  proof -
    have "(ucast v :: byte) = of_nat (unat v)" by simp
    then show ?thesis by (simp only: and_7F last_byte_def)
  qed
  show ?case
  proof (cases "128 \<le> unat v")
    case True
    have "unat (drop_bit 7 v) < 128 ^ room"
      using "2.prems" by (simp add: div_less_iff_less_mult mult.commute)
    moreover have "0 < room"
      using "2.prems" True by (cases room) auto
    ultimately have "WriteVarint_compose (drop_bit 7 v) room = varint (unat v div 128)"
      using "2.IH" True l by simp
    moreover have "last_byte (unat v) OR 0x80 = cont_byte (unat v)"
      using or_push_bit_of_nat [of "unat v mod 128" 7 1, where 'a = 8]
      by (simp add: last_byte_def cont_byte_def del: of_nat_add)
    ultimately show ?thesis
      using True l a by (simp add: varint_big)
  next
    case False
    then show ?thesis
      using l a by (simp add: varint_small)
  qed
qed

text \<open>Sizes.\<close>

lemma length_varint_pos [simp]: "0 < length (varint n)"
  by (subst varint.simps) simp

lemma VarintSize32_eq [wire]: "VarintSize32 v = length (varint (unat v))"
proof -
  have "unat v < 2 ^ 32"
    using unsigned_less [of v] by simp
  then show ?thesis
    by (simp add: VarintSize32_def VarintSize32Fallback_def unat_less_pow2 varint_small varint_big
        div_mult2_eq [symmetric] div_less_iff_less_mult del: push_bit_of_1)
qed

lemma length_varint_le:
  "n < 128 ^ k \<Longrightarrow> 0 < k \<Longrightarrow> length (varint n) \<le> k"
proof (induction k arbitrary: n)
  case (Suc k)
  show ?case
  proof (cases "n < 128")
    case False
    with Suc.prems have "n div 128 < 128 ^ k" "0 < k"
      by (auto simp: div_less_iff_less_mult mult.commute intro: gr0I)
    with Suc.IH False show ?thesis
      by (simp add: varint_big)
  qed (simp add: varint_small)
qed simp

lemma length_varint_ge:
  "128 ^ k \<le> n \<Longrightarrow> k < length (varint n)"
proof (induction k arbitrary: n)
  case (Suc k)
  then have "128 ^ k \<le> n div 128" "128 \<le> n"
    by (auto simp: less_eq_div_iff_mult_less_eq mult.commute intro: order_trans [rotated])
  with Suc.IH show ?case
    by (simp add: varint_big)
next
  case 0
  show ?case by (rule length_varint_pos)
qed

lemma length_varint_eq:
  assumes "128 ^ k \<le> n" "n < 128 ^ Suc k"
  shows "length (varint n) = Suc k"
  using length_varint_le [OF assms(2)] length_varint_ge [OF assms(1)] by simp

lemma VarintSize64_eq [wire]: "VarintSize64 v = length (varint (unat v))"
proof -
  define N where "N = unat v"
  have N: "N < 2 ^ 64"
    using unsigned_less [of v] by (simp add: N_def)
  have L: "length (varint N) = Suc k" if "128 ^ k \<le> N" "N < 128 ^ Suc k" for k
    using that by (rule length_varint_eq)
  note r = VarintSize64_def unat_less_pow2 N_def [symmetric] varint_small
    L [of 1, simplified] L [of 2, simplified] L [of 3, simplified] L [of 4, simplified] L [of 5, simplified]
    L [of 6, simplified] L [of 7, simplified] L [of 8, simplified] L [of 9, simplified]
  consider "N < 128" | "128 ^ 1 \<le> N" "N < 128 ^ 2" | "128 ^ 2 \<le> N" "N < 128 ^ 3"
    | "128 ^ 3 \<le> N" "N < 128 ^ 4" | "128 ^ 4 \<le> N" "N < 128 ^ 5" | "128 ^ 5 \<le> N" "N < 128 ^ 6"
    | "128 ^ 6 \<le> N" "N < 128 ^ 7" | "128 ^ 7 \<le> N" "N < 128 ^ 8" | "128 ^ 8 \<le> N" "N < 128 ^ 9"
    | "128 ^ 9 \<le> N" "N < 128 ^ 10"
    using N by (simp, linarith)
  then show ?thesis
    by cases (simp_all add: r del: push_bit_of_1)
qed


section \<open>Reading back\<close>

lemma varint_value_append:
  "varint_value (xs @ ys) = varint_value xs + 128 ^ length xs * varint_value ys"
  by (induction xs) (auto simp: algebra_simps)

lemma varint_value_less: "varint_value xs < 128 ^ length xs"
proof (induction xs)
  case (Cons b xs)
  have "unat b mod 128 < 128" by simp
  with Cons show ?case by simp
qed simp

lemma is_varint_varint [simp]: "is_varint (varint n)"
proof (induction n rule: varint.induct)
  case (1 n)
  then show ?case
    by (cases "n < 128") (simp_all add: varint_small varint_big)
qed

lemma varint_value_varint [simp]: "varint_value (varint n) = n"
proof (induction n rule: varint.induct)
  case (1 n)
  then show ?case
    by (cases "n < 128") (simp_all add: varint_small varint_big)
qed

lemma is_varintE:
  assumes "is_varint bs"
  obtains b where "bs = [b]" "b < 128"
    | b cs where "bs = b # cs" "\<not> b < 128" "is_varint cs"
  using assms by (cases bs) (auto split: if_splits)

lemma rd_simps [simp]:
  "rd (b # bs) 0 = Some (ucast b)"
  "rd (b # bs) (Suc n) = rd bs n"
  "rd (b # bs) (numeral k) = rd bs (pred_numeral k)"
  "rd [] n = None"
  by (simp_all add: rd_def numeral_eq_Suc)

lemma low7: "(ucast b :: 'a::len word) AND 0x7F = of_nat (varint_value [b])" for b :: byte
proof -
  have "(ucast b :: 'a word) = of_nat (unat b)" by simp
  then show ?thesis by (simp only: and_7F) simp
qed

lemma or_step:
  "7 * length xs = k \<Longrightarrow>
   (of_nat (varint_value xs) :: 'a::len word) OR push_bit k (of_nat (varint_value [b])) =
     of_nat (varint_value (xs @ [b]))"
proof -
  assume k: "7 * length xs = k"
  have "(128 :: nat) ^ length xs = 2 ^ k"
    by (simp add: k [symmetric] power_mult)
  with varint_value_less [of xs] or_push_bit_of_nat [of "varint_value xs" k "varint_value [b]", where 'a = 'a]
  show ?thesis
    by (simp add: varint_value_append mult.commute del: of_nat_add varint_value.simps)
qed

lemma shift28: "push_bit 28 (ucast b :: uint32) = push_bit 28 (of_nat (varint_value [b]))" for b :: byte
  by (subst low7 [symmetric]) (auto intro!: bit_word_eqI simp: bit_simps and_7F_take_bit)

lemma value_high32:
  assumes "5 \<le> length xs"
  shows "(of_nat (varint_value (xs @ ys)) :: uint32) = of_nat (varint_value xs)"
proof -
  have "(128 ^ length xs :: uint32) = 2 ^ (7 * length xs)"
    by (simp add: power_mult)
  also have "\<dots> = 0"
    using assms by (simp add: exp_eq_zero_iff)
  finally have "(128 ^ length xs :: uint32) = 0" .
  then show ?thesis
    by (simp add: varint_value_append)
qed

lemma discard_varint:
  "is_varint bs \<Longrightarrow> length bs \<le> n \<Longrightarrow>
   ReadVarint32_discard n (pre @ bs @ rest) (length pre) r = Some (Some (r, length pre + length bs))"
proof (induction n arbitrary: bs pre)
  case (Suc n)
  from Suc.prems(1) show ?case
  proof (cases rule: is_varintE)
    case (1 b)
    then show ?thesis by (simp add: rd_def byte_msb_clear)
  next
    case (2 b cs)
    with Suc.prems Suc.IH [of cs "pre @ [b]"] show ?thesis
      by (simp add: rd_def byte_msb_clear)
  qed
qed simp

lemma discard_overrun:
  "\<forall>b \<in> set bs. \<not> b < 128 \<Longrightarrow> length bs = n \<Longrightarrow>
   ReadVarint32_discard n (pre @ bs @ rest) (length pre) r = Some None"
proof (induction n arbitrary: bs pre)
  case (Suc n)
  then obtain b cs where "bs = b # cs"
    by (cases bs) auto
  with Suc.prems Suc.IH [of cs "pre @ [b]"] show ?case
    by (simp add: rd_def byte_msb_clear)
qed simp

lemma bind_weak_cong: "m = m' \<Longrightarrow> Option.bind m f = Option.bind m' f"
  by simp

lemma ReadVarint32FromArray_varint:
  assumes "is_varint bs" "length bs \<le> 10"
  shows "ReadVarint32FromArray (bs @ rest) = Some (Some (of_nat (varint_value bs), length bs))"
proof -
  have d: "\<forall>b0 b1 b2 b3 b4 r. ReadVarint32_discard 5 (b0 # b1 # b2 # b3 # b4 # cs @ rest) 5 r =
      Some (Some (r, 5 + length cs))" if "is_varint cs" "length cs \<le> 5" for cs :: bytes
    using discard_varint [OF that, of "[_, _, _, _, _]" rest] by (simp add: eval_nat_numeral)
  have v: "(of_nat (varint_value (b0 # b1 # b2 # b3 # b4 # cs)) :: uint32) = of_nat (varint_value [b0, b1, b2, b3, b4])"
    for b0 b1 b2 b3 b4 cs
    using value_high32 [of "[b0, b1, b2, b3, b4]" cs] by simp
  have v: "(of_nat (varint_value (b0 # b1 # b2 # b3 # b4 # c # cs)) :: uint32) = of_nat (varint_value [b0, b1, b2, b3, b4])"
    for b0 b1 b2 b3 b4 c cs
    using v .
  note r = ReadVarint32FromArray_def byte_msb_clear low7 or_step Let_def shift28 kMaxVarintBytes_def kMaxVarint32Bytes_def
  show ?thesis using assms
    apply (elim is_varintE [where bs = bs])
    apply (simp add: r del: varint_value.simps cong: bind_weak_cong)
    apply (erule is_varintE, simp add: r del: varint_value.simps cong: bind_weak_cong)
    apply (erule is_varintE, simp add: r del: varint_value.simps cong: bind_weak_cong)
    apply (erule is_varintE, simp add: r del: varint_value.simps cong: bind_weak_cong)
    apply (erule is_varintE, simp add: r del: varint_value.simps cong: bind_weak_cong)
    apply (frule d, simp)
    apply (erule is_varintE; simp add: r v del: varint_value.simps cong: bind_weak_cong)
    done
qed
lemma ReadVarint32FromArray_overrun:
  assumes "\<forall>b \<in> set bs. \<not> b < 128" "length bs = 10"
  shows "ReadVarint32FromArray (bs @ rest) = Some None"
proof -
  obtain b0 b1 b2 b3 b4 cs where bs: "bs = b0 # b1 # b2 # b3 # b4 # cs" "length cs = 5"
    using assms(2) by (auto simp: eval_nat_numeral length_Suc_conv)
  have "ReadVarint32_discard 5 (b0 # b1 # b2 # b3 # b4 # cs @ rest) 5 r = Some None" for r
    using discard_overrun [of cs 5 "[b0, b1, b2, b3, b4]" rest r] bs assms(1) by (simp add: eval_nat_numeral)
  with bs assms(1) show ?thesis
    by (simp add: ReadVarint32FromArray_def byte_msb_clear Let_def kMaxVarintBytes_def kMaxVarint32Bytes_def)
qed

lemma ucast_of_nat_small: "n < 2 ^ 32 \<Longrightarrow> (ucast (of_nat n :: uint32) :: uint64) = of_nat n"
  by (simp add: unsigned_of_nat take_bit_nat_eq_self)

lemma join_parts:
  assumes "length xs = 4 \<or> ys = []" "length ys = 4 \<or> zs = []" "length xs \<le> 4" "length ys \<le> 4" "length zs \<le> 2"
  shows "ReadVarint64_join (of_nat (varint_value xs)) (of_nat (varint_value ys)) (of_nat (varint_value zs)) =
    of_nat (varint_value (xs @ ys @ zs))"
proof -
  have p: "varint_value ws < 128 ^ k" if "length ws \<le> k" for ws k
    using less_le_trans [OF varint_value_less power_increasing [OF that, of "128 :: nat"]] by simp
  have lt: "varint_value xs < 2 ^ 28" "varint_value ys < 2 ^ 28" "varint_value zs < 2 ^ 28"
    using p [of xs 4] p [of ys 4] p [of zs 2] assms by simp_all
  have a: "varint_value (xs @ ys) < 2 ^ 56"
    using p [of "xs @ ys" 8] assms by simp
  have "varint_value (xs @ ys) = varint_value xs + varint_value ys * 2 ^ 28"
    using assms by (auto simp: varint_value_append)
  moreover have "varint_value (xs @ ys @ zs) = varint_value (xs @ ys) + varint_value zs * 2 ^ 56"
    using assms varint_value_append [of "xs @ ys" zs] by auto
  ultimately show ?thesis
    using or_push_bit_of_nat [of "varint_value xs" 28 "varint_value ys", where 'a = 64]
      or_push_bit_of_nat [OF a, of "varint_value zs", where 'a = 64] lt
    by (simp add: ReadVarint64_join_def ucast_of_nat_small or.assoc [symmetric] del: of_nat_add)
qed

lemma ReadVarint64FromArray_varint:
  assumes "is_varint bs" "length bs \<le> 10"
  shows "ReadVarint64FromArray (bs @ rest) = Some (Some (of_nat (varint_value bs), length bs))"
proof -
  have j1: "ReadVarint64_join (of_nat (varint_value xs)) 0 0 = of_nat (varint_value xs)" if "length xs \<le> 4" for xs
    using join_parts [of xs "[]" "[]"] that by simp
  have j2: "ReadVarint64_join (of_nat (varint_value xs)) (of_nat (varint_value ys)) 0 = of_nat (varint_value (xs @ ys))"
    if "length xs = 4" "length ys \<le> 4" for xs ys
    using join_parts [of xs ys "[]"] that by simp
  note j = j1 j2 join_parts
  note r = ReadVarint64FromArray_def byte_msb_clear low7 or_step Let_def j
  show ?thesis using assms
    apply (elim is_varintE [where bs = bs])
    apply (simp add: r del: varint_value.simps cong: bind_weak_cong)
    apply (erule is_varintE, simp add: r del: varint_value.simps cong: bind_weak_cong)
    apply (erule is_varintE, simp add: r del: varint_value.simps cong: bind_weak_cong)
    apply (erule is_varintE, simp add: r del: varint_value.simps cong: bind_weak_cong)
    apply (erule is_varintE, simp add: r del: varint_value.simps cong: bind_weak_cong)
    apply (erule is_varintE, simp add: r del: varint_value.simps cong: bind_weak_cong)
    apply (erule is_varintE, simp add: r del: varint_value.simps cong: bind_weak_cong)
    apply (erule is_varintE, simp add: r del: varint_value.simps cong: bind_weak_cong)
    apply (erule is_varintE, simp add: r del: varint_value.simps cong: bind_weak_cong)
    apply (erule is_varintE, simp add: r del: varint_value.simps cong: bind_weak_cong)
    apply (erule is_varintE; simp)
    done
qed

lemma ReadVarint64FromArray_overrun:
  assumes "\<forall>b \<in> set bs. \<not> b < 128" "length bs = 10"
  shows "ReadVarint64FromArray (bs @ rest) = Some None"
  using assms by (auto simp: eval_nat_numeral length_Suc_conv ReadVarint64FromArray_def byte_msb_clear Let_def)

text \<open>
  What the test of the fast paths guarantees: with ten bytes in the buffer, or a
  final byte without continuation bit, the unchecked reader stays inside it.
\<close>

lemma varint_prefix:
  assumes "10 \<le> length buf \<or> (buf \<noteq> [] \<and> last buf < 128)"
  shows "(\<exists>bs rest. buf = bs @ rest \<and> is_varint bs \<and> length bs \<le> 10) \<or>
    (\<exists>bs rest. buf = bs @ rest \<and> length bs = 10 \<and> (\<forall>b \<in> set bs. \<not> b < 128))"
proof -
  have P: "(\<exists>bs rest. buf = bs @ rest \<and> is_varint bs \<and> length bs \<le> n) \<or>
      (\<exists>bs rest. buf = bs @ rest \<and> length bs = n \<and> (\<forall>b \<in> set bs. \<not> b < 128))"
    if "n \<le> length buf \<or> (buf \<noteq> [] \<and> last buf < 128)" for n and buf :: bytes
    using that
  proof (induction n arbitrary: buf)
    case 0
    then show ?case by auto
  next
    case (Suc n)
    then obtain b cs where buf: "buf = b # cs"
      by (cases buf) auto
    show ?case
    proof (cases "b < 128")
      case True
      then have "is_varint [b]" "buf = [b] @ cs"
        using buf by simp_all
      then show ?thesis
        by (intro disjI1) (metis One_nat_def Suc_le_mono le0 length_Cons list.size(3))
    next
      case False
      with Suc.prems buf have "n \<le> length cs \<or> (cs \<noteq> [] \<and> last cs < 128)"
        by (auto split: if_splits)
      from Suc.IH [OF this] show ?thesis
      proof (elim disjE exE conjE)
        fix bs rest
        assume "cs = bs @ rest" "is_varint bs" "length bs \<le> n"
        with buf False have "buf = (b # bs) @ rest \<and> is_varint (b # bs) \<and> length (b # bs) \<le> Suc n"
          by simp
        then show ?thesis by blast
      next
        fix bs rest
        assume "cs = bs @ rest" "length bs = n" "\<forall>b\<in>set bs. \<not> b < 128"
        with buf False have "buf = (b # bs) @ rest \<and> length (b # bs) = Suc n \<and> (\<forall>b\<in>set (b # bs). \<not> b < 128)"
          by simp
        then show ?thesis by blast
      qed
    qed
  qed
  show ?thesis
    by (rule P [OF assms])
qed

lemma is_varint_unique:
  "is_varint xs \<Longrightarrow> is_varint ys \<Longrightarrow> xs @ r = ys @ r' \<Longrightarrow> xs = ys"
proof (induction xs arbitrary: ys)
  case (Cons x xs)
  then show ?case
    by (cases ys) (auto split: if_splits)
qed simp

lemma is_varint_not_overrun:
  "is_varint xs \<Longrightarrow> \<forall>b \<in> set ys. \<not> b < 128 \<Longrightarrow> length xs \<le> length ys \<Longrightarrow> xs @ r \<noteq> ys @ r'"
proof (induction xs arbitrary: ys)
  case (Cons x xs)
  then show ?case
    by (cases ys) (auto split: if_splits)
qed simp

end
