(* ===== verification/Wire_Format.thy ===== *)
theory Wire_Format
  imports Varint
begin

text \<open>
  The wire format of \<^verbatim>\<open>wire_format_lite.h\<close>, \<^verbatim>\<open>wire_format_lite_inl.h\<close> and
  \<^verbatim>\<open>wire_format.cc\<close>: tags, the \<^verbatim>\<open>Write...ToArray\<close> and \<^verbatim>\<open>...Size\<close> routines that the
  generated messages call, and the set of unknown fields that every message
  carries (\<^verbatim>\<open>unknown_field_set.cc\<close>) with its serialization.

  A \<^verbatim>\<open>float\<close> is its bit pattern, so \<open>EncodeFloat\<close> and \<open>DecodeFloat\<close> are the
  identity. A C++ \<^verbatim>\<open>int\<close> that holds a byte count is a natural number: the counts
  of the model do not wrap, and the theorems that read a count back as 32 bits
  carry the bound under which the C++ does not wrap either.
\<close>

section \<open>Tags\<close>

definition WIRETYPE_VARINT :: uint32 where "WIRETYPE_VARINT = 0"
definition WIRETYPE_FIXED64 :: uint32 where "WIRETYPE_FIXED64 = 1"
definition WIRETYPE_LENGTH_DELIMITED :: uint32 where "WIRETYPE_LENGTH_DELIMITED = 2"
definition WIRETYPE_START_GROUP :: uint32 where "WIRETYPE_START_GROUP = 3"
definition WIRETYPE_END_GROUP :: uint32 where "WIRETYPE_END_GROUP = 4"
definition WIRETYPE_FIXED32 :: uint32 where "WIRETYPE_FIXED32 = 5"

lemmas wiretypes = WIRETYPE_VARINT_def WIRETYPE_FIXED64_def WIRETYPE_LENGTH_DELIMITED_def
  WIRETYPE_START_GROUP_def WIRETYPE_END_GROUP_def WIRETYPE_FIXED32_def

definition kTagTypeBits :: nat where "kTagTypeBits = 3"

definition kTagTypeMask :: uint32 where "kTagTypeMask = push_bit kTagTypeBits 1 - 1"

definition MakeTag :: "int32 \<Rightarrow> uint32 \<Rightarrow> uint32" where
  "MakeTag field_number type = push_bit kTagTypeBits field_number OR type"

definition GetTagWireType :: "uint32 \<Rightarrow> uint32" where
  "GetTagWireType tag = tag AND kTagTypeMask"

definition GetTagFieldNumber :: "uint32 \<Rightarrow> int32" where
  "GetTagFieldNumber tag = drop_bit kTagTypeBits tag"

section \<open>Writing\<close>

definition WriteTagToArray_raw :: "uint32 \<Rightarrow> bytes \<Rightarrow> bytes" where
  "WriteTagToArray_raw value target =
     (if value < push_bit 7 1 then target @ [ucast value]
      else if value < push_bit 14 1 then target @ [ucast (value OR 0x80), ucast (drop_bit 7 value)]
      else WriteVarint32FallbackToArray value target)"

definition WriteTagToArray :: "int32 \<Rightarrow> uint32 \<Rightarrow> bytes \<Rightarrow> bytes" where
  "WriteTagToArray field_number type target = WriteTagToArray_raw (MakeTag field_number type) target"

definition WriteLittleEndian32ToArray :: "uint32 \<Rightarrow> bytes \<Rightarrow> bytes" where
  "WriteLittleEndian32ToArray value target =
     target @ [ucast value, ucast (drop_bit 8 value), ucast (drop_bit 16 value), ucast (drop_bit 24 value)]"

definition WriteLittleEndian64ToArray :: "uint64 \<Rightarrow> bytes \<Rightarrow> bytes" where
  "WriteLittleEndian64ToArray value target =
     (let part0 = ucast value :: uint32; part1 = ucast (drop_bit 32 value) :: uint32
      in target @ [ucast part0, ucast (drop_bit 8 part0), ucast (drop_bit 16 part0), ucast (drop_bit 24 part0),
           ucast part1, ucast (drop_bit 8 part1), ucast (drop_bit 16 part1), ucast (drop_bit 24 part1)])"

definition WriteRawToArray :: "bytes \<Rightarrow> nat \<Rightarrow> bytes \<Rightarrow> bytes" where
  "WriteRawToArray data n target = target @ take n data"

definition WriteStringToArray_raw :: "bytes \<Rightarrow> bytes \<Rightarrow> bytes" where
  "WriteStringToArray_raw str target = WriteRawToArray str (length str) target"

definition WriteInt32ToArray :: "int32 \<Rightarrow> int32 \<Rightarrow> bytes \<Rightarrow> bytes" where
  "WriteInt32ToArray field_number value target =
     WriteVarint32SignExtendedToArray value (WriteTagToArray field_number WIRETYPE_VARINT target)"

definition WriteInt64ToArray :: "int32 \<Rightarrow> uint64 \<Rightarrow> bytes \<Rightarrow> bytes" where
  "WriteInt64ToArray field_number value target =
     WriteVarint64ToArray value (WriteTagToArray field_number WIRETYPE_VARINT target)"

definition WriteUInt32ToArray :: "int32 \<Rightarrow> uint32 \<Rightarrow> bytes \<Rightarrow> bytes" where
  "WriteUInt32ToArray field_number value target =
     WriteVarint32ToArray value (WriteTagToArray field_number WIRETYPE_VARINT target)"

definition WriteFixed32ToArray :: "int32 \<Rightarrow> uint32 \<Rightarrow> bytes \<Rightarrow> bytes" where
  "WriteFixed32ToArray field_number value target =
     WriteLittleEndian32ToArray value (WriteTagToArray field_number WIRETYPE_FIXED32 target)"

definition WriteFixed64ToArray :: "int32 \<Rightarrow> uint64 \<Rightarrow> bytes \<Rightarrow> bytes" where
  "WriteFixed64ToArray field_number value target =
     WriteLittleEndian64ToArray value (WriteTagToArray field_number WIRETYPE_FIXED64 target)"

definition WriteFloatToArray :: "int32 \<Rightarrow> float32 \<Rightarrow> bytes \<Rightarrow> bytes" where
  "WriteFloatToArray field_number value target =
     WriteLittleEndian32ToArray value (WriteTagToArray field_number WIRETYPE_FIXED32 target)"

definition WriteBoolToArray :: "int32 \<Rightarrow> bool \<Rightarrow> bytes \<Rightarrow> bytes" where
  "WriteBoolToArray field_number value target =
     WriteVarint32ToArray (if value then 1 else 0) (WriteTagToArray field_number WIRETYPE_VARINT target)"

definition WriteEnumToArray :: "int32 \<Rightarrow> int32 \<Rightarrow> bytes \<Rightarrow> bytes" where
  "WriteEnumToArray field_number value target =
     WriteVarint32SignExtendedToArray value (WriteTagToArray field_number WIRETYPE_VARINT target)"

definition WriteStringToArray :: "int32 \<Rightarrow> bytes \<Rightarrow> bytes \<Rightarrow> bytes" where
  "WriteStringToArray field_number value target =
     WriteStringToArray_raw value
       (WriteVarint32ToArray (of_nat (length value))
         (WriteTagToArray field_number WIRETYPE_LENGTH_DELIMITED target))"

definition WriteBytesToArray :: "int32 \<Rightarrow> bytes \<Rightarrow> bytes \<Rightarrow> bytes" where
  "WriteBytesToArray field_number value target =
     WriteStringToArray_raw value
       (WriteVarint32ToArray (of_nat (length value))
         (WriteTagToArray field_number WIRETYPE_LENGTH_DELIMITED target))"

text \<open>
  \<^verbatim>\<open>WriteMessageNoVirtualToArray\<close> is a template over the message type; the two
  members it calls, \<^verbatim>\<open>GetCachedSize\<close> and \<^verbatim>\<open>SerializeWithCachedSizesToArray\<close>, are its
  first arguments.
\<close>

definition WriteMessageNoVirtualToArray ::
    "('m \<Rightarrow> nat) \<Rightarrow> ('m \<Rightarrow> bytes \<Rightarrow> bytes) \<Rightarrow> int32 \<Rightarrow> 'm \<Rightarrow> bytes \<Rightarrow> bytes" where
  "WriteMessageNoVirtualToArray GetCachedSize SerializeWithCachedSizesToArray field_number value target =
     SerializeWithCachedSizesToArray value
       (WriteVarint32ToArray (of_nat (GetCachedSize value))
         (WriteTagToArray field_number WIRETYPE_LENGTH_DELIMITED target))"

section \<open>Sizes\<close>

definition Int32Size :: "int32 \<Rightarrow> nat" where
  "Int32Size value = VarintSize32SignExtended value"

definition UInt32Size :: "uint32 \<Rightarrow> nat" where
  "UInt32Size value = VarintSize32 value"

definition EnumSize :: "int32 \<Rightarrow> nat" where
  "EnumSize value = VarintSize32SignExtended value"

definition StringSize :: "bytes \<Rightarrow> nat" where
  "StringSize value = VarintSize32 (of_nat (length value)) + length value"

definition BytesSize :: "bytes \<Rightarrow> nat" where
  "BytesSize value = VarintSize32 (of_nat (length value)) + length value"

text \<open>
  \<^verbatim>\<open>MessageSizeNoVirtual\<close> calls \<^verbatim>\<open>ByteSize\<close>, which stores the size in the message:
  the result is the size and the message after the call.
\<close>

definition MessageSizeNoVirtual :: "('m \<Rightarrow> nat \<times> 'm) \<Rightarrow> 'm \<Rightarrow> nat \<times> 'm" where
  "MessageSizeNoVirtual ByteSize value =
     (let (size, value) = ByteSize value in (VarintSize32 (of_nat size) + size, value))"

section \<open>Unknown fields\<close>

text \<open>The field number is a bit field of 29 bits.\<close>

datatype unknown_field =
    TYPE_VARINT "29 word" uint64
  | TYPE_FIXED32 "29 word" uint32
  | TYPE_FIXED64 "29 word" uint64
  | TYPE_LENGTH_DELIMITED "29 word" bytes
  | TYPE_GROUP "29 word" "unknown_field list"

type_synonym unknown_field_set = "unknown_field list"

definition AddVarint :: "int32 \<Rightarrow> uint64 \<Rightarrow> unknown_field_set \<Rightarrow> unknown_field_set" where
  "AddVarint number value fields = fields @ [TYPE_VARINT (ucast number) value]"

definition AddFixed32 :: "int32 \<Rightarrow> uint32 \<Rightarrow> unknown_field_set \<Rightarrow> unknown_field_set" where
  "AddFixed32 number value fields = fields @ [TYPE_FIXED32 (ucast number) value]"

definition AddFixed64 :: "int32 \<Rightarrow> uint64 \<Rightarrow> unknown_field_set \<Rightarrow> unknown_field_set" where
  "AddFixed64 number value fields = fields @ [TYPE_FIXED64 (ucast number) value]"

text \<open>
  The next two return a pointer to the new string or set; here the content that
  the caller stores through it is an argument.
\<close>

definition AddLengthDelimited :: "int32 \<Rightarrow> bytes \<Rightarrow> unknown_field_set \<Rightarrow> unknown_field_set" where
  "AddLengthDelimited number value fields = fields @ [TYPE_LENGTH_DELIMITED (ucast number) value]"

definition AddGroup :: "int32 \<Rightarrow> unknown_field_set \<Rightarrow> unknown_field_set \<Rightarrow> unknown_field_set" where
  "AddGroup number grp fields = fields @ [TYPE_GROUP (ucast number) grp]"

text \<open>\<^verbatim>\<open>DeepCopy\<close> rebuilds groups with \<^verbatim>\<open>MergeFrom\<close>, one field at a time.\<close>

fun DeepCopy :: "unknown_field \<Rightarrow> unknown_field"
and Unknown_MergeFrom :: "unknown_field_set \<Rightarrow> unknown_field_set \<Rightarrow> unknown_field_set" where
  "DeepCopy (TYPE_GROUP n fs) = TYPE_GROUP n (Unknown_MergeFrom [] fs)"
| "DeepCopy (TYPE_VARINT n v) = TYPE_VARINT n v"
| "DeepCopy (TYPE_FIXED32 n v) = TYPE_FIXED32 n v"
| "DeepCopy (TYPE_FIXED64 n v) = TYPE_FIXED64 n v"
| "DeepCopy (TYPE_LENGTH_DELIMITED n v) = TYPE_LENGTH_DELIMITED n v"
| "Unknown_MergeFrom fields [] = fields"
| "Unknown_MergeFrom fields (f # other) = Unknown_MergeFrom (fields @ [DeepCopy f]) other"

definition Unknown_Clear :: "unknown_field_set \<Rightarrow> unknown_field_set" where
  "Unknown_Clear fields = []"

fun SerializeUnknownFieldToArray :: "unknown_field \<Rightarrow> bytes \<Rightarrow> bytes"
and SerializeUnknownFieldsToArray :: "unknown_field_set \<Rightarrow> bytes \<Rightarrow> bytes" where
  "SerializeUnknownFieldToArray (TYPE_VARINT n v) target = WriteInt64ToArray (ucast n) v target"
| "SerializeUnknownFieldToArray (TYPE_FIXED32 n v) target = WriteFixed32ToArray (ucast n) v target"
| "SerializeUnknownFieldToArray (TYPE_FIXED64 n v) target = WriteFixed64ToArray (ucast n) v target"
| "SerializeUnknownFieldToArray (TYPE_LENGTH_DELIMITED n v) target = WriteBytesToArray (ucast n) v target"
| "SerializeUnknownFieldToArray (TYPE_GROUP n fs) target =
     (let target = WriteTagToArray (ucast n) WIRETYPE_START_GROUP target;
          target = SerializeUnknownFieldsToArray fs target
      in WriteTagToArray (ucast n) WIRETYPE_END_GROUP target)"
| "SerializeUnknownFieldsToArray [] target = target"
| "SerializeUnknownFieldsToArray (f # fs) target =
     SerializeUnknownFieldsToArray fs (SerializeUnknownFieldToArray f target)"

fun ComputeUnknownFieldSize :: "unknown_field \<Rightarrow> nat"
and ComputeUnknownFieldsSize :: "unknown_field_set \<Rightarrow> nat" where
  "ComputeUnknownFieldSize (TYPE_VARINT n v) =
     VarintSize32 (MakeTag (ucast n) WIRETYPE_VARINT) + VarintSize64 v"
| "ComputeUnknownFieldSize (TYPE_FIXED32 n v) =
     VarintSize32 (MakeTag (ucast n) WIRETYPE_FIXED32) + 4"
| "ComputeUnknownFieldSize (TYPE_FIXED64 n v) =
     VarintSize32 (MakeTag (ucast n) WIRETYPE_FIXED64) + 8"
| "ComputeUnknownFieldSize (TYPE_LENGTH_DELIMITED n v) =
     VarintSize32 (MakeTag (ucast n) WIRETYPE_LENGTH_DELIMITED)
     + VarintSize32 (of_nat (length v)) + length v"
| "ComputeUnknownFieldSize (TYPE_GROUP n fs) =
     VarintSize32 (MakeTag (ucast n) WIRETYPE_START_GROUP) + ComputeUnknownFieldsSize fs
     + VarintSize32 (MakeTag (ucast n) WIRETYPE_END_GROUP)"
| "ComputeUnknownFieldsSize [] = 0"
| "ComputeUnknownFieldsSize (f # fs) = ComputeUnknownFieldSize f + ComputeUnknownFieldsSize fs"

section \<open>What the routines write\<close>

subsection \<open>Tags\<close>

lemma unat_MakeTag:
  assumes "unat fn < 2 ^ 29" "unat type < 8"
  shows "unat (MakeTag fn type) = unat fn * 8 + unat type"
proof -
  have "MakeTag fn type = of_nat (unat type + unat fn * 2 ^ 3)"
    using or_push_bit_of_nat [of "unat type" 3 "unat fn", where 'a = 32] assms(2)
    by (simp only: of_nat_unat MakeTag_def kTagTypeBits_def or.commute ucast_id) simp
  then show ?thesis
    using assms by (simp only: unat_of_nat) (simp add: take_bit_nat_eq_self)
qed

lemma unat_GetTagWireType: "unat (GetTagWireType tag) = unat tag mod 8"
proof -
  have "(7 :: uint32) = mask 3"
    by (simp add: mask_eq_exp_minus_1)
  then have "tag AND 7 = take_bit 3 tag"
    by (simp only: take_bit_eq_mask)
  then show ?thesis
    using unsigned_take_bit_eq [of 3 tag, where 'a = nat]
    by (simp add: GetTagWireType_def kTagTypeMask_def kTagTypeBits_def take_bit_nat_def)
qed

lemma unat_GetTagFieldNumber: "unat (GetTagFieldNumber tag) = unat tag div 8"
  by (simp add: GetTagFieldNumber_def kTagTypeBits_def)

lemma GetTagWireType_MakeTag:
  "unat fn < 2 ^ 29 \<Longrightarrow> unat type < 8 \<Longrightarrow> GetTagWireType (MakeTag fn type) = type"
  by (rule word_unat_eq_iff [THEN iffD2]) (simp add: unat_GetTagWireType unat_MakeTag)

lemma GetTagFieldNumber_MakeTag:
  "unat fn < 2 ^ 29 \<Longrightarrow> unat type < 8 \<Longrightarrow> GetTagFieldNumber (MakeTag fn type) = fn"
  by (rule word_unat_eq_iff [THEN iffD2]) (simp add: unat_GetTagFieldNumber unat_MakeTag)

lemma MakeTag_GetTag: "MakeTag (GetTagFieldNumber tag) (GetTagWireType tag) = tag"
proof (rule word_unat_eq_iff [THEN iffD2])
  have "unat tag < 2 ^ 32"
    using unsigned_less [of tag] by simp
  then have "unat tag div 8 < 2 ^ 29" by simp
  then show "unat (MakeTag (GetTagFieldNumber tag) (GetTagWireType tag)) = unat tag"
    by (simp add: unat_MakeTag unat_GetTagFieldNumber unat_GetTagWireType)
qed

lemma WriteTagToArray_raw_eq [wire]: "WriteTagToArray_raw v t = t @ varint (unat v)"
proof -
  have "(ucast (drop_bit 7 v) :: byte) = last_byte (unat v div 128)" if "unat v < 2 ^ 14"
    using that by (simp add: ucast_last_byte)
  then show ?thesis
    by (auto simp: WriteTagToArray_raw_def WriteVarint32FallbackToArray_def word_less_nat_alt
        WriteVarint32FallbackToArrayInline_eq varint_small varint_big ucast_last_byte
        byte_cont [of 0, simplified])
qed

subsection \<open>Payloads\<close>

text \<open>
  The bytes of each kind of value. A negative \<^verbatim>\<open>int32\<close> is sign-extended to 64 bits
  and so takes ten bytes.
\<close>

definition enc_tag :: "int32 \<Rightarrow> uint32 \<Rightarrow> bytes" where
  "enc_tag fn type = varint (unat (MakeTag fn type))"

definition enc_int32 :: "int32 \<Rightarrow> bytes" where
  "enc_int32 v = varint (unat (scast v :: uint64))"

definition enc_uint32 :: "uint32 \<Rightarrow> bytes" where
  "enc_uint32 v = varint (unat v)"

definition enc_bool :: "bool \<Rightarrow> bytes" where
  "enc_bool b = [if b then 1 else 0]"

definition enc_fixed32 :: "uint32 \<Rightarrow> bytes" where
  "enc_fixed32 v = [ucast v, ucast (drop_bit 8 v), ucast (drop_bit 16 v), ucast (drop_bit 24 v)]"

definition enc_fixed64 :: "uint64 \<Rightarrow> bytes" where
  "enc_fixed64 v = enc_fixed32 (ucast v) @ enc_fixed32 (ucast (drop_bit 32 v))"

definition enc_bytes :: "bytes \<Rightarrow> bytes" where
  "enc_bytes s = varint (unat (of_nat (length s) :: uint32)) @ s"

lemma WriteTagToArray_eq [wire]: "WriteTagToArray fn type t = t @ enc_tag fn type"
  by (simp add: WriteTagToArray_def WriteTagToArray_raw_eq enc_tag_def)

lemma uint_scast: "uint (scast v :: 'b::len word) = take_bit LENGTH('b) (sint v)" for v :: "'a::len word"
  by (simp only: scast_eq unsigned_of_int) simp

lemma sint_range32: "- (2 ^ 31) \<le> sint v" "sint v < 2 ^ 31" for v :: int32
  using sint_ge [of v] sint_lt [of v] by simp_all

lemma uint_of_sint32: "uint v = sint v mod 2 ^ 32" for v :: int32
  by (simp add: uint_sint take_bit_eq_mod)

lemma unat_scast_nonneg:
  fixes v :: int32
  assumes "0 \<le> sint v"
  shows "unat (scast v :: uint64) = unat v"
proof -
  have "uint (scast v :: uint64) = sint v"
    using assms sint_range32(2) [of v] by (simp add: uint_scast take_bit_int_eq_self)
  moreover have "uint v = sint v"
    using assms sint_range32(2) [of v] by (simp add: uint_of_sint32)
  ultimately show ?thesis
    by (simp add: unat_eq_nat_uint)
qed

lemma unat_scast_negative:
  fixes v :: int32
  assumes "sint v < 0"
  shows "2 ^ 63 \<le> unat (scast v :: uint64)"
proof -
  have "uint (scast v :: uint64) = (sint v + 2 ^ 64) mod 2 ^ 64"
    by (simp add: uint_scast take_bit_eq_mod)
  also have "\<dots> = sint v + 2 ^ 64"
    using assms sint_range32(1) [of v] by (intro mod_pos_pos_trivial) simp_all
  finally show ?thesis
    using sint_range32(1) [of v] by (simp add: unat_eq_nat_uint)
qed

lemma WriteVarint32SignExtendedToArray_eq [wire]:
  "WriteVarint32SignExtendedToArray v t = t @ enc_int32 v"
  by (simp add: WriteVarint32SignExtendedToArray_def WriteVarint64ToArray_eq WriteVarint32ToArray_eq
      enc_int32_def unat_scast_nonneg)

lemma WriteLittleEndian32ToArray_eq [wire]: "WriteLittleEndian32ToArray v t = t @ enc_fixed32 v"
  by (simp add: WriteLittleEndian32ToArray_def enc_fixed32_def)

lemma WriteLittleEndian64ToArray_eq [wire]: "WriteLittleEndian64ToArray v t = t @ enc_fixed64 v"
  by (simp add: WriteLittleEndian64ToArray_def enc_fixed64_def enc_fixed32_def Let_def)

lemma WriteStringToArray_raw_eq [wire]: "WriteStringToArray_raw s t = t @ s"
  by (simp add: WriteStringToArray_raw_def WriteRawToArray_def)

lemma WriteInt32ToArray_eq [wire]:
  "WriteInt32ToArray fn v t = t @ enc_tag fn WIRETYPE_VARINT @ enc_int32 v"
  by (simp add: WriteInt32ToArray_def wire)

lemma WriteInt64ToArray_eq [wire]:
  "WriteInt64ToArray fn v t = t @ enc_tag fn WIRETYPE_VARINT @ varint (unat v)"
  by (simp add: WriteInt64ToArray_def wire)

lemma WriteUInt32ToArray_eq [wire]:
  "WriteUInt32ToArray fn v t = t @ enc_tag fn WIRETYPE_VARINT @ enc_uint32 v"
  by (simp add: WriteUInt32ToArray_def wire enc_uint32_def)

lemma WriteEnumToArray_eq [wire]:
  "WriteEnumToArray fn v t = t @ enc_tag fn WIRETYPE_VARINT @ enc_int32 v"
  by (simp add: WriteEnumToArray_def wire)

lemma WriteFixed32ToArray_eq [wire]:
  "WriteFixed32ToArray fn v t = t @ enc_tag fn WIRETYPE_FIXED32 @ enc_fixed32 v"
  by (simp add: WriteFixed32ToArray_def wire)

lemma WriteFloatToArray_eq [wire]:
  "WriteFloatToArray fn v t = t @ enc_tag fn WIRETYPE_FIXED32 @ enc_fixed32 v"
  by (simp add: WriteFloatToArray_def wire)

lemma WriteFixed64ToArray_eq [wire]:
  "WriteFixed64ToArray fn v t = t @ enc_tag fn WIRETYPE_FIXED64 @ enc_fixed64 v"
  by (simp add: WriteFixed64ToArray_def wire)

lemma WriteBoolToArray_eq [wire]:
  "WriteBoolToArray fn v t = t @ enc_tag fn WIRETYPE_VARINT @ enc_bool v"
  by (simp add: WriteBoolToArray_def wire enc_bool_def varint_small last_byte_def)

lemma WriteStringToArray_eq [wire]:
  "WriteStringToArray fn v t = t @ enc_tag fn WIRETYPE_LENGTH_DELIMITED @ enc_bytes v"
  by (simp add: WriteStringToArray_def wire enc_bytes_def)

lemma WriteBytesToArray_eq [wire]:
  "WriteBytesToArray fn v t = t @ enc_tag fn WIRETYPE_LENGTH_DELIMITED @ enc_bytes v"
  by (simp add: WriteBytesToArray_def wire enc_bytes_def)

text \<open>Each size routine computes the number of bytes that the writer produces.\<close>

lemma length_enc_int32 [wire]: "Int32Size v = length (enc_int32 v)"
proof (cases "sint v < 0")
  case True
  define n where "n = unat (scast v :: uint64)"
  have "128 ^ 9 \<le> n" "n < 128 ^ Suc 9"
    using unat_scast_negative [OF True] unsigned_less [of "scast v :: uint64", where 'a = nat]
    by (simp_all add: n_def)
  then have "length (varint n) = Suc 9"
    by (rule length_varint_eq)
  with True show ?thesis
    by (simp add: Int32Size_def VarintSize32SignExtended_def enc_int32_def n_def)
next
  case False
  then show ?thesis
    by (simp add: Int32Size_def VarintSize32SignExtended_def enc_int32_def VarintSize32_eq unat_scast_nonneg)
qed

lemma length_enc_enum [wire]: "EnumSize v = length (enc_int32 v)"
  using length_enc_int32 [of v] by (simp add: EnumSize_def Int32Size_def)

lemma length_enc_uint32 [wire]: "UInt32Size v = length (enc_uint32 v)"
  by (simp add: UInt32Size_def enc_uint32_def VarintSize32_eq)

lemma length_enc_bytes [wire]:
  "StringSize s = length (enc_bytes s)" "BytesSize s = length (enc_bytes s)"
  by (simp_all add: StringSize_def BytesSize_def enc_bytes_def VarintSize32_eq)

lemma length_enc_fixed [simp]: "length (enc_fixed32 v) = 4" "length (enc_fixed64 u) = 8" "length (enc_bool b) = 1"
  by (simp_all add: enc_fixed32_def enc_fixed64_def enc_bool_def)

lemma length_enc_tag [wire]: "VarintSize32 (MakeTag fn type) = length (enc_tag fn type)"
  by (simp add: enc_tag_def VarintSize32_eq)

section \<open>Unknown fields\<close>

lemma DeepCopy_id: "DeepCopy f = f" and Unknown_MergeFrom_append: "Unknown_MergeFrom fs gs = fs @ gs"
  by (induction f and fs gs rule: DeepCopy_Unknown_MergeFrom.induct) simp_all

lemma SerializeUnknown_append':
  "\<forall>t. SerializeUnknownFieldToArray f t = t @ SerializeUnknownFieldToArray f []"
  "\<forall>t. SerializeUnknownFieldsToArray fs t = t @ SerializeUnknownFieldsToArray fs []"
proof (induction f and fs rule: ComputeUnknownFieldSize_ComputeUnknownFieldsSize.induct)
  case (5 n fs)
  then have "SerializeUnknownFieldsToArray fs (t @ u) = t @ SerializeUnknownFieldsToArray fs u" for t u
    by (metis append.assoc)
  then show ?case
    by (simp add: WriteTagToArray_eq)
next
  case (7 f fs)
  then show ?case
    by (metis SerializeUnknownFieldsToArray.simps(2) append.assoc)
qed (simp_all add: wire)

lemmas SerializeUnknown_append = SerializeUnknown_append' [THEN spec]

lemma ComputeUnknown_length:
  "ComputeUnknownFieldSize f = length (SerializeUnknownFieldToArray f [])"
  "ComputeUnknownFieldsSize fs = length (SerializeUnknownFieldsToArray fs [])"
proof (induction f and fs rule: ComputeUnknownFieldSize_ComputeUnknownFieldsSize.induct)
  case (5 n fs)
  then show ?case
    by (simp add: wire enc_tag_def SerializeUnknown_append(2) [of fs "varint n" for n])
next
  case (7 f fs)
  then show ?case
    by (simp add: SerializeUnknown_append(2) [of fs "SerializeUnknownFieldToArray f []"])
qed (simp_all add: wire enc_tag_def enc_bytes_def)

end
