(* ===== verification/Repeated_Field.thy ===== *)
theory Repeated_Field
  imports Owb_Prelude
begin

text \<open>
  \<^verbatim>\<open>RepeatedPtrFieldBase\<close> of \<^verbatim>\<open>repeated_field.h\<close> and \<^verbatim>\<open>repeated_field.cc\<close>: the container
  behind every \<^verbatim>\<open>repeated\<close> message field. \<open>elements\<close> holds the first
  \<^verbatim>\<open>allocated_size_\<close> objects of the pointer array, so \<^verbatim>\<open>allocated_size_\<close> is its
  length; \<open>current_size\<close> and \<open>total_size\<close> are \<^verbatim>\<open>current_size_\<close> and \<^verbatim>\<open>total_size_\<close>.
  The objects past \<open>current_size\<close> are the cleared objects kept for reuse. Every
  object has one owner, so objects are kept by value.

  The template parameter \<^verbatim>\<open>TypeHandler\<close> is the three functions \<open>new\<close>, \<open>clr\<close> and
  \<open>mrg\<close> that the operations take; the locale \<open>type_handler\<close> states what the
  container relies on. Reading outside the array is undefined in C++ and is
  \<open>None\<close> here.
\<close>

section \<open>The container\<close>

record 'a repeated_ptr =
  elements :: "'a list"
  current_size :: nat
  total_size :: nat

definition kInitialSize :: nat where
  "kInitialSize = 4"

definition Rep_empty :: "'a repeated_ptr" where
  "Rep_empty = \<lparr>elements = [], current_size = 0, total_size = kInitialSize\<rparr>"

definition allocated_size :: "'a repeated_ptr \<Rightarrow> nat" where
  "allocated_size r = length (elements r)"

definition Rep_size :: "'a repeated_ptr \<Rightarrow> nat" where
  "Rep_size r = current_size r"

text \<open>\<open>store i v xs\<close> is \<^verbatim>\<open>elements_[i] = v\<close> for an index of at most the allocated size.\<close>

definition store :: "nat \<Rightarrow> 'a \<Rightarrow> 'a list \<Rightarrow> 'a list" where
  "store i v xs = (if i < length xs then xs[i := v] else xs @ [v])"

definition Rep_Get :: "'a repeated_ptr \<Rightarrow> int \<Rightarrow> 'a option" where
  "Rep_Get r i = (if 0 \<le> i \<and> i < int (allocated_size r) then Some (elements r ! nat i) else None)"

definition Rep_Mutable :: "('a \<Rightarrow> 'a) \<Rightarrow> int \<Rightarrow> 'a repeated_ptr \<Rightarrow> 'a repeated_ptr option" where
  "Rep_Mutable f i r =
     (case Rep_Get r i of
        None \<Rightarrow> None
      | Some x \<Rightarrow> Some (r\<lparr>elements := (elements r)[nat i := f x]\<rparr>))"

definition Rep_Reserve :: "nat \<Rightarrow> 'a repeated_ptr \<Rightarrow> 'a repeated_ptr" where
  "Rep_Reserve new_size r =
     (if total_size r \<ge> new_size then r
      else r\<lparr>total_size := max (total_size r * 2) new_size\<rparr>)"

text \<open>
  \<^verbatim>\<open>Add\<close> returns a pointer to the new last object; the callers write through it at
  once, so the model applies their function \<open>f\<close> to the object.
\<close>

definition Rep_Add :: "'a \<Rightarrow> ('a \<Rightarrow> 'a) \<Rightarrow> 'a repeated_ptr \<Rightarrow> 'a repeated_ptr" where
  "Rep_Add new f r =
     (if current_size r < allocated_size r then
        r\<lparr>elements := (elements r)[current_size r := f (elements r ! current_size r)],
          current_size := Suc (current_size r)\<rparr>
      else
        let r1 = (if allocated_size r = total_size r then Rep_Reserve (total_size r + 1) r else r)
        in r1\<lparr>elements := store (current_size r1) (f new) (elements r1),
              current_size := Suc (current_size r1)\<rparr>)"

definition Rep_RemoveLast :: "('a \<Rightarrow> 'a) \<Rightarrow> 'a repeated_ptr \<Rightarrow> 'a repeated_ptr option" where
  "Rep_RemoveLast clr r =
     (if current_size r = 0 then None
      else let i = current_size r - 1
           in Some (r\<lparr>current_size := i, elements := (elements r)[i := clr (elements r ! i)]\<rparr>))"

definition Rep_Clear :: "('a \<Rightarrow> 'a) \<Rightarrow> 'a repeated_ptr \<Rightarrow> 'a repeated_ptr" where
  "Rep_Clear clr r =
     r\<lparr>elements := map clr (take (current_size r) (elements r)) @ drop (current_size r) (elements r),
       current_size := 0\<rparr>"

definition Rep_contents :: "'a repeated_ptr \<Rightarrow> 'a list" where
  "Rep_contents r = take (current_size r) (elements r)"

definition Rep_MergeFrom ::
    "'a \<Rightarrow> ('a \<Rightarrow> 'a \<Rightarrow> 'a) \<Rightarrow> 'a repeated_ptr \<Rightarrow> 'a repeated_ptr \<Rightarrow> 'a repeated_ptr" where
  "Rep_MergeFrom new mrg other r =
     fold (\<lambda>x. Rep_Add new (mrg x)) (Rep_contents other)
       (Rep_Reserve (current_size r + current_size other) r)"

definition Rep_CopyFrom ::
    "'a \<Rightarrow> ('a \<Rightarrow> 'a) \<Rightarrow> ('a \<Rightarrow> 'a \<Rightarrow> 'a) \<Rightarrow> 'a repeated_ptr \<Rightarrow> 'a repeated_ptr \<Rightarrow> 'a repeated_ptr" where
  "Rep_CopyFrom new clr mrg other r = Rep_MergeFrom new mrg other (Rep_Clear clr r)"

definition Rep_Swap :: "'a repeated_ptr \<Rightarrow> 'a repeated_ptr \<Rightarrow> 'a repeated_ptr \<times> 'a repeated_ptr" where
  "Rep_Swap r other = (other, r)"

text \<open>The operations on owned objects.\<close>

definition Rep_AddAllocated :: "'a \<Rightarrow> 'a repeated_ptr \<Rightarrow> 'a repeated_ptr" where
  "Rep_AddAllocated v r =
     (let r1 =
        (if current_size r = total_size r then Rep_Reserve (total_size r + 1) r
         else if allocated_size r = total_size r then r
         else if current_size r < allocated_size r
           then r\<lparr>elements := elements r @ [elements r ! current_size r]\<rparr>
         else r)
      in r1\<lparr>elements := store (current_size r1) v (elements r1),
            current_size := Suc (current_size r1)\<rparr>)"

definition Rep_ReleaseLast :: "'a repeated_ptr \<Rightarrow> ('a \<times> 'a repeated_ptr) option" where
  "Rep_ReleaseLast r =
     (if current_size r = 0 then None
      else let i = current_size r - 1;
               a = allocated_size r - 1;
               es = (if i < a then (elements r)[i := elements r ! a] else elements r)
           in Some (elements r ! i, r\<lparr>elements := take a es, current_size := i\<rparr>))"

definition Rep_ClearedCount :: "'a repeated_ptr \<Rightarrow> nat" where
  "Rep_ClearedCount r = allocated_size r - current_size r"

definition Rep_AddCleared :: "'a \<Rightarrow> 'a repeated_ptr \<Rightarrow> 'a repeated_ptr" where
  "Rep_AddCleared v r =
     (let r1 = (if allocated_size r = total_size r then Rep_Reserve (total_size r + 1) r else r)
      in r1\<lparr>elements := elements r1 @ [v]\<rparr>)"

definition Rep_ReleaseCleared :: "'a repeated_ptr \<Rightarrow> ('a \<times> 'a repeated_ptr) option" where
  "Rep_ReleaseCleared r =
     (if allocated_size r \<le> current_size r then None
      else Some (last (elements r), r\<lparr>elements := butlast (elements r)\<rparr>))"

section \<open>The representation invariant\<close>

definition rep_ok :: "'a repeated_ptr \<Rightarrow> bool" where
  "rep_ok r \<longleftrightarrow>
     current_size r \<le> allocated_size r \<and> allocated_size r \<le> total_size r \<and>
     kInitialSize \<le> total_size r"

lemmas rep_defs = allocated_size_def Rep_contents_def rep_ok_def kInitialSize_def

lemma rep_ok_empty [simp]: "rep_ok Rep_empty"
  by (simp add: rep_defs Rep_empty_def)

lemma contents_empty [simp]: "Rep_contents Rep_empty = []"
  by (simp add: rep_defs Rep_empty_def)

lemma Reserve_simps [simp]:
  "elements (Rep_Reserve n r) = elements r"
  "current_size (Rep_Reserve n r) = current_size r"
  "allocated_size (Rep_Reserve n r) = allocated_size r"
  "Rep_contents (Rep_Reserve n r) = Rep_contents r"
  by (simp_all add: Rep_Reserve_def rep_defs)

lemma total_Reserve: "total_size (Rep_Reserve n r) \<ge> n" "total_size (Rep_Reserve n r) \<ge> total_size r"
  by (auto simp: Rep_Reserve_def)

lemma rep_ok_Reserve [simp]: "rep_ok r \<Longrightarrow> rep_ok (Rep_Reserve n r)"
  using total_Reserve(2) [of r n] by (auto simp: rep_ok_def)

lemma length_contents [simp]: "rep_ok r \<Longrightarrow> length (Rep_contents r) = Rep_size r"
  by (simp add: rep_defs Rep_size_def)

lemma Get_contents:
  "rep_ok r \<Longrightarrow> 0 \<le> i \<Longrightarrow> i < int (Rep_size r) \<Longrightarrow> Rep_Get r i = Some (Rep_contents r ! nat i)"
  by (auto simp: Rep_Get_def rep_defs Rep_size_def)

lemma rep_ok_Add: "rep_ok r \<Longrightarrow> rep_ok (Rep_Add new f r)"
  using total_Reserve(1) [where n = "total_size r + 1" and r = r] total_Reserve(2) [where n = "total_size r + 1" and r = r]
  by (auto simp: Rep_Add_def rep_defs store_def Let_def simp del: One_nat_def)

lemma rep_ok_Clear: "rep_ok r \<Longrightarrow> rep_ok (Rep_Clear clr r)"
  by (auto simp: Rep_Clear_def rep_defs)

lemma contents_Clear [simp]: "Rep_contents (Rep_Clear clr r) = []"
  by (simp add: Rep_Clear_def rep_defs)

lemma rep_ok_AddAllocated: "rep_ok r \<Longrightarrow> rep_ok (Rep_AddAllocated v r)"
  using total_Reserve(1) [where n = "total_size r + 1" and r = r] total_Reserve(2) [where n = "total_size r + 1" and r = r]
  by (auto simp: Rep_AddAllocated_def rep_defs store_def Let_def simp del: One_nat_def)

lemma contents_AddAllocated:
  "rep_ok r \<Longrightarrow> Rep_contents (Rep_AddAllocated v r) = Rep_contents r @ [v]"
  by (auto simp: Rep_AddAllocated_def rep_defs store_def Let_def take_Suc_conv_snoc
      list_update_append nth_append simp del: One_nat_def)

lemma ReleaseLast_ok:
  assumes "rep_ok r" "Rep_ReleaseLast r = Some (x, r')"
  shows "rep_ok r'" "Rep_contents r = Rep_contents r' @ [x]"
proof -
  obtain n where n: "current_size r = Suc n"
    using assms(2) by (cases "current_size r") (auto simp: Rep_ReleaseLast_def)
  show "rep_ok r'"
    using assms n by (auto simp: Rep_ReleaseLast_def rep_defs Let_def)
  show "Rep_contents r = Rep_contents r' @ [x]"
    using assms n by (auto simp: Rep_ReleaseLast_def rep_defs Let_def take_Suc_conv_snoc min_def)
qed

section \<open>What the container relies on\<close>

text \<open>
  The contract of a \<^verbatim>\<open>TypeHandler\<close>. \<open>ok\<close> is the invariant of an object, \<open>view\<close> what
  its accessors can see, \<open>blank\<close> that it looks like a new one. Merging into a
  blank object must copy what is visible.
\<close>

locale type_handler =
  fixes new :: 'a
    and clr :: "'a \<Rightarrow> 'a"
    and mrg :: "'a \<Rightarrow> 'a \<Rightarrow> 'a"
    and ok :: "'a \<Rightarrow> bool"
    and view :: "'a \<Rightarrow> 'b"
  assumes ok_new: "ok new"
    and ok_clr: "ok x \<Longrightarrow> ok (clr x)"
    and view_clr: "ok x \<Longrightarrow> view (clr x) = view new"
    and ok_mrg: "ok x \<Longrightarrow> ok y \<Longrightarrow> ok (mrg x y)"
    and view_mrg: "ok x \<Longrightarrow> ok y \<Longrightarrow> view y = view new \<Longrightarrow> view (mrg x y) = view x"
begin

definition good :: "'a repeated_ptr \<Rightarrow> bool" where
  "good r \<longleftrightarrow> rep_ok r \<and> list_all ok (elements r) \<and>
     list_all (\<lambda>x. view x = view new) (drop (current_size r) (elements r))"

definition views :: "'a repeated_ptr \<Rightarrow> 'b list" where
  "views r = map view (Rep_contents r)"

lemma good_empty: "good Rep_empty"
  by (simp add: good_def Rep_empty_def rep_defs)

lemma views_empty: "views Rep_empty = []"
  by (simp add: views_def)

lemma good_Reserve: "good r \<Longrightarrow> good (Rep_Reserve n r)"
  by (simp add: good_def)

lemma views_Reserve: "views (Rep_Reserve n r) = views r"
  by (simp add: views_def)

lemma good_contents: "good r \<Longrightarrow> list_all ok (Rep_contents r)"
  by (auto simp: good_def rep_defs list_all_iff dest: in_set_takeD)

text \<open>The object \<^verbatim>\<open>Add\<close> hands out looks new, whether it is reused or fresh.\<close>

lemma Add_step:
  assumes "good r"
  obtains x where "ok x" "view x = view new"
    "\<And>f. ok (f x) \<Longrightarrow> good (Rep_Add new f r)"
    "\<And>f. Rep_contents (Rep_Add new f r) = Rep_contents r @ [f x]"
proof (cases "current_size r < allocated_size r")
  case True
  let ?i = "current_size r"
  let ?x = "elements r ! ?i"
  from True have lt: "?i < length (elements r)"
    by (simp add: allocated_size_def)
  then have "?x \<in> set (elements r)" "?x \<in> set (drop ?i (elements r))"
    by (simp_all add: Cons_nth_drop_Suc [symmetric])
  with assms have x: "ok ?x" "view ?x = view new"
    by (auto simp: good_def list_all_iff)
  have g: "good (Rep_Add new f r)" if "ok (f ?x)" for f
  proof -
    have "list_all (\<lambda>x. view x = view new) (drop (Suc ?i) (elements r))"
      using assms Cons_nth_drop_Suc [OF lt, symmetric] by (simp add: good_def)
    moreover have "list_all ok ((elements r)[?i := f ?x])"
      using assms that by (auto simp: good_def list_all_iff dest: set_update_subset_insert [THEN subsetD])
    ultimately show ?thesis
      using assms True rep_ok_Add [of r new f]
      by (simp add: good_def Rep_Add_def)
  qed
  have c: "Rep_contents (Rep_Add new f r) = Rep_contents r @ [f ?x]" for f
    using True lt by (simp add: Rep_Add_def Rep_contents_def take_Suc_conv_snoc)
  show thesis
    by (rule that [OF x g c])
next
  case False
  with assms have eq: "current_size r = length (elements r)"
    by (auto simp: good_def rep_defs)
  have g: "good (Rep_Add new f r)" if "ok (f new)" for f
    using assms that eq rep_ok_Add [of r new f]
    by (auto simp: good_def Rep_Add_def store_def Let_def allocated_size_def)
  have c: "Rep_contents (Rep_Add new f r) = Rep_contents r @ [f new]" for f
    using eq by (auto simp: Rep_Add_def Rep_contents_def store_def Let_def allocated_size_def)
  show thesis
    by (rule that [OF ok_new refl g c])
qed

lemma views_Add:
  assumes "good r" and f: "\<And>x. ok x \<Longrightarrow> view x = view new \<Longrightarrow> ok (f x) \<and> view (f x) = v"
  shows "good (Rep_Add new f r) \<and> views (Rep_Add new f r) = views r @ [v]"
proof -
  obtain x where "ok x" "view x = view new" "\<And>f. ok (f x) \<Longrightarrow> good (Rep_Add new f r)"
    "\<And>f. Rep_contents (Rep_Add new f r) = Rep_contents r @ [f x]"
    using Add_step [OF assms(1)] by blast
  with f show ?thesis
    by (simp add: views_def)
qed

text \<open>Writing through a pointer to the last object.\<close>

lemma Mutable_last:
  assumes "good r" "Rep_contents r = xs @ [x]" "ok t"
  obtains r' where "Rep_Mutable (\<lambda>_. t) (int (Rep_size r) - 1) r = Some r'" "good r'" "views r' = map view xs @ [view t]"
    "Rep_Get r (int (Rep_size r) - 1) = Some x"
proof -
  let ?i = "current_size r - 1"
  have g: "rep_ok r" "list_all ok (elements r)" "list_all (\<lambda>x. view x = view new) (drop (current_size r) (elements r))"
    using assms(1) by (simp_all add: good_def)
  have l: "length (Rep_contents r) = current_size r" using length_contents [OF g(1)] by (simp add: Rep_size_def)
  then have c: "current_size r = Suc (length xs)" by (simp add: assms(2))
  have i: "int (Rep_size r) - 1 = int (length xs)" by (simp add: Rep_size_def c)
  have get: "Rep_Get r (int (Rep_size r) - 1) = Some x"
    using Get_contents [OF g(1), of "int (length xs)"] by (simp add: i Rep_size_def c assms(2))
  let ?r = "r\<lparr>elements := (elements r)[length xs := t]\<rparr>"
  have "Rep_Mutable (\<lambda>_. t) (int (Rep_size r) - 1) r = Some ?r"
    using get by (simp add: Rep_Mutable_def i)
  moreover have "good ?r"
    using g assms(3) c set_update_subset_insert [of "elements r" "length xs" t] by (auto simp: good_def rep_defs list_all_iff)
  moreover have "Rep_contents ?r = (Rep_contents r)[length xs := t]"
    by (simp add: Rep_contents_def take_update_swap)
  then have "views ?r = map view xs @ [view t]" by (simp add: views_def assms(2))
  ultimately show thesis using that get by blast
qed

lemma good_Clear: "good r \<Longrightarrow> good (Rep_Clear clr r)"
  using rep_ok_Clear [of r clr]
  by (auto simp: good_def Rep_Clear_def list_all_iff ok_clr view_clr
      dest: in_set_takeD in_set_dropD)

lemma views_Clear: "views (Rep_Clear clr r) = []"
  by (simp add: views_def)

lemma fold_merge:
  assumes "good r" "list_all ok xs"
  shows "good (fold (\<lambda>x. Rep_Add new (mrg x)) xs r) \<and>
    views (fold (\<lambda>x. Rep_Add new (mrg x)) xs r) = views r @ map view xs"
  using assms
proof (induction xs arbitrary: r)
  case Nil
  then show ?case by simp
next
  case (Cons x xs)
  then have "good (Rep_Add new (mrg x) r) \<and> views (Rep_Add new (mrg x) r) = views r @ [view x]"
    by (intro views_Add) (auto simp: ok_mrg view_mrg)
  with Cons show ?case by simp
qed

lemma views_MergeFrom:
  assumes "good r" "good other"
  shows "good (Rep_MergeFrom new mrg other r)"
    and "views (Rep_MergeFrom new mrg other r) = views r @ views other"
  using fold_merge [OF good_Reserve [OF assms(1)] good_contents [OF assms(2)]]
  by (simp_all add: Rep_MergeFrom_def views_Reserve views_def [of other])

lemma views_CopyFrom:
  assumes "good r" "good other"
  shows "good (Rep_CopyFrom new clr mrg other r)"
    and "views (Rep_CopyFrom new clr mrg other r) = views other"
  using views_MergeFrom [OF good_Clear [OF assms(1)] assms(2)]
  by (simp_all add: Rep_CopyFrom_def views_Clear)

end

end
