(* ===== verification/Has_Bits.thy ===== *)
theory Has_Bits
  imports Wire_Format Repeated_Field
begin

text \<open>
  What the messages of \<^verbatim>\<open>message.pb.h\<close> share: the rules for the presence word
  \<^verbatim>\<open>_has_bits_[0]\<close>, strings that are \<^verbatim>\<open>kEmptyString\<close> until they are first set, and
  the vocabulary of the abstract messages, in which a field is an option.
\<close>

section \<open>Presence bits\<close>

lemma and_pow2_eq_0: "w AND (2 ^ k) = 0 \<longleftrightarrow> \<not> bit w k" for w :: uint32
  using and_pow2_neq_0 [of w k] by blast

lemma has_bit [hasbits]:
  fixes w :: uint32
  shows "w AND 1 = 0 \<longleftrightarrow> \<not> bit w 0" "w AND 0x2 = 0 \<longleftrightarrow> \<not> bit w 1" "w AND 0x4 = 0 \<longleftrightarrow> \<not> bit w 2"
    "w AND 0x8 = 0 \<longleftrightarrow> \<not> bit w 3" "w AND 0x10 = 0 \<longleftrightarrow> \<not> bit w 4" "w AND 0x20 = 0 \<longleftrightarrow> \<not> bit w 5"
    "w AND 0x40 = 0 \<longleftrightarrow> \<not> bit w 6" "w AND 0x80 = 0 \<longleftrightarrow> \<not> bit w 7" "w AND 0x100 = 0 \<longleftrightarrow> \<not> bit w 8"
    "w AND 0x200 = 0 \<longleftrightarrow> \<not> bit w 9" "w AND 0x400 = 0 \<longleftrightarrow> \<not> bit w 10" "w AND 0x800 = 0 \<longleftrightarrow> \<not> bit w 11"
    "w AND 0x1000 = 0 \<longleftrightarrow> \<not> bit w 12" "w AND 0x2000 = 0 \<longleftrightarrow> \<not> bit w 13" "w AND 0x4000 = 0 \<longleftrightarrow> \<not> bit w 14"
  using and_pow2_eq_0 [of w 0]
    and_pow2_eq_0 [of w 1]
    and_pow2_eq_0 [of w 2]
    and_pow2_eq_0 [of w 3]
    and_pow2_eq_0 [of w 4]
    and_pow2_eq_0 [of w 5]
    and_pow2_eq_0 [of w 6]
    and_pow2_eq_0 [of w 7]
    and_pow2_eq_0 [of w 8]
    and_pow2_eq_0 [of w 9]
    and_pow2_eq_0 [of w 10]
    and_pow2_eq_0 [of w 11]
    and_pow2_eq_0 [of w 12]
    and_pow2_eq_0 [of w 13]
    and_pow2_eq_0 [of w 14]
  by simp_all

lemma set_bit [hasbits]:
  fixes w :: uint32
  shows "bit (w OR 1) i \<longleftrightarrow> bit w i \<or> i = 0" "bit (w OR 0x2) i \<longleftrightarrow> bit w i \<or> i = 1"
    "bit (w OR 0x4) i \<longleftrightarrow> bit w i \<or> i = 2" "bit (w OR 0x8) i \<longleftrightarrow> bit w i \<or> i = 3"
    "bit (w OR 0x10) i \<longleftrightarrow> bit w i \<or> i = 4" "bit (w OR 0x20) i \<longleftrightarrow> bit w i \<or> i = 5"
    "bit (w OR 0x40) i \<longleftrightarrow> bit w i \<or> i = 6" "bit (w OR 0x80) i \<longleftrightarrow> bit w i \<or> i = 7"
    "bit (w OR 0x100) i \<longleftrightarrow> bit w i \<or> i = 8" "bit (w OR 0x200) i \<longleftrightarrow> bit w i \<or> i = 9"
    "bit (w OR 0x400) i \<longleftrightarrow> bit w i \<or> i = 10" "bit (w OR 0x800) i \<longleftrightarrow> bit w i \<or> i = 11"
    "bit (w OR 0x1000) i \<longleftrightarrow> bit w i \<or> i = 12" "bit (w OR 0x2000) i \<longleftrightarrow> bit w i \<or> i = 13"
    "bit (w OR 0x4000) i \<longleftrightarrow> bit w i \<or> i = 14"
  using bit_or_pow2 [of w 0 i]
    bit_or_pow2 [of w 1 i]
    bit_or_pow2 [of w 2 i]
    bit_or_pow2 [of w 3 i]
    bit_or_pow2 [of w 4 i]
    bit_or_pow2 [of w 5 i]
    bit_or_pow2 [of w 6 i]
    bit_or_pow2 [of w 7 i]
    bit_or_pow2 [of w 8 i]
    bit_or_pow2 [of w 9 i]
    bit_or_pow2 [of w 10 i]
    bit_or_pow2 [of w 11 i]
    bit_or_pow2 [of w 12 i]
    bit_or_pow2 [of w 13 i]
    bit_or_pow2 [of w 14 i]
  by simp_all

lemma clear_bit:
  fixes w :: uint32
  shows "bit (w AND NOT 1) i \<longleftrightarrow> bit w i \<and> i \<noteq> 0" "bit (w AND NOT 0x2) i \<longleftrightarrow> bit w i \<and> i \<noteq> 1"
    "bit (w AND NOT 0x4) i \<longleftrightarrow> bit w i \<and> i \<noteq> 2" "bit (w AND NOT 0x8) i \<longleftrightarrow> bit w i \<and> i \<noteq> 3"
    "bit (w AND NOT 0x10) i \<longleftrightarrow> bit w i \<and> i \<noteq> 4" "bit (w AND NOT 0x20) i \<longleftrightarrow> bit w i \<and> i \<noteq> 5"
    "bit (w AND NOT 0x40) i \<longleftrightarrow> bit w i \<and> i \<noteq> 6" "bit (w AND NOT 0x80) i \<longleftrightarrow> bit w i \<and> i \<noteq> 7"
    "bit (w AND NOT 0x100) i \<longleftrightarrow> bit w i \<and> i \<noteq> 8" "bit (w AND NOT 0x200) i \<longleftrightarrow> bit w i \<and> i \<noteq> 9"
    "bit (w AND NOT 0x400) i \<longleftrightarrow> bit w i \<and> i \<noteq> 10" "bit (w AND NOT 0x800) i \<longleftrightarrow> bit w i \<and> i \<noteq> 11"
    "bit (w AND NOT 0x1000) i \<longleftrightarrow> bit w i \<and> i \<noteq> 12" "bit (w AND NOT 0x2000) i \<longleftrightarrow> bit w i \<and> i \<noteq> 13"
    "bit (w AND NOT 0x4000) i \<longleftrightarrow> bit w i \<and> i \<noteq> 14"
  using bit_and_not_pow2 [of w 0 i]
    bit_and_not_pow2 [of w 1 i]
    bit_and_not_pow2 [of w 2 i]
    bit_and_not_pow2 [of w 3 i]
    bit_and_not_pow2 [of w 4 i]
    bit_and_not_pow2 [of w 5 i]
    bit_and_not_pow2 [of w 6 i]
    bit_and_not_pow2 [of w 7 i]
    bit_and_not_pow2 [of w 8 i]
    bit_and_not_pow2 [of w 9 i]
    bit_and_not_pow2 [of w 10 i]
    bit_and_not_pow2 [of w 11 i]
    bit_and_not_pow2 [of w 12 i]
    bit_and_not_pow2 [of w 13 i]
    bit_and_not_pow2 [of w 14 i]
  by simp_all

lemmas clear_bit_simp [hasbits] = clear_bit [simplified]

text \<open>The tests of a whole byte of presence bits that guard the groups of eight fields.\<close>

lemma and_push_mask_eq_0: "w AND push_bit k (mask n) = 0 \<longleftrightarrow> (\<forall>i < n. \<not> bit w (k + i))"
  for w :: uint32
proof
  assume *: "w AND push_bit k (mask n) = 0"
  have "\<not> bit w (k + i)" if "i < n" for i
  proof
    assume "bit w (k + i)"
    moreover from this have "k + i < 32"
      using bit_imp_le_length by fastforce
    ultimately have "bit (w AND push_bit k (mask n)) (k + i)"
      using that by (simp add: bit_simps)
    with * show False by simp
  qed
  then show "\<forall>i < n. \<not> bit w (k + i)" by blast
next
  assume *: "\<forall>i < n. \<not> bit w (k + i)"
  have "\<not> bit (w AND push_bit k (mask n)) i" for i
    using * [THEN spec, of "i - k"] by (auto simp: bit_simps)
  then show "w AND push_bit k (mask n) = 0"
    by (simp add: bit_eq_iff)
qed

lemma has_byte [hasbits]:
  fixes w :: uint32
  shows "w AND 0xFF = 0 \<longleftrightarrow>
      \<not> bit w 0 \<and> \<not> bit w 1 \<and> \<not> bit w 2 \<and> \<not> bit w 3 \<and> \<not> bit w 4 \<and> \<not> bit w 5 \<and> \<not> bit w 6 \<and> \<not> bit w 7"
    and "w AND 0xFF00 = 0 \<longleftrightarrow>
      \<not> bit w 8 \<and> \<not> bit w 9 \<and> \<not> bit w 10 \<and> \<not> bit w 11 \<and> \<not> bit w 12 \<and> \<not> bit w 13 \<and> \<not> bit w 14 \<and> \<not> bit w 15"
proof -
  have "(0xFF :: uint32) = push_bit 0 (mask 8)" "(0xFF00 :: uint32) = push_bit 8 (mask 8)"
    by (simp_all add: mask_eq_exp_minus_1)
  then show "w AND 0xFF = 0 \<longleftrightarrow>
      \<not> bit w 0 \<and> \<not> bit w 1 \<and> \<not> bit w 2 \<and> \<not> bit w 3 \<and> \<not> bit w 4 \<and> \<not> bit w 5 \<and> \<not> bit w 6 \<and> \<not> bit w 7"
    and "w AND 0xFF00 = 0 \<longleftrightarrow>
      \<not> bit w 8 \<and> \<not> bit w 9 \<and> \<not> bit w 10 \<and> \<not> bit w 11 \<and> \<not> bit w 12 \<and> \<not> bit w 13 \<and> \<not> bit w 14 \<and> \<not> bit w 15"
    by (simp_all only: and_push_mask_eq_0) (auto simp: numeral_eq_Suc All_less_Suc)
qed

lemma has_required [hasbits]:
  fixes w :: uint32
  shows "w AND 0x3 = 0x3 \<longleftrightarrow> bit w 0 \<and> bit w 1" "w AND 1 = 1 \<longleftrightarrow> bit w 0"
proof -
  have "(0x3 :: uint32) = mask 2"
    by (simp add: mask_eq_exp_minus_1)
  then have b3: "bit (0x3 :: uint32) n \<longleftrightarrow> n = 0 \<or> n = 1" for n
    by (simp only: bit_mask_iff) (auto simp: bit_simps)
  show "w AND 0x3 = 0x3 \<longleftrightarrow> bit w 0 \<and> bit w 1"
  proof
    assume "w AND 0x3 = 0x3"
    then have "bit (w AND 0x3) n = bit (0x3 :: uint32) n" for n by simp
    from this [of 0] this [of 1] show "bit w 0 \<and> bit w 1"
      by (simp only: bit_and_iff b3) simp
  next
    assume "bit w 0 \<and> bit w 1"
    then show "w AND 0x3 = 0x3"
      by (intro bit_word_eqI) (simp only: bit_and_iff b3, auto)
  qed
  show "w AND 1 = 1 \<longleftrightarrow> bit w 0"
    by (simp add: and_one_eq bit_0 odd_iff_mod_2_eq_one)
qed

section \<open>Strings\<close>

text \<open>
  A string field points to the shared \<^verbatim>\<open>kEmptyString\<close> (\<open>None\<close>) until the first
  write allocates a string of its own (\<open>Some\<close>). A \<^verbatim>\<open>const char*\<close> argument is the
  bytes it points to, read up to the first zero byte.
\<close>

type_synonym pb_string = "bytes option"

definition deref_string :: "pb_string \<Rightarrow> bytes" where
  "deref_string p = (case p of None \<Rightarrow> [] | Some s \<Rightarrow> s)"

definition own_string :: "pb_string \<Rightarrow> bytes" where
  "own_string p = (case p of None \<Rightarrow> [] | Some s \<Rightarrow> s)"

lemma deref_string_simps [simp]: "deref_string None = []" "deref_string (Some s) = s"
  by (simp_all add: deref_string_def)

lemma own_string_simps [simp]: "own_string None = []" "own_string (Some s) = s"
  by (simp_all add: own_string_def)

section \<open>Abstract fields\<close>

text \<open>
  \<open>shown\<close> is what a presence bit lets through, \<open>or_else\<close> how a merge combines
  two scalars, \<open>merged\<close> how it combines two embedded messages, and \<open>enc_opt\<close> the
  encoding of a field that may be absent.
\<close>

definition shown :: "bool \<Rightarrow> 'a \<Rightarrow> 'a option" where
  "shown b x = (if b then Some x else None)"

definition or_else :: "'a option \<Rightarrow> 'a option \<Rightarrow> 'a option" where
  "or_else from to = (case from of None \<Rightarrow> to | Some x \<Rightarrow> Some x)"

definition value_or :: "'a \<Rightarrow> 'a option \<Rightarrow> 'a" where
  "value_or d x = (case x of None \<Rightarrow> d | Some v \<Rightarrow> v)"

definition merged :: "('a \<Rightarrow> 'a \<Rightarrow> 'a) \<Rightarrow> 'a \<Rightarrow> 'a option \<Rightarrow> 'a option \<Rightarrow> 'a option" where
  "merged mrg d from to = (case from of None \<Rightarrow> to | Some f \<Rightarrow> Some (mrg f (value_or d to)))"

definition all_opt :: "('a \<Rightarrow> bool) \<Rightarrow> 'a option \<Rightarrow> bool" where
  "all_opt P x = (case x of None \<Rightarrow> True | Some v \<Rightarrow> P v)"

definition enc_opt :: "('a \<Rightarrow> bytes) \<Rightarrow> 'a option \<Rightarrow> bytes" where
  "enc_opt e x = (case x of None \<Rightarrow> [] | Some v \<Rightarrow> e v)"

lemma shown_simps [simp]: "shown True x = Some x" "shown False x = None"
  "shown b x = None \<longleftrightarrow> \<not> b" "shown b x = Some y \<longleftrightarrow> b \<and> x = y"
  by (auto simp: shown_def)

lemma or_else_simps [simp]: "or_else None y = y" "or_else (Some v) y = Some v" "or_else x None = x"
  by (auto simp: or_else_def split: option.split)

lemma value_or_simps [simp]: "value_or d None = d" "value_or d (Some v) = v"
  by (simp_all add: value_or_def)

lemma merged_simps [simp]:
  "merged mrg e None y = y" "merged mrg e (Some f) y = Some (mrg f (value_or e y))"
  by (simp_all add: merged_def)

lemma merged_empty: "(\<And>f. mrg f e = f) \<Longrightarrow> merged mrg e x None = x"
  by (cases x) simp_all

lemma all_opt_simps [simp]: "all_opt P None" "all_opt P (Some v) = P v"
  by (simp_all add: all_opt_def)

lemma enc_opt_simps [simp]: "enc_opt e None = []" "enc_opt e (Some v) = e v"
  by (simp_all add: enc_opt_def)

section \<open>A field and its presence bit\<close>

text \<open>
  A pointer to an embedded message is \<^verbatim>\<open>NULL\<close> (\<open>None\<close>) until the first write; the
  accessors then read the default instance \<open>new\<close>. The invariant of a field and
  its presence bit: an absent field holds its default, a present string or
  message has storage of its own.
\<close>

definition deref_pointer :: "'m \<Rightarrow> 'm option \<Rightarrow> 'm" where
  "deref_pointer new p = (case p of None \<Rightarrow> new | Some t \<Rightarrow> t)"

definition scalar_ok :: "bool \<Rightarrow> 'a \<Rightarrow> 'a \<Rightarrow> bool" where
  "scalar_ok has d v \<longleftrightarrow> (has \<or> v = d)"

definition string_ok :: "bool \<Rightarrow> pb_string \<Rightarrow> bool" where
  "string_ok has p \<longleftrightarrow> (case p of None \<Rightarrow> \<not> has | Some s \<Rightarrow> has \<or> s = [])"

definition pointer_ok :: "('m \<Rightarrow> bool) \<Rightarrow> ('m \<Rightarrow> 'a) \<Rightarrow> 'a \<Rightarrow> bool \<Rightarrow> 'm option \<Rightarrow> bool" where
  "pointer_ok ok view d has p \<longleftrightarrow>
     (case p of None \<Rightarrow> \<not> has | Some t \<Rightarrow> ok t \<and> (has \<or> view t = d))"

lemmas field_ok = scalar_ok_def string_ok_def pointer_ok_def

lemma deref_pointer_simps [simp]: "deref_pointer new None = new" "deref_pointer new (Some t) = t"
  by (simp_all add: deref_pointer_def)

lemma field_ok_simps [simp]:
  "scalar_ok True d v" "scalar_ok has d d" "string_ok True (Some s)" "string_ok has (Some [])" "string_ok False None"
  "pointer_ok ok view d True (Some t) = ok t" "pointer_ok ok view d False None"
  by (simp_all add: field_ok)

lemma scalar_value [simp]: "scalar_ok has d v \<Longrightarrow> value_or d (shown has v) = v"
  by (auto simp: field_ok shown_def)

lemma string_value [simp]: "string_ok has p \<Longrightarrow> value_or [] (shown has (deref_string p)) = deref_string p"
  by (cases p) (auto simp: field_ok shown_def)

lemma pointer_value [simp]:
  "pointer_ok ok view d has p \<Longrightarrow> view new = d \<Longrightarrow>
     value_or d (shown has (view (deref_pointer new p))) = view (deref_pointer new p)"
  by (cases p) (auto simp: field_ok shown_def)

lemma pointer_deref_ok: "pointer_ok ok view d has p \<Longrightarrow> ok new \<Longrightarrow> ok (deref_pointer new p)"
  by (cases p) (auto simp: field_ok)

lemma string_ok_empty [simp]: "string_ok False (map_option (\<lambda>_. []) p)"
  by (cases p) (auto simp: field_ok)

lemma string_ok_if [simp]: "string_ok has p \<Longrightarrow> string_ok False (if has then map_option (\<lambda>_. []) p else p)"
  by (cases p) (auto simp: field_ok)

lemma pointer_ok_clear:
  "pointer_ok ok view d has p \<Longrightarrow> (\<And>t. ok t \<Longrightarrow> ok (clr t)) \<Longrightarrow> (\<And>t. view (clr t) = d) \<Longrightarrow>
     pointer_ok ok view d False (map_option clr p)"
  by (cases p) (auto simp: field_ok)

lemma pointer_ok_clear_if:
  "pointer_ok ok view d has p \<Longrightarrow> (\<And>t. ok t \<Longrightarrow> ok (clr t)) \<Longrightarrow> (\<And>t. view (clr t) = d) \<Longrightarrow>
     pointer_ok ok view d False (if has then map_option clr p else p)"
  by (cases p) (auto simp: field_ok)

lemma pointer_ok_merge:
  "pointer_ok ok view d has p \<Longrightarrow> ok new \<Longrightarrow> (\<And>t. ok t \<Longrightarrow> ok (g t)) \<Longrightarrow> ok (g (deref_pointer new p))"
  by (cases p) (auto simp: field_ok)

text \<open>The test for an empty set of unknown fields only saves a call.\<close>

lemma unknown_size: "(if u \<noteq> [] then t + ComputeUnknownFieldsSize u else t) = t + ComputeUnknownFieldsSize u"
  by simp

lemma unknown_serialize:
  "(if u \<noteq> [] then SerializeUnknownFieldsToArray u t else t) = t @ SerializeUnknownFieldsToArray u []"
  using SerializeUnknown_append(2) [of u t] by simp

text \<open>Tags of the fields 1 to 15 take one byte.\<close>

lemma enc_tag_small:
  assumes "unat fn < 16" "unat type < 8"
  shows "enc_tag fn type = [of_nat (unat fn * 8 + unat type)]"
proof -
  have "unat fn * 8 + unat type < 128"
    using assms by linarith
  with assms show ?thesis
    by (simp add: enc_tag_def unat_MakeTag varint_small last_byte_def)
qed

lemma length_enc_tag_small [simp]: "unat fn < 16 \<Longrightarrow> unat type < 8 \<Longrightarrow> length (enc_tag fn type) = Suc 0"
  by (simp add: enc_tag_small)

lemma unat_wiretypes [simp]: "unat WIRETYPE_VARINT = 0" "unat WIRETYPE_FIXED64 = 1"
  "unat WIRETYPE_LENGTH_DELIMITED = 2" "unat WIRETYPE_FIXED32 = 5"
  by (simp_all add: wiretypes)

end
