(* ===== verification/Pb_Point.thy ===== *)
theory Pb_Point
  imports Has_Bits
begin

text \<open>
  The generated message \<^verbatim>\<open>Operation_OperationData_Point\<close>
  of \<^verbatim>\<open>message.pb.h\<close> and \<^verbatim>\<open>message.pb.cc\<close>.
\<close>

section \<open>The message \<^verbatim>\<open>Operation_OperationData_Point\<close>\<close>

subsection \<open>Data\<close>

record Point =
  Point_x_fld :: int32
  Point_y_fld :: int32
  Point_unknown :: unknown_field_set
  Point_cached_size :: nat
  Point_has_bits :: uint32

definition Point_default :: Point where
  "Point_default =
     \<lparr>Point_x_fld = 0,
      Point_y_fld = 0,
      Point_unknown = [],
      Point_cached_size = 0,
      Point_has_bits = 0\<rparr>"

subsection \<open>Accessors\<close>

definition Point_has_x :: "Point \<Rightarrow> bool" where
  "Point_has_x m \<longleftrightarrow> Point_has_bits m AND 1 \<noteq> 0"

definition Point_set_has_x :: "Point \<Rightarrow> Point" where
  "Point_set_has_x m = m\<lparr>Point_has_bits := Point_has_bits m OR 1\<rparr>"

definition Point_clear_has_x :: "Point \<Rightarrow> Point" where
  "Point_clear_has_x m = m\<lparr>Point_has_bits := Point_has_bits m AND NOT 1\<rparr>"

definition Point_clear_x :: "Point \<Rightarrow> Point" where
  "Point_clear_x m = Point_clear_has_x (m\<lparr>Point_x_fld := 0\<rparr>)"

definition Point_x :: "Point \<Rightarrow> int32" where
  "Point_x m = Point_x_fld m"

definition Point_set_x :: "int32 \<Rightarrow> Point \<Rightarrow> Point" where
  "Point_set_x value m = (Point_set_has_x m)\<lparr>Point_x_fld := value\<rparr>"

definition Point_has_y :: "Point \<Rightarrow> bool" where
  "Point_has_y m \<longleftrightarrow> Point_has_bits m AND 0x2 \<noteq> 0"

definition Point_set_has_y :: "Point \<Rightarrow> Point" where
  "Point_set_has_y m = m\<lparr>Point_has_bits := Point_has_bits m OR 0x2\<rparr>"

definition Point_clear_has_y :: "Point \<Rightarrow> Point" where
  "Point_clear_has_y m = m\<lparr>Point_has_bits := Point_has_bits m AND NOT 0x2\<rparr>"

definition Point_clear_y :: "Point \<Rightarrow> Point" where
  "Point_clear_y m = Point_clear_has_y (m\<lparr>Point_y_fld := 0\<rparr>)"

definition Point_y :: "Point \<Rightarrow> int32" where
  "Point_y m = Point_y_fld m"

definition Point_set_y :: "int32 \<Rightarrow> Point \<Rightarrow> Point" where
  "Point_set_y value m = (Point_set_has_y m)\<lparr>Point_y_fld := value\<rparr>"

lemmas Point_presence = Point_has_x_def Point_set_has_x_def Point_clear_has_x_def Point_has_y_def
    Point_set_has_y_def Point_clear_has_y_def

lemmas Point_accessors = Point_clear_x_def Point_x_def Point_set_x_def Point_clear_y_def Point_y_def
    Point_set_y_def

subsection \<open>Operations on whole messages\<close>

definition Point_Clear :: "Point \<Rightarrow> Point" where
  "Point_Clear m =
     (let m = (if Point_has_bits m AND 0xFF \<noteq> 0
           then m\<lparr>Point_x_fld := 0,
             Point_y_fld := 0\<rparr>
           else m)
      in m\<lparr>Point_has_bits := 0, Point_unknown := Unknown_Clear (Point_unknown m)\<rparr>)"

definition Point_merge_x :: "Point \<Rightarrow> Point \<Rightarrow> Point" where
  "Point_merge_x from m = (if Point_has_x from then Point_set_x (Point_x from) m else m)"

definition Point_merge_y :: "Point \<Rightarrow> Point \<Rightarrow> Point" where
  "Point_merge_y from m = (if Point_has_y from then Point_set_y (Point_y from) m else m)"

definition Point_MergeFrom :: "Point \<Rightarrow> Point \<Rightarrow> Point" where
  "Point_MergeFrom from m =
     (let m = (if Point_has_bits from AND 0xFF \<noteq> 0 then
             let m = Point_merge_x from m;
                 m = Point_merge_y from m
             in m
           else m)
      in m\<lparr>Point_unknown := Unknown_MergeFrom (Point_unknown m) (Point_unknown from)\<rparr>)"

definition Point_CopyFrom :: "Point \<Rightarrow> Point \<Rightarrow> Point" where
  "Point_CopyFrom from m = Point_MergeFrom from (Point_Clear m)"

definition Point_IsInitialized :: "Point \<Rightarrow> bool" where
  "Point_IsInitialized m \<longleftrightarrow>
     (if Point_has_bits m AND 0x3 \<noteq> 0x3 then False
      else True)"

definition Point_Swap :: "Point \<Rightarrow> Point \<Rightarrow> Point \<times> Point" where
  "Point_Swap m other =
     (m\<lparr>Point_x_fld := Point_x_fld other,
        Point_y_fld := Point_y_fld other,
        Point_has_bits := Point_has_bits other,
        Point_unknown := Point_unknown other,
        Point_cached_size := Point_cached_size other\<rparr>,
      other\<lparr>Point_x_fld := Point_x_fld m,
        Point_y_fld := Point_y_fld m,
        Point_has_bits := Point_has_bits m,
        Point_unknown := Point_unknown m,
        Point_cached_size := Point_cached_size m\<rparr>)"

definition Point_size_x :: "nat \<times> Point \<Rightarrow> nat \<times> Point" where
  "Point_size_x = (\<lambda>(total, m). (if Point_has_x m then (total + (1 + Int32Size (Point_x m)), m) else (total, m)))"

definition Point_size_y :: "nat \<times> Point \<Rightarrow> nat \<times> Point" where
  "Point_size_y = (\<lambda>(total, m). (if Point_has_y m then (total + (1 + Int32Size (Point_y m)), m) else (total, m)))"

definition Point_field_sizes :: "Point \<Rightarrow> nat \<times> Point" where
  "Point_field_sizes m =
     (let s = (0, m);
          s = (if Point_has_bits m AND 0xFF \<noteq> 0 then
             let s = Point_size_x s;
                 s = Point_size_y s
             in s
           else s)
      in s)"

definition Point_ByteSize :: "Point \<Rightarrow> nat \<times> Point" where
  "Point_ByteSize m =
     (let (total, m) = Point_field_sizes m;
          total = (if Point_unknown m \<noteq> [] then total + ComputeUnknownFieldsSize (Point_unknown m) else total)
      in (total, m\<lparr>Point_cached_size := total\<rparr>))"

definition Point_write_x :: "Point \<Rightarrow> bytes \<Rightarrow> bytes" where
  "Point_write_x m target =
     (if Point_has_x m then WriteInt32ToArray 1 (Point_x m) target else target)"

definition Point_write_y :: "Point \<Rightarrow> bytes \<Rightarrow> bytes" where
  "Point_write_y m target =
     (if Point_has_y m then WriteInt32ToArray 2 (Point_y m) target else target)"

definition Point_SerializeWithCachedSizesToArray :: "Point \<Rightarrow> bytes \<Rightarrow> bytes" where
  "Point_SerializeWithCachedSizesToArray m target =
     (let target = Point_write_x m target;
          target = Point_write_y m target
      in if Point_unknown m \<noteq> [] then SerializeUnknownFieldsToArray (Point_unknown m) target else target)"

subsection \<open>The abstract message\<close>

record APoint =
  APoint_x :: "int32 option"
  APoint_y :: "int32 option"
  APoint_unknown :: unknown_field_set

definition APoint_empty :: APoint where
  "APoint_empty = \<lparr>APoint_x = None,
     APoint_y = None,
     APoint_unknown = []\<rparr>"

definition Point_abs :: "Point \<Rightarrow> APoint" where
  "Point_abs m = \<lparr>APoint_x = shown (Point_has_x m) (Point_x m),
     APoint_y = shown (Point_has_y m) (Point_y m),
     APoint_unknown = Point_unknown m\<rparr>"

definition Point_ok :: "Point \<Rightarrow> bool" where
  "Point_ok m \<longleftrightarrow>
     scalar_ok (Point_has_x m) 0 (Point_x_fld m) \<and>
     scalar_ok (Point_has_y m) 0 (Point_y_fld m)"

definition APoint_merge :: "APoint \<Rightarrow> APoint \<Rightarrow> APoint" where
  "APoint_merge from to = \<lparr>APoint_x = or_else (APoint_x from) (APoint_x to),
     APoint_y = or_else (APoint_y from) (APoint_y to),
     APoint_unknown = APoint_unknown to @ APoint_unknown from\<rparr>"

definition APoint_initialized :: "APoint \<Rightarrow> bool" where
  "APoint_initialized a \<longleftrightarrow>
     APoint_x a \<noteq> None \<and>
     APoint_y a \<noteq> None"

definition APoint_encode :: "APoint \<Rightarrow> bytes" where
  "APoint_encode a =
     enc_opt (\<lambda>v. enc_tag 1 WIRETYPE_VARINT @ enc_int32 v) (APoint_x a) @
     enc_opt (\<lambda>v. enc_tag 2 WIRETYPE_VARINT @ enc_int32 v) (APoint_y a) @
     SerializeUnknownFieldsToArray (APoint_unknown a) []"

definition Point_sized :: "Point \<Rightarrow> bool" where
  "Point_sized m \<longleftrightarrow>
     Point_cached_size m = length (APoint_encode (Point_abs m))"

subsection \<open>Accessors on the abstract message\<close>

lemma Point_abs_default [simp]:
  "Point_abs Point_default = APoint_empty"
  by (simp add: Point_abs_def Point_default_def APoint_empty_def Point_accessors Point_presence)

lemma Point_ok_default [simp]:
  "Point_ok Point_default"
  by (simp add: Point_ok_def Point_default_def field_ok Point_presence)

lemma Point_abs_accessors [simp]:
  "Point_abs (Point_set_x v m) = (Point_abs m)\<lparr>APoint_x := Some v\<rparr>"
  "Point_abs (Point_clear_x m) = (Point_abs m)\<lparr>APoint_x := None\<rparr>"
  "Point_abs (Point_set_y v m) = (Point_abs m)\<lparr>APoint_y := Some v\<rparr>"
  "Point_abs (Point_clear_y m) = (Point_abs m)\<lparr>APoint_y := None\<rparr>"
  by (simp_all add: Point_abs_def Point_accessors Point_presence hasbits Let_def)

lemma Point_ok_accessors [simp]:
  "Point_ok m \<Longrightarrow> Point_ok (Point_set_x v m)"
  "Point_ok m \<Longrightarrow> Point_ok (Point_clear_x m)"
  "Point_ok m \<Longrightarrow> Point_ok (Point_set_y v m)"
  "Point_ok m \<Longrightarrow> Point_ok (Point_clear_y m)"
  by (simp_all add: Point_ok_def Let_def Point_accessors Point_presence hasbits)

lemma Point_getters:
  "Point_ok m \<Longrightarrow> Point_x m = value_or 0 (APoint_x (Point_abs m))"
  "Point_ok m \<Longrightarrow> Point_y m = value_or 0 (APoint_y (Point_abs m))"
  by (simp_all add: Point_ok_def Point_abs_def Point_accessors)

subsection \<open>Clear, MergeFrom, CopyFrom, IsInitialized, Swap\<close>

lemma Point_Clear_ok:
  "Point_ok m \<Longrightarrow> Point_ok (Point_Clear m)"
  by (cases "Point_has_bits m AND 0xFF = 0")
    (simp_all add: Point_ok_def Point_Clear_def Let_def Point_presence hasbits)

lemma Point_Clear_abs:
  "Point_abs (Point_Clear m) = APoint_empty"
  by (simp add: Point_abs_def APoint_empty_def Point_Clear_def Unknown_Clear_def Let_def Point_presence hasbits)

lemma Point_merge_absent:
  "\<not> Point_has_x from \<Longrightarrow> Point_merge_x from m = m"
  "\<not> Point_has_y from \<Longrightarrow> Point_merge_y from m = m"
  by (simp_all add: Point_merge_x_def Point_merge_y_def)

lemma Point_abs_merge_fields:
  "Point_abs (Point_merge_x from m) = APoint_x_update (or_else (APoint_x (Point_abs from))) (Point_abs m)"
  "Point_abs (Point_merge_y from m) = APoint_y_update (or_else (APoint_y (Point_abs from))) (Point_abs m)"
  by (simp_all add: Point_merge_x_def Point_merge_y_def Point_abs_def shown_def Point_accessors Point_presence hasbits)

lemma Point_ok_merge_fields:
  "Point_ok m \<Longrightarrow> Point_ok (Point_merge_x from m)"
  "Point_ok m \<Longrightarrow> Point_ok (Point_merge_y from m)"
  by (simp_all add: Point_merge_x_def Point_merge_y_def)

text \<open>The tests of whole bytes of presence bits only save work.\<close>

lemma Point_MergeFrom_steps:
  "Point_MergeFrom from m =
     (let m = Point_merge_x from m;
          m = Point_merge_y from m
      in m\<lparr>Point_unknown := Point_unknown m @ Point_unknown from\<rparr>)"
  by (cases "Point_has_bits from AND 0xFF = 0")
    (simp_all add: Point_MergeFrom_def Let_def Unknown_MergeFrom_append Point_merge_absent Point_presence hasbits)

text \<open>For a message that embeds this one through a pointer.\<close>

lemmas Point_pointer =
  pointer_value [where ok = Point_ok and view = Point_abs, OF _ Point_abs_default]
  pointer_ok_clear [where ok = Point_ok and view = Point_abs and clr = Point_Clear, OF _ Point_Clear_ok Point_Clear_abs]
  pointer_ok_clear_if [where ok = Point_ok and view = Point_abs and clr = Point_Clear, OF _ Point_Clear_ok Point_Clear_abs]

lemma Point_MergeFrom_step:
  assumes "Point_ok m" "Point_ok from"
  shows "Point_ok (Point_MergeFrom from m)"
    and "Point_abs (Point_MergeFrom from m) = APoint_merge (Point_abs from) (Point_abs m)"
proof -
  have u: "Point_ok (x\<lparr>Point_unknown := u\<rparr>) = Point_ok x" "Point_abs (x\<lparr>Point_unknown := u\<rparr>) = (Point_abs x)\<lparr>APoint_unknown := u\<rparr>" for x u
    by (simp_all add: Point_ok_def Point_abs_def Point_accessors Point_presence)
  note steps = Point_MergeFrom_steps Point_ok_merge_fields Point_abs_merge_fields
  show "Point_ok (Point_MergeFrom from m)"
    using assms by (simp add: Let_def u steps)
  have k: "Point_unknown x = APoint_unknown (Point_abs x)" for x
    by (simp add: Point_abs_def)
  show "Point_abs (Point_MergeFrom from m) = APoint_merge (Point_abs from) (Point_abs m)"
    using assms by (cases "Point_abs m") (simp add: Let_def u k steps APoint_merge_def)
qed

lemmas Point_MergeFrom_ok = Point_MergeFrom_step(1)
lemmas Point_MergeFrom_abs = Point_MergeFrom_step(2)

lemma Point_merge_empty [simp]:
  "APoint_merge a APoint_empty = a"
  by (simp add: APoint_merge_def APoint_empty_def merged_empty)

lemma Point_CopyFrom_ok:
  "Point_ok m \<Longrightarrow> Point_ok from \<Longrightarrow> Point_ok (Point_CopyFrom from m)"
  by (simp add: Point_CopyFrom_def Point_MergeFrom_ok Point_Clear_ok)

lemma Point_CopyFrom_abs:
  "Point_ok m \<Longrightarrow> Point_ok from \<Longrightarrow> Point_abs (Point_CopyFrom from m) = Point_abs from"
  by (simp add: Point_CopyFrom_def Point_MergeFrom_abs Point_Clear_ok Point_Clear_abs)

lemma Point_IsInitialized_abs:
  "Point_ok m \<Longrightarrow> Point_IsInitialized m \<longleftrightarrow> APoint_initialized (Point_abs m)"
  by (simp add: Point_IsInitialized_def APoint_initialized_def Point_abs_def Point_presence hasbits)

lemma Point_Swap_exchanges:
  "Point_Swap m other = (other, m)"
  by (simp add: Point_Swap_def)

subsection \<open>ByteSize and SerializeWithCachedSizesToArray\<close>

lemma Point_write_fields:
  "Point_write_x m t = t @ enc_opt (\<lambda>v. enc_tag 1 WIRETYPE_VARINT @ enc_int32 v) (APoint_x (Point_abs m))"
  "Point_write_y m t = t @ enc_opt (\<lambda>v. enc_tag 2 WIRETYPE_VARINT @ enc_int32 v) (APoint_y (Point_abs m))"
  by (simp_all add: Point_write_x_def Point_write_y_def Point_abs_def wire shown_def)

lemma Point_unknown_abs:
  "APoint_unknown (Point_abs m) = Point_unknown m"
  by (simp add: Point_abs_def)

lemma Point_size_absent:
  "\<not> Point_has_x (snd s) \<Longrightarrow> Point_size_x s = s"
  "\<not> Point_has_y (snd s) \<Longrightarrow> Point_size_y s = s"
  by (simp_all add: Point_size_x_def Point_size_y_def case_prod_beta)

lemma Point_size_has_bits:
  "Point_has_bits (snd (Point_size_x s)) = Point_has_bits (snd s)"
  "Point_has_bits (snd (Point_size_y s)) = Point_has_bits (snd s)"
  by (simp_all add: Point_size_x_def Point_size_y_def case_prod_beta)

lemma Point_size_fields:
  "Point_size_x (n, m) = (n + length (enc_opt (\<lambda>v. enc_tag 1 WIRETYPE_VARINT @ enc_int32 v) (APoint_x (Point_abs m))), m)"
  "Point_size_y (n, m) = (n + length (enc_opt (\<lambda>v. enc_tag 2 WIRETYPE_VARINT @ enc_int32 v) (APoint_y (Point_abs m))), m)"
  by (simp_all add: Point_size_x_def Point_size_y_def Point_abs_def shown_def
      length_enc_int32 length_enc_uint32 length_enc_enum length_enc_bytes)

lemma Point_size_skip:
  "Point_has_bits (snd s) AND 0xFF = 0 \<Longrightarrow>
     Point_size_y (Point_size_x s) = s"
  by (simp_all add: Point_size_absent Point_presence hasbits)

lemma Point_field_sizes_steps:
  "Point_field_sizes m =
     Point_size_y 
       (Point_size_x (0, m))"
  by (cases "Point_has_bits m AND 0xFF = 0")
    (simp_all add: Point_field_sizes_def Let_def Point_size_skip Point_size_has_bits)

lemma Point_ByteSize_eq:
  "Point_ByteSize m =
     (length (APoint_encode (Point_abs m)), m\<lparr>Point_cached_size := length (APoint_encode (Point_abs m))\<rparr>)"
  by (simp add: Point_ByteSize_def Point_field_sizes_steps unknown_size Let_def Point_size_fields ComputeUnknown_length APoint_encode_def add.assoc add.left_commute add.commute Point_unknown_abs)

lemma Point_ByteSize_fst:
  "Point_ok m \<Longrightarrow> fst (Point_ByteSize m) = length (APoint_encode (Point_abs m))"
  by (simp add: Point_ByteSize_eq)

lemma Point_cached_simps [simp]:
  "Point_ok (m\<lparr>Point_cached_size := c\<rparr>) = Point_ok m" "Point_abs (m\<lparr>Point_cached_size := c\<rparr>) = Point_abs m"
  by (simp_all add: Point_ok_def Point_abs_def Point_accessors Point_presence)

lemma Point_ByteSize_snd:
  "Point_ok m \<Longrightarrow> Point_ok (snd (Point_ByteSize m)) \<and> Point_abs (snd (Point_ByteSize m)) = Point_abs m \<and> Point_sized (snd (Point_ByteSize m))"
  by (simp add: Point_ByteSize_eq Point_sized_def)

lemma Point_SerializeWithCachedSizesToArray_eq:
  "Point_SerializeWithCachedSizesToArray m t = t @ APoint_encode (Point_abs m)"
  by (simp add: Point_SerializeWithCachedSizesToArray_def Let_def Point_write_fields APoint_encode_def Point_unknown_abs
      unknown_serialize)

end
