(* ===== verification/Pb_OperationData.thy ===== *)
theory Pb_OperationData
  imports Pb_Point
begin

text \<open>
  The generated message \<^verbatim>\<open>Operation_OperationData\<close>
  of \<^verbatim>\<open>message.pb.h\<close> and \<^verbatim>\<open>message.pb.cc\<close>.
\<close>

section \<open>The message \<^verbatim>\<open>Operation_OperationData\<close>\<close>

subsection \<open>Data\<close>

record OperationData =
  OperationData_data_type_fld :: int32
  OperationData_thinkness_fld :: int32
  OperationData_color_fld :: int32
  OperationData_start_point_fld :: "Point option"
  OperationData_end_point_fld :: "Point option"
  OperationData_center_fld :: "Point option"
  OperationData_angle_fld :: float32
  OperationData_a_fld :: float32
  OperationData_b_fld :: float32
  OperationData_top_left_corner_fld :: "Point option"
  OperationData_bottom_right_corner_fld :: "Point option"
  OperationData_position_fld :: "Point option"
  OperationData_is_start_fld :: bool
  OperationData_fill_fld :: bool
  OperationData_alpha_fld :: float32
  OperationData_unknown :: unknown_field_set
  OperationData_cached_size :: nat
  OperationData_has_bits :: uint32

definition OperationData_default :: OperationData where
  "OperationData_default =
     \<lparr>OperationData_data_type_fld = 0,
      OperationData_thinkness_fld = 0,
      OperationData_color_fld = 0,
      OperationData_start_point_fld = None,
      OperationData_end_point_fld = None,
      OperationData_center_fld = None,
      OperationData_angle_fld = 0,
      OperationData_a_fld = 0,
      OperationData_b_fld = 0,
      OperationData_top_left_corner_fld = None,
      OperationData_bottom_right_corner_fld = None,
      OperationData_position_fld = None,
      OperationData_is_start_fld = False,
      OperationData_fill_fld = False,
      OperationData_alpha_fld = 0,
      OperationData_unknown = [],
      OperationData_cached_size = 0,
      OperationData_has_bits = 0\<rparr>"

subsection \<open>Accessors\<close>

definition OperationData_has_data_type :: "OperationData \<Rightarrow> bool" where
  "OperationData_has_data_type m \<longleftrightarrow> OperationData_has_bits m AND 1 \<noteq> 0"

definition OperationData_set_has_data_type :: "OperationData \<Rightarrow> OperationData" where
  "OperationData_set_has_data_type m = m\<lparr>OperationData_has_bits := OperationData_has_bits m OR 1\<rparr>"

definition OperationData_clear_has_data_type :: "OperationData \<Rightarrow> OperationData" where
  "OperationData_clear_has_data_type m = m\<lparr>OperationData_has_bits := OperationData_has_bits m AND NOT 1\<rparr>"

definition OperationData_clear_data_type :: "OperationData \<Rightarrow> OperationData" where
  "OperationData_clear_data_type m = OperationData_clear_has_data_type (m\<lparr>OperationData_data_type_fld := 0\<rparr>)"

definition OperationData_data_type :: "OperationData \<Rightarrow> int32" where
  "OperationData_data_type m = OperationData_data_type_fld m"

definition OperationData_set_data_type :: "int32 \<Rightarrow> OperationData \<Rightarrow> OperationData" where
  "OperationData_set_data_type value m = (OperationData_set_has_data_type m)\<lparr>OperationData_data_type_fld := value\<rparr>"

definition OperationData_has_thinkness :: "OperationData \<Rightarrow> bool" where
  "OperationData_has_thinkness m \<longleftrightarrow> OperationData_has_bits m AND 0x2 \<noteq> 0"

definition OperationData_set_has_thinkness :: "OperationData \<Rightarrow> OperationData" where
  "OperationData_set_has_thinkness m = m\<lparr>OperationData_has_bits := OperationData_has_bits m OR 0x2\<rparr>"

definition OperationData_clear_has_thinkness :: "OperationData \<Rightarrow> OperationData" where
  "OperationData_clear_has_thinkness m = m\<lparr>OperationData_has_bits := OperationData_has_bits m AND NOT 0x2\<rparr>"

definition OperationData_clear_thinkness :: "OperationData \<Rightarrow> OperationData" where
  "OperationData_clear_thinkness m = OperationData_clear_has_thinkness (m\<lparr>OperationData_thinkness_fld := 0\<rparr>)"

definition OperationData_thinkness :: "OperationData \<Rightarrow> int32" where
  "OperationData_thinkness m = OperationData_thinkness_fld m"

definition OperationData_set_thinkness :: "int32 \<Rightarrow> OperationData \<Rightarrow> OperationData" where
  "OperationData_set_thinkness value m = (OperationData_set_has_thinkness m)\<lparr>OperationData_thinkness_fld := value\<rparr>"

definition OperationData_has_color :: "OperationData \<Rightarrow> bool" where
  "OperationData_has_color m \<longleftrightarrow> OperationData_has_bits m AND 0x4 \<noteq> 0"

definition OperationData_set_has_color :: "OperationData \<Rightarrow> OperationData" where
  "OperationData_set_has_color m = m\<lparr>OperationData_has_bits := OperationData_has_bits m OR 0x4\<rparr>"

definition OperationData_clear_has_color :: "OperationData \<Rightarrow> OperationData" where
  "OperationData_clear_has_color m = m\<lparr>OperationData_has_bits := OperationData_has_bits m AND NOT 0x4\<rparr>"

definition OperationData_clear_color :: "OperationData \<Rightarrow> OperationData" where
  "OperationData_clear_color m = OperationData_clear_has_color (m\<lparr>OperationData_color_fld := 0\<rparr>)"

definition OperationData_color :: "OperationData \<Rightarrow> int32" where
  "OperationData_color m = OperationData_color_fld m"

definition OperationData_set_color :: "int32 \<Rightarrow> OperationData \<Rightarrow> OperationData" where
  "OperationData_set_color value m = (OperationData_set_has_color m)\<lparr>OperationData_color_fld := value\<rparr>"

definition OperationData_has_start_point :: "OperationData \<Rightarrow> bool" where
  "OperationData_has_start_point m \<longleftrightarrow> OperationData_has_bits m AND 0x8 \<noteq> 0"

definition OperationData_set_has_start_point :: "OperationData \<Rightarrow> OperationData" where
  "OperationData_set_has_start_point m = m\<lparr>OperationData_has_bits := OperationData_has_bits m OR 0x8\<rparr>"

definition OperationData_clear_has_start_point :: "OperationData \<Rightarrow> OperationData" where
  "OperationData_clear_has_start_point m = m\<lparr>OperationData_has_bits := OperationData_has_bits m AND NOT 0x8\<rparr>"

definition OperationData_clear_start_point :: "OperationData \<Rightarrow> OperationData" where
  "OperationData_clear_start_point m =
     OperationData_clear_has_start_point (m\<lparr>OperationData_start_point_fld := map_option Point_Clear (OperationData_start_point_fld m)\<rparr>)"

definition OperationData_start_point :: "OperationData \<Rightarrow> Point" where
  "OperationData_start_point m = deref_pointer Point_default (OperationData_start_point_fld m)"

definition OperationData_mutable_start_point :: "(Point \<Rightarrow> Point) \<Rightarrow> OperationData \<Rightarrow> OperationData" where
  "OperationData_mutable_start_point f m =
     (let m = OperationData_set_has_start_point m
      in m\<lparr>OperationData_start_point_fld := Some (f (deref_pointer Point_default (OperationData_start_point_fld m)))\<rparr>)"

definition OperationData_release_start_point :: "OperationData \<Rightarrow> Point option \<times> OperationData" where
  "OperationData_release_start_point m =
     (let m = OperationData_clear_has_start_point m in (OperationData_start_point_fld m, m\<lparr>OperationData_start_point_fld := None\<rparr>))"

definition OperationData_has_end_point :: "OperationData \<Rightarrow> bool" where
  "OperationData_has_end_point m \<longleftrightarrow> OperationData_has_bits m AND 0x10 \<noteq> 0"

definition OperationData_set_has_end_point :: "OperationData \<Rightarrow> OperationData" where
  "OperationData_set_has_end_point m = m\<lparr>OperationData_has_bits := OperationData_has_bits m OR 0x10\<rparr>"

definition OperationData_clear_has_end_point :: "OperationData \<Rightarrow> OperationData" where
  "OperationData_clear_has_end_point m = m\<lparr>OperationData_has_bits := OperationData_has_bits m AND NOT 0x10\<rparr>"

definition OperationData_clear_end_point :: "OperationData \<Rightarrow> OperationData" where
  "OperationData_clear_end_point m =
     OperationData_clear_has_end_point (m\<lparr>OperationData_end_point_fld := map_option Point_Clear (OperationData_end_point_fld m)\<rparr>)"

definition OperationData_end_point :: "OperationData \<Rightarrow> Point" where
  "OperationData_end_point m = deref_pointer Point_default (OperationData_end_point_fld m)"

definition OperationData_mutable_end_point :: "(Point \<Rightarrow> Point) \<Rightarrow> OperationData \<Rightarrow> OperationData" where
  "OperationData_mutable_end_point f m =
     (let m = OperationData_set_has_end_point m
      in m\<lparr>OperationData_end_point_fld := Some (f (deref_pointer Point_default (OperationData_end_point_fld m)))\<rparr>)"

definition OperationData_release_end_point :: "OperationData \<Rightarrow> Point option \<times> OperationData" where
  "OperationData_release_end_point m =
     (let m = OperationData_clear_has_end_point m in (OperationData_end_point_fld m, m\<lparr>OperationData_end_point_fld := None\<rparr>))"

definition OperationData_has_center :: "OperationData \<Rightarrow> bool" where
  "OperationData_has_center m \<longleftrightarrow> OperationData_has_bits m AND 0x20 \<noteq> 0"

definition OperationData_set_has_center :: "OperationData \<Rightarrow> OperationData" where
  "OperationData_set_has_center m = m\<lparr>OperationData_has_bits := OperationData_has_bits m OR 0x20\<rparr>"

definition OperationData_clear_has_center :: "OperationData \<Rightarrow> OperationData" where
  "OperationData_clear_has_center m = m\<lparr>OperationData_has_bits := OperationData_has_bits m AND NOT 0x20\<rparr>"

definition OperationData_clear_center :: "OperationData \<Rightarrow> OperationData" where
  "OperationData_clear_center m =
     OperationData_clear_has_center (m\<lparr>OperationData_center_fld := map_option Point_Clear (OperationData_center_fld m)\<rparr>)"

definition OperationData_center :: "OperationData \<Rightarrow> Point" where
  "OperationData_center m = deref_pointer Point_default (OperationData_center_fld m)"

definition OperationData_mutable_center :: "(Point \<Rightarrow> Point) \<Rightarrow> OperationData \<Rightarrow> OperationData" where
  "OperationData_mutable_center f m =
     (let m = OperationData_set_has_center m
      in m\<lparr>OperationData_center_fld := Some (f (deref_pointer Point_default (OperationData_center_fld m)))\<rparr>)"

definition OperationData_release_center :: "OperationData \<Rightarrow> Point option \<times> OperationData" where
  "OperationData_release_center m =
     (let m = OperationData_clear_has_center m in (OperationData_center_fld m, m\<lparr>OperationData_center_fld := None\<rparr>))"

definition OperationData_has_angle :: "OperationData \<Rightarrow> bool" where
  "OperationData_has_angle m \<longleftrightarrow> OperationData_has_bits m AND 0x40 \<noteq> 0"

definition OperationData_set_has_angle :: "OperationData \<Rightarrow> OperationData" where
  "OperationData_set_has_angle m = m\<lparr>OperationData_has_bits := OperationData_has_bits m OR 0x40\<rparr>"

definition OperationData_clear_has_angle :: "OperationData \<Rightarrow> OperationData" where
  "OperationData_clear_has_angle m = m\<lparr>OperationData_has_bits := OperationData_has_bits m AND NOT 0x40\<rparr>"

definition OperationData_clear_angle :: "OperationData \<Rightarrow> OperationData" where
  "OperationData_clear_angle m = OperationData_clear_has_angle (m\<lparr>OperationData_angle_fld := 0\<rparr>)"

definition OperationData_angle :: "OperationData \<Rightarrow> float32" where
  "OperationData_angle m = OperationData_angle_fld m"

definition OperationData_set_angle :: "float32 \<Rightarrow> OperationData \<Rightarrow> OperationData" where
  "OperationData_set_angle value m = (OperationData_set_has_angle m)\<lparr>OperationData_angle_fld := value\<rparr>"

definition OperationData_has_a :: "OperationData \<Rightarrow> bool" where
  "OperationData_has_a m \<longleftrightarrow> OperationData_has_bits m AND 0x80 \<noteq> 0"

definition OperationData_set_has_a :: "OperationData \<Rightarrow> OperationData" where
  "OperationData_set_has_a m = m\<lparr>OperationData_has_bits := OperationData_has_bits m OR 0x80\<rparr>"

definition OperationData_clear_has_a :: "OperationData \<Rightarrow> OperationData" where
  "OperationData_clear_has_a m = m\<lparr>OperationData_has_bits := OperationData_has_bits m AND NOT 0x80\<rparr>"

definition OperationData_clear_a :: "OperationData \<Rightarrow> OperationData" where
  "OperationData_clear_a m = OperationData_clear_has_a (m\<lparr>OperationData_a_fld := 0\<rparr>)"

definition OperationData_a :: "OperationData \<Rightarrow> float32" where
  "OperationData_a m = OperationData_a_fld m"

definition OperationData_set_a :: "float32 \<Rightarrow> OperationData \<Rightarrow> OperationData" where
  "OperationData_set_a value m = (OperationData_set_has_a m)\<lparr>OperationData_a_fld := value\<rparr>"

definition OperationData_has_b :: "OperationData \<Rightarrow> bool" where
  "OperationData_has_b m \<longleftrightarrow> OperationData_has_bits m AND 0x100 \<noteq> 0"

definition OperationData_set_has_b :: "OperationData \<Rightarrow> OperationData" where
  "OperationData_set_has_b m = m\<lparr>OperationData_has_bits := OperationData_has_bits m OR 0x100\<rparr>"

definition OperationData_clear_has_b :: "OperationData \<Rightarrow> OperationData" where
  "OperationData_clear_has_b m = m\<lparr>OperationData_has_bits := OperationData_has_bits m AND NOT 0x100\<rparr>"

definition OperationData_clear_b :: "OperationData \<Rightarrow> OperationData" where
  "OperationData_clear_b m = OperationData_clear_has_b (m\<lparr>OperationData_b_fld := 0\<rparr>)"

definition OperationData_b :: "OperationData \<Rightarrow> float32" where
  "OperationData_b m = OperationData_b_fld m"

definition OperationData_set_b :: "float32 \<Rightarrow> OperationData \<Rightarrow> OperationData" where
  "OperationData_set_b value m = (OperationData_set_has_b m)\<lparr>OperationData_b_fld := value\<rparr>"

definition OperationData_has_top_left_corner :: "OperationData \<Rightarrow> bool" where
  "OperationData_has_top_left_corner m \<longleftrightarrow> OperationData_has_bits m AND 0x200 \<noteq> 0"

definition OperationData_set_has_top_left_corner :: "OperationData \<Rightarrow> OperationData" where
  "OperationData_set_has_top_left_corner m = m\<lparr>OperationData_has_bits := OperationData_has_bits m OR 0x200\<rparr>"

definition OperationData_clear_has_top_left_corner :: "OperationData \<Rightarrow> OperationData" where
  "OperationData_clear_has_top_left_corner m = m\<lparr>OperationData_has_bits := OperationData_has_bits m AND NOT 0x200\<rparr>"

definition OperationData_clear_top_left_corner :: "OperationData \<Rightarrow> OperationData" where
  "OperationData_clear_top_left_corner m =
     OperationData_clear_has_top_left_corner (m\<lparr>OperationData_top_left_corner_fld := map_option Point_Clear (OperationData_top_left_corner_fld m)\<rparr>)"

definition OperationData_top_left_corner :: "OperationData \<Rightarrow> Point" where
  "OperationData_top_left_corner m = deref_pointer Point_default (OperationData_top_left_corner_fld m)"

definition OperationData_mutable_top_left_corner :: "(Point \<Rightarrow> Point) \<Rightarrow> OperationData \<Rightarrow> OperationData" where
  "OperationData_mutable_top_left_corner f m =
     (let m = OperationData_set_has_top_left_corner m
      in m\<lparr>OperationData_top_left_corner_fld := Some (f (deref_pointer Point_default (OperationData_top_left_corner_fld m)))\<rparr>)"

definition OperationData_release_top_left_corner :: "OperationData \<Rightarrow> Point option \<times> OperationData" where
  "OperationData_release_top_left_corner m =
     (let m = OperationData_clear_has_top_left_corner m in (OperationData_top_left_corner_fld m, m\<lparr>OperationData_top_left_corner_fld := None\<rparr>))"

definition OperationData_has_bottom_right_corner :: "OperationData \<Rightarrow> bool" where
  "OperationData_has_bottom_right_corner m \<longleftrightarrow> OperationData_has_bits m AND 0x400 \<noteq> 0"

definition OperationData_set_has_bottom_right_corner :: "OperationData \<Rightarrow> OperationData" where
  "OperationData_set_has_bottom_right_corner m = m\<lparr>OperationData_has_bits := OperationData_has_bits m OR 0x400\<rparr>"

definition OperationData_clear_has_bottom_right_corner :: "OperationData \<Rightarrow> OperationData" where
  "OperationData_clear_has_bottom_right_corner m = m\<lparr>OperationData_has_bits := OperationData_has_bits m AND NOT 0x400\<rparr>"

definition OperationData_clear_bottom_right_corner :: "OperationData \<Rightarrow> OperationData" where
  "OperationData_clear_bottom_right_corner m =
     OperationData_clear_has_bottom_right_corner (m\<lparr>OperationData_bottom_right_corner_fld := map_option Point_Clear (OperationData_bottom_right_corner_fld m)\<rparr>)"

definition OperationData_bottom_right_corner :: "OperationData \<Rightarrow> Point" where
  "OperationData_bottom_right_corner m = deref_pointer Point_default (OperationData_bottom_right_corner_fld m)"

definition OperationData_mutable_bottom_right_corner :: "(Point \<Rightarrow> Point) \<Rightarrow> OperationData \<Rightarrow> OperationData" where
  "OperationData_mutable_bottom_right_corner f m =
     (let m = OperationData_set_has_bottom_right_corner m
      in m\<lparr>OperationData_bottom_right_corner_fld := Some (f (deref_pointer Point_default (OperationData_bottom_right_corner_fld m)))\<rparr>)"

definition OperationData_release_bottom_right_corner :: "OperationData \<Rightarrow> Point option \<times> OperationData" where
  "OperationData_release_bottom_right_corner m =
     (let m = OperationData_clear_has_bottom_right_corner m in (OperationData_bottom_right_corner_fld m, m\<lparr>OperationData_bottom_right_corner_fld := None\<rparr>))"

definition OperationData_has_position :: "OperationData \<Rightarrow> bool" where
  "OperationData_has_position m \<longleftrightarrow> OperationData_has_bits m AND 0x800 \<noteq> 0"

definition OperationData_set_has_position :: "OperationData \<Rightarrow> OperationData" where
  "OperationData_set_has_position m = m\<lparr>OperationData_has_bits := OperationData_has_bits m OR 0x800\<rparr>"

definition OperationData_clear_has_position :: "OperationData \<Rightarrow> OperationData" where
  "OperationData_clear_has_position m = m\<lparr>OperationData_has_bits := OperationData_has_bits m AND NOT 0x800\<rparr>"

definition OperationData_clear_position :: "OperationData \<Rightarrow> OperationData" where
  "OperationData_clear_position m =
     OperationData_clear_has_position (m\<lparr>OperationData_position_fld := map_option Point_Clear (OperationData_position_fld m)\<rparr>)"

definition OperationData_position :: "OperationData \<Rightarrow> Point" where
  "OperationData_position m = deref_pointer Point_default (OperationData_position_fld m)"

definition OperationData_mutable_position :: "(Point \<Rightarrow> Point) \<Rightarrow> OperationData \<Rightarrow> OperationData" where
  "OperationData_mutable_position f m =
     (let m = OperationData_set_has_position m
      in m\<lparr>OperationData_position_fld := Some (f (deref_pointer Point_default (OperationData_position_fld m)))\<rparr>)"

definition OperationData_release_position :: "OperationData \<Rightarrow> Point option \<times> OperationData" where
  "OperationData_release_position m =
     (let m = OperationData_clear_has_position m in (OperationData_position_fld m, m\<lparr>OperationData_position_fld := None\<rparr>))"

definition OperationData_has_is_start :: "OperationData \<Rightarrow> bool" where
  "OperationData_has_is_start m \<longleftrightarrow> OperationData_has_bits m AND 0x1000 \<noteq> 0"

definition OperationData_set_has_is_start :: "OperationData \<Rightarrow> OperationData" where
  "OperationData_set_has_is_start m = m\<lparr>OperationData_has_bits := OperationData_has_bits m OR 0x1000\<rparr>"

definition OperationData_clear_has_is_start :: "OperationData \<Rightarrow> OperationData" where
  "OperationData_clear_has_is_start m = m\<lparr>OperationData_has_bits := OperationData_has_bits m AND NOT 0x1000\<rparr>"

definition OperationData_clear_is_start :: "OperationData \<Rightarrow> OperationData" where
  "OperationData_clear_is_start m = OperationData_clear_has_is_start (m\<lparr>OperationData_is_start_fld := False\<rparr>)"

definition OperationData_is_start :: "OperationData \<Rightarrow> bool" where
  "OperationData_is_start m = OperationData_is_start_fld m"

definition OperationData_set_is_start :: "bool \<Rightarrow> OperationData \<Rightarrow> OperationData" where
  "OperationData_set_is_start value m = (OperationData_set_has_is_start m)\<lparr>OperationData_is_start_fld := value\<rparr>"

definition OperationData_has_fill :: "OperationData \<Rightarrow> bool" where
  "OperationData_has_fill m \<longleftrightarrow> OperationData_has_bits m AND 0x2000 \<noteq> 0"

definition OperationData_set_has_fill :: "OperationData \<Rightarrow> OperationData" where
  "OperationData_set_has_fill m = m\<lparr>OperationData_has_bits := OperationData_has_bits m OR 0x2000\<rparr>"

definition OperationData_clear_has_fill :: "OperationData \<Rightarrow> OperationData" where
  "OperationData_clear_has_fill m = m\<lparr>OperationData_has_bits := OperationData_has_bits m AND NOT 0x2000\<rparr>"

definition OperationData_clear_fill :: "OperationData \<Rightarrow> OperationData" where
  "OperationData_clear_fill m = OperationData_clear_has_fill (m\<lparr>OperationData_fill_fld := False\<rparr>)"

definition OperationData_fill :: "OperationData \<Rightarrow> bool" where
  "OperationData_fill m = OperationData_fill_fld m"

definition OperationData_set_fill :: "bool \<Rightarrow> OperationData \<Rightarrow> OperationData" where
  "OperationData_set_fill value m = (OperationData_set_has_fill m)\<lparr>OperationData_fill_fld := value\<rparr>"

definition OperationData_has_alpha :: "OperationData \<Rightarrow> bool" where
  "OperationData_has_alpha m \<longleftrightarrow> OperationData_has_bits m AND 0x4000 \<noteq> 0"

definition OperationData_set_has_alpha :: "OperationData \<Rightarrow> OperationData" where
  "OperationData_set_has_alpha m = m\<lparr>OperationData_has_bits := OperationData_has_bits m OR 0x4000\<rparr>"

definition OperationData_clear_has_alpha :: "OperationData \<Rightarrow> OperationData" where
  "OperationData_clear_has_alpha m = m\<lparr>OperationData_has_bits := OperationData_has_bits m AND NOT 0x4000\<rparr>"

definition OperationData_clear_alpha :: "OperationData \<Rightarrow> OperationData" where
  "OperationData_clear_alpha m = OperationData_clear_has_alpha (m\<lparr>OperationData_alpha_fld := 0\<rparr>)"

definition OperationData_alpha :: "OperationData \<Rightarrow> float32" where
  "OperationData_alpha m = OperationData_alpha_fld m"

definition OperationData_set_alpha :: "float32 \<Rightarrow> OperationData \<Rightarrow> OperationData" where
  "OperationData_set_alpha value m = (OperationData_set_has_alpha m)\<lparr>OperationData_alpha_fld := value\<rparr>"

lemmas OperationData_presence = OperationData_has_data_type_def OperationData_set_has_data_type_def
    OperationData_clear_has_data_type_def OperationData_has_thinkness_def OperationData_set_has_thinkness_def
    OperationData_clear_has_thinkness_def OperationData_has_color_def OperationData_set_has_color_def
    OperationData_clear_has_color_def OperationData_has_start_point_def OperationData_set_has_start_point_def
    OperationData_clear_has_start_point_def OperationData_has_end_point_def
    OperationData_set_has_end_point_def OperationData_clear_has_end_point_def OperationData_has_center_def
    OperationData_set_has_center_def OperationData_clear_has_center_def OperationData_has_angle_def
    OperationData_set_has_angle_def OperationData_clear_has_angle_def OperationData_has_a_def
    OperationData_set_has_a_def OperationData_clear_has_a_def OperationData_has_b_def
    OperationData_set_has_b_def OperationData_clear_has_b_def OperationData_has_top_left_corner_def
    OperationData_set_has_top_left_corner_def OperationData_clear_has_top_left_corner_def
    OperationData_has_bottom_right_corner_def OperationData_set_has_bottom_right_corner_def
    OperationData_clear_has_bottom_right_corner_def OperationData_has_position_def
    OperationData_set_has_position_def OperationData_clear_has_position_def OperationData_has_is_start_def
    OperationData_set_has_is_start_def OperationData_clear_has_is_start_def OperationData_has_fill_def
    OperationData_set_has_fill_def OperationData_clear_has_fill_def OperationData_has_alpha_def
    OperationData_set_has_alpha_def OperationData_clear_has_alpha_def

lemmas OperationData_accessors = OperationData_clear_data_type_def OperationData_data_type_def
    OperationData_set_data_type_def OperationData_clear_thinkness_def OperationData_thinkness_def
    OperationData_set_thinkness_def OperationData_clear_color_def OperationData_color_def
    OperationData_set_color_def OperationData_clear_start_point_def OperationData_start_point_def
    OperationData_mutable_start_point_def OperationData_release_start_point_def
    OperationData_clear_end_point_def OperationData_end_point_def OperationData_mutable_end_point_def
    OperationData_release_end_point_def OperationData_clear_center_def OperationData_center_def
    OperationData_mutable_center_def OperationData_release_center_def OperationData_clear_angle_def
    OperationData_angle_def OperationData_set_angle_def OperationData_clear_a_def OperationData_a_def
    OperationData_set_a_def OperationData_clear_b_def OperationData_b_def OperationData_set_b_def
    OperationData_clear_top_left_corner_def OperationData_top_left_corner_def
    OperationData_mutable_top_left_corner_def OperationData_release_top_left_corner_def
    OperationData_clear_bottom_right_corner_def OperationData_bottom_right_corner_def
    OperationData_mutable_bottom_right_corner_def OperationData_release_bottom_right_corner_def
    OperationData_clear_position_def OperationData_position_def OperationData_mutable_position_def
    OperationData_release_position_def OperationData_clear_is_start_def OperationData_is_start_def
    OperationData_set_is_start_def OperationData_clear_fill_def OperationData_fill_def
    OperationData_set_fill_def OperationData_clear_alpha_def OperationData_alpha_def
    OperationData_set_alpha_def

subsection \<open>Operations on whole messages\<close>

definition OperationData_Clear :: "OperationData \<Rightarrow> OperationData" where
  "OperationData_Clear m =
     (let m = (if OperationData_has_bits m AND 0xFF \<noteq> 0
           then m\<lparr>OperationData_data_type_fld := 0,
             OperationData_thinkness_fld := 0,
             OperationData_color_fld := 0,
             OperationData_start_point_fld := (if OperationData_has_start_point m then map_option Point_Clear (OperationData_start_point_fld m) else OperationData_start_point_fld m),
             OperationData_end_point_fld := (if OperationData_has_end_point m then map_option Point_Clear (OperationData_end_point_fld m) else OperationData_end_point_fld m),
             OperationData_center_fld := (if OperationData_has_center m then map_option Point_Clear (OperationData_center_fld m) else OperationData_center_fld m),
             OperationData_angle_fld := 0,
             OperationData_a_fld := 0\<rparr>
           else m);
          m = (if OperationData_has_bits m AND 0xFF00 \<noteq> 0
           then m\<lparr>OperationData_b_fld := 0,
             OperationData_top_left_corner_fld := (if OperationData_has_top_left_corner m then map_option Point_Clear (OperationData_top_left_corner_fld m) else OperationData_top_left_corner_fld m),
             OperationData_bottom_right_corner_fld := (if OperationData_has_bottom_right_corner m then map_option Point_Clear (OperationData_bottom_right_corner_fld m) else OperationData_bottom_right_corner_fld m),
             OperationData_position_fld := (if OperationData_has_position m then map_option Point_Clear (OperationData_position_fld m) else OperationData_position_fld m),
             OperationData_is_start_fld := False,
             OperationData_fill_fld := False,
             OperationData_alpha_fld := 0\<rparr>
           else m)
      in m\<lparr>OperationData_has_bits := 0, OperationData_unknown := Unknown_Clear (OperationData_unknown m)\<rparr>)"

definition OperationData_merge_data_type :: "OperationData \<Rightarrow> OperationData \<Rightarrow> OperationData" where
  "OperationData_merge_data_type from m = (if OperationData_has_data_type from then OperationData_set_data_type (OperationData_data_type from) m else m)"

definition OperationData_merge_thinkness :: "OperationData \<Rightarrow> OperationData \<Rightarrow> OperationData" where
  "OperationData_merge_thinkness from m = (if OperationData_has_thinkness from then OperationData_set_thinkness (OperationData_thinkness from) m else m)"

definition OperationData_merge_color :: "OperationData \<Rightarrow> OperationData \<Rightarrow> OperationData" where
  "OperationData_merge_color from m = (if OperationData_has_color from then OperationData_set_color (OperationData_color from) m else m)"

definition OperationData_merge_start_point :: "OperationData \<Rightarrow> OperationData \<Rightarrow> OperationData" where
  "OperationData_merge_start_point from m = (if OperationData_has_start_point from then OperationData_mutable_start_point (Point_MergeFrom (OperationData_start_point from)) m else m)"

definition OperationData_merge_end_point :: "OperationData \<Rightarrow> OperationData \<Rightarrow> OperationData" where
  "OperationData_merge_end_point from m = (if OperationData_has_end_point from then OperationData_mutable_end_point (Point_MergeFrom (OperationData_end_point from)) m else m)"

definition OperationData_merge_center :: "OperationData \<Rightarrow> OperationData \<Rightarrow> OperationData" where
  "OperationData_merge_center from m = (if OperationData_has_center from then OperationData_mutable_center (Point_MergeFrom (OperationData_center from)) m else m)"

definition OperationData_merge_angle :: "OperationData \<Rightarrow> OperationData \<Rightarrow> OperationData" where
  "OperationData_merge_angle from m = (if OperationData_has_angle from then OperationData_set_angle (OperationData_angle from) m else m)"

definition OperationData_merge_a :: "OperationData \<Rightarrow> OperationData \<Rightarrow> OperationData" where
  "OperationData_merge_a from m = (if OperationData_has_a from then OperationData_set_a (OperationData_a from) m else m)"

definition OperationData_merge_b :: "OperationData \<Rightarrow> OperationData \<Rightarrow> OperationData" where
  "OperationData_merge_b from m = (if OperationData_has_b from then OperationData_set_b (OperationData_b from) m else m)"

definition OperationData_merge_top_left_corner :: "OperationData \<Rightarrow> OperationData \<Rightarrow> OperationData" where
  "OperationData_merge_top_left_corner from m = (if OperationData_has_top_left_corner from then OperationData_mutable_top_left_corner (Point_MergeFrom (OperationData_top_left_corner from)) m else m)"

definition OperationData_merge_bottom_right_corner :: "OperationData \<Rightarrow> OperationData \<Rightarrow> OperationData" where
  "OperationData_merge_bottom_right_corner from m = (if OperationData_has_bottom_right_corner from then OperationData_mutable_bottom_right_corner (Point_MergeFrom (OperationData_bottom_right_corner from)) m else m)"

definition OperationData_merge_position :: "OperationData \<Rightarrow> OperationData \<Rightarrow> OperationData" where
  "OperationData_merge_position from m = (if OperationData_has_position from then OperationData_mutable_position (Point_MergeFrom (OperationData_position from)) m else m)"

definition OperationData_merge_is_start :: "OperationData \<Rightarrow> OperationData \<Rightarrow> OperationData" where
  "OperationData_merge_is_start from m = (if OperationData_has_is_start from then OperationData_set_is_start (OperationData_is_start from) m else m)"

definition OperationData_merge_fill :: "OperationData \<Rightarrow> OperationData \<Rightarrow> OperationData" where
  "OperationData_merge_fill from m = (if OperationData_has_fill from then OperationData_set_fill (OperationData_fill from) m else m)"

definition OperationData_merge_alpha :: "OperationData \<Rightarrow> OperationData \<Rightarrow> OperationData" where
  "OperationData_merge_alpha from m = (if OperationData_has_alpha from then OperationData_set_alpha (OperationData_alpha from) m else m)"

definition OperationData_MergeFrom :: "OperationData \<Rightarrow> OperationData \<Rightarrow> OperationData" where
  "OperationData_MergeFrom from m =
     (let m = (if OperationData_has_bits from AND 0xFF \<noteq> 0 then
             let m = OperationData_merge_data_type from m;
                 m = OperationData_merge_thinkness from m;
                 m = OperationData_merge_color from m;
                 m = OperationData_merge_start_point from m;
                 m = OperationData_merge_end_point from m;
                 m = OperationData_merge_center from m;
                 m = OperationData_merge_angle from m;
                 m = OperationData_merge_a from m
             in m
           else m);
          m = (if OperationData_has_bits from AND 0xFF00 \<noteq> 0 then
             let m = OperationData_merge_b from m;
                 m = OperationData_merge_top_left_corner from m;
                 m = OperationData_merge_bottom_right_corner from m;
                 m = OperationData_merge_position from m;
                 m = OperationData_merge_is_start from m;
                 m = OperationData_merge_fill from m;
                 m = OperationData_merge_alpha from m
             in m
           else m)
      in m\<lparr>OperationData_unknown := Unknown_MergeFrom (OperationData_unknown m) (OperationData_unknown from)\<rparr>)"

definition OperationData_CopyFrom :: "OperationData \<Rightarrow> OperationData \<Rightarrow> OperationData" where
  "OperationData_CopyFrom from m = OperationData_MergeFrom from (OperationData_Clear m)"

definition OperationData_IsInitialized :: "OperationData \<Rightarrow> bool" where
  "OperationData_IsInitialized m \<longleftrightarrow>
     (if OperationData_has_bits m AND 0x3 \<noteq> 0x3 then False
      else if OperationData_has_start_point m \<and> \<not> Point_IsInitialized (OperationData_start_point m) then False
      else if OperationData_has_end_point m \<and> \<not> Point_IsInitialized (OperationData_end_point m) then False
      else if OperationData_has_center m \<and> \<not> Point_IsInitialized (OperationData_center m) then False
      else if OperationData_has_top_left_corner m \<and> \<not> Point_IsInitialized (OperationData_top_left_corner m) then False
      else if OperationData_has_bottom_right_corner m \<and> \<not> Point_IsInitialized (OperationData_bottom_right_corner m) then False
      else if OperationData_has_position m \<and> \<not> Point_IsInitialized (OperationData_position m) then False
      else True)"

definition OperationData_Swap :: "OperationData \<Rightarrow> OperationData \<Rightarrow> OperationData \<times> OperationData" where
  "OperationData_Swap m other =
     (m\<lparr>OperationData_data_type_fld := OperationData_data_type_fld other,
        OperationData_thinkness_fld := OperationData_thinkness_fld other,
        OperationData_color_fld := OperationData_color_fld other,
        OperationData_start_point_fld := OperationData_start_point_fld other,
        OperationData_end_point_fld := OperationData_end_point_fld other,
        OperationData_center_fld := OperationData_center_fld other,
        OperationData_angle_fld := OperationData_angle_fld other,
        OperationData_a_fld := OperationData_a_fld other,
        OperationData_b_fld := OperationData_b_fld other,
        OperationData_top_left_corner_fld := OperationData_top_left_corner_fld other,
        OperationData_bottom_right_corner_fld := OperationData_bottom_right_corner_fld other,
        OperationData_position_fld := OperationData_position_fld other,
        OperationData_is_start_fld := OperationData_is_start_fld other,
        OperationData_fill_fld := OperationData_fill_fld other,
        OperationData_alpha_fld := OperationData_alpha_fld other,
        OperationData_has_bits := OperationData_has_bits other,
        OperationData_unknown := OperationData_unknown other,
        OperationData_cached_size := OperationData_cached_size other\<rparr>,
      other\<lparr>OperationData_data_type_fld := OperationData_data_type_fld m,
        OperationData_thinkness_fld := OperationData_thinkness_fld m,
        OperationData_color_fld := OperationData_color_fld m,
        OperationData_start_point_fld := OperationData_start_point_fld m,
        OperationData_end_point_fld := OperationData_end_point_fld m,
        OperationData_center_fld := OperationData_center_fld m,
        OperationData_angle_fld := OperationData_angle_fld m,
        OperationData_a_fld := OperationData_a_fld m,
        OperationData_b_fld := OperationData_b_fld m,
        OperationData_top_left_corner_fld := OperationData_top_left_corner_fld m,
        OperationData_bottom_right_corner_fld := OperationData_bottom_right_corner_fld m,
        OperationData_position_fld := OperationData_position_fld m,
        OperationData_is_start_fld := OperationData_is_start_fld m,
        OperationData_fill_fld := OperationData_fill_fld m,
        OperationData_alpha_fld := OperationData_alpha_fld m,
        OperationData_has_bits := OperationData_has_bits m,
        OperationData_unknown := OperationData_unknown m,
        OperationData_cached_size := OperationData_cached_size m\<rparr>)"

definition OperationData_size_data_type :: "nat \<times> OperationData \<Rightarrow> nat \<times> OperationData" where
  "OperationData_size_data_type = (\<lambda>(total, m). (if OperationData_has_data_type m then (total + (1 + EnumSize (OperationData_data_type m)), m) else (total, m)))"

definition OperationData_size_thinkness :: "nat \<times> OperationData \<Rightarrow> nat \<times> OperationData" where
  "OperationData_size_thinkness = (\<lambda>(total, m). (if OperationData_has_thinkness m then (total + (1 + Int32Size (OperationData_thinkness m)), m) else (total, m)))"

definition OperationData_size_color :: "nat \<times> OperationData \<Rightarrow> nat \<times> OperationData" where
  "OperationData_size_color = (\<lambda>(total, m). (if OperationData_has_color m then (total + (1 + Int32Size (OperationData_color m)), m) else (total, m)))"

definition OperationData_size_start_point :: "nat \<times> OperationData \<Rightarrow> nat \<times> OperationData" where
  "OperationData_size_start_point = (\<lambda>(total, m). (if OperationData_has_start_point m then
        (case OperationData_start_point_fld m of
           None \<Rightarrow> (total + (1 + fst (MessageSizeNoVirtual Point_ByteSize Point_default)), m)
         | Some p \<Rightarrow> (let (n, p) = MessageSizeNoVirtual Point_ByteSize p
             in (total + (1 + n), m\<lparr>OperationData_start_point_fld := Some p\<rparr>)))
      else (total, m)))"

definition OperationData_size_end_point :: "nat \<times> OperationData \<Rightarrow> nat \<times> OperationData" where
  "OperationData_size_end_point = (\<lambda>(total, m). (if OperationData_has_end_point m then
        (case OperationData_end_point_fld m of
           None \<Rightarrow> (total + (1 + fst (MessageSizeNoVirtual Point_ByteSize Point_default)), m)
         | Some p \<Rightarrow> (let (n, p) = MessageSizeNoVirtual Point_ByteSize p
             in (total + (1 + n), m\<lparr>OperationData_end_point_fld := Some p\<rparr>)))
      else (total, m)))"

definition OperationData_size_center :: "nat \<times> OperationData \<Rightarrow> nat \<times> OperationData" where
  "OperationData_size_center = (\<lambda>(total, m). (if OperationData_has_center m then
        (case OperationData_center_fld m of
           None \<Rightarrow> (total + (1 + fst (MessageSizeNoVirtual Point_ByteSize Point_default)), m)
         | Some p \<Rightarrow> (let (n, p) = MessageSizeNoVirtual Point_ByteSize p
             in (total + (1 + n), m\<lparr>OperationData_center_fld := Some p\<rparr>)))
      else (total, m)))"

definition OperationData_size_angle :: "nat \<times> OperationData \<Rightarrow> nat \<times> OperationData" where
  "OperationData_size_angle = (\<lambda>(total, m). (if OperationData_has_angle m then (total + (1 + 4), m) else (total, m)))"

definition OperationData_size_a :: "nat \<times> OperationData \<Rightarrow> nat \<times> OperationData" where
  "OperationData_size_a = (\<lambda>(total, m). (if OperationData_has_a m then (total + (1 + 4), m) else (total, m)))"

definition OperationData_size_b :: "nat \<times> OperationData \<Rightarrow> nat \<times> OperationData" where
  "OperationData_size_b = (\<lambda>(total, m). (if OperationData_has_b m then (total + (1 + 4), m) else (total, m)))"

definition OperationData_size_top_left_corner :: "nat \<times> OperationData \<Rightarrow> nat \<times> OperationData" where
  "OperationData_size_top_left_corner = (\<lambda>(total, m). (if OperationData_has_top_left_corner m then
        (case OperationData_top_left_corner_fld m of
           None \<Rightarrow> (total + (1 + fst (MessageSizeNoVirtual Point_ByteSize Point_default)), m)
         | Some p \<Rightarrow> (let (n, p) = MessageSizeNoVirtual Point_ByteSize p
             in (total + (1 + n), m\<lparr>OperationData_top_left_corner_fld := Some p\<rparr>)))
      else (total, m)))"

definition OperationData_size_bottom_right_corner :: "nat \<times> OperationData \<Rightarrow> nat \<times> OperationData" where
  "OperationData_size_bottom_right_corner = (\<lambda>(total, m). (if OperationData_has_bottom_right_corner m then
        (case OperationData_bottom_right_corner_fld m of
           None \<Rightarrow> (total + (1 + fst (MessageSizeNoVirtual Point_ByteSize Point_default)), m)
         | Some p \<Rightarrow> (let (n, p) = MessageSizeNoVirtual Point_ByteSize p
             in (total + (1 + n), m\<lparr>OperationData_bottom_right_corner_fld := Some p\<rparr>)))
      else (total, m)))"

definition OperationData_size_position :: "nat \<times> OperationData \<Rightarrow> nat \<times> OperationData" where
  "OperationData_size_position = (\<lambda>(total, m). (if OperationData_has_position m then
        (case OperationData_position_fld m of
           None \<Rightarrow> (total + (1 + fst (MessageSizeNoVirtual Point_ByteSize Point_default)), m)
         | Some p \<Rightarrow> (let (n, p) = MessageSizeNoVirtual Point_ByteSize p
             in (total + (1 + n), m\<lparr>OperationData_position_fld := Some p\<rparr>)))
      else (total, m)))"

definition OperationData_size_is_start :: "nat \<times> OperationData \<Rightarrow> nat \<times> OperationData" where
  "OperationData_size_is_start = (\<lambda>(total, m). (if OperationData_has_is_start m then (total + (1 + 1), m) else (total, m)))"

definition OperationData_size_fill :: "nat \<times> OperationData \<Rightarrow> nat \<times> OperationData" where
  "OperationData_size_fill = (\<lambda>(total, m). (if OperationData_has_fill m then (total + (1 + 1), m) else (total, m)))"

definition OperationData_size_alpha :: "nat \<times> OperationData \<Rightarrow> nat \<times> OperationData" where
  "OperationData_size_alpha = (\<lambda>(total, m). (if OperationData_has_alpha m then (total + (1 + 4), m) else (total, m)))"

definition OperationData_field_sizes :: "OperationData \<Rightarrow> nat \<times> OperationData" where
  "OperationData_field_sizes m =
     (let s = (0, m);
          s = (if OperationData_has_bits m AND 0xFF \<noteq> 0 then
             let s = OperationData_size_data_type s;
                 s = OperationData_size_thinkness s;
                 s = OperationData_size_color s;
                 s = OperationData_size_start_point s;
                 s = OperationData_size_end_point s;
                 s = OperationData_size_center s;
                 s = OperationData_size_angle s;
                 s = OperationData_size_a s
             in s
           else s);
          s = (if OperationData_has_bits m AND 0xFF00 \<noteq> 0 then
             let s = OperationData_size_b s;
                 s = OperationData_size_top_left_corner s;
                 s = OperationData_size_bottom_right_corner s;
                 s = OperationData_size_position s;
                 s = OperationData_size_is_start s;
                 s = OperationData_size_fill s;
                 s = OperationData_size_alpha s
             in s
           else s)
      in s)"

definition OperationData_ByteSize :: "OperationData \<Rightarrow> nat \<times> OperationData" where
  "OperationData_ByteSize m =
     (let (total, m) = OperationData_field_sizes m;
          total = (if OperationData_unknown m \<noteq> [] then total + ComputeUnknownFieldsSize (OperationData_unknown m) else total)
      in (total, m\<lparr>OperationData_cached_size := total\<rparr>))"

definition OperationData_write_data_type :: "OperationData \<Rightarrow> bytes \<Rightarrow> bytes" where
  "OperationData_write_data_type m target =
     (if OperationData_has_data_type m then WriteEnumToArray 1 (OperationData_data_type m) target else target)"

definition OperationData_write_thinkness :: "OperationData \<Rightarrow> bytes \<Rightarrow> bytes" where
  "OperationData_write_thinkness m target =
     (if OperationData_has_thinkness m then WriteInt32ToArray 2 (OperationData_thinkness m) target else target)"

definition OperationData_write_color :: "OperationData \<Rightarrow> bytes \<Rightarrow> bytes" where
  "OperationData_write_color m target =
     (if OperationData_has_color m then WriteInt32ToArray 3 (OperationData_color m) target else target)"

definition OperationData_write_start_point :: "OperationData \<Rightarrow> bytes \<Rightarrow> bytes" where
  "OperationData_write_start_point m target =
     (if OperationData_has_start_point m
      then WriteMessageNoVirtualToArray Point_cached_size Point_SerializeWithCachedSizesToArray 4 (OperationData_start_point m) target
      else target)"

definition OperationData_write_end_point :: "OperationData \<Rightarrow> bytes \<Rightarrow> bytes" where
  "OperationData_write_end_point m target =
     (if OperationData_has_end_point m
      then WriteMessageNoVirtualToArray Point_cached_size Point_SerializeWithCachedSizesToArray 5 (OperationData_end_point m) target
      else target)"

definition OperationData_write_center :: "OperationData \<Rightarrow> bytes \<Rightarrow> bytes" where
  "OperationData_write_center m target =
     (if OperationData_has_center m
      then WriteMessageNoVirtualToArray Point_cached_size Point_SerializeWithCachedSizesToArray 6 (OperationData_center m) target
      else target)"

definition OperationData_write_angle :: "OperationData \<Rightarrow> bytes \<Rightarrow> bytes" where
  "OperationData_write_angle m target =
     (if OperationData_has_angle m then WriteFloatToArray 7 (OperationData_angle m) target else target)"

definition OperationData_write_a :: "OperationData \<Rightarrow> bytes \<Rightarrow> bytes" where
  "OperationData_write_a m target =
     (if OperationData_has_a m then WriteFloatToArray 8 (OperationData_a m) target else target)"

definition OperationData_write_b :: "OperationData \<Rightarrow> bytes \<Rightarrow> bytes" where
  "OperationData_write_b m target =
     (if OperationData_has_b m then WriteFloatToArray 9 (OperationData_b m) target else target)"

definition OperationData_write_top_left_corner :: "OperationData \<Rightarrow> bytes \<Rightarrow> bytes" where
  "OperationData_write_top_left_corner m target =
     (if OperationData_has_top_left_corner m
      then WriteMessageNoVirtualToArray Point_cached_size Point_SerializeWithCachedSizesToArray 10 (OperationData_top_left_corner m) target
      else target)"

definition OperationData_write_bottom_right_corner :: "OperationData \<Rightarrow> bytes \<Rightarrow> bytes" where
  "OperationData_write_bottom_right_corner m target =
     (if OperationData_has_bottom_right_corner m
      then WriteMessageNoVirtualToArray Point_cached_size Point_SerializeWithCachedSizesToArray 11 (OperationData_bottom_right_corner m) target
      else target)"

definition OperationData_write_position :: "OperationData \<Rightarrow> bytes \<Rightarrow> bytes" where
  "OperationData_write_position m target =
     (if OperationData_has_position m
      then WriteMessageNoVirtualToArray Point_cached_size Point_SerializeWithCachedSizesToArray 12 (OperationData_position m) target
      else target)"

definition OperationData_write_fill :: "OperationData \<Rightarrow> bytes \<Rightarrow> bytes" where
  "OperationData_write_fill m target =
     (if OperationData_has_fill m then WriteBoolToArray 13 (OperationData_fill m) target else target)"

definition OperationData_write_alpha :: "OperationData \<Rightarrow> bytes \<Rightarrow> bytes" where
  "OperationData_write_alpha m target =
     (if OperationData_has_alpha m then WriteFloatToArray 14 (OperationData_alpha m) target else target)"

definition OperationData_write_is_start :: "OperationData \<Rightarrow> bytes \<Rightarrow> bytes" where
  "OperationData_write_is_start m target =
     (if OperationData_has_is_start m then WriteBoolToArray 15 (OperationData_is_start m) target else target)"

definition OperationData_SerializeWithCachedSizesToArray :: "OperationData \<Rightarrow> bytes \<Rightarrow> bytes" where
  "OperationData_SerializeWithCachedSizesToArray m target =
     (let target = OperationData_write_data_type m target;
          target = OperationData_write_thinkness m target;
          target = OperationData_write_color m target;
          target = OperationData_write_start_point m target;
          target = OperationData_write_end_point m target;
          target = OperationData_write_center m target;
          target = OperationData_write_angle m target;
          target = OperationData_write_a m target;
          target = OperationData_write_b m target;
          target = OperationData_write_top_left_corner m target;
          target = OperationData_write_bottom_right_corner m target;
          target = OperationData_write_position m target;
          target = OperationData_write_fill m target;
          target = OperationData_write_alpha m target;
          target = OperationData_write_is_start m target
      in if OperationData_unknown m \<noteq> [] then SerializeUnknownFieldsToArray (OperationData_unknown m) target else target)"

subsection \<open>The abstract message\<close>

record AOperationData =
  AOperationData_data_type :: "int32 option"
  AOperationData_thinkness :: "int32 option"
  AOperationData_color :: "int32 option"
  AOperationData_start_point :: "APoint option"
  AOperationData_end_point :: "APoint option"
  AOperationData_center :: "APoint option"
  AOperationData_angle :: "float32 option"
  AOperationData_a :: "float32 option"
  AOperationData_b :: "float32 option"
  AOperationData_top_left_corner :: "APoint option"
  AOperationData_bottom_right_corner :: "APoint option"
  AOperationData_position :: "APoint option"
  AOperationData_is_start :: "bool option"
  AOperationData_fill :: "bool option"
  AOperationData_alpha :: "float32 option"
  AOperationData_unknown :: unknown_field_set

definition AOperationData_empty :: AOperationData where
  "AOperationData_empty = \<lparr>AOperationData_data_type = None,
     AOperationData_thinkness = None,
     AOperationData_color = None,
     AOperationData_start_point = None,
     AOperationData_end_point = None,
     AOperationData_center = None,
     AOperationData_angle = None,
     AOperationData_a = None,
     AOperationData_b = None,
     AOperationData_top_left_corner = None,
     AOperationData_bottom_right_corner = None,
     AOperationData_position = None,
     AOperationData_is_start = None,
     AOperationData_fill = None,
     AOperationData_alpha = None,
     AOperationData_unknown = []\<rparr>"

definition OperationData_abs :: "OperationData \<Rightarrow> AOperationData" where
  "OperationData_abs m = \<lparr>AOperationData_data_type = shown (OperationData_has_data_type m) (OperationData_data_type m),
     AOperationData_thinkness = shown (OperationData_has_thinkness m) (OperationData_thinkness m),
     AOperationData_color = shown (OperationData_has_color m) (OperationData_color m),
     AOperationData_start_point = shown (OperationData_has_start_point m) (Point_abs (OperationData_start_point m)),
     AOperationData_end_point = shown (OperationData_has_end_point m) (Point_abs (OperationData_end_point m)),
     AOperationData_center = shown (OperationData_has_center m) (Point_abs (OperationData_center m)),
     AOperationData_angle = shown (OperationData_has_angle m) (OperationData_angle m),
     AOperationData_a = shown (OperationData_has_a m) (OperationData_a m),
     AOperationData_b = shown (OperationData_has_b m) (OperationData_b m),
     AOperationData_top_left_corner = shown (OperationData_has_top_left_corner m) (Point_abs (OperationData_top_left_corner m)),
     AOperationData_bottom_right_corner = shown (OperationData_has_bottom_right_corner m) (Point_abs (OperationData_bottom_right_corner m)),
     AOperationData_position = shown (OperationData_has_position m) (Point_abs (OperationData_position m)),
     AOperationData_is_start = shown (OperationData_has_is_start m) (OperationData_is_start m),
     AOperationData_fill = shown (OperationData_has_fill m) (OperationData_fill m),
     AOperationData_alpha = shown (OperationData_has_alpha m) (OperationData_alpha m),
     AOperationData_unknown = OperationData_unknown m\<rparr>"

definition OperationData_ok :: "OperationData \<Rightarrow> bool" where
  "OperationData_ok m \<longleftrightarrow>
     scalar_ok (OperationData_has_data_type m) 0 (OperationData_data_type_fld m) \<and>
     scalar_ok (OperationData_has_thinkness m) 0 (OperationData_thinkness_fld m) \<and>
     scalar_ok (OperationData_has_color m) 0 (OperationData_color_fld m) \<and>
     pointer_ok Point_ok Point_abs APoint_empty (OperationData_has_start_point m) (OperationData_start_point_fld m) \<and>
     pointer_ok Point_ok Point_abs APoint_empty (OperationData_has_end_point m) (OperationData_end_point_fld m) \<and>
     pointer_ok Point_ok Point_abs APoint_empty (OperationData_has_center m) (OperationData_center_fld m) \<and>
     scalar_ok (OperationData_has_angle m) 0 (OperationData_angle_fld m) \<and>
     scalar_ok (OperationData_has_a m) 0 (OperationData_a_fld m) \<and>
     scalar_ok (OperationData_has_b m) 0 (OperationData_b_fld m) \<and>
     pointer_ok Point_ok Point_abs APoint_empty (OperationData_has_top_left_corner m) (OperationData_top_left_corner_fld m) \<and>
     pointer_ok Point_ok Point_abs APoint_empty (OperationData_has_bottom_right_corner m) (OperationData_bottom_right_corner_fld m) \<and>
     pointer_ok Point_ok Point_abs APoint_empty (OperationData_has_position m) (OperationData_position_fld m) \<and>
     scalar_ok (OperationData_has_is_start m) False (OperationData_is_start_fld m) \<and>
     scalar_ok (OperationData_has_fill m) False (OperationData_fill_fld m) \<and>
     scalar_ok (OperationData_has_alpha m) 0 (OperationData_alpha_fld m)"

definition AOperationData_merge :: "AOperationData \<Rightarrow> AOperationData \<Rightarrow> AOperationData" where
  "AOperationData_merge from to = \<lparr>AOperationData_data_type = or_else (AOperationData_data_type from) (AOperationData_data_type to),
     AOperationData_thinkness = or_else (AOperationData_thinkness from) (AOperationData_thinkness to),
     AOperationData_color = or_else (AOperationData_color from) (AOperationData_color to),
     AOperationData_start_point = merged APoint_merge APoint_empty (AOperationData_start_point from) (AOperationData_start_point to),
     AOperationData_end_point = merged APoint_merge APoint_empty (AOperationData_end_point from) (AOperationData_end_point to),
     AOperationData_center = merged APoint_merge APoint_empty (AOperationData_center from) (AOperationData_center to),
     AOperationData_angle = or_else (AOperationData_angle from) (AOperationData_angle to),
     AOperationData_a = or_else (AOperationData_a from) (AOperationData_a to),
     AOperationData_b = or_else (AOperationData_b from) (AOperationData_b to),
     AOperationData_top_left_corner = merged APoint_merge APoint_empty (AOperationData_top_left_corner from) (AOperationData_top_left_corner to),
     AOperationData_bottom_right_corner = merged APoint_merge APoint_empty (AOperationData_bottom_right_corner from) (AOperationData_bottom_right_corner to),
     AOperationData_position = merged APoint_merge APoint_empty (AOperationData_position from) (AOperationData_position to),
     AOperationData_is_start = or_else (AOperationData_is_start from) (AOperationData_is_start to),
     AOperationData_fill = or_else (AOperationData_fill from) (AOperationData_fill to),
     AOperationData_alpha = or_else (AOperationData_alpha from) (AOperationData_alpha to),
     AOperationData_unknown = AOperationData_unknown to @ AOperationData_unknown from\<rparr>"

definition AOperationData_initialized :: "AOperationData \<Rightarrow> bool" where
  "AOperationData_initialized a \<longleftrightarrow>
     AOperationData_data_type a \<noteq> None \<and>
     AOperationData_thinkness a \<noteq> None \<and>
     all_opt APoint_initialized (AOperationData_start_point a) \<and>
     all_opt APoint_initialized (AOperationData_end_point a) \<and>
     all_opt APoint_initialized (AOperationData_center a) \<and>
     all_opt APoint_initialized (AOperationData_top_left_corner a) \<and>
     all_opt APoint_initialized (AOperationData_bottom_right_corner a) \<and>
     all_opt APoint_initialized (AOperationData_position a)"

definition AOperationData_encode :: "AOperationData \<Rightarrow> bytes" where
  "AOperationData_encode a =
     enc_opt (\<lambda>v. enc_tag 1 WIRETYPE_VARINT @ enc_int32 v) (AOperationData_data_type a) @
     enc_opt (\<lambda>v. enc_tag 2 WIRETYPE_VARINT @ enc_int32 v) (AOperationData_thinkness a) @
     enc_opt (\<lambda>v. enc_tag 3 WIRETYPE_VARINT @ enc_int32 v) (AOperationData_color a) @
     enc_opt (\<lambda>v. enc_tag 4 WIRETYPE_LENGTH_DELIMITED @ enc_bytes (APoint_encode v)) (AOperationData_start_point a) @
     enc_opt (\<lambda>v. enc_tag 5 WIRETYPE_LENGTH_DELIMITED @ enc_bytes (APoint_encode v)) (AOperationData_end_point a) @
     enc_opt (\<lambda>v. enc_tag 6 WIRETYPE_LENGTH_DELIMITED @ enc_bytes (APoint_encode v)) (AOperationData_center a) @
     enc_opt (\<lambda>v. enc_tag 7 WIRETYPE_FIXED32 @ enc_fixed32 v) (AOperationData_angle a) @
     enc_opt (\<lambda>v. enc_tag 8 WIRETYPE_FIXED32 @ enc_fixed32 v) (AOperationData_a a) @
     enc_opt (\<lambda>v. enc_tag 9 WIRETYPE_FIXED32 @ enc_fixed32 v) (AOperationData_b a) @
     enc_opt (\<lambda>v. enc_tag 10 WIRETYPE_LENGTH_DELIMITED @ enc_bytes (APoint_encode v)) (AOperationData_top_left_corner a) @
     enc_opt (\<lambda>v. enc_tag 11 WIRETYPE_LENGTH_DELIMITED @ enc_bytes (APoint_encode v)) (AOperationData_bottom_right_corner a) @
     enc_opt (\<lambda>v. enc_tag 12 WIRETYPE_LENGTH_DELIMITED @ enc_bytes (APoint_encode v)) (AOperationData_position a) @
     enc_opt (\<lambda>v. enc_tag 13 WIRETYPE_VARINT @ enc_bool v) (AOperationData_fill a) @
     enc_opt (\<lambda>v. enc_tag 14 WIRETYPE_FIXED32 @ enc_fixed32 v) (AOperationData_alpha a) @
     enc_opt (\<lambda>v. enc_tag 15 WIRETYPE_VARINT @ enc_bool v) (AOperationData_is_start a) @
     SerializeUnknownFieldsToArray (AOperationData_unknown a) []"

definition OperationData_sized :: "OperationData \<Rightarrow> bool" where
  "OperationData_sized m \<longleftrightarrow>
     OperationData_cached_size m = length (AOperationData_encode (OperationData_abs m)) \<and>
     (OperationData_has_start_point m \<longrightarrow> Point_sized (OperationData_start_point m)) \<and>
     (OperationData_has_end_point m \<longrightarrow> Point_sized (OperationData_end_point m)) \<and>
     (OperationData_has_center m \<longrightarrow> Point_sized (OperationData_center m)) \<and>
     (OperationData_has_top_left_corner m \<longrightarrow> Point_sized (OperationData_top_left_corner m)) \<and>
     (OperationData_has_bottom_right_corner m \<longrightarrow> Point_sized (OperationData_bottom_right_corner m)) \<and>
     (OperationData_has_position m \<longrightarrow> Point_sized (OperationData_position m))"

subsection \<open>Accessors on the abstract message\<close>

lemma OperationData_abs_default [simp]:
  "OperationData_abs OperationData_default = AOperationData_empty"
  by (simp add: OperationData_abs_def OperationData_default_def AOperationData_empty_def OperationData_accessors OperationData_presence)

lemma OperationData_ok_default [simp]:
  "OperationData_ok OperationData_default"
  by (simp add: OperationData_ok_def OperationData_default_def field_ok OperationData_presence)

lemma OperationData_abs_accessors [simp]:
  "OperationData_abs (OperationData_set_data_type v m) = (OperationData_abs m)\<lparr>AOperationData_data_type := Some v\<rparr>"
  "OperationData_abs (OperationData_clear_data_type m) = (OperationData_abs m)\<lparr>AOperationData_data_type := None\<rparr>"
  "OperationData_abs (OperationData_set_thinkness v m) = (OperationData_abs m)\<lparr>AOperationData_thinkness := Some v\<rparr>"
  "OperationData_abs (OperationData_clear_thinkness m) = (OperationData_abs m)\<lparr>AOperationData_thinkness := None\<rparr>"
  "OperationData_abs (OperationData_set_color v m) = (OperationData_abs m)\<lparr>AOperationData_color := Some v\<rparr>"
  "OperationData_abs (OperationData_clear_color m) = (OperationData_abs m)\<lparr>AOperationData_color := None\<rparr>"
  "OperationData_abs (OperationData_clear_start_point m) = (OperationData_abs m)\<lparr>AOperationData_start_point := None\<rparr>"
  "OperationData_abs (snd (OperationData_release_start_point m)) = (OperationData_abs m)\<lparr>AOperationData_start_point := None\<rparr>"
  "OperationData_abs (OperationData_clear_end_point m) = (OperationData_abs m)\<lparr>AOperationData_end_point := None\<rparr>"
  "OperationData_abs (snd (OperationData_release_end_point m)) = (OperationData_abs m)\<lparr>AOperationData_end_point := None\<rparr>"
  "OperationData_abs (OperationData_clear_center m) = (OperationData_abs m)\<lparr>AOperationData_center := None\<rparr>"
  "OperationData_abs (snd (OperationData_release_center m)) = (OperationData_abs m)\<lparr>AOperationData_center := None\<rparr>"
  "OperationData_abs (OperationData_set_angle v m) = (OperationData_abs m)\<lparr>AOperationData_angle := Some v\<rparr>"
  "OperationData_abs (OperationData_clear_angle m) = (OperationData_abs m)\<lparr>AOperationData_angle := None\<rparr>"
  "OperationData_abs (OperationData_set_a v m) = (OperationData_abs m)\<lparr>AOperationData_a := Some v\<rparr>"
  "OperationData_abs (OperationData_clear_a m) = (OperationData_abs m)\<lparr>AOperationData_a := None\<rparr>"
  "OperationData_abs (OperationData_set_b v m) = (OperationData_abs m)\<lparr>AOperationData_b := Some v\<rparr>"
  "OperationData_abs (OperationData_clear_b m) = (OperationData_abs m)\<lparr>AOperationData_b := None\<rparr>"
  "OperationData_abs (OperationData_clear_top_left_corner m) = (OperationData_abs m)\<lparr>AOperationData_top_left_corner := None\<rparr>"
  "OperationData_abs (snd (OperationData_release_top_left_corner m)) = (OperationData_abs m)\<lparr>AOperationData_top_left_corner := None\<rparr>"
  "OperationData_abs (OperationData_clear_bottom_right_corner m) = (OperationData_abs m)\<lparr>AOperationData_bottom_right_corner := None\<rparr>"
  "OperationData_abs (snd (OperationData_release_bottom_right_corner m)) = (OperationData_abs m)\<lparr>AOperationData_bottom_right_corner := None\<rparr>"
  "OperationData_abs (OperationData_clear_position m) = (OperationData_abs m)\<lparr>AOperationData_position := None\<rparr>"
  "OperationData_abs (snd (OperationData_release_position m)) = (OperationData_abs m)\<lparr>AOperationData_position := None\<rparr>"
  "OperationData_abs (OperationData_set_is_start b m) = (OperationData_abs m)\<lparr>AOperationData_is_start := Some b\<rparr>"
  "OperationData_abs (OperationData_clear_is_start m) = (OperationData_abs m)\<lparr>AOperationData_is_start := None\<rparr>"
  "OperationData_abs (OperationData_set_fill b m) = (OperationData_abs m)\<lparr>AOperationData_fill := Some b\<rparr>"
  "OperationData_abs (OperationData_clear_fill m) = (OperationData_abs m)\<lparr>AOperationData_fill := None\<rparr>"
  "OperationData_abs (OperationData_set_alpha v m) = (OperationData_abs m)\<lparr>AOperationData_alpha := Some v\<rparr>"
  "OperationData_abs (OperationData_clear_alpha m) = (OperationData_abs m)\<lparr>AOperationData_alpha := None\<rparr>"
  by (simp_all add: OperationData_abs_def OperationData_accessors OperationData_presence hasbits Let_def)

lemma OperationData_ok_accessors [simp]:
  "OperationData_ok m \<Longrightarrow> OperationData_ok (OperationData_set_data_type v m)"
  "OperationData_ok m \<Longrightarrow> OperationData_ok (OperationData_clear_data_type m)"
  "OperationData_ok m \<Longrightarrow> OperationData_ok (OperationData_set_thinkness v m)"
  "OperationData_ok m \<Longrightarrow> OperationData_ok (OperationData_clear_thinkness m)"
  "OperationData_ok m \<Longrightarrow> OperationData_ok (OperationData_set_color v m)"
  "OperationData_ok m \<Longrightarrow> OperationData_ok (OperationData_clear_color m)"
  "OperationData_ok m \<Longrightarrow> OperationData_ok (snd (OperationData_release_start_point m))"
  "OperationData_ok m \<Longrightarrow> OperationData_ok (snd (OperationData_release_end_point m))"
  "OperationData_ok m \<Longrightarrow> OperationData_ok (snd (OperationData_release_center m))"
  "OperationData_ok m \<Longrightarrow> OperationData_ok (OperationData_set_angle v m)"
  "OperationData_ok m \<Longrightarrow> OperationData_ok (OperationData_clear_angle m)"
  "OperationData_ok m \<Longrightarrow> OperationData_ok (OperationData_set_a v m)"
  "OperationData_ok m \<Longrightarrow> OperationData_ok (OperationData_clear_a m)"
  "OperationData_ok m \<Longrightarrow> OperationData_ok (OperationData_set_b v m)"
  "OperationData_ok m \<Longrightarrow> OperationData_ok (OperationData_clear_b m)"
  "OperationData_ok m \<Longrightarrow> OperationData_ok (snd (OperationData_release_top_left_corner m))"
  "OperationData_ok m \<Longrightarrow> OperationData_ok (snd (OperationData_release_bottom_right_corner m))"
  "OperationData_ok m \<Longrightarrow> OperationData_ok (snd (OperationData_release_position m))"
  "OperationData_ok m \<Longrightarrow> OperationData_ok (OperationData_set_is_start b m)"
  "OperationData_ok m \<Longrightarrow> OperationData_ok (OperationData_clear_is_start m)"
  "OperationData_ok m \<Longrightarrow> OperationData_ok (OperationData_set_fill b m)"
  "OperationData_ok m \<Longrightarrow> OperationData_ok (OperationData_clear_fill m)"
  "OperationData_ok m \<Longrightarrow> OperationData_ok (OperationData_set_alpha v m)"
  "OperationData_ok m \<Longrightarrow> OperationData_ok (OperationData_clear_alpha m)"
  by (simp_all add: OperationData_ok_def Let_def OperationData_accessors OperationData_presence hasbits)

lemma OperationData_ok_clear_start_point [simp]:
  "OperationData_ok m \<Longrightarrow> OperationData_ok (OperationData_clear_start_point m)"
  using Point_pointer(2) [of "OperationData_has_start_point m" "OperationData_start_point_fld m"]
  by (simp add: OperationData_ok_def OperationData_accessors OperationData_presence hasbits)

lemma OperationData_ok_clear_end_point [simp]:
  "OperationData_ok m \<Longrightarrow> OperationData_ok (OperationData_clear_end_point m)"
  using Point_pointer(2) [of "OperationData_has_end_point m" "OperationData_end_point_fld m"]
  by (simp add: OperationData_ok_def OperationData_accessors OperationData_presence hasbits)

lemma OperationData_ok_clear_center [simp]:
  "OperationData_ok m \<Longrightarrow> OperationData_ok (OperationData_clear_center m)"
  using Point_pointer(2) [of "OperationData_has_center m" "OperationData_center_fld m"]
  by (simp add: OperationData_ok_def OperationData_accessors OperationData_presence hasbits)

lemma OperationData_ok_clear_top_left_corner [simp]:
  "OperationData_ok m \<Longrightarrow> OperationData_ok (OperationData_clear_top_left_corner m)"
  using Point_pointer(2) [of "OperationData_has_top_left_corner m" "OperationData_top_left_corner_fld m"]
  by (simp add: OperationData_ok_def OperationData_accessors OperationData_presence hasbits)

lemma OperationData_ok_clear_bottom_right_corner [simp]:
  "OperationData_ok m \<Longrightarrow> OperationData_ok (OperationData_clear_bottom_right_corner m)"
  using Point_pointer(2) [of "OperationData_has_bottom_right_corner m" "OperationData_bottom_right_corner_fld m"]
  by (simp add: OperationData_ok_def OperationData_accessors OperationData_presence hasbits)

lemma OperationData_ok_clear_position [simp]:
  "OperationData_ok m \<Longrightarrow> OperationData_ok (OperationData_clear_position m)"
  using Point_pointer(2) [of "OperationData_has_position m" "OperationData_position_fld m"]
  by (simp add: OperationData_ok_def OperationData_accessors OperationData_presence hasbits)

lemma OperationData_getters:
  "OperationData_ok m \<Longrightarrow> OperationData_data_type m = value_or 0 (AOperationData_data_type (OperationData_abs m))"
  "OperationData_ok m \<Longrightarrow> OperationData_thinkness m = value_or 0 (AOperationData_thinkness (OperationData_abs m))"
  "OperationData_ok m \<Longrightarrow> OperationData_color m = value_or 0 (AOperationData_color (OperationData_abs m))"
  "OperationData_ok m \<Longrightarrow> Point_abs (OperationData_start_point m) = value_or APoint_empty (AOperationData_start_point (OperationData_abs m))"
  "OperationData_ok m \<Longrightarrow> Point_abs (OperationData_end_point m) = value_or APoint_empty (AOperationData_end_point (OperationData_abs m))"
  "OperationData_ok m \<Longrightarrow> Point_abs (OperationData_center m) = value_or APoint_empty (AOperationData_center (OperationData_abs m))"
  "OperationData_ok m \<Longrightarrow> OperationData_angle m = value_or 0 (AOperationData_angle (OperationData_abs m))"
  "OperationData_ok m \<Longrightarrow> OperationData_a m = value_or 0 (AOperationData_a (OperationData_abs m))"
  "OperationData_ok m \<Longrightarrow> OperationData_b m = value_or 0 (AOperationData_b (OperationData_abs m))"
  "OperationData_ok m \<Longrightarrow> Point_abs (OperationData_top_left_corner m) = value_or APoint_empty (AOperationData_top_left_corner (OperationData_abs m))"
  "OperationData_ok m \<Longrightarrow> Point_abs (OperationData_bottom_right_corner m) = value_or APoint_empty (AOperationData_bottom_right_corner (OperationData_abs m))"
  "OperationData_ok m \<Longrightarrow> Point_abs (OperationData_position m) = value_or APoint_empty (AOperationData_position (OperationData_abs m))"
  "OperationData_ok m \<Longrightarrow> OperationData_is_start m = value_or False (AOperationData_is_start (OperationData_abs m))"
  "OperationData_ok m \<Longrightarrow> OperationData_fill m = value_or False (AOperationData_fill (OperationData_abs m))"
  "OperationData_ok m \<Longrightarrow> OperationData_alpha m = value_or 0 (AOperationData_alpha (OperationData_abs m))"
  by (simp_all add: OperationData_ok_def OperationData_abs_def OperationData_accessors Point_pointer)

lemma OperationData_children_ok:
  "OperationData_ok m \<Longrightarrow> Point_ok (OperationData_start_point m)"
  "OperationData_ok m \<Longrightarrow> Point_ok (OperationData_end_point m)"
  "OperationData_ok m \<Longrightarrow> Point_ok (OperationData_center m)"
  "OperationData_ok m \<Longrightarrow> Point_ok (OperationData_top_left_corner m)"
  "OperationData_ok m \<Longrightarrow> Point_ok (OperationData_bottom_right_corner m)"
  "OperationData_ok m \<Longrightarrow> Point_ok (OperationData_position m)"
  unfolding OperationData_ok_def OperationData_start_point_def OperationData_end_point_def OperationData_center_def OperationData_top_left_corner_def OperationData_bottom_right_corner_def OperationData_position_def
  by (blast intro: pointer_deref_ok Point_ok_default)+

lemma OperationData_abs_mutable_start_point:
  "OperationData_ok m \<Longrightarrow> (\<And>t. Point_ok t \<Longrightarrow> Point_ok (g t) \<and> Point_abs (g t) = G (Point_abs t)) \<Longrightarrow>
     OperationData_ok (OperationData_mutable_start_point g m) \<and>
     OperationData_abs (OperationData_mutable_start_point g m) =
       (OperationData_abs m)\<lparr>AOperationData_start_point := Some (G (value_or APoint_empty (AOperationData_start_point (OperationData_abs m))))\<rparr>"
  using OperationData_children_ok(1) [of m] by (simp add: OperationData_ok_def OperationData_abs_def OperationData_accessors OperationData_presence hasbits Let_def Point_pointer)

lemma OperationData_abs_mutable_end_point:
  "OperationData_ok m \<Longrightarrow> (\<And>t. Point_ok t \<Longrightarrow> Point_ok (g t) \<and> Point_abs (g t) = G (Point_abs t)) \<Longrightarrow>
     OperationData_ok (OperationData_mutable_end_point g m) \<and>
     OperationData_abs (OperationData_mutable_end_point g m) =
       (OperationData_abs m)\<lparr>AOperationData_end_point := Some (G (value_or APoint_empty (AOperationData_end_point (OperationData_abs m))))\<rparr>"
  using OperationData_children_ok(2) [of m] by (simp add: OperationData_ok_def OperationData_abs_def OperationData_accessors OperationData_presence hasbits Let_def Point_pointer)

lemma OperationData_abs_mutable_center:
  "OperationData_ok m \<Longrightarrow> (\<And>t. Point_ok t \<Longrightarrow> Point_ok (g t) \<and> Point_abs (g t) = G (Point_abs t)) \<Longrightarrow>
     OperationData_ok (OperationData_mutable_center g m) \<and>
     OperationData_abs (OperationData_mutable_center g m) =
       (OperationData_abs m)\<lparr>AOperationData_center := Some (G (value_or APoint_empty (AOperationData_center (OperationData_abs m))))\<rparr>"
  using OperationData_children_ok(3) [of m] by (simp add: OperationData_ok_def OperationData_abs_def OperationData_accessors OperationData_presence hasbits Let_def Point_pointer)

lemma OperationData_abs_mutable_top_left_corner:
  "OperationData_ok m \<Longrightarrow> (\<And>t. Point_ok t \<Longrightarrow> Point_ok (g t) \<and> Point_abs (g t) = G (Point_abs t)) \<Longrightarrow>
     OperationData_ok (OperationData_mutable_top_left_corner g m) \<and>
     OperationData_abs (OperationData_mutable_top_left_corner g m) =
       (OperationData_abs m)\<lparr>AOperationData_top_left_corner := Some (G (value_or APoint_empty (AOperationData_top_left_corner (OperationData_abs m))))\<rparr>"
  using OperationData_children_ok(4) [of m] by (simp add: OperationData_ok_def OperationData_abs_def OperationData_accessors OperationData_presence hasbits Let_def Point_pointer)

lemma OperationData_abs_mutable_bottom_right_corner:
  "OperationData_ok m \<Longrightarrow> (\<And>t. Point_ok t \<Longrightarrow> Point_ok (g t) \<and> Point_abs (g t) = G (Point_abs t)) \<Longrightarrow>
     OperationData_ok (OperationData_mutable_bottom_right_corner g m) \<and>
     OperationData_abs (OperationData_mutable_bottom_right_corner g m) =
       (OperationData_abs m)\<lparr>AOperationData_bottom_right_corner := Some (G (value_or APoint_empty (AOperationData_bottom_right_corner (OperationData_abs m))))\<rparr>"
  using OperationData_children_ok(5) [of m] by (simp add: OperationData_ok_def OperationData_abs_def OperationData_accessors OperationData_presence hasbits Let_def Point_pointer)

lemma OperationData_abs_mutable_position:
  "OperationData_ok m \<Longrightarrow> (\<And>t. Point_ok t \<Longrightarrow> Point_ok (g t) \<and> Point_abs (g t) = G (Point_abs t)) \<Longrightarrow>
     OperationData_ok (OperationData_mutable_position g m) \<and>
     OperationData_abs (OperationData_mutable_position g m) =
       (OperationData_abs m)\<lparr>AOperationData_position := Some (G (value_or APoint_empty (AOperationData_position (OperationData_abs m))))\<rparr>"
  using OperationData_children_ok(6) [of m] by (simp add: OperationData_ok_def OperationData_abs_def OperationData_accessors OperationData_presence hasbits Let_def Point_pointer)

subsection \<open>Clear, MergeFrom, CopyFrom, IsInitialized, Swap\<close>

lemma OperationData_Clear_ok:
  "OperationData_ok m \<Longrightarrow> OperationData_ok (OperationData_Clear m)"
  by (cases "OperationData_has_bits m AND 0xFF = 0"; cases "OperationData_has_bits m AND 0xFF00 = 0")
    (simp_all add: OperationData_ok_def OperationData_Clear_def Let_def OperationData_presence hasbits Point_pointer)

lemma OperationData_Clear_abs:
  "OperationData_abs (OperationData_Clear m) = AOperationData_empty"
  by (simp add: OperationData_abs_def AOperationData_empty_def OperationData_Clear_def Unknown_Clear_def Let_def OperationData_presence hasbits)

lemma OperationData_merge_absent:
  "\<not> OperationData_has_data_type from \<Longrightarrow> OperationData_merge_data_type from m = m"
  "\<not> OperationData_has_thinkness from \<Longrightarrow> OperationData_merge_thinkness from m = m"
  "\<not> OperationData_has_color from \<Longrightarrow> OperationData_merge_color from m = m"
  "\<not> OperationData_has_start_point from \<Longrightarrow> OperationData_merge_start_point from m = m"
  "\<not> OperationData_has_end_point from \<Longrightarrow> OperationData_merge_end_point from m = m"
  "\<not> OperationData_has_center from \<Longrightarrow> OperationData_merge_center from m = m"
  "\<not> OperationData_has_angle from \<Longrightarrow> OperationData_merge_angle from m = m"
  "\<not> OperationData_has_a from \<Longrightarrow> OperationData_merge_a from m = m"
  "\<not> OperationData_has_b from \<Longrightarrow> OperationData_merge_b from m = m"
  "\<not> OperationData_has_top_left_corner from \<Longrightarrow> OperationData_merge_top_left_corner from m = m"
  "\<not> OperationData_has_bottom_right_corner from \<Longrightarrow> OperationData_merge_bottom_right_corner from m = m"
  "\<not> OperationData_has_position from \<Longrightarrow> OperationData_merge_position from m = m"
  "\<not> OperationData_has_is_start from \<Longrightarrow> OperationData_merge_is_start from m = m"
  "\<not> OperationData_has_fill from \<Longrightarrow> OperationData_merge_fill from m = m"
  "\<not> OperationData_has_alpha from \<Longrightarrow> OperationData_merge_alpha from m = m"
  by (simp_all add: OperationData_merge_data_type_def OperationData_merge_thinkness_def OperationData_merge_color_def OperationData_merge_start_point_def OperationData_merge_end_point_def OperationData_merge_center_def OperationData_merge_angle_def OperationData_merge_a_def OperationData_merge_b_def OperationData_merge_top_left_corner_def OperationData_merge_bottom_right_corner_def OperationData_merge_position_def OperationData_merge_is_start_def OperationData_merge_fill_def OperationData_merge_alpha_def)

lemma OperationData_abs_merge_fields:
  "OperationData_abs (OperationData_merge_data_type from m) = AOperationData_data_type_update (or_else (AOperationData_data_type (OperationData_abs from))) (OperationData_abs m)"
  "OperationData_abs (OperationData_merge_thinkness from m) = AOperationData_thinkness_update (or_else (AOperationData_thinkness (OperationData_abs from))) (OperationData_abs m)"
  "OperationData_abs (OperationData_merge_color from m) = AOperationData_color_update (or_else (AOperationData_color (OperationData_abs from))) (OperationData_abs m)"
  "OperationData_abs (OperationData_merge_angle from m) = AOperationData_angle_update (or_else (AOperationData_angle (OperationData_abs from))) (OperationData_abs m)"
  "OperationData_abs (OperationData_merge_a from m) = AOperationData_a_update (or_else (AOperationData_a (OperationData_abs from))) (OperationData_abs m)"
  "OperationData_abs (OperationData_merge_b from m) = AOperationData_b_update (or_else (AOperationData_b (OperationData_abs from))) (OperationData_abs m)"
  "OperationData_abs (OperationData_merge_is_start from m) = AOperationData_is_start_update (or_else (AOperationData_is_start (OperationData_abs from))) (OperationData_abs m)"
  "OperationData_abs (OperationData_merge_fill from m) = AOperationData_fill_update (or_else (AOperationData_fill (OperationData_abs from))) (OperationData_abs m)"
  "OperationData_abs (OperationData_merge_alpha from m) = AOperationData_alpha_update (or_else (AOperationData_alpha (OperationData_abs from))) (OperationData_abs m)"
  by (simp_all add: OperationData_merge_data_type_def OperationData_merge_thinkness_def OperationData_merge_color_def OperationData_merge_angle_def OperationData_merge_a_def OperationData_merge_b_def OperationData_merge_is_start_def OperationData_merge_fill_def OperationData_merge_alpha_def OperationData_abs_def shown_def OperationData_accessors OperationData_presence hasbits)

lemma OperationData_ok_merge_fields:
  "OperationData_ok m \<Longrightarrow> OperationData_ok (OperationData_merge_data_type from m)"
  "OperationData_ok m \<Longrightarrow> OperationData_ok (OperationData_merge_thinkness from m)"
  "OperationData_ok m \<Longrightarrow> OperationData_ok (OperationData_merge_color from m)"
  "OperationData_ok m \<Longrightarrow> OperationData_ok (OperationData_merge_angle from m)"
  "OperationData_ok m \<Longrightarrow> OperationData_ok (OperationData_merge_a from m)"
  "OperationData_ok m \<Longrightarrow> OperationData_ok (OperationData_merge_b from m)"
  "OperationData_ok m \<Longrightarrow> OperationData_ok (OperationData_merge_is_start from m)"
  "OperationData_ok m \<Longrightarrow> OperationData_ok (OperationData_merge_fill from m)"
  "OperationData_ok m \<Longrightarrow> OperationData_ok (OperationData_merge_alpha from m)"
  by (simp_all add: OperationData_merge_data_type_def OperationData_merge_thinkness_def OperationData_merge_color_def OperationData_merge_angle_def OperationData_merge_a_def OperationData_merge_b_def OperationData_merge_is_start_def OperationData_merge_fill_def OperationData_merge_alpha_def)

lemma OperationData_merge_start_point_step:
  assumes "OperationData_ok m" "OperationData_ok from"
  shows "OperationData_ok (OperationData_merge_start_point from m) \<and>
    OperationData_abs (OperationData_merge_start_point from m) =
      AOperationData_start_point_update (merged APoint_merge APoint_empty (AOperationData_start_point (OperationData_abs from))) (OperationData_abs m)"
proof (cases "OperationData_has_start_point from")
  case True
  then have src: "Point_ok (OperationData_start_point from)" "AOperationData_start_point (OperationData_abs from) = Some (Point_abs (OperationData_start_point from))"
    using assms(2) by (simp_all add: OperationData_children_ok OperationData_abs_def)
  have "OperationData_ok (OperationData_mutable_start_point (Point_MergeFrom (OperationData_start_point from)) m) \<and>
    OperationData_abs (OperationData_mutable_start_point (Point_MergeFrom (OperationData_start_point from)) m) =
      (OperationData_abs m)\<lparr>AOperationData_start_point := Some (APoint_merge (Point_abs (OperationData_start_point from)) (value_or APoint_empty (AOperationData_start_point (OperationData_abs m))))\<rparr>"
    by (rule OperationData_abs_mutable_start_point [OF assms(1)]) (simp add: Point_MergeFrom_ok Point_MergeFrom_abs src)
  with True src show ?thesis
    by (cases "OperationData_abs m") (simp add: OperationData_merge_start_point_def)
next
  case False
  with assms(1) show ?thesis
    by (cases "OperationData_abs m") (simp add: OperationData_merge_start_point_def OperationData_abs_def [of "from"])
qed

lemma OperationData_merge_end_point_step:
  assumes "OperationData_ok m" "OperationData_ok from"
  shows "OperationData_ok (OperationData_merge_end_point from m) \<and>
    OperationData_abs (OperationData_merge_end_point from m) =
      AOperationData_end_point_update (merged APoint_merge APoint_empty (AOperationData_end_point (OperationData_abs from))) (OperationData_abs m)"
proof (cases "OperationData_has_end_point from")
  case True
  then have src: "Point_ok (OperationData_end_point from)" "AOperationData_end_point (OperationData_abs from) = Some (Point_abs (OperationData_end_point from))"
    using assms(2) by (simp_all add: OperationData_children_ok OperationData_abs_def)
  have "OperationData_ok (OperationData_mutable_end_point (Point_MergeFrom (OperationData_end_point from)) m) \<and>
    OperationData_abs (OperationData_mutable_end_point (Point_MergeFrom (OperationData_end_point from)) m) =
      (OperationData_abs m)\<lparr>AOperationData_end_point := Some (APoint_merge (Point_abs (OperationData_end_point from)) (value_or APoint_empty (AOperationData_end_point (OperationData_abs m))))\<rparr>"
    by (rule OperationData_abs_mutable_end_point [OF assms(1)]) (simp add: Point_MergeFrom_ok Point_MergeFrom_abs src)
  with True src show ?thesis
    by (cases "OperationData_abs m") (simp add: OperationData_merge_end_point_def)
next
  case False
  with assms(1) show ?thesis
    by (cases "OperationData_abs m") (simp add: OperationData_merge_end_point_def OperationData_abs_def [of "from"])
qed

lemma OperationData_merge_center_step:
  assumes "OperationData_ok m" "OperationData_ok from"
  shows "OperationData_ok (OperationData_merge_center from m) \<and>
    OperationData_abs (OperationData_merge_center from m) =
      AOperationData_center_update (merged APoint_merge APoint_empty (AOperationData_center (OperationData_abs from))) (OperationData_abs m)"
proof (cases "OperationData_has_center from")
  case True
  then have src: "Point_ok (OperationData_center from)" "AOperationData_center (OperationData_abs from) = Some (Point_abs (OperationData_center from))"
    using assms(2) by (simp_all add: OperationData_children_ok OperationData_abs_def)
  have "OperationData_ok (OperationData_mutable_center (Point_MergeFrom (OperationData_center from)) m) \<and>
    OperationData_abs (OperationData_mutable_center (Point_MergeFrom (OperationData_center from)) m) =
      (OperationData_abs m)\<lparr>AOperationData_center := Some (APoint_merge (Point_abs (OperationData_center from)) (value_or APoint_empty (AOperationData_center (OperationData_abs m))))\<rparr>"
    by (rule OperationData_abs_mutable_center [OF assms(1)]) (simp add: Point_MergeFrom_ok Point_MergeFrom_abs src)
  with True src show ?thesis
    by (cases "OperationData_abs m") (simp add: OperationData_merge_center_def)
next
  case False
  with assms(1) show ?thesis
    by (cases "OperationData_abs m") (simp add: OperationData_merge_center_def OperationData_abs_def [of "from"])
qed

lemma OperationData_merge_top_left_corner_step:
  assumes "OperationData_ok m" "OperationData_ok from"
  shows "OperationData_ok (OperationData_merge_top_left_corner from m) \<and>
    OperationData_abs (OperationData_merge_top_left_corner from m) =
      AOperationData_top_left_corner_update (merged APoint_merge APoint_empty (AOperationData_top_left_corner (OperationData_abs from))) (OperationData_abs m)"
proof (cases "OperationData_has_top_left_corner from")
  case True
  then have src: "Point_ok (OperationData_top_left_corner from)" "AOperationData_top_left_corner (OperationData_abs from) = Some (Point_abs (OperationData_top_left_corner from))"
    using assms(2) by (simp_all add: OperationData_children_ok OperationData_abs_def)
  have "OperationData_ok (OperationData_mutable_top_left_corner (Point_MergeFrom (OperationData_top_left_corner from)) m) \<and>
    OperationData_abs (OperationData_mutable_top_left_corner (Point_MergeFrom (OperationData_top_left_corner from)) m) =
      (OperationData_abs m)\<lparr>AOperationData_top_left_corner := Some (APoint_merge (Point_abs (OperationData_top_left_corner from)) (value_or APoint_empty (AOperationData_top_left_corner (OperationData_abs m))))\<rparr>"
    by (rule OperationData_abs_mutable_top_left_corner [OF assms(1)]) (simp add: Point_MergeFrom_ok Point_MergeFrom_abs src)
  with True src show ?thesis
    by (cases "OperationData_abs m") (simp add: OperationData_merge_top_left_corner_def)
next
  case False
  with assms(1) show ?thesis
    by (cases "OperationData_abs m") (simp add: OperationData_merge_top_left_corner_def OperationData_abs_def [of "from"])
qed

lemma OperationData_merge_bottom_right_corner_step:
  assumes "OperationData_ok m" "OperationData_ok from"
  shows "OperationData_ok (OperationData_merge_bottom_right_corner from m) \<and>
    OperationData_abs (OperationData_merge_bottom_right_corner from m) =
      AOperationData_bottom_right_corner_update (merged APoint_merge APoint_empty (AOperationData_bottom_right_corner (OperationData_abs from))) (OperationData_abs m)"
proof (cases "OperationData_has_bottom_right_corner from")
  case True
  then have src: "Point_ok (OperationData_bottom_right_corner from)" "AOperationData_bottom_right_corner (OperationData_abs from) = Some (Point_abs (OperationData_bottom_right_corner from))"
    using assms(2) by (simp_all add: OperationData_children_ok OperationData_abs_def)
  have "OperationData_ok (OperationData_mutable_bottom_right_corner (Point_MergeFrom (OperationData_bottom_right_corner from)) m) \<and>
    OperationData_abs (OperationData_mutable_bottom_right_corner (Point_MergeFrom (OperationData_bottom_right_corner from)) m) =
      (OperationData_abs m)\<lparr>AOperationData_bottom_right_corner := Some (APoint_merge (Point_abs (OperationData_bottom_right_corner from)) (value_or APoint_empty (AOperationData_bottom_right_corner (OperationData_abs m))))\<rparr>"
    by (rule OperationData_abs_mutable_bottom_right_corner [OF assms(1)]) (simp add: Point_MergeFrom_ok Point_MergeFrom_abs src)
  with True src show ?thesis
    by (cases "OperationData_abs m") (simp add: OperationData_merge_bottom_right_corner_def)
next
  case False
  with assms(1) show ?thesis
    by (cases "OperationData_abs m") (simp add: OperationData_merge_bottom_right_corner_def OperationData_abs_def [of "from"])
qed

lemma OperationData_merge_position_step:
  assumes "OperationData_ok m" "OperationData_ok from"
  shows "OperationData_ok (OperationData_merge_position from m) \<and>
    OperationData_abs (OperationData_merge_position from m) =
      AOperationData_position_update (merged APoint_merge APoint_empty (AOperationData_position (OperationData_abs from))) (OperationData_abs m)"
proof (cases "OperationData_has_position from")
  case True
  then have src: "Point_ok (OperationData_position from)" "AOperationData_position (OperationData_abs from) = Some (Point_abs (OperationData_position from))"
    using assms(2) by (simp_all add: OperationData_children_ok OperationData_abs_def)
  have "OperationData_ok (OperationData_mutable_position (Point_MergeFrom (OperationData_position from)) m) \<and>
    OperationData_abs (OperationData_mutable_position (Point_MergeFrom (OperationData_position from)) m) =
      (OperationData_abs m)\<lparr>AOperationData_position := Some (APoint_merge (Point_abs (OperationData_position from)) (value_or APoint_empty (AOperationData_position (OperationData_abs m))))\<rparr>"
    by (rule OperationData_abs_mutable_position [OF assms(1)]) (simp add: Point_MergeFrom_ok Point_MergeFrom_abs src)
  with True src show ?thesis
    by (cases "OperationData_abs m") (simp add: OperationData_merge_position_def)
next
  case False
  with assms(1) show ?thesis
    by (cases "OperationData_abs m") (simp add: OperationData_merge_position_def OperationData_abs_def [of "from"])
qed

text \<open>The tests of whole bytes of presence bits only save work.\<close>

lemma OperationData_MergeFrom_steps:
  "OperationData_MergeFrom from m =
     (let m = OperationData_merge_data_type from m;
          m = OperationData_merge_thinkness from m;
          m = OperationData_merge_color from m;
          m = OperationData_merge_start_point from m;
          m = OperationData_merge_end_point from m;
          m = OperationData_merge_center from m;
          m = OperationData_merge_angle from m;
          m = OperationData_merge_a from m;
          m = OperationData_merge_b from m;
          m = OperationData_merge_top_left_corner from m;
          m = OperationData_merge_bottom_right_corner from m;
          m = OperationData_merge_position from m;
          m = OperationData_merge_is_start from m;
          m = OperationData_merge_fill from m;
          m = OperationData_merge_alpha from m
      in m\<lparr>OperationData_unknown := OperationData_unknown m @ OperationData_unknown from\<rparr>)"
  by (cases "OperationData_has_bits from AND 0xFF = 0"; cases "OperationData_has_bits from AND 0xFF00 = 0")
    (simp_all add: OperationData_MergeFrom_def Let_def Unknown_MergeFrom_append OperationData_merge_absent OperationData_presence hasbits)

text \<open>For a message that embeds this one through a pointer.\<close>

lemmas OperationData_pointer =
  pointer_value [where ok = OperationData_ok and view = OperationData_abs, OF _ OperationData_abs_default]
  pointer_ok_clear [where ok = OperationData_ok and view = OperationData_abs and clr = OperationData_Clear, OF _ OperationData_Clear_ok OperationData_Clear_abs]
  pointer_ok_clear_if [where ok = OperationData_ok and view = OperationData_abs and clr = OperationData_Clear, OF _ OperationData_Clear_ok OperationData_Clear_abs]

lemma OperationData_MergeFrom_step:
  assumes "OperationData_ok m" "OperationData_ok from"
  shows "OperationData_ok (OperationData_MergeFrom from m)"
    and "OperationData_abs (OperationData_MergeFrom from m) = AOperationData_merge (OperationData_abs from) (OperationData_abs m)"
proof -
  have u: "OperationData_ok (x\<lparr>OperationData_unknown := u\<rparr>) = OperationData_ok x" "OperationData_abs (x\<lparr>OperationData_unknown := u\<rparr>) = (OperationData_abs x)\<lparr>AOperationData_unknown := u\<rparr>" for x u
    by (simp_all add: OperationData_ok_def OperationData_abs_def OperationData_accessors OperationData_presence)
  note steps = OperationData_MergeFrom_steps OperationData_ok_merge_fields OperationData_abs_merge_fields OperationData_merge_start_point_step OperationData_merge_end_point_step OperationData_merge_center_step OperationData_merge_top_left_corner_step OperationData_merge_bottom_right_corner_step OperationData_merge_position_step
  show "OperationData_ok (OperationData_MergeFrom from m)"
    using assms by (simp add: Let_def u steps)
  have k: "OperationData_unknown x = AOperationData_unknown (OperationData_abs x)" for x
    by (simp add: OperationData_abs_def)
  show "OperationData_abs (OperationData_MergeFrom from m) = AOperationData_merge (OperationData_abs from) (OperationData_abs m)"
    using assms by (cases "OperationData_abs m") (simp add: Let_def u k steps AOperationData_merge_def)
qed

lemmas OperationData_MergeFrom_ok = OperationData_MergeFrom_step(1)
lemmas OperationData_MergeFrom_abs = OperationData_MergeFrom_step(2)

lemma OperationData_merge_empty [simp]:
  "AOperationData_merge a AOperationData_empty = a"
  by (simp add: AOperationData_merge_def AOperationData_empty_def merged_empty Point_merge_empty)

lemma OperationData_CopyFrom_ok:
  "OperationData_ok m \<Longrightarrow> OperationData_ok from \<Longrightarrow> OperationData_ok (OperationData_CopyFrom from m)"
  by (simp add: OperationData_CopyFrom_def OperationData_MergeFrom_ok OperationData_Clear_ok)

lemma OperationData_CopyFrom_abs:
  "OperationData_ok m \<Longrightarrow> OperationData_ok from \<Longrightarrow> OperationData_abs (OperationData_CopyFrom from m) = OperationData_abs from"
  by (simp add: OperationData_CopyFrom_def OperationData_MergeFrom_abs OperationData_Clear_ok OperationData_Clear_abs)

lemma OperationData_IsInitialized_abs:
  assumes "OperationData_ok m"
  shows "OperationData_IsInitialized m \<longleftrightarrow> AOperationData_initialized (OperationData_abs m)"
proof -
  have "all_opt APoint_initialized (shown b (Point_abs t)) \<longleftrightarrow> b \<longrightarrow> Point_IsInitialized t" if "Point_ok t" for b t
    using that by (simp add: shown_def Point_IsInitialized_abs)
  with OperationData_children_ok [OF assms] show ?thesis
    by (simp add: OperationData_IsInitialized_def AOperationData_initialized_def OperationData_abs_def OperationData_presence hasbits) blast
qed

lemma OperationData_Swap_exchanges:
  "OperationData_Swap m other = (other, m)"
  by (simp add: OperationData_Swap_def)

subsection \<open>ByteSize and SerializeWithCachedSizesToArray\<close>

lemma OperationData_write_fields:
  "OperationData_write_data_type m t = t @ enc_opt (\<lambda>v. enc_tag 1 WIRETYPE_VARINT @ enc_int32 v) (AOperationData_data_type (OperationData_abs m))"
  "OperationData_write_thinkness m t = t @ enc_opt (\<lambda>v. enc_tag 2 WIRETYPE_VARINT @ enc_int32 v) (AOperationData_thinkness (OperationData_abs m))"
  "OperationData_write_color m t = t @ enc_opt (\<lambda>v. enc_tag 3 WIRETYPE_VARINT @ enc_int32 v) (AOperationData_color (OperationData_abs m))"
  "OperationData_write_angle m t = t @ enc_opt (\<lambda>v. enc_tag 7 WIRETYPE_FIXED32 @ enc_fixed32 v) (AOperationData_angle (OperationData_abs m))"
  "OperationData_write_a m t = t @ enc_opt (\<lambda>v. enc_tag 8 WIRETYPE_FIXED32 @ enc_fixed32 v) (AOperationData_a (OperationData_abs m))"
  "OperationData_write_b m t = t @ enc_opt (\<lambda>v. enc_tag 9 WIRETYPE_FIXED32 @ enc_fixed32 v) (AOperationData_b (OperationData_abs m))"
  "OperationData_write_fill m t = t @ enc_opt (\<lambda>v. enc_tag 13 WIRETYPE_VARINT @ enc_bool v) (AOperationData_fill (OperationData_abs m))"
  "OperationData_write_alpha m t = t @ enc_opt (\<lambda>v. enc_tag 14 WIRETYPE_FIXED32 @ enc_fixed32 v) (AOperationData_alpha (OperationData_abs m))"
  "OperationData_write_is_start m t = t @ enc_opt (\<lambda>v. enc_tag 15 WIRETYPE_VARINT @ enc_bool v) (AOperationData_is_start (OperationData_abs m))"
  by (simp_all add: OperationData_write_data_type_def OperationData_write_thinkness_def OperationData_write_color_def OperationData_write_angle_def OperationData_write_a_def OperationData_write_b_def OperationData_write_fill_def OperationData_write_alpha_def OperationData_write_is_start_def OperationData_abs_def wire shown_def)

lemma OperationData_unknown_abs:
  "AOperationData_unknown (OperationData_abs m) = OperationData_unknown m"
  by (simp add: OperationData_abs_def)

lemma OperationData_size_absent:
  "\<not> OperationData_has_data_type (snd s) \<Longrightarrow> OperationData_size_data_type s = s"
  "\<not> OperationData_has_thinkness (snd s) \<Longrightarrow> OperationData_size_thinkness s = s"
  "\<not> OperationData_has_color (snd s) \<Longrightarrow> OperationData_size_color s = s"
  "\<not> OperationData_has_start_point (snd s) \<Longrightarrow> OperationData_size_start_point s = s"
  "\<not> OperationData_has_end_point (snd s) \<Longrightarrow> OperationData_size_end_point s = s"
  "\<not> OperationData_has_center (snd s) \<Longrightarrow> OperationData_size_center s = s"
  "\<not> OperationData_has_angle (snd s) \<Longrightarrow> OperationData_size_angle s = s"
  "\<not> OperationData_has_a (snd s) \<Longrightarrow> OperationData_size_a s = s"
  "\<not> OperationData_has_b (snd s) \<Longrightarrow> OperationData_size_b s = s"
  "\<not> OperationData_has_top_left_corner (snd s) \<Longrightarrow> OperationData_size_top_left_corner s = s"
  "\<not> OperationData_has_bottom_right_corner (snd s) \<Longrightarrow> OperationData_size_bottom_right_corner s = s"
  "\<not> OperationData_has_position (snd s) \<Longrightarrow> OperationData_size_position s = s"
  "\<not> OperationData_has_is_start (snd s) \<Longrightarrow> OperationData_size_is_start s = s"
  "\<not> OperationData_has_fill (snd s) \<Longrightarrow> OperationData_size_fill s = s"
  "\<not> OperationData_has_alpha (snd s) \<Longrightarrow> OperationData_size_alpha s = s"
  by (simp_all add: OperationData_size_data_type_def OperationData_size_thinkness_def OperationData_size_color_def OperationData_size_start_point_def OperationData_size_end_point_def OperationData_size_center_def OperationData_size_angle_def OperationData_size_a_def OperationData_size_b_def OperationData_size_top_left_corner_def OperationData_size_bottom_right_corner_def OperationData_size_position_def OperationData_size_is_start_def OperationData_size_fill_def OperationData_size_alpha_def case_prod_beta)

lemma OperationData_size_has_bits:
  "OperationData_has_bits (snd (OperationData_size_data_type s)) = OperationData_has_bits (snd s)"
  "OperationData_has_bits (snd (OperationData_size_thinkness s)) = OperationData_has_bits (snd s)"
  "OperationData_has_bits (snd (OperationData_size_color s)) = OperationData_has_bits (snd s)"
  "OperationData_has_bits (snd (OperationData_size_start_point s)) = OperationData_has_bits (snd s)"
  "OperationData_has_bits (snd (OperationData_size_end_point s)) = OperationData_has_bits (snd s)"
  "OperationData_has_bits (snd (OperationData_size_center s)) = OperationData_has_bits (snd s)"
  "OperationData_has_bits (snd (OperationData_size_angle s)) = OperationData_has_bits (snd s)"
  "OperationData_has_bits (snd (OperationData_size_a s)) = OperationData_has_bits (snd s)"
  "OperationData_has_bits (snd (OperationData_size_b s)) = OperationData_has_bits (snd s)"
  "OperationData_has_bits (snd (OperationData_size_top_left_corner s)) = OperationData_has_bits (snd s)"
  "OperationData_has_bits (snd (OperationData_size_bottom_right_corner s)) = OperationData_has_bits (snd s)"
  "OperationData_has_bits (snd (OperationData_size_position s)) = OperationData_has_bits (snd s)"
  "OperationData_has_bits (snd (OperationData_size_is_start s)) = OperationData_has_bits (snd s)"
  "OperationData_has_bits (snd (OperationData_size_fill s)) = OperationData_has_bits (snd s)"
  "OperationData_has_bits (snd (OperationData_size_alpha s)) = OperationData_has_bits (snd s)"
  by (simp_all add: OperationData_size_data_type_def OperationData_size_thinkness_def OperationData_size_color_def OperationData_size_start_point_def OperationData_size_end_point_def OperationData_size_center_def OperationData_size_angle_def OperationData_size_a_def OperationData_size_b_def OperationData_size_top_left_corner_def OperationData_size_bottom_right_corner_def OperationData_size_position_def OperationData_size_is_start_def OperationData_size_fill_def OperationData_size_alpha_def case_prod_beta Let_def split: option.split)

lemma OperationData_size_fields:
  "OperationData_size_data_type (n, m) = (n + length (enc_opt (\<lambda>v. enc_tag 1 WIRETYPE_VARINT @ enc_int32 v) (AOperationData_data_type (OperationData_abs m))), m)"
  "OperationData_size_thinkness (n, m) = (n + length (enc_opt (\<lambda>v. enc_tag 2 WIRETYPE_VARINT @ enc_int32 v) (AOperationData_thinkness (OperationData_abs m))), m)"
  "OperationData_size_color (n, m) = (n + length (enc_opt (\<lambda>v. enc_tag 3 WIRETYPE_VARINT @ enc_int32 v) (AOperationData_color (OperationData_abs m))), m)"
  "OperationData_size_angle (n, m) = (n + length (enc_opt (\<lambda>v. enc_tag 7 WIRETYPE_FIXED32 @ enc_fixed32 v) (AOperationData_angle (OperationData_abs m))), m)"
  "OperationData_size_a (n, m) = (n + length (enc_opt (\<lambda>v. enc_tag 8 WIRETYPE_FIXED32 @ enc_fixed32 v) (AOperationData_a (OperationData_abs m))), m)"
  "OperationData_size_b (n, m) = (n + length (enc_opt (\<lambda>v. enc_tag 9 WIRETYPE_FIXED32 @ enc_fixed32 v) (AOperationData_b (OperationData_abs m))), m)"
  "OperationData_size_is_start (n, m) = (n + length (enc_opt (\<lambda>v. enc_tag 15 WIRETYPE_VARINT @ enc_bool v) (AOperationData_is_start (OperationData_abs m))), m)"
  "OperationData_size_fill (n, m) = (n + length (enc_opt (\<lambda>v. enc_tag 13 WIRETYPE_VARINT @ enc_bool v) (AOperationData_fill (OperationData_abs m))), m)"
  "OperationData_size_alpha (n, m) = (n + length (enc_opt (\<lambda>v. enc_tag 14 WIRETYPE_FIXED32 @ enc_fixed32 v) (AOperationData_alpha (OperationData_abs m))), m)"
  by (simp_all add: OperationData_size_data_type_def OperationData_size_thinkness_def OperationData_size_color_def OperationData_size_angle_def OperationData_size_a_def OperationData_size_b_def OperationData_size_is_start_def OperationData_size_fill_def OperationData_size_alpha_def OperationData_abs_def shown_def
      length_enc_int32 length_enc_uint32 length_enc_enum length_enc_bytes)

lemma OperationData_size_skip:
  "OperationData_has_bits (snd s) AND 0xFF = 0 \<Longrightarrow>
     OperationData_size_a (OperationData_size_angle (OperationData_size_center (OperationData_size_end_point (OperationData_size_start_point (OperationData_size_color (OperationData_size_thinkness (OperationData_size_data_type s))))))) = s"
  "OperationData_has_bits (snd s) AND 0xFF00 = 0 \<Longrightarrow>
     OperationData_size_alpha (OperationData_size_fill (OperationData_size_is_start (OperationData_size_position (OperationData_size_bottom_right_corner (OperationData_size_top_left_corner (OperationData_size_b s)))))) = s"
  by (simp_all add: OperationData_size_absent OperationData_presence hasbits)

lemma OperationData_field_sizes_steps:
  "OperationData_field_sizes m =
     OperationData_size_alpha 
       (OperationData_size_fill 
       (OperationData_size_is_start 
       (OperationData_size_position 
       (OperationData_size_bottom_right_corner 
       (OperationData_size_top_left_corner 
       (OperationData_size_b 
       (OperationData_size_a 
       (OperationData_size_angle 
       (OperationData_size_center 
       (OperationData_size_end_point 
       (OperationData_size_start_point 
       (OperationData_size_color 
       (OperationData_size_thinkness 
       (OperationData_size_data_type (0, m)))))))))))))))"
  by (cases "OperationData_has_bits m AND 0xFF = 0"; cases "OperationData_has_bits m AND 0xFF00 = 0")
    (simp_all add: OperationData_field_sizes_def Let_def OperationData_size_skip OperationData_size_has_bits)

definition OperationData_resize_start_point :: "OperationData \<Rightarrow> OperationData" where
  "OperationData_resize_start_point m =
     m\<lparr>OperationData_start_point_fld := if OperationData_has_start_point m then map_option (\<lambda>p. snd (Point_ByteSize p)) (OperationData_start_point_fld m) else OperationData_start_point_fld m\<rparr>"

definition OperationData_resize_end_point :: "OperationData \<Rightarrow> OperationData" where
  "OperationData_resize_end_point m =
     m\<lparr>OperationData_end_point_fld := if OperationData_has_end_point m then map_option (\<lambda>p. snd (Point_ByteSize p)) (OperationData_end_point_fld m) else OperationData_end_point_fld m\<rparr>"

definition OperationData_resize_center :: "OperationData \<Rightarrow> OperationData" where
  "OperationData_resize_center m =
     m\<lparr>OperationData_center_fld := if OperationData_has_center m then map_option (\<lambda>p. snd (Point_ByteSize p)) (OperationData_center_fld m) else OperationData_center_fld m\<rparr>"

definition OperationData_resize_top_left_corner :: "OperationData \<Rightarrow> OperationData" where
  "OperationData_resize_top_left_corner m =
     m\<lparr>OperationData_top_left_corner_fld := if OperationData_has_top_left_corner m then map_option (\<lambda>p. snd (Point_ByteSize p)) (OperationData_top_left_corner_fld m) else OperationData_top_left_corner_fld m\<rparr>"

definition OperationData_resize_bottom_right_corner :: "OperationData \<Rightarrow> OperationData" where
  "OperationData_resize_bottom_right_corner m =
     m\<lparr>OperationData_bottom_right_corner_fld := if OperationData_has_bottom_right_corner m then map_option (\<lambda>p. snd (Point_ByteSize p)) (OperationData_bottom_right_corner_fld m) else OperationData_bottom_right_corner_fld m\<rparr>"

definition OperationData_resize_position :: "OperationData \<Rightarrow> OperationData" where
  "OperationData_resize_position m =
     m\<lparr>OperationData_position_fld := if OperationData_has_position m then map_option (\<lambda>p. snd (Point_ByteSize p)) (OperationData_position_fld m) else OperationData_position_fld m\<rparr>"

lemma OperationData_resize_fields [simp]:
  "OperationData_start_point_fld (OperationData_resize_start_point m) = (if OperationData_has_start_point m then map_option (\<lambda>p. snd (Point_ByteSize p)) (OperationData_start_point_fld m) else OperationData_start_point_fld m)"
  "OperationData_end_point_fld (OperationData_resize_start_point m) = OperationData_end_point_fld m"
  "OperationData_center_fld (OperationData_resize_start_point m) = OperationData_center_fld m"
  "OperationData_top_left_corner_fld (OperationData_resize_start_point m) = OperationData_top_left_corner_fld m"
  "OperationData_bottom_right_corner_fld (OperationData_resize_start_point m) = OperationData_bottom_right_corner_fld m"
  "OperationData_position_fld (OperationData_resize_start_point m) = OperationData_position_fld m"
  "OperationData_has_bits (OperationData_resize_start_point m) = OperationData_has_bits m"
  "OperationData_unknown (OperationData_resize_start_point m) = OperationData_unknown m"
  "OperationData_start_point_fld (OperationData_resize_end_point m) = OperationData_start_point_fld m"
  "OperationData_end_point_fld (OperationData_resize_end_point m) = (if OperationData_has_end_point m then map_option (\<lambda>p. snd (Point_ByteSize p)) (OperationData_end_point_fld m) else OperationData_end_point_fld m)"
  "OperationData_center_fld (OperationData_resize_end_point m) = OperationData_center_fld m"
  "OperationData_top_left_corner_fld (OperationData_resize_end_point m) = OperationData_top_left_corner_fld m"
  "OperationData_bottom_right_corner_fld (OperationData_resize_end_point m) = OperationData_bottom_right_corner_fld m"
  "OperationData_position_fld (OperationData_resize_end_point m) = OperationData_position_fld m"
  "OperationData_has_bits (OperationData_resize_end_point m) = OperationData_has_bits m"
  "OperationData_unknown (OperationData_resize_end_point m) = OperationData_unknown m"
  "OperationData_start_point_fld (OperationData_resize_center m) = OperationData_start_point_fld m"
  "OperationData_end_point_fld (OperationData_resize_center m) = OperationData_end_point_fld m"
  "OperationData_center_fld (OperationData_resize_center m) = (if OperationData_has_center m then map_option (\<lambda>p. snd (Point_ByteSize p)) (OperationData_center_fld m) else OperationData_center_fld m)"
  "OperationData_top_left_corner_fld (OperationData_resize_center m) = OperationData_top_left_corner_fld m"
  "OperationData_bottom_right_corner_fld (OperationData_resize_center m) = OperationData_bottom_right_corner_fld m"
  "OperationData_position_fld (OperationData_resize_center m) = OperationData_position_fld m"
  "OperationData_has_bits (OperationData_resize_center m) = OperationData_has_bits m"
  "OperationData_unknown (OperationData_resize_center m) = OperationData_unknown m"
  "OperationData_start_point_fld (OperationData_resize_top_left_corner m) = OperationData_start_point_fld m"
  "OperationData_end_point_fld (OperationData_resize_top_left_corner m) = OperationData_end_point_fld m"
  "OperationData_center_fld (OperationData_resize_top_left_corner m) = OperationData_center_fld m"
  "OperationData_top_left_corner_fld (OperationData_resize_top_left_corner m) = (if OperationData_has_top_left_corner m then map_option (\<lambda>p. snd (Point_ByteSize p)) (OperationData_top_left_corner_fld m) else OperationData_top_left_corner_fld m)"
  "OperationData_bottom_right_corner_fld (OperationData_resize_top_left_corner m) = OperationData_bottom_right_corner_fld m"
  "OperationData_position_fld (OperationData_resize_top_left_corner m) = OperationData_position_fld m"
  "OperationData_has_bits (OperationData_resize_top_left_corner m) = OperationData_has_bits m"
  "OperationData_unknown (OperationData_resize_top_left_corner m) = OperationData_unknown m"
  "OperationData_start_point_fld (OperationData_resize_bottom_right_corner m) = OperationData_start_point_fld m"
  "OperationData_end_point_fld (OperationData_resize_bottom_right_corner m) = OperationData_end_point_fld m"
  "OperationData_center_fld (OperationData_resize_bottom_right_corner m) = OperationData_center_fld m"
  "OperationData_top_left_corner_fld (OperationData_resize_bottom_right_corner m) = OperationData_top_left_corner_fld m"
  "OperationData_bottom_right_corner_fld (OperationData_resize_bottom_right_corner m) = (if OperationData_has_bottom_right_corner m then map_option (\<lambda>p. snd (Point_ByteSize p)) (OperationData_bottom_right_corner_fld m) else OperationData_bottom_right_corner_fld m)"
  "OperationData_position_fld (OperationData_resize_bottom_right_corner m) = OperationData_position_fld m"
  "OperationData_has_bits (OperationData_resize_bottom_right_corner m) = OperationData_has_bits m"
  "OperationData_unknown (OperationData_resize_bottom_right_corner m) = OperationData_unknown m"
  "OperationData_start_point_fld (OperationData_resize_position m) = OperationData_start_point_fld m"
  "OperationData_end_point_fld (OperationData_resize_position m) = OperationData_end_point_fld m"
  "OperationData_center_fld (OperationData_resize_position m) = OperationData_center_fld m"
  "OperationData_top_left_corner_fld (OperationData_resize_position m) = OperationData_top_left_corner_fld m"
  "OperationData_bottom_right_corner_fld (OperationData_resize_position m) = OperationData_bottom_right_corner_fld m"
  "OperationData_position_fld (OperationData_resize_position m) = (if OperationData_has_position m then map_option (\<lambda>p. snd (Point_ByteSize p)) (OperationData_position_fld m) else OperationData_position_fld m)"
  "OperationData_has_bits (OperationData_resize_position m) = OperationData_has_bits m"
  "OperationData_unknown (OperationData_resize_position m) = OperationData_unknown m"
  by (simp_all add: OperationData_resize_start_point_def OperationData_resize_end_point_def OperationData_resize_center_def OperationData_resize_top_left_corner_def OperationData_resize_bottom_right_corner_def OperationData_resize_position_def)

lemma OperationData_size_messages:
  "OperationData_ok m \<Longrightarrow> OperationData_size_start_point (n, m) =
     (n + length (enc_opt (\<lambda>v. enc_tag 4 WIRETYPE_LENGTH_DELIMITED @ enc_bytes (APoint_encode v)) (AOperationData_start_point (OperationData_abs m))), OperationData_resize_start_point m)"
  "OperationData_ok m \<Longrightarrow> OperationData_size_end_point (n, m) =
     (n + length (enc_opt (\<lambda>v. enc_tag 5 WIRETYPE_LENGTH_DELIMITED @ enc_bytes (APoint_encode v)) (AOperationData_end_point (OperationData_abs m))), OperationData_resize_end_point m)"
  "OperationData_ok m \<Longrightarrow> OperationData_size_center (n, m) =
     (n + length (enc_opt (\<lambda>v. enc_tag 6 WIRETYPE_LENGTH_DELIMITED @ enc_bytes (APoint_encode v)) (AOperationData_center (OperationData_abs m))), OperationData_resize_center m)"
  "OperationData_ok m \<Longrightarrow> OperationData_size_top_left_corner (n, m) =
     (n + length (enc_opt (\<lambda>v. enc_tag 10 WIRETYPE_LENGTH_DELIMITED @ enc_bytes (APoint_encode v)) (AOperationData_top_left_corner (OperationData_abs m))), OperationData_resize_top_left_corner m)"
  "OperationData_ok m \<Longrightarrow> OperationData_size_bottom_right_corner (n, m) =
     (n + length (enc_opt (\<lambda>v. enc_tag 11 WIRETYPE_LENGTH_DELIMITED @ enc_bytes (APoint_encode v)) (AOperationData_bottom_right_corner (OperationData_abs m))), OperationData_resize_bottom_right_corner m)"
  "OperationData_ok m \<Longrightarrow> OperationData_size_position (n, m) =
     (n + length (enc_opt (\<lambda>v. enc_tag 12 WIRETYPE_LENGTH_DELIMITED @ enc_bytes (APoint_encode v)) (AOperationData_position (OperationData_abs m))), OperationData_resize_position m)"
  by (auto simp: OperationData_size_start_point_def OperationData_size_end_point_def OperationData_size_center_def OperationData_size_top_left_corner_def OperationData_size_bottom_right_corner_def OperationData_size_position_def OperationData_resize_start_point_def OperationData_resize_end_point_def OperationData_resize_center_def OperationData_resize_top_left_corner_def OperationData_resize_bottom_right_corner_def OperationData_resize_position_def OperationData_ok_def pointer_ok_def OperationData_abs_def OperationData_start_point_def OperationData_end_point_def OperationData_center_def OperationData_top_left_corner_def OperationData_bottom_right_corner_def OperationData_position_def MessageSizeNoVirtual_def
      Point_ByteSize_fst length_enc_bytes(2) [symmetric] BytesSize_def case_prod_beta split: option.splits)

text \<open>Computing the sizes of the embedded messages changes nothing visible.\<close>

lemma OperationData_Point_pointer_resize [simp]:
  "pointer_ok Point_ok Point_abs d has p \<Longrightarrow>
     pointer_ok Point_ok Point_abs d has (if has then map_option (\<lambda>p. snd (Point_ByteSize p)) p else p)"
  "pointer_ok Point_ok Point_abs d has p \<Longrightarrow>
     shown has (Point_abs (deref_pointer Point_default (if has then map_option (\<lambda>p. snd (Point_ByteSize p)) p else p))) =
       shown has (Point_abs (deref_pointer Point_default p))"
  "pointer_ok Point_ok Point_abs d has p \<Longrightarrow> has \<Longrightarrow> Point_sized (deref_pointer Point_default (map_option (\<lambda>p. snd (Point_ByteSize p)) p))"
  by (cases p; auto simp: pointer_ok_def shown_def Point_ByteSize_snd)+

lemma OperationData_resize_start_point_ok [simp]:
  "OperationData_ok m \<Longrightarrow> OperationData_ok (OperationData_resize_start_point m)"
  "OperationData_ok m \<Longrightarrow> OperationData_abs (OperationData_resize_start_point m) = OperationData_abs m"
  using OperationData_Point_pointer_resize(1,2) [of APoint_empty "OperationData_has_start_point m" "OperationData_start_point_fld m"]
  by (simp_all add: OperationData_ok_def OperationData_abs_def OperationData_resize_start_point_def  OperationData_presence OperationData_accessors)

lemma OperationData_resize_end_point_ok [simp]:
  "OperationData_ok m \<Longrightarrow> OperationData_ok (OperationData_resize_end_point m)"
  "OperationData_ok m \<Longrightarrow> OperationData_abs (OperationData_resize_end_point m) = OperationData_abs m"
  using OperationData_Point_pointer_resize(1,2) [of APoint_empty "OperationData_has_end_point m" "OperationData_end_point_fld m"]
  by (simp_all add: OperationData_ok_def OperationData_abs_def OperationData_resize_end_point_def  OperationData_presence OperationData_accessors)

lemma OperationData_resize_center_ok [simp]:
  "OperationData_ok m \<Longrightarrow> OperationData_ok (OperationData_resize_center m)"
  "OperationData_ok m \<Longrightarrow> OperationData_abs (OperationData_resize_center m) = OperationData_abs m"
  using OperationData_Point_pointer_resize(1,2) [of APoint_empty "OperationData_has_center m" "OperationData_center_fld m"]
  by (simp_all add: OperationData_ok_def OperationData_abs_def OperationData_resize_center_def  OperationData_presence OperationData_accessors)

lemma OperationData_resize_top_left_corner_ok [simp]:
  "OperationData_ok m \<Longrightarrow> OperationData_ok (OperationData_resize_top_left_corner m)"
  "OperationData_ok m \<Longrightarrow> OperationData_abs (OperationData_resize_top_left_corner m) = OperationData_abs m"
  using OperationData_Point_pointer_resize(1,2) [of APoint_empty "OperationData_has_top_left_corner m" "OperationData_top_left_corner_fld m"]
  by (simp_all add: OperationData_ok_def OperationData_abs_def OperationData_resize_top_left_corner_def  OperationData_presence OperationData_accessors)

lemma OperationData_resize_bottom_right_corner_ok [simp]:
  "OperationData_ok m \<Longrightarrow> OperationData_ok (OperationData_resize_bottom_right_corner m)"
  "OperationData_ok m \<Longrightarrow> OperationData_abs (OperationData_resize_bottom_right_corner m) = OperationData_abs m"
  using OperationData_Point_pointer_resize(1,2) [of APoint_empty "OperationData_has_bottom_right_corner m" "OperationData_bottom_right_corner_fld m"]
  by (simp_all add: OperationData_ok_def OperationData_abs_def OperationData_resize_bottom_right_corner_def  OperationData_presence OperationData_accessors)

lemma OperationData_resize_position_ok [simp]:
  "OperationData_ok m \<Longrightarrow> OperationData_ok (OperationData_resize_position m)"
  "OperationData_ok m \<Longrightarrow> OperationData_abs (OperationData_resize_position m) = OperationData_abs m"
  using OperationData_Point_pointer_resize(1,2) [of APoint_empty "OperationData_has_position m" "OperationData_position_fld m"]
  by (simp_all add: OperationData_ok_def OperationData_abs_def OperationData_resize_position_def  OperationData_presence OperationData_accessors)

lemma OperationData_ByteSize_eq:
  "OperationData_ok m \<Longrightarrow> OperationData_ByteSize m =
     (length (AOperationData_encode (OperationData_abs m)),
      (OperationData_resize_position (OperationData_resize_bottom_right_corner (OperationData_resize_top_left_corner (OperationData_resize_center (OperationData_resize_end_point (OperationData_resize_start_point m))))))\<lparr>OperationData_cached_size := length (AOperationData_encode (OperationData_abs m))\<rparr>)"
  by (simp add: OperationData_ByteSize_def OperationData_field_sizes_steps unknown_size Let_def OperationData_size_fields OperationData_size_messages ComputeUnknown_length AOperationData_encode_def add.assoc add.left_commute add.commute OperationData_unknown_abs)

lemma OperationData_ByteSize_fst:
  "OperationData_ok m \<Longrightarrow> fst (OperationData_ByteSize m) = length (AOperationData_encode (OperationData_abs m))"
  by (simp add: OperationData_ByteSize_eq)

lemma OperationData_cached_simps [simp]:
  "OperationData_ok (m\<lparr>OperationData_cached_size := c\<rparr>) = OperationData_ok m" "OperationData_abs (m\<lparr>OperationData_cached_size := c\<rparr>) = OperationData_abs m"
  by (simp_all add: OperationData_ok_def OperationData_abs_def OperationData_accessors OperationData_presence)

lemma OperationData_ByteSize_snd:
  "OperationData_ok m \<Longrightarrow> OperationData_ok (snd (OperationData_ByteSize m)) \<and> OperationData_abs (snd (OperationData_ByteSize m)) = OperationData_abs m \<and> OperationData_sized (snd (OperationData_ByteSize m))"
  by (simp add: OperationData_ByteSize_eq OperationData_sized_def, simp add: OperationData_ok_def OperationData_start_point_def OperationData_end_point_def OperationData_center_def OperationData_top_left_corner_def OperationData_bottom_right_corner_def OperationData_position_def OperationData_presence hasbits,
      blast intro: OperationData_Point_pointer_resize(3))

lemma OperationData_write_messages:
  "OperationData_ok m \<Longrightarrow> OperationData_sized m \<Longrightarrow> OperationData_write_start_point m t = t @ enc_opt (\<lambda>v. enc_tag 4 WIRETYPE_LENGTH_DELIMITED @ enc_bytes (APoint_encode v)) (AOperationData_start_point (OperationData_abs m))"
  "OperationData_ok m \<Longrightarrow> OperationData_sized m \<Longrightarrow> OperationData_write_end_point m t = t @ enc_opt (\<lambda>v. enc_tag 5 WIRETYPE_LENGTH_DELIMITED @ enc_bytes (APoint_encode v)) (AOperationData_end_point (OperationData_abs m))"
  "OperationData_ok m \<Longrightarrow> OperationData_sized m \<Longrightarrow> OperationData_write_center m t = t @ enc_opt (\<lambda>v. enc_tag 6 WIRETYPE_LENGTH_DELIMITED @ enc_bytes (APoint_encode v)) (AOperationData_center (OperationData_abs m))"
  "OperationData_ok m \<Longrightarrow> OperationData_sized m \<Longrightarrow> OperationData_write_top_left_corner m t = t @ enc_opt (\<lambda>v. enc_tag 10 WIRETYPE_LENGTH_DELIMITED @ enc_bytes (APoint_encode v)) (AOperationData_top_left_corner (OperationData_abs m))"
  "OperationData_ok m \<Longrightarrow> OperationData_sized m \<Longrightarrow> OperationData_write_bottom_right_corner m t = t @ enc_opt (\<lambda>v. enc_tag 11 WIRETYPE_LENGTH_DELIMITED @ enc_bytes (APoint_encode v)) (AOperationData_bottom_right_corner (OperationData_abs m))"
  "OperationData_ok m \<Longrightarrow> OperationData_sized m \<Longrightarrow> OperationData_write_position m t = t @ enc_opt (\<lambda>v. enc_tag 12 WIRETYPE_LENGTH_DELIMITED @ enc_bytes (APoint_encode v)) (AOperationData_position (OperationData_abs m))"
  by (simp_all add: OperationData_write_start_point_def OperationData_write_end_point_def OperationData_write_center_def OperationData_write_top_left_corner_def OperationData_write_bottom_right_corner_def OperationData_write_position_def OperationData_abs_def OperationData_sized_def shown_def WriteMessageNoVirtualToArray_def wire enc_bytes_def
      Point_SerializeWithCachedSizesToArray_eq Point_sized_def OperationData_children_ok)

lemma OperationData_SerializeWithCachedSizesToArray_eq:
  "OperationData_ok m \<Longrightarrow> OperationData_sized m \<Longrightarrow>
     OperationData_SerializeWithCachedSizesToArray m t = t @ AOperationData_encode (OperationData_abs m)"
  by (simp add: OperationData_SerializeWithCachedSizesToArray_def Let_def OperationData_write_fields OperationData_write_messages AOperationData_encode_def OperationData_unknown_abs
      unknown_serialize)

end
