(* ===== verification/Pb_Operation.thy ===== *)
theory Pb_Operation
  imports Pb_OperationData
begin

text \<open>
  The generated message \<^verbatim>\<open>Operation\<close>
  of \<^verbatim>\<open>message.pb.h\<close> and \<^verbatim>\<open>message.pb.cc\<close>.
\<close>

section \<open>The message \<^verbatim>\<open>Operation\<close>\<close>

subsection \<open>Data\<close>

record Operation =
  Operation_serial_number_fld :: uint32
  Operation_data_fld :: "OperationData option"
  Operation_unknown :: unknown_field_set
  Operation_cached_size :: nat
  Operation_has_bits :: uint32

definition Operation_default :: Operation where
  "Operation_default =
     \<lparr>Operation_serial_number_fld = 0,
      Operation_data_fld = None,
      Operation_unknown = [],
      Operation_cached_size = 0,
      Operation_has_bits = 0\<rparr>"

subsection \<open>Accessors\<close>

definition Operation_has_serial_number :: "Operation \<Rightarrow> bool" where
  "Operation_has_serial_number m \<longleftrightarrow> Operation_has_bits m AND 1 \<noteq> 0"

definition Operation_set_has_serial_number :: "Operation \<Rightarrow> Operation" where
  "Operation_set_has_serial_number m = m\<lparr>Operation_has_bits := Operation_has_bits m OR 1\<rparr>"

definition Operation_clear_has_serial_number :: "Operation \<Rightarrow> Operation" where
  "Operation_clear_has_serial_number m = m\<lparr>Operation_has_bits := Operation_has_bits m AND NOT 1\<rparr>"

definition Operation_clear_serial_number :: "Operation \<Rightarrow> Operation" where
  "Operation_clear_serial_number m = Operation_clear_has_serial_number (m\<lparr>Operation_serial_number_fld := 0\<rparr>)"

definition Operation_serial_number :: "Operation \<Rightarrow> uint32" where
  "Operation_serial_number m = Operation_serial_number_fld m"

definition Operation_set_serial_number :: "uint32 \<Rightarrow> Operation \<Rightarrow> Operation" where
  "Operation_set_serial_number value m = (Operation_set_has_serial_number m)\<lparr>Operation_serial_number_fld := value\<rparr>"

definition Operation_has_data :: "Operation \<Rightarrow> bool" where
  "Operation_has_data m \<longleftrightarrow> Operation_has_bits m AND 0x2 \<noteq> 0"

definition Operation_set_has_data :: "Operation \<Rightarrow> Operation" where
  "Operation_set_has_data m = m\<lparr>Operation_has_bits := Operation_has_bits m OR 0x2\<rparr>"

definition Operation_clear_has_data :: "Operation \<Rightarrow> Operation" where
  "Operation_clear_has_data m = m\<lparr>Operation_has_bits := Operation_has_bits m AND NOT 0x2\<rparr>"

definition Operation_clear_data :: "Operation \<Rightarrow> Operation" where
  "Operation_clear_data m =
     Operation_clear_has_data (m\<lparr>Operation_data_fld := map_option OperationData_Clear (Operation_data_fld m)\<rparr>)"

definition Operation_data :: "Operation \<Rightarrow> OperationData" where
  "Operation_data m = deref_pointer OperationData_default (Operation_data_fld m)"

definition Operation_mutable_data :: "(OperationData \<Rightarrow> OperationData) \<Rightarrow> Operation \<Rightarrow> Operation" where
  "Operation_mutable_data f m =
     (let m = Operation_set_has_data m
      in m\<lparr>Operation_data_fld := Some (f (deref_pointer OperationData_default (Operation_data_fld m)))\<rparr>)"

definition Operation_release_data :: "Operation \<Rightarrow> OperationData option \<times> Operation" where
  "Operation_release_data m =
     (let m = Operation_clear_has_data m in (Operation_data_fld m, m\<lparr>Operation_data_fld := None\<rparr>))"

lemmas Operation_presence = Operation_has_serial_number_def Operation_set_has_serial_number_def
    Operation_clear_has_serial_number_def Operation_has_data_def Operation_set_has_data_def
    Operation_clear_has_data_def

lemmas Operation_accessors = Operation_clear_serial_number_def Operation_serial_number_def
    Operation_set_serial_number_def Operation_clear_data_def Operation_data_def Operation_mutable_data_def
    Operation_release_data_def

subsection \<open>Operations on whole messages\<close>

definition Operation_Clear :: "Operation \<Rightarrow> Operation" where
  "Operation_Clear m =
     (let m = (if Operation_has_bits m AND 0xFF \<noteq> 0
           then m\<lparr>Operation_serial_number_fld := 0,
             Operation_data_fld := (if Operation_has_data m then map_option OperationData_Clear (Operation_data_fld m) else Operation_data_fld m)\<rparr>
           else m)
      in m\<lparr>Operation_has_bits := 0, Operation_unknown := Unknown_Clear (Operation_unknown m)\<rparr>)"

definition Operation_merge_serial_number :: "Operation \<Rightarrow> Operation \<Rightarrow> Operation" where
  "Operation_merge_serial_number from m = (if Operation_has_serial_number from then Operation_set_serial_number (Operation_serial_number from) m else m)"

definition Operation_merge_data :: "Operation \<Rightarrow> Operation \<Rightarrow> Operation" where
  "Operation_merge_data from m = (if Operation_has_data from then Operation_mutable_data (OperationData_MergeFrom (Operation_data from)) m else m)"

definition Operation_MergeFrom :: "Operation \<Rightarrow> Operation \<Rightarrow> Operation" where
  "Operation_MergeFrom from m =
     (let m = (if Operation_has_bits from AND 0xFF \<noteq> 0 then
             let m = Operation_merge_serial_number from m;
                 m = Operation_merge_data from m
             in m
           else m)
      in m\<lparr>Operation_unknown := Unknown_MergeFrom (Operation_unknown m) (Operation_unknown from)\<rparr>)"

definition Operation_CopyFrom :: "Operation \<Rightarrow> Operation \<Rightarrow> Operation" where
  "Operation_CopyFrom from m = Operation_MergeFrom from (Operation_Clear m)"

definition Operation_IsInitialized :: "Operation \<Rightarrow> bool" where
  "Operation_IsInitialized m \<longleftrightarrow>
     (if Operation_has_bits m AND 0x3 \<noteq> 0x3 then False
      else if Operation_has_data m \<and> \<not> OperationData_IsInitialized (Operation_data m) then False
      else True)"

definition Operation_Swap :: "Operation \<Rightarrow> Operation \<Rightarrow> Operation \<times> Operation" where
  "Operation_Swap m other =
     (m\<lparr>Operation_serial_number_fld := Operation_serial_number_fld other,
        Operation_data_fld := Operation_data_fld other,
        Operation_has_bits := Operation_has_bits other,
        Operation_unknown := Operation_unknown other,
        Operation_cached_size := Operation_cached_size other\<rparr>,
      other\<lparr>Operation_serial_number_fld := Operation_serial_number_fld m,
        Operation_data_fld := Operation_data_fld m,
        Operation_has_bits := Operation_has_bits m,
        Operation_unknown := Operation_unknown m,
        Operation_cached_size := Operation_cached_size m\<rparr>)"

definition Operation_size_serial_number :: "nat \<times> Operation \<Rightarrow> nat \<times> Operation" where
  "Operation_size_serial_number = (\<lambda>(total, m). (if Operation_has_serial_number m then (total + (1 + UInt32Size (Operation_serial_number m)), m) else (total, m)))"

definition Operation_size_data :: "nat \<times> Operation \<Rightarrow> nat \<times> Operation" where
  "Operation_size_data = (\<lambda>(total, m). (if Operation_has_data m then
        (case Operation_data_fld m of
           None \<Rightarrow> (total + (1 + fst (MessageSizeNoVirtual OperationData_ByteSize OperationData_default)), m)
         | Some p \<Rightarrow> (let (n, p) = MessageSizeNoVirtual OperationData_ByteSize p
             in (total + (1 + n), m\<lparr>Operation_data_fld := Some p\<rparr>)))
      else (total, m)))"

definition Operation_field_sizes :: "Operation \<Rightarrow> nat \<times> Operation" where
  "Operation_field_sizes m =
     (let s = (0, m);
          s = (if Operation_has_bits m AND 0xFF \<noteq> 0 then
             let s = Operation_size_serial_number s;
                 s = Operation_size_data s
             in s
           else s)
      in s)"

definition Operation_ByteSize :: "Operation \<Rightarrow> nat \<times> Operation" where
  "Operation_ByteSize m =
     (let (total, m) = Operation_field_sizes m;
          total = (if Operation_unknown m \<noteq> [] then total + ComputeUnknownFieldsSize (Operation_unknown m) else total)
      in (total, m\<lparr>Operation_cached_size := total\<rparr>))"

definition Operation_write_serial_number :: "Operation \<Rightarrow> bytes \<Rightarrow> bytes" where
  "Operation_write_serial_number m target =
     (if Operation_has_serial_number m then WriteUInt32ToArray 1 (Operation_serial_number m) target else target)"

definition Operation_write_data :: "Operation \<Rightarrow> bytes \<Rightarrow> bytes" where
  "Operation_write_data m target =
     (if Operation_has_data m
      then WriteMessageNoVirtualToArray OperationData_cached_size OperationData_SerializeWithCachedSizesToArray 2 (Operation_data m) target
      else target)"

definition Operation_SerializeWithCachedSizesToArray :: "Operation \<Rightarrow> bytes \<Rightarrow> bytes" where
  "Operation_SerializeWithCachedSizesToArray m target =
     (let target = Operation_write_serial_number m target;
          target = Operation_write_data m target
      in if Operation_unknown m \<noteq> [] then SerializeUnknownFieldsToArray (Operation_unknown m) target else target)"

subsection \<open>The abstract message\<close>

record AOperation =
  AOperation_serial_number :: "uint32 option"
  AOperation_data :: "AOperationData option"
  AOperation_unknown :: unknown_field_set

definition AOperation_empty :: AOperation where
  "AOperation_empty = \<lparr>AOperation_serial_number = None,
     AOperation_data = None,
     AOperation_unknown = []\<rparr>"

definition Operation_abs :: "Operation \<Rightarrow> AOperation" where
  "Operation_abs m = \<lparr>AOperation_serial_number = shown (Operation_has_serial_number m) (Operation_serial_number m),
     AOperation_data = shown (Operation_has_data m) (OperationData_abs (Operation_data m)),
     AOperation_unknown = Operation_unknown m\<rparr>"

definition Operation_ok :: "Operation \<Rightarrow> bool" where
  "Operation_ok m \<longleftrightarrow>
     scalar_ok (Operation_has_serial_number m) 0 (Operation_serial_number_fld m) \<and>
     pointer_ok OperationData_ok OperationData_abs AOperationData_empty (Operation_has_data m) (Operation_data_fld m)"

definition AOperation_merge :: "AOperation \<Rightarrow> AOperation \<Rightarrow> AOperation" where
  "AOperation_merge from to = \<lparr>AOperation_serial_number = or_else (AOperation_serial_number from) (AOperation_serial_number to),
     AOperation_data = merged AOperationData_merge AOperationData_empty (AOperation_data from) (AOperation_data to),
     AOperation_unknown = AOperation_unknown to @ AOperation_unknown from\<rparr>"

definition AOperation_initialized :: "AOperation \<Rightarrow> bool" where
  "AOperation_initialized a \<longleftrightarrow>
     AOperation_serial_number a \<noteq> None \<and>
     AOperation_data a \<noteq> None \<and>
     all_opt AOperationData_initialized (AOperation_data a)"

definition AOperation_encode :: "AOperation \<Rightarrow> bytes" where
  "AOperation_encode a =
     enc_opt (\<lambda>v. enc_tag 1 WIRETYPE_VARINT @ enc_uint32 v) (AOperation_serial_number a) @
     enc_opt (\<lambda>v. enc_tag 2 WIRETYPE_LENGTH_DELIMITED @ enc_bytes (AOperationData_encode v)) (AOperation_data a) @
     SerializeUnknownFieldsToArray (AOperation_unknown a) []"

definition Operation_sized :: "Operation \<Rightarrow> bool" where
  "Operation_sized m \<longleftrightarrow>
     Operation_cached_size m = length (AOperation_encode (Operation_abs m)) \<and>
     (Operation_has_data m \<longrightarrow> OperationData_sized (Operation_data m))"

subsection \<open>Accessors on the abstract message\<close>

lemma Operation_abs_default [simp]:
  "Operation_abs Operation_default = AOperation_empty"
  by (simp add: Operation_abs_def Operation_default_def AOperation_empty_def Operation_accessors Operation_presence)

lemma Operation_ok_default [simp]:
  "Operation_ok Operation_default"
  by (simp add: Operation_ok_def Operation_default_def field_ok Operation_presence)

lemma Operation_abs_accessors [simp]:
  "Operation_abs (Operation_set_serial_number v m) = (Operation_abs m)\<lparr>AOperation_serial_number := Some v\<rparr>"
  "Operation_abs (Operation_clear_serial_number m) = (Operation_abs m)\<lparr>AOperation_serial_number := None\<rparr>"
  "Operation_abs (Operation_clear_data m) = (Operation_abs m)\<lparr>AOperation_data := None\<rparr>"
  "Operation_abs (snd (Operation_release_data m)) = (Operation_abs m)\<lparr>AOperation_data := None\<rparr>"
  by (simp_all add: Operation_abs_def Operation_accessors Operation_presence hasbits Let_def)

lemma Operation_ok_accessors [simp]:
  "Operation_ok m \<Longrightarrow> Operation_ok (Operation_set_serial_number v m)"
  "Operation_ok m \<Longrightarrow> Operation_ok (Operation_clear_serial_number m)"
  "Operation_ok m \<Longrightarrow> Operation_ok (snd (Operation_release_data m))"
  by (simp_all add: Operation_ok_def Let_def Operation_accessors Operation_presence hasbits)

lemma Operation_ok_clear_data [simp]:
  "Operation_ok m \<Longrightarrow> Operation_ok (Operation_clear_data m)"
  using OperationData_pointer(2) [of "Operation_has_data m" "Operation_data_fld m"]
  by (simp add: Operation_ok_def Operation_accessors Operation_presence hasbits)

lemma Operation_getters:
  "Operation_ok m \<Longrightarrow> Operation_serial_number m = value_or 0 (AOperation_serial_number (Operation_abs m))"
  "Operation_ok m \<Longrightarrow> OperationData_abs (Operation_data m) = value_or AOperationData_empty (AOperation_data (Operation_abs m))"
  by (simp_all add: Operation_ok_def Operation_abs_def Operation_accessors OperationData_pointer)

lemma Operation_children_ok:
  "Operation_ok m \<Longrightarrow> OperationData_ok (Operation_data m)"
  unfolding Operation_ok_def Operation_data_def
  by (blast intro: pointer_deref_ok OperationData_ok_default)+

lemma Operation_abs_mutable_data:
  "Operation_ok m \<Longrightarrow> (\<And>t. OperationData_ok t \<Longrightarrow> OperationData_ok (g t) \<and> OperationData_abs (g t) = G (OperationData_abs t)) \<Longrightarrow>
     Operation_ok (Operation_mutable_data g m) \<and>
     Operation_abs (Operation_mutable_data g m) =
       (Operation_abs m)\<lparr>AOperation_data := Some (G (value_or AOperationData_empty (AOperation_data (Operation_abs m))))\<rparr>"
  using Operation_children_ok(1) [of m] by (simp add: Operation_ok_def Operation_abs_def Operation_accessors Operation_presence hasbits Let_def OperationData_pointer)

subsection \<open>Clear, MergeFrom, CopyFrom, IsInitialized, Swap\<close>

lemma Operation_Clear_ok:
  "Operation_ok m \<Longrightarrow> Operation_ok (Operation_Clear m)"
  by (cases "Operation_has_bits m AND 0xFF = 0")
    (simp_all add: Operation_ok_def Operation_Clear_def Let_def Operation_presence hasbits OperationData_pointer)

lemma Operation_Clear_abs:
  "Operation_abs (Operation_Clear m) = AOperation_empty"
  by (simp add: Operation_abs_def AOperation_empty_def Operation_Clear_def Unknown_Clear_def Let_def Operation_presence hasbits)

lemma Operation_merge_absent:
  "\<not> Operation_has_serial_number from \<Longrightarrow> Operation_merge_serial_number from m = m"
  "\<not> Operation_has_data from \<Longrightarrow> Operation_merge_data from m = m"
  by (simp_all add: Operation_merge_serial_number_def Operation_merge_data_def)

lemma Operation_abs_merge_fields:
  "Operation_abs (Operation_merge_serial_number from m) = AOperation_serial_number_update (or_else (AOperation_serial_number (Operation_abs from))) (Operation_abs m)"
  by (simp_all add: Operation_merge_serial_number_def Operation_abs_def shown_def Operation_accessors Operation_presence hasbits)

lemma Operation_ok_merge_fields:
  "Operation_ok m \<Longrightarrow> Operation_ok (Operation_merge_serial_number from m)"
  by (simp_all add: Operation_merge_serial_number_def)

lemma Operation_merge_data_step:
  assumes "Operation_ok m" "Operation_ok from"
  shows "Operation_ok (Operation_merge_data from m) \<and>
    Operation_abs (Operation_merge_data from m) =
      AOperation_data_update (merged AOperationData_merge AOperationData_empty (AOperation_data (Operation_abs from))) (Operation_abs m)"
proof (cases "Operation_has_data from")
  case True
  then have src: "OperationData_ok (Operation_data from)" "AOperation_data (Operation_abs from) = Some (OperationData_abs (Operation_data from))"
    using assms(2) by (simp_all add: Operation_children_ok Operation_abs_def)
  have "Operation_ok (Operation_mutable_data (OperationData_MergeFrom (Operation_data from)) m) \<and>
    Operation_abs (Operation_mutable_data (OperationData_MergeFrom (Operation_data from)) m) =
      (Operation_abs m)\<lparr>AOperation_data := Some (AOperationData_merge (OperationData_abs (Operation_data from)) (value_or AOperationData_empty (AOperation_data (Operation_abs m))))\<rparr>"
    by (rule Operation_abs_mutable_data [OF assms(1)]) (simp add: OperationData_MergeFrom_ok OperationData_MergeFrom_abs src)
  with True src show ?thesis
    by (cases "Operation_abs m") (simp add: Operation_merge_data_def)
next
  case False
  with assms(1) show ?thesis
    by (cases "Operation_abs m") (simp add: Operation_merge_data_def Operation_abs_def [of "from"])
qed

text \<open>The tests of whole bytes of presence bits only save work.\<close>

lemma Operation_MergeFrom_steps:
  "Operation_MergeFrom from m =
     (let m = Operation_merge_serial_number from m;
          m = Operation_merge_data from m
      in m\<lparr>Operation_unknown := Operation_unknown m @ Operation_unknown from\<rparr>)"
  by (cases "Operation_has_bits from AND 0xFF = 0")
    (simp_all add: Operation_MergeFrom_def Let_def Unknown_MergeFrom_append Operation_merge_absent Operation_presence hasbits)

lemma Operation_MergeFrom_step:
  assumes "Operation_ok m" "Operation_ok from"
  shows "Operation_ok (Operation_MergeFrom from m)"
    and "Operation_abs (Operation_MergeFrom from m) = AOperation_merge (Operation_abs from) (Operation_abs m)"
proof -
  have u: "Operation_ok (x\<lparr>Operation_unknown := u\<rparr>) = Operation_ok x" "Operation_abs (x\<lparr>Operation_unknown := u\<rparr>) = (Operation_abs x)\<lparr>AOperation_unknown := u\<rparr>" for x u
    by (simp_all add: Operation_ok_def Operation_abs_def Operation_accessors Operation_presence)
  note steps = Operation_MergeFrom_steps Operation_ok_merge_fields Operation_abs_merge_fields Operation_merge_data_step
  show "Operation_ok (Operation_MergeFrom from m)"
    using assms by (simp add: Let_def u steps)
  have k: "Operation_unknown x = AOperation_unknown (Operation_abs x)" for x
    by (simp add: Operation_abs_def)
  show "Operation_abs (Operation_MergeFrom from m) = AOperation_merge (Operation_abs from) (Operation_abs m)"
    using assms by (cases "Operation_abs m") (simp add: Let_def u k steps AOperation_merge_def)
qed

lemmas Operation_MergeFrom_ok = Operation_MergeFrom_step(1)
lemmas Operation_MergeFrom_abs = Operation_MergeFrom_step(2)

lemma Operation_merge_empty [simp]:
  "AOperation_merge a AOperation_empty = a"
  by (simp add: AOperation_merge_def AOperation_empty_def merged_empty OperationData_merge_empty)

lemma Operation_CopyFrom_ok:
  "Operation_ok m \<Longrightarrow> Operation_ok from \<Longrightarrow> Operation_ok (Operation_CopyFrom from m)"
  by (simp add: Operation_CopyFrom_def Operation_MergeFrom_ok Operation_Clear_ok)

lemma Operation_CopyFrom_abs:
  "Operation_ok m \<Longrightarrow> Operation_ok from \<Longrightarrow> Operation_abs (Operation_CopyFrom from m) = Operation_abs from"
  by (simp add: Operation_CopyFrom_def Operation_MergeFrom_abs Operation_Clear_ok Operation_Clear_abs)

lemma Operation_IsInitialized_abs:
  assumes "Operation_ok m"
  shows "Operation_IsInitialized m \<longleftrightarrow> AOperation_initialized (Operation_abs m)"
proof -
  have "all_opt AOperationData_initialized (shown b (OperationData_abs t)) \<longleftrightarrow> b \<longrightarrow> OperationData_IsInitialized t" if "OperationData_ok t" for b t
    using that by (simp add: shown_def OperationData_IsInitialized_abs)
  with Operation_children_ok [OF assms] show ?thesis
    by (simp add: Operation_IsInitialized_def AOperation_initialized_def Operation_abs_def Operation_presence hasbits) blast
qed

lemma Operation_Swap_exchanges:
  "Operation_Swap m other = (other, m)"
  by (simp add: Operation_Swap_def)

subsection \<open>ByteSize and SerializeWithCachedSizesToArray\<close>

lemma Operation_write_fields:
  "Operation_write_serial_number m t = t @ enc_opt (\<lambda>v. enc_tag 1 WIRETYPE_VARINT @ enc_uint32 v) (AOperation_serial_number (Operation_abs m))"
  by (simp_all add: Operation_write_serial_number_def Operation_abs_def wire shown_def)

lemma Operation_unknown_abs:
  "AOperation_unknown (Operation_abs m) = Operation_unknown m"
  by (simp add: Operation_abs_def)

lemma Operation_size_absent:
  "\<not> Operation_has_serial_number (snd s) \<Longrightarrow> Operation_size_serial_number s = s"
  "\<not> Operation_has_data (snd s) \<Longrightarrow> Operation_size_data s = s"
  by (simp_all add: Operation_size_serial_number_def Operation_size_data_def case_prod_beta)

lemma Operation_size_has_bits:
  "Operation_has_bits (snd (Operation_size_serial_number s)) = Operation_has_bits (snd s)"
  "Operation_has_bits (snd (Operation_size_data s)) = Operation_has_bits (snd s)"
  by (simp_all add: Operation_size_serial_number_def Operation_size_data_def case_prod_beta Let_def split: option.split)

lemma Operation_size_fields:
  "Operation_size_serial_number (n, m) = (n + length (enc_opt (\<lambda>v. enc_tag 1 WIRETYPE_VARINT @ enc_uint32 v) (AOperation_serial_number (Operation_abs m))), m)"
  by (simp_all add: Operation_size_serial_number_def Operation_abs_def shown_def
      length_enc_int32 length_enc_uint32 length_enc_enum length_enc_bytes)

lemma Operation_size_skip:
  "Operation_has_bits (snd s) AND 0xFF = 0 \<Longrightarrow>
     Operation_size_data (Operation_size_serial_number s) = s"
  by (simp_all add: Operation_size_absent Operation_presence hasbits)

lemma Operation_field_sizes_steps:
  "Operation_field_sizes m =
     Operation_size_data 
       (Operation_size_serial_number (0, m))"
  by (cases "Operation_has_bits m AND 0xFF = 0")
    (simp_all add: Operation_field_sizes_def Let_def Operation_size_skip Operation_size_has_bits)

definition Operation_resize_data :: "Operation \<Rightarrow> Operation" where
  "Operation_resize_data m =
     m\<lparr>Operation_data_fld := if Operation_has_data m then map_option (\<lambda>p. snd (OperationData_ByteSize p)) (Operation_data_fld m) else Operation_data_fld m\<rparr>"

lemma Operation_resize_fields [simp]:
  "Operation_data_fld (Operation_resize_data m) = (if Operation_has_data m then map_option (\<lambda>p. snd (OperationData_ByteSize p)) (Operation_data_fld m) else Operation_data_fld m)"
  "Operation_has_bits (Operation_resize_data m) = Operation_has_bits m"
  "Operation_unknown (Operation_resize_data m) = Operation_unknown m"
  by (simp_all add: Operation_resize_data_def)

lemma Operation_size_messages:
  "Operation_ok m \<Longrightarrow> Operation_size_data (n, m) =
     (n + length (enc_opt (\<lambda>v. enc_tag 2 WIRETYPE_LENGTH_DELIMITED @ enc_bytes (AOperationData_encode v)) (AOperation_data (Operation_abs m))), Operation_resize_data m)"
  by (auto simp: Operation_size_data_def Operation_resize_data_def Operation_ok_def pointer_ok_def Operation_abs_def Operation_data_def MessageSizeNoVirtual_def
      OperationData_ByteSize_fst length_enc_bytes(2) [symmetric] BytesSize_def case_prod_beta split: option.splits)

text \<open>Computing the sizes of the embedded messages changes nothing visible.\<close>

lemma Operation_OperationData_pointer_resize [simp]:
  "pointer_ok OperationData_ok OperationData_abs d has p \<Longrightarrow>
     pointer_ok OperationData_ok OperationData_abs d has (if has then map_option (\<lambda>p. snd (OperationData_ByteSize p)) p else p)"
  "pointer_ok OperationData_ok OperationData_abs d has p \<Longrightarrow>
     shown has (OperationData_abs (deref_pointer OperationData_default (if has then map_option (\<lambda>p. snd (OperationData_ByteSize p)) p else p))) =
       shown has (OperationData_abs (deref_pointer OperationData_default p))"
  "pointer_ok OperationData_ok OperationData_abs d has p \<Longrightarrow> has \<Longrightarrow> OperationData_sized (deref_pointer OperationData_default (map_option (\<lambda>p. snd (OperationData_ByteSize p)) p))"
  by (cases p; auto simp: pointer_ok_def shown_def OperationData_ByteSize_snd)+

lemma Operation_resize_data_ok [simp]:
  "Operation_ok m \<Longrightarrow> Operation_ok (Operation_resize_data m)"
  "Operation_ok m \<Longrightarrow> Operation_abs (Operation_resize_data m) = Operation_abs m"
  using Operation_OperationData_pointer_resize(1,2) [of AOperationData_empty "Operation_has_data m" "Operation_data_fld m"]
  by (simp_all add: Operation_ok_def Operation_abs_def Operation_resize_data_def  Operation_presence Operation_accessors)

lemma Operation_ByteSize_eq:
  "Operation_ok m \<Longrightarrow> Operation_ByteSize m =
     (length (AOperation_encode (Operation_abs m)),
      (Operation_resize_data m)\<lparr>Operation_cached_size := length (AOperation_encode (Operation_abs m))\<rparr>)"
  by (simp add: Operation_ByteSize_def Operation_field_sizes_steps unknown_size Let_def Operation_size_fields Operation_size_messages ComputeUnknown_length AOperation_encode_def add.assoc add.left_commute add.commute Operation_unknown_abs)

lemma Operation_ByteSize_fst:
  "Operation_ok m \<Longrightarrow> fst (Operation_ByteSize m) = length (AOperation_encode (Operation_abs m))"
  by (simp add: Operation_ByteSize_eq)

lemma Operation_cached_simps [simp]:
  "Operation_ok (m\<lparr>Operation_cached_size := c\<rparr>) = Operation_ok m" "Operation_abs (m\<lparr>Operation_cached_size := c\<rparr>) = Operation_abs m"
  by (simp_all add: Operation_ok_def Operation_abs_def Operation_accessors Operation_presence)

lemma Operation_ByteSize_snd:
  "Operation_ok m \<Longrightarrow> Operation_ok (snd (Operation_ByteSize m)) \<and> Operation_abs (snd (Operation_ByteSize m)) = Operation_abs m \<and> Operation_sized (snd (Operation_ByteSize m))"
  by (simp add: Operation_ByteSize_eq Operation_sized_def, simp add: Operation_ok_def Operation_data_def Operation_presence hasbits,
      blast intro: Operation_OperationData_pointer_resize(3))

lemma Operation_write_messages:
  "Operation_ok m \<Longrightarrow> Operation_sized m \<Longrightarrow> Operation_write_data m t = t @ enc_opt (\<lambda>v. enc_tag 2 WIRETYPE_LENGTH_DELIMITED @ enc_bytes (AOperationData_encode v)) (AOperation_data (Operation_abs m))"
  by (simp_all add: Operation_write_data_def Operation_abs_def Operation_sized_def shown_def WriteMessageNoVirtualToArray_def wire enc_bytes_def
      OperationData_SerializeWithCachedSizesToArray_eq OperationData_sized_def Operation_children_ok)

lemma Operation_SerializeWithCachedSizesToArray_eq:
  "Operation_ok m \<Longrightarrow> Operation_sized m \<Longrightarrow>
     Operation_SerializeWithCachedSizesToArray m t = t @ AOperation_encode (Operation_abs m)"
  by (simp add: Operation_SerializeWithCachedSizesToArray_def Let_def Operation_write_fields Operation_write_messages AOperation_encode_def Operation_unknown_abs
      unknown_serialize)

text \<open>The message is an element of a repeated field: it satisfies the contract of the container.\<close>

interpretation operation_th: type_handler Operation_default Operation_Clear Operation_MergeFrom Operation_ok Operation_abs
  by unfold_locales (simp_all add: Operation_Clear_ok Operation_Clear_abs Operation_MergeFrom_ok Operation_MergeFrom_abs)

end
