(* ===== verification/Pb_Operations.thy ===== *)
theory Pb_Operations
  imports Pb_Operation
begin

text \<open>
  The generated message \<^verbatim>\<open>Operations\<close>
  of \<^verbatim>\<open>message.pb.h\<close> and \<^verbatim>\<open>message.pb.cc\<close>.
\<close>

section \<open>The message \<^verbatim>\<open>Operations\<close>\<close>

subsection \<open>Data\<close>

record Operations =
  Operations_operation_avaliable_fld :: int32
  Operations_operations_fld :: "Operation repeated_ptr"
  Operations_unknown :: unknown_field_set
  Operations_cached_size :: nat
  Operations_has_bits :: uint32

definition Operations_default :: Operations where
  "Operations_default =
     \<lparr>Operations_operation_avaliable_fld = 1,
      Operations_operations_fld = Rep_empty,
      Operations_unknown = [],
      Operations_cached_size = 0,
      Operations_has_bits = 0\<rparr>"

subsection \<open>Accessors\<close>

definition Operations_has_operation_avaliable :: "Operations \<Rightarrow> bool" where
  "Operations_has_operation_avaliable m \<longleftrightarrow> Operations_has_bits m AND 1 \<noteq> 0"

definition Operations_set_has_operation_avaliable :: "Operations \<Rightarrow> Operations" where
  "Operations_set_has_operation_avaliable m = m\<lparr>Operations_has_bits := Operations_has_bits m OR 1\<rparr>"

definition Operations_clear_has_operation_avaliable :: "Operations \<Rightarrow> Operations" where
  "Operations_clear_has_operation_avaliable m = m\<lparr>Operations_has_bits := Operations_has_bits m AND NOT 1\<rparr>"

definition Operations_clear_operation_avaliable :: "Operations \<Rightarrow> Operations" where
  "Operations_clear_operation_avaliable m = Operations_clear_has_operation_avaliable (m\<lparr>Operations_operation_avaliable_fld := 1\<rparr>)"

definition Operations_operation_avaliable :: "Operations \<Rightarrow> int32" where
  "Operations_operation_avaliable m = Operations_operation_avaliable_fld m"

definition Operations_set_operation_avaliable :: "int32 \<Rightarrow> Operations \<Rightarrow> Operations" where
  "Operations_set_operation_avaliable value m = (Operations_set_has_operation_avaliable m)\<lparr>Operations_operation_avaliable_fld := value\<rparr>"

definition Operations_operations_size :: "Operations \<Rightarrow> nat" where
  "Operations_operations_size m = Rep_size (Operations_operations_fld m)"

definition Operations_clear_operations :: "Operations \<Rightarrow> Operations" where
  "Operations_clear_operations m = m\<lparr>Operations_operations_fld := Rep_Clear Operation_Clear (Operations_operations_fld m)\<rparr>"

definition Operations_operations :: "int \<Rightarrow> Operations \<Rightarrow> Operation option" where
  "Operations_operations index m = Rep_Get (Operations_operations_fld m) index"

definition Operations_mutable_operations :: "(Operation \<Rightarrow> Operation) \<Rightarrow> int \<Rightarrow> Operations \<Rightarrow> Operations option" where
  "Operations_mutable_operations f index m =
     map_option (\<lambda>r. m\<lparr>Operations_operations_fld := r\<rparr>) (Rep_Mutable f index (Operations_operations_fld m))"

definition Operations_add_operations :: "(Operation \<Rightarrow> Operation) \<Rightarrow> Operations \<Rightarrow> Operations" where
  "Operations_add_operations f m = m\<lparr>Operations_operations_fld := Rep_Add Operation_default f (Operations_operations_fld m)\<rparr>"

lemmas Operations_presence = Operations_has_operation_avaliable_def
    Operations_set_has_operation_avaliable_def Operations_clear_has_operation_avaliable_def

lemmas Operations_accessors = Operations_clear_operation_avaliable_def Operations_operation_avaliable_def
    Operations_set_operation_avaliable_def Operations_operations_size_def Operations_clear_operations_def
    Operations_operations_def Operations_mutable_operations_def Operations_add_operations_def

subsection \<open>Operations on whole messages\<close>

definition Operations_Clear :: "Operations \<Rightarrow> Operations" where
  "Operations_Clear m =
     (let m = (if Operations_has_bits m AND 0xFF \<noteq> 0
           then m\<lparr>Operations_operation_avaliable_fld := 1\<rparr>
           else m);
          m = m\<lparr>Operations_operations_fld := Rep_Clear Operation_Clear (Operations_operations_fld m)\<rparr>
      in m\<lparr>Operations_has_bits := 0, Operations_unknown := Unknown_Clear (Operations_unknown m)\<rparr>)"

definition Operations_merge_operation_avaliable :: "Operations \<Rightarrow> Operations \<Rightarrow> Operations" where
  "Operations_merge_operation_avaliable from m = (if Operations_has_operation_avaliable from then Operations_set_operation_avaliable (Operations_operation_avaliable from) m else m)"

definition Operations_MergeFrom :: "Operations \<Rightarrow> Operations \<Rightarrow> Operations" where
  "Operations_MergeFrom from m =
     (let m = m\<lparr>Operations_operations_fld := Rep_MergeFrom Operation_default Operation_MergeFrom (Operations_operations_fld from) (Operations_operations_fld m)\<rparr>;
          m = (if Operations_has_bits from AND 0xFF \<noteq> 0 then
             let m = Operations_merge_operation_avaliable from m
             in m
           else m)
      in m\<lparr>Operations_unknown := Unknown_MergeFrom (Operations_unknown m) (Operations_unknown from)\<rparr>)"

definition Operations_CopyFrom :: "Operations \<Rightarrow> Operations \<Rightarrow> Operations" where
  "Operations_CopyFrom from m = Operations_MergeFrom from (Operations_Clear m)"

definition Operations_IsInitialized :: "Operations \<Rightarrow> bool" where
  "Operations_IsInitialized m \<longleftrightarrow>
     (if Operations_has_bits m AND 1 \<noteq> 1 then False
      else if \<not> list_all Operation_IsInitialized (Rep_contents (Operations_operations_fld m)) then False
      else True)"

definition Operations_Swap :: "Operations \<Rightarrow> Operations \<Rightarrow> Operations \<times> Operations" where
  "Operations_Swap m other =
     (m\<lparr>Operations_operation_avaliable_fld := Operations_operation_avaliable_fld other,
        Operations_operations_fld := fst (Rep_Swap (Operations_operations_fld m) (Operations_operations_fld other)),
        Operations_has_bits := Operations_has_bits other,
        Operations_unknown := Operations_unknown other,
        Operations_cached_size := Operations_cached_size other\<rparr>,
      other\<lparr>Operations_operation_avaliable_fld := Operations_operation_avaliable_fld m,
        Operations_operations_fld := snd (Rep_Swap (Operations_operations_fld m) (Operations_operations_fld other)),
        Operations_has_bits := Operations_has_bits m,
        Operations_unknown := Operations_unknown m,
        Operations_cached_size := Operations_cached_size m\<rparr>)"

definition Operations_size_operation_avaliable :: "nat \<times> Operations \<Rightarrow> nat \<times> Operations" where
  "Operations_size_operation_avaliable = (\<lambda>(total, m). (if Operations_has_operation_avaliable m then (total + (1 + EnumSize (Operations_operation_avaliable m)), m) else (total, m)))"

definition Operations_size_operations :: "nat \<times> Operations \<Rightarrow> nat \<times> Operations" where
  "Operations_size_operations = (\<lambda>(total, m).
     let total = total + 1 * Operations_operations_size m;
         sized = map (MessageSizeNoVirtual Operation_ByteSize) (Rep_contents (Operations_operations_fld m))
     in (total + sum_list (map fst sized),
         m\<lparr>Operations_operations_fld := (Operations_operations_fld m)\<lparr>elements := map snd sized @ drop (Rep_size (Operations_operations_fld m)) (elements (Operations_operations_fld m))\<rparr>\<rparr>))"

definition Operations_field_sizes :: "Operations \<Rightarrow> nat \<times> Operations" where
  "Operations_field_sizes m =
     (let s = (0, m);
          s = (if Operations_has_bits m AND 0xFF \<noteq> 0 then
             let s = Operations_size_operation_avaliable s
             in s
           else s);
          s = Operations_size_operations s
      in s)"

definition Operations_ByteSize :: "Operations \<Rightarrow> nat \<times> Operations" where
  "Operations_ByteSize m =
     (let (total, m) = Operations_field_sizes m;
          total = (if Operations_unknown m \<noteq> [] then total + ComputeUnknownFieldsSize (Operations_unknown m) else total)
      in (total, m\<lparr>Operations_cached_size := total\<rparr>))"

definition Operations_write_operation_avaliable :: "Operations \<Rightarrow> bytes \<Rightarrow> bytes" where
  "Operations_write_operation_avaliable m target =
     (if Operations_has_operation_avaliable m then WriteEnumToArray 1 (Operations_operation_avaliable m) target else target)"

definition Operations_write_operations :: "Operations \<Rightarrow> bytes \<Rightarrow> bytes" where
  "Operations_write_operations m target =
     fold (WriteMessageNoVirtualToArray Operation_cached_size Operation_SerializeWithCachedSizesToArray 2)
       (Rep_contents (Operations_operations_fld m)) target"

definition Operations_SerializeWithCachedSizesToArray :: "Operations \<Rightarrow> bytes \<Rightarrow> bytes" where
  "Operations_SerializeWithCachedSizesToArray m target =
     (let target = Operations_write_operation_avaliable m target;
          target = Operations_write_operations m target
      in if Operations_unknown m \<noteq> [] then SerializeUnknownFieldsToArray (Operations_unknown m) target else target)"

subsection \<open>The abstract message\<close>

record AOperations =
  AOperations_operation_avaliable :: "int32 option"
  AOperations_operations :: "AOperation list"
  AOperations_unknown :: unknown_field_set

definition AOperations_empty :: AOperations where
  "AOperations_empty = \<lparr>AOperations_operation_avaliable = None,
     AOperations_operations = [],
     AOperations_unknown = []\<rparr>"

definition Operations_abs :: "Operations \<Rightarrow> AOperations" where
  "Operations_abs m = \<lparr>AOperations_operation_avaliable = shown (Operations_has_operation_avaliable m) (Operations_operation_avaliable m),
     AOperations_operations = map Operation_abs (Rep_contents (Operations_operations_fld m)),
     AOperations_unknown = Operations_unknown m\<rparr>"

definition Operations_ok :: "Operations \<Rightarrow> bool" where
  "Operations_ok m \<longleftrightarrow>
     scalar_ok (Operations_has_operation_avaliable m) 1 (Operations_operation_avaliable_fld m) \<and>
     operation_th.good (Operations_operations_fld m)"

definition AOperations_merge :: "AOperations \<Rightarrow> AOperations \<Rightarrow> AOperations" where
  "AOperations_merge from to = \<lparr>AOperations_operation_avaliable = or_else (AOperations_operation_avaliable from) (AOperations_operation_avaliable to),
     AOperations_operations = AOperations_operations to @ AOperations_operations from,
     AOperations_unknown = AOperations_unknown to @ AOperations_unknown from\<rparr>"

definition AOperations_initialized :: "AOperations \<Rightarrow> bool" where
  "AOperations_initialized a \<longleftrightarrow>
     AOperations_operation_avaliable a \<noteq> None \<and>
     list_all AOperation_initialized (AOperations_operations a)"

definition AOperations_encode :: "AOperations \<Rightarrow> bytes" where
  "AOperations_encode a =
     enc_opt (\<lambda>v. enc_tag 1 WIRETYPE_VARINT @ enc_int32 v) (AOperations_operation_avaliable a) @
     concat (map (\<lambda>v. enc_tag 2 WIRETYPE_LENGTH_DELIMITED @ enc_bytes (AOperation_encode v)) (AOperations_operations a)) @
     SerializeUnknownFieldsToArray (AOperations_unknown a) []"

definition Operations_sized :: "Operations \<Rightarrow> bool" where
  "Operations_sized m \<longleftrightarrow>
     Operations_cached_size m = length (AOperations_encode (Operations_abs m)) \<and>
     list_all Operation_sized (Rep_contents (Operations_operations_fld m))"

subsection \<open>Accessors on the abstract message\<close>

lemma Operations_abs_default [simp]:
  "Operations_abs Operations_default = AOperations_empty"
  by (simp add: Operations_abs_def Operations_default_def AOperations_empty_def Operations_accessors Operations_presence)

lemma Operations_ok_default [simp]:
  "Operations_ok Operations_default"
  by (simp add: Operations_ok_def Operations_default_def field_ok Operations_presence operation_th.good_empty)

lemma Operations_abs_accessors [simp]:
  "Operations_abs (Operations_set_operation_avaliable v m) = (Operations_abs m)\<lparr>AOperations_operation_avaliable := Some v\<rparr>"
  "Operations_abs (Operations_clear_operation_avaliable m) = (Operations_abs m)\<lparr>AOperations_operation_avaliable := None\<rparr>"
  by (simp_all add: Operations_abs_def Operations_accessors Operations_presence hasbits Let_def)

lemma Operations_ok_accessors [simp]:
  "Operations_ok m \<Longrightarrow> Operations_ok (Operations_set_operation_avaliable v m)"
  "Operations_ok m \<Longrightarrow> Operations_ok (Operations_clear_operation_avaliable m)"
  by (simp_all add: Operations_ok_def Let_def Operations_accessors Operations_presence hasbits)

lemma Operations_getters:
  "Operations_ok m \<Longrightarrow> Operations_operation_avaliable m = value_or 1 (AOperations_operation_avaliable (Operations_abs m))"
  by (simp_all add: Operations_ok_def Operations_abs_def Operations_accessors)

subsection \<open>Clear, MergeFrom, CopyFrom, IsInitialized, Swap\<close>

lemma Operations_Clear_ok:
  "Operations_ok m \<Longrightarrow> Operations_ok (Operations_Clear m)"
  by (cases "Operations_has_bits m AND 0xFF = 0")
    (simp_all add: Operations_ok_def Operations_Clear_def Let_def Operations_presence hasbits operation_th.good_Clear)

lemma Operations_Clear_abs:
  "Operations_abs (Operations_Clear m) = AOperations_empty"
  by (simp add: Operations_abs_def AOperations_empty_def Operations_Clear_def Unknown_Clear_def Let_def Operations_presence hasbits)

lemma Operations_merge_absent:
  "\<not> Operations_has_operation_avaliable from \<Longrightarrow> Operations_merge_operation_avaliable from m = m"
  by (simp_all add: Operations_merge_operation_avaliable_def)

lemma Operations_abs_merge_fields:
  "Operations_abs (Operations_merge_operation_avaliable from m) = AOperations_operation_avaliable_update (or_else (AOperations_operation_avaliable (Operations_abs from))) (Operations_abs m)"
  by (simp_all add: Operations_merge_operation_avaliable_def Operations_abs_def shown_def Operations_accessors Operations_presence hasbits)

lemma Operations_ok_merge_fields:
  "Operations_ok m \<Longrightarrow> Operations_ok (Operations_merge_operation_avaliable from m)"
  by (simp_all add: Operations_merge_operation_avaliable_def)

text \<open>The tests of whole bytes of presence bits only save work.\<close>

lemma Operations_MergeFrom_steps:
  "Operations_MergeFrom from m =
     (let m = m\<lparr>Operations_operations_fld := Rep_MergeFrom Operation_default Operation_MergeFrom (Operations_operations_fld from) (Operations_operations_fld m)\<rparr>;
          m = Operations_merge_operation_avaliable from m
      in m\<lparr>Operations_unknown := Operations_unknown m @ Operations_unknown from\<rparr>)"
  by (cases "Operations_has_bits from AND 0xFF = 0")
    (simp_all add: Operations_MergeFrom_def Let_def Unknown_MergeFrom_append Operations_merge_absent Operations_presence hasbits)

lemma Operations_Swap_exchanges:
  "Operations_Swap m other = (other, m)"
  by (simp add: Operations_Swap_def Rep_Swap_def)

lemma Operations_views:
  "AOperations_operations (Operations_abs m) = operation_th.views (Operations_operations_fld m)"
  by (simp add: Operations_abs_def operation_th.views_def)

lemma Operations_good:
  "Operations_ok m \<Longrightarrow> operation_th.good (Operations_operations_fld m)"
  by (simp add: Operations_ok_def)

lemma Operations_contents_ok:
  "Operations_ok m \<Longrightarrow> list_all Operation_ok (Rep_contents (Operations_operations_fld m))"
  by (rule operation_th.good_contents [OF Operations_good])

lemma Operations_operations_abs:
  "Operations_ok m \<Longrightarrow> Operations_operations_size m = length (AOperations_operations (Operations_abs m))"
  "Operations_ok m \<Longrightarrow> i < Operations_operations_size m \<Longrightarrow>
     \<exists>t. Operations_operations (int i) m = Some t \<and> Operation_ok t \<and> Operation_abs t = AOperations_operations (Operations_abs m) ! i"
  using Operations_contents_ok [of m] Get_contents [of "Operations_operations_fld m" "int i"]
  by (simp_all add: Operations_ok_def operation_th.good_def Operations_abs_def Operations_accessors list_all_length)

lemma Operations_add_operations_abs:
  assumes "Operations_ok m" and f: "\<And>t. Operation_ok t \<Longrightarrow> Operation_abs t = AOperation_empty \<Longrightarrow> Operation_ok (f t) \<and> Operation_abs (f t) = v"
  shows "Operations_ok (Operations_add_operations f m)"
    and "Operations_abs (Operations_add_operations f m) = (Operations_abs m)\<lparr>AOperations_operations := AOperations_operations (Operations_abs m) @ [v]\<rparr>"
proof -
  have "operation_th.good (Rep_Add Operation_default f (Operations_operations_fld m)) \<and>
      operation_th.views (Rep_Add Operation_default f (Operations_operations_fld m)) = operation_th.views (Operations_operations_fld m) @ [v]"
    by (rule operation_th.views_Add [OF Operations_good [OF assms(1)]]) (simp add: f)
  then show "Operations_ok (Operations_add_operations f m)"
    and "Operations_abs (Operations_add_operations f m) = (Operations_abs m)\<lparr>AOperations_operations := AOperations_operations (Operations_abs m) @ [v]\<rparr>"
    using assms(1) by (simp_all add: Operations_ok_def Operations_abs_def Operations_add_operations_def operation_th.views_def Operations_presence Operations_operation_avaliable_def)
qed

lemma Operations_MergeFrom_step:
  assumes "Operations_ok m" "Operations_ok from"
  shows "Operations_ok (Operations_MergeFrom from m)"
    and "Operations_abs (Operations_MergeFrom from m) = AOperations_merge (Operations_abs from) (Operations_abs m)"
proof -
  note r = operation_th.views_MergeFrom [OF Operations_good [OF assms(1)] Operations_good [OF assms(2)]]
  show "Operations_ok (Operations_MergeFrom from m)"
    and "Operations_abs (Operations_MergeFrom from m) = AOperations_merge (Operations_abs from) (Operations_abs m)"
    using assms r by (auto simp: Operations_MergeFrom_steps Let_def Operations_ok_def Operations_abs_def AOperations_merge_def Operations_merge_operation_avaliable_def Operations_presence Operations_accessors
        shown_def hasbits operation_th.views_def)
qed

lemmas Operations_MergeFrom_ok = Operations_MergeFrom_step(1)
lemmas Operations_MergeFrom_abs = Operations_MergeFrom_step(2)

lemma Operations_CopyFrom_ok:
  "Operations_ok m \<Longrightarrow> Operations_ok from \<Longrightarrow> Operations_ok (Operations_CopyFrom from m)"
  by (simp add: Operations_CopyFrom_def Operations_MergeFrom_ok Operations_Clear_ok)

lemma Operations_CopyFrom_abs:
  "Operations_ok m \<Longrightarrow> Operations_ok from \<Longrightarrow> Operations_abs (Operations_CopyFrom from m) = Operations_abs from"
  by (simp add: Operations_CopyFrom_def Operations_MergeFrom_abs Operations_Clear_ok Operations_Clear_abs AOperations_merge_def AOperations_empty_def)

lemma Operations_IsInitialized_abs:
  "Operations_ok m \<Longrightarrow> Operations_IsInitialized m \<longleftrightarrow> AOperations_initialized (Operations_abs m)"
  using Operations_contents_ok [of m]
  by (auto simp: Operations_IsInitialized_def AOperations_initialized_def Operations_abs_def Operations_presence hasbits list_all_iff Operation_IsInitialized_abs)

subsection \<open>ByteSize and SerializeWithCachedSizesToArray\<close>

lemma Operations_unknown_abs:
  "AOperations_unknown (Operations_abs m) = Operations_unknown m"
  by (simp add: Operations_abs_def)

lemma Operations_write_fields:
  "Operations_write_operation_avaliable m t = t @ enc_opt (\<lambda>v. enc_tag 1 WIRETYPE_VARINT @ enc_int32 v) (AOperations_operation_avaliable (Operations_abs m))"
  by (simp_all add: Operations_write_operation_avaliable_def Operations_abs_def wire shown_def)

lemma Operations_size_fields:
  "Operations_size_operation_avaliable (n, m) = (n + length (enc_opt (\<lambda>v. enc_tag 1 WIRETYPE_VARINT @ enc_int32 v) (AOperations_operation_avaliable (Operations_abs m))), m)"
  by (simp_all add: Operations_size_operation_avaliable_def Operations_abs_def shown_def length_enc_enum)

definition Operations_resize :: "Operations \<Rightarrow> Operations" where
  "Operations_resize m = m\<lparr>Operations_operations_fld := (Operations_operations_fld m)\<lparr>elements :=
     map (\<lambda>t. snd (Operation_ByteSize t)) (Rep_contents (Operations_operations_fld m)) @ drop (Rep_size (Operations_operations_fld m)) (elements (Operations_operations_fld m))\<rparr>\<rparr>"

lemma Operations_size_operations_eq:
  assumes "Operations_ok m"
  shows "Operations_size_operations (n, m) = (n + length (concat (map (\<lambda>v. enc_tag 2 WIRETYPE_LENGTH_DELIMITED @ enc_bytes (AOperation_encode v)) (AOperations_operations (Operations_abs m)))), Operations_resize m)"
proof -
  have "length ts + sum_list (map (fst \<circ> MessageSizeNoVirtual Operation_ByteSize) ts) =
      length (concat (map (\<lambda>v. enc_tag 2 WIRETYPE_LENGTH_DELIMITED @ enc_bytes (AOperation_encode v)) (map Operation_abs ts)))"
    if "list_all Operation_ok ts" for ts
    using that by (induction ts) (auto simp: MessageSizeNoVirtual_def case_prod_beta Operation_ByteSize_fst
        length_enc_bytes(2) [symmetric] BytesSize_def)
  from this [OF Operations_contents_ok [OF assms]] assms show ?thesis
    by (simp add: Operations_size_operations_def Operations_resize_def Operations_abs_def Operations_operations_size_def Let_def comp_def MessageSizeNoVirtual_def
        case_prod_beta Operations_ok_def operation_th.good_def)
qed

lemma Operations_resize_good:
  assumes "Operations_ok m"
  shows "Operations_ok (Operations_resize m)" "Operations_abs (Operations_resize m) = Operations_abs m"
    "list_all Operation_sized (Rep_contents (Operations_operations_fld (Operations_resize m)))"
proof -
  have g: "operation_th.good (Operations_operations_fld m)" "rep_ok (Operations_operations_fld m)" "list_all Operation_ok (Rep_contents (Operations_operations_fld m))"
    using assms Operations_contents_ok [of m] by (simp_all add: Operations_ok_def operation_th.good_def)
  then have c: "Rep_contents (Operations_operations_fld (Operations_resize m)) = map (\<lambda>t. snd (Operation_ByteSize t)) (Rep_contents (Operations_operations_fld m))"
    by (simp add: Operations_resize_def rep_defs Rep_size_def)
  have s: "Operation_ok (snd (Operation_ByteSize t)) \<and> Operation_abs (snd (Operation_ByteSize t)) = Operation_abs t \<and> Operation_sized (snd (Operation_ByteSize t))"
    if "t \<in> set (Rep_contents (Operations_operations_fld m))" for t
    using g(3) that Operation_ByteSize_snd by (auto simp: list_all_iff)
  have "operation_th.good (Operations_operations_fld (Operations_resize m))"
    using g s by (auto simp: operation_th.good_def Operations_resize_def rep_defs Rep_size_def list_all_iff dest: in_set_dropD)
  with assms show "Operations_ok (Operations_resize m)"
    by (simp add: Operations_ok_def Operations_resize_def Operations_presence)
  show "Operations_abs (Operations_resize m) = Operations_abs m"
    using s by (simp add: Operations_abs_def c) (simp add: Operations_resize_def Operations_presence Operations_accessors)
  show "list_all Operation_sized (Rep_contents (Operations_operations_fld (Operations_resize m)))"
    using s by (auto simp: c list_all_iff)
qed

lemma Operations_cached_simps [simp]:
  "Operations_ok (m\<lparr>Operations_cached_size := c\<rparr>) = Operations_ok m"
  "Operations_abs (m\<lparr>Operations_cached_size := c\<rparr>) = Operations_abs m"
  by (simp_all add: Operations_ok_def Operations_abs_def Operations_accessors Operations_presence)

lemma Operations_field_sizes_steps:
  "Operations_field_sizes m = Operations_size_operations (Operations_size_operation_avaliable (0, m))"
  by (cases "Operations_has_bits m AND 0xFF = 0") (simp_all add: Operations_field_sizes_def Operations_size_operation_avaliable_def Operations_presence hasbits)

lemma Operations_ByteSize_eq:
  "Operations_ok m \<Longrightarrow> Operations_ByteSize m =
     (length (AOperations_encode (Operations_abs m)),
      (Operations_resize m)\<lparr>Operations_cached_size := length (AOperations_encode (Operations_abs m))\<rparr>)"
  by (simp add: Operations_ByteSize_def Operations_field_sizes_steps unknown_size Let_def Operations_size_fields Operations_size_operations_eq ComputeUnknown_length AOperations_encode_def Operations_resize_def Operations_unknown_abs)

lemma Operations_ByteSize_fst:
  "Operations_ok m \<Longrightarrow> fst (Operations_ByteSize m) = length (AOperations_encode (Operations_abs m))"
  by (simp add: Operations_ByteSize_eq)

lemma Operations_ByteSize_snd:
  "Operations_ok m \<Longrightarrow> Operations_ok (snd (Operations_ByteSize m)) \<and> Operations_abs (snd (Operations_ByteSize m)) = Operations_abs m \<and> Operations_sized (snd (Operations_ByteSize m))"
  by (simp add: Operations_ByteSize_eq Operations_resize_good Operations_sized_def)

lemma Operations_write_operations_eq:
  assumes "Operations_ok m" "Operations_sized m"
  shows "Operations_write_operations m t = t @ concat (map (\<lambda>v. enc_tag 2 WIRETYPE_LENGTH_DELIMITED @ enc_bytes (AOperation_encode v)) (AOperations_operations (Operations_abs m)))"
proof -
  have "fold (WriteMessageNoVirtualToArray Operation_cached_size Operation_SerializeWithCachedSizesToArray 2) ts t =
      t @ concat (map (\<lambda>v. enc_tag 2 WIRETYPE_LENGTH_DELIMITED @ enc_bytes (AOperation_encode v)) (map Operation_abs ts))"
    if "list_all Operation_ok ts" "list_all Operation_sized ts" for ts t
    using that by (induction ts arbitrary: t) (auto simp: WriteMessageNoVirtualToArray_def wire enc_bytes_def
        Operation_SerializeWithCachedSizesToArray_eq Operation_sized_def)
  with Operations_contents_ok [OF assms(1)] assms(2) show ?thesis
    by (simp add: Operations_write_operations_def Operations_sized_def Operations_abs_def)
qed

lemma Operations_SerializeWithCachedSizesToArray_eq:
  "Operations_ok m \<Longrightarrow> Operations_sized m \<Longrightarrow>
     Operations_SerializeWithCachedSizesToArray m t = t @ AOperations_encode (Operations_abs m)"
  by (simp add: Operations_SerializeWithCachedSizesToArray_def Let_def Operations_write_fields Operations_write_operations_eq AOperations_encode_def Operations_unknown_abs
      unknown_serialize)

end
