(* ===== verification/Pb_Document.thy ===== *)
theory Pb_Document
  imports Has_Bits
begin

text \<open>
  The generated messages \<^verbatim>\<open>Document\<close> and \<^verbatim>\<open>DocumentList\<close>
  of \<^verbatim>\<open>message.pb.h\<close> and \<^verbatim>\<open>message.pb.cc\<close>.
\<close>

section \<open>The message \<^verbatim>\<open>Document\<close>\<close>

subsection \<open>Data\<close>

record Document =
  Document_serial_number_fld :: uint32
  Document_data_fld :: pb_string
  Document_user_name_fld :: pb_string
  Document_unknown :: unknown_field_set
  Document_cached_size :: nat
  Document_has_bits :: uint32

definition Document_default :: Document where
  "Document_default =
     \<lparr>Document_serial_number_fld = 0,
      Document_data_fld = None,
      Document_user_name_fld = None,
      Document_unknown = [],
      Document_cached_size = 0,
      Document_has_bits = 0\<rparr>"

subsection \<open>Accessors\<close>

definition Document_has_serial_number :: "Document \<Rightarrow> bool" where
  "Document_has_serial_number m \<longleftrightarrow> Document_has_bits m AND 1 \<noteq> 0"

definition Document_set_has_serial_number :: "Document \<Rightarrow> Document" where
  "Document_set_has_serial_number m = m\<lparr>Document_has_bits := Document_has_bits m OR 1\<rparr>"

definition Document_clear_has_serial_number :: "Document \<Rightarrow> Document" where
  "Document_clear_has_serial_number m = m\<lparr>Document_has_bits := Document_has_bits m AND NOT 1\<rparr>"

definition Document_clear_serial_number :: "Document \<Rightarrow> Document" where
  "Document_clear_serial_number m = Document_clear_has_serial_number (m\<lparr>Document_serial_number_fld := 0\<rparr>)"

definition Document_serial_number :: "Document \<Rightarrow> uint32" where
  "Document_serial_number m = Document_serial_number_fld m"

definition Document_set_serial_number :: "uint32 \<Rightarrow> Document \<Rightarrow> Document" where
  "Document_set_serial_number value m = (Document_set_has_serial_number m)\<lparr>Document_serial_number_fld := value\<rparr>"

definition Document_has_data :: "Document \<Rightarrow> bool" where
  "Document_has_data m \<longleftrightarrow> Document_has_bits m AND 0x2 \<noteq> 0"

definition Document_set_has_data :: "Document \<Rightarrow> Document" where
  "Document_set_has_data m = m\<lparr>Document_has_bits := Document_has_bits m OR 0x2\<rparr>"

definition Document_clear_has_data :: "Document \<Rightarrow> Document" where
  "Document_clear_has_data m = m\<lparr>Document_has_bits := Document_has_bits m AND NOT 0x2\<rparr>"

definition Document_clear_data :: "Document \<Rightarrow> Document" where
  "Document_clear_data m =
     Document_clear_has_data (m\<lparr>Document_data_fld := map_option (\<lambda>_. []) (Document_data_fld m)\<rparr>)"

definition Document_data :: "Document \<Rightarrow> bytes" where
  "Document_data m = deref_string (Document_data_fld m)"

definition Document_set_data :: "bytes \<Rightarrow> Document \<Rightarrow> Document" where
  "Document_set_data value m = (Document_set_has_data m)\<lparr>Document_data_fld := Some value\<rparr>"

definition Document_set_data_cstr :: "bytes \<Rightarrow> Document \<Rightarrow> Document" where
  "Document_set_data_cstr value m =
     (Document_set_has_data m)\<lparr>Document_data_fld := Some (c_string value)\<rparr>"

definition Document_set_data_sized :: "bytes \<Rightarrow> nat \<Rightarrow> Document \<Rightarrow> Document" where
  "Document_set_data_sized value count m =
     (Document_set_has_data m)\<lparr>Document_data_fld := Some (take count value)\<rparr>"

definition Document_mutable_data :: "(bytes \<Rightarrow> bytes) \<Rightarrow> Document \<Rightarrow> Document" where
  "Document_mutable_data f m =
     (let m = Document_set_has_data m in m\<lparr>Document_data_fld := Some (f (own_string (Document_data_fld m)))\<rparr>)"

definition Document_release_data :: "Document \<Rightarrow> bytes option \<times> Document" where
  "Document_release_data m =
     (let m = Document_clear_has_data m in (Document_data_fld m, m\<lparr>Document_data_fld := None\<rparr>))"

definition Document_has_user_name :: "Document \<Rightarrow> bool" where
  "Document_has_user_name m \<longleftrightarrow> Document_has_bits m AND 0x4 \<noteq> 0"

definition Document_set_has_user_name :: "Document \<Rightarrow> Document" where
  "Document_set_has_user_name m = m\<lparr>Document_has_bits := Document_has_bits m OR 0x4\<rparr>"

definition Document_clear_has_user_name :: "Document \<Rightarrow> Document" where
  "Document_clear_has_user_name m = m\<lparr>Document_has_bits := Document_has_bits m AND NOT 0x4\<rparr>"

definition Document_clear_user_name :: "Document \<Rightarrow> Document" where
  "Document_clear_user_name m =
     Document_clear_has_user_name (m\<lparr>Document_user_name_fld := map_option (\<lambda>_. []) (Document_user_name_fld m)\<rparr>)"

definition Document_user_name :: "Document \<Rightarrow> bytes" where
  "Document_user_name m = deref_string (Document_user_name_fld m)"

definition Document_set_user_name :: "bytes \<Rightarrow> Document \<Rightarrow> Document" where
  "Document_set_user_name value m = (Document_set_has_user_name m)\<lparr>Document_user_name_fld := Some value\<rparr>"

definition Document_set_user_name_cstr :: "bytes \<Rightarrow> Document \<Rightarrow> Document" where
  "Document_set_user_name_cstr value m =
     (Document_set_has_user_name m)\<lparr>Document_user_name_fld := Some (c_string value)\<rparr>"

definition Document_set_user_name_sized :: "bytes \<Rightarrow> nat \<Rightarrow> Document \<Rightarrow> Document" where
  "Document_set_user_name_sized value count m =
     (Document_set_has_user_name m)\<lparr>Document_user_name_fld := Some (take count value)\<rparr>"

definition Document_mutable_user_name :: "(bytes \<Rightarrow> bytes) \<Rightarrow> Document \<Rightarrow> Document" where
  "Document_mutable_user_name f m =
     (let m = Document_set_has_user_name m in m\<lparr>Document_user_name_fld := Some (f (own_string (Document_user_name_fld m)))\<rparr>)"

definition Document_release_user_name :: "Document \<Rightarrow> bytes option \<times> Document" where
  "Document_release_user_name m =
     (let m = Document_clear_has_user_name m in (Document_user_name_fld m, m\<lparr>Document_user_name_fld := None\<rparr>))"

lemmas Document_presence = Document_has_serial_number_def Document_set_has_serial_number_def
    Document_clear_has_serial_number_def Document_has_data_def Document_set_has_data_def
    Document_clear_has_data_def Document_has_user_name_def Document_set_has_user_name_def
    Document_clear_has_user_name_def

lemmas Document_accessors = Document_clear_serial_number_def Document_serial_number_def
    Document_set_serial_number_def Document_clear_data_def Document_data_def Document_set_data_def
    Document_set_data_cstr_def Document_set_data_sized_def Document_mutable_data_def
    Document_release_data_def Document_clear_user_name_def Document_user_name_def Document_set_user_name_def
    Document_set_user_name_cstr_def Document_set_user_name_sized_def Document_mutable_user_name_def
    Document_release_user_name_def

subsection \<open>Operations on whole messages\<close>

definition Document_Clear :: "Document \<Rightarrow> Document" where
  "Document_Clear m =
     (let m = (if Document_has_bits m AND 0xFF \<noteq> 0
           then m\<lparr>Document_serial_number_fld := 0,
             Document_data_fld := (if Document_has_data m then map_option (\<lambda>_. []) (Document_data_fld m) else Document_data_fld m),
             Document_user_name_fld := (if Document_has_user_name m then map_option (\<lambda>_. []) (Document_user_name_fld m) else Document_user_name_fld m)\<rparr>
           else m)
      in m\<lparr>Document_has_bits := 0, Document_unknown := Unknown_Clear (Document_unknown m)\<rparr>)"

definition Document_merge_serial_number :: "Document \<Rightarrow> Document \<Rightarrow> Document" where
  "Document_merge_serial_number from m = (if Document_has_serial_number from then Document_set_serial_number (Document_serial_number from) m else m)"

definition Document_merge_data :: "Document \<Rightarrow> Document \<Rightarrow> Document" where
  "Document_merge_data from m = (if Document_has_data from then Document_set_data (Document_data from) m else m)"

definition Document_merge_user_name :: "Document \<Rightarrow> Document \<Rightarrow> Document" where
  "Document_merge_user_name from m = (if Document_has_user_name from then Document_set_user_name (Document_user_name from) m else m)"

definition Document_MergeFrom :: "Document \<Rightarrow> Document \<Rightarrow> Document" where
  "Document_MergeFrom from m =
     (let m = (if Document_has_bits from AND 0xFF \<noteq> 0 then
             let m = Document_merge_serial_number from m;
                 m = Document_merge_data from m;
                 m = Document_merge_user_name from m
             in m
           else m)
      in m\<lparr>Document_unknown := Unknown_MergeFrom (Document_unknown m) (Document_unknown from)\<rparr>)"

definition Document_CopyFrom :: "Document \<Rightarrow> Document \<Rightarrow> Document" where
  "Document_CopyFrom from m = Document_MergeFrom from (Document_Clear m)"

definition Document_IsInitialized :: "Document \<Rightarrow> bool" where
  "Document_IsInitialized m \<longleftrightarrow>
     (if Document_has_bits m AND 0x3 \<noteq> 0x3 then False
      else True)"

definition Document_Swap :: "Document \<Rightarrow> Document \<Rightarrow> Document \<times> Document" where
  "Document_Swap m other =
     (m\<lparr>Document_serial_number_fld := Document_serial_number_fld other,
        Document_data_fld := Document_data_fld other,
        Document_user_name_fld := Document_user_name_fld other,
        Document_has_bits := Document_has_bits other,
        Document_unknown := Document_unknown other,
        Document_cached_size := Document_cached_size other\<rparr>,
      other\<lparr>Document_serial_number_fld := Document_serial_number_fld m,
        Document_data_fld := Document_data_fld m,
        Document_user_name_fld := Document_user_name_fld m,
        Document_has_bits := Document_has_bits m,
        Document_unknown := Document_unknown m,
        Document_cached_size := Document_cached_size m\<rparr>)"

definition Document_size_serial_number :: "nat \<times> Document \<Rightarrow> nat \<times> Document" where
  "Document_size_serial_number = (\<lambda>(total, m). (if Document_has_serial_number m then (total + (1 + UInt32Size (Document_serial_number m)), m) else (total, m)))"

definition Document_size_data :: "nat \<times> Document \<Rightarrow> nat \<times> Document" where
  "Document_size_data = (\<lambda>(total, m). (if Document_has_data m then (total + (1 + BytesSize (Document_data m)), m) else (total, m)))"

definition Document_size_user_name :: "nat \<times> Document \<Rightarrow> nat \<times> Document" where
  "Document_size_user_name = (\<lambda>(total, m). (if Document_has_user_name m then (total + (1 + StringSize (Document_user_name m)), m) else (total, m)))"

definition Document_field_sizes :: "Document \<Rightarrow> nat \<times> Document" where
  "Document_field_sizes m =
     (let s = (0, m);
          s = (if Document_has_bits m AND 0xFF \<noteq> 0 then
             let s = Document_size_serial_number s;
                 s = Document_size_data s;
                 s = Document_size_user_name s
             in s
           else s)
      in s)"

definition Document_ByteSize :: "Document \<Rightarrow> nat \<times> Document" where
  "Document_ByteSize m =
     (let (total, m) = Document_field_sizes m;
          total = (if Document_unknown m \<noteq> [] then total + ComputeUnknownFieldsSize (Document_unknown m) else total)
      in (total, m\<lparr>Document_cached_size := total\<rparr>))"

definition Document_write_serial_number :: "Document \<Rightarrow> bytes \<Rightarrow> bytes" where
  "Document_write_serial_number m target =
     (if Document_has_serial_number m then WriteUInt32ToArray 1 (Document_serial_number m) target else target)"

definition Document_write_data :: "Document \<Rightarrow> bytes \<Rightarrow> bytes" where
  "Document_write_data m target =
     (if Document_has_data m then WriteBytesToArray 2 (Document_data m) target else target)"

definition Document_write_user_name :: "Document \<Rightarrow> bytes \<Rightarrow> bytes" where
  "Document_write_user_name m target =
     (if Document_has_user_name m then WriteStringToArray 3 (Document_user_name m) target else target)"

definition Document_SerializeWithCachedSizesToArray :: "Document \<Rightarrow> bytes \<Rightarrow> bytes" where
  "Document_SerializeWithCachedSizesToArray m target =
     (let target = Document_write_serial_number m target;
          target = Document_write_data m target;
          target = Document_write_user_name m target
      in if Document_unknown m \<noteq> [] then SerializeUnknownFieldsToArray (Document_unknown m) target else target)"

subsection \<open>The abstract message\<close>

record ADocument =
  ADocument_serial_number :: "uint32 option"
  ADocument_data :: "bytes option"
  ADocument_user_name :: "bytes option"
  ADocument_unknown :: unknown_field_set

definition ADocument_empty :: ADocument where
  "ADocument_empty = \<lparr>ADocument_serial_number = None,
     ADocument_data = None,
     ADocument_user_name = None,
     ADocument_unknown = []\<rparr>"

definition Document_abs :: "Document \<Rightarrow> ADocument" where
  "Document_abs m = \<lparr>ADocument_serial_number = shown (Document_has_serial_number m) (Document_serial_number m),
     ADocument_data = shown (Document_has_data m) (Document_data m),
     ADocument_user_name = shown (Document_has_user_name m) (Document_user_name m),
     ADocument_unknown = Document_unknown m\<rparr>"

definition Document_ok :: "Document \<Rightarrow> bool" where
  "Document_ok m \<longleftrightarrow>
     scalar_ok (Document_has_serial_number m) 0 (Document_serial_number_fld m) \<and>
     string_ok (Document_has_data m) (Document_data_fld m) \<and>
     string_ok (Document_has_user_name m) (Document_user_name_fld m)"

definition ADocument_merge :: "ADocument \<Rightarrow> ADocument \<Rightarrow> ADocument" where
  "ADocument_merge from to = \<lparr>ADocument_serial_number = or_else (ADocument_serial_number from) (ADocument_serial_number to),
     ADocument_data = or_else (ADocument_data from) (ADocument_data to),
     ADocument_user_name = or_else (ADocument_user_name from) (ADocument_user_name to),
     ADocument_unknown = ADocument_unknown to @ ADocument_unknown from\<rparr>"

definition ADocument_initialized :: "ADocument \<Rightarrow> bool" where
  "ADocument_initialized a \<longleftrightarrow>
     ADocument_serial_number a \<noteq> None \<and>
     ADocument_data a \<noteq> None"

definition ADocument_encode :: "ADocument \<Rightarrow> bytes" where
  "ADocument_encode a =
     enc_opt (\<lambda>v. enc_tag 1 WIRETYPE_VARINT @ enc_uint32 v) (ADocument_serial_number a) @
     enc_opt (\<lambda>v. enc_tag 2 WIRETYPE_LENGTH_DELIMITED @ enc_bytes v) (ADocument_data a) @
     enc_opt (\<lambda>v. enc_tag 3 WIRETYPE_LENGTH_DELIMITED @ enc_bytes v) (ADocument_user_name a) @
     SerializeUnknownFieldsToArray (ADocument_unknown a) []"

definition Document_sized :: "Document \<Rightarrow> bool" where
  "Document_sized m \<longleftrightarrow>
     Document_cached_size m = length (ADocument_encode (Document_abs m))"

subsection \<open>Accessors on the abstract message\<close>

lemma Document_abs_default [simp]:
  "Document_abs Document_default = ADocument_empty"
  by (simp add: Document_abs_def Document_default_def ADocument_empty_def Document_accessors Document_presence)

lemma Document_ok_default [simp]:
  "Document_ok Document_default"
  by (simp add: Document_ok_def Document_default_def field_ok Document_presence)

lemma Document_abs_accessors [simp]:
  "Document_abs (Document_set_serial_number v m) = (Document_abs m)\<lparr>ADocument_serial_number := Some v\<rparr>"
  "Document_abs (Document_clear_serial_number m) = (Document_abs m)\<lparr>ADocument_serial_number := None\<rparr>"
  "Document_abs (Document_set_data s m) = (Document_abs m)\<lparr>ADocument_data := Some s\<rparr>"
  "Document_abs (Document_set_data_cstr s m) = (Document_abs m)\<lparr>ADocument_data := Some (c_string s)\<rparr>"
  "Document_abs (Document_set_data_sized s c m) = (Document_abs m)\<lparr>ADocument_data := Some (take c s)\<rparr>"
  "Document_abs (Document_clear_data m) = (Document_abs m)\<lparr>ADocument_data := None\<rparr>"
  "Document_abs (snd (Document_release_data m)) = (Document_abs m)\<lparr>ADocument_data := None\<rparr>"
  "Document_abs (Document_set_user_name s m) = (Document_abs m)\<lparr>ADocument_user_name := Some s\<rparr>"
  "Document_abs (Document_set_user_name_cstr s m) = (Document_abs m)\<lparr>ADocument_user_name := Some (c_string s)\<rparr>"
  "Document_abs (Document_set_user_name_sized s c m) = (Document_abs m)\<lparr>ADocument_user_name := Some (take c s)\<rparr>"
  "Document_abs (Document_clear_user_name m) = (Document_abs m)\<lparr>ADocument_user_name := None\<rparr>"
  "Document_abs (snd (Document_release_user_name m)) = (Document_abs m)\<lparr>ADocument_user_name := None\<rparr>"
  by (simp_all add: Document_abs_def Document_accessors Document_presence hasbits Let_def)

lemma Document_ok_accessors [simp]:
  "Document_ok m \<Longrightarrow> Document_ok (Document_set_serial_number v m)"
  "Document_ok m \<Longrightarrow> Document_ok (Document_clear_serial_number m)"
  "Document_ok m \<Longrightarrow> Document_ok (Document_set_data s m)"
  "Document_ok m \<Longrightarrow> Document_ok (Document_set_data_cstr s m)"
  "Document_ok m \<Longrightarrow> Document_ok (Document_set_data_sized s c m)"
  "Document_ok m \<Longrightarrow> Document_ok (Document_clear_data m)"
  "Document_ok m \<Longrightarrow> Document_ok (snd (Document_release_data m))"
  "Document_ok m \<Longrightarrow> Document_ok (Document_set_user_name s m)"
  "Document_ok m \<Longrightarrow> Document_ok (Document_set_user_name_cstr s m)"
  "Document_ok m \<Longrightarrow> Document_ok (Document_set_user_name_sized s c m)"
  "Document_ok m \<Longrightarrow> Document_ok (Document_clear_user_name m)"
  "Document_ok m \<Longrightarrow> Document_ok (snd (Document_release_user_name m))"
  by (simp_all add: Document_ok_def Let_def Document_accessors Document_presence hasbits)

lemma Document_getters:
  "Document_ok m \<Longrightarrow> Document_serial_number m = value_or 0 (ADocument_serial_number (Document_abs m))"
  "Document_ok m \<Longrightarrow> Document_data m = value_or [] (ADocument_data (Document_abs m))"
  "Document_ok m \<Longrightarrow> Document_user_name m = value_or [] (ADocument_user_name (Document_abs m))"
  by (simp_all add: Document_ok_def Document_abs_def Document_accessors)

subsection \<open>Clear, MergeFrom, CopyFrom, IsInitialized, Swap\<close>

lemma Document_Clear_ok:
  "Document_ok m \<Longrightarrow> Document_ok (Document_Clear m)"
  by (cases "Document_has_bits m AND 0xFF = 0")
    (simp_all add: Document_ok_def Document_Clear_def Let_def Document_presence hasbits)

lemma Document_Clear_abs:
  "Document_abs (Document_Clear m) = ADocument_empty"
  by (simp add: Document_abs_def ADocument_empty_def Document_Clear_def Unknown_Clear_def Let_def Document_presence hasbits)

lemma Document_merge_absent:
  "\<not> Document_has_serial_number from \<Longrightarrow> Document_merge_serial_number from m = m"
  "\<not> Document_has_data from \<Longrightarrow> Document_merge_data from m = m"
  "\<not> Document_has_user_name from \<Longrightarrow> Document_merge_user_name from m = m"
  by (simp_all add: Document_merge_serial_number_def Document_merge_data_def Document_merge_user_name_def)

lemma Document_abs_merge_fields:
  "Document_abs (Document_merge_serial_number from m) = ADocument_serial_number_update (or_else (ADocument_serial_number (Document_abs from))) (Document_abs m)"
  "Document_abs (Document_merge_data from m) = ADocument_data_update (or_else (ADocument_data (Document_abs from))) (Document_abs m)"
  "Document_abs (Document_merge_user_name from m) = ADocument_user_name_update (or_else (ADocument_user_name (Document_abs from))) (Document_abs m)"
  by (simp_all add: Document_merge_serial_number_def Document_merge_data_def Document_merge_user_name_def Document_abs_def shown_def Document_accessors Document_presence hasbits)

lemma Document_ok_merge_fields:
  "Document_ok m \<Longrightarrow> Document_ok (Document_merge_serial_number from m)"
  "Document_ok m \<Longrightarrow> Document_ok (Document_merge_data from m)"
  "Document_ok m \<Longrightarrow> Document_ok (Document_merge_user_name from m)"
  by (simp_all add: Document_merge_serial_number_def Document_merge_data_def Document_merge_user_name_def)

text \<open>The tests of whole bytes of presence bits only save work.\<close>

lemma Document_MergeFrom_steps:
  "Document_MergeFrom from m =
     (let m = Document_merge_serial_number from m;
          m = Document_merge_data from m;
          m = Document_merge_user_name from m
      in m\<lparr>Document_unknown := Document_unknown m @ Document_unknown from\<rparr>)"
  by (cases "Document_has_bits from AND 0xFF = 0")
    (simp_all add: Document_MergeFrom_def Let_def Unknown_MergeFrom_append Document_merge_absent Document_presence hasbits)

lemma Document_MergeFrom_step:
  assumes "Document_ok m" "Document_ok from"
  shows "Document_ok (Document_MergeFrom from m)"
    and "Document_abs (Document_MergeFrom from m) = ADocument_merge (Document_abs from) (Document_abs m)"
proof -
  have u: "Document_ok (x\<lparr>Document_unknown := u\<rparr>) = Document_ok x" "Document_abs (x\<lparr>Document_unknown := u\<rparr>) = (Document_abs x)\<lparr>ADocument_unknown := u\<rparr>" for x u
    by (simp_all add: Document_ok_def Document_abs_def Document_accessors Document_presence)
  note steps = Document_MergeFrom_steps Document_ok_merge_fields Document_abs_merge_fields
  show "Document_ok (Document_MergeFrom from m)"
    using assms by (simp add: Let_def u steps)
  have k: "Document_unknown x = ADocument_unknown (Document_abs x)" for x
    by (simp add: Document_abs_def)
  show "Document_abs (Document_MergeFrom from m) = ADocument_merge (Document_abs from) (Document_abs m)"
    using assms by (cases "Document_abs m") (simp add: Let_def u k steps ADocument_merge_def)
qed

lemmas Document_MergeFrom_ok = Document_MergeFrom_step(1)
lemmas Document_MergeFrom_abs = Document_MergeFrom_step(2)

lemma Document_merge_empty [simp]:
  "ADocument_merge a ADocument_empty = a"
  by (simp add: ADocument_merge_def ADocument_empty_def merged_empty)

lemma Document_CopyFrom_ok:
  "Document_ok m \<Longrightarrow> Document_ok from \<Longrightarrow> Document_ok (Document_CopyFrom from m)"
  by (simp add: Document_CopyFrom_def Document_MergeFrom_ok Document_Clear_ok)

lemma Document_CopyFrom_abs:
  "Document_ok m \<Longrightarrow> Document_ok from \<Longrightarrow> Document_abs (Document_CopyFrom from m) = Document_abs from"
  by (simp add: Document_CopyFrom_def Document_MergeFrom_abs Document_Clear_ok Document_Clear_abs)

lemma Document_IsInitialized_abs:
  "Document_ok m \<Longrightarrow> Document_IsInitialized m \<longleftrightarrow> ADocument_initialized (Document_abs m)"
  by (simp add: Document_IsInitialized_def ADocument_initialized_def Document_abs_def Document_presence hasbits)

lemma Document_Swap_exchanges:
  "Document_Swap m other = (other, m)"
  by (simp add: Document_Swap_def)

subsection \<open>ByteSize and SerializeWithCachedSizesToArray\<close>

lemma Document_write_fields:
  "Document_write_serial_number m t = t @ enc_opt (\<lambda>v. enc_tag 1 WIRETYPE_VARINT @ enc_uint32 v) (ADocument_serial_number (Document_abs m))"
  "Document_write_data m t = t @ enc_opt (\<lambda>v. enc_tag 2 WIRETYPE_LENGTH_DELIMITED @ enc_bytes v) (ADocument_data (Document_abs m))"
  "Document_write_user_name m t = t @ enc_opt (\<lambda>v. enc_tag 3 WIRETYPE_LENGTH_DELIMITED @ enc_bytes v) (ADocument_user_name (Document_abs m))"
  by (simp_all add: Document_write_serial_number_def Document_write_data_def Document_write_user_name_def Document_abs_def wire shown_def)

lemma Document_unknown_abs:
  "ADocument_unknown (Document_abs m) = Document_unknown m"
  by (simp add: Document_abs_def)

lemma Document_size_absent:
  "\<not> Document_has_serial_number (snd s) \<Longrightarrow> Document_size_serial_number s = s"
  "\<not> Document_has_data (snd s) \<Longrightarrow> Document_size_data s = s"
  "\<not> Document_has_user_name (snd s) \<Longrightarrow> Document_size_user_name s = s"
  by (simp_all add: Document_size_serial_number_def Document_size_data_def Document_size_user_name_def case_prod_beta)

lemma Document_size_has_bits:
  "Document_has_bits (snd (Document_size_serial_number s)) = Document_has_bits (snd s)"
  "Document_has_bits (snd (Document_size_data s)) = Document_has_bits (snd s)"
  "Document_has_bits (snd (Document_size_user_name s)) = Document_has_bits (snd s)"
  by (simp_all add: Document_size_serial_number_def Document_size_data_def Document_size_user_name_def case_prod_beta)

lemma Document_size_fields:
  "Document_size_serial_number (n, m) = (n + length (enc_opt (\<lambda>v. enc_tag 1 WIRETYPE_VARINT @ enc_uint32 v) (ADocument_serial_number (Document_abs m))), m)"
  "Document_size_data (n, m) = (n + length (enc_opt (\<lambda>v. enc_tag 2 WIRETYPE_LENGTH_DELIMITED @ enc_bytes v) (ADocument_data (Document_abs m))), m)"
  "Document_size_user_name (n, m) = (n + length (enc_opt (\<lambda>v. enc_tag 3 WIRETYPE_LENGTH_DELIMITED @ enc_bytes v) (ADocument_user_name (Document_abs m))), m)"
  by (simp_all add: Document_size_serial_number_def Document_size_data_def Document_size_user_name_def Document_abs_def shown_def
      length_enc_int32 length_enc_uint32 length_enc_enum length_enc_bytes)

lemma Document_size_skip:
  "Document_has_bits (snd s) AND 0xFF = 0 \<Longrightarrow>
     Document_size_user_name (Document_size_data (Document_size_serial_number s)) = s"
  by (simp_all add: Document_size_absent Document_presence hasbits)

lemma Document_field_sizes_steps:
  "Document_field_sizes m =
     Document_size_user_name 
       (Document_size_data 
       (Document_size_serial_number (0, m)))"
  by (cases "Document_has_bits m AND 0xFF = 0")
    (simp_all add: Document_field_sizes_def Let_def Document_size_skip Document_size_has_bits)

lemma Document_ByteSize_eq:
  "Document_ByteSize m =
     (length (ADocument_encode (Document_abs m)), m\<lparr>Document_cached_size := length (ADocument_encode (Document_abs m))\<rparr>)"
  by (simp add: Document_ByteSize_def Document_field_sizes_steps unknown_size Let_def Document_size_fields ComputeUnknown_length ADocument_encode_def add.assoc add.left_commute add.commute Document_unknown_abs)

lemma Document_ByteSize_fst:
  "Document_ok m \<Longrightarrow> fst (Document_ByteSize m) = length (ADocument_encode (Document_abs m))"
  by (simp add: Document_ByteSize_eq)

lemma Document_cached_simps [simp]:
  "Document_ok (m\<lparr>Document_cached_size := c\<rparr>) = Document_ok m" "Document_abs (m\<lparr>Document_cached_size := c\<rparr>) = Document_abs m"
  by (simp_all add: Document_ok_def Document_abs_def Document_accessors Document_presence)

lemma Document_ByteSize_snd:
  "Document_ok m \<Longrightarrow> Document_ok (snd (Document_ByteSize m)) \<and> Document_abs (snd (Document_ByteSize m)) = Document_abs m \<and> Document_sized (snd (Document_ByteSize m))"
  by (simp add: Document_ByteSize_eq Document_sized_def)

lemma Document_SerializeWithCachedSizesToArray_eq:
  "Document_SerializeWithCachedSizesToArray m t = t @ ADocument_encode (Document_abs m)"
  by (simp add: Document_SerializeWithCachedSizesToArray_def Let_def Document_write_fields ADocument_encode_def Document_unknown_abs
      unknown_serialize)

text \<open>The message is an element of a repeated field: it satisfies the contract of the container.\<close>

interpretation document_th: type_handler Document_default Document_Clear Document_MergeFrom Document_ok Document_abs
  by unfold_locales (simp_all add: Document_Clear_ok Document_Clear_abs Document_MergeFrom_ok Document_MergeFrom_abs)

section \<open>The message \<^verbatim>\<open>DocumentList\<close>\<close>

subsection \<open>Data\<close>

record DocumentList =
  DocumentList_history_document_fld :: "Document repeated_ptr"
  DocumentList_unknown :: unknown_field_set
  DocumentList_cached_size :: nat
  DocumentList_has_bits :: uint32

definition DocumentList_default :: DocumentList where
  "DocumentList_default =
     \<lparr>DocumentList_history_document_fld = Rep_empty,
      DocumentList_unknown = [],
      DocumentList_cached_size = 0,
      DocumentList_has_bits = 0\<rparr>"

subsection \<open>Accessors\<close>

definition DocumentList_history_document_size :: "DocumentList \<Rightarrow> nat" where
  "DocumentList_history_document_size m = Rep_size (DocumentList_history_document_fld m)"

definition DocumentList_clear_history_document :: "DocumentList \<Rightarrow> DocumentList" where
  "DocumentList_clear_history_document m = m\<lparr>DocumentList_history_document_fld := Rep_Clear Document_Clear (DocumentList_history_document_fld m)\<rparr>"

definition DocumentList_history_document :: "int \<Rightarrow> DocumentList \<Rightarrow> Document option" where
  "DocumentList_history_document index m = Rep_Get (DocumentList_history_document_fld m) index"

definition DocumentList_mutable_history_document :: "(Document \<Rightarrow> Document) \<Rightarrow> int \<Rightarrow> DocumentList \<Rightarrow> DocumentList option" where
  "DocumentList_mutable_history_document f index m =
     map_option (\<lambda>r. m\<lparr>DocumentList_history_document_fld := r\<rparr>) (Rep_Mutable f index (DocumentList_history_document_fld m))"

definition DocumentList_add_history_document :: "(Document \<Rightarrow> Document) \<Rightarrow> DocumentList \<Rightarrow> DocumentList" where
  "DocumentList_add_history_document f m = m\<lparr>DocumentList_history_document_fld := Rep_Add Document_default f (DocumentList_history_document_fld m)\<rparr>"

lemmas DocumentList_accessors = DocumentList_history_document_size_def
    DocumentList_clear_history_document_def DocumentList_history_document_def
    DocumentList_mutable_history_document_def DocumentList_add_history_document_def

subsection \<open>Operations on whole messages\<close>

definition DocumentList_Clear :: "DocumentList \<Rightarrow> DocumentList" where
  "DocumentList_Clear m =
     (let m = m\<lparr>DocumentList_history_document_fld := Rep_Clear Document_Clear (DocumentList_history_document_fld m)\<rparr>
      in m\<lparr>DocumentList_has_bits := 0, DocumentList_unknown := Unknown_Clear (DocumentList_unknown m)\<rparr>)"

definition DocumentList_MergeFrom :: "DocumentList \<Rightarrow> DocumentList \<Rightarrow> DocumentList" where
  "DocumentList_MergeFrom from m =
     (let m = m\<lparr>DocumentList_history_document_fld := Rep_MergeFrom Document_default Document_MergeFrom (DocumentList_history_document_fld from) (DocumentList_history_document_fld m)\<rparr>
      in m\<lparr>DocumentList_unknown := Unknown_MergeFrom (DocumentList_unknown m) (DocumentList_unknown from)\<rparr>)"

definition DocumentList_CopyFrom :: "DocumentList \<Rightarrow> DocumentList \<Rightarrow> DocumentList" where
  "DocumentList_CopyFrom from m = DocumentList_MergeFrom from (DocumentList_Clear m)"

definition DocumentList_IsInitialized :: "DocumentList \<Rightarrow> bool" where
  "DocumentList_IsInitialized m \<longleftrightarrow>
     (if \<not> list_all Document_IsInitialized (Rep_contents (DocumentList_history_document_fld m)) then False
      else True)"

definition DocumentList_Swap :: "DocumentList \<Rightarrow> DocumentList \<Rightarrow> DocumentList \<times> DocumentList" where
  "DocumentList_Swap m other =
     (m\<lparr>DocumentList_history_document_fld := fst (Rep_Swap (DocumentList_history_document_fld m) (DocumentList_history_document_fld other)),
        DocumentList_has_bits := DocumentList_has_bits other,
        DocumentList_unknown := DocumentList_unknown other,
        DocumentList_cached_size := DocumentList_cached_size other\<rparr>,
      other\<lparr>DocumentList_history_document_fld := snd (Rep_Swap (DocumentList_history_document_fld m) (DocumentList_history_document_fld other)),
        DocumentList_has_bits := DocumentList_has_bits m,
        DocumentList_unknown := DocumentList_unknown m,
        DocumentList_cached_size := DocumentList_cached_size m\<rparr>)"

definition DocumentList_size_history_document :: "nat \<times> DocumentList \<Rightarrow> nat \<times> DocumentList" where
  "DocumentList_size_history_document = (\<lambda>(total, m).
     let total = total + 1 * DocumentList_history_document_size m;
         sized = map (MessageSizeNoVirtual Document_ByteSize) (Rep_contents (DocumentList_history_document_fld m))
     in (total + sum_list (map fst sized),
         m\<lparr>DocumentList_history_document_fld := (DocumentList_history_document_fld m)\<lparr>elements := map snd sized @ drop (Rep_size (DocumentList_history_document_fld m)) (elements (DocumentList_history_document_fld m))\<rparr>\<rparr>))"

definition DocumentList_field_sizes :: "DocumentList \<Rightarrow> nat \<times> DocumentList" where
  "DocumentList_field_sizes m =
     (let s = (0, m);
          s = DocumentList_size_history_document s
      in s)"

definition DocumentList_ByteSize :: "DocumentList \<Rightarrow> nat \<times> DocumentList" where
  "DocumentList_ByteSize m =
     (let (total, m) = DocumentList_field_sizes m;
          total = (if DocumentList_unknown m \<noteq> [] then total + ComputeUnknownFieldsSize (DocumentList_unknown m) else total)
      in (total, m\<lparr>DocumentList_cached_size := total\<rparr>))"

definition DocumentList_write_history_document :: "DocumentList \<Rightarrow> bytes \<Rightarrow> bytes" where
  "DocumentList_write_history_document m target =
     fold (WriteMessageNoVirtualToArray Document_cached_size Document_SerializeWithCachedSizesToArray 1)
       (Rep_contents (DocumentList_history_document_fld m)) target"

definition DocumentList_SerializeWithCachedSizesToArray :: "DocumentList \<Rightarrow> bytes \<Rightarrow> bytes" where
  "DocumentList_SerializeWithCachedSizesToArray m target =
     (let target = DocumentList_write_history_document m target
      in if DocumentList_unknown m \<noteq> [] then SerializeUnknownFieldsToArray (DocumentList_unknown m) target else target)"

subsection \<open>The abstract message\<close>

record ADocumentList =
  ADocumentList_history_document :: "ADocument list"
  ADocumentList_unknown :: unknown_field_set

definition ADocumentList_empty :: ADocumentList where
  "ADocumentList_empty = \<lparr>ADocumentList_history_document = [],
     ADocumentList_unknown = []\<rparr>"

definition DocumentList_abs :: "DocumentList \<Rightarrow> ADocumentList" where
  "DocumentList_abs m = \<lparr>ADocumentList_history_document = map Document_abs (Rep_contents (DocumentList_history_document_fld m)),
     ADocumentList_unknown = DocumentList_unknown m\<rparr>"

definition DocumentList_ok :: "DocumentList \<Rightarrow> bool" where
  "DocumentList_ok m \<longleftrightarrow>
     document_th.good (DocumentList_history_document_fld m)"

definition ADocumentList_merge :: "ADocumentList \<Rightarrow> ADocumentList \<Rightarrow> ADocumentList" where
  "ADocumentList_merge from to = \<lparr>ADocumentList_history_document = ADocumentList_history_document to @ ADocumentList_history_document from,
     ADocumentList_unknown = ADocumentList_unknown to @ ADocumentList_unknown from\<rparr>"

definition ADocumentList_initialized :: "ADocumentList \<Rightarrow> bool" where
  "ADocumentList_initialized a \<longleftrightarrow>
     list_all ADocument_initialized (ADocumentList_history_document a)"

definition ADocumentList_encode :: "ADocumentList \<Rightarrow> bytes" where
  "ADocumentList_encode a =
     concat (map (\<lambda>v. enc_tag 1 WIRETYPE_LENGTH_DELIMITED @ enc_bytes (ADocument_encode v)) (ADocumentList_history_document a)) @
     SerializeUnknownFieldsToArray (ADocumentList_unknown a) []"

definition DocumentList_sized :: "DocumentList \<Rightarrow> bool" where
  "DocumentList_sized m \<longleftrightarrow>
     DocumentList_cached_size m = length (ADocumentList_encode (DocumentList_abs m)) \<and>
     list_all Document_sized (Rep_contents (DocumentList_history_document_fld m))"

subsection \<open>Accessors on the abstract message\<close>

lemma DocumentList_abs_default [simp]:
  "DocumentList_abs DocumentList_default = ADocumentList_empty"
  by (simp add: DocumentList_abs_def DocumentList_default_def ADocumentList_empty_def DocumentList_accessors)

lemma DocumentList_ok_default [simp]:
  "DocumentList_ok DocumentList_default"
  by (simp add: DocumentList_ok_def DocumentList_default_def field_ok document_th.good_empty)

subsection \<open>Clear, MergeFrom, CopyFrom, IsInitialized, Swap\<close>

lemma DocumentList_Clear_ok:
  "DocumentList_ok m \<Longrightarrow> DocumentList_ok (DocumentList_Clear m)"
  by (simp add: DocumentList_ok_def DocumentList_Clear_def Let_def hasbits document_th.good_Clear)

lemma DocumentList_Clear_abs:
  "DocumentList_abs (DocumentList_Clear m) = ADocumentList_empty"
  by (simp add: DocumentList_abs_def ADocumentList_empty_def DocumentList_Clear_def Unknown_Clear_def Let_def hasbits)

lemma DocumentList_Swap_exchanges:
  "DocumentList_Swap m other = (other, m)"
  by (simp add: DocumentList_Swap_def Rep_Swap_def)

lemma DocumentList_views:
  "ADocumentList_history_document (DocumentList_abs m) = document_th.views (DocumentList_history_document_fld m)"
  by (simp add: DocumentList_abs_def document_th.views_def)

lemma DocumentList_good:
  "DocumentList_ok m \<Longrightarrow> document_th.good (DocumentList_history_document_fld m)"
  by (simp add: DocumentList_ok_def)

lemma DocumentList_contents_ok:
  "DocumentList_ok m \<Longrightarrow> list_all Document_ok (Rep_contents (DocumentList_history_document_fld m))"
  by (rule document_th.good_contents [OF DocumentList_good])

lemma DocumentList_history_document_abs:
  "DocumentList_ok m \<Longrightarrow> DocumentList_history_document_size m = length (ADocumentList_history_document (DocumentList_abs m))"
  "DocumentList_ok m \<Longrightarrow> i < DocumentList_history_document_size m \<Longrightarrow>
     \<exists>t. DocumentList_history_document (int i) m = Some t \<and> Document_ok t \<and> Document_abs t = ADocumentList_history_document (DocumentList_abs m) ! i"
  using DocumentList_contents_ok [of m] Get_contents [of "DocumentList_history_document_fld m" "int i"]
  by (simp_all add: DocumentList_ok_def document_th.good_def DocumentList_abs_def DocumentList_accessors list_all_length)

lemma DocumentList_add_history_document_abs:
  assumes "DocumentList_ok m" and f: "\<And>t. Document_ok t \<Longrightarrow> Document_abs t = ADocument_empty \<Longrightarrow> Document_ok (f t) \<and> Document_abs (f t) = v"
  shows "DocumentList_ok (DocumentList_add_history_document f m)"
    and "DocumentList_abs (DocumentList_add_history_document f m) = (DocumentList_abs m)\<lparr>ADocumentList_history_document := ADocumentList_history_document (DocumentList_abs m) @ [v]\<rparr>"
proof -
  have "document_th.good (Rep_Add Document_default f (DocumentList_history_document_fld m)) \<and>
      document_th.views (Rep_Add Document_default f (DocumentList_history_document_fld m)) = document_th.views (DocumentList_history_document_fld m) @ [v]"
    by (rule document_th.views_Add [OF DocumentList_good [OF assms(1)]]) (simp add: f)
  then show "DocumentList_ok (DocumentList_add_history_document f m)"
    and "DocumentList_abs (DocumentList_add_history_document f m) = (DocumentList_abs m)\<lparr>ADocumentList_history_document := ADocumentList_history_document (DocumentList_abs m) @ [v]\<rparr>"
    using assms(1) by (simp_all add: DocumentList_ok_def DocumentList_abs_def DocumentList_add_history_document_def document_th.views_def)
qed

lemma DocumentList_MergeFrom_step:
  assumes "DocumentList_ok m" "DocumentList_ok from"
  shows "DocumentList_ok (DocumentList_MergeFrom from m)"
    and "DocumentList_abs (DocumentList_MergeFrom from m) = ADocumentList_merge (DocumentList_abs from) (DocumentList_abs m)"
proof -
  note r = document_th.views_MergeFrom [OF DocumentList_good [OF assms(1)] DocumentList_good [OF assms(2)]]
  show "DocumentList_ok (DocumentList_MergeFrom from m)"
    and "DocumentList_abs (DocumentList_MergeFrom from m) = ADocumentList_merge (DocumentList_abs from) (DocumentList_abs m)"
    using assms r by (auto simp: DocumentList_MergeFrom_def Unknown_MergeFrom_append Let_def DocumentList_ok_def DocumentList_abs_def ADocumentList_merge_def  DocumentList_accessors
        shown_def hasbits document_th.views_def)
qed

lemmas DocumentList_MergeFrom_ok = DocumentList_MergeFrom_step(1)
lemmas DocumentList_MergeFrom_abs = DocumentList_MergeFrom_step(2)

lemma DocumentList_CopyFrom_ok:
  "DocumentList_ok m \<Longrightarrow> DocumentList_ok from \<Longrightarrow> DocumentList_ok (DocumentList_CopyFrom from m)"
  by (simp add: DocumentList_CopyFrom_def DocumentList_MergeFrom_ok DocumentList_Clear_ok)

lemma DocumentList_CopyFrom_abs:
  "DocumentList_ok m \<Longrightarrow> DocumentList_ok from \<Longrightarrow> DocumentList_abs (DocumentList_CopyFrom from m) = DocumentList_abs from"
  by (simp add: DocumentList_CopyFrom_def DocumentList_MergeFrom_abs DocumentList_Clear_ok DocumentList_Clear_abs ADocumentList_merge_def ADocumentList_empty_def)

lemma DocumentList_IsInitialized_abs:
  "DocumentList_ok m \<Longrightarrow> DocumentList_IsInitialized m \<longleftrightarrow> ADocumentList_initialized (DocumentList_abs m)"
  using DocumentList_contents_ok [of m]
  by (auto simp: DocumentList_IsInitialized_def ADocumentList_initialized_def DocumentList_abs_def hasbits list_all_iff Document_IsInitialized_abs)

subsection \<open>ByteSize and SerializeWithCachedSizesToArray\<close>

lemma DocumentList_unknown_abs:
  "ADocumentList_unknown (DocumentList_abs m) = DocumentList_unknown m"
  by (simp add: DocumentList_abs_def)

definition DocumentList_resize :: "DocumentList \<Rightarrow> DocumentList" where
  "DocumentList_resize m = m\<lparr>DocumentList_history_document_fld := (DocumentList_history_document_fld m)\<lparr>elements :=
     map (\<lambda>t. snd (Document_ByteSize t)) (Rep_contents (DocumentList_history_document_fld m)) @ drop (Rep_size (DocumentList_history_document_fld m)) (elements (DocumentList_history_document_fld m))\<rparr>\<rparr>"

lemma DocumentList_size_history_document_eq:
  assumes "DocumentList_ok m"
  shows "DocumentList_size_history_document (n, m) = (n + length (concat (map (\<lambda>v. enc_tag 1 WIRETYPE_LENGTH_DELIMITED @ enc_bytes (ADocument_encode v)) (ADocumentList_history_document (DocumentList_abs m)))), DocumentList_resize m)"
proof -
  have "length ts + sum_list (map (fst \<circ> MessageSizeNoVirtual Document_ByteSize) ts) =
      length (concat (map (\<lambda>v. enc_tag 1 WIRETYPE_LENGTH_DELIMITED @ enc_bytes (ADocument_encode v)) (map Document_abs ts)))"
    if "list_all Document_ok ts" for ts
    using that by (induction ts) (auto simp: MessageSizeNoVirtual_def case_prod_beta Document_ByteSize_fst
        length_enc_bytes(2) [symmetric] BytesSize_def)
  from this [OF DocumentList_contents_ok [OF assms]] assms show ?thesis
    by (simp add: DocumentList_size_history_document_def DocumentList_resize_def DocumentList_abs_def DocumentList_history_document_size_def Let_def comp_def MessageSizeNoVirtual_def
        case_prod_beta DocumentList_ok_def document_th.good_def)
qed

lemma DocumentList_resize_good:
  assumes "DocumentList_ok m"
  shows "DocumentList_ok (DocumentList_resize m)" "DocumentList_abs (DocumentList_resize m) = DocumentList_abs m"
    "list_all Document_sized (Rep_contents (DocumentList_history_document_fld (DocumentList_resize m)))"
proof -
  have g: "document_th.good (DocumentList_history_document_fld m)" "rep_ok (DocumentList_history_document_fld m)" "list_all Document_ok (Rep_contents (DocumentList_history_document_fld m))"
    using assms DocumentList_contents_ok [of m] by (simp_all add: DocumentList_ok_def document_th.good_def)
  then have c: "Rep_contents (DocumentList_history_document_fld (DocumentList_resize m)) = map (\<lambda>t. snd (Document_ByteSize t)) (Rep_contents (DocumentList_history_document_fld m))"
    by (simp add: DocumentList_resize_def rep_defs Rep_size_def)
  have s: "Document_ok (snd (Document_ByteSize t)) \<and> Document_abs (snd (Document_ByteSize t)) = Document_abs t \<and> Document_sized (snd (Document_ByteSize t))"
    if "t \<in> set (Rep_contents (DocumentList_history_document_fld m))" for t
    using g(3) that Document_ByteSize_snd by (auto simp: list_all_iff)
  have "document_th.good (DocumentList_history_document_fld (DocumentList_resize m))"
    using g s by (auto simp: document_th.good_def DocumentList_resize_def rep_defs Rep_size_def list_all_iff dest: in_set_dropD)
  with assms show "DocumentList_ok (DocumentList_resize m)"
    by (simp add: DocumentList_ok_def DocumentList_resize_def)
  show "DocumentList_abs (DocumentList_resize m) = DocumentList_abs m"
    using s by (simp add: DocumentList_abs_def c) (simp add: DocumentList_resize_def DocumentList_accessors)
  show "list_all Document_sized (Rep_contents (DocumentList_history_document_fld (DocumentList_resize m)))"
    using s by (auto simp: c list_all_iff)
qed

lemma DocumentList_cached_simps [simp]:
  "DocumentList_ok (m\<lparr>DocumentList_cached_size := c\<rparr>) = DocumentList_ok m"
  "DocumentList_abs (m\<lparr>DocumentList_cached_size := c\<rparr>) = DocumentList_abs m"
  by (simp_all add: DocumentList_ok_def DocumentList_abs_def DocumentList_accessors)

lemma DocumentList_field_sizes_steps:
  "DocumentList_field_sizes m = DocumentList_size_history_document (0, m)"
  by (simp add: DocumentList_field_sizes_def)

lemma DocumentList_ByteSize_eq:
  "DocumentList_ok m \<Longrightarrow> DocumentList_ByteSize m =
     (length (ADocumentList_encode (DocumentList_abs m)),
      (DocumentList_resize m)\<lparr>DocumentList_cached_size := length (ADocumentList_encode (DocumentList_abs m))\<rparr>)"
  by (simp add: DocumentList_ByteSize_def DocumentList_field_sizes_steps unknown_size Let_def DocumentList_size_history_document_eq ComputeUnknown_length ADocumentList_encode_def DocumentList_resize_def DocumentList_unknown_abs)

lemma DocumentList_ByteSize_fst:
  "DocumentList_ok m \<Longrightarrow> fst (DocumentList_ByteSize m) = length (ADocumentList_encode (DocumentList_abs m))"
  by (simp add: DocumentList_ByteSize_eq)

lemma DocumentList_ByteSize_snd:
  "DocumentList_ok m \<Longrightarrow> DocumentList_ok (snd (DocumentList_ByteSize m)) \<and> DocumentList_abs (snd (DocumentList_ByteSize m)) = DocumentList_abs m \<and> DocumentList_sized (snd (DocumentList_ByteSize m))"
  by (simp add: DocumentList_ByteSize_eq DocumentList_resize_good DocumentList_sized_def)

lemma DocumentList_write_history_document_eq:
  assumes "DocumentList_ok m" "DocumentList_sized m"
  shows "DocumentList_write_history_document m t = t @ concat (map (\<lambda>v. enc_tag 1 WIRETYPE_LENGTH_DELIMITED @ enc_bytes (ADocument_encode v)) (ADocumentList_history_document (DocumentList_abs m)))"
proof -
  have "fold (WriteMessageNoVirtualToArray Document_cached_size Document_SerializeWithCachedSizesToArray 1) ts t =
      t @ concat (map (\<lambda>v. enc_tag 1 WIRETYPE_LENGTH_DELIMITED @ enc_bytes (ADocument_encode v)) (map Document_abs ts))"
    if "list_all Document_ok ts" "list_all Document_sized ts" for ts t
    using that by (induction ts arbitrary: t) (auto simp: WriteMessageNoVirtualToArray_def wire enc_bytes_def
        Document_SerializeWithCachedSizesToArray_eq Document_sized_def)
  with DocumentList_contents_ok [OF assms(1)] assms(2) show ?thesis
    by (simp add: DocumentList_write_history_document_def DocumentList_sized_def DocumentList_abs_def)
qed

lemma DocumentList_SerializeWithCachedSizesToArray_eq:
  "DocumentList_ok m \<Longrightarrow> DocumentList_sized m \<Longrightarrow>
     DocumentList_SerializeWithCachedSizesToArray m t = t @ ADocumentList_encode (DocumentList_abs m)"
  by (simp add: DocumentList_SerializeWithCachedSizesToArray_def Let_def DocumentList_write_history_document_eq ADocumentList_encode_def DocumentList_unknown_abs
      unknown_serialize)

end
