(* ===== verification/Pb_Meeting.thy ===== *)
theory Pb_Meeting
  imports Has_Bits
begin

text \<open>
  The generated messages \<^verbatim>\<open>MeetingServerInfo\<close> and \<^verbatim>\<open>JoinMeetingReturn\<close>
  of \<^verbatim>\<open>message.pb.h\<close> and \<^verbatim>\<open>message.pb.cc\<close>.
\<close>

section \<open>The message \<^verbatim>\<open>MeetingServerInfo\<close>\<close>

subsection \<open>Data\<close>

record MeetingServerInfo =
  MeetingServerInfo_port_fld :: int32
  MeetingServerInfo_server_ip_fld :: pb_string
  MeetingServerInfo_unknown :: unknown_field_set
  MeetingServerInfo_cached_size :: nat
  MeetingServerInfo_has_bits :: uint32

definition MeetingServerInfo_default :: MeetingServerInfo where
  "MeetingServerInfo_default =
     \<lparr>MeetingServerInfo_port_fld = 0,
      MeetingServerInfo_server_ip_fld = None,
      MeetingServerInfo_unknown = [],
      MeetingServerInfo_cached_size = 0,
      MeetingServerInfo_has_bits = 0\<rparr>"

subsection \<open>Accessors\<close>

definition MeetingServerInfo_has_port :: "MeetingServerInfo \<Rightarrow> bool" where
  "MeetingServerInfo_has_port m \<longleftrightarrow> MeetingServerInfo_has_bits m AND 1 \<noteq> 0"

definition MeetingServerInfo_set_has_port :: "MeetingServerInfo \<Rightarrow> MeetingServerInfo" where
  "MeetingServerInfo_set_has_port m = m\<lparr>MeetingServerInfo_has_bits := MeetingServerInfo_has_bits m OR 1\<rparr>"

definition MeetingServerInfo_clear_has_port :: "MeetingServerInfo \<Rightarrow> MeetingServerInfo" where
  "MeetingServerInfo_clear_has_port m = m\<lparr>MeetingServerInfo_has_bits := MeetingServerInfo_has_bits m AND NOT 1\<rparr>"

definition MeetingServerInfo_clear_port :: "MeetingServerInfo \<Rightarrow> MeetingServerInfo" where
  "MeetingServerInfo_clear_port m = MeetingServerInfo_clear_has_port (m\<lparr>MeetingServerInfo_port_fld := 0\<rparr>)"

definition MeetingServerInfo_port :: "MeetingServerInfo \<Rightarrow> int32" where
  "MeetingServerInfo_port m = MeetingServerInfo_port_fld m"

definition MeetingServerInfo_set_port :: "int32 \<Rightarrow> MeetingServerInfo \<Rightarrow> MeetingServerInfo" where
  "MeetingServerInfo_set_port value m = (MeetingServerInfo_set_has_port m)\<lparr>MeetingServerInfo_port_fld := value\<rparr>"

definition MeetingServerInfo_has_server_ip :: "MeetingServerInfo \<Rightarrow> bool" where
  "MeetingServerInfo_has_server_ip m \<longleftrightarrow> MeetingServerInfo_has_bits m AND 0x2 \<noteq> 0"

definition MeetingServerInfo_set_has_server_ip :: "MeetingServerInfo \<Rightarrow> MeetingServerInfo" where
  "MeetingServerInfo_set_has_server_ip m = m\<lparr>MeetingServerInfo_has_bits := MeetingServerInfo_has_bits m OR 0x2\<rparr>"

definition MeetingServerInfo_clear_has_server_ip :: "MeetingServerInfo \<Rightarrow> MeetingServerInfo" where
  "MeetingServerInfo_clear_has_server_ip m = m\<lparr>MeetingServerInfo_has_bits := MeetingServerInfo_has_bits m AND NOT 0x2\<rparr>"

definition MeetingServerInfo_clear_server_ip :: "MeetingServerInfo \<Rightarrow> MeetingServerInfo" where
  "MeetingServerInfo_clear_server_ip m =
     MeetingServerInfo_clear_has_server_ip (m\<lparr>MeetingServerInfo_server_ip_fld := map_option (\<lambda>_. []) (MeetingServerInfo_server_ip_fld m)\<rparr>)"

definition MeetingServerInfo_server_ip :: "MeetingServerInfo \<Rightarrow> bytes" where
  "MeetingServerInfo_server_ip m = deref_string (MeetingServerInfo_server_ip_fld m)"

definition MeetingServerInfo_set_server_ip :: "bytes \<Rightarrow> MeetingServerInfo \<Rightarrow> MeetingServerInfo" where
  "MeetingServerInfo_set_server_ip value m = (MeetingServerInfo_set_has_server_ip m)\<lparr>MeetingServerInfo_server_ip_fld := Some value\<rparr>"

definition MeetingServerInfo_set_server_ip_cstr :: "bytes \<Rightarrow> MeetingServerInfo \<Rightarrow> MeetingServerInfo" where
  "MeetingServerInfo_set_server_ip_cstr value m =
     (MeetingServerInfo_set_has_server_ip m)\<lparr>MeetingServerInfo_server_ip_fld := Some (c_string value)\<rparr>"

definition MeetingServerInfo_set_server_ip_sized :: "bytes \<Rightarrow> nat \<Rightarrow> MeetingServerInfo \<Rightarrow> MeetingServerInfo" where
  "MeetingServerInfo_set_server_ip_sized value count m =
     (MeetingServerInfo_set_has_server_ip m)\<lparr>MeetingServerInfo_server_ip_fld := Some (take count value)\<rparr>"

definition MeetingServerInfo_mutable_server_ip :: "(bytes \<Rightarrow> bytes) \<Rightarrow> MeetingServerInfo \<Rightarrow> MeetingServerInfo" where
  "MeetingServerInfo_mutable_server_ip f m =
     (let m = MeetingServerInfo_set_has_server_ip m in m\<lparr>MeetingServerInfo_server_ip_fld := Some (f (own_string (MeetingServerInfo_server_ip_fld m)))\<rparr>)"

definition MeetingServerInfo_release_server_ip :: "MeetingServerInfo \<Rightarrow> bytes option \<times> MeetingServerInfo" where
  "MeetingServerInfo_release_server_ip m =
     (let m = MeetingServerInfo_clear_has_server_ip m in (MeetingServerInfo_server_ip_fld m, m\<lparr>MeetingServerInfo_server_ip_fld := None\<rparr>))"

lemmas MeetingServerInfo_presence = MeetingServerInfo_has_port_def MeetingServerInfo_set_has_port_def
    MeetingServerInfo_clear_has_port_def MeetingServerInfo_has_server_ip_def
    MeetingServerInfo_set_has_server_ip_def MeetingServerInfo_clear_has_server_ip_def

lemmas MeetingServerInfo_accessors = MeetingServerInfo_clear_port_def MeetingServerInfo_port_def
    MeetingServerInfo_set_port_def MeetingServerInfo_clear_server_ip_def MeetingServerInfo_server_ip_def
    MeetingServerInfo_set_server_ip_def MeetingServerInfo_set_server_ip_cstr_def
    MeetingServerInfo_set_server_ip_sized_def MeetingServerInfo_mutable_server_ip_def
    MeetingServerInfo_release_server_ip_def

subsection \<open>Operations on whole messages\<close>

definition MeetingServerInfo_Clear :: "MeetingServerInfo \<Rightarrow> MeetingServerInfo" where
  "MeetingServerInfo_Clear m =
     (let m = (if MeetingServerInfo_has_bits m AND 0xFF \<noteq> 0
           then m\<lparr>MeetingServerInfo_port_fld := 0,
             MeetingServerInfo_server_ip_fld := (if MeetingServerInfo_has_server_ip m then map_option (\<lambda>_. []) (MeetingServerInfo_server_ip_fld m) else MeetingServerInfo_server_ip_fld m)\<rparr>
           else m)
      in m\<lparr>MeetingServerInfo_has_bits := 0, MeetingServerInfo_unknown := Unknown_Clear (MeetingServerInfo_unknown m)\<rparr>)"

definition MeetingServerInfo_merge_port :: "MeetingServerInfo \<Rightarrow> MeetingServerInfo \<Rightarrow> MeetingServerInfo" where
  "MeetingServerInfo_merge_port from m = (if MeetingServerInfo_has_port from then MeetingServerInfo_set_port (MeetingServerInfo_port from) m else m)"

definition MeetingServerInfo_merge_server_ip :: "MeetingServerInfo \<Rightarrow> MeetingServerInfo \<Rightarrow> MeetingServerInfo" where
  "MeetingServerInfo_merge_server_ip from m = (if MeetingServerInfo_has_server_ip from then MeetingServerInfo_set_server_ip (MeetingServerInfo_server_ip from) m else m)"

definition MeetingServerInfo_MergeFrom :: "MeetingServerInfo \<Rightarrow> MeetingServerInfo \<Rightarrow> MeetingServerInfo" where
  "MeetingServerInfo_MergeFrom from m =
     (let m = (if MeetingServerInfo_has_bits from AND 0xFF \<noteq> 0 then
             let m = MeetingServerInfo_merge_port from m;
                 m = MeetingServerInfo_merge_server_ip from m
             in m
           else m)
      in m\<lparr>MeetingServerInfo_unknown := Unknown_MergeFrom (MeetingServerInfo_unknown m) (MeetingServerInfo_unknown from)\<rparr>)"

definition MeetingServerInfo_CopyFrom :: "MeetingServerInfo \<Rightarrow> MeetingServerInfo \<Rightarrow> MeetingServerInfo" where
  "MeetingServerInfo_CopyFrom from m = MeetingServerInfo_MergeFrom from (MeetingServerInfo_Clear m)"

definition MeetingServerInfo_IsInitialized :: "MeetingServerInfo \<Rightarrow> bool" where
  "MeetingServerInfo_IsInitialized m \<longleftrightarrow>
     (if MeetingServerInfo_has_bits m AND 0x3 \<noteq> 0x3 then False
      else True)"

definition MeetingServerInfo_Swap :: "MeetingServerInfo \<Rightarrow> MeetingServerInfo \<Rightarrow> MeetingServerInfo \<times> MeetingServerInfo" where
  "MeetingServerInfo_Swap m other =
     (m\<lparr>MeetingServerInfo_port_fld := MeetingServerInfo_port_fld other,
        MeetingServerInfo_server_ip_fld := MeetingServerInfo_server_ip_fld other,
        MeetingServerInfo_has_bits := MeetingServerInfo_has_bits other,
        MeetingServerInfo_unknown := MeetingServerInfo_unknown other,
        MeetingServerInfo_cached_size := MeetingServerInfo_cached_size other\<rparr>,
      other\<lparr>MeetingServerInfo_port_fld := MeetingServerInfo_port_fld m,
        MeetingServerInfo_server_ip_fld := MeetingServerInfo_server_ip_fld m,
        MeetingServerInfo_has_bits := MeetingServerInfo_has_bits m,
        MeetingServerInfo_unknown := MeetingServerInfo_unknown m,
        MeetingServerInfo_cached_size := MeetingServerInfo_cached_size m\<rparr>)"

definition MeetingServerInfo_size_port :: "nat \<times> MeetingServerInfo \<Rightarrow> nat \<times> MeetingServerInfo" where
  "MeetingServerInfo_size_port = (\<lambda>(total, m). (if MeetingServerInfo_has_port m then (total + (1 + Int32Size (MeetingServerInfo_port m)), m) else (total, m)))"

definition MeetingServerInfo_size_server_ip :: "nat \<times> MeetingServerInfo \<Rightarrow> nat \<times> MeetingServerInfo" where
  "MeetingServerInfo_size_server_ip = (\<lambda>(total, m). (if MeetingServerInfo_has_server_ip m then (total + (1 + StringSize (MeetingServerInfo_server_ip m)), m) else (total, m)))"

definition MeetingServerInfo_field_sizes :: "MeetingServerInfo \<Rightarrow> nat \<times> MeetingServerInfo" where
  "MeetingServerInfo_field_sizes m =
     (let s = (0, m);
          s = (if MeetingServerInfo_has_bits m AND 0xFF \<noteq> 0 then
             let s = MeetingServerInfo_size_port s;
                 s = MeetingServerInfo_size_server_ip s
             in s
           else s)
      in s)"

definition MeetingServerInfo_ByteSize :: "MeetingServerInfo \<Rightarrow> nat \<times> MeetingServerInfo" where
  "MeetingServerInfo_ByteSize m =
     (let (total, m) = MeetingServerInfo_field_sizes m;
          total = (if MeetingServerInfo_unknown m \<noteq> [] then total + ComputeUnknownFieldsSize (MeetingServerInfo_unknown m) else total)
      in (total, m\<lparr>MeetingServerInfo_cached_size := total\<rparr>))"

definition MeetingServerInfo_write_port :: "MeetingServerInfo \<Rightarrow> bytes \<Rightarrow> bytes" where
  "MeetingServerInfo_write_port m target =
     (if MeetingServerInfo_has_port m then WriteInt32ToArray 1 (MeetingServerInfo_port m) target else target)"

definition MeetingServerInfo_write_server_ip :: "MeetingServerInfo \<Rightarrow> bytes \<Rightarrow> bytes" where
  "MeetingServerInfo_write_server_ip m target =
     (if MeetingServerInfo_has_server_ip m then WriteStringToArray 2 (MeetingServerInfo_server_ip m) target else target)"

definition MeetingServerInfo_SerializeWithCachedSizesToArray :: "MeetingServerInfo \<Rightarrow> bytes \<Rightarrow> bytes" where
  "MeetingServerInfo_SerializeWithCachedSizesToArray m target =
     (let target = MeetingServerInfo_write_port m target;
          target = MeetingServerInfo_write_server_ip m target
      in if MeetingServerInfo_unknown m \<noteq> [] then SerializeUnknownFieldsToArray (MeetingServerInfo_unknown m) target else target)"

subsection \<open>The abstract message\<close>

record AMeetingServerInfo =
  AMeetingServerInfo_port :: "int32 option"
  AMeetingServerInfo_server_ip :: "bytes option"
  AMeetingServerInfo_unknown :: unknown_field_set

definition AMeetingServerInfo_empty :: AMeetingServerInfo where
  "AMeetingServerInfo_empty = \<lparr>AMeetingServerInfo_port = None,
     AMeetingServerInfo_server_ip = None,
     AMeetingServerInfo_unknown = []\<rparr>"

definition MeetingServerInfo_abs :: "MeetingServerInfo \<Rightarrow> AMeetingServerInfo" where
  "MeetingServerInfo_abs m = \<lparr>AMeetingServerInfo_port = shown (MeetingServerInfo_has_port m) (MeetingServerInfo_port m),
     AMeetingServerInfo_server_ip = shown (MeetingServerInfo_has_server_ip m) (MeetingServerInfo_server_ip m),
     AMeetingServerInfo_unknown = MeetingServerInfo_unknown m\<rparr>"

definition MeetingServerInfo_ok :: "MeetingServerInfo \<Rightarrow> bool" where
  "MeetingServerInfo_ok m \<longleftrightarrow>
     scalar_ok (MeetingServerInfo_has_port m) 0 (MeetingServerInfo_port_fld m) \<and>
     string_ok (MeetingServerInfo_has_server_ip m) (MeetingServerInfo_server_ip_fld m)"

definition AMeetingServerInfo_merge :: "AMeetingServerInfo \<Rightarrow> AMeetingServerInfo \<Rightarrow> AMeetingServerInfo" where
  "AMeetingServerInfo_merge from to = \<lparr>AMeetingServerInfo_port = or_else (AMeetingServerInfo_port from) (AMeetingServerInfo_port to),
     AMeetingServerInfo_server_ip = or_else (AMeetingServerInfo_server_ip from) (AMeetingServerInfo_server_ip to),
     AMeetingServerInfo_unknown = AMeetingServerInfo_unknown to @ AMeetingServerInfo_unknown from\<rparr>"

definition AMeetingServerInfo_initialized :: "AMeetingServerInfo \<Rightarrow> bool" where
  "AMeetingServerInfo_initialized a \<longleftrightarrow>
     AMeetingServerInfo_port a \<noteq> None \<and>
     AMeetingServerInfo_server_ip a \<noteq> None"

definition AMeetingServerInfo_encode :: "AMeetingServerInfo \<Rightarrow> bytes" where
  "AMeetingServerInfo_encode a =
     enc_opt (\<lambda>v. enc_tag 1 WIRETYPE_VARINT @ enc_int32 v) (AMeetingServerInfo_port a) @
     enc_opt (\<lambda>v. enc_tag 2 WIRETYPE_LENGTH_DELIMITED @ enc_bytes v) (AMeetingServerInfo_server_ip a) @
     SerializeUnknownFieldsToArray (AMeetingServerInfo_unknown a) []"

definition MeetingServerInfo_sized :: "MeetingServerInfo \<Rightarrow> bool" where
  "MeetingServerInfo_sized m \<longleftrightarrow>
     MeetingServerInfo_cached_size m = length (AMeetingServerInfo_encode (MeetingServerInfo_abs m))"

subsection \<open>Accessors on the abstract message\<close>

lemma MeetingServerInfo_abs_default [simp]:
  "MeetingServerInfo_abs MeetingServerInfo_default = AMeetingServerInfo_empty"
  by (simp add: MeetingServerInfo_abs_def MeetingServerInfo_default_def AMeetingServerInfo_empty_def MeetingServerInfo_accessors MeetingServerInfo_presence)

lemma MeetingServerInfo_ok_default [simp]:
  "MeetingServerInfo_ok MeetingServerInfo_default"
  by (simp add: MeetingServerInfo_ok_def MeetingServerInfo_default_def field_ok MeetingServerInfo_presence)

lemma MeetingServerInfo_abs_accessors [simp]:
  "MeetingServerInfo_abs (MeetingServerInfo_set_port v m) = (MeetingServerInfo_abs m)\<lparr>AMeetingServerInfo_port := Some v\<rparr>"
  "MeetingServerInfo_abs (MeetingServerInfo_clear_port m) = (MeetingServerInfo_abs m)\<lparr>AMeetingServerInfo_port := None\<rparr>"
  "MeetingServerInfo_abs (MeetingServerInfo_set_server_ip s m) = (MeetingServerInfo_abs m)\<lparr>AMeetingServerInfo_server_ip := Some s\<rparr>"
  "MeetingServerInfo_abs (MeetingServerInfo_set_server_ip_cstr s m) = (MeetingServerInfo_abs m)\<lparr>AMeetingServerInfo_server_ip := Some (c_string s)\<rparr>"
  "MeetingServerInfo_abs (MeetingServerInfo_set_server_ip_sized s c m) = (MeetingServerInfo_abs m)\<lparr>AMeetingServerInfo_server_ip := Some (take c s)\<rparr>"
  "MeetingServerInfo_abs (MeetingServerInfo_clear_server_ip m) = (MeetingServerInfo_abs m)\<lparr>AMeetingServerInfo_server_ip := None\<rparr>"
  "MeetingServerInfo_abs (snd (MeetingServerInfo_release_server_ip m)) = (MeetingServerInfo_abs m)\<lparr>AMeetingServerInfo_server_ip := None\<rparr>"
  by (simp_all add: MeetingServerInfo_abs_def MeetingServerInfo_accessors MeetingServerInfo_presence hasbits Let_def)

lemma MeetingServerInfo_ok_accessors [simp]:
  "MeetingServerInfo_ok m \<Longrightarrow> MeetingServerInfo_ok (MeetingServerInfo_set_port v m)"
  "MeetingServerInfo_ok m \<Longrightarrow> MeetingServerInfo_ok (MeetingServerInfo_clear_port m)"
  "MeetingServerInfo_ok m \<Longrightarrow> MeetingServerInfo_ok (MeetingServerInfo_set_server_ip s m)"
  "MeetingServerInfo_ok m \<Longrightarrow> MeetingServerInfo_ok (MeetingServerInfo_set_server_ip_cstr s m)"
  "MeetingServerInfo_ok m \<Longrightarrow> MeetingServerInfo_ok (MeetingServerInfo_set_server_ip_sized s c m)"
  "MeetingServerInfo_ok m \<Longrightarrow> MeetingServerInfo_ok (MeetingServerInfo_clear_server_ip m)"
  "MeetingServerInfo_ok m \<Longrightarrow> MeetingServerInfo_ok (snd (MeetingServerInfo_release_server_ip m))"
  by (simp_all add: MeetingServerInfo_ok_def Let_def MeetingServerInfo_accessors MeetingServerInfo_presence hasbits)

lemma MeetingServerInfo_getters:
  "MeetingServerInfo_ok m \<Longrightarrow> MeetingServerInfo_port m = value_or 0 (AMeetingServerInfo_port (MeetingServerInfo_abs m))"
  "MeetingServerInfo_ok m \<Longrightarrow> MeetingServerInfo_server_ip m = value_or [] (AMeetingServerInfo_server_ip (MeetingServerInfo_abs m))"
  by (simp_all add: MeetingServerInfo_ok_def MeetingServerInfo_abs_def MeetingServerInfo_accessors)

subsection \<open>Clear, MergeFrom, CopyFrom, IsInitialized, Swap\<close>

lemma MeetingServerInfo_Clear_ok:
  "MeetingServerInfo_ok m \<Longrightarrow> MeetingServerInfo_ok (MeetingServerInfo_Clear m)"
  by (cases "MeetingServerInfo_has_bits m AND 0xFF = 0")
    (simp_all add: MeetingServerInfo_ok_def MeetingServerInfo_Clear_def Let_def MeetingServerInfo_presence hasbits)

lemma MeetingServerInfo_Clear_abs:
  "MeetingServerInfo_abs (MeetingServerInfo_Clear m) = AMeetingServerInfo_empty"
  by (simp add: MeetingServerInfo_abs_def AMeetingServerInfo_empty_def MeetingServerInfo_Clear_def Unknown_Clear_def Let_def MeetingServerInfo_presence hasbits)

lemma MeetingServerInfo_merge_absent:
  "\<not> MeetingServerInfo_has_port from \<Longrightarrow> MeetingServerInfo_merge_port from m = m"
  "\<not> MeetingServerInfo_has_server_ip from \<Longrightarrow> MeetingServerInfo_merge_server_ip from m = m"
  by (simp_all add: MeetingServerInfo_merge_port_def MeetingServerInfo_merge_server_ip_def)

lemma MeetingServerInfo_abs_merge_fields:
  "MeetingServerInfo_abs (MeetingServerInfo_merge_port from m) = AMeetingServerInfo_port_update (or_else (AMeetingServerInfo_port (MeetingServerInfo_abs from))) (MeetingServerInfo_abs m)"
  "MeetingServerInfo_abs (MeetingServerInfo_merge_server_ip from m) = AMeetingServerInfo_server_ip_update (or_else (AMeetingServerInfo_server_ip (MeetingServerInfo_abs from))) (MeetingServerInfo_abs m)"
  by (simp_all add: MeetingServerInfo_merge_port_def MeetingServerInfo_merge_server_ip_def MeetingServerInfo_abs_def shown_def MeetingServerInfo_accessors MeetingServerInfo_presence hasbits)

lemma MeetingServerInfo_ok_merge_fields:
  "MeetingServerInfo_ok m \<Longrightarrow> MeetingServerInfo_ok (MeetingServerInfo_merge_port from m)"
  "MeetingServerInfo_ok m \<Longrightarrow> MeetingServerInfo_ok (MeetingServerInfo_merge_server_ip from m)"
  by (simp_all add: MeetingServerInfo_merge_port_def MeetingServerInfo_merge_server_ip_def)

text \<open>The tests of whole bytes of presence bits only save work.\<close>

lemma MeetingServerInfo_MergeFrom_steps:
  "MeetingServerInfo_MergeFrom from m =
     (let m = MeetingServerInfo_merge_port from m;
          m = MeetingServerInfo_merge_server_ip from m
      in m\<lparr>MeetingServerInfo_unknown := MeetingServerInfo_unknown m @ MeetingServerInfo_unknown from\<rparr>)"
  by (cases "MeetingServerInfo_has_bits from AND 0xFF = 0")
    (simp_all add: MeetingServerInfo_MergeFrom_def Let_def Unknown_MergeFrom_append MeetingServerInfo_merge_absent MeetingServerInfo_presence hasbits)

text \<open>For a message that embeds this one through a pointer.\<close>

lemmas MeetingServerInfo_pointer =
  pointer_value [where ok = MeetingServerInfo_ok and view = MeetingServerInfo_abs, OF _ MeetingServerInfo_abs_default]
  pointer_ok_clear [where ok = MeetingServerInfo_ok and view = MeetingServerInfo_abs and clr = MeetingServerInfo_Clear, OF _ MeetingServerInfo_Clear_ok MeetingServerInfo_Clear_abs]
  pointer_ok_clear_if [where ok = MeetingServerInfo_ok and view = MeetingServerInfo_abs and clr = MeetingServerInfo_Clear, OF _ MeetingServerInfo_Clear_ok MeetingServerInfo_Clear_abs]

lemma MeetingServerInfo_MergeFrom_step:
  assumes "MeetingServerInfo_ok m" "MeetingServerInfo_ok from"
  shows "MeetingServerInfo_ok (MeetingServerInfo_MergeFrom from m)"
    and "MeetingServerInfo_abs (MeetingServerInfo_MergeFrom from m) = AMeetingServerInfo_merge (MeetingServerInfo_abs from) (MeetingServerInfo_abs m)"
proof -
  have u: "MeetingServerInfo_ok (x\<lparr>MeetingServerInfo_unknown := u\<rparr>) = MeetingServerInfo_ok x" "MeetingServerInfo_abs (x\<lparr>MeetingServerInfo_unknown := u\<rparr>) = (MeetingServerInfo_abs x)\<lparr>AMeetingServerInfo_unknown := u\<rparr>" for x u
    by (simp_all add: MeetingServerInfo_ok_def MeetingServerInfo_abs_def MeetingServerInfo_accessors MeetingServerInfo_presence)
  note steps = MeetingServerInfo_MergeFrom_steps MeetingServerInfo_ok_merge_fields MeetingServerInfo_abs_merge_fields
  show "MeetingServerInfo_ok (MeetingServerInfo_MergeFrom from m)"
    using assms by (simp add: Let_def u steps)
  have k: "MeetingServerInfo_unknown x = AMeetingServerInfo_unknown (MeetingServerInfo_abs x)" for x
    by (simp add: MeetingServerInfo_abs_def)
  show "MeetingServerInfo_abs (MeetingServerInfo_MergeFrom from m) = AMeetingServerInfo_merge (MeetingServerInfo_abs from) (MeetingServerInfo_abs m)"
    using assms by (cases "MeetingServerInfo_abs m") (simp add: Let_def u k steps AMeetingServerInfo_merge_def)
qed

lemmas MeetingServerInfo_MergeFrom_ok = MeetingServerInfo_MergeFrom_step(1)
lemmas MeetingServerInfo_MergeFrom_abs = MeetingServerInfo_MergeFrom_step(2)

lemma MeetingServerInfo_merge_empty [simp]:
  "AMeetingServerInfo_merge a AMeetingServerInfo_empty = a"
  by (simp add: AMeetingServerInfo_merge_def AMeetingServerInfo_empty_def merged_empty)

lemma MeetingServerInfo_CopyFrom_ok:
  "MeetingServerInfo_ok m \<Longrightarrow> MeetingServerInfo_ok from \<Longrightarrow> MeetingServerInfo_ok (MeetingServerInfo_CopyFrom from m)"
  by (simp add: MeetingServerInfo_CopyFrom_def MeetingServerInfo_MergeFrom_ok MeetingServerInfo_Clear_ok)

lemma MeetingServerInfo_CopyFrom_abs:
  "MeetingServerInfo_ok m \<Longrightarrow> MeetingServerInfo_ok from \<Longrightarrow> MeetingServerInfo_abs (MeetingServerInfo_CopyFrom from m) = MeetingServerInfo_abs from"
  by (simp add: MeetingServerInfo_CopyFrom_def MeetingServerInfo_MergeFrom_abs MeetingServerInfo_Clear_ok MeetingServerInfo_Clear_abs)

lemma MeetingServerInfo_IsInitialized_abs:
  "MeetingServerInfo_ok m \<Longrightarrow> MeetingServerInfo_IsInitialized m \<longleftrightarrow> AMeetingServerInfo_initialized (MeetingServerInfo_abs m)"
  by (simp add: MeetingServerInfo_IsInitialized_def AMeetingServerInfo_initialized_def MeetingServerInfo_abs_def MeetingServerInfo_presence hasbits)

lemma MeetingServerInfo_Swap_exchanges:
  "MeetingServerInfo_Swap m other = (other, m)"
  by (simp add: MeetingServerInfo_Swap_def)

subsection \<open>ByteSize and SerializeWithCachedSizesToArray\<close>

lemma MeetingServerInfo_write_fields:
  "MeetingServerInfo_write_port m t = t @ enc_opt (\<lambda>v. enc_tag 1 WIRETYPE_VARINT @ enc_int32 v) (AMeetingServerInfo_port (MeetingServerInfo_abs m))"
  "MeetingServerInfo_write_server_ip m t = t @ enc_opt (\<lambda>v. enc_tag 2 WIRETYPE_LENGTH_DELIMITED @ enc_bytes v) (AMeetingServerInfo_server_ip (MeetingServerInfo_abs m))"
  by (simp_all add: MeetingServerInfo_write_port_def MeetingServerInfo_write_server_ip_def MeetingServerInfo_abs_def wire shown_def)

lemma MeetingServerInfo_unknown_abs:
  "AMeetingServerInfo_unknown (MeetingServerInfo_abs m) = MeetingServerInfo_unknown m"
  by (simp add: MeetingServerInfo_abs_def)

lemma MeetingServerInfo_size_absent:
  "\<not> MeetingServerInfo_has_port (snd s) \<Longrightarrow> MeetingServerInfo_size_port s = s"
  "\<not> MeetingServerInfo_has_server_ip (snd s) \<Longrightarrow> MeetingServerInfo_size_server_ip s = s"
  by (simp_all add: MeetingServerInfo_size_port_def MeetingServerInfo_size_server_ip_def case_prod_beta)

lemma MeetingServerInfo_size_has_bits:
  "MeetingServerInfo_has_bits (snd (MeetingServerInfo_size_port s)) = MeetingServerInfo_has_bits (snd s)"
  "MeetingServerInfo_has_bits (snd (MeetingServerInfo_size_server_ip s)) = MeetingServerInfo_has_bits (snd s)"
  by (simp_all add: MeetingServerInfo_size_port_def MeetingServerInfo_size_server_ip_def case_prod_beta)

lemma MeetingServerInfo_size_fields:
  "MeetingServerInfo_size_port (n, m) = (n + length (enc_opt (\<lambda>v. enc_tag 1 WIRETYPE_VARINT @ enc_int32 v) (AMeetingServerInfo_port (MeetingServerInfo_abs m))), m)"
  "MeetingServerInfo_size_server_ip (n, m) = (n + length (enc_opt (\<lambda>v. enc_tag 2 WIRETYPE_LENGTH_DELIMITED @ enc_bytes v) (AMeetingServerInfo_server_ip (MeetingServerInfo_abs m))), m)"
  by (simp_all add: MeetingServerInfo_size_port_def MeetingServerInfo_size_server_ip_def MeetingServerInfo_abs_def shown_def
      length_enc_int32 length_enc_uint32 length_enc_enum length_enc_bytes)

lemma MeetingServerInfo_size_skip:
  "MeetingServerInfo_has_bits (snd s) AND 0xFF = 0 \<Longrightarrow>
     MeetingServerInfo_size_server_ip (MeetingServerInfo_size_port s) = s"
  by (simp_all add: MeetingServerInfo_size_absent MeetingServerInfo_presence hasbits)

lemma MeetingServerInfo_field_sizes_steps:
  "MeetingServerInfo_field_sizes m =
     MeetingServerInfo_size_server_ip 
       (MeetingServerInfo_size_port (0, m))"
  by (cases "MeetingServerInfo_has_bits m AND 0xFF = 0")
    (simp_all add: MeetingServerInfo_field_sizes_def Let_def MeetingServerInfo_size_skip MeetingServerInfo_size_has_bits)

lemma MeetingServerInfo_ByteSize_eq:
  "MeetingServerInfo_ByteSize m =
     (length (AMeetingServerInfo_encode (MeetingServerInfo_abs m)), m\<lparr>MeetingServerInfo_cached_size := length (AMeetingServerInfo_encode (MeetingServerInfo_abs m))\<rparr>)"
  by (simp add: MeetingServerInfo_ByteSize_def MeetingServerInfo_field_sizes_steps unknown_size Let_def MeetingServerInfo_size_fields ComputeUnknown_length AMeetingServerInfo_encode_def add.assoc add.left_commute add.commute MeetingServerInfo_unknown_abs)

lemma MeetingServerInfo_ByteSize_fst:
  "MeetingServerInfo_ok m \<Longrightarrow> fst (MeetingServerInfo_ByteSize m) = length (AMeetingServerInfo_encode (MeetingServerInfo_abs m))"
  by (simp add: MeetingServerInfo_ByteSize_eq)

lemma MeetingServerInfo_cached_simps [simp]:
  "MeetingServerInfo_ok (m\<lparr>MeetingServerInfo_cached_size := c\<rparr>) = MeetingServerInfo_ok m" "MeetingServerInfo_abs (m\<lparr>MeetingServerInfo_cached_size := c\<rparr>) = MeetingServerInfo_abs m"
  by (simp_all add: MeetingServerInfo_ok_def MeetingServerInfo_abs_def MeetingServerInfo_accessors MeetingServerInfo_presence)

lemma MeetingServerInfo_ByteSize_snd:
  "MeetingServerInfo_ok m \<Longrightarrow> MeetingServerInfo_ok (snd (MeetingServerInfo_ByteSize m)) \<and> MeetingServerInfo_abs (snd (MeetingServerInfo_ByteSize m)) = MeetingServerInfo_abs m \<and> MeetingServerInfo_sized (snd (MeetingServerInfo_ByteSize m))"
  by (simp add: MeetingServerInfo_ByteSize_eq MeetingServerInfo_sized_def)

lemma MeetingServerInfo_SerializeWithCachedSizesToArray_eq:
  "MeetingServerInfo_SerializeWithCachedSizesToArray m t = t @ AMeetingServerInfo_encode (MeetingServerInfo_abs m)"
  by (simp add: MeetingServerInfo_SerializeWithCachedSizesToArray_def Let_def MeetingServerInfo_write_fields AMeetingServerInfo_encode_def MeetingServerInfo_unknown_abs
      unknown_serialize)

section \<open>The message \<^verbatim>\<open>JoinMeetingReturn\<close>\<close>

subsection \<open>Data\<close>

record JoinMeetingReturn =
  JoinMeetingReturn_join_state_fld :: int32
  JoinMeetingReturn_server_info_fld :: "MeetingServerInfo option"
  JoinMeetingReturn_unknown :: unknown_field_set
  JoinMeetingReturn_cached_size :: nat
  JoinMeetingReturn_has_bits :: uint32

definition JoinMeetingReturn_default :: JoinMeetingReturn where
  "JoinMeetingReturn_default =
     \<lparr>JoinMeetingReturn_join_state_fld = 1,
      JoinMeetingReturn_server_info_fld = None,
      JoinMeetingReturn_unknown = [],
      JoinMeetingReturn_cached_size = 0,
      JoinMeetingReturn_has_bits = 0\<rparr>"

subsection \<open>Accessors\<close>

definition JoinMeetingReturn_has_join_state :: "JoinMeetingReturn \<Rightarrow> bool" where
  "JoinMeetingReturn_has_join_state m \<longleftrightarrow> JoinMeetingReturn_has_bits m AND 1 \<noteq> 0"

definition JoinMeetingReturn_set_has_join_state :: "JoinMeetingReturn \<Rightarrow> JoinMeetingReturn" where
  "JoinMeetingReturn_set_has_join_state m = m\<lparr>JoinMeetingReturn_has_bits := JoinMeetingReturn_has_bits m OR 1\<rparr>"

definition JoinMeetingReturn_clear_has_join_state :: "JoinMeetingReturn \<Rightarrow> JoinMeetingReturn" where
  "JoinMeetingReturn_clear_has_join_state m = m\<lparr>JoinMeetingReturn_has_bits := JoinMeetingReturn_has_bits m AND NOT 1\<rparr>"

definition JoinMeetingReturn_clear_join_state :: "JoinMeetingReturn \<Rightarrow> JoinMeetingReturn" where
  "JoinMeetingReturn_clear_join_state m = JoinMeetingReturn_clear_has_join_state (m\<lparr>JoinMeetingReturn_join_state_fld := 1\<rparr>)"

definition JoinMeetingReturn_join_state :: "JoinMeetingReturn \<Rightarrow> int32" where
  "JoinMeetingReturn_join_state m = JoinMeetingReturn_join_state_fld m"

definition JoinMeetingReturn_set_join_state :: "int32 \<Rightarrow> JoinMeetingReturn \<Rightarrow> JoinMeetingReturn" where
  "JoinMeetingReturn_set_join_state value m = (JoinMeetingReturn_set_has_join_state m)\<lparr>JoinMeetingReturn_join_state_fld := value\<rparr>"

definition JoinMeetingReturn_has_server_info :: "JoinMeetingReturn \<Rightarrow> bool" where
  "JoinMeetingReturn_has_server_info m \<longleftrightarrow> JoinMeetingReturn_has_bits m AND 0x2 \<noteq> 0"

definition JoinMeetingReturn_set_has_server_info :: "JoinMeetingReturn \<Rightarrow> JoinMeetingReturn" where
  "JoinMeetingReturn_set_has_server_info m = m\<lparr>JoinMeetingReturn_has_bits := JoinMeetingReturn_has_bits m OR 0x2\<rparr>"

definition JoinMeetingReturn_clear_has_server_info :: "JoinMeetingReturn \<Rightarrow> JoinMeetingReturn" where
  "JoinMeetingReturn_clear_has_server_info m = m\<lparr>JoinMeetingReturn_has_bits := JoinMeetingReturn_has_bits m AND NOT 0x2\<rparr>"

definition JoinMeetingReturn_clear_server_info :: "JoinMeetingReturn \<Rightarrow> JoinMeetingReturn" where
  "JoinMeetingReturn_clear_server_info m =
     JoinMeetingReturn_clear_has_server_info (m\<lparr>JoinMeetingReturn_server_info_fld := map_option MeetingServerInfo_Clear (JoinMeetingReturn_server_info_fld m)\<rparr>)"

definition JoinMeetingReturn_server_info :: "JoinMeetingReturn \<Rightarrow> MeetingServerInfo" where
  "JoinMeetingReturn_server_info m = deref_pointer MeetingServerInfo_default (JoinMeetingReturn_server_info_fld m)"

definition JoinMeetingReturn_mutable_server_info :: "(MeetingServerInfo \<Rightarrow> MeetingServerInfo) \<Rightarrow> JoinMeetingReturn \<Rightarrow> JoinMeetingReturn" where
  "JoinMeetingReturn_mutable_server_info f m =
     (let m = JoinMeetingReturn_set_has_server_info m
      in m\<lparr>JoinMeetingReturn_server_info_fld := Some (f (deref_pointer MeetingServerInfo_default (JoinMeetingReturn_server_info_fld m)))\<rparr>)"

definition JoinMeetingReturn_release_server_info :: "JoinMeetingReturn \<Rightarrow> MeetingServerInfo option \<times> JoinMeetingReturn" where
  "JoinMeetingReturn_release_server_info m =
     (let m = JoinMeetingReturn_clear_has_server_info m in (JoinMeetingReturn_server_info_fld m, m\<lparr>JoinMeetingReturn_server_info_fld := None\<rparr>))"

lemmas JoinMeetingReturn_presence = JoinMeetingReturn_has_join_state_def
    JoinMeetingReturn_set_has_join_state_def JoinMeetingReturn_clear_has_join_state_def
    JoinMeetingReturn_has_server_info_def JoinMeetingReturn_set_has_server_info_def
    JoinMeetingReturn_clear_has_server_info_def

lemmas JoinMeetingReturn_accessors = JoinMeetingReturn_clear_join_state_def JoinMeetingReturn_join_state_def
    JoinMeetingReturn_set_join_state_def JoinMeetingReturn_clear_server_info_def
    JoinMeetingReturn_server_info_def JoinMeetingReturn_mutable_server_info_def
    JoinMeetingReturn_release_server_info_def

subsection \<open>Operations on whole messages\<close>

definition JoinMeetingReturn_Clear :: "JoinMeetingReturn \<Rightarrow> JoinMeetingReturn" where
  "JoinMeetingReturn_Clear m =
     (let m = (if JoinMeetingReturn_has_bits m AND 0xFF \<noteq> 0
           then m\<lparr>JoinMeetingReturn_join_state_fld := 1,
             JoinMeetingReturn_server_info_fld := (if JoinMeetingReturn_has_server_info m then map_option MeetingServerInfo_Clear (JoinMeetingReturn_server_info_fld m) else JoinMeetingReturn_server_info_fld m)\<rparr>
           else m)
      in m\<lparr>JoinMeetingReturn_has_bits := 0, JoinMeetingReturn_unknown := Unknown_Clear (JoinMeetingReturn_unknown m)\<rparr>)"

definition JoinMeetingReturn_merge_join_state :: "JoinMeetingReturn \<Rightarrow> JoinMeetingReturn \<Rightarrow> JoinMeetingReturn" where
  "JoinMeetingReturn_merge_join_state from m = (if JoinMeetingReturn_has_join_state from then JoinMeetingReturn_set_join_state (JoinMeetingReturn_join_state from) m else m)"

definition JoinMeetingReturn_merge_server_info :: "JoinMeetingReturn \<Rightarrow> JoinMeetingReturn \<Rightarrow> JoinMeetingReturn" where
  "JoinMeetingReturn_merge_server_info from m = (if JoinMeetingReturn_has_server_info from then JoinMeetingReturn_mutable_server_info (MeetingServerInfo_MergeFrom (JoinMeetingReturn_server_info from)) m else m)"

definition JoinMeetingReturn_MergeFrom :: "JoinMeetingReturn \<Rightarrow> JoinMeetingReturn \<Rightarrow> JoinMeetingReturn" where
  "JoinMeetingReturn_MergeFrom from m =
     (let m = (if JoinMeetingReturn_has_bits from AND 0xFF \<noteq> 0 then
             let m = JoinMeetingReturn_merge_join_state from m;
                 m = JoinMeetingReturn_merge_server_info from m
             in m
           else m)
      in m\<lparr>JoinMeetingReturn_unknown := Unknown_MergeFrom (JoinMeetingReturn_unknown m) (JoinMeetingReturn_unknown from)\<rparr>)"

definition JoinMeetingReturn_CopyFrom :: "JoinMeetingReturn \<Rightarrow> JoinMeetingReturn \<Rightarrow> JoinMeetingReturn" where
  "JoinMeetingReturn_CopyFrom from m = JoinMeetingReturn_MergeFrom from (JoinMeetingReturn_Clear m)"

definition JoinMeetingReturn_IsInitialized :: "JoinMeetingReturn \<Rightarrow> bool" where
  "JoinMeetingReturn_IsInitialized m \<longleftrightarrow>
     (if JoinMeetingReturn_has_bits m AND 1 \<noteq> 1 then False
      else if JoinMeetingReturn_has_server_info m \<and> \<not> MeetingServerInfo_IsInitialized (JoinMeetingReturn_server_info m) then False
      else True)"

definition JoinMeetingReturn_Swap :: "JoinMeetingReturn \<Rightarrow> JoinMeetingReturn \<Rightarrow> JoinMeetingReturn \<times> JoinMeetingReturn" where
  "JoinMeetingReturn_Swap m other =
     (m\<lparr>JoinMeetingReturn_join_state_fld := JoinMeetingReturn_join_state_fld other,
        JoinMeetingReturn_server_info_fld := JoinMeetingReturn_server_info_fld other,
        JoinMeetingReturn_has_bits := JoinMeetingReturn_has_bits other,
        JoinMeetingReturn_unknown := JoinMeetingReturn_unknown other,
        JoinMeetingReturn_cached_size := JoinMeetingReturn_cached_size other\<rparr>,
      other\<lparr>JoinMeetingReturn_join_state_fld := JoinMeetingReturn_join_state_fld m,
        JoinMeetingReturn_server_info_fld := JoinMeetingReturn_server_info_fld m,
        JoinMeetingReturn_has_bits := JoinMeetingReturn_has_bits m,
        JoinMeetingReturn_unknown := JoinMeetingReturn_unknown m,
        JoinMeetingReturn_cached_size := JoinMeetingReturn_cached_size m\<rparr>)"

definition JoinMeetingReturn_size_join_state :: "nat \<times> JoinMeetingReturn \<Rightarrow> nat \<times> JoinMeetingReturn" where
  "JoinMeetingReturn_size_join_state = (\<lambda>(total, m). (if JoinMeetingReturn_has_join_state m then (total + (1 + EnumSize (JoinMeetingReturn_join_state m)), m) else (total, m)))"

definition JoinMeetingReturn_size_server_info :: "nat \<times> JoinMeetingReturn \<Rightarrow> nat \<times> JoinMeetingReturn" where
  "JoinMeetingReturn_size_server_info = (\<lambda>(total, m). (if JoinMeetingReturn_has_server_info m then
        (case JoinMeetingReturn_server_info_fld m of
           None \<Rightarrow> (total + (1 + fst (MessageSizeNoVirtual MeetingServerInfo_ByteSize MeetingServerInfo_default)), m)
         | Some p \<Rightarrow> (let (n, p) = MessageSizeNoVirtual MeetingServerInfo_ByteSize p
             in (total + (1 + n), m\<lparr>JoinMeetingReturn_server_info_fld := Some p\<rparr>)))
      else (total, m)))"

definition JoinMeetingReturn_field_sizes :: "JoinMeetingReturn \<Rightarrow> nat \<times> JoinMeetingReturn" where
  "JoinMeetingReturn_field_sizes m =
     (let s = (0, m);
          s = (if JoinMeetingReturn_has_bits m AND 0xFF \<noteq> 0 then
             let s = JoinMeetingReturn_size_join_state s;
                 s = JoinMeetingReturn_size_server_info s
             in s
           else s)
      in s)"

definition JoinMeetingReturn_ByteSize :: "JoinMeetingReturn \<Rightarrow> nat \<times> JoinMeetingReturn" where
  "JoinMeetingReturn_ByteSize m =
     (let (total, m) = JoinMeetingReturn_field_sizes m;
          total = (if JoinMeetingReturn_unknown m \<noteq> [] then total + ComputeUnknownFieldsSize (JoinMeetingReturn_unknown m) else total)
      in (total, m\<lparr>JoinMeetingReturn_cached_size := total\<rparr>))"

definition JoinMeetingReturn_write_join_state :: "JoinMeetingReturn \<Rightarrow> bytes \<Rightarrow> bytes" where
  "JoinMeetingReturn_write_join_state m target =
     (if JoinMeetingReturn_has_join_state m then WriteEnumToArray 1 (JoinMeetingReturn_join_state m) target else target)"

definition JoinMeetingReturn_write_server_info :: "JoinMeetingReturn \<Rightarrow> bytes \<Rightarrow> bytes" where
  "JoinMeetingReturn_write_server_info m target =
     (if JoinMeetingReturn_has_server_info m
      then WriteMessageNoVirtualToArray MeetingServerInfo_cached_size MeetingServerInfo_SerializeWithCachedSizesToArray 2 (JoinMeetingReturn_server_info m) target
      else target)"

definition JoinMeetingReturn_SerializeWithCachedSizesToArray :: "JoinMeetingReturn \<Rightarrow> bytes \<Rightarrow> bytes" where
  "JoinMeetingReturn_SerializeWithCachedSizesToArray m target =
     (let target = JoinMeetingReturn_write_join_state m target;
          target = JoinMeetingReturn_write_server_info m target
      in if JoinMeetingReturn_unknown m \<noteq> [] then SerializeUnknownFieldsToArray (JoinMeetingReturn_unknown m) target else target)"

subsection \<open>The abstract message\<close>

record AJoinMeetingReturn =
  AJoinMeetingReturn_join_state :: "int32 option"
  AJoinMeetingReturn_server_info :: "AMeetingServerInfo option"
  AJoinMeetingReturn_unknown :: unknown_field_set

definition AJoinMeetingReturn_empty :: AJoinMeetingReturn where
  "AJoinMeetingReturn_empty = \<lparr>AJoinMeetingReturn_join_state = None,
     AJoinMeetingReturn_server_info = None,
     AJoinMeetingReturn_unknown = []\<rparr>"

definition JoinMeetingReturn_abs :: "JoinMeetingReturn \<Rightarrow> AJoinMeetingReturn" where
  "JoinMeetingReturn_abs m = \<lparr>AJoinMeetingReturn_join_state = shown (JoinMeetingReturn_has_join_state m) (JoinMeetingReturn_join_state m),
     AJoinMeetingReturn_server_info = shown (JoinMeetingReturn_has_server_info m) (MeetingServerInfo_abs (JoinMeetingReturn_server_info m)),
     AJoinMeetingReturn_unknown = JoinMeetingReturn_unknown m\<rparr>"

definition JoinMeetingReturn_ok :: "JoinMeetingReturn \<Rightarrow> bool" where
  "JoinMeetingReturn_ok m \<longleftrightarrow>
     scalar_ok (JoinMeetingReturn_has_join_state m) 1 (JoinMeetingReturn_join_state_fld m) \<and>
     pointer_ok MeetingServerInfo_ok MeetingServerInfo_abs AMeetingServerInfo_empty (JoinMeetingReturn_has_server_info m) (JoinMeetingReturn_server_info_fld m)"

definition AJoinMeetingReturn_merge :: "AJoinMeetingReturn \<Rightarrow> AJoinMeetingReturn \<Rightarrow> AJoinMeetingReturn" where
  "AJoinMeetingReturn_merge from to = \<lparr>AJoinMeetingReturn_join_state = or_else (AJoinMeetingReturn_join_state from) (AJoinMeetingReturn_join_state to),
     AJoinMeetingReturn_server_info = merged AMeetingServerInfo_merge AMeetingServerInfo_empty (AJoinMeetingReturn_server_info from) (AJoinMeetingReturn_server_info to),
     AJoinMeetingReturn_unknown = AJoinMeetingReturn_unknown to @ AJoinMeetingReturn_unknown from\<rparr>"

definition AJoinMeetingReturn_initialized :: "AJoinMeetingReturn \<Rightarrow> bool" where
  "AJoinMeetingReturn_initialized a \<longleftrightarrow>
     AJoinMeetingReturn_join_state a \<noteq> None \<and>
     all_opt AMeetingServerInfo_initialized (AJoinMeetingReturn_server_info a)"

definition AJoinMeetingReturn_encode :: "AJoinMeetingReturn \<Rightarrow> bytes" where
  "AJoinMeetingReturn_encode a =
     enc_opt (\<lambda>v. enc_tag 1 WIRETYPE_VARINT @ enc_int32 v) (AJoinMeetingReturn_join_state a) @
     enc_opt (\<lambda>v. enc_tag 2 WIRETYPE_LENGTH_DELIMITED @ enc_bytes (AMeetingServerInfo_encode v)) (AJoinMeetingReturn_server_info a) @
     SerializeUnknownFieldsToArray (AJoinMeetingReturn_unknown a) []"

definition JoinMeetingReturn_sized :: "JoinMeetingReturn \<Rightarrow> bool" where
  "JoinMeetingReturn_sized m \<longleftrightarrow>
     JoinMeetingReturn_cached_size m = length (AJoinMeetingReturn_encode (JoinMeetingReturn_abs m)) \<and>
     (JoinMeetingReturn_has_server_info m \<longrightarrow> MeetingServerInfo_sized (JoinMeetingReturn_server_info m))"

subsection \<open>Accessors on the abstract message\<close>

lemma JoinMeetingReturn_abs_default [simp]:
  "JoinMeetingReturn_abs JoinMeetingReturn_default = AJoinMeetingReturn_empty"
  by (simp add: JoinMeetingReturn_abs_def JoinMeetingReturn_default_def AJoinMeetingReturn_empty_def JoinMeetingReturn_accessors JoinMeetingReturn_presence)

lemma JoinMeetingReturn_ok_default [simp]:
  "JoinMeetingReturn_ok JoinMeetingReturn_default"
  by (simp add: JoinMeetingReturn_ok_def JoinMeetingReturn_default_def field_ok JoinMeetingReturn_presence)

lemma JoinMeetingReturn_abs_accessors [simp]:
  "JoinMeetingReturn_abs (JoinMeetingReturn_set_join_state v m) = (JoinMeetingReturn_abs m)\<lparr>AJoinMeetingReturn_join_state := Some v\<rparr>"
  "JoinMeetingReturn_abs (JoinMeetingReturn_clear_join_state m) = (JoinMeetingReturn_abs m)\<lparr>AJoinMeetingReturn_join_state := None\<rparr>"
  "JoinMeetingReturn_abs (JoinMeetingReturn_clear_server_info m) = (JoinMeetingReturn_abs m)\<lparr>AJoinMeetingReturn_server_info := None\<rparr>"
  "JoinMeetingReturn_abs (snd (JoinMeetingReturn_release_server_info m)) = (JoinMeetingReturn_abs m)\<lparr>AJoinMeetingReturn_server_info := None\<rparr>"
  by (simp_all add: JoinMeetingReturn_abs_def JoinMeetingReturn_accessors JoinMeetingReturn_presence hasbits Let_def)

lemma JoinMeetingReturn_ok_accessors [simp]:
  "JoinMeetingReturn_ok m \<Longrightarrow> JoinMeetingReturn_ok (JoinMeetingReturn_set_join_state v m)"
  "JoinMeetingReturn_ok m \<Longrightarrow> JoinMeetingReturn_ok (JoinMeetingReturn_clear_join_state m)"
  "JoinMeetingReturn_ok m \<Longrightarrow> JoinMeetingReturn_ok (snd (JoinMeetingReturn_release_server_info m))"
  by (simp_all add: JoinMeetingReturn_ok_def Let_def JoinMeetingReturn_accessors JoinMeetingReturn_presence hasbits)

lemma JoinMeetingReturn_ok_clear_server_info [simp]:
  "JoinMeetingReturn_ok m \<Longrightarrow> JoinMeetingReturn_ok (JoinMeetingReturn_clear_server_info m)"
  using MeetingServerInfo_pointer(2) [of "JoinMeetingReturn_has_server_info m" "JoinMeetingReturn_server_info_fld m"]
  by (simp add: JoinMeetingReturn_ok_def JoinMeetingReturn_accessors JoinMeetingReturn_presence hasbits)

lemma JoinMeetingReturn_getters:
  "JoinMeetingReturn_ok m \<Longrightarrow> JoinMeetingReturn_join_state m = value_or 1 (AJoinMeetingReturn_join_state (JoinMeetingReturn_abs m))"
  "JoinMeetingReturn_ok m \<Longrightarrow> MeetingServerInfo_abs (JoinMeetingReturn_server_info m) = value_or AMeetingServerInfo_empty (AJoinMeetingReturn_server_info (JoinMeetingReturn_abs m))"
  by (simp_all add: JoinMeetingReturn_ok_def JoinMeetingReturn_abs_def JoinMeetingReturn_accessors MeetingServerInfo_pointer)

lemma JoinMeetingReturn_children_ok:
  "JoinMeetingReturn_ok m \<Longrightarrow> MeetingServerInfo_ok (JoinMeetingReturn_server_info m)"
  unfolding JoinMeetingReturn_ok_def JoinMeetingReturn_server_info_def
  by (blast intro: pointer_deref_ok MeetingServerInfo_ok_default)+

lemma JoinMeetingReturn_abs_mutable_server_info:
  "JoinMeetingReturn_ok m \<Longrightarrow> (\<And>t. MeetingServerInfo_ok t \<Longrightarrow> MeetingServerInfo_ok (g t) \<and> MeetingServerInfo_abs (g t) = G (MeetingServerInfo_abs t)) \<Longrightarrow>
     JoinMeetingReturn_ok (JoinMeetingReturn_mutable_server_info g m) \<and>
     JoinMeetingReturn_abs (JoinMeetingReturn_mutable_server_info g m) =
       (JoinMeetingReturn_abs m)\<lparr>AJoinMeetingReturn_server_info := Some (G (value_or AMeetingServerInfo_empty (AJoinMeetingReturn_server_info (JoinMeetingReturn_abs m))))\<rparr>"
  using JoinMeetingReturn_children_ok(1) [of m] by (simp add: JoinMeetingReturn_ok_def JoinMeetingReturn_abs_def JoinMeetingReturn_accessors JoinMeetingReturn_presence hasbits Let_def MeetingServerInfo_pointer)

subsection \<open>Clear, MergeFrom, CopyFrom, IsInitialized, Swap\<close>

lemma JoinMeetingReturn_Clear_ok:
  "JoinMeetingReturn_ok m \<Longrightarrow> JoinMeetingReturn_ok (JoinMeetingReturn_Clear m)"
  by (cases "JoinMeetingReturn_has_bits m AND 0xFF = 0")
    (simp_all add: JoinMeetingReturn_ok_def JoinMeetingReturn_Clear_def Let_def JoinMeetingReturn_presence hasbits MeetingServerInfo_pointer)

lemma JoinMeetingReturn_Clear_abs:
  "JoinMeetingReturn_abs (JoinMeetingReturn_Clear m) = AJoinMeetingReturn_empty"
  by (simp add: JoinMeetingReturn_abs_def AJoinMeetingReturn_empty_def JoinMeetingReturn_Clear_def Unknown_Clear_def Let_def JoinMeetingReturn_presence hasbits)

lemma JoinMeetingReturn_merge_absent:
  "\<not> JoinMeetingReturn_has_join_state from \<Longrightarrow> JoinMeetingReturn_merge_join_state from m = m"
  "\<not> JoinMeetingReturn_has_server_info from \<Longrightarrow> JoinMeetingReturn_merge_server_info from m = m"
  by (simp_all add: JoinMeetingReturn_merge_join_state_def JoinMeetingReturn_merge_server_info_def)

lemma JoinMeetingReturn_abs_merge_fields:
  "JoinMeetingReturn_abs (JoinMeetingReturn_merge_join_state from m) = AJoinMeetingReturn_join_state_update (or_else (AJoinMeetingReturn_join_state (JoinMeetingReturn_abs from))) (JoinMeetingReturn_abs m)"
  by (simp_all add: JoinMeetingReturn_merge_join_state_def JoinMeetingReturn_abs_def shown_def JoinMeetingReturn_accessors JoinMeetingReturn_presence hasbits)

lemma JoinMeetingReturn_ok_merge_fields:
  "JoinMeetingReturn_ok m \<Longrightarrow> JoinMeetingReturn_ok (JoinMeetingReturn_merge_join_state from m)"
  by (simp_all add: JoinMeetingReturn_merge_join_state_def)

lemma JoinMeetingReturn_merge_server_info_step:
  assumes "JoinMeetingReturn_ok m" "JoinMeetingReturn_ok from"
  shows "JoinMeetingReturn_ok (JoinMeetingReturn_merge_server_info from m) \<and>
    JoinMeetingReturn_abs (JoinMeetingReturn_merge_server_info from m) =
      AJoinMeetingReturn_server_info_update (merged AMeetingServerInfo_merge AMeetingServerInfo_empty (AJoinMeetingReturn_server_info (JoinMeetingReturn_abs from))) (JoinMeetingReturn_abs m)"
proof (cases "JoinMeetingReturn_has_server_info from")
  case True
  then have src: "MeetingServerInfo_ok (JoinMeetingReturn_server_info from)" "AJoinMeetingReturn_server_info (JoinMeetingReturn_abs from) = Some (MeetingServerInfo_abs (JoinMeetingReturn_server_info from))"
    using assms(2) by (simp_all add: JoinMeetingReturn_children_ok JoinMeetingReturn_abs_def)
  have "JoinMeetingReturn_ok (JoinMeetingReturn_mutable_server_info (MeetingServerInfo_MergeFrom (JoinMeetingReturn_server_info from)) m) \<and>
    JoinMeetingReturn_abs (JoinMeetingReturn_mutable_server_info (MeetingServerInfo_MergeFrom (JoinMeetingReturn_server_info from)) m) =
      (JoinMeetingReturn_abs m)\<lparr>AJoinMeetingReturn_server_info := Some (AMeetingServerInfo_merge (MeetingServerInfo_abs (JoinMeetingReturn_server_info from)) (value_or AMeetingServerInfo_empty (AJoinMeetingReturn_server_info (JoinMeetingReturn_abs m))))\<rparr>"
    by (rule JoinMeetingReturn_abs_mutable_server_info [OF assms(1)]) (simp add: MeetingServerInfo_MergeFrom_ok MeetingServerInfo_MergeFrom_abs src)
  with True src show ?thesis
    by (cases "JoinMeetingReturn_abs m") (simp add: JoinMeetingReturn_merge_server_info_def)
next
  case False
  with assms(1) show ?thesis
    by (cases "JoinMeetingReturn_abs m") (simp add: JoinMeetingReturn_merge_server_info_def JoinMeetingReturn_abs_def [of "from"])
qed

text \<open>The tests of whole bytes of presence bits only save work.\<close>

lemma JoinMeetingReturn_MergeFrom_steps:
  "JoinMeetingReturn_MergeFrom from m =
     (let m = JoinMeetingReturn_merge_join_state from m;
          m = JoinMeetingReturn_merge_server_info from m
      in m\<lparr>JoinMeetingReturn_unknown := JoinMeetingReturn_unknown m @ JoinMeetingReturn_unknown from\<rparr>)"
  by (cases "JoinMeetingReturn_has_bits from AND 0xFF = 0")
    (simp_all add: JoinMeetingReturn_MergeFrom_def Let_def Unknown_MergeFrom_append JoinMeetingReturn_merge_absent JoinMeetingReturn_presence hasbits)

lemma JoinMeetingReturn_MergeFrom_step:
  assumes "JoinMeetingReturn_ok m" "JoinMeetingReturn_ok from"
  shows "JoinMeetingReturn_ok (JoinMeetingReturn_MergeFrom from m)"
    and "JoinMeetingReturn_abs (JoinMeetingReturn_MergeFrom from m) = AJoinMeetingReturn_merge (JoinMeetingReturn_abs from) (JoinMeetingReturn_abs m)"
proof -
  have u: "JoinMeetingReturn_ok (x\<lparr>JoinMeetingReturn_unknown := u\<rparr>) = JoinMeetingReturn_ok x" "JoinMeetingReturn_abs (x\<lparr>JoinMeetingReturn_unknown := u\<rparr>) = (JoinMeetingReturn_abs x)\<lparr>AJoinMeetingReturn_unknown := u\<rparr>" for x u
    by (simp_all add: JoinMeetingReturn_ok_def JoinMeetingReturn_abs_def JoinMeetingReturn_accessors JoinMeetingReturn_presence)
  note steps = JoinMeetingReturn_MergeFrom_steps JoinMeetingReturn_ok_merge_fields JoinMeetingReturn_abs_merge_fields JoinMeetingReturn_merge_server_info_step
  show "JoinMeetingReturn_ok (JoinMeetingReturn_MergeFrom from m)"
    using assms by (simp add: Let_def u steps)
  have k: "JoinMeetingReturn_unknown x = AJoinMeetingReturn_unknown (JoinMeetingReturn_abs x)" for x
    by (simp add: JoinMeetingReturn_abs_def)
  show "JoinMeetingReturn_abs (JoinMeetingReturn_MergeFrom from m) = AJoinMeetingReturn_merge (JoinMeetingReturn_abs from) (JoinMeetingReturn_abs m)"
    using assms by (cases "JoinMeetingReturn_abs m") (simp add: Let_def u k steps AJoinMeetingReturn_merge_def)
qed

lemmas JoinMeetingReturn_MergeFrom_ok = JoinMeetingReturn_MergeFrom_step(1)
lemmas JoinMeetingReturn_MergeFrom_abs = JoinMeetingReturn_MergeFrom_step(2)

lemma JoinMeetingReturn_merge_empty [simp]:
  "AJoinMeetingReturn_merge a AJoinMeetingReturn_empty = a"
  by (simp add: AJoinMeetingReturn_merge_def AJoinMeetingReturn_empty_def merged_empty MeetingServerInfo_merge_empty)

lemma JoinMeetingReturn_CopyFrom_ok:
  "JoinMeetingReturn_ok m \<Longrightarrow> JoinMeetingReturn_ok from \<Longrightarrow> JoinMeetingReturn_ok (JoinMeetingReturn_CopyFrom from m)"
  by (simp add: JoinMeetingReturn_CopyFrom_def JoinMeetingReturn_MergeFrom_ok JoinMeetingReturn_Clear_ok)

lemma JoinMeetingReturn_CopyFrom_abs:
  "JoinMeetingReturn_ok m \<Longrightarrow> JoinMeetingReturn_ok from \<Longrightarrow> JoinMeetingReturn_abs (JoinMeetingReturn_CopyFrom from m) = JoinMeetingReturn_abs from"
  by (simp add: JoinMeetingReturn_CopyFrom_def JoinMeetingReturn_MergeFrom_abs JoinMeetingReturn_Clear_ok JoinMeetingReturn_Clear_abs)

lemma JoinMeetingReturn_IsInitialized_abs:
  assumes "JoinMeetingReturn_ok m"
  shows "JoinMeetingReturn_IsInitialized m \<longleftrightarrow> AJoinMeetingReturn_initialized (JoinMeetingReturn_abs m)"
proof -
  have "all_opt AMeetingServerInfo_initialized (shown b (MeetingServerInfo_abs t)) \<longleftrightarrow> b \<longrightarrow> MeetingServerInfo_IsInitialized t" if "MeetingServerInfo_ok t" for b t
    using that by (simp add: shown_def MeetingServerInfo_IsInitialized_abs)
  with JoinMeetingReturn_children_ok [OF assms] show ?thesis
    by (simp add: JoinMeetingReturn_IsInitialized_def AJoinMeetingReturn_initialized_def JoinMeetingReturn_abs_def JoinMeetingReturn_presence hasbits)
qed

lemma JoinMeetingReturn_Swap_exchanges:
  "JoinMeetingReturn_Swap m other = (other, m)"
  by (simp add: JoinMeetingReturn_Swap_def)

subsection \<open>ByteSize and SerializeWithCachedSizesToArray\<close>

lemma JoinMeetingReturn_write_fields:
  "JoinMeetingReturn_write_join_state m t = t @ enc_opt (\<lambda>v. enc_tag 1 WIRETYPE_VARINT @ enc_int32 v) (AJoinMeetingReturn_join_state (JoinMeetingReturn_abs m))"
  by (simp_all add: JoinMeetingReturn_write_join_state_def JoinMeetingReturn_abs_def wire shown_def)

lemma JoinMeetingReturn_unknown_abs:
  "AJoinMeetingReturn_unknown (JoinMeetingReturn_abs m) = JoinMeetingReturn_unknown m"
  by (simp add: JoinMeetingReturn_abs_def)

lemma JoinMeetingReturn_size_absent:
  "\<not> JoinMeetingReturn_has_join_state (snd s) \<Longrightarrow> JoinMeetingReturn_size_join_state s = s"
  "\<not> JoinMeetingReturn_has_server_info (snd s) \<Longrightarrow> JoinMeetingReturn_size_server_info s = s"
  by (simp_all add: JoinMeetingReturn_size_join_state_def JoinMeetingReturn_size_server_info_def case_prod_beta)

lemma JoinMeetingReturn_size_has_bits:
  "JoinMeetingReturn_has_bits (snd (JoinMeetingReturn_size_join_state s)) = JoinMeetingReturn_has_bits (snd s)"
  "JoinMeetingReturn_has_bits (snd (JoinMeetingReturn_size_server_info s)) = JoinMeetingReturn_has_bits (snd s)"
  by (simp_all add: JoinMeetingReturn_size_join_state_def JoinMeetingReturn_size_server_info_def case_prod_beta Let_def split: option.split)

lemma JoinMeetingReturn_size_fields:
  "JoinMeetingReturn_size_join_state (n, m) = (n + length (enc_opt (\<lambda>v. enc_tag 1 WIRETYPE_VARINT @ enc_int32 v) (AJoinMeetingReturn_join_state (JoinMeetingReturn_abs m))), m)"
  by (simp_all add: JoinMeetingReturn_size_join_state_def JoinMeetingReturn_abs_def shown_def
      length_enc_int32 length_enc_uint32 length_enc_enum length_enc_bytes)

lemma JoinMeetingReturn_size_skip:
  "JoinMeetingReturn_has_bits (snd s) AND 0xFF = 0 \<Longrightarrow>
     JoinMeetingReturn_size_server_info (JoinMeetingReturn_size_join_state s) = s"
  by (simp_all add: JoinMeetingReturn_size_absent JoinMeetingReturn_presence hasbits)

lemma JoinMeetingReturn_field_sizes_steps:
  "JoinMeetingReturn_field_sizes m =
     JoinMeetingReturn_size_server_info 
       (JoinMeetingReturn_size_join_state (0, m))"
  by (cases "JoinMeetingReturn_has_bits m AND 0xFF = 0")
    (simp_all add: JoinMeetingReturn_field_sizes_def Let_def JoinMeetingReturn_size_skip JoinMeetingReturn_size_has_bits)

definition JoinMeetingReturn_resize_server_info :: "JoinMeetingReturn \<Rightarrow> JoinMeetingReturn" where
  "JoinMeetingReturn_resize_server_info m =
     m\<lparr>JoinMeetingReturn_server_info_fld := if JoinMeetingReturn_has_server_info m then map_option (\<lambda>p. snd (MeetingServerInfo_ByteSize p)) (JoinMeetingReturn_server_info_fld m) else JoinMeetingReturn_server_info_fld m\<rparr>"

lemma JoinMeetingReturn_resize_fields [simp]:
  "JoinMeetingReturn_server_info_fld (JoinMeetingReturn_resize_server_info m) = (if JoinMeetingReturn_has_server_info m then map_option (\<lambda>p. snd (MeetingServerInfo_ByteSize p)) (JoinMeetingReturn_server_info_fld m) else JoinMeetingReturn_server_info_fld m)"
  "JoinMeetingReturn_has_bits (JoinMeetingReturn_resize_server_info m) = JoinMeetingReturn_has_bits m"
  "JoinMeetingReturn_unknown (JoinMeetingReturn_resize_server_info m) = JoinMeetingReturn_unknown m"
  by (simp_all add: JoinMeetingReturn_resize_server_info_def)

lemma JoinMeetingReturn_size_messages:
  "JoinMeetingReturn_ok m \<Longrightarrow> JoinMeetingReturn_size_server_info (n, m) =
     (n + length (enc_opt (\<lambda>v. enc_tag 2 WIRETYPE_LENGTH_DELIMITED @ enc_bytes (AMeetingServerInfo_encode v)) (AJoinMeetingReturn_server_info (JoinMeetingReturn_abs m))), JoinMeetingReturn_resize_server_info m)"
  by (auto simp: JoinMeetingReturn_size_server_info_def JoinMeetingReturn_resize_server_info_def JoinMeetingReturn_ok_def pointer_ok_def JoinMeetingReturn_abs_def JoinMeetingReturn_server_info_def MessageSizeNoVirtual_def
      MeetingServerInfo_ByteSize_fst length_enc_bytes(2) [symmetric] BytesSize_def case_prod_beta split: option.splits)

text \<open>Computing the sizes of the embedded messages changes nothing visible.\<close>

lemma JoinMeetingReturn_MeetingServerInfo_pointer_resize [simp]:
  "pointer_ok MeetingServerInfo_ok MeetingServerInfo_abs d has p \<Longrightarrow>
     pointer_ok MeetingServerInfo_ok MeetingServerInfo_abs d has (if has then map_option (\<lambda>p. snd (MeetingServerInfo_ByteSize p)) p else p)"
  "pointer_ok MeetingServerInfo_ok MeetingServerInfo_abs d has p \<Longrightarrow>
     shown has (MeetingServerInfo_abs (deref_pointer MeetingServerInfo_default (if has then map_option (\<lambda>p. snd (MeetingServerInfo_ByteSize p)) p else p))) =
       shown has (MeetingServerInfo_abs (deref_pointer MeetingServerInfo_default p))"
  "pointer_ok MeetingServerInfo_ok MeetingServerInfo_abs d has p \<Longrightarrow> has \<Longrightarrow> MeetingServerInfo_sized (deref_pointer MeetingServerInfo_default (map_option (\<lambda>p. snd (MeetingServerInfo_ByteSize p)) p))"
  by (cases p; auto simp: pointer_ok_def shown_def MeetingServerInfo_ByteSize_snd)+

lemma JoinMeetingReturn_resize_server_info_ok [simp]:
  "JoinMeetingReturn_ok m \<Longrightarrow> JoinMeetingReturn_ok (JoinMeetingReturn_resize_server_info m)"
  "JoinMeetingReturn_ok m \<Longrightarrow> JoinMeetingReturn_abs (JoinMeetingReturn_resize_server_info m) = JoinMeetingReturn_abs m"
  using JoinMeetingReturn_MeetingServerInfo_pointer_resize(1,2) [of AMeetingServerInfo_empty "JoinMeetingReturn_has_server_info m" "JoinMeetingReturn_server_info_fld m"]
  by (simp_all add: JoinMeetingReturn_ok_def JoinMeetingReturn_abs_def JoinMeetingReturn_resize_server_info_def  JoinMeetingReturn_presence JoinMeetingReturn_accessors)

lemma JoinMeetingReturn_ByteSize_eq:
  "JoinMeetingReturn_ok m \<Longrightarrow> JoinMeetingReturn_ByteSize m =
     (length (AJoinMeetingReturn_encode (JoinMeetingReturn_abs m)),
      (JoinMeetingReturn_resize_server_info m)\<lparr>JoinMeetingReturn_cached_size := length (AJoinMeetingReturn_encode (JoinMeetingReturn_abs m))\<rparr>)"
  by (simp add: JoinMeetingReturn_ByteSize_def JoinMeetingReturn_field_sizes_steps unknown_size Let_def JoinMeetingReturn_size_fields JoinMeetingReturn_size_messages ComputeUnknown_length AJoinMeetingReturn_encode_def add.assoc add.left_commute add.commute JoinMeetingReturn_unknown_abs)

lemma JoinMeetingReturn_ByteSize_fst:
  "JoinMeetingReturn_ok m \<Longrightarrow> fst (JoinMeetingReturn_ByteSize m) = length (AJoinMeetingReturn_encode (JoinMeetingReturn_abs m))"
  by (simp add: JoinMeetingReturn_ByteSize_eq)

lemma JoinMeetingReturn_cached_simps [simp]:
  "JoinMeetingReturn_ok (m\<lparr>JoinMeetingReturn_cached_size := c\<rparr>) = JoinMeetingReturn_ok m" "JoinMeetingReturn_abs (m\<lparr>JoinMeetingReturn_cached_size := c\<rparr>) = JoinMeetingReturn_abs m"
  by (simp_all add: JoinMeetingReturn_ok_def JoinMeetingReturn_abs_def JoinMeetingReturn_accessors JoinMeetingReturn_presence)

lemma JoinMeetingReturn_ByteSize_snd:
  "JoinMeetingReturn_ok m \<Longrightarrow> JoinMeetingReturn_ok (snd (JoinMeetingReturn_ByteSize m)) \<and> JoinMeetingReturn_abs (snd (JoinMeetingReturn_ByteSize m)) = JoinMeetingReturn_abs m \<and> JoinMeetingReturn_sized (snd (JoinMeetingReturn_ByteSize m))"
  by (simp add: JoinMeetingReturn_ByteSize_eq JoinMeetingReturn_sized_def, simp add: JoinMeetingReturn_ok_def JoinMeetingReturn_server_info_def JoinMeetingReturn_presence hasbits,
      blast intro: JoinMeetingReturn_MeetingServerInfo_pointer_resize(3))

lemma JoinMeetingReturn_write_messages:
  "JoinMeetingReturn_ok m \<Longrightarrow> JoinMeetingReturn_sized m \<Longrightarrow> JoinMeetingReturn_write_server_info m t = t @ enc_opt (\<lambda>v. enc_tag 2 WIRETYPE_LENGTH_DELIMITED @ enc_bytes (AMeetingServerInfo_encode v)) (AJoinMeetingReturn_server_info (JoinMeetingReturn_abs m))"
  by (simp_all add: JoinMeetingReturn_write_server_info_def JoinMeetingReturn_abs_def JoinMeetingReturn_sized_def shown_def WriteMessageNoVirtualToArray_def wire enc_bytes_def
      MeetingServerInfo_SerializeWithCachedSizesToArray_eq MeetingServerInfo_sized_def JoinMeetingReturn_children_ok)

lemma JoinMeetingReturn_SerializeWithCachedSizesToArray_eq:
  "JoinMeetingReturn_ok m \<Longrightarrow> JoinMeetingReturn_sized m \<Longrightarrow>
     JoinMeetingReturn_SerializeWithCachedSizesToArray m t = t @ AJoinMeetingReturn_encode (JoinMeetingReturn_abs m)"
  by (simp add: JoinMeetingReturn_SerializeWithCachedSizesToArray_def Let_def JoinMeetingReturn_write_fields JoinMeetingReturn_write_messages AJoinMeetingReturn_encode_def JoinMeetingReturn_unknown_abs
      unknown_serialize)

end
