(* ===== verification/Pb_User.thy ===== *)
theory Pb_User
  imports Has_Bits
begin

text \<open>
  The generated messages \<^verbatim>\<open>User\<close> and \<^verbatim>\<open>UserList\<close>
  of \<^verbatim>\<open>message.pb.h\<close> and \<^verbatim>\<open>message.pb.cc\<close>.
\<close>

section \<open>The message \<^verbatim>\<open>User\<close>\<close>

subsection \<open>Data\<close>

record User =
  User_user_name_fld :: pb_string
  User_password_fld :: pb_string
  User_identity_fld :: int32
  User_unknown :: unknown_field_set
  User_cached_size :: nat
  User_has_bits :: uint32

definition User_default :: User where
  "User_default =
     \<lparr>User_user_name_fld = None,
      User_password_fld = None,
      User_identity_fld = 1,
      User_unknown = [],
      User_cached_size = 0,
      User_has_bits = 0\<rparr>"

subsection \<open>Accessors\<close>

definition User_has_user_name :: "User \<Rightarrow> bool" where
  "User_has_user_name m \<longleftrightarrow> User_has_bits m AND 1 \<noteq> 0"

definition User_set_has_user_name :: "User \<Rightarrow> User" where
  "User_set_has_user_name m = m\<lparr>User_has_bits := User_has_bits m OR 1\<rparr>"

definition User_clear_has_user_name :: "User \<Rightarrow> User" where
  "User_clear_has_user_name m = m\<lparr>User_has_bits := User_has_bits m AND NOT 1\<rparr>"

definition User_clear_user_name :: "User \<Rightarrow> User" where
  "User_clear_user_name m =
     User_clear_has_user_name (m\<lparr>User_user_name_fld := map_option (\<lambda>_. []) (User_user_name_fld m)\<rparr>)"

definition User_user_name :: "User \<Rightarrow> bytes" where
  "User_user_name m = deref_string (User_user_name_fld m)"

definition User_set_user_name :: "bytes \<Rightarrow> User \<Rightarrow> User" where
  "User_set_user_name value m = (User_set_has_user_name m)\<lparr>User_user_name_fld := Some value\<rparr>"

definition User_set_user_name_cstr :: "bytes \<Rightarrow> User \<Rightarrow> User" where
  "User_set_user_name_cstr value m =
     (User_set_has_user_name m)\<lparr>User_user_name_fld := Some (c_string value)\<rparr>"

definition User_set_user_name_sized :: "bytes \<Rightarrow> nat \<Rightarrow> User \<Rightarrow> User" where
  "User_set_user_name_sized value count m =
     (User_set_has_user_name m)\<lparr>User_user_name_fld := Some (take count value)\<rparr>"

definition User_mutable_user_name :: "(bytes \<Rightarrow> bytes) \<Rightarrow> User \<Rightarrow> User" where
  "User_mutable_user_name f m =
     (let m = User_set_has_user_name m in m\<lparr>User_user_name_fld := Some (f (own_string (User_user_name_fld m)))\<rparr>)"

definition User_release_user_name :: "User \<Rightarrow> bytes option \<times> User" where
  "User_release_user_name m =
     (let m = User_clear_has_user_name m in (User_user_name_fld m, m\<lparr>User_user_name_fld := None\<rparr>))"

definition User_has_password :: "User \<Rightarrow> bool" where
  "User_has_password m \<longleftrightarrow> User_has_bits m AND 0x2 \<noteq> 0"

definition User_set_has_password :: "User \<Rightarrow> User" where
  "User_set_has_password m = m\<lparr>User_has_bits := User_has_bits m OR 0x2\<rparr>"

definition User_clear_has_password :: "User \<Rightarrow> User" where
  "User_clear_has_password m = m\<lparr>User_has_bits := User_has_bits m AND NOT 0x2\<rparr>"

definition User_clear_password :: "User \<Rightarrow> User" where
  "User_clear_password m =
     User_clear_has_password (m\<lparr>User_password_fld := map_option (\<lambda>_. []) (User_password_fld m)\<rparr>)"

definition User_password :: "User \<Rightarrow> bytes" where
  "User_password m = deref_string (User_password_fld m)"

definition User_set_password :: "bytes \<Rightarrow> User \<Rightarrow> User" where
  "User_set_password value m = (User_set_has_password m)\<lparr>User_password_fld := Some value\<rparr>"

definition User_set_password_cstr :: "bytes \<Rightarrow> User \<Rightarrow> User" where
  "User_set_password_cstr value m =
     (User_set_has_password m)\<lparr>User_password_fld := Some (c_string value)\<rparr>"

definition User_set_password_sized :: "bytes \<Rightarrow> nat \<Rightarrow> User \<Rightarrow> User" where
  "User_set_password_sized value count m =
     (User_set_has_password m)\<lparr>User_password_fld := Some (take count value)\<rparr>"

definition User_mutable_password :: "(bytes \<Rightarrow> bytes) \<Rightarrow> User \<Rightarrow> User" where
  "User_mutable_password f m =
     (let m = User_set_has_password m in m\<lparr>User_password_fld := Some (f (own_string (User_password_fld m)))\<rparr>)"

definition User_release_password :: "User \<Rightarrow> bytes option \<times> User" where
  "User_release_password m =
     (let m = User_clear_has_password m in (User_password_fld m, m\<lparr>User_password_fld := None\<rparr>))"

definition User_has_identity :: "User \<Rightarrow> bool" where
  "User_has_identity m \<longleftrightarrow> User_has_bits m AND 0x4 \<noteq> 0"

definition User_set_has_identity :: "User \<Rightarrow> User" where
  "User_set_has_identity m = m\<lparr>User_has_bits := User_has_bits m OR 0x4\<rparr>"

definition User_clear_has_identity :: "User \<Rightarrow> User" where
  "User_clear_has_identity m = m\<lparr>User_has_bits := User_has_bits m AND NOT 0x4\<rparr>"

definition User_clear_identity :: "User \<Rightarrow> User" where
  "User_clear_identity m = User_clear_has_identity (m\<lparr>User_identity_fld := 1\<rparr>)"

definition User_identity :: "User \<Rightarrow> int32" where
  "User_identity m = User_identity_fld m"

definition User_set_identity :: "int32 \<Rightarrow> User \<Rightarrow> User" where
  "User_set_identity value m = (User_set_has_identity m)\<lparr>User_identity_fld := value\<rparr>"

lemmas User_presence = User_has_user_name_def User_set_has_user_name_def User_clear_has_user_name_def
    User_has_password_def User_set_has_password_def User_clear_has_password_def User_has_identity_def
    User_set_has_identity_def User_clear_has_identity_def

lemmas User_accessors = User_clear_user_name_def User_user_name_def User_set_user_name_def
    User_set_user_name_cstr_def User_set_user_name_sized_def User_mutable_user_name_def
    User_release_user_name_def User_clear_password_def User_password_def User_set_password_def
    User_set_password_cstr_def User_set_password_sized_def User_mutable_password_def
    User_release_password_def User_clear_identity_def User_identity_def User_set_identity_def

subsection \<open>Operations on whole messages\<close>

definition User_Clear :: "User \<Rightarrow> User" where
  "User_Clear m =
     (let m = (if User_has_bits m AND 0xFF \<noteq> 0
           then m\<lparr>User_user_name_fld := (if User_has_user_name m then map_option (\<lambda>_. []) (User_user_name_fld m) else User_user_name_fld m),
             User_password_fld := (if User_has_password m then map_option (\<lambda>_. []) (User_password_fld m) else User_password_fld m),
             User_identity_fld := 1\<rparr>
           else m)
      in m\<lparr>User_has_bits := 0, User_unknown := Unknown_Clear (User_unknown m)\<rparr>)"

definition User_merge_user_name :: "User \<Rightarrow> User \<Rightarrow> User" where
  "User_merge_user_name from m = (if User_has_user_name from then User_set_user_name (User_user_name from) m else m)"

definition User_merge_password :: "User \<Rightarrow> User \<Rightarrow> User" where
  "User_merge_password from m = (if User_has_password from then User_set_password (User_password from) m else m)"

definition User_merge_identity :: "User \<Rightarrow> User \<Rightarrow> User" where
  "User_merge_identity from m = (if User_has_identity from then User_set_identity (User_identity from) m else m)"

definition User_MergeFrom :: "User \<Rightarrow> User \<Rightarrow> User" where
  "User_MergeFrom from m =
     (let m = (if User_has_bits from AND 0xFF \<noteq> 0 then
             let m = User_merge_user_name from m;
                 m = User_merge_password from m;
                 m = User_merge_identity from m
             in m
           else m)
      in m\<lparr>User_unknown := Unknown_MergeFrom (User_unknown m) (User_unknown from)\<rparr>)"

definition User_CopyFrom :: "User \<Rightarrow> User \<Rightarrow> User" where
  "User_CopyFrom from m = User_MergeFrom from (User_Clear m)"

definition User_IsInitialized :: "User \<Rightarrow> bool" where
  "User_IsInitialized m \<longleftrightarrow>
     (if User_has_bits m AND 1 \<noteq> 1 then False
      else True)"

definition User_Swap :: "User \<Rightarrow> User \<Rightarrow> User \<times> User" where
  "User_Swap m other =
     (m\<lparr>User_user_name_fld := User_user_name_fld other,
        User_password_fld := User_password_fld other,
        User_identity_fld := User_identity_fld other,
        User_has_bits := User_has_bits other,
        User_unknown := User_unknown other,
        User_cached_size := User_cached_size other\<rparr>,
      other\<lparr>User_user_name_fld := User_user_name_fld m,
        User_password_fld := User_password_fld m,
        User_identity_fld := User_identity_fld m,
        User_has_bits := User_has_bits m,
        User_unknown := User_unknown m,
        User_cached_size := User_cached_size m\<rparr>)"

definition User_size_user_name :: "nat \<times> User \<Rightarrow> nat \<times> User" where
  "User_size_user_name = (\<lambda>(total, m). (if User_has_user_name m then (total + (1 + StringSize (User_user_name m)), m) else (total, m)))"

definition User_size_password :: "nat \<times> User \<Rightarrow> nat \<times> User" where
  "User_size_password = (\<lambda>(total, m). (if User_has_password m then (total + (1 + StringSize (User_password m)), m) else (total, m)))"

definition User_size_identity :: "nat \<times> User \<Rightarrow> nat \<times> User" where
  "User_size_identity = (\<lambda>(total, m). (if User_has_identity m then (total + (1 + EnumSize (User_identity m)), m) else (total, m)))"

definition User_field_sizes :: "User \<Rightarrow> nat \<times> User" where
  "User_field_sizes m =
     (let s = (0, m);
          s = (if User_has_bits m AND 0xFF \<noteq> 0 then
             let s = User_size_user_name s;
                 s = User_size_password s;
                 s = User_size_identity s
             in s
           else s)
      in s)"

definition User_ByteSize :: "User \<Rightarrow> nat \<times> User" where
  "User_ByteSize m =
     (let (total, m) = User_field_sizes m;
          total = (if User_unknown m \<noteq> [] then total + ComputeUnknownFieldsSize (User_unknown m) else total)
      in (total, m\<lparr>User_cached_size := total\<rparr>))"

definition User_write_user_name :: "User \<Rightarrow> bytes \<Rightarrow> bytes" where
  "User_write_user_name m target =
     (if User_has_user_name m then WriteStringToArray 1 (User_user_name m) target else target)"

definition User_write_password :: "User \<Rightarrow> bytes \<Rightarrow> bytes" where
  "User_write_password m target =
     (if User_has_password m then WriteStringToArray 2 (User_password m) target else target)"

definition User_write_identity :: "User \<Rightarrow> bytes \<Rightarrow> bytes" where
  "User_write_identity m target =
     (if User_has_identity m then WriteEnumToArray 3 (User_identity m) target else target)"

definition User_SerializeWithCachedSizesToArray :: "User \<Rightarrow> bytes \<Rightarrow> bytes" where
  "User_SerializeWithCachedSizesToArray m target =
     (let target = User_write_user_name m target;
          target = User_write_password m target;
          target = User_write_identity m target
      in if User_unknown m \<noteq> [] then SerializeUnknownFieldsToArray (User_unknown m) target else target)"

subsection \<open>The abstract message\<close>

record AUser =
  AUser_user_name :: "bytes option"
  AUser_password :: "bytes option"
  AUser_identity :: "int32 option"
  AUser_unknown :: unknown_field_set

definition AUser_empty :: AUser where
  "AUser_empty = \<lparr>AUser_user_name = None,
     AUser_password = None,
     AUser_identity = None,
     AUser_unknown = []\<rparr>"

definition User_abs :: "User \<Rightarrow> AUser" where
  "User_abs m = \<lparr>AUser_user_name = shown (User_has_user_name m) (User_user_name m),
     AUser_password = shown (User_has_password m) (User_password m),
     AUser_identity = shown (User_has_identity m) (User_identity m),
     AUser_unknown = User_unknown m\<rparr>"

definition User_ok :: "User \<Rightarrow> bool" where
  "User_ok m \<longleftrightarrow>
     string_ok (User_has_user_name m) (User_user_name_fld m) \<and>
     string_ok (User_has_password m) (User_password_fld m) \<and>
     scalar_ok (User_has_identity m) 1 (User_identity_fld m)"

definition AUser_merge :: "AUser \<Rightarrow> AUser \<Rightarrow> AUser" where
  "AUser_merge from to = \<lparr>AUser_user_name = or_else (AUser_user_name from) (AUser_user_name to),
     AUser_password = or_else (AUser_password from) (AUser_password to),
     AUser_identity = or_else (AUser_identity from) (AUser_identity to),
     AUser_unknown = AUser_unknown to @ AUser_unknown from\<rparr>"

definition AUser_initialized :: "AUser \<Rightarrow> bool" where
  "AUser_initialized a \<longleftrightarrow>
     AUser_user_name a \<noteq> None"

definition AUser_encode :: "AUser \<Rightarrow> bytes" where
  "AUser_encode a =
     enc_opt (\<lambda>v. enc_tag 1 WIRETYPE_LENGTH_DELIMITED @ enc_bytes v) (AUser_user_name a) @
     enc_opt (\<lambda>v. enc_tag 2 WIRETYPE_LENGTH_DELIMITED @ enc_bytes v) (AUser_password a) @
     enc_opt (\<lambda>v. enc_tag 3 WIRETYPE_VARINT @ enc_int32 v) (AUser_identity a) @
     SerializeUnknownFieldsToArray (AUser_unknown a) []"

definition User_sized :: "User \<Rightarrow> bool" where
  "User_sized m \<longleftrightarrow>
     User_cached_size m = length (AUser_encode (User_abs m))"

subsection \<open>Accessors on the abstract message\<close>

lemma User_abs_default [simp]:
  "User_abs User_default = AUser_empty"
  by (simp add: User_abs_def User_default_def AUser_empty_def User_accessors User_presence)

lemma User_ok_default [simp]:
  "User_ok User_default"
  by (simp add: User_ok_def User_default_def field_ok User_presence)

lemma User_abs_accessors [simp]:
  "User_abs (User_set_user_name s m) = (User_abs m)\<lparr>AUser_user_name := Some s\<rparr>"
  "User_abs (User_set_user_name_cstr s m) = (User_abs m)\<lparr>AUser_user_name := Some (c_string s)\<rparr>"
  "User_abs (User_set_user_name_sized s c m) = (User_abs m)\<lparr>AUser_user_name := Some (take c s)\<rparr>"
  "User_abs (User_clear_user_name m) = (User_abs m)\<lparr>AUser_user_name := None\<rparr>"
  "User_abs (snd (User_release_user_name m)) = (User_abs m)\<lparr>AUser_user_name := None\<rparr>"
  "User_abs (User_set_password s m) = (User_abs m)\<lparr>AUser_password := Some s\<rparr>"
  "User_abs (User_set_password_cstr s m) = (User_abs m)\<lparr>AUser_password := Some (c_string s)\<rparr>"
  "User_abs (User_set_password_sized s c m) = (User_abs m)\<lparr>AUser_password := Some (take c s)\<rparr>"
  "User_abs (User_clear_password m) = (User_abs m)\<lparr>AUser_password := None\<rparr>"
  "User_abs (snd (User_release_password m)) = (User_abs m)\<lparr>AUser_password := None\<rparr>"
  "User_abs (User_set_identity v m) = (User_abs m)\<lparr>AUser_identity := Some v\<rparr>"
  "User_abs (User_clear_identity m) = (User_abs m)\<lparr>AUser_identity := None\<rparr>"
  by (simp_all add: User_abs_def User_accessors User_presence hasbits Let_def)

lemma User_ok_accessors [simp]:
  "User_ok m \<Longrightarrow> User_ok (User_set_user_name s m)"
  "User_ok m \<Longrightarrow> User_ok (User_set_user_name_cstr s m)"
  "User_ok m \<Longrightarrow> User_ok (User_set_user_name_sized s c m)"
  "User_ok m \<Longrightarrow> User_ok (User_clear_user_name m)"
  "User_ok m \<Longrightarrow> User_ok (snd (User_release_user_name m))"
  "User_ok m \<Longrightarrow> User_ok (User_set_password s m)"
  "User_ok m \<Longrightarrow> User_ok (User_set_password_cstr s m)"
  "User_ok m \<Longrightarrow> User_ok (User_set_password_sized s c m)"
  "User_ok m \<Longrightarrow> User_ok (User_clear_password m)"
  "User_ok m \<Longrightarrow> User_ok (snd (User_release_password m))"
  "User_ok m \<Longrightarrow> User_ok (User_set_identity v m)"
  "User_ok m \<Longrightarrow> User_ok (User_clear_identity m)"
  by (simp_all add: User_ok_def Let_def User_accessors User_presence hasbits)

lemma User_getters:
  "User_ok m \<Longrightarrow> User_user_name m = value_or [] (AUser_user_name (User_abs m))"
  "User_ok m \<Longrightarrow> User_password m = value_or [] (AUser_password (User_abs m))"
  "User_ok m \<Longrightarrow> User_identity m = value_or 1 (AUser_identity (User_abs m))"
  by (simp_all add: User_ok_def User_abs_def User_accessors)

subsection \<open>Clear, MergeFrom, CopyFrom, IsInitialized, Swap\<close>

lemma User_Clear_ok:
  "User_ok m \<Longrightarrow> User_ok (User_Clear m)"
  by (cases "User_has_bits m AND 0xFF = 0")
    (simp_all add: User_ok_def User_Clear_def Let_def User_presence hasbits)

lemma User_Clear_abs:
  "User_abs (User_Clear m) = AUser_empty"
  by (simp add: User_abs_def AUser_empty_def User_Clear_def Unknown_Clear_def Let_def User_presence hasbits)

lemma User_merge_absent:
  "\<not> User_has_user_name from \<Longrightarrow> User_merge_user_name from m = m"
  "\<not> User_has_password from \<Longrightarrow> User_merge_password from m = m"
  "\<not> User_has_identity from \<Longrightarrow> User_merge_identity from m = m"
  by (simp_all add: User_merge_user_name_def User_merge_password_def User_merge_identity_def)

lemma User_abs_merge_fields:
  "User_abs (User_merge_user_name from m) = AUser_user_name_update (or_else (AUser_user_name (User_abs from))) (User_abs m)"
  "User_abs (User_merge_password from m) = AUser_password_update (or_else (AUser_password (User_abs from))) (User_abs m)"
  "User_abs (User_merge_identity from m) = AUser_identity_update (or_else (AUser_identity (User_abs from))) (User_abs m)"
  by (simp_all add: User_merge_user_name_def User_merge_password_def User_merge_identity_def User_abs_def shown_def User_accessors User_presence hasbits)

lemma User_ok_merge_fields:
  "User_ok m \<Longrightarrow> User_ok (User_merge_user_name from m)"
  "User_ok m \<Longrightarrow> User_ok (User_merge_password from m)"
  "User_ok m \<Longrightarrow> User_ok (User_merge_identity from m)"
  by (simp_all add: User_merge_user_name_def User_merge_password_def User_merge_identity_def)

text \<open>The tests of whole bytes of presence bits only save work.\<close>

lemma User_MergeFrom_steps:
  "User_MergeFrom from m =
     (let m = User_merge_user_name from m;
          m = User_merge_password from m;
          m = User_merge_identity from m
      in m\<lparr>User_unknown := User_unknown m @ User_unknown from\<rparr>)"
  by (cases "User_has_bits from AND 0xFF = 0")
    (simp_all add: User_MergeFrom_def Let_def Unknown_MergeFrom_append User_merge_absent User_presence hasbits)

lemma User_MergeFrom_step:
  assumes "User_ok m" "User_ok from"
  shows "User_ok (User_MergeFrom from m)"
    and "User_abs (User_MergeFrom from m) = AUser_merge (User_abs from) (User_abs m)"
proof -
  have u: "User_ok (x\<lparr>User_unknown := u\<rparr>) = User_ok x" "User_abs (x\<lparr>User_unknown := u\<rparr>) = (User_abs x)\<lparr>AUser_unknown := u\<rparr>" for x u
    by (simp_all add: User_ok_def User_abs_def User_accessors User_presence)
  note steps = User_MergeFrom_steps User_ok_merge_fields User_abs_merge_fields
  show "User_ok (User_MergeFrom from m)"
    using assms by (simp add: Let_def u steps)
  have k: "User_unknown x = AUser_unknown (User_abs x)" for x
    by (simp add: User_abs_def)
  show "User_abs (User_MergeFrom from m) = AUser_merge (User_abs from) (User_abs m)"
    using assms by (cases "User_abs m") (simp add: Let_def u k steps AUser_merge_def)
qed

lemmas User_MergeFrom_ok = User_MergeFrom_step(1)
lemmas User_MergeFrom_abs = User_MergeFrom_step(2)

lemma User_merge_empty [simp]:
  "AUser_merge a AUser_empty = a"
  by (simp add: AUser_merge_def AUser_empty_def merged_empty)

lemma User_CopyFrom_ok:
  "User_ok m \<Longrightarrow> User_ok from \<Longrightarrow> User_ok (User_CopyFrom from m)"
  by (simp add: User_CopyFrom_def User_MergeFrom_ok User_Clear_ok)

lemma User_CopyFrom_abs:
  "User_ok m \<Longrightarrow> User_ok from \<Longrightarrow> User_abs (User_CopyFrom from m) = User_abs from"
  by (simp add: User_CopyFrom_def User_MergeFrom_abs User_Clear_ok User_Clear_abs)

lemma User_IsInitialized_abs:
  "User_ok m \<Longrightarrow> User_IsInitialized m \<longleftrightarrow> AUser_initialized (User_abs m)"
  by (simp add: User_IsInitialized_def AUser_initialized_def User_abs_def User_presence hasbits)

lemma User_Swap_exchanges:
  "User_Swap m other = (other, m)"
  by (simp add: User_Swap_def)

subsection \<open>ByteSize and SerializeWithCachedSizesToArray\<close>

lemma User_write_fields:
  "User_write_user_name m t = t @ enc_opt (\<lambda>v. enc_tag 1 WIRETYPE_LENGTH_DELIMITED @ enc_bytes v) (AUser_user_name (User_abs m))"
  "User_write_password m t = t @ enc_opt (\<lambda>v. enc_tag 2 WIRETYPE_LENGTH_DELIMITED @ enc_bytes v) (AUser_password (User_abs m))"
  "User_write_identity m t = t @ enc_opt (\<lambda>v. enc_tag 3 WIRETYPE_VARINT @ enc_int32 v) (AUser_identity (User_abs m))"
  by (simp_all add: User_write_user_name_def User_write_password_def User_write_identity_def User_abs_def wire shown_def)

lemma User_unknown_abs:
  "AUser_unknown (User_abs m) = User_unknown m"
  by (simp add: User_abs_def)

lemma User_size_absent:
  "\<not> User_has_user_name (snd s) \<Longrightarrow> User_size_user_name s = s"
  "\<not> User_has_password (snd s) \<Longrightarrow> User_size_password s = s"
  "\<not> User_has_identity (snd s) \<Longrightarrow> User_size_identity s = s"
  by (simp_all add: User_size_user_name_def User_size_password_def User_size_identity_def case_prod_beta)

lemma User_size_has_bits:
  "User_has_bits (snd (User_size_user_name s)) = User_has_bits (snd s)"
  "User_has_bits (snd (User_size_password s)) = User_has_bits (snd s)"
  "User_has_bits (snd (User_size_identity s)) = User_has_bits (snd s)"
  by (simp_all add: User_size_user_name_def User_size_password_def User_size_identity_def case_prod_beta)

lemma User_size_fields:
  "User_size_user_name (n, m) = (n + length (enc_opt (\<lambda>v. enc_tag 1 WIRETYPE_LENGTH_DELIMITED @ enc_bytes v) (AUser_user_name (User_abs m))), m)"
  "User_size_password (n, m) = (n + length (enc_opt (\<lambda>v. enc_tag 2 WIRETYPE_LENGTH_DELIMITED @ enc_bytes v) (AUser_password (User_abs m))), m)"
  "User_size_identity (n, m) = (n + length (enc_opt (\<lambda>v. enc_tag 3 WIRETYPE_VARINT @ enc_int32 v) (AUser_identity (User_abs m))), m)"
  by (simp_all add: User_size_user_name_def User_size_password_def User_size_identity_def User_abs_def shown_def
      length_enc_int32 length_enc_uint32 length_enc_enum length_enc_bytes)

lemma User_size_skip:
  "User_has_bits (snd s) AND 0xFF = 0 \<Longrightarrow>
     User_size_identity (User_size_password (User_size_user_name s)) = s"
  by (simp_all add: User_size_absent User_presence hasbits)

lemma User_field_sizes_steps:
  "User_field_sizes m =
     User_size_identity 
       (User_size_password 
       (User_size_user_name (0, m)))"
  by (cases "User_has_bits m AND 0xFF = 0")
    (simp_all add: User_field_sizes_def Let_def User_size_skip User_size_has_bits)

lemma User_ByteSize_eq:
  "User_ByteSize m =
     (length (AUser_encode (User_abs m)), m\<lparr>User_cached_size := length (AUser_encode (User_abs m))\<rparr>)"
  by (simp add: User_ByteSize_def User_field_sizes_steps unknown_size Let_def User_size_fields ComputeUnknown_length AUser_encode_def add.assoc add.left_commute add.commute User_unknown_abs)

lemma User_ByteSize_fst:
  "User_ok m \<Longrightarrow> fst (User_ByteSize m) = length (AUser_encode (User_abs m))"
  by (simp add: User_ByteSize_eq)

lemma User_cached_simps [simp]:
  "User_ok (m\<lparr>User_cached_size := c\<rparr>) = User_ok m" "User_abs (m\<lparr>User_cached_size := c\<rparr>) = User_abs m"
  by (simp_all add: User_ok_def User_abs_def User_accessors User_presence)

lemma User_ByteSize_snd:
  "User_ok m \<Longrightarrow> User_ok (snd (User_ByteSize m)) \<and> User_abs (snd (User_ByteSize m)) = User_abs m \<and> User_sized (snd (User_ByteSize m))"
  by (simp add: User_ByteSize_eq User_sized_def)

lemma User_SerializeWithCachedSizesToArray_eq:
  "User_SerializeWithCachedSizesToArray m t = t @ AUser_encode (User_abs m)"
  by (simp add: User_SerializeWithCachedSizesToArray_def Let_def User_write_fields AUser_encode_def User_unknown_abs
      unknown_serialize)

text \<open>The message is an element of a repeated field: it satisfies the contract of the container.\<close>

interpretation user_th: type_handler User_default User_Clear User_MergeFrom User_ok User_abs
  by unfold_locales (simp_all add: User_Clear_ok User_Clear_abs User_MergeFrom_ok User_MergeFrom_abs)

section \<open>The message \<^verbatim>\<open>UserList\<close>\<close>

subsection \<open>Data\<close>

record UserList =
  UserList_users_fld :: "User repeated_ptr"
  UserList_unknown :: unknown_field_set
  UserList_cached_size :: nat
  UserList_has_bits :: uint32

definition UserList_default :: UserList where
  "UserList_default =
     \<lparr>UserList_users_fld = Rep_empty,
      UserList_unknown = [],
      UserList_cached_size = 0,
      UserList_has_bits = 0\<rparr>"

subsection \<open>Accessors\<close>

definition UserList_users_size :: "UserList \<Rightarrow> nat" where
  "UserList_users_size m = Rep_size (UserList_users_fld m)"

definition UserList_clear_users :: "UserList \<Rightarrow> UserList" where
  "UserList_clear_users m = m\<lparr>UserList_users_fld := Rep_Clear User_Clear (UserList_users_fld m)\<rparr>"

definition UserList_users :: "int \<Rightarrow> UserList \<Rightarrow> User option" where
  "UserList_users index m = Rep_Get (UserList_users_fld m) index"

definition UserList_mutable_users :: "(User \<Rightarrow> User) \<Rightarrow> int \<Rightarrow> UserList \<Rightarrow> UserList option" where
  "UserList_mutable_users f index m =
     map_option (\<lambda>r. m\<lparr>UserList_users_fld := r\<rparr>) (Rep_Mutable f index (UserList_users_fld m))"

definition UserList_add_users :: "(User \<Rightarrow> User) \<Rightarrow> UserList \<Rightarrow> UserList" where
  "UserList_add_users f m = m\<lparr>UserList_users_fld := Rep_Add User_default f (UserList_users_fld m)\<rparr>"

lemmas UserList_accessors = UserList_users_size_def UserList_clear_users_def UserList_users_def
    UserList_mutable_users_def UserList_add_users_def

subsection \<open>Operations on whole messages\<close>

definition UserList_Clear :: "UserList \<Rightarrow> UserList" where
  "UserList_Clear m =
     (let m = m\<lparr>UserList_users_fld := Rep_Clear User_Clear (UserList_users_fld m)\<rparr>
      in m\<lparr>UserList_has_bits := 0, UserList_unknown := Unknown_Clear (UserList_unknown m)\<rparr>)"

definition UserList_MergeFrom :: "UserList \<Rightarrow> UserList \<Rightarrow> UserList" where
  "UserList_MergeFrom from m =
     (let m = m\<lparr>UserList_users_fld := Rep_MergeFrom User_default User_MergeFrom (UserList_users_fld from) (UserList_users_fld m)\<rparr>
      in m\<lparr>UserList_unknown := Unknown_MergeFrom (UserList_unknown m) (UserList_unknown from)\<rparr>)"

definition UserList_CopyFrom :: "UserList \<Rightarrow> UserList \<Rightarrow> UserList" where
  "UserList_CopyFrom from m = UserList_MergeFrom from (UserList_Clear m)"

definition UserList_IsInitialized :: "UserList \<Rightarrow> bool" where
  "UserList_IsInitialized m \<longleftrightarrow>
     (if \<not> list_all User_IsInitialized (Rep_contents (UserList_users_fld m)) then False
      else True)"

definition UserList_Swap :: "UserList \<Rightarrow> UserList \<Rightarrow> UserList \<times> UserList" where
  "UserList_Swap m other =
     (m\<lparr>UserList_users_fld := fst (Rep_Swap (UserList_users_fld m) (UserList_users_fld other)),
        UserList_has_bits := UserList_has_bits other,
        UserList_unknown := UserList_unknown other,
        UserList_cached_size := UserList_cached_size other\<rparr>,
      other\<lparr>UserList_users_fld := snd (Rep_Swap (UserList_users_fld m) (UserList_users_fld other)),
        UserList_has_bits := UserList_has_bits m,
        UserList_unknown := UserList_unknown m,
        UserList_cached_size := UserList_cached_size m\<rparr>)"

definition UserList_size_users :: "nat \<times> UserList \<Rightarrow> nat \<times> UserList" where
  "UserList_size_users = (\<lambda>(total, m).
     let total = total + 1 * UserList_users_size m;
         sized = map (MessageSizeNoVirtual User_ByteSize) (Rep_contents (UserList_users_fld m))
     in (total + sum_list (map fst sized),
         m\<lparr>UserList_users_fld := (UserList_users_fld m)\<lparr>elements := map snd sized @ drop (Rep_size (UserList_users_fld m)) (elements (UserList_users_fld m))\<rparr>\<rparr>))"

definition UserList_field_sizes :: "UserList \<Rightarrow> nat \<times> UserList" where
  "UserList_field_sizes m =
     (let s = (0, m);
          s = UserList_size_users s
      in s)"

definition UserList_ByteSize :: "UserList \<Rightarrow> nat \<times> UserList" where
  "UserList_ByteSize m =
     (let (total, m) = UserList_field_sizes m;
          total = (if UserList_unknown m \<noteq> [] then total + ComputeUnknownFieldsSize (UserList_unknown m) else total)
      in (total, m\<lparr>UserList_cached_size := total\<rparr>))"

definition UserList_write_users :: "UserList \<Rightarrow> bytes \<Rightarrow> bytes" where
  "UserList_write_users m target =
     fold (WriteMessageNoVirtualToArray User_cached_size User_SerializeWithCachedSizesToArray 1)
       (Rep_contents (UserList_users_fld m)) target"

definition UserList_SerializeWithCachedSizesToArray :: "UserList \<Rightarrow> bytes \<Rightarrow> bytes" where
  "UserList_SerializeWithCachedSizesToArray m target =
     (let target = UserList_write_users m target
      in if UserList_unknown m \<noteq> [] then SerializeUnknownFieldsToArray (UserList_unknown m) target else target)"

subsection \<open>The abstract message\<close>

record AUserList =
  AUserList_users :: "AUser list"
  AUserList_unknown :: unknown_field_set

definition AUserList_empty :: AUserList where
  "AUserList_empty = \<lparr>AUserList_users = [],
     AUserList_unknown = []\<rparr>"

definition UserList_abs :: "UserList \<Rightarrow> AUserList" where
  "UserList_abs m = \<lparr>AUserList_users = map User_abs (Rep_contents (UserList_users_fld m)),
     AUserList_unknown = UserList_unknown m\<rparr>"

definition UserList_ok :: "UserList \<Rightarrow> bool" where
  "UserList_ok m \<longleftrightarrow>
     user_th.good (UserList_users_fld m)"

definition AUserList_merge :: "AUserList \<Rightarrow> AUserList \<Rightarrow> AUserList" where
  "AUserList_merge from to = \<lparr>AUserList_users = AUserList_users to @ AUserList_users from,
     AUserList_unknown = AUserList_unknown to @ AUserList_unknown from\<rparr>"

definition AUserList_initialized :: "AUserList \<Rightarrow> bool" where
  "AUserList_initialized a \<longleftrightarrow>
     list_all AUser_initialized (AUserList_users a)"

definition AUserList_encode :: "AUserList \<Rightarrow> bytes" where
  "AUserList_encode a =
     concat (map (\<lambda>v. enc_tag 1 WIRETYPE_LENGTH_DELIMITED @ enc_bytes (AUser_encode v)) (AUserList_users a)) @
     SerializeUnknownFieldsToArray (AUserList_unknown a) []"

definition UserList_sized :: "UserList \<Rightarrow> bool" where
  "UserList_sized m \<longleftrightarrow>
     UserList_cached_size m = length (AUserList_encode (UserList_abs m)) \<and>
     list_all User_sized (Rep_contents (UserList_users_fld m))"

subsection \<open>Accessors on the abstract message\<close>

lemma UserList_abs_default [simp]:
  "UserList_abs UserList_default = AUserList_empty"
  by (simp add: UserList_abs_def UserList_default_def AUserList_empty_def UserList_accessors)

lemma UserList_ok_default [simp]:
  "UserList_ok UserList_default"
  by (simp add: UserList_ok_def UserList_default_def field_ok user_th.good_empty)

subsection \<open>Clear, MergeFrom, CopyFrom, IsInitialized, Swap\<close>

lemma UserList_Clear_ok:
  "UserList_ok m \<Longrightarrow> UserList_ok (UserList_Clear m)"
  by (simp add: UserList_ok_def UserList_Clear_def Let_def hasbits user_th.good_Clear)

lemma UserList_Clear_abs:
  "UserList_abs (UserList_Clear m) = AUserList_empty"
  by (simp add: UserList_abs_def AUserList_empty_def UserList_Clear_def Unknown_Clear_def Let_def hasbits)

lemma UserList_Swap_exchanges:
  "UserList_Swap m other = (other, m)"
  by (simp add: UserList_Swap_def Rep_Swap_def)

lemma UserList_views:
  "AUserList_users (UserList_abs m) = user_th.views (UserList_users_fld m)"
  by (simp add: UserList_abs_def user_th.views_def)

lemma UserList_good:
  "UserList_ok m \<Longrightarrow> user_th.good (UserList_users_fld m)"
  by (simp add: UserList_ok_def)

lemma UserList_contents_ok:
  "UserList_ok m \<Longrightarrow> list_all User_ok (Rep_contents (UserList_users_fld m))"
  by (rule user_th.good_contents [OF UserList_good])

lemma UserList_users_abs:
  "UserList_ok m \<Longrightarrow> UserList_users_size m = length (AUserList_users (UserList_abs m))"
  "UserList_ok m \<Longrightarrow> i < UserList_users_size m \<Longrightarrow>
     \<exists>t. UserList_users (int i) m = Some t \<and> User_ok t \<and> User_abs t = AUserList_users (UserList_abs m) ! i"
  using UserList_contents_ok [of m] Get_contents [of "UserList_users_fld m" "int i"]
  by (simp_all add: UserList_ok_def user_th.good_def UserList_abs_def UserList_accessors list_all_length)

lemma UserList_add_users_abs:
  assumes "UserList_ok m" and f: "\<And>t. User_ok t \<Longrightarrow> User_abs t = AUser_empty \<Longrightarrow> User_ok (f t) \<and> User_abs (f t) = v"
  shows "UserList_ok (UserList_add_users f m)"
    and "UserList_abs (UserList_add_users f m) = (UserList_abs m)\<lparr>AUserList_users := AUserList_users (UserList_abs m) @ [v]\<rparr>"
proof -
  have "user_th.good (Rep_Add User_default f (UserList_users_fld m)) \<and>
      user_th.views (Rep_Add User_default f (UserList_users_fld m)) = user_th.views (UserList_users_fld m) @ [v]"
    by (rule user_th.views_Add [OF UserList_good [OF assms(1)]]) (simp add: f)
  then show "UserList_ok (UserList_add_users f m)"
    and "UserList_abs (UserList_add_users f m) = (UserList_abs m)\<lparr>AUserList_users := AUserList_users (UserList_abs m) @ [v]\<rparr>"
    using assms(1) by (simp_all add: UserList_ok_def UserList_abs_def UserList_add_users_def user_th.views_def)
qed

lemma UserList_MergeFrom_step:
  assumes "UserList_ok m" "UserList_ok from"
  shows "UserList_ok (UserList_MergeFrom from m)"
    and "UserList_abs (UserList_MergeFrom from m) = AUserList_merge (UserList_abs from) (UserList_abs m)"
proof -
  note r = user_th.views_MergeFrom [OF UserList_good [OF assms(1)] UserList_good [OF assms(2)]]
  show "UserList_ok (UserList_MergeFrom from m)"
    and "UserList_abs (UserList_MergeFrom from m) = AUserList_merge (UserList_abs from) (UserList_abs m)"
    using assms r by (auto simp: UserList_MergeFrom_def Unknown_MergeFrom_append Let_def UserList_ok_def UserList_abs_def AUserList_merge_def  UserList_accessors
        shown_def hasbits user_th.views_def)
qed

lemmas UserList_MergeFrom_ok = UserList_MergeFrom_step(1)
lemmas UserList_MergeFrom_abs = UserList_MergeFrom_step(2)

lemma UserList_CopyFrom_ok:
  "UserList_ok m \<Longrightarrow> UserList_ok from \<Longrightarrow> UserList_ok (UserList_CopyFrom from m)"
  by (simp add: UserList_CopyFrom_def UserList_MergeFrom_ok UserList_Clear_ok)

lemma UserList_CopyFrom_abs:
  "UserList_ok m \<Longrightarrow> UserList_ok from \<Longrightarrow> UserList_abs (UserList_CopyFrom from m) = UserList_abs from"
  by (simp add: UserList_CopyFrom_def UserList_MergeFrom_abs UserList_Clear_ok UserList_Clear_abs AUserList_merge_def AUserList_empty_def)

lemma UserList_IsInitialized_abs:
  "UserList_ok m \<Longrightarrow> UserList_IsInitialized m \<longleftrightarrow> AUserList_initialized (UserList_abs m)"
  using UserList_contents_ok [of m]
  by (auto simp: UserList_IsInitialized_def AUserList_initialized_def UserList_abs_def hasbits list_all_iff User_IsInitialized_abs)

subsection \<open>ByteSize and SerializeWithCachedSizesToArray\<close>

lemma UserList_unknown_abs:
  "AUserList_unknown (UserList_abs m) = UserList_unknown m"
  by (simp add: UserList_abs_def)

definition UserList_resize :: "UserList \<Rightarrow> UserList" where
  "UserList_resize m = m\<lparr>UserList_users_fld := (UserList_users_fld m)\<lparr>elements :=
     map (\<lambda>t. snd (User_ByteSize t)) (Rep_contents (UserList_users_fld m)) @ drop (Rep_size (UserList_users_fld m)) (elements (UserList_users_fld m))\<rparr>\<rparr>"

lemma UserList_size_users_eq:
  assumes "UserList_ok m"
  shows "UserList_size_users (n, m) = (n + length (concat (map (\<lambda>v. enc_tag 1 WIRETYPE_LENGTH_DELIMITED @ enc_bytes (AUser_encode v)) (AUserList_users (UserList_abs m)))), UserList_resize m)"
proof -
  have "length ts + sum_list (map (fst \<circ> MessageSizeNoVirtual User_ByteSize) ts) =
      length (concat (map (\<lambda>v. enc_tag 1 WIRETYPE_LENGTH_DELIMITED @ enc_bytes (AUser_encode v)) (map User_abs ts)))"
    if "list_all User_ok ts" for ts
    using that by (induction ts) (auto simp: MessageSizeNoVirtual_def case_prod_beta User_ByteSize_fst
        length_enc_bytes(2) [symmetric] BytesSize_def)
  from this [OF UserList_contents_ok [OF assms]] assms show ?thesis
    by (simp add: UserList_size_users_def UserList_resize_def UserList_abs_def UserList_users_size_def Let_def comp_def MessageSizeNoVirtual_def
        case_prod_beta UserList_ok_def user_th.good_def)
qed

lemma UserList_resize_good:
  assumes "UserList_ok m"
  shows "UserList_ok (UserList_resize m)" "UserList_abs (UserList_resize m) = UserList_abs m"
    "list_all User_sized (Rep_contents (UserList_users_fld (UserList_resize m)))"
proof -
  have g: "user_th.good (UserList_users_fld m)" "rep_ok (UserList_users_fld m)" "list_all User_ok (Rep_contents (UserList_users_fld m))"
    using assms UserList_contents_ok [of m] by (simp_all add: UserList_ok_def user_th.good_def)
  then have c: "Rep_contents (UserList_users_fld (UserList_resize m)) = map (\<lambda>t. snd (User_ByteSize t)) (Rep_contents (UserList_users_fld m))"
    by (simp add: UserList_resize_def rep_defs Rep_size_def)
  have s: "User_ok (snd (User_ByteSize t)) \<and> User_abs (snd (User_ByteSize t)) = User_abs t \<and> User_sized (snd (User_ByteSize t))"
    if "t \<in> set (Rep_contents (UserList_users_fld m))" for t
    using g(3) that User_ByteSize_snd by (auto simp: list_all_iff)
  have "user_th.good (UserList_users_fld (UserList_resize m))"
    using g s by (auto simp: user_th.good_def UserList_resize_def rep_defs Rep_size_def list_all_iff dest: in_set_dropD)
  with assms show "UserList_ok (UserList_resize m)"
    by (simp add: UserList_ok_def UserList_resize_def)
  show "UserList_abs (UserList_resize m) = UserList_abs m"
    using s by (simp add: UserList_abs_def c) (simp add: UserList_resize_def UserList_accessors)
  show "list_all User_sized (Rep_contents (UserList_users_fld (UserList_resize m)))"
    using s by (auto simp: c list_all_iff)
qed

lemma UserList_cached_simps [simp]:
  "UserList_ok (m\<lparr>UserList_cached_size := c\<rparr>) = UserList_ok m"
  "UserList_abs (m\<lparr>UserList_cached_size := c\<rparr>) = UserList_abs m"
  by (simp_all add: UserList_ok_def UserList_abs_def UserList_accessors)

lemma UserList_field_sizes_steps:
  "UserList_field_sizes m = UserList_size_users (0, m)"
  by (simp add: UserList_field_sizes_def)

lemma UserList_ByteSize_eq:
  "UserList_ok m \<Longrightarrow> UserList_ByteSize m =
     (length (AUserList_encode (UserList_abs m)),
      (UserList_resize m)\<lparr>UserList_cached_size := length (AUserList_encode (UserList_abs m))\<rparr>)"
  by (simp add: UserList_ByteSize_def UserList_field_sizes_steps unknown_size Let_def UserList_size_users_eq ComputeUnknown_length AUserList_encode_def UserList_resize_def UserList_unknown_abs)

lemma UserList_ByteSize_fst:
  "UserList_ok m \<Longrightarrow> fst (UserList_ByteSize m) = length (AUserList_encode (UserList_abs m))"
  by (simp add: UserList_ByteSize_eq)

lemma UserList_ByteSize_snd:
  "UserList_ok m \<Longrightarrow> UserList_ok (snd (UserList_ByteSize m)) \<and> UserList_abs (snd (UserList_ByteSize m)) = UserList_abs m \<and> UserList_sized (snd (UserList_ByteSize m))"
  by (simp add: UserList_ByteSize_eq UserList_resize_good UserList_sized_def)

lemma UserList_write_users_eq:
  assumes "UserList_ok m" "UserList_sized m"
  shows "UserList_write_users m t = t @ concat (map (\<lambda>v. enc_tag 1 WIRETYPE_LENGTH_DELIMITED @ enc_bytes (AUser_encode v)) (AUserList_users (UserList_abs m)))"
proof -
  have "fold (WriteMessageNoVirtualToArray User_cached_size User_SerializeWithCachedSizesToArray 1) ts t =
      t @ concat (map (\<lambda>v. enc_tag 1 WIRETYPE_LENGTH_DELIMITED @ enc_bytes (AUser_encode v)) (map User_abs ts))"
    if "list_all User_ok ts" "list_all User_sized ts" for ts t
    using that by (induction ts arbitrary: t) (auto simp: WriteMessageNoVirtualToArray_def wire enc_bytes_def
        User_SerializeWithCachedSizesToArray_eq User_sized_def)
  with UserList_contents_ok [OF assms(1)] assms(2) show ?thesis
    by (simp add: UserList_write_users_def UserList_sized_def UserList_abs_def)
qed

lemma UserList_SerializeWithCachedSizesToArray_eq:
  "UserList_ok m \<Longrightarrow> UserList_sized m \<Longrightarrow>
     UserList_SerializeWithCachedSizesToArray m t = t @ AUserList_encode (UserList_abs m)"
  by (simp add: UserList_SerializeWithCachedSizesToArray_def Let_def UserList_write_users_eq AUserList_encode_def UserList_unknown_abs
      unknown_serialize)

end
