(* ===== verification/Pb_Heart.thy ===== *)
theory Pb_Heart
  imports Has_Bits
begin

text \<open>
  The generated messages \<^verbatim>\<open>HeartBeatSendPackage\<close> and \<^verbatim>\<open>HeartReturnPackage\<close>
  of \<^verbatim>\<open>message.pb.h\<close> and \<^verbatim>\<open>message.pb.cc\<close>.
\<close>

section \<open>The message \<^verbatim>\<open>HeartBeatSendPackage\<close>\<close>

subsection \<open>Data\<close>

record HeartBeatSendPackage =
  HeartBeatSendPackage_user_name_fld :: pb_string
  HeartBeatSendPackage_meeting_id_fld :: pb_string
  HeartBeatSendPackage_unknown :: unknown_field_set
  HeartBeatSendPackage_cached_size :: nat
  HeartBeatSendPackage_has_bits :: uint32

definition HeartBeatSendPackage_default :: HeartBeatSendPackage where
  "HeartBeatSendPackage_default =
     \<lparr>HeartBeatSendPackage_user_name_fld = None,
      HeartBeatSendPackage_meeting_id_fld = None,
      HeartBeatSendPackage_unknown = [],
      HeartBeatSendPackage_cached_size = 0,
      HeartBeatSendPackage_has_bits = 0\<rparr>"

subsection \<open>Accessors\<close>

definition HeartBeatSendPackage_has_user_name :: "HeartBeatSendPackage \<Rightarrow> bool" where
  "HeartBeatSendPackage_has_user_name m \<longleftrightarrow> HeartBeatSendPackage_has_bits m AND 1 \<noteq> 0"

definition HeartBeatSendPackage_set_has_user_name :: "HeartBeatSendPackage \<Rightarrow> HeartBeatSendPackage" where
  "HeartBeatSendPackage_set_has_user_name m = m\<lparr>HeartBeatSendPackage_has_bits := HeartBeatSendPackage_has_bits m OR 1\<rparr>"

definition HeartBeatSendPackage_clear_has_user_name :: "HeartBeatSendPackage \<Rightarrow> HeartBeatSendPackage" where
  "HeartBeatSendPackage_clear_has_user_name m = m\<lparr>HeartBeatSendPackage_has_bits := HeartBeatSendPackage_has_bits m AND NOT 1\<rparr>"

definition HeartBeatSendPackage_clear_user_name :: "HeartBeatSendPackage \<Rightarrow> HeartBeatSendPackage" where
  "HeartBeatSendPackage_clear_user_name m =
     HeartBeatSendPackage_clear_has_user_name (m\<lparr>HeartBeatSendPackage_user_name_fld := map_option (\<lambda>_. []) (HeartBeatSendPackage_user_name_fld m)\<rparr>)"

definition HeartBeatSendPackage_user_name :: "HeartBeatSendPackage \<Rightarrow> bytes" where
  "HeartBeatSendPackage_user_name m = deref_string (HeartBeatSendPackage_user_name_fld m)"

definition HeartBeatSendPackage_set_user_name :: "bytes \<Rightarrow> HeartBeatSendPackage \<Rightarrow> HeartBeatSendPackage" where
  "HeartBeatSendPackage_set_user_name value m = (HeartBeatSendPackage_set_has_user_name m)\<lparr>HeartBeatSendPackage_user_name_fld := Some value\<rparr>"

definition HeartBeatSendPackage_set_user_name_cstr :: "bytes \<Rightarrow> HeartBeatSendPackage \<Rightarrow> HeartBeatSendPackage" where
  "HeartBeatSendPackage_set_user_name_cstr value m =
     (HeartBeatSendPackage_set_has_user_name m)\<lparr>HeartBeatSendPackage_user_name_fld := Some (c_string value)\<rparr>"

definition HeartBeatSendPackage_set_user_name_sized :: "bytes \<Rightarrow> nat \<Rightarrow> HeartBeatSendPackage \<Rightarrow> HeartBeatSendPackage" where
  "HeartBeatSendPackage_set_user_name_sized value count m =
     (HeartBeatSendPackage_set_has_user_name m)\<lparr>HeartBeatSendPackage_user_name_fld := Some (take count value)\<rparr>"

definition HeartBeatSendPackage_mutable_user_name :: "(bytes \<Rightarrow> bytes) \<Rightarrow> HeartBeatSendPackage \<Rightarrow> HeartBeatSendPackage" where
  "HeartBeatSendPackage_mutable_user_name f m =
     (let m = HeartBeatSendPackage_set_has_user_name m in m\<lparr>HeartBeatSendPackage_user_name_fld := Some (f (own_string (HeartBeatSendPackage_user_name_fld m)))\<rparr>)"

definition HeartBeatSendPackage_release_user_name :: "HeartBeatSendPackage \<Rightarrow> bytes option \<times> HeartBeatSendPackage" where
  "HeartBeatSendPackage_release_user_name m =
     (let m = HeartBeatSendPackage_clear_has_user_name m in (HeartBeatSendPackage_user_name_fld m, m\<lparr>HeartBeatSendPackage_user_name_fld := None\<rparr>))"

definition HeartBeatSendPackage_has_meeting_id :: "HeartBeatSendPackage \<Rightarrow> bool" where
  "HeartBeatSendPackage_has_meeting_id m \<longleftrightarrow> HeartBeatSendPackage_has_bits m AND 0x2 \<noteq> 0"

definition HeartBeatSendPackage_set_has_meeting_id :: "HeartBeatSendPackage \<Rightarrow> HeartBeatSendPackage" where
  "HeartBeatSendPackage_set_has_meeting_id m = m\<lparr>HeartBeatSendPackage_has_bits := HeartBeatSendPackage_has_bits m OR 0x2\<rparr>"

definition HeartBeatSendPackage_clear_has_meeting_id :: "HeartBeatSendPackage \<Rightarrow> HeartBeatSendPackage" where
  "HeartBeatSendPackage_clear_has_meeting_id m = m\<lparr>HeartBeatSendPackage_has_bits := HeartBeatSendPackage_has_bits m AND NOT 0x2\<rparr>"

definition HeartBeatSendPackage_clear_meeting_id :: "HeartBeatSendPackage \<Rightarrow> HeartBeatSendPackage" where
  "HeartBeatSendPackage_clear_meeting_id m =
     HeartBeatSendPackage_clear_has_meeting_id (m\<lparr>HeartBeatSendPackage_meeting_id_fld := map_option (\<lambda>_. []) (HeartBeatSendPackage_meeting_id_fld m)\<rparr>)"

definition HeartBeatSendPackage_meeting_id :: "HeartBeatSendPackage \<Rightarrow> bytes" where
  "HeartBeatSendPackage_meeting_id m = deref_string (HeartBeatSendPackage_meeting_id_fld m)"

definition HeartBeatSendPackage_set_meeting_id :: "bytes \<Rightarrow> HeartBeatSendPackage \<Rightarrow> HeartBeatSendPackage" where
  "HeartBeatSendPackage_set_meeting_id value m = (HeartBeatSendPackage_set_has_meeting_id m)\<lparr>HeartBeatSendPackage_meeting_id_fld := Some value\<rparr>"

definition HeartBeatSendPackage_set_meeting_id_cstr :: "bytes \<Rightarrow> HeartBeatSendPackage \<Rightarrow> HeartBeatSendPackage" where
  "HeartBeatSendPackage_set_meeting_id_cstr value m =
     (HeartBeatSendPackage_set_has_meeting_id m)\<lparr>HeartBeatSendPackage_meeting_id_fld := Some (c_string value)\<rparr>"

definition HeartBeatSendPackage_set_meeting_id_sized :: "bytes \<Rightarrow> nat \<Rightarrow> HeartBeatSendPackage \<Rightarrow> HeartBeatSendPackage" where
  "HeartBeatSendPackage_set_meeting_id_sized value count m =
     (HeartBeatSendPackage_set_has_meeting_id m)\<lparr>HeartBeatSendPackage_meeting_id_fld := Some (take count value)\<rparr>"

definition HeartBeatSendPackage_mutable_meeting_id :: "(bytes \<Rightarrow> bytes) \<Rightarrow> HeartBeatSendPackage \<Rightarrow> HeartBeatSendPackage" where
  "HeartBeatSendPackage_mutable_meeting_id f m =
     (let m = HeartBeatSendPackage_set_has_meeting_id m in m\<lparr>HeartBeatSendPackage_meeting_id_fld := Some (f (own_string (HeartBeatSendPackage_meeting_id_fld m)))\<rparr>)"

definition HeartBeatSendPackage_release_meeting_id :: "HeartBeatSendPackage \<Rightarrow> bytes option \<times> HeartBeatSendPackage" where
  "HeartBeatSendPackage_release_meeting_id m =
     (let m = HeartBeatSendPackage_clear_has_meeting_id m in (HeartBeatSendPackage_meeting_id_fld m, m\<lparr>HeartBeatSendPackage_meeting_id_fld := None\<rparr>))"

lemmas HeartBeatSendPackage_presence = HeartBeatSendPackage_has_user_name_def
    HeartBeatSendPackage_set_has_user_name_def HeartBeatSendPackage_clear_has_user_name_def
    HeartBeatSendPackage_has_meeting_id_def HeartBeatSendPackage_set_has_meeting_id_def
    HeartBeatSendPackage_clear_has_meeting_id_def

lemmas HeartBeatSendPackage_accessors = HeartBeatSendPackage_clear_user_name_def
    HeartBeatSendPackage_user_name_def HeartBeatSendPackage_set_user_name_def
    HeartBeatSendPackage_set_user_name_cstr_def HeartBeatSendPackage_set_user_name_sized_def
    HeartBeatSendPackage_mutable_user_name_def HeartBeatSendPackage_release_user_name_def
    HeartBeatSendPackage_clear_meeting_id_def HeartBeatSendPackage_meeting_id_def
    HeartBeatSendPackage_set_meeting_id_def HeartBeatSendPackage_set_meeting_id_cstr_def
    HeartBeatSendPackage_set_meeting_id_sized_def HeartBeatSendPackage_mutable_meeting_id_def
    HeartBeatSendPackage_release_meeting_id_def

subsection \<open>Operations on whole messages\<close>

definition HeartBeatSendPackage_Clear :: "HeartBeatSendPackage \<Rightarrow> HeartBeatSendPackage" where
  "HeartBeatSendPackage_Clear m =
     (let m = (if HeartBeatSendPackage_has_bits m AND 0xFF \<noteq> 0
           then m\<lparr>HeartBeatSendPackage_user_name_fld := (if HeartBeatSendPackage_has_user_name m then map_option (\<lambda>_. []) (HeartBeatSendPackage_user_name_fld m) else HeartBeatSendPackage_user_name_fld m),
             HeartBeatSendPackage_meeting_id_fld := (if HeartBeatSendPackage_has_meeting_id m then map_option (\<lambda>_. []) (HeartBeatSendPackage_meeting_id_fld m) else HeartBeatSendPackage_meeting_id_fld m)\<rparr>
           else m)
      in m\<lparr>HeartBeatSendPackage_has_bits := 0, HeartBeatSendPackage_unknown := Unknown_Clear (HeartBeatSendPackage_unknown m)\<rparr>)"

definition HeartBeatSendPackage_merge_user_name :: "HeartBeatSendPackage \<Rightarrow> HeartBeatSendPackage \<Rightarrow> HeartBeatSendPackage" where
  "HeartBeatSendPackage_merge_user_name from m = (if HeartBeatSendPackage_has_user_name from then HeartBeatSendPackage_set_user_name (HeartBeatSendPackage_user_name from) m else m)"

definition HeartBeatSendPackage_merge_meeting_id :: "HeartBeatSendPackage \<Rightarrow> HeartBeatSendPackage \<Rightarrow> HeartBeatSendPackage" where
  "HeartBeatSendPackage_merge_meeting_id from m = (if HeartBeatSendPackage_has_meeting_id from then HeartBeatSendPackage_set_meeting_id (HeartBeatSendPackage_meeting_id from) m else m)"

definition HeartBeatSendPackage_MergeFrom :: "HeartBeatSendPackage \<Rightarrow> HeartBeatSendPackage \<Rightarrow> HeartBeatSendPackage" where
  "HeartBeatSendPackage_MergeFrom from m =
     (let m = (if HeartBeatSendPackage_has_bits from AND 0xFF \<noteq> 0 then
             let m = HeartBeatSendPackage_merge_user_name from m;
                 m = HeartBeatSendPackage_merge_meeting_id from m
             in m
           else m)
      in m\<lparr>HeartBeatSendPackage_unknown := Unknown_MergeFrom (HeartBeatSendPackage_unknown m) (HeartBeatSendPackage_unknown from)\<rparr>)"

definition HeartBeatSendPackage_CopyFrom :: "HeartBeatSendPackage \<Rightarrow> HeartBeatSendPackage \<Rightarrow> HeartBeatSendPackage" where
  "HeartBeatSendPackage_CopyFrom from m = HeartBeatSendPackage_MergeFrom from (HeartBeatSendPackage_Clear m)"

definition HeartBeatSendPackage_IsInitialized :: "HeartBeatSendPackage \<Rightarrow> bool" where
  "HeartBeatSendPackage_IsInitialized m \<longleftrightarrow>
     (if HeartBeatSendPackage_has_bits m AND 0x3 \<noteq> 0x3 then False
      else True)"

definition HeartBeatSendPackage_Swap :: "HeartBeatSendPackage \<Rightarrow> HeartBeatSendPackage \<Rightarrow> HeartBeatSendPackage \<times> HeartBeatSendPackage" where
  "HeartBeatSendPackage_Swap m other =
     (m\<lparr>HeartBeatSendPackage_user_name_fld := HeartBeatSendPackage_user_name_fld other,
        HeartBeatSendPackage_meeting_id_fld := HeartBeatSendPackage_meeting_id_fld other,
        HeartBeatSendPackage_has_bits := HeartBeatSendPackage_has_bits other,
        HeartBeatSendPackage_unknown := HeartBeatSendPackage_unknown other,
        HeartBeatSendPackage_cached_size := HeartBeatSendPackage_cached_size other\<rparr>,
      other\<lparr>HeartBeatSendPackage_user_name_fld := HeartBeatSendPackage_user_name_fld m,
        HeartBeatSendPackage_meeting_id_fld := HeartBeatSendPackage_meeting_id_fld m,
        HeartBeatSendPackage_has_bits := HeartBeatSendPackage_has_bits m,
        HeartBeatSendPackage_unknown := HeartBeatSendPackage_unknown m,
        HeartBeatSendPackage_cached_size := HeartBeatSendPackage_cached_size m\<rparr>)"

definition HeartBeatSendPackage_size_user_name :: "nat \<times> HeartBeatSendPackage \<Rightarrow> nat \<times> HeartBeatSendPackage" where
  "HeartBeatSendPackage_size_user_name = (\<lambda>(total, m). (if HeartBeatSendPackage_has_user_name m then (total + (1 + StringSize (HeartBeatSendPackage_user_name m)), m) else (total, m)))"

definition HeartBeatSendPackage_size_meeting_id :: "nat \<times> HeartBeatSendPackage \<Rightarrow> nat \<times> HeartBeatSendPackage" where
  "HeartBeatSendPackage_size_meeting_id = (\<lambda>(total, m). (if HeartBeatSendPackage_has_meeting_id m then (total + (1 + StringSize (HeartBeatSendPackage_meeting_id m)), m) else (total, m)))"

definition HeartBeatSendPackage_field_sizes :: "HeartBeatSendPackage \<Rightarrow> nat \<times> HeartBeatSendPackage" where
  "HeartBeatSendPackage_field_sizes m =
     (let s = (0, m);
          s = (if HeartBeatSendPackage_has_bits m AND 0xFF \<noteq> 0 then
             let s = HeartBeatSendPackage_size_user_name s;
                 s = HeartBeatSendPackage_size_meeting_id s
             in s
           else s)
      in s)"

definition HeartBeatSendPackage_ByteSize :: "HeartBeatSendPackage \<Rightarrow> nat \<times> HeartBeatSendPackage" where
  "HeartBeatSendPackage_ByteSize m =
     (let (total, m) = HeartBeatSendPackage_field_sizes m;
          total = (if HeartBeatSendPackage_unknown m \<noteq> [] then total + ComputeUnknownFieldsSize (HeartBeatSendPackage_unknown m) else total)
      in (total, m\<lparr>HeartBeatSendPackage_cached_size := total\<rparr>))"

definition HeartBeatSendPackage_write_user_name :: "HeartBeatSendPackage \<Rightarrow> bytes \<Rightarrow> bytes" where
  "HeartBeatSendPackage_write_user_name m target =
     (if HeartBeatSendPackage_has_user_name m then WriteStringToArray 1 (HeartBeatSendPackage_user_name m) target else target)"

definition HeartBeatSendPackage_write_meeting_id :: "HeartBeatSendPackage \<Rightarrow> bytes \<Rightarrow> bytes" where
  "HeartBeatSendPackage_write_meeting_id m target =
     (if HeartBeatSendPackage_has_meeting_id m then WriteStringToArray 2 (HeartBeatSendPackage_meeting_id m) target else target)"

definition HeartBeatSendPackage_SerializeWithCachedSizesToArray :: "HeartBeatSendPackage \<Rightarrow> bytes \<Rightarrow> bytes" where
  "HeartBeatSendPackage_SerializeWithCachedSizesToArray m target =
     (let target = HeartBeatSendPackage_write_user_name m target;
          target = HeartBeatSendPackage_write_meeting_id m target
      in if HeartBeatSendPackage_unknown m \<noteq> [] then SerializeUnknownFieldsToArray (HeartBeatSendPackage_unknown m) target else target)"

subsection \<open>The abstract message\<close>

record AHeartBeatSendPackage =
  AHeartBeatSendPackage_user_name :: "bytes option"
  AHeartBeatSendPackage_meeting_id :: "bytes option"
  AHeartBeatSendPackage_unknown :: unknown_field_set

definition AHeartBeatSendPackage_empty :: AHeartBeatSendPackage where
  "AHeartBeatSendPackage_empty = \<lparr>AHeartBeatSendPackage_user_name = None,
     AHeartBeatSendPackage_meeting_id = None,
     AHeartBeatSendPackage_unknown = []\<rparr>"

definition HeartBeatSendPackage_abs :: "HeartBeatSendPackage \<Rightarrow> AHeartBeatSendPackage" where
  "HeartBeatSendPackage_abs m = \<lparr>AHeartBeatSendPackage_user_name = shown (HeartBeatSendPackage_has_user_name m) (HeartBeatSendPackage_user_name m),
     AHeartBeatSendPackage_meeting_id = shown (HeartBeatSendPackage_has_meeting_id m) (HeartBeatSendPackage_meeting_id m),
     AHeartBeatSendPackage_unknown = HeartBeatSendPackage_unknown m\<rparr>"

definition HeartBeatSendPackage_ok :: "HeartBeatSendPackage \<Rightarrow> bool" where
  "HeartBeatSendPackage_ok m \<longleftrightarrow>
     string_ok (HeartBeatSendPackage_has_user_name m) (HeartBeatSendPackage_user_name_fld m) \<and>
     string_ok (HeartBeatSendPackage_has_meeting_id m) (HeartBeatSendPackage_meeting_id_fld m)"

definition AHeartBeatSendPackage_merge :: "AHeartBeatSendPackage \<Rightarrow> AHeartBeatSendPackage \<Rightarrow> AHeartBeatSendPackage" where
  "AHeartBeatSendPackage_merge from to = \<lparr>AHeartBeatSendPackage_user_name = or_else (AHeartBeatSendPackage_user_name from) (AHeartBeatSendPackage_user_name to),
     AHeartBeatSendPackage_meeting_id = or_else (AHeartBeatSendPackage_meeting_id from) (AHeartBeatSendPackage_meeting_id to),
     AHeartBeatSendPackage_unknown = AHeartBeatSendPackage_unknown to @ AHeartBeatSendPackage_unknown from\<rparr>"

definition AHeartBeatSendPackage_initialized :: "AHeartBeatSendPackage \<Rightarrow> bool" where
  "AHeartBeatSendPackage_initialized a \<longleftrightarrow>
     AHeartBeatSendPackage_user_name a \<noteq> None \<and>
     AHeartBeatSendPackage_meeting_id a \<noteq> None"

definition AHeartBeatSendPackage_encode :: "AHeartBeatSendPackage \<Rightarrow> bytes" where
  "AHeartBeatSendPackage_encode a =
     enc_opt (\<lambda>v. enc_tag 1 WIRETYPE_LENGTH_DELIMITED @ enc_bytes v) (AHeartBeatSendPackage_user_name a) @
     enc_opt (\<lambda>v. enc_tag 2 WIRETYPE_LENGTH_DELIMITED @ enc_bytes v) (AHeartBeatSendPackage_meeting_id a) @
     SerializeUnknownFieldsToArray (AHeartBeatSendPackage_unknown a) []"

definition HeartBeatSendPackage_sized :: "HeartBeatSendPackage \<Rightarrow> bool" where
  "HeartBeatSendPackage_sized m \<longleftrightarrow>
     HeartBeatSendPackage_cached_size m = length (AHeartBeatSendPackage_encode (HeartBeatSendPackage_abs m))"

subsection \<open>Accessors on the abstract message\<close>

lemma HeartBeatSendPackage_abs_default [simp]:
  "HeartBeatSendPackage_abs HeartBeatSendPackage_default = AHeartBeatSendPackage_empty"
  by (simp add: HeartBeatSendPackage_abs_def HeartBeatSendPackage_default_def AHeartBeatSendPackage_empty_def HeartBeatSendPackage_accessors HeartBeatSendPackage_presence)

lemma HeartBeatSendPackage_ok_default [simp]:
  "HeartBeatSendPackage_ok HeartBeatSendPackage_default"
  by (simp add: HeartBeatSendPackage_ok_def HeartBeatSendPackage_default_def field_ok HeartBeatSendPackage_presence)

lemma HeartBeatSendPackage_abs_accessors [simp]:
  "HeartBeatSendPackage_abs (HeartBeatSendPackage_set_user_name s m) = (HeartBeatSendPackage_abs m)\<lparr>AHeartBeatSendPackage_user_name := Some s\<rparr>"
  "HeartBeatSendPackage_abs (HeartBeatSendPackage_set_user_name_cstr s m) = (HeartBeatSendPackage_abs m)\<lparr>AHeartBeatSendPackage_user_name := Some (c_string s)\<rparr>"
  "HeartBeatSendPackage_abs (HeartBeatSendPackage_set_user_name_sized s c m) = (HeartBeatSendPackage_abs m)\<lparr>AHeartBeatSendPackage_user_name := Some (take c s)\<rparr>"
  "HeartBeatSendPackage_abs (HeartBeatSendPackage_clear_user_name m) = (HeartBeatSendPackage_abs m)\<lparr>AHeartBeatSendPackage_user_name := None\<rparr>"
  "HeartBeatSendPackage_abs (snd (HeartBeatSendPackage_release_user_name m)) = (HeartBeatSendPackage_abs m)\<lparr>AHeartBeatSendPackage_user_name := None\<rparr>"
  "HeartBeatSendPackage_abs (HeartBeatSendPackage_set_meeting_id s m) = (HeartBeatSendPackage_abs m)\<lparr>AHeartBeatSendPackage_meeting_id := Some s\<rparr>"
  "HeartBeatSendPackage_abs (HeartBeatSendPackage_set_meeting_id_cstr s m) = (HeartBeatSendPackage_abs m)\<lparr>AHeartBeatSendPackage_meeting_id := Some (c_string s)\<rparr>"
  "HeartBeatSendPackage_abs (HeartBeatSendPackage_set_meeting_id_sized s c m) = (HeartBeatSendPackage_abs m)\<lparr>AHeartBeatSendPackage_meeting_id := Some (take c s)\<rparr>"
  "HeartBeatSendPackage_abs (HeartBeatSendPackage_clear_meeting_id m) = (HeartBeatSendPackage_abs m)\<lparr>AHeartBeatSendPackage_meeting_id := None\<rparr>"
  "HeartBeatSendPackage_abs (snd (HeartBeatSendPackage_release_meeting_id m)) = (HeartBeatSendPackage_abs m)\<lparr>AHeartBeatSendPackage_meeting_id := None\<rparr>"
  by (simp_all add: HeartBeatSendPackage_abs_def HeartBeatSendPackage_accessors HeartBeatSendPackage_presence hasbits Let_def)

lemma HeartBeatSendPackage_ok_accessors [simp]:
  "HeartBeatSendPackage_ok m \<Longrightarrow> HeartBeatSendPackage_ok (HeartBeatSendPackage_set_user_name s m)"
  "HeartBeatSendPackage_ok m \<Longrightarrow> HeartBeatSendPackage_ok (HeartBeatSendPackage_set_user_name_cstr s m)"
  "HeartBeatSendPackage_ok m \<Longrightarrow> HeartBeatSendPackage_ok (HeartBeatSendPackage_set_user_name_sized s c m)"
  "HeartBeatSendPackage_ok m \<Longrightarrow> HeartBeatSendPackage_ok (HeartBeatSendPackage_clear_user_name m)"
  "HeartBeatSendPackage_ok m \<Longrightarrow> HeartBeatSendPackage_ok (snd (HeartBeatSendPackage_release_user_name m))"
  "HeartBeatSendPackage_ok m \<Longrightarrow> HeartBeatSendPackage_ok (HeartBeatSendPackage_set_meeting_id s m)"
  "HeartBeatSendPackage_ok m \<Longrightarrow> HeartBeatSendPackage_ok (HeartBeatSendPackage_set_meeting_id_cstr s m)"
  "HeartBeatSendPackage_ok m \<Longrightarrow> HeartBeatSendPackage_ok (HeartBeatSendPackage_set_meeting_id_sized s c m)"
  "HeartBeatSendPackage_ok m \<Longrightarrow> HeartBeatSendPackage_ok (HeartBeatSendPackage_clear_meeting_id m)"
  "HeartBeatSendPackage_ok m \<Longrightarrow> HeartBeatSendPackage_ok (snd (HeartBeatSendPackage_release_meeting_id m))"
  by (simp_all add: HeartBeatSendPackage_ok_def Let_def HeartBeatSendPackage_accessors HeartBeatSendPackage_presence hasbits)

lemma HeartBeatSendPackage_getters:
  "HeartBeatSendPackage_ok m \<Longrightarrow> HeartBeatSendPackage_user_name m = value_or [] (AHeartBeatSendPackage_user_name (HeartBeatSendPackage_abs m))"
  "HeartBeatSendPackage_ok m \<Longrightarrow> HeartBeatSendPackage_meeting_id m = value_or [] (AHeartBeatSendPackage_meeting_id (HeartBeatSendPackage_abs m))"
  by (simp_all add: HeartBeatSendPackage_ok_def HeartBeatSendPackage_abs_def HeartBeatSendPackage_accessors)

subsection \<open>Clear, MergeFrom, CopyFrom, IsInitialized, Swap\<close>

lemma HeartBeatSendPackage_Clear_ok:
  "HeartBeatSendPackage_ok m \<Longrightarrow> HeartBeatSendPackage_ok (HeartBeatSendPackage_Clear m)"
  by (cases "HeartBeatSendPackage_has_bits m AND 0xFF = 0")
    (simp_all add: HeartBeatSendPackage_ok_def HeartBeatSendPackage_Clear_def Let_def HeartBeatSendPackage_presence hasbits)

lemma HeartBeatSendPackage_Clear_abs:
  "HeartBeatSendPackage_abs (HeartBeatSendPackage_Clear m) = AHeartBeatSendPackage_empty"
  by (simp add: HeartBeatSendPackage_abs_def AHeartBeatSendPackage_empty_def HeartBeatSendPackage_Clear_def Unknown_Clear_def Let_def HeartBeatSendPackage_presence hasbits)

lemma HeartBeatSendPackage_merge_absent:
  "\<not> HeartBeatSendPackage_has_user_name from \<Longrightarrow> HeartBeatSendPackage_merge_user_name from m = m"
  "\<not> HeartBeatSendPackage_has_meeting_id from \<Longrightarrow> HeartBeatSendPackage_merge_meeting_id from m = m"
  by (simp_all add: HeartBeatSendPackage_merge_user_name_def HeartBeatSendPackage_merge_meeting_id_def)

lemma HeartBeatSendPackage_abs_merge_fields:
  "HeartBeatSendPackage_abs (HeartBeatSendPackage_merge_user_name from m) = AHeartBeatSendPackage_user_name_update (or_else (AHeartBeatSendPackage_user_name (HeartBeatSendPackage_abs from))) (HeartBeatSendPackage_abs m)"
  "HeartBeatSendPackage_abs (HeartBeatSendPackage_merge_meeting_id from m) = AHeartBeatSendPackage_meeting_id_update (or_else (AHeartBeatSendPackage_meeting_id (HeartBeatSendPackage_abs from))) (HeartBeatSendPackage_abs m)"
  by (simp_all add: HeartBeatSendPackage_merge_user_name_def HeartBeatSendPackage_merge_meeting_id_def HeartBeatSendPackage_abs_def shown_def HeartBeatSendPackage_accessors HeartBeatSendPackage_presence hasbits)

lemma HeartBeatSendPackage_ok_merge_fields:
  "HeartBeatSendPackage_ok m \<Longrightarrow> HeartBeatSendPackage_ok (HeartBeatSendPackage_merge_user_name from m)"
  "HeartBeatSendPackage_ok m \<Longrightarrow> HeartBeatSendPackage_ok (HeartBeatSendPackage_merge_meeting_id from m)"
  by (simp_all add: HeartBeatSendPackage_merge_user_name_def HeartBeatSendPackage_merge_meeting_id_def)

text \<open>The tests of whole bytes of presence bits only save work.\<close>

lemma HeartBeatSendPackage_MergeFrom_steps:
  "HeartBeatSendPackage_MergeFrom from m =
     (let m = HeartBeatSendPackage_merge_user_name from m;
          m = HeartBeatSendPackage_merge_meeting_id from m
      in m\<lparr>HeartBeatSendPackage_unknown := HeartBeatSendPackage_unknown m @ HeartBeatSendPackage_unknown from\<rparr>)"
  by (cases "HeartBeatSendPackage_has_bits from AND 0xFF = 0")
    (simp_all add: HeartBeatSendPackage_MergeFrom_def Let_def Unknown_MergeFrom_append HeartBeatSendPackage_merge_absent HeartBeatSendPackage_presence hasbits)

lemma HeartBeatSendPackage_MergeFrom_step:
  assumes "HeartBeatSendPackage_ok m" "HeartBeatSendPackage_ok from"
  shows "HeartBeatSendPackage_ok (HeartBeatSendPackage_MergeFrom from m)"
    and "HeartBeatSendPackage_abs (HeartBeatSendPackage_MergeFrom from m) = AHeartBeatSendPackage_merge (HeartBeatSendPackage_abs from) (HeartBeatSendPackage_abs m)"
proof -
  have u: "HeartBeatSendPackage_ok (x\<lparr>HeartBeatSendPackage_unknown := u\<rparr>) = HeartBeatSendPackage_ok x" "HeartBeatSendPackage_abs (x\<lparr>HeartBeatSendPackage_unknown := u\<rparr>) = (HeartBeatSendPackage_abs x)\<lparr>AHeartBeatSendPackage_unknown := u\<rparr>" for x u
    by (simp_all add: HeartBeatSendPackage_ok_def HeartBeatSendPackage_abs_def HeartBeatSendPackage_accessors HeartBeatSendPackage_presence)
  note steps = HeartBeatSendPackage_MergeFrom_steps HeartBeatSendPackage_ok_merge_fields HeartBeatSendPackage_abs_merge_fields
  show "HeartBeatSendPackage_ok (HeartBeatSendPackage_MergeFrom from m)"
    using assms by (simp add: Let_def u steps)
  have k: "HeartBeatSendPackage_unknown x = AHeartBeatSendPackage_unknown (HeartBeatSendPackage_abs x)" for x
    by (simp add: HeartBeatSendPackage_abs_def)
  show "HeartBeatSendPackage_abs (HeartBeatSendPackage_MergeFrom from m) = AHeartBeatSendPackage_merge (HeartBeatSendPackage_abs from) (HeartBeatSendPackage_abs m)"
    using assms by (cases "HeartBeatSendPackage_abs m") (simp add: Let_def u k steps AHeartBeatSendPackage_merge_def)
qed

lemmas HeartBeatSendPackage_MergeFrom_ok = HeartBeatSendPackage_MergeFrom_step(1)
lemmas HeartBeatSendPackage_MergeFrom_abs = HeartBeatSendPackage_MergeFrom_step(2)

lemma HeartBeatSendPackage_merge_empty [simp]:
  "AHeartBeatSendPackage_merge a AHeartBeatSendPackage_empty = a"
  by (simp add: AHeartBeatSendPackage_merge_def AHeartBeatSendPackage_empty_def merged_empty)

lemma HeartBeatSendPackage_CopyFrom_ok:
  "HeartBeatSendPackage_ok m \<Longrightarrow> HeartBeatSendPackage_ok from \<Longrightarrow> HeartBeatSendPackage_ok (HeartBeatSendPackage_CopyFrom from m)"
  by (simp add: HeartBeatSendPackage_CopyFrom_def HeartBeatSendPackage_MergeFrom_ok HeartBeatSendPackage_Clear_ok)

lemma HeartBeatSendPackage_CopyFrom_abs:
  "HeartBeatSendPackage_ok m \<Longrightarrow> HeartBeatSendPackage_ok from \<Longrightarrow> HeartBeatSendPackage_abs (HeartBeatSendPackage_CopyFrom from m) = HeartBeatSendPackage_abs from"
  by (simp add: HeartBeatSendPackage_CopyFrom_def HeartBeatSendPackage_MergeFrom_abs HeartBeatSendPackage_Clear_ok HeartBeatSendPackage_Clear_abs)

lemma HeartBeatSendPackage_IsInitialized_abs:
  "HeartBeatSendPackage_ok m \<Longrightarrow> HeartBeatSendPackage_IsInitialized m \<longleftrightarrow> AHeartBeatSendPackage_initialized (HeartBeatSendPackage_abs m)"
  by (simp add: HeartBeatSendPackage_IsInitialized_def AHeartBeatSendPackage_initialized_def HeartBeatSendPackage_abs_def HeartBeatSendPackage_presence hasbits)

lemma HeartBeatSendPackage_Swap_exchanges:
  "HeartBeatSendPackage_Swap m other = (other, m)"
  by (simp add: HeartBeatSendPackage_Swap_def)

subsection \<open>ByteSize and SerializeWithCachedSizesToArray\<close>

lemma HeartBeatSendPackage_write_fields:
  "HeartBeatSendPackage_write_user_name m t = t @ enc_opt (\<lambda>v. enc_tag 1 WIRETYPE_LENGTH_DELIMITED @ enc_bytes v) (AHeartBeatSendPackage_user_name (HeartBeatSendPackage_abs m))"
  "HeartBeatSendPackage_write_meeting_id m t = t @ enc_opt (\<lambda>v. enc_tag 2 WIRETYPE_LENGTH_DELIMITED @ enc_bytes v) (AHeartBeatSendPackage_meeting_id (HeartBeatSendPackage_abs m))"
  by (simp_all add: HeartBeatSendPackage_write_user_name_def HeartBeatSendPackage_write_meeting_id_def HeartBeatSendPackage_abs_def wire shown_def)

lemma HeartBeatSendPackage_unknown_abs:
  "AHeartBeatSendPackage_unknown (HeartBeatSendPackage_abs m) = HeartBeatSendPackage_unknown m"
  by (simp add: HeartBeatSendPackage_abs_def)

lemma HeartBeatSendPackage_size_absent:
  "\<not> HeartBeatSendPackage_has_user_name (snd s) \<Longrightarrow> HeartBeatSendPackage_size_user_name s = s"
  "\<not> HeartBeatSendPackage_has_meeting_id (snd s) \<Longrightarrow> HeartBeatSendPackage_size_meeting_id s = s"
  by (simp_all add: HeartBeatSendPackage_size_user_name_def HeartBeatSendPackage_size_meeting_id_def case_prod_beta)

lemma HeartBeatSendPackage_size_has_bits:
  "HeartBeatSendPackage_has_bits (snd (HeartBeatSendPackage_size_user_name s)) = HeartBeatSendPackage_has_bits (snd s)"
  "HeartBeatSendPackage_has_bits (snd (HeartBeatSendPackage_size_meeting_id s)) = HeartBeatSendPackage_has_bits (snd s)"
  by (simp_all add: HeartBeatSendPackage_size_user_name_def HeartBeatSendPackage_size_meeting_id_def case_prod_beta)

lemma HeartBeatSendPackage_size_fields:
  "HeartBeatSendPackage_size_user_name (n, m) = (n + length (enc_opt (\<lambda>v. enc_tag 1 WIRETYPE_LENGTH_DELIMITED @ enc_bytes v) (AHeartBeatSendPackage_user_name (HeartBeatSendPackage_abs m))), m)"
  "HeartBeatSendPackage_size_meeting_id (n, m) = (n + length (enc_opt (\<lambda>v. enc_tag 2 WIRETYPE_LENGTH_DELIMITED @ enc_bytes v) (AHeartBeatSendPackage_meeting_id (HeartBeatSendPackage_abs m))), m)"
  by (simp_all add: HeartBeatSendPackage_size_user_name_def HeartBeatSendPackage_size_meeting_id_def HeartBeatSendPackage_abs_def shown_def
      length_enc_int32 length_enc_uint32 length_enc_enum length_enc_bytes)

lemma HeartBeatSendPackage_size_skip:
  "HeartBeatSendPackage_has_bits (snd s) AND 0xFF = 0 \<Longrightarrow>
     HeartBeatSendPackage_size_meeting_id (HeartBeatSendPackage_size_user_name s) = s"
  by (simp_all add: HeartBeatSendPackage_size_absent HeartBeatSendPackage_presence hasbits)

lemma HeartBeatSendPackage_field_sizes_steps:
  "HeartBeatSendPackage_field_sizes m =
     HeartBeatSendPackage_size_meeting_id 
       (HeartBeatSendPackage_size_user_name (0, m))"
  by (cases "HeartBeatSendPackage_has_bits m AND 0xFF = 0")
    (simp_all add: HeartBeatSendPackage_field_sizes_def Let_def HeartBeatSendPackage_size_skip HeartBeatSendPackage_size_has_bits)

lemma HeartBeatSendPackage_ByteSize_eq:
  "HeartBeatSendPackage_ByteSize m =
     (length (AHeartBeatSendPackage_encode (HeartBeatSendPackage_abs m)), m\<lparr>HeartBeatSendPackage_cached_size := length (AHeartBeatSendPackage_encode (HeartBeatSendPackage_abs m))\<rparr>)"
  by (simp add: HeartBeatSendPackage_ByteSize_def HeartBeatSendPackage_field_sizes_steps unknown_size Let_def HeartBeatSendPackage_size_fields ComputeUnknown_length AHeartBeatSendPackage_encode_def add.assoc add.left_commute add.commute HeartBeatSendPackage_unknown_abs)

lemma HeartBeatSendPackage_ByteSize_fst:
  "HeartBeatSendPackage_ok m \<Longrightarrow> fst (HeartBeatSendPackage_ByteSize m) = length (AHeartBeatSendPackage_encode (HeartBeatSendPackage_abs m))"
  by (simp add: HeartBeatSendPackage_ByteSize_eq)

lemma HeartBeatSendPackage_cached_simps [simp]:
  "HeartBeatSendPackage_ok (m\<lparr>HeartBeatSendPackage_cached_size := c\<rparr>) = HeartBeatSendPackage_ok m" "HeartBeatSendPackage_abs (m\<lparr>HeartBeatSendPackage_cached_size := c\<rparr>) = HeartBeatSendPackage_abs m"
  by (simp_all add: HeartBeatSendPackage_ok_def HeartBeatSendPackage_abs_def HeartBeatSendPackage_accessors HeartBeatSendPackage_presence)

lemma HeartBeatSendPackage_ByteSize_snd:
  "HeartBeatSendPackage_ok m \<Longrightarrow> HeartBeatSendPackage_ok (snd (HeartBeatSendPackage_ByteSize m)) \<and> HeartBeatSendPackage_abs (snd (HeartBeatSendPackage_ByteSize m)) = HeartBeatSendPackage_abs m \<and> HeartBeatSendPackage_sized (snd (HeartBeatSendPackage_ByteSize m))"
  by (simp add: HeartBeatSendPackage_ByteSize_eq HeartBeatSendPackage_sized_def)

lemma HeartBeatSendPackage_SerializeWithCachedSizesToArray_eq:
  "HeartBeatSendPackage_SerializeWithCachedSizesToArray m t = t @ AHeartBeatSendPackage_encode (HeartBeatSendPackage_abs m)"
  by (simp add: HeartBeatSendPackage_SerializeWithCachedSizesToArray_def Let_def HeartBeatSendPackage_write_fields AHeartBeatSendPackage_encode_def HeartBeatSendPackage_unknown_abs
      unknown_serialize)

section \<open>The message \<^verbatim>\<open>HeartReturnPackage\<close>\<close>

subsection \<open>Data\<close>

record HeartReturnPackage =
  HeartReturnPackage_identity_fld :: int32
  HeartReturnPackage_unknown :: unknown_field_set
  HeartReturnPackage_cached_size :: nat
  HeartReturnPackage_has_bits :: uint32

definition HeartReturnPackage_default :: HeartReturnPackage where
  "HeartReturnPackage_default =
     \<lparr>HeartReturnPackage_identity_fld = 1,
      HeartReturnPackage_unknown = [],
      HeartReturnPackage_cached_size = 0,
      HeartReturnPackage_has_bits = 0\<rparr>"

subsection \<open>Accessors\<close>

definition HeartReturnPackage_has_identity :: "HeartReturnPackage \<Rightarrow> bool" where
  "HeartReturnPackage_has_identity m \<longleftrightarrow> HeartReturnPackage_has_bits m AND 1 \<noteq> 0"

definition HeartReturnPackage_set_has_identity :: "HeartReturnPackage \<Rightarrow> HeartReturnPackage" where
  "HeartReturnPackage_set_has_identity m = m\<lparr>HeartReturnPackage_has_bits := HeartReturnPackage_has_bits m OR 1\<rparr>"

definition HeartReturnPackage_clear_has_identity :: "HeartReturnPackage \<Rightarrow> HeartReturnPackage" where
  "HeartReturnPackage_clear_has_identity m = m\<lparr>HeartReturnPackage_has_bits := HeartReturnPackage_has_bits m AND NOT 1\<rparr>"

definition HeartReturnPackage_clear_identity :: "HeartReturnPackage \<Rightarrow> HeartReturnPackage" where
  "HeartReturnPackage_clear_identity m = HeartReturnPackage_clear_has_identity (m\<lparr>HeartReturnPackage_identity_fld := 1\<rparr>)"

definition HeartReturnPackage_identity :: "HeartReturnPackage \<Rightarrow> int32" where
  "HeartReturnPackage_identity m = HeartReturnPackage_identity_fld m"

definition HeartReturnPackage_set_identity :: "int32 \<Rightarrow> HeartReturnPackage \<Rightarrow> HeartReturnPackage" where
  "HeartReturnPackage_set_identity value m = (HeartReturnPackage_set_has_identity m)\<lparr>HeartReturnPackage_identity_fld := value\<rparr>"

lemmas HeartReturnPackage_presence = HeartReturnPackage_has_identity_def
    HeartReturnPackage_set_has_identity_def HeartReturnPackage_clear_has_identity_def

lemmas HeartReturnPackage_accessors = HeartReturnPackage_clear_identity_def HeartReturnPackage_identity_def
    HeartReturnPackage_set_identity_def

subsection \<open>Operations on whole messages\<close>

definition HeartReturnPackage_Clear :: "HeartReturnPackage \<Rightarrow> HeartReturnPackage" where
  "HeartReturnPackage_Clear m =
     (let m = (if HeartReturnPackage_has_bits m AND 0xFF \<noteq> 0
           then m\<lparr>HeartReturnPackage_identity_fld := 1\<rparr>
           else m)
      in m\<lparr>HeartReturnPackage_has_bits := 0, HeartReturnPackage_unknown := Unknown_Clear (HeartReturnPackage_unknown m)\<rparr>)"

definition HeartReturnPackage_merge_identity :: "HeartReturnPackage \<Rightarrow> HeartReturnPackage \<Rightarrow> HeartReturnPackage" where
  "HeartReturnPackage_merge_identity from m = (if HeartReturnPackage_has_identity from then HeartReturnPackage_set_identity (HeartReturnPackage_identity from) m else m)"

definition HeartReturnPackage_MergeFrom :: "HeartReturnPackage \<Rightarrow> HeartReturnPackage \<Rightarrow> HeartReturnPackage" where
  "HeartReturnPackage_MergeFrom from m =
     (let m = (if HeartReturnPackage_has_bits from AND 0xFF \<noteq> 0 then
             let m = HeartReturnPackage_merge_identity from m
             in m
           else m)
      in m\<lparr>HeartReturnPackage_unknown := Unknown_MergeFrom (HeartReturnPackage_unknown m) (HeartReturnPackage_unknown from)\<rparr>)"

definition HeartReturnPackage_CopyFrom :: "HeartReturnPackage \<Rightarrow> HeartReturnPackage \<Rightarrow> HeartReturnPackage" where
  "HeartReturnPackage_CopyFrom from m = HeartReturnPackage_MergeFrom from (HeartReturnPackage_Clear m)"

definition HeartReturnPackage_IsInitialized :: "HeartReturnPackage \<Rightarrow> bool" where
  "HeartReturnPackage_IsInitialized m \<longleftrightarrow>
     (if HeartReturnPackage_has_bits m AND 1 \<noteq> 1 then False
      else True)"

definition HeartReturnPackage_Swap :: "HeartReturnPackage \<Rightarrow> HeartReturnPackage \<Rightarrow> HeartReturnPackage \<times> HeartReturnPackage" where
  "HeartReturnPackage_Swap m other =
     (m\<lparr>HeartReturnPackage_identity_fld := HeartReturnPackage_identity_fld other,
        HeartReturnPackage_has_bits := HeartReturnPackage_has_bits other,
        HeartReturnPackage_unknown := HeartReturnPackage_unknown other,
        HeartReturnPackage_cached_size := HeartReturnPackage_cached_size other\<rparr>,
      other\<lparr>HeartReturnPackage_identity_fld := HeartReturnPackage_identity_fld m,
        HeartReturnPackage_has_bits := HeartReturnPackage_has_bits m,
        HeartReturnPackage_unknown := HeartReturnPackage_unknown m,
        HeartReturnPackage_cached_size := HeartReturnPackage_cached_size m\<rparr>)"

definition HeartReturnPackage_size_identity :: "nat \<times> HeartReturnPackage \<Rightarrow> nat \<times> HeartReturnPackage" where
  "HeartReturnPackage_size_identity = (\<lambda>(total, m). (if HeartReturnPackage_has_identity m then (total + (1 + EnumSize (HeartReturnPackage_identity m)), m) else (total, m)))"

definition HeartReturnPackage_field_sizes :: "HeartReturnPackage \<Rightarrow> nat \<times> HeartReturnPackage" where
  "HeartReturnPackage_field_sizes m =
     (let s = (0, m);
          s = (if HeartReturnPackage_has_bits m AND 0xFF \<noteq> 0 then
             let s = HeartReturnPackage_size_identity s
             in s
           else s)
      in s)"

definition HeartReturnPackage_ByteSize :: "HeartReturnPackage \<Rightarrow> nat \<times> HeartReturnPackage" where
  "HeartReturnPackage_ByteSize m =
     (let (total, m) = HeartReturnPackage_field_sizes m;
          total = (if HeartReturnPackage_unknown m \<noteq> [] then total + ComputeUnknownFieldsSize (HeartReturnPackage_unknown m) else total)
      in (total, m\<lparr>HeartReturnPackage_cached_size := total\<rparr>))"

definition HeartReturnPackage_write_identity :: "HeartReturnPackage \<Rightarrow> bytes \<Rightarrow> bytes" where
  "HeartReturnPackage_write_identity m target =
     (if HeartReturnPackage_has_identity m then WriteEnumToArray 1 (HeartReturnPackage_identity m) target else target)"

definition HeartReturnPackage_SerializeWithCachedSizesToArray :: "HeartReturnPackage \<Rightarrow> bytes \<Rightarrow> bytes" where
  "HeartReturnPackage_SerializeWithCachedSizesToArray m target =
     (let target = HeartReturnPackage_write_identity m target
      in if HeartReturnPackage_unknown m \<noteq> [] then SerializeUnknownFieldsToArray (HeartReturnPackage_unknown m) target else target)"

subsection \<open>The abstract message\<close>

record AHeartReturnPackage =
  AHeartReturnPackage_identity :: "int32 option"
  AHeartReturnPackage_unknown :: unknown_field_set

definition AHeartReturnPackage_empty :: AHeartReturnPackage where
  "AHeartReturnPackage_empty = \<lparr>AHeartReturnPackage_identity = None,
     AHeartReturnPackage_unknown = []\<rparr>"

definition HeartReturnPackage_abs :: "HeartReturnPackage \<Rightarrow> AHeartReturnPackage" where
  "HeartReturnPackage_abs m = \<lparr>AHeartReturnPackage_identity = shown (HeartReturnPackage_has_identity m) (HeartReturnPackage_identity m),
     AHeartReturnPackage_unknown = HeartReturnPackage_unknown m\<rparr>"

definition HeartReturnPackage_ok :: "HeartReturnPackage \<Rightarrow> bool" where
  "HeartReturnPackage_ok m \<longleftrightarrow>
     scalar_ok (HeartReturnPackage_has_identity m) 1 (HeartReturnPackage_identity_fld m)"

definition AHeartReturnPackage_merge :: "AHeartReturnPackage \<Rightarrow> AHeartReturnPackage \<Rightarrow> AHeartReturnPackage" where
  "AHeartReturnPackage_merge from to = \<lparr>AHeartReturnPackage_identity = or_else (AHeartReturnPackage_identity from) (AHeartReturnPackage_identity to),
     AHeartReturnPackage_unknown = AHeartReturnPackage_unknown to @ AHeartReturnPackage_unknown from\<rparr>"

definition AHeartReturnPackage_initialized :: "AHeartReturnPackage \<Rightarrow> bool" where
  "AHeartReturnPackage_initialized a \<longleftrightarrow>
     AHeartReturnPackage_identity a \<noteq> None"

definition AHeartReturnPackage_encode :: "AHeartReturnPackage \<Rightarrow> bytes" where
  "AHeartReturnPackage_encode a =
     enc_opt (\<lambda>v. enc_tag 1 WIRETYPE_VARINT @ enc_int32 v) (AHeartReturnPackage_identity a) @
     SerializeUnknownFieldsToArray (AHeartReturnPackage_unknown a) []"

definition HeartReturnPackage_sized :: "HeartReturnPackage \<Rightarrow> bool" where
  "HeartReturnPackage_sized m \<longleftrightarrow>
     HeartReturnPackage_cached_size m = length (AHeartReturnPackage_encode (HeartReturnPackage_abs m))"

subsection \<open>Accessors on the abstract message\<close>

lemma HeartReturnPackage_abs_default [simp]:
  "HeartReturnPackage_abs HeartReturnPackage_default = AHeartReturnPackage_empty"
  by (simp add: HeartReturnPackage_abs_def HeartReturnPackage_default_def AHeartReturnPackage_empty_def HeartReturnPackage_accessors HeartReturnPackage_presence)

lemma HeartReturnPackage_ok_default [simp]:
  "HeartReturnPackage_ok HeartReturnPackage_default"
  by (simp add: HeartReturnPackage_ok_def HeartReturnPackage_default_def field_ok HeartReturnPackage_presence)

lemma HeartReturnPackage_abs_accessors [simp]:
  "HeartReturnPackage_abs (HeartReturnPackage_set_identity v m) = (HeartReturnPackage_abs m)\<lparr>AHeartReturnPackage_identity := Some v\<rparr>"
  "HeartReturnPackage_abs (HeartReturnPackage_clear_identity m) = (HeartReturnPackage_abs m)\<lparr>AHeartReturnPackage_identity := None\<rparr>"
  by (simp_all add: HeartReturnPackage_abs_def HeartReturnPackage_accessors HeartReturnPackage_presence hasbits Let_def)

lemma HeartReturnPackage_ok_accessors [simp]:
  "HeartReturnPackage_ok m \<Longrightarrow> HeartReturnPackage_ok (HeartReturnPackage_set_identity v m)"
  "HeartReturnPackage_ok m \<Longrightarrow> HeartReturnPackage_ok (HeartReturnPackage_clear_identity m)"
  by (simp_all add: HeartReturnPackage_ok_def Let_def HeartReturnPackage_accessors HeartReturnPackage_presence hasbits)

lemma HeartReturnPackage_getters:
  "HeartReturnPackage_ok m \<Longrightarrow> HeartReturnPackage_identity m = value_or 1 (AHeartReturnPackage_identity (HeartReturnPackage_abs m))"
  by (simp_all add: HeartReturnPackage_ok_def HeartReturnPackage_abs_def HeartReturnPackage_accessors)

subsection \<open>Clear, MergeFrom, CopyFrom, IsInitialized, Swap\<close>

lemma HeartReturnPackage_Clear_ok:
  "HeartReturnPackage_ok m \<Longrightarrow> HeartReturnPackage_ok (HeartReturnPackage_Clear m)"
  by (cases "HeartReturnPackage_has_bits m AND 0xFF = 0")
    (simp_all add: HeartReturnPackage_ok_def HeartReturnPackage_Clear_def Let_def HeartReturnPackage_presence hasbits)

lemma HeartReturnPackage_Clear_abs:
  "HeartReturnPackage_abs (HeartReturnPackage_Clear m) = AHeartReturnPackage_empty"
  by (simp add: HeartReturnPackage_abs_def AHeartReturnPackage_empty_def HeartReturnPackage_Clear_def Unknown_Clear_def Let_def HeartReturnPackage_presence hasbits)

lemma HeartReturnPackage_merge_absent:
  "\<not> HeartReturnPackage_has_identity from \<Longrightarrow> HeartReturnPackage_merge_identity from m = m"
  by (simp_all add: HeartReturnPackage_merge_identity_def)

lemma HeartReturnPackage_abs_merge_fields:
  "HeartReturnPackage_abs (HeartReturnPackage_merge_identity from m) = AHeartReturnPackage_identity_update (or_else (AHeartReturnPackage_identity (HeartReturnPackage_abs from))) (HeartReturnPackage_abs m)"
  by (simp_all add: HeartReturnPackage_merge_identity_def HeartReturnPackage_abs_def shown_def HeartReturnPackage_accessors HeartReturnPackage_presence hasbits)

lemma HeartReturnPackage_ok_merge_fields:
  "HeartReturnPackage_ok m \<Longrightarrow> HeartReturnPackage_ok (HeartReturnPackage_merge_identity from m)"
  by (simp_all add: HeartReturnPackage_merge_identity_def)

text \<open>The tests of whole bytes of presence bits only save work.\<close>

lemma HeartReturnPackage_MergeFrom_steps:
  "HeartReturnPackage_MergeFrom from m =
     (let m = HeartReturnPackage_merge_identity from m
      in m\<lparr>HeartReturnPackage_unknown := HeartReturnPackage_unknown m @ HeartReturnPackage_unknown from\<rparr>)"
  by (cases "HeartReturnPackage_has_bits from AND 0xFF = 0")
    (simp_all add: HeartReturnPackage_MergeFrom_def Let_def Unknown_MergeFrom_append HeartReturnPackage_merge_absent HeartReturnPackage_presence hasbits)

lemma HeartReturnPackage_MergeFrom_step:
  assumes "HeartReturnPackage_ok m" "HeartReturnPackage_ok from"
  shows "HeartReturnPackage_ok (HeartReturnPackage_MergeFrom from m)"
    and "HeartReturnPackage_abs (HeartReturnPackage_MergeFrom from m) = AHeartReturnPackage_merge (HeartReturnPackage_abs from) (HeartReturnPackage_abs m)"
proof -
  have u: "HeartReturnPackage_ok (x\<lparr>HeartReturnPackage_unknown := u\<rparr>) = HeartReturnPackage_ok x" "HeartReturnPackage_abs (x\<lparr>HeartReturnPackage_unknown := u\<rparr>) = (HeartReturnPackage_abs x)\<lparr>AHeartReturnPackage_unknown := u\<rparr>" for x u
    by (simp_all add: HeartReturnPackage_ok_def HeartReturnPackage_abs_def HeartReturnPackage_accessors HeartReturnPackage_presence)
  note steps = HeartReturnPackage_MergeFrom_steps HeartReturnPackage_ok_merge_fields HeartReturnPackage_abs_merge_fields
  show "HeartReturnPackage_ok (HeartReturnPackage_MergeFrom from m)"
    using assms by (simp add: Let_def u steps)
  have k: "HeartReturnPackage_unknown x = AHeartReturnPackage_unknown (HeartReturnPackage_abs x)" for x
    by (simp add: HeartReturnPackage_abs_def)
  show "HeartReturnPackage_abs (HeartReturnPackage_MergeFrom from m) = AHeartReturnPackage_merge (HeartReturnPackage_abs from) (HeartReturnPackage_abs m)"
    using assms by (cases "HeartReturnPackage_abs m") (simp add: Let_def u k steps AHeartReturnPackage_merge_def)
qed

lemmas HeartReturnPackage_MergeFrom_ok = HeartReturnPackage_MergeFrom_step(1)
lemmas HeartReturnPackage_MergeFrom_abs = HeartReturnPackage_MergeFrom_step(2)

lemma HeartReturnPackage_merge_empty [simp]:
  "AHeartReturnPackage_merge a AHeartReturnPackage_empty = a"
  by (simp add: AHeartReturnPackage_merge_def AHeartReturnPackage_empty_def merged_empty)

lemma HeartReturnPackage_CopyFrom_ok:
  "HeartReturnPackage_ok m \<Longrightarrow> HeartReturnPackage_ok from \<Longrightarrow> HeartReturnPackage_ok (HeartReturnPackage_CopyFrom from m)"
  by (simp add: HeartReturnPackage_CopyFrom_def HeartReturnPackage_MergeFrom_ok HeartReturnPackage_Clear_ok)

lemma HeartReturnPackage_CopyFrom_abs:
  "HeartReturnPackage_ok m \<Longrightarrow> HeartReturnPackage_ok from \<Longrightarrow> HeartReturnPackage_abs (HeartReturnPackage_CopyFrom from m) = HeartReturnPackage_abs from"
  by (simp add: HeartReturnPackage_CopyFrom_def HeartReturnPackage_MergeFrom_abs HeartReturnPackage_Clear_ok HeartReturnPackage_Clear_abs)

lemma HeartReturnPackage_IsInitialized_abs:
  "HeartReturnPackage_ok m \<Longrightarrow> HeartReturnPackage_IsInitialized m \<longleftrightarrow> AHeartReturnPackage_initialized (HeartReturnPackage_abs m)"
  by (simp add: HeartReturnPackage_IsInitialized_def AHeartReturnPackage_initialized_def HeartReturnPackage_abs_def HeartReturnPackage_presence hasbits)

lemma HeartReturnPackage_Swap_exchanges:
  "HeartReturnPackage_Swap m other = (other, m)"
  by (simp add: HeartReturnPackage_Swap_def)

subsection \<open>ByteSize and SerializeWithCachedSizesToArray\<close>

lemma HeartReturnPackage_write_fields:
  "HeartReturnPackage_write_identity m t = t @ enc_opt (\<lambda>v. enc_tag 1 WIRETYPE_VARINT @ enc_int32 v) (AHeartReturnPackage_identity (HeartReturnPackage_abs m))"
  by (simp_all add: HeartReturnPackage_write_identity_def HeartReturnPackage_abs_def wire shown_def)

lemma HeartReturnPackage_unknown_abs:
  "AHeartReturnPackage_unknown (HeartReturnPackage_abs m) = HeartReturnPackage_unknown m"
  by (simp add: HeartReturnPackage_abs_def)

lemma HeartReturnPackage_size_absent:
  "\<not> HeartReturnPackage_has_identity (snd s) \<Longrightarrow> HeartReturnPackage_size_identity s = s"
  by (simp_all add: HeartReturnPackage_size_identity_def case_prod_beta)

lemma HeartReturnPackage_size_has_bits:
  "HeartReturnPackage_has_bits (snd (HeartReturnPackage_size_identity s)) = HeartReturnPackage_has_bits (snd s)"
  by (simp_all add: HeartReturnPackage_size_identity_def case_prod_beta)

lemma HeartReturnPackage_size_fields:
  "HeartReturnPackage_size_identity (n, m) = (n + length (enc_opt (\<lambda>v. enc_tag 1 WIRETYPE_VARINT @ enc_int32 v) (AHeartReturnPackage_identity (HeartReturnPackage_abs m))), m)"
  by (simp_all add: HeartReturnPackage_size_identity_def HeartReturnPackage_abs_def shown_def
      length_enc_int32 length_enc_uint32 length_enc_enum length_enc_bytes)

lemma HeartReturnPackage_size_skip:
  "HeartReturnPackage_has_bits (snd s) AND 0xFF = 0 \<Longrightarrow>
     HeartReturnPackage_size_identity s = s"
  by (simp_all add: HeartReturnPackage_size_absent HeartReturnPackage_presence hasbits)

lemma HeartReturnPackage_field_sizes_steps:
  "HeartReturnPackage_field_sizes m =
     HeartReturnPackage_size_identity (0, m)"
  by (cases "HeartReturnPackage_has_bits m AND 0xFF = 0")
    (simp_all add: HeartReturnPackage_field_sizes_def Let_def HeartReturnPackage_size_skip HeartReturnPackage_size_has_bits)

lemma HeartReturnPackage_ByteSize_eq:
  "HeartReturnPackage_ByteSize m =
     (length (AHeartReturnPackage_encode (HeartReturnPackage_abs m)), m\<lparr>HeartReturnPackage_cached_size := length (AHeartReturnPackage_encode (HeartReturnPackage_abs m))\<rparr>)"
  by (simp add: HeartReturnPackage_ByteSize_def HeartReturnPackage_field_sizes_steps unknown_size Let_def HeartReturnPackage_size_fields ComputeUnknown_length AHeartReturnPackage_encode_def add.assoc add.left_commute add.commute HeartReturnPackage_unknown_abs)

lemma HeartReturnPackage_ByteSize_fst:
  "HeartReturnPackage_ok m \<Longrightarrow> fst (HeartReturnPackage_ByteSize m) = length (AHeartReturnPackage_encode (HeartReturnPackage_abs m))"
  by (simp add: HeartReturnPackage_ByteSize_eq)

lemma HeartReturnPackage_cached_simps [simp]:
  "HeartReturnPackage_ok (m\<lparr>HeartReturnPackage_cached_size := c\<rparr>) = HeartReturnPackage_ok m" "HeartReturnPackage_abs (m\<lparr>HeartReturnPackage_cached_size := c\<rparr>) = HeartReturnPackage_abs m"
  by (simp_all add: HeartReturnPackage_ok_def HeartReturnPackage_abs_def HeartReturnPackage_accessors HeartReturnPackage_presence)

lemma HeartReturnPackage_ByteSize_snd:
  "HeartReturnPackage_ok m \<Longrightarrow> HeartReturnPackage_ok (snd (HeartReturnPackage_ByteSize m)) \<and> HeartReturnPackage_abs (snd (HeartReturnPackage_ByteSize m)) = HeartReturnPackage_abs m \<and> HeartReturnPackage_sized (snd (HeartReturnPackage_ByteSize m))"
  by (simp add: HeartReturnPackage_ByteSize_eq HeartReturnPackage_sized_def)

lemma HeartReturnPackage_SerializeWithCachedSizesToArray_eq:
  "HeartReturnPackage_SerializeWithCachedSizesToArray m t = t @ AHeartReturnPackage_encode (HeartReturnPackage_abs m)"
  by (simp add: HeartReturnPackage_SerializeWithCachedSizesToArray_def Let_def HeartReturnPackage_write_fields AHeartReturnPackage_encode_def HeartReturnPackage_unknown_abs
      unknown_serialize)

end
