(* ===== verification/Float32.thy ===== *)
theory Float32
  imports Owb_Prelude
begin

text \<open>
  The IEEE 754 single precision arithmetic that the Objective-C++ code relies on:
  \<^verbatim>\<open>CGFloat\<close> is \<^verbatim>\<open>float\<close> on the 32-bit targets of the project, and every \<^verbatim>\<open>float\<close>
  expression is rounded to nearest, ties to even, after each operation.

  A float is its bit pattern. A finite one is an integer multiple of \<open>2 ^ -149\<close>, the
  smallest positive float, and its magnitude is kept as that natural number.
  Converting to \<^verbatim>\<open>int\<close> a value that does not fit is undefined: \<open>None\<close>.
\<close>

section \<open>Values\<close>

datatype fval = NaN | Infinity bool | Finite bool nat

definition f_unit :: nat where
  "f_unit = 2 ^ 149"

definition f_decode :: "float32 \<Rightarrow> fval" where
  "f_decode w =
     (let n = unat w; s = (2 ^ 31 \<le> n); b = n mod 2 ^ 31; e = b div 2 ^ 23; m = b mod 2 ^ 23
      in if e = 255 then (if m = 0 then Infinity s else NaN)
         else if e = 0 then Finite s m
         else Finite s ((2 ^ 23 + m) * 2 ^ (e - 1)))"

section \<open>Rounding\<close>

text \<open>The integer nearest to \<open>n / d\<close>, the even one of two.\<close>

definition round_even :: "nat \<Rightarrow> nat \<Rightarrow> nat" where
  "round_even n d =
     (let q = n div d; r = n mod d
      in if 2 * r < d then q else if d < 2 * r then q + 1 else if even q then q else q + 1)"

text \<open>The least \<open>k\<close> with \<open>n / d < 2 ^ (p + k)\<close>: the exponent that leaves \<open>p\<close> significant bits.\<close>

function fit :: "nat \<Rightarrow> nat \<Rightarrow> nat \<Rightarrow> nat" where
  "fit p n d = (if d = 0 \<or> n < 2 ^ p * d then 0 else Suc (fit p n (2 * d)))"
  by pat_completeness auto
termination
proof (relation "measure (\<lambda>(p, n, d). Suc n - d)")
  fix p n d :: nat
  assume "\<not> (d = 0 \<or> n < 2 ^ p * d)"
  then have "0 < d" "2 ^ p * d \<le> n" by simp_all
  moreover have "d \<le> 2 ^ p * d" by simp
  ultimately have "0 < d" "d \<le> n" by linarith+
  then show "((p, n, 2 * d), p, n, d) \<in> measure (\<lambda>(p, n, d). Suc n - d)"
    by simp
qed simp

declare fit.simps [simp del]

text \<open>The float nearest to \<open>n / d\<close> units, with the given sign; too large is infinite.\<close>

definition f_round :: "bool \<Rightarrow> nat \<Rightarrow> nat \<Rightarrow> float32" where
  "f_round s n d =
     (let k = fit 24 n d; b = k * 2 ^ 23 + round_even n (d * 2 ^ k)
      in of_nat ((if s then 2 ^ 31 else 0) + min b 0x7F800000))"

section \<open>Operations\<close>

definition f_nan :: float32 where
  "f_nan = 0x7FC00000"

definition f_inf :: "bool \<Rightarrow> float32" where
  "f_inf s = (if s then 0xFF800000 else 0x7F800000)"

text \<open>Adding the sign bit, without carry out of 32 bits, flips it.\<close>

definition f_neg :: "float32 \<Rightarrow> float32" where
  "f_neg x = x + 0x80000000"

text \<open>The signed value of a finite float, in units, and its rounding; \<open>z\<close> is the sign of a zero.\<close>

definition signed :: "bool \<Rightarrow> nat \<Rightarrow> int" where
  "signed s n = (if s then - int n else int n)"

definition f_round_signed :: "bool \<Rightarrow> int \<Rightarrow> float32" where
  "f_round_signed z i = f_round (if i = 0 then z else i < 0) (nat \<bar>i\<bar>) 1"

definition f_add :: "float32 \<Rightarrow> float32 \<Rightarrow> float32" where
  "f_add x y =
     (case (f_decode x, f_decode y) of
        (Finite s a, Finite t b) \<Rightarrow>
          f_round_signed (s \<and> t) (signed s a + signed t b)
      | (Infinity s, Infinity t) \<Rightarrow> if s = t then f_inf s else f_nan
      | (Infinity s, Finite _ _) \<Rightarrow> f_inf s
      | (Finite _ _, Infinity t) \<Rightarrow> f_inf t
      | _ \<Rightarrow> f_nan)"

definition f_sub :: "float32 \<Rightarrow> float32 \<Rightarrow> float32" where
  "f_sub x y = f_add x (f_neg y)"

definition f_mul :: "float32 \<Rightarrow> float32 \<Rightarrow> float32" where
  "f_mul x y =
     (case (f_decode x, f_decode y) of
        (Finite s a, Finite t b) \<Rightarrow> f_round (s \<noteq> t) (a * b) f_unit
      | (Infinity s, Infinity t) \<Rightarrow> f_inf (s \<noteq> t)
      | (Infinity s, Finite t b) \<Rightarrow> if b = 0 then f_nan else f_inf (s \<noteq> t)
      | (Finite s a, Infinity t) \<Rightarrow> if a = 0 then f_nan else f_inf (s \<noteq> t)
      | _ \<Rightarrow> f_nan)"

text \<open>Division by the constant 2.\<close>

definition f_div2 :: "float32 \<Rightarrow> float32" where
  "f_div2 x =
     (case f_decode x of
        Finite s a \<Rightarrow> f_round s a 2
      | Infinity s \<Rightarrow> f_inf s
      | NaN \<Rightarrow> f_nan)"

definition f_of_int :: "int \<Rightarrow> float32" where
  "f_of_int i = f_round_signed False (i * int f_unit)"

definition f_to_int :: "float32 \<Rightarrow> int option" where
  "f_to_int x =
     (case f_decode x of
        Finite s a \<Rightarrow>
          (let i = signed s (a div f_unit) in if in_int_range i then Some i else None)
      | _ \<Rightarrow> None)"

text \<open>
  The nearest double to \<open>n / d\<close>, for a value near 1 (far from the limits of the
  format), as a fraction: \<open>n / d\<close> is scaled by \<open>2 ^ 54\<close>, rounded to 53 bits.
\<close>

definition double_round :: "nat \<Rightarrow> nat \<Rightarrow> nat \<times> nat" where
  "double_round n d =
     (let n = n * 2 ^ 54; k = fit 53 n d in (round_even n (d * 2 ^ k) * 2 ^ k, 2 ^ 54))"

definition float_of_fraction :: "nat \<times> nat \<Rightarrow> float32" where
  "float_of_fraction q = f_round False (fst q * f_unit) (snd q)"

section \<open>Rounding a representable value\<close>

lemma fit_bound: "0 < d \<Longrightarrow> n < 2 ^ p * (d * 2 ^ fit p n d)"
proof (induction p n d rule: fit.induct)
  case (1 p n d)
  then show ?case
    by (cases "n < 2 ^ p * d") (simp_all add: fit.simps [of p n d] ac_simps)
qed

lemma fit_least: "0 < fit p n d \<Longrightarrow> 2 ^ p * (d * 2 ^ fit p n d) \<le> 2 * n"
proof (induction p n d rule: fit.induct)
  case (1 p n d)
  show ?case
  proof (cases "fit p n (2 * d) = 0")
    case True
    with "1.prems" show ?thesis
      by (simp add: fit.simps [of p n d] split: if_splits)
  next
    case False
    with 1 show ?thesis
      by (simp add: fit.simps [of p n d] ac_simps split: if_splits)
  qed
qed

lemma fit_le:
  assumes "n < 2 ^ p * (d * 2 ^ j)" "0 < d"
  shows "fit p n d \<le> j"
proof (rule ccontr)
  assume "\<not> fit p n d \<le> j"
  then have "2 ^ Suc j \<le> (2 :: nat) ^ fit p n d" "0 < fit p n d"
    by (intro power_increasing, simp_all)
  then have "2 ^ p * (d * 2 ^ Suc j) \<le> 2 * n"
    using fit_least [of p n d] by (meson le_trans mult_le_mono2)
  with assms show False by simp
qed

lemma round_even_exact [simp]: "0 < d \<Longrightarrow> round_even (q * d) d = q"
  by (simp add: round_even_def)

lemma round_even_ge:
  assumes d: "0 < d" and "2 * (q * d) < 2 * n + d"
  shows "q \<le> round_even n d"
proof -
  have n: "n = n div d * d + n mod d" by simp
  have "n mod d < d" using d by simp
  have e: "2 * (q * d) < 2 * (n div d * d) + 2 * (n mod d) + d"
    using assms n by linarith
  show ?thesis
  proof (cases "2 * (n mod d) < d")
    case True
    have "q * d < (n div d + 1) * d"
      using e True by (simp add: algebra_simps)
    then have "q \<le> n div d"
      using mult_less_cancel2 by (metis Suc_eq_plus1 less_Suc_eq_le)
    then show ?thesis by (simp add: round_even_def Let_def)
  next
    case False
    have "q * d < (n div d + 2) * d"
      using e \<open>n mod d < d\<close> by (simp add: algebra_simps)
    then have "q \<le> n div d + 1"
      using mult_less_cancel2 by (metis add_2_eq_Suc' less_Suc_eq_le Suc_eq_plus1)
    moreover have "q \<le> n div d" if "2 * (n mod d) = d"
    proof -
      have "q * d < (n div d + 1) * d"
        using e that by (simp add: algebra_simps)
      then show ?thesis
        using mult_less_cancel2 by (metis Suc_eq_plus1 less_Suc_eq_le)
    qed
    ultimately show ?thesis
      using False by (auto simp: round_even_def Let_def)
  qed
qed

lemma round_even_le:
  assumes "2 * n < 2 * (q * d) + d"
  shows "round_even n d \<le> q"
proof -
  have d: "0 < d" using assms by (cases d) auto
  have n: "n = n div d * d + n mod d" by simp
  have e: "2 * (n div d * d) + 2 * (n mod d) < 2 * (q * d) + d"
    using assms n by linarith
  have "n div d * d < (q + 1) * d"
    using e by (simp add: algebra_simps)
  then have le: "n div d \<le> q"
    using mult_less_cancel2 by (metis Suc_eq_plus1 less_Suc_eq_le)
  show ?thesis
  proof (cases "2 * (n mod d) < d")
    case True
    with le show ?thesis by (simp add: round_even_def Let_def)
  next
    case False
    with e have "n div d * d < q * d" by linarith
    then have "n div d < q" by simp
    then show ?thesis by (auto simp: round_even_def Let_def)
  qed
qed

lemma f_decode_of_nat:
  assumes "b < 0x7F800000"
  shows "f_decode (of_nat ((if s then 2 ^ 31 else 0) + b)) =
    Finite s (if b < 2 ^ 23 then b else (2 ^ 23 + b mod 2 ^ 23) * 2 ^ (b div 2 ^ 23 - 1))"
proof -
  have n: "unat (of_nat ((if s then 2 ^ 31 else 0) + b) :: float32) = (if s then 2 ^ 31 else 0) + b"
    using assms by (subst unat_of_nat) (simp add: take_bit_nat_eq_self)
  have "b div 2 ^ 23 < 255"
    using assms by simp
  moreover have "b div 2 ^ 23 = 0 \<longleftrightarrow> b < 2 ^ 23"
    by auto
  ultimately show ?thesis
    unfolding f_decode_def n Let_def using assms by auto
qed

lemma f_decode_round:
  assumes "0 < d" "fit 24 n d = k" "k < 253"
  shows "f_decode (f_round s n d) = Finite s (round_even n (d * 2 ^ k) * 2 ^ k)"
proof -
  define q where "q = round_even n (d * 2 ^ k)"
  have "n < 2 ^ 24 * (d * 2 ^ k)"
    using fit_bound [OF assms(1), of n 24] assms(2) by simp
  then have q: "q \<le> 2 ^ 24"
    unfolding q_def by (intro round_even_le) simp
  have ge: "2 ^ 23 \<le> q" if "0 < k"
  proof -
    have "2 ^ 24 * (d * 2 ^ k) \<le> 2 * n" "0 < d * 2 ^ k"
      using fit_least [of 24 n d] that assms by simp_all
    then have "16777216 * (d * 2 ^ k) \<le> 2 * n" "0 < d * 2 ^ k"
      by simp_all
    then have "2 * (8388608 * (d * 2 ^ k)) < 2 * n + d * 2 ^ k"
      by linarith
    then have "2 * (2 ^ 23 * (d * 2 ^ k)) < 2 * n + d * 2 ^ k"
      by simp
    with \<open>0 < d * 2 ^ k\<close> show ?thesis
      unfolding q_def by (rule round_even_ge)
  qed
  have "k * 2 ^ 23 \<le> 252 * 2 ^ 23"
    using assms(3) by simp
  with q have lt: "k * 2 ^ 23 + q < 0x7F800000"
    by simp
  have r: "f_round s n d = of_nat ((if s then 2 ^ 31 else 0) + (k * 2 ^ 23 + q))"
    using lt by (simp add: f_round_def assms(2) q_def [symmetric] min_def)
  have "(if k * 2 ^ 23 + q < 2 ^ 23 then k * 2 ^ 23 + q
      else (2 ^ 23 + (k * 2 ^ 23 + q) mod 2 ^ 23) * 2 ^ ((k * 2 ^ 23 + q) div 2 ^ 23 - 1)) = q * 2 ^ k"
  proof (cases "q < 2 ^ 23")
    case True
    with ge have "k = 0" by (cases k) auto
    with True show ?thesis by simp
  next
    case False
    show ?thesis
    proof (cases "q = 2 ^ 24")
      case True
      have "k * 2 ^ 23 + q = 0 + (k + 2) * 2 ^ 23"
        using True by simp
      then have "(k * 2 ^ 23 + q) div 2 ^ 23 = k + 2" "(k * 2 ^ 23 + q) mod 2 ^ 23 = 0"
        by (simp_all only: div_mult_self3 mod_mult_self1) simp_all
      with True show ?thesis by simp
    next
      case neq: False
      define t where "t = q - 2 ^ 23"
      have t: "q = 2 ^ 23 + t" "t < 2 ^ 23"
        using False q neq by (simp_all add: t_def)
      have "k * 2 ^ 23 + q = t + (k + 1) * 2 ^ 23"
        using t by simp
      then have "(k * 2 ^ 23 + q) div 2 ^ 23 = k + 1" "(k * 2 ^ 23 + q) mod 2 ^ 23 = t"
        using t(2) by (simp_all only: div_mult_self3 mod_mult_self1) simp_all
      with t show ?thesis by simp
    qed
  qed
  then show ?thesis
    unfolding r q_def [symmetric] using f_decode_of_nat [OF lt, of s] by simp
qed

theorem f_round_exact:
  assumes "m < 2 ^ 24" "j < 253" "0 < d"
  shows "f_decode (f_round s (m * 2 ^ j * d) d) = Finite s (m * 2 ^ j)"
proof -
  define k where "k = fit 24 (m * 2 ^ j * d) d"
  have "m * 2 ^ j * d < 2 ^ 24 * (d * 2 ^ j)"
    using assms by (simp add: ac_simps)
  then have kj: "k \<le> j"
    unfolding k_def using assms(3) by (rule fit_le)
  then have "(2 :: nat) ^ j = 2 ^ (j - k) * 2 ^ k"
    by (simp flip: power_add)
  then have e: "m * 2 ^ j * d = (m * 2 ^ (j - k)) * (d * 2 ^ k)" "m * 2 ^ (j - k) * 2 ^ k = m * 2 ^ j"
    by simp_all
  have "round_even (m * 2 ^ j * d) (d * 2 ^ k) = m * 2 ^ (j - k)"
    unfolding e(1) using assms(3) by (intro round_even_exact) simp
  with f_decode_round [OF assms(3) k_def [symmetric], of s] kj assms(2) e(2) show ?thesis
    by simp
qed

section \<open>Integers\<close>

text \<open>Integers up to \<open>2 ^ 24\<close> are floats, and the arithmetic on them is exact.\<close>

definition small_int :: "int \<Rightarrow> bool" where
  "small_int i \<longleftrightarrow> \<bar>i\<bar> \<le> 2 ^ 24"

lemma f_unit_pos [simp]: "0 < f_unit" "f_unit \<noteq> 0"
  by (simp_all add: f_unit_def)

lemma signed_of_int [simp]: "signed (i < 0) (nat \<bar>i\<bar> * u) = i * int u"
  by (simp add: signed_def)

lemma f_round_of_int:
  assumes "i = 0 \<Longrightarrow> \<not> z"
  shows "f_round_signed z (i * int f_unit) = f_of_int i"
  using assms by (simp add: f_of_int_def f_round_signed_def)

lemma f_of_int_round: "f_of_int i = f_round (i < 0) (nat \<bar>i\<bar> * f_unit) 1"
  using f_unit_pos by (auto simp: f_of_int_def f_round_signed_def mult_less_0_iff abs_mult nat_mult_distrib)

lemma f_decode_of_int:
  assumes "small_int i"
  shows "f_decode (f_of_int i) = Finite (i < 0) (nat \<bar>i\<bar> * f_unit)"
proof (cases "\<bar>i\<bar> < 2 ^ 24")
  case True
  then have "nat \<bar>i\<bar> < 2 ^ 24" by simp
  from f_round_exact [OF this, of 149 1] show ?thesis
    by (simp add: f_of_int_round f_unit_def)
next
  case False
  with assms have "nat \<bar>i\<bar> = 2 ^ 24"
    by (simp add: small_int_def)
  then have "nat \<bar>i\<bar> * f_unit = 2 ^ 23 * 2 ^ 150"
    by (simp add: f_unit_def)
  with f_round_exact [of "2 ^ 23" 150 1] show ?thesis
    by (simp add: f_of_int_round)
qed

theorem f_to_int_of_int:
  assumes "small_int i"
  shows "f_to_int (f_of_int i) = Some i"
proof -
  have "signed (i < 0) (nat \<bar>i\<bar>) = i"
    by (simp add: signed_def)
  moreover have "in_int_range i"
    using assms by (auto simp: small_int_def in_int_range_def INT_MIN_def INT_MAX_def abs_le_iff)
  ultimately show ?thesis
    by (simp add: f_to_int_def f_decode_of_int [OF assms] f_unit_def)
qed

theorem f_add_of_int:
  assumes "small_int i" "small_int j"
  shows "f_add (f_of_int i) (f_of_int j) = f_of_int (i + j)"
proof -
  have "i * int f_unit + j * int f_unit = (i + j) * int f_unit"
    by (simp add: algebra_simps)
  then show ?thesis
    by (auto simp: f_add_def f_decode_of_int assms intro: f_round_of_int)
qed

lemma f_decode_neg:
  "f_decode (f_neg x) =
     (case f_decode x of Finite s a \<Rightarrow> Finite (\<not> s) a | Infinity s \<Rightarrow> Infinity (\<not> s) | NaN \<Rightarrow> NaN)"
proof -
  define n where "n = unat x"
  have n: "n < 2 ^ 32"
    using unsigned_less [of x] by (simp add: n_def)
  have "unat (f_neg x) = (n + 2 ^ 31) mod 2 ^ 32"
    by (simp add: f_neg_def unat_word_ariths n_def)
  also have "\<dots> = (if 2 ^ 31 \<le> n then n - 2 ^ 31 else n + 2 ^ 31)"
    using n by (simp add: mod_if)
  finally have u: "unat (f_neg x) = (if 2 ^ 31 \<le> n then n - 2 ^ 31 else n + 2 ^ 31)" .
  have "unat (f_neg x) mod 2 ^ 31 = n mod 2 ^ 31"
    unfolding u using n by (simp add: mod_if)
  moreover have "2 ^ 31 \<le> unat (f_neg x) \<longleftrightarrow> \<not> 2 ^ 31 \<le> n"
    unfolding u using n by auto
  ultimately have "unat (f_neg x) mod 2 ^ 31 = n mod 2 ^ 31" "2 ^ 31 \<le> unat (f_neg x) \<longleftrightarrow> \<not> 2 ^ 31 \<le> n" .
  then show ?thesis
    unfolding f_decode_def Let_def n_def by auto
qed

theorem f_sub_of_int:
  assumes "small_int i" "small_int j"
  shows "f_sub (f_of_int i) (f_of_int j) = f_of_int (i - j)"
proof -
  have "signed (\<not> j < 0) (nat \<bar>j\<bar> * f_unit) = - (j * int f_unit)"
    by (simp add: signed_def)
  moreover have "i * int f_unit - j * int f_unit = (i - j) * int f_unit"
    by (simp add: algebra_simps)
  ultimately show ?thesis
    by (auto simp: f_sub_def f_add_def f_decode_neg f_decode_of_int assms intro: f_round_of_int)
qed

section \<open>Evaluation\<close>

text \<open>The exponent of a concrete quotient, by its bounds rather than by search.\<close>

lemma fit_eqI:
  assumes "0 < d" "n < 2 ^ p * (d * 2 ^ k)" "k = 0 \<or> 2 ^ p * (d * 2 ^ k) \<le> 2 * n"
  shows "fit p n d = k"
proof -
  have "fit p n d \<le> k"
    using assms by (intro fit_le)
  moreover have "k \<le> fit p n d"
  proof (rule ccontr)
    assume "\<not> k \<le> fit p n d"
    then have "(2 :: nat) ^ Suc (fit p n d) \<le> 2 ^ k" "k \<noteq> 0"
      by (intro power_increasing, simp_all)
    then have "2 ^ p * (d * 2 ^ Suc (fit p n d)) \<le> 2 * n"
      using assms(3) by (meson le_trans mult_le_mono2)
    with fit_bound [OF assms(1), of n p] show False by simp
  qed
  ultimately show ?thesis by simp
qed

section \<open>Multiplication by a fraction of sixths\<close>

text \<open>
  \<open>a\<close> is the magnitude of a float close to \<open>c / 6\<close>: near enough that the product
  with a small integer, rounded and truncated, is the integer part of the exact
  product.
\<close>

definition near_sixths :: "nat \<Rightarrow> nat \<Rightarrow> bool" where
  "near_sixths a c \<longleftrightarrow>
     c \<le> 6 \<and> 0 < a \<and> a < 2 ^ 150 \<and> 2 ^ 24 \<le> a \<and>
     2 * (c * f_unit) * 2 ^ 24 \<le> 6 * a + 12 * a * 2 ^ 24 \<and> 6 * a * 2 ^ 24 \<le> c * f_unit * (2 ^ 24 + 1)"

lemma sixths_bounds:
  fixes N Y K W P n :: nat
  assumes "N < 16777216 * K" "16777216 * K \<le> 2 * N"
    "2 * Y * 16777216 \<le> 6 * N + 12 * N * 16777216" "6 * N * 16777216 \<le> Y * 16777217"
    "6 * (n * P) \<le> Y" "Y \<le> 6 * (n * P) + 5 * P" "Y \<le> 32768 * P"
  shows "2 * (n * P) < 2 * N + K" "2 * N + K < 2 * (n * P) + 2 * P"
  using assms by linarith+


lemma round_sixths:
  assumes y: "near_sixths a c" and u: "0 < u" "u \<le> 4096"
  defines "k \<equiv> fit 24 (u * a * f_unit) f_unit"
  shows "k \<le> 149" "round_even (u * a * f_unit) (f_unit * 2 ^ k) * 2 ^ k div f_unit = u * c div 6"
proof -
  define N where "N = u * a"
  define n where "n = u * c div 6"
  define q where "q = round_even (N * f_unit) (f_unit * 2 ^ k)"
  have a: "c \<le> 6" "a < 2 ^ 150" "2 ^ 24 \<le> a"
    "2 * (c * f_unit) * 2 ^ 24 \<le> 6 * a + 12 * a * 2 ^ 24" "6 * a * 2 ^ 24 \<le> c * f_unit * (2 ^ 24 + 1)"
    using y by (simp_all add: near_sixths_def)
  have "N * f_unit < 2 ^ 24 * (f_unit * 2 ^ k)"
    unfolding k_def N_def by (rule fit_bound) simp
  then have NK: "N < 16777216 * 2 ^ k"
    using mult_less_cancel2 [of N f_unit "2 ^ 24 * 2 ^ k"] by (simp add: ac_simps)
  have Na: "a \<le> N"
    using u by (simp add: N_def)
  have k0: "0 < k"
    using NK Na a(3) by (cases k) simp_all
  then have "2 ^ 24 * (f_unit * 2 ^ k) \<le> 2 * (N * f_unit)"
    unfolding k_def N_def by (rule fit_least)
  then have KN: "16777216 * 2 ^ k \<le> 2 * N"
    using mult_le_cancel2 [of "2 ^ 24 * 2 ^ k" f_unit "2 * N"] by (simp add: ac_simps)
  have Nu: "N \<le> 4096 * 2 ^ 150"
    unfolding N_def using u a(2) by (intro mult_le_mono) simp_all
  show k: "k \<le> 149"
  proof (rule ccontr)
    assume "\<not> k \<le> 149"
    then have "(2 :: nat) ^ 150 \<le> 2 ^ k"
      by (intro power_increasing) simp_all
    with KN Nu show False by simp
  qed
  then obtain Q where Q: "f_unit = 2 ^ k * Q" "0 < Q"
    unfolding f_unit_def by (metis le_add_diff_inverse power_add zero_less_numeral zero_less_power)
  have "6 * n \<le> u * c" "u * c \<le> 6 * n + 5"
    unfolding n_def by simp_all
  then have Y: "6 * (n * f_unit) \<le> u * c * f_unit" "u * c * f_unit \<le> 6 * (n * f_unit) + 5 * f_unit"
    using mult_le_mono1 [of "6 * n" "u * c" f_unit] mult_le_mono1 [of "u * c" "6 * n + 5" f_unit]
    by (simp_all add: algebra_simps)
  have "u * c \<le> 4096 * 6"
    using u a(1) by (intro mult_le_mono)
  then have Y3: "u * c * f_unit \<le> 32768 * f_unit"
    by (intro mult_le_mono1) simp
  have Y4: "2 * (u * c * f_unit) * 16777216 \<le> 6 * N + 12 * N * 16777216"
    using mult_le_mono2 [OF a(4), of u] by (simp add: N_def algebra_simps)
  have Y5: "6 * N * 16777216 \<le> u * c * f_unit * 16777217"
    using mult_le_mono2 [OF a(5), of u] by (simp add: N_def algebra_simps)
  note B = sixths_bounds [OF NK KN Y4 Y5 Y Y3]
  have "n * Q \<le> q"
    unfolding q_def
  proof (rule round_even_ge)
    have "2 * (n * Q * 2 ^ k) < 2 * N + 2 ^ k"
      using B(1) by (simp add: Q(1) ac_simps)
    then have "2 * (n * Q * 2 ^ k) * f_unit < (2 * N + 2 ^ k) * f_unit"
      by simp
    then show "2 * (n * Q * (f_unit * 2 ^ k)) < 2 * (N * f_unit) + f_unit * 2 ^ k"
      by (simp only: ring_distribs ac_simps)
  qed simp
  moreover have "q \<le> (n + 1) * Q - 1"
    unfolding q_def
  proof (rule round_even_le)
    have "((n + 1) * Q - 1) * 2 ^ k + 2 ^ k = (n + 1) * Q * 2 ^ k"
      using Q(2) by (cases "(n + 1) * Q") simp_all
    moreover have "2 * N + 2 ^ k < 2 * ((n + 1) * Q * 2 ^ k)"
      using B(2) by (simp add: Q(1) algebra_simps)
    ultimately have "2 * N < 2 * (((n + 1) * Q - 1) * 2 ^ k) + 2 ^ k"
      by linarith
    then have "2 * N * f_unit < (2 * (((n + 1) * Q - 1) * 2 ^ k) + 2 ^ k) * f_unit"
      by simp
    then show "2 * (N * f_unit) < 2 * (((n + 1) * Q - 1) * (f_unit * 2 ^ k)) + f_unit * 2 ^ k"
      by (simp only: ring_distribs ac_simps)
  qed
  moreover have "0 < (n + 1) * Q"
    using Q(2) by simp
  ultimately have "n * Q \<le> q" "q < (n + 1) * Q"
    by linarith+
  then have "n * Q * 2 ^ k \<le> q * 2 ^ k" "q * 2 ^ k < (n + 1) * Q * 2 ^ k"
    by (intro mult_le_mono1, simp, intro mult_strict_right_mono) simp_all
  then have "n * f_unit \<le> q * 2 ^ k" "q * 2 ^ k < Suc n * f_unit"
    by (simp_all add: Q(1) algebra_simps)
  then show "round_even (u * a * f_unit) (f_unit * 2 ^ k) * 2 ^ k div f_unit = u * c div 6"
    unfolding N_def [symmetric] q_def [symmetric] n_def [symmetric]
    by (intro div_nat_eqI) (simp_all add: ac_simps)
qed

theorem f_mul_sixths:
  assumes y: "f_decode y = Finite False a" "near_sixths a c" and x: "\<bar>x\<bar> \<le> 4096"
  shows "f_to_int (f_mul (f_of_int x) y) = Some (sgn x * (\<bar>x\<bar> * int c div 6))"
proof (cases "x = 0")
  case True
  have "f_decode (f_round s 0 f_unit) = Finite s 0" for s
    using f_round_exact [of 0 0 f_unit s] by simp
  with True y(1) f_decode_of_int [of 0] show ?thesis
    by (simp add: f_mul_def small_int_def f_to_int_def signed_def in_int_range_def INT_MIN_def INT_MAX_def)
next
  case False
  define u where "u = nat \<bar>x\<bar>"
  have u: "0 < u" "u \<le> 4096" "int u = \<bar>x\<bar>"
    using False x by (simp_all add: u_def)
  define k where "k = fit 24 (u * a * f_unit) f_unit"
  note r = round_sixths [OF y(2) u(1,2), folded k_def]
  have "f_decode (f_mul (f_of_int x) y) =
      Finite (x < 0) (round_even (u * a * f_unit) (f_unit * 2 ^ k) * 2 ^ k)"
    using f_decode_round [of f_unit "u * a * f_unit" k "x < 0"] r(1) x y(1)
    by (simp add: f_mul_def f_decode_of_int small_int_def k_def u_def ac_simps)
  moreover have "signed (x < 0) (u * c div 6) = sgn x * (\<bar>x\<bar> * int c div 6)"
    using False u(3) by (simp add: signed_def zdiv_int sgn_if)
  moreover have "u * c div 6 \<le> 4096"
    using y(2) u(2) mult_le_mono [of u 4096 c 6] by (simp add: near_sixths_def)
  then have "in_int_range (signed (x < 0) (u * c div 6))"
    by (simp add: signed_def in_int_range_def INT_MIN_def INT_MAX_def)
  ultimately show ?thesis
    by (simp add: f_to_int_def r(2) Let_def)
qed

end
