(* ===== verification/Objc.thy ===== *)
theory Objc
  imports Owb_Prelude
begin

text \<open>
  What the Objective-C++ sources use of their language and of Foundation: results
  of methods that may throw, and strings.
\<close>

section \<open>Outcomes\<close>

text \<open>
  The exceptions that the client's own code throws or lets through. A method
  returns a value, throws, or runs into behaviour that C++ leaves undefined.
\<close>

datatype exn =
    UnknownOperationType
  | AbstractInit
  | AbstractDuplicate
  | WrongType
  | RidUnavailable
  | RangeException
  | RcfException bytes

datatype 'a outcome = Returns 'a | Throws exn | Undefined

definition andThen :: "'a outcome \<Rightarrow> ('a \<Rightarrow> 'b outcome) \<Rightarrow> 'b outcome" where
  "andThen r f = (case r of Returns x \<Rightarrow> f x | Throws e \<Rightarrow> Throws e | Undefined \<Rightarrow> Undefined)"

lemma andThen_simps [simp]:
  "andThen (Returns x) f = f x" "andThen (Throws e) f = Throws e" "andThen Undefined f = Undefined"
  by (simp_all add: andThen_def)

lemma andThen_Returns: "andThen r f = Returns y \<longleftrightarrow> (\<exists>x. r = Returns x \<and> f x = Returns y)"
  by (cases r) simp_all

definition from_option :: "'a option \<Rightarrow> 'a outcome" where
  "from_option x = (case x of None \<Rightarrow> Undefined | Some v \<Rightarrow> Returns v)"

lemma from_option_simps [simp]: "from_option None = Undefined" "from_option (Some v) = Returns v"
  by (simp_all add: from_option_def)

fun map_outcome_list :: "('a \<Rightarrow> 'b outcome) \<Rightarrow> 'a list \<Rightarrow> 'b list outcome" where
  "map_outcome_list f [] = Returns []"
| "map_outcome_list f (x # xs) =
     andThen (f x) (\<lambda>y. andThen (map_outcome_list f xs) (\<lambda>ys. Returns (y # ys)))"

lemma map_outcome_list_Returns:
  "map_outcome_list f xs = Returns ys \<longleftrightarrow> list_all2 (\<lambda>x y. f x = Returns y) xs ys"
  by (induction xs arbitrary: ys) (auto simp: andThen_Returns list_all2_Cons1)

section \<open>Strings\<close>

text \<open>
  An \<^verbatim>\<open>NSString\<close> is kept as its UTF-8 encoding; a \<^verbatim>\<open>nil\<close> string is \<open>None\<close>.
  \<^verbatim>\<open>stringWithUTF8String:\<close> reads up to the first zero byte and returns \<^verbatim>\<open>nil\<close> when
  the bytes are not UTF-8.
\<close>

definition continuation :: "byte \<Rightarrow> bool" where
  "continuation b \<longleftrightarrow> 0x80 \<le> b \<and> b < 0xC0"

fun valid_utf8 :: "bytes \<Rightarrow> bool" where
  "valid_utf8 [] = True"
| "valid_utf8 (a # bs) =
     (if a < 0x80 then valid_utf8 bs
      else case bs of
          b # cs \<Rightarrow>
            if 0xC2 \<le> a \<and> a < 0xE0 then continuation b \<and> valid_utf8 cs
            else (case cs of
                c # ds \<Rightarrow>
                  if 0xE0 \<le> a \<and> a < 0xF0 then
                    continuation b \<and> continuation c \<and> (a = 0xE0 \<longrightarrow> 0xA0 \<le> b) \<and> (a = 0xED \<longrightarrow> b < 0xA0) \<and>
                    valid_utf8 ds
                  else (case ds of
                      d # es \<Rightarrow>
                        0xF0 \<le> a \<and> a < 0xF5 \<and> continuation b \<and> continuation c \<and> continuation d \<and>
                        (a = 0xF0 \<longrightarrow> 0x90 \<le> b) \<and> (a = 0xF4 \<longrightarrow> b < 0x90) \<and> valid_utf8 es
                    | [] \<Rightarrow> False)
              | [] \<Rightarrow> False)
        | [] \<Rightarrow> False)"

type_synonym nsstring = "bytes option"

definition stringWithUTF8String :: "bytes \<Rightarrow> nsstring" where
  "stringWithUTF8String s = (if valid_utf8 (c_string s) then Some (c_string s) else None)"

text \<open>\<^verbatim>\<open>[s UTF8String]\<close>; on \<^verbatim>\<open>nil\<close> it is \<^verbatim>\<open>NULL\<close>, which no \<^verbatim>\<open>std::string\<close> may be built from.\<close>

definition UTF8String :: "nsstring \<Rightarrow> bytes outcome" where
  "UTF8String s = from_option (map_option c_string s)"

definition ns_ok :: "bytes \<Rightarrow> bool" where
  "ns_ok s \<longleftrightarrow> valid_utf8 s \<and> 0 \<notin> set s"

lemma string_roundtrip: "ns_ok s \<Longrightarrow> UTF8String (Some s) = Returns s \<and> stringWithUTF8String s = Some s"
  by (simp add: ns_ok_def UTF8String_def stringWithUTF8String_def c_string_id)

end
