(* ===== verification/Message_Model.thy ===== *)
theory Message_Model
  imports Pb_Operations Pb_Document Pb_Meeting Pb_User Pb_Heart Float32 Objc
begin

text \<open>
  The Objective-C++ model objects of \<^verbatim>\<open>Models/MessageModel.mm\<close>: the drawing
  operations (\<^verbatim>\<open>OwbClientOperation\<close> and its five subclasses), the factory that
  builds them from messages, and the wrappers around the other messages. Every
  accessor works on the message that the object owns.
\<close>

section \<open>Constants\<close>

definition OwbOperationDataType_LINE :: "int32" where
  "OwbOperationDataType_LINE = 0"

definition OwbOperationDataType_ELLIPSE :: "int32" where
  "OwbOperationDataType_ELLIPSE = 1"

definition OwbOperationDataType_RECTANGE :: "int32" where
  "OwbOperationDataType_RECTANGE = 2"

definition OwbOperationDataType_POINT :: "int32" where
  "OwbOperationDataType_POINT = 3"

definition OwbOperationDataType_ERASER :: "int32" where
  "OwbOperationDataType_ERASER = 4"

definition OwbNOT_AVALIABLE :: "int32" where
  "OwbNOT_AVALIABLE = 1"

definition OwbLOAD_DOCUMENT :: "int32" where
  "OwbLOAD_DOCUMENT = 2"

definition OwbAVALIBLE :: "int32" where
  "OwbAVALIBLE = 3"

definition OwbNOT_UPDATE :: "int32" where
  "OwbNOT_UPDATE = 4"

lemmas owb_types = OwbOperationDataType_LINE_def OwbOperationDataType_ELLIPSE_def
  OwbOperationDataType_RECTANGE_def OwbOperationDataType_POINT_def OwbOperationDataType_ERASER_def

section \<open>Operations\<close>

text \<open>
  The class of an object, the shared drawer a class installs (its state is in
  \<open>Drawer\<close>), and the object: the instance variables behind the overridden accessors
  (\<^verbatim>\<open>_color_\<close> and so on) are never read, the message \<^verbatim>\<open>operation_\<close> holds the data.
\<close>

datatype op_class = Cls_DrawLine | Cls_DrawEllipse | Cls_DrawRectange | Cls_DrawPoint | Cls_Erase

datatype drawer = LineDrawer | EllipseDrawer | RectangeDrawer | PointDrawer | Eraser

record owb_operation =
  op_class :: op_class
  op_msg :: Operation
  op_drawer :: "drawer option"


record cgpoint =
  px :: float32
  py :: float32

definition CGPointMake :: "float32 \<Rightarrow> float32 \<Rightarrow> cgpoint" where
  "CGPointMake x y = \<lparr>px = x, py = y\<rparr>"

text \<open>
  A point message holds integers: it is read with a conversion to \<^verbatim>\<open>float\<close> and
  written with a conversion to \<^verbatim>\<open>int\<close>, undefined when the value does not fit.
\<close>

definition point_of_message :: "Point \<Rightarrow> cgpoint" where
  "point_of_message p = CGPointMake (f_of_int (sint (Point_x p))) (f_of_int (sint (Point_y p)))"

definition int_coords :: "cgpoint \<Rightarrow> (int32 \<times> int32) outcome" where
  "int_coords p =
     (case (f_to_int (px p), f_to_int (py p)) of
        (Some x, Some y) \<Rightarrow> Returns (to_int32 x, to_int32 y)
      | _ \<Rightarrow> Undefined)"


subsection \<open>\<^verbatim>\<open>OwbClientOperation\<close>\<close>

definition OwbClientOperation_init :: "op_class \<Rightarrow> owb_operation" where
  "OwbClientOperation_init cls =
     \<lparr>op_class = cls, op_msg = Operation_set_serial_number 0 Operation_default, op_drawer = None\<rparr>"

definition OwbClientOperation_initFromOperation :: "Operation \<Rightarrow> owb_operation outcome" where
  "OwbClientOperation_initFromOperation operation = Throws AbstractInit"

definition OwbClientOperation_duplicate :: "owb_operation \<Rightarrow> owb_operation outcome" where
  "OwbClientOperation_duplicate self = Throws AbstractDuplicate"

text \<open>The copy constructor of the message builds the value that is returned.\<close>


definition toOperation :: "owb_operation \<Rightarrow> Operation" where
  "toOperation self = Operation_MergeFrom (op_msg self) Operation_default"

text \<open>\<open>put_data\<close> is \<^verbatim>\<open>operation_->mutable_data()->...\<close>, the shape of every setter below.\<close>


definition put_data :: "(OperationData \<Rightarrow> OperationData) \<Rightarrow> owb_operation \<Rightarrow> owb_operation" where
  "put_data f self = self\<lparr>op_msg := Operation_mutable_data f (op_msg self)\<rparr>"

definition op_data :: "owb_operation \<Rightarrow> OperationData" where
  "op_data self = Operation_data (op_msg self)"

definition serialNumber :: "owb_operation \<Rightarrow> int32" where
  "serialNumber self = Operation_serial_number (op_msg self)"

definition setSerialNumber :: "int32 \<Rightarrow> owb_operation \<Rightarrow> owb_operation" where
  "setSerialNumber n self =
     self\<lparr>op_msg := Operation_set_serial_number n (op_msg self)\<rparr>"

definition operationType :: "owb_operation \<Rightarrow> int32" where
  "operationType self = OperationData_data_type (op_data self)"

definition setOperationType :: "int32 \<Rightarrow> owb_operation \<Rightarrow> owb_operation" where
  "setOperationType t self = put_data (OperationData_set_data_type t) self"

definition thinkness :: "owb_operation \<Rightarrow> int32" where
  "thinkness self = OperationData_thinkness (op_data self)"

definition setThinkness :: "int32 \<Rightarrow> owb_operation \<Rightarrow> owb_operation" where
  "setThinkness n self = put_data (OperationData_set_thinkness n) self"

subsection \<open>\<^verbatim>\<open>DrawLine\<close>\<close>

definition DrawLine_init :: "owb_operation" where
  "DrawLine_init =
     (setOperationType OwbOperationDataType_LINE (OwbClientOperation_init Cls_DrawLine))\<lparr>op_drawer := Some LineDrawer\<rparr>"

definition DrawLine_initFromOperation :: "Operation \<Rightarrow> owb_operation" where
  "DrawLine_initFromOperation operation =
     (let self = DrawLine_init in self\<lparr>op_msg := Operation_CopyFrom operation (op_msg self)\<rparr>)"

definition DrawLine_color :: "owb_operation \<Rightarrow> int32" where
  "DrawLine_color self = OperationData_color (op_data self)"

definition DrawLine_setColor :: "int32 \<Rightarrow> owb_operation \<Rightarrow> owb_operation" where
  "DrawLine_setColor color self = put_data (OperationData_set_color color) self"

definition DrawLine_alpha :: "owb_operation \<Rightarrow> float32" where
  "DrawLine_alpha self = OperationData_alpha (op_data self)"

definition DrawLine_setAlpha :: "float32 \<Rightarrow> owb_operation \<Rightarrow> owb_operation" where
  "DrawLine_setAlpha alpha self = put_data (OperationData_set_alpha alpha) self"

definition DrawLine_startPoint :: "owb_operation \<Rightarrow> cgpoint" where
  "DrawLine_startPoint self = point_of_message (OperationData_start_point (op_data self))"

definition DrawLine_setStartPoint :: "cgpoint \<Rightarrow> owb_operation \<Rightarrow> owb_operation outcome" where
  "DrawLine_setStartPoint startPoint self =
     andThen (int_coords startPoint) (\<lambda>(x, y).
       Returns (put_data (OperationData_mutable_start_point (Point_set_y y))
         (put_data (OperationData_mutable_start_point (Point_set_x x)) self)))"

definition DrawLine_endPoint :: "owb_operation \<Rightarrow> cgpoint" where
  "DrawLine_endPoint self = point_of_message (OperationData_end_point (op_data self))"

definition DrawLine_setEndPoint :: "cgpoint \<Rightarrow> owb_operation \<Rightarrow> owb_operation outcome" where
  "DrawLine_setEndPoint endPoint self =
     andThen (int_coords endPoint) (\<lambda>(x, y).
       Returns (put_data (OperationData_mutable_end_point (Point_set_y y))
         (put_data (OperationData_mutable_end_point (Point_set_x x)) self)))"

definition DrawLine_duplicate :: "owb_operation \<Rightarrow> owb_operation" where
  "DrawLine_duplicate self = DrawLine_initFromOperation (op_msg self)"

subsection \<open>\<^verbatim>\<open>DrawEllipse\<close>\<close>

definition DrawEllipse_init :: "owb_operation" where
  "DrawEllipse_init =
     (setOperationType OwbOperationDataType_ELLIPSE (OwbClientOperation_init Cls_DrawEllipse))\<lparr>op_drawer := Some EllipseDrawer\<rparr>"

definition DrawEllipse_initFromOperation :: "Operation \<Rightarrow> owb_operation" where
  "DrawEllipse_initFromOperation operation =
     (let self = DrawEllipse_init in self\<lparr>op_msg := Operation_CopyFrom operation (op_msg self)\<rparr>)"

definition DrawEllipse_color :: "owb_operation \<Rightarrow> int32" where
  "DrawEllipse_color self = OperationData_color (op_data self)"

definition DrawEllipse_setColor :: "int32 \<Rightarrow> owb_operation \<Rightarrow> owb_operation" where
  "DrawEllipse_setColor color self = put_data (OperationData_set_color color) self"

definition DrawEllipse_alpha :: "owb_operation \<Rightarrow> float32" where
  "DrawEllipse_alpha self = OperationData_alpha (op_data self)"

definition DrawEllipse_setAlpha :: "float32 \<Rightarrow> owb_operation \<Rightarrow> owb_operation" where
  "DrawEllipse_setAlpha alpha self = put_data (OperationData_set_alpha alpha) self"

definition DrawEllipse_fill :: "owb_operation \<Rightarrow> bool" where
  "DrawEllipse_fill self = OperationData_fill (op_data self)"

definition DrawEllipse_setFill :: "bool \<Rightarrow> owb_operation \<Rightarrow> owb_operation" where
  "DrawEllipse_setFill fill self = put_data (OperationData_set_fill fill) self"

definition DrawEllipse_center :: "owb_operation \<Rightarrow> cgpoint" where
  "DrawEllipse_center self = point_of_message (OperationData_center (op_data self))"

definition DrawEllipse_setCenter :: "cgpoint \<Rightarrow> owb_operation \<Rightarrow> owb_operation outcome" where
  "DrawEllipse_setCenter center self =
     andThen (int_coords center) (\<lambda>(x, y).
       Returns (put_data (OperationData_mutable_center (Point_set_y y))
         (put_data (OperationData_mutable_center (Point_set_x x)) self)))"

definition DrawEllipse_a :: "owb_operation \<Rightarrow> float32" where
  "DrawEllipse_a self = OperationData_a (op_data self)"

definition DrawEllipse_setA :: "float32 \<Rightarrow> owb_operation \<Rightarrow> owb_operation" where
  "DrawEllipse_setA a self = put_data (OperationData_set_a a) self"

definition DrawEllipse_b :: "owb_operation \<Rightarrow> float32" where
  "DrawEllipse_b self = OperationData_b (op_data self)"

definition DrawEllipse_setB :: "float32 \<Rightarrow> owb_operation \<Rightarrow> owb_operation" where
  "DrawEllipse_setB b self = put_data (OperationData_set_b b) self"

definition DrawEllipse_duplicate :: "owb_operation \<Rightarrow> owb_operation" where
  "DrawEllipse_duplicate self = DrawEllipse_initFromOperation (op_msg self)"

subsection \<open>\<^verbatim>\<open>DrawRectange\<close>\<close>

definition DrawRectange_init :: "owb_operation" where
  "DrawRectange_init =
     (setOperationType OwbOperationDataType_RECTANGE (OwbClientOperation_init Cls_DrawRectange))\<lparr>op_drawer := Some RectangeDrawer\<rparr>"

definition DrawRectange_initFromOperation :: "Operation \<Rightarrow> owb_operation" where
  "DrawRectange_initFromOperation operation =
     (let self = DrawRectange_init in self\<lparr>op_msg := Operation_CopyFrom operation (op_msg self)\<rparr>)"

definition DrawRectange_color :: "owb_operation \<Rightarrow> int32" where
  "DrawRectange_color self = OperationData_color (op_data self)"

definition DrawRectange_setColor :: "int32 \<Rightarrow> owb_operation \<Rightarrow> owb_operation" where
  "DrawRectange_setColor color self = put_data (OperationData_set_color color) self"

definition DrawRectange_alpha :: "owb_operation \<Rightarrow> float32" where
  "DrawRectange_alpha self = OperationData_alpha (op_data self)"

definition DrawRectange_setAlpha :: "float32 \<Rightarrow> owb_operation \<Rightarrow> owb_operation" where
  "DrawRectange_setAlpha alpha self = put_data (OperationData_set_alpha alpha) self"

definition DrawRectange_fill :: "owb_operation \<Rightarrow> bool" where
  "DrawRectange_fill self = OperationData_fill (op_data self)"

definition DrawRectange_setFill :: "bool \<Rightarrow> owb_operation \<Rightarrow> owb_operation" where
  "DrawRectange_setFill fill self = put_data (OperationData_set_fill fill) self"

definition DrawRectange_topLeftCorner :: "owb_operation \<Rightarrow> cgpoint" where
  "DrawRectange_topLeftCorner self = point_of_message (OperationData_top_left_corner (op_data self))"

definition DrawRectange_setTopLeftCorner :: "cgpoint \<Rightarrow> owb_operation \<Rightarrow> owb_operation outcome" where
  "DrawRectange_setTopLeftCorner topLeftCorner self =
     andThen (int_coords topLeftCorner) (\<lambda>(x, y).
       Returns (put_data (OperationData_mutable_top_left_corner (Point_set_y y))
         (put_data (OperationData_mutable_top_left_corner (Point_set_x x)) self)))"

definition DrawRectange_bottomRightCorner :: "owb_operation \<Rightarrow> cgpoint" where
  "DrawRectange_bottomRightCorner self = point_of_message (OperationData_bottom_right_corner (op_data self))"

definition DrawRectange_setBottomRightCorner :: "cgpoint \<Rightarrow> owb_operation \<Rightarrow> owb_operation outcome" where
  "DrawRectange_setBottomRightCorner bottomRightCorner self =
     andThen (int_coords bottomRightCorner) (\<lambda>(x, y).
       Returns (put_data (OperationData_mutable_bottom_right_corner (Point_set_y y))
         (put_data (OperationData_mutable_bottom_right_corner (Point_set_x x)) self)))"

definition DrawRectange_duplicate :: "owb_operation \<Rightarrow> owb_operation" where
  "DrawRectange_duplicate self = DrawRectange_initFromOperation (op_msg self)"

subsection \<open>\<^verbatim>\<open>DrawPoint\<close>\<close>

definition DrawPoint_init :: "owb_operation" where
  "DrawPoint_init =
     (setOperationType OwbOperationDataType_POINT (OwbClientOperation_init Cls_DrawPoint))\<lparr>op_drawer := Some PointDrawer\<rparr>"

definition DrawPoint_initFromOperation :: "Operation \<Rightarrow> owb_operation" where
  "DrawPoint_initFromOperation operation =
     (let self = DrawPoint_init in self\<lparr>op_msg := Operation_CopyFrom operation (op_msg self)\<rparr>)"

definition DrawPoint_color :: "owb_operation \<Rightarrow> int32" where
  "DrawPoint_color self = OperationData_color (op_data self)"

definition DrawPoint_setColor :: "int32 \<Rightarrow> owb_operation \<Rightarrow> owb_operation" where
  "DrawPoint_setColor color self = put_data (OperationData_set_color color) self"

definition DrawPoint_alpha :: "owb_operation \<Rightarrow> float32" where
  "DrawPoint_alpha self = OperationData_alpha (op_data self)"

definition DrawPoint_setAlpha :: "float32 \<Rightarrow> owb_operation \<Rightarrow> owb_operation" where
  "DrawPoint_setAlpha alpha self = put_data (OperationData_set_alpha alpha) self"

definition DrawPoint_position :: "owb_operation \<Rightarrow> cgpoint" where
  "DrawPoint_position self = point_of_message (OperationData_position (op_data self))"

definition DrawPoint_setPosition :: "cgpoint \<Rightarrow> owb_operation \<Rightarrow> owb_operation outcome" where
  "DrawPoint_setPosition position self =
     andThen (int_coords position) (\<lambda>(x, y).
       Returns (put_data (OperationData_mutable_position (Point_set_y y))
         (put_data (OperationData_mutable_position (Point_set_x x)) self)))"

definition DrawPoint_isStart :: "owb_operation \<Rightarrow> bool" where
  "DrawPoint_isStart self = OperationData_is_start (op_data self)"

definition DrawPoint_setIsStart :: "bool \<Rightarrow> owb_operation \<Rightarrow> owb_operation" where
  "DrawPoint_setIsStart isStart self = put_data (OperationData_set_is_start isStart) self"

definition DrawPoint_duplicate :: "owb_operation \<Rightarrow> owb_operation" where
  "DrawPoint_duplicate self = DrawPoint_initFromOperation (op_msg self)"

subsection \<open>\<^verbatim>\<open>Erase\<close>\<close>

definition Erase_init :: "owb_operation" where
  "Erase_init =
     (setOperationType OwbOperationDataType_ERASER (OwbClientOperation_init Cls_Erase))\<lparr>op_drawer := Some Eraser\<rparr>"

definition Erase_initFromOperation :: "Operation \<Rightarrow> owb_operation" where
  "Erase_initFromOperation operation =
     (let self = Erase_init in self\<lparr>op_msg := Operation_CopyFrom operation (op_msg self)\<rparr>)"

definition Erase_position :: "owb_operation \<Rightarrow> cgpoint" where
  "Erase_position self = point_of_message (OperationData_position (op_data self))"

definition Erase_setPosition :: "cgpoint \<Rightarrow> owb_operation \<Rightarrow> owb_operation outcome" where
  "Erase_setPosition position self =
     andThen (int_coords position) (\<lambda>(x, y).
       Returns (put_data (OperationData_mutable_position (Point_set_y y))
         (put_data (OperationData_mutable_position (Point_set_x x)) self)))"

definition Erase_isStart :: "owb_operation \<Rightarrow> bool" where
  "Erase_isStart self = OperationData_is_start (op_data self)"

definition Erase_setIsStart :: "bool \<Rightarrow> owb_operation \<Rightarrow> owb_operation" where
  "Erase_setIsStart isStart self = put_data (OperationData_set_is_start isStart) self"

definition Erase_duplicate :: "owb_operation \<Rightarrow> owb_operation" where
  "Erase_duplicate self = Erase_initFromOperation (op_msg self)"

subsection \<open>Dispatch\<close>

definition duplicate :: "owb_operation \<Rightarrow> owb_operation" where
  "duplicate self =
     (case op_class self of
        Cls_DrawLine \<Rightarrow> DrawLine_duplicate self
      | Cls_DrawEllipse \<Rightarrow> DrawEllipse_duplicate self
      | Cls_DrawRectange \<Rightarrow> DrawRectange_duplicate self
      | Cls_DrawPoint \<Rightarrow> DrawPoint_duplicate self
      | Cls_Erase \<Rightarrow> Erase_duplicate self)"

definition CreateOperationFromOperation :: "Operation \<Rightarrow> owb_operation outcome" where
  "CreateOperationFromOperation operation =
     (let t = OperationData_data_type (Operation_data operation)
      in if t = OwbOperationDataType_LINE then Returns (DrawLine_initFromOperation operation)
         else if t = OwbOperationDataType_ELLIPSE then Returns (DrawEllipse_initFromOperation operation)
         else if t = OwbOperationDataType_RECTANGE then Returns (DrawRectange_initFromOperation operation)
         else if t = OwbOperationDataType_POINT then Returns (DrawPoint_initFromOperation operation)
         else if t = OwbOperationDataType_ERASER then Returns (Erase_initFromOperation operation)
         else Throws UnknownOperationType)"

section \<open>Documents, users, packages and lists\<close>

text \<open>Each wrapper object is the message it owns.\<close>

definition OwbClientDocument_initFromDocument :: "Document \<Rightarrow> Document" where
  "OwbClientDocument_initFromDocument from = Document_CopyFrom from Document_default"

definition OwbClientUser_initFromUser :: "User \<Rightarrow> User" where
  "OwbClientUser_initFromUser from = User_CopyFrom from User_default"

definition OwbClientHeartReturnPackage_initFromRPac :: "HeartReturnPackage \<Rightarrow> HeartReturnPackage" where
  "OwbClientHeartReturnPackage_initFromRPac from = HeartReturnPackage_CopyFrom from HeartReturnPackage_default"

definition OwbClientJoinMeetingReturn_initFromJoinPac :: "JoinMeetingReturn \<Rightarrow> JoinMeetingReturn" where
  "OwbClientJoinMeetingReturn_initFromJoinPac from = JoinMeetingReturn_CopyFrom from JoinMeetingReturn_default"

definition OwbClientDocument_serialNumber :: "Document \<Rightarrow> int32" where
  "OwbClientDocument_serialNumber self = Document_serial_number self"

definition OwbClientDocument_data :: "Document \<Rightarrow> bytes" where
  "OwbClientDocument_data self = take (length (Document_data self)) (Document_data self)"

definition toUser :: "User \<Rightarrow> User" where
  "toUser self = User_MergeFrom self User_default"

definition toSPac :: "HeartBeatSendPackage \<Rightarrow> HeartBeatSendPackage" where
  "toSPac self = HeartBeatSendPackage_MergeFrom self HeartBeatSendPackage_default"

definition OwbClientUser_userName :: "User \<Rightarrow> nsstring" where
  "OwbClientUser_userName self = stringWithUTF8String (User_user_name self)"

definition OwbClientUser_setUserName :: "nsstring \<Rightarrow> User \<Rightarrow> User outcome" where
  "OwbClientUser_setUserName s self =
     andThen (UTF8String s) (\<lambda>v. Returns (User_set_user_name_cstr v self))"

definition OwbClientUser_passWord :: "User \<Rightarrow> nsstring" where
  "OwbClientUser_passWord self = stringWithUTF8String (User_password self)"

definition OwbClientUser_setPassWord :: "nsstring \<Rightarrow> User \<Rightarrow> User outcome" where
  "OwbClientUser_setPassWord s self =
     andThen (UTF8String s) (\<lambda>v. Returns (User_set_password_cstr v self))"

definition OwbClientHeartSendPackage_userName :: "HeartBeatSendPackage \<Rightarrow> nsstring" where
  "OwbClientHeartSendPackage_userName self = stringWithUTF8String (HeartBeatSendPackage_user_name self)"

definition OwbClientHeartSendPackage_setUserName :: "nsstring \<Rightarrow> HeartBeatSendPackage \<Rightarrow> HeartBeatSendPackage outcome" where
  "OwbClientHeartSendPackage_setUserName s self =
     andThen (UTF8String s) (\<lambda>v. Returns (HeartBeatSendPackage_set_user_name_cstr v self))"

definition OwbClientHeartSendPackage_meetingId :: "HeartBeatSendPackage \<Rightarrow> nsstring" where
  "OwbClientHeartSendPackage_meetingId self = stringWithUTF8String (HeartBeatSendPackage_meeting_id self)"

definition OwbClientHeartSendPackage_setMeetingId :: "nsstring \<Rightarrow> HeartBeatSendPackage \<Rightarrow> HeartBeatSendPackage outcome" where
  "OwbClientHeartSendPackage_setMeetingId s self =
     andThen (UTF8String s) (\<lambda>v. Returns (HeartBeatSendPackage_set_meeting_id_cstr v self))"

definition OwbClientUser_identity :: "User \<Rightarrow> int32" where
  "OwbClientUser_identity self = User_identity self"

definition OwbClientUser_setOwbIdentity :: "int32 \<Rightarrow> User \<Rightarrow> User" where
  "OwbClientUser_setOwbIdentity identity self = User_set_identity identity self"

definition OwbClientHeartReturnPackage_identity :: "HeartReturnPackage \<Rightarrow> int32" where
  "OwbClientHeartReturnPackage_identity self = HeartReturnPackage_identity self"

definition OwbClientJoinMeetingReturn_joinState :: "JoinMeetingReturn \<Rightarrow> int32" where
  "OwbClientJoinMeetingReturn_joinState self = JoinMeetingReturn_join_state self"

definition OwbClientJoinMeetingReturn_port :: "JoinMeetingReturn \<Rightarrow> int32" where
  "OwbClientJoinMeetingReturn_port self = MeetingServerInfo_port (JoinMeetingReturn_server_info self)"

definition OwbClientJoinMeetingReturn_serverIp :: "JoinMeetingReturn \<Rightarrow> nsstring" where
  "OwbClientJoinMeetingReturn_serverIp self =
     stringWithUTF8String (MeetingServerInfo_server_ip (JoinMeetingReturn_server_info self))"

record owb_operation_list =
  operationAvaliable :: int32
  operationList :: "owb_operation list"


text \<open>The loop over the received operations stops at the first one of an unknown type.\<close>


definition OwbClientOperationList_initFromOperationList :: "Operations \<Rightarrow> owb_operation_list outcome" where
  "OwbClientOperationList_initFromOperationList operations =
     andThen (map_outcome_list CreateOperationFromOperation (Rep_contents (Operations_operations_fld operations)))
       (\<lambda>l. Returns \<lparr>operationAvaliable = Operations_operation_avaliable operations, operationList = l\<rparr>)"

definition OwbClientDocumentList_initFromDocumentList :: "DocumentList \<Rightarrow> Document list" where
  "OwbClientDocumentList_initFromDocumentList documentList =
     map OwbClientDocument_initFromDocument (Rep_contents (DocumentList_history_document_fld documentList))"

definition OwbClientUserList_initFromUserList :: "UserList \<Rightarrow> User list" where
  "OwbClientUserList_initFromUserList userList =
     map OwbClientUser_initFromUser (Rep_contents (UserList_users_fld userList))"

section \<open>What the accessors do to the message\<close>

text \<open>
  \<open>op_abs\<close> is the abstract message of an object and \<open>data_abs\<close> its embedded data.
  An object is \<open>consistent\<close> when its message satisfies the invariant of messages
  and its class, its data type and its drawer agree.
\<close>

definition op_abs :: "owb_operation \<Rightarrow> AOperation" where
  "op_abs self = Operation_abs (op_msg self)"

definition data_abs :: "owb_operation \<Rightarrow> AOperationData" where
  "data_abs self = value_or AOperationData_empty (AOperation_data (op_abs self))"

definition op_ok :: "owb_operation \<Rightarrow> bool" where
  "op_ok self \<longleftrightarrow> Operation_ok (op_msg self)"

fun type_of_class :: "op_class \<Rightarrow> int32" where
  "type_of_class Cls_DrawLine = OwbOperationDataType_LINE"
| "type_of_class Cls_DrawEllipse = OwbOperationDataType_ELLIPSE"
| "type_of_class Cls_DrawRectange = OwbOperationDataType_RECTANGE"
| "type_of_class Cls_DrawPoint = OwbOperationDataType_POINT"
| "type_of_class Cls_Erase = OwbOperationDataType_ERASER"

fun drawer_of_class :: "op_class \<Rightarrow> drawer" where
  "drawer_of_class Cls_DrawLine = LineDrawer"
| "drawer_of_class Cls_DrawEllipse = EllipseDrawer"
| "drawer_of_class Cls_DrawRectange = RectangeDrawer"
| "drawer_of_class Cls_DrawPoint = PointDrawer"
| "drawer_of_class Cls_Erase = Eraser"

definition consistent :: "owb_operation \<Rightarrow> bool" where
  "consistent self \<longleftrightarrow> op_ok self \<and> operationType self = type_of_class (op_class self) \<and>
     op_drawer self = Some (drawer_of_class (op_class self))"

lemma type_of_class_inject [simp]: "type_of_class c = type_of_class d \<longleftrightarrow> c = d"
  by (cases c; cases d) (simp_all add: owb_types)

lemma op_data_ok: "op_ok self \<Longrightarrow> OperationData_ok (op_data self)"
  by (simp add: op_ok_def op_data_def Operation_children_ok)

lemma op_data_abs: "op_ok self \<Longrightarrow> OperationData_abs (op_data self) = data_abs self"
  by (simp add: op_ok_def op_data_def data_abs_def op_abs_def Operation_getters)

lemma put_data_fields [simp]:
  "op_class (put_data f self) = op_class self" "op_drawer (put_data f self) = op_drawer self"
  by (simp_all add: put_data_def)

lemma put_data_abs:
  assumes "op_ok self"
    and "\<And>t. OperationData_ok t \<Longrightarrow> OperationData_ok (f t) \<and> OperationData_abs (f t) = F (OperationData_abs t)"
  shows "op_ok (put_data f self)"
    and "op_abs (put_data f self) = (op_abs self)\<lparr>AOperation_data := Some (F (data_abs self))\<rparr>"
    and "data_abs (put_data f self) = F (data_abs self)"
  using Operation_abs_mutable_data [of "op_msg self" f F] assms
  by (simp_all add: op_ok_def op_abs_def data_abs_def put_data_def)

text \<open>The getters read the abstract message.\<close>

lemma operationType_abs: "op_ok self \<Longrightarrow> operationType self = value_or 0 (AOperationData_data_type (data_abs self))"
  using OperationData_getters(1) [OF op_data_ok] by (simp add: operationType_def op_data_abs)

lemma thinkness_abs: "op_ok self \<Longrightarrow> thinkness self = value_or 0 (AOperationData_thinkness (data_abs self))"
  using OperationData_getters(2) [OF op_data_ok] by (simp add: thinkness_def op_data_abs)

lemma serialNumber_abs: "op_ok self \<Longrightarrow> serialNumber self = value_or 0 (AOperation_serial_number (op_abs self))"
  using Operation_getters(1) [of "op_msg self"] by (simp add: serialNumber_def op_ok_def op_abs_def)

text \<open>A setter of a scalar writes one field of the data.\<close>

lemma put_scalar:
  assumes "op_ok self"
  shows "op_ok (put_data (OperationData_set_data_type v) self)"
    "op_ok (put_data (OperationData_set_thinkness v) self)"
    "op_ok (put_data (OperationData_set_color v) self)"
    "op_ok (put_data (OperationData_set_alpha v) self)"
    "op_ok (put_data (OperationData_set_a v) self)"
    "op_ok (put_data (OperationData_set_b v) self)"
    "op_ok (put_data (OperationData_set_fill b) self)"
    "op_ok (put_data (OperationData_set_is_start b) self)"
    "data_abs (put_data (OperationData_set_data_type v) self) = (data_abs self)\<lparr>AOperationData_data_type := Some v\<rparr>"
    "data_abs (put_data (OperationData_set_thinkness v) self) = (data_abs self)\<lparr>AOperationData_thinkness := Some v\<rparr>"
    "data_abs (put_data (OperationData_set_color v) self) = (data_abs self)\<lparr>AOperationData_color := Some v\<rparr>"
    "data_abs (put_data (OperationData_set_alpha v) self) = (data_abs self)\<lparr>AOperationData_alpha := Some v\<rparr>"
    "data_abs (put_data (OperationData_set_a v) self) = (data_abs self)\<lparr>AOperationData_a := Some v\<rparr>"
    "data_abs (put_data (OperationData_set_b v) self) = (data_abs self)\<lparr>AOperationData_b := Some v\<rparr>"
    "data_abs (put_data (OperationData_set_fill b) self) = (data_abs self)\<lparr>AOperationData_fill := Some b\<rparr>"
    "data_abs (put_data (OperationData_set_is_start b) self) = (data_abs self)\<lparr>AOperationData_is_start := Some b\<rparr>"
  by (rule put_data_abs(1,3) [OF assms], simp)+

text \<open>A setter of a point writes both of its coordinates.\<close>

definition APoint_put :: "int32 \<Rightarrow> int32 \<Rightarrow> APoint option \<Rightarrow> APoint option" where
  "APoint_put x y p = Some ((value_or APoint_empty p)\<lparr>APoint_x := Some x, APoint_y := Some y\<rparr>)"

text \<open>
  What the point properties rely on: \<open>mut\<close> is \<^verbatim>\<open>mutable_...()\<close> and \<open>fld\<close> the getter of
  a point of the data, \<open>sel\<close> and \<open>upd\<close> read and write the field of the abstract data.
\<close>

locale point_field =
  fixes mut :: "(Point \<Rightarrow> Point) \<Rightarrow> OperationData \<Rightarrow> OperationData"
    and fld :: "OperationData \<Rightarrow> Point"
    and sel :: "AOperationData \<Rightarrow> APoint option"
    and upd :: "APoint option \<Rightarrow> AOperationData \<Rightarrow> AOperationData"
  assumes mut: "OperationData_ok d \<Longrightarrow>
      (\<And>t. Point_ok t \<Longrightarrow> Point_ok (g t) \<and> Point_abs (g t) = G (Point_abs t)) \<Longrightarrow>
      OperationData_ok (mut g d) \<and>
      OperationData_abs (mut g d) =
        upd (Some (G (value_or APoint_empty (sel (OperationData_abs d))))) (OperationData_abs d)"
    and fld: "OperationData_ok d \<Longrightarrow>
      Point_ok (fld d) \<and> Point_abs (fld d) = value_or APoint_empty (sel (OperationData_abs d))"
    and upd_upd: "upd v (upd w a) = upd v a"
    and sel_upd: "sel (upd v a) = v"
begin

definition set_point :: "cgpoint \<Rightarrow> owb_operation \<Rightarrow> owb_operation outcome" where
  "set_point p self =
     andThen (int_coords p) (\<lambda>(x, y).
       Returns (put_data (mut (Point_set_y y)) (put_data (mut (Point_set_x x)) self)))"

definition get_point :: "owb_operation \<Rightarrow> cgpoint" where
  "get_point self = point_of_message (fld (op_data self))"

lemma set_point_step:
  assumes "op_ok self" "set_point p self = Returns self'" "int_coords p = Returns (x, y)"
  shows "op_ok self'" "op_class self' = op_class self" "op_drawer self' = op_drawer self"
    "data_abs self' = upd (APoint_put x y (sel (data_abs self))) (data_abs self)"
    "op_abs self' = (op_abs self)\<lparr>AOperation_data := Some (data_abs self')\<rparr>"
proof -
  define s where "s = put_data (mut (Point_set_x x)) self"
  have self': "self' = put_data (mut (Point_set_y y)) s"
    using assms(2,3) by (simp add: set_point_def s_def)
  have 1: "OperationData_ok (mut (Point_set_x x) t) \<and> OperationData_abs (mut (Point_set_x x) t) =
      upd (Some ((value_or APoint_empty (sel (OperationData_abs t)))\<lparr>APoint_x := Some x\<rparr>)) (OperationData_abs t)"
    if "OperationData_ok t" for t
    by (rule mut [OF that, of "Point_set_x x" "\<lambda>a. a\<lparr>APoint_x := Some x\<rparr>"]) simp
  have 2: "OperationData_ok (mut (Point_set_y y) t) \<and> OperationData_abs (mut (Point_set_y y) t) =
      upd (Some ((value_or APoint_empty (sel (OperationData_abs t)))\<lparr>APoint_y := Some y\<rparr>)) (OperationData_abs t)"
    if "OperationData_ok t" for t
    by (rule mut [OF that, of "Point_set_y y" "\<lambda>a. a\<lparr>APoint_y := Some y\<rparr>"]) simp
  note s = put_data_abs [where f = "mut (Point_set_x x)" and F = "\<lambda>a. upd (Some ((value_or APoint_empty (sel a))\<lparr>APoint_x := Some x\<rparr>)) a",
      OF assms(1) 1, folded s_def]
  note t = put_data_abs [where f = "mut (Point_set_y y)" and F = "\<lambda>a. upd (Some ((value_or APoint_empty (sel a))\<lparr>APoint_y := Some y\<rparr>)) a",
      OF s(1) 2, folded self']
  show "op_ok self'" by (rule t(1))
  show "op_class self' = op_class self" "op_drawer self' = op_drawer self"
    by (simp_all add: self' s_def)
  show "data_abs self' = upd (APoint_put x y (sel (data_abs self))) (data_abs self)"
    by (simp add: t(3) s(3) upd_upd sel_upd APoint_put_def)
  then show "op_abs self' = (op_abs self)\<lparr>AOperation_data := Some (data_abs self')\<rparr>"
    by (simp add: t(2,3) s(2))
qed

lemma get_point_abs:
  assumes "op_ok self"
  shows "get_point self =
    (let a = value_or APoint_empty (sel (data_abs self))
     in CGPointMake (f_of_int (sint (value_or 0 (APoint_x a)))) (f_of_int (sint (value_or 0 (APoint_y a)))))"
  using fld [OF op_data_ok [OF assms]]
  by (simp add: get_point_def point_of_message_def Point_getters op_data_abs [OF assms] Let_def)

text \<open>Reading a point after writing it gives its integer part.\<close>

lemma get_set_point:
  assumes "op_ok self" "set_point p self = Returns self'" "int_coords p = Returns (x, y)"
  shows "get_point self' = CGPointMake (f_of_int (sint x)) (f_of_int (sint y))"
  using get_point_abs [OF set_point_step(1) [OF assms]] set_point_step(4) [OF assms]
  by (simp add: sel_upd APoint_put_def)

end

interpretation start_point: point_field OperationData_mutable_start_point OperationData_start_point
  AOperationData_start_point "\<lambda>v a. a\<lparr>AOperationData_start_point := v\<rparr>"
  by unfold_locales (simp_all add: OperationData_abs_mutable_start_point OperationData_children_ok OperationData_getters)

interpretation end_point: point_field OperationData_mutable_end_point OperationData_end_point
  AOperationData_end_point "\<lambda>v a. a\<lparr>AOperationData_end_point := v\<rparr>"
  by unfold_locales (simp_all add: OperationData_abs_mutable_end_point OperationData_children_ok OperationData_getters)

interpretation center: point_field OperationData_mutable_center OperationData_center
  AOperationData_center "\<lambda>v a. a\<lparr>AOperationData_center := v\<rparr>"
  by unfold_locales (simp_all add: OperationData_abs_mutable_center OperationData_children_ok OperationData_getters)

interpretation top_left: point_field OperationData_mutable_top_left_corner OperationData_top_left_corner
  AOperationData_top_left_corner "\<lambda>v a. a\<lparr>AOperationData_top_left_corner := v\<rparr>"
  by unfold_locales (simp_all add: OperationData_abs_mutable_top_left_corner OperationData_children_ok OperationData_getters)

interpretation bottom_right: point_field OperationData_mutable_bottom_right_corner OperationData_bottom_right_corner
  AOperationData_bottom_right_corner "\<lambda>v a. a\<lparr>AOperationData_bottom_right_corner := v\<rparr>"
  by unfold_locales (simp_all add: OperationData_abs_mutable_bottom_right_corner OperationData_children_ok OperationData_getters)

interpretation position: point_field OperationData_mutable_position OperationData_position
  AOperationData_position "\<lambda>v a. a\<lparr>AOperationData_position := v\<rparr>"
  by unfold_locales (simp_all add: OperationData_abs_mutable_position OperationData_children_ok OperationData_getters)

text \<open>The accessors of the classes are the ones of these fields.\<close>

lemma class_points [simp]:
  "DrawLine_setStartPoint = start_point.set_point" "DrawLine_startPoint = start_point.get_point"
  "DrawLine_setEndPoint = end_point.set_point" "DrawLine_endPoint = end_point.get_point"
  "DrawEllipse_setCenter = center.set_point" "DrawEllipse_center = center.get_point"
  "DrawRectange_setTopLeftCorner = top_left.set_point" "DrawRectange_topLeftCorner = top_left.get_point"
  "DrawRectange_setBottomRightCorner = bottom_right.set_point" "DrawRectange_bottomRightCorner = bottom_right.get_point"
  "DrawPoint_setPosition = position.set_point" "DrawPoint_position = position.get_point"
  "Erase_setPosition = position.set_point" "Erase_position = position.get_point"
  by (intro ext, simp add: DrawLine_setStartPoint_def DrawLine_startPoint_def DrawLine_setEndPoint_def
      DrawLine_endPoint_def DrawEllipse_setCenter_def DrawEllipse_center_def DrawRectange_setTopLeftCorner_def
      DrawRectange_topLeftCorner_def DrawRectange_setBottomRightCorner_def DrawRectange_bottomRightCorner_def
      DrawPoint_setPosition_def DrawPoint_position_def Erase_setPosition_def Erase_position_def
      start_point.set_point_def start_point.get_point_def end_point.set_point_def end_point.get_point_def
      center.set_point_def center.get_point_def top_left.set_point_def top_left.get_point_def
      bottom_right.set_point_def bottom_right.get_point_def position.set_point_def position.get_point_def)+

section \<open>Making objects from messages\<close>

lemma init_step:
  "op_ok (setOperationType t (OwbClientOperation_init c))"
  "op_class (setOperationType t (OwbClientOperation_init c)) = c"
proof -
  have "op_ok (OwbClientOperation_init c)"
    by (simp add: op_ok_def OwbClientOperation_init_def)
  then show "op_ok (setOperationType t (OwbClientOperation_init c))"
    by (simp add: setOperationType_def put_scalar)
qed (simp add: setOperationType_def OwbClientOperation_init_def)

lemmas class_inits = DrawLine_init_def DrawEllipse_init_def DrawRectange_init_def DrawPoint_init_def Erase_init_def

lemmas class_initFroms = DrawLine_initFromOperation_def DrawEllipse_initFromOperation_def
  DrawRectange_initFromOperation_def DrawPoint_initFromOperation_def Erase_initFromOperation_def

lemmas class_duplicates = DrawLine_duplicate_def DrawEllipse_duplicate_def DrawRectange_duplicate_def
  DrawPoint_duplicate_def Erase_duplicate_def

text \<open>\<open>new_of\<close> is what each class makes of a message.\<close>

fun new_of :: "op_class \<Rightarrow> Operation \<Rightarrow> owb_operation" where
  "new_of Cls_DrawLine m = DrawLine_initFromOperation m"
| "new_of Cls_DrawEllipse m = DrawEllipse_initFromOperation m"
| "new_of Cls_DrawRectange m = DrawRectange_initFromOperation m"
| "new_of Cls_DrawPoint m = DrawPoint_initFromOperation m"
| "new_of Cls_Erase m = Erase_initFromOperation m"

lemma new_of_step:
  assumes "Operation_ok m"
  shows "op_ok (new_of c m)" "op_class (new_of c m) = c" "op_drawer (new_of c m) = Some (drawer_of_class c)"
    "op_abs (new_of c m) = Operation_abs m"
proof -
  note copy = Operation_CopyFrom_ok [OF _ assms] Operation_CopyFrom_abs [OF _ assms]
  have ok: "Operation_ok (op_msg (setOperationType t (OwbClientOperation_init c)))" for t c
    using init_step(1) [of t c] by (simp add: op_ok_def)
  show "op_ok (new_of c m)"
    by (cases c) (simp_all add: class_initFroms class_inits Let_def op_ok_def copy ok)
  show "op_class (new_of c m) = c"
    by (cases c) (simp_all add: class_initFroms class_inits Let_def init_step)
  show "op_drawer (new_of c m) = Some (drawer_of_class c)"
    by (cases c) (simp_all add: class_initFroms class_inits Let_def)
  show "op_abs (new_of c m) = Operation_abs m"
    by (cases c) (simp_all add: class_initFroms class_inits Let_def op_abs_def copy ok)
qed

lemma duplicate_new_of: "duplicate self = new_of (op_class self) (op_msg self)"
  by (cases "op_class self") (simp_all add: duplicate_def class_duplicates)

lemma factory_new_of:
  "CreateOperationFromOperation m = Returns self \<longleftrightarrow>
     (\<exists>c. OperationData_data_type (Operation_data m) = type_of_class c \<and> self = new_of c m)"
proof
  assume "CreateOperationFromOperation m = Returns self"
  then show "\<exists>c. OperationData_data_type (Operation_data m) = type_of_class c \<and> self = new_of c m"
    by (auto simp: CreateOperationFromOperation_def Let_def split: if_splits
        intro: exI [of _ Cls_DrawLine] exI [of _ Cls_DrawEllipse] exI [of _ Cls_DrawRectange]
          exI [of _ Cls_DrawPoint] exI [of _ Cls_Erase])
next
  assume "\<exists>c. OperationData_data_type (Operation_data m) = type_of_class c \<and> self = new_of c m"
  then obtain c where "OperationData_data_type (Operation_data m) = type_of_class c" "self = new_of c m"
    by blast
  then show "CreateOperationFromOperation m = Returns self"
    by (cases c) (simp_all add: CreateOperationFromOperation_def owb_types)
qed

lemma consistent_new_of:
  assumes "Operation_ok m" "OperationData_data_type (Operation_data m) = type_of_class c"
  shows "consistent (new_of c m)"
proof -
  have "op_ok (new_of c m)" "data_abs (new_of c m) = OperationData_abs (Operation_data m)"
    using new_of_step [OF assms(1), of c] Operation_getters(2) [OF assms(1)]
    by (simp_all add: data_abs_def)
  then have "operationType (new_of c m) = OperationData_data_type (Operation_data m)"
    using OperationData_getters(1) Operation_children_ok [OF assms(1)] by (simp add: operationType_abs)
  with new_of_step [OF assms(1), of c] assms(2) show ?thesis
    by (simp add: consistent_def)
qed

lemma consistent_duplicate:
  assumes "consistent self"
  shows "consistent (duplicate self)" "op_class (duplicate self) = op_class self"
    "op_abs (duplicate self) = op_abs self" "data_abs (duplicate self) = data_abs self"
proof -
  have ok: "Operation_ok (op_msg self)"
    using assms by (simp add: consistent_def op_ok_def)
  show "consistent (duplicate self)"
    unfolding duplicate_new_of
    by (rule consistent_new_of [OF ok]) (use assms in \<open>simp add: consistent_def operationType_def op_data_def\<close>)
  show "op_class (duplicate self) = op_class self" "op_abs (duplicate self) = op_abs self"
    using new_of_step [OF ok] by (simp_all add: duplicate_new_of op_abs_def)
  then show "data_abs (duplicate self) = data_abs self"
    by (simp add: data_abs_def)
qed

text \<open>A known type, and the initial objects of the five classes.\<close>

definition known_type :: "int32 \<Rightarrow> bool" where
  "known_type t \<longleftrightarrow> t \<in> {OwbOperationDataType_LINE, OwbOperationDataType_ELLIPSE, OwbOperationDataType_RECTANGE,
     OwbOperationDataType_POINT, OwbOperationDataType_ERASER}"

lemma known_type_class: "known_type t \<longleftrightarrow> (\<exists>c. t = type_of_class c)"
proof
  assume "\<exists>c. t = type_of_class c"
  then obtain c where "t = type_of_class c" by blast
  then show "known_type t" by (cases c) (simp_all add: known_type_def)
qed (auto simp: known_type_def intro: exI [of _ Cls_DrawLine] exI [of _ Cls_DrawEllipse]
    exI [of _ Cls_DrawRectange] exI [of _ Cls_DrawPoint] exI [of _ Cls_Erase])

lemma factory_known:
  assumes "known_type (OperationData_data_type (Operation_data m))"
  obtains c where "OperationData_data_type (Operation_data m) = type_of_class c"
    "CreateOperationFromOperation m = Returns (new_of c m)"
  using assms factory_new_of known_type_class by blast

lemma factory_unknown:
  "\<not> known_type (OperationData_data_type (Operation_data m)) \<Longrightarrow>
     CreateOperationFromOperation m = Throws UnknownOperationType"
  by (simp add: known_type_def CreateOperationFromOperation_def)

lemma operationType_new_of:
  "Operation_ok m \<Longrightarrow> operationType (new_of c m) = OperationData_data_type (Operation_data m)"
  using new_of_step [of m c] Operation_getters(2) [of m] OperationData_getters(1) [OF Operation_children_ok [of m]]
  by (simp add: operationType_abs data_abs_def)

lemma init_consistent:
  "consistent DrawLine_init" "consistent DrawEllipse_init" "consistent DrawRectange_init"
  "consistent DrawPoint_init" "consistent Erase_init"
proof -
  have t: "operationType (setOperationType t (OwbClientOperation_init c)) = t" for t c
  proof -
    have "op_ok (OwbClientOperation_init c)"
      by (simp add: op_ok_def OwbClientOperation_init_def)
    from put_scalar(1,9) [OF this, of t] show ?thesis
      by (simp add: setOperationType_def operationType_abs)
  qed
  have d: "consistent ((setOperationType (type_of_class c) (OwbClientOperation_init c))\<lparr>op_drawer := Some (drawer_of_class c)\<rparr>)" for c
    using init_step [of "type_of_class c" c] t [of "type_of_class c" c]
    by (simp add: consistent_def op_ok_def operationType_def op_data_def)
  show "consistent DrawLine_init" "consistent DrawEllipse_init" "consistent DrawRectange_init"
    "consistent DrawPoint_init" "consistent Erase_init"
    using d [of Cls_DrawLine] d [of Cls_DrawEllipse] d [of Cls_DrawRectange] d [of Cls_DrawPoint] d [of Cls_Erase]
    by (simp_all add: class_inits)
qed

lemma init_class [simp]:
  "op_class DrawLine_init = Cls_DrawLine" "op_class DrawEllipse_init = Cls_DrawEllipse"
  "op_class DrawRectange_init = Cls_DrawRectange" "op_class DrawPoint_init = Cls_DrawPoint"
  "op_class Erase_init = Cls_Erase"
  by (simp_all add: class_inits init_step)

lemma toOperation_step:
  assumes "consistent self"
  shows "Operation_ok (toOperation self)" "Operation_abs (toOperation self) = op_abs self"
    "OperationData_data_type (Operation_data (toOperation self)) = type_of_class (op_class self)"
proof -
  have ok: "Operation_ok (op_msg self)" using assms by (simp add: consistent_def op_ok_def)
  show 1: "Operation_ok (toOperation self)" "Operation_abs (toOperation self) = op_abs self"
    using Operation_MergeFrom_ok [OF Operation_ok_default ok] Operation_MergeFrom_abs [OF Operation_ok_default ok]
    by (simp_all add: toOperation_def op_abs_def Operation_abs_default Operation_merge_empty)
  have "operationType self = type_of_class (op_class self)" "op_ok self"
    using assms by (simp_all add: consistent_def)
  then show "OperationData_data_type (Operation_data (toOperation self)) = type_of_class (op_class self)"
    using 1(2) Operation_getters(2) [OF 1(1)] OperationData_getters(1) [OF Operation_children_ok [OF 1(1)]]
    by (simp add: operationType_abs data_abs_def)
qed

text \<open>Small integer coordinates are stored exactly.\<close>

lemma small_int_range: "small_int i \<Longrightarrow> in_int_range i"
  by (auto simp: small_int_def in_int_range_def INT_MAX_def INT_MIN_def abs_le_iff)

lemma sint_small_int [simp]: "small_int i \<Longrightarrow> sint (to_int32 i) = i"
  by (rule sint_to_int32 [OF small_int_range])

lemma int_coords_of_int [simp]:
  "small_int i \<Longrightarrow> small_int j \<Longrightarrow>
     int_coords (CGPointMake (f_of_int i) (f_of_int j)) = Returns (to_int32 i, to_int32 j)"
  by (simp add: int_coords_def CGPointMake_def f_to_int_of_int)

lemma operation_list_loaded:
  assumes "Operations_ok l"
  defines "ms \<equiv> Rep_contents (Operations_operations_fld l)"
  shows "case OwbClientOperationList_initFromOperationList l of
      Returns r \<Rightarrow> operationAvaliable r = Operations_operation_avaliable l \<and>
        map op_abs (operationList r) = AOperations_operations (Operations_abs l) \<and> list_all consistent (operationList r)
    | Throws e \<Rightarrow> e = UnknownOperationType \<and> \<not> list_all (\<lambda>m. known_type (OperationData_data_type (Operation_data m))) ms
    | Undefined \<Rightarrow> False"
proof -
  have ok: "list_all Operation_ok ms"
    using Operations_contents_ok [OF assms(1)] by (simp add: ms_def)
  have loaded: "case map_outcome_list CreateOperationFromOperation ms of
      Returns r \<Rightarrow> map op_abs r = map Operation_abs ms \<and> list_all consistent r
    | Throws e \<Rightarrow> e = UnknownOperationType \<and> \<not> list_all (\<lambda>m. known_type (OperationData_data_type (Operation_data m))) ms
    | Undefined \<Rightarrow> False" if "list_all Operation_ok ms" for ms
    using that
  proof (induction ms)
    case (Cons m ms)
    show ?case
    proof (cases "known_type (OperationData_data_type (Operation_data m))")
      case True
      then obtain c where c: "OperationData_data_type (Operation_data m) = type_of_class c"
          "CreateOperationFromOperation m = Returns (new_of c m)"
        by (rule factory_known)
      have "consistent (new_of c m)" "op_abs (new_of c m) = Operation_abs m"
        using Cons.prems consistent_new_of [OF _ c(1)] new_of_step(4) [of m c] by simp_all
      with Cons c(2) show ?thesis
        by (cases "map_outcome_list CreateOperationFromOperation ms") simp_all
    qed (simp add: factory_unknown)
  qed simp
  from loaded [OF ok] show ?thesis
    by (cases "map_outcome_list CreateOperationFromOperation ms")
      (simp_all add: OwbClientOperationList_initFromOperationList_def ms_def [symmetric] Operations_abs_def)
qed

section \<open>Properties\<close>

text \<open>
  C30: the factory decides every received message. A message of a known type becomes an
  object whose class, drawer and data type agree and whose content is the message's;
  any other message throws the unknown-type exception, and nothing else happens.
\<close>

theorem factory_decides:
  assumes "Operation_ok m"
  shows "case CreateOperationFromOperation m of
      Returns self \<Rightarrow> known_type (OperationData_data_type (Operation_data m)) \<and> consistent self \<and>
        op_abs self = Operation_abs m \<and> operationType self = OperationData_data_type (Operation_data m)
    | Throws e \<Rightarrow> \<not> known_type (OperationData_data_type (Operation_data m)) \<and> e = UnknownOperationType
    | Undefined \<Rightarrow> False"
proof (cases "known_type (OperationData_data_type (Operation_data m))")
  case True
  then obtain c where c: "OperationData_data_type (Operation_data m) = type_of_class c"
      "CreateOperationFromOperation m = Returns (new_of c m)"
    by (rule factory_known)
  show ?thesis
    using True consistent_new_of [OF assms c(1)] new_of_step(4) [OF assms, of c] operationType_new_of [OF assms]
    by (simp add: c(2))
qed (simp add: factory_unknown)

theorem factory_decides_witness:
  "\<exists>self. CreateOperationFromOperation (toOperation Erase_init) = Returns self \<and> consistent self \<and>
     op_abs self = Operation_abs (toOperation Erase_init) \<and> operationType self = OwbOperationDataType_ERASER"
proof -
  note t = toOperation_step [OF init_consistent(5)]
  obtain self where self: "CreateOperationFromOperation (toOperation Erase_init) = Returns self"
    using t(3) factory_new_of by blast
  with factory_decides [OF t(1)] t(3) show ?thesis by simp
qed

text \<open>
  C29: sending and receiving. The message that \<^verbatim>\<open>toOperation\<close> makes of an object is turned
  back by the factory into an object of the same class, drawer and content.
\<close>

theorem factory_of_toOperation:
  assumes "consistent self"
  shows "\<exists>self'. CreateOperationFromOperation (toOperation self) = Returns self' \<and> consistent self' \<and>
    op_class self' = op_class self \<and> op_drawer self' = op_drawer self \<and> op_abs self' = op_abs self"
proof -
  note t = toOperation_step [OF assms]
  have "CreateOperationFromOperation (toOperation self) = Returns (new_of (op_class self) (toOperation self))"
    using t(3) factory_new_of by blast
  then show ?thesis
    using consistent_new_of [OF t(1,3)] new_of_step [OF t(1), of "op_class self"] t(2) assms
    by (auto simp: consistent_def)
qed

theorem factory_of_toOperation_witness:
  "\<exists>self'. CreateOperationFromOperation (toOperation DrawPoint_init) = Returns self' \<and>
    op_class self' = Cls_DrawPoint \<and> op_abs self' = op_abs DrawPoint_init"
  using factory_of_toOperation [OF init_consistent(4)] by auto



text \<open>
  a received operation list is loaded completely and in order when every operation
  has a known type, and throws without a partial list at the first one that has not.
\<close>

lemma operation_list_loads_in_order:
  assumes "Operations_ok l"
  defines "ms \<equiv> Rep_contents (Operations_operations_fld l)"
  shows "case OwbClientOperationList_initFromOperationList l of
      Returns r \<Rightarrow> operationAvaliable r = Operations_operation_avaliable l \<and>
        map op_abs (operationList r) = AOperations_operations (Operations_abs l) \<and> list_all consistent (operationList r)
    | Throws e \<Rightarrow> e = UnknownOperationType \<and> \<not> list_all (\<lambda>m. known_type (OperationData_data_type (Operation_data m))) ms
    | Undefined \<Rightarrow> False"
  unfolding ms_def by (rule operation_list_loaded [OF assms(1)])

theorem operation_list_loads_in_order_witness:
  "\<exists>r. OwbClientOperationList_initFromOperationList
      (Operations_add_operations (\<lambda>_. toOperation Erase_init) Operations_default) = Returns r \<and>
    map op_abs (operationList r) = [op_abs Erase_init]"
proof -
  let ?l = "Operations_add_operations (\<lambda>_. toOperation Erase_init) Operations_default"
  note t = toOperation_step [OF init_consistent(5)]
  have a: "Operations_ok ?l" "AOperations_operations (Operations_abs ?l) = [op_abs Erase_init]"
    using Operations_add_operations_abs [of Operations_default "\<lambda>_. toOperation Erase_init" "op_abs Erase_init"] t
    by (simp_all add: Operations_abs_default AOperations_empty_def)
  have c: "Rep_contents (Operations_operations_fld ?l) = [toOperation Erase_init]"
    by (simp add: Operations_add_operations_def Operations_default_def rep_defs Rep_empty_def
        Rep_Add_def store_def Rep_Reserve_def Let_def)
  have "known_type (OperationData_data_type (Operation_data (toOperation Erase_init)))"
    using t(3) by (simp add: known_type_def)
  with operation_list_loads_in_order [OF a(1)] a(2) c show ?thesis
    by (auto split: outcome.splits)
qed

text \<open>
  a line's end points are kept apart and exactly. Points with integer coordinates of at
  most \<open>2 ^ 24\<close> in magnitude are stored and read back unchanged, whatever was there before,
  and nothing else of the object changes.
\<close>

lemma line_points_roundtrip:
  assumes "op_ok self" "small_int x" "small_int y" "small_int u" "small_int v"
  shows "\<exists>s1 s2. DrawLine_setStartPoint (CGPointMake (f_of_int x) (f_of_int y)) self = Returns s1 \<and>
    DrawLine_setEndPoint (CGPointMake (f_of_int u) (f_of_int v)) s1 = Returns s2 \<and> op_ok s2 \<and>
    DrawLine_startPoint s2 = CGPointMake (f_of_int x) (f_of_int y) \<and>
    DrawLine_endPoint s2 = CGPointMake (f_of_int u) (f_of_int v) \<and>
    (data_abs s2)\<lparr>AOperationData_start_point := p, AOperationData_end_point := q\<rparr> =
      (data_abs self)\<lparr>AOperationData_start_point := p, AOperationData_end_point := q\<rparr>"
proof -
  note c = int_coords_of_int and w = sint_small_int
  obtain s1 where s1: "start_point.set_point (CGPointMake (f_of_int x) (f_of_int y)) self = Returns s1"
    using c [OF assms(2,3)] by (simp add: start_point.set_point_def)
  obtain s2 where s2: "end_point.set_point (CGPointMake (f_of_int u) (f_of_int v)) s1 = Returns s2"
    using c [OF assms(4,5)] by (simp add: end_point.set_point_def)
  note a = start_point.set_point_step [OF assms(1) s1 c [OF assms(2,3)]]
  note b = end_point.set_point_step [OF a(1) s2 c [OF assms(4,5)]]
  have "start_point.get_point s2 = CGPointMake (f_of_int x) (f_of_int y)"
    using start_point.get_point_abs [OF b(1)] by (simp add: b(4) a(4) APoint_put_def w assms)
  then show ?thesis
    using s1 s2 a b end_point.get_set_point [OF a(1) s2 c [OF assms(4,5)]]
    by (auto simp: w assms)
qed

theorem line_points_roundtrip_witness:
  "\<exists>s1 s2. DrawLine_setStartPoint (CGPointMake (f_of_int 3) (f_of_int (- 7))) DrawLine_init = Returns s1 \<and>
    DrawLine_setEndPoint (CGPointMake (f_of_int 1024) (f_of_int 768)) s1 = Returns s2 \<and>
    DrawLine_startPoint s2 = CGPointMake (f_of_int 3) (f_of_int (- 7))"
proof -
  have "op_ok DrawLine_init" using init_consistent(1) by (simp add: consistent_def)
  from line_points_roundtrip [OF this, of 3 "- 7" 1024 768] show ?thesis
    by (simp add: small_int_def) blast
qed

end
