(* ===== verification/Operation_Queue.thy ===== *)
theory Operation_Queue
  imports Message_Model
begin

text \<open>
  \<^verbatim>\<open>Tools/OwbClientOperationQueue.mm\<close>: the queue between the network and the board,
  its two recursive locks, and what threads that share it can do to each other.
  The methods are lists of the calls their bodies make; run by one thread without
  interruption they are functions of the queue, run by several threads their calls
  interleave.
\<close>

section \<open>Recursive locks\<close>

text \<open>An \<^verbatim>\<open>NSRecursiveLock\<close>: free, or its owner and how often the owner has locked it.\<close>

type_synonym thread = nat
type_synonym rlock = "(thread \<times> nat) option"

definition depth :: "thread \<Rightarrow> rlock \<Rightarrow> nat" where
  "depth t l = (case l of None \<Rightarrow> 0 | Some (u, n) \<Rightarrow> if u = t then n else 0)"

definition acquire :: "thread \<Rightarrow> rlock \<Rightarrow> rlock option" where
  "acquire t l =
     (case l of None \<Rightarrow> Some (Some (t, 1))
      | Some (u, n) \<Rightarrow> if u = t then Some (Some (t, Suc n)) else None)"

text \<open>Unlocking from a thread that does not own the lock is undefined.\<close>

definition release :: "thread \<Rightarrow> rlock \<Rightarrow> rlock option" where
  "release t l =
     (case l of None \<Rightarrow> None
      | Some (u, n) \<Rightarrow> if u = t then Some (if n \<le> 1 then None else Some (t, n - 1)) else None)"

definition lock_ok :: "rlock \<Rightarrow> bool" where
  "lock_ok l \<longleftrightarrow> (case l of None \<Rightarrow> True | Some (u, n) \<Rightarrow> 0 < n)"

definition may_lock :: "thread \<Rightarrow> rlock \<Rightarrow> bool" where
  "may_lock t l \<longleftrightarrow> (case l of None \<Rightarrow> True | Some (u, n) \<Rightarrow> u = t)"

lemma acquire_may_lock: "acquire t l = None \<longleftrightarrow> \<not> may_lock t l"
  by (auto simp: acquire_def may_lock_def split: option.splits)

lemma acquire_step:
  assumes "acquire t l = Some l'" "lock_ok l"
  shows "lock_ok l'" "depth t l' = Suc (depth t l)" "u \<noteq> t \<Longrightarrow> depth u l' = depth u l" "may_lock t l'"
  using assms by (auto simp: acquire_def lock_ok_def depth_def may_lock_def split: option.splits if_splits)

lemma release_owned:
  assumes "0 < depth t l"
  obtains l' where "release t l = Some l'"
  using assms by (auto simp: release_def depth_def split: option.splits if_splits)

lemma release_step:
  assumes "release t l = Some l'" "lock_ok l"
  shows "lock_ok l'" "depth t l' = depth t l - 1" "u \<noteq> t \<Longrightarrow> depth u l' = depth u l"
  using assms by (auto simp: release_def lock_ok_def depth_def split: option.splits if_splits)

lemma release_acquire [simp]: "lock_ok l \<Longrightarrow> acquire t l = Some l' \<Longrightarrow> release t l' = Some l"
  by (auto simp: acquire_def release_def lock_ok_def split: option.splits if_splits)

lemma depth_owner: "\<not> may_lock t l \<Longrightarrow> lock_ok l \<Longrightarrow> \<exists>u. u \<noteq> t \<and> 0 < depth u l"
  by (auto simp: may_lock_def lock_ok_def depth_def split: option.splits)

lemma depth_unique: "0 < depth t l \<Longrightarrow> 0 < depth u l \<Longrightarrow> t = u"
  by (auto simp: depth_def split: option.splits if_splits)

lemma depth_may_lock: "0 < depth t l \<Longrightarrow> may_lock t l"
  by (auto simp: depth_def may_lock_def split: option.splits if_splits)

section \<open>The queue and its methods\<close>

record op_queue =
  operations :: "owb_operation list"
  enqueueLocker :: rlock
  dequeueLocker :: rlock
  writable :: bool
  meetingId :: nsstring
  latestSerialNumber :: int32

definition Queue_init :: op_queue where
  "Queue_init = \<lparr>operations = [], enqueueLocker = None, dequeueLocker = None, writable = False,
     meetingId = None, latestSerialNumber = 0\<rparr>"

text \<open>
  The calls a method makes. \<open>ReturnIfEmpty\<close> is the test at the head of the loops that
  read a queue: when the queue is empty they unlock and return.
\<close>

datatype instr =
    LockEnq | LockDeq | UnlockEnq | UnlockDeq
  | AddObject owb_operation | AddObjectsFromArray "owb_operation list" | SetLatest int32
  | ObjectAtIndex0 | RemoveObjectAtIndex0 | RemoveAllObjects
  | ReturnIfEmpty

definition lock :: "instr list" where
  "lock = [LockEnq, LockDeq]"

definition unLock :: "instr list" where
  "unLock = [UnlockEnq, UnlockDeq]"

definition enqueue :: "owb_operation \<Rightarrow> instr list" where
  "enqueue op = [LockEnq, AddObject op, SetLatest (serialNumber op), UnlockEnq]"

definition dequeue :: "instr list" where
  "dequeue = [LockDeq, ObjectAtIndex0, RemoveObjectAtIndex0, UnlockDeq]"

definition clear_queue :: "instr list" where
  "clear_queue = lock @ [RemoveAllObjects] @ unLock"

text \<open>
  \<^verbatim>\<open>getServerData\<close> takes no lock. The server delegate is the argument: it answers with
  a list of operations or throws.
\<close>

definition fetched :: "owb_operation list \<Rightarrow> instr list" where
  "fetched ops = [AddObjectsFromArray ops, SetLatest (serialNumber (last ops))]"

definition isEmpty :: "op_queue \<Rightarrow> bool" where
  "isEmpty q \<longleftrightarrow> length (operations q) = 0"

text \<open>\<open>n\<close> turns of the loop that reads a queue: test under the locks, then dequeue.\<close>

fun read_turns :: "nat \<Rightarrow> instr list" where
  "read_turns 0 = []"
| "read_turns (Suc n) = lock @ [ReturnIfEmpty] @ unLock @ dequeue @ read_turns n"

text \<open>
  One call by thread \<open>t\<close> on the queue and the local variable that \<^verbatim>\<open>dequeue\<close> fills:
  it is done, it has to wait, it raises, or it is undefined.
\<close>

datatype 's run = Did 's | Waits | Raises exn 's | Breaks

definition with_lock :: "rlock option \<Rightarrow> (rlock \<Rightarrow> 's run) \<Rightarrow> 's run" where
  "with_lock l k = (case l of None \<Rightarrow> Waits | Some l \<Rightarrow> k l)"

definition with_unlock :: "rlock option \<Rightarrow> (rlock \<Rightarrow> 's run) \<Rightarrow> 's run" where
  "with_unlock l k = (case l of None \<Rightarrow> Breaks | Some l \<Rightarrow> k l)"

type_synonym call_state = "op_queue \<times> owb_operation option"

fun call :: "thread \<Rightarrow> instr \<Rightarrow> call_state \<Rightarrow> call_state run" where
  "call t LockEnq (q, r) = with_lock (acquire t (enqueueLocker q)) (\<lambda>l. Did (q\<lparr>enqueueLocker := l\<rparr>, r))"
| "call t LockDeq (q, r) = with_lock (acquire t (dequeueLocker q)) (\<lambda>l. Did (q\<lparr>dequeueLocker := l\<rparr>, r))"
| "call t UnlockEnq (q, r) = with_unlock (release t (enqueueLocker q)) (\<lambda>l. Did (q\<lparr>enqueueLocker := l\<rparr>, r))"
| "call t UnlockDeq (q, r) = with_unlock (release t (dequeueLocker q)) (\<lambda>l. Did (q\<lparr>dequeueLocker := l\<rparr>, r))"
| "call t (AddObject op) (q, r) = Did (q\<lparr>operations := operations q @ [op]\<rparr>, r)"
| "call t (AddObjectsFromArray ops) (q, r) = Did (q\<lparr>operations := operations q @ ops\<rparr>, r)"
| "call t (SetLatest n) (q, r) = Did (q\<lparr>latestSerialNumber := n\<rparr>, r)"
| "call t ObjectAtIndex0 (q, r) =
     (case operations q of [] \<Rightarrow> Raises RangeException (q, r) | op # _ \<Rightarrow> Did (q, Some op))"
| "call t RemoveObjectAtIndex0 (q, r) =
     (case operations q of [] \<Rightarrow> Raises RangeException (q, r) | _ # ops \<Rightarrow> Did (q\<lparr>operations := ops\<rparr>, r))"
| "call t RemoveAllObjects (q, r) = Did (q\<lparr>operations := []\<rparr>, r)"
| "call t ReturnIfEmpty (q, r) = Did (q, r)"

definition after :: "instr \<Rightarrow> op_queue \<Rightarrow> instr list \<Rightarrow> instr list" where
  "after i q p = (if i = ReturnIfEmpty \<and> isEmpty q then unLock else p)"

section \<open>A method run without interruption\<close>

fun run_method :: "thread \<Rightarrow> instr list \<Rightarrow> call_state \<Rightarrow> call_state run" where
  "run_method t [] s = Did s"
| "run_method t (i # p) s =
     (case call t i s of Did s' \<Rightarrow> run_method t p s'
      | Waits \<Rightarrow> Waits | Raises e s' \<Rightarrow> Raises e s' | Breaks \<Rightarrow> Breaks)"

definition enqueue_by :: "thread \<Rightarrow> owb_operation \<Rightarrow> op_queue \<Rightarrow> op_queue run" where
  "enqueue_by t op q = map_run fst (run_method t (enqueue op) (q, None))"

definition dequeue_by :: "thread \<Rightarrow> op_queue \<Rightarrow> (owb_operation option \<times> op_queue) run" where
  "dequeue_by t q = map_run (\<lambda>(q, r). (r, q)) (run_method t dequeue (q, None))"

definition clear_by :: "thread \<Rightarrow> op_queue \<Rightarrow> op_queue run" where
  "clear_by t q = map_run fst (run_method t clear_queue (q, None))"

definition getServerData ::
    "(nsstring \<Rightarrow> int32 \<Rightarrow> owb_operation_list outcome) \<Rightarrow> thread \<Rightarrow> op_queue \<Rightarrow> (int32 \<times> op_queue) outcome" where
  "getServerData getOperationList t q =
     andThen (getOperationList (meetingId q) (latestSerialNumber q)) (\<lambda>opList.
       if operationAvaliable opList \<noteq> OwbAVALIBLE then Returns (operationAvaliable opList, q)
       else if length (operationList opList) = 0 then Returns (OwbNOT_UPDATE, q)
       else (case run_method t (fetched (operationList opList)) (q, None) of
           Did (q', _) \<Rightarrow> Returns (operationAvaliable opList, q')
         | _ \<Rightarrow> Undefined))"

text \<open>Thread \<open>t\<close> finds both locks usable.\<close>

definition usable :: "thread \<Rightarrow> op_queue \<Rightarrow> bool" where
  "usable t q \<longleftrightarrow> may_lock t (enqueueLocker q) \<and> may_lock t (dequeueLocker q) \<and>
     lock_ok (enqueueLocker q) \<and> lock_ok (dequeueLocker q)"

lemma usableE:
  assumes "usable t q"
  obtains e d where "acquire t (enqueueLocker q) = Some e" "acquire t (dequeueLocker q) = Some d"
    "release t e = Some (enqueueLocker q)" "release t d = Some (dequeueLocker q)"
  using assms acquire_may_lock [of t "enqueueLocker q"] acquire_may_lock [of t "dequeueLocker q"]
  by (auto simp: usable_def)

lemma enqueue_by_usable:
  assumes "usable t q"
  shows "enqueue_by t op q = Did (q\<lparr>operations := operations q @ [op], latestSerialNumber := serialNumber op\<rparr>)"
  using assms by (rule usableE) (simp add: enqueue_by_def enqueue_def with_lock_def with_unlock_def)

lemma dequeue_by_usable:
  assumes "usable t q" "operations q = op # ops"
  shows "dequeue_by t q = Did (Some op, q\<lparr>operations := ops\<rparr>)"
  using assms(1) by (rule usableE) (simp add: dequeue_by_def dequeue_def with_lock_def with_unlock_def assms(2))

lemma clear_by_usable:
  assumes "usable t q"
  shows "clear_by t q = Did (q\<lparr>operations := []\<rparr>)"
  using assms
  by (rule usableE) (simp add: clear_by_def clear_queue_def lock_def unLock_def with_lock_def with_unlock_def)

lemma usable_fields [simp]:
  "usable t (q\<lparr>operations := ops\<rparr>) = usable t q" "usable t (q\<lparr>latestSerialNumber := n\<rparr>) = usable t q"
  "usable t (q\<lparr>meetingId := m\<rparr>) = usable t q" "usable t (q\<lparr>writable := w\<rparr>) = usable t q"
  "usable t Queue_init"
  by (simp_all add: usable_def Queue_init_def may_lock_def lock_ok_def)

section \<open>The queue as a FIFO\<close>

text \<open>
  What the board relies on: \<open>elems\<close> is the content in order, \<open>put\<close> appends, \<open>get\<close> takes
  the first element, and both end without waiting while \<open>good\<close> holds. \<open>drain\<close> is the loop that
  reads a queue until it is empty and handles each element; its first argument bounds
  the turns.
\<close>

locale fifo =
  fixes put :: "'a \<Rightarrow> 'q \<Rightarrow> 'q run"
    and get :: "'q \<Rightarrow> ('a option \<times> 'q) run"
    and elems :: "'q \<Rightarrow> 'a list"
    and good :: "'q \<Rightarrow> bool"
  assumes put_ends: "good q \<Longrightarrow> \<exists>q'. put x q = Did q' \<and> good q' \<and> elems q' = elems q @ [x]"
    and get_ends: "good q \<Longrightarrow> elems q = x # xs \<Longrightarrow> \<exists>q'. get q = Did (Some x, q') \<and> good q' \<and> elems q' = xs"
begin

fun put_list :: "'a list \<Rightarrow> 'q \<Rightarrow> 'q run" where
  "put_list [] q = Did q"
| "put_list (x # xs) q = (case put x q of Did q' \<Rightarrow> put_list xs q' | r \<Rightarrow> r)"

fun drain :: "nat \<Rightarrow> ('a \<Rightarrow> 's \<Rightarrow> 's outcome) \<Rightarrow> 'q \<Rightarrow> 's \<Rightarrow> ('s \<times> 'q) outcome" where
  "drain 0 f q s = Undefined"
| "drain (Suc n) f q s =
     (if elems q = [] then Returns (s, q)
      else (case get q of Did (Some x, q') \<Rightarrow> andThen (f x s) (\<lambda>s'. drain n f q' s')
        | Raises e _ \<Rightarrow> Throws e | _ \<Rightarrow> Undefined))"

fun handle_list :: "('a \<Rightarrow> 's \<Rightarrow> 's outcome) \<Rightarrow> 'a list \<Rightarrow> 's \<Rightarrow> 's outcome" where
  "handle_list f [] s = Returns s"
| "handle_list f (x # xs) s = andThen (f x s) (handle_list f xs)"

lemma put_list_ends:
  "good q \<Longrightarrow> \<exists>q'. put_list xs q = Did q' \<and> good q' \<and> elems q' = elems q @ xs"
proof (induction xs arbitrary: q)
  case (Cons x xs)
  obtain q1 where "put x q = Did q1" "good q1" "elems q1 = elems q @ [x]"
    using put_ends [OF Cons.prems] by blast
  with Cons.IH [of q1] show ?case by auto
qed simp

lemma drain_handles:
  assumes "good q" "length (elems q) < n"
  shows "\<exists>q'. good q' \<and> elems q' = [] \<and>
    drain n f q s = andThen (handle_list f (elems q) s) (\<lambda>s'. Returns (s', q'))"
  using assms
proof (induction n arbitrary: q s)
  case (Suc n)
  show ?case
  proof (cases "elems q")
    case Nil
    with Suc.prems show ?thesis by auto
  next
    case (Cons x xs)
    obtain q1 where q1: "get q = Did (Some x, q1)" "good q1" "elems q1 = xs"
      using get_ends [OF Suc.prems(1) Cons] by blast
    have len: "length (elems q1) < n" using q1(3) Cons Suc.prems(2) by simp
    show ?thesis
      using Suc.IH [OF q1(2) len] q1 Cons by (cases "f x s") auto
  qed
qed simp

lemma drain_Returns:
  assumes "good q" "length (elems q) < n" "handle_list f (elems q) s = Returns s'"
  shows "\<exists>q'. drain n f q s = Returns (s', q') \<and> good q' \<and> elems q' = []"
  using drain_handles [OF assms(1,2), of f s] assms(3) by auto

end

interpretation owb_fifo: fifo "enqueue_by t" "dequeue_by t" operations "usable t" for t
  by unfold_locales (simp_all add: enqueue_by_usable dequeue_by_usable)


section \<open>Threads that share a queue\<close>

datatype queue_method =
    Enqueue owb_operation | Dequeue | Clear | ReadTurns nat | Fetched "owb_operation list"

fun body :: "queue_method \<Rightarrow> instr list" where
  "body (Enqueue op) = enqueue op"
| "body Dequeue = dequeue"
| "body Clear = clear_queue"
| "body (ReadTurns n) = read_turns n"
| "body (Fetched ops) = fetched ops"

text \<open>
  The shared queue, and for each thread its local variable, the calls it has still to
  make, and whether one of its calls raised: the exception leaves the method with the
  locks as they are.
\<close>

record system =
  shared :: op_queue
  local_op :: "thread \<Rightarrow> owb_operation option"
  rest :: "thread \<Rightarrow> instr list"
  raised :: "thread \<Rightarrow> bool"

definition step :: "thread \<Rightarrow> system \<Rightarrow> system run" where
  "step t s =
     (case rest s t of [] \<Rightarrow> Waits
      | i # p \<Rightarrow>
          (case call t i (shared s, local_op s t) of
             Did (q, r) \<Rightarrow> Did (s\<lparr>shared := q, local_op := (local_op s)(t := r),
               rest := (rest s)(t := after i (shared s) p)\<rparr>)
           | Waits \<Rightarrow> Waits
           | Raises e (q, r) \<Rightarrow> Raises e (s\<lparr>shared := q, rest := (rest s)(t := []), raised := (raised s)(t := True)\<rparr>)
           | Breaks \<Rightarrow> Breaks))"

inductive moves :: "system \<Rightarrow> system \<Rightarrow> bool" where
  did: "step t s = Did s' \<Longrightarrow> moves s s'"
| raises: "step t s = Raises e s' \<Longrightarrow> moves s s'"

definition start :: "owb_operation list \<Rightarrow> (thread \<Rightarrow> queue_method list) \<Rightarrow> system" where
  "start ops ms = \<lparr>shared = Queue_init\<lparr>operations := ops\<rparr>, local_op = \<lambda>t. None,
     rest = \<lambda>t. concat (map body (ms t)), raised = \<lambda>t. False\<rparr>"

inductive reachable :: "system \<Rightarrow> bool" where
  start: "reachable (start ops ms)"
| moves: "reachable s \<Longrightarrow> moves s s' \<Longrightarrow> reachable s'"

text \<open>
  What a thread that holds the two locks \<open>e\<close> and \<open>d\<close> times may still do: it releases what it
  holds and no more, never asks for the first lock while it holds the second, and
  changes the content under the locks that the method takes for it.
\<close>

fun well :: "nat \<Rightarrow> nat \<Rightarrow> instr list \<Rightarrow> bool" where
  "well e d [] \<longleftrightarrow> e = 0 \<and> d = 0"
| "well e d (LockEnq # p) \<longleftrightarrow> d = 0 \<and> well (Suc e) d p"
| "well e d (LockDeq # p) \<longleftrightarrow> well e (Suc d) p"
| "well e d (UnlockEnq # p) \<longleftrightarrow> 0 < e \<and> well (e - 1) d p"
| "well e d (UnlockDeq # p) \<longleftrightarrow> 0 < d \<and> well e (d - 1) p"
| "well e d (AddObject op # p) \<longleftrightarrow> 0 < e \<and> well e d p"
| "well e d (AddObjectsFromArray ops # p) \<longleftrightarrow> well e d p"
| "well e d (SetLatest n # p) \<longleftrightarrow> well e d p"
| "well e d (ObjectAtIndex0 # p) \<longleftrightarrow> 0 < d \<and> well e d p"
| "well e d (RemoveObjectAtIndex0 # p) \<longleftrightarrow> 0 < d \<and> well e d p"
| "well e d (RemoveAllObjects # p) \<longleftrightarrow> 0 < e \<and> 0 < d \<and> well e d p"
| "well e d (ReturnIfEmpty # p) \<longleftrightarrow> e = 1 \<and> d = 1 \<and> well e d p"

lemma well_body:
  assumes "well 0 0 p"
  shows "well 0 0 (body m @ p)"
proof -
  have "well 0 0 (read_turns n @ p)" for n
    using assms by (induction n) (simp_all add: lock_def unLock_def dequeue_def)
  then show ?thesis
    using assms by (cases m) (simp_all add: enqueue_def dequeue_def clear_queue_def lock_def unLock_def fetched_def)
qed

lemma well_bodies: "well 0 0 (concat (map body ms))"
  by (induction ms) (simp_all add: well_body)

definition enq_depth :: "system \<Rightarrow> thread \<Rightarrow> nat" where
  "enq_depth s t = depth t (enqueueLocker (shared s))"

definition deq_depth :: "system \<Rightarrow> thread \<Rightarrow> nat" where
  "deq_depth s t = depth t (dequeueLocker (shared s))"

definition system_ok :: "system \<Rightarrow> bool" where
  "system_ok s \<longleftrightarrow> lock_ok (enqueueLocker (shared s)) \<and> lock_ok (dequeueLocker (shared s)) \<and>
     (\<forall>t. (raised s t \<longrightarrow> rest s t = []) \<and>
       (\<not> raised s t \<longrightarrow> well (enq_depth s t) (deq_depth s t) (rest s t)))"

lemma start_ok: "system_ok (start ops ms)"
  by (simp add: system_ok_def start_def Queue_init_def lock_ok_def enq_depth_def deq_depth_def depth_def well_bodies)

text \<open>What one call does to the locks and to the depths of the thread that makes it.\<close>

lemma call_locks:
  assumes "lock_ok (enqueueLocker q)" "lock_ok (dequeueLocker q)"
    and "well (depth t (enqueueLocker q)) (depth t (dequeueLocker q)) (i # p)"
  shows "call t i (q, r) \<noteq> Breaks"
    and "call t i (q, r) = Did (q', r') \<Longrightarrow>
      lock_ok (enqueueLocker q') \<and> lock_ok (dequeueLocker q') \<and>
      well (depth t (enqueueLocker q')) (depth t (dequeueLocker q')) (after i q p) \<and>
      (\<forall>u. u \<noteq> t \<longrightarrow> depth u (enqueueLocker q') = depth u (enqueueLocker q) \<and>
        depth u (dequeueLocker q') = depth u (dequeueLocker q))"
    and "call t i (q, r) = Raises e (q', r') \<Longrightarrow> q' = q \<and> e = RangeException \<and>
      isEmpty q \<and> i \<in> {ObjectAtIndex0, RemoveObjectAtIndex0}"
proof -
  show "call t i (q, r) \<noteq> Breaks"
    using assms by (cases i) (auto simp: with_lock_def with_unlock_def elim: release_owned split: option.splits list.splits)
  show "call t i (q, r) = Raises e (q', r') \<Longrightarrow> q' = q \<and> e = RangeException \<and>
      isEmpty q \<and> i \<in> {ObjectAtIndex0, RemoveObjectAtIndex0}"
    by (cases i) (auto simp: with_lock_def with_unlock_def isEmpty_def split: option.splits list.splits)
  show "call t i (q, r) = Did (q', r') \<Longrightarrow>
      lock_ok (enqueueLocker q') \<and> lock_ok (dequeueLocker q') \<and>
      well (depth t (enqueueLocker q')) (depth t (dequeueLocker q')) (after i q p) \<and>
      (\<forall>u. u \<noteq> t \<longrightarrow> depth u (enqueueLocker q') = depth u (enqueueLocker q) \<and>
        depth u (dequeueLocker q') = depth u (dequeueLocker q))"
  proof (cases i)
    assume did: "call t i (q, r) = Did (q', r')"
    case LockEnq
    then obtain l where l: "acquire t (enqueueLocker q) = Some l" "q' = q\<lparr>enqueueLocker := l\<rparr>"
      using did by (auto simp: with_lock_def split: option.splits)
    show ?thesis
      using assms(2,3) acquire_step [OF l(1) assms(1)] by (auto simp: LockEnq after_def l(2))
  next
    assume did: "call t i (q, r) = Did (q', r')"
    case LockDeq
    then obtain l where l: "acquire t (dequeueLocker q) = Some l" "q' = q\<lparr>dequeueLocker := l\<rparr>"
      using did by (auto simp: with_lock_def split: option.splits)
    show ?thesis
      using assms(1,3) acquire_step [OF l(1) assms(2)] by (simp add: LockDeq after_def l(2))
  next
    assume did: "call t i (q, r) = Did (q', r')"
    case UnlockEnq
    then obtain l where l: "release t (enqueueLocker q) = Some l" "q' = q\<lparr>enqueueLocker := l\<rparr>"
      using did by (auto simp: with_unlock_def split: option.splits)
    show ?thesis
      using assms(2,3) release_step [OF l(1) assms(1)] by (simp add: UnlockEnq after_def l(2))
  next
    assume did: "call t i (q, r) = Did (q', r')"
    case UnlockDeq
    then obtain l where l: "release t (dequeueLocker q) = Some l" "q' = q\<lparr>dequeueLocker := l\<rparr>"
      using did by (auto simp: with_unlock_def split: option.splits)
    show ?thesis
      using assms(1,3) release_step [OF l(1) assms(2)] by (simp add: UnlockDeq after_def l(2))
  qed (use assms in \<open>auto simp: after_def unLock_def split: list.splits\<close>)
qed

lemma system_okD:
  assumes "system_ok s"
  shows "lock_ok (enqueueLocker (shared s))" "lock_ok (dequeueLocker (shared s))"
    and "rest s t \<noteq> [] \<Longrightarrow> well (enq_depth s t) (deq_depth s t) (rest s t)"
    and "\<not> raised s t \<Longrightarrow> well (enq_depth s t) (deq_depth s t) (rest s t)"
  using assms by (auto simp: system_ok_def split: if_splits)

lemma step_cases:
  assumes "system_ok s" "rest s t = i # p"
  obtains (did) q r where "call t i (shared s, local_op s t) = Did (q, r)"
      "step t s = Did (s\<lparr>shared := q, local_op := (local_op s)(t := r), rest := (rest s)(t := after i (shared s) p)\<rparr>)"
  | (waits) "call t i (shared s, local_op s t) = Waits" "step t s = Waits"
  | (raises) "isEmpty (shared s)" "i \<in> {ObjectAtIndex0, RemoveObjectAtIndex0}"
      "step t s = Raises RangeException (s\<lparr>rest := (rest s)(t := []), raised := (raised s)(t := True)\<rparr>)"
proof -
  have w: "well (depth t (enqueueLocker (shared s))) (depth t (dequeueLocker (shared s))) (i # p)"
    using system_okD(3) [OF assms(1), of t] assms(2) by (simp add: enq_depth_def deq_depth_def)
  note c = call_locks [OF system_okD(1,2) [OF assms(1)] w]
  show thesis
  proof (cases "call t i (shared s, local_op s t)")
    case (Did x)
    then show ?thesis using did assms(2) by (cases x) (simp add: step_def)
  next
    case Waits
    then show ?thesis using waits assms(2) by (simp add: step_def)
  next
    case (Raises e x)
    obtain q r where x: "x = (q, r)" by (cases x)
    have "q = shared s \<and> e = RangeException \<and> isEmpty (shared s) \<and> i \<in> {ObjectAtIndex0, RemoveObjectAtIndex0}"
      using c(3) [where r = "local_op s t" and r' = r and q' = q and e = e] Raises x by simp
    with Raises show ?thesis using raises assms(2) x by (simp add: step_def)
  next
    case Breaks
    then show ?thesis using c(1) by blast
  qed
qed

lemma step_ok:
  assumes "system_ok s" "moves s s'"
  shows "system_ok s'"
proof -
  obtain t where t: "step t s = Did s' \<or> (\<exists>e. step t s = Raises e s')"
    using assms(2) by (cases rule: moves.cases) blast+
  then obtain i p where i: "rest s t = i # p"
    by (cases "rest s t") (auto simp: step_def)
  have w: "well (depth t (enqueueLocker (shared s))) (depth t (dequeueLocker (shared s))) (i # p)"
    using system_okD(3) [OF assms(1), of t] i by (simp add: enq_depth_def deq_depth_def)
  note c = call_locks(2) [OF system_okD(1,2) [OF assms(1)] w]
  have "\<not> raised s t" using assms(1) i by (auto simp: system_ok_def split: if_splits dest: spec [of _ t])
  show ?thesis
  proof (cases rule: step_cases [OF assms(1) i, case_names did waits raises])
    case (did q r)
    then have "s' = s\<lparr>shared := q, local_op := (local_op s)(t := r), rest := (rest s)(t := after i (shared s) p)\<rparr>"
      using t by simp
    note s' = this and locks = c [OF did(1)]
    have "(raised s' u \<longrightarrow> rest s' u = []) \<and>
        (\<not> raised s' u \<longrightarrow> well (enq_depth s' u) (deq_depth s' u) (rest s' u))" for u
      using assms(1) locks \<open>\<not> raised s t\<close>
      by (cases "u = t") (auto simp: system_ok_def s' enq_depth_def deq_depth_def dest: spec [of _ u])
    moreover have "lock_ok (enqueueLocker (shared s'))" "lock_ok (dequeueLocker (shared s'))"
      using locks by (simp_all add: s')
    ultimately show ?thesis
      unfolding system_ok_def by blast
  next
    case raises
    then have "s' = s\<lparr>rest := (rest s)(t := []), raised := (raised s)(t := True)\<rparr>"
      using t by simp
    with assms(1) show ?thesis
      by (auto simp: system_ok_def enq_depth_def deq_depth_def)
  qed (use t in simp)
qed

lemma reachable_ok: "reachable s \<Longrightarrow> system_ok s"
  by (induction rule: reachable.induct) (auto simp: start_ok step_ok)

text \<open>A thread waits only for a lock that another thread holds.\<close>

lemma waits_for_owner:
  assumes "system_ok s" "rest s t = i # p" "step t s = Waits"
  obtains (enq) u where "i = LockEnq" "u \<noteq> t" "0 < enq_depth s u" "deq_depth s t = 0"
    | (deq) u where "i = LockDeq" "u \<noteq> t" "0 < deq_depth s u"
proof -
  have c: "call t i (shared s, local_op s t) = Waits"
    using assms(2,3) by (auto simp: step_def split: run.splits)
  have w: "well (enq_depth s t) (deq_depth s t) (i # p)"
    using system_okD(3) [OF assms(1), of t] assms(2) by simp
  show thesis
  proof (cases i)
    case LockEnq
    then have "\<not> may_lock t (enqueueLocker (shared s))"
      using c by (simp add: with_lock_def acquire_may_lock [symmetric] split: option.splits)
    then obtain u where "u \<noteq> t" "0 < enq_depth s u"
      using depth_owner system_okD(1) [OF assms(1)] unfolding enq_depth_def by blast
    with LockEnq w enq show ?thesis by simp
  next
    case LockDeq
    then have "\<not> may_lock t (dequeueLocker (shared s))"
      using c by (simp add: with_lock_def acquire_may_lock [symmetric] split: option.splits)
    then obtain u where "u \<noteq> t" "0 < deq_depth s u"
      using depth_owner system_okD(2) [OF assms(1)] unfolding deq_depth_def by blast
    with LockDeq deq show ?thesis by simp
  qed (use c in \<open>auto simp: with_unlock_def split: option.splits list.splits\<close>)
qed

text \<open>The owner of the second lock never waits.\<close>

lemma deq_owner_steps:
  assumes "system_ok s" "0 < deq_depth s u" "\<not> raised s u"
  shows "rest s u \<noteq> [] \<and> step u s \<noteq> Waits"
proof -
  have w: "well (enq_depth s u) (deq_depth s u) (rest s u)"
    using assms(1,3) by (auto simp: system_ok_def split: if_splits dest: spec [of _ u])
  then obtain i p where i: "rest s u = i # p"
    using assms(2) by (cases "rest s u") auto
  have "step u s \<noteq> Waits"
  proof
    assume "step u s = Waits"
    from waits_for_owner [OF assms(1) i this] show False
      by cases (use assms(2) depth_unique in \<open>auto simp: deq_depth_def\<close>)
  qed
  with i show ?thesis by simp
qed

text \<open>Running the threads in a given order.\<close>

fun schedule :: "thread list \<Rightarrow> system \<Rightarrow> system option" where
  "schedule [] s = Some s"
| "schedule (t # ts) s =
     (case step t s of Did s' \<Rightarrow> schedule ts s' | Raises e s' \<Rightarrow> schedule ts s' | _ \<Rightarrow> None)"

lemma schedule_reachable: "reachable s \<Longrightarrow> schedule ts s = Some s' \<Longrightarrow> reachable s'"
  by (induction ts s rule: schedule.induct)
    (auto split: run.splits intro: reachable.moves moves.did moves.raises)

lemmas run_system = start_def Queue_init_def step_def with_lock_def with_unlock_def acquire_def release_def
  enqueue_def dequeue_def clear_queue_def lock_def unLock_def fetched_def after_def isEmpty_def

section \<open>Serial numbers\<close>

text \<open>The queued operations have increasing serial numbers up to the latest one.\<close>

definition in_order :: "op_queue \<Rightarrow> bool" where
  "in_order q \<longleftrightarrow> sorted_wrt (\<lambda>a b. sint (serialNumber a) < sint (serialNumber b)) (operations q) \<and>
     (\<forall>op \<in> set (operations q). sint (serialNumber op) \<le> sint (latestSerialNumber q))"

text \<open>A server that answers with newer operations, oldest first.\<close>

definition answers_newer :: "(nsstring \<Rightarrow> int32 \<Rightarrow> owb_operation_list outcome) \<Rightarrow> bool" where
  "answers_newer srv \<longleftrightarrow> (\<forall>m n l. srv m n = Returns l \<longrightarrow>
     sorted_wrt (\<lambda>a b. sint (serialNumber a) < sint (serialNumber b)) (operationList l) \<and>
     (\<forall>op \<in> set (operationList l). sint n < sint (serialNumber op)))"

lemma sorted_last: "sorted_wrt (\<lambda>a b. f a < (f b :: int)) xs \<Longrightarrow> x \<in> set xs \<Longrightarrow> f x \<le> f (last xs)"
  by (induction xs) (auto simp: less_imp_le)

lemma sorted_distinct:
  "sorted_wrt (\<lambda>a b. sint (serialNumber a) < sint (serialNumber b)) ops \<Longrightarrow> distinct (map serialNumber ops)"
  by (induction ops) auto

section \<open>Properties\<close>

text \<open>
  C5: the queue is first in, first out. From any queue whose locks the thread may take,
  enqueueing a list and then draining hands out the old content followed by the new
  operations in order, leaves the queue empty, and the last serial number is remembered.
\<close>

theorem queue_is_fifo:
  assumes "usable t q" "length (operations q) + length ops < n"
  shows "\<exists>q1 q2. owb_fifo.put_list t ops q = Did q1 \<and>
    latestSerialNumber q1 = (if ops = [] then latestSerialNumber q else serialNumber (last ops)) \<and>
    owb_fifo.drain t n (\<lambda>op l. Returns (l @ [op])) q1 [] = Returns (operations q @ ops, q2) \<and>
    operations q2 = []"
proof -
  have latest: "latestSerialNumber q1 = (if ops = [] then latestSerialNumber q else serialNumber (last ops))"
    if "owb_fifo.put_list t ops q = Did q1" "usable t q" for q1 ops q
    using that
    by (induction ops arbitrary: q) (auto simp: enqueue_by_usable split: if_splits)
  have collect: "owb_fifo.handle_list (\<lambda>op l. Returns (l @ [op])) xs l = Returns (l @ xs)" for xs l :: "owb_operation list"
    by (induction xs arbitrary: l) simp_all
  obtain q1 where q1: "owb_fifo.put_list t ops q = Did q1" "usable t q1" "operations q1 = operations q @ ops"
    using owb_fifo.put_list_ends [OF assms(1)] by blast
  have "length (operations q1) < n" using assms(2) q1(3) by simp
  from owb_fifo.drain_Returns [OF q1(2) this collect [of _ "[]"]] show ?thesis
    using q1 latest [OF q1(1) assms(1)] by auto
qed

theorem queue_is_fifo_witness:
  "\<exists>q1 q2. owb_fifo.put_list 7 [DrawLine_init, Erase_init] Queue_init = Did q1 \<and>
    owb_fifo.drain 7 3 (\<lambda>op l. Returns (l @ [op])) q1 [] = Returns ([DrawLine_init, Erase_init], q2)"
  using queue_is_fifo [of 7 Queue_init "[DrawLine_init, Erase_init]" 3]
  by (auto simp: Queue_init_def usable_def may_lock_def lock_ok_def)

text \<open>
  C37: dequeueing from an empty queue raises the range exception and leaves the dequeue
  lock held by the caller: from then on every other thread that dequeues or clears waits.
\<close>

theorem dequeue_empty_keeps_lock:
  assumes "usable t q" "isEmpty q"
  shows "\<exists>r q'. dequeue_by t q = Raises RangeException (r, q') \<and> isEmpty q' \<and>
    depth t (dequeueLocker q') = Suc (depth t (dequeueLocker q)) \<and>
    (\<forall>u. u \<noteq> t \<longrightarrow> dequeue_by u q' = Waits \<and> clear_by u q' = Waits)"
proof -
  obtain d where d: "acquire t (dequeueLocker q) = Some d"
    using assms(1) by (rule usableE)
  have "lock_ok (dequeueLocker q)" using assms(1) by (simp add: usable_def)
  note s = acquire_step [OF d this]
  have "acquire u d = None" if "u \<noteq> t" for u
    using depth_may_lock [of t d] s(2) that by (auto simp: acquire_may_lock may_lock_def depth_def split: option.splits)
  then show ?thesis
    using assms(2) d s(2)
    by (auto simp: dequeue_by_def dequeue_def clear_by_def clear_queue_def lock_def with_lock_def isEmpty_def
        split: option.splits)
qed

theorem dequeue_empty_keeps_lock_witness:
  "\<exists>r q'. dequeue_by 1 Queue_init = Raises RangeException (r, q') \<and> dequeue_by 2 q' = Waits"
proof -
  have "\<exists>r q'. dequeue_by 1 Queue_init = Raises RangeException (r, q') \<and>
      (\<forall>u. u \<noteq> 1 \<longrightarrow> dequeue_by u q' = Waits \<and> clear_by u q' = Waits)"
    using dequeue_empty_keeps_lock [of 1 Queue_init] by (simp add: isEmpty_def Queue_init_def usable_def may_lock_def lock_ok_def) blast
  then show ?thesis by auto
qed






text \<open>
  C18: no deadlock. While no call has raised, threads that use the queue through its methods
  never all wait for each other: if some thread has something left to do, some thread can
  make its next call; and no thread ever unlocks a lock it does not hold.
\<close>

theorem queue_deadlock_free:
  assumes "reachable s" "\<forall>t. \<not> raised s t" "rest s t \<noteq> []"
  shows "(\<exists>s'. moves s s') \<and> (\<forall>u. step u s \<noteq> Breaks)"
proof -
  note ok = reachable_ok [OF assms(1)]
  have no_break: "step u s \<noteq> Breaks" for u
  proof (cases "rest s u")
    case (Cons i p)
    show ?thesis by (cases rule: step_cases [OF ok Cons]) simp_all
  qed (simp add: step_def)
  have go: "\<exists>s'. moves s s'" if "step u s \<noteq> Waits" for u
    using that no_break [of u] by (cases "step u s") (auto intro: moves.intros)
  have deq: "\<exists>s'. moves s s'" if "0 < deq_depth s u" for u
    using deq_owner_steps [OF ok that] assms(2) go by blast
  have "\<exists>s'. moves s s'"
  proof (cases "step t s = Waits")
    case True
    obtain i p where i: "rest s t = i # p" using assms(3) by (cases "rest s t") auto
    show ?thesis
    proof (cases rule: waits_for_owner [OF ok i True])
      case (1 u)
      then have "rest s u \<noteq> []"
        using system_okD(4) [OF ok, of u] assms(2) by auto
      then obtain j p' where j: "rest s u = j # p'" by (cases "rest s u") auto
      show ?thesis
      proof (cases "step u s = Waits")
        case True
        show ?thesis
          by (cases rule: waits_for_owner [OF ok j True])
            (use 1 deq depth_unique in \<open>auto simp: enq_depth_def\<close>)
      qed (rule go)
    qed (rule deq)
  qed (rule go)
  with no_break show ?thesis by simp
qed

theorem queue_deadlock_free_witness:
  "\<exists>s'. moves (start [Erase_init] (\<lambda>t. if t = 0 then [Clear] else [ReadTurns 2, Enqueue DrawLine_init])) s'"
  using queue_deadlock_free [OF reachable.start [of "[Erase_init]" "\<lambda>t. if t = 0 then [Clear] else [ReadTurns 2, Enqueue DrawLine_init]"], of 0]
  by (simp add: start_def clear_queue_def lock_def)


text \<open>
  The array itself is not protected as a whole. Enqueueing and dequeueing take different
  locks, so one thread can be about to append while another is about to read the first
  element, and \<^verbatim>\<open>getServerData\<close>, which takes none, appends while another thread holds both.
\<close>

theorem enqueue_overlaps_dequeue:
  "(\<exists>s p p'. reachable s \<and> rest s 0 = AddObject op # p \<and> rest s 1 = ObjectAtIndex0 # p') \<and>
   (\<exists>s s'. reachable s \<and> 0 < enq_depth s 0 \<and> 0 < deq_depth s 0 \<and> step 1 s = Did s' \<and>
     operations (shared s') = operations (shared s) @ [op])"
proof (rule conjI)
  let ?s = "start [op] (\<lambda>t. if t = 0 then [Enqueue op] else if t = 1 then [Dequeue] else [])"
  obtain s p p' where s: "schedule [0, 1] ?s = Some s" and r: "rest s 0 = AddObject op # p" "rest s 1 = ObjectAtIndex0 # p'"
    by (simp add: run_system)
  have "reachable s" by (rule schedule_reachable [OF reachable.start s])
  with r show "\<exists>s p p'. reachable s \<and> rest s 0 = AddObject op # p \<and> rest s 1 = ObjectAtIndex0 # p'"
    by blast
next
  let ?s = "start [op] (\<lambda>t. if t = 0 then [Clear] else if t = 1 then [Fetched [op]] else [])"
  obtain s where s: "schedule [0, 0] ?s = Some s"
    and r: "0 < enq_depth s 0" "0 < deq_depth s 0"
      "\<exists>s'. step 1 s = Did s' \<and> operations (shared s') = operations (shared s) @ [op]"
    by (simp add: run_system enq_depth_def deq_depth_def depth_def)
  have "reachable s" by (rule schedule_reachable [OF reachable.start s])
  with r show "\<exists>s s'. reachable s \<and> 0 < enq_depth s 0 \<and> 0 < deq_depth s 0 \<and> step 1 s = Did s' \<and>
     operations (shared s') = operations (shared s) @ [op]"
    by blast
qed

end
