(* ===== verification/Drawer.thy ===== *)
theory Drawer
  imports Operation_Queue
begin

text \<open>
  \<^verbatim>\<open>Tools/ColorMaker.mm\<close> and \<^verbatim>\<open>Tools/Drawer.mm\<close>: the colour table, the five drawers and the
  resources that the two free-hand drawers keep per registered canvas. A canvas is the list
  of the Core Graphics calls made on it.
\<close>

section \<open>Colours\<close>

type_synonym cgcolor = "float32 list"
type_synonym color_table = "cgcolor list"

definition f_zero :: float32 where
  "f_zero = 0x00000000"

definition f_one :: float32 where
  "f_one = 0x3F800000"

definition color_table_init :: color_table where
  "color_table_init =
     [[f_zero, f_zero, f_zero, f_one],
      [f_one, f_zero, f_zero, f_one],
      [f_zero, f_zero, f_one, f_one],
      [f_one, f_one, f_zero, f_one],
      [f_zero, f_one, f_zero, f_one],
      [f_one, f_one, f_one, f_one]]"

definition COLOR_NUM :: nat where
  "COLOR_NUM = 6"

text \<open>The alpha is written into the table before the colour is made from its row.\<close>

definition CGColorMake :: "int32 \<Rightarrow> float32 \<Rightarrow> color_table \<Rightarrow> (cgcolor \<times> color_table) outcome" where
  "CGColorMake color_id alpha table =
     (let i = sint color_id
      in if 0 \<le> i \<and> i < int (length table)
         then let row = (table ! nat i)[3 := alpha] in Returns (row, table[nat i := row])
         else Undefined)"

definition ERASER_COLOR :: nat where
  "ERASER_COLOR = 5"

definition CGEraserColor :: "color_table \<Rightarrow> cgcolor" where
  "CGEraserColor table = table ! ERASER_COLOR"

section \<open>Core Graphics calls\<close>

record cgrect =
  rx :: float32
  ry :: float32
  rwidth :: float32
  rheight :: float32

definition CGRectMake :: "float32 \<Rightarrow> float32 \<Rightarrow> float32 \<Rightarrow> float32 \<Rightarrow> cgrect" where
  "CGRectMake x y w h = \<lparr>rx = x, ry = y, rwidth = w, rheight = h\<rparr>"

datatype cg_call =
    SetStrokeColor cgcolor | SetFillColor cgcolor | SetLineCapRound | SetLineWidth float32 | SetAlpha float32
  | BeginPath | ClosePath | MoveToPoint cgpoint | AddLineToPoint cgpoint | AddQuadCurveToPoint cgpoint cgpoint
  | StrokePath | FillEllipseInRect cgrect | StrokeEllipseInRect cgrect | FillRect cgrect | StrokeRect cgrect
  | DrawImage cgrect bytes | Flush

type_synonym canvas = "cg_call list"

section \<open>Resources of the free-hand drawers\<close>

text \<open>The 1-based position of the lowest set bit, \<open>-1\<close> for zero.\<close>

function first1_loop :: "int32 \<Rightarrow> nat \<Rightarrow> int" where
  "first1_loop num i =
     (if i \<le> 32
      then if signed_drop_bit (i - 1) num AND 1 \<noteq> 0 then int i else first1_loop num (i + 1)
      else - 1)"
  by pat_completeness auto
termination by (relation "measure (\<lambda>(num, i). 33 - i)") auto

declare first1_loop.simps [simp del]

definition findTheFirst1InNum :: "int32 \<Rightarrow> int" where
  "findTheFirst1InNum num = first1_loop num 1"

text \<open>
  The arrays are allocated without initialisers, so a slot holds no value until it is
  written. The lock of a resource is taken and released inside each of its methods.
\<close>

record resource =
  startPoints :: "cgpoint option list"
  points1 :: "cgpoint option list"
  points2 :: "cgpoint option list"
  using_mask :: int32
  register_time :: int32

definition MAX_RESOURCE_NUM :: nat where
  "MAX_RESOURCE_NUM = 32"

text \<open>Reading and writing an array at an index that the caller gives.\<close>

definition read_slot :: "cgpoint option list \<Rightarrow> int \<Rightarrow> cgpoint outcome" where
  "read_slot a rid = (if 0 \<le> rid \<and> rid < int (length a) then from_option (a ! nat rid) else Undefined)"

definition write_slot :: "cgpoint option list \<Rightarrow> int \<Rightarrow> cgpoint \<Rightarrow> cgpoint option list outcome" where
  "write_slot a rid p = (if 0 \<le> rid \<and> rid < int (length a) then Returns (a[nat rid := Some p]) else Undefined)"

definition midPoint :: "cgpoint \<Rightarrow> cgpoint \<Rightarrow> cgpoint" where
  "midPoint a b = CGPointMake (f_div2 (f_add (px a) (px b))) (f_div2 (f_add (py a) (py b)))"

subsection \<open>\<^verbatim>\<open>PointResource\<close>\<close>

definition PointResource_init :: resource where
  "PointResource_init =
     \<lparr>startPoints = replicate MAX_RESOURCE_NUM None, points1 = replicate MAX_RESOURCE_NUM None,
      points2 = replicate MAX_RESOURCE_NUM None, using_mask = 0xFF, register_time = 0\<rparr>"

definition PointResource_registerResource :: "resource \<Rightarrow> (int \<times> resource) outcome" where
  "PointResource_registerResource self =
     (let rid = findTheFirst1InNum (using_mask self);
          self = self\<lparr>register_time := register_time self + 1\<rparr>
      in if rid \<noteq> - 1
         then if rid < 24
           then Returns (rid, self\<lparr>using_mask := using_mask self AND push_bit (nat rid) 0xFF\<rparr>)
           else Undefined
         else Returns (rid, self))"

definition PointResource_checkRid :: "int \<Rightarrow> resource \<Rightarrow> bool outcome" where
  "PointResource_checkRid rid self =
     (if rid = - 1 then Returns False
      else if 1 \<le> rid \<and> rid \<le> 32
        then Returns (using_mask self AND push_bit (nat (rid - 1)) 1 = 0)
      else Undefined)"

definition PointResource_unRegisterResouce :: "int \<Rightarrow> resource \<Rightarrow> (bool \<times> resource) outcome" where
  "PointResource_unRegisterResouce rid self =
     andThen (PointResource_checkRid rid self) (\<lambda>registered.
       if \<not> registered then Returns (False, self)
       else Returns (True, self\<lparr>using_mask := using_mask self AND (0xFF XOR push_bit (nat (rid - 1)) 1)\<rparr>))"

definition PointResource_startPoint :: "int \<Rightarrow> resource \<Rightarrow> cgpoint outcome" where
  "PointResource_startPoint rid self = read_slot (startPoints self) rid"

definition PointResource_setStartPoint :: "cgpoint \<Rightarrow> int \<Rightarrow> resource \<Rightarrow> resource outcome" where
  "PointResource_setStartPoint p rid self =
     andThen (write_slot (startPoints self) rid p) (\<lambda>a. Returns (self\<lparr>startPoints := a\<rparr>))"

definition PointResource_point1 :: "int \<Rightarrow> resource \<Rightarrow> cgpoint outcome" where
  "PointResource_point1 rid self = read_slot (points1 self) rid"

definition PointResource_setPoint1 :: "cgpoint \<Rightarrow> int \<Rightarrow> resource \<Rightarrow> resource outcome" where
  "PointResource_setPoint1 p rid self =
     andThen (write_slot (points1 self) rid p) (\<lambda>a. Returns (self\<lparr>points1 := a\<rparr>))"

definition PointResource_point2 :: "int \<Rightarrow> resource \<Rightarrow> cgpoint outcome" where
  "PointResource_point2 rid self = read_slot (points2 self) rid"

definition PointResource_setPoint2 :: "cgpoint \<Rightarrow> int \<Rightarrow> resource \<Rightarrow> resource outcome" where
  "PointResource_setPoint2 p rid self =
     andThen (write_slot (points2 self) rid p) (\<lambda>a. Returns (self\<lparr>points2 := a\<rparr>))"

subsection \<open>\<^verbatim>\<open>EraserResource\<close>\<close>

definition EraserResource_init :: resource where
  "EraserResource_init =
     \<lparr>startPoints = replicate MAX_RESOURCE_NUM None, points1 = replicate MAX_RESOURCE_NUM None,
      points2 = replicate MAX_RESOURCE_NUM None, using_mask = 0xFF, register_time = 0\<rparr>"

definition EraserResource_registerResource :: "resource \<Rightarrow> (int \<times> resource) outcome" where
  "EraserResource_registerResource self =
     (let rid = findTheFirst1InNum (using_mask self);
          self = self\<lparr>register_time := register_time self + 1\<rparr>
      in if rid \<noteq> - 1
         then if rid < 24
           then Returns (rid, self\<lparr>using_mask := using_mask self AND push_bit (nat rid) 0xFF\<rparr>)
           else Undefined
         else Returns (rid, self))"

definition EraserResource_checkRid :: "int \<Rightarrow> resource \<Rightarrow> bool outcome" where
  "EraserResource_checkRid rid self =
     (if rid = - 1 then Returns False
      else if 1 \<le> rid \<and> rid \<le> 32
        then Returns (using_mask self AND push_bit (nat (rid - 1)) 1 = 0)
      else Undefined)"

definition EraserResource_unRegisterResouce :: "int \<Rightarrow> resource \<Rightarrow> (bool \<times> resource) outcome" where
  "EraserResource_unRegisterResouce rid self =
     andThen (EraserResource_checkRid rid self) (\<lambda>registered.
       if \<not> registered then Returns (False, self)
       else Returns (True, self\<lparr>using_mask := using_mask self AND (0xFF XOR push_bit (nat (rid - 1)) 1)\<rparr>))"

definition EraserResource_startPoint :: "int \<Rightarrow> resource \<Rightarrow> cgpoint outcome" where
  "EraserResource_startPoint rid self = read_slot (startPoints self) rid"

definition EraserResource_setStartPoint :: "cgpoint \<Rightarrow> int \<Rightarrow> resource \<Rightarrow> resource outcome" where
  "EraserResource_setStartPoint p rid self =
     andThen (write_slot (startPoints self) rid p) (\<lambda>a. Returns (self\<lparr>startPoints := a\<rparr>))"

definition EraserResource_point1 :: "int \<Rightarrow> resource \<Rightarrow> cgpoint outcome" where
  "EraserResource_point1 rid self = read_slot (points1 self) rid"

definition EraserResource_setPoint1 :: "cgpoint \<Rightarrow> int \<Rightarrow> resource \<Rightarrow> resource outcome" where
  "EraserResource_setPoint1 p rid self =
     andThen (write_slot (points1 self) rid p) (\<lambda>a. Returns (self\<lparr>points1 := a\<rparr>))"

definition EraserResource_point2 :: "int \<Rightarrow> resource \<Rightarrow> cgpoint outcome" where
  "EraserResource_point2 rid self = read_slot (points2 self) rid"

definition EraserResource_setPoint2 :: "cgpoint \<Rightarrow> int \<Rightarrow> resource \<Rightarrow> resource outcome" where
  "EraserResource_setPoint2 p rid self =
     andThen (write_slot (points2 self) rid p) (\<lambda>a. Returns (self\<lparr>points2 := a\<rparr>))"

section \<open>The drawers\<close>

text \<open>
  What the drawers share: the colour table and the resources of the two singletons, which
  exist from the first use of their class on and start as their \<^verbatim>\<open>init\<close> leaves them.
\<close>

record drawers =
  colors :: color_table
  point_resource :: resource
  eraser_resource :: resource

definition drawers_init :: drawers where
  "drawers_init = \<lparr>colors = color_table_init, point_resource = PointResource_init,
     eraser_resource = EraserResource_init\<rparr>"

definition DRAWER_CHECK_TYPE :: "int32 \<Rightarrow> owb_operation \<Rightarrow> 'a outcome \<Rightarrow> 'a outcome" where
  "DRAWER_CHECK_TYPE t operation k = (if operationType operation \<noteq> t then Throws WrongType else k)"

text \<open>
  After the check the object is cast to its subclass and sent that class's messages. An
  object of a class that does not have them is outside the model.
\<close>

definition cast_to :: "op_class list \<Rightarrow> owb_operation \<Rightarrow> 'a outcome \<Rightarrow> 'a outcome" where
  "cast_to cs operation k = (if op_class operation \<in> set cs then k else Undefined)"

definition line_width :: "owb_operation \<Rightarrow> float32" where
  "line_width operation = f_of_int (sint (thinkness operation))"

definition LineDrawer_draw :: "owb_operation \<Rightarrow> canvas \<Rightarrow> int option \<Rightarrow> drawers \<Rightarrow> (canvas \<times> drawers) outcome" where
  "LineDrawer_draw operation canvas rid st =
     DRAWER_CHECK_TYPE OwbOperationDataType_LINE operation (cast_to [Cls_DrawLine] operation (
       andThen (CGColorMake (DrawLine_color operation) (DrawLine_alpha operation) (colors st)) (\<lambda>(color, table).
         Returns (canvas @
           [SetStrokeColor color, SetLineCapRound, SetLineWidth (line_width operation),
            SetAlpha (DrawLine_alpha operation),
            MoveToPoint (DrawLine_startPoint operation), AddLineToPoint (DrawLine_endPoint operation), StrokePath],
           st\<lparr>colors := table\<rparr>))))"

definition EllipseDrawer_draw :: "owb_operation \<Rightarrow> canvas \<Rightarrow> int option \<Rightarrow> drawers \<Rightarrow> (canvas \<times> drawers) outcome" where
  "EllipseDrawer_draw operation canvas rid st =
     DRAWER_CHECK_TYPE OwbOperationDataType_ELLIPSE operation (cast_to [Cls_DrawEllipse] operation (
       let center = DrawEllipse_center operation; a = DrawEllipse_a operation; b = DrawEllipse_b operation;
           rect = CGRectMake (f_sub (px center) a) (f_sub (py center) b)
             (f_mul a (f_of_int 2)) (f_mul b (f_of_int 2))
       in andThen (CGColorMake (DrawEllipse_color operation) (DrawEllipse_alpha operation) (colors st)) (\<lambda>(color, table).
         Returns (canvas @ SetAlpha (DrawEllipse_alpha operation) #
           (if DrawEllipse_fill operation then [SetFillColor color, FillEllipseInRect rect]
            else [SetStrokeColor color, SetLineWidth (line_width operation), StrokeEllipseInRect rect]),
           st\<lparr>colors := table\<rparr>))))"

definition RectangeDrawer_draw :: "owb_operation \<Rightarrow> canvas \<Rightarrow> int option \<Rightarrow> drawers \<Rightarrow> (canvas \<times> drawers) outcome" where
  "RectangeDrawer_draw operation canvas rid st =
     DRAWER_CHECK_TYPE OwbOperationDataType_RECTANGE operation (cast_to [Cls_DrawRectange] operation (
       let br = DrawRectange_bottomRightCorner operation; tl = DrawRectange_topLeftCorner operation;
           rect = CGRectMake (px br) (py br) (f_sub (px tl) (px br)) (f_sub (py tl) (py br))
       in andThen (CGColorMake (DrawRectange_color operation) (DrawRectange_alpha operation) (colors st)) (\<lambda>(color, table).
         Returns (canvas @ SetAlpha (DrawRectange_alpha operation) #
           (if DrawRectange_fill operation then [SetFillColor color, FillRect rect]
            else [SetStrokeColor color, SetLineWidth (line_width operation), StrokeRect rect]),
           st\<lparr>colors := table\<rparr>))))"

text \<open>
  The free-hand drawers are called with the resource id of the canvas; an id that was never
  stored is no value. A stroke begins by setting the three points of the id.
\<close>

definition PointDrawer_begin :: "owb_operation \<Rightarrow> int \<Rightarrow> resource \<Rightarrow> resource outcome" where
  "PointDrawer_begin operation rid r =
     (if DrawPoint_isStart operation
      then andThen (PointResource_setPoint1 (DrawPoint_position operation) rid r) (\<lambda>r.
           andThen (PointResource_setPoint2 (DrawPoint_position operation) rid r) (\<lambda>r.
           PointResource_setStartPoint (DrawPoint_position operation) rid r))
      else Returns r)"

definition PointDrawer_advance :: "owb_operation \<Rightarrow> int \<Rightarrow> resource \<Rightarrow> resource outcome" where
  "PointDrawer_advance operation rid r =
     andThen (PointResource_point2 rid r) (\<lambda>p2.
     andThen (PointResource_setPoint1 p2 rid r) (\<lambda>r.
     andThen (PointResource_setPoint2 (DrawPoint_position operation) rid r) (\<lambda>r.
     andThen (PointResource_point1 rid r) (\<lambda>p1.
     andThen (PointResource_point2 rid r) (\<lambda>p2.
       PointResource_setStartPoint (midPoint p1 p2) rid r)))))"

definition PointDrawer_draw :: "owb_operation \<Rightarrow> canvas \<Rightarrow> int option \<Rightarrow> drawers \<Rightarrow> (canvas \<times> drawers) outcome" where
  "PointDrawer_draw operation canvas rid st =
     DRAWER_CHECK_TYPE OwbOperationDataType_POINT operation (
       andThen (from_option rid) (\<lambda>rid.
       andThen (PointResource_checkRid rid (point_resource st)) (\<lambda>registered.
       if \<not> registered then Throws RidUnavailable
       else cast_to [Cls_DrawPoint] operation (
         andThen (PointDrawer_begin operation rid (point_resource st)) (\<lambda>r.
         andThen (CGColorMake (DrawPoint_color operation) (DrawPoint_alpha operation) (colors st)) (\<lambda>(color, table).
         andThen (PointResource_startPoint rid r) (\<lambda>start.
         andThen (PointResource_point2 rid r) (\<lambda>p2.
         andThen (PointDrawer_advance operation rid r) (\<lambda>r.
           Returns (canvas @
             [SetStrokeColor color, SetLineCapRound, SetLineWidth (line_width operation),
              SetAlpha (DrawPoint_alpha operation), MoveToPoint start,
              AddQuadCurveToPoint p2 (midPoint p2 (DrawPoint_position operation)), StrokePath],
             st\<lparr>colors := table, point_resource := r\<rparr>))))))))))"

definition PointDrawer_registerDataSource :: "drawers \<Rightarrow> (int \<times> drawers) outcome" where
  "PointDrawer_registerDataSource st =
     andThen (PointResource_registerResource (point_resource st)) (\<lambda>(rid, r). Returns (rid, st\<lparr>point_resource := r\<rparr>))"

definition PointDrawer_unregisterDataSource :: "int \<Rightarrow> drawers \<Rightarrow> (bool \<times> drawers) outcome" where
  "PointDrawer_unregisterDataSource rid st =
     andThen (PointResource_unRegisterResouce rid (point_resource st)) (\<lambda>(b, r). Returns (b, st\<lparr>point_resource := r\<rparr>))"

definition Eraser_begin :: "owb_operation \<Rightarrow> int \<Rightarrow> resource \<Rightarrow> resource outcome" where
  "Eraser_begin operation rid r =
     (if Erase_isStart operation
      then andThen (EraserResource_setPoint1 (Erase_position operation) rid r) (\<lambda>r.
           andThen (EraserResource_setPoint2 (Erase_position operation) rid r) (\<lambda>r.
           EraserResource_setStartPoint (Erase_position operation) rid r))
      else Returns r)"

definition Eraser_advance :: "owb_operation \<Rightarrow> int \<Rightarrow> resource \<Rightarrow> resource outcome" where
  "Eraser_advance operation rid r =
     andThen (EraserResource_point2 rid r) (\<lambda>p2.
     andThen (EraserResource_setPoint1 p2 rid r) (\<lambda>r.
     andThen (EraserResource_setPoint2 (Erase_position operation) rid r) (\<lambda>r.
     andThen (EraserResource_point1 rid r) (\<lambda>p1.
     andThen (EraserResource_point2 rid r) (\<lambda>p2.
       EraserResource_setStartPoint (midPoint p1 p2) rid r)))))"

definition Eraser_draw :: "owb_operation \<Rightarrow> canvas \<Rightarrow> int option \<Rightarrow> drawers \<Rightarrow> (canvas \<times> drawers) outcome" where
  "Eraser_draw operation canvas rid st =
     DRAWER_CHECK_TYPE OwbOperationDataType_ERASER operation (
       andThen (from_option rid) (\<lambda>rid.
       andThen (EraserResource_checkRid rid (eraser_resource st)) (\<lambda>registered.
       if \<not> registered then Throws RidUnavailable
       else cast_to [Cls_Erase, Cls_DrawPoint] operation (
         andThen (Eraser_begin operation rid (eraser_resource st)) (\<lambda>r.
         andThen (EraserResource_point2 rid r) (\<lambda>p2.
         andThen (Eraser_advance operation rid r) (\<lambda>r.
           Returns (canvas @
             [SetStrokeColor (CGEraserColor (colors st)), SetLineCapRound, SetLineWidth (line_width operation),
              MoveToPoint p2, AddLineToPoint (Erase_position operation), StrokePath],
             st\<lparr>eraser_resource := r\<rparr>))))))))"

definition Eraser_registerDataSource :: "drawers \<Rightarrow> (int \<times> drawers) outcome" where
  "Eraser_registerDataSource st =
     andThen (EraserResource_registerResource (eraser_resource st)) (\<lambda>(rid, r). Returns (rid, st\<lparr>eraser_resource := r\<rparr>))"

definition Eraser_unregisterDataSource :: "int \<Rightarrow> drawers \<Rightarrow> (bool \<times> drawers) outcome" where
  "Eraser_unregisterDataSource rid st =
     andThen (EraserResource_unRegisterResouce rid (eraser_resource st)) (\<lambda>(b, r). Returns (b, st\<lparr>eraser_resource := r\<rparr>))"

fun draw :: "drawer \<Rightarrow> owb_operation \<Rightarrow> canvas \<Rightarrow> int option \<Rightarrow> drawers \<Rightarrow> (canvas \<times> drawers) outcome" where
  "draw LineDrawer = LineDrawer_draw"
| "draw EllipseDrawer = EllipseDrawer_draw"
| "draw RectangeDrawer = RectangeDrawer_draw"
| "draw PointDrawer = PointDrawer_draw"
| "draw Eraser = Eraser_draw"

subsection \<open>Slicing\<close>

definition slice_checked :: "int32 \<Rightarrow> owb_operation \<Rightarrow> thread \<Rightarrow> op_queue \<Rightarrow> op_queue run" where
  "slice_checked t operation th queue =
     (if operationType operation \<noteq> t then Raises WrongType queue else enqueue_by th operation queue)"

definition LineDrawer_sliceOpertion :: "owb_operation \<Rightarrow> thread \<Rightarrow> op_queue \<Rightarrow> op_queue run" where
  "LineDrawer_sliceOpertion = slice_checked OwbOperationDataType_LINE"

definition EllipseDrawer_sliceOpertion :: "owb_operation \<Rightarrow> thread \<Rightarrow> op_queue \<Rightarrow> op_queue run" where
  "EllipseDrawer_sliceOpertion = slice_checked OwbOperationDataType_ELLIPSE"

definition RectangeDrawer_sliceOpertion :: "owb_operation \<Rightarrow> thread \<Rightarrow> op_queue \<Rightarrow> op_queue run" where
  "RectangeDrawer_sliceOpertion = slice_checked OwbOperationDataType_RECTANGE"

definition PointDrawer_sliceOpertion :: "owb_operation \<Rightarrow> thread \<Rightarrow> op_queue \<Rightarrow> op_queue run" where
  "PointDrawer_sliceOpertion = slice_checked OwbOperationDataType_POINT"

definition Eraser_sliceOpertion :: "owb_operation \<Rightarrow> thread \<Rightarrow> op_queue \<Rightarrow> op_queue run" where
  "Eraser_sliceOpertion = slice_checked OwbOperationDataType_ERASER"

fun sliceOpertion :: "drawer \<Rightarrow> owb_operation \<Rightarrow> thread \<Rightarrow> op_queue \<Rightarrow> op_queue run" where
  "sliceOpertion LineDrawer = LineDrawer_sliceOpertion"
| "sliceOpertion EllipseDrawer = EllipseDrawer_sliceOpertion"
| "sliceOpertion RectangeDrawer = RectangeDrawer_sliceOpertion"
| "sliceOpertion PointDrawer = PointDrawer_sliceOpertion"
| "sliceOpertion Eraser = Eraser_sliceOpertion"

section \<open>Resources\<close>

text \<open>The two resource classes are the same code.\<close>

lemma EraserResource_eq [simp]:
  "EraserResource_init = PointResource_init"
  "EraserResource_registerResource = PointResource_registerResource"
  "EraserResource_checkRid = PointResource_checkRid"
  "EraserResource_unRegisterResouce = PointResource_unRegisterResouce"
  "EraserResource_startPoint = PointResource_startPoint" "EraserResource_setStartPoint = PointResource_setStartPoint"
  "EraserResource_point1 = PointResource_point1" "EraserResource_setPoint1 = PointResource_setPoint1"
  "EraserResource_point2 = PointResource_point2" "EraserResource_setPoint2 = PointResource_setPoint2"
  by (simp_all add: fun_eq_iff EraserResource_init_def PointResource_init_def
      EraserResource_registerResource_def PointResource_registerResource_def
      EraserResource_checkRid_def PointResource_checkRid_def
      EraserResource_unRegisterResouce_def PointResource_unRegisterResouce_def
      EraserResource_startPoint_def PointResource_startPoint_def
      EraserResource_setStartPoint_def PointResource_setStartPoint_def
      EraserResource_point1_def PointResource_point1_def EraserResource_setPoint1_def PointResource_setPoint1_def
      EraserResource_point2_def PointResource_point2_def EraserResource_setPoint2_def PointResource_setPoint2_def)

lemma signed_drop_bit_and_1: "signed_drop_bit n w AND 1 \<noteq> 0 \<longleftrightarrow> bit w n" if "n < 32" for w :: int32
proof -
  have "signed_drop_bit n w AND 1 = of_bool (bit w n)"
    using that by (intro bit_word_eqI) (auto simp: bit_simps)
  then show ?thesis by simp
qed

lemma first1_step:
  "i < 32 \<Longrightarrow> first1_loop num (Suc i) = (if bit num i then int (Suc i) else first1_loop num (Suc (Suc i)))"
  by (subst first1_loop.simps) (simp add: signed_drop_bit_and_1)

lemma first1_end: "first1_loop num 33 = - 1"
  by (subst first1_loop.simps) simp

text \<open>The loop finds the lowest set bit.\<close>

lemma first1_from:
  assumes "i \<le> 32"
  shows "first1_loop num (Suc i) =
    (if \<exists>k. i \<le> k \<and> k < 32 \<and> bit num k then int (Suc (LEAST k. i \<le> k \<and> bit num k)) else - 1)"
  using assms
proof (induction rule: inc_induct)
  case base
  show ?case using first1_end [of num] by simp
next
  case (step n)
  show ?case
  proof (cases "bit num n")
    case True
    then have "(LEAST k. n \<le> k \<and> bit num k) = n"
      by (intro Least_equality) auto
    with True step.hyps show ?thesis by (auto simp: first1_step)
  next
    case False
    have eq: "n \<le> k \<and> bit num k \<longleftrightarrow> Suc n \<le> k \<and> bit num k" for k
      using False by (cases "k = n") auto
    have "(\<exists>k. n \<le> k \<and> k < 32 \<and> bit num k) \<longleftrightarrow> (\<exists>k. Suc n \<le> k \<and> k < 32 \<and> bit num k)"
      using eq by blast
    with False step eq show ?thesis by (auto simp: first1_step)
  qed
qed

definition mask_after :: "nat \<Rightarrow> int32" where
  "mask_after n = 0xFF AND push_bit n 0xFF"

lemma bit_0xFF: "bit (0xFF :: int32) k \<longleftrightarrow> k < 8"
proof -
  have "(0xFF :: int32) = mask 8" by (simp add: mask_eq_exp_minus_1)
  then show ?thesis
    by (simp only: bit_mask_iff possible_bit_word) auto
qed

lemma bit_mask_after: "bit (mask_after n) k \<longleftrightarrow> n \<le> k \<and> k < 8"
  by (simp only: mask_after_def bit_and_iff bit_push_bit_iff bit_0xFF possible_bit_word) auto

lemma mask_after_eq:
  "n \<le> 8 \<Longrightarrow> findTheFirst1InNum (mask_after n) = (if n < 8 then int n + 1 else - 1)"
proof -
  assume n: "n \<le> 8"
  show ?thesis
  proof (cases "n < 8")
    case True
    then have "(LEAST k. 0 \<le> k \<and> bit (mask_after n) k) = n"
      by (intro Least_equality) (auto simp: bit_mask_after)
    moreover have "\<exists>k. 0 \<le> k \<and> k < 32 \<and> bit (mask_after n) k"
      using True by (intro exI [of _ n]) (simp add: bit_mask_after)
    ultimately show ?thesis
      using True first1_from [of 0 "mask_after n"] by (simp add: findTheFirst1InNum_def)
  next
    case False
    then have "\<not> (\<exists>k. 0 \<le> k \<and> k < 32 \<and> bit (mask_after n) k)"
      by (auto simp: bit_mask_after)
    with False show ?thesis
      using first1_from [of 0 "mask_after n"] by (simp add: findTheFirst1InNum_def)
  qed
qed

lemma mask_after_register: "n < 8 \<Longrightarrow> mask_after n AND push_bit (Suc n) 0xFF = mask_after (Suc n)"
  by (intro bit_word_eqI, simp only: bit_mask_after bit_and_iff bit_push_bit_iff bit_0xFF possible_bit_word) auto

lemma register_step:
  assumes "using_mask r = mask_after n" "n \<le> 8"
  shows "PointResource_registerResource r = Returns (if n < 8 then int n + 1 else - 1,
    r\<lparr>using_mask := mask_after (min 8 (Suc n)), register_time := register_time r + 1\<rparr>)"
proof (cases "n < 8")
  case True
  then have n: "nat (int n + 1) = Suc n" "min 8 (Suc n) = Suc n" by simp_all
  show ?thesis
    unfolding PointResource_registerResource_def Let_def assms(1) mask_after_eq [OF assms(2)] n
    using True mask_after_register [OF True] assms(1) by (simp add: n del: push_bit_Suc)
next
  case False
  then have "n = 8" using assms(2) by simp
  with assms show ?thesis
    by (simp add: PointResource_registerResource_def Let_def mask_after_eq)
qed

fun register_times :: "nat \<Rightarrow> resource \<Rightarrow> (int list \<times> resource) outcome" where
  "register_times 0 r = Returns ([], r)"
| "register_times (Suc n) r =
     andThen (PointResource_registerResource r) (\<lambda>(rid, r).
       andThen (register_times n r) (\<lambda>(rids, r). Returns (rid # rids, r)))"

lemma exhausted: "map (\<lambda>i. if i < 8 then int i + 1 else - 1) [8 + m..<8 + m + n] = replicate n (- 1)"
  by (rule replicate_eqI) auto

lemma register_times_mask:
  assumes "using_mask r = mask_after k" "k \<le> 8"
  shows "\<exists>r'. register_times n r = Returns (map (\<lambda>i. if i < 8 then int i + 1 else - 1) [k..<k + n], r') \<and>
    using_mask r' = mask_after (min 8 (k + n)) \<and> startPoints r' = startPoints r \<and>
    points1 r' = points1 r \<and> points2 r' = points2 r"
  using assms
proof (induction n arbitrary: r k)
  case (Suc n)
  let ?r = "r\<lparr>using_mask := mask_after (min 8 (Suc k)), register_time := register_time r + 1\<rparr>"
  have rids: "(if k < 8 then int k + 1 else - 1) # map (\<lambda>i. if i < 8 then int i + 1 else - 1) [min 8 (Suc k)..<min 8 (Suc k) + n] =
      map (\<lambda>i. if i < 8 then int i + 1 else - 1) [k..<k + Suc n]"
  proof (cases "k < 8")
    case True
    then have "min 8 (Suc k) = Suc k" by simp
    then show ?thesis using True by (simp add: upt_conv_Cons)
  next
    case False
    then have "k = 8" using Suc.prems by simp
    then show ?thesis
      using exhausted [of 0 n] exhausted [of 0 "Suc n"] by simp
  qed
  have "min 8 (min 8 (Suc k) + n) = min 8 (k + Suc n)" by simp
  with Suc.IH [of ?r "min 8 (Suc k)"] Suc.prems rids show ?case
    by (auto simp: register_step)
qed simp

text \<open>The three arrays have their size and no mask bit above the eight is ever set.\<close>

definition resource_ok :: "resource \<Rightarrow> bool" where
  "resource_ok r \<longleftrightarrow> length (startPoints r) = MAX_RESOURCE_NUM \<and> length (points1 r) = MAX_RESOURCE_NUM \<and>
     length (points2 r) = MAX_RESOURCE_NUM \<and> using_mask r AND 0xFF = using_mask r"

lemma resource_ok_init: "resource_ok PointResource_init"
  by (simp add: resource_ok_def PointResource_init_def)

lemma and_bit_eq_0: "w AND 2 ^ k = 0 \<longleftrightarrow> \<not> bit w k" for w :: int32
  using and_pow2_neq_0 [of w k] by blast

lemma checkRid_bit:
  "1 \<le> rid \<Longrightarrow> rid \<le> 32 \<Longrightarrow> PointResource_checkRid rid r = Returns (\<not> bit (using_mask r) (nat (rid - 1)))"
  by (simp add: PointResource_checkRid_def and_bit_eq_0)

lemma checkRid_after:
  "using_mask r = mask_after n \<Longrightarrow> n \<le> 8 \<Longrightarrow> 1 \<le> rid \<Longrightarrow> rid \<le> 32 \<Longrightarrow>
     PointResource_checkRid rid r = Returns (rid \<le> int n \<or> 8 < rid)"
  by (subst checkRid_bit) (auto simp: bit_mask_after)

lemma unregister_keeps:
  assumes "using_mask r AND 0xFF = using_mask r" "PointResource_unRegisterResouce rid r = Returns (b, r')"
  shows "r' = r"
proof -
  have "using_mask r AND (0xFF XOR push_bit (nat (rid - 1)) 1) = using_mask r"
    if "PointResource_checkRid rid r = Returns True"
  proof -
    from that have rid: "1 \<le> rid" "rid \<le> 32"
      by (auto simp: PointResource_checkRid_def split: if_splits)
    then have nb: "\<not> bit (using_mask r) (nat (rid - 1))"
      using that by (simp add: checkRid_bit)
    have low: "bit (using_mask r) k \<Longrightarrow> k < 8" for k
      using assms(1) by (metis bit_and_iff bit_0xFF)
    show ?thesis
      by (intro bit_word_eqI, simp only: bit_and_iff bit_xor_iff bit_0xFF push_bit_of_1 bit_exp_iff possible_bit_word)
        (use nb low in auto)
  qed
  with assms(2) show ?thesis
    by (auto simp: PointResource_unRegisterResouce_def andThen_Returns split: if_splits)
qed

section \<open>Strokes\<close>

text \<open>
  What a free-hand stroke should put on a canvas. A pencil stroke through the points \<open>ps\<close>
  is a chain of quadratic curves, each from the end of the one before, bent at the last
  point, to the middle of the last point and the new one; an eraser stroke is the chain of
  straight lines.
\<close>

type_synonym curve = "cgpoint \<times> cgpoint \<times> cgpoint"

fun pencil_curves :: "cgpoint \<Rightarrow> cgpoint \<Rightarrow> cgpoint list \<Rightarrow> curve list" where
  "pencil_curves s last_p [] = []"
| "pencil_curves s last_p (p # ps) =
     (s, last_p, midPoint last_p p) # pencil_curves (midPoint last_p p) p ps"

fun eraser_lines :: "cgpoint \<Rightarrow> cgpoint list \<Rightarrow> (cgpoint \<times> cgpoint) list" where
  "eraser_lines last_p [] = []"
| "eraser_lines last_p (p # ps) = (last_p, p) # eraser_lines p ps"

fun curves_of :: "canvas \<Rightarrow> curve list" where
  "curves_of (MoveToPoint s # AddQuadCurveToPoint c e # cs) = (s, c, e) # curves_of cs"
| "curves_of (_ # cs) = curves_of cs"
| "curves_of [] = []"

fun lines_of :: "canvas \<Rightarrow> (cgpoint \<times> cgpoint) list" where
  "lines_of (MoveToPoint s # AddLineToPoint e # cs) = (s, e) # lines_of cs"
| "lines_of (_ # cs) = lines_of cs"
| "lines_of [] = []"

text \<open>Consecutive curves join, and the last one ends halfway to the last point.\<close>

fun joined :: "curve list \<Rightarrow> bool" where
  "joined ((s, c, e) # (s', c', e') # cs) \<longleftrightarrow> s' = e \<and> joined ((s', c', e') # cs)"
| "joined _ \<longleftrightarrow> True"

lemma pencil_joined: "joined (pencil_curves s l ps)"
proof (induction ps arbitrary: s l)
  case (Cons p ps)
  then show ?case by (cases ps) auto
qed simp

text \<open>Where the pen of an id is: where its next curve starts, and the last point.\<close>

definition pen_at :: "resource \<Rightarrow> int \<Rightarrow> (cgpoint \<times> cgpoint) option" where
  "pen_at r rid =
     (case (startPoints r ! nat rid, points2 r ! nat rid) of (Some s, Some l) \<Rightarrow> Some (s, l) | _ \<Rightarrow> None)"

definition pen_after :: "bool \<Rightarrow> cgpoint \<Rightarrow> (cgpoint \<times> cgpoint) option \<Rightarrow> (cgpoint \<times> cgpoint) option" where
  "pen_after begins p pen = (if begins then Some (p, p) else pen)"

text \<open>Only the slot of one id differs between two resources.\<close>

definition same_but :: "int \<Rightarrow> resource \<Rightarrow> resource \<Rightarrow> bool" where
  "same_but rid r r' \<longleftrightarrow> using_mask r' = using_mask r \<and> register_time r' = register_time r \<and>
     (\<forall>k. k \<noteq> nat rid \<longrightarrow> startPoints r' ! k = startPoints r ! k \<and> points1 r' ! k = points1 r ! k \<and> points2 r' ! k = points2 r ! k)"

lemma same_but_refl: "same_but rid r r"
  by (simp add: same_but_def)

lemma same_but_trans: "same_but rid r r' \<Longrightarrow> same_but rid r' r'' \<Longrightarrow> same_but rid r r''"
  by (simp add: same_but_def)

lemma slot_steps:
  assumes "resource_ok r" "0 \<le> rid" "rid < 32"
  shows "PointResource_setPoint1 p rid r = Returns (r\<lparr>points1 := (points1 r)[nat rid := Some p]\<rparr>)"
    "PointResource_setPoint2 p rid r = Returns (r\<lparr>points2 := (points2 r)[nat rid := Some p]\<rparr>)"
    "PointResource_setStartPoint p rid r = Returns (r\<lparr>startPoints := (startPoints r)[nat rid := Some p]\<rparr>)"
    "PointResource_point1 rid r = from_option (points1 r ! nat rid)"
    "PointResource_point2 rid r = from_option (points2 r ! nat rid)"
    "PointResource_startPoint rid r = from_option (startPoints r ! nat rid)"
  using assms
  by (simp_all add: resource_ok_def MAX_RESOURCE_NUM_def write_slot_def read_slot_def PointResource_setPoint1_def
      PointResource_setPoint2_def PointResource_setStartPoint_def PointResource_point1_def PointResource_point2_def
      PointResource_startPoint_def)

lemmas slot_defs = write_slot_def read_slot_def PointResource_setPoint1_def
  PointResource_setPoint2_def PointResource_setStartPoint_def PointResource_point1_def PointResource_point2_def
  PointResource_startPoint_def resource_ok_def MAX_RESOURCE_NUM_def

text \<open>The two halves of what the free-hand drawers do to the points of an id.\<close>

lemma begin_step:
  fixes p :: cgpoint
  assumes r: "resource_ok r" "0 \<le> rid" "rid < 32" and pen: "pen_after begins p (pen_at r rid) = Some (s, l)"
  defines "go \<equiv> (if begins
        then andThen (PointResource_setPoint1 p rid r) (\<lambda>r. andThen (PointResource_setPoint2 p rid r) (\<lambda>r.
             PointResource_setStartPoint p rid r))
        else Returns r)"
  shows "\<exists>r'. go = Returns r' \<and> resource_ok r' \<and> startPoints r' ! nat rid = Some s \<and> points2 r' ! nat rid = Some l \<and>
    same_but rid r r'"
proof (cases begins)
  case True
  have "nat rid < 32" using r by simp
  with True pen r show ?thesis
    by (auto simp: go_def slot_defs pen_after_def same_but_def)
next
  case False
  with pen r show ?thesis
    by (auto simp: go_def pen_after_def pen_at_def same_but_refl split: option.splits)
qed

lemma advance_step:
  fixes p :: cgpoint
  assumes r: "resource_ok r" "0 \<le> rid" "rid < 32" and l: "points2 r ! nat rid = Some l"
  defines "go \<equiv> andThen (PointResource_point2 rid r) (\<lambda>p2.
     andThen (PointResource_setPoint1 p2 rid r) (\<lambda>r.
     andThen (PointResource_setPoint2 p rid r) (\<lambda>r.
     andThen (PointResource_point1 rid r) (\<lambda>p1.
     andThen (PointResource_point2 rid r) (\<lambda>p2.
       PointResource_setStartPoint (midPoint p1 p2) rid r)))))"
  shows "\<exists>r'. go = Returns r' \<and> resource_ok r' \<and> pen_at r' rid = Some (midPoint l p, p) \<and> same_but rid r r'"
proof -
  have "nat rid < 32" using r by simp
  with r l show ?thesis
    by (simp add: go_def slot_defs pen_at_def same_but_def)
qed

text \<open>Traces are read piece by piece: a drawer starts each of its pieces with a colour.\<close>

lemma curves_of_append: "curves_of (xs @ SetStrokeColor c # ys) = curves_of xs @ curves_of ys"
  by (induction xs rule: curves_of.induct) simp_all

lemma lines_of_append: "lines_of (xs @ SetStrokeColor c # ys) = lines_of xs @ lines_of ys"
  by (induction xs rule: lines_of.induct) simp_all

definition drawers_ok :: "drawers \<Rightarrow> bool" where
  "drawers_ok st \<longleftrightarrow> length (colors st) = COLOR_NUM \<and> resource_ok (point_resource st) \<and> resource_ok (eraser_resource st)"

lemma drawers_ok_init: "drawers_ok drawers_init"
  by (simp add: drawers_ok_def drawers_init_def color_table_init_def COLOR_NUM_def resource_ok_init)

definition op_color :: "owb_operation \<Rightarrow> int32" where
  "op_color self = OperationData_color (op_data self)"

lemma op_color [simp]:
  "DrawLine_color = op_color" "DrawEllipse_color = op_color" "DrawRectange_color = op_color" "DrawPoint_color = op_color"
  by (simp_all add: fun_eq_iff op_color_def DrawLine_color_def DrawEllipse_color_def DrawRectange_color_def DrawPoint_color_def)

definition valid_color :: "owb_operation \<Rightarrow> bool" where
  "valid_color self \<longleftrightarrow> 0 \<le> sint (op_color self) \<and> sint (op_color self) < int COLOR_NUM"

lemma CGColorMake_valid:
  assumes "valid_color self" "length table = COLOR_NUM"
  shows "\<exists>c table'. CGColorMake (op_color self) alpha table = Returns (c, table') \<and> length table' = COLOR_NUM"
  using assms by (simp add: CGColorMake_def valid_color_def Let_def)

text \<open>The ids under which the two drawers know a canvas.\<close>

definition registered :: "int \<Rightarrow> resource \<Rightarrow> bool" where
  "registered rid r \<longleftrightarrow> 1 \<le> rid \<and> rid < 32 \<and> PointResource_checkRid rid r = Returns True"

lemma registered_same: "same_but k r r' \<Longrightarrow> registered rid r' = registered rid r"
  by (auto simp: registered_def PointResource_checkRid_def same_but_def)

lemma pen_at_same: "same_but k r r' \<Longrightarrow> 0 \<le> k \<Longrightarrow> 0 \<le> rid \<Longrightarrow> rid \<noteq> k \<Longrightarrow> pen_at r' rid = pen_at r rid"
  by (simp add: same_but_def pen_at_def eq_nat_nat_iff)

lemma PointDrawer_step:
  assumes "operationType op = OwbOperationDataType_POINT" "op_class op = Cls_DrawPoint" "valid_color op"
    and st: "drawers_ok st" "registered rid (point_resource st)"
    and pen: "pen_after (DrawPoint_isStart op) (DrawPoint_position op) (pen_at (point_resource st) rid) = Some (s, l)"
  shows "\<exists>c rest st'. PointDrawer_draw op canvas (Some rid) st = Returns (canvas @ SetStrokeColor c # rest, st') \<and>
    curves_of rest = [(s, l, midPoint l (DrawPoint_position op))] \<and> lines_of rest = [] \<and>
    drawers_ok st' \<and> same_but rid (point_resource st) (point_resource st') \<and>
    eraser_resource st' = eraser_resource st \<and>
    pen_at (point_resource st') rid = Some (midPoint l (DrawPoint_position op), DrawPoint_position op)"
proof -
  have rid: "0 \<le> rid" "rid < 32" and check: "PointResource_checkRid rid (point_resource st) = Returns True"
    using st(2) by (simp_all add: registered_def)
  have r: "resource_ok (point_resource st)" using st(1) by (simp add: drawers_ok_def)
  obtain r1 where r1: "PointDrawer_begin op rid (point_resource st) = Returns r1" "resource_ok r1"
      "startPoints r1 ! nat rid = Some s" "points2 r1 ! nat rid = Some l" "same_but rid (point_resource st) r1"
    using begin_step [OF r rid pen] by (auto simp: PointDrawer_begin_def)
  obtain r2 where r2: "PointDrawer_advance op rid r1 = Returns r2" "resource_ok r2"
      "pen_at r2 rid = Some (midPoint l (DrawPoint_position op), DrawPoint_position op)" "same_but rid r1 r2"
    using advance_step [OF r1(2) rid r1(4), of "DrawPoint_position op"] by (auto simp: PointDrawer_advance_def)
  obtain c table where c: "CGColorMake (op_color op) (DrawPoint_alpha op) (colors st) = Returns (c, table)" "length table = COLOR_NUM"
    using CGColorMake_valid [OF assms(3)] st(1) unfolding drawers_ok_def by blast
  show ?thesis
    using r1 r2 c check st(1) assms(1,2) rid same_but_trans [OF r1(5) r2(4)]
    by (simp add: PointDrawer_draw_def DRAWER_CHECK_TYPE_def cast_to_def slot_steps drawers_ok_def)
qed

lemma Eraser_step:
  assumes "operationType op = OwbOperationDataType_ERASER" "op_class op = Cls_Erase"
    and st: "drawers_ok st" "registered rid (eraser_resource st)"
    and pen: "pen_after (Erase_isStart op) (Erase_position op) (pen_at (eraser_resource st) rid) = Some (s, l)"
  shows "\<exists>c rest st'. Eraser_draw op canvas (Some rid) st = Returns (canvas @ SetStrokeColor c # rest, st') \<and>
    lines_of rest = [(l, Erase_position op)] \<and> curves_of rest = [] \<and>
    drawers_ok st' \<and> same_but rid (eraser_resource st) (eraser_resource st') \<and>
    point_resource st' = point_resource st \<and>
    pen_at (eraser_resource st') rid = Some (midPoint l (Erase_position op), Erase_position op)"
proof -
  have rid: "0 \<le> rid" "rid < 32" and check: "PointResource_checkRid rid (eraser_resource st) = Returns True"
    using st(2) by (simp_all add: registered_def)
  have r: "resource_ok (eraser_resource st)" using st(1) by (simp add: drawers_ok_def)
  obtain r1 where r1: "Eraser_begin op rid (eraser_resource st) = Returns r1" "resource_ok r1"
      "startPoints r1 ! nat rid = Some s" "points2 r1 ! nat rid = Some l" "same_but rid (eraser_resource st) r1"
    using begin_step [OF r rid pen] unfolding Eraser_begin_def EraserResource_eq by auto
  obtain r2 where r2: "Eraser_advance op rid r1 = Returns r2" "resource_ok r2"
      "pen_at r2 rid = Some (midPoint l (Erase_position op), Erase_position op)" "same_but rid r1 r2"
    using advance_step [OF r1(2) rid r1(4), of "Erase_position op"] unfolding Eraser_advance_def EraserResource_eq by auto
  show ?thesis
    using r1 r2 check st(1) assms(1,2) rid same_but_trans [OF r1(5) r2(4)]
    by (simp add: Eraser_draw_def DRAWER_CHECK_TYPE_def cast_to_def slot_steps drawers_ok_def)
qed

text \<open>
  An operation is ready to be drawn under an id: its colour is in the table, the id is
  registered, and a free-hand operation begins a stroke or continues one of that id.
\<close>

definition ready :: "owb_operation \<Rightarrow> int \<Rightarrow> drawers \<Rightarrow> bool" where
  "ready op rid st \<longleftrightarrow> drawers_ok st \<and> registered rid (point_resource st) \<and> registered rid (eraser_resource st) \<and>
     (op_class op \<noteq> Cls_Erase \<longrightarrow> valid_color op) \<and>
     (op_class op = Cls_DrawPoint \<longrightarrow> DrawPoint_isStart op \<or> pen_at (point_resource st) rid \<noteq> None) \<and>
     (op_class op = Cls_Erase \<longrightarrow> Erase_isStart op \<or> pen_at (eraser_resource st) rid \<noteq> None)"

lemma pen_after_defined: "b \<or> pen \<noteq> None \<Longrightarrow> \<exists>s l. pen_after b p pen = Some (s, l)"
  by (auto simp: pen_after_def)

lemma ready_same:
  assumes "ready op k st" "drawers_ok st'"
    and "same_but rid (point_resource st) (point_resource st')" "pen_at (point_resource st') rid \<noteq> None \<or> point_resource st' = point_resource st"
    and "same_but rid (eraser_resource st) (eraser_resource st')" "pen_at (eraser_resource st') rid \<noteq> None \<or> eraser_resource st' = eraser_resource st"
    and "0 \<le> rid"
  shows "ready op k st'"
proof -
  have k: "0 \<le> k" using assms(1) by (simp add: ready_def registered_def)
  have "pen_at (point_resource st') k \<noteq> None" if "pen_at (point_resource st) k \<noteq> None"
    using that assms(4) pen_at_same [OF assms(3,7) k] by (cases "k = rid") auto
  moreover have "pen_at (eraser_resource st') k \<noteq> None" if "pen_at (eraser_resource st) k \<noteq> None"
    using that assms(6) pen_at_same [OF assms(5,7) k] by (cases "k = rid") auto
  ultimately show ?thesis
    using assms registered_same by (auto simp: ready_def)
qed

lemma draw_ready:
  assumes "consistent op" "ready op rid st"
  shows "\<exists>cs st'. draw (drawer_of_class (op_class op)) op canvas (Some rid) st = Returns (canvas @ cs, st') \<and>
    drawers_ok st' \<and> (\<forall>op' k. ready op' k st \<longrightarrow> ready op' k st')"
proof -
  have ok: "drawers_ok st" and rid: "0 \<le> rid" and t: "operationType op = type_of_class (op_class op)"
    using assms by (simp_all add: ready_def registered_def consistent_def)
  have keep: "\<forall>op' k. ready op' k st \<longrightarrow> ready op' k (st\<lparr>colors := table\<rparr>)" if "length table = COLOR_NUM" for table
    using that by (auto simp: ready_def drawers_ok_def)
  have color: "\<exists>c table. CGColorMake (op_color op) alpha (colors st) = Returns (c, table) \<and> length table = COLOR_NUM"
    if "op_class op \<noteq> Cls_Erase" for alpha
    using that assms(2) CGColorMake_valid [of op "colors st" alpha] by (auto simp: ready_def drawers_ok_def)
  show ?thesis
  proof (cases "op_class op")
    case Cls_DrawLine
    then show ?thesis
      using color [of "DrawLine_alpha op"] t keep ok
      by (auto simp: LineDrawer_draw_def DRAWER_CHECK_TYPE_def cast_to_def drawers_ok_def)
  next
    case Cls_DrawEllipse
    then show ?thesis
      using color [of "DrawEllipse_alpha op"] t keep ok
      by (auto simp: EllipseDrawer_draw_def DRAWER_CHECK_TYPE_def cast_to_def drawers_ok_def Let_def)
  next
    case Cls_DrawRectange
    then show ?thesis
      using color [of "DrawRectange_alpha op"] t keep ok
      by (auto simp: RectangeDrawer_draw_def DRAWER_CHECK_TYPE_def cast_to_def drawers_ok_def Let_def)
  next
    case Cls_DrawPoint
    obtain s l where pen: "pen_after (DrawPoint_isStart op) (DrawPoint_position op) (pen_at (point_resource st) rid) = Some (s, l)"
      using assms(2) Cls_DrawPoint pen_after_defined unfolding ready_def by blast
    have c: "valid_color op" "registered rid (point_resource st)"
      using assms(2) Cls_DrawPoint by (simp_all add: ready_def)
    have t': "operationType op = OwbOperationDataType_POINT" using t Cls_DrawPoint by simp
    obtain col rest st' where d: "PointDrawer_draw op canvas (Some rid) st = Returns (canvas @ SetStrokeColor col # rest, st')"
        "drawers_ok st'" "same_but rid (point_resource st) (point_resource st')" "eraser_resource st' = eraser_resource st"
        "pen_at (point_resource st') rid \<noteq> None"
      using PointDrawer_step [OF t' Cls_DrawPoint c(1) ok c(2) pen, of canvas] by auto
    then show ?thesis
      using Cls_DrawPoint ready_same [OF _ d(2,3) _ _ _ rid] same_but_refl by auto
  next
    case Cls_Erase
    obtain s l where pen: "pen_after (Erase_isStart op) (Erase_position op) (pen_at (eraser_resource st) rid) = Some (s, l)"
      using assms(2) Cls_Erase pen_after_defined unfolding ready_def by blast
    have c: "registered rid (eraser_resource st)"
      using assms(2) Cls_Erase by (simp add: ready_def)
    have t': "operationType op = OwbOperationDataType_ERASER" using t Cls_Erase by simp
    obtain col rest st' where d: "Eraser_draw op canvas (Some rid) st = Returns (canvas @ SetStrokeColor col # rest, st')"
        "drawers_ok st'" "same_but rid (eraser_resource st) (eraser_resource st')" "point_resource st' = point_resource st"
        "pen_at (eraser_resource st') rid \<noteq> None"
      using Eraser_step [OF t' Cls_Erase ok c pen, of canvas] by auto
    then show ?thesis
      using Cls_Erase ready_same [OF _ d(2) _ _ d(3) _ rid] same_but_refl by auto
  qed
qed

lemma draw_by_other:
  assumes "consistent op" "d \<noteq> drawer_of_class (op_class op)"
  shows "draw d op canvas rid st = Throws WrongType"
proof -
  have "operationType op = type_of_class (op_class op)" using assms(1) by (simp add: consistent_def)
  with assms(2) show ?thesis
    by (cases d; cases "op_class op")
      (simp_all add: LineDrawer_draw_def EllipseDrawer_draw_def RectangeDrawer_draw_def PointDrawer_draw_def
        Eraser_draw_def DRAWER_CHECK_TYPE_def owb_types)
qed

text \<open>Drawing a list of operations with one drawer.\<close>

fun draw_each :: "drawer \<Rightarrow> owb_operation list \<Rightarrow> canvas \<Rightarrow> int option \<Rightarrow> drawers \<Rightarrow> (canvas \<times> drawers) outcome" where
  "draw_each d [] canvas rid st = Returns (canvas, st)"
| "draw_each d (op # ops) canvas rid st =
     andThen (draw d op canvas rid st) (\<lambda>(canvas, st). draw_each d ops canvas rid st)"

fun is_stroke :: "(owb_operation \<Rightarrow> bool) \<Rightarrow> owb_operation list \<Rightarrow> bool" where
  "is_stroke begins [] \<longleftrightarrow> False"
| "is_stroke begins (op # ops) \<longleftrightarrow> begins op \<and> list_all (\<lambda>op. \<not> begins op) ops"

lemma pencil_continues:
  assumes "list_all (\<lambda>op. consistent op \<and> op_class op = Cls_DrawPoint \<and> valid_color op \<and> \<not> DrawPoint_isStart op) ops"
    and "drawers_ok st" "registered rid (point_resource st)" "pen_at (point_resource st) rid = Some (s, l)"
  shows "\<exists>canvas' st'. draw_each PointDrawer ops canvas (Some rid) st = Returns (canvas', st') \<and>
    curves_of canvas' = curves_of canvas @ pencil_curves s l (map DrawPoint_position ops) \<and>
    lines_of canvas' = lines_of canvas \<and> drawers_ok st' \<and> same_but rid (point_resource st) (point_resource st') \<and>
    eraser_resource st' = eraser_resource st"
  using assms
proof (induction ops arbitrary: canvas st s l)
  case Nil
  then show ?case by (simp add: same_but_refl)
next
  case (Cons op ops)
  have op: "operationType op = OwbOperationDataType_POINT" "op_class op = Cls_DrawPoint" "valid_color op" "\<not> DrawPoint_isStart op"
    using Cons.prems(1) by (simp_all add: consistent_def)
  have pen: "pen_after (DrawPoint_isStart op) (DrawPoint_position op) (pen_at (point_resource st) rid) = Some (s, l)"
    using op(4) Cons.prems(4) by (simp add: pen_after_def)
  obtain c rest st1 where d: "PointDrawer_draw op canvas (Some rid) st = Returns (canvas @ SetStrokeColor c # rest, st1)"
      "curves_of rest = [(s, l, midPoint l (DrawPoint_position op))]" "lines_of rest = []" "drawers_ok st1"
      "same_but rid (point_resource st) (point_resource st1)" "eraser_resource st1 = eraser_resource st"
      "pen_at (point_resource st1) rid = Some (midPoint l (DrawPoint_position op), DrawPoint_position op)"
    using PointDrawer_step [OF op(1-3) Cons.prems(2,3) pen, of canvas] by blast
  have "registered rid (point_resource st1)" using registered_same [OF d(5)] Cons.prems(3) by simp
  from Cons.IH [OF _ d(4) this d(7), of "canvas @ SetStrokeColor c # rest"] Cons.prems(1) d same_but_trans [OF d(5)]
  show ?case by (auto simp: curves_of_append lines_of_append)
qed

lemma eraser_continues:
  assumes "list_all (\<lambda>op. consistent op \<and> op_class op = Cls_Erase \<and> \<not> Erase_isStart op) ops"
    and "drawers_ok st" "registered rid (eraser_resource st)" "pen_at (eraser_resource st) rid = Some (s, l)"
  shows "\<exists>canvas' st'. draw_each Eraser ops canvas (Some rid) st = Returns (canvas', st') \<and>
    lines_of canvas' = lines_of canvas @ eraser_lines l (map Erase_position ops) \<and>
    curves_of canvas' = curves_of canvas \<and> drawers_ok st' \<and> same_but rid (eraser_resource st) (eraser_resource st') \<and>
    point_resource st' = point_resource st"
  using assms
proof (induction ops arbitrary: canvas st s l)
  case Nil
  then show ?case by (simp add: same_but_refl)
next
  case (Cons op ops)
  have op: "operationType op = OwbOperationDataType_ERASER" "op_class op = Cls_Erase" "\<not> Erase_isStart op"
    using Cons.prems(1) by (simp_all add: consistent_def)
  have pen: "pen_after (Erase_isStart op) (Erase_position op) (pen_at (eraser_resource st) rid) = Some (s, l)"
    using op(3) Cons.prems(4) by (simp add: pen_after_def)
  obtain c rest st1 where d: "Eraser_draw op canvas (Some rid) st = Returns (canvas @ SetStrokeColor c # rest, st1)"
      "lines_of rest = [(l, Erase_position op)]" "curves_of rest = []" "drawers_ok st1"
      "same_but rid (eraser_resource st) (eraser_resource st1)" "point_resource st1 = point_resource st"
      "pen_at (eraser_resource st1) rid = Some (midPoint l (Erase_position op), Erase_position op)"
    using Eraser_step [OF op(1,2) Cons.prems(2,3) pen, of canvas] by blast
  have "registered rid (eraser_resource st1)" using registered_same [OF d(5)] Cons.prems(3) by simp
  from Cons.IH [OF _ d(4) this d(7), of "canvas @ SetStrokeColor c # rest"] Cons.prems(1) d same_but_trans [OF d(5)]
  show ?case by (auto simp: curves_of_append lines_of_append)
qed

text \<open>Objects and a state to evaluate the properties at.\<close>

lemma consistent_put:
  assumes "consistent self" "op_ok (put_data f self)"
    "AOperationData_data_type (data_abs (put_data f self)) = AOperationData_data_type (data_abs self)"
  shows "consistent (put_data f self)"
proof -
  have "op_ok self" using assms(1) by (simp add: consistent_def)
  then have "operationType (put_data f self) = operationType self"
    using assms(2,3) by (simp add: operationType_abs)
  with assms(1,2) show ?thesis by (simp add: consistent_def)
qed

lemma data_abs_init:
  "data_abs (setOperationType t (OwbClientOperation_init c)) = AOperationData_empty\<lparr>AOperationData_data_type := Some t\<rparr>"
proof -
  have "op_ok (OwbClientOperation_init c)" "data_abs (OwbClientOperation_init c) = AOperationData_empty"
    by (simp_all add: op_ok_def OwbClientOperation_init_def data_abs_def op_abs_def Operation_abs_default AOperation_empty_def)
  then show ?thesis by (simp add: setOperationType_def put_scalar)
qed

lemma data_abs_drawer [simp]: "data_abs (self\<lparr>op_drawer := d\<rparr>) = data_abs self"
  by (simp add: data_abs_def op_abs_def)

definition first_point :: owb_operation where
  "first_point = DrawPoint_setIsStart True DrawPoint_init"

definition first_wipe :: owb_operation where
  "first_wipe = Erase_setIsStart True Erase_init"

lemma first_ops:
  "consistent first_point" "op_class first_point = Cls_DrawPoint" "DrawPoint_isStart first_point" "valid_color first_point"
  "consistent first_wipe" "op_class first_wipe = Cls_Erase" "Erase_isStart first_wipe"
proof -
  have ok: "op_ok DrawPoint_init" "op_ok Erase_init"
    using init_consistent by (simp_all add: consistent_def)
  note p = put_scalar(8,16) [OF ok(1), of True] and w = put_scalar(8,16) [OF ok(2), of True]
  show "consistent first_point" "consistent first_wipe"
    unfolding first_point_def DrawPoint_setIsStart_def first_wipe_def Erase_setIsStart_def
    using p w init_consistent by (simp_all add: consistent_put)
  show "op_class first_point = Cls_DrawPoint" "op_class first_wipe = Cls_Erase"
    by (simp_all add: first_point_def DrawPoint_setIsStart_def first_wipe_def Erase_setIsStart_def)
  show "DrawPoint_isStart first_point" "Erase_isStart first_wipe"
    using p w OperationData_getters(13) [OF op_data_ok] op_data_abs
    by (simp_all add: first_point_def DrawPoint_setIsStart_def DrawPoint_isStart_def first_wipe_def
        Erase_setIsStart_def Erase_isStart_def)
  have "op_color first_point = 0"
    using p OperationData_getters(3) [OF op_data_ok [OF p(1)]] op_data_abs [OF p(1)]
    by (simp add: first_point_def DrawPoint_setIsStart_def op_color_def DrawPoint_init_def data_abs_init AOperationData_empty_def)
  then show "valid_color first_point" by (simp add: valid_color_def COLOR_NUM_def)
qed

definition one_canvas :: drawers where
  "one_canvas = \<lparr>colors = color_table_init, point_resource = PointResource_init\<lparr>using_mask := mask_after 1\<rparr>,
     eraser_resource = EraserResource_init\<lparr>using_mask := mask_after 1\<rparr>\<rparr>"

lemma one_canvas_ok:
  "drawers_ok one_canvas" "registered 1 (point_resource one_canvas)" "registered 1 (eraser_resource one_canvas)"
  using drawers_ok_init checkRid_after [of "PointResource_init\<lparr>using_mask := mask_after 1\<rparr>" 1 1]
  by (simp_all add: one_canvas_def drawers_ok_def drawers_init_def resource_ok_def registered_def mask_after_def)

section \<open>Properties\<close>

text \<open>
  a free-hand drawer hands out the ids 1 to 8, once each and in order, and \<open>-1\<close> from then
  on; after \<open>n\<close> registrations exactly the first \<open>n\<close> of the eight ids count as registered.
\<close>

lemma registrations_hand_out_eight_ids:
  "\<exists>r. register_times n PointResource_init = Returns (map (\<lambda>i. if i < 8 then int i + 1 else - 1) [0..<n], r) \<and>
     map (\<lambda>rid. PointResource_checkRid rid r) [1..8] = map (\<lambda>rid. Returns (rid \<le> int n)) [1..8]"
proof -
  have "using_mask PointResource_init = mask_after 0"
    by (simp add: PointResource_init_def mask_after_def)
  then obtain r where r: "register_times n PointResource_init = Returns (map (\<lambda>i. if i < 8 then int i + 1 else - 1) [0..<n], r)"
      "using_mask r = mask_after (min 8 n)"
    using register_times_mask [of PointResource_init 0 n] by auto
  have "PointResource_checkRid rid r = Returns (rid \<le> int n)" if "1 \<le> rid" "rid \<le> 8" for rid
    using checkRid_after [OF r(2), of rid] that by auto
  with r(1) show ?thesis by auto
qed

text \<open>
  unregistering frees nothing. Whatever id it is called with and whatever it answers,
  the resource stays as it is, so the id remains registered and is never handed out again.
\<close>

lemma unregister_frees_nothing:
  assumes "resource_ok r" "PointResource_unRegisterResouce rid r = Returns (b, r')"
  shows "r' = r \<and> PointResource_checkRid rid r' = Returns b \<and>
    PointResource_registerResource r' = PointResource_registerResource r"
proof -
  have "r' = r" using unregister_keeps [OF _ assms(2)] assms(1) by (simp add: resource_ok_def)
  moreover have "PointResource_checkRid rid r = Returns b"
    using assms(2) by (auto simp: PointResource_unRegisterResouce_def andThen_Returns split: if_splits)
  ultimately show ?thesis by simp
qed

theorem unregister_frees_nothing_witness:
  "\<exists>r. PointResource_registerResource PointResource_init = Returns (1, r) \<and>
     PointResource_unRegisterResouce 1 r = Returns (True, r) \<and> PointResource_checkRid 1 r = Returns True"
proof -
  have m: "using_mask PointResource_init = mask_after 0"
    by (simp add: PointResource_init_def mask_after_def)
  let ?r = "PointResource_init\<lparr>using_mask := mask_after 1, register_time := register_time PointResource_init + 1\<rparr>"
  have reg: "PointResource_registerResource PointResource_init = Returns (1, ?r)"
    using register_step [OF m] by simp
  have ok: "resource_ok ?r"
    using resource_ok_init by (simp add: resource_ok_def mask_after_def)
  have "PointResource_checkRid 1 ?r = Returns True"
    using checkRid_after [of ?r 1 1] by simp
  then obtain r' where "PointResource_unRegisterResouce 1 ?r = Returns (True, r')"
    by (simp add: PointResource_unRegisterResouce_def)
  with unregister_frees_nothing [OF ok this] reg show ?thesis by auto
qed

text \<open>
  C23: a pencil stroke is drawn as one joined curve. Drawing the operations of a stroke under a
  registered id adds to the canvas exactly the chain of quadratic curves through their
  positions, each curve beginning where the one before it ended, and touches neither the
  eraser nor any other id.
\<close>

theorem pencil_stroke_is_joined:
  assumes "is_stroke DrawPoint_isStart ops" "list_all (\<lambda>op. consistent op \<and> op_class op = Cls_DrawPoint \<and> valid_color op) ops"
    and "drawers_ok st" "registered rid (point_resource st)"
  defines "ps \<equiv> map DrawPoint_position ops"
  shows "\<exists>canvas' st'. draw_each PointDrawer ops canvas (Some rid) st = Returns (canvas', st') \<and>
    curves_of canvas' = curves_of canvas @ pencil_curves (hd ps) (hd ps) ps \<and> joined (pencil_curves (hd ps) (hd ps) ps) \<and>
    lines_of canvas' = lines_of canvas \<and> eraser_resource st' = eraser_resource st \<and>
    same_but rid (point_resource st) (point_resource st')"
proof -
  obtain op ops' where ops: "ops = op # ops'" "DrawPoint_isStart op"
      "list_all (\<lambda>op. consistent op \<and> op_class op = Cls_DrawPoint \<and> valid_color op \<and> \<not> DrawPoint_isStart op) ops'"
    using assms(1,2) by (cases ops) (auto simp: list_all_iff)
  have op: "operationType op = OwbOperationDataType_POINT" "op_class op = Cls_DrawPoint" "valid_color op"
    using assms(2) ops(1) by (simp_all add: consistent_def)
  let ?p = "DrawPoint_position op"
  have pen: "pen_after (DrawPoint_isStart op) ?p (pen_at (point_resource st) rid) = Some (?p, ?p)"
    using ops(2) by (simp add: pen_after_def)
  obtain c rest st1 where d: "PointDrawer_draw op canvas (Some rid) st = Returns (canvas @ SetStrokeColor c # rest, st1)"
      "curves_of rest = [(?p, ?p, midPoint ?p ?p)]" "lines_of rest = []" "drawers_ok st1"
      "same_but rid (point_resource st) (point_resource st1)" "eraser_resource st1 = eraser_resource st"
      "pen_at (point_resource st1) rid = Some (midPoint ?p ?p, ?p)"
    using PointDrawer_step [OF op assms(3,4) pen, of canvas] by blast
  have "registered rid (point_resource st1)" using registered_same [OF d(5)] assms(4) by simp
  from pencil_continues [OF ops(3) d(4) this d(7), of "canvas @ SetStrokeColor c # rest"] ops(1) d same_but_trans [OF d(5)]
  show ?thesis
    using pencil_joined [of ?p ?p ps] by (auto simp: curves_of_append lines_of_append ps_def)
qed

theorem pencil_stroke_is_joined_witness:
  "\<exists>canvas' st'. draw_each PointDrawer [first_point] [] (Some 1) one_canvas = Returns (canvas', st') \<and>
     curves_of canvas' = pencil_curves (DrawPoint_position first_point) (DrawPoint_position first_point) [DrawPoint_position first_point]"
  using pencil_stroke_is_joined [of "[first_point]" one_canvas 1 "[]"] first_ops one_canvas_ok by auto

text \<open>
  an eraser stroke wipes along the chain of straight lines through its positions, each
  starting where the one before it ended, and touches neither the pencil nor any other id.
\<close>

lemma eraser_stroke_follows_positions:
  assumes "is_stroke Erase_isStart ops" "list_all (\<lambda>op. consistent op \<and> op_class op = Cls_Erase) ops"
    and "drawers_ok st" "registered rid (eraser_resource st)"
  defines "ps \<equiv> map Erase_position ops"
  shows "\<exists>canvas' st'. draw_each Eraser ops canvas (Some rid) st = Returns (canvas', st') \<and>
    lines_of canvas' = lines_of canvas @ eraser_lines (hd ps) ps \<and>
    map snd (eraser_lines (hd ps) ps) = ps \<and> map fst (eraser_lines (hd ps) ps) = hd ps # butlast ps \<and>
    curves_of canvas' = curves_of canvas \<and> point_resource st' = point_resource st \<and>
    same_but rid (eraser_resource st) (eraser_resource st')"
proof -
  obtain op ops' where ops: "ops = op # ops'" "Erase_isStart op"
      "list_all (\<lambda>op. consistent op \<and> op_class op = Cls_Erase \<and> \<not> Erase_isStart op) ops'"
    using assms(1,2) by (cases ops) (auto simp: list_all_iff)
  have op: "operationType op = OwbOperationDataType_ERASER" "op_class op = Cls_Erase"
    using assms(2) ops(1) by (simp_all add: consistent_def)
  let ?p = "Erase_position op"
  have pen: "pen_after (Erase_isStart op) ?p (pen_at (eraser_resource st) rid) = Some (?p, ?p)"
    using ops(2) by (simp add: pen_after_def)
  obtain c rest st1 where d: "Eraser_draw op canvas (Some rid) st = Returns (canvas @ SetStrokeColor c # rest, st1)"
      "lines_of rest = [(?p, ?p)]" "curves_of rest = []" "drawers_ok st1"
      "same_but rid (eraser_resource st) (eraser_resource st1)" "point_resource st1 = point_resource st"
      "pen_at (eraser_resource st1) rid = Some (midPoint ?p ?p, ?p)"
    using Eraser_step [OF op assms(3,4) pen, of canvas] by blast
  have ends: "map snd (eraser_lines q qs) = qs" "map fst (eraser_lines q qs) = (if qs = [] then [] else q # butlast qs)" for q qs
    by (induction qs arbitrary: q) auto
  have "registered rid (eraser_resource st1)" using registered_same [OF d(5)] assms(4) by simp
  from eraser_continues [OF ops(3) d(4) this d(7), of "canvas @ SetStrokeColor c # rest"] ops(1) d same_but_trans [OF d(5)]
  show ?thesis
    using ends by (auto simp: curves_of_append lines_of_append ps_def)
qed

theorem eraser_stroke_follows_positions_witness:
  "\<exists>canvas' st'. draw_each Eraser [first_wipe] [] (Some 1) one_canvas = Returns (canvas', st') \<and>
     lines_of canvas' = [(Erase_position first_wipe, Erase_position first_wipe)]"
  using eraser_stroke_follows_positions [of "[first_wipe]" one_canvas 1 "[]"] first_ops one_canvas_ok by auto

text \<open>
  C35: every operation is drawn by its own drawer and by no other. An operation that is ready
  under an id is drawn by the drawer its class installed, which only adds to the canvas
  and leaves the shared state fit for every operation that was ready; each of the other
  four drawers throws the wrong-type exception.
\<close>

theorem drawers_accept_their_own:
  assumes "consistent op" "ready op rid st"
  shows "(\<exists>cs st'. draw (drawer_of_class (op_class op)) op canvas (Some rid) st = Returns (canvas @ cs, st') \<and>
      (\<forall>op' k. ready op' k st \<longrightarrow> ready op' k st')) \<and>
    (\<forall>d. d \<noteq> drawer_of_class (op_class op) \<longrightarrow> draw d op canvas (Some rid) st = Throws WrongType)"
  using draw_ready [OF assms] draw_by_other [OF assms(1)] by blast

theorem drawers_accept_their_own_witness:
  "(\<exists>cs st'. draw Eraser first_wipe [] (Some 1) one_canvas = Returns (cs, st')) \<and>
   draw PointDrawer first_wipe [] (Some 1) one_canvas = Throws WrongType"
proof -
  have "ready first_wipe 1 one_canvas"
    using first_ops one_canvas_ok by (simp add: ready_def)
  from drawers_accept_their_own [OF first_ops(5) this, of "[]"] first_ops(6) show ?thesis by auto
qed

text \<open>
  colours are made from the shared table. Making a colour writes the alpha into its row
  and leaves every other row alone, so that a later eraser paints with the last alpha that
  was used with the eraser's row, and with an opaque colour only if no drawing used it.
\<close>

lemma eraser_uses_last_alpha:
  assumes "length table = COLOR_NUM" "0 \<le> sint color_id" "sint color_id < 6" "CGColorMake color_id alpha table = Returns (c, table')"
  shows "c = (table ! nat (sint color_id))[3 := alpha] \<and> length table' = COLOR_NUM \<and>
    (\<forall>i. i \<noteq> nat (sint color_id) \<longrightarrow> table' ! i = table ! i) \<and>
    CGEraserColor table' = (if color_id = 5 then (table ! 5)[3 := alpha] else CGEraserColor table)"
proof -
  have t: "c = (table ! nat (sint color_id))[3 := alpha]" "table' = table[nat (sint color_id) := c]"
    using assms(4) by (auto simp: CGColorMake_def Let_def split: if_splits)
  have five: "sint (5 :: int32) = 5" by simp
  have "color_id = 5" if "nat (sint color_id) = 5"
  proof -
    have "sint color_id = 5" using that by simp
    then have "to_int32 (sint color_id) = to_int32 5" by simp
    then show ?thesis by (simp only: to_int32_sint) (simp add: to_int32_def)
  qed
  then have "nat (sint color_id) = 5 \<longleftrightarrow> color_id = 5"
    using five by auto
  then show ?thesis
    using t assms(1) by (auto simp: CGEraserColor_def ERASER_COLOR_def COLOR_NUM_def nth_list_update)
qed

theorem eraser_uses_last_alpha_witness:
  "\<exists>c table'. CGColorMake 5 0x3F000000 color_table_init = Returns (c, table') \<and>
     CGEraserColor table' = [f_one, f_one, f_one, 0x3F000000]"
proof -
  obtain c table' where c: "CGColorMake 5 0x3F000000 color_table_init = Returns (c, table')"
    by (simp add: CGColorMake_def color_table_init_def Let_def)
  from eraser_uses_last_alpha [OF _ _ _ c] show ?thesis
    using c by (simp add: color_table_init_def COLOR_NUM_def)
qed

end
