(* ===== verification/Board_Model.thy ===== *)
theory Board_Model
  imports Drawer
begin

text \<open>
  \<^verbatim>\<open>Models/BoardModel.mm\<close>: five canvases of growing size that show one whiteboard. An
  operation is copied, turned upside down and scaled for each canvas, and drawn there; the
  blocks run on a serial queue and on the main queue.
\<close>

section \<open>Sizes and scales\<close>

definition BOARD_NUM :: nat where
  "BOARD_NUM = 5"

definition BOARD_HEIGHT :: nat where
  "BOARD_HEIGHT = 768"

definition BOARD_WIDTH :: nat where
  "BOARD_WIDTH = 1024"

text \<open>
  The sizes are computed in \<^verbatim>\<open>double\<close>, where \<^verbatim>\<open>768*a/2.0\<close> and \<^verbatim>\<open>1024*a/2.0\<close> are exact; the
  quotient of two of them is rounded to a double and then to the float \<^verbatim>\<open>scale\<close>.
\<close>

definition BH :: "nat \<Rightarrow> nat" where
  "BH a = BOARD_HEIGHT * a div 2 + BOARD_HEIGHT"

definition BW :: "nat \<Rightarrow> nat" where
  "BW a = BOARD_WIDTH * a div 2 + BOARD_WIDTH"

definition SCALE :: "nat \<Rightarrow> float32" where
  "SCALE a = float_of_fraction (double_round (BH a) (BH 4))"

definition OwbX :: "float32 \<Rightarrow> float32" where
  "OwbX x = x"

definition OwbY :: "float32 \<Rightarrow> float32" where
  "OwbY y = f_sub (f_of_int (int BOARD_HEIGHT * 3)) y"

definition OwbScale :: "float32 \<Rightarrow> float32 \<Rightarrow> float32" where
  "OwbScale scale x = f_mul x scale"

section \<open>Reversing and resizing an operation\<close>

definition reverse_of :: "cgpoint \<Rightarrow> cgpoint" where
  "reverse_of p = CGPointMake (OwbX (px p)) (OwbY (py p))"

definition scale_of :: "float32 \<Rightarrow> cgpoint \<Rightarrow> cgpoint" where
  "scale_of scale p = CGPointMake (OwbScale scale (px p)) (OwbScale scale (py p))"

definition reverseOp :: "owb_operation \<Rightarrow> owb_operation outcome" where
  "reverseOp op =
     (let t = operationType op
      in if t = OwbOperationDataType_LINE then cast_to [Cls_DrawLine] op (
           andThen (DrawLine_setStartPoint (reverse_of (DrawLine_startPoint op)) op) (\<lambda>tp.
           DrawLine_setEndPoint (reverse_of (DrawLine_endPoint tp)) tp))
         else if t = OwbOperationDataType_ELLIPSE then cast_to [Cls_DrawEllipse] op (
           DrawEllipse_setCenter (reverse_of (DrawEllipse_center op)) op)
         else if t = OwbOperationDataType_ERASER then cast_to [Cls_Erase, Cls_DrawPoint] op (
           Erase_setPosition (reverse_of (Erase_position op)) op)
         else if t = OwbOperationDataType_POINT then cast_to [Cls_DrawPoint, Cls_Erase] op (
           DrawPoint_setPosition (reverse_of (DrawPoint_position op)) op)
         else if t = OwbOperationDataType_RECTANGE then cast_to [Cls_DrawRectange] op (
           andThen (DrawRectange_setBottomRightCorner (reverse_of (DrawRectange_bottomRightCorner op)) op) (\<lambda>tp.
           DrawRectange_setTopLeftCorner (reverse_of (DrawRectange_topLeftCorner tp)) tp))
         else Returns op)"

text \<open>The thickness is converted to \<^verbatim>\<open>float\<close>, scaled and truncated to \<^verbatim>\<open>int\<close>.\<close>

definition resize_thinkness :: "float32 \<Rightarrow> owb_operation \<Rightarrow> owb_operation outcome" where
  "resize_thinkness scale tp =
     andThen (from_option (f_to_int (OwbScale scale (f_of_int (sint (thinkness tp)))))) (\<lambda>n.
       Returns (setThinkness (to_int32 n) tp))"

definition resizeOperation :: "float32 \<Rightarrow> owb_operation \<Rightarrow> owb_operation outcome" where
  "resizeOperation scale op =
     (let t = operationType op
      in if t = OwbOperationDataType_LINE then cast_to [Cls_DrawLine] op (
           andThen (DrawLine_setStartPoint (scale_of scale (DrawLine_startPoint op)) op) (\<lambda>tp.
           andThen (DrawLine_setEndPoint (scale_of scale (DrawLine_endPoint tp)) tp) (resize_thinkness scale)))
         else if t = OwbOperationDataType_ELLIPSE then cast_to [Cls_DrawEllipse] op (
           andThen (DrawEllipse_setCenter (scale_of scale (DrawEllipse_center op)) op) (\<lambda>tp.
           let tp = DrawEllipse_setA (OwbScale scale (DrawEllipse_a tp)) tp;
               tp = DrawEllipse_setB (OwbScale scale (DrawEllipse_b tp)) tp
           in resize_thinkness scale tp))
         else if t = OwbOperationDataType_ERASER then cast_to [Cls_Erase, Cls_DrawPoint] op (
           andThen (Erase_setPosition (scale_of scale (Erase_position op)) op) (resize_thinkness scale))
         else if t = OwbOperationDataType_POINT then cast_to [Cls_DrawPoint, Cls_Erase] op (
           andThen (DrawPoint_setPosition (scale_of scale (DrawPoint_position op)) op) (resize_thinkness scale))
         else if t = OwbOperationDataType_RECTANGE then cast_to [Cls_DrawRectange] op (
           andThen (DrawRectange_setBottomRightCorner (scale_of scale (DrawRectange_bottomRightCorner op)) op) (\<lambda>tp.
           andThen (DrawRectange_setTopLeftCorner (scale_of scale (DrawRectange_topLeftCorner tp)) tp) (resize_thinkness scale)))
         else Returns op)"

section \<open>The board\<close>

text \<open>
  A canvas view is reduced to what the board does with it: it is told to refresh, its
  \<^verbatim>\<open>drawOp:\<close> is empty. The blocks that wait on the serial queue and on the main queue are
  data, run by \<open>run_block\<close>. The two threads are the main thread and the one of the serial queue.
\<close>

record canvas_view =
  isDrawable :: bool
  refreshes :: nat

datatype block =
    DrawOperationBack owb_operation | SaveSnapshot | LoadDocument bytes bool
  | ReadOperationQueue | DrawSelf | Display

record board =
  contexts :: "canvas list"
  latestSnapshot :: "canvas list"
  displayer :: "canvas_view option"
  operationQueue :: "op_queue option"
  realOperationQueue :: op_queue
  inHostMode :: bool
  contextRid :: "int option list list"
  boardOpQueue :: "block list"
  mainQueue :: "block list"
  drawer_state :: drawers

definition main_thread :: thread where
  "main_thread = 0"

definition board_thread :: thread where
  "board_thread = 1"

definition board_rect :: "nat \<Rightarrow> cgrect" where
  "board_rect i = CGRectMake (f_of_int 0) (f_of_int 0) (f_of_int (int (BW i))) (f_of_int (int (BH i)))"

definition blank_canvas :: "nat \<Rightarrow> drawers \<Rightarrow> canvas" where
  "blank_canvas i st = [SetAlpha f_one, BeginPath, SetFillColor (CGEraserColor (colors st)), ClosePath, FillRect (board_rect i)]"

text \<open>The loop of \<^verbatim>\<open>init\<close>: of the five ids of a canvas only the two of the free-hand types are set.\<close>

fun init_canvases :: "nat list \<Rightarrow> drawers \<Rightarrow> (canvas list \<times> int option list list \<times> drawers) outcome" where
  "init_canvases [] st = Returns ([], [], st)"
| "init_canvases (i # is) st =
     andThen (PointDrawer_registerDataSource st) (\<lambda>(p, st).
     andThen (Eraser_registerDataSource st) (\<lambda>(e, st).
     andThen (init_canvases is st) (\<lambda>(cs, rids, st').
       Returns (blank_canvas i st # cs, [None, None, None, Some p, Some e] # rids, st'))))"

definition BoardModel_init :: "drawers \<Rightarrow> board outcome" where
  "BoardModel_init st =
     andThen (init_canvases [0..<BOARD_NUM] st) (\<lambda>(cs, rids, st).
       Returns \<lparr>contexts = cs, latestSnapshot = cs, displayer = None, operationQueue = None,
         realOperationQueue = Queue_init, inHostMode = False, contextRid = rids,
         boardOpQueue = [], mainQueue = [], drawer_state = st\<rparr>)"

definition SharedBoard :: "board option \<Rightarrow> drawers \<Rightarrow> board outcome" where
  "SharedBoard boardInstance st =
     (case boardInstance of None \<Rightarrow> BoardModel_init st | Some self \<Rightarrow> Returns self)"

definition attachCanvas :: "canvas_view \<Rightarrow> board \<Rightarrow> board" where
  "attachCanvas canvas self = self\<lparr>displayer := Some canvas\<rparr>"

definition attachOpeartionQueue :: "op_queue \<Rightarrow> board \<Rightarrow> board" where
  "attachOpeartionQueue queue self = self\<lparr>operationQueue := Some queue\<rparr>"

definition saveSnapshot :: "board \<Rightarrow> board" where
  "saveSnapshot self = self\<lparr>boardOpQueue := boardOpQueue self @ [SaveSnapshot]\<rparr>"

text \<open>
  One canvas of \<^verbatim>\<open>drawOperationBack:\<close>. The id is looked up by the type of the operation; a
  message to a \<^verbatim>\<open>nil\<close> drawer does nothing.
\<close>

definition draw_on :: "owb_operation \<Rightarrow> nat \<Rightarrow> board \<Rightarrow> board outcome" where
  "draw_on operation i self =
     andThen (reverseOp (duplicate operation)) (\<lambda>op.
     andThen (resizeOperation (SCALE i) op) (\<lambda>op.
     let t = sint (operationType op); rids = contextRid self ! i
     in if 0 \<le> t \<and> t < int (length rids)
        then (case op_drawer operation of
            None \<Rightarrow> Returns self
          | Some d \<Rightarrow> andThen (draw d op (contexts self ! i) (rids ! nat t) (drawer_state self)) (\<lambda>(canvas, st).
              Returns (self\<lparr>contexts := (contexts self)[i := canvas], drawer_state := st\<rparr>)))
        else Undefined))"

fun draw_on_all :: "owb_operation \<Rightarrow> nat list \<Rightarrow> board \<Rightarrow> board outcome" where
  "draw_on_all operation [] self = Returns self"
| "draw_on_all operation (i # is) self = andThen (draw_on operation i self) (draw_on_all operation is)"

definition drawOperationBack :: "owb_operation \<Rightarrow> board \<Rightarrow> board outcome" where
  "drawOperationBack operation self =
     andThen (draw_on_all operation [0..<BOARD_NUM] self) (\<lambda>self. Returns (saveSnapshot self))"

definition drawOperation :: "owb_operation \<Rightarrow> board \<Rightarrow> board" where
  "drawOperation operation self = self\<lparr>boardOpQueue := boardOpQueue self @ [DrawOperationBack operation]\<rparr>"

definition loadDocumentAsync :: "Document \<Rightarrow> board \<Rightarrow> board" where
  "loadDocumentAsync document self =
     self\<lparr>boardOpQueue := boardOpQueue self @ [LoadDocument (OwbClientDocument_data document) True]\<rparr>"

definition trigerReadOperationQueue :: "board \<Rightarrow> board" where
  "trigerReadOperationQueue self = self\<lparr>mainQueue := mainQueue self @ [ReadOperationQueue]\<rparr>"

definition trigerDrawSelf :: "board \<Rightarrow> board" where
  "trigerDrawSelf self = self\<lparr>mainQueue := mainQueue self @ [DrawSelf]\<rparr>"

definition display_view :: "board \<Rightarrow> board" where
  "display_view self = self\<lparr>displayer := map_option (\<lambda>v. v\<lparr>refreshes := refreshes v + 1\<rparr>) (displayer self)\<rparr>"

definition getData :: "int \<Rightarrow> board \<Rightarrow> canvas outcome" where
  "getData num self =
     (if 0 \<le> num \<and> num < int (length (contexts self)) then Returns (contexts self ! nat num) else Undefined)"

definition getLatestSnapshot :: "int \<Rightarrow> board \<Rightarrow> canvas outcome" where
  "getLatestSnapshot num self =
     (if 0 \<le> num \<and> num < int (length (latestSnapshot self)) then Returns (latestSnapshot self ! nat num) else Undefined)"

definition setInHostMode :: "bool \<Rightarrow> board \<Rightarrow> board" where
  "setInHostMode mode self =
     self\<lparr>displayer := map_option (\<lambda>v. v\<lparr>isDrawable := mode\<rparr>) (displayer self), inHostMode := mode\<rparr>"

subsection \<open>The blocks\<close>

definition save_block :: "board \<Rightarrow> board" where
  "save_block self = self\<lparr>latestSnapshot := contexts self\<rparr>"

text \<open>
  A call on a queue as part of a block: a call that waits for a lock for ever, or unlocks a lock
  of another thread, has no outcome.
\<close>

definition completes :: "'s run \<Rightarrow> 's outcome" where
  "completes r = (case r of Did s \<Rightarrow> Returns s | Raises e s \<Rightarrow> Throws e | Waits \<Rightarrow> Undefined | Breaks \<Rightarrow> Undefined)"

definition load_block :: "bytes \<Rightarrow> bool \<Rightarrow> board \<Rightarrow> board outcome" where
  "load_block data async self =
     (let self = self\<lparr>contexts := map (\<lambda>i. contexts self ! i @ [DrawImage (board_rect i) data, Flush]) [0..<BOARD_NUM]\<rparr>
      in andThen (completes (clear_by board_thread (realOperationQueue self))) (\<lambda>real.
         andThen (case operationQueue self of None \<Rightarrow> Returns None
             | Some q \<Rightarrow> andThen (completes (clear_by board_thread q)) (\<lambda>q. Returns (Some q))) (\<lambda>oq.
           Returns (self\<lparr>realOperationQueue := real, operationQueue := oq,
             mainQueue := mainQueue self @ (if async then [Display] else [])\<rparr>))))"

text \<open>The test at the head of a read loop, under both locks.\<close>

definition test_empty :: "op_queue \<Rightarrow> (bool \<times> op_queue) outcome" where
  "test_empty q =
     andThen (completes (run_method main_thread lock (q, None))) (\<lambda>(q, r).
       let b = isEmpty q
       in andThen (completes (run_method main_thread unLock (q, r))) (\<lambda>(q, r). Returns (b, q)))"

definition slice_into :: "owb_operation option \<Rightarrow> board \<Rightarrow> board outcome" where
  "slice_into op self =
     (case op of None \<Rightarrow> Returns self
      | Some op \<Rightarrow> (case op_drawer op of None \<Rightarrow> Returns self
          | Some d \<Rightarrow> andThen (completes (sliceOpertion d op main_thread (realOperationQueue self))) (\<lambda>q.
              Returns (self\<lparr>realOperationQueue := q\<rparr>))))"

text \<open>
  \<^verbatim>\<open>readOperationQueue\<close> and \<^verbatim>\<open>drawSelf\<close>, run for at most \<open>n\<close> turns of their loops; the flag tells
  whether the method has returned. Without an attached queue every message goes to \<^verbatim>\<open>nil\<close>:
  \<^verbatim>\<open>isEmpty\<close> answers \<^verbatim>\<open>false\<close>, and the loop goes on.
\<close>

fun readOperationQueue :: "nat \<Rightarrow> board \<Rightarrow> (bool \<times> board) outcome" where
  "readOperationQueue 0 self = Returns (False, self)"
| "readOperationQueue (Suc n) self =
     (case operationQueue self of
        None \<Rightarrow> readOperationQueue n (trigerDrawSelf self)
      | Some q \<Rightarrow>
          andThen (test_empty q) (\<lambda>(b, q).
            if b then Returns (True, self\<lparr>operationQueue := Some q\<rparr>)
            else andThen (completes (dequeue_by main_thread q)) (\<lambda>(op, q).
              andThen (slice_into op (self\<lparr>operationQueue := Some q\<rparr>)) (\<lambda>self.
                readOperationQueue n (trigerDrawSelf self)))))"

fun drawSelf :: "nat \<Rightarrow> board \<Rightarrow> (bool \<times> board) outcome" where
  "drawSelf 0 self = Returns (False, self)"
| "drawSelf (Suc n) self =
     andThen (test_empty (realOperationQueue self)) (\<lambda>(b, q).
       if b then Returns (True, self\<lparr>realOperationQueue := q\<rparr>)
       else andThen (completes (dequeue_by main_thread q)) (\<lambda>(op, q).
         drawSelf n (self\<lparr>realOperationQueue := q\<rparr>)))"

text \<open>A block whose loop has not returned within the bound has no outcome.\<close>

definition returned :: "(bool \<times> board) outcome \<Rightarrow> board outcome" where
  "returned r = andThen r (\<lambda>(finished, self). if finished then Returns self else Undefined)"

definition run_block :: "nat \<Rightarrow> block \<Rightarrow> board \<Rightarrow> board outcome" where
  "run_block n b self =
     (case b of
        DrawOperationBack op \<Rightarrow> drawOperationBack op self
      | SaveSnapshot \<Rightarrow> Returns (save_block self)
      | LoadDocument data async \<Rightarrow> load_block data async self
      | ReadOperationQueue \<Rightarrow> returned (readOperationQueue n self)
      | DrawSelf \<Rightarrow> returned (drawSelf n self)
      | Display \<Rightarrow> Returns (display_view self))"

text \<open>The next block of the serial queue, and of the main queue.\<close>

definition board_step :: "nat \<Rightarrow> board \<Rightarrow> board outcome" where
  "board_step n self =
     (case boardOpQueue self of [] \<Rightarrow> Returns self | b # bs \<Rightarrow> run_block n b (self\<lparr>boardOpQueue := bs\<rparr>))"

definition main_step :: "nat \<Rightarrow> board \<Rightarrow> board outcome" where
  "main_step n self =
     (case mainQueue self of [] \<Rightarrow> Returns self | b # bs \<Rightarrow> run_block n b (self\<lparr>mainQueue := bs\<rparr>))"

fun board_steps :: "nat \<Rightarrow> nat \<Rightarrow> board \<Rightarrow> board outcome" where
  "board_steps n 0 self = Returns self"
| "board_steps n (Suc k) self = andThen (board_step n self) (board_steps n k)"

text \<open>\<^verbatim>\<open>dispatch_sync\<close> returns when its block has run, after the blocks that were queued before it.\<close>

definition loadDocumentSync :: "nat \<Rightarrow> Document \<Rightarrow> board \<Rightarrow> board outcome" where
  "loadDocumentSync n document self =
     (let k = length (boardOpQueue self);
          self = self\<lparr>boardOpQueue := boardOpQueue self @ [LoadDocument (OwbClientDocument_data document) False]\<rparr>
      in andThen (board_steps n (Suc k) self) (\<lambda>self. Returns (display_view self)))"

section \<open>The scales\<close>

lemma double_of_fraction:
  assumes "0 < d" "n * 2 ^ 54 < 2 ^ 53 * (d * 2 ^ k)" "k = 0 \<or> 2 ^ 53 * (d * 2 ^ k) \<le> 2 * (n * 2 ^ 54)"
  shows "double_round n d = (round_even (n * 2 ^ 54) (d * 2 ^ k) * 2 ^ k, 2 ^ 54)"
  using fit_eqI [OF assms] by (simp add: double_round_def Let_def)

lemma float_of_double:
  assumes "n * f_unit < 2 ^ 24 * (2 ^ 54 * 2 ^ k)" "k = 0 \<or> 2 ^ 24 * (2 ^ 54 * 2 ^ k) \<le> 2 * (n * f_unit)" "k < 253"
  shows "f_decode (float_of_fraction (n, 2 ^ 54)) = Finite False (round_even (n * f_unit) (2 ^ 54 * 2 ^ k) * 2 ^ k)"
  using fit_eqI [of "2 ^ 54" "n * f_unit" 24 k] assms f_decode_round [of "2 ^ 54" "n * f_unit" k False]
  by (simp add: float_of_fraction_def)

lemma SCALE_decode:
  "f_decode (SCALE 0) = Finite False (11184811 * 2 ^ 124)"
  "f_decode (SCALE 1) = Finite False (8388608 * 2 ^ 125)"
  "f_decode (SCALE 2) = Finite False (11184811 * 2 ^ 125)"
  "f_decode (SCALE 3) = Finite False (13981013 * 2 ^ 125)"
  "f_decode (SCALE 4) = Finite False (8388608 * 2 ^ 126)"
proof -
  show "f_decode (SCALE 0) = Finite False (11184811 * 2 ^ 124)"
    unfolding SCALE_def BH_def BOARD_HEIGHT_def
    by (subst double_of_fraction [where k = 0]; (subst float_of_double [where k = 124])?; simp add: round_even_def f_unit_def Let_def)
  show "f_decode (SCALE 1) = Finite False (8388608 * 2 ^ 125)"
    unfolding SCALE_def BH_def BOARD_HEIGHT_def
    by (subst double_of_fraction [where k = 1]; (subst float_of_double [where k = 125])?; simp add: round_even_def f_unit_def Let_def)
  show "f_decode (SCALE 2) = Finite False (11184811 * 2 ^ 125)"
    unfolding SCALE_def BH_def BOARD_HEIGHT_def
    by (subst double_of_fraction [where k = 1]; (subst float_of_double [where k = 125])?; simp add: round_even_def f_unit_def Let_def)
  show "f_decode (SCALE 3) = Finite False (13981013 * 2 ^ 125)"
    unfolding SCALE_def BH_def BOARD_HEIGHT_def
    by (subst double_of_fraction [where k = 1]; (subst float_of_double [where k = 125])?; simp add: round_even_def f_unit_def Let_def)
  show "f_decode (SCALE 4) = Finite False (8388608 * 2 ^ 126)"
    unfolding SCALE_def BH_def BOARD_HEIGHT_def
    by (subst double_of_fraction [where k = 2]; (subst float_of_double [where k = 126])?; simp add: round_even_def f_unit_def Let_def)
qed

lemma SCALE_sixths:
  assumes "i < 5"
  obtains a where "f_decode (SCALE i) = Finite False a" "near_sixths a (i + 2)"
proof -
  consider "i = 0" | "i = 1" | "i = 2" | "i = 3" | "i = 4" using assms by linarith
  then show thesis
    by cases (use SCALE_decode that in \<open>simp_all add: near_sixths_def f_unit_def\<close>)
qed

lemma scaled:
  assumes "i < 5" "\<bar>x\<bar> \<le> 4096"
  shows "f_to_int (f_mul (f_of_int x) (SCALE i)) = Some (sgn x * (\<bar>x\<bar> * int (i + 2) div 6))"
  using assms(1) by (rule SCALE_sixths) (rule f_mul_sixths [OF _ _ assms(2)])

text \<open>The scaled value: \<open>i + 2\<close> sixths, truncated towards zero.\<close>

definition sixths :: "nat \<Rightarrow> int \<Rightarrow> int" where
  "sixths i x = sgn x * (\<bar>x\<bar> * int (i + 2) div 6)"

lemma scaled_sixths: "i < 5 \<Longrightarrow> \<bar>x\<bar> \<le> 4096 \<Longrightarrow> f_to_int (OwbScale (SCALE i) (f_of_int x)) = Some (sixths i x)"
  by (simp add: OwbScale_def scaled sixths_def)

lemma sixths_full [simp]: "sixths 4 x = x"
  by (simp add: sixths_def sgn_if)

lemma sixths_bound: "i < 5 \<Longrightarrow> \<bar>sixths i x\<bar> \<le> \<bar>x\<bar>"
proof -
  assume "i < 5"
  then have "int (i + 2) \<le> 6" by simp
  then have "\<bar>x\<bar> * int (i + 2) \<le> \<bar>x\<bar> * 6" by (rule mult_left_mono) simp
  then have "\<bar>x\<bar> * int (i + 2) div 6 \<le> \<bar>x\<bar>" by linarith
  moreover have "0 \<le> \<bar>x\<bar> * int (i + 2) div 6"
    by (rule div_int_pos_iff [THEN iffD2]) simp
  ultimately show ?thesis
    unfolding sixths_def by (cases "x = 0") (simp_all add: abs_mult abs_sgn_eq)
qed

section \<open>Moving the points of an operation\<close>

lemma f_to_int_range: "f_to_int v = Some x \<Longrightarrow> in_int_range x"
  by (auto simp: f_to_int_def Let_def split: fval.splits if_splits)

context point_field
begin

definition stored :: "owb_operation \<Rightarrow> int \<times> int" where
  "stored self =
     (let a = value_or APoint_empty (sel (data_abs self))
      in (sint (value_or 0 (APoint_x a)), sint (value_or 0 (APoint_y a))))"

lemma get_point_stored:
  "op_ok self \<Longrightarrow> stored self = (x, y) \<Longrightarrow> get_point self = CGPointMake (f_of_int x) (f_of_int y)"
  by (simp add: get_point_abs stored_def Let_def)

lemma set_point_stored:
  assumes "op_ok self" "f_to_int (px p) = Some x" "f_to_int (py p) = Some y"
  shows "\<exists>self' v. set_point p self = Returns self' \<and> op_ok self' \<and> op_class self' = op_class self \<and>
    op_drawer self' = op_drawer self \<and> data_abs self' = upd v (data_abs self) \<and> stored self' = (x, y)"
proof -
  have c: "int_coords p = Returns (to_int32 x, to_int32 y)"
    using assms(2,3) by (simp add: int_coords_def)
  then obtain self' where s: "set_point p self = Returns self'"
    by (simp add: set_point_def)
  note t = set_point_step [OF assms(1) s c]
  have "stored self' = (x, y)"
    using f_to_int_range [OF assms(2)] f_to_int_range [OF assms(3)]
    by (simp add: stored_def t(4) sel_upd APoint_put_def sint_to_int32)
  with s t show ?thesis by blast
qed

end

text \<open>A function on points that sends stored coordinates to stored coordinates.\<close>

definition sends :: "(cgpoint \<Rightarrow> cgpoint) \<Rightarrow> (int \<times> int \<Rightarrow> int \<times> int) \<Rightarrow> int \<times> int \<Rightarrow> bool" where
  "sends g f c \<longleftrightarrow>
     f_to_int (px (g (CGPointMake (f_of_int (fst c)) (f_of_int (snd c))))) = Some (fst (f c)) \<and>
     f_to_int (py (g (CGPointMake (f_of_int (fst c)) (f_of_int (snd c))))) = Some (snd (f c))"

context point_field
begin

lemma map_point:
  assumes "op_ok self" "sends g f (stored self)"
  shows "\<exists>self' v. set_point (g (get_point self)) self = Returns self' \<and> op_ok self' \<and> op_class self' = op_class self \<and>
    op_drawer self' = op_drawer self \<and> data_abs self' = upd v (data_abs self) \<and> stored self' = f (stored self)"
proof -
  obtain x y where c: "stored self = (x, y)" by (cases "stored self")
  have "f_to_int (px (g (get_point self))) = Some (fst (f (x, y)))" "f_to_int (py (g (get_point self))) = Some (snd (f (x, y)))"
    using assms(2) get_point_stored [OF assms(1) c] by (simp_all add: sends_def c)
  from set_point_stored [OF assms(1) this] show ?thesis by (simp add: c)
qed

end

text \<open>The stored points of an operation, and the rest of its data.\<close>

fun coords :: "owb_operation \<Rightarrow> (int \<times> int) list" where
  "coords op =
     (case op_class op of
        Cls_DrawLine \<Rightarrow> [start_point.stored op, end_point.stored op]
      | Cls_DrawEllipse \<Rightarrow> [center.stored op]
      | Cls_DrawRectange \<Rightarrow> [bottom_right.stored op, top_left.stored op]
      | Cls_DrawPoint \<Rightarrow> [position.stored op]
      | Cls_Erase \<Rightarrow> [position.stored op])"

definition no_points :: "AOperationData \<Rightarrow> AOperationData" where
  "no_points d = d\<lparr>AOperationData_start_point := None, AOperationData_end_point := None, AOperationData_center := None,
     AOperationData_top_left_corner := None, AOperationData_bottom_right_corner := None, AOperationData_position := None\<rparr>"

definition no_sizes :: "AOperationData \<Rightarrow> AOperationData" where
  "no_sizes d = (no_points d)\<lparr>AOperationData_thinkness := None, AOperationData_a := None, AOperationData_b := None\<rparr>"

lemma no_points_upd [simp]:
  "no_points (d\<lparr>AOperationData_start_point := v\<rparr>) = no_points d" "no_points (d\<lparr>AOperationData_end_point := v\<rparr>) = no_points d"
  "no_points (d\<lparr>AOperationData_center := v\<rparr>) = no_points d" "no_points (d\<lparr>AOperationData_top_left_corner := v\<rparr>) = no_points d"
  "no_points (d\<lparr>AOperationData_bottom_right_corner := v\<rparr>) = no_points d" "no_points (d\<lparr>AOperationData_position := v\<rparr>) = no_points d"
  by (simp_all add: no_points_def)

lemma no_sizes_upd [simp]:
  "no_sizes (d\<lparr>AOperationData_thinkness := n\<rparr>) = no_sizes d" "no_sizes (d\<lparr>AOperationData_a := f\<rparr>) = no_sizes d"
  "no_sizes (d\<lparr>AOperationData_b := f\<rparr>) = no_sizes d"
  by (simp_all add: no_sizes_def no_points_def)

lemma no_points_sizes: "no_points d = no_points d' \<Longrightarrow> no_sizes d = no_sizes d'"
  by (simp add: no_sizes_def)

lemma no_sizes_sel:
  assumes "no_sizes d = no_sizes d'"
  shows "AOperationData_data_type d = AOperationData_data_type d'" "AOperationData_color d = AOperationData_color d'"
    "AOperationData_is_start d = AOperationData_is_start d'"
proof -
  have k: "AOperationData_data_type (no_sizes e) = AOperationData_data_type e" "AOperationData_color (no_sizes e) = AOperationData_color e"
    "AOperationData_is_start (no_sizes e) = AOperationData_is_start e" for e
    by (simp_all add: no_sizes_def no_points_def)
  show "AOperationData_data_type d = AOperationData_data_type d'" "AOperationData_color d = AOperationData_color d'"
    "AOperationData_is_start d = AOperationData_is_start d'"
    using k [of d] k [of d'] assms by simp_all
qed

lemma same_object:
  assumes "consistent op" "op_ok op'" "op_class op' = op_class op" "op_drawer op' = op_drawer op"
    "no_sizes (data_abs op') = no_sizes (data_abs op)"
  shows "consistent op'" "op_color op' = op_color op" "DrawPoint_isStart op' = DrawPoint_isStart op"
    "Erase_isStart op' = Erase_isStart op" "operationType op' = operationType op"
proof -
  have ok: "op_ok op" using assms(1) by (simp add: consistent_def)
  note d = no_sizes_sel [OF assms(5)] and g = OperationData_getters [OF op_data_ok]
  show t: "operationType op' = operationType op"
    using ok assms(2) d by (simp add: operationType_abs)
  then show "consistent op'" using assms by (simp add: consistent_def)
  show "op_color op' = op_color op"
    using g(3) [OF ok] g(3) [OF assms(2)] d by (simp add: op_color_def op_data_abs ok assms(2))
  have "OperationData_is_start (op_data op') = OperationData_is_start (op_data op)"
    using g(13) [OF ok] g(13) [OF assms(2)] d by (simp add: op_data_abs ok assms(2))
  then show "DrawPoint_isStart op' = DrawPoint_isStart op" "Erase_isStart op' = Erase_isStart op"
    by (simp_all add: DrawPoint_isStart_def Erase_isStart_def)
qed

text \<open>
  Such a function applied to every point of an operation by the methods of its class.
\<close>

definition map_points :: "(cgpoint \<Rightarrow> cgpoint) \<Rightarrow> owb_operation \<Rightarrow> owb_operation outcome" where
  "map_points g op =
     (case op_class op of
        Cls_DrawLine \<Rightarrow> andThen (start_point.set_point (g (start_point.get_point op)) op) (\<lambda>tp.
           end_point.set_point (g (end_point.get_point tp)) tp)
      | Cls_DrawEllipse \<Rightarrow> center.set_point (g (center.get_point op)) op
      | Cls_DrawRectange \<Rightarrow> andThen (bottom_right.set_point (g (bottom_right.get_point op)) op) (\<lambda>tp.
           top_left.set_point (g (top_left.get_point tp)) tp)
      | Cls_DrawPoint \<Rightarrow> position.set_point (g (position.get_point op)) op
      | Cls_Erase \<Rightarrow> position.set_point (g (position.get_point op)) op)"

lemma map_points_step:
  assumes "op_ok op" "list_all (sends g f) (coords op)"
  shows "\<exists>op'. map_points g op = Returns op' \<and> op_ok op' \<and> op_class op' = op_class op \<and> op_drawer op' = op_drawer op \<and>
    no_points (data_abs op') = no_points (data_abs op) \<and> coords op' = map f (coords op)"
proof (cases "op_class op")
  case Cls_DrawLine
  have c: "sends g f (start_point.stored op)" "sends g f (end_point.stored op)"
    using assms(2) Cls_DrawLine by simp_all
  obtain s1 v where s1: "start_point.set_point (g (start_point.get_point op)) op = Returns s1" "op_ok s1" "op_class s1 = op_class op"
      "op_drawer s1 = op_drawer op" "data_abs s1 = (data_abs op)\<lparr>AOperationData_start_point := v\<rparr>" "start_point.stored s1 = f (start_point.stored op)"
    using start_point.map_point [OF assms(1) c(1)] by blast
  have e: "end_point.stored s1 = end_point.stored op" by (simp add: end_point.stored_def s1(5))
  obtain s2 w where s2: "end_point.set_point (g (end_point.get_point s1)) s1 = Returns s2" "op_ok s2" "op_class s2 = op_class s1"
      "op_drawer s2 = op_drawer s1" "data_abs s2 = (data_abs s1)\<lparr>AOperationData_end_point := w\<rparr>" "end_point.stored s2 = f (end_point.stored s1)"
    using end_point.map_point [OF s1(2) c(2) [folded e]] by blast
  have "start_point.stored s2 = start_point.stored s1" by (simp add: start_point.stored_def s2(5))
  with s1 s2 e Cls_DrawLine show ?thesis by (simp add: map_points_def)
next
  case Cls_DrawEllipse
  have c: "sends g f (center.stored op)" using assms(2) Cls_DrawEllipse by simp
  obtain s1 v where "center.set_point (g (center.get_point op)) op = Returns s1" "op_ok s1" "op_class s1 = op_class op"
      "op_drawer s1 = op_drawer op" "data_abs s1 = (data_abs op)\<lparr>AOperationData_center := v\<rparr>" "center.stored s1 = f (center.stored op)"
    using center.map_point [OF assms(1) c] by blast
  with Cls_DrawEllipse show ?thesis by (simp add: map_points_def)
next
  case Cls_DrawRectange
  have c: "sends g f (bottom_right.stored op)" "sends g f (top_left.stored op)"
    using assms(2) Cls_DrawRectange by simp_all
  obtain s1 v where s1: "bottom_right.set_point (g (bottom_right.get_point op)) op = Returns s1" "op_ok s1" "op_class s1 = op_class op"
      "op_drawer s1 = op_drawer op" "data_abs s1 = (data_abs op)\<lparr>AOperationData_bottom_right_corner := v\<rparr>" "bottom_right.stored s1 = f (bottom_right.stored op)"
    using bottom_right.map_point [OF assms(1) c(1)] by blast
  have e: "top_left.stored s1 = top_left.stored op" by (simp add: top_left.stored_def s1(5))
  obtain s2 w where s2: "top_left.set_point (g (top_left.get_point s1)) s1 = Returns s2" "op_ok s2" "op_class s2 = op_class s1"
      "op_drawer s2 = op_drawer s1" "data_abs s2 = (data_abs s1)\<lparr>AOperationData_top_left_corner := w\<rparr>" "top_left.stored s2 = f (top_left.stored s1)"
    using top_left.map_point [OF s1(2) c(2) [folded e]] by blast
  have "bottom_right.stored s2 = bottom_right.stored s1" by (simp add: bottom_right.stored_def s2(5))
  with s1 s2 e Cls_DrawRectange show ?thesis by (simp add: map_points_def)
next
  case Cls_DrawPoint
  have c: "sends g f (position.stored op)" using assms(2) Cls_DrawPoint by simp
  obtain s1 v where "position.set_point (g (position.get_point op)) op = Returns s1" "op_ok s1" "op_class s1 = op_class op"
      "op_drawer s1 = op_drawer op" "data_abs s1 = (data_abs op)\<lparr>AOperationData_position := v\<rparr>" "position.stored s1 = f (position.stored op)"
    using position.map_point [OF assms(1) c] by blast
  with Cls_DrawPoint show ?thesis by (simp add: map_points_def)
next
  case Cls_Erase
  have c: "sends g f (position.stored op)" using assms(2) Cls_Erase by simp
  obtain s1 v where "position.set_point (g (position.get_point op)) op = Returns s1" "op_ok s1" "op_class s1 = op_class op"
      "op_drawer s1 = op_drawer op" "data_abs s1 = (data_abs op)\<lparr>AOperationData_position := v\<rparr>" "position.stored s1 = f (position.stored op)"
    using position.map_point [OF assms(1) c] by blast
  with Cls_Erase show ?thesis by (simp add: map_points_def)
qed

text \<open>Reversing is such a function on every operation; resizing is one followed by the sizes.\<close>

lemma reverseOp_points:
  assumes "consistent op"
  shows "reverseOp op = map_points reverse_of op"
  using assms
  by (cases "op_class op") (simp_all add: reverseOp_def map_points_def consistent_def owb_types cast_to_def Let_def)

definition resize_axes :: "float32 \<Rightarrow> owb_operation \<Rightarrow> owb_operation" where
  "resize_axes scale tp =
     (if op_class tp = Cls_DrawEllipse
      then let tp = DrawEllipse_setA (OwbScale scale (DrawEllipse_a tp)) tp
           in DrawEllipse_setB (OwbScale scale (DrawEllipse_b tp)) tp
      else tp)"

lemma resizeOperation_points:
  assumes "consistent op" "map_points (scale_of scale) op = Returns tp" "op_class tp = op_class op"
  shows "resizeOperation scale op = resize_thinkness scale (resize_axes scale tp)"
  using assms
  by (cases "op_class op")
    (auto simp: resizeOperation_def map_points_def consistent_def owb_types cast_to_def Let_def resize_axes_def andThen_Returns)

lemma sends_reverse:
  "small_int x \<Longrightarrow> small_int y \<Longrightarrow> small_int (2304 - y) \<Longrightarrow> sends reverse_of (\<lambda>(x, y). (x, 2304 - y)) (x, y)"
  by (simp add: sends_def reverse_of_def CGPointMake_def OwbX_def OwbY_def BOARD_HEIGHT_def f_to_int_of_int f_sub_of_int
      small_int_def [of 2304])

lemma sends_scale:
  "i < 5 \<Longrightarrow> \<bar>x\<bar> \<le> 4096 \<Longrightarrow> \<bar>y\<bar> \<le> 4096 \<Longrightarrow> sends (scale_of (SCALE i)) (\<lambda>(x, y). (sixths i x, sixths i y)) (x, y)"
  by (simp add: sends_def scale_of_def CGPointMake_def scaled_sixths)

lemma resize_axes_step:
  assumes "op_ok tp"
  shows "op_ok (resize_axes scale tp)" "op_class (resize_axes scale tp) = op_class tp"
    "op_drawer (resize_axes scale tp) = op_drawer tp" "no_sizes (data_abs (resize_axes scale tp)) = no_sizes (data_abs tp)"
    "coords (resize_axes scale tp) = coords tp" "thinkness (resize_axes scale tp) = thinkness tp"
proof -
  note a = put_scalar(5,13) [OF assms] and b = put_scalar(6,14)
  show ok: "op_ok (resize_axes scale tp)"
    by (simp add: resize_axes_def DrawEllipse_setA_def DrawEllipse_setB_def Let_def a b assms)
  show "op_class (resize_axes scale tp) = op_class tp" "op_drawer (resize_axes scale tp) = op_drawer tp"
    by (simp_all add: resize_axes_def DrawEllipse_setA_def DrawEllipse_setB_def Let_def)
  show "no_sizes (data_abs (resize_axes scale tp)) = no_sizes (data_abs tp)"
    by (simp add: resize_axes_def DrawEllipse_setA_def DrawEllipse_setB_def Let_def a b)
  show "coords (resize_axes scale tp) = coords tp"
    by (simp add: resize_axes_def DrawEllipse_setA_def DrawEllipse_setB_def Let_def a b center.stored_def split: op_class.splits)
  show "thinkness (resize_axes scale tp) = thinkness tp"
    using ok by (simp add: thinkness_abs assms) (simp add: resize_axes_def DrawEllipse_setA_def DrawEllipse_setB_def Let_def a b)
qed

lemma resize_thinkness_step:
  assumes "op_ok tp" "i < 5" "\<bar>sint (thinkness tp)\<bar> \<le> 4096"
  shows "\<exists>op'. resize_thinkness (SCALE i) tp = Returns op' \<and> op_ok op' \<and> op_class op' = op_class tp \<and> op_drawer op' = op_drawer tp \<and>
    no_sizes (data_abs op') = no_sizes (data_abs tp) \<and> coords op' = coords tp \<and> sint (thinkness op') = sixths i (sint (thinkness tp))"
proof -
  let ?n = "to_int32 (sixths i (sint (thinkness tp)))"
  have r: "resize_thinkness (SCALE i) tp = Returns (setThinkness ?n tp)"
    using assms by (simp add: resize_thinkness_def scaled_sixths)
  note p = put_scalar(2,10) [OF assms(1), of ?n, folded setThinkness_def]
  have "thinkness (setThinkness ?n tp) = ?n"
    using p by (simp add: thinkness_abs)
  moreover have "in_int_range (sixths i (sint (thinkness tp)))"
    using scaled_sixths [OF assms(2,3)] by (rule f_to_int_range)
  moreover have "coords (setThinkness ?n tp) = coords tp"
    by (simp add: p(2) start_point.stored_def end_point.stored_def center.stored_def bottom_right.stored_def
        top_left.stored_def position.stored_def setThinkness_def split: op_class.splits)
      (simp add: p(2) [unfolded setThinkness_def])
  ultimately show ?thesis
    using r p by (simp add: sint_to_int32 del: coords.simps) (simp add: setThinkness_def)
qed

text \<open>Where the board \<open>i\<close> puts a point of the whiteboard.\<close>

definition place :: "nat \<Rightarrow> int \<times> int \<Rightarrow> int \<times> int" where
  "place i = (\<lambda>(x, y). (sixths i x, sixths i (2304 - y)))"

text \<open>An operation that the boards can show: its points and its thickness are of moderate size.\<close>

definition showable :: "owb_operation \<Rightarrow> bool" where
  "showable op \<longleftrightarrow> consistent op \<and> \<bar>sint (thinkness op)\<bar> \<le> 4096 \<and>
     list_all (\<lambda>(x, y). \<bar>x\<bar> \<le> 4096 \<and> - 1792 \<le> y \<and> y \<le> 4096) (coords op)"

lemma coords_cong: "op_class a = op_class b \<Longrightarrow> data_abs a = data_abs b \<Longrightarrow> coords a = coords b"
  by (simp add: start_point.stored_def end_point.stored_def center.stored_def bottom_right.stored_def
        top_left.stored_def position.stored_def split: op_class.splits)

lemma placed_operation:
  assumes "showable op" "i < 5"
  shows "\<exists>mid op'. reverseOp (duplicate op) = Returns mid \<and> resizeOperation (SCALE i) mid = Returns op' \<and>
    consistent op' \<and> op_class op' = op_class op \<and> coords op' = map (place i) (coords op) \<and>
    sint (thinkness op') = sixths i (sint (thinkness op)) \<and>
    no_sizes (data_abs op') = no_sizes (data_abs op)"
proof -
  have c: "consistent op" and t: "\<bar>sint (thinkness op)\<bar> \<le> 4096"
    and on: "list_all (\<lambda>(x, y). \<bar>x\<bar> \<le> 4096 \<and> - 1792 \<le> y \<and> y \<le> 4096) (coords op)"
    using assms(1) by (simp_all add: showable_def del: coords.simps)
  let ?d = "duplicate op"
  note d = consistent_duplicate [OF c]
  have dc: "coords ?d = coords op" by (rule coords_cong [OF d(2,4)])
  have ok: "op_ok ?d" "op_ok op" using d(1) c by (simp_all add: consistent_def)
  have "list_all (sends reverse_of (\<lambda>(x, y). (x, 2304 - y))) (coords ?d)"
    unfolding dc using on by (auto simp: list_all_iff small_int_def intro!: sends_reverse simp del: coords.simps)
  from map_points_step [OF ok(1) this] obtain m where m: "reverseOp ?d = Returns m" "op_ok m" "op_class m = op_class ?d"
      "op_drawer m = op_drawer ?d" "no_points (data_abs m) = no_points (data_abs ?d)"
      "coords m = map (\<lambda>(x, y). (x, 2304 - y)) (coords ?d)"
    by (auto simp: reverseOp_points [OF d(1)] simp del: coords.simps)
  have sm: "no_sizes (data_abs m) = no_sizes (data_abs ?d)" by (rule no_points_sizes [OF m(5)])
  have mc: "consistent m" by (rule same_object(1) [OF d(1) m(2,3,4) sm])
  have "AOperationData_thinkness (data_abs m) = AOperationData_thinkness (data_abs op)"
    using arg_cong [OF m(5), of AOperationData_thinkness] d(4) by (simp add: no_points_def)
  then have mt: "thinkness m = thinkness op"
    using m(2) ok(2) by (simp add: thinkness_abs)
  have "list_all (sends (scale_of (SCALE i)) (\<lambda>(x, y). (sixths i x, sixths i y))) (coords m)"
    unfolding m(6) dc using on by (auto simp: list_all_iff intro!: sends_scale [OF assms(2)] simp del: coords.simps)
  from map_points_step [OF m(2) this] obtain s where s: "map_points (scale_of (SCALE i)) m = Returns s" "op_ok s"
      "op_class s = op_class m" "op_drawer s = op_drawer m" "no_points (data_abs s) = no_points (data_abs m)"
      "coords s = map (\<lambda>(x, y). (sixths i x, sixths i y)) (coords m)"
    by (auto simp del: coords.simps)
  have "AOperationData_thinkness (data_abs s) = AOperationData_thinkness (data_abs m)"
    using arg_cong [OF s(5), of AOperationData_thinkness] by (simp add: no_points_def)
  then have st: "thinkness s = thinkness op"
    using m(2) s(2) mt by (simp add: thinkness_abs)
  note a = resize_axes_step [OF s(2), of "SCALE i"]
  have "\<bar>sint (thinkness (resize_axes (SCALE i) s))\<bar> \<le> 4096" using a(6) st t by simp
  from resize_thinkness_step [OF a(1) assms(2) this] obtain r where r: "resize_thinkness (SCALE i) (resize_axes (SCALE i) s) = Returns r"
      "op_ok r" "op_class r = op_class s" "op_drawer r = op_drawer s" "no_sizes (data_abs r) = no_sizes (data_abs s)"
      "coords r = coords s" "sint (thinkness r) = sixths i (sint (thinkness s))"
    using a by (auto simp del: coords.simps)
  have sr: "no_sizes (data_abs r) = no_sizes (data_abs m)"
    using r(5) no_points_sizes [OF s(5)] by simp
  have rc: "op_class r = op_class m" "op_drawer r = op_drawer m" using r s by simp_all
  have "consistent r" by (rule same_object(1) [OF mc r(2) rc sr])
  moreover have "coords r = map (place i) (coords op)"
    by (simp add: r(6) s(6) m(6) dc place_def split_def comp_def del: coords.simps)
  moreover have "resizeOperation (SCALE i) m = Returns r"
    using resizeOperation_points [OF mc s(1,3)] r(1) by simp
  ultimately show ?thesis
    using m(1,3) d rc sr sm r(7) st by (auto simp del: coords.simps)
qed

section \<open>Drawing on the five canvases\<close>

definition board_ok :: "board \<Rightarrow> bool" where
  "board_ok self \<longleftrightarrow> length (contexts self) = BOARD_NUM \<and>
     contextRid self = map (\<lambda>i. [None, None, None, Some (int i + 1), Some (int i + 1)]) [0..<BOARD_NUM] \<and>
     drawers_ok (drawer_state self) \<and>
     (\<forall>i < BOARD_NUM. registered (int i + 1) (point_resource (drawer_state self)) \<and>
        registered (int i + 1) (eraser_resource (drawer_state self)))"

text \<open>An operation is ready on the board when it is ready under the id of every canvas.\<close>

definition ready_on :: "owb_operation \<Rightarrow> board \<Rightarrow> bool" where
  "ready_on op self \<longleftrightarrow> (\<forall>i < BOARD_NUM. ready op (int i + 1) (drawer_state self))"

lemma ready_object:
  assumes "op_class op' = op_class op" "op_color op' = op_color op" "DrawPoint_isStart op' = DrawPoint_isStart op"
    "Erase_isStart op' = Erase_isStart op"
  shows "ready op' k st = ready op k st"
  using assms by (simp add: ready_def valid_color_def)

lemma line_color: "op_color DrawLine_init = 0"
proof -
  have "op_ok DrawLine_init" using init_consistent(1) by (simp add: consistent_def)
  from OperationData_getters(3) [OF op_data_ok [OF this]] op_data_abs [OF this] show ?thesis
    by (simp add: op_color_def DrawLine_init_def data_abs_init AOperationData_empty_def)
qed

lemma ready_line:
  "ready DrawLine_init k st \<longleftrightarrow> drawers_ok st \<and> registered k (point_resource st) \<and> registered k (eraser_resource st)"
  by (simp add: ready_def valid_color_def line_color COLOR_NUM_def)

lemma draw_rid_irrelevant:
  "c \<notin> {Cls_DrawPoint, Cls_Erase} \<Longrightarrow> draw (drawer_of_class c) op canvas rid st = draw (drawer_of_class c) op canvas rid' st"
  by (cases c) (simp_all add: LineDrawer_draw_def EllipseDrawer_draw_def RectangeDrawer_draw_def)

text \<open>How an operation appears on canvas \<open>i\<close>: its own drawer adds the calls for the placed copy.\<close>

definition appears :: "owb_operation \<Rightarrow> nat \<Rightarrow> canvas \<Rightarrow> canvas \<Rightarrow> bool" where
  "appears op i canvas canvas' \<longleftrightarrow> (\<exists>op' rid st cs st'. consistent op' \<and> op_class op' = op_class op \<and>
     coords op' = map (place i) (coords op) \<and> sint (thinkness op') = sixths i (sint (thinkness op)) \<and>
     draw (drawer_of_class (op_class op)) op' canvas rid st = Returns (canvas', st') \<and> canvas' = canvas @ cs)"

lemma draw_on_step:
  assumes "board_ok self" "showable op" "i < BOARD_NUM" "ready op (int i + 1) (drawer_state self)"
  shows "\<exists>canvas st. draw_on op i self = Returns (self\<lparr>contexts := (contexts self)[i := canvas], drawer_state := st\<rparr>) \<and>
    appears op i (contexts self ! i) canvas \<and> (\<forall>op' k. ready op' k (drawer_state self) \<longrightarrow> ready op' k st)"
proof -
  have c: "consistent op" using assms(2) by (simp add: showable_def)
  have i: "i < 5" using assms(3) by (simp add: BOARD_NUM_def)
  obtain m r where p: "reverseOp (duplicate op) = Returns m" "resizeOperation (SCALE i) m = Returns r"
      "consistent r" "op_class r = op_class op" "coords r = map (place i) (coords op)"
      "sint (thinkness r) = sixths i (sint (thinkness op))" "no_sizes (data_abs r) = no_sizes (data_abs op)"
    using placed_operation [OF assms(2) i] by blast
  have dr: "op_drawer op = Some (drawer_of_class (op_class op))" "op_drawer r = op_drawer op" "op_ok r"
    using c p(3,4) by (simp_all add: consistent_def)
  note same = same_object [OF c dr(3) p(4) dr(2) p(7)]
  have "ready r (int i + 1) (drawer_state self)"
    using assms(4) ready_object [OF p(4) same(2,3,4)] by simp
  from draw_ready [OF p(3) this, of "contexts self ! i"] p(4) obtain cs st where
    d: "draw (drawer_of_class (op_class op)) r (contexts self ! i) (Some (int i + 1)) (drawer_state self) = Returns (contexts self ! i @ cs, st)"
      "\<forall>op' k. ready op' k (drawer_state self) \<longrightarrow> ready op' k st"
    by auto
  have rids: "contextRid self ! i = [None, None, None, Some (int i + 1), Some (int i + 1)]"
    using assms(1,3) by (simp add: board_ok_def)
  have t: "operationType r = type_of_class (op_class op)"
    using same(5) c by (simp add: consistent_def)
  define rid where "rid = [None, None, None, Some (int i + 1), Some (int i + 1)] ! nat (sint (operationType r))"
  have range: "0 \<le> sint (operationType r)" "sint (operationType r) < 5"
    unfolding t by (cases "op_class op"; simp add: owb_types)+
  have "draw (drawer_of_class (op_class op)) r (contexts self ! i) rid (drawer_state self) = Returns (contexts self ! i @ cs, st)"
  proof (cases "op_class op \<in> {Cls_DrawPoint, Cls_Erase}")
    case True
    then have "rid = Some (int i + 1)"
      unfolding rid_def t by (auto simp: owb_types)
    with d(1) show ?thesis by simp
  next
    case False
    with d(1) show ?thesis
      using draw_rid_irrelevant [OF False, of r "contexts self ! i" rid "drawer_state self" "Some (int i + 1)"] by simp
  qed
  note this [unfolded rid_def]
  moreover from this have "appears op i (contexts self ! i) (contexts self ! i @ cs)"
    unfolding appears_def using p(3-6) by blast
  ultimately show ?thesis
    using p(1,2) rids range dr(1) d(2) by (auto simp: draw_on_def Let_def)
qed

lemma board_ok_step:
  assumes "board_ok self" "\<forall>op k. ready op k (drawer_state self) \<longrightarrow> ready op k st" "length cs = BOARD_NUM"
  shows "board_ok (self\<lparr>contexts := cs, drawer_state := st\<rparr>)"
proof -
  have "ready DrawLine_init (int i + 1) st" if "i < BOARD_NUM" for i
  proof -
    have "ready DrawLine_init (int i + 1) (drawer_state self)"
      using assms(1) that by (simp add: board_ok_def ready_line)
    with assms(2) show ?thesis by blast
  qed
  moreover from this [of 0] have "drawers_ok st" by (simp add: ready_line BOARD_NUM_def)
  ultimately show ?thesis using assms(1,3) by (simp add: board_ok_def ready_line)
qed

lemma draw_on_all_step:
  assumes "board_ok self" "showable op" "ready_on op self" "distinct is" "set is \<subseteq> {..<BOARD_NUM}"
  shows "\<exists>cs st. draw_on_all op is self = Returns (self\<lparr>contexts := cs, drawer_state := st\<rparr>) \<and> length cs = BOARD_NUM \<and>
    (\<forall>i \<in> set is. appears op i (contexts self ! i) (cs ! i)) \<and>
    (\<forall>i. i \<notin> set is \<longrightarrow> cs ! i = contexts self ! i) \<and>
    (\<forall>op' k. ready op' k (drawer_state self) \<longrightarrow> ready op' k st)"
  using assms
proof (induction "is" arbitrary: self)
  case Nil
  then show ?case
    by (intro exI [of _ "contexts self"] exI [of _ "drawer_state self"]) (simp add: board_ok_def)
next
  case (Cons i "is")
  have i: "i < BOARD_NUM" using Cons.prems(5) by simp
  have rd: "ready op (int i + 1) (drawer_state self)" using Cons.prems(3) i by (simp add: ready_on_def)
  obtain canvas st where d: "draw_on op i self = Returns (self\<lparr>contexts := (contexts self)[i := canvas], drawer_state := st\<rparr>)"
      "appears op i (contexts self ! i) canvas" "\<forall>op' k. ready op' k (drawer_state self) \<longrightarrow> ready op' k st"
    using draw_on_step [OF Cons.prems(1,2) i rd] by blast
  let ?s = "self\<lparr>contexts := (contexts self)[i := canvas], drawer_state := st\<rparr>"
  have len: "length (contexts self) = BOARD_NUM" using Cons.prems(1) by (simp add: board_ok_def)
  have ok: "board_ok ?s" by (rule board_ok_step [OF Cons.prems(1) d(3)]) (simp add: len)
  have rd': "ready_on op ?s" using Cons.prems(3) d(3) by (simp add: ready_on_def)
  obtain cs st' where r: "draw_on_all op is ?s = Returns (?s\<lparr>contexts := cs, drawer_state := st'\<rparr>)" "length cs = BOARD_NUM"
      "\<forall>j \<in> set is. appears op j (contexts ?s ! j) (cs ! j)" "\<forall>j. j \<notin> set is \<longrightarrow> cs ! j = contexts ?s ! j"
      "\<forall>op' k. ready op' k st \<longrightarrow> ready op' k st'"
    using Cons.IH [OF ok Cons.prems(2) rd'] Cons.prems(4,5) by auto
  have "cs ! i = canvas" using r(4) Cons.prems(4) i len by simp
  moreover have "appears op j (contexts self ! j) (cs ! j)" if "j \<in> set is" for j
  proof -
    have "j \<noteq> i" using that Cons.prems(4) by auto
    moreover have "appears op j (contexts ?s ! j) (cs ! j)" using r(3) that by blast
    ultimately show ?thesis by simp
  qed
  moreover have "cs ! j = contexts self ! j" if "j \<notin> set (i # is)" for j
    using r(4) that by auto
  ultimately show ?case
    using d r by (intro exI [of _ cs] exI [of _ st']) auto
qed

lemma drawOperationBack_step:
  assumes "board_ok self" "showable op" "ready_on op self"
  shows "\<exists>cs st. drawOperationBack op self =
      Returns (self\<lparr>contexts := cs, drawer_state := st, boardOpQueue := boardOpQueue self @ [SaveSnapshot]\<rparr>) \<and>
    length cs = BOARD_NUM \<and> (\<forall>i < BOARD_NUM. appears op i (contexts self ! i) (cs ! i)) \<and>
    (\<forall>op' k. ready op' k (drawer_state self) \<longrightarrow> ready op' k st)"
proof -
  obtain cs st where "draw_on_all op [0..<BOARD_NUM] self = Returns (self\<lparr>contexts := cs, drawer_state := st\<rparr>)"
      "length cs = BOARD_NUM" "\<forall>i \<in> set [0..<BOARD_NUM]. appears op i (contexts self ! i) (cs ! i)"
      "\<forall>op' k. ready op' k (drawer_state self) \<longrightarrow> ready op' k st"
    using draw_on_all_step [OF assms, of "[0..<BOARD_NUM]"] by fastforce
  then show ?thesis
    by (intro exI [of _ cs] exI [of _ st]) (simp add: drawOperationBack_def saveSnapshot_def)
qed

section \<open>Setting up\<close>

definition masks :: "nat \<Rightarrow> drawers \<Rightarrow> bool" where
  "masks k st \<longleftrightarrow> using_mask (point_resource st) = mask_after k \<and> using_mask (eraser_resource st) = mask_after k"

lemma register_both:
  assumes "masks k st" "k < 8" "drawers_ok st"
  obtains st1 st2 where "PointDrawer_registerDataSource st = Returns (int k + 1, st1)"
    "Eraser_registerDataSource st1 = Returns (int k + 1, st2)" "masks (Suc k) st2" "colors st2 = colors st" "drawers_ok st2"
proof -
  have m: "mask_after n AND 0xFF = mask_after n" for n
    by (simp add: mask_after_def ac_simps)
  have p: "using_mask (point_resource st) = mask_after k" "using_mask (eraser_resource st) = mask_after k" "min 8 (Suc k) = Suc k"
    using assms(1,2) by (simp_all add: masks_def)
  note r = register_step [OF p(1)] register_step [OF p(2)]
  show thesis
    by (rule that [of "st\<lparr>point_resource := (point_resource st)\<lparr>using_mask := mask_after (Suc k), register_time := register_time (point_resource st) + 1\<rparr>\<rparr>"
        "st\<lparr>point_resource := (point_resource st)\<lparr>using_mask := mask_after (Suc k), register_time := register_time (point_resource st) + 1\<rparr>,
           eraser_resource := (eraser_resource st)\<lparr>using_mask := mask_after (Suc k), register_time := register_time (eraser_resource st) + 1\<rparr>\<rparr>"])
      (use assms r p m in \<open>simp_all add: PointDrawer_registerDataSource_def Eraser_registerDataSource_def masks_def drawers_ok_def resource_ok_def\<close>)
qed

lemma init_canvases_step:
  assumes "masks k st" "k + length is \<le> 8" "drawers_ok st"
  shows "\<exists>st'. init_canvases is st = Returns (map (\<lambda>i. blank_canvas i st) is,
      map (\<lambda>j. [None, None, None, Some (int j + 1), Some (int j + 1)]) [k..<k + length is], st') \<and>
    masks (k + length is) st' \<and> colors st' = colors st \<and> drawers_ok st'"
  using assms
proof (induction "is" arbitrary: k st)
  case (Cons i "is")
  have "k < 8" using Cons.prems(2) by simp
  from register_both [OF Cons.prems(1) this Cons.prems(3)] obtain st1 st2 where
    r: "PointDrawer_registerDataSource st = Returns (int k + 1, st1)"
      "Eraser_registerDataSource st1 = Returns (int k + 1, st2)" "masks (Suc k) st2" "colors st2 = colors st" "drawers_ok st2"
    by blast
  obtain st' where i: "init_canvases is st2 = Returns (map (\<lambda>i. blank_canvas i st2) is,
      map (\<lambda>j. [None, None, None, Some (int j + 1), Some (int j + 1)]) [Suc k..<Suc k + length is], st')"
      "masks (Suc k + length is) st'" "colors st' = colors st2" "drawers_ok st'"
    using Cons.IH [OF r(3) _ r(5)] Cons.prems(2) by auto
  have "blank_canvas j st2 = blank_canvas j st" for j
    by (simp add: blank_canvas_def r(4))
  moreover have "[k..<k + length (i # is)] = k # [Suc k..<Suc k + length is]"
    by (simp add: upt_conv_Cons del: upt_Suc)
  ultimately show ?case using r i by (simp del: upt_Suc)
qed simp

section \<open>Reading the queues\<close>

lemma test_empty_usable: "usable main_thread q \<Longrightarrow> test_empty q = Returns (isEmpty q, q)"
  by (erule usableE) (simp add: test_empty_def lock_def unLock_def with_lock_def with_unlock_def completes_def isEmpty_def)

text \<open>The loop of \<^verbatim>\<open>drawSelf\<close> drains the queue of its own and does nothing with the operations.\<close>

lemma drawSelf_drain:
  assumes "usable main_thread (realOperationQueue self)"
  shows "returned (drawSelf n self) = andThen (owb_fifo.drain main_thread n (\<lambda>op s. Returns s) (realOperationQueue self) ())
    (\<lambda>(s, q). Returns (self\<lparr>realOperationQueue := q\<rparr>))"
  using assms
proof (induction n arbitrary: self)
  case (Suc n)
  show ?case
  proof (cases "operations (realOperationQueue self)")
    case Nil
    with Suc.prems show ?thesis by (simp add: test_empty_usable isEmpty_def returned_def)
  next
    case (Cons op ops)
    with Suc.IH [of "self\<lparr>realOperationQueue := (realOperationQueue self)\<lparr>operations := ops\<rparr>\<rparr>"] Suc.prems show ?thesis
      by (simp add: test_empty_usable isEmpty_def dequeue_by_usable completes_def)
  qed
qed (simp add: returned_def)

lemma drawSelf_empties:
  assumes "usable main_thread (realOperationQueue self)" "length (operations (realOperationQueue self)) < n"
  shows "\<exists>q. drawSelf n self = Returns (True, self\<lparr>realOperationQueue := q\<rparr>) \<and> usable main_thread q \<and> isEmpty q"
proof -
  have "owb_fifo.handle_list (\<lambda>op s. Returns s) ops s = Returns s" for ops :: "owb_operation list" and s :: unit
    by (induction ops) simp_all
  from owb_fifo.drain_Returns [OF assms this] drawSelf_drain [OF assms(1), of n] show ?thesis
    by (auto simp: isEmpty_def returned_def andThen_Returns split: if_splits)
qed

lemma slice_by_own:
  assumes "consistent op" "usable t q"
  shows "sliceOpertion (drawer_of_class (op_class op)) op t q =
    Did (q\<lparr>operations := operations q @ [op], latestSerialNumber := serialNumber op\<rparr>)"
proof -
  have "operationType op = type_of_class (op_class op)" using assms(1) by (simp add: consistent_def)
  then show ?thesis
    by (cases "op_class op") (simp_all add: slice_checked_def LineDrawer_sliceOpertion_def EllipseDrawer_sliceOpertion_def
        RectangeDrawer_sliceOpertion_def PointDrawer_sliceOpertion_def Eraser_sliceOpertion_def enqueue_by_usable [OF assms(2)])
qed

lemma readOperationQueue_moves:
  assumes "operationQueue self = Some q" "operations q = ops" "usable main_thread q" "usable main_thread (realOperationQueue self)"
    and "list_all consistent ops" "length ops < n"
  shows "\<exists>real. readOperationQueue n self = Returns (True, self\<lparr>operationQueue := Some (q\<lparr>operations := []\<rparr>), realOperationQueue := real,
      mainQueue := mainQueue self @ replicate (length ops) DrawSelf\<rparr>) \<and>
    usable main_thread real \<and> operations real = operations (realOperationQueue self) @ ops"
  using assms
proof (induction n arbitrary: self q ops)
  case (Suc n)
  show ?case
  proof (cases ops)
    case Nil
    then have "q\<lparr>operations := []\<rparr> = q" using Suc.prems(2) by simp
    with Nil Suc.prems show ?thesis
      by (intro exI [of _ "realOperationQueue self"]) (simp add: test_empty_usable isEmpty_def)
  next
    case (Cons op ops')
    let ?q = "q\<lparr>operations := ops'\<rparr>"
    let ?real = "(realOperationQueue self)\<lparr>operations := operations (realOperationQueue self) @ [op], latestSerialNumber := serialNumber op\<rparr>"
    let ?s = "trigerDrawSelf (self\<lparr>operationQueue := Some ?q, realOperationQueue := ?real\<rparr>)"
    have op: "consistent op" "op_drawer op = Some (drawer_of_class (op_class op))"
      using Suc.prems(5) Cons by (simp_all add: consistent_def)
    have "slice_into (Some op) (self\<lparr>operationQueue := Some ?q\<rparr>) = Returns (self\<lparr>operationQueue := Some ?q, realOperationQueue := ?real\<rparr>)"
      using slice_by_own [OF op(1) Suc.prems(4)] op(2) by (simp add: slice_into_def completes_def)
    then have 1: "readOperationQueue (Suc n) self = readOperationQueue n ?s"
      using Suc.prems Cons dequeue_by_usable [OF Suc.prems(3), of op ops']
      by (simp add: test_empty_usable isEmpty_def completes_def)
    have "\<exists>real. readOperationQueue n ?s = Returns (True, ?s\<lparr>operationQueue := Some (?q\<lparr>operations := []\<rparr>), realOperationQueue := real,
        mainQueue := mainQueue ?s @ replicate (length ops') DrawSelf\<rparr>) \<and>
      usable main_thread real \<and> operations real = operations (realOperationQueue ?s) @ ops'"
      by (rule Suc.IH) (use Suc.prems Cons in \<open>simp_all add: trigerDrawSelf_def\<close>)
    with 1 Cons show ?thesis by (auto simp: trigerDrawSelf_def)
  qed
qed simp

section \<open>Sequences of drawings\<close>

fun appear :: "owb_operation list \<Rightarrow> nat \<Rightarrow> canvas \<Rightarrow> canvas \<Rightarrow> bool" where
  "appear [] i c c' \<longleftrightarrow> c' = c"
| "appear (op # ops) i c c' \<longleftrightarrow> (\<exists>m. appears op i c m \<and> appear ops i m c')"

lemma board_steps_Suc: "board_steps n (Suc k) self = andThen (board_step n self) (board_steps n k)"
  by simp

lemma board_steps_add: "board_steps n (j + k) self = andThen (board_steps n j self) (board_steps n k)"
proof (induction j arbitrary: self)
  case (Suc j)
  then show ?case by (cases "board_step n self") simp_all
qed simp

lemma run_snapshots:
  assumes "boardOpQueue self = replicate (Suc k) SaveSnapshot"
  shows "board_steps n (Suc k) self = Returns (self\<lparr>boardOpQueue := [], latestSnapshot := contexts self\<rparr>)"
  using assms
proof (induction k arbitrary: self)
  case 0
  then show ?case by (simp add: board_step_def run_block_def save_block_def)
next
  case (Suc k)
  let ?s = "self\<lparr>boardOpQueue := replicate (Suc k) SaveSnapshot, latestSnapshot := contexts self\<rparr>"
  have "board_step n self = Returns ?s"
    using Suc.prems by (simp add: board_step_def run_block_def save_block_def)
  with Suc.IH [of ?s] board_steps_Suc [of n "Suc k" self] show ?case
    by (simp del: board_steps.simps)
qed

lemma run_drawings:
  assumes "board_ok self" "boardOpQueue self = map DrawOperationBack ops @ bs"
    "list_all (\<lambda>op. showable op \<and> ready_on op self) ops"
  shows "\<exists>cs st. board_steps n (length ops) self = Returns (self\<lparr>contexts := cs, drawer_state := st,
      boardOpQueue := bs @ replicate (length ops) SaveSnapshot\<rparr>) \<and>
    board_ok (self\<lparr>contexts := cs, drawer_state := st, boardOpQueue := bs @ replicate (length ops) SaveSnapshot\<rparr>) \<and>
    (\<forall>i < BOARD_NUM. appear ops i (contexts self ! i) (cs ! i))"
  using assms
proof (induction ops arbitrary: self bs)
  case Nil
  then have "self\<lparr>contexts := contexts self, drawer_state := drawer_state self, boardOpQueue := bs @ replicate (length []) SaveSnapshot\<rparr> = self"
    by simp
  with Nil show ?case
    by (intro exI [of _ "contexts self"] exI [of _ "drawer_state self"]) (simp add: board_ok_def)
next
  case (Cons op ops)
  let ?b = "self\<lparr>boardOpQueue := map DrawOperationBack ops @ bs\<rparr>"
  have ok: "board_ok ?b" "showable op" "ready_on op ?b"
    using Cons.prems by (simp_all add: board_ok_def ready_on_def)
  obtain cs st where d: "drawOperationBack op ?b =
        Returns (?b\<lparr>contexts := cs, drawer_state := st, boardOpQueue := boardOpQueue ?b @ [SaveSnapshot]\<rparr>)"
      "length cs = BOARD_NUM" "\<forall>i < BOARD_NUM. appears op i (contexts ?b ! i) (cs ! i)"
      "\<forall>op' k. ready op' k (drawer_state ?b) \<longrightarrow> ready op' k st"
    using drawOperationBack_step [OF ok] by blast
  let ?s = "?b\<lparr>contexts := cs, drawer_state := st, boardOpQueue := boardOpQueue ?b @ [SaveSnapshot]\<rparr>"
  have step: "board_step n self = Returns ?s"
    using Cons.prems(2) d(1) by (simp add: board_step_def run_block_def)
  have 1: "board_ok ?s"
    using board_ok_step [OF ok(1) d(4,2)] by (simp add: board_ok_def)
  have 2: "boardOpQueue ?s = map DrawOperationBack ops @ bs @ [SaveSnapshot]"
    by simp
  have 3: "list_all (\<lambda>op. showable op \<and> ready_on op ?s) ops"
    using Cons.prems(3) d(4) by (auto simp: list_all_iff ready_on_def)
  obtain cs' st' where r: "board_steps n (length ops) ?s = Returns (?s\<lparr>contexts := cs', drawer_state := st',
        boardOpQueue := (bs @ [SaveSnapshot]) @ replicate (length ops) SaveSnapshot\<rparr>)"
      "board_ok (?s\<lparr>contexts := cs', drawer_state := st', boardOpQueue := (bs @ [SaveSnapshot]) @ replicate (length ops) SaveSnapshot\<rparr>)"
      "\<forall>i < BOARD_NUM. appear ops i (contexts ?s ! i) (cs' ! i)"
    using Cons.IH [OF 1 2 3] by blast
  have "appear (op # ops) i (contexts self ! i) (cs' ! i)" if "i < BOARD_NUM" for i
    using d(3) r(3) that by auto
  with step r(1,2) show ?case
    by (intro exI [of _ cs'] exI [of _ st']) simp
qed

lemma drawOperations_queue:
  "fold drawOperation ops self = self\<lparr>boardOpQueue := boardOpQueue self @ map DrawOperationBack ops\<rparr>"
  by (induction ops arbitrary: self) (simp_all add: drawOperation_def)

section \<open>A board and an operation to begin with\<close>

text \<open>A board right after \<^verbatim>\<open>init\<close>.\<close>

definition board_ready :: "board \<Rightarrow> bool" where
  "board_ready b \<longleftrightarrow> board_ok b \<and> boardOpQueue b = [] \<and> mainQueue b = [] \<and> operationQueue b = None \<and>
     realOperationQueue b = Queue_init \<and> contexts b = map (\<lambda>i. blank_canvas i drawers_init) [0..<BOARD_NUM] \<and>
     latestSnapshot b = contexts b \<and> ready_on DrawLine_init b \<and> ready_on first_point b \<and> ready_on first_wipe b"

lemma new_board:
  obtains b where "BoardModel_init drawers_init = Returns b" "SharedBoard None drawers_init = Returns b" "board_ready b"
proof -
  have m: "masks 0 drawers_init"
    by (simp add: masks_def drawers_init_def PointResource_init_def mask_after_def)
  obtain st where st: "init_canvases [0..<BOARD_NUM] drawers_init = Returns (map (\<lambda>i. blank_canvas i drawers_init) [0..<BOARD_NUM],
      map (\<lambda>j. [None, None, None, Some (int j + 1), Some (int j + 1)]) [0..<BOARD_NUM], st)" "masks 5 st" "drawers_ok st"
    using init_canvases_step [OF m _ drawers_ok_init, of "[0..<BOARD_NUM]"] by (auto simp: BOARD_NUM_def)
  have "registered (int i + 1) (point_resource st) \<and> registered (int i + 1) (eraser_resource st)" if "i < BOARD_NUM" for i
    using st(2) that checkRid_after [of "point_resource st" 5 "int i + 1"] checkRid_after [of "eraser_resource st" 5 "int i + 1"]
    by (simp add: registered_def masks_def BOARD_NUM_def)
  with st(3) that show thesis
    using first_ops by (auto simp: BoardModel_init_def SharedBoard_def st(1) board_ok_def ready_on_def ready_def
        valid_color_def line_color COLOR_NUM_def board_ready_def)
qed

lemma showable_line: "showable DrawLine_init" and coords_line: "coords DrawLine_init = [(0, 0), (0, 0)]"
proof -
  have c: "consistent DrawLine_init" by (rule init_consistent)
  then have ok: "op_ok DrawLine_init" by (simp add: consistent_def)
  have d: "AOperationData_start_point (data_abs DrawLine_init) = None" "AOperationData_end_point (data_abs DrawLine_init) = None"
      "AOperationData_thinkness (data_abs DrawLine_init) = None"
    by (simp_all add: DrawLine_init_def data_abs_init AOperationData_empty_def)
  show coords: "coords DrawLine_init = [(0, 0), (0, 0)]"
    using init_consistent by (simp add: start_point.stored_def end_point.stored_def d APoint_empty_def)
  show "showable DrawLine_init"
    using c coords thinkness_abs [OF ok] by (simp add: showable_def d del: coords.simps)
qed

lemma showable_thick_line:
  "showable (setThinkness 12 DrawLine_init)" "coords (setThinkness 12 DrawLine_init) = [(0, 0), (0, 0)]"
  "thinkness (setThinkness 12 DrawLine_init) = 12"
proof -
  let ?op = "setThinkness 12 DrawLine_init"
  have c: "consistent DrawLine_init" by (rule init_consistent)
  then have ok: "op_ok DrawLine_init" by (simp add: consistent_def)
  note t = put_scalar(2,10) [OF ok, of 12, folded setThinkness_def]
  have k: "op_class ?op = op_class DrawLine_init" "op_drawer ?op = op_drawer DrawLine_init"
    by (simp_all add: setThinkness_def)
  have "no_sizes (data_abs ?op) = no_sizes (data_abs DrawLine_init)"
    by (simp add: t(2))
  from same_object(1) [OF c t(1) k this] have c': "consistent ?op" .
  show th: "thinkness ?op = 12" using t by (simp add: thinkness_abs)
  show coords: "coords ?op = [(0, 0), (0, 0)]"
    using coords_line by (simp add: k t(2) start_point.stored_def end_point.stored_def split: op_class.splits)
  show "showable ?op"
    using c' th coords by (simp add: showable_def del: coords.simps)
qed

section \<open>Properties\<close>

text \<open>
  C14: placement. For every operation of moderate size, reversing a copy and resizing it for
  canvas \<open>i\<close> succeeds and gives an operation of the same class whose points are exactly
  \<open>i + 2\<close> sixths of \<open>(x, 2304 - y)\<close>, truncated towards zero, with the thickness scaled the same
  way and nothing else changed but the axes of an ellipse; the fifth canvas shows the
  points themselves.
\<close>

theorem operation_is_placed:
  assumes "showable op" "i < BOARD_NUM"
  shows "\<exists>op'. andThen (reverseOp (duplicate op)) (resizeOperation (SCALE i)) = Returns op' \<and> consistent op' \<and>
    op_class op' = op_class op \<and> coords op' = map (\<lambda>(x, y). (sixths i x, sixths i (2304 - y))) (coords op) \<and>
    sint (thinkness op') = sixths i (sint (thinkness op)) \<and> no_sizes (data_abs op') = no_sizes (data_abs op) \<and>
    map (\<lambda>(x, y). (sixths 4 x, sixths 4 (2304 - y))) (coords op) = map (\<lambda>(x, y). (x, 2304 - y)) (coords op)"
  using placed_operation [OF assms(1), of i] assms(2) unfolding BOARD_NUM_def place_def
  by (auto simp del: coords.simps)

theorem operation_is_placed_witness:
  "\<exists>op'. andThen (reverseOp (duplicate (setThinkness 12 DrawLine_init))) (resizeOperation (SCALE 1)) = Returns op' \<and>
     coords op' = [(0, 1152), (0, 1152)] \<and> sint (thinkness op') = 6"
  using operation_is_placed [OF showable_thick_line(1), of 1]
  by (auto simp: BOARD_NUM_def showable_thick_line sixths_def simp del: coords.simps)

text \<open>
  Setting up. From untouched drawers the board gets five blank canvases of its sizes whose
  snapshots show them, with the ids 1 to 5 registered at both free-hand drawers, and it is
  ready for every operation that is not in the middle of a stroke.
\<close>

theorem new_board_is_ready:
  "\<exists>b. BoardModel_init drawers_init = Returns b \<and> SharedBoard None drawers_init = Returns b \<and> board_ok b \<and>
     contexts b = map (\<lambda>i. blank_canvas i drawers_init) [0..<BOARD_NUM] \<and> latestSnapshot b = contexts b \<and>
     ready_on DrawLine_init b \<and> ready_on first_point b \<and> ready_on first_wipe b"
  by (rule new_board) (auto simp: board_ready_def)



text \<open>
  C33: a document loaded synchronously covers what was drawn. It waits for the drawings queued
  before it, then draws the document over all of every canvas, empties both operation
  queues and refreshes the display; only snapshots are left to take.
\<close>

theorem loaded_document_covers_pending:
  assumes "board_ok self" "boardOpQueue self = []" "list_all (\<lambda>op. showable op \<and> ready_on op self) ops"
    and "operationQueue self = Some q" "usable board_thread q" "usable board_thread (realOperationQueue self)"
  shows "\<exists>self'. loadDocumentSync n doc (fold drawOperation ops self) = Returns self' \<and>
    (\<forall>i < BOARD_NUM. \<exists>c. appear ops i (contexts self ! i) c \<and>
      contexts self' ! i = c @ [DrawImage (board_rect i) (OwbClientDocument_data doc), Flush]) \<and>
    operationQueue self' = Some (q\<lparr>operations := []\<rparr>) \<and> isEmpty (realOperationQueue self') \<and>
    boardOpQueue self' = replicate (length ops) SaveSnapshot \<and>
    displayer self' = map_option (\<lambda>v. v\<lparr>refreshes := refreshes v + 1\<rparr>) (displayer self)"
proof -
  let ?l = "LoadDocument (OwbClientDocument_data doc) False"
  let ?s = "(fold drawOperation ops self)\<lparr>boardOpQueue := boardOpQueue (fold drawOperation ops self) @ [?l]\<rparr>"
  have q: "?s = self\<lparr>boardOpQueue := map DrawOperationBack ops @ [?l]\<rparr>"
    using assms(2) by (simp add: drawOperations_queue)
  have s: "board_ok ?s" "boardOpQueue ?s = map DrawOperationBack ops @ [?l]" "list_all (\<lambda>op. showable op \<and> ready_on op ?s) ops"
    using assms(1,3) by (simp_all add: q board_ok_def ready_on_def)
  have len: "length (boardOpQueue (fold drawOperation ops self)) = length ops"
    using assms(2) by (simp add: drawOperations_queue)
  obtain cs st where r: "board_steps n (length ops) ?s = Returns (?s\<lparr>contexts := cs, drawer_state := st,
        boardOpQueue := [?l] @ replicate (length ops) SaveSnapshot\<rparr>)"
      "\<forall>i < BOARD_NUM. appear ops i (contexts ?s ! i) (cs ! i)"
    using run_drawings [OF s] by blast
  let ?d = "?s\<lparr>contexts := cs, drawer_state := st, boardOpQueue := [?l] @ replicate (length ops) SaveSnapshot\<rparr>"
  let ?e = "?d\<lparr>boardOpQueue := replicate (length ops) SaveSnapshot,
      contexts := map (\<lambda>i. cs ! i @ [DrawImage (board_rect i) (OwbClientDocument_data doc), Flush]) [0..<BOARD_NUM],
      realOperationQueue := (realOperationQueue self)\<lparr>operations := []\<rparr>, operationQueue := Some (q\<lparr>operations := []\<rparr>)\<rparr>"
  have e: "board_step n ?d = Returns ?e"
    using assms(4) clear_by_usable [OF assms(5)] clear_by_usable [OF assms(6)]
    by (simp add: board_step_def run_block_def load_block_def completes_def q)
  have "board_steps n (Suc (length ops)) ?s = Returns ?e"
    using board_steps_add [of n "length ops" 1 ?s] r(1) e by simp
  then have l: "loadDocumentSync n doc (fold drawOperation ops self) = Returns (display_view ?e)"
    unfolding loadDocumentSync_def Let_def len by simp
  show ?thesis
    by (rule exI [of _ "display_view ?e"]) (use l r(2) in \<open>auto simp: display_view_def q isEmpty_def\<close>)
qed

theorem loaded_document_covers_pending_witness:
  "\<exists>b b'. BoardModel_init drawers_init = Returns b \<and>
     loadDocumentSync 0 Document_default (drawOperation DrawLine_init (attachOpeartionQueue Queue_init b)) = Returns b' \<and>
     boardOpQueue b' = [SaveSnapshot] \<and>
     (\<exists>c. appear [DrawLine_init] 0 (blank_canvas 0 drawers_init) c \<and>
        contexts b' ! 0 = c @ [DrawImage (board_rect 0) (OwbClientDocument_data Document_default), Flush])"
proof (rule new_board)
  fix b
  assume b: "BoardModel_init drawers_init = Returns b" "board_ready b"
  let ?b = "attachOpeartionQueue Queue_init b"
  have "contexts b ! 0 = blank_canvas 0 drawers_init"
    using b(2) by (simp add: board_ready_def BOARD_NUM_def upt_conv_Cons del: upt_Suc)
  moreover have "board_ok ?b" "boardOpQueue ?b = []" "ready_on DrawLine_init ?b" "operationQueue ?b = Some Queue_init"
      "realOperationQueue ?b = Queue_init" "contexts ?b = contexts b"
    using b(2) by (simp_all add: board_ready_def attachOpeartionQueue_def board_ok_def ready_on_def)
  ultimately show ?thesis
    using b(1) loaded_document_covers_pending [of ?b "[DrawLine_init]" Queue_init 0 Document_default] showable_line
    by (fastforce simp: BOARD_NUM_def simp del: appear.simps)
qed

text \<open>
  C39: the reading loop ends and hands over everything. With enough turns it moves all operations
  of the attached queue, in order, to the board's own queue and asks for one drawing per
  operation; the drawing loop that follows then empties that queue.
\<close>

theorem read_loops_hand_over:
  assumes "operationQueue self = Some q" "usable main_thread q" "usable main_thread (realOperationQueue self)"
    and "list_all consistent (operations q)" "length (operations q) < n" "length (operations (realOperationQueue self)) + length (operations q) < k"
  shows "\<exists>self' self''. readOperationQueue n self = Returns (True, self') \<and> operationQueue self' = Some (q\<lparr>operations := []\<rparr>) \<and>
    operations (realOperationQueue self') = operations (realOperationQueue self) @ operations q \<and>
    mainQueue self' = mainQueue self @ replicate (length (operations q)) DrawSelf \<and>
    drawSelf k self' = Returns (True, self'') \<and> isEmpty (realOperationQueue self'') \<and> contexts self'' = contexts self"
proof -
  obtain real where r: "readOperationQueue n self = Returns (True, self\<lparr>operationQueue := Some (q\<lparr>operations := []\<rparr>), realOperationQueue := real,
      mainQueue := mainQueue self @ replicate (length (operations q)) DrawSelf\<rparr>)"
    "usable main_thread real" "operations real = operations (realOperationQueue self) @ operations q"
    using readOperationQueue_moves [OF assms(1) refl assms(2-5)] by blast
  let ?s = "self\<lparr>operationQueue := Some (q\<lparr>operations := []\<rparr>), realOperationQueue := real,
      mainQueue := mainQueue self @ replicate (length (operations q)) DrawSelf\<rparr>"
  have "usable main_thread (realOperationQueue ?s)" "length (operations (realOperationQueue ?s)) < k"
    using r assms(6) by simp_all
  from drawSelf_empties [OF this] r show ?thesis by auto
qed

theorem read_loops_hand_over_witness:
  "\<exists>b b' b''. BoardModel_init drawers_init = Returns b \<and>
     readOperationQueue 2 (attachOpeartionQueue (Queue_init\<lparr>operations := [DrawLine_init]\<rparr>) b) = Returns (True, b') \<and>
     operations (realOperationQueue b') = [DrawLine_init] \<and> mainQueue b' = [DrawSelf] \<and>
     drawSelf 2 b' = Returns (True, b'') \<and> isEmpty (realOperationQueue b'')"
proof (rule new_board)
  fix b
  assume b: "BoardModel_init drawers_init = Returns b" "board_ready b"
  let ?q = "Queue_init\<lparr>operations := [DrawLine_init]\<rparr>"
  let ?b = "attachOpeartionQueue ?q b"
  have f: "operationQueue ?b = Some ?q" "realOperationQueue ?b = Queue_init" "mainQueue ?b = []" "operations Queue_init = []"
    using b(2) by (simp_all add: board_ready_def attachOpeartionQueue_def Queue_init_def)
  obtain b' b'' where "readOperationQueue 2 ?b = Returns (True, b')" "operations (realOperationQueue b') = [DrawLine_init]"
      "mainQueue b' = [DrawSelf]" "drawSelf 2 b' = Returns (True, b'')" "isEmpty (realOperationQueue b'')"
    using read_loops_hand_over [of ?b ?q 2 2] f init_consistent(1) by auto
  with b(1) show ?thesis by blast
qed

text \<open>
  without an attached queue the reading loop never ends: whatever number of turns it is given,
  it has taken all of them and has not returned, and every turn has put one more drawing block
  on the main queue.
\<close>

lemma reading_without_queue_diverges:
  assumes "operationQueue self = None"
  shows "readOperationQueue n self = Returns (False, self\<lparr>mainQueue := mainQueue self @ replicate n DrawSelf\<rparr>)"
  using assms by (induction n arbitrary: self) (simp_all add: trigerDrawSelf_def)

theorem reading_without_queue_diverges_witness:
  "\<exists>b. BoardModel_init drawers_init = Returns b \<and>
     readOperationQueue 3 b = Returns (False, b\<lparr>mainQueue := [DrawSelf, DrawSelf, DrawSelf]\<rparr>)"
proof (rule new_board)
  fix b
  assume b: "BoardModel_init drawers_init = Returns b" "board_ready b"
  then show ?thesis
    using reading_without_queue_diverges [of b 3]
    by (simp add: board_ready_def numeral_eq_Suc del: readOperationQueue.simps)
qed

end
