(* ===== verification/Server_Delegate.thy ===== *)
theory Server_Delegate
  imports Operation_Queue
begin

text \<open>
  The way to the servers: \<^verbatim>\<open>NetWork/ServerDelegate\<close>, the C++ singleton that calls the remote
  methods of \<^verbatim>\<open>NetWork/internal/RcfDefine.h\<close>, and \<^verbatim>\<open>Server/OwbClientServerDelegate.mm\<close>, its
  Objective-C face. The remote methods themselves are a parameter.
\<close>

section \<open>The remote methods\<close>

text \<open>
  The client stubs that RCF makes of the interfaces \<^verbatim>\<open>Updater\<close>, \<^verbatim>\<open>Monitor\<close> and \<^verbatim>\<open>Provider\<close>: each call
  goes to an address and a port and changes the state \<open>'n\<close> of whatever is behind it. A 32-bit
  argument keeps its bits when it is converted between \<^verbatim>\<open>int\<close> and \<^verbatim>\<open>uint32_t\<close>.
\<close>

type_synonym endpoint = "bytes \<times> int32"

type_synonym ('n, 'a) call = "'n \<Rightarrow> 'a outcome \<times> 'n"

record 'n network =
  rpc_WriteOperationToPool :: "endpoint \<Rightarrow> Operation \<Rightarrow> ('n, bool) call"
  rpc_SetDocument :: "endpoint \<Rightarrow> uint32 \<Rightarrow> ('n, bool) call"
  rpc_Login :: "endpoint \<Rightarrow> User \<Rightarrow> ('n, bool) call"
  rpc_CreateMeeting :: "endpoint \<Rightarrow> bytes \<Rightarrow> ('n, bytes) call"
  rpc_JoinMeeting :: "endpoint \<Rightarrow> bytes \<Rightarrow> bytes \<Rightarrow> ('n, JoinMeetingReturn) call"
  rpc_TransferAuth :: "endpoint \<Rightarrow> bytes \<Rightarrow> bytes \<Rightarrow> ('n, int32) call"
  rpc_RequestAuth :: "endpoint \<Rightarrow> bytes \<Rightarrow> bytes \<Rightarrow> ('n, bool) call"
  rpc_GetCurrentUserList :: "endpoint \<Rightarrow> bytes \<Rightarrow> ('n, UserList) call"
  rpc_HeartBeat :: "endpoint \<Rightarrow> HeartBeatSendPackage \<Rightarrow> ('n, HeartReturnPackage) call"
  rpc_ResumeUpdater :: "endpoint \<Rightarrow> bytes \<Rightarrow> ('n, bool) call"
  rpc_GetOperations :: "endpoint \<Rightarrow> bytes \<Rightarrow> uint32 \<Rightarrow> ('n, Operations) call"
  rpc_GetLatestDocument :: "endpoint \<Rightarrow> bytes \<Rightarrow> ('n, Document) call"
  rpc_GetHistorySnapshots :: "endpoint \<Rightarrow> bytes \<Rightarrow> ('n, DocumentList) call"
  rpc_GetDocument :: "endpoint \<Rightarrow> bytes \<Rightarrow> uint32 \<Rightarrow> ('n, Document) call"

section \<open>\<^verbatim>\<open>ServerDelegate\<close>\<close>

text \<open>The constructor initialises no port: a port that was never bound has no value.\<close>

record server_delegate =
  updater_ip_address :: bytes
  updater_port :: "int32 option"
  provider_ip_address :: bytes
  provider_port :: "int32 option"
  monitor_ip_address :: bytes
  monitor_port :: "int32 option"

definition ServerDelegate_new :: server_delegate where
  "ServerDelegate_new = \<lparr>updater_ip_address = [], updater_port = None, provider_ip_address = [], provider_port = None,
     monitor_ip_address = [], monitor_port = None\<rparr>"

definition BindUpdaterIpAndPort :: "bytes \<Rightarrow> int32 \<Rightarrow> server_delegate \<Rightarrow> server_delegate" where
  "BindUpdaterIpAndPort ip port self = self\<lparr>updater_ip_address := ip, updater_port := Some port\<rparr>"

definition BindMonitorIpAndPort :: "bytes \<Rightarrow> int32 \<Rightarrow> server_delegate \<Rightarrow> server_delegate" where
  "BindMonitorIpAndPort ip port self = self\<lparr>monitor_ip_address := ip, monitor_port := Some port\<rparr>"

definition BindProviderIpAndPort :: "bytes \<Rightarrow> int32 \<Rightarrow> server_delegate \<Rightarrow> server_delegate" where
  "BindProviderIpAndPort ip port self = self\<lparr>provider_ip_address := ip, provider_port := Some port\<rparr>"

text \<open>A client stub is made for an endpoint, and one call goes through it.\<close>

definition client_call :: "bytes \<Rightarrow> int32 option \<Rightarrow> (endpoint \<Rightarrow> ('n, 'a) call) \<Rightarrow> ('n, 'a) call" where
  "client_call ip port rpc n = (case port of None \<Rightarrow> (Undefined, n) | Some p \<Rightarrow> rpc (ip, p) n)"

text \<open>\<^verbatim>\<open>catch (RCF::Exception e)\<close>\<close>

definition catch_rcf :: "(bytes \<Rightarrow> 'a outcome) \<Rightarrow> 'a outcome \<times> 'n \<Rightarrow> 'a outcome \<times> 'n" where
  "catch_rcf handler r = (case r of (Throws (RcfException what), n) \<Rightarrow> (handler what, n) | _ \<Rightarrow> r)"

definition WriteOperationToPool :: "'n network \<Rightarrow> Operation \<Rightarrow> server_delegate \<Rightarrow> ('n, bool) call" where
  "WriteOperationToPool net operation self n =
     catch_rcf (\<lambda>what. Returns False)
       (client_call (updater_ip_address self) (updater_port self) (\<lambda>e. rpc_WriteOperationToPool net e operation) n)"

definition SetDocument :: "'n network \<Rightarrow> int32 \<Rightarrow> server_delegate \<Rightarrow> ('n, bool) call" where
  "SetDocument net docNumber self n =
     catch_rcf (\<lambda>what. Returns False)
       (client_call (updater_ip_address self) (updater_port self) (\<lambda>e. rpc_SetDocument net e docNumber) n)"

definition Login :: "'n network \<Rightarrow> User \<Rightarrow> server_delegate \<Rightarrow> ('n, bool) call" where
  "Login net user self = client_call (monitor_ip_address self) (monitor_port self) (\<lambda>e. rpc_Login net e user)"

definition CreateMeeting :: "'n network \<Rightarrow> bytes \<Rightarrow> server_delegate \<Rightarrow> ('n, bytes) call" where
  "CreateMeeting net user_name self =
     client_call (monitor_ip_address self) (monitor_port self) (\<lambda>e. rpc_CreateMeeting net e user_name)"

definition JoinMeeting :: "'n network \<Rightarrow> bytes \<Rightarrow> bytes \<Rightarrow> server_delegate \<Rightarrow> ('n, JoinMeetingReturn) call" where
  "JoinMeeting net user_name meeting_id self =
     client_call (monitor_ip_address self) (monitor_port self) (\<lambda>e. rpc_JoinMeeting net e user_name meeting_id)"

definition TransferAuth :: "'n network \<Rightarrow> bytes \<Rightarrow> bytes \<Rightarrow> server_delegate \<Rightarrow> ('n, int32) call" where
  "TransferAuth net user_name meeting_id self =
     client_call (monitor_ip_address self) (monitor_port self) (\<lambda>e. rpc_TransferAuth net e user_name meeting_id)"

definition RequestAuth :: "'n network \<Rightarrow> bytes \<Rightarrow> bytes \<Rightarrow> server_delegate \<Rightarrow> ('n, bool) call" where
  "RequestAuth net user_name meeting_id self =
     client_call (monitor_ip_address self) (monitor_port self) (\<lambda>e. rpc_RequestAuth net e user_name meeting_id)"

definition GetCurrentUserList :: "'n network \<Rightarrow> bytes \<Rightarrow> server_delegate \<Rightarrow> ('n, UserList) call" where
  "GetCurrentUserList net meeting_id self =
     client_call (monitor_ip_address self) (monitor_port self) (\<lambda>e. rpc_GetCurrentUserList net e meeting_id)"

definition HeartBeat :: "'n network \<Rightarrow> HeartBeatSendPackage \<Rightarrow> server_delegate \<Rightarrow> ('n, HeartReturnPackage) call" where
  "HeartBeat net package self =
     client_call (monitor_ip_address self) (monitor_port self) (\<lambda>e. rpc_HeartBeat net e package)"

definition ResumeUpdater :: "'n network \<Rightarrow> bytes \<Rightarrow> server_delegate \<Rightarrow> ('n, bool) call" where
  "ResumeUpdater net meeting_id self =
     client_call (monitor_ip_address self) (monitor_port self) (\<lambda>e. rpc_ResumeUpdater net e meeting_id)"

text \<open>\<^verbatim>\<open>GetOperations\<close> catches the exception to print it and throws it again.\<close>

definition GetOperations :: "'n network \<Rightarrow> bytes \<Rightarrow> int32 \<Rightarrow> server_delegate \<Rightarrow> ('n, Operations) call" where
  "GetOperations net meeting_id latest_serial_number self n =
     catch_rcf (\<lambda>what. Throws (RcfException what))
       (client_call (provider_ip_address self) (provider_port self) (\<lambda>e. rpc_GetOperations net e meeting_id latest_serial_number) n)"

definition GetLatestDocument :: "'n network \<Rightarrow> bytes \<Rightarrow> server_delegate \<Rightarrow> ('n, Document) call" where
  "GetLatestDocument net meeting_id self =
     client_call (provider_ip_address self) (provider_port self) (\<lambda>e. rpc_GetLatestDocument net e meeting_id)"

definition GetHistorySnapshots :: "'n network \<Rightarrow> bytes \<Rightarrow> server_delegate \<Rightarrow> ('n, DocumentList) call" where
  "GetHistorySnapshots net meeting_id self =
     client_call (provider_ip_address self) (provider_port self) (\<lambda>e. rpc_GetHistorySnapshots net e meeting_id)"

definition GetDocument :: "'n network \<Rightarrow> bytes \<Rightarrow> int32 \<Rightarrow> server_delegate \<Rightarrow> ('n, Document) call" where
  "GetDocument net meeting_id serial_number self =
     client_call (provider_ip_address self) (provider_port self) (\<lambda>e. rpc_GetDocument net e meeting_id serial_number)"

section \<open>\<^verbatim>\<open>OwbClientServerDelegate\<close>\<close>

text \<open>
  The two singletons of the process and the network behind them. The Objective-C object has no
  state of its own.
\<close>

record 'n world =
  server_delegate_instance :: "server_delegate option"
  serverDelegateInstance :: bool
  net_state :: 'n

type_synonym ('n, 'a) action = "'n world \<Rightarrow> 'a outcome \<times> 'n world"

definition world_init :: "'n \<Rightarrow> 'n world" where
  "world_init n = \<lparr>server_delegate_instance = None, serverDelegateInstance = False, net_state = n\<rparr>"

definition GetInstance :: "'n world \<Rightarrow> server_delegate \<times> 'n world" where
  "GetInstance w =
     (case server_delegate_instance w of
        None \<Rightarrow> (ServerDelegate_new, w\<lparr>server_delegate_instance := Some ServerDelegate_new\<rparr>)
      | Some self \<Rightarrow> (self, w))"

definition SERVER_call :: "(server_delegate \<Rightarrow> ('n, 'a) call) \<Rightarrow> ('n, 'a) action" where
  "SERVER_call f w =
     (let (self, w) = GetInstance w; (r, n) = f self (net_state w) in (r, w\<lparr>net_state := n\<rparr>))"

definition SERVER_bind :: "(server_delegate \<Rightarrow> server_delegate) \<Rightarrow> ('n, unit) action" where
  "SERVER_bind f w = (let (self, w) = GetInstance w in (Returns (), w\<lparr>server_delegate_instance := Some (f self)\<rparr>))"

text \<open>\<^verbatim>\<open>std::string([s UTF8String])\<close> and what follows; a result handed on.\<close>

definition with_string :: "nsstring \<Rightarrow> (bytes \<Rightarrow> ('n, 'a) action) \<Rightarrow> ('n, 'a) action" where
  "with_string s f w = (case UTF8String s of Returns u \<Rightarrow> f u w | Throws e \<Rightarrow> (Throws e, w) | Undefined \<Rightarrow> (Undefined, w))"

definition result :: "('a \<Rightarrow> 'b outcome) \<Rightarrow> ('n, 'a) action \<Rightarrow> ('n, 'b) action" where
  "result f a w = (case a w of (r, w) \<Rightarrow> (andThen r f, w))"

definition sendOperation :: "'n network \<Rightarrow> owb_operation \<Rightarrow> ('n, bool) action" where
  "sendOperation net operation = SERVER_call (WriteOperationToPool net (toOperation operation))"

definition setDocument :: "'n network \<Rightarrow> int32 \<Rightarrow> ('n, bool) action" where
  "setDocument net docNumber = SERVER_call (SetDocument net docNumber)"

definition login :: "'n network \<Rightarrow> User \<Rightarrow> ('n, bool) action" where
  "login net user = SERVER_call (Login net (toUser user))"

definition createMeeting :: "'n network \<Rightarrow> nsstring \<Rightarrow> ('n, nsstring) action" where
  "createMeeting net userName =
     with_string userName (\<lambda>un. result (\<lambda>mi. Returns (stringWithUTF8String mi)) (SERVER_call (CreateMeeting net un)))"

definition joinMeeting :: "'n network \<Rightarrow> nsstring \<Rightarrow> nsstring \<Rightarrow> ('n, JoinMeetingReturn) action" where
  "joinMeeting net userName meeting =
     with_string userName (\<lambda>un. with_string meeting (\<lambda>mi.
       result (\<lambda>re. Returns (OwbClientJoinMeetingReturn_initFromJoinPac re)) (SERVER_call (JoinMeeting net un mi))))"

definition transferAuth :: "'n network \<Rightarrow> nsstring \<Rightarrow> nsstring \<Rightarrow> ('n, int32) action" where
  "transferAuth net userName meeting =
     with_string userName (\<lambda>un. with_string meeting (\<lambda>mi. SERVER_call (TransferAuth net un mi)))"

definition requestAuth :: "'n network \<Rightarrow> nsstring \<Rightarrow> nsstring \<Rightarrow> ('n, bool) action" where
  "requestAuth net userName meeting =
     with_string userName (\<lambda>un. with_string meeting (\<lambda>mi. SERVER_call (RequestAuth net un mi)))"

definition getCurrentUserList :: "'n network \<Rightarrow> nsstring \<Rightarrow> ('n, User list) action" where
  "getCurrentUserList net meeting =
     with_string meeting (\<lambda>mi.
       result (\<lambda>ul. Returns (OwbClientUserList_initFromUserList ul)) (SERVER_call (GetCurrentUserList net mi)))"

definition heartBeat :: "'n network \<Rightarrow> HeartBeatSendPackage \<Rightarrow> ('n, HeartReturnPackage) action" where
  "heartBeat net package =
     result (\<lambda>re. Returns (OwbClientHeartReturnPackage_initFromRPac re)) (SERVER_call (HeartBeat net (toSPac package)))"

definition resumeUpdater :: "'n network \<Rightarrow> nsstring \<Rightarrow> ('n, bool) action" where
  "resumeUpdater net meeting = with_string meeting (\<lambda>mi. SERVER_call (ResumeUpdater net mi))"

definition getOperationList :: "'n network \<Rightarrow> nsstring \<Rightarrow> int32 \<Rightarrow> ('n, owb_operation_list) action" where
  "getOperationList net meeting serial =
     with_string meeting (\<lambda>mi.
       result OwbClientOperationList_initFromOperationList (SERVER_call (GetOperations net mi serial)))"

definition getDocument :: "'n network \<Rightarrow> nsstring \<Rightarrow> int32 \<Rightarrow> ('n, Document) action" where
  "getDocument net meeting serial =
     with_string meeting (\<lambda>mi.
       result (\<lambda>doc. Returns (OwbClientDocument_initFromDocument doc)) (SERVER_call (GetDocument net mi serial)))"

definition getLatestDocument :: "'n network \<Rightarrow> nsstring \<Rightarrow> ('n, Document) action" where
  "getLatestDocument net meeting =
     with_string meeting (\<lambda>mi.
       result (\<lambda>doc. Returns (OwbClientDocument_initFromDocument doc)) (SERVER_call (GetLatestDocument net mi)))"

definition getHistorySnapshots :: "'n network \<Rightarrow> nsstring \<Rightarrow> ('n, Document list) action" where
  "getHistorySnapshots net meeting =
     with_string meeting (\<lambda>mi.
       result (\<lambda>dl. Returns (OwbClientDocumentList_initFromDocumentList dl)) (SERVER_call (GetHistorySnapshots net mi)))"

definition bindUpdaterIp :: "nsstring \<Rightarrow> int32 \<Rightarrow> ('n, unit) action" where
  "bindUpdaterIp ipAddress port = with_string ipAddress (\<lambda>ip. SERVER_bind (BindUpdaterIpAndPort ip port))"

definition bindProviderIp :: "nsstring \<Rightarrow> int32 \<Rightarrow> ('n, unit) action" where
  "bindProviderIp ipAddress port = with_string ipAddress (\<lambda>ip. SERVER_bind (BindProviderIpAndPort ip port))"

definition bindMonitorIp :: "nsstring \<Rightarrow> int32 \<Rightarrow> ('n, unit) action" where
  "bindMonitorIp ipAddress port = with_string ipAddress (\<lambda>ip. SERVER_bind (BindMonitorIpAndPort ip port))"

definition sharedServerDelegate :: "'n world \<Rightarrow> 'n world" where
  "sharedServerDelegate w = w\<lparr>serverDelegateInstance := True\<rparr>"

section \<open>How a call ends\<close>

text \<open>What RCF documents of a stub: a call returns or throws an \<^verbatim>\<open>RCF::Exception\<close>.\<close>

definition rcf_result :: "'a outcome \<Rightarrow> bool" where
  "rcf_result r \<longleftrightarrow> (\<exists>x. r = Returns x) \<or> (\<exists>what. r = Throws (RcfException what))"

lemma rcf_result_simps [simp]: "rcf_result (Returns x)" "rcf_result (Throws (RcfException what))" "\<not> rcf_result Undefined"
  by (simp_all add: rcf_result_def)

lemma SERVER_call_bound:
  assumes "server_delegate_instance w = Some self"
  shows "SERVER_call f w = (fst (f self (net_state w)), w\<lparr>net_state := snd (f self (net_state w))\<rparr>)"
  using assms by (simp add: SERVER_call_def GetInstance_def split: prod.splits)

lemma client_call_bound [simp]: "client_call ip (Some p) rpc n = rpc (ip, p) n"
  by (simp add: client_call_def)

lemma client_call_unbound [simp]: "client_call ip None rpc n = (Undefined, n)"
  by (simp add: client_call_def)

lemma catch_rcf_simps [simp]:
  "catch_rcf h (Returns x, n) = (Returns x, n)" "catch_rcf h (Undefined, n) = (Undefined, n)"
  "catch_rcf h (Throws (RcfException what), n) = (h what, n)"
  by (simp_all add: catch_rcf_def)

lemma catch_rethrow [simp]: "catch_rcf (\<lambda>what. Throws (RcfException what)) r = r"
  by (cases r) (auto simp: catch_rcf_def split: outcome.splits exn.splits)

lemma with_string_simps [simp]:
  "with_string None f w = (Undefined, w)" "with_string (Some s) f w = f (c_string s) w"
  by (simp_all add: with_string_def UTF8String_def)

lemma result_pair: "result f a w = (andThen (fst (a w)) f, snd (a w))"
  by (simp add: result_def split: prod.splits)

lemmas remote_defs = WriteOperationToPool_def SetDocument_def Login_def CreateMeeting_def JoinMeeting_def TransferAuth_def
  RequestAuth_def GetCurrentUserList_def HeartBeat_def ResumeUpdater_def GetOperations_def GetLatestDocument_def
  GetHistorySnapshots_def GetDocument_def

lemmas method_defs = sendOperation_def setDocument_def login_def createMeeting_def joinMeeting_def transferAuth_def
  requestAuth_def getCurrentUserList_def heartBeat_def resumeUpdater_def getOperationList_def getDocument_def
  getLatestDocument_def getHistorySnapshots_def

section \<open>Polling over the network\<close>

text \<open>\<^verbatim>\<open>getServerData\<close> of a queue with the shared delegate as its server.\<close>

definition poll_server :: "'n network \<Rightarrow> thread \<Rightarrow> op_queue \<Rightarrow> 'n world \<Rightarrow> (int32 \<times> op_queue) outcome \<times> 'n world" where
  "poll_server net t q w =
     (let w = sharedServerDelegate w
      in (getServerData (\<lambda>m n. fst (getOperationList net m n w)) t q,
          snd (getOperationList net (meetingId q) (latestSerialNumber q) w)))"

lemma poll_server_result:
  assumes "server_delegate_instance w = Some d" "provider_port d = Some port" "meetingId q = Some m"
    and "rpc_GetOperations net (provider_ip_address d, port) (c_string m) (latestSerialNumber q) (net_state w) = (r, n)"
  shows "poll_server net t q w =
    (getServerData (\<lambda>_ _. andThen r OwbClientOperationList_initFromOperationList) t q, (sharedServerDelegate w)\<lparr>net_state := n\<rparr>)"
proof -
  have "getOperationList net (Some m) (latestSerialNumber q) (sharedServerDelegate w) =
      (andThen r OwbClientOperationList_initFromOperationList, (sharedServerDelegate w)\<lparr>net_state := n\<rparr>)"
    using assms(1,2,4)
    by (simp add: getOperationList_def result_pair SERVER_call_bound [of _ d] sharedServerDelegate_def GetOperations_def)
  then show ?thesis
    by (simp add: poll_server_def Let_def getServerData_def assms(3))
qed

text \<open>A network that is down: every stub throws.\<close>

definition down_network :: "'n network" where
  "down_network =
     \<lparr>rpc_WriteOperationToPool = \<lambda>_ _ n. (Throws (RcfException []), n), rpc_SetDocument = \<lambda>_ _ n. (Throws (RcfException []), n),
      rpc_Login = \<lambda>_ _ n. (Throws (RcfException []), n), rpc_CreateMeeting = \<lambda>_ _ n. (Throws (RcfException []), n),
      rpc_JoinMeeting = \<lambda>_ _ _ n. (Throws (RcfException []), n), rpc_TransferAuth = \<lambda>_ _ _ n. (Throws (RcfException []), n),
      rpc_RequestAuth = \<lambda>_ _ _ n. (Throws (RcfException []), n), rpc_GetCurrentUserList = \<lambda>_ _ n. (Throws (RcfException []), n),
      rpc_HeartBeat = \<lambda>_ _ n. (Throws (RcfException []), n), rpc_ResumeUpdater = \<lambda>_ _ n. (Throws (RcfException []), n),
      rpc_GetOperations = \<lambda>_ _ _ n. (Throws (RcfException []), n), rpc_GetLatestDocument = \<lambda>_ _ n. (Throws (RcfException []), n),
      rpc_GetHistorySnapshots = \<lambda>_ _ n. (Throws (RcfException []), n), rpc_GetDocument = \<lambda>_ _ _ n. (Throws (RcfException []), n)\<rparr>"

lemma down_calls [simp]:
  "rpc_WriteOperationToPool down_network e op n = (Throws (RcfException []), n)"
  "rpc_Login down_network e u n = (Throws (RcfException []), n)"
  "rpc_JoinMeeting down_network e s m n = (Throws (RcfException []), n)"
  "rpc_HeartBeat down_network e p n = (Throws (RcfException []), n)"
  "rpc_GetOperations down_network e m k n = (Throws (RcfException []), n)"
  "rpc_GetLatestDocument down_network e m n = (Throws (RcfException []), n)"
  by (simp_all add: down_network_def)

definition bound_delegate :: server_delegate where
  "bound_delegate = \<lparr>updater_ip_address = [49], updater_port = Some 1, provider_ip_address = [50], provider_port = Some 2,
     monitor_ip_address = [51], monitor_port = Some 3\<rparr>"

definition bound_world :: "'n \<Rightarrow> 'n world" where
  "bound_world n = \<lparr>server_delegate_instance = Some bound_delegate, serverDelegateInstance = True, net_state = n\<rparr>"

lemma bound_world [simp]:
  "server_delegate_instance (bound_world n) = Some bound_delegate" "net_state (bound_world n) = n"
  "updater_port bound_delegate = Some 1" "provider_port bound_delegate = Some 2" "monitor_port bound_delegate = Some 3"
  by (simp_all add: bound_world_def bound_delegate_def)

section \<open>Properties\<close>

text \<open>
  the two calls of the updater never throw. Whatever the stub does, \<^verbatim>\<open>sendOperation\<close> and
  \<^verbatim>\<open>setDocument\<close> return its answer, or \<^verbatim>\<open>false\<close> when it threw, and only the network has changed.
\<close>

lemma updater_calls_return:
  assumes "server_delegate_instance w = Some d" "updater_port d = Some port"
    and "rpc_WriteOperationToPool net (updater_ip_address d, port) (toOperation op) (net_state w) = (r, n)" "rcf_result r"
    and "rpc_SetDocument net (updater_ip_address d, port) k (net_state w) = (r', n')" "rcf_result r'"
  shows "sendOperation net op w = (Returns (r = Returns True), w\<lparr>net_state := n\<rparr>) \<and>
    setDocument net k w = (Returns (r' = Returns True), w\<lparr>net_state := n'\<rparr>)"
  using assms
  by (auto simp: sendOperation_def setDocument_def SERVER_call_bound WriteOperationToPool_def SetDocument_def rcf_result_def)

theorem updater_calls_return_witness:
  "sendOperation (down_network\<lparr>rpc_SetDocument := \<lambda>_ k n. (Returns True, n + 1)\<rparr>) DrawLine_init (bound_world (0::int)) =
     (Returns False, bound_world 0) \<and>
   setDocument (down_network\<lparr>rpc_SetDocument := \<lambda>_ k n. (Returns True, n + 1)\<rparr>) 7 (bound_world (0::int)) = (Returns True, bound_world 1)"
  using updater_calls_return [of "bound_world (0::int)" bound_delegate 1 "down_network\<lparr>rpc_SetDocument := \<lambda>_ k n. (Returns True, n + 1)\<rparr>"
      DrawLine_init "Throws (RcfException [])" 0 7 "Returns True" 1]
  by simp (simp add: bound_world_def)

text \<open>
  Every other call lets an RCF exception through to its caller, with nothing changed but the
  network.
\<close>

theorem other_calls_throw:
  assumes "server_delegate_instance w = Some d" "monitor_port d = Some mport" "provider_port d = Some pport"
    and "rpc_Login net (monitor_ip_address d, mport) (toUser u) (net_state w) = (Throws (RcfException e1), n1)"
    and "rpc_JoinMeeting net (monitor_ip_address d, mport) (c_string s) (c_string m) (net_state w) = (Throws (RcfException e2), n2)"
    and "rpc_HeartBeat net (monitor_ip_address d, mport) (toSPac p) (net_state w) = (Throws (RcfException e3), n3)"
    and "rpc_GetOperations net (provider_ip_address d, pport) (c_string m) k (net_state w) = (Throws (RcfException e4), n4)"
    and "rpc_GetLatestDocument net (provider_ip_address d, pport) (c_string m) (net_state w) = (Throws (RcfException e5), n5)"
  shows "login net u w = (Throws (RcfException e1), w\<lparr>net_state := n1\<rparr>) \<and>
    joinMeeting net (Some s) (Some m) w = (Throws (RcfException e2), w\<lparr>net_state := n2\<rparr>) \<and>
    heartBeat net p w = (Throws (RcfException e3), w\<lparr>net_state := n3\<rparr>) \<and>
    getOperationList net (Some m) k w = (Throws (RcfException e4), w\<lparr>net_state := n4\<rparr>) \<and>
    getLatestDocument net (Some m) w = (Throws (RcfException e5), w\<lparr>net_state := n5\<rparr>)"
  using assms by (simp add: method_defs remote_defs SERVER_call_bound result_pair)

theorem other_calls_throw_witness:
  "fst (login down_network User_default (bound_world ())) = Throws (RcfException []) \<and>
   fst (getOperationList down_network (Some [109]) 5 (bound_world ())) = Throws (RcfException [])"
  using other_calls_throw [of "bound_world ()" bound_delegate 3 2 down_network User_default "[]" "()" "[]" "[109]" "[]" "()"
      HeartBeatSendPackage_default "[]" "()" 5 "[]" "()" "[]" "()"]
  by simp





text \<open>
  Meeting names are handed through. For names without zero bytes the stubs receive exactly the
  strings of the caller, and the name of a new meeting that a server answers in valid UTF-8 comes
  back as the same string, ready to join with.
\<close>

theorem meeting_names_go_through:
  assumes "server_delegate_instance w = Some d" "monitor_port d = Some port" "ns_ok user" "ns_ok name"
    and "rpc_CreateMeeting net (monitor_ip_address d, port) user (net_state w) = (Returns name, n)"
    and "rpc_JoinMeeting net (monitor_ip_address d, port) user name n = (Returns j, n')" "JoinMeetingReturn_ok j"
  shows "createMeeting net (Some user) w = (Returns (Some name), w\<lparr>net_state := n\<rparr>) \<and>
    (\<exists>j'. joinMeeting net (Some user) (Some name) (w\<lparr>net_state := n\<rparr>) = (Returns j', w\<lparr>net_state := n'\<rparr>) \<and>
      JoinMeetingReturn_abs j' = JoinMeetingReturn_abs j)"
proof -
  have c: "c_string user = user" "c_string name = name" "stringWithUTF8String name = Some name"
    using assms(3,4) by (simp_all add: ns_ok_def c_string_id stringWithUTF8String_def)
  have "JoinMeetingReturn_abs (OwbClientJoinMeetingReturn_initFromJoinPac j) = JoinMeetingReturn_abs j"
    using assms(7) by (simp add: OwbClientJoinMeetingReturn_initFromJoinPac_def JoinMeetingReturn_CopyFrom_abs)
  then show ?thesis
    using assms by (simp add: method_defs remote_defs SERVER_call_bound result_pair c)
qed

theorem meeting_names_go_through_witness:
  "fst (createMeeting (down_network\<lparr>rpc_CreateMeeting := \<lambda>_ u n. (Returns [109, 49], n),
      rpc_JoinMeeting := \<lambda>_ u m n. (Returns JoinMeetingReturn_default, n)\<rparr>) (Some [117]) (bound_world ())) = Returns (Some [109, 49])"
  using meeting_names_go_through [of "bound_world ()" bound_delegate 3 "[117]" "[109, 49]" "down_network\<lparr>rpc_CreateMeeting := \<lambda>_ u n. (Returns [109, 49], n),
      rpc_JoinMeeting := \<lambda>_ u m n. (Returns JoinMeetingReturn_default, n)\<rparr>" "()" JoinMeetingReturn_default "()"]
  by (simp add: ns_ok_def)

end
