(* ===== verification/Coded_Input.thy ===== *)
theory Coded_Input
  imports Wire_Format
begin

text \<open>
  \<^verbatim>\<open>CodedInputStream\<close> of \<^verbatim>\<open>io/coded_stream.h\<close> and \<^verbatim>\<open>io/coded_stream.cc\<close> over a flat array, which is
  how a received message is parsed: there is no underlying stream, \<^verbatim>\<open>input_\<close> is \<^verbatim>\<open>NULL\<close>.
\<close>

section \<open>The stream\<close>

text \<open>
  The pointers \<^verbatim>\<open>buffer_\<close> and \<^verbatim>\<open>buffer_end_\<close> are positions in the array. A call returns true with
  a value, or false; \<open>Crash\<close> is a read outside of the array or through the null \<^verbatim>\<open>input_\<close>, and
  \<open>Runs_on\<close> is a loop that has used up its bound.
\<close>

record cis =
  array :: bytes
  cur :: int
  cur_end :: int
  total_bytes_read :: int
  overflow_bytes :: int
  last_tag :: uint32
  legitimate_message_end :: bool
  current_limit :: int
  buffer_size_after_limit :: int
  total_bytes_limit :: int
  recursion_depth :: int
  recursion_limit :: int

datatype 'a got = Got 'a cis | Fails cis | Crash | Runs_on

definition got_bind :: "'a got \<Rightarrow> ('a \<Rightarrow> cis \<Rightarrow> 'b got) \<Rightarrow> 'b got" where
  "got_bind r f = (case r of Got x c \<Rightarrow> f x c | Fails c \<Rightarrow> Fails c | Crash \<Rightarrow> Crash | Runs_on \<Rightarrow> Runs_on)"

lemma got_bind_simps [simp]:
  "got_bind (Got x c) f = f x c" "got_bind (Fails c) f = Fails c" "got_bind Crash f = Crash" "got_bind Runs_on f = Runs_on"
  by (simp_all add: got_bind_def)

definition kDefaultTotalBytesLimit :: int where
  "kDefaultTotalBytesLimit = 64 * 2 ^ 20"

definition kDefaultRecursionLimit :: int where
  "kDefaultRecursionLimit = 64"

definition CodedInputStream_new :: "bytes \<Rightarrow> cis" where
  "CodedInputStream_new buffer =
     \<lparr>array = buffer, cur = 0, cur_end = int (length buffer), total_bytes_read = int (length buffer), overflow_bytes = 0,
      last_tag = 0, legitimate_message_end = False, current_limit = int (length buffer), buffer_size_after_limit = 0,
      total_bytes_limit = kDefaultTotalBytesLimit, recursion_depth = 0, recursion_limit = kDefaultRecursionLimit\<rparr>"

section \<open>Position and limits\<close>

definition BufferSize :: "cis \<Rightarrow> int" where
  "BufferSize c = cur_end c - cur c"

definition Advance :: "int \<Rightarrow> cis \<Rightarrow> cis" where
  "Advance amount c = c\<lparr>cur := cur c + amount\<rparr>"

text \<open>The byte at a position, the bytes from \<^verbatim>\<open>buffer_\<close> on, and the next \<open>n\<close> of them.\<close>

definition byte_at :: "int \<Rightarrow> cis \<Rightarrow> byte option" where
  "byte_at i c = (if 0 \<le> i \<and> i < int (length (array c)) then Some (array c ! nat i) else None)"

definition ahead :: "cis \<Rightarrow> bytes" where
  "ahead c = (if 0 \<le> cur c then drop (nat (cur c)) (array c) else [])"

definition copy_bytes :: "int \<Rightarrow> cis \<Rightarrow> bytes option" where
  "copy_bytes n c = (if 0 \<le> n \<and> n \<le> int (length (ahead c)) then Some (take (nat n) (ahead c)) else None)"

text \<open>\<^verbatim>\<open>Refresh\<close> never succeeds without an underlying stream: it returns false at a limit.\<close>

definition Refresh :: "cis \<Rightarrow> 'a got" where
  "Refresh c =
     (if buffer_size_after_limit c > 0 \<or> overflow_bytes c > 0 \<or> total_bytes_read c = current_limit c then Fails c
      else Crash)"

definition RecomputeBufferLimits :: "cis \<Rightarrow> cis" where
  "RecomputeBufferLimits c =
     (let c = c\<lparr>cur_end := cur_end c + buffer_size_after_limit c\<rparr>;
          closest_limit = min (current_limit c) (total_bytes_limit c)
      in if closest_limit < total_bytes_read c
         then let after = total_bytes_read c - closest_limit
              in c\<lparr>buffer_size_after_limit := after, cur_end := cur_end c - after\<rparr>
         else c\<lparr>buffer_size_after_limit := 0\<rparr>)"

definition PushLimit :: "int \<Rightarrow> cis \<Rightarrow> int \<times> cis" where
  "PushLimit byte_limit c =
     (let current_position = total_bytes_read c - (BufferSize c + buffer_size_after_limit c);
          old_limit = current_limit c;
          new_limit = (if byte_limit \<ge> 0 \<and> byte_limit \<le> INT_MAX - current_position then current_position + byte_limit else INT_MAX)
      in (old_limit, RecomputeBufferLimits (c\<lparr>current_limit := min new_limit old_limit\<rparr>)))"

definition PopLimit :: "int \<Rightarrow> cis \<Rightarrow> cis" where
  "PopLimit limit c = (RecomputeBufferLimits (c\<lparr>current_limit := limit\<rparr>))\<lparr>legitimate_message_end := False\<rparr>"

definition IncrementRecursionDepth :: "cis \<Rightarrow> bool \<times> cis" where
  "IncrementRecursionDepth c =
     (let c = c\<lparr>recursion_depth := recursion_depth c + 1\<rparr> in (recursion_depth c \<le> recursion_limit c, c))"

definition DecrementRecursionDepth :: "cis \<Rightarrow> cis" where
  "DecrementRecursionDepth c = (if recursion_depth c > 0 then c\<lparr>recursion_depth := recursion_depth c - 1\<rparr> else c)"

section \<open>Varints\<close>

text \<open>Whether the next varint certainly ends inside the buffer; \<open>None\<close> is a stray read.\<close>

definition varint_inside :: "cis \<Rightarrow> bool option" where
  "varint_inside c =
     (if BufferSize c \<ge> int kMaxVarintBytes then Some True
      else if cur_end c > cur c then map_option (\<lambda>b. (ucast b :: uint32) AND 0x80 = 0) (byte_at (cur_end c - 1) c)
      else Some False)"

text \<open>
  The loop of \<^verbatim>\<open>ReadVarint64Slow\<close>; \<open>n\<close> is \<^verbatim>\<open>kMaxVarintBytes - count\<close>.
\<close>

fun ReadVarint64_loop :: "nat \<Rightarrow> nat \<Rightarrow> uint64 \<Rightarrow> cis \<Rightarrow> uint64 got" where
  "ReadVarint64_loop 0 count result c = Fails c"
| "ReadVarint64_loop (Suc n) count result c =
     (if cur c = cur_end c then Refresh c
      else case byte_at (cur c) c of
          None \<Rightarrow> Crash
        | Some b \<Rightarrow>
            let b = (ucast b :: uint32);
                result = result OR push_bit (7 * count) (ucast (b AND 0x7F));
                c = Advance 1 c
            in if b AND 0x80 = 0 then Got result c else ReadVarint64_loop n (count + 1) result c)"

definition ReadVarint64Slow :: "cis \<Rightarrow> uint64 got" where
  "ReadVarint64Slow c = ReadVarint64_loop kMaxVarintBytes 0 0 c"

definition ReadVarint64Fallback :: "cis \<Rightarrow> uint64 got" where
  "ReadVarint64Fallback c =
     (case varint_inside c of
        None \<Rightarrow> Crash
      | Some True \<Rightarrow>
          (case ReadVarint64FromArray (ahead c) of
             None \<Rightarrow> Crash
           | Some None \<Rightarrow> Fails c
           | Some (Some (value, n)) \<Rightarrow> Got value (Advance (int n) c))
      | Some False \<Rightarrow> ReadVarint64Slow c)"

definition ReadVarint64 :: "cis \<Rightarrow> uint64 got" where
  "ReadVarint64 c =
     (if cur c < cur_end c
      then case byte_at (cur c) c of
          None \<Rightarrow> Crash
        | Some b \<Rightarrow> if b < 0x80 then Got (ucast b) (Advance 1 c) else ReadVarint64Fallback c
      else ReadVarint64Fallback c)"

definition ReadVarint32Slow :: "cis \<Rightarrow> uint32 got" where
  "ReadVarint32Slow c = got_bind (ReadVarint64Fallback c) (\<lambda>result c. Got (ucast result) c)"

definition ReadVarint32Fallback :: "cis \<Rightarrow> uint32 got" where
  "ReadVarint32Fallback c =
     (case varint_inside c of
        None \<Rightarrow> Crash
      | Some True \<Rightarrow>
          (case ReadVarint32FromArray (ahead c) of
             None \<Rightarrow> Crash
           | Some None \<Rightarrow> Fails c
           | Some (Some (value, n)) \<Rightarrow> Got value (Advance (int n) c))
      | Some False \<Rightarrow> ReadVarint32Slow c)"

definition ReadVarint32 :: "cis \<Rightarrow> uint32 got" where
  "ReadVarint32 c =
     (if cur c < cur_end c
      then case byte_at (cur c) c of
          None \<Rightarrow> Crash
        | Some b \<Rightarrow> if b < 0x80 then Got (ucast b) (Advance 1 c) else ReadVarint32Fallback c
      else ReadVarint32Fallback c)"

section \<open>Tags\<close>

text \<open>The tag 0 stands for the end of the input and for a malformed tag.\<close>

definition ReadTagSlow :: "cis \<Rightarrow> uint32 got" where
  "ReadTagSlow c =
     (if cur c = cur_end c
      then case Refresh c of
          Fails c \<Rightarrow>
            let current_position = total_bytes_read c - buffer_size_after_limit c
            in Got 0 (c\<lparr>legitimate_message_end :=
                 (if current_position \<ge> total_bytes_limit c then current_limit c = total_bytes_limit c else True)\<rparr>)
        | r \<Rightarrow> r
      else case ReadVarint64 c of
          Got result c \<Rightarrow> Got (ucast result) c
        | Fails c \<Rightarrow> Got 0 c
        | Crash \<Rightarrow> Crash
        | Runs_on \<Rightarrow> Runs_on)"

definition ReadTagFallback :: "cis \<Rightarrow> uint32 got" where
  "ReadTagFallback c =
     (case varint_inside c of
        None \<Rightarrow> Crash
      | Some True \<Rightarrow>
          (case ReadVarint32FromArray (ahead c) of
             None \<Rightarrow> Crash
           | Some None \<Rightarrow> Got 0 c
           | Some (Some (tag, n)) \<Rightarrow> Got tag (Advance (int n) c))
      | Some False \<Rightarrow>
          (if cur c = cur_end c \<and> buffer_size_after_limit c > 0 \<and>
              total_bytes_read c - buffer_size_after_limit c < total_bytes_limit c
           then Got 0 (c\<lparr>legitimate_message_end := True\<rparr>)
           else ReadTagSlow c))"

definition ReadTag :: "cis \<Rightarrow> uint32 got" where
  "ReadTag c =
     (if cur c < cur_end c
      then case byte_at (cur c) c of
          None \<Rightarrow> Crash
        | Some b \<Rightarrow>
            if b < 0x80 then Got (ucast b) (Advance 1 (c\<lparr>last_tag := ucast b\<rparr>))
            else got_bind (ReadTagFallback c) (\<lambda>tag c. Got tag (c\<lparr>last_tag := tag\<rparr>))
      else got_bind (ReadTagFallback c) (\<lambda>tag c. Got tag (c\<lparr>last_tag := tag\<rparr>)))"

definition LastTagWas :: "uint32 \<Rightarrow> cis \<Rightarrow> bool" where
  "LastTagWas expected c = (last_tag c = expected)"

definition ConsumedEntireMessage :: "cis \<Rightarrow> bool" where
  "ConsumedEntireMessage c = legitimate_message_end c"

definition ExpectTag :: "uint32 \<Rightarrow> cis \<Rightarrow> bool got" where
  "ExpectTag expected c =
     (if expected < push_bit 7 1 then
        (if cur c < cur_end c
         then case byte_at (cur c) c of
             None \<Rightarrow> Crash
           | Some b \<Rightarrow> if ucast b = expected then Got True (Advance 1 c) else Got False c
         else Got False c)
      else if expected < push_bit 14 1 then
        (if BufferSize c \<ge> 2
         then case (byte_at (cur c) c, byte_at (cur c + 1) c) of
             (Some a, Some b) \<Rightarrow>
               if a = ucast (expected OR 0x80) \<and> b = ucast (drop_bit 7 expected) then Got True (Advance 2 c) else Got False c
           | _ \<Rightarrow> Crash
         else Got False c)
      else Got False c)"

definition ExpectAtEnd :: "cis \<Rightarrow> bool \<times> cis" where
  "ExpectAtEnd c =
     (if cur c = cur_end c \<and> buffer_size_after_limit c \<noteq> 0
      then (True, c\<lparr>last_tag := 0, legitimate_message_end := True\<rparr>)
      else (False, c))"

section \<open>Raw bytes, strings and fixed-width values\<close>

text \<open>
  Past the end of the buffer the rest of it is copied and \<^verbatim>\<open>Refresh\<close> is asked for more. A
  buffer of negative size would be copied without end.
\<close>

definition ReadRaw :: "int \<Rightarrow> cis \<Rightarrow> bytes got" where
  "ReadRaw sz c =
     (if BufferSize c < sz
      then case copy_bytes (BufferSize c) c of None \<Rightarrow> Crash | Some _ \<Rightarrow> Refresh (Advance (BufferSize c) c)
      else case copy_bytes sz c of None \<Rightarrow> Crash | Some bs \<Rightarrow> Got bs (Advance sz c))"

definition ReadStringFallback :: "int \<Rightarrow> cis \<Rightarrow> bytes got" where
  "ReadStringFallback sz c =
     (if BufferSize c < sz
      then case copy_bytes (BufferSize c) c of None \<Rightarrow> Crash | Some _ \<Rightarrow> Refresh (Advance (BufferSize c) c)
      else case copy_bytes sz c of None \<Rightarrow> Crash | Some bs \<Rightarrow> Got bs (Advance sz c))"

definition InternalReadStringInline :: "int \<Rightarrow> cis \<Rightarrow> bytes got" where
  "InternalReadStringInline sz c =
     (if sz < 0 then Fails c
      else if BufferSize c \<ge> sz
      then case copy_bytes sz c of None \<Rightarrow> Crash | Some bs \<Rightarrow> Got bs (Advance sz c)
      else ReadStringFallback sz c)"

definition ReadString :: "int \<Rightarrow> cis \<Rightarrow> bytes got" where
  "ReadString sz c = (if sz < 0 then Fails c else InternalReadStringInline sz c)"

definition ReadLittleEndian32FromArray :: "bytes \<Rightarrow> uint32" where
  "ReadLittleEndian32FromArray buffer =
     ucast (buffer ! 0) OR push_bit 8 (ucast (buffer ! 1)) OR push_bit 16 (ucast (buffer ! 2)) OR push_bit 24 (ucast (buffer ! 3))"

definition ReadLittleEndian64FromArray :: "bytes \<Rightarrow> uint64" where
  "ReadLittleEndian64FromArray buffer =
     (let part0 = ReadLittleEndian32FromArray (take 4 buffer); part1 = ReadLittleEndian32FromArray (drop 4 buffer)
      in ucast part0 OR push_bit 32 (ucast part1))"

definition ReadLittleEndian32Fallback :: "cis \<Rightarrow> uint32 got" where
  "ReadLittleEndian32Fallback c =
     (if BufferSize c \<ge> 4
      then case copy_bytes 4 c of None \<Rightarrow> Crash | Some ptr \<Rightarrow> Got (ReadLittleEndian32FromArray ptr) (Advance 4 c)
      else got_bind (ReadRaw 4 c) (\<lambda>ptr c. Got (ReadLittleEndian32FromArray ptr) c))"

definition ReadLittleEndian64Fallback :: "cis \<Rightarrow> uint64 got" where
  "ReadLittleEndian64Fallback c =
     (if BufferSize c \<ge> 8
      then case copy_bytes 8 c of None \<Rightarrow> Crash | Some ptr \<Rightarrow> Got (ReadLittleEndian64FromArray ptr) (Advance 8 c)
      else got_bind (ReadRaw 8 c) (\<lambda>ptr c. Got (ReadLittleEndian64FromArray ptr) c))"

definition ReadLittleEndian32 :: "cis \<Rightarrow> uint32 got" where
  "ReadLittleEndian32 c = ReadLittleEndian32Fallback c"

definition ReadLittleEndian64 :: "cis \<Rightarrow> uint64 got" where
  "ReadLittleEndian64 c = ReadLittleEndian64Fallback c"

section \<open>The invariant of a stream over an array\<close>

definition cis_ok :: "cis \<Rightarrow> bool" where
  "cis_ok c \<longleftrightarrow> 0 \<le> cur c \<and> cur c \<le> cur_end c \<and> cur_end c = current_limit c \<and> 0 \<le> buffer_size_after_limit c \<and>
     cur_end c + buffer_size_after_limit c = int (length (array c)) \<and> total_bytes_read c = int (length (array c)) \<and>
     overflow_bytes c = 0 \<and> int (length (array c)) \<le> total_bytes_limit c \<and> int (length (array c)) \<le> INT_MAX \<and>
     0 \<le> recursion_depth c"

text \<open>The bytes up to the nearest limit.\<close>

definition unread :: "cis \<Rightarrow> bytes" where
  "unread c = take (nat (BufferSize c)) (ahead c)"

text \<open>Reading moves on and may touch the last tag and the end flag.\<close>

definition moves :: "cis \<Rightarrow> nat \<Rightarrow> cis \<Rightarrow> bool" where
  "moves c n c' \<longleftrightarrow> array c' = array c \<and> cur c' = cur c + int n \<and> cur_end c' = cur_end c \<and>
     total_bytes_read c' = total_bytes_read c \<and> overflow_bytes c' = overflow_bytes c \<and> current_limit c' = current_limit c \<and>
     buffer_size_after_limit c' = buffer_size_after_limit c \<and> total_bytes_limit c' = total_bytes_limit c \<and>
     recursion_depth c' = recursion_depth c \<and> recursion_limit c' = recursion_limit c"

lemma new_ok:
  assumes "int (length buffer) \<le> kDefaultTotalBytesLimit"
  shows "cis_ok (CodedInputStream_new buffer)" "unread (CodedInputStream_new buffer) = buffer"
  using assms by (simp_all add: cis_ok_def CodedInputStream_new_def kDefaultTotalBytesLimit_def INT_MAX_def unread_def ahead_def BufferSize_def)

lemma moves_simps [simp]:
  "moves c n (Advance (int n) c)" "moves c (Suc 0) (Advance 1 c)" "moves c 0 c"
  "moves c n (c'\<lparr>legitimate_message_end := l\<rparr>) = moves c n c'" "moves c n (c'\<lparr>last_tag := t\<rparr>) = moves c n c'"
  by (simp_all add: moves_def Advance_def)

lemma moves_trans: "moves c m c' \<Longrightarrow> moves c' n c'' \<Longrightarrow> moves c (m + n) c''"
  by (simp add: moves_def)

lemmas moves_fields = moves_def [THEN iffD1]

lemma unread_length:
  assumes "cis_ok c"
  shows "length (unread c) = nat (BufferSize c)" "BufferSize c = int (length (unread c))"
  using assms by (auto simp: cis_ok_def unread_def ahead_def BufferSize_def)

lemma moves_unread:
  assumes "cis_ok c" "moves c n c'"
  shows "unread c' = drop n (unread c)"
proof -
  have "nat (cur_end c - (cur c + int n)) = nat (cur_end c - cur c) - n" "nat (cur c + int n) = n + nat (cur c)"
    using assms(1) by (simp_all add: cis_ok_def nat_add_distrib)
  with assms(1) moves_fields [OF assms(2)] show ?thesis
    by (simp add: cis_ok_def unread_def ahead_def BufferSize_def drop_take)
qed

lemma moves_ok:
  assumes "cis_ok c" "moves c n c'" "n \<le> length (unread c)"
  shows "cis_ok c'"
proof -
  have "cur c + int n \<le> cur_end c"
    using assms(3) unread_length(2) [OF assms(1)] by (simp add: BufferSize_def)
  with assms(1) moves_fields [OF assms(2)] show ?thesis
    by (simp add: cis_ok_def)
qed

lemma ahead_unread: "\<exists>r. ahead c = unread c @ r"
  unfolding unread_def by (metis append_take_drop_id)

lemma copy_bytes_unread:
  assumes "cis_ok c" "n \<le> length (unread c)"
  shows "copy_bytes (int n) c = Some (take n (unread c))"
proof -
  obtain r where "ahead c = unread c @ r" using ahead_unread by blast
  with assms(2) show ?thesis by (simp add: copy_bytes_def)
qed

lemma byte_at_cur:
  assumes "cis_ok c" "unread c = b # bs"
  shows "byte_at (cur c) c = Some b" "cur c < cur_end c"
proof -
  obtain r where r: "ahead c = (b # bs) @ r" using ahead_unread assms(2) by metis
  then have d: "drop (nat (cur c)) (array c) = b # bs @ r" "0 \<le> cur c"
    using assms(1) by (simp_all add: ahead_def cis_ok_def)
  have "nat (cur c) < length (array c)"
    using d(1) by (metis drop_all linorder_not_less list.distinct(1))
  then have "array c ! nat (cur c) = b"
    using d(1) hd_drop_conv_nth by fastforce
  with d \<open>nat (cur c) < length (array c)\<close> show "byte_at (cur c) c = Some b"
    by (simp add: byte_at_def)
  show "cur c < cur_end c"
    using unread_length [OF assms(1)] assms(2) by (simp add: BufferSize_def)
qed

lemma byte_at_last:
  assumes "cis_ok c" "unread c \<noteq> []"
  shows "byte_at (cur_end c - 1) c = Some (last (unread c))"
proof -
  let ?k = "nat (BufferSize c)"
  have k: "0 < ?k" "?k = length (unread c)" using unread_length [OF assms(1)] assms(2) by simp_all
  have b: "0 \<le> cur c" "cur c < cur_end c" "cur_end c \<le> int (length (array c))"
    using assms(1) k by (simp_all add: cis_ok_def BufferSize_def)
  have "last (unread c) = unread c ! (?k - 1)"
    using k assms(2) by (simp add: last_conv_nth)
  also have "\<dots> = array c ! (nat (cur c) + (?k - 1))"
    using k(1) b by (simp add: unread_def ahead_def BufferSize_def)
  also have "nat (cur c) + (?k - 1) = nat (cur_end c - 1)"
    using b by (simp add: BufferSize_def)
  finally show ?thesis
    using b by (simp add: byte_at_def)
qed

lemma at_end: "cis_ok c \<Longrightarrow> cur c = cur_end c \<longleftrightarrow> unread c = []"
  using unread_length [of c] by (auto simp: BufferSize_def cis_ok_def)

lemma Refresh_ok: "cis_ok c \<Longrightarrow> Refresh c = Fails c"
  by (auto simp: Refresh_def cis_ok_def)

section \<open>Reading varints\<close>

lemma Advance_simps [simp]: "Advance 0 c = c" "Advance a (Advance b c) = Advance (b + a) c"
  by (simp_all add: Advance_def add.assoc)

text \<open>A varint of at most \<open>n\<close> bytes at the front of the unread bytes.\<close>

definition varint_head :: "nat \<Rightarrow> bytes \<Rightarrow> bytes \<Rightarrow> bool" where
  "varint_head n w bs \<longleftrightarrow> is_varint bs \<and> length bs \<le> n \<and> (\<exists>rest. w = bs @ rest)"

lemma varint_head_unique: "varint_head n w bs \<Longrightarrow> varint_head n w cs \<Longrightarrow> bs = cs"
  using is_varint_unique by (auto simp: varint_head_def)

lemma varint_head_Nil [simp]: "\<not> varint_head n [] bs" "\<not> varint_head 0 w bs"
  by (auto simp: varint_head_def)

lemma varint_head_Cons:
  "varint_head (Suc n) (b # w) bs \<longleftrightarrow> (if b < 128 then bs = [b] else \<exists>cs. bs = b # cs \<and> varint_head n w cs)"
  by (cases bs) (auto simp: varint_head_def)

text \<open>The two outcomes of reading a varint: its value, or false after some of the bytes.\<close>

definition varint_result :: "nat \<Rightarrow> (bytes \<Rightarrow> 'a) \<Rightarrow> cis \<Rightarrow> 'a got \<Rightarrow> bool" where
  "varint_result n f c r \<longleftrightarrow>
     (\<exists>bs. varint_head n (unread c) bs \<and> r = Got (f bs) (Advance (int (length bs)) c)) \<or>
     ((\<forall>bs. \<not> varint_head n (unread c) bs) \<and> (\<exists>k \<le> length (unread c). r = Fails (Advance (int k) c)))"

lemma varint_resultI:
  "varint_head n (unread c) bs \<Longrightarrow> varint_result n f c (Got (f bs) (Advance (int (length bs)) c))"
  "(\<And>bs. \<not> varint_head n (unread c) bs) \<Longrightarrow> k \<le> length (unread c) \<Longrightarrow> varint_result n f c (Fails (Advance (int k) c))"
  by (auto simp: varint_result_def)

lemma varint_resultD: "varint_result n f c r \<Longrightarrow> varint_head n (unread c) bs \<Longrightarrow> r = Got (f bs) (Advance (int (length bs)) c)"
  unfolding varint_result_def using varint_head_unique by blast

lemma byte_step:
  assumes "cis_ok c" "unread c = b # w"
  shows "cis_ok (Advance 1 c)" "unread (Advance 1 c) = w"
  using moves_ok [OF assms(1), of 1 "Advance 1 c"] moves_unread [OF assms(1), of 1 "Advance 1 c"] assms(2) by simp_all

lemma loop_varint:
  assumes "cis_ok c" "length pre = count"
  shows "varint_result n (\<lambda>bs. of_nat (varint_value (pre @ bs))) c (ReadVarint64_loop n count (of_nat (varint_value pre)) c)"
  using assms
proof (induction n arbitrary: c pre count)
  case 0
  then show ?case using varint_resultI(2) [of 0 c 0] by simp
next
  case (Suc n)
  show ?case
  proof (cases "unread c")
    case Nil
    with Suc.prems(1) have "cur c = cur_end c"
      by (simp add: at_end)
    with Suc.prems(1) show ?thesis using varint_resultI(2) [of "Suc n" c 0] Nil by (simp add: Refresh_ok)
  next
    case (Cons b w)
    note b = byte_at_cur [OF Suc.prems(1) Cons] and c1 = byte_step [OF Suc.prems(1) Cons]
    have "(ucast ((ucast b :: uint32) AND 0x7F) :: uint64) = of_nat (varint_value [b])"
      by (simp only: low7) (simp add: ucast_of_nat_small)
    then have v: "of_nat (varint_value pre) OR push_bit (7 * count) (ucast ((ucast b :: uint32) AND 0x7F)) = (of_nat (varint_value (pre @ [b])) :: uint64)"
      using or_step [of pre "7 * count" b, where 'a = 64] Suc.prems(2) by simp
    show ?thesis
    proof (cases "b < 128")
      case True
      then have "ReadVarint64_loop (Suc n) count (of_nat (varint_value pre)) c = Got (of_nat (varint_value (pre @ [b]))) (Advance 1 c)"
        using b by (simp add: v Let_def byte_msb_clear)
      moreover have "varint_head (Suc n) (unread c) [b]"
        using True by (simp add: Cons varint_head_Cons)
      ultimately show ?thesis using varint_resultI(1) [of "Suc n" c "[b]"] by simp
    next
      case False
      then have l: "ReadVarint64_loop (Suc n) count (of_nat (varint_value pre)) c =
          ReadVarint64_loop n (Suc count) (of_nat (varint_value (pre @ [b]))) (Advance 1 c)"
        using b by (simp add: v Let_def byte_msb_clear)
      have "varint_result n (\<lambda>bs. of_nat (varint_value ((pre @ [b]) @ bs))) (Advance 1 c)
          (ReadVarint64_loop n (Suc count) (of_nat (varint_value (pre @ [b]))) (Advance 1 c))"
        by (rule Suc.IH) (use c1 Suc.prems(2) in simp_all)
      then show ?thesis
        unfolding varint_result_def l c1(2) Cons using False
        by (auto simp: varint_head_Cons)
    qed
  qed
qed

lemma varint_inside_eq:
  assumes "cis_ok c"
  shows "varint_inside c = Some (10 \<le> length (unread c) \<or> (unread c \<noteq> [] \<and> last (unread c) < 128))"
proof -
  have "cur c < cur_end c \<longleftrightarrow> unread c \<noteq> []"
    using at_end [OF assms] assms by (auto simp: cis_ok_def)
  with byte_at_last [OF assms] unread_length(2) [OF assms] show ?thesis
    by (auto simp: varint_inside_def kMaxVarintBytes_def byte_msb_clear)
qed

text \<open>The fast paths read the array without looking at the limit and stay before it all the same.\<close>

lemma fast_result:
  assumes "cis_ok c" "10 \<le> length (unread c) \<or> (unread c \<noteq> [] \<and> last (unread c) < 128)"
    and "\<And>bs rest. is_varint bs \<Longrightarrow> length bs \<le> 10 \<Longrightarrow> R (bs @ rest) = Some (Some (f bs, length bs))"
    and "\<And>bs rest. \<forall>b \<in> set bs. \<not> b < 128 \<Longrightarrow> length bs = 10 \<Longrightarrow> R (bs @ rest) = Some None"
  shows "(\<exists>bs. varint_head 10 (unread c) bs \<and> R (ahead c) = Some (Some (f bs, length bs))) \<or>
    ((\<forall>bs. \<not> varint_head 10 (unread c) bs) \<and> R (ahead c) = Some None)"
proof -
  obtain r where r: "ahead c = unread c @ r" using ahead_unread by blast
  from varint_prefix [OF assms(2)] show ?thesis
  proof (elim disjE exE conjE)
    fix bs rest
    assume "unread c = bs @ rest" "is_varint bs" "length bs \<le> 10"
    then show ?thesis using r assms(3) by (auto simp: varint_head_def)
  next
    fix bs rest
    assume o: "unread c = bs @ rest" "length bs = 10" "\<forall>b \<in> set bs. \<not> b < 128"
    then have "\<not> varint_head 10 (unread c) cs" for cs
      unfolding varint_head_def by (metis is_varint_not_overrun)
    with o r assms(4) show ?thesis by auto
  qed
qed

lemma ReadVarint64Fallback_result:
  assumes "cis_ok c"
  shows "varint_result 10 (\<lambda>bs. of_nat (varint_value bs)) c (ReadVarint64Fallback c)"
proof (cases "10 \<le> length (unread c) \<or> (unread c \<noteq> [] \<and> last (unread c) < 128)")
  case True
  then have i: "varint_inside c = Some True" by (simp add: varint_inside_eq [OF assms])
  have "(\<exists>bs. varint_head 10 (unread c) bs \<and> ReadVarint64FromArray (ahead c) = Some (Some (of_nat (varint_value bs), length bs))) \<or>
      ((\<forall>bs. \<not> varint_head 10 (unread c) bs) \<and> ReadVarint64FromArray (ahead c) = Some None)"
    by (rule fast_result [OF assms True]) (simp_all add: ReadVarint64FromArray_varint ReadVarint64FromArray_overrun)
  then show ?thesis
  proof (elim disjE exE conjE)
    fix bs
    assume h: "varint_head 10 (unread c) bs" "ReadVarint64FromArray (ahead c) = Some (Some (of_nat (varint_value bs), length bs))"
    from varint_resultI(1) [OF h(1), of "\<lambda>bs. of_nat (varint_value bs)"] show ?thesis
      by (simp add: ReadVarint64Fallback_def i h(2))
  next
    assume h: "\<forall>bs. \<not> varint_head 10 (unread c) bs" "ReadVarint64FromArray (ahead c) = Some None"
    from varint_resultI(2) [of 10 c 0] h(1) show ?thesis
      by (simp add: ReadVarint64Fallback_def i h(2))
  qed
next
  case False
  then have inside: "varint_inside c = Some False" by (simp add: varint_inside_eq [OF assms])
  with loop_varint [OF assms, of "[]" 0 10] show ?thesis
    by (simp add: ReadVarint64Fallback_def inside ReadVarint64Slow_def kMaxVarintBytes_def)
qed

lemma ucast_of_nat_32: "(ucast (of_nat n :: uint64) :: uint32) = of_nat n"
  by (auto intro!: bit_word_eqI simp: bit_simps)

lemma varint_result_map:
  "varint_result n f c r \<Longrightarrow> varint_result n (g \<circ> f) c (got_bind r (\<lambda>x c. Got (g x) c))"
  by (auto simp: varint_result_def)

lemma ReadVarint32Fallback_result:
  assumes "cis_ok c"
  shows "varint_result 10 (\<lambda>bs. of_nat (varint_value bs)) c (ReadVarint32Fallback c)"
proof (cases "10 \<le> length (unread c) \<or> (unread c \<noteq> [] \<and> last (unread c) < 128)")
  case True
  then have i: "varint_inside c = Some True" by (simp add: varint_inside_eq [OF assms])
  have "(\<exists>bs. varint_head 10 (unread c) bs \<and> ReadVarint32FromArray (ahead c) = Some (Some (of_nat (varint_value bs), length bs))) \<or>
      ((\<forall>bs. \<not> varint_head 10 (unread c) bs) \<and> ReadVarint32FromArray (ahead c) = Some None)"
    by (rule fast_result [OF assms True]) (simp_all add: ReadVarint32FromArray_varint ReadVarint32FromArray_overrun)
  then show ?thesis
  proof (elim disjE exE conjE)
    fix bs
    assume h: "varint_head 10 (unread c) bs" "ReadVarint32FromArray (ahead c) = Some (Some (of_nat (varint_value bs), length bs))"
    from varint_resultI(1) [OF h(1), of "\<lambda>bs. of_nat (varint_value bs)"] show ?thesis
      by (simp add: ReadVarint32Fallback_def i h(2))
  next
    assume h: "\<forall>bs. \<not> varint_head 10 (unread c) bs" "ReadVarint32FromArray (ahead c) = Some None"
    from varint_resultI(2) [of 10 c 0] h(1) show ?thesis
      by (simp add: ReadVarint32Fallback_def i h(2))
  qed
next
  case False
  then have inside: "varint_inside c = Some False" by (simp add: varint_inside_eq [OF assms])
  have "varint_result 10 (ucast \<circ> (\<lambda>bs. of_nat (varint_value bs) :: uint64)) c (ReadVarint32Slow c)"
    unfolding ReadVarint32Slow_def by (rule varint_result_map [OF ReadVarint64Fallback_result [OF assms]])
  then show ?thesis
    by (simp add: ReadVarint32Fallback_def inside comp_def ucast_of_nat_32)
qed

text \<open>The inlined test for a one-byte varint changes nothing.\<close>

lemma one_byte_result:
  assumes "cis_ok c" "varint_result 10 f c r" "\<And>b. b < 128 \<Longrightarrow> f [b] = g b"
  shows "varint_result 10 f c
    (if cur c < cur_end c
     then case byte_at (cur c) c of None \<Rightarrow> Crash | Some b \<Rightarrow> if b < 0x80 then Got (g b) (Advance 1 c) else r
     else r)"
proof (cases "unread c")
  case Nil
  then have "\<not> cur c < cur_end c" using at_end [OF assms(1)] by simp
  with assms(2) show ?thesis by simp
next
  case (Cons b w)
  have "varint_head 10 (unread c) [b]" if "b < 128"
    using that by (simp add: Cons varint_head_def)
  with byte_at_cur [OF assms(1) Cons] assms(2,3) varint_resultI(1) [of 10 c "[b]" f] show ?thesis
    by auto
qed

lemma one_byte_value: "b < 128 \<Longrightarrow> of_nat (varint_value [b]) = (ucast b :: 'a::len word)" for b :: byte
  by (simp add: word_less_nat_alt)

lemma ReadVarint64_result: "cis_ok c \<Longrightarrow> varint_result 10 (\<lambda>bs. of_nat (varint_value bs)) c (ReadVarint64 c)"
  unfolding ReadVarint64_def by (rule one_byte_result [OF _ ReadVarint64Fallback_result]) (simp_all add: one_byte_value del: varint_value.simps)

lemma ReadVarint32_result: "cis_ok c \<Longrightarrow> varint_result 10 (\<lambda>bs. of_nat (varint_value bs)) c (ReadVarint32 c)"
  unfolding ReadVarint32_def by (rule one_byte_result [OF _ ReadVarint32Fallback_result]) (simp_all add: one_byte_value del: varint_value.simps)

lemma varint_result_Fails_or_Got:
  assumes "cis_ok c" "varint_result 10 f c r"
  obtains bs where "varint_head 10 (unread c) bs" "r = Got (f bs) (Advance (int (length bs)) c)" "0 < length bs" "length bs \<le> length (unread c)"
  | k where "\<forall>bs. \<not> varint_head 10 (unread c) bs" "k \<le> length (unread c)" "r = Fails (Advance (int k) c)"
proof -
  have "0 < length bs \<and> length bs \<le> length (unread c)" if "varint_head 10 (unread c) bs" for bs
    using that by (cases bs) (auto simp: varint_head_def)
  with assms(2) that show thesis by (auto simp: varint_result_def)
qed

lemma varint_head_append: "is_varint bs \<Longrightarrow> length bs \<le> 10 \<Longrightarrow> unread c = bs @ rest \<Longrightarrow> varint_head 10 (unread c) bs"
  by (auto simp: varint_head_def)

lemma varint_head_varint:
  assumes "n < 2 ^ 64" "unread c = varint n @ rest"
  shows "varint_head 10 (unread c) (varint n)"
proof -
  have "n < 128 ^ Suc 9" using assms(1) by simp
  then have "length (varint n) \<le> Suc 9" by (rule length_varint_le) simp
  with assms(2) show ?thesis by (auto simp: varint_head_def)
qed

lemma ReadVarint32_varint:
  "cis_ok c \<Longrightarrow> unread c = varint n @ rest \<Longrightarrow> n < 2 ^ 64 \<Longrightarrow>
     ReadVarint32 c = Got (of_nat n) (Advance (int (length (varint n))) c)"
  using varint_resultD [OF ReadVarint32_result varint_head_varint] by simp

lemma ReadVarint64_varint:
  "cis_ok c \<Longrightarrow> unread c = varint n @ rest \<Longrightarrow> n < 2 ^ 64 \<Longrightarrow>
     ReadVarint64 c = Got (of_nat n) (Advance (int (length (varint n))) c)"
  using varint_resultD [OF ReadVarint64_result varint_head_varint] by simp

section \<open>Reading tags\<close>

lemma ReadTagFallback_end:
  assumes "cis_ok c" "unread c = []"
  shows "ReadTagFallback c = Got 0 (c\<lparr>legitimate_message_end := True\<rparr>)"
proof -
  have "varint_inside c = Some False" "cur c = cur_end c"
    using assms by (simp_all add: varint_inside_eq at_end)
  then show ?thesis
    using assms(1) by (auto simp: ReadTagFallback_def ReadTagSlow_def Refresh_ok cis_ok_def)
qed

lemma ReadTagFallback_head:
  assumes "cis_ok c" "unread c \<noteq> []"
  shows "(\<exists>bs. varint_head 10 (unread c) bs \<and> ReadTagFallback c = Got (of_nat (varint_value bs)) (Advance (int (length bs)) c)) \<or>
    ((\<forall>bs. \<not> varint_head 10 (unread c) bs) \<and> (\<exists>k \<le> length (unread c). ReadTagFallback c = Got 0 (Advance (int k) c)))"
proof (cases "10 \<le> length (unread c) \<or> (unread c \<noteq> [] \<and> last (unread c) < 128)")
  case True
  then have i: "varint_inside c = Some True" by (simp add: varint_inside_eq [OF assms(1)])
  have "(\<exists>bs. varint_head 10 (unread c) bs \<and> ReadVarint32FromArray (ahead c) = Some (Some (of_nat (varint_value bs), length bs))) \<or>
      ((\<forall>bs. \<not> varint_head 10 (unread c) bs) \<and> ReadVarint32FromArray (ahead c) = Some None)"
    by (rule fast_result [OF assms(1) True]) (simp_all add: ReadVarint32FromArray_varint ReadVarint32FromArray_overrun)
  then show ?thesis
  proof (elim disjE exE conjE)
    fix bs
    assume h: "varint_head 10 (unread c) bs" "ReadVarint32FromArray (ahead c) = Some (Some (of_nat (varint_value bs), length bs))"
    then have "ReadTagFallback c = Got (of_nat (varint_value bs)) (Advance (int (length bs)) c)"
      by (simp add: ReadTagFallback_def i)
    with h(1) show ?thesis by blast
  next
    assume h: "\<forall>bs. \<not> varint_head 10 (unread c) bs" "ReadVarint32FromArray (ahead c) = Some None"
    then have "ReadTagFallback c = Got 0 (Advance (int 0) c)"
      by (simp add: ReadTagFallback_def i)
    with h(1) show ?thesis by blast
  qed
next
  case False
  then have i: "varint_inside c = Some False" by (simp add: varint_inside_eq [OF assms(1)])
  have e: "cur c \<noteq> cur_end c" using at_end [OF assms(1)] assms(2) by simp
  from assms(1) ReadVarint64_result [OF assms(1)] show ?thesis
  proof (cases rule: varint_result_Fails_or_Got)
    case (1 bs)
    then have "ReadTagFallback c = Got (of_nat (varint_value bs)) (Advance (int (length bs)) c)"
      using e by (simp add: ReadTagFallback_def ReadTagSlow_def i ucast_of_nat_32)
    with 1(1) show ?thesis by blast
  next
    case (2 k)
    then have "ReadTagFallback c = Got 0 (Advance (int k) c)"
      using e by (simp add: ReadTagFallback_def ReadTagSlow_def i)
    with 2(1,2) show ?thesis by blast
  qed
qed

lemma ReadTag_end:
  assumes "cis_ok c" "unread c = []"
  shows "ReadTag c = Got 0 (c\<lparr>last_tag := 0, legitimate_message_end := True\<rparr>)"
  using assms at_end [OF assms(1)] ReadTagFallback_end [OF assms] by (simp add: ReadTag_def)

lemma ReadTag_head:
  assumes "cis_ok c" "unread c \<noteq> []"
  shows "(\<exists>bs. varint_head 10 (unread c) bs \<and>
      ReadTag c = Got (of_nat (varint_value bs)) ((Advance (int (length bs)) c)\<lparr>last_tag := of_nat (varint_value bs)\<rparr>)) \<or>
    ((\<forall>bs. \<not> varint_head 10 (unread c) bs) \<and>
      (\<exists>k \<le> length (unread c). ReadTag c = Got 0 ((Advance (int k) c)\<lparr>last_tag := 0\<rparr>)))"
proof -
  obtain b w where u: "unread c = b # w" using assms(2) by (cases "unread c") auto
  note b = byte_at_cur [OF assms(1) u]
  show ?thesis
  proof (cases "b < 128")
    case True
    then have "varint_head 10 (unread c) [b]" by (simp add: u varint_head_def)
    moreover have "ReadTag c = Got (ucast b) ((Advance 1 c)\<lparr>last_tag := ucast b\<rparr>)"
      using b True by (simp add: ReadTag_def Advance_def)
    moreover have "(ucast b :: uint32) = of_nat (varint_value [b])"
      by (simp only: one_byte_value [OF True])
    ultimately have "varint_head 10 (unread c) [b] \<and>
        ReadTag c = Got (of_nat (varint_value [b])) ((Advance (int (length [b])) c)\<lparr>last_tag := of_nat (varint_value [b])\<rparr>)"
      by (simp only: list.size) simp
    then show ?thesis by blast
  next
    case False
    with b have "ReadTag c = got_bind (ReadTagFallback c) (\<lambda>tag c. Got tag (c\<lparr>last_tag := tag\<rparr>))"
      by (simp add: ReadTag_def)
    with ReadTagFallback_head [OF assms] show ?thesis by auto
  qed
qed

lemma ReadTag_varint:
  assumes "cis_ok c" "unread c = varint n @ rest" "n < 2 ^ 32"
  shows "ReadTag c = Got (of_nat n) ((Advance (int (length (varint n))) c)\<lparr>last_tag := of_nat n\<rparr>)"
proof -
  have h: "varint_head 10 (unread c) (varint n)"
    using assms(2,3) by (intro varint_head_varint) auto
  have "unread c \<noteq> []" using assms(2) by (metis append_is_Nil_conv length_varint_pos length_greater_0_conv)
  from ReadTag_head [OF assms(1) this] show ?thesis
  proof (elim disjE exE conjE)
    fix bs
    assume "varint_head 10 (unread c) bs"
      and r: "ReadTag c = Got (of_nat (varint_value bs)) ((Advance (int (length bs)) c)\<lparr>last_tag := of_nat (varint_value bs)\<rparr>)"
    from varint_head_unique [OF this(1) h] r show ?thesis by simp
  next
    assume "\<forall>bs. \<not> varint_head 10 (unread c) bs"
    with h show ?thesis by blast
  qed
qed

text \<open>What a tag read promises whatever the bytes are.\<close>

lemma ReadTag_sound:
  assumes "cis_ok c"
  obtains tag c' n where "ReadTag c = Got tag c'" "n \<le> length (unread c)" "moves c n c'" "last_tag c' = tag"
    "tag \<noteq> 0 \<Longrightarrow> 0 < n" "unread c = [] \<Longrightarrow> tag = 0 \<and> legitimate_message_end c'"
    "unread c \<noteq> [] \<Longrightarrow> legitimate_message_end c' = legitimate_message_end c"
proof (cases "unread c = []")
  case True
  from that [OF ReadTag_end [OF assms True]] True show thesis by simp
next
  case False
  from ReadTag_head [OF assms False] show thesis
  proof (elim disjE exE conjE)
    fix bs
    assume h: "varint_head 10 (unread c) bs" and
      r: "ReadTag c = Got (of_nat (varint_value bs)) ((Advance (int (length bs)) c)\<lparr>last_tag := of_nat (varint_value bs)\<rparr>)"
    have "0 < length bs" "length bs \<le> length (unread c)" using h by (cases bs; auto simp: varint_head_def)+
    with that [OF r, of "length bs"] False show thesis by (simp add: Advance_def moves_def)
  next
    fix k
    assume "k \<le> length (unread c)" and r: "ReadTag c = Got 0 ((Advance (int k) c)\<lparr>last_tag := 0\<rparr>)"
    with that [OF r, of k] False show thesis by (simp add: Advance_def moves_def)
  qed
qed

lemma ExpectTag_head:
  assumes "cis_ok c" "unat expected < 128"
  shows "ExpectTag expected c = (case unread c of [] \<Rightarrow> Got False c
    | b # w \<Rightarrow> if ucast b = expected then Got True (Advance 1 c) else Got False c)"
proof -
  have e: "expected < push_bit 7 1" using assms(2) by (subst unat_less_pow2) simp_all
  show ?thesis
  proof (cases "unread c")
    case Nil
    then show ?thesis using at_end [OF assms(1)] e by (simp add: ExpectTag_def)
  next
    case (Cons b w)
    with byte_at_cur [OF assms(1) Cons] e show ?thesis by (simp add: ExpectTag_def)
  qed
qed

section \<open>Reading strings and fixed-width values\<close>

lemma InternalReadStringInline_eq:
  assumes "cis_ok c"
  shows "InternalReadStringInline sz c =
    (if sz < 0 then Fails c
     else if sz \<le> int (length (unread c)) then Got (take (nat sz) (unread c)) (Advance sz c)
     else Fails (Advance (int (length (unread c))) c))"
proof -
  note u = unread_length(2) [OF assms]
  have c: "copy_bytes sz c = Some (take (nat sz) (unread c))" if "0 \<le> sz" "sz \<le> int (length (unread c))"
    using copy_bytes_unread [OF assms, of "nat sz"] that by simp
  have "cis_ok (Advance (int (length (unread c))) c)"
    by (rule moves_ok [OF assms moves_simps(1)]) simp
  with c copy_bytes_unread [OF assms, of "length (unread c)"] show ?thesis
    by (simp add: InternalReadStringInline_def ReadStringFallback_def u Refresh_ok)
qed

lemma ReadRaw_short:
  assumes "cis_ok c" "int (length (unread c)) < sz"
  shows "ReadRaw sz c = Fails (Advance (int (length (unread c))) c)"
proof -
  have "cis_ok (Advance (int (length (unread c))) c)"
    by (rule moves_ok [OF assms(1) moves_simps(1)]) simp
  with copy_bytes_unread [OF assms(1), of "length (unread c)"] assms(2) show ?thesis
    by (simp add: ReadRaw_def unread_length(2) [OF assms(1)] Refresh_ok)
qed

lemma ReadLittleEndian32_eq:
  assumes "cis_ok c"
  shows "ReadLittleEndian32 c =
    (if 4 \<le> length (unread c) then Got (ReadLittleEndian32FromArray (take 4 (unread c))) (Advance 4 c)
     else Fails (Advance (int (length (unread c))) c))"
  using copy_bytes_unread [OF assms, of 4] ReadRaw_short [OF assms, of 4] unread_length(2) [OF assms]
  by (auto simp: ReadLittleEndian32_def ReadLittleEndian32Fallback_def)

lemma ReadLittleEndian64_eq:
  assumes "cis_ok c"
  shows "ReadLittleEndian64 c =
    (if 8 \<le> length (unread c) then Got (ReadLittleEndian64FromArray (take 8 (unread c))) (Advance 8 c)
     else Fails (Advance (int (length (unread c))) c))"
  using copy_bytes_unread [OF assms, of 8] ReadRaw_short [OF assms, of 8] unread_length(2) [OF assms]
  by (auto simp: ReadLittleEndian64_def ReadLittleEndian64Fallback_def)

lemma ReadLittleEndian32FromArray_enc [simp]: "ReadLittleEndian32FromArray (enc_fixed32 v) = v"
proof (rule bit_word_eqI)
  fix n
  assume "n < LENGTH(32)"
  moreover have "n < 8 \<or> 8 \<le> n \<and> n < 16 \<or> 16 \<le> n \<and> n < 24 \<or> 24 \<le> n" by linarith
  ultimately show "bit (ReadLittleEndian32FromArray (enc_fixed32 v)) n = bit v n"
    by (elim disjE conjE) (simp_all add: ReadLittleEndian32FromArray_def enc_fixed32_def bit_simps, linarith+)
qed

lemma ReadLittleEndian64FromArray_enc [simp]: "ReadLittleEndian64FromArray (enc_fixed64 v) = v"
proof -
  have t: "take 4 (enc_fixed64 v) = enc_fixed32 (ucast v)" "drop 4 (enc_fixed64 v) = enc_fixed32 (ucast (drop_bit 32 v))"
    by (simp_all add: enc_fixed64_def)
  show ?thesis
    unfolding ReadLittleEndian64FromArray_def t ReadLittleEndian32FromArray_enc Let_def
    by (auto intro!: bit_word_eqI simp: bit_simps)
qed

section \<open>Limits\<close>

text \<open>Pushing a limit narrows the unread bytes to a nested message; popping it goes on behind.\<close>

lemma PushLimit_eq:
  assumes "cis_ok c"
  shows "\<exists>m. 0 \<le> m \<and> m \<le> int (length (unread c)) \<and> (0 \<le> n \<and> n \<le> int (length (unread c)) \<longrightarrow> m = n) \<and>
    PushLimit n c = (current_limit c, c\<lparr>current_limit := cur c + m, cur_end := cur c + m,
      buffer_size_after_limit := int (length (array c)) - (cur c + m)\<rparr>)"
proof -
  define m where "m = min (if 0 \<le> n \<and> n \<le> INT_MAX - cur c then n else INT_MAX - cur c) (BufferSize c)"
  have m: "0 \<le> m" "m \<le> BufferSize c" "0 \<le> n \<Longrightarrow> n \<le> BufferSize c \<Longrightarrow> m = n"
    using assms by (auto simp: m_def cis_ok_def BufferSize_def)
  have p: "total_bytes_read c - (BufferSize c + buffer_size_after_limit c) = cur c"
    using assms by (simp add: cis_ok_def BufferSize_def)
  have l: "min (if 0 \<le> n \<and> n \<le> INT_MAX - cur c then cur c + n else INT_MAX) (current_limit c) = cur c + m"
    using assms by (auto simp: m_def cis_ok_def BufferSize_def)
  have "cur c + m \<le> total_bytes_limit c" "cur c + m \<le> int (length (array c))"
    using m(2) assms by (auto simp: cis_ok_def BufferSize_def)
  then have "PushLimit n c = (current_limit c, c\<lparr>current_limit := cur c + m, cur_end := cur c + m,
      buffer_size_after_limit := int (length (array c)) - (cur c + m)\<rparr>)"
    using assms unfolding PushLimit_def Let_def p l RecomputeBufferLimits_def by (auto simp: cis_ok_def)
  with m show ?thesis
    unfolding unread_length(2) [OF assms] by blast
qed

lemma PushLimit_ok:
  assumes "cis_ok c" "PushLimit n c = (old, c1)"
  shows "old = current_limit c" "cis_ok c1" "length (unread c1) \<le> length (unread c)"
    "0 \<le> n \<Longrightarrow> n \<le> int (length (unread c)) \<Longrightarrow> unread c1 = take (nat n) (unread c)"
    "legitimate_message_end c1 = legitimate_message_end c" "array c1 = array c" "recursion_depth c1 = recursion_depth c"
    "recursion_limit c1 = recursion_limit c"
proof -
  obtain m where m: "0 \<le> m" "m \<le> int (length (unread c))" "0 \<le> n \<and> n \<le> int (length (unread c)) \<longrightarrow> m = n"
      "old = current_limit c" "c1 = c\<lparr>current_limit := cur c + m, cur_end := cur c + m,
      buffer_size_after_limit := int (length (array c)) - (cur c + m)\<rparr>"
    using PushLimit_eq [OF assms(1), of n] assms(2) by auto
  have u: "unread c1 = take (nat m) (unread c)"
    using m(1,2) unread_length(2) [OF assms(1)] by (simp add: m(5) unread_def ahead_def BufferSize_def min_def nat_le_iff)
  show "old = current_limit c" by (rule m(4))
  show "cis_ok c1"
    using assms(1) m(1,2) unread_length(2) [OF assms(1)] by (simp add: m(5) cis_ok_def BufferSize_def)
  show "length (unread c1) \<le> length (unread c)" by (simp add: u)
  show "0 \<le> n \<Longrightarrow> n \<le> int (length (unread c)) \<Longrightarrow> unread c1 = take (nat n) (unread c)"
    using u m(3) by simp
  show "legitimate_message_end c1 = legitimate_message_end c" "array c1 = array c" "recursion_depth c1 = recursion_depth c"
    "recursion_limit c1 = recursion_limit c"
    by (simp_all add: m(5))
qed

lemma PopLimit_ok:
  assumes "cis_ok c" "PushLimit n c = (old, c1)" "moves c1 k c'"
  shows "moves c k (PopLimit old c')" "\<not> legitimate_message_end (PopLimit old c')"
proof -
  obtain m where m: "0 \<le> m" "m \<le> int (length (unread c))"
      "old = current_limit c" "c1 = c\<lparr>current_limit := cur c + m, cur_end := cur c + m,
      buffer_size_after_limit := int (length (array c)) - (cur c + m)\<rparr>"
    using PushLimit_eq [OF assms(1), of n] assms(2) by auto
  show "moves c k (PopLimit old c')"
    using assms(1,3) by (auto simp: moves_def m(3,4) PopLimit_def RecomputeBufferLimits_def cis_ok_def Let_def)
  show "\<not> legitimate_message_end (PopLimit old c')"
    by (simp add: PopLimit_def)
qed

end
