(* ===== verification/Parse_Loop.thy ===== *)
theory Parse_Loop
  imports Coded_Input Has_Bits
begin

text \<open>
  What the parsers of the generated messages share: the readers of
  \<^verbatim>\<open>wire_format_lite_inl.h\<close>, the skipping of unknown fields of \<^verbatim>\<open>wire_format.cc\<close>, and the loop that
  every \<^verbatim>\<open>MergePartialFromCodedStream\<close> of \<^verbatim>\<open>message.pb.cc\<close> is.
\<close>

section \<open>Readers\<close>

definition ReadPrimitive_INT32 :: "cis \<Rightarrow> int32 got" where
  "ReadPrimitive_INT32 c = got_bind (ReadVarint32 c) (\<lambda>temp c. Got temp c)"

definition ReadPrimitive_UINT32 :: "cis \<Rightarrow> uint32 got" where
  "ReadPrimitive_UINT32 c = ReadVarint32 c"

definition ReadPrimitive_ENUM :: "cis \<Rightarrow> int32 got" where
  "ReadPrimitive_ENUM c = got_bind (ReadVarint32 c) (\<lambda>temp c. Got temp c)"

definition ReadPrimitive_BOOL :: "cis \<Rightarrow> bool got" where
  "ReadPrimitive_BOOL c = got_bind (ReadVarint32 c) (\<lambda>temp c. Got (temp \<noteq> 0) c)"

definition ReadPrimitive_FLOAT :: "cis \<Rightarrow> float32 got" where
  "ReadPrimitive_FLOAT c = got_bind (ReadLittleEndian32 c) (\<lambda>temp c. Got temp c)"

definition WFL_ReadString :: "cis \<Rightarrow> bytes got" where
  "WFL_ReadString c = got_bind (ReadVarint32 c) (\<lambda>len c. InternalReadStringInline (sint len) c)"

definition WFL_ReadBytes :: "cis \<Rightarrow> bytes got" where
  "WFL_ReadBytes c = got_bind (ReadVarint32 c) (\<lambda>len c. InternalReadStringInline (sint len) c)"

definition ReadMessageNoVirtual :: "('m \<Rightarrow> cis \<Rightarrow> 'm got) \<Rightarrow> 'm \<Rightarrow> cis \<Rightarrow> 'm got" where
  "ReadMessageNoVirtual merge value c =
     got_bind (ReadVarint32 c) (\<lambda>len c.
       let (ok, c) = IncrementRecursionDepth c
       in if \<not> ok then Fails c
          else let (limit, c) = PushLimit (sint len) c
               in got_bind (merge value c) (\<lambda>value c.
                    if \<not> ConsumedEntireMessage c then Fails c
                    else Got value (DecrementRecursionDepth (PopLimit limit c))))"

section \<open>Unknown fields\<close>

text \<open>Both functions call each other; the first argument bounds the calls.\<close>

fun SkipField :: "nat \<Rightarrow> uint32 \<Rightarrow> unknown_field_set \<Rightarrow> cis \<Rightarrow> unknown_field_set got"
and SkipMessage :: "nat \<Rightarrow> unknown_field_set \<Rightarrow> cis \<Rightarrow> unknown_field_set got" where
  "SkipField 0 tag unknown_fields c = Runs_on"
| "SkipField (Suc n) tag unknown_fields c =
     (let number = GetTagFieldNumber tag; wire_type = GetTagWireType tag
      in if wire_type = WIRETYPE_VARINT then
           got_bind (ReadVarint64 c) (\<lambda>value c. Got (AddVarint number value unknown_fields) c)
         else if wire_type = WIRETYPE_FIXED64 then
           got_bind (ReadLittleEndian64 c) (\<lambda>value c. Got (AddFixed64 number value unknown_fields) c)
         else if wire_type = WIRETYPE_LENGTH_DELIMITED then
           got_bind (ReadVarint32 c) (\<lambda>len c.
             got_bind (ReadString (sint len) c) (\<lambda>s c. Got (AddLengthDelimited number s unknown_fields) c))
         else if wire_type = WIRETYPE_START_GROUP then
           (let (ok, c) = IncrementRecursionDepth c
            in if \<not> ok then Fails c
               else got_bind (SkipMessage n [] c) (\<lambda>grp c.
                 let c = DecrementRecursionDepth c
                 in if LastTagWas (MakeTag (GetTagFieldNumber tag) WIRETYPE_END_GROUP) c
                    then Got (AddGroup number grp unknown_fields) c else Fails c))
         else if wire_type = WIRETYPE_END_GROUP then Fails c
         else if wire_type = WIRETYPE_FIXED32 then
           got_bind (ReadLittleEndian32 c) (\<lambda>value c. Got (AddFixed32 number value unknown_fields) c)
         else Fails c)"
| "SkipMessage 0 unknown_fields c = Runs_on"
| "SkipMessage (Suc n) unknown_fields c =
     got_bind (ReadTag c) (\<lambda>tag c.
       if tag = 0 then Got unknown_fields c
       else if GetTagWireType tag = WIRETYPE_END_GROUP then Got unknown_fields c
       else got_bind (SkipField n tag unknown_fields c) (\<lambda>unknown_fields c. SkipMessage n unknown_fields c))"

text \<open>\<open>skip_bound\<close> turns are enough, because every turn reads a tag.\<close>

definition skip_bound :: "cis \<Rightarrow> nat" where
  "skip_bound c = 2 * nat (BufferSize c) + 2"

section \<open>The loop\<close>

text \<open>
  One \<^verbatim>\<open>case\<close> of the switch: its field number and wire type, what follows the label \<^verbatim>\<open>parse_...\<close>, the
  jumps \<^verbatim>\<open>if (input->ExpectTag(t)) goto parse_...\<close> in their order, and whether
  \<^verbatim>\<open>if (input->ExpectAtEnd()) return true\<close> closes it.
\<close>

record 'm row =
  row_number :: int32
  row_wiretype :: uint32
  row_parse :: "'m \<Rightarrow> cis \<Rightarrow> 'm got"
  row_expects :: "(uint32 \<times> int32) list"
  row_at_end :: bool

definition row_for :: "'m row list \<Rightarrow> int32 \<Rightarrow> 'm row option" where
  "row_for rows number = List.find (\<lambda>r. row_number r = number) rows"

fun expect_any :: "(uint32 \<times> int32) list \<Rightarrow> cis \<Rightarrow> int32 option got" where
  "expect_any [] c = Got None c"
| "expect_any ((expected, label) # jumps) c =
     got_bind (ExpectTag expected c) (\<lambda>hit c. if hit then Got (Some label) c else expect_any jumps c)"

text \<open>
  Execution from a label: \<open>None\<close> is the head of the loop, \<open>Some k\<close> the label of the field \<open>k\<close>. The
  handling of uninterpreted fields is the last case of the switch.
\<close>

fun parse_loop :: "'m row list \<Rightarrow> (uint32 \<Rightarrow> 'm \<Rightarrow> cis \<Rightarrow> 'm got) \<Rightarrow> nat \<Rightarrow> int32 option \<Rightarrow> 'm \<Rightarrow> cis \<Rightarrow> 'm got" where
  "parse_loop rows skip 0 label m c = Runs_on"
| "parse_loop rows skip (Suc n) None m c =
     got_bind (ReadTag c) (\<lambda>tag c.
       if tag = 0 then Got m c
       else case row_for rows (GetTagFieldNumber tag) of
           Some r \<Rightarrow>
             if GetTagWireType tag = row_wiretype r then parse_loop rows skip n (Some (row_number r)) m c
             else if GetTagWireType tag = WIRETYPE_END_GROUP then Got m c
             else got_bind (skip tag m c) (\<lambda>m c. parse_loop rows skip n None m c)
         | None \<Rightarrow>
             if GetTagWireType tag = WIRETYPE_END_GROUP then Got m c
             else got_bind (skip tag m c) (\<lambda>m c. parse_loop rows skip n None m c))"
| "parse_loop rows skip (Suc n) (Some k) m c =
     (case row_for rows k of
        None \<Rightarrow> Crash
      | Some r \<Rightarrow>
          got_bind (row_parse r m c) (\<lambda>m c.
          got_bind (expect_any (row_expects r) c) (\<lambda>jump c.
            case jump of
              Some k' \<Rightarrow> parse_loop rows skip n (Some k') m c
            | None \<Rightarrow>
                let (at_end, c) = (if row_at_end r then ExpectAtEnd c else (False, c))
                in if at_end then Got m c else parse_loop rows skip n None m c)))"

text \<open>Every turn reads at least one byte, so there are at most one more turns than bytes.\<close>

definition MergePartial :: "'m row list \<Rightarrow> (uint32 \<Rightarrow> 'm \<Rightarrow> cis \<Rightarrow> 'm got) \<Rightarrow> 'm \<Rightarrow> cis \<Rightarrow> 'm got" where
  "MergePartial rows skip m c = parse_loop rows skip (Suc (nat (BufferSize c))) None m c"

text \<open>\<^verbatim>\<open>WireFormat::SkipField(input, tag, mutable_unknown_fields())\<close>.\<close>

definition skip_into :: "('m \<Rightarrow> unknown_field_set) \<Rightarrow> (unknown_field_set \<Rightarrow> 'm \<Rightarrow> 'm) \<Rightarrow> uint32 \<Rightarrow> 'm \<Rightarrow> cis \<Rightarrow> 'm got" where
  "skip_into get put tag m c = got_bind (SkipField (skip_bound c) tag (get m) c) (\<lambda>ufs c. Got (put ufs m) c)"

section \<open>Reading is sound\<close>

text \<open>
  Whatever the bytes are, a sound reader stays inside the array and within its bounds, reads at
  least \<open>k\<close> bytes, and raises the end flag at a limit only.
\<close>

definition flag_ok :: "cis \<Rightarrow> bool" where
  "flag_ok c \<longleftrightarrow> (legitimate_message_end c \<longrightarrow> unread c = [])"

definition sound :: "nat \<Rightarrow> cis \<Rightarrow> 'a got \<Rightarrow> bool" where
  "sound k c r \<longleftrightarrow>
     (case r of
        Got x c' \<Rightarrow> (\<exists>n. k \<le> n \<and> n \<le> length (unread c) \<and> moves c n c' \<and> (flag_ok c \<longrightarrow> flag_ok c'))
      | Fails c' \<Rightarrow> True | Crash \<Rightarrow> False | Runs_on \<Rightarrow> False)"

lemma sound_simps [simp]: "sound k c (Fails c')" "\<not> sound k c Crash" "\<not> sound k c Runs_on"
  by (simp_all add: sound_def)

lemma sound_Got:
  "k \<le> n \<Longrightarrow> n \<le> length (unread c) \<Longrightarrow> moves c n c' \<Longrightarrow> (flag_ok c \<Longrightarrow> flag_ok c') \<Longrightarrow> sound k c (Got x c')"
  by (auto simp: sound_def)

lemma sound_GotE:
  assumes "sound k c (Got x c')" "cis_ok c"
  obtains n where "k \<le> n" "n \<le> length (unread c)" "moves c n c'" "flag_ok c \<Longrightarrow> flag_ok c'" "cis_ok c'"
    "unread c' = drop n (unread c)"
proof -
  from assms(1) obtain n where n: "k \<le> n" "n \<le> length (unread c)" "moves c n c'" "flag_ok c \<longrightarrow> flag_ok c'"
    by (auto simp: sound_def)
  with moves_ok [OF assms(2) n(3,2)] moves_unread [OF assms(2) n(3)] that show thesis by blast
qed

lemma sound_stay [simp]: "sound 0 c (Got x c)"
  by (rule sound_Got [of _ 0]) simp_all

lemma sound_mono: "sound k c r \<Longrightarrow> j \<le> k \<Longrightarrow> sound j c r"
  by (cases r) (auto simp: sound_def dest: le_trans)

lemma sound_bind:
  assumes "cis_ok c" "sound j c r"
    and "\<And>x c'. r = Got x c' \<Longrightarrow> cis_ok c' \<Longrightarrow> length (unread c') + j \<le> length (unread c) \<Longrightarrow> sound k c' (f x c')"
  shows "sound (j + k) c (got_bind r f)"
proof (cases r)
  case (Got x c')
  with assms(2) obtain n where n: "j \<le> n" "n \<le> length (unread c)" "moves c n c'" "flag_ok c \<Longrightarrow> flag_ok c'" "cis_ok c'"
      "unread c' = drop n (unread c)"
    using sound_GotE assms(1) by metis
  have f: "sound k c' (f x c')" using assms(3) [OF Got n(5)] n by simp
  show ?thesis
  proof (cases "f x c'")
    case (Got y c'')
    with f n(5) obtain n' where n': "k \<le> n'" "n' \<le> length (unread c')" "moves c' n' c''" "flag_ok c' \<Longrightarrow> flag_ok c''"
      using sound_GotE by metis
    show ?thesis
      unfolding \<open>r = Got x c'\<close> got_bind_simps Got
      by (rule sound_Got [of _ "n + n'"]) (use n n' moves_trans in auto)
  qed (use f \<open>r = Got x c'\<close> in simp_all)
qed (use assms(2) in simp_all)

lemma flag_moves:
  assumes "cis_ok c" "moves c n c'" "legitimate_message_end c' = legitimate_message_end c" "flag_ok c"
  shows "flag_ok c'"
  using assms moves_unread [OF assms(1,2)] by (auto simp: flag_ok_def)

lemma Advance_flag [simp]: "legitimate_message_end (Advance n c) = legitimate_message_end c"
  by (simp add: Advance_def)

lemma sound_Advance:
  assumes "cis_ok c" "k \<le> n" "n \<le> length (unread c)"
  shows "sound k c (Got x (Advance (int n) c))"
  by (rule sound_Got [OF assms(2,3)]) (simp_all add: flag_moves [OF assms(1) moves_simps(1)])

lemma sound_Advance_int:
  assumes "cis_ok c" "int k \<le> a" "a \<le> int (length (unread c))"
  shows "sound k c (Got x (Advance a c))"
  using sound_Advance [OF assms(1), of k "nat a" x] assms(2,3) by (simp add: nat_le_iff le_nat_iff)

lemma varint_sound:
  assumes "cis_ok c" "varint_result 10 f c r"
  shows "sound 1 c r"
  using assms
proof (cases rule: varint_result_Fails_or_Got)
  case (1 bs)
  then have "1 \<le> length bs" "length bs \<le> length (unread c)" by (cases bs; auto simp: varint_head_def)+
  from sound_Advance [OF assms(1) this] show ?thesis by (simp add: 1)
qed simp

lemma read_sound:
  assumes "cis_ok c"
  shows "sound 1 c (ReadVarint32 c)" "sound 1 c (ReadVarint64 c)" "sound 1 c (ReadLittleEndian32 c)"
    "sound 1 c (ReadLittleEndian64 c)" "sound 0 c (InternalReadStringInline sz c)" "sound 0 c (ReadString sz c)"
proof -
  show "sound 1 c (ReadVarint32 c)" "sound 1 c (ReadVarint64 c)"
    by (rule varint_sound [OF assms ReadVarint32_result [OF assms]], rule varint_sound [OF assms ReadVarint64_result [OF assms]])
  show "sound 1 c (ReadLittleEndian32 c)" "sound 1 c (ReadLittleEndian64 c)"
    by (simp_all add: ReadLittleEndian32_eq ReadLittleEndian64_eq sound_Advance_int assms)
  show i: "sound 0 c (InternalReadStringInline sz c)"
    by (simp add: InternalReadStringInline_eq sound_Advance_int assms)
  then show "sound 0 c (ReadString sz c)" by (simp add: ReadString_def)
qed

lemma sound_bind_1: "cis_ok c \<Longrightarrow> sound 1 c r \<Longrightarrow>
    (\<And>x c'. r = Got x c' \<Longrightarrow> cis_ok c' \<Longrightarrow> length (unread c') < length (unread c) \<Longrightarrow> sound 0 c' (f x c')) \<Longrightarrow>
    sound 1 c (got_bind r f)"
  using sound_bind [of c 1 r 0 f] by auto

lemma primitive_sound:
  assumes "cis_ok c"
  shows "sound 1 c (ReadPrimitive_INT32 c)" "sound 1 c (ReadPrimitive_UINT32 c)" "sound 1 c (ReadPrimitive_ENUM c)"
    "sound 1 c (ReadPrimitive_BOOL c)" "sound 1 c (ReadPrimitive_FLOAT c)" "sound 1 c (WFL_ReadString c)" "sound 1 c (WFL_ReadBytes c)"
proof -
  note b = sound_bind_1 [OF assms read_sound(1) [OF assms]] sound_bind_1 [OF assms read_sound(3) [OF assms]]
  show "sound 1 c (ReadPrimitive_INT32 c)" "sound 1 c (ReadPrimitive_ENUM c)" "sound 1 c (ReadPrimitive_BOOL c)"
    unfolding ReadPrimitive_INT32_def ReadPrimitive_ENUM_def ReadPrimitive_BOOL_def by (rule b(1), rule sound_stay)+
  show "sound 1 c (ReadPrimitive_UINT32 c)"
    unfolding ReadPrimitive_UINT32_def by (rule read_sound [OF assms])
  show "sound 1 c (ReadPrimitive_FLOAT c)"
    unfolding ReadPrimitive_FLOAT_def by (rule b(2), rule sound_stay)
  show "sound 1 c (WFL_ReadString c)" "sound 1 c (WFL_ReadBytes c)"
    unfolding WFL_ReadString_def WFL_ReadBytes_def by (rule b(1), erule read_sound)+
qed

lemma depth_ok:
  assumes "cis_ok c" "IncrementRecursionDepth c = (ok, c1)"
  shows "cis_ok c1" "unread c1 = unread c" "flag_ok c1 = flag_ok c" "moves c1 n c2 \<Longrightarrow> moves c n (DecrementRecursionDepth c2)"
    "ok \<longleftrightarrow> recursion_depth c < recursion_limit c" "legitimate_message_end c1 = legitimate_message_end c"
    "recursion_depth c1 = recursion_depth c + 1" "recursion_limit c1 = recursion_limit c"
proof -
  have c1: "c1 = c\<lparr>recursion_depth := recursion_depth c + 1\<rparr>" "ok \<longleftrightarrow> recursion_depth c + 1 \<le> recursion_limit c"
    using assms(2) by (auto simp: IncrementRecursionDepth_def Let_def)
  show "cis_ok c1" "unread c1 = unread c" "legitimate_message_end c1 = legitimate_message_end c"
    "recursion_depth c1 = recursion_depth c + 1" "recursion_limit c1 = recursion_limit c"
    using assms(1) by (simp_all add: c1 cis_ok_def unread_def ahead_def BufferSize_def)
  then show "flag_ok c1 = flag_ok c" by (simp add: flag_ok_def)
  show "moves c1 n c2 \<Longrightarrow> moves c n (DecrementRecursionDepth c2)"
    using assms(1) by (auto simp: moves_def c1 DecrementRecursionDepth_def cis_ok_def)
  show "ok \<longleftrightarrow> recursion_depth c < recursion_limit c"
    by (auto simp: c1)
qed

lemma Decrement_simps [simp]:
  "legitimate_message_end (DecrementRecursionDepth c) = legitimate_message_end c" "last_tag (DecrementRecursionDepth c) = last_tag c"
  "unread (DecrementRecursionDepth c) = unread c" "flag_ok (DecrementRecursionDepth c) = flag_ok c"
  by (simp_all add: DecrementRecursionDepth_def unread_def ahead_def BufferSize_def flag_ok_def)

text \<open>\<open>safe\<close>: sound, and the message is well-formed.\<close>

definition safe :: "('m \<Rightarrow> bool) \<Rightarrow> nat \<Rightarrow> cis \<Rightarrow> 'm got \<Rightarrow> bool" where
  "safe ok k c r \<longleftrightarrow> sound k c r \<and> (case r of Got m c' \<Rightarrow> ok m | _ \<Rightarrow> True)"

lemma safe_simps [simp]: "safe ok k c (Fails c')" "\<not> safe ok k c Crash" "\<not> safe ok k c Runs_on" "safe ok k c (Got m c') \<longleftrightarrow> sound k c (Got m c') \<and> ok m"
  by (simp_all add: safe_def)

lemma safe_sound: "safe ok k c r \<Longrightarrow> sound k c r"
  by (simp add: safe_def)

lemma safe_mono: "safe ok k c r \<Longrightarrow> j \<le> k \<Longrightarrow> safe ok j c r"
  by (auto simp: safe_def intro: sound_mono)

lemma safe_bind:
  assumes "cis_ok c" "sound j c r"
    and "\<And>x c'. r = Got x c' \<Longrightarrow> cis_ok c' \<Longrightarrow> length (unread c') + j \<le> length (unread c) \<Longrightarrow> safe ok k c' (f x c')"
  shows "safe ok (j + k) c (got_bind r f)"
proof -
  have s: "sound (j + k) c (got_bind r f)"
    by (rule sound_bind [OF assms(1,2)]) (rule safe_sound [OF assms(3)])
  show ?thesis
  proof (cases r)
    case (Got x c')
    with assms(2) obtain n where n: "j \<le> n" "n \<le> length (unread c)" "cis_ok c'" "unread c' = drop n (unread c)"
      using sound_GotE assms(1) by metis
    then have "safe ok k c' (f x c')" using assms(3) [OF Got] by simp
    with s Got show ?thesis by (simp add: safe_def)
  qed (use s in \<open>simp_all add: safe_def\<close>)
qed

lemma safe_bind_0: "cis_ok c \<Longrightarrow> sound 0 c r \<Longrightarrow>
    (\<And>x c'. r = Got x c' \<Longrightarrow> cis_ok c' \<Longrightarrow> length (unread c') \<le> length (unread c) \<Longrightarrow> safe ok 0 c' (f x c')) \<Longrightarrow>
    safe ok 0 c (got_bind r f)"
  using safe_bind [of c 0 r ok 0 f] by auto

lemma safe_value:
  assumes "cis_ok c" "sound 1 c r" "\<And>x. ok (f x)"
  shows "safe ok 1 c (got_bind r (\<lambda>x c. Got (f x) c))"
  using safe_bind [OF assms(1,2), of ok 0 "\<lambda>x c. Got (f x) c"] assms(3) by simp

lemma safe_moves:
  assumes "cis_ok c" "moves c n c'" "n \<le> length (unread c)" "flag_ok c \<longrightarrow> flag_ok c'" "safe ok k c' r"
  shows "safe ok k c r"
proof -
  have "sound k c r"
  proof (cases r)
    case (Got x c'')
    with assms(5) obtain n' where n': "k \<le> n'" "n' \<le> length (unread c')" "moves c' n' c''" "flag_ok c' \<longrightarrow> flag_ok c''"
      by (auto simp: sound_def)
    show ?thesis
      unfolding Got by (rule sound_Got [of _ "n + n'"]) (use n' assms moves_trans moves_unread in auto)
  qed (use assms(5) in simp_all)
  with assms(5) show ?thesis by (simp add: safe_def)
qed

lemma ReadMessageNoVirtual_safe:
  assumes "cis_ok c" "\<And>c. cis_ok c \<Longrightarrow> safe ok 0 c (merge m c)"
  shows "safe ok 1 c (ReadMessageNoVirtual merge m c)"
proof -
  have "safe ok (1 + 0) c (ReadMessageNoVirtual merge m c)"
    unfolding ReadMessageNoVirtual_def
  proof (rule safe_bind [OF assms(1) read_sound(1) [OF assms(1)]])
    fix len :: uint32 and c :: cis
    assume c: "cis_ok c"
    obtain b c1 where i: "IncrementRecursionDepth c = (b, c1)" by (cases "IncrementRecursionDepth c")
    obtain old c2 where p: "PushLimit (sint len) c1 = (old, c2)" by (cases "PushLimit (sint len) c1")
    note d = depth_ok [OF c i] and l = PushLimit_ok [OF depth_ok(1) [OF c i] p]
    have "safe ok 0 c (got_bind (merge m c2) (\<lambda>value c. if \<not> ConsumedEntireMessage c then Fails c
        else Got value (DecrementRecursionDepth (PopLimit old c))))"
    proof (cases "merge m c2")
      case (Got x c3)
      then have x: "ok x" "sound 0 c2 (Got x c3)" using assms(2) [OF l(2)] by simp_all
      then obtain n where n: "n \<le> length (unread c2)" "moves c2 n c3"
        using sound_GotE l(2) by metis
      note q = PopLimit_ok [OF d(1) p n(2)]
      have "sound 0 c (Got x (DecrementRecursionDepth (PopLimit old c3)))"
        by (rule sound_Got [of _ n]) (use n l(3) d(2,4) q in \<open>auto simp: flag_ok_def\<close>)
      then show ?thesis using x by (simp add: Got)
    qed (use assms(2) [OF l(2)] in simp_all)
    then show "safe ok 0 c (let (ok, c) = IncrementRecursionDepth c
         in if \<not> ok then Fails c
            else let (limit, c) = PushLimit (sint len) c
                 in got_bind (merge m c) (\<lambda>value c.
                      if \<not> ConsumedEntireMessage c then Fails c
                      else Got value (DecrementRecursionDepth (PopLimit limit c))))"
      by (simp add: i p)
  qed
  then show ?thesis by simp
qed

lemma tag_step:
  assumes "cis_ok c"
  obtains tag c' where "ReadTag c = Got tag c'" "cis_ok c'" "sound 0 c (ReadTag c)" "flag_ok c \<Longrightarrow> flag_ok c'" "last_tag c' = tag"
    "tag \<noteq> 0 \<Longrightarrow> sound 1 c (ReadTag c) \<and> length (unread c') < length (unread c)"
proof -
  obtain tag c' n where t: "ReadTag c = Got tag c'" "n \<le> length (unread c)" "moves c n c'" "last_tag c' = tag"
    "tag \<noteq> 0 \<Longrightarrow> 0 < n" "unread c = [] \<Longrightarrow> tag = 0 \<and> legitimate_message_end c'"
    "unread c \<noteq> [] \<Longrightarrow> legitimate_message_end c' = legitimate_message_end c"
    by (rule ReadTag_sound [OF assms]) blast
  note u = moves_unread [OF assms t(3)]
  have f: "flag_ok c'" if "flag_ok c" using that t(7) by (cases "unread c = []") (simp_all add: flag_ok_def u)
  have s: "sound k c (ReadTag c)" if "k \<le> n" for k
    unfolding t(1) using that t(2,3) f by (rule sound_Got)
  have l: "tag \<noteq> 0 \<Longrightarrow> sound 1 c (ReadTag c) \<and> length (unread c') < length (unread c)"
    using t(2,5) s [of 1] by (simp add: u)
  show thesis
    by (rule that [OF t(1) moves_ok [OF assms t(3,2)] s f t(4) l]) simp_all
qed

lemma sound_bind_0: "cis_ok c \<Longrightarrow> sound 0 c r \<Longrightarrow>
    (\<And>x c'. r = Got x c' \<Longrightarrow> cis_ok c' \<Longrightarrow> length (unread c') \<le> length (unread c) \<Longrightarrow> sound 0 c' (f x c')) \<Longrightarrow>
    sound 0 c (got_bind r f)"
  using sound_bind [of c 0 r 0 f] by auto

lemma sound_value: "cis_ok c \<Longrightarrow> sound 1 c r \<Longrightarrow> sound 0 c (got_bind r (\<lambda>x c. Got (f x) c))"
  by (rule sound_mono [OF sound_bind_1]) simp_all

lemma SkipField_sound:
  assumes "cis_ok c" "\<And>c'. cis_ok c' \<Longrightarrow> unread c' = unread c \<Longrightarrow> sound 0 c' (SkipMessage n [] c')"
  shows "sound 0 c (SkipField (Suc n) tag ufs c)"
proof -
  have s: "sound 0 c (got_bind (ReadVarint32 c) (\<lambda>len c. got_bind (ReadString (sint len) c) (\<lambda>s c. Got (f s) c)))" for f :: "bytes \<Rightarrow> unknown_field_set"
    by (rule sound_mono [OF sound_bind_1 [OF assms(1) read_sound(1) [OF assms(1)]]])
      (simp_all add: sound_bind_0 read_sound(6))
  obtain ok c1 where i: "IncrementRecursionDepth c = (ok, c1)" by (cases "IncrementRecursionDepth c")
  note d = depth_ok [OF assms(1) i]
  have "sound 0 c (got_bind (SkipMessage n [] c1) (\<lambda>grp c. let c = DecrementRecursionDepth c
      in if LastTagWas t c then Got (f grp) c else Fails c))" for t and f :: "unknown_field_set \<Rightarrow> unknown_field_set"
  proof (cases "SkipMessage n [] c1")
    case (Got x c2)
    then obtain m where m: "m \<le> length (unread c1)" "moves c1 m c2" "flag_ok c1 \<Longrightarrow> flag_ok c2"
      using assms(2) [OF d(1,2)] sound_GotE d(1) by metis
    have "sound 0 c (Got (f x) (DecrementRecursionDepth c2))"
      by (rule sound_Got [of _ m]) (use m d(2-4) in simp_all)
    then show ?thesis by (simp add: Got Let_def)
  qed (use assms(2) [OF d(1,2)] in simp_all)
  then show ?thesis
    unfolding SkipField.simps Let_def i
    by (simp add: s sound_value read_sound assms(1) Let_def del: One_nat_def)
qed

lemma skip_sound:
  "(cis_ok c \<longrightarrow> 2 * length (unread c) + 2 \<le> n \<longrightarrow> sound 0 c (SkipField n tag ufs c)) \<and>
   (cis_ok c \<longrightarrow> 2 * length (unread c) + 1 \<le> n \<longrightarrow> sound 0 c (SkipMessage n ufs c))"
proof (induction n arbitrary: tag ufs c)
  case (Suc n)
  have F: "sound 0 c (SkipField n tag ufs c)" if "cis_ok c" "2 * length (unread c) + 2 \<le> n" for tag ufs c
    using Suc that by blast
  have M: "sound 0 c (SkipMessage n ufs c)" if "cis_ok c" "2 * length (unread c) + 1 \<le> n" for ufs c
    using Suc that by blast
  have "sound 0 c (SkipMessage (Suc n) ufs c)" if c: "cis_ok c" "2 * length (unread c) + 1 \<le> Suc n"
  proof -
    obtain t c' where t: "ReadTag c = Got t c'" "cis_ok c'" "sound 0 c (ReadTag c)"
      "t \<noteq> 0 \<Longrightarrow> length (unread c') < length (unread c)"
      using tag_step [OF c(1)] by metis
    have "sound 0 c' (got_bind (SkipField n t ufs c') (\<lambda>ufs c. SkipMessage n ufs c))" if "t \<noteq> 0"
      by (rule sound_bind_0 [OF t(2) F [OF t(2)]]) (use t(4) [OF that] c(2) M in force)+
    then show ?thesis
      unfolding SkipMessage.simps
      by (intro sound_bind_0 [OF c(1) t(3)]) (use t(1) in auto)
  qed
  moreover have "sound 0 c (SkipField (Suc n) tag ufs c)" if "cis_ok c" "2 * length (unread c) + 2 \<le> Suc n"
    by (rule SkipField_sound [OF that(1) M]) (use that in simp_all)
  ultimately show ?case by blast
qed simp

lemma SkipField_bound: "cis_ok c \<Longrightarrow> sound 0 c (SkipField (skip_bound c) tag ufs c)"
  using skip_sound [of c "skip_bound c" tag ufs] unread_length(1) [of c] by (simp add: skip_bound_def)

section \<open>The loop is sound\<close>

text \<open>
  The jumps of the code are to tags of one byte whose field number and wire type belong to the
  label.
\<close>

definition rows_closed :: "'m row list \<Rightarrow> bool" where
  "rows_closed rows \<longleftrightarrow>
     (\<forall>r \<in> set rows. \<forall>(tag, k) \<in> set (row_expects r).
        0 < tag \<and> tag < 128 \<and> GetTagFieldNumber tag = k \<and>
        (case row_for rows k of Some r' \<Rightarrow> GetTagWireType tag = row_wiretype r' | None \<Rightarrow> False))"

lemma rows_closedD:
  assumes "rows_closed rows" "r \<in> set rows" "(tag, k) \<in> set (row_expects r)"
  obtains r' where "tag \<noteq> 0" "unat tag < 128" "GetTagFieldNumber tag = k" "row_for rows k = Some r'" "GetTagWireType tag = row_wiretype r'"
proof -
  have t: "0 < tag" "tag < 128" "GetTagFieldNumber tag = k"
      "case row_for rows k of Some r' \<Rightarrow> GetTagWireType tag = row_wiretype r' | None \<Rightarrow> False"
    using assms unfolding rows_closed_def by fast+
  have "unat tag < 128" using t(2) by (simp add: word_less_nat_alt)
  with that t show thesis by (auto split: option.splits)
qed

lemma row_for_number: "row_for rows k = Some r \<Longrightarrow> row_number r = k \<and> r \<in> set rows"
  by (auto simp: row_for_def find_Some_iff in_set_conv_nth)

lemma expect_any_sound:
  assumes "cis_ok c" "\<forall>(tag, k) \<in> set jumps. unat tag < 128"
  shows "\<exists>j c' n. expect_any jumps c = Got j c' \<and> n \<le> length (unread c) \<and> moves c n c' \<and> (flag_ok c \<longrightarrow> flag_ok c') \<and>
    (j = None \<or> (\<exists>tag k. j = Some k \<and> (tag, k) \<in> set jumps))"
  using assms(2)
proof (induction jumps)
  case Nil
  have "expect_any [] c = Got None c \<and> 0 \<le> length (unread c) \<and> moves c 0 c" by simp
  then show ?case by blast
next
  case (Cons jump jumps)
  obtain tag k where j: "jump = (tag, k)" by fastforce
  have e: "ExpectTag tag c = (case unread c of [] \<Rightarrow> Got False c | b # w \<Rightarrow> if ucast b = tag then Got True (Advance 1 c) else Got False c)"
    using ExpectTag_head [OF assms(1), of tag] Cons.prems by (simp add: j)
  show ?case
  proof (cases "\<exists>b w. unread c = b # w \<and> ucast b = tag")
    case True
    then obtain b w where b: "unread c = b # w" "ucast b = tag" by blast
    have "expect_any (jump # jumps) c = Got (Some k) (Advance 1 c)" by (simp add: j e b)
    moreover have "flag_ok c \<longrightarrow> flag_ok (Advance 1 c)"
      using flag_moves [OF assms(1) moves_simps(2)] by simp
    ultimately show ?thesis
      using b(1) by (intro exI [of _ "Some k"] exI [of _ "Advance 1 c"] exI [of _ "Suc 0"]) (auto simp: j)
  next
    case False
    then have "expect_any (jump # jumps) c = expect_any jumps c"
      by (auto simp: j e split: list.splits)
    moreover have "\<forall>(tag, k) \<in> set jumps. unat tag < 128" using Cons.prems by simp
    ultimately obtain k' c' n where "expect_any (jump # jumps) c = Got k' c'" "n \<le> length (unread c)" "moves c n c'"
      "flag_ok c \<longrightarrow> flag_ok c'" "k' = None \<or> (\<exists>tag k. k' = Some k \<and> (tag, k) \<in> set jumps)"
      using Cons.IH by metis
    moreover from this(5) have "k' = None \<or> (\<exists>tag k. k' = Some k \<and> (tag, k) \<in> set (jump # jumps))" by auto
    ultimately show ?thesis by blast
  qed
qed

lemma ExpectAtEnd_sound:
  assumes "cis_ok c" "ExpectAtEnd c = (b, c')"
  shows "moves c 0 c'" "flag_ok c \<Longrightarrow> flag_ok c'" "b \<Longrightarrow> unread c = [] \<and> legitimate_message_end c'" "\<not> b \<Longrightarrow> c' = c"
  using assms at_end [OF assms(1)]
  by (auto simp: ExpectAtEnd_def flag_ok_def unread_def ahead_def BufferSize_def split: if_splits)

locale message_parser =
  fixes rows :: "'m row list"
    and unknown_of :: "'m \<Rightarrow> unknown_field_set"
    and with_unknown :: "unknown_field_set \<Rightarrow> 'm \<Rightarrow> 'm"
    and ok :: "'m \<Rightarrow> bool"
  assumes closed: "rows_closed rows"
    and row_safe: "r \<in> set rows \<Longrightarrow> ok m \<Longrightarrow> cis_ok c \<Longrightarrow> safe ok 1 c (row_parse r m c)"
    and put_ok: "ok m \<Longrightarrow> ok (with_unknown ufs m)"
begin

lemma skip_known_safe:
  assumes "cis_ok c" "ok m"
  shows "safe ok 0 c (skip_into unknown_of with_unknown tag m c)"
  unfolding skip_into_def
  by (rule safe_bind_0 [OF assms(1) SkipField_bound [OF assms(1)]]) (simp add: put_ok [OF assms(2)])

lemma loop_safe:
  "ok m \<Longrightarrow> cis_ok c \<Longrightarrow> length (unread c) < n \<Longrightarrow> (case label of None \<Rightarrow> True | Some k \<Rightarrow> row_for rows k \<noteq> None) \<Longrightarrow>
     safe ok 0 c (parse_loop rows (skip_into unknown_of with_unknown) n label m c)"
proof (induction n arbitrary: label m c)
  case (Suc n)
  note m = Suc.prems(1) and c = Suc.prems(2)
  show ?case
  proof (cases label)
    case None
    obtain t c' where t: "ReadTag c = Got t c'" "cis_ok c'" "sound 0 c (ReadTag c)"
      "t \<noteq> 0 \<Longrightarrow> length (unread c') < length (unread c)"
      using tag_step [OF c] by metis
    have k: "safe ok 0 c' (parse_loop rows (skip_into unknown_of with_unknown) n (Some (row_number r)) m c')"
      if "row_for rows (GetTagFieldNumber t) = Some r" "t \<noteq> 0" for r
      by (rule Suc.IH [OF m t(2)]) (use t(4) Suc.prems(3) that row_for_number in fastforce)+
    have s: "safe ok 0 c' (got_bind (skip_into unknown_of with_unknown t m c')
        (\<lambda>m c. parse_loop rows (skip_into unknown_of with_unknown) n None m c))" if "t \<noteq> 0"
    proof (rule safe_bind_0 [OF t(2) safe_sound [OF skip_known_safe [OF t(2) m]]])
      fix m' c''
      assume x: "skip_into unknown_of with_unknown t m c' = Got m' c''" "cis_ok c''" "length (unread c'') \<le> length (unread c')"
      have "ok m'" using skip_known_safe [OF t(2) m, where tag = t] x(1) by simp
      then show "safe ok 0 c'' (parse_loop rows (skip_into unknown_of with_unknown) n None m' c'')"
        by (rule Suc.IH) (use t(4) Suc.prems(3) that x in simp_all)
    qed
    show ?thesis
      unfolding None parse_loop.simps
      using t(1) k s m by (intro safe_bind_0 [OF c t(3)]) (simp split: option.splits)
  next
    case (Some k)
    with Suc.prems(4) obtain r where r: "row_for rows k = Some r" by auto
    have "r \<in> set rows" using row_for_number [OF r] by blast
    have "safe ok (1 + 0) c (got_bind (row_parse r m c) (\<lambda>m c. got_bind (expect_any (row_expects r) c) (\<lambda>jump c.
        case jump of Some k' \<Rightarrow> parse_loop rows (skip_into unknown_of with_unknown) n (Some k') m c
        | None \<Rightarrow> let (at_end, c) = (if row_at_end r then ExpectAtEnd c else (False, c))
            in if at_end then Got m c else parse_loop rows (skip_into unknown_of with_unknown) n None m c)))"
    proof (rule safe_bind [OF c safe_sound [OF row_safe [OF \<open>r \<in> set rows\<close> m c]]])
      fix m1 c'
      assume x: "row_parse r m c = Got m1 c'" "cis_ok c'" "length (unread c') + 1 \<le> length (unread c)"
      then have c': "cis_ok c'" "length (unread c') < length (unread c)" by simp_all
      have m1: "ok m1" using row_safe [OF \<open>r \<in> set rows\<close> m c] x(1) by simp
      have "\<forall>(tag, k) \<in> set (row_expects r). unat tag < 128"
        using rows_closedD [OF closed \<open>r \<in> set rows\<close>] by blast
      from expect_any_sound [OF c'(1) this] obtain j c1 i where j: "expect_any (row_expects r) c' = Got j c1" "i \<le> length (unread c')"
          "moves c' i c1" "flag_ok c' \<longrightarrow> flag_ok c1" "j = None \<or> (\<exists>tag k. j = Some k \<and> (tag, k) \<in> set (row_expects r))"
        by blast
      have c1: "cis_ok c1" "length (unread c1) < n"
        using moves_ok [OF c'(1) j(3,2)] moves_unread [OF c'(1) j(3)] c'(2) Suc.prems(3) by auto
      obtain b c2 where b: "(if row_at_end r then ExpectAtEnd c1 else (False, c1)) = (b, c2)" by fastforce
      have e: "moves c1 0 c2" "flag_ok c1 \<Longrightarrow> flag_ok c2" "\<not> b \<Longrightarrow> c2 = c1"
        using b ExpectAtEnd_sound [OF c1(1), of b c2] by (auto split: if_splits)
      have l: "safe ok 0 c1 (parse_loop rows (skip_into unknown_of with_unknown) n None m1 c1)"
        by (rule Suc.IH [OF m1 c1]) simp
      have k: "safe ok 0 c1 (parse_loop rows (skip_into unknown_of with_unknown) n (Some k') m1 c1)" if "j = Some k'" for k'
      proof (rule Suc.IH [OF m1 c1])
        from that j(5) obtain tag where "(tag, k') \<in> set (row_expects r)" by auto
        then have "row_for rows k' \<noteq> None" by (rule rows_closedD [OF closed \<open>r \<in> set rows\<close>]) simp
        then show "case Some k' of None \<Rightarrow> True | Some k \<Rightarrow> row_for rows k \<noteq> None" by simp
      qed
      have "safe ok 0 c1 (case j of Some k' \<Rightarrow> parse_loop rows (skip_into unknown_of with_unknown) n (Some k') m1 c1
        | None \<Rightarrow> let (at_end, c) = (if row_at_end r then ExpectAtEnd c1 else (False, c1))
            in if at_end then Got m1 c else parse_loop rows (skip_into unknown_of with_unknown) n None m1 c)"
      proof (cases j)
        case None
        have "sound 0 c1 (Got m1 c2)" by (rule sound_Got [of _ 0]) (use e in simp_all)
        then have "safe ok 0 c1 (Got m1 c2)" using m1 by simp
        with None l e(3) show ?thesis by (auto simp: b)
      qed (simp add: k)
      then show "safe ok 0 c' (got_bind (expect_any (row_expects r) c') (\<lambda>jump c.
        case jump of Some k' \<Rightarrow> parse_loop rows (skip_into unknown_of with_unknown) n (Some k') m1 c
        | None \<Rightarrow> let (at_end, c) = (if row_at_end r then ExpectAtEnd c else (False, c))
            in if at_end then Got m1 c else parse_loop rows (skip_into unknown_of with_unknown) n None m1 c))"
        unfolding j(1) got_bind_simps by (rule safe_moves [OF c'(1) j(3,2,4)])
    qed
    from safe_mono [OF this, of 0] show ?thesis by (simp add: Some r)
  qed
qed simp

lemma MergePartial_safe: "ok m \<Longrightarrow> cis_ok c \<Longrightarrow> safe ok 0 c (MergePartial rows (skip_into unknown_of with_unknown) m c)"
  unfolding MergePartial_def by (rule loop_safe) (simp_all add: unread_length(1))

end

end
