(* ===== verification/Parse_Fields.thy ===== *)
theory Parse_Fields
  imports Parse_Loop
begin

text \<open>
  Reading back what the writers of \<^verbatim>\<open>Wire_Format\<close> produce: single values, embedded messages, unknown
  fields, and, for any table of fields, a whole message as a sequence of fields.
\<close>

section \<open>Values\<close>

definition reads :: "(cis \<Rightarrow> 'a got) \<Rightarrow> bytes \<Rightarrow> 'a \<Rightarrow> bool" where
  "reads get body v \<longleftrightarrow>
     (\<forall>c rest. cis_ok c \<longrightarrow> unread c = body @ rest \<longrightarrow> get c = Got v (Advance (int (length body)) c))"

lemma readsI: "(\<And>c rest. cis_ok c \<Longrightarrow> unread c = body @ rest \<Longrightarrow> get c = Got v (Advance (int (length body)) c)) \<Longrightarrow> reads get body v"
  by (simp add: reads_def)

lemma readsD: "reads get body v \<Longrightarrow> cis_ok c \<Longrightarrow> unread c = body @ rest \<Longrightarrow> get c = Got v (Advance (int (length body)) c)"
  by (simp add: reads_def)

lemma unat_64_less [simp]: "unat (w :: uint64) < 18446744073709551616"
  using unsigned_less [of w, where 'a = nat] by simp

lemma unat_32_less_64 [simp]: "unat (w :: uint32) < 18446744073709551616"
  using unsigned_less [of w, where 'a = nat] by simp

lemma ucast_scast [simp]: "(ucast (scast v :: uint64) :: uint32) = v" for v :: int32
  by (rule bit_word_eqI) (auto simp: bit_simps)

lemma reads_varint32: "reads ReadVarint32 (varint n) (of_nat n)" if "n < 2 ^ 64"
  using that by (intro readsI) (rule ReadVarint32_varint)

lemma reads_varint64: "reads ReadVarint64 (varint (unat v)) v"
  using ReadVarint64_varint [of _ "unat v"] by (intro readsI) simp

lemma reads_enc_int32: "reads ReadVarint32 (enc_int32 v) v"
  using reads_varint32 [of "unat (scast v :: uint64)"] by (simp add: enc_int32_def)

lemma reads_enc_uint32: "reads ReadVarint32 (enc_uint32 v) v"
  using reads_varint32 [of "unat v"] by (simp add: enc_uint32_def)

lemma reads_fixed32: "reads ReadLittleEndian32 (enc_fixed32 v) v"
  by (rule readsI) (simp add: ReadLittleEndian32_eq)

lemma reads_fixed64: "reads ReadLittleEndian64 (enc_fixed64 v) v"
  by (rule readsI) (simp add: ReadLittleEndian64_eq)

lemma sint_length: "length s < 2 ^ 31 \<Longrightarrow> sint (of_nat (length s) :: uint32) = int (length s)" for s :: "'a list"
  by (simp add: sint_uint unsigned_of_nat take_bit_nat_eq_self signed_take_bit_int_eq_self)

lemma reads_bytes:
  assumes "length s < 2 ^ 31" "\<And>sz. reads (get sz) s s \<or> sz \<noteq> int (length s)"
  shows "reads (\<lambda>c. got_bind (ReadVarint32 c) (\<lambda>len c. get (sint len) c)) (enc_bytes s) s"
proof (rule readsI)
  fix c rest
  assume c: "cis_ok c" "unread c = enc_bytes s @ rest"
  let ?l = "varint (unat (of_nat (length s) :: uint32))"
  have u: "unread c = ?l @ s @ rest" using c(2) by (simp add: enc_bytes_def)
  have "reads ReadVarint32 ?l (of_nat (length s))"
    using reads_enc_uint32 [of "of_nat (length s)"] by (simp add: enc_uint32_def)
  from readsD [OF this c(1) u] have "ReadVarint32 c = Got (of_nat (length s)) (Advance (int (length ?l)) c)" .
  moreover have "cis_ok (Advance (int (length ?l)) c)" "unread (Advance (int (length ?l)) c) = s @ rest"
    using moves_ok [OF c(1) moves_simps(1), of "length ?l"] moves_unread [OF c(1) moves_simps(1), of "length ?l"] u by simp_all
  moreover have "reads (get (int (length s))) s s" using assms(2) by blast
  ultimately show "got_bind (ReadVarint32 c) (\<lambda>len c. get (sint len) c) = Got s (Advance (int (length (enc_bytes s))) c)"
    using sint_length [OF assms(1)] by (simp add: enc_bytes_def readsD)
qed

lemma reads_string_raw: "reads (InternalReadStringInline (int (length s))) s s" "reads (ReadString (int (length s))) s s"
  by (rule readsI, simp add: ReadString_def InternalReadStringInline_eq)+

lemma reads_primitive:
  "reads ReadPrimitive_INT32 (enc_int32 v) v" "reads ReadPrimitive_ENUM (enc_int32 v) v"
  "reads ReadPrimitive_UINT32 (enc_uint32 w) w" "reads ReadPrimitive_FLOAT (enc_fixed32 f) f"
  "length s < 2 ^ 31 \<Longrightarrow> reads WFL_ReadString (enc_bytes s) s" "length s < 2 ^ 31 \<Longrightarrow> reads WFL_ReadBytes (enc_bytes s) s"
proof -
  show "reads ReadPrimitive_INT32 (enc_int32 v) v" "reads ReadPrimitive_ENUM (enc_int32 v) v"
    using readsD [OF reads_enc_int32] by (auto intro!: readsI simp: ReadPrimitive_INT32_def ReadPrimitive_ENUM_def)
  show "reads ReadPrimitive_UINT32 (enc_uint32 w) w"
    using readsD [OF reads_enc_uint32] by (auto intro!: readsI simp: ReadPrimitive_UINT32_def)
  show "reads ReadPrimitive_FLOAT (enc_fixed32 f) f"
    using readsD [OF reads_fixed32] by (auto intro!: readsI simp: ReadPrimitive_FLOAT_def)
  show "length s < 2 ^ 31 \<Longrightarrow> reads WFL_ReadString (enc_bytes s) s" "length s < 2 ^ 31 \<Longrightarrow> reads WFL_ReadBytes (enc_bytes s) s"
    using reads_bytes [of s InternalReadStringInline] reads_string_raw(1) [of s]
    unfolding WFL_ReadString_def WFL_ReadBytes_def by blast+
qed

lemma reads_bool: "reads ReadPrimitive_BOOL (enc_bool b) b"
proof (rule readsI)
  fix c rest
  assume c: "cis_ok c" "unread c = enc_bool b @ rest"
  have "enc_bool b = varint (if b then 1 else 0)"
    by (simp add: enc_bool_def varint.simps last_byte_def)
  with c reads_varint32 [of "if b then 1 else 0"] have
    "ReadVarint32 c = Got (if b then 1 else 0) (Advance (int (length (enc_bool b))) c)"
    by (auto dest: readsD split: if_splits)
  then show "ReadPrimitive_BOOL c = Got b (Advance (int (length (enc_bool b))) c)"
    by (simp add: ReadPrimitive_BOOL_def)
qed

section \<open>Parsing a field and parsing a message\<close>

text \<open>
  \<open>yields\<close>: with \<open>body\<close> ahead, \<open>f\<close> reads just that and takes effect \<open>eff\<close> on the abstract message, if
  \<open>d\<close> more levels of nesting are allowed. \<open>parses\<close>: with \<open>body\<close> up to the limit, \<open>f\<close> consumes it to a
  legitimate end.
\<close>

definition yields :: "nat \<Rightarrow> ('m \<Rightarrow> bool) \<Rightarrow> ('m \<Rightarrow> 'a) \<Rightarrow> ('m \<Rightarrow> cis \<Rightarrow> 'm got) \<Rightarrow> bytes \<Rightarrow> ('a \<Rightarrow> 'a) \<Rightarrow> bool" where
  "yields d ok view f body eff \<longleftrightarrow>
     (\<forall>m c rest. ok m \<longrightarrow> cis_ok c \<longrightarrow> unread c = body @ rest \<longrightarrow> recursion_depth c + int d \<le> recursion_limit c \<longrightarrow>
        (\<exists>m' c'. f m c = Got m' c' \<and> moves c (length body) c' \<and> ok m' \<and> view m' = eff (view m)))"

definition parses :: "nat \<Rightarrow> ('m \<Rightarrow> bool) \<Rightarrow> ('m \<Rightarrow> 'a) \<Rightarrow> ('m \<Rightarrow> cis \<Rightarrow> 'm got) \<Rightarrow> bytes \<Rightarrow> ('a \<Rightarrow> 'a) \<Rightarrow> bool" where
  "parses d ok view f body eff \<longleftrightarrow>
     (\<forall>m c. ok m \<longrightarrow> cis_ok c \<longrightarrow> unread c = body \<longrightarrow> recursion_depth c + int d \<le> recursion_limit c \<longrightarrow>
        (\<exists>m' c'. f m c = Got m' c' \<and> moves c (length body) c' \<and> legitimate_message_end c' \<and> ok m' \<and> view m' = eff (view m)))"

lemma yieldsD:
  assumes "yields d ok view f body eff" "ok m" "cis_ok c" "unread c = body @ rest" "recursion_depth c + int d \<le> recursion_limit c"
  obtains m' c' where "f m c = Got m' c'" "moves c (length body) c'" "ok m'" "view m' = eff (view m)" "cis_ok c'" "unread c' = rest"
    "recursion_depth c' + int d \<le> recursion_limit c'"
proof -
  from assms obtain m' c' where p: "f m c = Got m' c'" "moves c (length body) c'" "ok m'" "view m' = eff (view m)"
    unfolding yields_def by blast
  have "cis_ok c'" "unread c' = rest"
    using moves_ok [OF assms(3) p(2)] moves_unread [OF assms(3) p(2)] assms(4) by simp_all
  moreover have "recursion_depth c' + int d \<le> recursion_limit c'"
    using assms(5) moves_fields [OF p(2)] by simp
  ultimately show thesis using that p by blast
qed

lemma parsesD:
  assumes "parses d ok view f body eff" "ok m" "cis_ok c" "unread c = body" "recursion_depth c + int d \<le> recursion_limit c"
  obtains m' c' where "f m c = Got m' c'" "moves c (length body) c'" "legitimate_message_end c'" "ok m'" "view m' = eff (view m)"
  using assms unfolding parses_def by blast

lemma yields_mono: "yields d ok view f body eff \<Longrightarrow> d \<le> e \<Longrightarrow> yields e ok view f body eff"
  unfolding yields_def by fastforce

lemma yields_value:
  assumes "reads get body v" "\<And>m. ok m \<Longrightarrow> ok (f v m)" "\<And>m. ok m \<Longrightarrow> view (f v m) = eff (view m)"
  shows "yields d ok view (\<lambda>m c. got_bind (get c) (\<lambda>v c. Got (f v m) c)) body eff"
  unfolding yields_def
proof (intro allI impI)
  fix m c rest
  assume c: "ok m" "cis_ok c" "unread c = body @ rest"
  have "got_bind (get c) (\<lambda>v c. Got (f v m) c) = Got (f v m) (Advance (int (length body)) c)"
    by (simp add: readsD [OF assms(1) c(2,3)])
  with assms(2,3) c(1) show "\<exists>m' c'. got_bind (get c) (\<lambda>v c. Got (f v m) c) = Got m' c' \<and> moves c (length body) c' \<and> ok m' \<and>
      view m' = eff (view m)"
    by (intro exI [of _ "f v m"] exI [of _ "Advance (int (length body)) c"]) simp
qed

lemma yields_message:
  assumes "parses d ok' view' merge body eff'" "length body < 2 ^ 31"
    and get: "\<And>m. ok m \<Longrightarrow> ok' (get m)"
    and put: "\<And>m t. ok m \<Longrightarrow> ok' t \<Longrightarrow> view' t = eff' (view' (get m)) \<Longrightarrow> ok (put t m) \<and> view (put t m) = eff (view m)"
  shows "yields (Suc d) ok view (\<lambda>m c. got_bind (ReadMessageNoVirtual merge (get m) c) (\<lambda>t c. Got (put t m) c)) (enc_bytes body) eff"
  unfolding yields_def
proof (intro allI impI)
  fix m c rest
  assume m: "ok m" and c: "cis_ok c" and u: "unread c = enc_bytes body @ rest"
    and depth: "recursion_depth c + int (Suc d) \<le> recursion_limit c"
  let ?l = "enc_uint32 (of_nat (length body))"
  have e: "enc_bytes body = ?l @ body" by (simp add: enc_bytes_def enc_uint32_def)
  define c1 where "c1 = Advance (int (length ?l)) c"
  have r: "ReadVarint32 c = Got (of_nat (length body)) c1"
    using readsD [OF reads_enc_uint32 c] u by (simp add: e c1_def)
  have m1: "moves c (length ?l) c1" by (simp add: c1_def)
  have c1: "cis_ok c1" "unread c1 = body @ rest"
    using moves_ok [OF c m1] moves_unread [OF c m1] u e by simp_all
  obtain ok2 c2 where i: "IncrementRecursionDepth c1 = (ok2, c2)" by (cases "IncrementRecursionDepth c1")
  note d = depth_ok [OF c1(1) i]
  have ok2: "ok2" using depth d(5) moves_fields [OF m1] by simp
  obtain old c3 where p: "PushLimit (int (length body)) c2 = (old, c3)" by (cases "PushLimit (int (length body)) c2")
  note l = PushLimit_ok [OF d(1) p]
  have u3: "unread c3 = body" using l(4) d(2) c1(2) by simp
  have "recursion_depth c3 + int d \<le> recursion_limit c3"
    using depth l(7,8) d(7,8) moves_fields [OF m1] by simp
  from parsesD [OF assms(1) get [OF m] l(2) u3 this] obtain t c4
    where t: "merge (get m) c3 = Got t c4" "moves c3 (length body) c4" "legitimate_message_end c4" "ok' t" "view' t = eff' (view' (get m))"
    by blast
  let ?c = "DecrementRecursionDepth (PopLimit old c4)"
  have "ReadMessageNoVirtual merge (get m) c = Got t ?c"
    by (simp add: ReadMessageNoVirtual_def r i ok2 p t(1,3) sint_length [OF assms(2)] ConsumedEntireMessage_def)
  moreover have "moves c (length (enc_bytes body)) ?c"
    using moves_trans [OF m1 d(4) [OF PopLimit_ok(1) [OF d(1) p t(2)]]] by (simp add: e)
  ultimately show "\<exists>m' c'. got_bind (ReadMessageNoVirtual merge (get m) c) (\<lambda>t c. Got (put t m) c) = Got m' c' \<and>
      moves c (length (enc_bytes body)) c' \<and> ok m' \<and> view m' = eff (view m)"
    using put [OF m t(4,5)] by (intro exI [of _ "put t m"] exI [of _ ?c]) simp
qed

section \<open>Unknown fields\<close>

fun field_tag :: "unknown_field \<Rightarrow> uint32" where
  "field_tag (TYPE_VARINT n v) = MakeTag (ucast n) WIRETYPE_VARINT"
| "field_tag (TYPE_FIXED32 n v) = MakeTag (ucast n) WIRETYPE_FIXED32"
| "field_tag (TYPE_FIXED64 n v) = MakeTag (ucast n) WIRETYPE_FIXED64"
| "field_tag (TYPE_LENGTH_DELIMITED n s) = MakeTag (ucast n) WIRETYPE_LENGTH_DELIMITED"
| "field_tag (TYPE_GROUP n fs) = MakeTag (ucast n) WIRETYPE_START_GROUP"

fun field_body :: "unknown_field \<Rightarrow> bytes" where
  "field_body (TYPE_VARINT n v) = varint (unat v)"
| "field_body (TYPE_FIXED32 n v) = enc_fixed32 v"
| "field_body (TYPE_FIXED64 n v) = enc_fixed64 v"
| "field_body (TYPE_LENGTH_DELIMITED n s) = enc_bytes s"
| "field_body (TYPE_GROUP n fs) = SerializeUnknownFieldsToArray fs [] @ enc_tag (ucast n) WIRETYPE_END_GROUP"

fun field_number :: "unknown_field \<Rightarrow> 29 word" where
  "field_number (TYPE_VARINT n v) = n"
| "field_number (TYPE_FIXED32 n v) = n"
| "field_number (TYPE_FIXED64 n v) = n"
| "field_number (TYPE_LENGTH_DELIMITED n s) = n"
| "field_number (TYPE_GROUP n fs) = n"

text \<open>Fields that survive the wire: numbered from 1, strings below 2 GB, groups nested \<open>d\<close> deep.\<close>

fun wire_ok :: "nat \<Rightarrow> unknown_field \<Rightarrow> bool" where
  "wire_ok d (TYPE_LENGTH_DELIMITED n s) \<longleftrightarrow> n \<noteq> 0 \<and> length s < 2 ^ 31"
| "wire_ok d (TYPE_GROUP n fs) \<longleftrightarrow> n \<noteq> 0 \<and> 0 < d \<and> (\<forall>f \<in> set fs. wire_ok (d - 1) f)"
| "wire_ok d (TYPE_VARINT n v) \<longleftrightarrow> n \<noteq> 0"
| "wire_ok d (TYPE_FIXED32 n v) \<longleftrightarrow> n \<noteq> 0"
| "wire_ok d (TYPE_FIXED64 n w) \<longleftrightarrow> n \<noteq> 0"

lemma Serialize_field: "SerializeUnknownFieldToArray f [] = varint (unat (field_tag f)) @ field_body f"
proof (cases f)
  case (TYPE_GROUP n fs)
  then show ?thesis
    by (simp add: wire enc_tag_def SerializeUnknown_append(2) [of fs "varint k" for k])
qed (simp_all add: wire enc_tag_def)

lemma Serialize_fields:
  "SerializeUnknownFieldsToArray fs [] = concat (map (\<lambda>f. varint (unat (field_tag f)) @ field_body f) fs)"
proof (induction fs)
  case (Cons f fs)
  then show ?case
    using SerializeUnknown_append(2) [of fs "SerializeUnknownFieldToArray f []"] by (simp add: Serialize_field)
qed simp

lemma unat_number: "unat (ucast n :: int32) = unat n" for n :: "29 word"
  using unsigned_less [of n, where 'a = nat] by (simp add: unsigned_ucast_eq take_bit_nat_eq_self)

lemma number_tag:
  fixes n :: "29 word"
  assumes "unat type < 8"
  shows "GetTagFieldNumber (MakeTag (ucast n) type) = ucast n" "GetTagWireType (MakeTag (ucast n) type) = type"
    "n \<noteq> 0 \<Longrightarrow> MakeTag (ucast n) type \<noteq> 0"
proof -
  have n: "unat (ucast n :: int32) < 2 ^ 29"
    using unsigned_less [of n, where 'a = nat] by (simp add: unat_number)
  show "GetTagFieldNumber (MakeTag (ucast n) type) = ucast n" "GetTagWireType (MakeTag (ucast n) type) = type"
    using GetTagFieldNumber_MakeTag [OF n assms] GetTagWireType_MakeTag [OF n assms] by simp_all
  show "MakeTag (ucast n) type \<noteq> 0" if "n \<noteq> 0"
  proof
    assume "MakeTag (ucast n) type = 0"
    then have "unat (ucast n :: int32) * 8 + unat type = 0"
      using unat_MakeTag [OF n assms] by simp
    with that show False by (simp add: unat_number unat_eq_0)
  qed
qed

lemma ucast_number: "(ucast (ucast n :: int32) :: 29 word) = n"
  by (rule bit_word_eqI) (auto simp: bit_simps)

lemma wiretypes_less [simp]: "unat WIRETYPE_VARINT < 8" "unat WIRETYPE_FIXED64 < 8" "unat WIRETYPE_LENGTH_DELIMITED < 8"
  "unat WIRETYPE_START_GROUP < 8" "unat WIRETYPE_END_GROUP < 8" "unat WIRETYPE_FIXED32 < 8"
  by (simp_all add: wiretypes)

lemma wiretype_neq [simp]:
  "WIRETYPE_VARINT \<noteq> WIRETYPE_FIXED64" "WIRETYPE_VARINT \<noteq> WIRETYPE_LENGTH_DELIMITED" "WIRETYPE_VARINT \<noteq> WIRETYPE_START_GROUP" "WIRETYPE_VARINT \<noteq> WIRETYPE_END_GROUP" "WIRETYPE_VARINT \<noteq> WIRETYPE_FIXED32"
  "WIRETYPE_FIXED64 \<noteq> WIRETYPE_VARINT" "WIRETYPE_FIXED64 \<noteq> WIRETYPE_LENGTH_DELIMITED" "WIRETYPE_FIXED64 \<noteq> WIRETYPE_START_GROUP" "WIRETYPE_FIXED64 \<noteq> WIRETYPE_END_GROUP" "WIRETYPE_FIXED64 \<noteq> WIRETYPE_FIXED32"
  "WIRETYPE_LENGTH_DELIMITED \<noteq> WIRETYPE_VARINT" "WIRETYPE_LENGTH_DELIMITED \<noteq> WIRETYPE_FIXED64" "WIRETYPE_LENGTH_DELIMITED \<noteq> WIRETYPE_START_GROUP" "WIRETYPE_LENGTH_DELIMITED \<noteq> WIRETYPE_END_GROUP" "WIRETYPE_LENGTH_DELIMITED \<noteq> WIRETYPE_FIXED32"
  "WIRETYPE_START_GROUP \<noteq> WIRETYPE_VARINT" "WIRETYPE_START_GROUP \<noteq> WIRETYPE_FIXED64" "WIRETYPE_START_GROUP \<noteq> WIRETYPE_LENGTH_DELIMITED" "WIRETYPE_START_GROUP \<noteq> WIRETYPE_END_GROUP" "WIRETYPE_START_GROUP \<noteq> WIRETYPE_FIXED32"
  "WIRETYPE_END_GROUP \<noteq> WIRETYPE_VARINT" "WIRETYPE_END_GROUP \<noteq> WIRETYPE_FIXED64" "WIRETYPE_END_GROUP \<noteq> WIRETYPE_LENGTH_DELIMITED" "WIRETYPE_END_GROUP \<noteq> WIRETYPE_START_GROUP" "WIRETYPE_END_GROUP \<noteq> WIRETYPE_FIXED32"
  "WIRETYPE_FIXED32 \<noteq> WIRETYPE_VARINT" "WIRETYPE_FIXED32 \<noteq> WIRETYPE_FIXED64" "WIRETYPE_FIXED32 \<noteq> WIRETYPE_LENGTH_DELIMITED" "WIRETYPE_FIXED32 \<noteq> WIRETYPE_START_GROUP" "WIRETYPE_FIXED32 \<noteq> WIRETYPE_END_GROUP"
  by (simp_all add: wiretypes)

lemma field_tag_number:
  "GetTagFieldNumber (field_tag f) = ucast (field_number f)" "GetTagWireType (field_tag f) \<noteq> WIRETYPE_END_GROUP"
  "wire_ok d f \<Longrightarrow> field_tag f \<noteq> 0"
  by (cases f; simp add: number_tag)+

definition skips :: "nat \<Rightarrow> unknown_field \<Rightarrow> bool" where
  "skips d f \<longleftrightarrow>
     (\<forall>c rest n ufs. cis_ok c \<longrightarrow> unread c = field_body f @ rest \<longrightarrow> recursion_depth c + int d \<le> recursion_limit c \<longrightarrow>
        2 * length (unread c) + 2 \<le> n \<longrightarrow>
        (\<exists>c'. SkipField n (field_tag f) ufs c = Got (ufs @ [f]) c' \<and> moves c (length (field_body f)) c'))"

lemma read_tag_moves:
  assumes "cis_ok c" "unread c = varint (unat tag) @ rest" "recursion_depth c + int d \<le> recursion_limit c"
  obtains c' where "ReadTag c = Got tag c'" "moves c (length (varint (unat tag))) c'" "cis_ok c'" "unread c' = rest" "last_tag c' = tag"
    "recursion_depth c' + int d \<le> recursion_limit c'"
proof -
  let ?c = "(Advance (int (length (varint (unat tag)))) c)\<lparr>last_tag := tag\<rparr>"
  have r: "ReadTag c = Got tag ?c"
    using ReadTag_varint [OF assms(1,2)] unsigned_less [of tag, where 'a = nat] by simp
  have m: "moves c (length (varint (unat tag))) ?c" by simp
  have "cis_ok ?c" "unread ?c = rest"
    using moves_ok [OF assms(1) m] moves_unread [OF assms(1) m] assms(2) by simp_all
  moreover have "recursion_depth ?c + int d \<le> recursion_limit ?c"
    using moves_fields [OF m] assms(3) by simp
  ultimately show thesis using that [OF r m] by simp
qed

lemma SkipMessage_fields:
  assumes "\<forall>f \<in> set fs. skips d f \<and> wire_ok d f" "GetTagWireType stop = WIRETYPE_END_GROUP" "stop \<noteq> 0"
  shows "cis_ok c \<Longrightarrow> unread c = SerializeUnknownFieldsToArray fs [] @ varint (unat stop) @ rest \<Longrightarrow>
    recursion_depth c + int d \<le> recursion_limit c \<Longrightarrow> 2 * length (unread c) + 1 \<le> n \<Longrightarrow>
    \<exists>c'. SkipMessage n ufs c = Got (ufs @ fs) c' \<and> moves c (length (SerializeUnknownFieldsToArray fs []) + length (varint (unat stop))) c' \<and>
      last_tag c' = stop"
  using assms(1)
proof (induction fs arbitrary: c n ufs)
  case Nil
  from Nil.prems(2) have u: "unread c = varint (unat stop) @ rest" by simp
  obtain c' where t: "ReadTag c = Got stop c'" "moves c (length (varint (unat stop))) c'" "last_tag c' = stop"
    using read_tag_moves [OF Nil.prems(1) u Nil.prems(3)] by metis
  obtain n' where "n = Suc n'" using Nil.prems(4) by (cases n) auto
  then show ?case using t assms(2,3) by simp
next
  case (Cons f fs)
  let ?t = "varint (unat (field_tag f))" and ?r = "SerializeUnknownFieldsToArray fs []"
  have e: "SerializeUnknownFieldsToArray (f # fs) [] = ?t @ field_body f @ ?r"
    by (simp only: Serialize_fields list.map concat.simps append.assoc)
  have u: "unread c = ?t @ field_body f @ ?r @ varint (unat stop) @ rest" using Cons.prems(2) by (simp only: e append.assoc)
  obtain n' where n: "n = Suc n'" using Cons.prems(4) by (cases n) auto
  obtain c1 where t: "ReadTag c = Got (field_tag f) c1" "moves c (length ?t) c1" "cis_ok c1"
      "unread c1 = field_body f @ ?r @ varint (unat stop) @ rest" "recursion_depth c1 + int d \<le> recursion_limit c1"
    using read_tag_moves [OF Cons.prems(1) u Cons.prems(3)] by metis
  have t0: "0 < length ?t" by (rule length_varint_pos)
  have l1: "length (unread c) = length ?t + length (unread c1)" by (simp add: u t(4))
  have "2 * length (unread c1) + 2 \<le> n'" using Cons.prems(4) t0 l1 n by linarith
  then obtain c2 where s: "SkipField n' (field_tag f) ufs c1 = Got (ufs @ [f]) c2" "moves c1 (length (field_body f)) c2"
    using Cons.prems(5) t(3-5) unfolding skips_def by (metis list.set_intros(1))
  have c2: "cis_ok c2" "unread c2 = ?r @ varint (unat stop) @ rest"
    using moves_ok [OF t(3) s(2)] moves_unread [OF t(3) s(2)] t(4) by simp_all
  have "length (unread c2) \<le> length (unread c1)" by (simp add: c2(2) t(4))
  then have "2 * length (unread c2) + 1 \<le> n'" using \<open>2 * length (unread c1) + 2 \<le> n'\<close> by linarith
  moreover have "recursion_depth c2 + int d \<le> recursion_limit c2"
    using moves_fields [OF s(2)] t(5) by simp
  ultimately obtain c3 where m: "SkipMessage n' (ufs @ [f]) c2 = Got ((ufs @ [f]) @ fs) c3" "moves c2 (length ?r + length (varint (unat stop))) c3"
      "last_tag c3 = stop"
    using Cons.IH [OF c2, of n' "ufs @ [f]"] Cons.prems(5) by auto
  have "moves c (length (SerializeUnknownFieldsToArray (f # fs) []) + length (varint (unat stop))) c3"
    using moves_trans [OF moves_trans [OF t(2) s(2)] m(2)] by (simp only: e length_append add.assoc)
  then show ?case
    using t(1) s(1) m(1,3) field_tag_number(2) [of f] field_tag_number(3) [of d f] Cons.prems(5) by (simp add: n)
qed

lemma skipsI:
  assumes "\<And>c n ufs rest. cis_ok c \<Longrightarrow> unread c = field_body f @ rest \<Longrightarrow>
    SkipField (Suc n) (field_tag f) ufs c = Got (ufs @ [f]) (Advance (int (length (field_body f))) c)"
  shows "skips d f"
  unfolding skips_def
proof (intro allI impI)
  fix c rest n ufs
  assume c: "cis_ok c" "unread c = field_body f @ rest" and "2 * length (unread c) + 2 \<le> n"
  from this(3) obtain n' where "n = Suc n'" by (cases n) auto
  with assms [OF c, of n' ufs]
  show "\<exists>c'. SkipField n (field_tag f) ufs c = Got (ufs @ [f]) c' \<and> moves c (length (field_body f)) c'" by auto
qed

lemmas Add_defs = AddVarint_def AddFixed32_def AddFixed64_def AddLengthDelimited_def AddGroup_def

lemma skips_group:
  assumes "\<forall>f \<in> set fs. skips d f \<and> wire_ok d f" "n \<noteq> 0"
  shows "skips (Suc d) (TYPE_GROUP n fs)"
  unfolding skips_def
proof (intro allI impI)
  fix c rest k ufs
  assume c: "cis_ok c" "unread c = field_body (TYPE_GROUP n fs) @ rest" "recursion_depth c + int (Suc d) \<le> recursion_limit c"
    "2 * length (unread c) + 2 \<le> k"
  then obtain k' where k: "k = Suc k'" by (cases k) auto
  obtain b c1 where i: "IncrementRecursionDepth c = (b, c1)" by (cases "IncrementRecursionDepth c")
  note d = depth_ok [OF c(1) i]
  let ?stop = "MakeTag (ucast n) WIRETYPE_END_GROUP"
  have u: "unread c1 = SerializeUnknownFieldsToArray fs [] @ varint (unat ?stop) @ rest"
    using c(2) d(2) by (simp add: enc_tag_def)
  have "recursion_depth c1 + int d \<le> recursion_limit c1" "2 * length (unread c1) + 1 \<le> k'"
    using c(3,4) d k by simp_all
  from SkipMessage_fields [OF assms(1) _ _ d(1) u this, where ufs = "[]"]
  obtain c' where s: "SkipMessage k' [] c1 = Got fs c'"
      "moves c1 (length (SerializeUnknownFieldsToArray fs []) + length (varint (unat ?stop))) c'" "last_tag c' = ?stop"
    using number_tag [of WIRETYPE_END_GROUP n] assms(2) by auto
  from d(4) [OF s(2)] have "moves c (length (field_body (TYPE_GROUP n fs))) (DecrementRecursionDepth c')"
    by (simp add: enc_tag_def)
  moreover have "SkipField k (field_tag (TYPE_GROUP n fs)) ufs c = Got (ufs @ [TYPE_GROUP n fs]) (DecrementRecursionDepth c')"
    using i d(5) c(3) s(1,3) by (simp add: k number_tag LastTagWas_def Add_defs ucast_number)
  ultimately show "\<exists>c'. SkipField k (field_tag (TYPE_GROUP n fs)) ufs c = Got (ufs @ [TYPE_GROUP n fs]) c' \<and>
      moves c (length (field_body (TYPE_GROUP n fs))) c'" by blast
qed

lemma skips_wire_ok: "wire_ok d f \<Longrightarrow> skips d f"
proof (induction f arbitrary: d)
  case (TYPE_VARINT n v)
  show ?case
    by (rule skipsI) (simp add: number_tag readsD [OF reads_varint64] Add_defs ucast_number)
next
  case (TYPE_FIXED32 n v)
  show ?case
    by (rule skipsI) (simp add: number_tag readsD [OF reads_fixed32] Add_defs ucast_number del: length_enc_fixed)
next
  case (TYPE_FIXED64 n v)
  show ?case
    by (rule skipsI) (simp add: number_tag readsD [OF reads_fixed64] Add_defs ucast_number del: length_enc_fixed)
next
  case (TYPE_LENGTH_DELIMITED n s)
  then have l: "length s < 2 ^ 31" by simp
  have r: "reads (\<lambda>c. got_bind (ReadVarint32 c) (\<lambda>len c. ReadString (sint len) c)) (enc_bytes s) s"
    by (rule reads_bytes [OF l]) (use reads_string_raw(2) [of s] in blast)
  show ?case
  proof (rule skipsI)
    fix c k ufs rest
    assume c: "cis_ok c" "unread c = field_body (TYPE_LENGTH_DELIMITED n s) @ rest"
    have "got_bind (ReadVarint32 c) (\<lambda>len c. got_bind (ReadString (sint len) c) (\<lambda>s c. Got (ufs @ [TYPE_LENGTH_DELIMITED n s]) c)) =
        got_bind (got_bind (ReadVarint32 c) (\<lambda>len c. ReadString (sint len) c)) (\<lambda>s c. Got (ufs @ [TYPE_LENGTH_DELIMITED n s]) c)"
      by (simp add: got_bind_def split: got.splits)
    also have "\<dots> = Got (ufs @ [TYPE_LENGTH_DELIMITED n s]) (Advance (int (length (enc_bytes s))) c)"
      using readsD [OF r c(1)] c(2) by simp
    finally show "SkipField (Suc k) (field_tag (TYPE_LENGTH_DELIMITED n s)) ufs c =
        Got (ufs @ [TYPE_LENGTH_DELIMITED n s]) (Advance (int (length (field_body (TYPE_LENGTH_DELIMITED n s)))) c)"
      by (simp add: number_tag Add_defs ucast_number)
  qed
next
  case (TYPE_GROUP n fs)
  then obtain e where "d = Suc e" "\<forall>f \<in> set fs. wire_ok e f" "n \<noteq> 0" by (cases d) auto
  with TYPE_GROUP.IH skips_group show ?case by blast
qed

end
