(* ===== verification/Message_Format.thy ===== *)
theory Message_Format
  imports Parse_Fields Repeated_Field
begin

text \<open>
  The loop of a generated parser reads back a message: what a table of fields promises for each
  field (locale \<open>message_format\<close>) gives the parse of the whole message.
\<close>

section \<open>A message as a sequence of fields\<close>

text \<open>A field on the wire: its tag, the bytes behind the tag, and the effect on the abstract message.\<close>

type_synonym 'a chunk = "uint32 \<times> bytes \<times> ('a \<Rightarrow> 'a)"

definition chunk_bytes :: "'a chunk \<Rightarrow> bytes" where
  "chunk_bytes ch = (case ch of (tag, body, eff) \<Rightarrow> varint (unat tag) @ body)"

definition chunks_bytes :: "'a chunk list \<Rightarrow> bytes" where
  "chunks_bytes chs = concat (map chunk_bytes chs)"

definition effects :: "'a chunk list \<Rightarrow> 'a \<Rightarrow> 'a" where
  "effects chs = fold (\<lambda>(tag, body, eff). eff) chs"

definition unknown_chunk :: "(unknown_field \<Rightarrow> 'a \<Rightarrow> 'a) \<Rightarrow> unknown_field \<Rightarrow> 'a chunk" where
  "unknown_chunk add f = (field_tag f, field_body f, add f)"

text \<open>A field of the table with its own wire type, or one whose number is not in the table.\<close>

definition fits_row :: "'m row list \<Rightarrow> ('m \<Rightarrow> bool) \<Rightarrow> ('m \<Rightarrow> 'a) \<Rightarrow> nat \<Rightarrow> 'a chunk \<Rightarrow> bool" where
  "fits_row rows ok view d ch =
     (case ch of (tag, body, eff) \<Rightarrow> tag \<noteq> 0 \<and> body \<noteq> [] \<and>
        (\<exists>r. row_for rows (GetTagFieldNumber tag) = Some r \<and> GetTagWireType tag = row_wiretype r \<and> yields d ok view (row_parse r) body eff))"

definition fits_unknown :: "'m row list \<Rightarrow> nat \<Rightarrow> unknown_field \<Rightarrow> bool" where
  "fits_unknown rows d f \<longleftrightarrow> wire_ok d f \<and> row_for rows (ucast (field_number f)) = None"

lemma chunks_simps [simp]:
  "chunks_bytes [] = []" "chunks_bytes ((tag, body, eff) # chs) = varint (unat tag) @ body @ chunks_bytes chs"
  "chunks_bytes (xs @ ys) = chunks_bytes xs @ chunks_bytes ys"
  "effects [] = id" "effects ((tag, body, eff) # chs) = effects chs \<circ> eff" "effects (xs @ ys) = effects ys \<circ> effects xs"
  by (simp_all add: chunks_bytes_def chunk_bytes_def effects_def)

lemma varint_not_Nil: "varint n \<noteq> []"
  using length_varint_pos [of n] unfolding length_greater_0_conv .

lemma chunks_bytes_Nil: "chunks_bytes chs = [] \<longleftrightarrow> chs = []"
  by (cases chs) (auto simp: varint_not_Nil)

lemma varint_one_byte:
  assumes "varint n @ r = b # w" "b < 128"
  shows "unat b = n" "w = r"
proof -
  have "n < 128"
  proof (rule ccontr)
    assume "\<not> n < 128"
    then have "b = cont_byte n" using assms(1) varint_big [of n] by simp
    with assms(2) show False by simp
  qed
  with assms(1) show "unat b = n" "w = r"
    by (auto simp: varint_small last_byte_def unat_of_nat take_bit_nat_eq_self)
qed

lemma expect_any_reads:
  assumes "cis_ok c" "\<forall>(tag, k) \<in> set jumps. unat tag < 128"
  shows "expect_any jumps c = Got None c \<or>
    (\<exists>tag k b w. expect_any jumps c = Got (Some k) (Advance 1 c) \<and> (tag, k) \<in> set jumps \<and> unread c = b # w \<and> ucast b = tag)"
  using assms(2)
proof (induction jumps)
  case (Cons jump jumps)
  obtain tag k where j: "jump = (tag, k)" by fastforce
  have e: "ExpectTag tag c = (case unread c of [] \<Rightarrow> Got False c | b # w \<Rightarrow> if ucast b = tag then Got True (Advance 1 c) else Got False c)"
    using ExpectTag_head [OF assms(1), of tag] Cons.prems by (simp add: j)
  show ?case
  proof (cases "\<exists>b w. unread c = b # w \<and> ucast b = tag")
    case True
    then obtain b w where b: "unread c = b # w" "ucast b = tag" by blast
    then have "expect_any (jump # jumps) c = Got (Some k) (Advance 1 c)" by (simp add: j e)
    with b j show ?thesis by auto
  next
    case False
    then have x: "expect_any (jump # jumps) c = expect_any jumps c"
      by (auto simp: j e split: list.splits)
    have "\<forall>(tag, k) \<in> set jumps. unat tag < 128" using Cons.prems by simp
    from Cons.IH [OF this] show ?thesis unfolding x by fastforce
  qed
qed simp

lemma expect_next:
  assumes "rows_closed rows" "r \<in> set rows" "cis_ok c" "unread c = chunks_bytes chs"
  shows "expect_any (row_expects r) c = Got None c \<or>
    (\<exists>tag body eff chs' r'. chs = (tag, body, eff) # chs' \<and> expect_any (row_expects r) c = Got (Some (GetTagFieldNumber tag)) (Advance 1 c) \<and>
       unread (Advance 1 c) = body @ chunks_bytes chs' \<and> row_for rows (GetTagFieldNumber tag) = Some r' \<and> GetTagWireType tag = row_wiretype r')"
proof -
  have "\<forall>(tag, k) \<in> set (row_expects r). unat tag < 128"
    using rows_closedD [OF assms(1,2)] by blast
  from expect_any_reads [OF assms(3) this] show ?thesis
  proof (elim disjE exE conjE)
    fix tag k b w
    assume e: "expect_any (row_expects r) c = Got (Some k) (Advance 1 c)" "(tag, k) \<in> set (row_expects r)" "unread c = b # w" "ucast b = tag"
    obtain r' where t: "unat tag < 128" "GetTagFieldNumber tag = k" "row_for rows k = Some r'" "GetTagWireType tag = row_wiretype r'"
      using rows_closedD [OF assms(1,2) e(2)] by metis
    have ub: "unat b = unat tag" using e(4) unsigned_less [of b, where 'a = nat] by (auto simp: unsigned_ucast_eq take_bit_nat_eq_self)
    then have b: "b < 128" using t(1) by (simp add: word_less_nat_alt)
    obtain tag' body eff chs' where chs: "chs = (tag', body, eff) # chs'" using e(3) assms(4) by (cases chs) auto
    have "varint (unat tag') @ body @ chunks_bytes chs' = b # w" using e(3) assms(4) chs by simp
    from varint_one_byte [OF this b] have v: "unat tag' = unat tag" "w = body @ chunks_bytes chs'" using ub by simp_all
    from v(1) have "tag' = tag" by (rule word_unat_eq_iff [THEN iffD2])
    moreover have "unread (Advance 1 c) = w" using moves_unread [OF assms(3) moves_simps(2)] e(3) by simp
    ultimately show ?thesis using e(1) t chs v(2) by auto
  qed simp
qed

section \<open>The loop reads them back\<close>

locale message_format = message_parser rows unknown_of with_unknown ok
  for rows :: "'m row list" and unknown_of :: "'m \<Rightarrow> unknown_field_set" and with_unknown :: "unknown_field_set \<Rightarrow> 'm \<Rightarrow> 'm" and ok +
  fixes view :: "'m \<Rightarrow> 'a" and add_unknown :: "unknown_field \<Rightarrow> 'a \<Rightarrow> 'a"
  assumes put_view: "ok m \<Longrightarrow> view (with_unknown (unknown_of m @ [f]) m) = add_unknown f (view m)"
begin

lemma skip_yields:
  assumes "wire_ok d f"
  shows "yields d ok view (skip_into unknown_of with_unknown (field_tag f)) (field_body f) (add_unknown f)"
  unfolding yields_def
proof (intro allI impI)
  fix m c rest
  assume m: "ok m" and c: "cis_ok c" "unread c = field_body f @ rest" "recursion_depth c + int d \<le> recursion_limit c"
  have "2 * length (unread c) + 2 \<le> skip_bound c" by (simp add: skip_bound_def unread_length(1) [OF c(1)])
  with skips_wire_ok [OF assms] c obtain c' where
    "SkipField (skip_bound c) (field_tag f) (unknown_of m) c = Got (unknown_of m @ [f]) c'" "moves c (length (field_body f)) c'"
    unfolding skips_def by blast
  then show "\<exists>m' c'. skip_into unknown_of with_unknown (field_tag f) m c = Got m' c' \<and> moves c (length (field_body f)) c' \<and> ok m' \<and>
      view m' = add_unknown f (view m)"
    using put_ok [OF m] put_view [OF m] by (auto simp: skip_into_def)
qed

lemma fits_skip: "fits_unknown rows d f \<Longrightarrow> row_for rows (GetTagFieldNumber (field_tag f)) = None \<and> wire_ok d f"
  by (simp add: fits_unknown_def field_tag_number)

definition fits :: "nat \<Rightarrow> 'a chunk \<Rightarrow> bool" where
  "fits d ch \<longleftrightarrow> fits_row rows ok view d ch \<or> (\<exists>f. fits_unknown rows d f \<and> ch = unknown_chunk add_unknown f)"

text \<open>The fields ahead, at the head of the loop or behind the tag of the first one.\<close>

definition ahead_of :: "int32 option \<Rightarrow> 'a chunk list \<Rightarrow> bytes \<Rightarrow> bool" where
  "ahead_of label chs bs \<longleftrightarrow>
     (case label of
        None \<Rightarrow> bs = chunks_bytes chs
      | Some k \<Rightarrow> \<exists>tag body eff chs' r. chs = (tag, body, eff) # chs' \<and> bs = body @ chunks_bytes chs' \<and> k = GetTagFieldNumber tag \<and>
          row_for rows k = Some r \<and> GetTagWireType tag = row_wiretype r)"

lemma loop_reads:
  "cis_ok c \<Longrightarrow> ok m \<Longrightarrow> recursion_depth c + int d \<le> recursion_limit c \<Longrightarrow> length (unread c) < n \<Longrightarrow> \<forall>ch \<in> set chs. fits d ch \<Longrightarrow>
     ahead_of label chs (unread c) \<Longrightarrow>
     \<exists>m' c'. parse_loop rows (skip_into unknown_of with_unknown) n label m c = Got m' c' \<and> moves c (length (unread c)) c' \<and>
       legitimate_message_end c' \<and> ok m' \<and> view m' = effects chs (view m)"
proof (induction n arbitrary: label m c chs)
  case (Suc n)
  let ?loop = "parse_loop rows (skip_into unknown_of with_unknown)"
  let ?done = "\<lambda>m c chs r. \<exists>m' c'. r = Got m' c' \<and> moves c (length (unread c)) c' \<and> legitimate_message_end c' \<and> ok m' \<and> view m' = effects chs (view m)"
  note c = Suc.prems(1) and m = Suc.prems(2) and depth = Suc.prems(3)
  have step: "?done m c chs (?loop n l m1 c1)"
    if "moves c k c1" "k \<le> length (unread c)" "cis_ok c1" "unread c1 = drop k (unread c)" "recursion_depth c1 + int d \<le> recursion_limit c1"
      "length (unread c1) < n" "ok m1" "\<forall>ch \<in> set chs1. fits d ch" "ahead_of l chs1 (unread c1)" "effects chs (view m) = effects chs1 (view m1)"
    for k c1 m1 l chs1
  proof -
    from Suc.IH [OF that(3,7,5,6,8,9)] obtain m' c' where r: "?loop n l m1 c1 = Got m' c'" "moves c1 (length (unread c1)) c'"
        "legitimate_message_end c'" "ok m'" "view m' = effects chs1 (view m1)" by blast
    from moves_trans [OF that(1) r(2)] have "moves c (length (unread c)) c'" using that(2,4) by simp
    with r that(10) show ?thesis by simp
  qed
  show ?case
  proof (cases label)
    case None
    with Suc.prems(6) have u: "unread c = chunks_bytes chs" by (simp add: ahead_of_def)
    show ?thesis
    proof (cases chs)
      case Nil
      then show ?thesis using ReadTag_end [OF c] u m None by (simp add: moves_def)
    next
      case (Cons ch chs')
      obtain tag body eff where ch: "ch = (tag, body, eff)" by (cases ch)
      have u': "unread c = varint (unat tag) @ body @ chunks_bytes chs'" using u by (simp add: Cons ch)
      obtain c1 where t: "ReadTag c = Got tag c1" "moves c (length (varint (unat tag))) c1" "cis_ok c1" "unread c1 = body @ chunks_bytes chs'"
          "recursion_depth c1 + int d \<le> recursion_limit c1"
        using read_tag_moves [OF c u' depth] by metis
      have "length (unread c) = length (varint (unat tag)) + length (unread c1)" by (simp add: u' t(4))
      then have "length (unread c1) < n" "length (varint (unat tag)) \<le> length (unread c)"
        using Suc.prems(4) length_varint_pos [of "unat tag"] by linarith+
      moreover have "unread c1 = drop (length (varint (unat tag))) (unread c)" by (simp add: u' t(4))
      ultimately have l: "length (unread c1) < n" "length (varint (unat tag)) \<le> length (unread c)"
        "unread c1 = drop (length (varint (unat tag))) (unread c)" .
      have f: "fits d ch" "\<forall>ch \<in> set chs'. fits d ch" using Suc.prems(5) Cons by simp_all
      from f(1) show ?thesis unfolding fits_def
      proof (elim disjE exE conjE)
        assume "fits_row rows ok view d ch"
        then obtain r where r: "tag \<noteq> 0" "row_for rows (GetTagFieldNumber tag) = Some r" "GetTagWireType tag = row_wiretype r"
          by (auto simp: fits_row_def ch)
        have "?loop (Suc n) None m c = ?loop n (Some (GetTagFieldNumber tag)) m c1"
          using t(1) r row_for_number [OF r(2)] by simp
        moreover have "ahead_of (Some (GetTagFieldNumber tag)) chs (unread c1)"
          using r t(4) by (simp add: ahead_of_def Cons ch)
        ultimately show ?thesis
          unfolding None using step [OF t(2) l(2) t(3) l(3) t(5) l(1) m Suc.prems(5)] by simp
      next
        fix f
        assume f': "fits_unknown rows d f" "ch = unknown_chunk add_unknown f"
        then have e: "tag = field_tag f" "body = field_body f" "eff = add_unknown f" by (simp_all add: ch unknown_chunk_def)
        from yieldsD [OF skip_yields m t(3)] fits_skip [OF f'(1)] t(4,5) e obtain m2 c2
          where s: "skip_into unknown_of with_unknown tag m c1 = Got m2 c2" "moves c1 (length body) c2" "ok m2" "view m2 = eff (view m)"
            "cis_ok c2" "unread c2 = chunks_bytes chs'" "recursion_depth c2 + int d \<le> recursion_limit c2" by metis
        have "?loop (Suc n) None m c = ?loop n None m2 c2"
          using t(1) s(1) fits_skip [OF f'(1)] e field_tag_number(1,2) [of f] field_tag_number(3) [of d f] by simp
        moreover have "?done m c chs (?loop n None m2 c2)"
          by (rule step [OF moves_trans [OF t(2) s(2)] _ s(5) _ s(7) _ s(3) f(2)])
            (use l(1) t(4) s(4,6) u' in \<open>simp_all add: ahead_of_def Cons ch\<close>)
        ultimately show ?thesis unfolding None by simp
      qed
    qed
  next
    case (Some k)
    with Suc.prems(6) obtain tag body eff chs' r where a: "chs = (tag, body, eff) # chs'" "unread c = body @ chunks_bytes chs'"
        "k = GetTagFieldNumber tag" "row_for rows k = Some r" "GetTagWireType tag = row_wiretype r"
      by (auto simp: ahead_of_def)
    have rr: "r \<in> set rows" using row_for_number [OF a(4)] by blast
    have f: "fits d (tag, body, eff)" "\<forall>ch \<in> set chs'. fits d ch" using Suc.prems(5) a(1) by simp_all
    have "fits_row rows ok view d (tag, body, eff)"
      using f(1) fits_skip a(3,4) by (auto simp: fits_def unknown_chunk_def)
    then have y: "yields d ok view (row_parse r) body eff" "body \<noteq> []"
      using a(3,4) by (auto simp: fits_row_def)
    obtain m1 c1 where p: "row_parse r m c = Got m1 c1" "moves c (length body) c1" "ok m1" "view m1 = eff (view m)" "cis_ok c1"
        "unread c1 = chunks_bytes chs'" "recursion_depth c1 + int d \<le> recursion_limit c1"
      using yieldsD [OF y(1) m c a(2) depth] by metis
    have l: "length (unread c1) < n" "length body \<le> length (unread c)" "unread c1 = drop (length body) (unread c)"
      using Suc.prems(4) a(2) p(6) y(2) by (cases body; simp)+
    from expect_next [OF closed rr p(5,6)] show ?thesis
    proof (elim disjE exE conjE)
      assume e: "expect_any (row_expects r) c1 = Got None c1"
      obtain b c2 where b: "(if row_at_end r then ExpectAtEnd c1 else (False, c1)) = (b, c2)" by fastforce
      have x: "moves c1 0 c2" "b \<Longrightarrow> unread c1 = [] \<and> legitimate_message_end c2" "\<not> b \<Longrightarrow> c2 = c1"
        using b ExpectAtEnd_sound [OF p(5), of b c2] by (auto split: if_splits)
      have eq: "?loop (Suc n) (Some k) m c = (if b then Got m1 c2 else ?loop n None m1 c2)"
        by (simp add: a(4) p(1) e b)
      show ?thesis
      proof (cases b)
        case True
        with x(2) p(6) have "chs' = []" by (simp add: chunks_bytes_Nil)
        with True x(2) moves_trans [OF p(2) x(1)] a(1,2) p(3,4) show ?thesis
          unfolding Some eq by simp
      next
        case False
        then show ?thesis
          unfolding Some eq using x(3)
          step [OF p(2) l(2) p(5) l(3) p(7) l(1) p(3) f(2), of None] by (simp add: ahead_of_def p(4,6) a(1))
      qed
    next
      fix tag' body' eff' chs'' r'
      assume e: "chs' = (tag', body', eff') # chs''" "expect_any (row_expects r) c1 = Got (Some (GetTagFieldNumber tag')) (Advance 1 c1)"
        "unread (Advance 1 c1) = body' @ chunks_bytes chs''" "row_for rows (GetTagFieldNumber tag') = Some r'" "GetTagWireType tag' = row_wiretype r'"
      have ne: "unread c1 \<noteq> []" by (simp add: p(6) e(1) varint_not_Nil)
      have m1: "moves c1 (Suc 0) (Advance 1 c1)" by simp
      have c2: "cis_ok (Advance 1 c1)" using moves_ok [OF p(5) m1] ne by (simp add: Suc_le_eq)
      have u2: "unread (Advance 1 c1) = drop (length body + 1) (unread c)" using moves_unread [OF p(5) m1] l(3) by simp
      have "?loop (Suc n) (Some k) m c = ?loop n (Some (GetTagFieldNumber tag')) m1 (Advance 1 c1)"
        by (simp add: a(4) p(1) e(2))
      moreover have "?done m c chs (?loop n (Some (GetTagFieldNumber tag')) m1 (Advance 1 c1))"
      proof (rule step [OF moves_trans [OF p(2) m1] _ c2 _ _ _ p(3) f(2)])
        show "length body + Suc 0 \<le> length (unread c)" using a(2) ne p(6) by (cases "chunks_bytes chs'") simp_all
        show "recursion_depth (Advance 1 c1) + int d \<le> recursion_limit (Advance 1 c1)" using p(7) moves_fields [OF m1] by simp
        show "length (unread (Advance 1 c1)) < n" using u2 l(1,3) by simp
        show "ahead_of (Some (GetTagFieldNumber tag')) chs' (unread (Advance 1 c1))"
          using e by (simp add: ahead_of_def)
      qed (use u2 p(4) a(1) in simp_all)
      ultimately show ?thesis unfolding Some by simp
    qed
  qed
qed simp

theorem MergePartial_parses:
  assumes "\<forall>ch \<in> set chs. fits_row rows ok view d ch" "\<forall>f \<in> set fs. fits_unknown rows d f"
  shows "parses d ok view (MergePartial rows (skip_into unknown_of with_unknown)) (chunks_bytes chs @ SerializeUnknownFieldsToArray fs [])
    (fold add_unknown fs \<circ> effects chs)"
  unfolding parses_def
proof (intro allI impI)
  fix m c
  let ?us = "map (unknown_chunk add_unknown) fs"
  have b: "chunks_bytes ?us = SerializeUnknownFieldsToArray fs []"
    by (induction fs) (simp_all add: Serialize_fields chunks_bytes_def chunk_bytes_def unknown_chunk_def)
  have e: "effects ?us = fold add_unknown fs"
    by (induction fs) (simp_all add: unknown_chunk_def)
  assume m: "ok m" and c: "cis_ok c" "unread c = chunks_bytes chs @ SerializeUnknownFieldsToArray fs []"
    "recursion_depth c + int d \<le> recursion_limit c"
  have f: "\<forall>ch \<in> set (chs @ ?us). fits d ch" using assms by (auto simp: fits_def)
  have l: "length (unread c) < Suc (nat (BufferSize c))" by (simp add: unread_length(1) [OF c(1)])
  have a: "ahead_of None (chs @ ?us) (unread c)" by (simp add: ahead_of_def b c(2))
  from loop_reads [OF c(1) m c(3) l f a]
  show "\<exists>m' c'. MergePartial rows (skip_into unknown_of with_unknown) m c = Got m' c' \<and>
      moves c (length (chunks_bytes chs @ SerializeUnknownFieldsToArray fs [])) c' \<and> legitimate_message_end c' \<and> ok m' \<and>
      view m' = (fold add_unknown fs \<circ> effects chs) (view m)"
    unfolding MergePartial_def c(2) by (simp add: e)
qed

end

section \<open>Kinds of fields\<close>

lemma yields_field:
  assumes "yields d ok' view' f body eff'"
    and get: "\<And>m. ok m \<Longrightarrow> ok' (get m)"
    and put: "\<And>m t. ok m \<Longrightarrow> ok' t \<Longrightarrow> ok (put t m)"
      "\<And>m t. ok m \<Longrightarrow> ok' t \<Longrightarrow> view' t = eff' (view' (get m)) \<Longrightarrow> view (put t m) = eff (view m)"
  shows "yields d ok view (\<lambda>m c. got_bind (f (get m) c) (\<lambda>t c. Got (put t m) c)) body eff"
  unfolding yields_def
proof (intro allI impI)
  fix m c rest
  assume m: "ok m" and c: "cis_ok c" "unread c = body @ rest" "recursion_depth c + int d \<le> recursion_limit c"
  obtain t c' where "f (get m) c = Got t c'" "moves c (length body) c'" "ok' t" "view' t = eff' (view' (get m))"
    using yieldsD [OF assms(1) get [OF m] c] by metis
  with put [OF m] show "\<exists>m' c'. got_bind (f (get m) c) (\<lambda>t c. Got (put t m) c) = Got m' c' \<and> moves c (length body) c' \<and> ok m' \<and>
      view m' = eff (view m)" by auto
qed

lemma safe_field:
  assumes "safe ok' 1 c r" "cis_ok c" "\<And>t. ok' t \<Longrightarrow> ok (put t)"
  shows "safe ok 1 c (got_bind r (\<lambda>t c. Got (put t) c))"
proof -
  have "safe ok (1 + 0) c (got_bind r (\<lambda>t c. Got (put t) c))"
    by (rule safe_bind [OF assms(2) safe_sound [OF assms(1)]]) (use assms(1,3) in simp)
  then show ?thesis by simp
qed

lemma got_bind_Got [simp]: "got_bind r Got = r"
  by (cases r) simp_all

lemma yields_message_field:
  assumes "parses d ok view merge body eff" "length body < 2 ^ 31"
  shows "yields (Suc d) ok view (ReadMessageNoVirtual merge) (enc_bytes body) eff"
  using yields_message [OF assms, where ok = ok and view = view and get = "\<lambda>m. m" and put = "\<lambda>t m. t" and eff = eff] by simp

text \<open>
  \<^verbatim>\<open>ReadMessageNoVirtual(input, add_...())\<close>: the last object of a repeated field is parsed in
  place.
\<close>

definition ReadAdded :: "'m \<Rightarrow> ('m \<Rightarrow> cis \<Rightarrow> 'm got) \<Rightarrow> 'm repeated_ptr \<Rightarrow> cis \<Rightarrow> 'm repeated_ptr got" where
  "ReadAdded new merge r c =
     (let r = Rep_Add new (\<lambda>t. t) r; i = int (Rep_size r) - 1
      in case Rep_Get r i of
          None \<Rightarrow> Crash
        | Some t \<Rightarrow>
            got_bind (ReadMessageNoVirtual merge t c) (\<lambda>t c.
              case Rep_Mutable (\<lambda>_. t) i r of None \<Rightarrow> Crash | Some r \<Rightarrow> Got r c))"

locale parsed_handler = type_handler new clr mrg ok view
  for new :: 'm and clr :: "'m \<Rightarrow> 'm" and mrg :: "'m \<Rightarrow> 'm \<Rightarrow> 'm" and ok :: "'m \<Rightarrow> bool" and view :: "'m \<Rightarrow> 'a" +
  fixes merge :: "'m \<Rightarrow> cis \<Rightarrow> 'm got"
  assumes merge_safe: "ok t \<Longrightarrow> cis_ok c \<Longrightarrow> safe ok 0 c (merge t c)"
begin

lemma ReadAdded_steps:
  assumes "good r"
  obtains t where "ok t" "view t = view new"
    "ReadAdded new merge r c = got_bind (ReadMessageNoVirtual merge t c) (\<lambda>t c.
       case Rep_Mutable (\<lambda>_. t) (int (Rep_size (Rep_Add new (\<lambda>t. t) r)) - 1) (Rep_Add new (\<lambda>t. t) r) of None \<Rightarrow> Crash | Some r \<Rightarrow> Got r c)"
    "\<And>t. ok t \<Longrightarrow> \<exists>r'. Rep_Mutable (\<lambda>_. t) (int (Rep_size (Rep_Add new (\<lambda>t. t) r)) - 1) (Rep_Add new (\<lambda>t. t) r) = Some r' \<and>
       good r' \<and> views r' = views r @ [view t]"
proof -
  obtain x where x: "ok x" "view x = view new" "good (Rep_Add new (\<lambda>t. t) r)" "Rep_contents (Rep_Add new (\<lambda>t. t) r) = Rep_contents r @ [x]"
    using Add_step [OF assms] by metis
  let ?r = "Rep_Add new (\<lambda>t. t) r"
  let ?i = "int (Rep_size ?r) - 1"
  have m: "\<exists>r'. Rep_Mutable (\<lambda>_. t) ?i ?r = Some r' \<and> good r' \<and> views r' = views r @ [view t]" if t: "ok t" for t
  proof -
    obtain r' where "Rep_Mutable (\<lambda>_. t) ?i ?r = Some r'" "good r'" "views r' = map view (Rep_contents r) @ [view t]"
      by (rule Mutable_last [OF x(3,4) t])
    then show ?thesis by (simp add: views_def [of r])
  qed
  have "Rep_Get ?r ?i = Some x"
    using Mutable_last [OF x(3,4,1)] by metis
  then have "ReadAdded new merge r c = got_bind (ReadMessageNoVirtual merge x c) (\<lambda>t c.
       case Rep_Mutable (\<lambda>_. t) ?i ?r of None \<Rightarrow> Crash | Some r \<Rightarrow> Got r c)"
    by (simp add: ReadAdded_def Let_def)
  from that [OF x(1,2) this m] show thesis .
qed

lemma ReadAdded_safe:
  assumes "good r" "cis_ok c"
  shows "safe good 1 c (ReadAdded new merge r c)"
proof -
  obtain t where t: "ok t" "ReadAdded new merge r c = got_bind (ReadMessageNoVirtual merge t c) (\<lambda>t c.
       case Rep_Mutable (\<lambda>_. t) (int (Rep_size (Rep_Add new (\<lambda>t. t) r)) - 1) (Rep_Add new (\<lambda>t. t) r) of None \<Rightarrow> Crash | Some r \<Rightarrow> Got r c)"
    "\<And>t. ok t \<Longrightarrow> \<exists>r'. Rep_Mutable (\<lambda>_. t) (int (Rep_size (Rep_Add new (\<lambda>t. t) r)) - 1) (Rep_Add new (\<lambda>t. t) r) = Some r' \<and>
       good r' \<and> views r' = views r @ [view t]"
    by (rule ReadAdded_steps [OF assms(1), of c]) blast
  have s: "safe ok 1 c (ReadMessageNoVirtual merge t c)"
    by (rule ReadMessageNoVirtual_safe [OF assms(2)]) (rule merge_safe [OF t(1)])
  have "safe good (1 + 0) c (ReadAdded new merge r c)"
    unfolding t(2)
    by (rule safe_bind [OF assms(2) safe_sound [OF s]]) (use t(3) s in fastforce)
  then show ?thesis by simp
qed

lemma ReadAdded_yields:
  assumes "parses d ok view merge body eff" "length body < 2 ^ 31"
  shows "yields (Suc d) good views (ReadAdded new merge) (enc_bytes body) (\<lambda>vs. vs @ [eff (view new)])"
  unfolding yields_def
proof (intro allI impI)
  fix r c rest
  assume r: "good r" and c: "cis_ok c" "unread c = enc_bytes body @ rest" "recursion_depth c + int (Suc d) \<le> recursion_limit c"
  obtain t where t: "ok t" "view t = view new" "ReadAdded new merge r c = got_bind (ReadMessageNoVirtual merge t c) (\<lambda>t c.
       case Rep_Mutable (\<lambda>_. t) (int (Rep_size (Rep_Add new (\<lambda>t. t) r)) - 1) (Rep_Add new (\<lambda>t. t) r) of None \<Rightarrow> Crash | Some r \<Rightarrow> Got r c)"
    "\<And>t. ok t \<Longrightarrow> \<exists>r'. Rep_Mutable (\<lambda>_. t) (int (Rep_size (Rep_Add new (\<lambda>t. t) r)) - 1) (Rep_Add new (\<lambda>t. t) r) = Some r' \<and>
       good r' \<and> views r' = views r @ [view t]"
    by (rule ReadAdded_steps [OF r, of c]) blast
  obtain t' c' where "ReadMessageNoVirtual merge t c = Got t' c'" "moves c (length (enc_bytes body)) c'" "ok t'" "view t' = eff (view t)"
    using yieldsD [OF yields_message_field [OF assms] t(1) c] by metis
  with t show "\<exists>r' c'. ReadAdded new merge r c = Got r' c' \<and> moves c (length (enc_bytes body)) c' \<and> good r' \<and>
      views r' = views r @ [eff (view new)]" by fastforce
qed

end

section \<open>The fields of an abstract message\<close>

definition opt_chunk :: "int32 \<Rightarrow> uint32 \<Rightarrow> ('v \<Rightarrow> bytes) \<Rightarrow> ('v option \<Rightarrow> 'a \<Rightarrow> 'a) \<Rightarrow> 'v option \<Rightarrow> 'a chunk list" where
  "opt_chunk number type enc eff v = (case v of None \<Rightarrow> [] | Some x \<Rightarrow> [(MakeTag number type, enc x, eff v)])"

definition rep_chunks :: "int32 \<Rightarrow> uint32 \<Rightarrow> ('v \<Rightarrow> bytes) \<Rightarrow> ('v \<Rightarrow> 'a \<Rightarrow> 'a) \<Rightarrow> 'v list \<Rightarrow> 'a chunk list" where
  "rep_chunks number type enc eff vs = map (\<lambda>x. (MakeTag number type, enc x, eff x)) vs"

lemma opt_chunk_bytes: "chunks_bytes (opt_chunk number type enc eff v) = enc_opt (\<lambda>v. enc_tag number type @ enc v) v"
  by (cases v) (simp_all add: opt_chunk_def enc_tag_def)

lemma rep_chunks_bytes: "chunks_bytes (rep_chunks number type enc eff vs) = concat (map (\<lambda>v. enc_tag number type @ enc v) vs)"
  by (induction vs) (simp_all add: rep_chunks_def enc_tag_def)

lemma opt_chunk_effect: "(\<And>a. eff None a = a) \<Longrightarrow> effects (opt_chunk number type enc eff v) a = eff v a"
  by (cases v) (simp_all add: opt_chunk_def)

lemma rep_chunks_effect: "effects (rep_chunks number type enc eff vs) = fold eff vs"
  by (induction vs) (simp_all add: rep_chunks_def)

lemma fits_opt_chunk:
  assumes "unat number < 2 ^ 29" "unat type < 8" "number \<noteq> 0" "row_for rows number = Some r" "row_wiretype r = type"
    and "\<And>x. v = Some x \<Longrightarrow> enc x \<noteq> [] \<and> yields d ok view (row_parse r) (enc x) (eff v)"
  shows "\<forall>ch \<in> set (opt_chunk number type enc eff v). fits_row rows ok view d ch"
proof (cases v)
  case (Some x)
  have "MakeTag number type \<noteq> 0"
  proof
    assume "MakeTag number type = 0"
    then have "unat number * 8 + unat type = 0" using unat_MakeTag [OF assms(1,2)] by simp
    with assms(3) show False by (simp add: unat_eq_0)
  qed
  with assms(4,5) assms(6) [OF Some] show ?thesis
    by (simp add: opt_chunk_def Some fits_row_def GetTagFieldNumber_MakeTag [OF assms(1,2)] GetTagWireType_MakeTag [OF assms(1,2)])
qed (simp add: opt_chunk_def)

lemma fits_rep_chunks:
  assumes "unat number < 2 ^ 29" "unat type < 8" "number \<noteq> 0" "row_for rows number = Some r" "row_wiretype r = type"
    and "\<And>x. x \<in> set vs \<Longrightarrow> enc x \<noteq> [] \<and> yields d ok view (row_parse r) (enc x) (eff x)"
  shows "\<forall>ch \<in> set (rep_chunks number type enc eff vs). fits_row rows ok view d ch"
proof -
  have "\<forall>ch \<in> set (opt_chunk number type enc (\<lambda>v. eff (the v)) (Some x)). fits_row rows ok view d ch" if "x \<in> set vs" for x
    by (rule fits_opt_chunk [OF assms(1-5)]) (use assms(6) that in auto)
  then show ?thesis by (auto simp: rep_chunks_def opt_chunk_def)
qed

lemma tag_parts: "GetTagFieldNumber tag = drop_bit 3 tag" "GetTagWireType tag = tag AND 7"
  by (simp_all add: GetTagFieldNumber_def GetTagWireType_def kTagTypeBits_def kTagTypeMask_def)

lemma enc_not_Nil [simp]:
  "enc_int32 v \<noteq> []" "enc_uint32 w \<noteq> []" "enc_bool b \<noteq> []" "enc_fixed32 f \<noteq> []" "enc_bytes s \<noteq> []"
  by (simp_all add: enc_int32_def enc_uint32_def enc_bool_def enc_fixed32_def enc_bytes_def varint_not_Nil)

end
