(* ===== verification/Message_Lite.thy ===== *)
theory Message_Lite
  imports Message_Format
begin

text \<open>
  \<^verbatim>\<open>MessageLite\<close> of \<^verbatim>\<open>message_lite.cc\<close>: parsing from and serialising to arrays and strings, over the
  virtual functions that each generated message class implements.
\<close>

section \<open>The virtual functions\<close>

record 'm message_lite =
  vt_Clear :: "'m \<Rightarrow> 'm"
  vt_IsInitialized :: "'m \<Rightarrow> bool"
  vt_MergePartial :: "'m \<Rightarrow> cis \<Rightarrow> 'm got"
  vt_ByteSize :: "'m \<Rightarrow> nat \<times> 'm"
  vt_SerializeWithCachedSizes :: "'m \<Rightarrow> bytes \<Rightarrow> bytes"

section \<open>Parsing\<close>

text \<open>A false return leaves the message half written; it has no value in the model.\<close>

definition InlineMergeFromCodedStream :: "'m message_lite \<Rightarrow> 'm \<Rightarrow> cis \<Rightarrow> 'm got" where
  "InlineMergeFromCodedStream T m input =
     got_bind (vt_MergePartial T m input) (\<lambda>m input. if \<not> vt_IsInitialized T m then Fails input else Got m input)"

definition InlineParseFromCodedStream :: "'m message_lite \<Rightarrow> 'm \<Rightarrow> cis \<Rightarrow> 'm got" where
  "InlineParseFromCodedStream T m input = InlineMergeFromCodedStream T (vt_Clear T m) input"

definition InlineParsePartialFromCodedStream :: "'m message_lite \<Rightarrow> 'm \<Rightarrow> cis \<Rightarrow> 'm got" where
  "InlineParsePartialFromCodedStream T m input = vt_MergePartial T (vt_Clear T m) input"

definition InlineParseFromArray :: "'m message_lite \<Rightarrow> bytes \<Rightarrow> 'm \<Rightarrow> 'm got" where
  "InlineParseFromArray T data m =
     got_bind (InlineParseFromCodedStream T m (CodedInputStream_new data))
       (\<lambda>m input. if ConsumedEntireMessage input then Got m input else Fails input)"

definition InlineParsePartialFromArray :: "'m message_lite \<Rightarrow> bytes \<Rightarrow> 'm \<Rightarrow> 'm got" where
  "InlineParsePartialFromArray T data m =
     got_bind (InlineParsePartialFromCodedStream T m (CodedInputStream_new data))
       (\<lambda>m input. if ConsumedEntireMessage input then Got m input else Fails input)"

definition MergeFromCodedStream :: "'m message_lite \<Rightarrow> 'm \<Rightarrow> cis \<Rightarrow> 'm got" where
  "MergeFromCodedStream T m input = InlineMergeFromCodedStream T m input"

definition ParseFromCodedStream :: "'m message_lite \<Rightarrow> 'm \<Rightarrow> cis \<Rightarrow> 'm got" where
  "ParseFromCodedStream T m input = InlineParseFromCodedStream T m input"

definition ParsePartialFromCodedStream :: "'m message_lite \<Rightarrow> 'm \<Rightarrow> cis \<Rightarrow> 'm got" where
  "ParsePartialFromCodedStream T m input = InlineParsePartialFromCodedStream T m input"

definition ParseFromString :: "'m message_lite \<Rightarrow> bytes \<Rightarrow> 'm \<Rightarrow> 'm got" where
  "ParseFromString T data m = InlineParseFromArray T data m"

definition ParsePartialFromString :: "'m message_lite \<Rightarrow> bytes \<Rightarrow> 'm \<Rightarrow> 'm got" where
  "ParsePartialFromString T data m = InlineParsePartialFromArray T data m"

definition ParseFromArray :: "'m message_lite \<Rightarrow> bytes \<Rightarrow> 'm \<Rightarrow> 'm got" where
  "ParseFromArray T data m = InlineParseFromArray T data m"

definition ParsePartialFromArray :: "'m message_lite \<Rightarrow> bytes \<Rightarrow> 'm \<Rightarrow> 'm got" where
  "ParsePartialFromArray T data m = InlineParsePartialFromArray T data m"

section \<open>Serialising\<close>

text \<open>
  \<open>Wrote\<close> is a true return with the bytes and the message, whose sizes are now cached; \<open>Refused\<close>
  is a false return. \<open>Fatal\<close> is a failed check: \<^verbatim>\<open>ByteSizeConsistencyError\<close>, or in a debug build
  \<^verbatim>\<open>GOOGLE_DCHECK(IsInitialized())\<close>.
\<close>

datatype 'm serialized = Wrote bytes 'm | Refused 'm | Fatal

definition AppendPartialToString :: "'m message_lite \<Rightarrow> bytes \<Rightarrow> 'm \<Rightarrow> 'm serialized" where
  "AppendPartialToString T output m =
     (let (byte_size, m) = vt_ByteSize T m;
          out = vt_SerializeWithCachedSizes T m []
      in if length out \<noteq> byte_size then Fatal else Wrote (output @ out) m)"

definition AppendToString :: "'m message_lite \<Rightarrow> bytes \<Rightarrow> 'm \<Rightarrow> 'm serialized" where
  "AppendToString T output m = (if \<not> vt_IsInitialized T m then Fatal else AppendPartialToString T output m)"

definition SerializeToString :: "'m message_lite \<Rightarrow> 'm \<Rightarrow> 'm serialized" where
  "SerializeToString T m = AppendToString T [] m"

definition SerializePartialToString :: "'m message_lite \<Rightarrow> 'm \<Rightarrow> 'm serialized" where
  "SerializePartialToString T m = AppendPartialToString T [] m"

text \<open>A refused message gives the empty string.\<close>

definition as_string :: "'m serialized \<Rightarrow> (bytes \<times> 'm) option" where
  "as_string r = (case r of Wrote output m \<Rightarrow> Some (output, m) | Refused m \<Rightarrow> Some ([], m) | Fatal \<Rightarrow> None)"

definition SerializeAsString :: "'m message_lite \<Rightarrow> 'm \<Rightarrow> (bytes \<times> 'm) option" where
  "SerializeAsString T m = as_string (AppendToString T [] m)"

definition SerializePartialAsString :: "'m message_lite \<Rightarrow> 'm \<Rightarrow> (bytes \<times> 'm) option" where
  "SerializePartialAsString T m = as_string (AppendPartialToString T [] m)"

definition SerializePartialToArray :: "'m message_lite \<Rightarrow> nat \<Rightarrow> 'm \<Rightarrow> 'm serialized" where
  "SerializePartialToArray T count m =
     (let (byte_size, m) = vt_ByteSize T m
      in if count < byte_size then Refused m
         else let out = vt_SerializeWithCachedSizes T m []
              in if length out \<noteq> byte_size then Fatal else Wrote out m)"

definition SerializeToArray :: "'m message_lite \<Rightarrow> nat \<Rightarrow> 'm \<Rightarrow> 'm serialized" where
  "SerializeToArray T count m = (if \<not> vt_IsInitialized T m then Fatal else SerializePartialToArray T count m)"

section \<open>What a message class promises\<close>

text \<open>
  \<open>ok\<close> is the invariant of an object, \<open>view\<close> the abstract message, \<open>encode\<close> its bytes, \<open>wire d\<close> that it
  survives the wire with \<open>d\<close> levels of nesting.
\<close>

locale wire_message =
  fixes T :: "'m message_lite"
    and ok :: "'m \<Rightarrow> bool"
    and view :: "'m \<Rightarrow> 'a"
    and blank :: 'a
    and encode :: "'a \<Rightarrow> bytes"
    and mrg :: "'a \<Rightarrow> 'a \<Rightarrow> 'a"
    and init :: "'a \<Rightarrow> bool"
    and wire :: "nat \<Rightarrow> 'a \<Rightarrow> bool"
  assumes clear: "ok m \<Longrightarrow> ok (vt_Clear T m) \<and> view (vt_Clear T m) = blank"
    and initialized: "ok m \<Longrightarrow> vt_IsInitialized T m \<longleftrightarrow> init (view m)"
    and safe: "ok m \<Longrightarrow> cis_ok c \<Longrightarrow> safe ok 0 c (vt_MergePartial T m c)"
    and parses: "wire d a \<Longrightarrow> parses d ok view (vt_MergePartial T) (encode a) (mrg a)"
    and merge_blank: "mrg a blank = a"
    and bytesize: "ok m \<Longrightarrow> \<exists>m'. vt_ByteSize T m = (length (encode (view m)), m') \<and> ok m' \<and> view m' = view m \<and>
      (\<forall>t. vt_SerializeWithCachedSizes T m' t = t @ encode (view m))"
begin

lemma SerializePartialToArray_writes:
  assumes "ok m"
  obtains m' where "ok m'" "view m' = view m"
    "\<And>count. SerializePartialToArray T count m = (if count < length (encode (view m)) then Refused m' else Wrote (encode (view m)) m')"
  using bytesize [OF assms] by (auto simp: SerializePartialToArray_def Let_def)

lemma AppendPartialToString_writes:
  "ok m \<Longrightarrow> \<exists>m'. AppendPartialToString T output m = Wrote (output @ encode (view m)) m' \<and> ok m' \<and> view m' = view m"
  using bytesize [of m] by (auto simp: AppendPartialToString_def Let_def)

text \<open>On any array of at most 64 MB the parser returns, and what it accepts is well-formed.\<close>

lemma InlineParseFromArray_total:
  assumes "ok m" "int (length data) \<le> kDefaultTotalBytesLimit"
  shows "(\<exists>m' c. InlineParseFromArray T data m = Got m' c \<and> ok m' \<and> init (view m') \<and> cur c = int (length data)) \<or>
    (\<exists>c. InlineParseFromArray T data m = Fails c)"
proof -
  note n = new_ok [OF assms(2)]
  have s: "safe ok 0 (CodedInputStream_new data) (vt_MergePartial T (vt_Clear T m) (CodedInputStream_new data))"
    by (rule safe [OF clear [OF assms(1), THEN conjunct1] n(1)])
  show ?thesis
  proof (cases "vt_MergePartial T (vt_Clear T m) (CodedInputStream_new data)")
    case (Got m' c)
    with s have m': "ok m'" "sound 0 (CodedInputStream_new data) (Got m' c)" by simp_all
    obtain k where k: "flag_ok (CodedInputStream_new data) \<Longrightarrow> flag_ok c" "cis_ok c" "moves (CodedInputStream_new data) k c"
      by (rule sound_GotE [OF m'(2) n(1)]) simp
    have f: "flag_ok c" using k(1) by (simp add: flag_ok_def CodedInputStream_new_def)
    have "cur c = int (length data)" if "legitimate_message_end c"
      using f that at_end [OF k(2)] moves_fields [OF k(3)] by (simp add: flag_ok_def CodedInputStream_new_def)
    with Got m'(1) initialized [OF m'(1)] show ?thesis
      by (auto simp: InlineParseFromArray_def InlineParseFromCodedStream_def InlineMergeFromCodedStream_def ConsumedEntireMessage_def flag_ok_def)
  qed (use s in \<open>simp_all add: InlineParseFromArray_def InlineParseFromCodedStream_def InlineMergeFromCodedStream_def\<close>)
qed

text \<open>Parsing what was serialised gives the message back, whatever the object held before.\<close>

lemma InlineParseFromArray_encode:
  assumes "ok m" "wire 64 a" "init a" "int (length (encode a)) \<le> kDefaultTotalBytesLimit"
  shows "\<exists>m' c. InlineParseFromArray T (encode a) m = Got m' c \<and> ok m' \<and> view m' = a"
proof -
  note n = new_ok [OF assms(4)]
  have d: "recursion_depth (CodedInputStream_new (encode a)) + int 64 \<le> recursion_limit (CodedInputStream_new (encode a))"
    by (simp add: CodedInputStream_new_def kDefaultRecursionLimit_def)
  obtain m' c' where p: "vt_MergePartial T (vt_Clear T m) (CodedInputStream_new (encode a)) = Got m' c'" "legitimate_message_end c'"
      "ok m'" "view m' = mrg a (view (vt_Clear T m))"
    using parsesD [OF parses [OF assms(2)] clear [OF assms(1), THEN conjunct1] n d] by blast
  have "view m' = a" using p(4) clear [OF assms(1)] merge_blank by simp
  moreover have "vt_IsInitialized T m'" using initialized [OF p(3)] assms(3) \<open>view m' = a\<close> by simp
  ultimately show ?thesis
    using p(1-3) by (simp add: InlineParseFromArray_def InlineParseFromCodedStream_def InlineMergeFromCodedStream_def ConsumedEntireMessage_def)
qed

end

end
