(* ===== verification/Rcf_Frame.thy ===== *)
theory Rcf_Frame
  imports Message_Lite
begin

text \<open>
  How RCF puts a protobuf message into a request or takes it out of a reply: a length of four
  bytes and the serialised message (\<^verbatim>\<open>serializeProtobufOrNot\<close> and \<^verbatim>\<open>deserializeProtobufOrNot\<close> of
  \<^verbatim>\<open>SerializationProtocol.hpp\<close>), over the memory streams of \<^verbatim>\<open>MemStream.cpp\<close>.
\<close>

section \<open>Memory streams\<close>

text \<open>
  The put area is the whole write buffer; \<^verbatim>\<open>pptr()\<close> is a position in it. Memory that was never
  written is shown as zeros; nothing reads it.
\<close>

record mem_out =
  write_buffer :: bytes
  put_pos :: nat

definition MemOstream_new :: mem_out where
  "MemOstream_new = \<lparr>write_buffer = replicate 10 0, put_pos = 0\<rparr>"

definition overflow :: "byte \<Rightarrow> mem_out \<Rightarrow> mem_out" where
  "overflow ch os =
     (let buffer = write_buffer os @ replicate (length (write_buffer os)) 0
      in \<lparr>write_buffer = buffer[put_pos os := ch], put_pos = put_pos os + 1\<rparr>)"

definition sputc :: "byte \<Rightarrow> mem_out \<Rightarrow> mem_out" where
  "sputc ch os =
     (if put_pos os < length (write_buffer os)
      then os\<lparr>write_buffer := (write_buffer os)[put_pos os := ch], put_pos := put_pos os + 1\<rparr>
      else overflow ch os)"

definition os_write :: "bytes \<Rightarrow> mem_out \<Rightarrow> mem_out" where
  "os_write bs os = fold sputc bs os"

definition out_seekoff :: "int \<Rightarrow> mem_out \<Rightarrow> int \<times> mem_out" where
  "out_seekoff offset os =
     (if 0 \<le> offset \<and> offset \<le> int (length (write_buffer os)) then (offset, os\<lparr>put_pos := nat offset\<rparr>) else (-1, os))"

record mem_in =
  in_buffer :: bytes
  get_pos :: nat

text \<open>\<^verbatim>\<open>is.read(buffer, n)\<close>; a short read leaves the rest of the caller's buffer as it is.\<close>

definition is_read :: "nat \<Rightarrow> mem_in \<Rightarrow> bytes \<times> mem_in" where
  "is_read n i =
     (let bs = take n (drop (get_pos i) (in_buffer i)) in (bs, i\<lparr>get_pos := get_pos i + length bs\<rparr>))"

definition in_seekoff_cur :: "nat \<Rightarrow> mem_in \<Rightarrow> int \<times> mem_in" where
  "in_seekoff_cur offset i =
     (if get_pos i + offset \<le> length (in_buffer i)
      then (int (get_pos i + offset), i\<lparr>get_pos := get_pos i + offset\<rparr>) else (-1, i))"

section \<open>Byte order\<close>

datatype byte_order = LittleEndian | BigEndian

definition MachineByteOrder :: byte_order where
  "MachineByteOrder = LittleEndian"

definition NetworkByteOrder :: byte_order where
  "NetworkByteOrder = LittleEndian"

text \<open>One value; the callers here pass a count of 1.\<close>

definition reverseByteOrder :: "bytes \<Rightarrow> bytes" where
  "reverseByteOrder buffer = rev buffer"

definition machineToNetworkOrder :: "bytes \<Rightarrow> bytes" where
  "machineToNetworkOrder buffer = (if MachineByteOrder \<noteq> NetworkByteOrder then reverseByteOrder buffer else buffer)"

definition networkToMachineOrder :: "bytes \<Rightarrow> bytes" where
  "networkToMachineOrder buffer = (if MachineByteOrder \<noteq> NetworkByteOrder then reverseByteOrder buffer else buffer)"

section \<open>Messages in frames\<close>

datatype rcf_error =
    ProtobufWriteInit
  | ProtobufWrite
  | ProtobufRead
  | ExtractSlice nat nat nat
  | Decoding
  | FilterMessage
  | FilterCount nat nat
  | UnfilterMessage
  | UnknownFilter
  | PayloadFilterMismatch

text \<open>
  \<open>Broken\<close> is a read of memory that was not written or is not there; \<open>Endless\<close> a call that does not
  return.
\<close>

datatype 'a framed = Done 'a | Raised rcf_error | Aborted | Broken | Endless

text \<open>Writing through a pointer into the buffer.\<close>

definition poke :: "nat \<Rightarrow> bytes \<Rightarrow> bytes \<Rightarrow> bytes" where
  "poke pos bs buffer = take pos buffer @ bs @ drop (pos + length bs) buffer"

definition serializeProtobufOrNot :: "'m message_lite \<Rightarrow> 'm \<Rightarrow> mem_out \<Rightarrow> ('m \<times> mem_out) framed" where
  "serializeProtobufOrNot T t os =
     (let os = os_write [0x58, 0x58, 0x58, 0x58] os;
          beginPos = put_pos os
      in if \<not> vt_IsInitialized T t then Raised ProtobufWriteInit
         else let (byteSize, t) = vt_ByteSize T t;
                  os = fold (\<lambda>_ os. os_write [0x25] os) [0..<byteSize] os;
                  endPos = put_pos os
              in case SerializeToArray T (endPos - beginPos) t of
                  Fatal \<Rightarrow> Aborted
                | Refused t \<Rightarrow> Raised ProtobufWrite
                | Wrote bs t \<Rightarrow>
                    let os = os\<lparr>write_buffer := poke beginPos bs (write_buffer os)\<rparr>;
                        len = of_nat (endPos - beginPos) :: uint32;
                        buffer = machineToNetworkOrder (enc_fixed32 len);
                        os = snd (out_seekoff (int beginPos - 4) os);
                        os = os_write buffer os;
                        os = snd (out_seekoff (int endPos) os)
                    in Done (t, os))"

definition extractSlice :: "nat \<Rightarrow> mem_in \<Rightarrow> (bytes \<times> mem_in) framed" where
  "extractSlice len i =
     (if len = 0 then Done ([], i)
      else let pos = get_pos i; (newPos, i) = in_seekoff_cur len i
           in if newPos = -1 then Raised (ExtractSlice pos len (length (in_buffer i)))
              else Done (take len (drop pos (in_buffer i)), i))"

definition deserializeProtobufOrNot :: "'m message_lite \<Rightarrow> 'm \<Rightarrow> mem_in \<Rightarrow> ('m \<times> mem_in) framed" where
  "deserializeProtobufOrNot T t i =
     (let (buffer, i) = is_read 4 i
      in if length buffer < 4 then Broken
         else let len = ReadLittleEndian32FromArray (networkToMachineOrder buffer)
              in case extractSlice (unat len) i of
                  Done (byteBuffer, i) \<Rightarrow>
                    (case ParseFromArray T byteBuffer t of
                       Got t c \<Rightarrow> Done (t, i)
                     | Fails c \<Rightarrow> Raised ProtobufRead
                     | Crash \<Rightarrow> Broken
                     | Runs_on \<Rightarrow> Endless)
                | Raised e \<Rightarrow> Raised e
                | Aborted \<Rightarrow> Aborted
                | Broken \<Rightarrow> Broken
                | Endless \<Rightarrow> Endless)"

section \<open>What the streams hold\<close>

text \<open>The bytes in front of the put position.\<close>

definition written :: "mem_out \<Rightarrow> bytes" where
  "written os = take (put_pos os) (write_buffer os)"

definition out_ok :: "mem_out \<Rightarrow> bool" where
  "out_ok os \<longleftrightarrow> put_pos os \<le> length (write_buffer os) \<and> 0 < length (write_buffer os)"

lemma new_stream: "out_ok MemOstream_new" "written MemOstream_new = []"
  by (simp_all add: out_ok_def written_def MemOstream_new_def)

lemma length_written: "out_ok os \<Longrightarrow> length (written os) = put_pos os"
  by (simp add: out_ok_def written_def)

lemma sputc_written: "out_ok os \<Longrightarrow> out_ok (sputc ch os) \<and> written (sputc ch os) = written os @ [ch]"
  by (auto simp: sputc_def overflow_def out_ok_def written_def Let_def take_Suc_conv_app_nth nth_append Suc_le_eq)

lemma os_write_written: "out_ok os \<Longrightarrow> out_ok (os_write bs os) \<and> written (os_write bs os) = written os @ bs"
proof (induction bs arbitrary: os)
  case (Cons b bs)
  from sputc_written [OF Cons.prems, of b] Cons.IH [of "sputc b os"] show ?case
    by (simp add: os_write_def)
qed (simp add: os_write_def)

lemma reserve_written:
  "out_ok os \<Longrightarrow> out_ok (fold (\<lambda>_ os. os_write [x] os) is os) \<and> written (fold (\<lambda>_ os. os_write [x] os) is os) = written os @ replicate (length is) x"
proof (induction "is" arbitrary: os)
  case (Cons i "is")
  have "out_ok (os_write [x] os)" "written (os_write [x] os) = written os @ [x]"
    using os_write_written [OF Cons.prems] by blast+
  with Cons.IH [of "os_write [x] os"] show ?case by simp
qed simp

lemma os_write_over:
  "write_buffer os = A @ B @ C \<Longrightarrow> put_pos os = length A \<Longrightarrow> length bs = length B \<Longrightarrow>
     os_write bs os = os\<lparr>write_buffer := A @ bs @ C, put_pos := length A + length bs\<rparr>"
proof (induction bs arbitrary: os A B)
  case Nil
  then show ?case by (cases os) (simp add: os_write_def)
next
  case (Cons b bs)
  then obtain x B' where B: "B = x # B'" by (cases B) auto
  have s: "sputc b os = os\<lparr>write_buffer := (A @ [b]) @ B' @ C, put_pos := length (A @ [b])\<rparr>"
    using Cons.prems by (simp add: sputc_def B list_update_append)
  have "os_write bs (sputc b os) = (sputc b os)\<lparr>write_buffer := (A @ [b]) @ bs @ C, put_pos := length (A @ [b]) + length bs\<rparr>"
    by (rule Cons.IH) (use Cons.prems(3) s B in simp_all)
  then show ?case using s by (simp add: os_write_def)
qed

lemma drop_length_append: "drop (length xs) (xs @ ys) = ys"
  by simp

lemma written_split: "out_ok os \<Longrightarrow> \<exists>C. write_buffer os = written os @ C"
  by (metis append_take_drop_id written_def)

section \<open>Frames\<close>

definition frame :: "bytes \<Rightarrow> bytes" where
  "frame bs = enc_fixed32 (of_nat (length bs)) @ bs"

context wire_message
begin

text \<open>An initialised message goes out as one frame; a message that is not is refused.\<close>

lemma serialize_frame:
  assumes "out_ok os" "ok m" "init (view m)"
  shows "\<exists>m' os'. serializeProtobufOrNot T m os = Done (m', os') \<and> out_ok os' \<and> written os' = written os @ frame (encode (view m)) \<and>
    ok m' \<and> view m' = view m"
proof -
  let ?e = "encode (view m)" and ?X = "[0x58, 0x58, 0x58, 0x58] :: bytes"
  obtain m1 where b1: "vt_ByteSize T m = (length ?e, m1)" "ok m1" "view m1 = view m"
    using bytesize [OF assms(2)] by blast
  obtain m2 where b2: "ok m2" "view m2 = view m1"
      "\<And>count. SerializePartialToArray T count m1 = (if count < length (encode (view m1)) then Refused m2 else Wrote (encode (view m1)) m2)"
    by (rule SerializePartialToArray_writes [OF b1(2)]) blast
  have i: "vt_IsInitialized T m" "vt_IsInitialized T m1"
    using initialized [OF assms(2)] initialized [OF b1(2)] assms(3) b1(3) by simp_all
  define os1 where "os1 = os_write ?X os"
  have o1: "out_ok os1" "written os1 = written os @ ?X"
    using os_write_written [OF assms(1)] by (simp_all add: os1_def)
  define os2 where "os2 = fold (\<lambda>_ os. os_write [0x25] os) [0..<length ?e] os1"
  have o2: "out_ok os2" "written os2 = written os @ ?X @ replicate (length ?e) 0x25"
    using reserve_written [OF o1(1), of "0x25" "[0..<length ?e]"] o1(2) by (simp_all add: os2_def)
  let ?p = "length (written os)"
  have p1: "put_pos os1 = ?p + 4" using length_written [OF o1(1)] o1(2) by simp
  have p2: "put_pos os2 = ?p + 4 + length ?e" using length_written [OF o2(1)] o2(2) by simp
  obtain R where R: "write_buffer os2 = written os @ ?X @ replicate (length ?e) 0x25 @ R"
    using written_split [OF o2(1)] o2(2) by auto
  let ?len = "enc_fixed32 (of_nat (length ?e))"
  have dR: "drop (put_pos os1 + length ?e) (write_buffer os2) = R"
  proof -
    have e: "put_pos os1 + length ?e = length (written os @ ?X @ replicate (length ?e) 0x25)"
      "write_buffer os2 = (written os @ ?X @ replicate (length ?e) 0x25) @ R"
      using R by (simp_all add: p1)
    show ?thesis unfolding e by (rule drop_length_append)
  qed
  define os3 where "os3 = os2\<lparr>write_buffer := written os @ ?X @ ?e @ R, put_pos := ?p\<rparr>"
  have o3: "snd (out_seekoff (int (put_pos os1) - 4) (os2\<lparr>write_buffer := poke (put_pos os1) ?e (write_buffer os2)\<rparr>)) = os3"
    unfolding poke_def dR by (simp add: out_seekoff_def os3_def p1 R)
  have o4: "os_write ?len os3 = os3\<lparr>write_buffer := written os @ ?len @ ?e @ R, put_pos := ?p + 4\<rparr>"
    using os_write_over [of os3 "written os" ?X "?e @ R" ?len] by (simp add: os3_def)
  let ?os = "os3\<lparr>write_buffer := written os @ ?len @ ?e @ R, put_pos := ?p + 4 + length ?e\<rparr>"
  have o5: "snd (out_seekoff (int (put_pos os2)) (os3\<lparr>write_buffer := written os @ ?len @ ?e @ R, put_pos := ?p + 4\<rparr>)) = ?os"
    by (simp add: out_seekoff_def p2 nat_add_distrib)
  have "SerializeToArray T (put_pos os2 - put_pos os1) m1 = Wrote ?e m2"
    by (simp add: SerializeToArray_def i b2(3) b1(3) p1 p2)
  then have "serializeProtobufOrNot T m os = Done (m2, ?os)"
    using o3 o4 o5 p1 p2
    by (simp add: serializeProtobufOrNot_def Let_def i b1(1) os1_def [symmetric] os2_def [symmetric] machineToNetworkOrder_def
        MachineByteOrder_def NetworkByteOrder_def)
  moreover have "out_ok ?os" by (simp add: out_ok_def os3_def)
  moreover have "written ?os = written os @ frame ?e" by (simp add: written_def [of ?os] frame_def)
  ultimately show ?thesis using b2(1,2) b1(3) by auto
qed

lemma serialize_uninitialized:
  "ok m \<Longrightarrow> \<not> init (view m) \<Longrightarrow> serializeProtobufOrNot T m os = Raised ProtobufWriteInit"
  by (simp add: serializeProtobufOrNot_def initialized Let_def)

text \<open>The receiver takes exactly the frame and gets the message back.\<close>

lemma deserialize_frame:
  assumes "ok m" "wire 64 a" "init a" "int (length (encode a)) \<le> kDefaultTotalBytesLimit"
    and "in_buffer i = before @ frame (encode a) @ after" "get_pos i = length before"
  shows "\<exists>m'. deserializeProtobufOrNot T m i = Done (m', i\<lparr>get_pos := length before + length (frame (encode a))\<rparr>) \<and> ok m' \<and> view m' = a"
proof -
  obtain m' c where p: "InlineParseFromArray T (encode a) m = Got m' c" "ok m'" "view m' = a"
    using InlineParseFromArray_encode [OF assms(1-4)] by blast
  let ?len = "enc_fixed32 (of_nat (length (encode a)))"
  have r: "is_read 4 i = (?len, i\<lparr>get_pos := length before + 4\<rparr>)"
    using assms(5,6) by (simp add: is_read_def frame_def)
  have l: "unat (of_nat (length (encode a)) :: uint32) = length (encode a)"
    using assms(4) by (simp add: kDefaultTotalBytesLimit_def unat_of_nat take_bit_nat_eq_self)
  have "extractSlice (length (encode a)) (i\<lparr>get_pos := length before + 4\<rparr>) =
      Done (encode a, i\<lparr>get_pos := length before + length (frame (encode a))\<rparr>)"
    using assms(5) by (cases "encode a = []") (simp_all add: extractSlice_def in_seekoff_cur_def frame_def Let_def)
  then show ?thesis
    using p by (simp add: deserializeProtobufOrNot_def r networkToMachineOrder_def MachineByteOrder_def NetworkByteOrder_def l ParseFromArray_def)
qed

text \<open>
  Whatever a reply holds, reading a message from it returns or throws, as long as the four bytes of
  the length are there and the reply is at most 64 MB.
\<close>

lemma deserialize_total:
  assumes "ok m" "get_pos i + 4 \<le> length (in_buffer i)" "int (length (in_buffer i)) \<le> kDefaultTotalBytesLimit"
  shows "(\<exists>m' i'. deserializeProtobufOrNot T m i = Done (m', i') \<and> ok m' \<and> init (view m') \<and> get_pos i' \<le> length (in_buffer i)) \<or>
    (\<exists>e. deserializeProtobufOrNot T m i = Raised e)"
proof -
  obtain b i1 where r: "is_read 4 i = (b, i1)" by (cases "is_read 4 i")
  then have b: "length b = 4" "in_buffer i1 = in_buffer i" "get_pos i1 = get_pos i + 4"
    using assms(2) by (auto simp: is_read_def Let_def)
  let ?len = "unat (ReadLittleEndian32FromArray (networkToMachineOrder b))"
  have "(\<exists>s i2. extractSlice ?len i1 = Done (s, i2) \<and> length s \<le> length (in_buffer i) \<and> get_pos i2 \<le> length (in_buffer i)) \<or>
      (\<exists>e. extractSlice ?len i1 = Raised e)"
    using b assms(2) by (auto simp: extractSlice_def in_seekoff_cur_def Let_def)
  then show ?thesis
  proof (elim disjE exE conjE)
    fix s i2
    assume s: "extractSlice ?len i1 = Done (s, i2)" "length s \<le> length (in_buffer i)" "get_pos i2 \<le> length (in_buffer i)"
    have "int (length s) \<le> kDefaultTotalBytesLimit" using s(2) assms(3) by simp
    from InlineParseFromArray_total [OF assms(1) this] s show ?thesis
      by (auto simp: deserializeProtobufOrNot_def r b(1) ParseFromArray_def)
  next
    fix e
    assume "extractSlice ?len i1 = Raised e"
    then show ?thesis by (simp add: deserializeProtobufOrNot_def r b(1))
  qed
qed

end

end
