(* ===== verification/Parse_Operations.thy ===== *)
theory Parse_Operations
  imports Message_Format Pb_Operations
begin

text \<open>
  \<^verbatim>\<open>MergePartialFromCodedStream\<close> of the messages that carry drawing operations, in
  \<^verbatim>\<open>message.pb.cc\<close>: for each message the parse of each field, the table of its fields, and the
  proof that the parser reads back the abstract encoding and is safe on any bytes.
\<close>

section \<open>Parsing \<^verbatim>\<open>Operation_OperationData_Point\<close>\<close>

definition Point_parse_x :: "Point \<Rightarrow> cis \<Rightarrow> Point got" where
  "Point_parse_x m c =
     got_bind (ReadPrimitive_INT32 c) (\<lambda>v c. Got (Point_set_has_x (m\<lparr>Point_x_fld := v\<rparr>)) c)"

definition Point_parse_y :: "Point \<Rightarrow> cis \<Rightarrow> Point got" where
  "Point_parse_y m c =
     got_bind (ReadPrimitive_INT32 c) (\<lambda>v c. Got (Point_set_has_y (m\<lparr>Point_y_fld := v\<rparr>)) c)"

definition Point_rows :: "Point row list" where
  "Point_rows =
    [\<lparr>row_number = 1, row_wiretype = WIRETYPE_VARINT, row_parse = Point_parse_x, row_expects = [(16, 2)], row_at_end = False\<rparr>,
     \<lparr>row_number = 2, row_wiretype = WIRETYPE_VARINT, row_parse = Point_parse_y, row_expects = [], row_at_end = True\<rparr>]"

definition Point_MergePartialFromCodedStream :: "Point \<Rightarrow> cis \<Rightarrow> Point got" where
  "Point_MergePartialFromCodedStream m c =
     MergePartial Point_rows (skip_into Point_unknown (\<lambda>u m. m\<lparr>Point_unknown := u\<rparr>)) m c"

lemma Point_row_for [simp]:
  "row_for Point_rows 1 = Some \<lparr>row_number = 1, row_wiretype = WIRETYPE_VARINT, row_parse = Point_parse_x, row_expects = [(16, 2)], row_at_end = False\<rparr>"
  "row_for Point_rows 2 = Some \<lparr>row_number = 2, row_wiretype = WIRETYPE_VARINT, row_parse = Point_parse_y, row_expects = [], row_at_end = True\<rparr>"
  by (simp_all add: row_for_def Point_rows_def)

lemma Point_rows_closed: "rows_closed Point_rows"
  by (simp add: rows_closed_def Point_rows_def row_for_def tag_parts wiretypes)

lemma Point_unknown_simps [simp]:
  "Point_ok (m\<lparr>Point_unknown := u\<rparr>) = Point_ok m" "Point_abs (m\<lparr>Point_unknown := u\<rparr>) = (Point_abs m)\<lparr>APoint_unknown := u\<rparr>"
  by (simp_all add: Point_ok_def Point_abs_def Point_presence Point_accessors)

lemma Point_parse_x_steps:
  assumes "Point_ok m"
  shows "Point_ok (Point_set_has_x (m\<lparr>Point_x_fld := v\<rparr>))" "Point_abs (Point_set_has_x (m\<lparr>Point_x_fld := v\<rparr>)) = APoint_x_update (or_else (Some v)) (Point_abs m)"
proof -
  have e: "Point_set_has_x (m\<lparr>Point_x_fld := v\<rparr>) = Point_set_x v m"
    by (simp add: Point_presence Point_accessors Let_def)
  show "Point_ok (Point_set_has_x (m\<lparr>Point_x_fld := v\<rparr>))" "Point_abs (Point_set_has_x (m\<lparr>Point_x_fld := v\<rparr>)) = APoint_x_update (or_else (Some v)) (Point_abs m)"
    unfolding e using assms by simp_all
qed

lemma Point_parse_x_safe: "Point_ok m \<Longrightarrow> cis_ok c \<Longrightarrow> safe Point_ok 1 c (Point_parse_x m c)"
  unfolding Point_parse_x_def by (rule safe_value) (simp_all add: primitive_sound Point_parse_x_steps del: One_nat_def)

lemma Point_parse_x_yields:
  "yields d Point_ok Point_abs Point_parse_x (enc_int32 v) (APoint_x_update (or_else (Some v)))"
  unfolding Point_parse_x_def by (rule yields_value [OF reads_primitive(1)]) (simp_all add: Point_parse_x_steps)

lemma Point_parse_y_steps:
  assumes "Point_ok m"
  shows "Point_ok (Point_set_has_y (m\<lparr>Point_y_fld := v\<rparr>))" "Point_abs (Point_set_has_y (m\<lparr>Point_y_fld := v\<rparr>)) = APoint_y_update (or_else (Some v)) (Point_abs m)"
proof -
  have e: "Point_set_has_y (m\<lparr>Point_y_fld := v\<rparr>) = Point_set_y v m"
    by (simp add: Point_presence Point_accessors Let_def)
  show "Point_ok (Point_set_has_y (m\<lparr>Point_y_fld := v\<rparr>))" "Point_abs (Point_set_has_y (m\<lparr>Point_y_fld := v\<rparr>)) = APoint_y_update (or_else (Some v)) (Point_abs m)"
    unfolding e using assms by simp_all
qed

lemma Point_parse_y_safe: "Point_ok m \<Longrightarrow> cis_ok c \<Longrightarrow> safe Point_ok 1 c (Point_parse_y m c)"
  unfolding Point_parse_y_def by (rule safe_value) (simp_all add: primitive_sound Point_parse_y_steps del: One_nat_def)

lemma Point_parse_y_yields:
  "yields d Point_ok Point_abs Point_parse_y (enc_int32 v) (APoint_y_update (or_else (Some v)))"
  unfolding Point_parse_y_def by (rule yields_value [OF reads_primitive(1)]) (simp_all add: Point_parse_y_steps)

definition APoint_wire :: "nat \<Rightarrow> APoint \<Rightarrow> bool" where
  "APoint_wire d a \<longleftrightarrow>
     (\<forall>f \<in> set (APoint_unknown a). fits_unknown Point_rows d f)"

definition APoint_chunks :: "APoint \<Rightarrow> APoint chunk list" where
  "APoint_chunks a =
     opt_chunk 1 WIRETYPE_VARINT enc_int32 (\<lambda>v. APoint_x_update (or_else v)) (APoint_x a) @
     opt_chunk 2 WIRETYPE_VARINT enc_int32 (\<lambda>v. APoint_y_update (or_else v)) (APoint_y a)"

lemma APoint_chunks_bytes:
  "chunks_bytes (APoint_chunks a) @ SerializeUnknownFieldsToArray (APoint_unknown a) [] = APoint_encode a"
  by (simp add: APoint_chunks_def APoint_encode_def opt_chunk_bytes rep_chunks_bytes)

lemma APoint_add_unknown: "fold (\<lambda>f. APoint_unknown_update (\<lambda>u. u @ [f])) fs b = APoint_unknown_update (\<lambda>u. u @ fs) b"
  by (induction fs arbitrary: b) simp_all

lemma APoint_effects: "(fold (\<lambda>f. APoint_unknown_update (\<lambda>u. u @ [f])) (APoint_unknown a) \<circ> effects (APoint_chunks a)) b = APoint_merge a b"
proof -
  have "(fold (\<lambda>f. APoint_unknown_update (\<lambda>u. u @ [f])) (APoint_unknown a) \<circ> effects (APoint_chunks a)) b =
      APoint_unknown_update (\<lambda>u. u @ APoint_unknown a)
        (APoint_y_update (or_else (APoint_y a))
        (APoint_x_update (or_else (APoint_x a)) b))"
    by (simp add: APoint_chunks_def opt_chunk_effect rep_chunks_effect APoint_add_unknown)
  then show ?thesis
    by (cases b) (simp add: APoint_merge_def)
qed

lemma APoint_chunks_fit: "APoint_wire d a \<Longrightarrow> \<forall>ch \<in> set (APoint_chunks a). fits_row Point_rows Point_ok Point_abs d ch"
  unfolding APoint_chunks_def set_append ball_Un
proof (intro conjI)
  assume wr: "APoint_wire d a"
  show "\<forall>ch \<in> set (opt_chunk 1 WIRETYPE_VARINT enc_int32 (\<lambda>v. APoint_x_update (or_else v)) (APoint_x a)). fits_row Point_rows Point_ok Point_abs d ch"
    by (rule fits_opt_chunk [OF _ _ _ Point_row_for(1)])
      (use wr in \<open>simp_all add: APoint_wire_def Point_parse_x_yields\<close>)
  show "\<forall>ch \<in> set (opt_chunk 2 WIRETYPE_VARINT enc_int32 (\<lambda>v. APoint_y_update (or_else v)) (APoint_y a)). fits_row Point_rows Point_ok Point_abs d ch"
    by (rule fits_opt_chunk [OF _ _ _ Point_row_for(2)])
      (use wr in \<open>simp_all add: APoint_wire_def Point_parse_y_yields\<close>)
qed

interpretation point_format: message_format Point_rows Point_unknown "(\<lambda>u m. m\<lparr>Point_unknown := u\<rparr>)" Point_ok Point_abs "(\<lambda>f. APoint_unknown_update (\<lambda>u. u @ [f]))"
proof
  show "rows_closed Point_rows" by (rule Point_rows_closed)
  fix r m c
  assume "r \<in> set Point_rows" "Point_ok m" "cis_ok c"
  then show "safe Point_ok 1 c (row_parse r m c)"
    by (auto simp: Point_rows_def Point_parse_x_safe Point_parse_y_safe simp del: One_nat_def)
qed (simp_all add: Point_unknown_abs)

lemma Point_MergePartial_safe: "Point_ok m \<Longrightarrow> cis_ok c \<Longrightarrow> safe Point_ok 0 c (Point_MergePartialFromCodedStream m c)"
  unfolding Point_MergePartialFromCodedStream_def by (rule point_format.MergePartial_safe)

lemma Point_MergePartial_parses:
  assumes "APoint_wire d a"
  shows "parses d Point_ok Point_abs Point_MergePartialFromCodedStream (APoint_encode a) (APoint_merge a)"
proof -
  have u: "\<forall>f \<in> set (APoint_unknown a). fits_unknown Point_rows d f" using assms by (simp add: APoint_wire_def)
  have e: "fold (\<lambda>f. APoint_unknown_update (\<lambda>u. u @ [f])) (APoint_unknown a) \<circ> effects (APoint_chunks a) = APoint_merge a"
    by (rule ext) (rule APoint_effects)
  from point_format.MergePartial_parses [OF APoint_chunks_fit [OF assms] u] show ?thesis
    unfolding e APoint_chunks_bytes by (simp add: Point_MergePartialFromCodedStream_def [abs_def])
qed

section \<open>Parsing \<^verbatim>\<open>Operation_OperationData\<close>\<close>

definition OperationDataType_IsValid :: "int32 \<Rightarrow> bool" where
  "OperationDataType_IsValid value \<longleftrightarrow> value \<in> {0, 1, 2, 3, 4}"

definition OperationData_parse_data_type :: "OperationData \<Rightarrow> cis \<Rightarrow> OperationData got" where
  "OperationData_parse_data_type m c =
     got_bind (ReadPrimitive_ENUM c) (\<lambda>value c.
       Got (if OperationDataType_IsValid value then OperationData_set_data_type value m
            else m\<lparr>OperationData_unknown := AddVarint 1 (scast value) (OperationData_unknown m)\<rparr>) c)"

definition OperationData_parse_thinkness :: "OperationData \<Rightarrow> cis \<Rightarrow> OperationData got" where
  "OperationData_parse_thinkness m c =
     got_bind (ReadPrimitive_INT32 c) (\<lambda>v c. Got (OperationData_set_has_thinkness (m\<lparr>OperationData_thinkness_fld := v\<rparr>)) c)"

definition OperationData_parse_color :: "OperationData \<Rightarrow> cis \<Rightarrow> OperationData got" where
  "OperationData_parse_color m c =
     got_bind (ReadPrimitive_INT32 c) (\<lambda>v c. Got (OperationData_set_has_color (m\<lparr>OperationData_color_fld := v\<rparr>)) c)"

definition OperationData_parse_start_point :: "OperationData \<Rightarrow> cis \<Rightarrow> OperationData got" where
  "OperationData_parse_start_point m c =
     got_bind (ReadMessageNoVirtual Point_MergePartialFromCodedStream (OperationData_start_point (OperationData_mutable_start_point (\<lambda>t. t) m)) c)
       (\<lambda>t c. Got (OperationData_mutable_start_point (\<lambda>_. t) (OperationData_mutable_start_point (\<lambda>t. t) m)) c)"

definition OperationData_parse_end_point :: "OperationData \<Rightarrow> cis \<Rightarrow> OperationData got" where
  "OperationData_parse_end_point m c =
     got_bind (ReadMessageNoVirtual Point_MergePartialFromCodedStream (OperationData_end_point (OperationData_mutable_end_point (\<lambda>t. t) m)) c)
       (\<lambda>t c. Got (OperationData_mutable_end_point (\<lambda>_. t) (OperationData_mutable_end_point (\<lambda>t. t) m)) c)"

definition OperationData_parse_center :: "OperationData \<Rightarrow> cis \<Rightarrow> OperationData got" where
  "OperationData_parse_center m c =
     got_bind (ReadMessageNoVirtual Point_MergePartialFromCodedStream (OperationData_center (OperationData_mutable_center (\<lambda>t. t) m)) c)
       (\<lambda>t c. Got (OperationData_mutable_center (\<lambda>_. t) (OperationData_mutable_center (\<lambda>t. t) m)) c)"

definition OperationData_parse_angle :: "OperationData \<Rightarrow> cis \<Rightarrow> OperationData got" where
  "OperationData_parse_angle m c =
     got_bind (ReadPrimitive_FLOAT c) (\<lambda>v c. Got (OperationData_set_has_angle (m\<lparr>OperationData_angle_fld := v\<rparr>)) c)"

definition OperationData_parse_a :: "OperationData \<Rightarrow> cis \<Rightarrow> OperationData got" where
  "OperationData_parse_a m c =
     got_bind (ReadPrimitive_FLOAT c) (\<lambda>v c. Got (OperationData_set_has_a (m\<lparr>OperationData_a_fld := v\<rparr>)) c)"

definition OperationData_parse_b :: "OperationData \<Rightarrow> cis \<Rightarrow> OperationData got" where
  "OperationData_parse_b m c =
     got_bind (ReadPrimitive_FLOAT c) (\<lambda>v c. Got (OperationData_set_has_b (m\<lparr>OperationData_b_fld := v\<rparr>)) c)"

definition OperationData_parse_top_left_corner :: "OperationData \<Rightarrow> cis \<Rightarrow> OperationData got" where
  "OperationData_parse_top_left_corner m c =
     got_bind (ReadMessageNoVirtual Point_MergePartialFromCodedStream (OperationData_top_left_corner (OperationData_mutable_top_left_corner (\<lambda>t. t) m)) c)
       (\<lambda>t c. Got (OperationData_mutable_top_left_corner (\<lambda>_. t) (OperationData_mutable_top_left_corner (\<lambda>t. t) m)) c)"

definition OperationData_parse_bottom_right_corner :: "OperationData \<Rightarrow> cis \<Rightarrow> OperationData got" where
  "OperationData_parse_bottom_right_corner m c =
     got_bind (ReadMessageNoVirtual Point_MergePartialFromCodedStream (OperationData_bottom_right_corner (OperationData_mutable_bottom_right_corner (\<lambda>t. t) m)) c)
       (\<lambda>t c. Got (OperationData_mutable_bottom_right_corner (\<lambda>_. t) (OperationData_mutable_bottom_right_corner (\<lambda>t. t) m)) c)"

definition OperationData_parse_position :: "OperationData \<Rightarrow> cis \<Rightarrow> OperationData got" where
  "OperationData_parse_position m c =
     got_bind (ReadMessageNoVirtual Point_MergePartialFromCodedStream (OperationData_position (OperationData_mutable_position (\<lambda>t. t) m)) c)
       (\<lambda>t c. Got (OperationData_mutable_position (\<lambda>_. t) (OperationData_mutable_position (\<lambda>t. t) m)) c)"

definition OperationData_parse_fill :: "OperationData \<Rightarrow> cis \<Rightarrow> OperationData got" where
  "OperationData_parse_fill m c =
     got_bind (ReadPrimitive_BOOL c) (\<lambda>v c. Got (OperationData_set_has_fill (m\<lparr>OperationData_fill_fld := v\<rparr>)) c)"

definition OperationData_parse_alpha :: "OperationData \<Rightarrow> cis \<Rightarrow> OperationData got" where
  "OperationData_parse_alpha m c =
     got_bind (ReadPrimitive_FLOAT c) (\<lambda>v c. Got (OperationData_set_has_alpha (m\<lparr>OperationData_alpha_fld := v\<rparr>)) c)"

definition OperationData_parse_is_start :: "OperationData \<Rightarrow> cis \<Rightarrow> OperationData got" where
  "OperationData_parse_is_start m c =
     got_bind (ReadPrimitive_BOOL c) (\<lambda>v c. Got (OperationData_set_has_is_start (m\<lparr>OperationData_is_start_fld := v\<rparr>)) c)"

definition OperationData_rows :: "OperationData row list" where
  "OperationData_rows =
    [\<lparr>row_number = 1, row_wiretype = WIRETYPE_VARINT, row_parse = OperationData_parse_data_type, row_expects = [(16, 2)], row_at_end = False\<rparr>,
     \<lparr>row_number = 2, row_wiretype = WIRETYPE_VARINT, row_parse = OperationData_parse_thinkness, row_expects = [(24, 3)], row_at_end = False\<rparr>,
     \<lparr>row_number = 3, row_wiretype = WIRETYPE_VARINT, row_parse = OperationData_parse_color, row_expects = [(34, 4)], row_at_end = False\<rparr>,
     \<lparr>row_number = 4, row_wiretype = WIRETYPE_LENGTH_DELIMITED, row_parse = OperationData_parse_start_point, row_expects = [(42, 5)], row_at_end = False\<rparr>,
     \<lparr>row_number = 5, row_wiretype = WIRETYPE_LENGTH_DELIMITED, row_parse = OperationData_parse_end_point, row_expects = [(50, 6)], row_at_end = False\<rparr>,
     \<lparr>row_number = 6, row_wiretype = WIRETYPE_LENGTH_DELIMITED, row_parse = OperationData_parse_center, row_expects = [(61, 7)], row_at_end = False\<rparr>,
     \<lparr>row_number = 7, row_wiretype = WIRETYPE_FIXED32, row_parse = OperationData_parse_angle, row_expects = [(69, 8)], row_at_end = False\<rparr>,
     \<lparr>row_number = 8, row_wiretype = WIRETYPE_FIXED32, row_parse = OperationData_parse_a, row_expects = [(77, 9)], row_at_end = False\<rparr>,
     \<lparr>row_number = 9, row_wiretype = WIRETYPE_FIXED32, row_parse = OperationData_parse_b, row_expects = [(82, 10)], row_at_end = False\<rparr>,
     \<lparr>row_number = 10, row_wiretype = WIRETYPE_LENGTH_DELIMITED, row_parse = OperationData_parse_top_left_corner, row_expects = [(90, 11)], row_at_end = False\<rparr>,
     \<lparr>row_number = 11, row_wiretype = WIRETYPE_LENGTH_DELIMITED, row_parse = OperationData_parse_bottom_right_corner, row_expects = [(98, 12)], row_at_end = False\<rparr>,
     \<lparr>row_number = 12, row_wiretype = WIRETYPE_LENGTH_DELIMITED, row_parse = OperationData_parse_position, row_expects = [(104, 13)], row_at_end = False\<rparr>,
     \<lparr>row_number = 13, row_wiretype = WIRETYPE_VARINT, row_parse = OperationData_parse_fill, row_expects = [(117, 14)], row_at_end = False\<rparr>,
     \<lparr>row_number = 14, row_wiretype = WIRETYPE_FIXED32, row_parse = OperationData_parse_alpha, row_expects = [(120, 15)], row_at_end = False\<rparr>,
     \<lparr>row_number = 15, row_wiretype = WIRETYPE_VARINT, row_parse = OperationData_parse_is_start, row_expects = [], row_at_end = True\<rparr>]"

definition OperationData_MergePartialFromCodedStream :: "OperationData \<Rightarrow> cis \<Rightarrow> OperationData got" where
  "OperationData_MergePartialFromCodedStream m c =
     MergePartial OperationData_rows (skip_into OperationData_unknown (\<lambda>u m. m\<lparr>OperationData_unknown := u\<rparr>)) m c"

lemma OperationData_row_for [simp]:
  "row_for OperationData_rows 1 = Some \<lparr>row_number = 1, row_wiretype = WIRETYPE_VARINT, row_parse = OperationData_parse_data_type, row_expects = [(16, 2)], row_at_end = False\<rparr>"
  "row_for OperationData_rows 2 = Some \<lparr>row_number = 2, row_wiretype = WIRETYPE_VARINT, row_parse = OperationData_parse_thinkness, row_expects = [(24, 3)], row_at_end = False\<rparr>"
  "row_for OperationData_rows 3 = Some \<lparr>row_number = 3, row_wiretype = WIRETYPE_VARINT, row_parse = OperationData_parse_color, row_expects = [(34, 4)], row_at_end = False\<rparr>"
  "row_for OperationData_rows 4 = Some \<lparr>row_number = 4, row_wiretype = WIRETYPE_LENGTH_DELIMITED, row_parse = OperationData_parse_start_point, row_expects = [(42, 5)], row_at_end = False\<rparr>"
  "row_for OperationData_rows 5 = Some \<lparr>row_number = 5, row_wiretype = WIRETYPE_LENGTH_DELIMITED, row_parse = OperationData_parse_end_point, row_expects = [(50, 6)], row_at_end = False\<rparr>"
  "row_for OperationData_rows 6 = Some \<lparr>row_number = 6, row_wiretype = WIRETYPE_LENGTH_DELIMITED, row_parse = OperationData_parse_center, row_expects = [(61, 7)], row_at_end = False\<rparr>"
  "row_for OperationData_rows 7 = Some \<lparr>row_number = 7, row_wiretype = WIRETYPE_FIXED32, row_parse = OperationData_parse_angle, row_expects = [(69, 8)], row_at_end = False\<rparr>"
  "row_for OperationData_rows 8 = Some \<lparr>row_number = 8, row_wiretype = WIRETYPE_FIXED32, row_parse = OperationData_parse_a, row_expects = [(77, 9)], row_at_end = False\<rparr>"
  "row_for OperationData_rows 9 = Some \<lparr>row_number = 9, row_wiretype = WIRETYPE_FIXED32, row_parse = OperationData_parse_b, row_expects = [(82, 10)], row_at_end = False\<rparr>"
  "row_for OperationData_rows 10 = Some \<lparr>row_number = 10, row_wiretype = WIRETYPE_LENGTH_DELIMITED, row_parse = OperationData_parse_top_left_corner, row_expects = [(90, 11)], row_at_end = False\<rparr>"
  "row_for OperationData_rows 11 = Some \<lparr>row_number = 11, row_wiretype = WIRETYPE_LENGTH_DELIMITED, row_parse = OperationData_parse_bottom_right_corner, row_expects = [(98, 12)], row_at_end = False\<rparr>"
  "row_for OperationData_rows 12 = Some \<lparr>row_number = 12, row_wiretype = WIRETYPE_LENGTH_DELIMITED, row_parse = OperationData_parse_position, row_expects = [(104, 13)], row_at_end = False\<rparr>"
  "row_for OperationData_rows 13 = Some \<lparr>row_number = 13, row_wiretype = WIRETYPE_VARINT, row_parse = OperationData_parse_fill, row_expects = [(117, 14)], row_at_end = False\<rparr>"
  "row_for OperationData_rows 14 = Some \<lparr>row_number = 14, row_wiretype = WIRETYPE_FIXED32, row_parse = OperationData_parse_alpha, row_expects = [(120, 15)], row_at_end = False\<rparr>"
  "row_for OperationData_rows 15 = Some \<lparr>row_number = 15, row_wiretype = WIRETYPE_VARINT, row_parse = OperationData_parse_is_start, row_expects = [], row_at_end = True\<rparr>"
  by (simp_all add: row_for_def OperationData_rows_def)

lemma OperationData_rows_closed: "rows_closed OperationData_rows"
  by (simp add: rows_closed_def OperationData_rows_def row_for_def tag_parts wiretypes)

lemma OperationData_unknown_simps [simp]:
  "OperationData_ok (m\<lparr>OperationData_unknown := u\<rparr>) = OperationData_ok m" "OperationData_abs (m\<lparr>OperationData_unknown := u\<rparr>) = (OperationData_abs m)\<lparr>AOperationData_unknown := u\<rparr>"
  by (simp_all add: OperationData_ok_def OperationData_abs_def OperationData_presence OperationData_accessors)

lemma OperationData_parse_data_type_safe: "OperationData_ok m \<Longrightarrow> cis_ok c \<Longrightarrow> safe OperationData_ok 1 c (OperationData_parse_data_type m c)"
  unfolding OperationData_parse_data_type_def by (rule safe_value) (simp_all add: primitive_sound del: One_nat_def)

lemma OperationData_parse_data_type_yields:
  "OperationDataType_IsValid v \<Longrightarrow> yields d OperationData_ok OperationData_abs OperationData_parse_data_type (enc_int32 v) (AOperationData_data_type_update (or_else (Some v)))"
  unfolding OperationData_parse_data_type_def by (rule yields_value [OF reads_primitive(2)]) simp_all

lemma OperationData_parse_thinkness_steps:
  assumes "OperationData_ok m"
  shows "OperationData_ok (OperationData_set_has_thinkness (m\<lparr>OperationData_thinkness_fld := v\<rparr>))" "OperationData_abs (OperationData_set_has_thinkness (m\<lparr>OperationData_thinkness_fld := v\<rparr>)) = AOperationData_thinkness_update (or_else (Some v)) (OperationData_abs m)"
proof -
  have e: "OperationData_set_has_thinkness (m\<lparr>OperationData_thinkness_fld := v\<rparr>) = OperationData_set_thinkness v m"
    by (simp add: OperationData_presence OperationData_accessors Let_def)
  show "OperationData_ok (OperationData_set_has_thinkness (m\<lparr>OperationData_thinkness_fld := v\<rparr>))" "OperationData_abs (OperationData_set_has_thinkness (m\<lparr>OperationData_thinkness_fld := v\<rparr>)) = AOperationData_thinkness_update (or_else (Some v)) (OperationData_abs m)"
    unfolding e using assms by simp_all
qed

lemma OperationData_parse_thinkness_safe: "OperationData_ok m \<Longrightarrow> cis_ok c \<Longrightarrow> safe OperationData_ok 1 c (OperationData_parse_thinkness m c)"
  unfolding OperationData_parse_thinkness_def by (rule safe_value) (simp_all add: primitive_sound OperationData_parse_thinkness_steps del: One_nat_def)

lemma OperationData_parse_thinkness_yields:
  "yields d OperationData_ok OperationData_abs OperationData_parse_thinkness (enc_int32 v) (AOperationData_thinkness_update (or_else (Some v)))"
  unfolding OperationData_parse_thinkness_def by (rule yields_value [OF reads_primitive(1)]) (simp_all add: OperationData_parse_thinkness_steps)

lemma OperationData_parse_color_steps:
  assumes "OperationData_ok m"
  shows "OperationData_ok (OperationData_set_has_color (m\<lparr>OperationData_color_fld := v\<rparr>))" "OperationData_abs (OperationData_set_has_color (m\<lparr>OperationData_color_fld := v\<rparr>)) = AOperationData_color_update (or_else (Some v)) (OperationData_abs m)"
proof -
  have e: "OperationData_set_has_color (m\<lparr>OperationData_color_fld := v\<rparr>) = OperationData_set_color v m"
    by (simp add: OperationData_presence OperationData_accessors Let_def)
  show "OperationData_ok (OperationData_set_has_color (m\<lparr>OperationData_color_fld := v\<rparr>))" "OperationData_abs (OperationData_set_has_color (m\<lparr>OperationData_color_fld := v\<rparr>)) = AOperationData_color_update (or_else (Some v)) (OperationData_abs m)"
    unfolding e using assms by simp_all
qed

lemma OperationData_parse_color_safe: "OperationData_ok m \<Longrightarrow> cis_ok c \<Longrightarrow> safe OperationData_ok 1 c (OperationData_parse_color m c)"
  unfolding OperationData_parse_color_def by (rule safe_value) (simp_all add: primitive_sound OperationData_parse_color_steps del: One_nat_def)

lemma OperationData_parse_color_yields:
  "yields d OperationData_ok OperationData_abs OperationData_parse_color (enc_int32 v) (AOperationData_color_update (or_else (Some v)))"
  unfolding OperationData_parse_color_def by (rule yields_value [OF reads_primitive(1)]) (simp_all add: OperationData_parse_color_steps)

lemma OperationData_parse_start_point_steps:
  assumes "OperationData_ok m"
  shows "Point_ok (OperationData_start_point (OperationData_mutable_start_point (\<lambda>t. t) m))"
    "Point_abs (OperationData_start_point (OperationData_mutable_start_point (\<lambda>t. t) m)) = value_or APoint_empty (AOperationData_start_point (OperationData_abs m))"
    "Point_ok t \<Longrightarrow> OperationData_ok (OperationData_mutable_start_point (\<lambda>_. t) (OperationData_mutable_start_point (\<lambda>t. t) m))"
    "Point_ok t \<Longrightarrow> OperationData_abs (OperationData_mutable_start_point (\<lambda>_. t) (OperationData_mutable_start_point (\<lambda>t. t) m)) = AOperationData_start_point_update (\<lambda>_. Some (Point_abs t)) (OperationData_abs m)"
proof -
  have a: "OperationData_ok (OperationData_mutable_start_point (\<lambda>t. t) m) \<and> OperationData_abs (OperationData_mutable_start_point (\<lambda>t. t) m) =
      (OperationData_abs m)\<lparr>AOperationData_start_point := Some (value_or APoint_empty (AOperationData_start_point (OperationData_abs m)))\<rparr>"
    by (rule OperationData_abs_mutable_start_point [OF assms]) simp
  then have a1: "OperationData_ok (OperationData_mutable_start_point (\<lambda>t. t) m)" by blast
  show "Point_ok (OperationData_start_point (OperationData_mutable_start_point (\<lambda>t. t) m))"
    "Point_abs (OperationData_start_point (OperationData_mutable_start_point (\<lambda>t. t) m)) = value_or APoint_empty (AOperationData_start_point (OperationData_abs m))"
    using OperationData_children_ok [OF a1] OperationData_getters [OF a1] a by simp_all
  have b: "OperationData_ok (OperationData_mutable_start_point (\<lambda>_. t) (OperationData_mutable_start_point (\<lambda>t. t) m)) \<and>
      OperationData_abs (OperationData_mutable_start_point (\<lambda>_. t) (OperationData_mutable_start_point (\<lambda>t. t) m)) =
      (OperationData_abs (OperationData_mutable_start_point (\<lambda>t. t) m))\<lparr>AOperationData_start_point := Some (Point_abs t)\<rparr>" if "Point_ok t"
    by (rule OperationData_abs_mutable_start_point [OF a1]) (simp add: that)
  show "Point_ok t \<Longrightarrow> OperationData_ok (OperationData_mutable_start_point (\<lambda>_. t) (OperationData_mutable_start_point (\<lambda>t. t) m))"
    "Point_ok t \<Longrightarrow> OperationData_abs (OperationData_mutable_start_point (\<lambda>_. t) (OperationData_mutable_start_point (\<lambda>t. t) m)) = AOperationData_start_point_update (\<lambda>_. Some (Point_abs t)) (OperationData_abs m)"
    using a b by simp_all
qed

lemma OperationData_parse_start_point_safe: "OperationData_ok m \<Longrightarrow> cis_ok c \<Longrightarrow> safe OperationData_ok 1 c (OperationData_parse_start_point m c)"
  unfolding OperationData_parse_start_point_def
  by (rule safe_field [where ok' = Point_ok], rule ReadMessageNoVirtual_safe)
    (simp_all add: OperationData_parse_start_point_steps Point_MergePartial_safe)

lemma OperationData_parse_start_point_yields:
  assumes "APoint_wire d x" "length (APoint_encode x) < 2 ^ 31"
  shows "yields (Suc d) OperationData_ok OperationData_abs OperationData_parse_start_point (enc_bytes (APoint_encode x)) (AOperationData_start_point_update (merged APoint_merge APoint_empty (Some x)))"
  unfolding OperationData_parse_start_point_def
proof (rule yields_field [OF yields_message_field [OF Point_MergePartial_parses [OF assms(1)] assms(2)],
    where get = "\<lambda>m. OperationData_start_point (OperationData_mutable_start_point (\<lambda>t. t) m)"
      and put = "\<lambda>t m. OperationData_mutable_start_point (\<lambda>_. t) (OperationData_mutable_start_point (\<lambda>t. t) m)"])
  fix m t
  assume m: "OperationData_ok m" "Point_ok t" "Point_abs t = APoint_merge x (Point_abs (OperationData_start_point (OperationData_mutable_start_point (\<lambda>t. t) m)))"
  then show "OperationData_abs (OperationData_mutable_start_point (\<lambda>_. t) (OperationData_mutable_start_point (\<lambda>t. t) m)) = AOperationData_start_point_update (merged APoint_merge APoint_empty (Some x)) (OperationData_abs m)"
    by (cases "OperationData_abs m") (simp add: OperationData_parse_start_point_steps)
qed (simp_all add: OperationData_parse_start_point_steps)

lemma OperationData_parse_end_point_steps:
  assumes "OperationData_ok m"
  shows "Point_ok (OperationData_end_point (OperationData_mutable_end_point (\<lambda>t. t) m))"
    "Point_abs (OperationData_end_point (OperationData_mutable_end_point (\<lambda>t. t) m)) = value_or APoint_empty (AOperationData_end_point (OperationData_abs m))"
    "Point_ok t \<Longrightarrow> OperationData_ok (OperationData_mutable_end_point (\<lambda>_. t) (OperationData_mutable_end_point (\<lambda>t. t) m))"
    "Point_ok t \<Longrightarrow> OperationData_abs (OperationData_mutable_end_point (\<lambda>_. t) (OperationData_mutable_end_point (\<lambda>t. t) m)) = AOperationData_end_point_update (\<lambda>_. Some (Point_abs t)) (OperationData_abs m)"
proof -
  have a: "OperationData_ok (OperationData_mutable_end_point (\<lambda>t. t) m) \<and> OperationData_abs (OperationData_mutable_end_point (\<lambda>t. t) m) =
      (OperationData_abs m)\<lparr>AOperationData_end_point := Some (value_or APoint_empty (AOperationData_end_point (OperationData_abs m)))\<rparr>"
    by (rule OperationData_abs_mutable_end_point [OF assms]) simp
  then have a1: "OperationData_ok (OperationData_mutable_end_point (\<lambda>t. t) m)" by blast
  show "Point_ok (OperationData_end_point (OperationData_mutable_end_point (\<lambda>t. t) m))"
    "Point_abs (OperationData_end_point (OperationData_mutable_end_point (\<lambda>t. t) m)) = value_or APoint_empty (AOperationData_end_point (OperationData_abs m))"
    using OperationData_children_ok [OF a1] OperationData_getters [OF a1] a by simp_all
  have b: "OperationData_ok (OperationData_mutable_end_point (\<lambda>_. t) (OperationData_mutable_end_point (\<lambda>t. t) m)) \<and>
      OperationData_abs (OperationData_mutable_end_point (\<lambda>_. t) (OperationData_mutable_end_point (\<lambda>t. t) m)) =
      (OperationData_abs (OperationData_mutable_end_point (\<lambda>t. t) m))\<lparr>AOperationData_end_point := Some (Point_abs t)\<rparr>" if "Point_ok t"
    by (rule OperationData_abs_mutable_end_point [OF a1]) (simp add: that)
  show "Point_ok t \<Longrightarrow> OperationData_ok (OperationData_mutable_end_point (\<lambda>_. t) (OperationData_mutable_end_point (\<lambda>t. t) m))"
    "Point_ok t \<Longrightarrow> OperationData_abs (OperationData_mutable_end_point (\<lambda>_. t) (OperationData_mutable_end_point (\<lambda>t. t) m)) = AOperationData_end_point_update (\<lambda>_. Some (Point_abs t)) (OperationData_abs m)"
    using a b by simp_all
qed

lemma OperationData_parse_end_point_safe: "OperationData_ok m \<Longrightarrow> cis_ok c \<Longrightarrow> safe OperationData_ok 1 c (OperationData_parse_end_point m c)"
  unfolding OperationData_parse_end_point_def
  by (rule safe_field [where ok' = Point_ok], rule ReadMessageNoVirtual_safe)
    (simp_all add: OperationData_parse_end_point_steps Point_MergePartial_safe)

lemma OperationData_parse_end_point_yields:
  assumes "APoint_wire d x" "length (APoint_encode x) < 2 ^ 31"
  shows "yields (Suc d) OperationData_ok OperationData_abs OperationData_parse_end_point (enc_bytes (APoint_encode x)) (AOperationData_end_point_update (merged APoint_merge APoint_empty (Some x)))"
  unfolding OperationData_parse_end_point_def
proof (rule yields_field [OF yields_message_field [OF Point_MergePartial_parses [OF assms(1)] assms(2)],
    where get = "\<lambda>m. OperationData_end_point (OperationData_mutable_end_point (\<lambda>t. t) m)"
      and put = "\<lambda>t m. OperationData_mutable_end_point (\<lambda>_. t) (OperationData_mutable_end_point (\<lambda>t. t) m)"])
  fix m t
  assume m: "OperationData_ok m" "Point_ok t" "Point_abs t = APoint_merge x (Point_abs (OperationData_end_point (OperationData_mutable_end_point (\<lambda>t. t) m)))"
  then show "OperationData_abs (OperationData_mutable_end_point (\<lambda>_. t) (OperationData_mutable_end_point (\<lambda>t. t) m)) = AOperationData_end_point_update (merged APoint_merge APoint_empty (Some x)) (OperationData_abs m)"
    by (cases "OperationData_abs m") (simp add: OperationData_parse_end_point_steps)
qed (simp_all add: OperationData_parse_end_point_steps)

lemma OperationData_parse_center_steps:
  assumes "OperationData_ok m"
  shows "Point_ok (OperationData_center (OperationData_mutable_center (\<lambda>t. t) m))"
    "Point_abs (OperationData_center (OperationData_mutable_center (\<lambda>t. t) m)) = value_or APoint_empty (AOperationData_center (OperationData_abs m))"
    "Point_ok t \<Longrightarrow> OperationData_ok (OperationData_mutable_center (\<lambda>_. t) (OperationData_mutable_center (\<lambda>t. t) m))"
    "Point_ok t \<Longrightarrow> OperationData_abs (OperationData_mutable_center (\<lambda>_. t) (OperationData_mutable_center (\<lambda>t. t) m)) = AOperationData_center_update (\<lambda>_. Some (Point_abs t)) (OperationData_abs m)"
proof -
  have a: "OperationData_ok (OperationData_mutable_center (\<lambda>t. t) m) \<and> OperationData_abs (OperationData_mutable_center (\<lambda>t. t) m) =
      (OperationData_abs m)\<lparr>AOperationData_center := Some (value_or APoint_empty (AOperationData_center (OperationData_abs m)))\<rparr>"
    by (rule OperationData_abs_mutable_center [OF assms]) simp
  then have a1: "OperationData_ok (OperationData_mutable_center (\<lambda>t. t) m)" by blast
  show "Point_ok (OperationData_center (OperationData_mutable_center (\<lambda>t. t) m))"
    "Point_abs (OperationData_center (OperationData_mutable_center (\<lambda>t. t) m)) = value_or APoint_empty (AOperationData_center (OperationData_abs m))"
    using OperationData_children_ok [OF a1] OperationData_getters [OF a1] a by simp_all
  have b: "OperationData_ok (OperationData_mutable_center (\<lambda>_. t) (OperationData_mutable_center (\<lambda>t. t) m)) \<and>
      OperationData_abs (OperationData_mutable_center (\<lambda>_. t) (OperationData_mutable_center (\<lambda>t. t) m)) =
      (OperationData_abs (OperationData_mutable_center (\<lambda>t. t) m))\<lparr>AOperationData_center := Some (Point_abs t)\<rparr>" if "Point_ok t"
    by (rule OperationData_abs_mutable_center [OF a1]) (simp add: that)
  show "Point_ok t \<Longrightarrow> OperationData_ok (OperationData_mutable_center (\<lambda>_. t) (OperationData_mutable_center (\<lambda>t. t) m))"
    "Point_ok t \<Longrightarrow> OperationData_abs (OperationData_mutable_center (\<lambda>_. t) (OperationData_mutable_center (\<lambda>t. t) m)) = AOperationData_center_update (\<lambda>_. Some (Point_abs t)) (OperationData_abs m)"
    using a b by simp_all
qed

lemma OperationData_parse_center_safe: "OperationData_ok m \<Longrightarrow> cis_ok c \<Longrightarrow> safe OperationData_ok 1 c (OperationData_parse_center m c)"
  unfolding OperationData_parse_center_def
  by (rule safe_field [where ok' = Point_ok], rule ReadMessageNoVirtual_safe)
    (simp_all add: OperationData_parse_center_steps Point_MergePartial_safe)

lemma OperationData_parse_center_yields:
  assumes "APoint_wire d x" "length (APoint_encode x) < 2 ^ 31"
  shows "yields (Suc d) OperationData_ok OperationData_abs OperationData_parse_center (enc_bytes (APoint_encode x)) (AOperationData_center_update (merged APoint_merge APoint_empty (Some x)))"
  unfolding OperationData_parse_center_def
proof (rule yields_field [OF yields_message_field [OF Point_MergePartial_parses [OF assms(1)] assms(2)],
    where get = "\<lambda>m. OperationData_center (OperationData_mutable_center (\<lambda>t. t) m)"
      and put = "\<lambda>t m. OperationData_mutable_center (\<lambda>_. t) (OperationData_mutable_center (\<lambda>t. t) m)"])
  fix m t
  assume m: "OperationData_ok m" "Point_ok t" "Point_abs t = APoint_merge x (Point_abs (OperationData_center (OperationData_mutable_center (\<lambda>t. t) m)))"
  then show "OperationData_abs (OperationData_mutable_center (\<lambda>_. t) (OperationData_mutable_center (\<lambda>t. t) m)) = AOperationData_center_update (merged APoint_merge APoint_empty (Some x)) (OperationData_abs m)"
    by (cases "OperationData_abs m") (simp add: OperationData_parse_center_steps)
qed (simp_all add: OperationData_parse_center_steps)

lemma OperationData_parse_angle_steps:
  assumes "OperationData_ok m"
  shows "OperationData_ok (OperationData_set_has_angle (m\<lparr>OperationData_angle_fld := v\<rparr>))" "OperationData_abs (OperationData_set_has_angle (m\<lparr>OperationData_angle_fld := v\<rparr>)) = AOperationData_angle_update (or_else (Some v)) (OperationData_abs m)"
proof -
  have e: "OperationData_set_has_angle (m\<lparr>OperationData_angle_fld := v\<rparr>) = OperationData_set_angle v m"
    by (simp add: OperationData_presence OperationData_accessors Let_def)
  show "OperationData_ok (OperationData_set_has_angle (m\<lparr>OperationData_angle_fld := v\<rparr>))" "OperationData_abs (OperationData_set_has_angle (m\<lparr>OperationData_angle_fld := v\<rparr>)) = AOperationData_angle_update (or_else (Some v)) (OperationData_abs m)"
    unfolding e using assms by simp_all
qed

lemma OperationData_parse_angle_safe: "OperationData_ok m \<Longrightarrow> cis_ok c \<Longrightarrow> safe OperationData_ok 1 c (OperationData_parse_angle m c)"
  unfolding OperationData_parse_angle_def by (rule safe_value) (simp_all add: primitive_sound OperationData_parse_angle_steps del: One_nat_def)

lemma OperationData_parse_angle_yields:
  "yields d OperationData_ok OperationData_abs OperationData_parse_angle (enc_fixed32 v) (AOperationData_angle_update (or_else (Some v)))"
  unfolding OperationData_parse_angle_def by (rule yields_value [OF reads_primitive(4)]) (simp_all add: OperationData_parse_angle_steps)

lemma OperationData_parse_a_steps:
  assumes "OperationData_ok m"
  shows "OperationData_ok (OperationData_set_has_a (m\<lparr>OperationData_a_fld := v\<rparr>))" "OperationData_abs (OperationData_set_has_a (m\<lparr>OperationData_a_fld := v\<rparr>)) = AOperationData_a_update (or_else (Some v)) (OperationData_abs m)"
proof -
  have e: "OperationData_set_has_a (m\<lparr>OperationData_a_fld := v\<rparr>) = OperationData_set_a v m"
    by (simp add: OperationData_presence OperationData_accessors Let_def)
  show "OperationData_ok (OperationData_set_has_a (m\<lparr>OperationData_a_fld := v\<rparr>))" "OperationData_abs (OperationData_set_has_a (m\<lparr>OperationData_a_fld := v\<rparr>)) = AOperationData_a_update (or_else (Some v)) (OperationData_abs m)"
    unfolding e using assms by simp_all
qed

lemma OperationData_parse_a_safe: "OperationData_ok m \<Longrightarrow> cis_ok c \<Longrightarrow> safe OperationData_ok 1 c (OperationData_parse_a m c)"
  unfolding OperationData_parse_a_def by (rule safe_value) (simp_all add: primitive_sound OperationData_parse_a_steps del: One_nat_def)

lemma OperationData_parse_a_yields:
  "yields d OperationData_ok OperationData_abs OperationData_parse_a (enc_fixed32 v) (AOperationData_a_update (or_else (Some v)))"
  unfolding OperationData_parse_a_def by (rule yields_value [OF reads_primitive(4)]) (simp_all add: OperationData_parse_a_steps)

lemma OperationData_parse_b_steps:
  assumes "OperationData_ok m"
  shows "OperationData_ok (OperationData_set_has_b (m\<lparr>OperationData_b_fld := v\<rparr>))" "OperationData_abs (OperationData_set_has_b (m\<lparr>OperationData_b_fld := v\<rparr>)) = AOperationData_b_update (or_else (Some v)) (OperationData_abs m)"
proof -
  have e: "OperationData_set_has_b (m\<lparr>OperationData_b_fld := v\<rparr>) = OperationData_set_b v m"
    by (simp add: OperationData_presence OperationData_accessors Let_def)
  show "OperationData_ok (OperationData_set_has_b (m\<lparr>OperationData_b_fld := v\<rparr>))" "OperationData_abs (OperationData_set_has_b (m\<lparr>OperationData_b_fld := v\<rparr>)) = AOperationData_b_update (or_else (Some v)) (OperationData_abs m)"
    unfolding e using assms by simp_all
qed

lemma OperationData_parse_b_safe: "OperationData_ok m \<Longrightarrow> cis_ok c \<Longrightarrow> safe OperationData_ok 1 c (OperationData_parse_b m c)"
  unfolding OperationData_parse_b_def by (rule safe_value) (simp_all add: primitive_sound OperationData_parse_b_steps del: One_nat_def)

lemma OperationData_parse_b_yields:
  "yields d OperationData_ok OperationData_abs OperationData_parse_b (enc_fixed32 v) (AOperationData_b_update (or_else (Some v)))"
  unfolding OperationData_parse_b_def by (rule yields_value [OF reads_primitive(4)]) (simp_all add: OperationData_parse_b_steps)

lemma OperationData_parse_top_left_corner_steps:
  assumes "OperationData_ok m"
  shows "Point_ok (OperationData_top_left_corner (OperationData_mutable_top_left_corner (\<lambda>t. t) m))"
    "Point_abs (OperationData_top_left_corner (OperationData_mutable_top_left_corner (\<lambda>t. t) m)) = value_or APoint_empty (AOperationData_top_left_corner (OperationData_abs m))"
    "Point_ok t \<Longrightarrow> OperationData_ok (OperationData_mutable_top_left_corner (\<lambda>_. t) (OperationData_mutable_top_left_corner (\<lambda>t. t) m))"
    "Point_ok t \<Longrightarrow> OperationData_abs (OperationData_mutable_top_left_corner (\<lambda>_. t) (OperationData_mutable_top_left_corner (\<lambda>t. t) m)) = AOperationData_top_left_corner_update (\<lambda>_. Some (Point_abs t)) (OperationData_abs m)"
proof -
  have a: "OperationData_ok (OperationData_mutable_top_left_corner (\<lambda>t. t) m) \<and> OperationData_abs (OperationData_mutable_top_left_corner (\<lambda>t. t) m) =
      (OperationData_abs m)\<lparr>AOperationData_top_left_corner := Some (value_or APoint_empty (AOperationData_top_left_corner (OperationData_abs m)))\<rparr>"
    by (rule OperationData_abs_mutable_top_left_corner [OF assms]) simp
  then have a1: "OperationData_ok (OperationData_mutable_top_left_corner (\<lambda>t. t) m)" by blast
  show "Point_ok (OperationData_top_left_corner (OperationData_mutable_top_left_corner (\<lambda>t. t) m))"
    "Point_abs (OperationData_top_left_corner (OperationData_mutable_top_left_corner (\<lambda>t. t) m)) = value_or APoint_empty (AOperationData_top_left_corner (OperationData_abs m))"
    using OperationData_children_ok [OF a1] OperationData_getters [OF a1] a by simp_all
  have b: "OperationData_ok (OperationData_mutable_top_left_corner (\<lambda>_. t) (OperationData_mutable_top_left_corner (\<lambda>t. t) m)) \<and>
      OperationData_abs (OperationData_mutable_top_left_corner (\<lambda>_. t) (OperationData_mutable_top_left_corner (\<lambda>t. t) m)) =
      (OperationData_abs (OperationData_mutable_top_left_corner (\<lambda>t. t) m))\<lparr>AOperationData_top_left_corner := Some (Point_abs t)\<rparr>" if "Point_ok t"
    by (rule OperationData_abs_mutable_top_left_corner [OF a1]) (simp add: that)
  show "Point_ok t \<Longrightarrow> OperationData_ok (OperationData_mutable_top_left_corner (\<lambda>_. t) (OperationData_mutable_top_left_corner (\<lambda>t. t) m))"
    "Point_ok t \<Longrightarrow> OperationData_abs (OperationData_mutable_top_left_corner (\<lambda>_. t) (OperationData_mutable_top_left_corner (\<lambda>t. t) m)) = AOperationData_top_left_corner_update (\<lambda>_. Some (Point_abs t)) (OperationData_abs m)"
    using a b by simp_all
qed

lemma OperationData_parse_top_left_corner_safe: "OperationData_ok m \<Longrightarrow> cis_ok c \<Longrightarrow> safe OperationData_ok 1 c (OperationData_parse_top_left_corner m c)"
  unfolding OperationData_parse_top_left_corner_def
  by (rule safe_field [where ok' = Point_ok], rule ReadMessageNoVirtual_safe)
    (simp_all add: OperationData_parse_top_left_corner_steps Point_MergePartial_safe)

lemma OperationData_parse_top_left_corner_yields:
  assumes "APoint_wire d x" "length (APoint_encode x) < 2 ^ 31"
  shows "yields (Suc d) OperationData_ok OperationData_abs OperationData_parse_top_left_corner (enc_bytes (APoint_encode x)) (AOperationData_top_left_corner_update (merged APoint_merge APoint_empty (Some x)))"
  unfolding OperationData_parse_top_left_corner_def
proof (rule yields_field [OF yields_message_field [OF Point_MergePartial_parses [OF assms(1)] assms(2)],
    where get = "\<lambda>m. OperationData_top_left_corner (OperationData_mutable_top_left_corner (\<lambda>t. t) m)"
      and put = "\<lambda>t m. OperationData_mutable_top_left_corner (\<lambda>_. t) (OperationData_mutable_top_left_corner (\<lambda>t. t) m)"])
  fix m t
  assume m: "OperationData_ok m" "Point_ok t" "Point_abs t = APoint_merge x (Point_abs (OperationData_top_left_corner (OperationData_mutable_top_left_corner (\<lambda>t. t) m)))"
  then show "OperationData_abs (OperationData_mutable_top_left_corner (\<lambda>_. t) (OperationData_mutable_top_left_corner (\<lambda>t. t) m)) = AOperationData_top_left_corner_update (merged APoint_merge APoint_empty (Some x)) (OperationData_abs m)"
    by (cases "OperationData_abs m") (simp add: OperationData_parse_top_left_corner_steps)
qed (simp_all add: OperationData_parse_top_left_corner_steps)

lemma OperationData_parse_bottom_right_corner_steps:
  assumes "OperationData_ok m"
  shows "Point_ok (OperationData_bottom_right_corner (OperationData_mutable_bottom_right_corner (\<lambda>t. t) m))"
    "Point_abs (OperationData_bottom_right_corner (OperationData_mutable_bottom_right_corner (\<lambda>t. t) m)) = value_or APoint_empty (AOperationData_bottom_right_corner (OperationData_abs m))"
    "Point_ok t \<Longrightarrow> OperationData_ok (OperationData_mutable_bottom_right_corner (\<lambda>_. t) (OperationData_mutable_bottom_right_corner (\<lambda>t. t) m))"
    "Point_ok t \<Longrightarrow> OperationData_abs (OperationData_mutable_bottom_right_corner (\<lambda>_. t) (OperationData_mutable_bottom_right_corner (\<lambda>t. t) m)) = AOperationData_bottom_right_corner_update (\<lambda>_. Some (Point_abs t)) (OperationData_abs m)"
proof -
  have a: "OperationData_ok (OperationData_mutable_bottom_right_corner (\<lambda>t. t) m) \<and> OperationData_abs (OperationData_mutable_bottom_right_corner (\<lambda>t. t) m) =
      (OperationData_abs m)\<lparr>AOperationData_bottom_right_corner := Some (value_or APoint_empty (AOperationData_bottom_right_corner (OperationData_abs m)))\<rparr>"
    by (rule OperationData_abs_mutable_bottom_right_corner [OF assms]) simp
  then have a1: "OperationData_ok (OperationData_mutable_bottom_right_corner (\<lambda>t. t) m)" by blast
  show "Point_ok (OperationData_bottom_right_corner (OperationData_mutable_bottom_right_corner (\<lambda>t. t) m))"
    "Point_abs (OperationData_bottom_right_corner (OperationData_mutable_bottom_right_corner (\<lambda>t. t) m)) = value_or APoint_empty (AOperationData_bottom_right_corner (OperationData_abs m))"
    using OperationData_children_ok [OF a1] OperationData_getters [OF a1] a by simp_all
  have b: "OperationData_ok (OperationData_mutable_bottom_right_corner (\<lambda>_. t) (OperationData_mutable_bottom_right_corner (\<lambda>t. t) m)) \<and>
      OperationData_abs (OperationData_mutable_bottom_right_corner (\<lambda>_. t) (OperationData_mutable_bottom_right_corner (\<lambda>t. t) m)) =
      (OperationData_abs (OperationData_mutable_bottom_right_corner (\<lambda>t. t) m))\<lparr>AOperationData_bottom_right_corner := Some (Point_abs t)\<rparr>" if "Point_ok t"
    by (rule OperationData_abs_mutable_bottom_right_corner [OF a1]) (simp add: that)
  show "Point_ok t \<Longrightarrow> OperationData_ok (OperationData_mutable_bottom_right_corner (\<lambda>_. t) (OperationData_mutable_bottom_right_corner (\<lambda>t. t) m))"
    "Point_ok t \<Longrightarrow> OperationData_abs (OperationData_mutable_bottom_right_corner (\<lambda>_. t) (OperationData_mutable_bottom_right_corner (\<lambda>t. t) m)) = AOperationData_bottom_right_corner_update (\<lambda>_. Some (Point_abs t)) (OperationData_abs m)"
    using a b by simp_all
qed

lemma OperationData_parse_bottom_right_corner_safe: "OperationData_ok m \<Longrightarrow> cis_ok c \<Longrightarrow> safe OperationData_ok 1 c (OperationData_parse_bottom_right_corner m c)"
  unfolding OperationData_parse_bottom_right_corner_def
  by (rule safe_field [where ok' = Point_ok], rule ReadMessageNoVirtual_safe)
    (simp_all add: OperationData_parse_bottom_right_corner_steps Point_MergePartial_safe)

lemma OperationData_parse_bottom_right_corner_yields:
  assumes "APoint_wire d x" "length (APoint_encode x) < 2 ^ 31"
  shows "yields (Suc d) OperationData_ok OperationData_abs OperationData_parse_bottom_right_corner (enc_bytes (APoint_encode x)) (AOperationData_bottom_right_corner_update (merged APoint_merge APoint_empty (Some x)))"
  unfolding OperationData_parse_bottom_right_corner_def
proof (rule yields_field [OF yields_message_field [OF Point_MergePartial_parses [OF assms(1)] assms(2)],
    where get = "\<lambda>m. OperationData_bottom_right_corner (OperationData_mutable_bottom_right_corner (\<lambda>t. t) m)"
      and put = "\<lambda>t m. OperationData_mutable_bottom_right_corner (\<lambda>_. t) (OperationData_mutable_bottom_right_corner (\<lambda>t. t) m)"])
  fix m t
  assume m: "OperationData_ok m" "Point_ok t" "Point_abs t = APoint_merge x (Point_abs (OperationData_bottom_right_corner (OperationData_mutable_bottom_right_corner (\<lambda>t. t) m)))"
  then show "OperationData_abs (OperationData_mutable_bottom_right_corner (\<lambda>_. t) (OperationData_mutable_bottom_right_corner (\<lambda>t. t) m)) = AOperationData_bottom_right_corner_update (merged APoint_merge APoint_empty (Some x)) (OperationData_abs m)"
    by (cases "OperationData_abs m") (simp add: OperationData_parse_bottom_right_corner_steps)
qed (simp_all add: OperationData_parse_bottom_right_corner_steps)

lemma OperationData_parse_position_steps:
  assumes "OperationData_ok m"
  shows "Point_ok (OperationData_position (OperationData_mutable_position (\<lambda>t. t) m))"
    "Point_abs (OperationData_position (OperationData_mutable_position (\<lambda>t. t) m)) = value_or APoint_empty (AOperationData_position (OperationData_abs m))"
    "Point_ok t \<Longrightarrow> OperationData_ok (OperationData_mutable_position (\<lambda>_. t) (OperationData_mutable_position (\<lambda>t. t) m))"
    "Point_ok t \<Longrightarrow> OperationData_abs (OperationData_mutable_position (\<lambda>_. t) (OperationData_mutable_position (\<lambda>t. t) m)) = AOperationData_position_update (\<lambda>_. Some (Point_abs t)) (OperationData_abs m)"
proof -
  have a: "OperationData_ok (OperationData_mutable_position (\<lambda>t. t) m) \<and> OperationData_abs (OperationData_mutable_position (\<lambda>t. t) m) =
      (OperationData_abs m)\<lparr>AOperationData_position := Some (value_or APoint_empty (AOperationData_position (OperationData_abs m)))\<rparr>"
    by (rule OperationData_abs_mutable_position [OF assms]) simp
  then have a1: "OperationData_ok (OperationData_mutable_position (\<lambda>t. t) m)" by blast
  show "Point_ok (OperationData_position (OperationData_mutable_position (\<lambda>t. t) m))"
    "Point_abs (OperationData_position (OperationData_mutable_position (\<lambda>t. t) m)) = value_or APoint_empty (AOperationData_position (OperationData_abs m))"
    using OperationData_children_ok [OF a1] OperationData_getters [OF a1] a by simp_all
  have b: "OperationData_ok (OperationData_mutable_position (\<lambda>_. t) (OperationData_mutable_position (\<lambda>t. t) m)) \<and>
      OperationData_abs (OperationData_mutable_position (\<lambda>_. t) (OperationData_mutable_position (\<lambda>t. t) m)) =
      (OperationData_abs (OperationData_mutable_position (\<lambda>t. t) m))\<lparr>AOperationData_position := Some (Point_abs t)\<rparr>" if "Point_ok t"
    by (rule OperationData_abs_mutable_position [OF a1]) (simp add: that)
  show "Point_ok t \<Longrightarrow> OperationData_ok (OperationData_mutable_position (\<lambda>_. t) (OperationData_mutable_position (\<lambda>t. t) m))"
    "Point_ok t \<Longrightarrow> OperationData_abs (OperationData_mutable_position (\<lambda>_. t) (OperationData_mutable_position (\<lambda>t. t) m)) = AOperationData_position_update (\<lambda>_. Some (Point_abs t)) (OperationData_abs m)"
    using a b by simp_all
qed

lemma OperationData_parse_position_safe: "OperationData_ok m \<Longrightarrow> cis_ok c \<Longrightarrow> safe OperationData_ok 1 c (OperationData_parse_position m c)"
  unfolding OperationData_parse_position_def
  by (rule safe_field [where ok' = Point_ok], rule ReadMessageNoVirtual_safe)
    (simp_all add: OperationData_parse_position_steps Point_MergePartial_safe)

lemma OperationData_parse_position_yields:
  assumes "APoint_wire d x" "length (APoint_encode x) < 2 ^ 31"
  shows "yields (Suc d) OperationData_ok OperationData_abs OperationData_parse_position (enc_bytes (APoint_encode x)) (AOperationData_position_update (merged APoint_merge APoint_empty (Some x)))"
  unfolding OperationData_parse_position_def
proof (rule yields_field [OF yields_message_field [OF Point_MergePartial_parses [OF assms(1)] assms(2)],
    where get = "\<lambda>m. OperationData_position (OperationData_mutable_position (\<lambda>t. t) m)"
      and put = "\<lambda>t m. OperationData_mutable_position (\<lambda>_. t) (OperationData_mutable_position (\<lambda>t. t) m)"])
  fix m t
  assume m: "OperationData_ok m" "Point_ok t" "Point_abs t = APoint_merge x (Point_abs (OperationData_position (OperationData_mutable_position (\<lambda>t. t) m)))"
  then show "OperationData_abs (OperationData_mutable_position (\<lambda>_. t) (OperationData_mutable_position (\<lambda>t. t) m)) = AOperationData_position_update (merged APoint_merge APoint_empty (Some x)) (OperationData_abs m)"
    by (cases "OperationData_abs m") (simp add: OperationData_parse_position_steps)
qed (simp_all add: OperationData_parse_position_steps)

lemma OperationData_parse_fill_steps:
  assumes "OperationData_ok m"
  shows "OperationData_ok (OperationData_set_has_fill (m\<lparr>OperationData_fill_fld := v\<rparr>))" "OperationData_abs (OperationData_set_has_fill (m\<lparr>OperationData_fill_fld := v\<rparr>)) = AOperationData_fill_update (or_else (Some v)) (OperationData_abs m)"
proof -
  have e: "OperationData_set_has_fill (m\<lparr>OperationData_fill_fld := v\<rparr>) = OperationData_set_fill v m"
    by (simp add: OperationData_presence OperationData_accessors Let_def)
  show "OperationData_ok (OperationData_set_has_fill (m\<lparr>OperationData_fill_fld := v\<rparr>))" "OperationData_abs (OperationData_set_has_fill (m\<lparr>OperationData_fill_fld := v\<rparr>)) = AOperationData_fill_update (or_else (Some v)) (OperationData_abs m)"
    unfolding e using assms by simp_all
qed

lemma OperationData_parse_fill_safe: "OperationData_ok m \<Longrightarrow> cis_ok c \<Longrightarrow> safe OperationData_ok 1 c (OperationData_parse_fill m c)"
  unfolding OperationData_parse_fill_def by (rule safe_value) (simp_all add: primitive_sound OperationData_parse_fill_steps del: One_nat_def)

lemma OperationData_parse_fill_yields:
  "yields d OperationData_ok OperationData_abs OperationData_parse_fill (enc_bool v) (AOperationData_fill_update (or_else (Some v)))"
  unfolding OperationData_parse_fill_def by (rule yields_value [OF reads_bool]) (simp_all add: OperationData_parse_fill_steps)

lemma OperationData_parse_alpha_steps:
  assumes "OperationData_ok m"
  shows "OperationData_ok (OperationData_set_has_alpha (m\<lparr>OperationData_alpha_fld := v\<rparr>))" "OperationData_abs (OperationData_set_has_alpha (m\<lparr>OperationData_alpha_fld := v\<rparr>)) = AOperationData_alpha_update (or_else (Some v)) (OperationData_abs m)"
proof -
  have e: "OperationData_set_has_alpha (m\<lparr>OperationData_alpha_fld := v\<rparr>) = OperationData_set_alpha v m"
    by (simp add: OperationData_presence OperationData_accessors Let_def)
  show "OperationData_ok (OperationData_set_has_alpha (m\<lparr>OperationData_alpha_fld := v\<rparr>))" "OperationData_abs (OperationData_set_has_alpha (m\<lparr>OperationData_alpha_fld := v\<rparr>)) = AOperationData_alpha_update (or_else (Some v)) (OperationData_abs m)"
    unfolding e using assms by simp_all
qed

lemma OperationData_parse_alpha_safe: "OperationData_ok m \<Longrightarrow> cis_ok c \<Longrightarrow> safe OperationData_ok 1 c (OperationData_parse_alpha m c)"
  unfolding OperationData_parse_alpha_def by (rule safe_value) (simp_all add: primitive_sound OperationData_parse_alpha_steps del: One_nat_def)

lemma OperationData_parse_alpha_yields:
  "yields d OperationData_ok OperationData_abs OperationData_parse_alpha (enc_fixed32 v) (AOperationData_alpha_update (or_else (Some v)))"
  unfolding OperationData_parse_alpha_def by (rule yields_value [OF reads_primitive(4)]) (simp_all add: OperationData_parse_alpha_steps)

lemma OperationData_parse_is_start_steps:
  assumes "OperationData_ok m"
  shows "OperationData_ok (OperationData_set_has_is_start (m\<lparr>OperationData_is_start_fld := v\<rparr>))" "OperationData_abs (OperationData_set_has_is_start (m\<lparr>OperationData_is_start_fld := v\<rparr>)) = AOperationData_is_start_update (or_else (Some v)) (OperationData_abs m)"
proof -
  have e: "OperationData_set_has_is_start (m\<lparr>OperationData_is_start_fld := v\<rparr>) = OperationData_set_is_start v m"
    by (simp add: OperationData_presence OperationData_accessors Let_def)
  show "OperationData_ok (OperationData_set_has_is_start (m\<lparr>OperationData_is_start_fld := v\<rparr>))" "OperationData_abs (OperationData_set_has_is_start (m\<lparr>OperationData_is_start_fld := v\<rparr>)) = AOperationData_is_start_update (or_else (Some v)) (OperationData_abs m)"
    unfolding e using assms by simp_all
qed

lemma OperationData_parse_is_start_safe: "OperationData_ok m \<Longrightarrow> cis_ok c \<Longrightarrow> safe OperationData_ok 1 c (OperationData_parse_is_start m c)"
  unfolding OperationData_parse_is_start_def by (rule safe_value) (simp_all add: primitive_sound OperationData_parse_is_start_steps del: One_nat_def)

lemma OperationData_parse_is_start_yields:
  "yields d OperationData_ok OperationData_abs OperationData_parse_is_start (enc_bool v) (AOperationData_is_start_update (or_else (Some v)))"
  unfolding OperationData_parse_is_start_def by (rule yields_value [OF reads_bool]) (simp_all add: OperationData_parse_is_start_steps)

definition AOperationData_wire :: "nat \<Rightarrow> AOperationData \<Rightarrow> bool" where
  "AOperationData_wire d a \<longleftrightarrow>
     all_opt OperationDataType_IsValid (AOperationData_data_type a) \<and>
     all_opt (\<lambda>x. 0 < d \<and> APoint_wire (d - 1) x \<and> length (APoint_encode x) < 2 ^ 31) (AOperationData_start_point a) \<and>
     all_opt (\<lambda>x. 0 < d \<and> APoint_wire (d - 1) x \<and> length (APoint_encode x) < 2 ^ 31) (AOperationData_end_point a) \<and>
     all_opt (\<lambda>x. 0 < d \<and> APoint_wire (d - 1) x \<and> length (APoint_encode x) < 2 ^ 31) (AOperationData_center a) \<and>
     all_opt (\<lambda>x. 0 < d \<and> APoint_wire (d - 1) x \<and> length (APoint_encode x) < 2 ^ 31) (AOperationData_top_left_corner a) \<and>
     all_opt (\<lambda>x. 0 < d \<and> APoint_wire (d - 1) x \<and> length (APoint_encode x) < 2 ^ 31) (AOperationData_bottom_right_corner a) \<and>
     all_opt (\<lambda>x. 0 < d \<and> APoint_wire (d - 1) x \<and> length (APoint_encode x) < 2 ^ 31) (AOperationData_position a) \<and>
     (\<forall>f \<in> set (AOperationData_unknown a). fits_unknown OperationData_rows d f)"

definition AOperationData_chunks :: "AOperationData \<Rightarrow> AOperationData chunk list" where
  "AOperationData_chunks a =
     opt_chunk 1 WIRETYPE_VARINT enc_int32 (\<lambda>v. AOperationData_data_type_update (or_else v)) (AOperationData_data_type a) @
     opt_chunk 2 WIRETYPE_VARINT enc_int32 (\<lambda>v. AOperationData_thinkness_update (or_else v)) (AOperationData_thinkness a) @
     opt_chunk 3 WIRETYPE_VARINT enc_int32 (\<lambda>v. AOperationData_color_update (or_else v)) (AOperationData_color a) @
     opt_chunk 4 WIRETYPE_LENGTH_DELIMITED (\<lambda>x. enc_bytes (APoint_encode x)) (\<lambda>v. AOperationData_start_point_update (merged APoint_merge APoint_empty v)) (AOperationData_start_point a) @
     opt_chunk 5 WIRETYPE_LENGTH_DELIMITED (\<lambda>x. enc_bytes (APoint_encode x)) (\<lambda>v. AOperationData_end_point_update (merged APoint_merge APoint_empty v)) (AOperationData_end_point a) @
     opt_chunk 6 WIRETYPE_LENGTH_DELIMITED (\<lambda>x. enc_bytes (APoint_encode x)) (\<lambda>v. AOperationData_center_update (merged APoint_merge APoint_empty v)) (AOperationData_center a) @
     opt_chunk 7 WIRETYPE_FIXED32 enc_fixed32 (\<lambda>v. AOperationData_angle_update (or_else v)) (AOperationData_angle a) @
     opt_chunk 8 WIRETYPE_FIXED32 enc_fixed32 (\<lambda>v. AOperationData_a_update (or_else v)) (AOperationData_a a) @
     opt_chunk 9 WIRETYPE_FIXED32 enc_fixed32 (\<lambda>v. AOperationData_b_update (or_else v)) (AOperationData_b a) @
     opt_chunk 10 WIRETYPE_LENGTH_DELIMITED (\<lambda>x. enc_bytes (APoint_encode x)) (\<lambda>v. AOperationData_top_left_corner_update (merged APoint_merge APoint_empty v)) (AOperationData_top_left_corner a) @
     opt_chunk 11 WIRETYPE_LENGTH_DELIMITED (\<lambda>x. enc_bytes (APoint_encode x)) (\<lambda>v. AOperationData_bottom_right_corner_update (merged APoint_merge APoint_empty v)) (AOperationData_bottom_right_corner a) @
     opt_chunk 12 WIRETYPE_LENGTH_DELIMITED (\<lambda>x. enc_bytes (APoint_encode x)) (\<lambda>v. AOperationData_position_update (merged APoint_merge APoint_empty v)) (AOperationData_position a) @
     opt_chunk 13 WIRETYPE_VARINT enc_bool (\<lambda>v. AOperationData_fill_update (or_else v)) (AOperationData_fill a) @
     opt_chunk 14 WIRETYPE_FIXED32 enc_fixed32 (\<lambda>v. AOperationData_alpha_update (or_else v)) (AOperationData_alpha a) @
     opt_chunk 15 WIRETYPE_VARINT enc_bool (\<lambda>v. AOperationData_is_start_update (or_else v)) (AOperationData_is_start a)"

lemma AOperationData_chunks_bytes:
  "chunks_bytes (AOperationData_chunks a) @ SerializeUnknownFieldsToArray (AOperationData_unknown a) [] = AOperationData_encode a"
  by (simp add: AOperationData_chunks_def AOperationData_encode_def opt_chunk_bytes rep_chunks_bytes)

lemma AOperationData_add_unknown: "fold (\<lambda>f. AOperationData_unknown_update (\<lambda>u. u @ [f])) fs b = AOperationData_unknown_update (\<lambda>u. u @ fs) b"
  by (induction fs arbitrary: b) simp_all

lemma AOperationData_effects: "(fold (\<lambda>f. AOperationData_unknown_update (\<lambda>u. u @ [f])) (AOperationData_unknown a) \<circ> effects (AOperationData_chunks a)) b = AOperationData_merge a b"
proof -
  have "(fold (\<lambda>f. AOperationData_unknown_update (\<lambda>u. u @ [f])) (AOperationData_unknown a) \<circ> effects (AOperationData_chunks a)) b =
      AOperationData_unknown_update (\<lambda>u. u @ AOperationData_unknown a)
        (AOperationData_is_start_update (or_else (AOperationData_is_start a))
        (AOperationData_alpha_update (or_else (AOperationData_alpha a))
        (AOperationData_fill_update (or_else (AOperationData_fill a))
        (AOperationData_position_update (merged APoint_merge APoint_empty (AOperationData_position a))
        (AOperationData_bottom_right_corner_update (merged APoint_merge APoint_empty (AOperationData_bottom_right_corner a))
        (AOperationData_top_left_corner_update (merged APoint_merge APoint_empty (AOperationData_top_left_corner a))
        (AOperationData_b_update (or_else (AOperationData_b a))
        (AOperationData_a_update (or_else (AOperationData_a a))
        (AOperationData_angle_update (or_else (AOperationData_angle a))
        (AOperationData_center_update (merged APoint_merge APoint_empty (AOperationData_center a))
        (AOperationData_end_point_update (merged APoint_merge APoint_empty (AOperationData_end_point a))
        (AOperationData_start_point_update (merged APoint_merge APoint_empty (AOperationData_start_point a))
        (AOperationData_color_update (or_else (AOperationData_color a))
        (AOperationData_thinkness_update (or_else (AOperationData_thinkness a))
        (AOperationData_data_type_update (or_else (AOperationData_data_type a)) b)))))))))))))))"
    by (simp add: AOperationData_chunks_def opt_chunk_effect rep_chunks_effect AOperationData_add_unknown)
  then show ?thesis
    by (cases b) (simp add: AOperationData_merge_def)
qed

lemma AOperationData_chunks_fit: "AOperationData_wire d a \<Longrightarrow> \<forall>ch \<in> set (AOperationData_chunks a). fits_row OperationData_rows OperationData_ok OperationData_abs d ch"
  unfolding AOperationData_chunks_def set_append ball_Un
proof (intro conjI)
  assume wr: "AOperationData_wire d a"
  show "\<forall>ch \<in> set (opt_chunk 1 WIRETYPE_VARINT enc_int32 (\<lambda>v. AOperationData_data_type_update (or_else v)) (AOperationData_data_type a)). fits_row OperationData_rows OperationData_ok OperationData_abs d ch"
    by (rule fits_opt_chunk [OF _ _ _ OperationData_row_for(1)])
      (use wr in \<open>simp_all add: AOperationData_wire_def OperationData_parse_data_type_yields\<close>)
  show "\<forall>ch \<in> set (opt_chunk 2 WIRETYPE_VARINT enc_int32 (\<lambda>v. AOperationData_thinkness_update (or_else v)) (AOperationData_thinkness a)). fits_row OperationData_rows OperationData_ok OperationData_abs d ch"
    by (rule fits_opt_chunk [OF _ _ _ OperationData_row_for(2)])
      (use wr in \<open>simp_all add: AOperationData_wire_def OperationData_parse_thinkness_yields\<close>)
  show "\<forall>ch \<in> set (opt_chunk 3 WIRETYPE_VARINT enc_int32 (\<lambda>v. AOperationData_color_update (or_else v)) (AOperationData_color a)). fits_row OperationData_rows OperationData_ok OperationData_abs d ch"
    by (rule fits_opt_chunk [OF _ _ _ OperationData_row_for(3)])
      (use wr in \<open>simp_all add: AOperationData_wire_def OperationData_parse_color_yields\<close>)
  show "\<forall>ch \<in> set (opt_chunk 4 WIRETYPE_LENGTH_DELIMITED (\<lambda>x. enc_bytes (APoint_encode x)) (\<lambda>v. AOperationData_start_point_update (merged APoint_merge APoint_empty v)) (AOperationData_start_point a)). fits_row OperationData_rows OperationData_ok OperationData_abs d ch"
  proof (rule fits_opt_chunk [OF _ _ _ OperationData_row_for(4)])
    fix x
    assume "AOperationData_start_point a = Some x"
    with wr have x: "0 < d" "APoint_wire (d - 1) x" "length (APoint_encode x) < 2 ^ 31" by (simp_all add: AOperationData_wire_def)
    show "enc_bytes (APoint_encode x) \<noteq> [] \<and> yields d OperationData_ok OperationData_abs (row_parse \<lparr>row_number = 4, row_wiretype = WIRETYPE_LENGTH_DELIMITED, row_parse = OperationData_parse_start_point, row_expects = [(42, 5)], row_at_end = False\<rparr>) (enc_bytes (APoint_encode x))
        (AOperationData_start_point_update (merged APoint_merge APoint_empty (AOperationData_start_point a)))"
      using OperationData_parse_start_point_yields [OF x(2,3)] x(1) \<open>AOperationData_start_point a = Some x\<close> by simp
  qed simp_all
  show "\<forall>ch \<in> set (opt_chunk 5 WIRETYPE_LENGTH_DELIMITED (\<lambda>x. enc_bytes (APoint_encode x)) (\<lambda>v. AOperationData_end_point_update (merged APoint_merge APoint_empty v)) (AOperationData_end_point a)). fits_row OperationData_rows OperationData_ok OperationData_abs d ch"
  proof (rule fits_opt_chunk [OF _ _ _ OperationData_row_for(5)])
    fix x
    assume "AOperationData_end_point a = Some x"
    with wr have x: "0 < d" "APoint_wire (d - 1) x" "length (APoint_encode x) < 2 ^ 31" by (simp_all add: AOperationData_wire_def)
    show "enc_bytes (APoint_encode x) \<noteq> [] \<and> yields d OperationData_ok OperationData_abs (row_parse \<lparr>row_number = 5, row_wiretype = WIRETYPE_LENGTH_DELIMITED, row_parse = OperationData_parse_end_point, row_expects = [(50, 6)], row_at_end = False\<rparr>) (enc_bytes (APoint_encode x))
        (AOperationData_end_point_update (merged APoint_merge APoint_empty (AOperationData_end_point a)))"
      using OperationData_parse_end_point_yields [OF x(2,3)] x(1) \<open>AOperationData_end_point a = Some x\<close> by simp
  qed simp_all
  show "\<forall>ch \<in> set (opt_chunk 6 WIRETYPE_LENGTH_DELIMITED (\<lambda>x. enc_bytes (APoint_encode x)) (\<lambda>v. AOperationData_center_update (merged APoint_merge APoint_empty v)) (AOperationData_center a)). fits_row OperationData_rows OperationData_ok OperationData_abs d ch"
  proof (rule fits_opt_chunk [OF _ _ _ OperationData_row_for(6)])
    fix x
    assume "AOperationData_center a = Some x"
    with wr have x: "0 < d" "APoint_wire (d - 1) x" "length (APoint_encode x) < 2 ^ 31" by (simp_all add: AOperationData_wire_def)
    show "enc_bytes (APoint_encode x) \<noteq> [] \<and> yields d OperationData_ok OperationData_abs (row_parse \<lparr>row_number = 6, row_wiretype = WIRETYPE_LENGTH_DELIMITED, row_parse = OperationData_parse_center, row_expects = [(61, 7)], row_at_end = False\<rparr>) (enc_bytes (APoint_encode x))
        (AOperationData_center_update (merged APoint_merge APoint_empty (AOperationData_center a)))"
      using OperationData_parse_center_yields [OF x(2,3)] x(1) \<open>AOperationData_center a = Some x\<close> by simp
  qed simp_all
  show "\<forall>ch \<in> set (opt_chunk 7 WIRETYPE_FIXED32 enc_fixed32 (\<lambda>v. AOperationData_angle_update (or_else v)) (AOperationData_angle a)). fits_row OperationData_rows OperationData_ok OperationData_abs d ch"
    by (rule fits_opt_chunk [OF _ _ _ OperationData_row_for(7)])
      (use wr in \<open>simp_all add: AOperationData_wire_def OperationData_parse_angle_yields\<close>)
  show "\<forall>ch \<in> set (opt_chunk 8 WIRETYPE_FIXED32 enc_fixed32 (\<lambda>v. AOperationData_a_update (or_else v)) (AOperationData_a a)). fits_row OperationData_rows OperationData_ok OperationData_abs d ch"
    by (rule fits_opt_chunk [OF _ _ _ OperationData_row_for(8)])
      (use wr in \<open>simp_all add: AOperationData_wire_def OperationData_parse_a_yields\<close>)
  show "\<forall>ch \<in> set (opt_chunk 9 WIRETYPE_FIXED32 enc_fixed32 (\<lambda>v. AOperationData_b_update (or_else v)) (AOperationData_b a)). fits_row OperationData_rows OperationData_ok OperationData_abs d ch"
    by (rule fits_opt_chunk [OF _ _ _ OperationData_row_for(9)])
      (use wr in \<open>simp_all add: AOperationData_wire_def OperationData_parse_b_yields\<close>)
  show "\<forall>ch \<in> set (opt_chunk 10 WIRETYPE_LENGTH_DELIMITED (\<lambda>x. enc_bytes (APoint_encode x)) (\<lambda>v. AOperationData_top_left_corner_update (merged APoint_merge APoint_empty v)) (AOperationData_top_left_corner a)). fits_row OperationData_rows OperationData_ok OperationData_abs d ch"
  proof (rule fits_opt_chunk [OF _ _ _ OperationData_row_for(10)])
    fix x
    assume "AOperationData_top_left_corner a = Some x"
    with wr have x: "0 < d" "APoint_wire (d - 1) x" "length (APoint_encode x) < 2 ^ 31" by (simp_all add: AOperationData_wire_def)
    show "enc_bytes (APoint_encode x) \<noteq> [] \<and> yields d OperationData_ok OperationData_abs (row_parse \<lparr>row_number = 10, row_wiretype = WIRETYPE_LENGTH_DELIMITED, row_parse = OperationData_parse_top_left_corner, row_expects = [(90, 11)], row_at_end = False\<rparr>) (enc_bytes (APoint_encode x))
        (AOperationData_top_left_corner_update (merged APoint_merge APoint_empty (AOperationData_top_left_corner a)))"
      using OperationData_parse_top_left_corner_yields [OF x(2,3)] x(1) \<open>AOperationData_top_left_corner a = Some x\<close> by simp
  qed simp_all
  show "\<forall>ch \<in> set (opt_chunk 11 WIRETYPE_LENGTH_DELIMITED (\<lambda>x. enc_bytes (APoint_encode x)) (\<lambda>v. AOperationData_bottom_right_corner_update (merged APoint_merge APoint_empty v)) (AOperationData_bottom_right_corner a)). fits_row OperationData_rows OperationData_ok OperationData_abs d ch"
  proof (rule fits_opt_chunk [OF _ _ _ OperationData_row_for(11)])
    fix x
    assume "AOperationData_bottom_right_corner a = Some x"
    with wr have x: "0 < d" "APoint_wire (d - 1) x" "length (APoint_encode x) < 2 ^ 31" by (simp_all add: AOperationData_wire_def)
    show "enc_bytes (APoint_encode x) \<noteq> [] \<and> yields d OperationData_ok OperationData_abs (row_parse \<lparr>row_number = 11, row_wiretype = WIRETYPE_LENGTH_DELIMITED, row_parse = OperationData_parse_bottom_right_corner, row_expects = [(98, 12)], row_at_end = False\<rparr>) (enc_bytes (APoint_encode x))
        (AOperationData_bottom_right_corner_update (merged APoint_merge APoint_empty (AOperationData_bottom_right_corner a)))"
      using OperationData_parse_bottom_right_corner_yields [OF x(2,3)] x(1) \<open>AOperationData_bottom_right_corner a = Some x\<close> by simp
  qed simp_all
  show "\<forall>ch \<in> set (opt_chunk 12 WIRETYPE_LENGTH_DELIMITED (\<lambda>x. enc_bytes (APoint_encode x)) (\<lambda>v. AOperationData_position_update (merged APoint_merge APoint_empty v)) (AOperationData_position a)). fits_row OperationData_rows OperationData_ok OperationData_abs d ch"
  proof (rule fits_opt_chunk [OF _ _ _ OperationData_row_for(12)])
    fix x
    assume "AOperationData_position a = Some x"
    with wr have x: "0 < d" "APoint_wire (d - 1) x" "length (APoint_encode x) < 2 ^ 31" by (simp_all add: AOperationData_wire_def)
    show "enc_bytes (APoint_encode x) \<noteq> [] \<and> yields d OperationData_ok OperationData_abs (row_parse \<lparr>row_number = 12, row_wiretype = WIRETYPE_LENGTH_DELIMITED, row_parse = OperationData_parse_position, row_expects = [(104, 13)], row_at_end = False\<rparr>) (enc_bytes (APoint_encode x))
        (AOperationData_position_update (merged APoint_merge APoint_empty (AOperationData_position a)))"
      using OperationData_parse_position_yields [OF x(2,3)] x(1) \<open>AOperationData_position a = Some x\<close> by simp
  qed simp_all
  show "\<forall>ch \<in> set (opt_chunk 13 WIRETYPE_VARINT enc_bool (\<lambda>v. AOperationData_fill_update (or_else v)) (AOperationData_fill a)). fits_row OperationData_rows OperationData_ok OperationData_abs d ch"
    by (rule fits_opt_chunk [OF _ _ _ OperationData_row_for(13)])
      (use wr in \<open>simp_all add: AOperationData_wire_def OperationData_parse_fill_yields\<close>)
  show "\<forall>ch \<in> set (opt_chunk 14 WIRETYPE_FIXED32 enc_fixed32 (\<lambda>v. AOperationData_alpha_update (or_else v)) (AOperationData_alpha a)). fits_row OperationData_rows OperationData_ok OperationData_abs d ch"
    by (rule fits_opt_chunk [OF _ _ _ OperationData_row_for(14)])
      (use wr in \<open>simp_all add: AOperationData_wire_def OperationData_parse_alpha_yields\<close>)
  show "\<forall>ch \<in> set (opt_chunk 15 WIRETYPE_VARINT enc_bool (\<lambda>v. AOperationData_is_start_update (or_else v)) (AOperationData_is_start a)). fits_row OperationData_rows OperationData_ok OperationData_abs d ch"
    by (rule fits_opt_chunk [OF _ _ _ OperationData_row_for(15)])
      (use wr in \<open>simp_all add: AOperationData_wire_def OperationData_parse_is_start_yields\<close>)
qed

interpretation operationdata_format: message_format OperationData_rows OperationData_unknown "(\<lambda>u m. m\<lparr>OperationData_unknown := u\<rparr>)" OperationData_ok OperationData_abs "(\<lambda>f. AOperationData_unknown_update (\<lambda>u. u @ [f]))"
proof
  show "rows_closed OperationData_rows" by (rule OperationData_rows_closed)
  fix r m c
  assume "r \<in> set OperationData_rows" "OperationData_ok m" "cis_ok c"
  then show "safe OperationData_ok 1 c (row_parse r m c)"
    by (auto simp: OperationData_rows_def OperationData_parse_data_type_safe OperationData_parse_thinkness_safe OperationData_parse_color_safe OperationData_parse_start_point_safe OperationData_parse_end_point_safe OperationData_parse_center_safe OperationData_parse_angle_safe OperationData_parse_a_safe OperationData_parse_b_safe OperationData_parse_top_left_corner_safe OperationData_parse_bottom_right_corner_safe OperationData_parse_position_safe OperationData_parse_fill_safe OperationData_parse_alpha_safe OperationData_parse_is_start_safe simp del: One_nat_def)
qed (simp_all add: OperationData_unknown_abs)

lemma OperationData_MergePartial_safe: "OperationData_ok m \<Longrightarrow> cis_ok c \<Longrightarrow> safe OperationData_ok 0 c (OperationData_MergePartialFromCodedStream m c)"
  unfolding OperationData_MergePartialFromCodedStream_def by (rule operationdata_format.MergePartial_safe)

lemma OperationData_MergePartial_parses:
  assumes "AOperationData_wire d a"
  shows "parses d OperationData_ok OperationData_abs OperationData_MergePartialFromCodedStream (AOperationData_encode a) (AOperationData_merge a)"
proof -
  have u: "\<forall>f \<in> set (AOperationData_unknown a). fits_unknown OperationData_rows d f" using assms by (simp add: AOperationData_wire_def)
  have e: "fold (\<lambda>f. AOperationData_unknown_update (\<lambda>u. u @ [f])) (AOperationData_unknown a) \<circ> effects (AOperationData_chunks a) = AOperationData_merge a"
    by (rule ext) (rule AOperationData_effects)
  from operationdata_format.MergePartial_parses [OF AOperationData_chunks_fit [OF assms] u] show ?thesis
    unfolding e AOperationData_chunks_bytes by (simp add: OperationData_MergePartialFromCodedStream_def [abs_def])
qed

section \<open>Parsing \<^verbatim>\<open>Operation\<close>\<close>

definition Operation_parse_serial_number :: "Operation \<Rightarrow> cis \<Rightarrow> Operation got" where
  "Operation_parse_serial_number m c =
     got_bind (ReadPrimitive_UINT32 c) (\<lambda>v c. Got (Operation_set_has_serial_number (m\<lparr>Operation_serial_number_fld := v\<rparr>)) c)"

definition Operation_parse_data :: "Operation \<Rightarrow> cis \<Rightarrow> Operation got" where
  "Operation_parse_data m c =
     got_bind (ReadMessageNoVirtual OperationData_MergePartialFromCodedStream (Operation_data (Operation_mutable_data (\<lambda>t. t) m)) c)
       (\<lambda>t c. Got (Operation_mutable_data (\<lambda>_. t) (Operation_mutable_data (\<lambda>t. t) m)) c)"

definition Operation_rows :: "Operation row list" where
  "Operation_rows =
    [\<lparr>row_number = 1, row_wiretype = WIRETYPE_VARINT, row_parse = Operation_parse_serial_number, row_expects = [(18, 2)], row_at_end = False\<rparr>,
     \<lparr>row_number = 2, row_wiretype = WIRETYPE_LENGTH_DELIMITED, row_parse = Operation_parse_data, row_expects = [], row_at_end = True\<rparr>]"

definition Operation_MergePartialFromCodedStream :: "Operation \<Rightarrow> cis \<Rightarrow> Operation got" where
  "Operation_MergePartialFromCodedStream m c =
     MergePartial Operation_rows (skip_into Operation_unknown (\<lambda>u m. m\<lparr>Operation_unknown := u\<rparr>)) m c"

lemma Operation_row_for [simp]:
  "row_for Operation_rows 1 = Some \<lparr>row_number = 1, row_wiretype = WIRETYPE_VARINT, row_parse = Operation_parse_serial_number, row_expects = [(18, 2)], row_at_end = False\<rparr>"
  "row_for Operation_rows 2 = Some \<lparr>row_number = 2, row_wiretype = WIRETYPE_LENGTH_DELIMITED, row_parse = Operation_parse_data, row_expects = [], row_at_end = True\<rparr>"
  by (simp_all add: row_for_def Operation_rows_def)

lemma Operation_rows_closed: "rows_closed Operation_rows"
  by (simp add: rows_closed_def Operation_rows_def row_for_def tag_parts wiretypes)

lemma Operation_unknown_simps [simp]:
  "Operation_ok (m\<lparr>Operation_unknown := u\<rparr>) = Operation_ok m" "Operation_abs (m\<lparr>Operation_unknown := u\<rparr>) = (Operation_abs m)\<lparr>AOperation_unknown := u\<rparr>"
  by (simp_all add: Operation_ok_def Operation_abs_def Operation_presence Operation_accessors)

lemma Operation_parse_serial_number_steps:
  assumes "Operation_ok m"
  shows "Operation_ok (Operation_set_has_serial_number (m\<lparr>Operation_serial_number_fld := v\<rparr>))" "Operation_abs (Operation_set_has_serial_number (m\<lparr>Operation_serial_number_fld := v\<rparr>)) = AOperation_serial_number_update (or_else (Some v)) (Operation_abs m)"
proof -
  have e: "Operation_set_has_serial_number (m\<lparr>Operation_serial_number_fld := v\<rparr>) = Operation_set_serial_number v m"
    by (simp add: Operation_presence Operation_accessors Let_def)
  show "Operation_ok (Operation_set_has_serial_number (m\<lparr>Operation_serial_number_fld := v\<rparr>))" "Operation_abs (Operation_set_has_serial_number (m\<lparr>Operation_serial_number_fld := v\<rparr>)) = AOperation_serial_number_update (or_else (Some v)) (Operation_abs m)"
    unfolding e using assms by simp_all
qed

lemma Operation_parse_serial_number_safe: "Operation_ok m \<Longrightarrow> cis_ok c \<Longrightarrow> safe Operation_ok 1 c (Operation_parse_serial_number m c)"
  unfolding Operation_parse_serial_number_def by (rule safe_value) (simp_all add: primitive_sound Operation_parse_serial_number_steps del: One_nat_def)

lemma Operation_parse_serial_number_yields:
  "yields d Operation_ok Operation_abs Operation_parse_serial_number (enc_uint32 v) (AOperation_serial_number_update (or_else (Some v)))"
  unfolding Operation_parse_serial_number_def by (rule yields_value [OF reads_primitive(3)]) (simp_all add: Operation_parse_serial_number_steps)

lemma Operation_parse_data_steps:
  assumes "Operation_ok m"
  shows "OperationData_ok (Operation_data (Operation_mutable_data (\<lambda>t. t) m))"
    "OperationData_abs (Operation_data (Operation_mutable_data (\<lambda>t. t) m)) = value_or AOperationData_empty (AOperation_data (Operation_abs m))"
    "OperationData_ok t \<Longrightarrow> Operation_ok (Operation_mutable_data (\<lambda>_. t) (Operation_mutable_data (\<lambda>t. t) m))"
    "OperationData_ok t \<Longrightarrow> Operation_abs (Operation_mutable_data (\<lambda>_. t) (Operation_mutable_data (\<lambda>t. t) m)) = AOperation_data_update (\<lambda>_. Some (OperationData_abs t)) (Operation_abs m)"
proof -
  have a: "Operation_ok (Operation_mutable_data (\<lambda>t. t) m) \<and> Operation_abs (Operation_mutable_data (\<lambda>t. t) m) =
      (Operation_abs m)\<lparr>AOperation_data := Some (value_or AOperationData_empty (AOperation_data (Operation_abs m)))\<rparr>"
    by (rule Operation_abs_mutable_data [OF assms]) simp
  then have a1: "Operation_ok (Operation_mutable_data (\<lambda>t. t) m)" by blast
  show "OperationData_ok (Operation_data (Operation_mutable_data (\<lambda>t. t) m))"
    "OperationData_abs (Operation_data (Operation_mutable_data (\<lambda>t. t) m)) = value_or AOperationData_empty (AOperation_data (Operation_abs m))"
    using Operation_children_ok [OF a1] Operation_getters [OF a1] a by simp_all
  have b: "Operation_ok (Operation_mutable_data (\<lambda>_. t) (Operation_mutable_data (\<lambda>t. t) m)) \<and>
      Operation_abs (Operation_mutable_data (\<lambda>_. t) (Operation_mutable_data (\<lambda>t. t) m)) =
      (Operation_abs (Operation_mutable_data (\<lambda>t. t) m))\<lparr>AOperation_data := Some (OperationData_abs t)\<rparr>" if "OperationData_ok t"
    by (rule Operation_abs_mutable_data [OF a1]) (simp add: that)
  show "OperationData_ok t \<Longrightarrow> Operation_ok (Operation_mutable_data (\<lambda>_. t) (Operation_mutable_data (\<lambda>t. t) m))"
    "OperationData_ok t \<Longrightarrow> Operation_abs (Operation_mutable_data (\<lambda>_. t) (Operation_mutable_data (\<lambda>t. t) m)) = AOperation_data_update (\<lambda>_. Some (OperationData_abs t)) (Operation_abs m)"
    using a b by simp_all
qed

lemma Operation_parse_data_safe: "Operation_ok m \<Longrightarrow> cis_ok c \<Longrightarrow> safe Operation_ok 1 c (Operation_parse_data m c)"
  unfolding Operation_parse_data_def
  by (rule safe_field [where ok' = OperationData_ok], rule ReadMessageNoVirtual_safe)
    (simp_all add: Operation_parse_data_steps OperationData_MergePartial_safe)

lemma Operation_parse_data_yields:
  assumes "AOperationData_wire d x" "length (AOperationData_encode x) < 2 ^ 31"
  shows "yields (Suc d) Operation_ok Operation_abs Operation_parse_data (enc_bytes (AOperationData_encode x)) (AOperation_data_update (merged AOperationData_merge AOperationData_empty (Some x)))"
  unfolding Operation_parse_data_def
proof (rule yields_field [OF yields_message_field [OF OperationData_MergePartial_parses [OF assms(1)] assms(2)],
    where get = "\<lambda>m. Operation_data (Operation_mutable_data (\<lambda>t. t) m)"
      and put = "\<lambda>t m. Operation_mutable_data (\<lambda>_. t) (Operation_mutable_data (\<lambda>t. t) m)"])
  fix m t
  assume m: "Operation_ok m" "OperationData_ok t" "OperationData_abs t = AOperationData_merge x (OperationData_abs (Operation_data (Operation_mutable_data (\<lambda>t. t) m)))"
  then show "Operation_abs (Operation_mutable_data (\<lambda>_. t) (Operation_mutable_data (\<lambda>t. t) m)) = AOperation_data_update (merged AOperationData_merge AOperationData_empty (Some x)) (Operation_abs m)"
    by (cases "Operation_abs m") (simp add: Operation_parse_data_steps)
qed (simp_all add: Operation_parse_data_steps)

definition AOperation_wire :: "nat \<Rightarrow> AOperation \<Rightarrow> bool" where
  "AOperation_wire d a \<longleftrightarrow>
     all_opt (\<lambda>x. 0 < d \<and> AOperationData_wire (d - 1) x \<and> length (AOperationData_encode x) < 2 ^ 31) (AOperation_data a) \<and>
     (\<forall>f \<in> set (AOperation_unknown a). fits_unknown Operation_rows d f)"

definition AOperation_chunks :: "AOperation \<Rightarrow> AOperation chunk list" where
  "AOperation_chunks a =
     opt_chunk 1 WIRETYPE_VARINT enc_uint32 (\<lambda>v. AOperation_serial_number_update (or_else v)) (AOperation_serial_number a) @
     opt_chunk 2 WIRETYPE_LENGTH_DELIMITED (\<lambda>x. enc_bytes (AOperationData_encode x)) (\<lambda>v. AOperation_data_update (merged AOperationData_merge AOperationData_empty v)) (AOperation_data a)"

lemma AOperation_chunks_bytes:
  "chunks_bytes (AOperation_chunks a) @ SerializeUnknownFieldsToArray (AOperation_unknown a) [] = AOperation_encode a"
  by (simp add: AOperation_chunks_def AOperation_encode_def opt_chunk_bytes rep_chunks_bytes)

lemma AOperation_add_unknown: "fold (\<lambda>f. AOperation_unknown_update (\<lambda>u. u @ [f])) fs b = AOperation_unknown_update (\<lambda>u. u @ fs) b"
  by (induction fs arbitrary: b) simp_all

lemma AOperation_effects: "(fold (\<lambda>f. AOperation_unknown_update (\<lambda>u. u @ [f])) (AOperation_unknown a) \<circ> effects (AOperation_chunks a)) b = AOperation_merge a b"
proof -
  have "(fold (\<lambda>f. AOperation_unknown_update (\<lambda>u. u @ [f])) (AOperation_unknown a) \<circ> effects (AOperation_chunks a)) b =
      AOperation_unknown_update (\<lambda>u. u @ AOperation_unknown a)
        (AOperation_data_update (merged AOperationData_merge AOperationData_empty (AOperation_data a))
        (AOperation_serial_number_update (or_else (AOperation_serial_number a)) b))"
    by (simp add: AOperation_chunks_def opt_chunk_effect rep_chunks_effect AOperation_add_unknown)
  then show ?thesis
    by (cases b) (simp add: AOperation_merge_def)
qed

lemma AOperation_chunks_fit: "AOperation_wire d a \<Longrightarrow> \<forall>ch \<in> set (AOperation_chunks a). fits_row Operation_rows Operation_ok Operation_abs d ch"
  unfolding AOperation_chunks_def set_append ball_Un
proof (intro conjI)
  assume wr: "AOperation_wire d a"
  show "\<forall>ch \<in> set (opt_chunk 1 WIRETYPE_VARINT enc_uint32 (\<lambda>v. AOperation_serial_number_update (or_else v)) (AOperation_serial_number a)). fits_row Operation_rows Operation_ok Operation_abs d ch"
    by (rule fits_opt_chunk [OF _ _ _ Operation_row_for(1)])
      (use wr in \<open>simp_all add: AOperation_wire_def Operation_parse_serial_number_yields\<close>)
  show "\<forall>ch \<in> set (opt_chunk 2 WIRETYPE_LENGTH_DELIMITED (\<lambda>x. enc_bytes (AOperationData_encode x)) (\<lambda>v. AOperation_data_update (merged AOperationData_merge AOperationData_empty v)) (AOperation_data a)). fits_row Operation_rows Operation_ok Operation_abs d ch"
  proof (rule fits_opt_chunk [OF _ _ _ Operation_row_for(2)])
    fix x
    assume "AOperation_data a = Some x"
    with wr have x: "0 < d" "AOperationData_wire (d - 1) x" "length (AOperationData_encode x) < 2 ^ 31" by (simp_all add: AOperation_wire_def)
    show "enc_bytes (AOperationData_encode x) \<noteq> [] \<and> yields d Operation_ok Operation_abs (row_parse \<lparr>row_number = 2, row_wiretype = WIRETYPE_LENGTH_DELIMITED, row_parse = Operation_parse_data, row_expects = [], row_at_end = True\<rparr>) (enc_bytes (AOperationData_encode x))
        (AOperation_data_update (merged AOperationData_merge AOperationData_empty (AOperation_data a)))"
      using Operation_parse_data_yields [OF x(2,3)] x(1) \<open>AOperation_data a = Some x\<close> by simp
  qed simp_all
qed

interpretation operation_format: message_format Operation_rows Operation_unknown "(\<lambda>u m. m\<lparr>Operation_unknown := u\<rparr>)" Operation_ok Operation_abs "(\<lambda>f. AOperation_unknown_update (\<lambda>u. u @ [f]))"
proof
  show "rows_closed Operation_rows" by (rule Operation_rows_closed)
  fix r m c
  assume "r \<in> set Operation_rows" "Operation_ok m" "cis_ok c"
  then show "safe Operation_ok 1 c (row_parse r m c)"
    by (auto simp: Operation_rows_def Operation_parse_serial_number_safe Operation_parse_data_safe simp del: One_nat_def)
qed (simp_all add: Operation_unknown_abs)

lemma Operation_MergePartial_safe: "Operation_ok m \<Longrightarrow> cis_ok c \<Longrightarrow> safe Operation_ok 0 c (Operation_MergePartialFromCodedStream m c)"
  unfolding Operation_MergePartialFromCodedStream_def by (rule operation_format.MergePartial_safe)

interpretation operation_added: parsed_handler Operation_default Operation_Clear Operation_MergeFrom Operation_ok Operation_abs Operation_MergePartialFromCodedStream
  by unfold_locales (rule Operation_MergePartial_safe)

lemma Operation_MergePartial_parses:
  assumes "AOperation_wire d a"
  shows "parses d Operation_ok Operation_abs Operation_MergePartialFromCodedStream (AOperation_encode a) (AOperation_merge a)"
proof -
  have u: "\<forall>f \<in> set (AOperation_unknown a). fits_unknown Operation_rows d f" using assms by (simp add: AOperation_wire_def)
  have e: "fold (\<lambda>f. AOperation_unknown_update (\<lambda>u. u @ [f])) (AOperation_unknown a) \<circ> effects (AOperation_chunks a) = AOperation_merge a"
    by (rule ext) (rule AOperation_effects)
  from operation_format.MergePartial_parses [OF AOperation_chunks_fit [OF assms] u] show ?thesis
    unfolding e AOperation_chunks_bytes by (simp add: Operation_MergePartialFromCodedStream_def [abs_def])
qed

section \<open>Parsing \<^verbatim>\<open>Operations\<close>\<close>

definition OperationAvaliable_IsValid :: "int32 \<Rightarrow> bool" where
  "OperationAvaliable_IsValid value \<longleftrightarrow> value \<in> {1, 2, 3}"

definition Operations_parse_operation_avaliable :: "Operations \<Rightarrow> cis \<Rightarrow> Operations got" where
  "Operations_parse_operation_avaliable m c =
     got_bind (ReadPrimitive_ENUM c) (\<lambda>value c.
       Got (if OperationAvaliable_IsValid value then Operations_set_operation_avaliable value m
            else m\<lparr>Operations_unknown := AddVarint 1 (scast value) (Operations_unknown m)\<rparr>) c)"

definition Operations_parse_operations :: "Operations \<Rightarrow> cis \<Rightarrow> Operations got" where
  "Operations_parse_operations m c =
     got_bind (ReadAdded Operation_default Operation_MergePartialFromCodedStream (Operations_operations_fld m) c)
       (\<lambda>r c. Got (m\<lparr>Operations_operations_fld := r\<rparr>) c)"

definition Operations_rows :: "Operations row list" where
  "Operations_rows =
    [\<lparr>row_number = 1, row_wiretype = WIRETYPE_VARINT, row_parse = Operations_parse_operation_avaliable, row_expects = [(18, 2)], row_at_end = False\<rparr>,
     \<lparr>row_number = 2, row_wiretype = WIRETYPE_LENGTH_DELIMITED, row_parse = Operations_parse_operations, row_expects = [(18, 2)], row_at_end = True\<rparr>]"

definition Operations_MergePartialFromCodedStream :: "Operations \<Rightarrow> cis \<Rightarrow> Operations got" where
  "Operations_MergePartialFromCodedStream m c =
     MergePartial Operations_rows (skip_into Operations_unknown (\<lambda>u m. m\<lparr>Operations_unknown := u\<rparr>)) m c"

lemma Operations_row_for [simp]:
  "row_for Operations_rows 1 = Some \<lparr>row_number = 1, row_wiretype = WIRETYPE_VARINT, row_parse = Operations_parse_operation_avaliable, row_expects = [(18, 2)], row_at_end = False\<rparr>"
  "row_for Operations_rows 2 = Some \<lparr>row_number = 2, row_wiretype = WIRETYPE_LENGTH_DELIMITED, row_parse = Operations_parse_operations, row_expects = [(18, 2)], row_at_end = True\<rparr>"
  by (simp_all add: row_for_def Operations_rows_def)

lemma Operations_rows_closed: "rows_closed Operations_rows"
  by (simp add: rows_closed_def Operations_rows_def row_for_def tag_parts wiretypes)

lemma Operations_unknown_simps [simp]:
  "Operations_ok (m\<lparr>Operations_unknown := u\<rparr>) = Operations_ok m" "Operations_abs (m\<lparr>Operations_unknown := u\<rparr>) = (Operations_abs m)\<lparr>AOperations_unknown := u\<rparr>"
  by (simp_all add: Operations_ok_def Operations_abs_def Operations_presence Operations_accessors)

lemma Operations_parse_operation_avaliable_safe: "Operations_ok m \<Longrightarrow> cis_ok c \<Longrightarrow> safe Operations_ok 1 c (Operations_parse_operation_avaliable m c)"
  unfolding Operations_parse_operation_avaliable_def by (rule safe_value) (simp_all add: primitive_sound del: One_nat_def)

lemma Operations_parse_operation_avaliable_yields:
  "OperationAvaliable_IsValid v \<Longrightarrow> yields d Operations_ok Operations_abs Operations_parse_operation_avaliable (enc_int32 v) (AOperations_operation_avaliable_update (or_else (Some v)))"
  unfolding Operations_parse_operation_avaliable_def by (rule yields_value [OF reads_primitive(2)]) simp_all

lemma Operations_ok_fld: "Operations_ok m \<Longrightarrow> operation_th.good r \<Longrightarrow> Operations_ok (m\<lparr>Operations_operations_fld := r\<rparr>)"
  by (simp add: Operations_ok_def Operations_presence Operations_accessors)

lemma Operations_parse_operations_safe: "Operations_ok m \<Longrightarrow> cis_ok c \<Longrightarrow> safe Operations_ok 1 c (Operations_parse_operations m c)"
  unfolding Operations_parse_operations_def
  by (rule safe_field [where ok' = operation_th.good], rule operation_added.ReadAdded_safe)
    (simp_all add: Operations_good Operation_MergePartial_safe Operations_ok_fld)

lemma Operations_parse_operations_yields:
  assumes "AOperation_wire d x" "length (AOperation_encode x) < 2 ^ 31"
  shows "yields (Suc d) Operations_ok Operations_abs Operations_parse_operations (enc_bytes (AOperation_encode x)) (AOperations_operations_update (\<lambda>xs. xs @ [x]))"
  unfolding Operations_parse_operations_def
proof (rule yields_field [OF operation_added.ReadAdded_yields [OF Operation_MergePartial_parses [OF assms(1)] assms(2)], where get = Operations_operations_fld])
  fix m r
  assume m: "Operations_ok m" "operation_th.good r"
    "operation_th.views r = operation_th.views (Operations_operations_fld m) @ [AOperation_merge x (Operation_abs Operation_default)]"
  then show "Operations_abs (m\<lparr>Operations_operations_fld := r\<rparr>) = AOperations_operations_update (\<lambda>xs. xs @ [x]) (Operations_abs m)"
    by (simp add: Operations_abs_def Operations_presence Operations_accessors operation_th.views_def)
qed (simp_all add: Operations_good Operations_ok_fld)

definition AOperations_wire :: "nat \<Rightarrow> AOperations \<Rightarrow> bool" where
  "AOperations_wire d a \<longleftrightarrow>
     all_opt OperationAvaliable_IsValid (AOperations_operation_avaliable a) \<and>
     (\<forall>x \<in> set (AOperations_operations a). 0 < d \<and> AOperation_wire (d - 1) x \<and> length (AOperation_encode x) < 2 ^ 31) \<and>
     (\<forall>f \<in> set (AOperations_unknown a). fits_unknown Operations_rows d f)"

definition AOperations_chunks :: "AOperations \<Rightarrow> AOperations chunk list" where
  "AOperations_chunks a =
     opt_chunk 1 WIRETYPE_VARINT enc_int32 (\<lambda>v. AOperations_operation_avaliable_update (or_else v)) (AOperations_operation_avaliable a) @
     rep_chunks 2 WIRETYPE_LENGTH_DELIMITED (\<lambda>x. enc_bytes (AOperation_encode x)) (\<lambda>x. AOperations_operations_update (\<lambda>xs. xs @ [x])) (AOperations_operations a)"

lemma AOperations_chunks_bytes:
  "chunks_bytes (AOperations_chunks a) @ SerializeUnknownFieldsToArray (AOperations_unknown a) [] = AOperations_encode a"
  by (simp add: AOperations_chunks_def AOperations_encode_def opt_chunk_bytes rep_chunks_bytes)

lemma AOperations_add_unknown: "fold (\<lambda>f. AOperations_unknown_update (\<lambda>u. u @ [f])) fs b = AOperations_unknown_update (\<lambda>u. u @ fs) b"
  by (induction fs arbitrary: b) simp_all

lemma AOperations_add_operations: "fold (\<lambda>x. AOperations_operations_update (\<lambda>xs. xs @ [x])) vs b = AOperations_operations_update (\<lambda>xs. xs @ vs) b"
  by (induction vs arbitrary: b) simp_all

lemma AOperations_effects: "(fold (\<lambda>f. AOperations_unknown_update (\<lambda>u. u @ [f])) (AOperations_unknown a) \<circ> effects (AOperations_chunks a)) b = AOperations_merge a b"
proof -
  have "(fold (\<lambda>f. AOperations_unknown_update (\<lambda>u. u @ [f])) (AOperations_unknown a) \<circ> effects (AOperations_chunks a)) b =
      AOperations_unknown_update (\<lambda>u. u @ AOperations_unknown a)
        (AOperations_operations_update (\<lambda>xs. xs @ AOperations_operations a)
        (AOperations_operation_avaliable_update (or_else (AOperations_operation_avaliable a)) b))"
    by (simp add: AOperations_chunks_def opt_chunk_effect rep_chunks_effect AOperations_add_unknown AOperations_add_operations)
  then show ?thesis
    by (cases b) (simp add: AOperations_merge_def)
qed

lemma AOperations_chunks_fit: "AOperations_wire d a \<Longrightarrow> \<forall>ch \<in> set (AOperations_chunks a). fits_row Operations_rows Operations_ok Operations_abs d ch"
  unfolding AOperations_chunks_def set_append ball_Un
proof (intro conjI)
  assume wr: "AOperations_wire d a"
  show "\<forall>ch \<in> set (opt_chunk 1 WIRETYPE_VARINT enc_int32 (\<lambda>v. AOperations_operation_avaliable_update (or_else v)) (AOperations_operation_avaliable a)). fits_row Operations_rows Operations_ok Operations_abs d ch"
    by (rule fits_opt_chunk [OF _ _ _ Operations_row_for(1)])
      (use wr in \<open>simp_all add: AOperations_wire_def Operations_parse_operation_avaliable_yields\<close>)
  show "\<forall>ch \<in> set (rep_chunks 2 WIRETYPE_LENGTH_DELIMITED (\<lambda>x. enc_bytes (AOperation_encode x)) (\<lambda>x. AOperations_operations_update (\<lambda>xs. xs @ [x])) (AOperations_operations a)). fits_row Operations_rows Operations_ok Operations_abs d ch"
  proof (rule fits_rep_chunks [OF _ _ _ Operations_row_for(2)])
    fix x
    assume "x \<in> set (AOperations_operations a)"
    with wr have x: "0 < d" "AOperation_wire (d - 1) x" "length (AOperation_encode x) < 2 ^ 31" by (simp_all add: AOperations_wire_def)
    show "enc_bytes (AOperation_encode x) \<noteq> [] \<and> yields d Operations_ok Operations_abs (row_parse \<lparr>row_number = 2, row_wiretype = WIRETYPE_LENGTH_DELIMITED, row_parse = Operations_parse_operations, row_expects = [(18, 2)], row_at_end = True\<rparr>) (enc_bytes (AOperation_encode x))
        (AOperations_operations_update (\<lambda>xs. xs @ [x]))"
      using Operations_parse_operations_yields [OF x(2,3)] x(1) by simp
  qed simp_all
qed

interpretation operations_format: message_format Operations_rows Operations_unknown "(\<lambda>u m. m\<lparr>Operations_unknown := u\<rparr>)" Operations_ok Operations_abs "(\<lambda>f. AOperations_unknown_update (\<lambda>u. u @ [f]))"
proof
  show "rows_closed Operations_rows" by (rule Operations_rows_closed)
  fix r m c
  assume "r \<in> set Operations_rows" "Operations_ok m" "cis_ok c"
  then show "safe Operations_ok 1 c (row_parse r m c)"
    by (auto simp: Operations_rows_def Operations_parse_operation_avaliable_safe Operations_parse_operations_safe simp del: One_nat_def)
qed (simp_all add: Operations_unknown_abs)

lemma Operations_MergePartial_safe: "Operations_ok m \<Longrightarrow> cis_ok c \<Longrightarrow> safe Operations_ok 0 c (Operations_MergePartialFromCodedStream m c)"
  unfolding Operations_MergePartialFromCodedStream_def by (rule operations_format.MergePartial_safe)

lemma Operations_MergePartial_parses:
  assumes "AOperations_wire d a"
  shows "parses d Operations_ok Operations_abs Operations_MergePartialFromCodedStream (AOperations_encode a) (AOperations_merge a)"
proof -
  have u: "\<forall>f \<in> set (AOperations_unknown a). fits_unknown Operations_rows d f" using assms by (simp add: AOperations_wire_def)
  have e: "fold (\<lambda>f. AOperations_unknown_update (\<lambda>u. u @ [f])) (AOperations_unknown a) \<circ> effects (AOperations_chunks a) = AOperations_merge a"
    by (rule ext) (rule AOperations_effects)
  from operations_format.MergePartial_parses [OF AOperations_chunks_fit [OF assms] u] show ?thesis
    unfolding e AOperations_chunks_bytes by (simp add: Operations_MergePartialFromCodedStream_def [abs_def])
qed

end
