(* ===== verification/Parse_Meeting.thy ===== *)
theory Parse_Meeting
  imports Message_Format Pb_Document Pb_Meeting Pb_User Pb_Heart
begin

text \<open>
  \<^verbatim>\<open>MergePartialFromCodedStream\<close> of the messages about documents, meetings and users, in
  \<^verbatim>\<open>message.pb.cc\<close>, along the lines of \<^verbatim>\<open>Parse_Operations\<close>.
\<close>

section \<open>Parsing \<^verbatim>\<open>Document\<close>\<close>

definition Document_parse_serial_number :: "Document \<Rightarrow> cis \<Rightarrow> Document got" where
  "Document_parse_serial_number m c =
     got_bind (ReadPrimitive_UINT32 c) (\<lambda>v c. Got (Document_set_has_serial_number (m\<lparr>Document_serial_number_fld := v\<rparr>)) c)"

definition Document_parse_data :: "Document \<Rightarrow> cis \<Rightarrow> Document got" where
  "Document_parse_data m c =
     got_bind (WFL_ReadBytes c) (\<lambda>s c. Got (Document_mutable_data (\<lambda>_. s) m) c)"

definition Document_parse_user_name :: "Document \<Rightarrow> cis \<Rightarrow> Document got" where
  "Document_parse_user_name m c =
     got_bind (WFL_ReadString c) (\<lambda>s c. Got (Document_mutable_user_name (\<lambda>_. s) m) c)"

definition Document_rows :: "Document row list" where
  "Document_rows =
    [\<lparr>row_number = 1, row_wiretype = WIRETYPE_VARINT, row_parse = Document_parse_serial_number, row_expects = [(18, 2)], row_at_end = False\<rparr>,
     \<lparr>row_number = 2, row_wiretype = WIRETYPE_LENGTH_DELIMITED, row_parse = Document_parse_data, row_expects = [(26, 3)], row_at_end = False\<rparr>,
     \<lparr>row_number = 3, row_wiretype = WIRETYPE_LENGTH_DELIMITED, row_parse = Document_parse_user_name, row_expects = [], row_at_end = True\<rparr>]"

definition Document_MergePartialFromCodedStream :: "Document \<Rightarrow> cis \<Rightarrow> Document got" where
  "Document_MergePartialFromCodedStream m c =
     MergePartial Document_rows (skip_into Document_unknown (\<lambda>u m. m\<lparr>Document_unknown := u\<rparr>)) m c"

lemma Document_row_for [simp]:
  "row_for Document_rows 1 = Some \<lparr>row_number = 1, row_wiretype = WIRETYPE_VARINT, row_parse = Document_parse_serial_number, row_expects = [(18, 2)], row_at_end = False\<rparr>"
  "row_for Document_rows 2 = Some \<lparr>row_number = 2, row_wiretype = WIRETYPE_LENGTH_DELIMITED, row_parse = Document_parse_data, row_expects = [(26, 3)], row_at_end = False\<rparr>"
  "row_for Document_rows 3 = Some \<lparr>row_number = 3, row_wiretype = WIRETYPE_LENGTH_DELIMITED, row_parse = Document_parse_user_name, row_expects = [], row_at_end = True\<rparr>"
  by (simp_all add: row_for_def Document_rows_def)

lemma Document_rows_closed: "rows_closed Document_rows"
  by (simp add: rows_closed_def Document_rows_def row_for_def tag_parts wiretypes)

lemma Document_unknown_simps [simp]:
  "Document_ok (m\<lparr>Document_unknown := u\<rparr>) = Document_ok m" "Document_abs (m\<lparr>Document_unknown := u\<rparr>) = (Document_abs m)\<lparr>ADocument_unknown := u\<rparr>"
  by (simp_all add: Document_ok_def Document_abs_def Document_presence Document_accessors)

lemma Document_parse_serial_number_steps:
  assumes "Document_ok m"
  shows "Document_ok (Document_set_has_serial_number (m\<lparr>Document_serial_number_fld := v\<rparr>))" "Document_abs (Document_set_has_serial_number (m\<lparr>Document_serial_number_fld := v\<rparr>)) = ADocument_serial_number_update (or_else (Some v)) (Document_abs m)"
proof -
  have e: "Document_set_has_serial_number (m\<lparr>Document_serial_number_fld := v\<rparr>) = Document_set_serial_number v m"
    by (simp add: Document_presence Document_accessors Let_def)
  show "Document_ok (Document_set_has_serial_number (m\<lparr>Document_serial_number_fld := v\<rparr>))" "Document_abs (Document_set_has_serial_number (m\<lparr>Document_serial_number_fld := v\<rparr>)) = ADocument_serial_number_update (or_else (Some v)) (Document_abs m)"
    unfolding e using assms by simp_all
qed

lemma Document_parse_serial_number_safe: "Document_ok m \<Longrightarrow> cis_ok c \<Longrightarrow> safe Document_ok 1 c (Document_parse_serial_number m c)"
  unfolding Document_parse_serial_number_def by (rule safe_value) (simp_all add: primitive_sound Document_parse_serial_number_steps del: One_nat_def)

lemma Document_parse_serial_number_yields:
  "yields d Document_ok Document_abs Document_parse_serial_number (enc_uint32 v) (ADocument_serial_number_update (or_else (Some v)))"
  unfolding Document_parse_serial_number_def by (rule yields_value [OF reads_primitive(3)]) (simp_all add: Document_parse_serial_number_steps)

lemma Document_parse_data_steps:
  assumes "Document_ok m"
  shows "Document_ok (Document_mutable_data (\<lambda>_. v) m)" "Document_abs (Document_mutable_data (\<lambda>_. v) m) = ADocument_data_update (or_else (Some v)) (Document_abs m)"
proof -
  have e: "Document_mutable_data (\<lambda>_. v) m = Document_set_data v m"
    by (simp add: Document_presence Document_accessors Let_def)
  show "Document_ok (Document_mutable_data (\<lambda>_. v) m)" "Document_abs (Document_mutable_data (\<lambda>_. v) m) = ADocument_data_update (or_else (Some v)) (Document_abs m)"
    unfolding e using assms by simp_all
qed

lemma Document_parse_data_safe: "Document_ok m \<Longrightarrow> cis_ok c \<Longrightarrow> safe Document_ok 1 c (Document_parse_data m c)"
  unfolding Document_parse_data_def by (rule safe_value) (simp_all add: primitive_sound Document_parse_data_steps del: One_nat_def)

lemma Document_parse_data_yields:
  "length v < 2 ^ 31 \<Longrightarrow> yields d Document_ok Document_abs Document_parse_data (enc_bytes v) (ADocument_data_update (or_else (Some v)))"
  unfolding Document_parse_data_def by (rule yields_value [OF reads_primitive(6)]) (simp_all add: Document_parse_data_steps)

lemma Document_parse_user_name_steps:
  assumes "Document_ok m"
  shows "Document_ok (Document_mutable_user_name (\<lambda>_. v) m)" "Document_abs (Document_mutable_user_name (\<lambda>_. v) m) = ADocument_user_name_update (or_else (Some v)) (Document_abs m)"
proof -
  have e: "Document_mutable_user_name (\<lambda>_. v) m = Document_set_user_name v m"
    by (simp add: Document_presence Document_accessors Let_def)
  show "Document_ok (Document_mutable_user_name (\<lambda>_. v) m)" "Document_abs (Document_mutable_user_name (\<lambda>_. v) m) = ADocument_user_name_update (or_else (Some v)) (Document_abs m)"
    unfolding e using assms by simp_all
qed

lemma Document_parse_user_name_safe: "Document_ok m \<Longrightarrow> cis_ok c \<Longrightarrow> safe Document_ok 1 c (Document_parse_user_name m c)"
  unfolding Document_parse_user_name_def by (rule safe_value) (simp_all add: primitive_sound Document_parse_user_name_steps del: One_nat_def)

lemma Document_parse_user_name_yields:
  "length v < 2 ^ 31 \<Longrightarrow> yields d Document_ok Document_abs Document_parse_user_name (enc_bytes v) (ADocument_user_name_update (or_else (Some v)))"
  unfolding Document_parse_user_name_def by (rule yields_value [OF reads_primitive(5)]) (simp_all add: Document_parse_user_name_steps)

definition ADocument_wire :: "nat \<Rightarrow> ADocument \<Rightarrow> bool" where
  "ADocument_wire d a \<longleftrightarrow>
     all_opt (\<lambda>s. length s < 2 ^ 31) (ADocument_data a) \<and>
     all_opt (\<lambda>s. length s < 2 ^ 31) (ADocument_user_name a) \<and>
     (\<forall>f \<in> set (ADocument_unknown a). fits_unknown Document_rows d f)"

definition ADocument_chunks :: "ADocument \<Rightarrow> ADocument chunk list" where
  "ADocument_chunks a =
     opt_chunk 1 WIRETYPE_VARINT enc_uint32 (\<lambda>v. ADocument_serial_number_update (or_else v)) (ADocument_serial_number a) @
     opt_chunk 2 WIRETYPE_LENGTH_DELIMITED enc_bytes (\<lambda>v. ADocument_data_update (or_else v)) (ADocument_data a) @
     opt_chunk 3 WIRETYPE_LENGTH_DELIMITED enc_bytes (\<lambda>v. ADocument_user_name_update (or_else v)) (ADocument_user_name a)"

lemma ADocument_chunks_bytes:
  "chunks_bytes (ADocument_chunks a) @ SerializeUnknownFieldsToArray (ADocument_unknown a) [] = ADocument_encode a"
  by (simp add: ADocument_chunks_def ADocument_encode_def opt_chunk_bytes rep_chunks_bytes)

lemma ADocument_add_unknown: "fold (\<lambda>f. ADocument_unknown_update (\<lambda>u. u @ [f])) fs b = ADocument_unknown_update (\<lambda>u. u @ fs) b"
  by (induction fs arbitrary: b) simp_all

lemma ADocument_effects: "(fold (\<lambda>f. ADocument_unknown_update (\<lambda>u. u @ [f])) (ADocument_unknown a) \<circ> effects (ADocument_chunks a)) b = ADocument_merge a b"
proof -
  have "(fold (\<lambda>f. ADocument_unknown_update (\<lambda>u. u @ [f])) (ADocument_unknown a) \<circ> effects (ADocument_chunks a)) b =
      ADocument_unknown_update (\<lambda>u. u @ ADocument_unknown a)
        (ADocument_user_name_update (or_else (ADocument_user_name a))
        (ADocument_data_update (or_else (ADocument_data a))
        (ADocument_serial_number_update (or_else (ADocument_serial_number a)) b)))"
    by (simp add: ADocument_chunks_def opt_chunk_effect rep_chunks_effect ADocument_add_unknown)
  then show ?thesis
    by (cases b) (simp add: ADocument_merge_def)
qed

lemma ADocument_chunks_fit: "ADocument_wire d a \<Longrightarrow> \<forall>ch \<in> set (ADocument_chunks a). fits_row Document_rows Document_ok Document_abs d ch"
  unfolding ADocument_chunks_def set_append ball_Un
proof (intro conjI)
  assume wr: "ADocument_wire d a"
  show "\<forall>ch \<in> set (opt_chunk 1 WIRETYPE_VARINT enc_uint32 (\<lambda>v. ADocument_serial_number_update (or_else v)) (ADocument_serial_number a)). fits_row Document_rows Document_ok Document_abs d ch"
    by (rule fits_opt_chunk [OF _ _ _ Document_row_for(1)])
      (use wr in \<open>simp_all add: ADocument_wire_def Document_parse_serial_number_yields\<close>)
  show "\<forall>ch \<in> set (opt_chunk 2 WIRETYPE_LENGTH_DELIMITED enc_bytes (\<lambda>v. ADocument_data_update (or_else v)) (ADocument_data a)). fits_row Document_rows Document_ok Document_abs d ch"
    by (rule fits_opt_chunk [OF _ _ _ Document_row_for(2)])
      (use wr in \<open>simp_all add: ADocument_wire_def Document_parse_data_yields\<close>)
  show "\<forall>ch \<in> set (opt_chunk 3 WIRETYPE_LENGTH_DELIMITED enc_bytes (\<lambda>v. ADocument_user_name_update (or_else v)) (ADocument_user_name a)). fits_row Document_rows Document_ok Document_abs d ch"
    by (rule fits_opt_chunk [OF _ _ _ Document_row_for(3)])
      (use wr in \<open>simp_all add: ADocument_wire_def Document_parse_user_name_yields\<close>)
qed

interpretation document_format: message_format Document_rows Document_unknown "(\<lambda>u m. m\<lparr>Document_unknown := u\<rparr>)" Document_ok Document_abs "(\<lambda>f. ADocument_unknown_update (\<lambda>u. u @ [f]))"
proof
  show "rows_closed Document_rows" by (rule Document_rows_closed)
  fix r m c
  assume "r \<in> set Document_rows" "Document_ok m" "cis_ok c"
  then show "safe Document_ok 1 c (row_parse r m c)"
    by (auto simp: Document_rows_def Document_parse_serial_number_safe Document_parse_data_safe Document_parse_user_name_safe simp del: One_nat_def)
qed (simp_all add: Document_unknown_abs)

lemma Document_MergePartial_safe: "Document_ok m \<Longrightarrow> cis_ok c \<Longrightarrow> safe Document_ok 0 c (Document_MergePartialFromCodedStream m c)"
  unfolding Document_MergePartialFromCodedStream_def by (rule document_format.MergePartial_safe)

interpretation document_added: parsed_handler Document_default Document_Clear Document_MergeFrom Document_ok Document_abs Document_MergePartialFromCodedStream
  by unfold_locales (rule Document_MergePartial_safe)

lemma Document_MergePartial_parses:
  assumes "ADocument_wire d a"
  shows "parses d Document_ok Document_abs Document_MergePartialFromCodedStream (ADocument_encode a) (ADocument_merge a)"
proof -
  have u: "\<forall>f \<in> set (ADocument_unknown a). fits_unknown Document_rows d f" using assms by (simp add: ADocument_wire_def)
  have e: "fold (\<lambda>f. ADocument_unknown_update (\<lambda>u. u @ [f])) (ADocument_unknown a) \<circ> effects (ADocument_chunks a) = ADocument_merge a"
    by (rule ext) (rule ADocument_effects)
  from document_format.MergePartial_parses [OF ADocument_chunks_fit [OF assms] u] show ?thesis
    unfolding e ADocument_chunks_bytes by (simp add: Document_MergePartialFromCodedStream_def [abs_def])
qed

section \<open>Parsing \<^verbatim>\<open>DocumentList\<close>\<close>

definition DocumentList_parse_history_document :: "DocumentList \<Rightarrow> cis \<Rightarrow> DocumentList got" where
  "DocumentList_parse_history_document m c =
     got_bind (ReadAdded Document_default Document_MergePartialFromCodedStream (DocumentList_history_document_fld m) c)
       (\<lambda>r c. Got (m\<lparr>DocumentList_history_document_fld := r\<rparr>) c)"

definition DocumentList_rows :: "DocumentList row list" where
  "DocumentList_rows =
    [\<lparr>row_number = 1, row_wiretype = WIRETYPE_LENGTH_DELIMITED, row_parse = DocumentList_parse_history_document, row_expects = [(10, 1)], row_at_end = True\<rparr>]"

definition DocumentList_MergePartialFromCodedStream :: "DocumentList \<Rightarrow> cis \<Rightarrow> DocumentList got" where
  "DocumentList_MergePartialFromCodedStream m c =
     MergePartial DocumentList_rows (skip_into DocumentList_unknown (\<lambda>u m. m\<lparr>DocumentList_unknown := u\<rparr>)) m c"

lemma DocumentList_row_for [simp]:
  "row_for DocumentList_rows 1 = Some \<lparr>row_number = 1, row_wiretype = WIRETYPE_LENGTH_DELIMITED, row_parse = DocumentList_parse_history_document, row_expects = [(10, 1)], row_at_end = True\<rparr>"
  by (simp_all add: row_for_def DocumentList_rows_def)

lemma DocumentList_rows_closed: "rows_closed DocumentList_rows"
  by (simp add: rows_closed_def DocumentList_rows_def row_for_def tag_parts wiretypes)

lemma DocumentList_unknown_simps [simp]:
  "DocumentList_ok (m\<lparr>DocumentList_unknown := u\<rparr>) = DocumentList_ok m" "DocumentList_abs (m\<lparr>DocumentList_unknown := u\<rparr>) = (DocumentList_abs m)\<lparr>ADocumentList_unknown := u\<rparr>"
  by (simp_all add: DocumentList_ok_def DocumentList_abs_def DocumentList_accessors)

lemma DocumentList_ok_fld: "DocumentList_ok m \<Longrightarrow> document_th.good r \<Longrightarrow> DocumentList_ok (m\<lparr>DocumentList_history_document_fld := r\<rparr>)"
  by (simp add: DocumentList_ok_def DocumentList_accessors)

lemma DocumentList_parse_history_document_safe: "DocumentList_ok m \<Longrightarrow> cis_ok c \<Longrightarrow> safe DocumentList_ok 1 c (DocumentList_parse_history_document m c)"
  unfolding DocumentList_parse_history_document_def
  by (rule safe_field [where ok' = document_th.good], rule document_added.ReadAdded_safe)
    (simp_all add: DocumentList_good Document_MergePartial_safe DocumentList_ok_fld)

lemma DocumentList_parse_history_document_yields:
  assumes "ADocument_wire d x" "length (ADocument_encode x) < 2 ^ 31"
  shows "yields (Suc d) DocumentList_ok DocumentList_abs DocumentList_parse_history_document (enc_bytes (ADocument_encode x)) (ADocumentList_history_document_update (\<lambda>xs. xs @ [x]))"
  unfolding DocumentList_parse_history_document_def
proof (rule yields_field [OF document_added.ReadAdded_yields [OF Document_MergePartial_parses [OF assms(1)] assms(2)], where get = DocumentList_history_document_fld])
  fix m r
  assume m: "DocumentList_ok m" "document_th.good r"
    "document_th.views r = document_th.views (DocumentList_history_document_fld m) @ [ADocument_merge x (Document_abs Document_default)]"
  then show "DocumentList_abs (m\<lparr>DocumentList_history_document_fld := r\<rparr>) = ADocumentList_history_document_update (\<lambda>xs. xs @ [x]) (DocumentList_abs m)"
    by (simp add: DocumentList_abs_def DocumentList_accessors document_th.views_def)
qed (simp_all add: DocumentList_good DocumentList_ok_fld)

definition ADocumentList_wire :: "nat \<Rightarrow> ADocumentList \<Rightarrow> bool" where
  "ADocumentList_wire d a \<longleftrightarrow>
     (\<forall>x \<in> set (ADocumentList_history_document a). 0 < d \<and> ADocument_wire (d - 1) x \<and> length (ADocument_encode x) < 2 ^ 31) \<and>
     (\<forall>f \<in> set (ADocumentList_unknown a). fits_unknown DocumentList_rows d f)"

definition ADocumentList_chunks :: "ADocumentList \<Rightarrow> ADocumentList chunk list" where
  "ADocumentList_chunks a =
     rep_chunks 1 WIRETYPE_LENGTH_DELIMITED (\<lambda>x. enc_bytes (ADocument_encode x)) (\<lambda>x. ADocumentList_history_document_update (\<lambda>xs. xs @ [x])) (ADocumentList_history_document a)"

lemma ADocumentList_chunks_bytes:
  "chunks_bytes (ADocumentList_chunks a) @ SerializeUnknownFieldsToArray (ADocumentList_unknown a) [] = ADocumentList_encode a"
  by (simp add: ADocumentList_chunks_def ADocumentList_encode_def opt_chunk_bytes rep_chunks_bytes)

lemma ADocumentList_add_unknown: "fold (\<lambda>f. ADocumentList_unknown_update (\<lambda>u. u @ [f])) fs b = ADocumentList_unknown_update (\<lambda>u. u @ fs) b"
  by (induction fs arbitrary: b) simp_all

lemma ADocumentList_add_history_document: "fold (\<lambda>x. ADocumentList_history_document_update (\<lambda>xs. xs @ [x])) vs b = ADocumentList_history_document_update (\<lambda>xs. xs @ vs) b"
  by (induction vs arbitrary: b) simp_all

lemma ADocumentList_effects: "(fold (\<lambda>f. ADocumentList_unknown_update (\<lambda>u. u @ [f])) (ADocumentList_unknown a) \<circ> effects (ADocumentList_chunks a)) b = ADocumentList_merge a b"
proof -
  have "(fold (\<lambda>f. ADocumentList_unknown_update (\<lambda>u. u @ [f])) (ADocumentList_unknown a) \<circ> effects (ADocumentList_chunks a)) b =
      ADocumentList_unknown_update (\<lambda>u. u @ ADocumentList_unknown a)
        (ADocumentList_history_document_update (\<lambda>xs. xs @ ADocumentList_history_document a) b)"
    by (simp add: ADocumentList_chunks_def opt_chunk_effect rep_chunks_effect ADocumentList_add_unknown ADocumentList_add_history_document)
  then show ?thesis
    by (cases b) (simp add: ADocumentList_merge_def)
qed

lemma ADocumentList_chunks_fit: "ADocumentList_wire d a \<Longrightarrow> \<forall>ch \<in> set (ADocumentList_chunks a). fits_row DocumentList_rows DocumentList_ok DocumentList_abs d ch"
  unfolding ADocumentList_chunks_def
proof -
  assume wr: "ADocumentList_wire d a"
  show "\<forall>ch \<in> set (rep_chunks 1 WIRETYPE_LENGTH_DELIMITED (\<lambda>x. enc_bytes (ADocument_encode x)) (\<lambda>x. ADocumentList_history_document_update (\<lambda>xs. xs @ [x])) (ADocumentList_history_document a)). fits_row DocumentList_rows DocumentList_ok DocumentList_abs d ch"
  proof (rule fits_rep_chunks [OF _ _ _ DocumentList_row_for(1)])
    fix x
    assume "x \<in> set (ADocumentList_history_document a)"
    with wr have x: "0 < d" "ADocument_wire (d - 1) x" "length (ADocument_encode x) < 2 ^ 31" by (simp_all add: ADocumentList_wire_def)
    show "enc_bytes (ADocument_encode x) \<noteq> [] \<and> yields d DocumentList_ok DocumentList_abs (row_parse \<lparr>row_number = 1, row_wiretype = WIRETYPE_LENGTH_DELIMITED, row_parse = DocumentList_parse_history_document, row_expects = [(10, 1)], row_at_end = True\<rparr>) (enc_bytes (ADocument_encode x))
        (ADocumentList_history_document_update (\<lambda>xs. xs @ [x]))"
      using DocumentList_parse_history_document_yields [OF x(2,3)] x(1) by simp
  qed simp_all
qed

interpretation documentlist_format: message_format DocumentList_rows DocumentList_unknown "(\<lambda>u m. m\<lparr>DocumentList_unknown := u\<rparr>)" DocumentList_ok DocumentList_abs "(\<lambda>f. ADocumentList_unknown_update (\<lambda>u. u @ [f]))"
proof
  show "rows_closed DocumentList_rows" by (rule DocumentList_rows_closed)
  fix r m c
  assume "r \<in> set DocumentList_rows" "DocumentList_ok m" "cis_ok c"
  then show "safe DocumentList_ok 1 c (row_parse r m c)"
    by (auto simp: DocumentList_rows_def DocumentList_parse_history_document_safe simp del: One_nat_def)
qed (simp_all add: DocumentList_unknown_abs)

lemma DocumentList_MergePartial_safe: "DocumentList_ok m \<Longrightarrow> cis_ok c \<Longrightarrow> safe DocumentList_ok 0 c (DocumentList_MergePartialFromCodedStream m c)"
  unfolding DocumentList_MergePartialFromCodedStream_def by (rule documentlist_format.MergePartial_safe)

lemma DocumentList_MergePartial_parses:
  assumes "ADocumentList_wire d a"
  shows "parses d DocumentList_ok DocumentList_abs DocumentList_MergePartialFromCodedStream (ADocumentList_encode a) (ADocumentList_merge a)"
proof -
  have u: "\<forall>f \<in> set (ADocumentList_unknown a). fits_unknown DocumentList_rows d f" using assms by (simp add: ADocumentList_wire_def)
  have e: "fold (\<lambda>f. ADocumentList_unknown_update (\<lambda>u. u @ [f])) (ADocumentList_unknown a) \<circ> effects (ADocumentList_chunks a) = ADocumentList_merge a"
    by (rule ext) (rule ADocumentList_effects)
  from documentlist_format.MergePartial_parses [OF ADocumentList_chunks_fit [OF assms] u] show ?thesis
    unfolding e ADocumentList_chunks_bytes by (simp add: DocumentList_MergePartialFromCodedStream_def [abs_def])
qed

section \<open>Parsing \<^verbatim>\<open>MeetingServerInfo\<close>\<close>

definition MeetingServerInfo_parse_port :: "MeetingServerInfo \<Rightarrow> cis \<Rightarrow> MeetingServerInfo got" where
  "MeetingServerInfo_parse_port m c =
     got_bind (ReadPrimitive_INT32 c) (\<lambda>v c. Got (MeetingServerInfo_set_has_port (m\<lparr>MeetingServerInfo_port_fld := v\<rparr>)) c)"

definition MeetingServerInfo_parse_server_ip :: "MeetingServerInfo \<Rightarrow> cis \<Rightarrow> MeetingServerInfo got" where
  "MeetingServerInfo_parse_server_ip m c =
     got_bind (WFL_ReadString c) (\<lambda>s c. Got (MeetingServerInfo_mutable_server_ip (\<lambda>_. s) m) c)"

definition MeetingServerInfo_rows :: "MeetingServerInfo row list" where
  "MeetingServerInfo_rows =
    [\<lparr>row_number = 1, row_wiretype = WIRETYPE_VARINT, row_parse = MeetingServerInfo_parse_port, row_expects = [(18, 2)], row_at_end = False\<rparr>,
     \<lparr>row_number = 2, row_wiretype = WIRETYPE_LENGTH_DELIMITED, row_parse = MeetingServerInfo_parse_server_ip, row_expects = [], row_at_end = True\<rparr>]"

definition MeetingServerInfo_MergePartialFromCodedStream :: "MeetingServerInfo \<Rightarrow> cis \<Rightarrow> MeetingServerInfo got" where
  "MeetingServerInfo_MergePartialFromCodedStream m c =
     MergePartial MeetingServerInfo_rows (skip_into MeetingServerInfo_unknown (\<lambda>u m. m\<lparr>MeetingServerInfo_unknown := u\<rparr>)) m c"

lemma MeetingServerInfo_row_for [simp]:
  "row_for MeetingServerInfo_rows 1 = Some \<lparr>row_number = 1, row_wiretype = WIRETYPE_VARINT, row_parse = MeetingServerInfo_parse_port, row_expects = [(18, 2)], row_at_end = False\<rparr>"
  "row_for MeetingServerInfo_rows 2 = Some \<lparr>row_number = 2, row_wiretype = WIRETYPE_LENGTH_DELIMITED, row_parse = MeetingServerInfo_parse_server_ip, row_expects = [], row_at_end = True\<rparr>"
  by (simp_all add: row_for_def MeetingServerInfo_rows_def)

lemma MeetingServerInfo_rows_closed: "rows_closed MeetingServerInfo_rows"
  by (simp add: rows_closed_def MeetingServerInfo_rows_def row_for_def tag_parts wiretypes)

lemma MeetingServerInfo_unknown_simps [simp]:
  "MeetingServerInfo_ok (m\<lparr>MeetingServerInfo_unknown := u\<rparr>) = MeetingServerInfo_ok m" "MeetingServerInfo_abs (m\<lparr>MeetingServerInfo_unknown := u\<rparr>) = (MeetingServerInfo_abs m)\<lparr>AMeetingServerInfo_unknown := u\<rparr>"
  by (simp_all add: MeetingServerInfo_ok_def MeetingServerInfo_abs_def MeetingServerInfo_presence MeetingServerInfo_accessors)

lemma MeetingServerInfo_parse_port_steps:
  assumes "MeetingServerInfo_ok m"
  shows "MeetingServerInfo_ok (MeetingServerInfo_set_has_port (m\<lparr>MeetingServerInfo_port_fld := v\<rparr>))" "MeetingServerInfo_abs (MeetingServerInfo_set_has_port (m\<lparr>MeetingServerInfo_port_fld := v\<rparr>)) = AMeetingServerInfo_port_update (or_else (Some v)) (MeetingServerInfo_abs m)"
proof -
  have e: "MeetingServerInfo_set_has_port (m\<lparr>MeetingServerInfo_port_fld := v\<rparr>) = MeetingServerInfo_set_port v m"
    by (simp add: MeetingServerInfo_presence MeetingServerInfo_accessors Let_def)
  show "MeetingServerInfo_ok (MeetingServerInfo_set_has_port (m\<lparr>MeetingServerInfo_port_fld := v\<rparr>))" "MeetingServerInfo_abs (MeetingServerInfo_set_has_port (m\<lparr>MeetingServerInfo_port_fld := v\<rparr>)) = AMeetingServerInfo_port_update (or_else (Some v)) (MeetingServerInfo_abs m)"
    unfolding e using assms by simp_all
qed

lemma MeetingServerInfo_parse_port_safe: "MeetingServerInfo_ok m \<Longrightarrow> cis_ok c \<Longrightarrow> safe MeetingServerInfo_ok 1 c (MeetingServerInfo_parse_port m c)"
  unfolding MeetingServerInfo_parse_port_def by (rule safe_value) (simp_all add: primitive_sound MeetingServerInfo_parse_port_steps del: One_nat_def)

lemma MeetingServerInfo_parse_port_yields:
  "yields d MeetingServerInfo_ok MeetingServerInfo_abs MeetingServerInfo_parse_port (enc_int32 v) (AMeetingServerInfo_port_update (or_else (Some v)))"
  unfolding MeetingServerInfo_parse_port_def by (rule yields_value [OF reads_primitive(1)]) (simp_all add: MeetingServerInfo_parse_port_steps)

lemma MeetingServerInfo_parse_server_ip_steps:
  assumes "MeetingServerInfo_ok m"
  shows "MeetingServerInfo_ok (MeetingServerInfo_mutable_server_ip (\<lambda>_. v) m)" "MeetingServerInfo_abs (MeetingServerInfo_mutable_server_ip (\<lambda>_. v) m) = AMeetingServerInfo_server_ip_update (or_else (Some v)) (MeetingServerInfo_abs m)"
proof -
  have e: "MeetingServerInfo_mutable_server_ip (\<lambda>_. v) m = MeetingServerInfo_set_server_ip v m"
    by (simp add: MeetingServerInfo_presence MeetingServerInfo_accessors Let_def)
  show "MeetingServerInfo_ok (MeetingServerInfo_mutable_server_ip (\<lambda>_. v) m)" "MeetingServerInfo_abs (MeetingServerInfo_mutable_server_ip (\<lambda>_. v) m) = AMeetingServerInfo_server_ip_update (or_else (Some v)) (MeetingServerInfo_abs m)"
    unfolding e using assms by simp_all
qed

lemma MeetingServerInfo_parse_server_ip_safe: "MeetingServerInfo_ok m \<Longrightarrow> cis_ok c \<Longrightarrow> safe MeetingServerInfo_ok 1 c (MeetingServerInfo_parse_server_ip m c)"
  unfolding MeetingServerInfo_parse_server_ip_def by (rule safe_value) (simp_all add: primitive_sound MeetingServerInfo_parse_server_ip_steps del: One_nat_def)

lemma MeetingServerInfo_parse_server_ip_yields:
  "length v < 2 ^ 31 \<Longrightarrow> yields d MeetingServerInfo_ok MeetingServerInfo_abs MeetingServerInfo_parse_server_ip (enc_bytes v) (AMeetingServerInfo_server_ip_update (or_else (Some v)))"
  unfolding MeetingServerInfo_parse_server_ip_def by (rule yields_value [OF reads_primitive(5)]) (simp_all add: MeetingServerInfo_parse_server_ip_steps)

definition AMeetingServerInfo_wire :: "nat \<Rightarrow> AMeetingServerInfo \<Rightarrow> bool" where
  "AMeetingServerInfo_wire d a \<longleftrightarrow>
     all_opt (\<lambda>s. length s < 2 ^ 31) (AMeetingServerInfo_server_ip a) \<and>
     (\<forall>f \<in> set (AMeetingServerInfo_unknown a). fits_unknown MeetingServerInfo_rows d f)"

definition AMeetingServerInfo_chunks :: "AMeetingServerInfo \<Rightarrow> AMeetingServerInfo chunk list" where
  "AMeetingServerInfo_chunks a =
     opt_chunk 1 WIRETYPE_VARINT enc_int32 (\<lambda>v. AMeetingServerInfo_port_update (or_else v)) (AMeetingServerInfo_port a) @
     opt_chunk 2 WIRETYPE_LENGTH_DELIMITED enc_bytes (\<lambda>v. AMeetingServerInfo_server_ip_update (or_else v)) (AMeetingServerInfo_server_ip a)"

lemma AMeetingServerInfo_chunks_bytes:
  "chunks_bytes (AMeetingServerInfo_chunks a) @ SerializeUnknownFieldsToArray (AMeetingServerInfo_unknown a) [] = AMeetingServerInfo_encode a"
  by (simp add: AMeetingServerInfo_chunks_def AMeetingServerInfo_encode_def opt_chunk_bytes rep_chunks_bytes)

lemma AMeetingServerInfo_add_unknown: "fold (\<lambda>f. AMeetingServerInfo_unknown_update (\<lambda>u. u @ [f])) fs b = AMeetingServerInfo_unknown_update (\<lambda>u. u @ fs) b"
  by (induction fs arbitrary: b) simp_all

lemma AMeetingServerInfo_effects: "(fold (\<lambda>f. AMeetingServerInfo_unknown_update (\<lambda>u. u @ [f])) (AMeetingServerInfo_unknown a) \<circ> effects (AMeetingServerInfo_chunks a)) b = AMeetingServerInfo_merge a b"
proof -
  have "(fold (\<lambda>f. AMeetingServerInfo_unknown_update (\<lambda>u. u @ [f])) (AMeetingServerInfo_unknown a) \<circ> effects (AMeetingServerInfo_chunks a)) b =
      AMeetingServerInfo_unknown_update (\<lambda>u. u @ AMeetingServerInfo_unknown a)
        (AMeetingServerInfo_server_ip_update (or_else (AMeetingServerInfo_server_ip a))
        (AMeetingServerInfo_port_update (or_else (AMeetingServerInfo_port a)) b))"
    by (simp add: AMeetingServerInfo_chunks_def opt_chunk_effect rep_chunks_effect AMeetingServerInfo_add_unknown)
  then show ?thesis
    by (cases b) (simp add: AMeetingServerInfo_merge_def)
qed

lemma AMeetingServerInfo_chunks_fit: "AMeetingServerInfo_wire d a \<Longrightarrow> \<forall>ch \<in> set (AMeetingServerInfo_chunks a). fits_row MeetingServerInfo_rows MeetingServerInfo_ok MeetingServerInfo_abs d ch"
  unfolding AMeetingServerInfo_chunks_def set_append ball_Un
proof (intro conjI)
  assume wr: "AMeetingServerInfo_wire d a"
  show "\<forall>ch \<in> set (opt_chunk 1 WIRETYPE_VARINT enc_int32 (\<lambda>v. AMeetingServerInfo_port_update (or_else v)) (AMeetingServerInfo_port a)). fits_row MeetingServerInfo_rows MeetingServerInfo_ok MeetingServerInfo_abs d ch"
    by (rule fits_opt_chunk [OF _ _ _ MeetingServerInfo_row_for(1)])
      (use wr in \<open>simp_all add: AMeetingServerInfo_wire_def MeetingServerInfo_parse_port_yields\<close>)
  show "\<forall>ch \<in> set (opt_chunk 2 WIRETYPE_LENGTH_DELIMITED enc_bytes (\<lambda>v. AMeetingServerInfo_server_ip_update (or_else v)) (AMeetingServerInfo_server_ip a)). fits_row MeetingServerInfo_rows MeetingServerInfo_ok MeetingServerInfo_abs d ch"
    by (rule fits_opt_chunk [OF _ _ _ MeetingServerInfo_row_for(2)])
      (use wr in \<open>simp_all add: AMeetingServerInfo_wire_def MeetingServerInfo_parse_server_ip_yields\<close>)
qed

interpretation meetingserverinfo_format: message_format MeetingServerInfo_rows MeetingServerInfo_unknown "(\<lambda>u m. m\<lparr>MeetingServerInfo_unknown := u\<rparr>)" MeetingServerInfo_ok MeetingServerInfo_abs "(\<lambda>f. AMeetingServerInfo_unknown_update (\<lambda>u. u @ [f]))"
proof
  show "rows_closed MeetingServerInfo_rows" by (rule MeetingServerInfo_rows_closed)
  fix r m c
  assume "r \<in> set MeetingServerInfo_rows" "MeetingServerInfo_ok m" "cis_ok c"
  then show "safe MeetingServerInfo_ok 1 c (row_parse r m c)"
    by (auto simp: MeetingServerInfo_rows_def MeetingServerInfo_parse_port_safe MeetingServerInfo_parse_server_ip_safe simp del: One_nat_def)
qed (simp_all add: MeetingServerInfo_unknown_abs)

lemma MeetingServerInfo_MergePartial_safe: "MeetingServerInfo_ok m \<Longrightarrow> cis_ok c \<Longrightarrow> safe MeetingServerInfo_ok 0 c (MeetingServerInfo_MergePartialFromCodedStream m c)"
  unfolding MeetingServerInfo_MergePartialFromCodedStream_def by (rule meetingserverinfo_format.MergePartial_safe)

lemma MeetingServerInfo_MergePartial_parses:
  assumes "AMeetingServerInfo_wire d a"
  shows "parses d MeetingServerInfo_ok MeetingServerInfo_abs MeetingServerInfo_MergePartialFromCodedStream (AMeetingServerInfo_encode a) (AMeetingServerInfo_merge a)"
proof -
  have u: "\<forall>f \<in> set (AMeetingServerInfo_unknown a). fits_unknown MeetingServerInfo_rows d f" using assms by (simp add: AMeetingServerInfo_wire_def)
  have e: "fold (\<lambda>f. AMeetingServerInfo_unknown_update (\<lambda>u. u @ [f])) (AMeetingServerInfo_unknown a) \<circ> effects (AMeetingServerInfo_chunks a) = AMeetingServerInfo_merge a"
    by (rule ext) (rule AMeetingServerInfo_effects)
  from meetingserverinfo_format.MergePartial_parses [OF AMeetingServerInfo_chunks_fit [OF assms] u] show ?thesis
    unfolding e AMeetingServerInfo_chunks_bytes by (simp add: MeetingServerInfo_MergePartialFromCodedStream_def [abs_def])
qed

section \<open>Parsing \<^verbatim>\<open>JoinMeetingReturn\<close>\<close>

definition JoinState_IsValid :: "int32 \<Rightarrow> bool" where
  "JoinState_IsValid value \<longleftrightarrow> value \<in> {1, 2, 3, 4}"

definition JoinMeetingReturn_parse_join_state :: "JoinMeetingReturn \<Rightarrow> cis \<Rightarrow> JoinMeetingReturn got" where
  "JoinMeetingReturn_parse_join_state m c =
     got_bind (ReadPrimitive_ENUM c) (\<lambda>value c.
       Got (if JoinState_IsValid value then JoinMeetingReturn_set_join_state value m
            else m\<lparr>JoinMeetingReturn_unknown := AddVarint 1 (scast value) (JoinMeetingReturn_unknown m)\<rparr>) c)"

definition JoinMeetingReturn_parse_server_info :: "JoinMeetingReturn \<Rightarrow> cis \<Rightarrow> JoinMeetingReturn got" where
  "JoinMeetingReturn_parse_server_info m c =
     got_bind (ReadMessageNoVirtual MeetingServerInfo_MergePartialFromCodedStream (JoinMeetingReturn_server_info (JoinMeetingReturn_mutable_server_info (\<lambda>t. t) m)) c)
       (\<lambda>t c. Got (JoinMeetingReturn_mutable_server_info (\<lambda>_. t) (JoinMeetingReturn_mutable_server_info (\<lambda>t. t) m)) c)"

definition JoinMeetingReturn_rows :: "JoinMeetingReturn row list" where
  "JoinMeetingReturn_rows =
    [\<lparr>row_number = 1, row_wiretype = WIRETYPE_VARINT, row_parse = JoinMeetingReturn_parse_join_state, row_expects = [(18, 2)], row_at_end = False\<rparr>,
     \<lparr>row_number = 2, row_wiretype = WIRETYPE_LENGTH_DELIMITED, row_parse = JoinMeetingReturn_parse_server_info, row_expects = [], row_at_end = True\<rparr>]"

definition JoinMeetingReturn_MergePartialFromCodedStream :: "JoinMeetingReturn \<Rightarrow> cis \<Rightarrow> JoinMeetingReturn got" where
  "JoinMeetingReturn_MergePartialFromCodedStream m c =
     MergePartial JoinMeetingReturn_rows (skip_into JoinMeetingReturn_unknown (\<lambda>u m. m\<lparr>JoinMeetingReturn_unknown := u\<rparr>)) m c"

lemma JoinMeetingReturn_row_for [simp]:
  "row_for JoinMeetingReturn_rows 1 = Some \<lparr>row_number = 1, row_wiretype = WIRETYPE_VARINT, row_parse = JoinMeetingReturn_parse_join_state, row_expects = [(18, 2)], row_at_end = False\<rparr>"
  "row_for JoinMeetingReturn_rows 2 = Some \<lparr>row_number = 2, row_wiretype = WIRETYPE_LENGTH_DELIMITED, row_parse = JoinMeetingReturn_parse_server_info, row_expects = [], row_at_end = True\<rparr>"
  by (simp_all add: row_for_def JoinMeetingReturn_rows_def)

lemma JoinMeetingReturn_rows_closed: "rows_closed JoinMeetingReturn_rows"
  by (simp add: rows_closed_def JoinMeetingReturn_rows_def row_for_def tag_parts wiretypes)

lemma JoinMeetingReturn_unknown_simps [simp]:
  "JoinMeetingReturn_ok (m\<lparr>JoinMeetingReturn_unknown := u\<rparr>) = JoinMeetingReturn_ok m" "JoinMeetingReturn_abs (m\<lparr>JoinMeetingReturn_unknown := u\<rparr>) = (JoinMeetingReturn_abs m)\<lparr>AJoinMeetingReturn_unknown := u\<rparr>"
  by (simp_all add: JoinMeetingReturn_ok_def JoinMeetingReturn_abs_def JoinMeetingReturn_presence JoinMeetingReturn_accessors)

lemma JoinMeetingReturn_parse_join_state_safe: "JoinMeetingReturn_ok m \<Longrightarrow> cis_ok c \<Longrightarrow> safe JoinMeetingReturn_ok 1 c (JoinMeetingReturn_parse_join_state m c)"
  unfolding JoinMeetingReturn_parse_join_state_def by (rule safe_value) (simp_all add: primitive_sound del: One_nat_def)

lemma JoinMeetingReturn_parse_join_state_yields:
  "JoinState_IsValid v \<Longrightarrow> yields d JoinMeetingReturn_ok JoinMeetingReturn_abs JoinMeetingReturn_parse_join_state (enc_int32 v) (AJoinMeetingReturn_join_state_update (or_else (Some v)))"
  unfolding JoinMeetingReturn_parse_join_state_def by (rule yields_value [OF reads_primitive(2)]) simp_all

lemma JoinMeetingReturn_parse_server_info_steps:
  assumes "JoinMeetingReturn_ok m"
  shows "MeetingServerInfo_ok (JoinMeetingReturn_server_info (JoinMeetingReturn_mutable_server_info (\<lambda>t. t) m))"
    "MeetingServerInfo_abs (JoinMeetingReturn_server_info (JoinMeetingReturn_mutable_server_info (\<lambda>t. t) m)) = value_or AMeetingServerInfo_empty (AJoinMeetingReturn_server_info (JoinMeetingReturn_abs m))"
    "MeetingServerInfo_ok t \<Longrightarrow> JoinMeetingReturn_ok (JoinMeetingReturn_mutable_server_info (\<lambda>_. t) (JoinMeetingReturn_mutable_server_info (\<lambda>t. t) m))"
    "MeetingServerInfo_ok t \<Longrightarrow> JoinMeetingReturn_abs (JoinMeetingReturn_mutable_server_info (\<lambda>_. t) (JoinMeetingReturn_mutable_server_info (\<lambda>t. t) m)) = AJoinMeetingReturn_server_info_update (\<lambda>_. Some (MeetingServerInfo_abs t)) (JoinMeetingReturn_abs m)"
proof -
  have a: "JoinMeetingReturn_ok (JoinMeetingReturn_mutable_server_info (\<lambda>t. t) m) \<and> JoinMeetingReturn_abs (JoinMeetingReturn_mutable_server_info (\<lambda>t. t) m) =
      (JoinMeetingReturn_abs m)\<lparr>AJoinMeetingReturn_server_info := Some (value_or AMeetingServerInfo_empty (AJoinMeetingReturn_server_info (JoinMeetingReturn_abs m)))\<rparr>"
    by (rule JoinMeetingReturn_abs_mutable_server_info [OF assms]) simp
  then have a1: "JoinMeetingReturn_ok (JoinMeetingReturn_mutable_server_info (\<lambda>t. t) m)" by blast
  show "MeetingServerInfo_ok (JoinMeetingReturn_server_info (JoinMeetingReturn_mutable_server_info (\<lambda>t. t) m))"
    "MeetingServerInfo_abs (JoinMeetingReturn_server_info (JoinMeetingReturn_mutable_server_info (\<lambda>t. t) m)) = value_or AMeetingServerInfo_empty (AJoinMeetingReturn_server_info (JoinMeetingReturn_abs m))"
    using JoinMeetingReturn_children_ok [OF a1] JoinMeetingReturn_getters [OF a1] a by simp_all
  have b: "JoinMeetingReturn_ok (JoinMeetingReturn_mutable_server_info (\<lambda>_. t) (JoinMeetingReturn_mutable_server_info (\<lambda>t. t) m)) \<and>
      JoinMeetingReturn_abs (JoinMeetingReturn_mutable_server_info (\<lambda>_. t) (JoinMeetingReturn_mutable_server_info (\<lambda>t. t) m)) =
      (JoinMeetingReturn_abs (JoinMeetingReturn_mutable_server_info (\<lambda>t. t) m))\<lparr>AJoinMeetingReturn_server_info := Some (MeetingServerInfo_abs t)\<rparr>" if "MeetingServerInfo_ok t"
    by (rule JoinMeetingReturn_abs_mutable_server_info [OF a1]) (simp add: that)
  show "MeetingServerInfo_ok t \<Longrightarrow> JoinMeetingReturn_ok (JoinMeetingReturn_mutable_server_info (\<lambda>_. t) (JoinMeetingReturn_mutable_server_info (\<lambda>t. t) m))"
    "MeetingServerInfo_ok t \<Longrightarrow> JoinMeetingReturn_abs (JoinMeetingReturn_mutable_server_info (\<lambda>_. t) (JoinMeetingReturn_mutable_server_info (\<lambda>t. t) m)) = AJoinMeetingReturn_server_info_update (\<lambda>_. Some (MeetingServerInfo_abs t)) (JoinMeetingReturn_abs m)"
    using a b by simp_all
qed

lemma JoinMeetingReturn_parse_server_info_safe: "JoinMeetingReturn_ok m \<Longrightarrow> cis_ok c \<Longrightarrow> safe JoinMeetingReturn_ok 1 c (JoinMeetingReturn_parse_server_info m c)"
  unfolding JoinMeetingReturn_parse_server_info_def
  by (rule safe_field [where ok' = MeetingServerInfo_ok], rule ReadMessageNoVirtual_safe)
    (simp_all add: JoinMeetingReturn_parse_server_info_steps MeetingServerInfo_MergePartial_safe)

lemma JoinMeetingReturn_parse_server_info_yields:
  assumes "AMeetingServerInfo_wire d x" "length (AMeetingServerInfo_encode x) < 2 ^ 31"
  shows "yields (Suc d) JoinMeetingReturn_ok JoinMeetingReturn_abs JoinMeetingReturn_parse_server_info (enc_bytes (AMeetingServerInfo_encode x)) (AJoinMeetingReturn_server_info_update (merged AMeetingServerInfo_merge AMeetingServerInfo_empty (Some x)))"
  unfolding JoinMeetingReturn_parse_server_info_def
proof (rule yields_field [OF yields_message_field [OF MeetingServerInfo_MergePartial_parses [OF assms(1)] assms(2)],
    where get = "\<lambda>m. JoinMeetingReturn_server_info (JoinMeetingReturn_mutable_server_info (\<lambda>t. t) m)"
      and put = "\<lambda>t m. JoinMeetingReturn_mutable_server_info (\<lambda>_. t) (JoinMeetingReturn_mutable_server_info (\<lambda>t. t) m)"])
  fix m t
  assume m: "JoinMeetingReturn_ok m" "MeetingServerInfo_ok t" "MeetingServerInfo_abs t = AMeetingServerInfo_merge x (MeetingServerInfo_abs (JoinMeetingReturn_server_info (JoinMeetingReturn_mutable_server_info (\<lambda>t. t) m)))"
  then show "JoinMeetingReturn_abs (JoinMeetingReturn_mutable_server_info (\<lambda>_. t) (JoinMeetingReturn_mutable_server_info (\<lambda>t. t) m)) = AJoinMeetingReturn_server_info_update (merged AMeetingServerInfo_merge AMeetingServerInfo_empty (Some x)) (JoinMeetingReturn_abs m)"
    by (cases "JoinMeetingReturn_abs m") (simp add: JoinMeetingReturn_parse_server_info_steps)
qed (simp_all add: JoinMeetingReturn_parse_server_info_steps)

definition AJoinMeetingReturn_wire :: "nat \<Rightarrow> AJoinMeetingReturn \<Rightarrow> bool" where
  "AJoinMeetingReturn_wire d a \<longleftrightarrow>
     all_opt JoinState_IsValid (AJoinMeetingReturn_join_state a) \<and>
     all_opt (\<lambda>x. 0 < d \<and> AMeetingServerInfo_wire (d - 1) x \<and> length (AMeetingServerInfo_encode x) < 2 ^ 31) (AJoinMeetingReturn_server_info a) \<and>
     (\<forall>f \<in> set (AJoinMeetingReturn_unknown a). fits_unknown JoinMeetingReturn_rows d f)"

definition AJoinMeetingReturn_chunks :: "AJoinMeetingReturn \<Rightarrow> AJoinMeetingReturn chunk list" where
  "AJoinMeetingReturn_chunks a =
     opt_chunk 1 WIRETYPE_VARINT enc_int32 (\<lambda>v. AJoinMeetingReturn_join_state_update (or_else v)) (AJoinMeetingReturn_join_state a) @
     opt_chunk 2 WIRETYPE_LENGTH_DELIMITED (\<lambda>x. enc_bytes (AMeetingServerInfo_encode x)) (\<lambda>v. AJoinMeetingReturn_server_info_update (merged AMeetingServerInfo_merge AMeetingServerInfo_empty v)) (AJoinMeetingReturn_server_info a)"

lemma AJoinMeetingReturn_chunks_bytes:
  "chunks_bytes (AJoinMeetingReturn_chunks a) @ SerializeUnknownFieldsToArray (AJoinMeetingReturn_unknown a) [] = AJoinMeetingReturn_encode a"
  by (simp add: AJoinMeetingReturn_chunks_def AJoinMeetingReturn_encode_def opt_chunk_bytes rep_chunks_bytes)

lemma AJoinMeetingReturn_add_unknown: "fold (\<lambda>f. AJoinMeetingReturn_unknown_update (\<lambda>u. u @ [f])) fs b = AJoinMeetingReturn_unknown_update (\<lambda>u. u @ fs) b"
  by (induction fs arbitrary: b) simp_all

lemma AJoinMeetingReturn_effects: "(fold (\<lambda>f. AJoinMeetingReturn_unknown_update (\<lambda>u. u @ [f])) (AJoinMeetingReturn_unknown a) \<circ> effects (AJoinMeetingReturn_chunks a)) b = AJoinMeetingReturn_merge a b"
proof -
  have "(fold (\<lambda>f. AJoinMeetingReturn_unknown_update (\<lambda>u. u @ [f])) (AJoinMeetingReturn_unknown a) \<circ> effects (AJoinMeetingReturn_chunks a)) b =
      AJoinMeetingReturn_unknown_update (\<lambda>u. u @ AJoinMeetingReturn_unknown a)
        (AJoinMeetingReturn_server_info_update (merged AMeetingServerInfo_merge AMeetingServerInfo_empty (AJoinMeetingReturn_server_info a))
        (AJoinMeetingReturn_join_state_update (or_else (AJoinMeetingReturn_join_state a)) b))"
    by (simp add: AJoinMeetingReturn_chunks_def opt_chunk_effect rep_chunks_effect AJoinMeetingReturn_add_unknown)
  then show ?thesis
    by (cases b) (simp add: AJoinMeetingReturn_merge_def)
qed

lemma AJoinMeetingReturn_chunks_fit: "AJoinMeetingReturn_wire d a \<Longrightarrow> \<forall>ch \<in> set (AJoinMeetingReturn_chunks a). fits_row JoinMeetingReturn_rows JoinMeetingReturn_ok JoinMeetingReturn_abs d ch"
  unfolding AJoinMeetingReturn_chunks_def set_append ball_Un
proof (intro conjI)
  assume wr: "AJoinMeetingReturn_wire d a"
  show "\<forall>ch \<in> set (opt_chunk 1 WIRETYPE_VARINT enc_int32 (\<lambda>v. AJoinMeetingReturn_join_state_update (or_else v)) (AJoinMeetingReturn_join_state a)). fits_row JoinMeetingReturn_rows JoinMeetingReturn_ok JoinMeetingReturn_abs d ch"
    by (rule fits_opt_chunk [OF _ _ _ JoinMeetingReturn_row_for(1)])
      (use wr in \<open>simp_all add: AJoinMeetingReturn_wire_def JoinMeetingReturn_parse_join_state_yields\<close>)
  show "\<forall>ch \<in> set (opt_chunk 2 WIRETYPE_LENGTH_DELIMITED (\<lambda>x. enc_bytes (AMeetingServerInfo_encode x)) (\<lambda>v. AJoinMeetingReturn_server_info_update (merged AMeetingServerInfo_merge AMeetingServerInfo_empty v)) (AJoinMeetingReturn_server_info a)). fits_row JoinMeetingReturn_rows JoinMeetingReturn_ok JoinMeetingReturn_abs d ch"
  proof (rule fits_opt_chunk [OF _ _ _ JoinMeetingReturn_row_for(2)])
    fix x
    assume "AJoinMeetingReturn_server_info a = Some x"
    with wr have x: "0 < d" "AMeetingServerInfo_wire (d - 1) x" "length (AMeetingServerInfo_encode x) < 2 ^ 31" by (simp_all add: AJoinMeetingReturn_wire_def)
    show "enc_bytes (AMeetingServerInfo_encode x) \<noteq> [] \<and> yields d JoinMeetingReturn_ok JoinMeetingReturn_abs (row_parse \<lparr>row_number = 2, row_wiretype = WIRETYPE_LENGTH_DELIMITED, row_parse = JoinMeetingReturn_parse_server_info, row_expects = [], row_at_end = True\<rparr>) (enc_bytes (AMeetingServerInfo_encode x))
        (AJoinMeetingReturn_server_info_update (merged AMeetingServerInfo_merge AMeetingServerInfo_empty (AJoinMeetingReturn_server_info a)))"
      using JoinMeetingReturn_parse_server_info_yields [OF x(2,3)] x(1) \<open>AJoinMeetingReturn_server_info a = Some x\<close> by simp
  qed simp_all
qed

interpretation joinmeetingreturn_format: message_format JoinMeetingReturn_rows JoinMeetingReturn_unknown "(\<lambda>u m. m\<lparr>JoinMeetingReturn_unknown := u\<rparr>)" JoinMeetingReturn_ok JoinMeetingReturn_abs "(\<lambda>f. AJoinMeetingReturn_unknown_update (\<lambda>u. u @ [f]))"
proof
  show "rows_closed JoinMeetingReturn_rows" by (rule JoinMeetingReturn_rows_closed)
  fix r m c
  assume "r \<in> set JoinMeetingReturn_rows" "JoinMeetingReturn_ok m" "cis_ok c"
  then show "safe JoinMeetingReturn_ok 1 c (row_parse r m c)"
    by (auto simp: JoinMeetingReturn_rows_def JoinMeetingReturn_parse_join_state_safe JoinMeetingReturn_parse_server_info_safe simp del: One_nat_def)
qed (simp_all add: JoinMeetingReturn_unknown_abs)

lemma JoinMeetingReturn_MergePartial_safe: "JoinMeetingReturn_ok m \<Longrightarrow> cis_ok c \<Longrightarrow> safe JoinMeetingReturn_ok 0 c (JoinMeetingReturn_MergePartialFromCodedStream m c)"
  unfolding JoinMeetingReturn_MergePartialFromCodedStream_def by (rule joinmeetingreturn_format.MergePartial_safe)

lemma JoinMeetingReturn_MergePartial_parses:
  assumes "AJoinMeetingReturn_wire d a"
  shows "parses d JoinMeetingReturn_ok JoinMeetingReturn_abs JoinMeetingReturn_MergePartialFromCodedStream (AJoinMeetingReturn_encode a) (AJoinMeetingReturn_merge a)"
proof -
  have u: "\<forall>f \<in> set (AJoinMeetingReturn_unknown a). fits_unknown JoinMeetingReturn_rows d f" using assms by (simp add: AJoinMeetingReturn_wire_def)
  have e: "fold (\<lambda>f. AJoinMeetingReturn_unknown_update (\<lambda>u. u @ [f])) (AJoinMeetingReturn_unknown a) \<circ> effects (AJoinMeetingReturn_chunks a) = AJoinMeetingReturn_merge a"
    by (rule ext) (rule AJoinMeetingReturn_effects)
  from joinmeetingreturn_format.MergePartial_parses [OF AJoinMeetingReturn_chunks_fit [OF assms] u] show ?thesis
    unfolding e AJoinMeetingReturn_chunks_bytes by (simp add: JoinMeetingReturn_MergePartialFromCodedStream_def [abs_def])
qed

section \<open>Parsing \<^verbatim>\<open>User\<close>\<close>

definition Identity_IsValid :: "int32 \<Rightarrow> bool" where
  "Identity_IsValid value \<longleftrightarrow> value \<in> {1, 2, 3}"

definition User_parse_user_name :: "User \<Rightarrow> cis \<Rightarrow> User got" where
  "User_parse_user_name m c =
     got_bind (WFL_ReadString c) (\<lambda>s c. Got (User_mutable_user_name (\<lambda>_. s) m) c)"

definition User_parse_password :: "User \<Rightarrow> cis \<Rightarrow> User got" where
  "User_parse_password m c =
     got_bind (WFL_ReadString c) (\<lambda>s c. Got (User_mutable_password (\<lambda>_. s) m) c)"

definition User_parse_identity :: "User \<Rightarrow> cis \<Rightarrow> User got" where
  "User_parse_identity m c =
     got_bind (ReadPrimitive_ENUM c) (\<lambda>value c.
       Got (if Identity_IsValid value then User_set_identity value m
            else m\<lparr>User_unknown := AddVarint 3 (scast value) (User_unknown m)\<rparr>) c)"

definition User_rows :: "User row list" where
  "User_rows =
    [\<lparr>row_number = 1, row_wiretype = WIRETYPE_LENGTH_DELIMITED, row_parse = User_parse_user_name, row_expects = [(18, 2)], row_at_end = False\<rparr>,
     \<lparr>row_number = 2, row_wiretype = WIRETYPE_LENGTH_DELIMITED, row_parse = User_parse_password, row_expects = [(24, 3)], row_at_end = False\<rparr>,
     \<lparr>row_number = 3, row_wiretype = WIRETYPE_VARINT, row_parse = User_parse_identity, row_expects = [], row_at_end = True\<rparr>]"

definition User_MergePartialFromCodedStream :: "User \<Rightarrow> cis \<Rightarrow> User got" where
  "User_MergePartialFromCodedStream m c =
     MergePartial User_rows (skip_into User_unknown (\<lambda>u m. m\<lparr>User_unknown := u\<rparr>)) m c"

lemma User_row_for [simp]:
  "row_for User_rows 1 = Some \<lparr>row_number = 1, row_wiretype = WIRETYPE_LENGTH_DELIMITED, row_parse = User_parse_user_name, row_expects = [(18, 2)], row_at_end = False\<rparr>"
  "row_for User_rows 2 = Some \<lparr>row_number = 2, row_wiretype = WIRETYPE_LENGTH_DELIMITED, row_parse = User_parse_password, row_expects = [(24, 3)], row_at_end = False\<rparr>"
  "row_for User_rows 3 = Some \<lparr>row_number = 3, row_wiretype = WIRETYPE_VARINT, row_parse = User_parse_identity, row_expects = [], row_at_end = True\<rparr>"
  by (simp_all add: row_for_def User_rows_def)

lemma User_rows_closed: "rows_closed User_rows"
  by (simp add: rows_closed_def User_rows_def row_for_def tag_parts wiretypes)

lemma User_unknown_simps [simp]:
  "User_ok (m\<lparr>User_unknown := u\<rparr>) = User_ok m" "User_abs (m\<lparr>User_unknown := u\<rparr>) = (User_abs m)\<lparr>AUser_unknown := u\<rparr>"
  by (simp_all add: User_ok_def User_abs_def User_presence User_accessors)

lemma User_parse_user_name_steps:
  assumes "User_ok m"
  shows "User_ok (User_mutable_user_name (\<lambda>_. v) m)" "User_abs (User_mutable_user_name (\<lambda>_. v) m) = AUser_user_name_update (or_else (Some v)) (User_abs m)"
proof -
  have e: "User_mutable_user_name (\<lambda>_. v) m = User_set_user_name v m"
    by (simp add: User_presence User_accessors Let_def)
  show "User_ok (User_mutable_user_name (\<lambda>_. v) m)" "User_abs (User_mutable_user_name (\<lambda>_. v) m) = AUser_user_name_update (or_else (Some v)) (User_abs m)"
    unfolding e using assms by simp_all
qed

lemma User_parse_user_name_safe: "User_ok m \<Longrightarrow> cis_ok c \<Longrightarrow> safe User_ok 1 c (User_parse_user_name m c)"
  unfolding User_parse_user_name_def by (rule safe_value) (simp_all add: primitive_sound User_parse_user_name_steps del: One_nat_def)

lemma User_parse_user_name_yields:
  "length v < 2 ^ 31 \<Longrightarrow> yields d User_ok User_abs User_parse_user_name (enc_bytes v) (AUser_user_name_update (or_else (Some v)))"
  unfolding User_parse_user_name_def by (rule yields_value [OF reads_primitive(5)]) (simp_all add: User_parse_user_name_steps)

lemma User_parse_password_steps:
  assumes "User_ok m"
  shows "User_ok (User_mutable_password (\<lambda>_. v) m)" "User_abs (User_mutable_password (\<lambda>_. v) m) = AUser_password_update (or_else (Some v)) (User_abs m)"
proof -
  have e: "User_mutable_password (\<lambda>_. v) m = User_set_password v m"
    by (simp add: User_presence User_accessors Let_def)
  show "User_ok (User_mutable_password (\<lambda>_. v) m)" "User_abs (User_mutable_password (\<lambda>_. v) m) = AUser_password_update (or_else (Some v)) (User_abs m)"
    unfolding e using assms by simp_all
qed

lemma User_parse_password_safe: "User_ok m \<Longrightarrow> cis_ok c \<Longrightarrow> safe User_ok 1 c (User_parse_password m c)"
  unfolding User_parse_password_def by (rule safe_value) (simp_all add: primitive_sound User_parse_password_steps del: One_nat_def)

lemma User_parse_password_yields:
  "length v < 2 ^ 31 \<Longrightarrow> yields d User_ok User_abs User_parse_password (enc_bytes v) (AUser_password_update (or_else (Some v)))"
  unfolding User_parse_password_def by (rule yields_value [OF reads_primitive(5)]) (simp_all add: User_parse_password_steps)

lemma User_parse_identity_safe: "User_ok m \<Longrightarrow> cis_ok c \<Longrightarrow> safe User_ok 1 c (User_parse_identity m c)"
  unfolding User_parse_identity_def by (rule safe_value) (simp_all add: primitive_sound del: One_nat_def)

lemma User_parse_identity_yields:
  "Identity_IsValid v \<Longrightarrow> yields d User_ok User_abs User_parse_identity (enc_int32 v) (AUser_identity_update (or_else (Some v)))"
  unfolding User_parse_identity_def by (rule yields_value [OF reads_primitive(2)]) simp_all

definition AUser_wire :: "nat \<Rightarrow> AUser \<Rightarrow> bool" where
  "AUser_wire d a \<longleftrightarrow>
     all_opt (\<lambda>s. length s < 2 ^ 31) (AUser_user_name a) \<and>
     all_opt (\<lambda>s. length s < 2 ^ 31) (AUser_password a) \<and>
     all_opt Identity_IsValid (AUser_identity a) \<and>
     (\<forall>f \<in> set (AUser_unknown a). fits_unknown User_rows d f)"

definition AUser_chunks :: "AUser \<Rightarrow> AUser chunk list" where
  "AUser_chunks a =
     opt_chunk 1 WIRETYPE_LENGTH_DELIMITED enc_bytes (\<lambda>v. AUser_user_name_update (or_else v)) (AUser_user_name a) @
     opt_chunk 2 WIRETYPE_LENGTH_DELIMITED enc_bytes (\<lambda>v. AUser_password_update (or_else v)) (AUser_password a) @
     opt_chunk 3 WIRETYPE_VARINT enc_int32 (\<lambda>v. AUser_identity_update (or_else v)) (AUser_identity a)"

lemma AUser_chunks_bytes:
  "chunks_bytes (AUser_chunks a) @ SerializeUnknownFieldsToArray (AUser_unknown a) [] = AUser_encode a"
  by (simp add: AUser_chunks_def AUser_encode_def opt_chunk_bytes rep_chunks_bytes)

lemma AUser_add_unknown: "fold (\<lambda>f. AUser_unknown_update (\<lambda>u. u @ [f])) fs b = AUser_unknown_update (\<lambda>u. u @ fs) b"
  by (induction fs arbitrary: b) simp_all

lemma AUser_effects: "(fold (\<lambda>f. AUser_unknown_update (\<lambda>u. u @ [f])) (AUser_unknown a) \<circ> effects (AUser_chunks a)) b = AUser_merge a b"
proof -
  have "(fold (\<lambda>f. AUser_unknown_update (\<lambda>u. u @ [f])) (AUser_unknown a) \<circ> effects (AUser_chunks a)) b =
      AUser_unknown_update (\<lambda>u. u @ AUser_unknown a)
        (AUser_identity_update (or_else (AUser_identity a))
        (AUser_password_update (or_else (AUser_password a))
        (AUser_user_name_update (or_else (AUser_user_name a)) b)))"
    by (simp add: AUser_chunks_def opt_chunk_effect rep_chunks_effect AUser_add_unknown)
  then show ?thesis
    by (cases b) (simp add: AUser_merge_def)
qed

lemma AUser_chunks_fit: "AUser_wire d a \<Longrightarrow> \<forall>ch \<in> set (AUser_chunks a). fits_row User_rows User_ok User_abs d ch"
  unfolding AUser_chunks_def set_append ball_Un
proof (intro conjI)
  assume wr: "AUser_wire d a"
  show "\<forall>ch \<in> set (opt_chunk 1 WIRETYPE_LENGTH_DELIMITED enc_bytes (\<lambda>v. AUser_user_name_update (or_else v)) (AUser_user_name a)). fits_row User_rows User_ok User_abs d ch"
    by (rule fits_opt_chunk [OF _ _ _ User_row_for(1)])
      (use wr in \<open>simp_all add: AUser_wire_def User_parse_user_name_yields\<close>)
  show "\<forall>ch \<in> set (opt_chunk 2 WIRETYPE_LENGTH_DELIMITED enc_bytes (\<lambda>v. AUser_password_update (or_else v)) (AUser_password a)). fits_row User_rows User_ok User_abs d ch"
    by (rule fits_opt_chunk [OF _ _ _ User_row_for(2)])
      (use wr in \<open>simp_all add: AUser_wire_def User_parse_password_yields\<close>)
  show "\<forall>ch \<in> set (opt_chunk 3 WIRETYPE_VARINT enc_int32 (\<lambda>v. AUser_identity_update (or_else v)) (AUser_identity a)). fits_row User_rows User_ok User_abs d ch"
    by (rule fits_opt_chunk [OF _ _ _ User_row_for(3)])
      (use wr in \<open>simp_all add: AUser_wire_def User_parse_identity_yields\<close>)
qed

interpretation user_format: message_format User_rows User_unknown "(\<lambda>u m. m\<lparr>User_unknown := u\<rparr>)" User_ok User_abs "(\<lambda>f. AUser_unknown_update (\<lambda>u. u @ [f]))"
proof
  show "rows_closed User_rows" by (rule User_rows_closed)
  fix r m c
  assume "r \<in> set User_rows" "User_ok m" "cis_ok c"
  then show "safe User_ok 1 c (row_parse r m c)"
    by (auto simp: User_rows_def User_parse_user_name_safe User_parse_password_safe User_parse_identity_safe simp del: One_nat_def)
qed (simp_all add: User_unknown_abs)

lemma User_MergePartial_safe: "User_ok m \<Longrightarrow> cis_ok c \<Longrightarrow> safe User_ok 0 c (User_MergePartialFromCodedStream m c)"
  unfolding User_MergePartialFromCodedStream_def by (rule user_format.MergePartial_safe)

interpretation user_added: parsed_handler User_default User_Clear User_MergeFrom User_ok User_abs User_MergePartialFromCodedStream
  by unfold_locales (rule User_MergePartial_safe)

lemma User_MergePartial_parses:
  assumes "AUser_wire d a"
  shows "parses d User_ok User_abs User_MergePartialFromCodedStream (AUser_encode a) (AUser_merge a)"
proof -
  have u: "\<forall>f \<in> set (AUser_unknown a). fits_unknown User_rows d f" using assms by (simp add: AUser_wire_def)
  have e: "fold (\<lambda>f. AUser_unknown_update (\<lambda>u. u @ [f])) (AUser_unknown a) \<circ> effects (AUser_chunks a) = AUser_merge a"
    by (rule ext) (rule AUser_effects)
  from user_format.MergePartial_parses [OF AUser_chunks_fit [OF assms] u] show ?thesis
    unfolding e AUser_chunks_bytes by (simp add: User_MergePartialFromCodedStream_def [abs_def])
qed

section \<open>Parsing \<^verbatim>\<open>UserList\<close>\<close>

definition UserList_parse_users :: "UserList \<Rightarrow> cis \<Rightarrow> UserList got" where
  "UserList_parse_users m c =
     got_bind (ReadAdded User_default User_MergePartialFromCodedStream (UserList_users_fld m) c)
       (\<lambda>r c. Got (m\<lparr>UserList_users_fld := r\<rparr>) c)"

definition UserList_rows :: "UserList row list" where
  "UserList_rows =
    [\<lparr>row_number = 1, row_wiretype = WIRETYPE_LENGTH_DELIMITED, row_parse = UserList_parse_users, row_expects = [(10, 1)], row_at_end = True\<rparr>]"

definition UserList_MergePartialFromCodedStream :: "UserList \<Rightarrow> cis \<Rightarrow> UserList got" where
  "UserList_MergePartialFromCodedStream m c =
     MergePartial UserList_rows (skip_into UserList_unknown (\<lambda>u m. m\<lparr>UserList_unknown := u\<rparr>)) m c"

lemma UserList_row_for [simp]:
  "row_for UserList_rows 1 = Some \<lparr>row_number = 1, row_wiretype = WIRETYPE_LENGTH_DELIMITED, row_parse = UserList_parse_users, row_expects = [(10, 1)], row_at_end = True\<rparr>"
  by (simp_all add: row_for_def UserList_rows_def)

lemma UserList_rows_closed: "rows_closed UserList_rows"
  by (simp add: rows_closed_def UserList_rows_def row_for_def tag_parts wiretypes)

lemma UserList_unknown_simps [simp]:
  "UserList_ok (m\<lparr>UserList_unknown := u\<rparr>) = UserList_ok m" "UserList_abs (m\<lparr>UserList_unknown := u\<rparr>) = (UserList_abs m)\<lparr>AUserList_unknown := u\<rparr>"
  by (simp_all add: UserList_ok_def UserList_abs_def UserList_accessors)

lemma UserList_ok_fld: "UserList_ok m \<Longrightarrow> user_th.good r \<Longrightarrow> UserList_ok (m\<lparr>UserList_users_fld := r\<rparr>)"
  by (simp add: UserList_ok_def UserList_accessors)

lemma UserList_parse_users_safe: "UserList_ok m \<Longrightarrow> cis_ok c \<Longrightarrow> safe UserList_ok 1 c (UserList_parse_users m c)"
  unfolding UserList_parse_users_def
  by (rule safe_field [where ok' = user_th.good], rule user_added.ReadAdded_safe)
    (simp_all add: UserList_good User_MergePartial_safe UserList_ok_fld)

lemma UserList_parse_users_yields:
  assumes "AUser_wire d x" "length (AUser_encode x) < 2 ^ 31"
  shows "yields (Suc d) UserList_ok UserList_abs UserList_parse_users (enc_bytes (AUser_encode x)) (AUserList_users_update (\<lambda>xs. xs @ [x]))"
  unfolding UserList_parse_users_def
proof (rule yields_field [OF user_added.ReadAdded_yields [OF User_MergePartial_parses [OF assms(1)] assms(2)], where get = UserList_users_fld])
  fix m r
  assume m: "UserList_ok m" "user_th.good r"
    "user_th.views r = user_th.views (UserList_users_fld m) @ [AUser_merge x (User_abs User_default)]"
  then show "UserList_abs (m\<lparr>UserList_users_fld := r\<rparr>) = AUserList_users_update (\<lambda>xs. xs @ [x]) (UserList_abs m)"
    by (simp add: UserList_abs_def UserList_accessors user_th.views_def)
qed (simp_all add: UserList_good UserList_ok_fld)

definition AUserList_wire :: "nat \<Rightarrow> AUserList \<Rightarrow> bool" where
  "AUserList_wire d a \<longleftrightarrow>
     (\<forall>x \<in> set (AUserList_users a). 0 < d \<and> AUser_wire (d - 1) x \<and> length (AUser_encode x) < 2 ^ 31) \<and>
     (\<forall>f \<in> set (AUserList_unknown a). fits_unknown UserList_rows d f)"

definition AUserList_chunks :: "AUserList \<Rightarrow> AUserList chunk list" where
  "AUserList_chunks a =
     rep_chunks 1 WIRETYPE_LENGTH_DELIMITED (\<lambda>x. enc_bytes (AUser_encode x)) (\<lambda>x. AUserList_users_update (\<lambda>xs. xs @ [x])) (AUserList_users a)"

lemma AUserList_chunks_bytes:
  "chunks_bytes (AUserList_chunks a) @ SerializeUnknownFieldsToArray (AUserList_unknown a) [] = AUserList_encode a"
  by (simp add: AUserList_chunks_def AUserList_encode_def opt_chunk_bytes rep_chunks_bytes)

lemma AUserList_add_unknown: "fold (\<lambda>f. AUserList_unknown_update (\<lambda>u. u @ [f])) fs b = AUserList_unknown_update (\<lambda>u. u @ fs) b"
  by (induction fs arbitrary: b) simp_all

lemma AUserList_add_users: "fold (\<lambda>x. AUserList_users_update (\<lambda>xs. xs @ [x])) vs b = AUserList_users_update (\<lambda>xs. xs @ vs) b"
  by (induction vs arbitrary: b) simp_all

lemma AUserList_effects: "(fold (\<lambda>f. AUserList_unknown_update (\<lambda>u. u @ [f])) (AUserList_unknown a) \<circ> effects (AUserList_chunks a)) b = AUserList_merge a b"
proof -
  have "(fold (\<lambda>f. AUserList_unknown_update (\<lambda>u. u @ [f])) (AUserList_unknown a) \<circ> effects (AUserList_chunks a)) b =
      AUserList_unknown_update (\<lambda>u. u @ AUserList_unknown a)
        (AUserList_users_update (\<lambda>xs. xs @ AUserList_users a) b)"
    by (simp add: AUserList_chunks_def opt_chunk_effect rep_chunks_effect AUserList_add_unknown AUserList_add_users)
  then show ?thesis
    by (cases b) (simp add: AUserList_merge_def)
qed

lemma AUserList_chunks_fit: "AUserList_wire d a \<Longrightarrow> \<forall>ch \<in> set (AUserList_chunks a). fits_row UserList_rows UserList_ok UserList_abs d ch"
  unfolding AUserList_chunks_def
proof -
  assume wr: "AUserList_wire d a"
  show "\<forall>ch \<in> set (rep_chunks 1 WIRETYPE_LENGTH_DELIMITED (\<lambda>x. enc_bytes (AUser_encode x)) (\<lambda>x. AUserList_users_update (\<lambda>xs. xs @ [x])) (AUserList_users a)). fits_row UserList_rows UserList_ok UserList_abs d ch"
  proof (rule fits_rep_chunks [OF _ _ _ UserList_row_for(1)])
    fix x
    assume "x \<in> set (AUserList_users a)"
    with wr have x: "0 < d" "AUser_wire (d - 1) x" "length (AUser_encode x) < 2 ^ 31" by (simp_all add: AUserList_wire_def)
    show "enc_bytes (AUser_encode x) \<noteq> [] \<and> yields d UserList_ok UserList_abs (row_parse \<lparr>row_number = 1, row_wiretype = WIRETYPE_LENGTH_DELIMITED, row_parse = UserList_parse_users, row_expects = [(10, 1)], row_at_end = True\<rparr>) (enc_bytes (AUser_encode x))
        (AUserList_users_update (\<lambda>xs. xs @ [x]))"
      using UserList_parse_users_yields [OF x(2,3)] x(1) by simp
  qed simp_all
qed

interpretation userlist_format: message_format UserList_rows UserList_unknown "(\<lambda>u m. m\<lparr>UserList_unknown := u\<rparr>)" UserList_ok UserList_abs "(\<lambda>f. AUserList_unknown_update (\<lambda>u. u @ [f]))"
proof
  show "rows_closed UserList_rows" by (rule UserList_rows_closed)
  fix r m c
  assume "r \<in> set UserList_rows" "UserList_ok m" "cis_ok c"
  then show "safe UserList_ok 1 c (row_parse r m c)"
    by (auto simp: UserList_rows_def UserList_parse_users_safe simp del: One_nat_def)
qed (simp_all add: UserList_unknown_abs)

lemma UserList_MergePartial_safe: "UserList_ok m \<Longrightarrow> cis_ok c \<Longrightarrow> safe UserList_ok 0 c (UserList_MergePartialFromCodedStream m c)"
  unfolding UserList_MergePartialFromCodedStream_def by (rule userlist_format.MergePartial_safe)

lemma UserList_MergePartial_parses:
  assumes "AUserList_wire d a"
  shows "parses d UserList_ok UserList_abs UserList_MergePartialFromCodedStream (AUserList_encode a) (AUserList_merge a)"
proof -
  have u: "\<forall>f \<in> set (AUserList_unknown a). fits_unknown UserList_rows d f" using assms by (simp add: AUserList_wire_def)
  have e: "fold (\<lambda>f. AUserList_unknown_update (\<lambda>u. u @ [f])) (AUserList_unknown a) \<circ> effects (AUserList_chunks a) = AUserList_merge a"
    by (rule ext) (rule AUserList_effects)
  from userlist_format.MergePartial_parses [OF AUserList_chunks_fit [OF assms] u] show ?thesis
    unfolding e AUserList_chunks_bytes by (simp add: UserList_MergePartialFromCodedStream_def [abs_def])
qed

section \<open>Parsing \<^verbatim>\<open>HeartBeatSendPackage\<close>\<close>

definition HeartBeatSendPackage_parse_user_name :: "HeartBeatSendPackage \<Rightarrow> cis \<Rightarrow> HeartBeatSendPackage got" where
  "HeartBeatSendPackage_parse_user_name m c =
     got_bind (WFL_ReadString c) (\<lambda>s c. Got (HeartBeatSendPackage_mutable_user_name (\<lambda>_. s) m) c)"

definition HeartBeatSendPackage_parse_meeting_id :: "HeartBeatSendPackage \<Rightarrow> cis \<Rightarrow> HeartBeatSendPackage got" where
  "HeartBeatSendPackage_parse_meeting_id m c =
     got_bind (WFL_ReadString c) (\<lambda>s c. Got (HeartBeatSendPackage_mutable_meeting_id (\<lambda>_. s) m) c)"

definition HeartBeatSendPackage_rows :: "HeartBeatSendPackage row list" where
  "HeartBeatSendPackage_rows =
    [\<lparr>row_number = 1, row_wiretype = WIRETYPE_LENGTH_DELIMITED, row_parse = HeartBeatSendPackage_parse_user_name, row_expects = [(18, 2)], row_at_end = False\<rparr>,
     \<lparr>row_number = 2, row_wiretype = WIRETYPE_LENGTH_DELIMITED, row_parse = HeartBeatSendPackage_parse_meeting_id, row_expects = [], row_at_end = True\<rparr>]"

definition HeartBeatSendPackage_MergePartialFromCodedStream :: "HeartBeatSendPackage \<Rightarrow> cis \<Rightarrow> HeartBeatSendPackage got" where
  "HeartBeatSendPackage_MergePartialFromCodedStream m c =
     MergePartial HeartBeatSendPackage_rows (skip_into HeartBeatSendPackage_unknown (\<lambda>u m. m\<lparr>HeartBeatSendPackage_unknown := u\<rparr>)) m c"

lemma HeartBeatSendPackage_row_for [simp]:
  "row_for HeartBeatSendPackage_rows 1 = Some \<lparr>row_number = 1, row_wiretype = WIRETYPE_LENGTH_DELIMITED, row_parse = HeartBeatSendPackage_parse_user_name, row_expects = [(18, 2)], row_at_end = False\<rparr>"
  "row_for HeartBeatSendPackage_rows 2 = Some \<lparr>row_number = 2, row_wiretype = WIRETYPE_LENGTH_DELIMITED, row_parse = HeartBeatSendPackage_parse_meeting_id, row_expects = [], row_at_end = True\<rparr>"
  by (simp_all add: row_for_def HeartBeatSendPackage_rows_def)

lemma HeartBeatSendPackage_rows_closed: "rows_closed HeartBeatSendPackage_rows"
  by (simp add: rows_closed_def HeartBeatSendPackage_rows_def row_for_def tag_parts wiretypes)

lemma HeartBeatSendPackage_unknown_simps [simp]:
  "HeartBeatSendPackage_ok (m\<lparr>HeartBeatSendPackage_unknown := u\<rparr>) = HeartBeatSendPackage_ok m" "HeartBeatSendPackage_abs (m\<lparr>HeartBeatSendPackage_unknown := u\<rparr>) = (HeartBeatSendPackage_abs m)\<lparr>AHeartBeatSendPackage_unknown := u\<rparr>"
  by (simp_all add: HeartBeatSendPackage_ok_def HeartBeatSendPackage_abs_def HeartBeatSendPackage_presence HeartBeatSendPackage_accessors)

lemma HeartBeatSendPackage_parse_user_name_steps:
  assumes "HeartBeatSendPackage_ok m"
  shows "HeartBeatSendPackage_ok (HeartBeatSendPackage_mutable_user_name (\<lambda>_. v) m)" "HeartBeatSendPackage_abs (HeartBeatSendPackage_mutable_user_name (\<lambda>_. v) m) = AHeartBeatSendPackage_user_name_update (or_else (Some v)) (HeartBeatSendPackage_abs m)"
proof -
  have e: "HeartBeatSendPackage_mutable_user_name (\<lambda>_. v) m = HeartBeatSendPackage_set_user_name v m"
    by (simp add: HeartBeatSendPackage_presence HeartBeatSendPackage_accessors Let_def)
  show "HeartBeatSendPackage_ok (HeartBeatSendPackage_mutable_user_name (\<lambda>_. v) m)" "HeartBeatSendPackage_abs (HeartBeatSendPackage_mutable_user_name (\<lambda>_. v) m) = AHeartBeatSendPackage_user_name_update (or_else (Some v)) (HeartBeatSendPackage_abs m)"
    unfolding e using assms by simp_all
qed

lemma HeartBeatSendPackage_parse_user_name_safe: "HeartBeatSendPackage_ok m \<Longrightarrow> cis_ok c \<Longrightarrow> safe HeartBeatSendPackage_ok 1 c (HeartBeatSendPackage_parse_user_name m c)"
  unfolding HeartBeatSendPackage_parse_user_name_def by (rule safe_value) (simp_all add: primitive_sound HeartBeatSendPackage_parse_user_name_steps del: One_nat_def)

lemma HeartBeatSendPackage_parse_user_name_yields:
  "length v < 2 ^ 31 \<Longrightarrow> yields d HeartBeatSendPackage_ok HeartBeatSendPackage_abs HeartBeatSendPackage_parse_user_name (enc_bytes v) (AHeartBeatSendPackage_user_name_update (or_else (Some v)))"
  unfolding HeartBeatSendPackage_parse_user_name_def by (rule yields_value [OF reads_primitive(5)]) (simp_all add: HeartBeatSendPackage_parse_user_name_steps)

lemma HeartBeatSendPackage_parse_meeting_id_steps:
  assumes "HeartBeatSendPackage_ok m"
  shows "HeartBeatSendPackage_ok (HeartBeatSendPackage_mutable_meeting_id (\<lambda>_. v) m)" "HeartBeatSendPackage_abs (HeartBeatSendPackage_mutable_meeting_id (\<lambda>_. v) m) = AHeartBeatSendPackage_meeting_id_update (or_else (Some v)) (HeartBeatSendPackage_abs m)"
proof -
  have e: "HeartBeatSendPackage_mutable_meeting_id (\<lambda>_. v) m = HeartBeatSendPackage_set_meeting_id v m"
    by (simp add: HeartBeatSendPackage_presence HeartBeatSendPackage_accessors Let_def)
  show "HeartBeatSendPackage_ok (HeartBeatSendPackage_mutable_meeting_id (\<lambda>_. v) m)" "HeartBeatSendPackage_abs (HeartBeatSendPackage_mutable_meeting_id (\<lambda>_. v) m) = AHeartBeatSendPackage_meeting_id_update (or_else (Some v)) (HeartBeatSendPackage_abs m)"
    unfolding e using assms by simp_all
qed

lemma HeartBeatSendPackage_parse_meeting_id_safe: "HeartBeatSendPackage_ok m \<Longrightarrow> cis_ok c \<Longrightarrow> safe HeartBeatSendPackage_ok 1 c (HeartBeatSendPackage_parse_meeting_id m c)"
  unfolding HeartBeatSendPackage_parse_meeting_id_def by (rule safe_value) (simp_all add: primitive_sound HeartBeatSendPackage_parse_meeting_id_steps del: One_nat_def)

lemma HeartBeatSendPackage_parse_meeting_id_yields:
  "length v < 2 ^ 31 \<Longrightarrow> yields d HeartBeatSendPackage_ok HeartBeatSendPackage_abs HeartBeatSendPackage_parse_meeting_id (enc_bytes v) (AHeartBeatSendPackage_meeting_id_update (or_else (Some v)))"
  unfolding HeartBeatSendPackage_parse_meeting_id_def by (rule yields_value [OF reads_primitive(5)]) (simp_all add: HeartBeatSendPackage_parse_meeting_id_steps)

definition AHeartBeatSendPackage_wire :: "nat \<Rightarrow> AHeartBeatSendPackage \<Rightarrow> bool" where
  "AHeartBeatSendPackage_wire d a \<longleftrightarrow>
     all_opt (\<lambda>s. length s < 2 ^ 31) (AHeartBeatSendPackage_user_name a) \<and>
     all_opt (\<lambda>s. length s < 2 ^ 31) (AHeartBeatSendPackage_meeting_id a) \<and>
     (\<forall>f \<in> set (AHeartBeatSendPackage_unknown a). fits_unknown HeartBeatSendPackage_rows d f)"

definition AHeartBeatSendPackage_chunks :: "AHeartBeatSendPackage \<Rightarrow> AHeartBeatSendPackage chunk list" where
  "AHeartBeatSendPackage_chunks a =
     opt_chunk 1 WIRETYPE_LENGTH_DELIMITED enc_bytes (\<lambda>v. AHeartBeatSendPackage_user_name_update (or_else v)) (AHeartBeatSendPackage_user_name a) @
     opt_chunk 2 WIRETYPE_LENGTH_DELIMITED enc_bytes (\<lambda>v. AHeartBeatSendPackage_meeting_id_update (or_else v)) (AHeartBeatSendPackage_meeting_id a)"

lemma AHeartBeatSendPackage_chunks_bytes:
  "chunks_bytes (AHeartBeatSendPackage_chunks a) @ SerializeUnknownFieldsToArray (AHeartBeatSendPackage_unknown a) [] = AHeartBeatSendPackage_encode a"
  by (simp add: AHeartBeatSendPackage_chunks_def AHeartBeatSendPackage_encode_def opt_chunk_bytes rep_chunks_bytes)

lemma AHeartBeatSendPackage_add_unknown: "fold (\<lambda>f. AHeartBeatSendPackage_unknown_update (\<lambda>u. u @ [f])) fs b = AHeartBeatSendPackage_unknown_update (\<lambda>u. u @ fs) b"
  by (induction fs arbitrary: b) simp_all

lemma AHeartBeatSendPackage_effects: "(fold (\<lambda>f. AHeartBeatSendPackage_unknown_update (\<lambda>u. u @ [f])) (AHeartBeatSendPackage_unknown a) \<circ> effects (AHeartBeatSendPackage_chunks a)) b = AHeartBeatSendPackage_merge a b"
proof -
  have "(fold (\<lambda>f. AHeartBeatSendPackage_unknown_update (\<lambda>u. u @ [f])) (AHeartBeatSendPackage_unknown a) \<circ> effects (AHeartBeatSendPackage_chunks a)) b =
      AHeartBeatSendPackage_unknown_update (\<lambda>u. u @ AHeartBeatSendPackage_unknown a)
        (AHeartBeatSendPackage_meeting_id_update (or_else (AHeartBeatSendPackage_meeting_id a))
        (AHeartBeatSendPackage_user_name_update (or_else (AHeartBeatSendPackage_user_name a)) b))"
    by (simp add: AHeartBeatSendPackage_chunks_def opt_chunk_effect rep_chunks_effect AHeartBeatSendPackage_add_unknown)
  then show ?thesis
    by (cases b) (simp add: AHeartBeatSendPackage_merge_def)
qed

lemma AHeartBeatSendPackage_chunks_fit: "AHeartBeatSendPackage_wire d a \<Longrightarrow> \<forall>ch \<in> set (AHeartBeatSendPackage_chunks a). fits_row HeartBeatSendPackage_rows HeartBeatSendPackage_ok HeartBeatSendPackage_abs d ch"
  unfolding AHeartBeatSendPackage_chunks_def set_append ball_Un
proof (intro conjI)
  assume wr: "AHeartBeatSendPackage_wire d a"
  show "\<forall>ch \<in> set (opt_chunk 1 WIRETYPE_LENGTH_DELIMITED enc_bytes (\<lambda>v. AHeartBeatSendPackage_user_name_update (or_else v)) (AHeartBeatSendPackage_user_name a)). fits_row HeartBeatSendPackage_rows HeartBeatSendPackage_ok HeartBeatSendPackage_abs d ch"
    by (rule fits_opt_chunk [OF _ _ _ HeartBeatSendPackage_row_for(1)])
      (use wr in \<open>simp_all add: AHeartBeatSendPackage_wire_def HeartBeatSendPackage_parse_user_name_yields\<close>)
  show "\<forall>ch \<in> set (opt_chunk 2 WIRETYPE_LENGTH_DELIMITED enc_bytes (\<lambda>v. AHeartBeatSendPackage_meeting_id_update (or_else v)) (AHeartBeatSendPackage_meeting_id a)). fits_row HeartBeatSendPackage_rows HeartBeatSendPackage_ok HeartBeatSendPackage_abs d ch"
    by (rule fits_opt_chunk [OF _ _ _ HeartBeatSendPackage_row_for(2)])
      (use wr in \<open>simp_all add: AHeartBeatSendPackage_wire_def HeartBeatSendPackage_parse_meeting_id_yields\<close>)
qed

interpretation heartbeatsendpackage_format: message_format HeartBeatSendPackage_rows HeartBeatSendPackage_unknown "(\<lambda>u m. m\<lparr>HeartBeatSendPackage_unknown := u\<rparr>)" HeartBeatSendPackage_ok HeartBeatSendPackage_abs "(\<lambda>f. AHeartBeatSendPackage_unknown_update (\<lambda>u. u @ [f]))"
proof
  show "rows_closed HeartBeatSendPackage_rows" by (rule HeartBeatSendPackage_rows_closed)
  fix r m c
  assume "r \<in> set HeartBeatSendPackage_rows" "HeartBeatSendPackage_ok m" "cis_ok c"
  then show "safe HeartBeatSendPackage_ok 1 c (row_parse r m c)"
    by (auto simp: HeartBeatSendPackage_rows_def HeartBeatSendPackage_parse_user_name_safe HeartBeatSendPackage_parse_meeting_id_safe simp del: One_nat_def)
qed (simp_all add: HeartBeatSendPackage_unknown_abs)

lemma HeartBeatSendPackage_MergePartial_safe: "HeartBeatSendPackage_ok m \<Longrightarrow> cis_ok c \<Longrightarrow> safe HeartBeatSendPackage_ok 0 c (HeartBeatSendPackage_MergePartialFromCodedStream m c)"
  unfolding HeartBeatSendPackage_MergePartialFromCodedStream_def by (rule heartbeatsendpackage_format.MergePartial_safe)

lemma HeartBeatSendPackage_MergePartial_parses:
  assumes "AHeartBeatSendPackage_wire d a"
  shows "parses d HeartBeatSendPackage_ok HeartBeatSendPackage_abs HeartBeatSendPackage_MergePartialFromCodedStream (AHeartBeatSendPackage_encode a) (AHeartBeatSendPackage_merge a)"
proof -
  have u: "\<forall>f \<in> set (AHeartBeatSendPackage_unknown a). fits_unknown HeartBeatSendPackage_rows d f" using assms by (simp add: AHeartBeatSendPackage_wire_def)
  have e: "fold (\<lambda>f. AHeartBeatSendPackage_unknown_update (\<lambda>u. u @ [f])) (AHeartBeatSendPackage_unknown a) \<circ> effects (AHeartBeatSendPackage_chunks a) = AHeartBeatSendPackage_merge a"
    by (rule ext) (rule AHeartBeatSendPackage_effects)
  from heartbeatsendpackage_format.MergePartial_parses [OF AHeartBeatSendPackage_chunks_fit [OF assms] u] show ?thesis
    unfolding e AHeartBeatSendPackage_chunks_bytes by (simp add: HeartBeatSendPackage_MergePartialFromCodedStream_def [abs_def])
qed

section \<open>Parsing \<^verbatim>\<open>HeartReturnPackage\<close>\<close>

definition HeartReturnPackage_parse_identity :: "HeartReturnPackage \<Rightarrow> cis \<Rightarrow> HeartReturnPackage got" where
  "HeartReturnPackage_parse_identity m c =
     got_bind (ReadPrimitive_ENUM c) (\<lambda>value c.
       Got (if Identity_IsValid value then HeartReturnPackage_set_identity value m
            else m\<lparr>HeartReturnPackage_unknown := AddVarint 1 (scast value) (HeartReturnPackage_unknown m)\<rparr>) c)"

definition HeartReturnPackage_rows :: "HeartReturnPackage row list" where
  "HeartReturnPackage_rows =
    [\<lparr>row_number = 1, row_wiretype = WIRETYPE_VARINT, row_parse = HeartReturnPackage_parse_identity, row_expects = [], row_at_end = True\<rparr>]"

definition HeartReturnPackage_MergePartialFromCodedStream :: "HeartReturnPackage \<Rightarrow> cis \<Rightarrow> HeartReturnPackage got" where
  "HeartReturnPackage_MergePartialFromCodedStream m c =
     MergePartial HeartReturnPackage_rows (skip_into HeartReturnPackage_unknown (\<lambda>u m. m\<lparr>HeartReturnPackage_unknown := u\<rparr>)) m c"

lemma HeartReturnPackage_row_for [simp]:
  "row_for HeartReturnPackage_rows 1 = Some \<lparr>row_number = 1, row_wiretype = WIRETYPE_VARINT, row_parse = HeartReturnPackage_parse_identity, row_expects = [], row_at_end = True\<rparr>"
  by (simp_all add: row_for_def HeartReturnPackage_rows_def)

lemma HeartReturnPackage_rows_closed: "rows_closed HeartReturnPackage_rows"
  by (simp add: rows_closed_def HeartReturnPackage_rows_def row_for_def tag_parts wiretypes)

lemma HeartReturnPackage_unknown_simps [simp]:
  "HeartReturnPackage_ok (m\<lparr>HeartReturnPackage_unknown := u\<rparr>) = HeartReturnPackage_ok m" "HeartReturnPackage_abs (m\<lparr>HeartReturnPackage_unknown := u\<rparr>) = (HeartReturnPackage_abs m)\<lparr>AHeartReturnPackage_unknown := u\<rparr>"
  by (simp_all add: HeartReturnPackage_ok_def HeartReturnPackage_abs_def HeartReturnPackage_presence HeartReturnPackage_accessors)

lemma HeartReturnPackage_parse_identity_safe: "HeartReturnPackage_ok m \<Longrightarrow> cis_ok c \<Longrightarrow> safe HeartReturnPackage_ok 1 c (HeartReturnPackage_parse_identity m c)"
  unfolding HeartReturnPackage_parse_identity_def by (rule safe_value) (simp_all add: primitive_sound del: One_nat_def)

lemma HeartReturnPackage_parse_identity_yields:
  "Identity_IsValid v \<Longrightarrow> yields d HeartReturnPackage_ok HeartReturnPackage_abs HeartReturnPackage_parse_identity (enc_int32 v) (AHeartReturnPackage_identity_update (or_else (Some v)))"
  unfolding HeartReturnPackage_parse_identity_def by (rule yields_value [OF reads_primitive(2)]) simp_all

definition AHeartReturnPackage_wire :: "nat \<Rightarrow> AHeartReturnPackage \<Rightarrow> bool" where
  "AHeartReturnPackage_wire d a \<longleftrightarrow>
     all_opt Identity_IsValid (AHeartReturnPackage_identity a) \<and>
     (\<forall>f \<in> set (AHeartReturnPackage_unknown a). fits_unknown HeartReturnPackage_rows d f)"

definition AHeartReturnPackage_chunks :: "AHeartReturnPackage \<Rightarrow> AHeartReturnPackage chunk list" where
  "AHeartReturnPackage_chunks a =
     opt_chunk 1 WIRETYPE_VARINT enc_int32 (\<lambda>v. AHeartReturnPackage_identity_update (or_else v)) (AHeartReturnPackage_identity a)"

lemma AHeartReturnPackage_chunks_bytes:
  "chunks_bytes (AHeartReturnPackage_chunks a) @ SerializeUnknownFieldsToArray (AHeartReturnPackage_unknown a) [] = AHeartReturnPackage_encode a"
  by (simp add: AHeartReturnPackage_chunks_def AHeartReturnPackage_encode_def opt_chunk_bytes rep_chunks_bytes)

lemma AHeartReturnPackage_add_unknown: "fold (\<lambda>f. AHeartReturnPackage_unknown_update (\<lambda>u. u @ [f])) fs b = AHeartReturnPackage_unknown_update (\<lambda>u. u @ fs) b"
  by (induction fs arbitrary: b) simp_all

lemma AHeartReturnPackage_effects: "(fold (\<lambda>f. AHeartReturnPackage_unknown_update (\<lambda>u. u @ [f])) (AHeartReturnPackage_unknown a) \<circ> effects (AHeartReturnPackage_chunks a)) b = AHeartReturnPackage_merge a b"
proof -
  have "(fold (\<lambda>f. AHeartReturnPackage_unknown_update (\<lambda>u. u @ [f])) (AHeartReturnPackage_unknown a) \<circ> effects (AHeartReturnPackage_chunks a)) b =
      AHeartReturnPackage_unknown_update (\<lambda>u. u @ AHeartReturnPackage_unknown a)
        (AHeartReturnPackage_identity_update (or_else (AHeartReturnPackage_identity a)) b)"
    by (simp add: AHeartReturnPackage_chunks_def opt_chunk_effect rep_chunks_effect AHeartReturnPackage_add_unknown)
  then show ?thesis
    by (cases b) (simp add: AHeartReturnPackage_merge_def)
qed

lemma AHeartReturnPackage_chunks_fit: "AHeartReturnPackage_wire d a \<Longrightarrow> \<forall>ch \<in> set (AHeartReturnPackage_chunks a). fits_row HeartReturnPackage_rows HeartReturnPackage_ok HeartReturnPackage_abs d ch"
  unfolding AHeartReturnPackage_chunks_def
proof -
  assume wr: "AHeartReturnPackage_wire d a"
  show "\<forall>ch \<in> set (opt_chunk 1 WIRETYPE_VARINT enc_int32 (\<lambda>v. AHeartReturnPackage_identity_update (or_else v)) (AHeartReturnPackage_identity a)). fits_row HeartReturnPackage_rows HeartReturnPackage_ok HeartReturnPackage_abs d ch"
    by (rule fits_opt_chunk [OF _ _ _ HeartReturnPackage_row_for(1)])
      (use wr in \<open>simp_all add: AHeartReturnPackage_wire_def HeartReturnPackage_parse_identity_yields\<close>)
qed

interpretation heartreturnpackage_format: message_format HeartReturnPackage_rows HeartReturnPackage_unknown "(\<lambda>u m. m\<lparr>HeartReturnPackage_unknown := u\<rparr>)" HeartReturnPackage_ok HeartReturnPackage_abs "(\<lambda>f. AHeartReturnPackage_unknown_update (\<lambda>u. u @ [f]))"
proof
  show "rows_closed HeartReturnPackage_rows" by (rule HeartReturnPackage_rows_closed)
  fix r m c
  assume "r \<in> set HeartReturnPackage_rows" "HeartReturnPackage_ok m" "cis_ok c"
  then show "safe HeartReturnPackage_ok 1 c (row_parse r m c)"
    by (auto simp: HeartReturnPackage_rows_def HeartReturnPackage_parse_identity_safe simp del: One_nat_def)
qed (simp_all add: HeartReturnPackage_unknown_abs)

lemma HeartReturnPackage_MergePartial_safe: "HeartReturnPackage_ok m \<Longrightarrow> cis_ok c \<Longrightarrow> safe HeartReturnPackage_ok 0 c (HeartReturnPackage_MergePartialFromCodedStream m c)"
  unfolding HeartReturnPackage_MergePartialFromCodedStream_def by (rule heartreturnpackage_format.MergePartial_safe)

lemma HeartReturnPackage_MergePartial_parses:
  assumes "AHeartReturnPackage_wire d a"
  shows "parses d HeartReturnPackage_ok HeartReturnPackage_abs HeartReturnPackage_MergePartialFromCodedStream (AHeartReturnPackage_encode a) (AHeartReturnPackage_merge a)"
proof -
  have u: "\<forall>f \<in> set (AHeartReturnPackage_unknown a). fits_unknown HeartReturnPackage_rows d f" using assms by (simp add: AHeartReturnPackage_wire_def)
  have e: "fold (\<lambda>f. AHeartReturnPackage_unknown_update (\<lambda>u. u @ [f])) (AHeartReturnPackage_unknown a) \<circ> effects (AHeartReturnPackage_chunks a) = AHeartReturnPackage_merge a"
    by (rule ext) (rule AHeartReturnPackage_effects)
  from heartreturnpackage_format.MergePartial_parses [OF AHeartReturnPackage_chunks_fit [OF assms] u] show ?thesis
    unfolding e AHeartReturnPackage_chunks_bytes by (simp add: HeartReturnPackage_MergePartialFromCodedStream_def [abs_def])
qed

end
