(* ===== verification/Wire_Messages.thy ===== *)
theory Wire_Messages
  imports Rcf_Frame Parse_Operations Parse_Meeting
begin

text \<open>
  The twelve message classes as \<^verbatim>\<open>MessageLite\<close>: the virtual functions each class implements, and the
  proof that it keeps the contract of \<open>wire_message\<close>.
\<close>

section \<open>\<^verbatim>\<open>Operation_OperationData_Point\<close>\<close>

definition Point_lite :: "Point message_lite" where
  "Point_lite = \<lparr>vt_Clear = Point_Clear, vt_IsInitialized = Point_IsInitialized,
     vt_MergePartial = Point_MergePartialFromCodedStream, vt_ByteSize = Point_ByteSize,
     vt_SerializeWithCachedSizes = Point_SerializeWithCachedSizesToArray\<rparr>"

interpretation point_wire: wire_message Point_lite Point_ok Point_abs APoint_empty APoint_encode APoint_merge APoint_initialized APoint_wire
proof
  fix m :: Point
  assume m: "Point_ok m"
  show "Point_ok (vt_Clear Point_lite m) \<and> Point_abs (vt_Clear Point_lite m) = APoint_empty"
    by (simp add: Point_lite_def Point_Clear_ok [OF m] Point_Clear_abs)
  show "vt_IsInitialized Point_lite m \<longleftrightarrow> APoint_initialized (Point_abs m)"
    by (simp add: Point_lite_def Point_IsInitialized_abs [OF m])
  show "safe Point_ok 0 c (vt_MergePartial Point_lite m c)" if "cis_ok c" for c
    using Point_MergePartial_safe [OF m that] by (simp add: Point_lite_def)
  obtain n m' where b: "Point_ByteSize m = (n, m')" by (cases "Point_ByteSize m")
  show "\<exists>m'. vt_ByteSize Point_lite m = (length (APoint_encode (Point_abs m)), m') \<and> Point_ok m' \<and> Point_abs m' = Point_abs m \<and>
      (\<forall>t. vt_SerializeWithCachedSizes Point_lite m' t = t @ APoint_encode (Point_abs m))"
    using Point_ByteSize_fst [OF m] Point_ByteSize_snd [OF m] by (simp add: Point_lite_def b Point_SerializeWithCachedSizesToArray_eq)
next
  show "parses d Point_ok Point_abs (vt_MergePartial Point_lite) (APoint_encode a) (APoint_merge a)" if "APoint_wire d a" for d a
    using Point_MergePartial_parses [OF that] by (simp add: Point_lite_def)
  show "APoint_merge a APoint_empty = a" for a
    by (simp add: Point_merge_empty)
qed

section \<open>\<^verbatim>\<open>Operation_OperationData\<close>\<close>

definition OperationData_lite :: "OperationData message_lite" where
  "OperationData_lite = \<lparr>vt_Clear = OperationData_Clear, vt_IsInitialized = OperationData_IsInitialized,
     vt_MergePartial = OperationData_MergePartialFromCodedStream, vt_ByteSize = OperationData_ByteSize,
     vt_SerializeWithCachedSizes = OperationData_SerializeWithCachedSizesToArray\<rparr>"

interpretation operationdata_wire: wire_message OperationData_lite OperationData_ok OperationData_abs AOperationData_empty AOperationData_encode AOperationData_merge AOperationData_initialized AOperationData_wire
proof
  fix m :: OperationData
  assume m: "OperationData_ok m"
  show "OperationData_ok (vt_Clear OperationData_lite m) \<and> OperationData_abs (vt_Clear OperationData_lite m) = AOperationData_empty"
    by (simp add: OperationData_lite_def OperationData_Clear_ok [OF m] OperationData_Clear_abs)
  show "vt_IsInitialized OperationData_lite m \<longleftrightarrow> AOperationData_initialized (OperationData_abs m)"
    by (simp add: OperationData_lite_def OperationData_IsInitialized_abs [OF m])
  show "safe OperationData_ok 0 c (vt_MergePartial OperationData_lite m c)" if "cis_ok c" for c
    using OperationData_MergePartial_safe [OF m that] by (simp add: OperationData_lite_def)
  obtain n m' where b: "OperationData_ByteSize m = (n, m')" by (cases "OperationData_ByteSize m")
  show "\<exists>m'. vt_ByteSize OperationData_lite m = (length (AOperationData_encode (OperationData_abs m)), m') \<and> OperationData_ok m' \<and> OperationData_abs m' = OperationData_abs m \<and>
      (\<forall>t. vt_SerializeWithCachedSizes OperationData_lite m' t = t @ AOperationData_encode (OperationData_abs m))"
    using OperationData_ByteSize_fst [OF m] OperationData_ByteSize_snd [OF m] by (simp add: OperationData_lite_def b OperationData_SerializeWithCachedSizesToArray_eq)
next
  show "parses d OperationData_ok OperationData_abs (vt_MergePartial OperationData_lite) (AOperationData_encode a) (AOperationData_merge a)" if "AOperationData_wire d a" for d a
    using OperationData_MergePartial_parses [OF that] by (simp add: OperationData_lite_def)
  show "AOperationData_merge a AOperationData_empty = a" for a
    by (simp add: OperationData_merge_empty)
qed

section \<open>\<^verbatim>\<open>Operation\<close>\<close>

definition Operation_lite :: "Operation message_lite" where
  "Operation_lite = \<lparr>vt_Clear = Operation_Clear, vt_IsInitialized = Operation_IsInitialized,
     vt_MergePartial = Operation_MergePartialFromCodedStream, vt_ByteSize = Operation_ByteSize,
     vt_SerializeWithCachedSizes = Operation_SerializeWithCachedSizesToArray\<rparr>"

interpretation operation_wire: wire_message Operation_lite Operation_ok Operation_abs AOperation_empty AOperation_encode AOperation_merge AOperation_initialized AOperation_wire
proof
  fix m :: Operation
  assume m: "Operation_ok m"
  show "Operation_ok (vt_Clear Operation_lite m) \<and> Operation_abs (vt_Clear Operation_lite m) = AOperation_empty"
    by (simp add: Operation_lite_def Operation_Clear_ok [OF m] Operation_Clear_abs)
  show "vt_IsInitialized Operation_lite m \<longleftrightarrow> AOperation_initialized (Operation_abs m)"
    by (simp add: Operation_lite_def Operation_IsInitialized_abs [OF m])
  show "safe Operation_ok 0 c (vt_MergePartial Operation_lite m c)" if "cis_ok c" for c
    using Operation_MergePartial_safe [OF m that] by (simp add: Operation_lite_def)
  obtain n m' where b: "Operation_ByteSize m = (n, m')" by (cases "Operation_ByteSize m")
  show "\<exists>m'. vt_ByteSize Operation_lite m = (length (AOperation_encode (Operation_abs m)), m') \<and> Operation_ok m' \<and> Operation_abs m' = Operation_abs m \<and>
      (\<forall>t. vt_SerializeWithCachedSizes Operation_lite m' t = t @ AOperation_encode (Operation_abs m))"
    using Operation_ByteSize_fst [OF m] Operation_ByteSize_snd [OF m] by (simp add: Operation_lite_def b Operation_SerializeWithCachedSizesToArray_eq)
next
  show "parses d Operation_ok Operation_abs (vt_MergePartial Operation_lite) (AOperation_encode a) (AOperation_merge a)" if "AOperation_wire d a" for d a
    using Operation_MergePartial_parses [OF that] by (simp add: Operation_lite_def)
  show "AOperation_merge a AOperation_empty = a" for a
    by (simp add: Operation_merge_empty)
qed

section \<open>\<^verbatim>\<open>Operations\<close>\<close>

definition Operations_lite :: "Operations message_lite" where
  "Operations_lite = \<lparr>vt_Clear = Operations_Clear, vt_IsInitialized = Operations_IsInitialized,
     vt_MergePartial = Operations_MergePartialFromCodedStream, vt_ByteSize = Operations_ByteSize,
     vt_SerializeWithCachedSizes = Operations_SerializeWithCachedSizesToArray\<rparr>"

interpretation operations_wire: wire_message Operations_lite Operations_ok Operations_abs AOperations_empty AOperations_encode AOperations_merge AOperations_initialized AOperations_wire
proof
  fix m :: Operations
  assume m: "Operations_ok m"
  show "Operations_ok (vt_Clear Operations_lite m) \<and> Operations_abs (vt_Clear Operations_lite m) = AOperations_empty"
    by (simp add: Operations_lite_def Operations_Clear_ok [OF m] Operations_Clear_abs)
  show "vt_IsInitialized Operations_lite m \<longleftrightarrow> AOperations_initialized (Operations_abs m)"
    by (simp add: Operations_lite_def Operations_IsInitialized_abs [OF m])
  show "safe Operations_ok 0 c (vt_MergePartial Operations_lite m c)" if "cis_ok c" for c
    using Operations_MergePartial_safe [OF m that] by (simp add: Operations_lite_def)
  obtain n m' where b: "Operations_ByteSize m = (n, m')" by (cases "Operations_ByteSize m")
  show "\<exists>m'. vt_ByteSize Operations_lite m = (length (AOperations_encode (Operations_abs m)), m') \<and> Operations_ok m' \<and> Operations_abs m' = Operations_abs m \<and>
      (\<forall>t. vt_SerializeWithCachedSizes Operations_lite m' t = t @ AOperations_encode (Operations_abs m))"
    using Operations_ByteSize_fst [OF m] Operations_ByteSize_snd [OF m] by (simp add: Operations_lite_def b Operations_SerializeWithCachedSizesToArray_eq)
next
  show "parses d Operations_ok Operations_abs (vt_MergePartial Operations_lite) (AOperations_encode a) (AOperations_merge a)" if "AOperations_wire d a" for d a
    using Operations_MergePartial_parses [OF that] by (simp add: Operations_lite_def)
  show "AOperations_merge a AOperations_empty = a" for a
    by (simp add: AOperations_merge_def AOperations_empty_def)
qed

section \<open>\<^verbatim>\<open>Document\<close>\<close>

definition Document_lite :: "Document message_lite" where
  "Document_lite = \<lparr>vt_Clear = Document_Clear, vt_IsInitialized = Document_IsInitialized,
     vt_MergePartial = Document_MergePartialFromCodedStream, vt_ByteSize = Document_ByteSize,
     vt_SerializeWithCachedSizes = Document_SerializeWithCachedSizesToArray\<rparr>"

interpretation document_wire: wire_message Document_lite Document_ok Document_abs ADocument_empty ADocument_encode ADocument_merge ADocument_initialized ADocument_wire
proof
  fix m :: Document
  assume m: "Document_ok m"
  show "Document_ok (vt_Clear Document_lite m) \<and> Document_abs (vt_Clear Document_lite m) = ADocument_empty"
    by (simp add: Document_lite_def Document_Clear_ok [OF m] Document_Clear_abs)
  show "vt_IsInitialized Document_lite m \<longleftrightarrow> ADocument_initialized (Document_abs m)"
    by (simp add: Document_lite_def Document_IsInitialized_abs [OF m])
  show "safe Document_ok 0 c (vt_MergePartial Document_lite m c)" if "cis_ok c" for c
    using Document_MergePartial_safe [OF m that] by (simp add: Document_lite_def)
  obtain n m' where b: "Document_ByteSize m = (n, m')" by (cases "Document_ByteSize m")
  show "\<exists>m'. vt_ByteSize Document_lite m = (length (ADocument_encode (Document_abs m)), m') \<and> Document_ok m' \<and> Document_abs m' = Document_abs m \<and>
      (\<forall>t. vt_SerializeWithCachedSizes Document_lite m' t = t @ ADocument_encode (Document_abs m))"
    using Document_ByteSize_fst [OF m] Document_ByteSize_snd [OF m] by (simp add: Document_lite_def b Document_SerializeWithCachedSizesToArray_eq)
next
  show "parses d Document_ok Document_abs (vt_MergePartial Document_lite) (ADocument_encode a) (ADocument_merge a)" if "ADocument_wire d a" for d a
    using Document_MergePartial_parses [OF that] by (simp add: Document_lite_def)
  show "ADocument_merge a ADocument_empty = a" for a
    by (simp add: Document_merge_empty)
qed

section \<open>\<^verbatim>\<open>DocumentList\<close>\<close>

definition DocumentList_lite :: "DocumentList message_lite" where
  "DocumentList_lite = \<lparr>vt_Clear = DocumentList_Clear, vt_IsInitialized = DocumentList_IsInitialized,
     vt_MergePartial = DocumentList_MergePartialFromCodedStream, vt_ByteSize = DocumentList_ByteSize,
     vt_SerializeWithCachedSizes = DocumentList_SerializeWithCachedSizesToArray\<rparr>"

interpretation documentlist_wire: wire_message DocumentList_lite DocumentList_ok DocumentList_abs ADocumentList_empty ADocumentList_encode ADocumentList_merge ADocumentList_initialized ADocumentList_wire
proof
  fix m :: DocumentList
  assume m: "DocumentList_ok m"
  show "DocumentList_ok (vt_Clear DocumentList_lite m) \<and> DocumentList_abs (vt_Clear DocumentList_lite m) = ADocumentList_empty"
    by (simp add: DocumentList_lite_def DocumentList_Clear_ok [OF m] DocumentList_Clear_abs)
  show "vt_IsInitialized DocumentList_lite m \<longleftrightarrow> ADocumentList_initialized (DocumentList_abs m)"
    by (simp add: DocumentList_lite_def DocumentList_IsInitialized_abs [OF m])
  show "safe DocumentList_ok 0 c (vt_MergePartial DocumentList_lite m c)" if "cis_ok c" for c
    using DocumentList_MergePartial_safe [OF m that] by (simp add: DocumentList_lite_def)
  obtain n m' where b: "DocumentList_ByteSize m = (n, m')" by (cases "DocumentList_ByteSize m")
  show "\<exists>m'. vt_ByteSize DocumentList_lite m = (length (ADocumentList_encode (DocumentList_abs m)), m') \<and> DocumentList_ok m' \<and> DocumentList_abs m' = DocumentList_abs m \<and>
      (\<forall>t. vt_SerializeWithCachedSizes DocumentList_lite m' t = t @ ADocumentList_encode (DocumentList_abs m))"
    using DocumentList_ByteSize_fst [OF m] DocumentList_ByteSize_snd [OF m] by (simp add: DocumentList_lite_def b DocumentList_SerializeWithCachedSizesToArray_eq)
next
  show "parses d DocumentList_ok DocumentList_abs (vt_MergePartial DocumentList_lite) (ADocumentList_encode a) (ADocumentList_merge a)" if "ADocumentList_wire d a" for d a
    using DocumentList_MergePartial_parses [OF that] by (simp add: DocumentList_lite_def)
  show "ADocumentList_merge a ADocumentList_empty = a" for a
    by (simp add: ADocumentList_merge_def ADocumentList_empty_def)
qed

section \<open>\<^verbatim>\<open>MeetingServerInfo\<close>\<close>

definition MeetingServerInfo_lite :: "MeetingServerInfo message_lite" where
  "MeetingServerInfo_lite = \<lparr>vt_Clear = MeetingServerInfo_Clear, vt_IsInitialized = MeetingServerInfo_IsInitialized,
     vt_MergePartial = MeetingServerInfo_MergePartialFromCodedStream, vt_ByteSize = MeetingServerInfo_ByteSize,
     vt_SerializeWithCachedSizes = MeetingServerInfo_SerializeWithCachedSizesToArray\<rparr>"

interpretation meetingserverinfo_wire: wire_message MeetingServerInfo_lite MeetingServerInfo_ok MeetingServerInfo_abs AMeetingServerInfo_empty AMeetingServerInfo_encode AMeetingServerInfo_merge AMeetingServerInfo_initialized AMeetingServerInfo_wire
proof
  fix m :: MeetingServerInfo
  assume m: "MeetingServerInfo_ok m"
  show "MeetingServerInfo_ok (vt_Clear MeetingServerInfo_lite m) \<and> MeetingServerInfo_abs (vt_Clear MeetingServerInfo_lite m) = AMeetingServerInfo_empty"
    by (simp add: MeetingServerInfo_lite_def MeetingServerInfo_Clear_ok [OF m] MeetingServerInfo_Clear_abs)
  show "vt_IsInitialized MeetingServerInfo_lite m \<longleftrightarrow> AMeetingServerInfo_initialized (MeetingServerInfo_abs m)"
    by (simp add: MeetingServerInfo_lite_def MeetingServerInfo_IsInitialized_abs [OF m])
  show "safe MeetingServerInfo_ok 0 c (vt_MergePartial MeetingServerInfo_lite m c)" if "cis_ok c" for c
    using MeetingServerInfo_MergePartial_safe [OF m that] by (simp add: MeetingServerInfo_lite_def)
  obtain n m' where b: "MeetingServerInfo_ByteSize m = (n, m')" by (cases "MeetingServerInfo_ByteSize m")
  show "\<exists>m'. vt_ByteSize MeetingServerInfo_lite m = (length (AMeetingServerInfo_encode (MeetingServerInfo_abs m)), m') \<and> MeetingServerInfo_ok m' \<and> MeetingServerInfo_abs m' = MeetingServerInfo_abs m \<and>
      (\<forall>t. vt_SerializeWithCachedSizes MeetingServerInfo_lite m' t = t @ AMeetingServerInfo_encode (MeetingServerInfo_abs m))"
    using MeetingServerInfo_ByteSize_fst [OF m] MeetingServerInfo_ByteSize_snd [OF m] by (simp add: MeetingServerInfo_lite_def b MeetingServerInfo_SerializeWithCachedSizesToArray_eq)
next
  show "parses d MeetingServerInfo_ok MeetingServerInfo_abs (vt_MergePartial MeetingServerInfo_lite) (AMeetingServerInfo_encode a) (AMeetingServerInfo_merge a)" if "AMeetingServerInfo_wire d a" for d a
    using MeetingServerInfo_MergePartial_parses [OF that] by (simp add: MeetingServerInfo_lite_def)
  show "AMeetingServerInfo_merge a AMeetingServerInfo_empty = a" for a
    by (simp add: MeetingServerInfo_merge_empty)
qed

section \<open>\<^verbatim>\<open>JoinMeetingReturn\<close>\<close>

definition JoinMeetingReturn_lite :: "JoinMeetingReturn message_lite" where
  "JoinMeetingReturn_lite = \<lparr>vt_Clear = JoinMeetingReturn_Clear, vt_IsInitialized = JoinMeetingReturn_IsInitialized,
     vt_MergePartial = JoinMeetingReturn_MergePartialFromCodedStream, vt_ByteSize = JoinMeetingReturn_ByteSize,
     vt_SerializeWithCachedSizes = JoinMeetingReturn_SerializeWithCachedSizesToArray\<rparr>"

interpretation joinmeetingreturn_wire: wire_message JoinMeetingReturn_lite JoinMeetingReturn_ok JoinMeetingReturn_abs AJoinMeetingReturn_empty AJoinMeetingReturn_encode AJoinMeetingReturn_merge AJoinMeetingReturn_initialized AJoinMeetingReturn_wire
proof
  fix m :: JoinMeetingReturn
  assume m: "JoinMeetingReturn_ok m"
  show "JoinMeetingReturn_ok (vt_Clear JoinMeetingReturn_lite m) \<and> JoinMeetingReturn_abs (vt_Clear JoinMeetingReturn_lite m) = AJoinMeetingReturn_empty"
    by (simp add: JoinMeetingReturn_lite_def JoinMeetingReturn_Clear_ok [OF m] JoinMeetingReturn_Clear_abs)
  show "vt_IsInitialized JoinMeetingReturn_lite m \<longleftrightarrow> AJoinMeetingReturn_initialized (JoinMeetingReturn_abs m)"
    by (simp add: JoinMeetingReturn_lite_def JoinMeetingReturn_IsInitialized_abs [OF m])
  show "safe JoinMeetingReturn_ok 0 c (vt_MergePartial JoinMeetingReturn_lite m c)" if "cis_ok c" for c
    using JoinMeetingReturn_MergePartial_safe [OF m that] by (simp add: JoinMeetingReturn_lite_def)
  obtain n m' where b: "JoinMeetingReturn_ByteSize m = (n, m')" by (cases "JoinMeetingReturn_ByteSize m")
  show "\<exists>m'. vt_ByteSize JoinMeetingReturn_lite m = (length (AJoinMeetingReturn_encode (JoinMeetingReturn_abs m)), m') \<and> JoinMeetingReturn_ok m' \<and> JoinMeetingReturn_abs m' = JoinMeetingReturn_abs m \<and>
      (\<forall>t. vt_SerializeWithCachedSizes JoinMeetingReturn_lite m' t = t @ AJoinMeetingReturn_encode (JoinMeetingReturn_abs m))"
    using JoinMeetingReturn_ByteSize_fst [OF m] JoinMeetingReturn_ByteSize_snd [OF m] by (simp add: JoinMeetingReturn_lite_def b JoinMeetingReturn_SerializeWithCachedSizesToArray_eq)
next
  show "parses d JoinMeetingReturn_ok JoinMeetingReturn_abs (vt_MergePartial JoinMeetingReturn_lite) (AJoinMeetingReturn_encode a) (AJoinMeetingReturn_merge a)" if "AJoinMeetingReturn_wire d a" for d a
    using JoinMeetingReturn_MergePartial_parses [OF that] by (simp add: JoinMeetingReturn_lite_def)
  show "AJoinMeetingReturn_merge a AJoinMeetingReturn_empty = a" for a
    by (simp add: JoinMeetingReturn_merge_empty)
qed

section \<open>\<^verbatim>\<open>User\<close>\<close>

definition User_lite :: "User message_lite" where
  "User_lite = \<lparr>vt_Clear = User_Clear, vt_IsInitialized = User_IsInitialized,
     vt_MergePartial = User_MergePartialFromCodedStream, vt_ByteSize = User_ByteSize,
     vt_SerializeWithCachedSizes = User_SerializeWithCachedSizesToArray\<rparr>"

interpretation user_wire: wire_message User_lite User_ok User_abs AUser_empty AUser_encode AUser_merge AUser_initialized AUser_wire
proof
  fix m :: User
  assume m: "User_ok m"
  show "User_ok (vt_Clear User_lite m) \<and> User_abs (vt_Clear User_lite m) = AUser_empty"
    by (simp add: User_lite_def User_Clear_ok [OF m] User_Clear_abs)
  show "vt_IsInitialized User_lite m \<longleftrightarrow> AUser_initialized (User_abs m)"
    by (simp add: User_lite_def User_IsInitialized_abs [OF m])
  show "safe User_ok 0 c (vt_MergePartial User_lite m c)" if "cis_ok c" for c
    using User_MergePartial_safe [OF m that] by (simp add: User_lite_def)
  obtain n m' where b: "User_ByteSize m = (n, m')" by (cases "User_ByteSize m")
  show "\<exists>m'. vt_ByteSize User_lite m = (length (AUser_encode (User_abs m)), m') \<and> User_ok m' \<and> User_abs m' = User_abs m \<and>
      (\<forall>t. vt_SerializeWithCachedSizes User_lite m' t = t @ AUser_encode (User_abs m))"
    using User_ByteSize_fst [OF m] User_ByteSize_snd [OF m] by (simp add: User_lite_def b User_SerializeWithCachedSizesToArray_eq)
next
  show "parses d User_ok User_abs (vt_MergePartial User_lite) (AUser_encode a) (AUser_merge a)" if "AUser_wire d a" for d a
    using User_MergePartial_parses [OF that] by (simp add: User_lite_def)
  show "AUser_merge a AUser_empty = a" for a
    by (simp add: User_merge_empty)
qed

section \<open>\<^verbatim>\<open>HeartBeatSendPackage\<close>\<close>

definition HeartBeatSendPackage_lite :: "HeartBeatSendPackage message_lite" where
  "HeartBeatSendPackage_lite = \<lparr>vt_Clear = HeartBeatSendPackage_Clear, vt_IsInitialized = HeartBeatSendPackage_IsInitialized,
     vt_MergePartial = HeartBeatSendPackage_MergePartialFromCodedStream, vt_ByteSize = HeartBeatSendPackage_ByteSize,
     vt_SerializeWithCachedSizes = HeartBeatSendPackage_SerializeWithCachedSizesToArray\<rparr>"

interpretation heartbeatsendpackage_wire: wire_message HeartBeatSendPackage_lite HeartBeatSendPackage_ok HeartBeatSendPackage_abs AHeartBeatSendPackage_empty AHeartBeatSendPackage_encode AHeartBeatSendPackage_merge AHeartBeatSendPackage_initialized AHeartBeatSendPackage_wire
proof
  fix m :: HeartBeatSendPackage
  assume m: "HeartBeatSendPackage_ok m"
  show "HeartBeatSendPackage_ok (vt_Clear HeartBeatSendPackage_lite m) \<and> HeartBeatSendPackage_abs (vt_Clear HeartBeatSendPackage_lite m) = AHeartBeatSendPackage_empty"
    by (simp add: HeartBeatSendPackage_lite_def HeartBeatSendPackage_Clear_ok [OF m] HeartBeatSendPackage_Clear_abs)
  show "vt_IsInitialized HeartBeatSendPackage_lite m \<longleftrightarrow> AHeartBeatSendPackage_initialized (HeartBeatSendPackage_abs m)"
    by (simp add: HeartBeatSendPackage_lite_def HeartBeatSendPackage_IsInitialized_abs [OF m])
  show "safe HeartBeatSendPackage_ok 0 c (vt_MergePartial HeartBeatSendPackage_lite m c)" if "cis_ok c" for c
    using HeartBeatSendPackage_MergePartial_safe [OF m that] by (simp add: HeartBeatSendPackage_lite_def)
  obtain n m' where b: "HeartBeatSendPackage_ByteSize m = (n, m')" by (cases "HeartBeatSendPackage_ByteSize m")
  show "\<exists>m'. vt_ByteSize HeartBeatSendPackage_lite m = (length (AHeartBeatSendPackage_encode (HeartBeatSendPackage_abs m)), m') \<and> HeartBeatSendPackage_ok m' \<and> HeartBeatSendPackage_abs m' = HeartBeatSendPackage_abs m \<and>
      (\<forall>t. vt_SerializeWithCachedSizes HeartBeatSendPackage_lite m' t = t @ AHeartBeatSendPackage_encode (HeartBeatSendPackage_abs m))"
    using HeartBeatSendPackage_ByteSize_fst [OF m] HeartBeatSendPackage_ByteSize_snd [OF m] by (simp add: HeartBeatSendPackage_lite_def b HeartBeatSendPackage_SerializeWithCachedSizesToArray_eq)
next
  show "parses d HeartBeatSendPackage_ok HeartBeatSendPackage_abs (vt_MergePartial HeartBeatSendPackage_lite) (AHeartBeatSendPackage_encode a) (AHeartBeatSendPackage_merge a)" if "AHeartBeatSendPackage_wire d a" for d a
    using HeartBeatSendPackage_MergePartial_parses [OF that] by (simp add: HeartBeatSendPackage_lite_def)
  show "AHeartBeatSendPackage_merge a AHeartBeatSendPackage_empty = a" for a
    by (simp add: HeartBeatSendPackage_merge_empty)
qed

section \<open>\<^verbatim>\<open>HeartReturnPackage\<close>\<close>

definition HeartReturnPackage_lite :: "HeartReturnPackage message_lite" where
  "HeartReturnPackage_lite = \<lparr>vt_Clear = HeartReturnPackage_Clear, vt_IsInitialized = HeartReturnPackage_IsInitialized,
     vt_MergePartial = HeartReturnPackage_MergePartialFromCodedStream, vt_ByteSize = HeartReturnPackage_ByteSize,
     vt_SerializeWithCachedSizes = HeartReturnPackage_SerializeWithCachedSizesToArray\<rparr>"

interpretation heartreturnpackage_wire: wire_message HeartReturnPackage_lite HeartReturnPackage_ok HeartReturnPackage_abs AHeartReturnPackage_empty AHeartReturnPackage_encode AHeartReturnPackage_merge AHeartReturnPackage_initialized AHeartReturnPackage_wire
proof
  fix m :: HeartReturnPackage
  assume m: "HeartReturnPackage_ok m"
  show "HeartReturnPackage_ok (vt_Clear HeartReturnPackage_lite m) \<and> HeartReturnPackage_abs (vt_Clear HeartReturnPackage_lite m) = AHeartReturnPackage_empty"
    by (simp add: HeartReturnPackage_lite_def HeartReturnPackage_Clear_ok [OF m] HeartReturnPackage_Clear_abs)
  show "vt_IsInitialized HeartReturnPackage_lite m \<longleftrightarrow> AHeartReturnPackage_initialized (HeartReturnPackage_abs m)"
    by (simp add: HeartReturnPackage_lite_def HeartReturnPackage_IsInitialized_abs [OF m])
  show "safe HeartReturnPackage_ok 0 c (vt_MergePartial HeartReturnPackage_lite m c)" if "cis_ok c" for c
    using HeartReturnPackage_MergePartial_safe [OF m that] by (simp add: HeartReturnPackage_lite_def)
  obtain n m' where b: "HeartReturnPackage_ByteSize m = (n, m')" by (cases "HeartReturnPackage_ByteSize m")
  show "\<exists>m'. vt_ByteSize HeartReturnPackage_lite m = (length (AHeartReturnPackage_encode (HeartReturnPackage_abs m)), m') \<and> HeartReturnPackage_ok m' \<and> HeartReturnPackage_abs m' = HeartReturnPackage_abs m \<and>
      (\<forall>t. vt_SerializeWithCachedSizes HeartReturnPackage_lite m' t = t @ AHeartReturnPackage_encode (HeartReturnPackage_abs m))"
    using HeartReturnPackage_ByteSize_fst [OF m] HeartReturnPackage_ByteSize_snd [OF m] by (simp add: HeartReturnPackage_lite_def b HeartReturnPackage_SerializeWithCachedSizesToArray_eq)
next
  show "parses d HeartReturnPackage_ok HeartReturnPackage_abs (vt_MergePartial HeartReturnPackage_lite) (AHeartReturnPackage_encode a) (AHeartReturnPackage_merge a)" if "AHeartReturnPackage_wire d a" for d a
    using HeartReturnPackage_MergePartial_parses [OF that] by (simp add: HeartReturnPackage_lite_def)
  show "AHeartReturnPackage_merge a AHeartReturnPackage_empty = a" for a
    by (simp add: HeartReturnPackage_merge_empty)
qed

section \<open>\<^verbatim>\<open>UserList\<close>\<close>

definition UserList_lite :: "UserList message_lite" where
  "UserList_lite = \<lparr>vt_Clear = UserList_Clear, vt_IsInitialized = UserList_IsInitialized,
     vt_MergePartial = UserList_MergePartialFromCodedStream, vt_ByteSize = UserList_ByteSize,
     vt_SerializeWithCachedSizes = UserList_SerializeWithCachedSizesToArray\<rparr>"

interpretation userlist_wire: wire_message UserList_lite UserList_ok UserList_abs AUserList_empty AUserList_encode AUserList_merge AUserList_initialized AUserList_wire
proof
  fix m :: UserList
  assume m: "UserList_ok m"
  show "UserList_ok (vt_Clear UserList_lite m) \<and> UserList_abs (vt_Clear UserList_lite m) = AUserList_empty"
    by (simp add: UserList_lite_def UserList_Clear_ok [OF m] UserList_Clear_abs)
  show "vt_IsInitialized UserList_lite m \<longleftrightarrow> AUserList_initialized (UserList_abs m)"
    by (simp add: UserList_lite_def UserList_IsInitialized_abs [OF m])
  show "safe UserList_ok 0 c (vt_MergePartial UserList_lite m c)" if "cis_ok c" for c
    using UserList_MergePartial_safe [OF m that] by (simp add: UserList_lite_def)
  obtain n m' where b: "UserList_ByteSize m = (n, m')" by (cases "UserList_ByteSize m")
  show "\<exists>m'. vt_ByteSize UserList_lite m = (length (AUserList_encode (UserList_abs m)), m') \<and> UserList_ok m' \<and> UserList_abs m' = UserList_abs m \<and>
      (\<forall>t. vt_SerializeWithCachedSizes UserList_lite m' t = t @ AUserList_encode (UserList_abs m))"
    using UserList_ByteSize_fst [OF m] UserList_ByteSize_snd [OF m] by (simp add: UserList_lite_def b UserList_SerializeWithCachedSizesToArray_eq)
next
  show "parses d UserList_ok UserList_abs (vt_MergePartial UserList_lite) (AUserList_encode a) (AUserList_merge a)" if "AUserList_wire d a" for d a
    using UserList_MergePartial_parses [OF that] by (simp add: UserList_lite_def)
  show "AUserList_merge a AUserList_empty = a" for a
    by (simp add: AUserList_merge_def AUserList_empty_def)
qed

end
