(* ===== verification/Wire_Properties.thy ===== *)
theory Wire_Properties
  imports Wire_Messages Message_Model
begin

text \<open>
  What the path of a message from one client to another guarantees: varints, unknown and invalid
  fields, sizes, parsing of arbitrary bytes, and drawings that are sent and received.
\<close>

section \<open>Concrete messages\<close>

text \<open>A line of thickness 5, as a client sends it.\<close>

definition sample_line :: owb_operation where
  "sample_line = setThinkness 5 DrawLine_init"

lemma sample_line_abs:
  "op_abs sample_line = \<lparr>AOperation_serial_number = Some 0,
     AOperation_data = Some (AOperationData_empty\<lparr>AOperationData_data_type := Some 0, AOperationData_thinkness := Some 5\<rparr>),
     AOperation_unknown = []\<rparr>"
  by code_simp

lemma sample_line_ok:
  "consistent sample_line" "AOperation_initialized (op_abs sample_line)" "AOperation_wire 64 (op_abs sample_line)"
  "int (length (AOperation_encode (op_abs sample_line))) \<le> kDefaultTotalBytesLimit"
proof -
  have l: "length (AOperationData_encode (AOperationData_empty\<lparr>AOperationData_data_type := Some 0, AOperationData_thinkness := Some 5\<rparr>)) = 4"
    by (simp add: AOperationData_encode_def AOperationData_empty_def enc_int32_def varint.simps)
  show "AOperation_initialized (op_abs sample_line)"
    by (simp add: sample_line_abs AOperation_initialized_def AOperationData_initialized_def AOperationData_empty_def)
  show "AOperation_wire 64 (op_abs sample_line)"
    using l by (simp add: sample_line_abs AOperation_wire_def AOperationData_wire_def AOperationData_empty_def OperationDataType_IsValid_def)
  show "int (length (AOperation_encode (op_abs sample_line))) \<le> kDefaultTotalBytesLimit"
    using l by (simp add: sample_line_abs AOperation_encode_def kDefaultTotalBytesLimit_def enc_bytes_def enc_uint32_def varint.simps)
  have i: "op_ok DrawLine_init" "op_class DrawLine_init = Cls_DrawLine" "op_drawer DrawLine_init = Some LineDrawer"
      "operationType DrawLine_init = OwbOperationDataType_LINE"
    using init_consistent(1) by (simp_all add: consistent_def)
  have "op_ok sample_line" "data_abs sample_line = (data_abs DrawLine_init)\<lparr>AOperationData_thinkness := Some 5\<rparr>"
    by (simp_all add: sample_line_def setThinkness_def put_scalar i)
  then have "operationType sample_line = OwbOperationDataType_LINE"
    using operationType_abs [of sample_line] operationType_abs [OF i(1)] i(4) by simp
  with \<open>op_ok sample_line\<close> i show "consistent sample_line"
    by (simp add: consistent_def) (simp add: sample_line_def setThinkness_def put_data_def)
qed

section \<open>Properties\<close>

text \<open>
  C1: a drawing survives the wire. The message \<^verbatim>\<open>toOperation\<close> makes of an initialised object is
  written as one frame behind whatever the stream holds; a receiver at that frame, whatever
  follows, gets a message the factory turns into an object of the same class, drawer and
  content, and stands behind the frame.
\<close>

theorem drawing_survives_the_wire:
  assumes "consistent self" "AOperation_initialized (op_abs self)" "AOperation_wire 64 (op_abs self)"
    and "int (length (AOperation_encode (op_abs self))) \<le> kDefaultTotalBytesLimit" "out_ok os" "Operation_ok t"
  shows "\<exists>m os' t' i' self'. serializeProtobufOrNot Operation_lite (toOperation self) os = Done (m, os') \<and>
    take (length (written os)) (written os') = written os \<and>
    deserializeProtobufOrNot Operation_lite t \<lparr>in_buffer = written os' @ rest, get_pos = length (written os)\<rparr> = Done (t', i') \<and>
    get_pos i' = length (written os') \<and>
    CreateOperationFromOperation t' = Returns self' \<and> consistent self' \<and>
    op_class self' = op_class self \<and> op_drawer self' = op_drawer self \<and> op_abs self' = op_abs self"
proof -
  note t = toOperation_step [OF assms(1)]
  have "AOperation_initialized (Operation_abs (toOperation self))" using assms(2) t(2) by simp
  from operation_wire.serialize_frame [OF assms(5) t(1) this] obtain m os'
    where s: "serializeProtobufOrNot Operation_lite (toOperation self) os = Done (m, os')"
      "written os' = written os @ frame (AOperation_encode (op_abs self))" using t(2) by auto
  from operation_wire.deserialize_frame [OF assms(6,3,2,4), where before = "written os" and after = rest
      and i = "\<lparr>in_buffer = written os' @ rest, get_pos = length (written os)\<rparr>"] obtain t'
    where r: "deserializeProtobufOrNot Operation_lite t \<lparr>in_buffer = written os' @ rest, get_pos = length (written os)\<rparr> =
        Done (t', \<lparr>in_buffer = written os' @ rest, get_pos = length (written os')\<rparr>)" "Operation_ok t'" "Operation_abs t' = op_abs self"
    by (auto simp: s(2))
  have "OperationData_data_type (Operation_data t') = OperationData_data_type (Operation_data (toOperation self))"
    using r(2,3) t(1,2) Operation_getters(2) OperationData_getters(1) Operation_children_ok by metis
  then have d: "OperationData_data_type (Operation_data t') = type_of_class (op_class self)" using t(3) by simp
  have "CreateOperationFromOperation t' = Returns (new_of (op_class self) t')"
    using d factory_new_of by blast
  with consistent_new_of [OF r(2) d] new_of_step [OF r(2), of "op_class self"] r s assms(1) show ?thesis
    by (auto simp: consistent_def)
qed

theorem drawing_survives_the_wire_witness:
  "\<exists>m os' t' i' self'. serializeProtobufOrNot Operation_lite (toOperation sample_line) MemOstream_new = Done (m, os') \<and>
    deserializeProtobufOrNot Operation_lite Operation_default \<lparr>in_buffer = written os' @ [1, 2], get_pos = 0\<rparr> = Done (t', i') \<and>
    get_pos i' = length (written os') \<and> CreateOperationFromOperation t' = Returns self' \<and> op_abs self' = op_abs sample_line"
  using drawing_survives_the_wire [OF sample_line_ok new_stream(1) Operation_ok_default, of "[1, 2]"] by (auto simp: new_stream(2))



text \<open>
  C20: a document is accepted only when its array was read to the last byte and every required
  field was there, and no array makes the parser read outside of it or run on.
\<close>

theorem document_is_read_whole:
  assumes "Document_ok m" "int (length data) \<le> kDefaultTotalBytesLimit"
  shows "case ParseFromArray Document_lite data m of
      Got m' c \<Rightarrow> Document_ok m' \<and> ADocument_initialized (Document_abs m') \<and> cur c = int (length data)
    | Fails c \<Rightarrow> True | Crash \<Rightarrow> False | Runs_on \<Rightarrow> False"
  using document_wire.InlineParseFromArray_total [OF assms] by (auto simp: ParseFromArray_def)

theorem document_is_read_whole_witness:
  "case ParseFromArray Document_lite [8, 1, 18, 1, 7] Document_default of
      Got m' c \<Rightarrow> Document_ok m' \<and> ADocument_initialized (Document_abs m') \<and> cur c = 5
    | Fails c \<Rightarrow> True | Crash \<Rightarrow> False | Runs_on \<Rightarrow> False"
  using document_is_read_whole [of Document_default "[8, 1, 18, 1, 7]"] by (simp add: kDefaultTotalBytesLimit_def split: got.splits)

text \<open>
  sending is total. An operation with all its required fields goes out as one frame behind
  what the stream already holds; any other operation is refused with the exception for
  uninitialised messages. The message itself keeps its content.
\<close>

lemma operation_is_sent_or_refused:
  assumes "Operation_ok m" "out_ok os"
  shows "case serializeProtobufOrNot Operation_lite m os of
      Done (m', os') \<Rightarrow> AOperation_initialized (Operation_abs m) \<and> out_ok os' \<and>
        written os' = written os @ frame (AOperation_encode (Operation_abs m)) \<and> Operation_ok m' \<and> Operation_abs m' = Operation_abs m
    | Raised e \<Rightarrow> \<not> AOperation_initialized (Operation_abs m) \<and> e = ProtobufWriteInit
    | Aborted \<Rightarrow> False | Broken \<Rightarrow> False | Endless \<Rightarrow> False"
proof (cases "AOperation_initialized (Operation_abs m)")
  case True
  then show ?thesis using operation_wire.serialize_frame [OF assms(2,1)] by auto
qed (simp add: operation_wire.serialize_uninitialized [OF assms(1)])

theorem operation_is_sent_or_refused_witness:
  "serializeProtobufOrNot Operation_lite Operation_default MemOstream_new = Raised ProtobufWriteInit"
proof -
  have "\<not> AOperation_initialized (Operation_abs Operation_default)"
    by (simp add: AOperation_initialized_def AOperation_empty_def)
  with operation_is_sent_or_refused [OF Operation_ok_default new_stream(1)] show ?thesis
    by (auto split: framed.splits)
qed

text \<open>
  C11: parsing merges. Parsing what an operation serialises to into another operation has the
  effect of \<^verbatim>\<open>MergeFrom\<close>, and ends legitimately.
\<close>

theorem parsing_is_merging:
  assumes "Operation_ok from" "Operation_ok to" "AOperation_wire 64 (Operation_abs from)"
    and "int (length (AOperation_encode (Operation_abs from))) \<le> kDefaultTotalBytesLimit"
  shows "\<exists>bytes from' m' c. SerializePartialAsString Operation_lite from = Some (bytes, from') \<and>
    Operation_MergePartialFromCodedStream to (CodedInputStream_new bytes) = Got m' c \<and> ConsumedEntireMessage c \<and>
    Operation_ok m' \<and> Operation_abs m' = Operation_abs (Operation_MergeFrom from to)"
proof -
  obtain from' where s: "AppendPartialToString Operation_lite [] from = Wrote (AOperation_encode (Operation_abs from)) from'"
    using operation_wire.AppendPartialToString_writes [OF assms(1), of "[]"] by auto
  note n = new_ok [OF assms(4)]
  have "recursion_depth (CodedInputStream_new (AOperation_encode (Operation_abs from))) + int 64
      \<le> recursion_limit (CodedInputStream_new (AOperation_encode (Operation_abs from)))"
    by (simp add: CodedInputStream_new_def kDefaultRecursionLimit_def)
  from parsesD [OF Operation_MergePartial_parses [OF assms(3)] assms(2) n this] obtain m' c where
    "Operation_MergePartialFromCodedStream to (CodedInputStream_new (AOperation_encode (Operation_abs from))) = Got m' c"
    "legitimate_message_end c" "Operation_ok m'" "Operation_abs m' = AOperation_merge (Operation_abs from) (Operation_abs to)"
    by blast
  then show ?thesis
    using s by (auto simp: SerializePartialAsString_def as_string_def ConsumedEntireMessage_def Operation_MergeFrom_abs [OF assms(2,1)])
qed

theorem parsing_is_merging_witness:
  "\<exists>bytes from' m' c. SerializePartialAsString Operation_lite (toOperation sample_line) = Some (bytes, from') \<and>
    Operation_MergePartialFromCodedStream Operation_default (CodedInputStream_new bytes) = Got m' c \<and>
    Operation_abs m' = Operation_abs (Operation_MergeFrom (toOperation sample_line) Operation_default)"
proof -
  note t = toOperation_step [OF sample_line_ok(1)]
  have "AOperation_wire 64 (Operation_abs (toOperation sample_line))"
    "int (length (AOperation_encode (Operation_abs (toOperation sample_line)))) \<le> kDefaultTotalBytesLimit"
    using sample_line_ok t(2) by simp_all
  from parsing_is_merging [OF t(1) Operation_ok_default this] show ?thesis by blast
qed

text \<open>
  C13: varints of 32 and 64 bits and sign-extended integers are read back as written, whatever
  follows, and take exactly the computed size: at most five bytes, or ten.
\<close>

theorem varints_round_trip:
  assumes "cis_ok c"
  shows "(unread c = WriteVarint32ToArray u [] @ rest \<longrightarrow>
      ReadVarint32 c = Got u (Advance (int (VarintSize32 u)) c) \<and> 1 \<le> VarintSize32 u \<and> VarintSize32 u \<le> 5) \<and>
    (unread c = WriteVarint64ToArray w [] @ rest \<longrightarrow>
      ReadVarint64 c = Got w (Advance (int (VarintSize64 w)) c) \<and> 1 \<le> VarintSize64 w \<and> VarintSize64 w \<le> 10) \<and>
    (unread c = WriteVarint32SignExtendedToArray v [] @ rest \<longrightarrow>
      ReadVarint32 c = Got v (Advance (int (VarintSize32SignExtended v)) c) \<and> (sint v < 0 \<longrightarrow> VarintSize32SignExtended v = 10))"
proof (intro conjI impI)
  have pos: "1 \<le> length (varint n)" for n using length_varint_pos [of n] by linarith
  have u5: "length (varint (unat u)) \<le> Suc 4"
    by (rule length_varint_le) (use unsigned_less [of u, where 'a = nat] in simp_all)
  have w10: "length (varint (unat w)) \<le> Suc 9"
    by (rule length_varint_le) (rule less_trans [OF unat_64_less], simp_all)
  show "1 \<le> VarintSize32 u" "VarintSize32 u \<le> 5" "1 \<le> VarintSize64 w" "VarintSize64 w \<le> 10"
    using pos u5 w10 by (simp_all add: VarintSize32_eq VarintSize64_eq)
  show "ReadVarint32 c = Got u (Advance (int (VarintSize32 u)) c)" if "unread c = WriteVarint32ToArray u [] @ rest"
    using readsD [OF reads_enc_uint32 assms] that by (simp add: enc_uint32_def WriteVarint32ToArray_eq VarintSize32_eq)
  show "ReadVarint64 c = Got w (Advance (int (VarintSize64 w)) c)" if "unread c = WriteVarint64ToArray w [] @ rest"
    using readsD [OF reads_varint64 assms] that by (simp add: WriteVarint64ToArray_eq VarintSize64_eq)
  have z: "VarintSize32SignExtended v = length (enc_int32 v)"
    using length_enc_int32 [of v] by (simp add: Int32Size_def)
  show "ReadVarint32 c = Got v (Advance (int (VarintSize32SignExtended v)) c)" if "unread c = WriteVarint32SignExtendedToArray v [] @ rest"
    using readsD [OF reads_enc_int32 assms] that by (simp add: WriteVarint32SignExtendedToArray_eq enc_int32_def z)
  show "VarintSize32SignExtended v = 10" if "sint v < 0"
    using that by (simp add: VarintSize32SignExtended_def)
qed

theorem varints_round_trip_witness:
  "ReadVarint32 (CodedInputStream_new (WriteVarint32ToArray 300 [] @ [7])) =
     Got 300 (Advance (int (VarintSize32 300)) (CodedInputStream_new (WriteVarint32ToArray 300 [] @ [7])))"
proof -
  let ?c = "CodedInputStream_new (WriteVarint32ToArray 300 [] @ [7])"
  have "length (WriteVarint32ToArray 300 [] @ [7]) \<le> 7"
    by (simp add: WriteVarint32ToArray_eq varint.simps)
  then have c: "cis_ok ?c" "unread ?c = WriteVarint32ToArray 300 [] @ [7]"
    by (intro new_ok, simp add: kDefaultTotalBytesLimit_def)+
  show ?thesis by (rule varints_round_trip [OF c(1), THEN conjunct1, rule_format, OF c(2), THEN conjunct1])
qed



text \<open>
  an answer whose availability is not one of the three known values is not accepted: the
  value is kept as an unknown field, and the required field stays absent.
\<close>

lemma unknown_availability_is_rejected:
  assumes "\<not> OperationAvaliable_IsValid v" "Operations_ok m"
  shows "(\<exists>c. ParseFromArray Operations_lite (enc_tag 1 WIRETYPE_VARINT @ enc_int32 v) m = Fails c) \<and>
    (\<exists>m' c. ParsePartialFromArray Operations_lite (enc_tag 1 WIRETYPE_VARINT @ enc_int32 v) m = Got m' c \<and>
      Operations_abs m' = AOperations_empty\<lparr>AOperations_unknown := [TYPE_VARINT 1 (scast v)]\<rparr>)"
proof -
  let ?data = "enc_tag 1 WIRETYPE_VARINT @ enc_int32 v"
  let ?ch = "(MakeTag 1 WIRETYPE_VARINT, enc_int32 v, AOperations_unknown_update (\<lambda>u. u @ [TYPE_VARINT 1 (scast v)]))"
  have "yields 64 Operations_ok Operations_abs Operations_parse_operation_avaliable (enc_int32 v)
      (AOperations_unknown_update (\<lambda>u. u @ [TYPE_VARINT 1 (scast v)]))"
    unfolding Operations_parse_operation_avaliable_def
    by (rule yields_value [OF reads_primitive(2)]) (simp_all add: assms(1) AddVarint_def Operations_abs_def Operations_presence Operations_accessors)
  then have f: "\<forall>ch \<in> set [?ch]. fits_row Operations_rows Operations_ok Operations_abs 64 ch"
    by (simp add: fits_row_def GetTagFieldNumber_MakeTag GetTagWireType_MakeTag) (simp add: MakeTag_def kTagTypeBits_def wiretypes)
  have pa: "parses 64 Operations_ok Operations_abs Operations_MergePartialFromCodedStream ?data
      (AOperations_unknown_update (\<lambda>u. u @ [TYPE_VARINT 1 (scast v)]))"
    using operations_format.MergePartial_parses [OF f, of "[]"]
    by (simp add: Operations_MergePartialFromCodedStream_def [abs_def] enc_tag_def comp_def)
  have "length ?data \<le> 11"
  proof -
    have "length (varint (unat (scast v :: uint64))) \<le> Suc 9"
      by (rule length_varint_le) (rule less_trans [OF unat_64_less], simp_all)
    then show ?thesis by (simp add: enc_int32_def)
  qed
  then have n: "cis_ok (CodedInputStream_new ?data)" "unread (CodedInputStream_new ?data) = ?data"
    by (intro new_ok, simp add: kDefaultTotalBytesLimit_def)+
  have d: "recursion_depth (CodedInputStream_new ?data) + int 64 \<le> recursion_limit (CodedInputStream_new ?data)"
    by (simp add: CodedInputStream_new_def kDefaultRecursionLimit_def)
  obtain m' c where p: "Operations_MergePartialFromCodedStream (Operations_Clear m) (CodedInputStream_new ?data) = Got m' c"
      "legitimate_message_end c" "Operations_ok m'"
      "Operations_abs m' = AOperations_unknown_update (\<lambda>u. u @ [TYPE_VARINT 1 (scast v)]) (Operations_abs (Operations_Clear m))"
    by (rule parsesD [OF pa Operations_Clear_ok [OF assms(2)] n d])
  then have a: "Operations_abs m' = AOperations_empty\<lparr>AOperations_unknown := [TYPE_VARINT 1 (scast v)]\<rparr>"
    by (simp add: Operations_Clear_abs AOperations_empty_def)
  then have "\<not> Operations_IsInitialized m'"
    by (simp add: Operations_IsInitialized_abs [OF p(3)] AOperations_initialized_def AOperations_empty_def)
  with p(1,2) a show ?thesis
    by (simp add: ParseFromArray_def InlineParseFromArray_def InlineParseFromCodedStream_def InlineMergeFromCodedStream_def
        ParsePartialFromArray_def InlineParsePartialFromArray_def InlineParsePartialFromCodedStream_def ConsumedEntireMessage_def Operations_lite_def)
qed

theorem unknown_availability_is_rejected_witness:
  "\<exists>c. ParseFromArray Operations_lite (enc_tag 1 WIRETYPE_VARINT @ enc_int32 4) Operations_default = Fails c"
  using unknown_availability_is_rejected [of 4 Operations_default] by (simp add: OperationAvaliable_IsValid_def)

text \<open>
  C19: a document goes through unchanged, with the fields its receiver does not know: parsing
  its bytes and serialising the result gives the same bytes.
\<close>

theorem relayed_document_keeps_its_bytes:
  assumes "Document_ok m" "ADocument_wire 64 a" "ADocument_initialized a" "int (length (ADocument_encode a)) \<le> kDefaultTotalBytesLimit"
  shows "\<exists>m' c m''. ParseFromString Document_lite (ADocument_encode a) m = Got m' c \<and> Document_abs m' = a \<and>
    SerializeToString Document_lite m' = Wrote (ADocument_encode a) m''"
proof -
  obtain m' c where p: "InlineParseFromArray Document_lite (ADocument_encode a) m = Got m' c" "Document_ok m'" "Document_abs m' = a"
    using document_wire.InlineParseFromArray_encode [OF assms] by blast
  have "vt_IsInitialized Document_lite m'" using document_wire.initialized [OF p(2)] assms(3) p(3) by simp
  with p document_wire.AppendPartialToString_writes [OF p(2), of "[]"] show ?thesis
    by (auto simp: ParseFromString_def SerializeToString_def AppendToString_def)
qed

theorem relayed_document_keeps_its_bytes_witness:
  "\<exists>m' c m''. ParseFromString Document_lite
      (ADocument_encode \<lparr>ADocument_serial_number = Some 1, ADocument_data = Some [7], ADocument_user_name = None,
         ADocument_unknown = [TYPE_GROUP 9 [TYPE_FIXED32 1 5]]\<rparr>) Document_default = Got m' c \<and>
    SerializeToString Document_lite m' =
      Wrote (ADocument_encode \<lparr>ADocument_serial_number = Some 1, ADocument_data = Some [7], ADocument_user_name = None,
         ADocument_unknown = [TYPE_GROUP 9 [TYPE_FIXED32 1 5]]\<rparr>) m''"
proof -
  let ?a = "\<lparr>ADocument_serial_number = Some 1, ADocument_data = Some [7], ADocument_user_name = None,
         ADocument_unknown = [TYPE_GROUP 9 [TYPE_FIXED32 1 5]]\<rparr>"
  have "fits_unknown Document_rows 64 (TYPE_GROUP 9 [TYPE_FIXED32 1 5])"
    by (simp add: fits_unknown_def row_for_def Document_rows_def)
  then have "ADocument_wire 64 ?a" "ADocument_initialized ?a" by (simp_all add: ADocument_wire_def ADocument_initialized_def)
  moreover have "varint (Suc 0) = [1]" "varint 1 = [1]" by (simp_all add: varint.simps last_byte_def)
  then have "int (length (ADocument_encode ?a)) \<le> kDefaultTotalBytesLimit"
    by (simp add: ADocument_encode_def wire enc_bytes_def enc_uint32_def enc_tag_small kDefaultTotalBytesLimit_def)
  ultimately show ?thesis using relayed_document_keeps_its_bytes [OF Document_ok_default] by blast
qed

end
