(* ===== verification/Utf8_Scan.thy ===== *)
theory Utf8_Scan
  imports Owb_Prelude
begin

text \<open>
  The UTF-8 checker that the generated code runs over every string field in debug builds:
  \<^verbatim>\<open>stubs/structurally_valid.cc\<close>, its state tables included. A string is a list of bytes that
  starts at an address of which only the alignment matters; \<open>None\<close> is a read outside of the
  string or of a table.
\<close>

section \<open>Exit codes and tables\<close>

definition kExitIllegalStructure :: nat where "kExitIllegalStructure = 240"
definition kExitOK :: nat where "kExitOK = 241"
definition kExitReject :: nat where "kExitReject = 242"
definition kExitDoAgain :: nat where "kExitDoAgain = 253"

lemmas exit_codes = kExitIllegalStructure_def kExitOK_def kExitReject_def kExitDoAgain_def

text \<open>The nine blocks of 256 entries of the state table, with runs of equal entries.\<close>

definition illegal :: "nat \<Rightarrow> nat list" where
  "illegal n = replicate n kExitIllegalStructure"

definition utf8_state_0 :: "nat list" where
  "utf8_state_0 = replicate 128 0 @ illegal 64 @
     illegal 2 @ replicate 14 1 @ replicate 16 1 @
     [2] @ replicate 12 3 @ [7] @ replicate 2 3 @
     [4] @ replicate 3 5 @ [6] @ illegal 11"

definition utf8_state_1 :: "nat list" where
  "utf8_state_1 = illegal 128 @ replicate 64 0 @ illegal 64"

definition utf8_state_2 :: "nat list" where
  "utf8_state_2 = illegal 128 @ illegal 32 @ replicate 32 1 @ illegal 64"

definition utf8_state_3 :: "nat list" where
  "utf8_state_3 = illegal 128 @ replicate 64 1 @ illegal 64"

definition utf8_state_4 :: "nat list" where
  "utf8_state_4 = illegal 128 @ illegal 16 @ replicate 48 3 @ illegal 64"

definition utf8_state_5 :: "nat list" where
  "utf8_state_5 = illegal 128 @ replicate 64 3 @ illegal 64"

definition utf8_state_6 :: "nat list" where
  "utf8_state_6 = illegal 128 @ replicate 16 3 @ illegal 48 @ illegal 64"

definition utf8_state_7 :: "nat list" where
  "utf8_state_7 = illegal 128 @ replicate 32 1 @ replicate 32 8 @ illegal 64"

definition utf8_state_8 :: "nat list" where
  "utf8_state_8 = illegal 128 @ replicate 64 kExitReject @ illegal 64"

definition utf8acceptnonsurrogates :: "nat list" where
  "utf8acceptnonsurrogates = utf8_state_0 @ utf8_state_1 @ utf8_state_2 @ utf8_state_3 @ utf8_state_4 @
     utf8_state_5 @ utf8_state_6 @ utf8_state_7 @ utf8_state_8"

definition utf8acceptnonsurrogates_fast :: "nat list" where
  "utf8acceptnonsurrogates_fast = replicate 128 0 @ replicate 128 1"

text \<open>The fields of the table object that the scanner reads.\<close>

record scan_obj =
  state0 :: uint32
  state0_size :: uint32
  entry_shift :: nat
  losub :: uint32
  hiadd :: uint32
  state_table :: "nat list"
  fast_state :: "nat list"

definition utf8acceptnonsurrogates_obj :: scan_obj where
  "utf8acceptnonsurrogates_obj =
     \<lparr>state0 = 0, state0_size = 256, entry_shift = 8, losub = 0x20202020, hiadd = 0x00000000,
      state_table = utf8acceptnonsurrogates, fast_state = utf8acceptnonsurrogates_fast\<rparr>"

section \<open>The scanner\<close>

definition at_index :: "'a list \<Rightarrow> int \<Rightarrow> 'a option" where
  "at_index xs i = (if 0 \<le> i \<and> i < int (length xs) then Some (xs ! nat i) else None)"

text \<open>A 32-bit load; both byte orders give the same checks below, the targets are little-endian.\<close>

definition load32 :: "bytes \<Rightarrow> int \<Rightarrow> uint32 option" where
  "load32 str i =
     (case (at_index str i, at_index str (i + 1), at_index str (i + 2), at_index str (i + 3)) of
        (Some a, Some b, Some c, Some d) \<Rightarrow>
          Some (ucast a OR push_bit 8 (ucast b) OR push_bit 16 (ucast c) OR push_bit 24 (ucast d))
      | _ \<Rightarrow> None)"

definition InStateZero :: "scan_obj \<Rightarrow> nat \<Rightarrow> bool" where
  "InStateZero st tbl \<longleftrightarrow> (word_of_int (int tbl - int (unat (state0 st))) :: uint32) < state0_size st"

text \<open>The loops that step over single plain bytes, while \<open>go\<close> holds of the position.\<close>

function skip_plain :: "(int \<Rightarrow> bool) \<Rightarrow> (byte \<Rightarrow> bool option) \<Rightarrow> bytes \<Rightarrow> int \<Rightarrow> int option" where
  "skip_plain go plain str src =
     (if go src \<and> src < int (length str)
      then Option.bind (at_index str src) (\<lambda>c. Option.bind (plain c) (\<lambda>p.
        if p then skip_plain go plain str (src + 1) else Some src))
      else Some src)"
  by pat_completeness auto
termination
  by (relation "measure (\<lambda>(go, plain, str, src). nat (int (length str) - src))") auto

definition fast_lookup :: "scan_obj \<Rightarrow> byte \<Rightarrow> nat option" where
  "fast_lookup st c = at_index (fast_state st) (int (unat c))"

definition fast_or :: "scan_obj \<Rightarrow> bytes \<Rightarrow> int \<Rightarrow> nat option" where
  "fast_or st str i =
     Option.bind (Option.bind (at_index str i) (fast_lookup st)) (\<lambda>a.
     Option.bind (Option.bind (at_index str (i + 1)) (fast_lookup st)) (\<lambda>b. Some (a OR b)))"

text \<open>Groups of eight bytes.\<close>

function skip_groups :: "scan_obj \<Rightarrow> bytes \<Rightarrow> int \<Rightarrow> int option" where
  "skip_groups st str src =
     (if src < int (length str) - 7
      then Option.bind (load32 str src) (\<lambda>s0123. Option.bind (load32 str (src + 4)) (\<lambda>s4567.
        let src = src + 8;
            temp = (s0123 - losub st) OR (s0123 + hiadd st) OR (s4567 - losub st) OR (s4567 + hiadd st)
        in if temp AND 0x80808080 \<noteq> 0
           then Option.bind (fast_or st str (src - 8)) (\<lambda>x. Option.bind (fast_or st str (src - 6)) (\<lambda>y.
             if x OR y \<noteq> 0 then Some (src - 8)
             else Option.bind (fast_or st str (src - 4)) (\<lambda>x. Option.bind (fast_or st str (src - 2)) (\<lambda>y.
               if x OR y \<noteq> 0 then Some (src - 4) else skip_groups st str src))))
           else skip_groups st str src))
      else Some src)"
  by pat_completeness auto
termination
  by (relation "measure (\<lambda>(st, str, src). nat (int (length str) - src))") auto

function scan_bytes :: "scan_obj \<Rightarrow> bytes \<Rightarrow> int \<Rightarrow> nat \<Rightarrow> nat \<Rightarrow> (int \<times> nat \<times> nat) option" where
  "scan_bytes st str src tbl e =
     (if src < int (length str)
      then Option.bind (at_index str src) (\<lambda>c. Option.bind (at_index (state_table st) (int (tbl + unat c))) (\<lambda>e.
        let src = src + 1
        in if e \<ge> kExitIllegalStructure then Some (src, tbl, e)
           else scan_bytes st str src (unat (state0 st) + push_bit (entry_shift st) e) e))
      else Some (src, tbl, e))"
  by pat_completeness auto
termination
  by (relation "measure (\<lambda>(st, str, src, tbl, e). nat (int (length str) - src))") auto

text \<open>Back to the first byte of a character.\<close>

function back_up :: "bytes \<Rightarrow> int \<Rightarrow> int option" where
  "back_up str src =
     (if src - 1 > 0
      then Option.bind (at_index str (src - 1)) (\<lambda>c. if c AND 0xc0 = 0x80 then back_up str (src - 1) else Some (src - 1))
      else Some (src - 1))"
  by pat_completeness auto
termination
  by (relation "measure (\<lambda>(str, src). nat src)") auto

declare skip_plain.simps [simp del] skip_groups.simps [simp del] scan_bytes.simps [simp del] back_up.simps [simp del]

text \<open>From the label \<^verbatim>\<open>DoAgain\<close>; a scan that repeats without end has no value.\<close>

partial_function (option) scan_again :: "scan_obj \<Rightarrow> int \<Rightarrow> bytes \<Rightarrow> int \<Rightarrow> (nat \<times> int) option" where
  "scan_again st addr str src =
     Option.bind (skip_plain (\<lambda>src. (addr + src) mod 8 \<noteq> 0) (\<lambda>c. map_option (\<lambda>x. x = 0) (fast_lookup st c)) str src) (\<lambda>src.
     Option.bind (if (addr + src) mod 8 = 0 then skip_groups st str src else Some src) (\<lambda>src.
     Option.bind (scan_bytes st str src (unat (state0 st)) 0) (\<lambda>(src, tbl, e).
     Option.bind
       (if e \<ge> kExitIllegalStructure
        then map_option (\<lambda>src. (e, src)) (if \<not> InStateZero st tbl then back_up str (src - 1) else Some (src - 1))
        else if \<not> InStateZero st tbl then map_option (\<lambda>src. (kExitIllegalStructure, src)) (back_up str src)
        else Some (kExitOK, src)) (\<lambda>(e, src).
     if e = kExitDoAgain then scan_again st addr str src else Some (e, src)))))"

definition UTF8GenericScan :: "scan_obj \<Rightarrow> int \<Rightarrow> bytes \<Rightarrow> (nat \<times> int) option" where
  "UTF8GenericScan st addr str = (if length str = 0 then Some (kExitOK, 0) else scan_again st addr str 0)"

text \<open>Groups of eight bytes below \<open>0x80\<close>.\<close>

function skip_ascii_groups :: "bytes \<Rightarrow> int \<Rightarrow> int option" where
  "skip_ascii_groups str src =
     (if src < int (length str) - 7
      then Option.bind (load32 str src) (\<lambda>a. Option.bind (load32 str (src + 4)) (\<lambda>b.
        if (a OR b) AND 0x80808080 = 0 then skip_ascii_groups str (src + 8) else Some src))
      else Some src)"
  by pat_completeness auto
termination
  by (relation "measure (\<lambda>(str, src). nat (int (length str) - src))") auto

declare skip_ascii_groups.simps [simp del]

partial_function (option) scan_fast :: "scan_obj \<Rightarrow> int \<Rightarrow> bytes \<Rightarrow> int \<Rightarrow> (nat \<times> int) option" where
  "scan_fast st addr str src =
     Option.bind (skip_plain (\<lambda>src. (addr + src) mod 8 \<noteq> 0) (\<lambda>c. Some (c < 0x80)) str src) (\<lambda>src.
     Option.bind (if (addr + src) mod 8 = 0 then skip_ascii_groups str src else Some src) (\<lambda>src.
     Option.bind (skip_plain (\<lambda>_. True) (\<lambda>c. Some (c < 0x80)) str src) (\<lambda>n.
     Option.bind (UTF8GenericScan st (addr + n) (drop (nat n) str)) (\<lambda>(exit_reason, rest_consumed).
     if exit_reason = kExitDoAgain then scan_fast st addr str (n + rest_consumed)
     else Some (exit_reason, n + rest_consumed)))))"

definition UTF8GenericScanFastAscii :: "scan_obj \<Rightarrow> int \<Rightarrow> bytes \<Rightarrow> (nat \<times> int) option" where
  "UTF8GenericScanFastAscii st addr str = (if length str = 0 then Some (kExitOK, 0) else scan_fast st addr str 0)"

text \<open>\<open>module_initialized\<close> is false only before the static objects of the library are built.\<close>

definition IsStructurallyValidUTF8 :: "bool \<Rightarrow> int \<Rightarrow> bytes \<Rightarrow> bool option" where
  "IsStructurallyValidUTF8 module_initialized addr buf =
     (if \<not> module_initialized then Some True
      else map_option (\<lambda>(e, bytes_consumed). bytes_consumed = int (length buf))
        (UTF8GenericScanFastAscii utf8acceptnonsurrogates_obj addr buf))"

section \<open>The tables as an automaton\<close>

definition next_state :: "nat \<Rightarrow> nat \<Rightarrow> nat" where
  "next_state e c =
     (if e = 0 then (if c < 0x80 then 0 else if 0xc2 \<le> c \<and> c \<le> 0xdf then 1 else if c = 0xe0 then 2
        else if c = 0xed then 7 else if 0xe1 \<le> c \<and> c \<le> 0xef then 3 else if c = 0xf0 then 4
        else if 0xf1 \<le> c \<and> c \<le> 0xf3 then 5 else if c = 0xf4 then 6 else kExitIllegalStructure)
      else if c < 0x80 \<or> 0xbf < c then kExitIllegalStructure
      else if e = 1 then 0
      else if e = 2 then (if c < 0xa0 then kExitIllegalStructure else 1)
      else if e = 3 then 1
      else if e = 4 then (if c < 0x90 then kExitIllegalStructure else 3)
      else if e = 5 then 3
      else if e = 6 then (if c < 0x90 then 3 else kExitIllegalStructure)
      else if e = 7 then (if c < 0xa0 then 1 else 8)
      else kExitReject)"

lemmas utf8_states = utf8_state_0_def utf8_state_1_def utf8_state_2_def utf8_state_3_def utf8_state_4_def
  utf8_state_5_def utf8_state_6_def utf8_state_7_def utf8_state_8_def illegal_def

lemma length_utf8_states:
  "length utf8_state_0 = 256" "length utf8_state_1 = 256" "length utf8_state_2 = 256" "length utf8_state_3 = 256"
  "length utf8_state_4 = 256" "length utf8_state_5 = 256" "length utf8_state_6 = 256" "length utf8_state_7 = 256"
  "length utf8_state_8 = 256"
  by (simp_all add: utf8_states)

lemma nth_replicate_append: "i < n + length ys \<Longrightarrow> (replicate n x @ ys) ! i = (if i < n then x else ys ! (i - n))"
  by (simp add: nth_append)

lemma nth_run_lengths:
  "(replicate n x @ ys) ! i = (if i < n then x else ys ! (i - n))" "((x # xs) @ ys) ! i = (if i = 0 then x else (xs @ ys) ! (i - 1))"
  by (simp_all add: nth_append nth_Cons')

lemma utf8_state_0_nth: "c < 256 \<Longrightarrow> utf8_state_0 ! c = next_state 0 c"
  by (simp add: utf8_states nth_run_lengths next_state_def not_less less_diff_conv2 le_diff_conv2)

lemma utf8_state_nth:
  assumes "c < 256"
  shows "utf8_state_1 ! c = next_state 1 c" "utf8_state_2 ! c = next_state 2 c"
    "utf8_state_3 ! c = next_state 3 c" "utf8_state_4 ! c = next_state 4 c" "utf8_state_5 ! c = next_state 5 c"
    "utf8_state_6 ! c = next_state 6 c" "utf8_state_7 ! c = next_state 7 c" "utf8_state_8 ! c = next_state 8 c"
  using assms by (simp_all add: utf8_states nth_run_lengths next_state_def exit_codes) arith+

lemma state_table_nth:
  assumes "e < 9" "c < 256"
  shows "utf8acceptnonsurrogates ! (e * 256 + c) = next_state e c" "e * 256 + c < length utf8acceptnonsurrogates"
proof -
  have "e \<in> {0, 1, 2, 3, 4, 5, 6, 7, 8}" using assms(1) by auto
  then show "utf8acceptnonsurrogates ! (e * 256 + c) = next_state e c"
    using assms(2) utf8_state_0_nth [OF assms(2)] utf8_state_nth [OF assms(2)]
    by (elim insertE emptyE) (simp_all add: utf8acceptnonsurrogates_def nth_append length_utf8_states)
  show "e * 256 + c < length utf8acceptnonsurrogates"
    using assms by (simp add: utf8acceptnonsurrogates_def length_utf8_states)
qed

lemma next_state_range: "next_state e c < 9 \<or> next_state e c = kExitIllegalStructure \<or> next_state e c = kExitReject"
  by (simp add: next_state_def)

primrec run :: "nat \<Rightarrow> nat list \<Rightarrow> nat option" where
  "run e [] = Some e"
| "run e (c # cs) = (if next_state e c < 9 then run (next_state e c) cs else None)"

lemma run_ascii: "\<forall>c \<in> set cs. c < 0x80 \<Longrightarrow> run 0 (cs @ ds) = run 0 ds"
  by (induction cs) (simp_all add: next_state_def)

lemma run_SomeD: "run e cs = Some e' \<Longrightarrow> e < 9 \<Longrightarrow> e' < 9"
  by (induction cs arbitrary: e) (auto split: if_splits)

section \<open>The loops\<close>

abbreviation (input) utf8_obj :: scan_obj where
  "utf8_obj \<equiv> utf8acceptnonsurrogates_obj"

lemma obj_simps [simp]:
  "state0 utf8_obj = 0" "state0_size utf8_obj = 256" "entry_shift utf8_obj = 8" "losub utf8_obj = 0x20202020"
  "hiadd utf8_obj = 0" "state_table utf8_obj = utf8acceptnonsurrogates" "fast_state utf8_obj = utf8acceptnonsurrogates_fast"
  by (simp_all add: utf8acceptnonsurrogates_obj_def)

lemma at_index_nat [simp]: "at_index xs (int i) = (if i < length xs then Some (xs ! i) else None)"
  by (simp add: at_index_def)

lemma InStateZero_obj: "e < 9 \<Longrightarrow> InStateZero utf8_obj (e * 256) \<longleftrightarrow> e = 0"
proof -
  assume "e < 9"
  then have "e \<in> {0, 1, 2, 3, 4, 5, 6, 7, 8}" by auto
  then show ?thesis by (elim insertE emptyE) (simp_all add: InStateZero_def)
qed

lemma scan_bytes_run:
  assumes "i \<le> length str" "e < 9" "e0 < 240"
  shows "case run e (map unat (drop i str)) of
      Some e' \<Rightarrow> \<exists>x < 240. scan_bytes utf8_obj str (int i) (e * 256) e0 = Some (int (length str), e' * 256, x)
    | None \<Rightarrow> \<exists>j t x. scan_bytes utf8_obj str (int i) (e * 256) e0 = Some (int (Suc j), t * 256, x) \<and>
        t < 9 \<and> x \<in> {240, 242} \<and> j < length str"
  using assms
proof (induction "length str - i" arbitrary: i e e0)
  case 0
  then show ?case by (simp add: scan_bytes.simps [of _ _ _ _ e0])
next
  case (Suc k)
  then have i: "i < length str" "k = length str - Suc i" "drop i str = str ! i # drop (Suc i) str"
    by (simp_all add: Cons_nth_drop_Suc)
  let ?c = "unat (str ! i)"
  have t: "utf8acceptnonsurrogates ! (e * 256 + ?c) = next_state e ?c" "e * 256 + ?c < length utf8acceptnonsurrogates"
    using state_table_nth [OF Suc.prems(2), of ?c] unsigned_less [of "str ! i"] by simp_all
  show ?case
  proof (cases "next_state e ?c < 9")
    case True
    then have "scan_bytes utf8_obj str (int i) (e * 256) e0 = scan_bytes utf8_obj str (int (Suc i)) (next_state e ?c * 256) (next_state e ?c)"
      using i(1) t by (subst scan_bytes.simps)
        (simp add: at_index_def exit_codes push_bit_eq_mult nat_add_distrib nat_mult_distrib Let_def add.commute del: of_nat_add of_nat_mult)
    moreover have "next_state e ?c < 240" using True by simp
    then have "case run (next_state e ?c) (map unat (drop (Suc i) str)) of
        Some e' \<Rightarrow> \<exists>x < 240. scan_bytes utf8_obj str (int (Suc i)) (next_state e ?c * 256) (next_state e ?c) = Some (int (length str), e' * 256, x)
      | None \<Rightarrow> \<exists>j t x. scan_bytes utf8_obj str (int (Suc i)) (next_state e ?c * 256) (next_state e ?c) = Some (int (Suc j), t * 256, x) \<and>
          t < 9 \<and> x \<in> {240, 242} \<and> j < length str"
      using Suc.hyps(1) [OF i(2) _ True] i(1) by simp
    ultimately show ?thesis using True by (simp only: i(3) list.map run.simps if_True)
  next
    case False
    then have x: "next_state e ?c \<in> {240, 242}" using next_state_range [of e ?c] by (simp add: exit_codes)
    then have "scan_bytes utf8_obj str (int i) (e * 256) e0 = Some (int (Suc i), e * 256, next_state e ?c)"
      using i(1) t by (subst scan_bytes.simps)
        (auto simp: at_index_def exit_codes nat_add_distrib nat_mult_distrib Let_def simp del: of_nat_add of_nat_mult)
    then show ?thesis using i Suc.prems(2) x False by auto
  qed
qed

lemma back_up_total:
  assumes "src \<le> int (length str)"
  shows "\<exists>s < src. back_up str src = Some s"
  using assms
proof (induction str src rule: back_up.induct)
  case (1 str src)
  then show ?case
    by (subst back_up.simps) (auto simp: at_index_def intro: less_trans)
qed

lemma skip_plain_range:
  assumes "i \<le> length str" "\<And>c. \<exists>p. plain c = Some p"
  shows "\<exists>j. skip_plain go plain str (int i) = Some (int j) \<and> i \<le> j \<and> j \<le> length str \<and>
    (\<forall>k. i \<le> k \<and> k < j \<longrightarrow> plain (str ! k) = Some True)"
  using assms
proof (induction "length str - i" arbitrary: i)
  case 0
  then show ?case by (subst skip_plain.simps) auto
next
  case (Suc n)
  then have i: "i < length str" "n = length str - Suc i" by simp_all
  obtain p where p: "plain (str ! i) = Some p" using Suc.prems(2) by blast
  show ?case
  proof (cases "go (int i) \<and> p")
    case True
    obtain j where j: "skip_plain go plain str (int (Suc i)) = Some (int j)" "Suc i \<le> j" "j \<le> length str"
      "\<forall>k. Suc i \<le> k \<and> k < j \<longrightarrow> plain (str ! k) = Some True"
      using Suc.hyps(1) [OF i(2)] i(1) Suc.prems(2) by auto
    have "skip_plain go plain str (int i) = Some (int j)"
      using True p i(1) j(1) by (subst skip_plain.simps) (simp add: add.commute)
    moreover have "plain (str ! k) = Some True" if "i \<le> k" "k < j" for k
      using that j(4) p True by (cases "k = i") auto
    ultimately show ?thesis using j(2,3) by (intro exI [of _ j]) auto
  next
    case False
    then have "skip_plain go plain str (int i) = Some (int i)" using p i(1) by (subst skip_plain.simps) auto
    then show ?thesis using i(1) by auto
  qed
qed

text \<open>A byte is plain exactly when its top bit is clear.\<close>

lemma plain_byte: "c < 0x80 \<longleftrightarrow> \<not> bit c 7" for c :: byte
proof
  assume "\<not> bit c 7"
  then have "bit c n \<Longrightarrow> n < 7" for n
    using bit_imp_le_length [of c n] by (cases "n = 7") auto
  then have "c = take_bit 7 c" by (intro bit_word_eqI) (auto simp: bit_take_bit_iff)
  then have "unat c = take_bit 7 (unat c)" by (metis unsigned_take_bit_eq)
  then show "c < 0x80" using take_bit_nat_less_exp [of 7 "unat c"] by (simp add: word_less_nat_alt)
next
  assume "c < 0x80"
  then have "unat c < 2 ^ 7" by (simp add: word_less_nat_alt)
  then have "\<not> bit (unat c) 7" by (metis bit_take_bit_iff less_irrefl take_bit_nat_eq_self)
  then show "\<not> bit c 7" by (simp add: bit_unsigned_iff)
qed

lemma load32_Some:
  assumes "i + 4 \<le> length str"
  shows "load32 str (int i) = Some (ucast (str ! i) OR push_bit 8 (ucast (str ! (i + 1))) OR
    push_bit 16 (ucast (str ! (i + 2))) OR push_bit 24 (ucast (str ! (i + 3))))"
  using assms by (simp add: load32_def at_index_def nat_add_distrib)

lemma load32_plain:
  assumes "i + 4 \<le> length str" "load32 str (int i) = Some w" "w AND 0x80808080 = 0" "k < 4"
  shows "str ! (i + k) < 0x80"
proof -
  have m: "bit (0x80808080 :: uint32) 7" "bit (0x80808080 :: uint32) 15" "bit (0x80808080 :: uint32) 23" "bit (0x80808080 :: uint32) 31"
    by simp_all
  have "\<not> bit w n" if "bit (0x80808080 :: uint32) n" for n
    using that assms(3) bit_and_iff [of w "0x80808080" n] by simp
  then have b: "\<not> bit w 7" "\<not> bit w 15" "\<not> bit w 23" "\<not> bit w 31" using m by blast+
  have w: "w = ucast (str ! i) OR push_bit 8 (ucast (str ! (i + 1))) OR push_bit 16 (ucast (str ! (i + 2))) OR push_bit 24 (ucast (str ! (i + 3)))"
    using assms(2) load32_Some [OF assms(1)] by simp
  have "k \<in> {0, 1, 2, 3}" using assms(4) by auto
  with b show ?thesis
    unfolding plain_byte w by (auto simp: bit_simps)
qed

lemma plain_if_masked:
  assumes "((a - l) OR (a + 0) OR (b - l) OR (b + 0)) AND m = (0 :: uint32)"
  shows "a AND m = 0" "b AND m = 0"
proof -
  have n: "\<not> bit (((a - l) OR (a + 0) OR (b - l) OR (b + 0)) AND m) n" for n using assms by simp
  then have n': "\<not> (bit a n \<and> bit m n)" "\<not> (bit b n \<and> bit m n)" for n by (auto simp: bit_and_iff bit_or_iff)
  show "a AND m = 0" by (rule bit_word_eqI) (use n' in \<open>simp add: bit_and_iff\<close>)
  show "b AND m = 0" by (rule bit_word_eqI) (use n' in \<open>simp add: bit_and_iff\<close>)
qed

lemma fast_lookup_obj: "fast_lookup utf8_obj c = Some (if c < 0x80 then 0 else 1)"
  using unsigned_less [of c, where ?'a = nat] unsigned_less [of c, where ?'a = int]
  by (auto simp: fast_lookup_def at_index_def utf8acceptnonsurrogates_fast_def nth_append word_less_nat_alt)

lemma fast_or_obj:
  assumes "i + 1 < length str"
  shows "\<exists>x. fast_or utf8_obj str (int i) = Some x \<and> (x = 0 \<longleftrightarrow> str ! i < 0x80 \<and> str ! (i + 1) < 0x80)"
  using assms by (simp add: fast_or_def fast_lookup_obj at_index_def nat_add_distrib)

lemma all_less_4: "(\<forall>k < 4. P k) \<longleftrightarrow> P 0 \<and> P 1 \<and> P 2 \<and> P (3 :: nat)"
  by (auto simp: less_Suc_eq numeral_eq_Suc)

lemma four_fast:
  assumes "i + 4 \<le> length str"
  obtains x y where "fast_or utf8_obj str (int i) = Some x" "fast_or utf8_obj str (int (i + 2)) = Some y"
    "x OR y = 0 \<longleftrightarrow> (\<forall>k < 4. str ! (i + k) < 0x80)"
proof -
  obtain x y where *: "fast_or utf8_obj str (int i) = Some x" "x = 0 \<longleftrightarrow> str ! i < 0x80 \<and> str ! (i + 1) < 0x80"
      "fast_or utf8_obj str (int (i + 2)) = Some y" "y = 0 \<longleftrightarrow> str ! (i + 2) < 0x80 \<and> str ! (i + 3) < 0x80"
    using fast_or_obj [of i str] fast_or_obj [of "i + 2" str] assms by (auto simp: numeral_3_eq_3)
  show ?thesis by (rule that [OF *(1,3)]) (use *(2,4) in \<open>simp add: all_less_4 or_eq_0_iff\<close>)
qed

text \<open>Both loops over groups stop inside the string, behind plain bytes only.\<close>

definition plain_until :: "bytes \<Rightarrow> nat \<Rightarrow> nat \<Rightarrow> bool" where
  "plain_until str i j \<longleftrightarrow> i \<le> j \<and> j \<le> length str \<and> (\<forall>k. i \<le> k \<and> k < j \<longrightarrow> str ! k < 0x80)"

lemma plain_until_refl: "i \<le> length str \<Longrightarrow> plain_until str i i"
  by (auto simp: plain_until_def)

lemma plain_until_trans: "plain_until str i j \<Longrightarrow> plain_until str j k \<Longrightarrow> plain_until str i k"
  unfolding plain_until_def by (meson le_trans not_le)

lemma plain_until_4:
  assumes "i + 4 \<le> length str" "\<forall>k < 4. str ! (i + k) < 0x80"
  shows "plain_until str i (i + 4)"
  unfolding plain_until_def
proof (intro conjI allI impI)
  fix k assume k: "i \<le> k \<and> k < i + 4"
  then have "str ! (i + (k - i)) < 0x80" by (intro assms(2) [rule_format]) linarith
  with k show "str ! k < 0x80" by simp
qed (use assms(1) in simp_all)

lemma plain_until_next_4:
  assumes "i + 4 + 4 \<le> length str" "\<forall>k < 4. str ! (i + 4 + k) < 0x80"
  shows "plain_until str (i + 4) (i + 8)"
  using plain_until_4 [OF assms] by (simp add: add.assoc)

lemma load32_plain_until:
  assumes "i + 4 \<le> length str" "load32 str (int i) = Some w" "w AND 0x80808080 = 0"
  shows "plain_until str i (i + 4)"
  using load32_plain [OF assms] by (intro plain_until_4 [OF assms(1)]) blast

lemma load32_total: "i + 4 \<le> length str \<Longrightarrow> \<exists>w. load32 str (int i) = Some w"
  by (simp add: load32_Some)

lemma skip_groups_range:
  assumes "i \<le> length str"
  shows "\<exists>j. skip_groups utf8_obj str (int i) = Some (int j) \<and> plain_until str i j"
  using assms
proof (induction "length str - i" arbitrary: i rule: less_induct)
  case less
  show ?case
  proof (cases "i + 8 \<le> length str")
    case False
    then show ?thesis using less.prems by (subst skip_groups.simps) (auto intro: plain_until_refl)
  next
    case True
    from True have b4: "i + 4 \<le> length str" "i + 4 + 4 \<le> length str" by simp_all
    obtain a b where w: "load32 str (int i) = Some a" "load32 str (int (i + 4)) = Some b"
      using load32_total [OF b4(1)] load32_total [OF b4(2)] by blast
    obtain x y where xy: "fast_or utf8_obj str (int i) = Some x" "fast_or utf8_obj str (int (i + 2)) = Some y"
        "x OR y = 0 \<longleftrightarrow> (\<forall>k < 4. str ! (i + k) < 0x80)"
      by (rule four_fast [OF b4(1)])
    obtain x' y' where xy': "fast_or utf8_obj str (int (i + 4)) = Some x'" "fast_or utf8_obj str (int (i + 4 + 2)) = Some y'"
        "x' OR y' = 0 \<longleftrightarrow> (\<forall>k < 4. str ! (i + 4 + k) < 0x80)"
      by (rule four_fast [OF b4(2)])
    define t where "t = (a - 0x20202020) OR (a + 0) OR (b - 0x20202020) OR (b + 0)"
    from True have d: "length str - (i + 8) < length str - i" by simp
    obtain j where j: "skip_groups utf8_obj str (int (i + 8)) = Some (int j)" "plain_until str (i + 8) j"
      using less.hyps [OF d True] by blast
    have p: "plain_until str i (i + 4)" if "x OR y = 0" using that xy(3) True by (intro plain_until_4) simp_all
    have p': "plain_until str (i + 4) (i + 8)" if "x' OR y' = 0"
      using that xy'(3) by (intro plain_until_next_4 [OF b4(2)]) simp
    have q: "plain_until str i (i + 4)" "plain_until str (i + 4) (i + 8)" if "t AND 0x80808080 = 0"
    proof -
      have "a AND 0x80808080 = 0" "b AND 0x80808080 = 0" using plain_if_masked that unfolding t_def by blast+
      then show "plain_until str i (i + 4)" "plain_until str (i + 4) (i + 8)"
        using load32_plain_until [OF b4(1) w(1)] load32_plain_until [OF b4(2) w(2)] by (simp_all add: add.assoc)
    qed
    have s: "skip_groups utf8_obj str (int i) =
       (if t AND 0x80808080 \<noteq> 0
        then if x OR y \<noteq> 0 then Some (int i) else if x' OR y' \<noteq> 0 then Some (int (i + 4))
             else skip_groups utf8_obj str (int (i + 8))
        else skip_groups utf8_obj str (int (i + 8)))"
      using True w xy(1,2) xy'(1,2)
      by (subst skip_groups.simps) (simp add: t_def Let_def add.commute add.left_commute)
    note t4 = plain_until_trans [of str i "i + 4" "i + 8"]
    note t8 = plain_until_trans [OF _ j(2), of i]
    show ?thesis
    proof (cases "t AND 0x80808080 = 0")
      case True
      then show ?thesis unfolding s using j(1) t8 [OF t4 [OF q]] by auto
    next
      case False
      consider "x OR y \<noteq> 0" | "x OR y = 0" "x' OR y' \<noteq> 0" | "x OR y = 0" "x' OR y' = 0" by blast
      then show ?thesis
        using False j(1) p plain_until_refl [OF less.prems] t8 [OF t4 [OF p p']]
        by cases (unfold s, auto simp del: of_nat_add)
    qed
  qed
qed

lemma skip_ascii_groups_range:
  assumes "i \<le> length str"
  shows "\<exists>j. skip_ascii_groups str (int i) = Some (int j) \<and> plain_until str i j"
  using assms
proof (induction "length str - i" arbitrary: i rule: less_induct)
  case less
  show ?case
  proof (cases "i + 8 \<le> length str")
    case False
    then show ?thesis using less.prems by (subst skip_ascii_groups.simps) (auto intro: plain_until_refl)
  next
    case True
    from True have b4: "i + 4 \<le> length str" "i + 4 + 4 \<le> length str" by simp_all
    obtain a b where w: "load32 str (int i) = Some a" "load32 str (int (i + 4)) = Some b"
      using load32_total [OF b4(1)] load32_total [OF b4(2)] by blast
    from True have d: "length str - (i + 8) < length str - i" by simp
    obtain j where j: "skip_ascii_groups str (int (i + 8)) = Some (int j)" "plain_until str (i + 8) j"
      using less.hyps [OF d True] by blast
    have q: "plain_until str i (i + 8)" if "(a OR b) AND 0x80808080 = 0"
    proof -
      have n: "\<not> bit ((a OR b) AND 0x80808080) n" for n using that by simp
      then have n': "\<not> (bit a n \<and> bit (0x80808080 :: uint32) n)" "\<not> (bit b n \<and> bit (0x80808080 :: uint32) n)" for n
        by (auto simp: bit_and_iff bit_or_iff)
      have "a AND 0x80808080 = 0" by (rule bit_word_eqI) (use n' in \<open>simp add: bit_and_iff\<close>)
      moreover have "b AND 0x80808080 = 0" by (rule bit_word_eqI) (use n' in \<open>simp add: bit_and_iff\<close>)
      ultimately show ?thesis
        using plain_until_trans [OF load32_plain_until [OF b4(1) w(1)] load32_plain_until [OF b4(2) w(2)]] by (simp add: add.assoc)
    qed
    have "skip_ascii_groups str (int i) =
        (if (a OR b) AND 0x80808080 = 0 then skip_ascii_groups str (int (i + 8)) else Some (int i))"
      using True w by (subst skip_ascii_groups.simps) (simp add: add.commute)
    then show ?thesis using j(1) plain_until_trans [OF q j(2)] plain_until_refl [OF less.prems] by auto
  qed
qed

section \<open>The scan decides what the automaton accepts\<close>

lemma run_plain_prefix:
  assumes "plain_until str 0 i"
  shows "run 0 (map unat str) = run 0 (map unat (drop i str))"
proof -
  have "map unat str = map unat (take i str) @ map unat (drop i str)" by (simp flip: map_append)
  moreover have "\<forall>c \<in> set (map unat (take i str)). c < 0x80"
    using assms by (auto simp: plain_until_def in_set_conv_nth word_less_nat_alt)
  ultimately show ?thesis using run_ascii by metis
qed

text \<open>The exit of the scan: the repeated scan of \<^verbatim>\<open>kExitDoAgain\<close> does not occur in this table.\<close>

lemma scan_again_obj:
  "\<exists>e n. scan_again utf8_obj addr str 0 = Some (e, n) \<and> e \<noteq> kExitDoAgain \<and>
     (n = int (length str) \<longleftrightarrow> run 0 (map unat str) = Some 0)"
proof -
  have t: "\<exists>p. map_option (\<lambda>x. x = 0) (fast_lookup utf8_obj c) = Some p" for c by (simp add: fast_lookup_obj)
  obtain i where i: "skip_plain (\<lambda>src. (addr + src) mod 8 \<noteq> 0) (\<lambda>c. map_option (\<lambda>x. x = 0) (fast_lookup utf8_obj c)) str (int 0) = Some (int i)"
      "i \<le> length str" "\<forall>k. 0 \<le> k \<and> k < i \<longrightarrow> map_option (\<lambda>x. x = 0) (fast_lookup utf8_obj (str ! k)) = Some True"
    using skip_plain_range [where i = 0 and str = str and plain = "\<lambda>c. map_option (\<lambda>x. x = 0) (fast_lookup utf8_obj c)"
        and go = "\<lambda>src. (addr + src) mod 8 \<noteq> 0", OF le0 t] by blast
  then have p: "plain_until str 0 i" by (auto simp: plain_until_def fast_lookup_obj split: if_splits)
  obtain j where j: "(if (addr + int i) mod 8 = 0 then skip_groups utf8_obj str (int i) else Some (int i)) = Some (int j)" "plain_until str 0 j"
    using skip_groups_range [OF i(2)] plain_until_trans [OF p] p by (cases "(addr + int i) mod 8 = 0") auto
  have l: "j \<le> length str" using j(2) by (simp add: plain_until_def)
  note r = run_plain_prefix [OF j(2)]
  have u: "scan_again utf8_obj addr str 0 =
     Option.bind (scan_bytes utf8_obj str (int j) (0 * 256) 0) (\<lambda>(src, tbl, e).
     Option.bind
       (if e \<ge> kExitIllegalStructure
        then map_option (\<lambda>src. (e, src)) (if \<not> InStateZero utf8_obj tbl then back_up str (src - 1) else Some (src - 1))
        else if \<not> InStateZero utf8_obj tbl then map_option (\<lambda>src. (kExitIllegalStructure, src)) (back_up str src)
        else Some (kExitOK, src)) (\<lambda>(e, src).
     if e = kExitDoAgain then scan_again utf8_obj addr str src else Some (e, src)))"
    using i(1) j(1) by (subst scan_again.simps) simp
  show ?thesis
  proof (cases "run 0 (map unat (drop j str))")
    case None
    then obtain k t x where s: "scan_bytes utf8_obj str (int j) (0 * 256) 0 = Some (int (Suc k), t * 256, x)" "t < 9" "x \<in> {240, 242}" "k < length str"
      using scan_bytes_run [OF l, of 0 0] by auto
    obtain b where b: "back_up str (int k) = Some b" "b < int k" using back_up_total [of "int k" str] s(4) by auto
    have "scan_again utf8_obj addr str 0 = Some (x, if t = 0 then int k else b)"
      unfolding u s(1) using s(2,3) b(1) by (auto simp: InStateZero_obj exit_codes)
    then show ?thesis using s(3,4) b(2) r None by (auto simp: exit_codes)
  next
    case (Some e')
    then obtain x where s: "scan_bytes utf8_obj str (int j) (0 * 256) 0 = Some (int (length str), e' * 256, x)" "x < 240"
      using scan_bytes_run [OF l, of 0 0] by auto
    have e': "e' < 9" using run_SomeD [OF Some] by simp
    obtain b where b: "back_up str (int (length str)) = Some b" "b < int (length str)"
      using back_up_total [of "int (length str)" str] by auto
    have "scan_again utf8_obj addr str 0 = Some (if e' = 0 then (kExitOK, int (length str)) else (kExitIllegalStructure, b))"
      unfolding u s(1) using s(2) e' b(1) by (auto simp: InStateZero_obj exit_codes)
    then show ?thesis using b(2) r Some by (auto simp: exit_codes)
  qed
qed

lemma UTF8GenericScan_obj:
  "\<exists>e n. UTF8GenericScan utf8_obj addr str = Some (e, n) \<and> e \<noteq> kExitDoAgain \<and>
     (n = int (length str) \<longleftrightarrow> run 0 (map unat str) = Some 0)"
  using scan_again_obj [of addr str] by (auto simp: UTF8GenericScan_def exit_codes)

lemma UTF8GenericScanFastAscii_obj:
  "\<exists>e n. UTF8GenericScanFastAscii utf8_obj addr str = Some (e, n) \<and>
     (n = int (length str) \<longleftrightarrow> run 0 (map unat str) = Some 0)"
proof (cases "length str = 0")
  case False
  have t: "\<exists>p. Some (c < 0x80) = Some p" for c :: byte by simp
  obtain i where i: "skip_plain (\<lambda>src. (addr + src) mod 8 \<noteq> 0) (\<lambda>c. Some (c < 0x80)) str (int 0) = Some (int i)"
      "i \<le> length str" "\<forall>k. 0 \<le> k \<and> k < i \<longrightarrow> Some (str ! k < 0x80) = Some True"
    using skip_plain_range [where i = 0 and str = str and plain = "\<lambda>c. Some (c < 0x80)"
        and go = "\<lambda>src. (addr + src) mod 8 \<noteq> 0", OF le0 t] by blast
  then have p: "plain_until str 0 i" by (auto simp: plain_until_def)
  obtain j where j: "(if (addr + int i) mod 8 = 0 then skip_ascii_groups str (int i) else Some (int i)) = Some (int j)" "plain_until str 0 j"
    using skip_ascii_groups_range [OF i(2)] plain_until_trans [OF p] p by (cases "(addr + int i) mod 8 = 0") auto
  have l: "j \<le> length str" using j(2) by (simp add: plain_until_def)
  obtain k where k: "skip_plain (\<lambda>_. True) (\<lambda>c. Some (c < 0x80)) str (int j) = Some (int k)"
      "j \<le> k" "k \<le> length str" "\<forall>n. j \<le> n \<and> n < k \<longrightarrow> Some (str ! n < 0x80) = Some True"
    using skip_plain_range [where i = j and str = str and plain = "\<lambda>c. Some (c < 0x80)" and go = "\<lambda>_. True", OF l t] by blast
  then have p2: "plain_until str j k" by (auto simp: plain_until_def)
  obtain e n where s: "UTF8GenericScan utf8_obj (addr + int k) (drop k str) = Some (e, n)" "e \<noteq> kExitDoAgain"
      "n = int (length (drop k str)) \<longleftrightarrow> run 0 (map unat (drop k str)) = Some 0"
    using UTF8GenericScan_obj by blast
  have "UTF8GenericScanFastAscii utf8_obj addr str = Some (e, int k + n)"
    using False i(1) j(1) k(1) s(1,2) by (simp add: UTF8GenericScanFastAscii_def) (subst scan_fast.simps, simp)
  then show ?thesis using s(3) k(3) run_plain_prefix [OF plain_until_trans [OF j(2) p2]] by auto
qed (simp add: UTF8GenericScanFastAscii_def)

section \<open>UTF-8\<close>

text \<open>The encoding of Unicode scalar values, as RFC 3629 has it.\<close>

definition scalar_value :: "nat \<Rightarrow> bool" where
  "scalar_value cp \<longleftrightarrow> cp < 0x110000 \<and> \<not> (0xd800 \<le> cp \<and> cp < 0xe000)"

definition utf8_units :: "nat \<Rightarrow> nat list" where
  "utf8_units cp =
     (if cp < 0x80 then [cp]
      else if cp < 0x800 then [0xc0 + cp div 64, 0x80 + cp mod 64]
      else if cp < 0x10000 then [0xe0 + cp div 4096, 0x80 + cp div 64 mod 64, 0x80 + cp mod 64]
      else [0xf0 + cp div 262144, 0x80 + cp div 4096 mod 64, 0x80 + cp div 64 mod 64, 0x80 + cp mod 64])"

definition utf8_encode :: "nat \<Rightarrow> bytes" where
  "utf8_encode cp = map of_nat (utf8_units cp)"

definition well_formed_utf8 :: "bytes \<Rightarrow> bool" where
  "well_formed_utf8 bs \<longleftrightarrow> (\<exists>cps. list_all scalar_value cps \<and> bs = concat (map utf8_encode cps))"

lemma utf8_units_split:
  assumes "b < 64" "c < 64" "d < 64"
  shows "a * 64 + d < 0x800 \<Longrightarrow> 0x80 \<le> a * 64 + d \<Longrightarrow> utf8_units (a * 64 + d) = [0xc0 + a, 0x80 + d]"
    "(a * 64 + c) * 64 + d < 0x10000 \<Longrightarrow> 0x800 \<le> (a * 64 + c) * 64 + d \<Longrightarrow>
      utf8_units ((a * 64 + c) * 64 + d) = [0xe0 + a, 0x80 + c, 0x80 + d]"
    "0x10000 \<le> ((a * 64 + b) * 64 + c) * 64 + d \<Longrightarrow>
      utf8_units (((a * 64 + b) * 64 + c) * 64 + d) = [0xf0 + a, 0x80 + b, 0x80 + c, 0x80 + d]"
proof -
  have d: "(n * 64 + d) div 64 = n" "(n * 64 + d) mod 64 = d" for n using assms(3) by simp_all
  have c: "(n * 64 + c) div 64 = n" "(n * 64 + c) mod 64 = c" for n using assms(2) by simp_all
  have b: "(n * 64 + b) div 64 = n" "(n * 64 + b) mod 64 = b" for n using assms(1) by simp_all
  have k: "n div 4096 = n div 64 div 64" "n div 262144 = n div 64 div 64 div 64" for n :: nat by (simp_all add: div_mult2_eq [symmetric])
  show "a * 64 + d < 0x800 \<Longrightarrow> 0x80 \<le> a * 64 + d \<Longrightarrow> utf8_units (a * 64 + d) = [0xc0 + a, 0x80 + d]"
    by (simp add: utf8_units_def d del: div_mult_self3 mod_mult_self3)
  show "(a * 64 + c) * 64 + d < 0x10000 \<Longrightarrow> 0x800 \<le> (a * 64 + c) * 64 + d \<Longrightarrow>
      utf8_units ((a * 64 + c) * 64 + d) = [0xe0 + a, 0x80 + c, 0x80 + d]"
    unfolding utf8_units_def k d c by simp
  show "0x10000 \<le> ((a * 64 + b) * 64 + c) * 64 + d \<Longrightarrow>
      utf8_units (((a * 64 + b) * 64 + c) * 64 + d) = [0xf0 + a, 0x80 + b, 0x80 + c, 0x80 + d]"
    unfolding utf8_units_def k d c b by simp
qed

lemma scalar_split:
  obtains a b c d where "b < 64" "c < 64" "d < 64" "cp = (((a * 64 + b) * 64 + c) * 64 + d :: nat)"
proof
  show "cp div 64 div 64 mod 64 < 64" "cp div 64 mod 64 < 64" "cp mod 64 < 64" by simp_all
  show "cp = ((cp div 64 div 64 div 64 * 64 + cp div 64 div 64 mod 64) * 64 + cp div 64 mod 64) * 64 + cp mod 64"
    by (simp only: div_mult_mod_eq)
qed

lemma utf8_units_byte: "cp < 0x110000 \<Longrightarrow> \<forall>n \<in> set (utf8_units cp). n < 256"
proof -
  assume "cp < 0x110000"
  then have "cp div 262144 < 8" "cp < 0x10000 \<Longrightarrow> cp div 4096 < 16" "cp < 0x800 \<Longrightarrow> cp div 64 < 32"
    by (simp_all add: less_mult_imp_div_less)
  moreover have "cp div k mod 64 < 64" "cp mod 64 < 64" for k by simp_all
  ultimately show ?thesis by (auto simp: utf8_units_def intro: less_trans [of _ 16] less_trans [of _ 32])
qed

lemma unat_utf8_encode: "scalar_value cp \<Longrightarrow> map unat (utf8_encode cp) = utf8_units cp"
  using utf8_units_byte [of cp]
  by (auto simp: utf8_encode_def scalar_value_def unat_of_nat take_bit_nat_eq_self intro!: map_idI)

text \<open>The transitions, by lead and continuation bytes.\<close>

lemma next_state_lead:
  "c < 0x80 \<Longrightarrow> next_state 0 c = 0"
  "2 \<le> c \<Longrightarrow> c < 32 \<Longrightarrow> next_state 0 (0xc0 + c) = Suc 0"
  "b < 16 \<Longrightarrow> next_state 0 (0xe0 + b) = (if b = 0 then 2 else if b = 13 then 7 else 3)"
  "a < 5 \<Longrightarrow> next_state 0 (0xf0 + a) = (if a = 0 then 4 else if a = 4 then 6 else 5)"
  by (auto simp: next_state_def)

lemma next_state_continuation:
  assumes "c < 64"
  shows "next_state (Suc 0) (0x80 + c) = 0" "next_state 2 (0x80 + c) = (if c < 32 then kExitIllegalStructure else Suc 0)"
    "next_state 3 (0x80 + c) = Suc 0" "next_state 4 (0x80 + c) = (if c < 16 then kExitIllegalStructure else 3)"
    "next_state 5 (0x80 + c) = 3" "next_state 6 (0x80 + c) = (if c < 16 then 3 else kExitIllegalStructure)"
    "next_state 7 (0x80 + c) = (if c < 32 then Suc 0 else 8)" "next_state 8 (0x80 + c) = kExitReject"
  using assms by (simp_all add: next_state_def)

text \<open>The automaton takes exactly the encodings from its first state back to it.\<close>

lemma run_units:
  assumes "scalar_value cp"
  shows "run 0 (utf8_units cp @ rest) = run 0 rest"
proof -
  obtain a b c d where abcd: "b < 64" "c < 64" "d < 64" and cp: "cp = ((a * 64 + b) * 64 + c) * 64 + d"
    by (rule scalar_split)
  note u = utf8_units_split [OF abcd]
  consider "cp < 0x80" | "0x80 \<le> cp" "cp < 0x800" | "0x800 \<le> cp" "cp < 0x10000" | "0x10000 \<le> cp" by linarith
  then show ?thesis
  proof cases
    case 1
    then show ?thesis by (simp add: utf8_units_def next_state_def)
  next
    case 2
    then have z: "a = 0" "b = 0" using cp by auto
    have cpz: "cp = c * 64 + d" using cp z by simp
    have un: "utf8_units cp = [0xc0 + c, 0x80 + d]" using u(1) [of c] 2 cpz by simp
    have "2 \<le> c" "c < 32" using 2 cpz abcd by linarith+
    then show ?thesis using abcd by (simp add: un next_state_lead next_state_continuation)
  next
    case 3
    then have z: "a = 0" using cp by auto
    have cpz: "cp = (b * 64 + c) * 64 + d" using cp z by simp
    have un: "utf8_units cp = [0xe0 + b, 0x80 + c, 0x80 + d]" using u(2) 3 cpz
      using utf8_units_split(2) [OF _ abcd(2,3), of 0 b] by simp
    have r: "b < 16" "b = 0 \<Longrightarrow> 32 \<le> c" "b = 13 \<Longrightarrow> c < 32" using 3 cpz abcd assms by (auto simp: scalar_value_def)
    then show ?thesis using abcd by (auto simp: un next_state_lead next_state_continuation)
  next
    case 4
    have un: "utf8_units cp = [0xf0 + a, 0x80 + b, 0x80 + c, 0x80 + d]" using u(3) [of a] 4 cp by simp
    have r: "a \<le> 4" "a = 0 \<Longrightarrow> 16 \<le> b" "a = 4 \<Longrightarrow> b < 16" using 4 cp abcd assms by (auto simp: scalar_value_def)
    then show ?thesis using abcd by (auto simp: un next_state_lead next_state_continuation)
  qed
qed

text \<open>What a run back to the first state must begin with.\<close>

lemma run_lead:
  assumes "run 0 (n # ns) = Some 0"
  obtains "n < 0x80" "run 0 ns = Some 0"
  | c where "n = 0xc0 + c" "2 \<le> c" "c < 32" "run (Suc 0) ns = Some 0"
  | b where "n = 0xe0 + b" "b < 16" "run (if b = 0 then 2 else if b = 13 then 7 else 3) ns = Some 0"
  | a where "n = 0xf0 + a" "a < 5" "run (if a = 0 then 4 else if a = 4 then 6 else 5) ns = Some 0"
proof -
  have r: "next_state 0 n < 9" "run (next_state 0 n) ns = Some 0" using assms by (simp_all split: if_splits)
  then have "n < 0x80 \<or> 0xc2 \<le> n \<and> n \<le> 0xf4" by (auto simp: next_state_def exit_codes split: if_splits)
  then consider "n < 0x80" | "0xc2 \<le> n" "n < 0xe0" | "0xe0 \<le> n" "n < 0xf0" | "0xf0 \<le> n" "n < 0xf5" by linarith
  then show ?thesis
  proof cases
    case 1
    then show ?thesis using that(1) r next_state_lead(1) [OF 1] by simp
  next
    case 2
    then obtain c where c: "n = 0xc0 + c" "2 \<le> c" "c < 32" by (auto simp: le_iff_add)
    then show ?thesis using that(2) r next_state_lead(2) [OF c(2,3)] by simp
  next
    case 3
    then obtain c where c: "n = 0xe0 + c" "c < 16" by (auto simp: le_iff_add)
    then show ?thesis using that(3) r next_state_lead(3) [OF c(2)] by simp
  next
    case 4
    then obtain c where c: "n = 0xf0 + c" "c < 5" by (auto simp: le_iff_add)
    then show ?thesis using that(4) r next_state_lead(4) [OF c(2)] by simp
  qed
qed

lemma run_continuation:
  assumes "run e ns = Some 0" "0 < e" "e < 8"
  obtains c rest where "ns = (0x80 + c) # rest" "c < 64" "run (next_state e (0x80 + c)) rest = Some 0" "next_state e (0x80 + c) < 9"
proof (cases ns)
  case Nil
  with assms show ?thesis by simp
next
  case (Cons n rest)
  with assms have r: "next_state e n < 9" "run (next_state e n) rest = Some 0" by (simp_all split: if_splits)
  then have "0x80 \<le> n" "n \<le> 0xbf" using assms(2) by (auto simp: next_state_def exit_codes split: if_splits)
  then have "n = 0x80 + (n - 0x80)" "n - 0x80 < 64" by simp_all
  then show ?thesis using that [of "n - 0x80" rest] r Cons by simp
qed

lemma run_8: "run 8 ns \<noteq> Some 0"
  by (cases ns) (auto simp: next_state_def exit_codes)

lemma run_head:
  assumes "run 0 (n # ns) = Some 0"
  shows "\<exists>cp rest. scalar_value cp \<and> n # ns = utf8_units cp @ rest \<and> run 0 rest = Some 0"
  using assms
proof (cases rule: run_lead)
  case 1
  then show ?thesis by (intro exI [of _ n] exI [of _ ns]) (simp add: scalar_value_def utf8_units_def)
next
  case (2 c)
  obtain d rest where d: "ns = (0x80 + d) # rest" "d < 64" "run 0 rest = Some 0"
    by (rule run_continuation [OF 2(4)]) (simp_all add: next_state_continuation)
  have "utf8_units (c * 64 + d) = [0xc0 + c, 0x80 + d]"
    using utf8_units_split(1) [OF d(2) d(2) d(2), of c] 2 d(2) by simp
  then show ?thesis
    using 2 d by (intro exI [of _ "c * 64 + d"] exI [of _ rest]) (simp add: scalar_value_def)
next
  case (3 b)
  let ?e = "if b = 0 then 2 else if b = 13 then 7 else 3 :: nat"
  obtain c ns' where c: "ns = (0x80 + c) # ns'" "c < 64" "run (next_state ?e (0x80 + c)) ns' = Some 0" "next_state ?e (0x80 + c) < 9"
    by (rule run_continuation [OF 3(3)]) simp_all
  have r: "b = 0 \<Longrightarrow> 32 \<le> c" "b = 13 \<Longrightarrow> c < 32" "run (Suc 0) ns' = Some 0"
    using c(2-4) run_8 [of ns'] by (auto simp: next_state_continuation exit_codes split: if_splits)
  obtain d rest where d: "ns' = (0x80 + d) # rest" "d < 64" "run (next_state (Suc 0) (0x80 + d)) rest = Some 0"
    by (rule run_continuation [OF r(3)]) simp_all
  have "utf8_units ((b * 64 + c) * 64 + d) = [0xe0 + b, 0x80 + c, 0x80 + d]"
    by (rule utf8_units_split(2) [OF c(2) c(2) d(2)]) (use 3(2) r(1) c(2) d(2) in \<open>cases "b = 0"; simp\<close>)+
  moreover have "scalar_value ((b * 64 + c) * 64 + d)"
    using 3(2) r(2) c(2) d(2) by (cases b "13 :: nat" rule: linorder_cases) (simp_all add: scalar_value_def)
  ultimately show ?thesis
    using 3(1) c(1) d by (intro exI [of _ "(b * 64 + c) * 64 + d"] exI [of _ rest]) (simp add: next_state_continuation)
next
  case (4 a)
  let ?e = "if a = 0 then 4 else if a = 4 then 6 else 5 :: nat"
  obtain b ns2 where b: "ns = (0x80 + b) # ns2" "b < 64" "run (next_state ?e (0x80 + b)) ns2 = Some 0" "next_state ?e (0x80 + b) < 9"
    by (rule run_continuation [OF 4(3)]) simp_all
  have r: "a = 0 \<Longrightarrow> 16 \<le> b" "a = 4 \<Longrightarrow> b < 16" "run 3 ns2 = Some 0"
    using b(2-4) by (auto simp: next_state_continuation exit_codes split: if_splits)
  obtain c ns3 where c: "ns2 = (0x80 + c) # ns3" "c < 64" "run (next_state 3 (0x80 + c)) ns3 = Some 0"
    by (rule run_continuation [OF r(3)]) simp_all
  then have r3: "run (Suc 0) ns3 = Some 0" by (simp add: next_state_continuation)
  obtain d rest where d: "ns3 = (0x80 + d) # rest" "d < 64" "run (next_state (Suc 0) (0x80 + d)) rest = Some 0"
    by (rule run_continuation [OF r3]) simp_all
  have u: "utf8_units (((a * 64 + b) * 64 + c) * 64 + d) = [0xf0 + a, 0x80 + b, 0x80 + c, 0x80 + d]"
    by (rule utf8_units_split(3) [OF b(2) c(2) d(2)]) (use r(1) b(2) in \<open>cases "a = 0"; simp\<close>)
  have "scalar_value (((a * 64 + b) * 64 + c) * 64 + d)"
    using 4(2) r b(2) c(2) d(2)
    by (cases a "4 :: nat" rule: linorder_cases; cases "a = 0") (simp_all add: scalar_value_def)
  then show ?thesis
    using 4(1) b(1) c(1) d u
    by (intro exI [of _ "((a * 64 + b) * 64 + c) * 64 + d"] exI [of _ rest]) (simp add: next_state_continuation)
qed

lemma run_accepts:
  "run 0 ns = Some 0 \<longleftrightarrow> (\<exists>cps. list_all scalar_value cps \<and> ns = concat (map utf8_units cps))"
proof
  show "\<exists>cps. list_all scalar_value cps \<and> ns = concat (map utf8_units cps)" if "run 0 ns = Some 0"
    using that
  proof (induction "length ns" arbitrary: ns rule: less_induct)
    case less
    show ?case
    proof (cases ns)
      case Nil
      then show ?thesis by (intro exI [of _ "[]"]) simp
    next
      case (Cons n ns')
      with less.prems obtain cp rest where cp: "scalar_value cp" "ns = utf8_units cp @ rest" "run 0 rest = Some 0"
        using run_head by blast
      have "utf8_units cp \<noteq> []" by (simp add: utf8_units_def)
      then obtain cps where "list_all scalar_value cps" "rest = concat (map utf8_units cps)"
        using less.hyps [OF _ cp(3)] cp(2) by auto
      with cp show ?thesis by (intro exI [of _ "cp # cps"]) simp
    qed
  qed
  have "run 0 (concat (map utf8_units cps)) = Some 0" if "list_all scalar_value cps" for cps
    using that by (induction cps) (simp_all add: run_units)
  then show "\<exists>cps. list_all scalar_value cps \<and> ns = concat (map utf8_units cps) \<Longrightarrow> run 0 ns = Some 0" by blast
qed

lemma well_formed_run: "well_formed_utf8 bs \<longleftrightarrow> run 0 (map unat bs) = Some 0"
proof -
  have m: "map unat (concat (map utf8_encode cps)) = concat (map utf8_units cps)" if "list_all scalar_value cps" for cps
    using that by (induction cps) (simp_all add: unat_utf8_encode)
  have "bs = concat (map utf8_encode cps) \<longleftrightarrow> map unat bs = concat (map utf8_units cps)" if "list_all scalar_value cps" for cps
    unfolding m [OF that, symmetric] by (rule inj_eq [symmetric]) (simp add: inj_map word_unat_eq_iff inj_def)
  then show ?thesis unfolding well_formed_utf8_def run_accepts by blast
qed

text \<open>
  C3: the UTF-8 check of string fields is exact. Wherever the string lies in memory, the table
  scan reads nothing outside of it, ends, and answers true exactly on the well-formed UTF-8
  strings: those that encode Unicode scalar values in their shortest form, no surrogates.
\<close>

theorem utf8_check_is_exact:
  "IsStructurallyValidUTF8 True addr buf = Some (well_formed_utf8 buf)"
proof -
  obtain e n where "UTF8GenericScanFastAscii utf8acceptnonsurrogates_obj addr buf = Some (e, n)"
      "n = int (length buf) \<longleftrightarrow> run 0 (map unat buf) = Some 0"
    using UTF8GenericScanFastAscii_obj by blast
  then show ?thesis by (simp add: IsStructurallyValidUTF8_def well_formed_run)
qed

end
