(* ===== verification/Zero_Copy_Streams.thy ===== *)
theory Zero_Copy_Streams
  imports Owb_Prelude
begin

text \<open>
  The block-wise streams of \<^verbatim>\<open>io/zero_copy_stream_impl_lite.cc\<close>: output into an array and into a
  string, input from an array. A stream hands out a pointer into its memory
  and a size; what the caller copies there belongs to the stream until it is backed up.
  \<open>None\<close> for an operation is a failed \<^verbatim>\<open>GOOGLE_CHECK\<close>, which aborts.
\<close>

section \<open>Memory\<close>

definition store_at :: "nat \<Rightarrow> bytes \<Rightarrow> bytes \<Rightarrow> bytes" where
  "store_at p bs buffer = take p buffer @ bs @ drop (p + length bs) buffer"

lemma length_store_at [simp]: "p + length bs \<le> length buffer \<Longrightarrow> length (store_at p bs buffer) = length buffer"
  by (simp add: store_at_def)

lemma store_at_Nil [simp]: "store_at p [] buffer = buffer"
  by (simp add: store_at_def)

lemma take_store_at:
  assumes "p + length bs \<le> k" "k \<le> length buffer"
  shows "take k (store_at p bs buffer) = store_at p bs (take k buffer)"
proof (cases "k \<le> p")
  case True
  then have "k = p" "length bs = 0" using assms by linarith+
  then show ?thesis by simp
next
  case False
  then show ?thesis using assms by (auto simp: store_at_def min_def take_drop)
qed

section \<open>Output streams\<close>

text \<open>The interface \<^verbatim>\<open>ZeroCopyOutputStream\<close>, and the copying through a pointer that was handed out.\<close>

record 's zero_copy_output =
  zc_Next :: "'s \<Rightarrow> (nat \<times> nat) option \<times> 's"
  zc_BackUp :: "nat \<Rightarrow> 's \<Rightarrow> 's option"
  zc_ByteCount :: "'s \<Rightarrow> nat"
  zc_store :: "nat \<Rightarrow> bytes \<Rightarrow> 's \<Rightarrow> 's"

subsection \<open>Into an array\<close>

record array_output =
  ao_data :: bytes
  ao_block_size :: int
  ao_position :: nat
  ao_last_returned_size :: nat

definition ArrayOutputStream_new :: "bytes \<Rightarrow> int \<Rightarrow> array_output" where
  "ArrayOutputStream_new data block_size =
     \<lparr>ao_data = data, ao_block_size = (if block_size > 0 then block_size else int (length data)),
      ao_position = 0, ao_last_returned_size = 0\<rparr>"

definition ArrayOutputStream_Next :: "array_output \<Rightarrow> (nat \<times> nat) option \<times> array_output" where
  "ArrayOutputStream_Next s =
     (if ao_position s < length (ao_data s)
      then let n = nat (min (ao_block_size s) (int (length (ao_data s)) - int (ao_position s)))
           in (Some (ao_position s, n), s\<lparr>ao_last_returned_size := n, ao_position := ao_position s + n\<rparr>)
      else (None, s\<lparr>ao_last_returned_size := 0\<rparr>))"

definition ArrayOutputStream_BackUp :: "nat \<Rightarrow> array_output \<Rightarrow> array_output option" where
  "ArrayOutputStream_BackUp count s =
     (if ao_last_returned_size s > 0 \<and> count \<le> ao_last_returned_size s
      then Some (s\<lparr>ao_position := ao_position s - count, ao_last_returned_size := 0\<rparr>) else None)"

definition ArrayOutputStream_ByteCount :: "array_output \<Rightarrow> nat" where
  "ArrayOutputStream_ByteCount s = ao_position s"

definition ArrayOutputStream :: "array_output zero_copy_output" where
  "ArrayOutputStream =
     \<lparr>zc_Next = ArrayOutputStream_Next, zc_BackUp = ArrayOutputStream_BackUp, zc_ByteCount = ArrayOutputStream_ByteCount,
      zc_store = (\<lambda>p bs s. s\<lparr>ao_data := store_at p bs (ao_data s)\<rparr>)\<rparr>"

subsection \<open>Into a string\<close>

text \<open>
  \<^verbatim>\<open>std::string\<close> keeps a capacity; \<open>grow\<close> is the capacity its implementation chooses for a new size.
  Bytes that were never written are shown as zeros.
\<close>

record string_output =
  so_target :: bytes
  so_capacity :: nat

definition kMinimumSize :: nat where
  "kMinimumSize = 16"

definition resize_uninitialized :: "(nat \<Rightarrow> nat) \<Rightarrow> nat \<Rightarrow> string_output \<Rightarrow> string_output" where
  "resize_uninitialized grow n s =
     \<lparr>so_target = take n (so_target s) @ replicate (n - length (so_target s)) 0,
      so_capacity = (if n \<le> so_capacity s then so_capacity s else grow n)\<rparr>"

definition StringOutputStream_Next :: "(nat \<Rightarrow> nat) \<Rightarrow> string_output \<Rightarrow> (nat \<times> nat) option \<times> string_output" where
  "StringOutputStream_Next grow s =
     (let old_size = length (so_target s);
          s = (if old_size < so_capacity s then resize_uninitialized grow (so_capacity s) s
               else resize_uninitialized grow (max (old_size * 2) kMinimumSize) s)
      in (Some (old_size, length (so_target s) - old_size), s))"

definition StringOutputStream_BackUp :: "nat \<Rightarrow> string_output \<Rightarrow> string_output option" where
  "StringOutputStream_BackUp count s =
     (if count \<le> length (so_target s) then Some (s\<lparr>so_target := take (length (so_target s) - count) (so_target s)\<rparr>) else None)"

definition StringOutputStream_ByteCount :: "string_output \<Rightarrow> nat" where
  "StringOutputStream_ByteCount s = length (so_target s)"

definition StringOutputStream :: "(nat \<Rightarrow> nat) \<Rightarrow> string_output zero_copy_output" where
  "StringOutputStream grow =
     \<lparr>zc_Next = StringOutputStream_Next grow, zc_BackUp = StringOutputStream_BackUp, zc_ByteCount = StringOutputStream_ByteCount,
      zc_store = (\<lambda>p bs s. s\<lparr>so_target := store_at p bs (so_target s)\<rparr>)\<rparr>"

section \<open>What an output stream promises\<close>

text \<open>
  \<open>content\<close> is all that was handed out so far and not backed up; \<open>tail s p n\<close> says that the last
  \<open>n\<close> bytes of it are at the pointer \<open>p\<close>; \<open>fits s n\<close> that the stream can come to hold \<open>n\<close> bytes.
\<close>

locale output_stream =
  fixes Z :: "'s zero_copy_output"
    and ok :: "'s \<Rightarrow> bool"
    and content :: "'s \<Rightarrow> bytes"
    and tail :: "'s \<Rightarrow> nat \<Rightarrow> nat \<Rightarrow> bool"
    and fits :: "'s \<Rightarrow> nat \<Rightarrow> bool"
  assumes next_some: "ok s \<Longrightarrow> zc_Next Z s = (Some (p, n), s') \<Longrightarrow>
      ok s' \<and> 0 < n \<and> tail s' p n \<and> fits s' = fits s \<and> fits s (length (content s) + n) \<and>
      (\<exists>junk. length junk = n \<and> content s' = content s @ junk)"
    and next_none: "ok s \<Longrightarrow> zc_Next Z s = (None, s') \<Longrightarrow>
      ok s' \<and> fits s' = fits s \<and> content s' = content s \<and> \<not> fits s (Suc (length (content s)))"
    and store: "ok s \<Longrightarrow> tail s p n \<Longrightarrow> length bs \<le> n \<Longrightarrow>
      ok (zc_store Z p bs s) \<and> fits (zc_store Z p bs s) = fits s \<and>
      tail (zc_store Z p bs s) (p + length bs) (n - length bs) \<and>
      content (zc_store Z p bs s) = store_at (length (content s) - n) bs (content s)"
    and store_nothing: "zc_store Z p [] s = s"
    and back_up: "ok s \<Longrightarrow> tail s p n \<Longrightarrow> 0 < n \<Longrightarrow>
      \<exists>s'. zc_BackUp Z n s = Some s' \<and> ok s' \<and> fits s' = fits s \<and> content s' = take (length (content s) - n) (content s)"
    and tail_rest: "tail s p n \<Longrightarrow> k \<le> n \<Longrightarrow> tail s (p + k) (n - k)"
    and tail_le: "tail s p n \<Longrightarrow> n \<le> length (content s)"
    and fits_mono: "fits s n \<Longrightarrow> m \<le> n \<Longrightarrow> fits s m"
    and byte_count: "ok s \<Longrightarrow> zc_ByteCount Z s = length (content s)"

subsection \<open>The array stream\<close>

definition ao_ok :: "array_output \<Rightarrow> bool" where
  "ao_ok s \<longleftrightarrow> ao_position s \<le> length (ao_data s) \<and> (0 < ao_block_size s \<or> ao_data s = [])"

definition ao_content :: "array_output \<Rightarrow> bytes" where
  "ao_content s = take (ao_position s) (ao_data s)"

definition ao_tail :: "array_output \<Rightarrow> nat \<Rightarrow> nat \<Rightarrow> bool" where
  "ao_tail s p n \<longleftrightarrow> p + n = ao_position s \<and> n \<le> ao_last_returned_size s \<and> ao_position s \<le> length (ao_data s)"

definition ao_fits :: "array_output \<Rightarrow> nat \<Rightarrow> bool" where
  "ao_fits s n \<longleftrightarrow> n \<le> length (ao_data s)"

lemma ArrayOutputStream_new_ok: "ao_ok (ArrayOutputStream_new data block_size)" "ao_content (ArrayOutputStream_new data block_size) = []"
  "ao_fits (ArrayOutputStream_new data block_size) n \<longleftrightarrow> n \<le> length data"
  by (simp_all add: ao_ok_def ao_content_def ao_fits_def ArrayOutputStream_new_def)

interpretation array_out: output_stream ArrayOutputStream ao_ok ao_content ao_tail ao_fits
proof
  fix s s' p n
  assume s: "ao_ok s" and nx: "zc_Next ArrayOutputStream s = (Some (p, n), s')"
  from nx have l: "ao_position s < length (ao_data s)" and p: "p = ao_position s"
    and n: "n = nat (min (ao_block_size s) (int (length (ao_data s)) - int (ao_position s)))"
    and s': "s' = s\<lparr>ao_last_returned_size := n, ao_position := ao_position s + n\<rparr>"
    by (auto simp: ArrayOutputStream_def ArrayOutputStream_Next_def Let_def split: if_splits)
  have "0 < ao_block_size s" using s l by (auto simp: ao_ok_def)
  then have n': "0 < n" "ao_position s + n \<le> length (ao_data s)" using l n by auto
  have "take (ao_position s + n) (ao_data s) = take (ao_position s) (ao_data s) @ take n (drop (ao_position s) (ao_data s))"
    by (rule take_add)
  then show "ao_ok s' \<and> 0 < n \<and> ao_tail s' p n \<and> ao_fits s' = ao_fits s \<and> ao_fits s (length (ao_content s) + n) \<and>
      (\<exists>junk. length junk = n \<and> ao_content s' = ao_content s @ junk)"
    using n' s unfolding s' p
    by (auto simp: ao_ok_def ao_tail_def ao_fits_def ao_content_def fun_eq_iff min_def intro!: exI [of _ "take n (drop (ao_position s) (ao_data s))"])
next
  fix s s'
  assume "ao_ok s" "zc_Next ArrayOutputStream s = (None, s')"
  then show "ao_ok s' \<and> ao_fits s' = ao_fits s \<and> ao_content s' = ao_content s \<and> \<not> ao_fits s (Suc (length (ao_content s)))"
    by (auto simp: ArrayOutputStream_def ArrayOutputStream_Next_def Let_def ao_ok_def ao_content_def ao_fits_def fun_eq_iff split: if_splits)
next
  fix s p n and bs :: bytes
  assume s: "ao_ok s" "ao_tail s p n" "length bs \<le> n"
  then have p: "p + length bs \<le> ao_position s" "ao_position s \<le> length (ao_data s)" "p = ao_position s - n" "p + n = ao_position s"
    by (auto simp: ao_tail_def)
  have l: "length (store_at p bs (ao_data s)) = length (ao_data s)" using p by simp
  have t: "take (ao_position s) (store_at p bs (ao_data s)) = store_at p bs (take (ao_position s) (ao_data s))"
    using p by (intro take_store_at) simp_all
  have "ao_data s = [] \<Longrightarrow> store_at p bs (ao_data s) = []" using l by simp
  then show "ao_ok (zc_store ArrayOutputStream p bs s) \<and> ao_fits (zc_store ArrayOutputStream p bs s) = ao_fits s \<and>
      ao_tail (zc_store ArrayOutputStream p bs s) (p + length bs) (n - length bs) \<and>
      ao_content (zc_store ArrayOutputStream p bs s) = store_at (length (ao_content s) - n) bs (ao_content s)"
    using s p t l
    by (auto simp: ArrayOutputStream_def ao_ok_def ao_tail_def ao_fits_def ao_content_def fun_eq_iff min_def simp del: length_store_at)
next
  fix s p n
  assume "ao_ok s" "ao_tail s p n" "0 < n"
  then show "\<exists>s'. zc_BackUp ArrayOutputStream n s = Some s' \<and> ao_ok s' \<and> ao_fits s' = ao_fits s \<and>
      ao_content s' = take (length (ao_content s) - n) (ao_content s)"
    by (auto simp: ArrayOutputStream_def ArrayOutputStream_BackUp_def ao_ok_def ao_tail_def ao_fits_def ao_content_def fun_eq_iff min_def)
qed (auto simp: ArrayOutputStream_def ArrayOutputStream_ByteCount_def ao_tail_def ao_content_def ao_fits_def ao_ok_def)

subsection \<open>The string stream\<close>

definition so_tail :: "string_output \<Rightarrow> nat \<Rightarrow> nat \<Rightarrow> bool" where
  "so_tail s p n \<longleftrightarrow> p + n = length (so_target s)"

lemma string_output_stream:
  assumes grow: "\<And>n. n \<le> grow n"
  shows "output_stream (StringOutputStream grow) (\<lambda>_. True) so_target so_tail (\<lambda>_ _. True)"
proof
  fix s s' p n
  assume nx: "zc_Next (StringOutputStream grow) s = (Some (p, n), s')"
  define m where "m = (if length (so_target s) < so_capacity s then so_capacity s else max (length (so_target s) * 2) kMinimumSize)"
  have m: "length (so_target s) < m" by (auto simp: m_def kMinimumSize_def)
  have "s' = resize_uninitialized grow m s" "p = length (so_target s)" "n = length (so_target s') - length (so_target s)"
    using nx by (auto simp: StringOutputStream_def StringOutputStream_Next_def Let_def m_def split: if_splits)
  then show "True \<and> 0 < n \<and> so_tail s' p n \<and> (\<lambda>_. True) = (\<lambda>_. True) \<and> True \<and>
      (\<exists>junk. length junk = n \<and> so_target s' = so_target s @ junk)"
    using m by (auto simp: so_tail_def resize_uninitialized_def)
next
  fix s p n and bs :: bytes
  assume "so_tail s p n" "length bs \<le> n"
  then have "length (so_target s) - n = p" "p + length bs \<le> length (so_target s)" "p + n = length (so_target s)" by (auto simp: so_tail_def)
  then show "True \<and> (\<lambda>_. True) = (\<lambda>_. True) \<and> so_tail (zc_store (StringOutputStream grow) p bs s) (p + length bs) (n - length bs) \<and>
      so_target (zc_store (StringOutputStream grow) p bs s) = store_at (length (so_target s) - n) bs (so_target s)"
    using \<open>length bs \<le> n\<close> by (simp add: StringOutputStream_def so_tail_def)
qed (auto simp: StringOutputStream_def StringOutputStream_Next_def StringOutputStream_BackUp_def StringOutputStream_ByteCount_def
    so_tail_def Let_def store_at_def)

text \<open>The growth of the usual implementations: the capacity is the size.\<close>

interpretation string_out: output_stream "StringOutputStream (\<lambda>n. n)" "\<lambda>_. True" so_target so_tail "\<lambda>_ _. True"
  by (rule string_output_stream) simp

section \<open>Input from an array\<close>

record array_input =
  ai_data :: bytes
  ai_block_size :: int
  ai_position :: nat
  ai_last_returned_size :: nat

definition ArrayInputStream_new :: "bytes \<Rightarrow> int \<Rightarrow> array_input" where
  "ArrayInputStream_new data block_size =
     \<lparr>ai_data = data, ai_block_size = (if block_size > 0 then block_size else int (length data)),
      ai_position = 0, ai_last_returned_size = 0\<rparr>"

definition ArrayInputStream_Next :: "array_input \<Rightarrow> bytes option \<times> array_input" where
  "ArrayInputStream_Next s =
     (if ai_position s < length (ai_data s)
      then let n = nat (min (ai_block_size s) (int (length (ai_data s)) - int (ai_position s)))
           in (Some (take n (drop (ai_position s) (ai_data s))),
               s\<lparr>ai_last_returned_size := n, ai_position := ai_position s + n\<rparr>)
      else (None, s\<lparr>ai_last_returned_size := 0\<rparr>))"

definition ArrayInputStream_BackUp :: "int \<Rightarrow> array_input \<Rightarrow> array_input option" where
  "ArrayInputStream_BackUp count s =
     (if ai_last_returned_size s > 0 \<and> count \<le> int (ai_last_returned_size s) \<and> count \<ge> 0
      then Some (s\<lparr>ai_position := ai_position s - nat count, ai_last_returned_size := 0\<rparr>) else None)"

definition ArrayInputStream_Skip :: "int \<Rightarrow> array_input \<Rightarrow> (bool \<times> array_input) option" where
  "ArrayInputStream_Skip count s =
     (if count < 0 then None
      else let s = s\<lparr>ai_last_returned_size := 0\<rparr>
           in if count > int (length (ai_data s)) - int (ai_position s)
              then Some (False, s\<lparr>ai_position := length (ai_data s)\<rparr>)
              else Some (True, s\<lparr>ai_position := ai_position s + nat count\<rparr>))"

definition ArrayInputStream_ByteCount :: "array_input \<Rightarrow> nat" where
  "ArrayInputStream_ByteCount s = ai_position s"

definition ai_ok :: "array_input \<Rightarrow> bool" where
  "ai_ok s \<longleftrightarrow> ai_position s \<le> length (ai_data s) \<and> (0 < ai_block_size s \<or> ai_data s = []) \<and> ai_last_returned_size s \<le> ai_position s"

definition ai_rest :: "array_input \<Rightarrow> bytes" where
  "ai_rest s = drop (ai_position s) (ai_data s)"

text \<open>The blocks are the array in order, none of them empty; backing up gives bytes back.\<close>

lemma ArrayInputStream_new_ok: "ai_ok (ArrayInputStream_new data block_size)" "ai_rest (ArrayInputStream_new data block_size) = data"
  by (simp_all add: ai_ok_def ai_rest_def ArrayInputStream_new_def)

lemma ArrayInputStream_Next_ok:
  assumes "ai_ok s"
  shows "case ArrayInputStream_Next s of
      (Some block, s') \<Rightarrow> ai_ok s' \<and> block \<noteq> [] \<and> ai_rest s = block @ ai_rest s' \<and> ai_last_returned_size s' = length block
    | (None, s') \<Rightarrow> ai_ok s' \<and> ai_rest s = [] \<and> ai_rest s' = []"
proof (cases "ai_position s < length (ai_data s)")
  case True
  define n where "n = nat (min (ai_block_size s) (int (length (ai_data s)) - int (ai_position s)))"
  have "0 < ai_block_size s" using assms True by (auto simp: ai_ok_def)
  then have n: "0 < n" "ai_position s + n \<le> length (ai_data s)" using True by (auto simp: n_def)
  have "ai_rest s = take n (drop (ai_position s) (ai_data s)) @ drop (ai_position s + n) (ai_data s)"
    by (simp add: ai_rest_def add.commute flip: drop_drop)
  then show ?thesis using assms True n
    by (auto simp: ArrayInputStream_Next_def Let_def ai_ok_def ai_rest_def simp flip: n_def)
next
  case False
  then show ?thesis using assms by (auto simp: ArrayInputStream_Next_def ai_ok_def ai_rest_def)
qed

lemma ArrayInputStream_BackUp_ok:
  assumes "ai_ok s" "0 \<le> count" "count \<le> int (ai_last_returned_size s)" "0 < ai_last_returned_size s"
  shows "\<exists>s'. ArrayInputStream_BackUp count s = Some s' \<and> ai_ok s' \<and>
    ai_rest s' = drop (ai_position s - nat count) (ai_data s)"
  using assms by (auto simp: ArrayInputStream_BackUp_def ai_ok_def ai_rest_def)

lemma ArrayInputStream_Skip_ok:
  assumes "ai_ok s" "0 \<le> count"
  shows "\<exists>s'. ArrayInputStream_Skip count s = Some (nat count \<le> length (ai_rest s), s') \<and> ai_ok s' \<and> ai_rest s' = drop (nat count) (ai_rest s)"
  using assms by (auto simp: ArrayInputStream_Skip_def Let_def ai_ok_def ai_rest_def add.commute)

text \<open>\<^verbatim>\<open>Next\<close> until it fails gives the array back, whatever the block size.\<close>

fun ai_blocks :: "nat \<Rightarrow> array_input \<Rightarrow> bytes list" where
  "ai_blocks 0 s = []"
| "ai_blocks (Suc n) s = (case ArrayInputStream_Next s of (Some block, s) \<Rightarrow> block # ai_blocks n s | (None, s) \<Rightarrow> [])"

lemma ai_blocks_rest: "ai_ok s \<Longrightarrow> length (ai_rest s) \<le> n \<Longrightarrow> concat (ai_blocks n s) = ai_rest s"
proof (induction n arbitrary: s)
  case (Suc n)
  from ArrayInputStream_Next_ok [OF Suc.prems(1)] show ?case
  proof (cases "ArrayInputStream_Next s")
    case (Pair b s')
    show ?thesis
    proof (cases b)
      case (Some block)
      with Pair ArrayInputStream_Next_ok [OF Suc.prems(1)] have "ai_ok s'" "block \<noteq> []" "ai_rest s = block @ ai_rest s'" by auto
      moreover from this Suc.prems(2) have "length (ai_rest s') \<le> n" by (cases block) auto
      ultimately show ?thesis using Suc.IH Pair Some by simp
    next
      case None
      with Pair ArrayInputStream_Next_ok [OF Suc.prems(1)] show ?thesis by simp
    qed
  qed
qed simp

end
