(* ===== verification/Coded_Output.thy ===== *)
theory Coded_Output
  imports Zero_Copy_Streams Wire_Format
begin

text \<open>
  \<^verbatim>\<open>CodedOutputStream\<close> of \<^verbatim>\<open>io/coded_stream.cc\<close> over any zero-copy stream, and the writers of
  \<^verbatim>\<open>wire_format_lite.cc\<close> that serialise through it. The promise of every writer is
  \<open>delivers\<close>: the bytes it is to write, wherever the block boundaries fall, and an error exactly
  when the stream has no room for them.
\<close>

section \<open>The coded stream\<close>

record 's cos =
  underlying :: 's
  buffer_ptr :: nat
  buffer_size :: nat
  total_bytes :: nat
  had_error :: bool

definition Out_Advance :: "nat \<Rightarrow> 's cos \<Rightarrow> 's cos" where
  "Out_Advance amount c = c\<lparr>buffer_ptr := buffer_ptr c + amount, buffer_size := buffer_size c - amount\<rparr>"

definition Out_Refresh :: "'s zero_copy_output \<Rightarrow> 's cos \<Rightarrow> bool \<times> 's cos" where
  "Out_Refresh Z c =
     (case zc_Next Z (underlying c) of
        (Some (p, n), s) \<Rightarrow> (True, c\<lparr>underlying := s, buffer_ptr := p, buffer_size := n, total_bytes := total_bytes c + n\<rparr>)
      | (None, s) \<Rightarrow> (False, c\<lparr>underlying := s, buffer_ptr := 0, buffer_size := 0, had_error := True\<rparr>))"

definition CodedOutputStream_new :: "'s zero_copy_output \<Rightarrow> 's \<Rightarrow> 's cos" where
  "CodedOutputStream_new Z s =
     (snd (Out_Refresh Z \<lparr>underlying = s, buffer_ptr = 0, buffer_size = 0, total_bytes = 0, had_error = False\<rparr>))\<lparr>had_error := False\<rparr>"

definition CodedOutputStream_delete :: "'s zero_copy_output \<Rightarrow> 's cos \<Rightarrow> 's option" where
  "CodedOutputStream_delete Z c =
     (if buffer_size c > 0 then zc_BackUp Z (buffer_size c) (underlying c) else Some (underlying c))"

definition Out_ByteCount :: "'s cos \<Rightarrow> nat" where
  "Out_ByteCount c = total_bytes c - buffer_size c"

text \<open>\<^verbatim>\<open>memcpy(buffer_, data, size)\<close>.\<close>

definition copy_out :: "'s zero_copy_output \<Rightarrow> bytes \<Rightarrow> 's cos \<Rightarrow> 's cos" where
  "copy_out Z bs c = c\<lparr>underlying := zc_store Z (buffer_ptr c) bs (underlying c)\<rparr>"

text \<open>The loops have no value when the stream hands out empty buffers for ever.\<close>

partial_function (option) Out_Skip_loop :: "'s zero_copy_output \<Rightarrow> nat \<Rightarrow> 's cos \<Rightarrow> (bool \<times> 's cos) option" where
  "Out_Skip_loop Z count c =
     (if count > buffer_size c
      then case Out_Refresh Z c of
          (refreshed, c') \<Rightarrow> if refreshed then Out_Skip_loop Z (count - buffer_size c) c' else Some (False, c')
      else Some (True, Out_Advance count c))"

definition Out_Skip :: "'s zero_copy_output \<Rightarrow> int \<Rightarrow> 's cos \<Rightarrow> (bool \<times> 's cos) option" where
  "Out_Skip Z count c = (if count < 0 then Some (False, c) else Out_Skip_loop Z (nat count) c)"

definition Out_GetDirectBufferPointer :: "'s zero_copy_output \<Rightarrow> 's cos \<Rightarrow> (nat \<times> nat) option \<times> 's cos" where
  "Out_GetDirectBufferPointer Z c =
     (if buffer_size c = 0
      then case Out_Refresh Z c of
          (True, c) \<Rightarrow> (Some (buffer_ptr c, buffer_size c), c)
        | (False, c) \<Rightarrow> (None, c)
      else (Some (buffer_ptr c, buffer_size c), c))"

definition Out_GetDirectBufferForNBytesAndAdvance :: "nat \<Rightarrow> 's cos \<Rightarrow> nat option \<times> 's cos" where
  "Out_GetDirectBufferForNBytesAndAdvance n c =
     (if buffer_size c < n then (None, c) else (Some (buffer_ptr c), Out_Advance n c))"

partial_function (option) Out_WriteRaw :: "'s zero_copy_output \<Rightarrow> bytes \<Rightarrow> 's cos \<Rightarrow> 's cos option" where
  "Out_WriteRaw Z data c =
     (if buffer_size c < length data
      then case Out_Refresh Z (copy_out Z (take (buffer_size c) data) c) of
          (refreshed, c') \<Rightarrow> if refreshed then Out_WriteRaw Z (drop (buffer_size c) data) c' else Some c'
      else Some (Out_Advance (length data) (copy_out Z data c)))"

definition Out_WriteLittleEndian32 :: "'s zero_copy_output \<Rightarrow> uint32 \<Rightarrow> 's cos \<Rightarrow> 's cos option" where
  "Out_WriteLittleEndian32 Z value c =
     (let bytes = WriteLittleEndian32ToArray value []
      in if buffer_size c \<ge> 4 then Some (Out_Advance 4 (copy_out Z bytes c)) else Out_WriteRaw Z bytes c)"

definition Out_WriteLittleEndian64 :: "'s zero_copy_output \<Rightarrow> uint64 \<Rightarrow> 's cos \<Rightarrow> 's cos option" where
  "Out_WriteLittleEndian64 Z value c =
     (let bytes = WriteLittleEndian64ToArray value []
      in if buffer_size c \<ge> 8 then Some (Out_Advance 8 (copy_out Z bytes c)) else Out_WriteRaw Z bytes c)"

definition Out_WriteVarint32 :: "'s zero_copy_output \<Rightarrow> uint32 \<Rightarrow> 's cos \<Rightarrow> 's cos option" where
  "Out_WriteVarint32 Z value c =
     (if buffer_size c \<ge> kMaxVarint32Bytes
      then let bytes = WriteVarint32FallbackToArrayInline value []
           in Some (Out_Advance (length bytes) (copy_out Z bytes c))
      else Out_WriteRaw Z (WriteVarint_compose (ucast value) kMaxVarint32Bytes) c)"

definition Out_WriteVarint64 :: "'s zero_copy_output \<Rightarrow> uint64 \<Rightarrow> 's cos \<Rightarrow> 's cos option" where
  "Out_WriteVarint64 Z value c =
     (if buffer_size c \<ge> kMaxVarintBytes
      then let bytes = WriteVarint64ToArrayInline value []
           in Some (Out_Advance (length bytes) (copy_out Z bytes c))
      else Out_WriteRaw Z (WriteVarint_compose value kMaxVarintBytes) c)"

definition Out_WriteVarint32SignExtended :: "'s zero_copy_output \<Rightarrow> int32 \<Rightarrow> 's cos \<Rightarrow> 's cos option" where
  "Out_WriteVarint32SignExtended Z value c =
     (if sint value < 0 then Out_WriteVarint64 Z (scast value) c else Out_WriteVarint32 Z value c)"

definition Out_WriteTag :: "'s zero_copy_output \<Rightarrow> uint32 \<Rightarrow> 's cos \<Rightarrow> 's cos option" where
  "Out_WriteTag Z value c = Out_WriteVarint32 Z value c"

definition Out_WriteString :: "'s zero_copy_output \<Rightarrow> bytes \<Rightarrow> 's cos \<Rightarrow> 's cos option" where
  "Out_WriteString Z str c = Out_WriteRaw Z str c"

section \<open>Fields\<close>

definition ZigZagEncode32 :: "int32 \<Rightarrow> uint32" where
  "ZigZagEncode32 n = push_bit 1 n XOR signed_drop_bit 31 n"

definition ZigZagDecode32 :: "uint32 \<Rightarrow> int32" where
  "ZigZagDecode32 n = drop_bit 1 n XOR (- (n AND 1))"

definition ZigZagEncode64 :: "uint64 \<Rightarrow> uint64" where
  "ZigZagEncode64 n = push_bit 1 n XOR signed_drop_bit 63 n"

definition ZigZagDecode64 :: "uint64 \<Rightarrow> uint64" where
  "ZigZagDecode64 n = drop_bit 1 n XOR (- (n AND 1))"

definition WriteTag :: "'s zero_copy_output \<Rightarrow> int32 \<Rightarrow> uint32 \<Rightarrow> 's cos \<Rightarrow> 's cos option" where
  "WriteTag Z field_number type c = Out_WriteTag Z (MakeTag field_number type) c"

definition WriteInt32NoTag :: "'s zero_copy_output \<Rightarrow> int32 \<Rightarrow> 's cos \<Rightarrow> 's cos option" where
  "WriteInt32NoTag Z value c = Out_WriteVarint32SignExtended Z value c"

definition WriteInt64NoTag :: "'s zero_copy_output \<Rightarrow> uint64 \<Rightarrow> 's cos \<Rightarrow> 's cos option" where
  "WriteInt64NoTag Z value c = Out_WriteVarint64 Z value c"

definition WriteUInt32NoTag :: "'s zero_copy_output \<Rightarrow> uint32 \<Rightarrow> 's cos \<Rightarrow> 's cos option" where
  "WriteUInt32NoTag Z value c = Out_WriteVarint32 Z value c"

definition WriteUInt64NoTag :: "'s zero_copy_output \<Rightarrow> uint64 \<Rightarrow> 's cos \<Rightarrow> 's cos option" where
  "WriteUInt64NoTag Z value c = Out_WriteVarint64 Z value c"

definition WriteSInt32NoTag :: "'s zero_copy_output \<Rightarrow> int32 \<Rightarrow> 's cos \<Rightarrow> 's cos option" where
  "WriteSInt32NoTag Z value c = Out_WriteVarint32 Z (ZigZagEncode32 value) c"

definition WriteSInt64NoTag :: "'s zero_copy_output \<Rightarrow> uint64 \<Rightarrow> 's cos \<Rightarrow> 's cos option" where
  "WriteSInt64NoTag Z value c = Out_WriteVarint64 Z (ZigZagEncode64 value) c"

definition WriteFixed32NoTag :: "'s zero_copy_output \<Rightarrow> uint32 \<Rightarrow> 's cos \<Rightarrow> 's cos option" where
  "WriteFixed32NoTag Z value c = Out_WriteLittleEndian32 Z value c"

definition WriteFixed64NoTag :: "'s zero_copy_output \<Rightarrow> uint64 \<Rightarrow> 's cos \<Rightarrow> 's cos option" where
  "WriteFixed64NoTag Z value c = Out_WriteLittleEndian64 Z value c"

definition WriteSFixed32NoTag :: "'s zero_copy_output \<Rightarrow> int32 \<Rightarrow> 's cos \<Rightarrow> 's cos option" where
  "WriteSFixed32NoTag Z value c = Out_WriteLittleEndian32 Z value c"

definition WriteSFixed64NoTag :: "'s zero_copy_output \<Rightarrow> uint64 \<Rightarrow> 's cos \<Rightarrow> 's cos option" where
  "WriteSFixed64NoTag Z value c = Out_WriteLittleEndian64 Z value c"

text \<open>Floating-point values are their bit patterns.\<close>

definition WriteFloatNoTag :: "'s zero_copy_output \<Rightarrow> float32 \<Rightarrow> 's cos \<Rightarrow> 's cos option" where
  "WriteFloatNoTag Z value c = Out_WriteLittleEndian32 Z value c"

definition WriteDoubleNoTag :: "'s zero_copy_output \<Rightarrow> uint64 \<Rightarrow> 's cos \<Rightarrow> 's cos option" where
  "WriteDoubleNoTag Z value c = Out_WriteLittleEndian64 Z value c"

definition WriteBoolNoTag :: "'s zero_copy_output \<Rightarrow> bool \<Rightarrow> 's cos \<Rightarrow> 's cos option" where
  "WriteBoolNoTag Z value c = Out_WriteVarint32 Z (if value then 1 else 0) c"

definition WriteEnumNoTag :: "'s zero_copy_output \<Rightarrow> int32 \<Rightarrow> 's cos \<Rightarrow> 's cos option" where
  "WriteEnumNoTag Z value c = Out_WriteVarint32SignExtended Z value c"

definition WriteInt32 :: "'s zero_copy_output \<Rightarrow> int32 \<Rightarrow> int32 \<Rightarrow> 's cos \<Rightarrow> 's cos option" where
  "WriteInt32 Z field_number value c =
     Option.bind (WriteTag Z field_number WIRETYPE_VARINT c) (WriteInt32NoTag Z value)"

definition WriteInt64 :: "'s zero_copy_output \<Rightarrow> int32 \<Rightarrow> uint64 \<Rightarrow> 's cos \<Rightarrow> 's cos option" where
  "WriteInt64 Z field_number value c =
     Option.bind (WriteTag Z field_number WIRETYPE_VARINT c) (WriteInt64NoTag Z value)"

definition WriteUInt32 :: "'s zero_copy_output \<Rightarrow> int32 \<Rightarrow> uint32 \<Rightarrow> 's cos \<Rightarrow> 's cos option" where
  "WriteUInt32 Z field_number value c =
     Option.bind (WriteTag Z field_number WIRETYPE_VARINT c) (WriteUInt32NoTag Z value)"

definition WriteUInt64 :: "'s zero_copy_output \<Rightarrow> int32 \<Rightarrow> uint64 \<Rightarrow> 's cos \<Rightarrow> 's cos option" where
  "WriteUInt64 Z field_number value c =
     Option.bind (WriteTag Z field_number WIRETYPE_VARINT c) (WriteUInt64NoTag Z value)"

definition WriteSInt32 :: "'s zero_copy_output \<Rightarrow> int32 \<Rightarrow> int32 \<Rightarrow> 's cos \<Rightarrow> 's cos option" where
  "WriteSInt32 Z field_number value c =
     Option.bind (WriteTag Z field_number WIRETYPE_VARINT c) (WriteSInt32NoTag Z value)"

definition WriteSInt64 :: "'s zero_copy_output \<Rightarrow> int32 \<Rightarrow> uint64 \<Rightarrow> 's cos \<Rightarrow> 's cos option" where
  "WriteSInt64 Z field_number value c =
     Option.bind (WriteTag Z field_number WIRETYPE_VARINT c) (WriteSInt64NoTag Z value)"

definition WriteFixed32 :: "'s zero_copy_output \<Rightarrow> int32 \<Rightarrow> uint32 \<Rightarrow> 's cos \<Rightarrow> 's cos option" where
  "WriteFixed32 Z field_number value c =
     Option.bind (WriteTag Z field_number WIRETYPE_FIXED32 c) (WriteFixed32NoTag Z value)"

definition WriteFixed64 :: "'s zero_copy_output \<Rightarrow> int32 \<Rightarrow> uint64 \<Rightarrow> 's cos \<Rightarrow> 's cos option" where
  "WriteFixed64 Z field_number value c =
     Option.bind (WriteTag Z field_number WIRETYPE_FIXED64 c) (WriteFixed64NoTag Z value)"

definition WriteSFixed32 :: "'s zero_copy_output \<Rightarrow> int32 \<Rightarrow> int32 \<Rightarrow> 's cos \<Rightarrow> 's cos option" where
  "WriteSFixed32 Z field_number value c =
     Option.bind (WriteTag Z field_number WIRETYPE_FIXED32 c) (WriteSFixed32NoTag Z value)"

definition WriteSFixed64 :: "'s zero_copy_output \<Rightarrow> int32 \<Rightarrow> uint64 \<Rightarrow> 's cos \<Rightarrow> 's cos option" where
  "WriteSFixed64 Z field_number value c =
     Option.bind (WriteTag Z field_number WIRETYPE_FIXED64 c) (WriteSFixed64NoTag Z value)"

definition WriteFloat :: "'s zero_copy_output \<Rightarrow> int32 \<Rightarrow> float32 \<Rightarrow> 's cos \<Rightarrow> 's cos option" where
  "WriteFloat Z field_number value c =
     Option.bind (WriteTag Z field_number WIRETYPE_FIXED32 c) (WriteFloatNoTag Z value)"

definition WriteDouble :: "'s zero_copy_output \<Rightarrow> int32 \<Rightarrow> uint64 \<Rightarrow> 's cos \<Rightarrow> 's cos option" where
  "WriteDouble Z field_number value c =
     Option.bind (WriteTag Z field_number WIRETYPE_FIXED64 c) (WriteDoubleNoTag Z value)"

definition WriteBool :: "'s zero_copy_output \<Rightarrow> int32 \<Rightarrow> bool \<Rightarrow> 's cos \<Rightarrow> 's cos option" where
  "WriteBool Z field_number value c =
     Option.bind (WriteTag Z field_number WIRETYPE_VARINT c) (WriteBoolNoTag Z value)"

definition WriteEnum :: "'s zero_copy_output \<Rightarrow> int32 \<Rightarrow> int32 \<Rightarrow> 's cos \<Rightarrow> 's cos option" where
  "WriteEnum Z field_number value c =
     Option.bind (WriteTag Z field_number WIRETYPE_VARINT c) (WriteEnumNoTag Z value)"

definition WriteString :: "'s zero_copy_output \<Rightarrow> int32 \<Rightarrow> bytes \<Rightarrow> 's cos \<Rightarrow> 's cos option" where
  "WriteString Z field_number value c =
     Option.bind (WriteTag Z field_number WIRETYPE_LENGTH_DELIMITED c) (\<lambda>c.
     Option.bind (Out_WriteVarint32 Z (of_nat (length value)) c) (Out_WriteString Z value))"

definition WriteBytes :: "'s zero_copy_output \<Rightarrow> int32 \<Rightarrow> bytes \<Rightarrow> 's cos \<Rightarrow> 's cos option" where
  "WriteBytes Z field_number value c =
     Option.bind (WriteTag Z field_number WIRETYPE_LENGTH_DELIMITED c) (\<lambda>c.
     Option.bind (Out_WriteVarint32 Z (of_nat (length value)) c) (Out_WriteString Z value))"

text \<open>
  Messages and groups: the cached size, the serialiser into an array and the one into a stream are
  those of the message class.
\<close>

definition WriteGroup :: "'s zero_copy_output \<Rightarrow> ('m \<Rightarrow> 's cos \<Rightarrow> 's cos option) \<Rightarrow> int32 \<Rightarrow> 'm \<Rightarrow> 's cos \<Rightarrow> 's cos option" where
  "WriteGroup Z SerializeWithCachedSizes field_number value c =
     Option.bind (WriteTag Z field_number WIRETYPE_START_GROUP c) (\<lambda>c.
     Option.bind (SerializeWithCachedSizes value c) (WriteTag Z field_number WIRETYPE_END_GROUP))"

definition WriteMessage ::
    "'s zero_copy_output \<Rightarrow> ('m \<Rightarrow> nat) \<Rightarrow> ('m \<Rightarrow> 's cos \<Rightarrow> 's cos option) \<Rightarrow> int32 \<Rightarrow> 'm \<Rightarrow> 's cos \<Rightarrow> 's cos option" where
  "WriteMessage Z GetCachedSize SerializeWithCachedSizes field_number value c =
     Option.bind (WriteTag Z field_number WIRETYPE_LENGTH_DELIMITED c) (\<lambda>c.
     Option.bind (Out_WriteVarint32 Z (of_nat (GetCachedSize value)) c) (SerializeWithCachedSizes value))"

text \<open>
  Straight into the buffer when it has room for the cached size, else through the stream. In
  memory an array serialiser that writes more than that would run over; such a write is \<open>None\<close>.
\<close>

definition into_buffer ::
    "'s zero_copy_output \<Rightarrow> ('m \<Rightarrow> bytes \<Rightarrow> bytes) \<Rightarrow> ('m \<Rightarrow> 's cos \<Rightarrow> 's cos option) \<Rightarrow> 'm \<Rightarrow> nat \<Rightarrow> 's cos \<Rightarrow> 's cos option" where
  "into_buffer Z SerializeWithCachedSizesToArray SerializeWithCachedSizes value n c =
     (case Out_GetDirectBufferForNBytesAndAdvance n c of
        (Some target, c) \<Rightarrow>
          let bytes = SerializeWithCachedSizesToArray value []
          in if length bytes = n then Some (c\<lparr>underlying := zc_store Z target bytes (underlying c)\<rparr>) else None
      | (None, c) \<Rightarrow> SerializeWithCachedSizes value c)"

definition WriteGroupMaybeToArray ::
    "'s zero_copy_output \<Rightarrow> ('m \<Rightarrow> nat) \<Rightarrow> ('m \<Rightarrow> bytes \<Rightarrow> bytes) \<Rightarrow> ('m \<Rightarrow> 's cos \<Rightarrow> 's cos option) \<Rightarrow>
      int32 \<Rightarrow> 'm \<Rightarrow> 's cos \<Rightarrow> 's cos option" where
  "WriteGroupMaybeToArray Z GetCachedSize SerializeWithCachedSizesToArray SerializeWithCachedSizes field_number value c =
     Option.bind (WriteTag Z field_number WIRETYPE_START_GROUP c) (\<lambda>c.
     Option.bind (into_buffer Z SerializeWithCachedSizesToArray SerializeWithCachedSizes value (GetCachedSize value) c)
       (WriteTag Z field_number WIRETYPE_END_GROUP))"

definition WriteMessageMaybeToArray ::
    "'s zero_copy_output \<Rightarrow> ('m \<Rightarrow> nat) \<Rightarrow> ('m \<Rightarrow> bytes \<Rightarrow> bytes) \<Rightarrow> ('m \<Rightarrow> 's cos \<Rightarrow> 's cos option) \<Rightarrow>
      int32 \<Rightarrow> 'm \<Rightarrow> 's cos \<Rightarrow> 's cos option" where
  "WriteMessageMaybeToArray Z GetCachedSize SerializeWithCachedSizesToArray SerializeWithCachedSizes field_number value c =
     Option.bind (WriteTag Z field_number WIRETYPE_LENGTH_DELIMITED c) (\<lambda>c.
     Option.bind (Out_WriteVarint32 Z (of_nat (GetCachedSize value)) c)
       (into_buffer Z SerializeWithCachedSizesToArray SerializeWithCachedSizes value (GetCachedSize value)))"

text \<open>Unknown fields.\<close>

fun SerializeUnknownField :: "'s zero_copy_output \<Rightarrow> unknown_field \<Rightarrow> 's cos \<Rightarrow> 's cos option"
and SerializeUnknownFields :: "'s zero_copy_output \<Rightarrow> unknown_field_set \<Rightarrow> 's cos \<Rightarrow> 's cos option" where
  "SerializeUnknownField Z (TYPE_VARINT n v) c =
     Option.bind (Out_WriteVarint32 Z (MakeTag (ucast n) WIRETYPE_VARINT) c) (Out_WriteVarint64 Z v)"
| "SerializeUnknownField Z (TYPE_FIXED32 n v) c =
     Option.bind (Out_WriteVarint32 Z (MakeTag (ucast n) WIRETYPE_FIXED32) c) (Out_WriteLittleEndian32 Z v)"
| "SerializeUnknownField Z (TYPE_FIXED64 n v) c =
     Option.bind (Out_WriteVarint32 Z (MakeTag (ucast n) WIRETYPE_FIXED64) c) (Out_WriteLittleEndian64 Z v)"
| "SerializeUnknownField Z (TYPE_LENGTH_DELIMITED n s) c =
     Option.bind (Out_WriteVarint32 Z (MakeTag (ucast n) WIRETYPE_LENGTH_DELIMITED) c) (\<lambda>c.
     Option.bind (Out_WriteVarint32 Z (of_nat (length s)) c) (Out_WriteString Z s))"
| "SerializeUnknownField Z (TYPE_GROUP n fs) c =
     Option.bind (Out_WriteVarint32 Z (MakeTag (ucast n) WIRETYPE_START_GROUP) c) (\<lambda>c.
     Option.bind (SerializeUnknownFields Z fs c) (Out_WriteVarint32 Z (MakeTag (ucast n) WIRETYPE_END_GROUP)))"
| "SerializeUnknownFields Z [] c = Some c"
| "SerializeUnknownFields Z (f # fs) c = Option.bind (SerializeUnknownField Z f c) (SerializeUnknownFields Z fs)"

section \<open>Delivery\<close>

context output_stream
begin

text \<open>
  The bytes a coded stream has written are those of the underlying stream without the rest of the
  current buffer. \<open>base\<close> is what the underlying stream held before.
\<close>

definition cos_ok :: "'s cos \<Rightarrow> bool" where
  "cos_ok c \<longleftrightarrow> ok (underlying c) \<and>
     (buffer_size c = 0 \<or> tail (underlying c) (buffer_ptr c) (buffer_size c) \<and> fits (underlying c) (length (content (underlying c)))) \<and>
     buffer_size c \<le> total_bytes c \<and> total_bytes c \<le> length (content (underlying c))"

definition sent :: "'s cos \<Rightarrow> bytes" where
  "sent c = take (length (content (underlying c)) - buffer_size c) (content (underlying c))"

definition base :: "'s cos \<Rightarrow> nat" where
  "base c = length (content (underlying c)) - total_bytes c"

definition delivers :: "('s cos \<Rightarrow> 's cos option) \<Rightarrow> bytes \<Rightarrow> bool" where
  "delivers f bs \<longleftrightarrow> (\<forall>c. cos_ok c \<longrightarrow> (\<exists>c'. f c = Some c' \<and> cos_ok c' \<and> fits (underlying c') = fits (underlying c) \<and>
     base c' = base c \<and> (had_error c \<longrightarrow> had_error c') \<and> (\<not> had_error c' \<longrightarrow> sent c' = sent c @ bs) \<and>
     (\<not> had_error c \<longrightarrow> (had_error c' \<longleftrightarrow> bs \<noteq> [] \<and> \<not> fits (underlying c) (length (sent c) + length bs)))))"

lemma buffer_le: "cos_ok c \<Longrightarrow> buffer_size c \<le> length (content (underlying c))"
  using tail_le by (auto simp: cos_ok_def)

lemma length_sent: "cos_ok c \<Longrightarrow> length (sent c) = length (content (underlying c)) - buffer_size c"
  by (simp add: sent_def)

text \<open>Copying what fits into the buffer and advancing.\<close>

lemma copy_advance:
  assumes "cos_ok c" "length bs \<le> buffer_size c"
  shows "cos_ok (Out_Advance (length bs) (copy_out Z bs c)) \<and>
    fits (underlying (Out_Advance (length bs) (copy_out Z bs c))) = fits (underlying c) \<and>
    sent (Out_Advance (length bs) (copy_out Z bs c)) = sent c @ bs \<and>
    length (content (underlying (Out_Advance (length bs) (copy_out Z bs c)))) = length (content (underlying c))"
proof (cases "buffer_size c = 0")
  case True
  then have "bs = []" using assms(2) by simp
  then show ?thesis using assms True by (simp add: cos_ok_def Out_Advance_def copy_out_def store_nothing sent_def)
next
  case False
  let ?s = "underlying c" and ?n = "buffer_size c"
  let ?s' = "zc_store Z (buffer_ptr c) bs ?s"
  have t: "ok ?s" "tail ?s (buffer_ptr c) ?n" "fits ?s (length (content ?s))" using assms(1) False by (simp_all add: cos_ok_def)
  have n: "?n \<le> length (content ?s)" by (rule tail_le [OF t(2)])
  note st = store [OF t(1,2) assms(2)]
  have l: "length (content ?s') = length (content ?s)" using st n assms(2) by simp
  have k: "length (content ?s) - (?n - length bs) = (length (content ?s) - ?n) + length bs" using n assms(2) by simp
  have "take (length (content ?s) - (?n - length bs)) (content ?s') = take (length (content ?s) - ?n) (content ?s) @ bs"
    using st n unfolding k by (simp add: store_at_def)
  then show ?thesis
    using st l t(3) assms by (auto simp: cos_ok_def Out_Advance_def copy_out_def sent_def)
qed

lemma base_copy_advance:
  assumes "cos_ok c" "length bs \<le> buffer_size c"
  shows "base (Out_Advance (length bs) (copy_out Z bs c)) = base c"
  using copy_advance [OF assms] by (simp add: base_def Out_Advance_def copy_out_def)

lemma deliversI_copy:
  assumes "cos_ok c" "length bs \<le> buffer_size c"
  shows "\<exists>c'. Some (Out_Advance (length bs) (copy_out Z bs c)) = Some c' \<and> cos_ok c' \<and> fits (underlying c') = fits (underlying c) \<and>
     base c' = base c \<and> (had_error c \<longrightarrow> had_error c') \<and> (\<not> had_error c' \<longrightarrow> sent c' = sent c @ bs) \<and>
     (\<not> had_error c \<longrightarrow> (had_error c' \<longleftrightarrow> bs \<noteq> [] \<and> \<not> fits (underlying c) (length (sent c) + length bs)))"
proof -
  let ?c = "Out_Advance (length bs) (copy_out Z bs c)"
  have e: "had_error ?c = had_error c" by (simp add: Out_Advance_def copy_out_def)
  have "fits (underlying c) (length (sent c) + length bs)" if "bs \<noteq> []"
  proof -
    have "fits (underlying c) (length (content (underlying c)))" using assms that by (auto simp: cos_ok_def)
    then show ?thesis
      by (rule fits_mono) (use assms buffer_le [OF assms(1)] in \<open>simp add: length_sent\<close>)
  qed
  then show ?thesis using copy_advance [OF assms] base_copy_advance [OF assms] e by auto
qed

lemma refresh_ok:
  assumes "cos_ok c" "buffer_size c = 0"
  shows "case Out_Refresh Z c of
      (True, c') \<Rightarrow> cos_ok c' \<and> fits (underlying c') = fits (underlying c) \<and> base c' = base c \<and> had_error c' = had_error c \<and>
        sent c' = sent c \<and> 0 < buffer_size c'
    | (False, c') \<Rightarrow> cos_ok c' \<and> fits (underlying c') = fits (underlying c) \<and> base c' = base c \<and> had_error c' \<and>
        sent c' = sent c \<and> \<not> fits (underlying c) (Suc (length (sent c)))"
proof -
  obtain r s' where nx: "zc_Next Z (underlying c) = (r, s')" by (cases "zc_Next Z (underlying c)")
  have o: "ok (underlying c)" using assms by (simp add: cos_ok_def)
  show ?thesis
  proof (cases r)
    case None
    then show ?thesis
      using next_none [OF o, of s'] nx assms by (simp add: Out_Refresh_def cos_ok_def base_def sent_def)
  next
    case (Some pn)
    obtain p n where pn: "pn = (p, n)" by (cases pn)
    obtain junk where "length junk = n" "content s' = content (underlying c) @ junk" "ok s'" "0 < n" "tail s' p n"
        "fits s' = fits (underlying c)" "fits (underlying c) (length (content (underlying c)) + n)"
      using next_some [OF o, of p n s'] nx Some pn by blast
    then show ?thesis
      using nx Some pn assms by (simp add: Out_Refresh_def cos_ok_def base_def sent_def)
  qed
qed

lemma WriteRaw_delivers: "delivers (Out_WriteRaw Z data) data"
  unfolding delivers_def
proof (intro allI impI)
  fix c assume "cos_ok c"
  then show "\<exists>c'. Out_WriteRaw Z data c = Some c' \<and> cos_ok c' \<and> fits (underlying c') = fits (underlying c) \<and>
     base c' = base c \<and> (had_error c \<longrightarrow> had_error c') \<and> (\<not> had_error c' \<longrightarrow> sent c' = sent c @ data) \<and>
     (\<not> had_error c \<longrightarrow> (had_error c' \<longleftrightarrow> data \<noteq> [] \<and> \<not> fits (underlying c) (length (sent c) + length data)))"
  proof (induction "2 * length data + (if buffer_size c = 0 then 1 else 0)" arbitrary: data c rule: less_induct)
    case less
    show ?case
    proof (cases "buffer_size c < length data")
      case False
      then have "Out_WriteRaw Z data c = Some (Out_Advance (length data) (copy_out Z data c))"
        by (subst Out_WriteRaw.simps) simp
      then show ?thesis using deliversI_copy [OF less.prems] False by simp
    next
      case True
      let ?bs = "take (buffer_size c) data"
      let ?rest = "drop (buffer_size c) data"
      let ?c1 = "Out_Advance (length ?bs) (copy_out Z ?bs c)"
      have b: "length ?bs = buffer_size c" using True by simp
      have d: "data = ?bs @ ?rest" "data \<noteq> []" "?rest \<noteq> []" using True by auto
      have c1: "cos_ok ?c1" "fits (underlying ?c1) = fits (underlying c)" "sent ?c1 = sent c @ ?bs" "base ?c1 = base c" "buffer_size ?c1 = 0"
        using copy_advance [OF less.prems, of ?bs] base_copy_advance [OF less.prems, of ?bs] b
        by (simp_all add: Out_Advance_def copy_out_def)
      have lc: "length (sent ?c1) = length (sent c) + buffer_size c" using arg_cong [OF c1(3), of length] by (simp only: length_append b)
      have e1: "had_error ?c1 = had_error c" by (simp add: Out_Advance_def copy_out_def)
      have r1: "Out_Refresh Z (copy_out Z ?bs c) = Out_Refresh Z ?c1"
        by (auto simp: Out_Refresh_def Out_Advance_def copy_out_def split: prod.splits option.splits)
      obtain ok2 c2 where r: "Out_Refresh Z ?c1 = (ok2, c2)" by (cases "Out_Refresh Z ?c1")
      note r2 = refresh_ok [OF c1(1,5), unfolded r]
      show ?thesis
      proof (cases ok2)
        case False
        then have u: "Out_WriteRaw Z data c = Some c2" using True r by (subst Out_WriteRaw.simps) (simp add: r1)
        have "\<not> fits (underlying c) (length (sent c) + length data)"
        proof
          assume "fits (underlying c) (length (sent c) + length data)"
          then have "fits (underlying c) (Suc (length (sent ?c1)))"
            by (rule fits_mono) (use True lc in linarith)
          then show False using r2 False c1(2) by simp
        qed
        then show ?thesis using u r2 False c1 e1 d(2) by simp
      next
        case Tr: True
        then have c2: "cos_ok c2" "fits (underlying c2) = fits (underlying c)" "base c2 = base c" "had_error c2 = had_error c"
            "sent c2 = sent c @ ?bs" "0 < buffer_size c2" using r2 c1 e1 by simp_all
        have u: "Out_WriteRaw Z data c = Out_WriteRaw Z ?rest c2" using True r Tr by (subst Out_WriteRaw.simps) (simp add: r1)
        have m: "2 * length ?rest + (if buffer_size c2 = 0 then 1 else 0) < 2 * length data + (if buffer_size c = 0 then 1 else 0)"
          using c2(6) True by auto
        obtain c' where c': "Out_WriteRaw Z ?rest c2 = Some c'" "cos_ok c'" "fits (underlying c') = fits (underlying c2)"
            "base c' = base c2" "had_error c2 \<longrightarrow> had_error c'" "\<not> had_error c' \<longrightarrow> sent c' = sent c2 @ ?rest"
            "\<not> had_error c2 \<longrightarrow> (had_error c' \<longleftrightarrow> ?rest \<noteq> [] \<and> \<not> fits (underlying c2) (length (sent c2) + length ?rest))"
          using less.hyps [OF m c2(1)] by blast
        have "length (sent c2) + length ?rest = length (sent c) + length data" using True by (simp add: c2(5))
        then show ?thesis using u c' c2(2-5) d(2,3) by simp
      qed
    qed
  qed
qed

lemma delivers_cong: "delivers f bs \<Longrightarrow> bs = bs' \<Longrightarrow> delivers f bs'"
  by simp

lemma delivers_nothing: "delivers Some []"
  by (simp add: delivers_def)

lemma delivers_bind:
  assumes f: "delivers f bs" and g: "delivers g cs"
  shows "delivers (\<lambda>c. Option.bind (f c) g) (bs @ cs)"
  unfolding delivers_def
proof (intro allI impI)
  fix c assume c: "cos_ok c"
  obtain c1 where 1: "f c = Some c1" "cos_ok c1" "fits (underlying c1) = fits (underlying c)" "base c1 = base c"
      "had_error c \<longrightarrow> had_error c1" "\<not> had_error c1 \<longrightarrow> sent c1 = sent c @ bs"
      "\<not> had_error c \<longrightarrow> (had_error c1 \<longleftrightarrow> bs \<noteq> [] \<and> \<not> fits (underlying c) (length (sent c) + length bs))"
    using f c unfolding delivers_def by blast
  obtain c2 where 2: "g c1 = Some c2" "cos_ok c2" "fits (underlying c2) = fits (underlying c1)" "base c2 = base c1"
      "had_error c1 \<longrightarrow> had_error c2" "\<not> had_error c2 \<longrightarrow> sent c2 = sent c1 @ cs"
      "\<not> had_error c1 \<longrightarrow> (had_error c2 \<longleftrightarrow> cs \<noteq> [] \<and> \<not> fits (underlying c1) (length (sent c1) + length cs))"
    using g 1(2) unfolding delivers_def by blast
  have m: "fits (underlying c) (length (sent c) + length bs)" if "fits (underlying c) (length (sent c) + (length bs + length cs))"
    using that by (rule fits_mono) simp
  have "had_error c2 \<longleftrightarrow> bs @ cs \<noteq> [] \<and> \<not> fits (underlying c) (length (sent c) + length (bs @ cs))" if "\<not> had_error c"
  proof (cases "had_error c1")
    case True
    then show ?thesis using 1(7) 2(5) that m by auto
  next
    case False
    then have s: "sent c1 = sent c @ bs" using 1(6) by blast
    have "cs = [] \<Longrightarrow> bs \<noteq> [] \<Longrightarrow> fits (underlying c) (length (sent c) + length bs)" using 1(7) that False by blast
    then show ?thesis using 2(7) False 1(3) by (auto simp: s add.assoc)
  qed
  then show "\<exists>c'. Option.bind (f c) g = Some c' \<and> cos_ok c' \<and> fits (underlying c') = fits (underlying c) \<and>
     base c' = base c \<and> (had_error c \<longrightarrow> had_error c') \<and> (\<not> had_error c' \<longrightarrow> sent c' = sent c @ (bs @ cs)) \<and>
     (\<not> had_error c \<longrightarrow> (had_error c' \<longleftrightarrow> bs @ cs \<noteq> [] \<and> \<not> fits (underlying c) (length (sent c) + length (bs @ cs))))"
    using 1 2 by auto
qed

lemma delivers_copy:
  assumes "\<And>c. n \<le> buffer_size c \<Longrightarrow> f c = Some (Out_Advance (length bs) (copy_out Z bs c))"
    and "\<And>c. \<not> n \<le> buffer_size c \<Longrightarrow> f c = Out_WriteRaw Z bs c" and "length bs \<le> n"
  shows "delivers f bs"
  unfolding delivers_def
proof (intro allI impI)
  fix c assume c: "cos_ok c"
  show "\<exists>c'. f c = Some c' \<and> cos_ok c' \<and> fits (underlying c') = fits (underlying c) \<and>
     base c' = base c \<and> (had_error c \<longrightarrow> had_error c') \<and> (\<not> had_error c' \<longrightarrow> sent c' = sent c @ bs) \<and>
     (\<not> had_error c \<longrightarrow> (had_error c' \<longleftrightarrow> bs \<noteq> [] \<and> \<not> fits (underlying c) (length (sent c) + length bs)))"
  proof (cases "n \<le> buffer_size c")
    case True
    then show ?thesis using deliversI_copy [OF c, of bs] assms(1) [OF True] assms(3) by simp
  next
    case False
    then show ?thesis using WriteRaw_delivers [of bs] c assms(2) [OF False] unfolding delivers_def by simp
  qed
qed

subsection \<open>Numbers and strings\<close>

lemma enc_fixed_lengths: "length (enc_fixed32 v) = 4" "length (enc_fixed64 w) = 8"
  by (simp_all add: enc_fixed32_def enc_fixed64_def)

lemma WriteLittleEndian32_delivers: "delivers (Out_WriteLittleEndian32 Z v) (enc_fixed32 v)"
  by (rule delivers_copy [where n = 4]) (simp_all add: Out_WriteLittleEndian32_def WriteLittleEndian32ToArray_eq enc_fixed_lengths)

lemma WriteLittleEndian64_delivers: "delivers (Out_WriteLittleEndian64 Z v) (enc_fixed64 v)"
  by (rule delivers_copy [where n = 8]) (simp_all add: Out_WriteLittleEndian64_def WriteLittleEndian64ToArray_eq enc_fixed_lengths)

lemma length_varint_32: "length (varint (unat v)) \<le> 5" for v :: uint32
proof -
  have "length (varint (unat v)) \<le> Suc 4" by (rule length_varint_le) (rule less_trans [OF unsigned_less], simp_all)
  then show ?thesis by simp
qed

lemma length_varint_64: "length (varint (unat v)) \<le> 10" for v :: uint64
proof -
  have "length (varint (unat v)) \<le> Suc 9" by (rule length_varint_le) (rule less_trans [OF unsigned_less], simp_all)
  then show ?thesis by simp
qed

lemma WriteVarint32_delivers: "delivers (Out_WriteVarint32 Z v) (varint (unat v))"
proof (rule delivers_copy [where n = kMaxVarint32Bytes])
  have "unat (ucast v :: uint64) = unat v" using unsigned_less [of v, where 'a = nat] by (simp add: unsigned_ucast_eq take_bit_nat_eq_self)
  moreover have "unat v < 128 ^ 5" by (rule less_trans [OF unsigned_less]) simp
  ultimately have "WriteVarint_compose (ucast v) kMaxVarint32Bytes = varint (unat v)"
    using WriteVarint_compose_eq [of "ucast v" 5] by (simp add: kMaxVarint32Bytes_def)
  then show "\<not> kMaxVarint32Bytes \<le> buffer_size c \<Longrightarrow> Out_WriteVarint32 Z v c = Out_WriteRaw Z (varint (unat v)) c" for c :: "'s cos"
    by (simp add: Out_WriteVarint32_def)
qed (use length_varint_32 in \<open>simp_all add: Out_WriteVarint32_def WriteVarint32FallbackToArrayInline_eq Let_def kMaxVarint32Bytes_def\<close>)

lemma WriteVarint64_delivers: "delivers (Out_WriteVarint64 Z v) (varint (unat v))"
proof (rule delivers_copy [where n = kMaxVarintBytes])
  have "unat v < 128 ^ 10" by (rule less_trans [OF unsigned_less]) simp
  then have "WriteVarint_compose v kMaxVarintBytes = varint (unat v)"
    using WriteVarint_compose_eq [of v 10] by (simp add: kMaxVarintBytes_def)
  then show "\<not> kMaxVarintBytes \<le> buffer_size c \<Longrightarrow> Out_WriteVarint64 Z v c = Out_WriteRaw Z (varint (unat v)) c" for c :: "'s cos"
    by (simp add: Out_WriteVarint64_def)
qed (use length_varint_64 in \<open>simp_all add: Out_WriteVarint64_def WriteVarint64ToArray_eq [unfolded WriteVarint64ToArray_def] Let_def kMaxVarintBytes_def\<close>)

lemma WriteVarint32SignExtended_delivers: "delivers (Out_WriteVarint32SignExtended Z v) (enc_int32 v)"
  using WriteVarint64_delivers [of "scast v"] WriteVarint32_delivers [of v]
  by (cases "sint v < 0") (simp_all add: Out_WriteVarint32SignExtended_def [abs_def] enc_int32_def unat_scast_nonneg)

lemmas number_delivers = WriteLittleEndian32_delivers WriteLittleEndian64_delivers WriteVarint32_delivers
  WriteVarint64_delivers WriteVarint32SignExtended_delivers

lemma WriteTag_delivers: "delivers (WriteTag Z fn type) (enc_tag fn type)"
  using WriteVarint32_delivers [of "MakeTag fn type"] by (simp add: WriteTag_def [abs_def] Out_WriteTag_def enc_tag_def)

lemma WriteBool_varint: "varint (unat (if v then 1 else 0 :: uint32)) = enc_bool v"
  by (simp add: enc_bool_def varint.simps last_byte_def)

lemma NoTag_delivers:
  "delivers (WriteInt32NoTag Z v) (enc_int32 v)"
  "delivers (WriteInt64NoTag Z w) (varint (unat w))"
  "delivers (WriteUInt32NoTag Z v) (enc_uint32 v)"
  "delivers (WriteUInt64NoTag Z w) (varint (unat w))"
  "delivers (WriteSInt32NoTag Z v) (enc_uint32 (ZigZagEncode32 v))"
  "delivers (WriteSInt64NoTag Z w) (varint (unat (ZigZagEncode64 w)))"
  "delivers (WriteFixed32NoTag Z v) (enc_fixed32 v)"
  "delivers (WriteFixed64NoTag Z w) (enc_fixed64 w)"
  "delivers (WriteSFixed32NoTag Z v) (enc_fixed32 v)"
  "delivers (WriteSFixed64NoTag Z w) (enc_fixed64 w)"
  "delivers (WriteFloatNoTag Z v) (enc_fixed32 v)"
  "delivers (WriteDoubleNoTag Z w) (enc_fixed64 w)"
  "delivers (WriteBoolNoTag Z b) (enc_bool b)"
  "delivers (WriteEnumNoTag Z v) (enc_int32 v)"
  using number_delivers WriteVarint32_delivers [of "if b then 1 else 0"]
  by (simp_all add: WriteBool_varint enc_uint32_def WriteInt32NoTag_def [abs_def] WriteInt64NoTag_def [abs_def] WriteUInt32NoTag_def [abs_def] WriteUInt64NoTag_def [abs_def] WriteSInt32NoTag_def [abs_def] WriteSInt64NoTag_def [abs_def] WriteFixed32NoTag_def [abs_def] WriteFixed64NoTag_def [abs_def] WriteSFixed32NoTag_def [abs_def] WriteSFixed64NoTag_def [abs_def] WriteFloatNoTag_def [abs_def] WriteDoubleNoTag_def [abs_def] WriteBoolNoTag_def [abs_def] WriteEnumNoTag_def [abs_def])

lemma field_delivers:
  "delivers (WriteInt32 Z fn v) (enc_tag fn WIRETYPE_VARINT @ enc_int32 v)"
  "delivers (WriteInt64 Z fn w) (enc_tag fn WIRETYPE_VARINT @ varint (unat w))"
  "delivers (WriteUInt32 Z fn v) (enc_tag fn WIRETYPE_VARINT @ enc_uint32 v)"
  "delivers (WriteUInt64 Z fn w) (enc_tag fn WIRETYPE_VARINT @ varint (unat w))"
  "delivers (WriteSInt32 Z fn v) (enc_tag fn WIRETYPE_VARINT @ enc_uint32 (ZigZagEncode32 v))"
  "delivers (WriteSInt64 Z fn w) (enc_tag fn WIRETYPE_VARINT @ varint (unat (ZigZagEncode64 w)))"
  "delivers (WriteFixed32 Z fn v) (enc_tag fn WIRETYPE_FIXED32 @ enc_fixed32 v)"
  "delivers (WriteFixed64 Z fn w) (enc_tag fn WIRETYPE_FIXED64 @ enc_fixed64 w)"
  "delivers (WriteSFixed32 Z fn v) (enc_tag fn WIRETYPE_FIXED32 @ enc_fixed32 v)"
  "delivers (WriteSFixed64 Z fn w) (enc_tag fn WIRETYPE_FIXED64 @ enc_fixed64 w)"
  "delivers (WriteFloat Z fn v) (enc_tag fn WIRETYPE_FIXED32 @ enc_fixed32 v)"
  "delivers (WriteDouble Z fn w) (enc_tag fn WIRETYPE_FIXED64 @ enc_fixed64 w)"
  "delivers (WriteBool Z fn b) (enc_tag fn WIRETYPE_VARINT @ enc_bool b)"
  "delivers (WriteEnum Z fn v) (enc_tag fn WIRETYPE_VARINT @ enc_int32 v)"
  unfolding WriteInt32_def [abs_def] WriteInt64_def [abs_def] WriteUInt32_def [abs_def] WriteUInt64_def [abs_def] WriteSInt32_def [abs_def] WriteSInt64_def [abs_def] WriteFixed32_def [abs_def] WriteFixed64_def [abs_def] WriteSFixed32_def [abs_def] WriteSFixed64_def [abs_def] WriteFloat_def [abs_def] WriteDouble_def [abs_def] WriteBool_def [abs_def] WriteEnum_def [abs_def]
  by (intro delivers_bind WriteTag_delivers NoTag_delivers)+

lemma string_delivers:
  "delivers (WriteString Z fn s) (enc_tag fn WIRETYPE_LENGTH_DELIMITED @ enc_bytes s)"
  "delivers (WriteBytes Z fn s) (enc_tag fn WIRETYPE_LENGTH_DELIMITED @ enc_bytes s)"
  unfolding WriteString_def [abs_def] WriteBytes_def [abs_def] enc_bytes_def Out_WriteString_def [abs_def]
  by (intro delivers_bind WriteTag_delivers WriteVarint32_delivers WriteRaw_delivers)+

subsection \<open>Messages, groups and unknown fields\<close>

lemma into_buffer_delivers:
  assumes "delivers (ser m) bs" "toArray m [] = bs" "n = length bs"
  shows "delivers (into_buffer Z toArray ser m n) bs"
  unfolding delivers_def
proof (intro allI impI)
  fix c assume c: "cos_ok c"
  show "\<exists>c'. into_buffer Z toArray ser m n c = Some c' \<and> cos_ok c' \<and> fits (underlying c') = fits (underlying c) \<and>
     base c' = base c \<and> (had_error c \<longrightarrow> had_error c') \<and> (\<not> had_error c' \<longrightarrow> sent c' = sent c @ bs) \<and>
     (\<not> had_error c \<longrightarrow> (had_error c' \<longleftrightarrow> bs \<noteq> [] \<and> \<not> fits (underlying c) (length (sent c) + length bs)))"
  proof (cases "n \<le> buffer_size c")
    case True
    have "into_buffer Z toArray ser m n c = Some (Out_Advance (length bs) (copy_out Z bs c))"
      using True assms(2,3) by (simp add: into_buffer_def Out_GetDirectBufferForNBytesAndAdvance_def Out_Advance_def copy_out_def)
    then show ?thesis using deliversI_copy [OF c, of bs] True assms(3) by simp
  next
    case False
    then have "into_buffer Z toArray ser m n c = ser m c" by (simp add: into_buffer_def Out_GetDirectBufferForNBytesAndAdvance_def)
    then show ?thesis using assms(1) c unfolding delivers_def by simp
  qed
qed

lemma message_delivers:
  assumes "delivers (ser m) bs" "toArray m [] = bs" "cached m = length bs"
  shows "delivers (WriteMessageMaybeToArray Z cached toArray ser fn m)
      (enc_tag fn WIRETYPE_LENGTH_DELIMITED @ varint (unat (of_nat (length bs) :: uint32)) @ bs)"
    "delivers (WriteMessage Z cached ser fn m)
      (enc_tag fn WIRETYPE_LENGTH_DELIMITED @ varint (unat (of_nat (length bs) :: uint32)) @ bs)"
    "delivers (WriteGroupMaybeToArray Z cached toArray ser fn m) (enc_tag fn WIRETYPE_START_GROUP @ bs @ enc_tag fn WIRETYPE_END_GROUP)"
    "delivers (WriteGroup Z ser fn m) (enc_tag fn WIRETYPE_START_GROUP @ bs @ enc_tag fn WIRETYPE_END_GROUP)"
  unfolding WriteMessageMaybeToArray_def [abs_def] WriteMessage_def [abs_def] WriteGroupMaybeToArray_def [abs_def] WriteGroup_def [abs_def] assms(3)
  by (intro delivers_bind WriteTag_delivers WriteVarint32_delivers into_buffer_delivers assms(1,2) refl)+

lemma unknown_delivers:
  "delivers (SerializeUnknownField Z f) (SerializeUnknownFieldToArray f [])"
  "delivers (SerializeUnknownFields Z fs) (SerializeUnknownFieldsToArray fs [])"
proof (induction f and fs rule: ComputeUnknownFieldSize_ComputeUnknownFieldsSize.induct)
  case (5 n fs)
  have "SerializeUnknownFieldToArray (TYPE_GROUP n fs) [] =
      enc_tag (ucast n) WIRETYPE_START_GROUP @ SerializeUnknownFieldsToArray fs [] @ enc_tag (ucast n) WIRETYPE_END_GROUP"
    using SerializeUnknown_append(2) [of fs "enc_tag (ucast n) WIRETYPE_START_GROUP"] by (simp add: wire)
  then show ?case
    unfolding SerializeUnknownField.simps [abs_def] enc_tag_def by (simp only:) (intro delivers_bind WriteVarint32_delivers 5)
next
  case (7 f fs)
  have "SerializeUnknownFieldsToArray (f # fs) [] = SerializeUnknownFieldToArray f [] @ SerializeUnknownFieldsToArray fs []"
    using SerializeUnknown_append(2) [of fs "SerializeUnknownFieldToArray f []"] by simp
  then show ?case unfolding SerializeUnknownFields.simps [abs_def] by (simp only:) (intro delivers_bind 7)
qed (simp_all add: wire enc_tag_def enc_bytes_def Out_WriteString_def [abs_def] delivers_nothing delivers_bind
    WriteVarint32_delivers WriteVarint64_delivers WriteLittleEndian32_delivers WriteLittleEndian64_delivers WriteRaw_delivers)

subsection \<open>Building, skipping and closing a coded stream\<close>

lemma CodedOutputStream_new_ok:
  assumes "ok s"
  shows "cos_ok (CodedOutputStream_new Z s)" "sent (CodedOutputStream_new Z s) = content s"
    "fits (underlying (CodedOutputStream_new Z s)) = fits s" "\<not> had_error (CodedOutputStream_new Z s)"
    "base (CodedOutputStream_new Z s) = length (content s)"
proof -
  let ?c = "\<lparr>underlying = s, buffer_ptr = 0, buffer_size = 0, total_bytes = 0, had_error = False\<rparr>"
  have c: "cos_ok ?c" using assms by (simp add: cos_ok_def)
  obtain b c' where r: "Out_Refresh Z ?c = (b, c')" by (cases "Out_Refresh Z ?c")
  have "cos_ok c' \<and> fits (underlying c') = fits s \<and> base c' = base ?c \<and> sent c' = sent ?c"
    using refresh_ok [OF c] r by (cases b) simp_all
  then show "cos_ok (CodedOutputStream_new Z s)" "sent (CodedOutputStream_new Z s) = content s"
    "fits (underlying (CodedOutputStream_new Z s)) = fits s" "\<not> had_error (CodedOutputStream_new Z s)"
    "base (CodedOutputStream_new Z s) = length (content s)"
    by (simp_all add: CodedOutputStream_new_def r) (auto simp: cos_ok_def sent_def base_def)
qed

lemma CodedOutputStream_delete_ok:
  assumes "cos_ok c"
  shows "\<exists>s'. CodedOutputStream_delete Z c = Some s' \<and> ok s' \<and> content s' = sent c \<and> fits s' = fits (underlying c)"
proof (cases "buffer_size c = 0")
  case True
  then show ?thesis using assms by (simp add: CodedOutputStream_delete_def cos_ok_def sent_def)
next
  case False
  then show ?thesis
    using back_up [of "underlying c" "buffer_ptr c" "buffer_size c"] assms by (auto simp: CodedOutputStream_delete_def cos_ok_def sent_def)
qed

lemma ByteCount_base: "cos_ok c \<Longrightarrow> Out_ByteCount c + base c = length (sent c)"
  by (simp add: Out_ByteCount_def base_def length_sent) (simp add: cos_ok_def)

lemma GetDirectBufferPointer_ok:
  assumes "cos_ok c"
  shows "case Out_GetDirectBufferPointer Z c of
      (Some (p, n), c') \<Rightarrow> cos_ok c' \<and> sent c' = sent c \<and> 0 < n \<and> tail (underlying c') p n
    | (None, c') \<Rightarrow> cos_ok c' \<and> sent c' = sent c \<and> had_error c' \<and> \<not> fits (underlying c) (Suc (length (sent c)))"
proof (cases "buffer_size c = 0")
  case True
  obtain b c' where r: "Out_Refresh Z c = (b, c')" by (cases "Out_Refresh Z c")
  show ?thesis using refresh_ok [OF assms True] r True by (cases b) (auto simp: Out_GetDirectBufferPointer_def cos_ok_def)
next
  case False
  then show ?thesis using assms by (simp add: Out_GetDirectBufferPointer_def cos_ok_def)
qed

lemma advance_ok:
  assumes "cos_ok c" "n \<le> buffer_size c"
  shows "cos_ok (Out_Advance n c)" "length (sent (Out_Advance n c)) = length (sent c) + n"
    "take (length (sent c)) (sent (Out_Advance n c)) = sent c"
    "fits (underlying (Out_Advance n c)) = fits (underlying c)"
proof -
  have l: "buffer_size c \<le> length (content (underlying c))" by (rule buffer_le [OF assms(1)])
  then have k: "length (content (underlying c)) - (buffer_size c - n) = length (content (underlying c)) - buffer_size c + n"
      "length (content (underlying c)) - buffer_size c + n \<le> length (content (underlying c))" using assms(2) by simp_all
  show "cos_ok (Out_Advance n c)" using assms tail_rest [of "underlying c" "buffer_ptr c" "buffer_size c" n]
    by (auto simp: cos_ok_def Out_Advance_def)
  show "length (sent (Out_Advance n c)) = length (sent c) + n" "take (length (sent c)) (sent (Out_Advance n c)) = sent c"
    "fits (underlying (Out_Advance n c)) = fits (underlying c)"
    using k(2) by (simp_all add: sent_def Out_Advance_def k(1) min_absorb2)
qed

text \<open>Skipping leaves the bytes of the buffers as they are and fails only where there is no room.\<close>

lemma Skip_loop_ok:
  assumes "cos_ok c"
  shows "\<exists>done c'. Out_Skip_loop Z count c = Some (done, c') \<and> cos_ok c' \<and>
    (if done then length (sent c') = length (sent c) + count \<and> take (length (sent c)) (sent c') = sent c
     else \<not> fits (underlying c) (length (sent c) + count))"
  using assms
proof (induction "2 * count + (if buffer_size c = 0 then 1 else 0)" arbitrary: count c rule: less_induct)
  case less
  show ?case
  proof (cases "buffer_size c < count")
    case False
    then have "Out_Skip_loop Z count c = Some (True, Out_Advance count c)" by (subst Out_Skip_loop.simps) simp
    then show ?thesis using advance_ok [OF less.prems, of count] False by auto
  next
    case True
    let ?c1 = "Out_Advance (buffer_size c) c"
    have c1: "cos_ok ?c1" "length (sent ?c1) = length (sent c) + buffer_size c" "take (length (sent c)) (sent ?c1) = sent c"
        "fits (underlying ?c1) = fits (underlying c)" "buffer_size ?c1 = 0"
      using advance_ok [OF less.prems, of "buffer_size c"] by (simp_all add: Out_Advance_def)
    have r1: "Out_Refresh Z c = Out_Refresh Z ?c1"
      by (auto simp: Out_Refresh_def Out_Advance_def split: prod.splits option.splits)
    obtain ok2 c2 where r: "Out_Refresh Z ?c1 = (ok2, c2)" by (cases "Out_Refresh Z ?c1")
    note r2 = refresh_ok [OF c1(1,5), unfolded r]
    show ?thesis
    proof (cases ok2)
      case False
      then have u: "Out_Skip_loop Z count c = Some (False, c2)" using True r by (subst Out_Skip_loop.simps) (simp add: r1)
      have "\<not> fits (underlying c) (length (sent c) + count)"
      proof
        assume "fits (underlying c) (length (sent c) + count)"
        then have "fits (underlying c) (Suc (length (sent ?c1)))" by (rule fits_mono) (use True c1(2) in linarith)
        then show False using r2 False c1(4) by simp
      qed
      then show ?thesis using u r2 False by auto
    next
      case Tr: True
      then have c2: "cos_ok c2" "fits (underlying c2) = fits (underlying c)" "sent c2 = sent ?c1" "0 < buffer_size c2"
        using r2 c1(4) by simp_all
      have u: "Out_Skip_loop Z count c = Out_Skip_loop Z (count - buffer_size c) c2"
        using True r Tr by (subst Out_Skip_loop.simps) (simp add: r1)
      have m: "2 * (count - buffer_size c) + (if buffer_size c2 = 0 then 1 else 0) < 2 * count + (if buffer_size c = 0 then 1 else 0)"
        using c2(4) True by auto
      obtain d c' where c': "Out_Skip_loop Z (count - buffer_size c) c2 = Some (d, c')" "cos_ok c'"
          "if d then length (sent c') = length (sent c2) + (count - buffer_size c) \<and> take (length (sent c2)) (sent c') = sent c2
           else \<not> fits (underlying c2) (length (sent c2) + (count - buffer_size c))"
        using less.hyps [OF m c2(1)] by blast
      have l: "length (sent c2) + (count - buffer_size c) = length (sent c) + count" using True c1(2) c2(3) by simp
      have "take (length (sent c)) (sent c') = sent c" if "take (length (sent c2)) (sent c') = sent c2"
        using arg_cong [OF that, of "take (length (sent c))"] c1(2,3) c2(3) by (simp add: min_def)
      then show ?thesis using u c' l c2(2) by (auto split: if_splits)
    qed
  qed
qed

end

section \<open>Zig-zag\<close>

lemma neg_lsb: "- (w AND 1) = (if bit w 0 then - 1 else 0)" for w :: "'a::len word"
  by (simp add: and_one_eq odd_iff_mod_2_eq_one bit_0)

lemma zigzag_round_trip:
  fixes n :: "'a::len word"
  assumes "k = LENGTH('a) - 1"
  shows "drop_bit 1 (push_bit 1 n XOR signed_drop_bit k n) XOR (- ((push_bit 1 n XOR signed_drop_bit k n) AND 1)) = n"
proof -
  define w where "w = (push_bit 1 n XOR signed_drop_bit k n)"
  have b: "bit w j \<longleftrightarrow> j < LENGTH('a) \<and> ((1 \<le> j \<and> bit n (j - 1)) \<noteq> bit n k)" for j
    unfolding w_def bit_xor_iff bit_push_bit_iff bit_signed_drop_bit_iff using assms by (cases "j = 0") (auto dest: bit_imp_le_length)
  have s: "bit w 0 \<longleftrightarrow> bit n k" unfolding b by simp
  have "drop_bit 1 w XOR (- (w AND 1)) = n"
  proof (rule bit_word_eqI)
    fix j assume j: "j < LENGTH('a)"
    have k: "j = k" if "\<not> Suc j < LENGTH('a)" using that j assms by linarith
    have d: "bit (drop_bit 1 w) j = (Suc j < LENGTH('a) \<and> (bit n j \<noteq> bit n k))"
      using b [of "Suc j"] by (simp add: bit_drop_bit_eq)
    show "bit (drop_bit 1 w XOR (- (w AND 1))) j = bit n j"
      unfolding neg_lsb s bit_xor_iff d using j k by (cases "Suc j < LENGTH('a)") auto
  qed
  then show ?thesis unfolding w_def .
qed

lemma ZigZag_round_trip: "ZigZagDecode32 (ZigZagEncode32 v) = v" "ZigZagDecode64 (ZigZagEncode64 w) = w"
  unfolding ZigZagDecode32_def ZigZagEncode32_def ZigZagDecode64_def ZigZagEncode64_def by (rule zigzag_round_trip, simp)+

end
