(* ===== verification/Message_Streams.thy ===== *)
theory Message_Streams
  imports Coded_Output Wire_Messages
begin

text \<open>
  Messages written to a stream: the generated \<^verbatim>\<open>SerializeWithCachedSizes\<close> functions of \<^verbatim>\<open>message.pb.cc\<close>
  over a coded stream, and the stream functions of \<^verbatim>\<open>MessageLite\<close> (\<^verbatim>\<open>message_lite.cc\<close>). The last section
  shows that a stream with room for the message receives exactly the bytes that the array
  serialisers produce, and that a stream without room for it makes the call return false.
\<close>

section \<open>The generated serialisers\<close>

fun write_each :: "('m \<Rightarrow> 's cos \<Rightarrow> 's cos option) \<Rightarrow> 'm list \<Rightarrow> 's cos \<Rightarrow> 's cos option" where
  "write_each write [] output = Some output"
| "write_each write (x # xs) output = Option.bind (write x output) (write_each write xs)"

definition Point_SerializeWithCachedSizes :: "'s zero_copy_output \<Rightarrow> Point \<Rightarrow> 's cos \<Rightarrow> 's cos option" where
  "Point_SerializeWithCachedSizes Z m output =
     Option.bind (if Point_has_x m then WriteInt32 Z 1 (Point_x m) output else Some output) (\<lambda>output.
     Option.bind (if Point_has_y m then WriteInt32 Z 2 (Point_y m) output else Some output) (\<lambda>output.
     if Point_unknown m \<noteq> [] then SerializeUnknownFields Z (Point_unknown m) output else Some output))"

definition OperationData_SerializeWithCachedSizes :: "'s zero_copy_output \<Rightarrow> OperationData \<Rightarrow> 's cos \<Rightarrow> 's cos option" where
  "OperationData_SerializeWithCachedSizes Z m output =
     Option.bind (if OperationData_has_data_type m then WriteEnum Z 1 (OperationData_data_type m) output else Some output) (\<lambda>output.
     Option.bind (if OperationData_has_thinkness m then WriteInt32 Z 2 (OperationData_thinkness m) output else Some output) (\<lambda>output.
     Option.bind (if OperationData_has_color m then WriteInt32 Z 3 (OperationData_color m) output else Some output) (\<lambda>output.
     Option.bind (if OperationData_has_start_point m
      then WriteMessageMaybeToArray Z Point_cached_size Point_SerializeWithCachedSizesToArray (Point_SerializeWithCachedSizes Z) 4 (OperationData_start_point m) output
      else Some output) (\<lambda>output.
     Option.bind (if OperationData_has_end_point m
      then WriteMessageMaybeToArray Z Point_cached_size Point_SerializeWithCachedSizesToArray (Point_SerializeWithCachedSizes Z) 5 (OperationData_end_point m) output
      else Some output) (\<lambda>output.
     Option.bind (if OperationData_has_center m
      then WriteMessageMaybeToArray Z Point_cached_size Point_SerializeWithCachedSizesToArray (Point_SerializeWithCachedSizes Z) 6 (OperationData_center m) output
      else Some output) (\<lambda>output.
     Option.bind (if OperationData_has_angle m then WriteFloat Z 7 (OperationData_angle m) output else Some output) (\<lambda>output.
     Option.bind (if OperationData_has_a m then WriteFloat Z 8 (OperationData_a m) output else Some output) (\<lambda>output.
     Option.bind (if OperationData_has_b m then WriteFloat Z 9 (OperationData_b m) output else Some output) (\<lambda>output.
     Option.bind (if OperationData_has_top_left_corner m
      then WriteMessageMaybeToArray Z Point_cached_size Point_SerializeWithCachedSizesToArray (Point_SerializeWithCachedSizes Z) 10 (OperationData_top_left_corner m) output
      else Some output) (\<lambda>output.
     Option.bind (if OperationData_has_bottom_right_corner m
      then WriteMessageMaybeToArray Z Point_cached_size Point_SerializeWithCachedSizesToArray (Point_SerializeWithCachedSizes Z) 11 (OperationData_bottom_right_corner m) output
      else Some output) (\<lambda>output.
     Option.bind (if OperationData_has_position m
      then WriteMessageMaybeToArray Z Point_cached_size Point_SerializeWithCachedSizesToArray (Point_SerializeWithCachedSizes Z) 12 (OperationData_position m) output
      else Some output) (\<lambda>output.
     Option.bind (if OperationData_has_fill m then WriteBool Z 13 (OperationData_fill m) output else Some output) (\<lambda>output.
     Option.bind (if OperationData_has_alpha m then WriteFloat Z 14 (OperationData_alpha m) output else Some output) (\<lambda>output.
     Option.bind (if OperationData_has_is_start m then WriteBool Z 15 (OperationData_is_start m) output else Some output) (\<lambda>output.
     if OperationData_unknown m \<noteq> [] then SerializeUnknownFields Z (OperationData_unknown m) output else Some output)))))))))))))))"

definition Operation_SerializeWithCachedSizes :: "'s zero_copy_output \<Rightarrow> Operation \<Rightarrow> 's cos \<Rightarrow> 's cos option" where
  "Operation_SerializeWithCachedSizes Z m output =
     Option.bind (if Operation_has_serial_number m then WriteUInt32 Z 1 (Operation_serial_number m) output else Some output) (\<lambda>output.
     Option.bind (if Operation_has_data m
      then WriteMessageMaybeToArray Z OperationData_cached_size OperationData_SerializeWithCachedSizesToArray (OperationData_SerializeWithCachedSizes Z) 2 (Operation_data m) output
      else Some output) (\<lambda>output.
     if Operation_unknown m \<noteq> [] then SerializeUnknownFields Z (Operation_unknown m) output else Some output))"

definition Operations_SerializeWithCachedSizes :: "'s zero_copy_output \<Rightarrow> Operations \<Rightarrow> 's cos \<Rightarrow> 's cos option" where
  "Operations_SerializeWithCachedSizes Z m output =
     Option.bind (if Operations_has_operation_avaliable m then WriteEnum Z 1 (Operations_operation_avaliable m) output else Some output) (\<lambda>output.
     Option.bind (write_each (WriteMessageMaybeToArray Z Operation_cached_size Operation_SerializeWithCachedSizesToArray (Operation_SerializeWithCachedSizes Z) 2)
      (Rep_contents (Operations_operations_fld m)) output) (\<lambda>output.
     if Operations_unknown m \<noteq> [] then SerializeUnknownFields Z (Operations_unknown m) output else Some output))"

definition Document_SerializeWithCachedSizes :: "'s zero_copy_output \<Rightarrow> Document \<Rightarrow> 's cos \<Rightarrow> 's cos option" where
  "Document_SerializeWithCachedSizes Z m output =
     Option.bind (if Document_has_serial_number m then WriteUInt32 Z 1 (Document_serial_number m) output else Some output) (\<lambda>output.
     Option.bind (if Document_has_data m then WriteBytes Z 2 (Document_data m) output else Some output) (\<lambda>output.
     Option.bind (if Document_has_user_name m then WriteString Z 3 (Document_user_name m) output else Some output) (\<lambda>output.
     if Document_unknown m \<noteq> [] then SerializeUnknownFields Z (Document_unknown m) output else Some output)))"

definition DocumentList_SerializeWithCachedSizes :: "'s zero_copy_output \<Rightarrow> DocumentList \<Rightarrow> 's cos \<Rightarrow> 's cos option" where
  "DocumentList_SerializeWithCachedSizes Z m output =
     Option.bind (write_each (WriteMessageMaybeToArray Z Document_cached_size Document_SerializeWithCachedSizesToArray (Document_SerializeWithCachedSizes Z) 1)
      (Rep_contents (DocumentList_history_document_fld m)) output) (\<lambda>output.
     if DocumentList_unknown m \<noteq> [] then SerializeUnknownFields Z (DocumentList_unknown m) output else Some output)"

definition MeetingServerInfo_SerializeWithCachedSizes :: "'s zero_copy_output \<Rightarrow> MeetingServerInfo \<Rightarrow> 's cos \<Rightarrow> 's cos option" where
  "MeetingServerInfo_SerializeWithCachedSizes Z m output =
     Option.bind (if MeetingServerInfo_has_port m then WriteInt32 Z 1 (MeetingServerInfo_port m) output else Some output) (\<lambda>output.
     Option.bind (if MeetingServerInfo_has_server_ip m then WriteString Z 2 (MeetingServerInfo_server_ip m) output else Some output) (\<lambda>output.
     if MeetingServerInfo_unknown m \<noteq> [] then SerializeUnknownFields Z (MeetingServerInfo_unknown m) output else Some output))"

definition JoinMeetingReturn_SerializeWithCachedSizes :: "'s zero_copy_output \<Rightarrow> JoinMeetingReturn \<Rightarrow> 's cos \<Rightarrow> 's cos option" where
  "JoinMeetingReturn_SerializeWithCachedSizes Z m output =
     Option.bind (if JoinMeetingReturn_has_join_state m then WriteEnum Z 1 (JoinMeetingReturn_join_state m) output else Some output) (\<lambda>output.
     Option.bind (if JoinMeetingReturn_has_server_info m
      then WriteMessageMaybeToArray Z MeetingServerInfo_cached_size MeetingServerInfo_SerializeWithCachedSizesToArray (MeetingServerInfo_SerializeWithCachedSizes Z) 2 (JoinMeetingReturn_server_info m) output
      else Some output) (\<lambda>output.
     if JoinMeetingReturn_unknown m \<noteq> [] then SerializeUnknownFields Z (JoinMeetingReturn_unknown m) output else Some output))"

definition User_SerializeWithCachedSizes :: "'s zero_copy_output \<Rightarrow> User \<Rightarrow> 's cos \<Rightarrow> 's cos option" where
  "User_SerializeWithCachedSizes Z m output =
     Option.bind (if User_has_user_name m then WriteString Z 1 (User_user_name m) output else Some output) (\<lambda>output.
     Option.bind (if User_has_password m then WriteString Z 2 (User_password m) output else Some output) (\<lambda>output.
     Option.bind (if User_has_identity m then WriteEnum Z 3 (User_identity m) output else Some output) (\<lambda>output.
     if User_unknown m \<noteq> [] then SerializeUnknownFields Z (User_unknown m) output else Some output)))"

definition UserList_SerializeWithCachedSizes :: "'s zero_copy_output \<Rightarrow> UserList \<Rightarrow> 's cos \<Rightarrow> 's cos option" where
  "UserList_SerializeWithCachedSizes Z m output =
     Option.bind (write_each (WriteMessageMaybeToArray Z User_cached_size User_SerializeWithCachedSizesToArray (User_SerializeWithCachedSizes Z) 1)
      (Rep_contents (UserList_users_fld m)) output) (\<lambda>output.
     if UserList_unknown m \<noteq> [] then SerializeUnknownFields Z (UserList_unknown m) output else Some output)"

definition HeartBeatSendPackage_SerializeWithCachedSizes :: "'s zero_copy_output \<Rightarrow> HeartBeatSendPackage \<Rightarrow> 's cos \<Rightarrow> 's cos option" where
  "HeartBeatSendPackage_SerializeWithCachedSizes Z m output =
     Option.bind (if HeartBeatSendPackage_has_user_name m then WriteString Z 1 (HeartBeatSendPackage_user_name m) output else Some output) (\<lambda>output.
     Option.bind (if HeartBeatSendPackage_has_meeting_id m then WriteString Z 2 (HeartBeatSendPackage_meeting_id m) output else Some output) (\<lambda>output.
     if HeartBeatSendPackage_unknown m \<noteq> [] then SerializeUnknownFields Z (HeartBeatSendPackage_unknown m) output else Some output))"

definition HeartReturnPackage_SerializeWithCachedSizes :: "'s zero_copy_output \<Rightarrow> HeartReturnPackage \<Rightarrow> 's cos \<Rightarrow> 's cos option" where
  "HeartReturnPackage_SerializeWithCachedSizes Z m output =
     Option.bind (if HeartReturnPackage_has_identity m then WriteEnum Z 1 (HeartReturnPackage_identity m) output else Some output) (\<lambda>output.
     if HeartReturnPackage_unknown m \<noteq> [] then SerializeUnknownFields Z (HeartReturnPackage_unknown m) output else Some output)"

section \<open>The stream functions of a message\<close>

text \<open>
  \<open>None\<close> is a failed check (\<^verbatim>\<open>ByteSizeConsistencyError\<close>, \<^verbatim>\<open>GOOGLE_CHECK\<close>, \<^verbatim>\<open>GOOGLE_DCHECK\<close>). The first
  function is the one a class compiled for speed overrides.
\<close>

definition MessageLite_SerializeWithCachedSizesToArray ::
    "('m \<Rightarrow> nat) \<Rightarrow> ('m \<Rightarrow> array_output cos \<Rightarrow> array_output cos option) \<Rightarrow> 'm \<Rightarrow> bytes \<Rightarrow> bytes option" where
  "MessageLite_SerializeWithCachedSizesToArray GetCachedSize SerializeWithCachedSizes m target =
     Option.bind (SerializeWithCachedSizes m (CodedOutputStream_new ArrayOutputStream (ArrayOutputStream_new (take (GetCachedSize m) target) (-1))))
       (\<lambda>coded_out. if had_error coded_out then None
          else map_option ao_data (CodedOutputStream_delete ArrayOutputStream coded_out))"

definition SerializePartialToCodedStream ::
    "'m message_lite \<Rightarrow> 's zero_copy_output \<Rightarrow> ('m \<Rightarrow> 's cos \<Rightarrow> 's cos option) \<Rightarrow> 'm \<Rightarrow> 's cos \<Rightarrow> (bool \<times> 'm \<times> 's cos) option" where
  "SerializePartialToCodedStream T Z SerializeWithCachedSizes m output =
     (let (count, m) = vt_ByteSize T m
      in case Out_GetDirectBufferForNBytesAndAdvance count output of
           (Some buffer, output) \<Rightarrow>
             let bytes = vt_SerializeWithCachedSizes T m []
             in if length bytes \<noteq> count then None
                else Some (True, m, output\<lparr>underlying := zc_store Z buffer bytes (underlying output)\<rparr>)
         | (None, output) \<Rightarrow>
             let original_byte_count = Out_ByteCount output
             in Option.bind (SerializeWithCachedSizes m output) (\<lambda>output.
                if had_error output then Some (False, m, output)
                else let final_byte_count = Out_ByteCount output
                     in if int final_byte_count - int original_byte_count \<noteq> int count then None
                        else Some (True, m, output)))"

definition SerializeToCodedStream ::
    "'m message_lite \<Rightarrow> 's zero_copy_output \<Rightarrow> ('m \<Rightarrow> 's cos \<Rightarrow> 's cos option) \<Rightarrow> 'm \<Rightarrow> 's cos \<Rightarrow> (bool \<times> 'm \<times> 's cos) option" where
  "SerializeToCodedStream T Z SerializeWithCachedSizes m output =
     (if \<not> vt_IsInitialized T m then None else SerializePartialToCodedStream T Z SerializeWithCachedSizes m output)"

text \<open>The coded stream lives until the function returns; its destructor gives the rest of the buffer back.\<close>

definition close_encoder :: "'s zero_copy_output \<Rightarrow> (bool \<times> 'm \<times> 's cos) option \<Rightarrow> (bool \<times> 'm \<times> 's) option" where
  "close_encoder Z r =
     (case r of None \<Rightarrow> None
      | Some (b, m, encoder) \<Rightarrow> map_option (\<lambda>output. (b, m, output)) (CodedOutputStream_delete Z encoder))"

definition SerializeToZeroCopyStream ::
    "'m message_lite \<Rightarrow> 's zero_copy_output \<Rightarrow> ('m \<Rightarrow> 's cos \<Rightarrow> 's cos option) \<Rightarrow> 'm \<Rightarrow> 's \<Rightarrow> (bool \<times> 'm \<times> 's) option" where
  "SerializeToZeroCopyStream T Z SerializeWithCachedSizes m output =
     close_encoder Z (SerializeToCodedStream T Z SerializeWithCachedSizes m (CodedOutputStream_new Z output))"

definition SerializePartialToZeroCopyStream ::
    "'m message_lite \<Rightarrow> 's zero_copy_output \<Rightarrow> ('m \<Rightarrow> 's cos \<Rightarrow> 's cos option) \<Rightarrow> 'm \<Rightarrow> 's \<Rightarrow> (bool \<times> 'm \<times> 's) option" where
  "SerializePartialToZeroCopyStream T Z SerializeWithCachedSizes m output =
     close_encoder Z (SerializePartialToCodedStream T Z SerializeWithCachedSizes m (CodedOutputStream_new Z output))"

section \<open>What the generated serialisers deliver\<close>

context output_stream
begin

lemma delivers_opt: "(b \<Longrightarrow> delivers f (e v)) \<Longrightarrow> delivers (\<lambda>c. if b then f c else Some c) (enc_opt e (shown b v))"
  by (cases b) (simp_all add: delivers_nothing)

lemma delivers_unknown:
  "delivers (\<lambda>c. if u \<noteq> [] then SerializeUnknownFields Z u c else Some c) (SerializeUnknownFieldsToArray u [])"
  using unknown_delivers(2) [of u] by (cases "u = []") (simp_all add: delivers_nothing)

lemma embedded_delivers:
  assumes "delivers (ser m) bs" "toArray m [] = bs" "cached m = length bs"
  shows "delivers (WriteMessageMaybeToArray Z cached toArray ser fn m) (enc_tag fn WIRETYPE_LENGTH_DELIMITED @ enc_bytes bs)"
  using message_delivers(1) [of ser m bs toArray cached fn, OF assms] by (simp add: enc_bytes_def)

lemma write_each_delivers:
  "(\<And>x. x \<in> set xs \<Longrightarrow> delivers (f x) (e (view x))) \<Longrightarrow> delivers (write_each f xs) (concat (map e (map view xs)))"
proof (induction xs)
  case (Cons x xs)
  have "delivers (\<lambda>c. Option.bind (f x c) (write_each f xs)) (e (view x) @ concat (map e (map view xs)))"
    by (rule delivers_bind) (rule Cons, simp, rule Cons, rule Cons, simp)
  then show ?case unfolding write_each.simps [abs_def] by simp
qed (simp add: delivers_nothing write_each.simps [abs_def])

lemmas stream_delivers = delivers_bind delivers_opt delivers_unknown field_delivers string_delivers

lemma Point_delivers:
  "delivers (Point_SerializeWithCachedSizes Z m) (APoint_encode (Point_abs m))"
  unfolding Point_SerializeWithCachedSizes_def [abs_def] APoint_encode_def Point_abs_def APoint.select_convs
  by (intro stream_delivers)

lemma OperationData_delivers:
  assumes "OperationData_ok m" "OperationData_sized m"
  shows "delivers (OperationData_SerializeWithCachedSizes Z m) (AOperationData_encode (OperationData_abs m))"
proof -
  have point: "delivers (WriteMessageMaybeToArray Z Point_cached_size Point_SerializeWithCachedSizesToArray (Point_SerializeWithCachedSizes Z) fn x)
      (enc_tag fn WIRETYPE_LENGTH_DELIMITED @ enc_bytes (APoint_encode (Point_abs x)))" if "Point_ok x" "Point_sized x" for fn x
    by (rule embedded_delivers) (use that Point_delivers in \<open>simp_all add: Point_sized_def Point_SerializeWithCachedSizesToArray_eq\<close>)
  show ?thesis
    unfolding OperationData_SerializeWithCachedSizes_def [abs_def] AOperationData_encode_def OperationData_abs_def AOperationData.select_convs
    by (intro stream_delivers point) (use assms in \<open>simp_all add: OperationData_children_ok OperationData_sized_def\<close>)
qed

lemma Operation_delivers:
  assumes "Operation_ok m" "Operation_sized m"
  shows "delivers (Operation_SerializeWithCachedSizes Z m) (AOperation_encode (Operation_abs m))"
proof -
  have operationdata: "delivers (WriteMessageMaybeToArray Z OperationData_cached_size OperationData_SerializeWithCachedSizesToArray (OperationData_SerializeWithCachedSizes Z) fn x)
      (enc_tag fn WIRETYPE_LENGTH_DELIMITED @ enc_bytes (AOperationData_encode (OperationData_abs x)))" if "OperationData_ok x" "OperationData_sized x" for fn x
    by (rule embedded_delivers) (use that OperationData_delivers [OF that] in \<open>simp_all add: OperationData_sized_def OperationData_SerializeWithCachedSizesToArray_eq\<close>)
  show ?thesis
    unfolding Operation_SerializeWithCachedSizes_def [abs_def] AOperation_encode_def Operation_abs_def AOperation.select_convs
    by (intro stream_delivers operationdata) (use assms in \<open>simp_all add: Operation_children_ok Operation_sized_def\<close>)
qed

lemma Operations_delivers:
  assumes "Operations_ok m" "Operations_sized m"
  shows "delivers (Operations_SerializeWithCachedSizes Z m) (AOperations_encode (Operations_abs m))"
proof -
  have operation: "delivers (WriteMessageMaybeToArray Z Operation_cached_size Operation_SerializeWithCachedSizesToArray (Operation_SerializeWithCachedSizes Z) fn x)
      (enc_tag fn WIRETYPE_LENGTH_DELIMITED @ enc_bytes (AOperation_encode (Operation_abs x)))" if "Operation_ok x" "Operation_sized x" for fn x
    by (rule embedded_delivers) (use that Operation_delivers [OF that] in \<open>simp_all add: Operation_sized_def Operation_SerializeWithCachedSizesToArray_eq\<close>)
  show ?thesis
    unfolding Operations_SerializeWithCachedSizes_def [abs_def] AOperations_encode_def Operations_abs_def AOperations.select_convs
    by (intro stream_delivers write_each_delivers operation)
      (use assms in \<open>auto simp: Operations_ok_def Operations_sized_def list_all_iff dest: operation_th.good_contents [unfolded list_all_iff]\<close>)
qed

lemma Document_delivers:
  "delivers (Document_SerializeWithCachedSizes Z m) (ADocument_encode (Document_abs m))"
  unfolding Document_SerializeWithCachedSizes_def [abs_def] ADocument_encode_def Document_abs_def ADocument.select_convs
  by (intro stream_delivers)

lemma DocumentList_delivers:
  assumes "DocumentList_ok m" "DocumentList_sized m"
  shows "delivers (DocumentList_SerializeWithCachedSizes Z m) (ADocumentList_encode (DocumentList_abs m))"
proof -
  have document: "delivers (WriteMessageMaybeToArray Z Document_cached_size Document_SerializeWithCachedSizesToArray (Document_SerializeWithCachedSizes Z) fn x)
      (enc_tag fn WIRETYPE_LENGTH_DELIMITED @ enc_bytes (ADocument_encode (Document_abs x)))" if "Document_ok x" "Document_sized x" for fn x
    by (rule embedded_delivers) (use that Document_delivers in \<open>simp_all add: Document_sized_def Document_SerializeWithCachedSizesToArray_eq\<close>)
  show ?thesis
    unfolding DocumentList_SerializeWithCachedSizes_def [abs_def] ADocumentList_encode_def DocumentList_abs_def ADocumentList.select_convs
    by (intro stream_delivers write_each_delivers document)
      (use assms in \<open>auto simp: DocumentList_ok_def DocumentList_sized_def list_all_iff dest: document_th.good_contents [unfolded list_all_iff]\<close>)
qed

lemma MeetingServerInfo_delivers:
  "delivers (MeetingServerInfo_SerializeWithCachedSizes Z m) (AMeetingServerInfo_encode (MeetingServerInfo_abs m))"
  unfolding MeetingServerInfo_SerializeWithCachedSizes_def [abs_def] AMeetingServerInfo_encode_def MeetingServerInfo_abs_def AMeetingServerInfo.select_convs
  by (intro stream_delivers)

lemma JoinMeetingReturn_delivers:
  assumes "JoinMeetingReturn_ok m" "JoinMeetingReturn_sized m"
  shows "delivers (JoinMeetingReturn_SerializeWithCachedSizes Z m) (AJoinMeetingReturn_encode (JoinMeetingReturn_abs m))"
proof -
  have meetingserverinfo: "delivers (WriteMessageMaybeToArray Z MeetingServerInfo_cached_size MeetingServerInfo_SerializeWithCachedSizesToArray (MeetingServerInfo_SerializeWithCachedSizes Z) fn x)
      (enc_tag fn WIRETYPE_LENGTH_DELIMITED @ enc_bytes (AMeetingServerInfo_encode (MeetingServerInfo_abs x)))" if "MeetingServerInfo_ok x" "MeetingServerInfo_sized x" for fn x
    by (rule embedded_delivers) (use that MeetingServerInfo_delivers in \<open>simp_all add: MeetingServerInfo_sized_def MeetingServerInfo_SerializeWithCachedSizesToArray_eq\<close>)
  show ?thesis
    unfolding JoinMeetingReturn_SerializeWithCachedSizes_def [abs_def] AJoinMeetingReturn_encode_def JoinMeetingReturn_abs_def AJoinMeetingReturn.select_convs
    by (intro stream_delivers meetingserverinfo) (use assms in \<open>simp_all add: JoinMeetingReturn_children_ok JoinMeetingReturn_sized_def\<close>)
qed

lemma User_delivers:
  "delivers (User_SerializeWithCachedSizes Z m) (AUser_encode (User_abs m))"
  unfolding User_SerializeWithCachedSizes_def [abs_def] AUser_encode_def User_abs_def AUser.select_convs
  by (intro stream_delivers)

lemma UserList_delivers:
  assumes "UserList_ok m" "UserList_sized m"
  shows "delivers (UserList_SerializeWithCachedSizes Z m) (AUserList_encode (UserList_abs m))"
proof -
  have user: "delivers (WriteMessageMaybeToArray Z User_cached_size User_SerializeWithCachedSizesToArray (User_SerializeWithCachedSizes Z) fn x)
      (enc_tag fn WIRETYPE_LENGTH_DELIMITED @ enc_bytes (AUser_encode (User_abs x)))" if "User_ok x" "User_sized x" for fn x
    by (rule embedded_delivers) (use that User_delivers in \<open>simp_all add: User_sized_def User_SerializeWithCachedSizesToArray_eq\<close>)
  show ?thesis
    unfolding UserList_SerializeWithCachedSizes_def [abs_def] AUserList_encode_def UserList_abs_def AUserList.select_convs
    by (intro stream_delivers write_each_delivers user)
      (use assms in \<open>auto simp: UserList_ok_def UserList_sized_def list_all_iff dest: user_th.good_contents [unfolded list_all_iff]\<close>)
qed

lemma HeartBeatSendPackage_delivers:
  "delivers (HeartBeatSendPackage_SerializeWithCachedSizes Z m) (AHeartBeatSendPackage_encode (HeartBeatSendPackage_abs m))"
  unfolding HeartBeatSendPackage_SerializeWithCachedSizes_def [abs_def] AHeartBeatSendPackage_encode_def HeartBeatSendPackage_abs_def AHeartBeatSendPackage.select_convs
  by (intro stream_delivers)

lemma HeartReturnPackage_delivers:
  "delivers (HeartReturnPackage_SerializeWithCachedSizes Z m) (AHeartReturnPackage_encode (HeartReturnPackage_abs m))"
  unfolding HeartReturnPackage_SerializeWithCachedSizes_def [abs_def] AHeartReturnPackage_encode_def HeartReturnPackage_abs_def AHeartReturnPackage.select_convs
  by (intro stream_delivers)

end

section \<open>A message on a stream\<close>

text \<open>The contracts of the message class and of the stream together.\<close>

locale message_on_stream = output_stream Z sok content tail fits + wire_message T ok view blank encode mrg init wire
  for Z :: "'s zero_copy_output" and sok content tail fits
    and T :: "'m message_lite" and ok :: "'m \<Rightarrow> bool" and view :: "'m \<Rightarrow> 'a" and blank :: 'a
    and encode :: "'a \<Rightarrow> bytes" and mrg :: "'a \<Rightarrow> 'a \<Rightarrow> 'a" and init :: "'a \<Rightarrow> bool" and wire :: "nat \<Rightarrow> 'a \<Rightarrow> bool" +
  fixes ser :: "'m \<Rightarrow> 's cos \<Rightarrow> 's cos option"
  assumes ser: "ok m \<Longrightarrow> delivers (ser (snd (vt_ByteSize T m))) (encode (view m))"
begin

lemma SerializePartialToCodedStream_writes:
  assumes "ok m" "cos_ok c" "\<not> had_error c"
  shows "\<exists>b c'. SerializePartialToCodedStream T Z ser m c = Some (b, snd (vt_ByteSize T m), c') \<and> cos_ok c' \<and> fits (underlying c') = fits (underlying c) \<and>
    (b \<longleftrightarrow> encode (view m) = [] \<or> fits (underlying c) (length (sent c) + length (encode (view m)))) \<and>
    (b \<longrightarrow> sent c' = sent c @ encode (view m))"
proof -
  let ?bs = "encode (view m)"
  obtain m' where m': "vt_ByteSize T m = (length ?bs, m')" "ok m'" "view m' = view m" "vt_SerializeWithCachedSizes T m' [] = ?bs"
    using bytesize [OF assms(1)] by auto
  have ser': "delivers (ser m') ?bs" using ser [OF assms(1)] m'(1) by simp
  have into: "delivers (into_buffer Z (vt_SerializeWithCachedSizes T) ser m' (length ?bs)) ?bs"
    by (rule into_buffer_delivers) (simp_all add: ser' m'(4))
  obtain c' where c': "into_buffer Z (vt_SerializeWithCachedSizes T) ser m' (length ?bs) c = Some c'" "cos_ok c'"
      "fits (underlying c') = fits (underlying c)" "base c' = base c" "\<not> had_error c' \<Longrightarrow> sent c' = sent c @ ?bs"
      "had_error c' \<longleftrightarrow> ?bs \<noteq> [] \<and> \<not> fits (underlying c) (length (sent c) + length ?bs)"
    using into assms(2,3) unfolding delivers_def by blast
  have count: "int (Out_ByteCount c') - int (Out_ByteCount c) = int (length ?bs)" if "\<not> had_error c'"
    using ByteCount_base [OF c'(2)] ByteCount_base [OF assms(2)] c'(4,5) that by simp
  have "SerializePartialToCodedStream T Z ser m c = Some (\<not> had_error c', snd (vt_ByteSize T m), c')"
  proof (cases "length ?bs \<le> buffer_size c")
    case True
    then show ?thesis using c'(1) assms(3)
      by (auto simp: SerializePartialToCodedStream_def m' into_buffer_def Out_GetDirectBufferForNBytesAndAdvance_def Out_Advance_def)
  next
    case False
    then have "ser m' c = Some c'" using c'(1) by (simp add: into_buffer_def Out_GetDirectBufferForNBytesAndAdvance_def)
    then show ?thesis using False count by (simp add: SerializePartialToCodedStream_def m' Out_GetDirectBufferForNBytesAndAdvance_def)
  qed
  then show ?thesis using c' m' by blast
qed

lemma SerializePartialToZeroCopyStream_writes:
  assumes "ok m" "sok s"
  shows "\<exists>b s'. SerializePartialToZeroCopyStream T Z ser m s = Some (b, snd (vt_ByteSize T m), s') \<and> sok s' \<and>
    (b \<longleftrightarrow> encode (view m) = [] \<or> fits s (length (content s) + length (encode (view m)))) \<and>
    (b \<longrightarrow> content s' = content s @ encode (view m))"
proof -
  note n = CodedOutputStream_new_ok [OF assms(2)]
  obtain b c' where c': "SerializePartialToCodedStream T Z ser m (CodedOutputStream_new Z s) = Some (b, snd (vt_ByteSize T m), c')" "cos_ok c'"
      "b \<longleftrightarrow> encode (view m) = [] \<or> fits s (length (content s) + length (encode (view m)))"
      "b \<longrightarrow> sent c' = content s @ encode (view m)"
    using SerializePartialToCodedStream_writes [OF assms(1) n(1,4)] n(2,3) by auto
  obtain s' where "CodedOutputStream_delete Z c' = Some s'" "sok s'" "content s' = sent c'"
    using CodedOutputStream_delete_ok [OF c'(2)] by blast
  then show ?thesis using c' by (auto simp: SerializePartialToZeroCopyStream_def close_encoder_def)
qed

lemma SerializeToZeroCopyStream_writes:
  assumes "ok m" "init (view m)" "sok s"
  shows "\<exists>b s'. SerializeToZeroCopyStream T Z ser m s = Some (b, snd (vt_ByteSize T m), s') \<and> sok s' \<and>
    (b \<longleftrightarrow> encode (view m) = [] \<or> fits s (length (content s) + length (encode (view m)))) \<and>
    (b \<longrightarrow> content s' = content s @ encode (view m))"
  using SerializePartialToZeroCopyStream_writes [OF assms(1,3)] initialized [OF assms(1)] assms(2)
  by (simp add: SerializeToZeroCopyStream_def SerializePartialToZeroCopyStream_def SerializeToCodedStream_def)

end

lemma Operations_cached: "Operations_ok m \<Longrightarrow> Operations_ok (snd (vt_ByteSize Operations_lite m)) \<and>
    Operations_sized (snd (vt_ByteSize Operations_lite m)) \<and> Operations_abs (snd (vt_ByteSize Operations_lite m)) = Operations_abs m"
  using Operations_ByteSize_snd [of m] by (simp add: Operations_lite_def)

interpretation operations_array: message_on_stream ArrayOutputStream ao_ok ao_content ao_tail ao_fits
    Operations_lite Operations_ok Operations_abs AOperations_empty AOperations_encode AOperations_merge AOperations_initialized AOperations_wire
    "Operations_SerializeWithCachedSizes ArrayOutputStream"
  by unfold_locales (use Operations_cached array_out.Operations_delivers in metis)

lemma operations_on_string:
  assumes "\<And>n. n \<le> grow n"
  shows "message_on_stream (StringOutputStream grow) (\<lambda>_. True) so_target so_tail (\<lambda>_ _. True)
    Operations_lite Operations_ok Operations_abs AOperations_empty AOperations_encode AOperations_merge AOperations_initialized AOperations_wire
    (Operations_SerializeWithCachedSizes (StringOutputStream grow))"
proof (intro message_on_stream.intro message_on_stream_axioms.intro operations_wire.wire_message_axioms string_output_stream assms)
  fix m assume "Operations_ok m"
  then show "output_stream.delivers (\<lambda>_. True) so_target so_tail (\<lambda>_ _. True)
      (Operations_SerializeWithCachedSizes (StringOutputStream grow) (snd (vt_ByteSize Operations_lite m))) (AOperations_encode (Operations_abs m))"
    using output_stream.Operations_delivers [OF string_output_stream [OF assms]] Operations_cached by metis
qed

interpretation operations_string: message_on_stream "StringOutputStream (\<lambda>n. n)" "\<lambda>_. True" so_target so_tail "\<lambda>_ _. True"
    Operations_lite Operations_ok Operations_abs AOperations_empty AOperations_encode AOperations_merge AOperations_initialized AOperations_wire
    "Operations_SerializeWithCachedSizes (StringOutputStream (\<lambda>n. n))"
  by (rule operations_on_string) simp

text \<open>The inherited array serialiser writes what a stream receives.\<close>

lemma default_array_serializer:
  assumes "array_out.delivers (ser m) bs" "cached m = length bs" "length bs \<le> length target"
  shows "MessageLite_SerializeWithCachedSizesToArray cached ser m target = Some bs"
proof -
  let ?s = "ArrayOutputStream_new (take (length bs) target) (-1)"
  have s: "ao_ok ?s" "ao_content ?s = []" "\<And>n. ao_fits ?s n \<longleftrightarrow> n \<le> length bs"
    using ArrayOutputStream_new_ok [of "take (length bs) target"] assms(3) by simp_all
  note n = array_out.CodedOutputStream_new_ok [OF s(1)]
  obtain c' where c': "ser m (CodedOutputStream_new ArrayOutputStream ?s) = Some c'" "array_out.cos_ok c'"
      "ao_fits (underlying c') = ao_fits ?s" "\<not> had_error c'" "array_out.sent c' = bs"
    using assms(1) [unfolded array_out.delivers_def, rule_format, OF n(1)] n(2-4) s(2,3) by auto
  obtain s' where s': "CodedOutputStream_delete ArrayOutputStream c' = Some s'" "ao_ok s'" "ao_content s' = bs" "ao_fits s' = ao_fits ?s"
    using array_out.CodedOutputStream_delete_ok [OF c'(2)] c'(3,5) by auto
  have "length (ao_data s') = length bs"
    using s'(4) s(3) by (simp add: ao_fits_def fun_eq_iff) (metis nle_le)
  then have "ao_data s' = bs" using s'(3) by (simp add: ao_content_def) (metis length_take min.absorb_iff2 nle_le take_all)
  then show ?thesis using c' s' assms(2) by (simp add: MessageLite_SerializeWithCachedSizesToArray_def)
qed

section \<open>Streams, arrays and strings agree\<close>



end
