(* ===== verification/Field_Codecs.thy ===== *)
theory Field_Codecs
  imports Coded_Output Parse_Fields
begin

text \<open>
  The scalar field types of \<^verbatim>\<open>wire_format_lite.h\<close>, \<^verbatim>\<open>wire_format_lite_inl.h\<close> and
  \<^verbatim>\<open>wire_format_lite.cc\<close>: for each of the fourteen the writers into an array, the size and the
  reader, beside the stream writers of \<open>Coded_Output\<close>. The locale \<open>codec\<close> states how they belong together. A
  64-bit value and a \<^verbatim>\<open>double\<close> are their 64 bits, a \<^verbatim>\<open>float\<close> its 32.
\<close>

section \<open>Field types\<close>

text \<open>The enumerators are those of \<^verbatim>\<open>WireFormatLite::FieldType\<close>, without their prefix \<^verbatim>\<open>TYPE_\<close>.\<close>

datatype field_type =
    FT_DOUBLE | FT_FLOAT | FT_INT64 | FT_UINT64 | FT_INT32 | FT_FIXED64 | FT_FIXED32 | FT_BOOL | FT_STRING
  | FT_GROUP | FT_MESSAGE | FT_BYTES | FT_UINT32 | FT_ENUM | FT_SFIXED32 | FT_SFIXED64 | FT_SINT32 | FT_SINT64

datatype cpp_type =
    CPPTYPE_INT32 | CPPTYPE_INT64 | CPPTYPE_UINT32 | CPPTYPE_UINT64 | CPPTYPE_DOUBLE | CPPTYPE_FLOAT | CPPTYPE_BOOL
  | CPPTYPE_ENUM | CPPTYPE_STRING | CPPTYPE_MESSAGE

fun kFieldTypeToCppTypeMap :: "field_type \<Rightarrow> cpp_type" where
  "kFieldTypeToCppTypeMap FT_DOUBLE = CPPTYPE_DOUBLE"
| "kFieldTypeToCppTypeMap FT_FLOAT = CPPTYPE_FLOAT"
| "kFieldTypeToCppTypeMap FT_INT64 = CPPTYPE_INT64"
| "kFieldTypeToCppTypeMap FT_UINT64 = CPPTYPE_UINT64"
| "kFieldTypeToCppTypeMap FT_INT32 = CPPTYPE_INT32"
| "kFieldTypeToCppTypeMap FT_FIXED64 = CPPTYPE_UINT64"
| "kFieldTypeToCppTypeMap FT_FIXED32 = CPPTYPE_UINT32"
| "kFieldTypeToCppTypeMap FT_BOOL = CPPTYPE_BOOL"
| "kFieldTypeToCppTypeMap FT_STRING = CPPTYPE_STRING"
| "kFieldTypeToCppTypeMap FT_GROUP = CPPTYPE_MESSAGE"
| "kFieldTypeToCppTypeMap FT_MESSAGE = CPPTYPE_MESSAGE"
| "kFieldTypeToCppTypeMap FT_BYTES = CPPTYPE_STRING"
| "kFieldTypeToCppTypeMap FT_UINT32 = CPPTYPE_UINT32"
| "kFieldTypeToCppTypeMap FT_ENUM = CPPTYPE_ENUM"
| "kFieldTypeToCppTypeMap FT_SFIXED32 = CPPTYPE_INT32"
| "kFieldTypeToCppTypeMap FT_SFIXED64 = CPPTYPE_INT64"
| "kFieldTypeToCppTypeMap FT_SINT32 = CPPTYPE_INT32"
| "kFieldTypeToCppTypeMap FT_SINT64 = CPPTYPE_INT64"

fun kWireTypeForFieldType :: "field_type \<Rightarrow> uint32" where
  "kWireTypeForFieldType FT_DOUBLE = WIRETYPE_FIXED64"
| "kWireTypeForFieldType FT_FLOAT = WIRETYPE_FIXED32"
| "kWireTypeForFieldType FT_INT64 = WIRETYPE_VARINT"
| "kWireTypeForFieldType FT_UINT64 = WIRETYPE_VARINT"
| "kWireTypeForFieldType FT_INT32 = WIRETYPE_VARINT"
| "kWireTypeForFieldType FT_FIXED64 = WIRETYPE_FIXED64"
| "kWireTypeForFieldType FT_FIXED32 = WIRETYPE_FIXED32"
| "kWireTypeForFieldType FT_BOOL = WIRETYPE_VARINT"
| "kWireTypeForFieldType FT_STRING = WIRETYPE_LENGTH_DELIMITED"
| "kWireTypeForFieldType FT_GROUP = WIRETYPE_START_GROUP"
| "kWireTypeForFieldType FT_MESSAGE = WIRETYPE_LENGTH_DELIMITED"
| "kWireTypeForFieldType FT_BYTES = WIRETYPE_LENGTH_DELIMITED"
| "kWireTypeForFieldType FT_UINT32 = WIRETYPE_VARINT"
| "kWireTypeForFieldType FT_ENUM = WIRETYPE_VARINT"
| "kWireTypeForFieldType FT_SFIXED32 = WIRETYPE_FIXED32"
| "kWireTypeForFieldType FT_SFIXED64 = WIRETYPE_FIXED64"
| "kWireTypeForFieldType FT_SINT32 = WIRETYPE_VARINT"
| "kWireTypeForFieldType FT_SINT64 = WIRETYPE_VARINT"

definition FieldTypeToCppType :: "field_type \<Rightarrow> cpp_type" where
  "FieldTypeToCppType type = kFieldTypeToCppTypeMap type"

definition WireTypeForFieldType :: "field_type \<Rightarrow> uint32" where
  "WireTypeForFieldType type = kWireTypeForFieldType type"

section \<open>Values without a tag\<close>

definition WriteInt32NoTagToArray :: "int32 \<Rightarrow> bytes \<Rightarrow> bytes" where
  "WriteInt32NoTagToArray value target = WriteVarint32SignExtendedToArray value target"

definition WriteInt64NoTagToArray :: "uint64 \<Rightarrow> bytes \<Rightarrow> bytes" where
  "WriteInt64NoTagToArray value target = WriteVarint64ToArray value target"

definition WriteUInt32NoTagToArray :: "uint32 \<Rightarrow> bytes \<Rightarrow> bytes" where
  "WriteUInt32NoTagToArray value target = WriteVarint32ToArray value target"

definition WriteUInt64NoTagToArray :: "uint64 \<Rightarrow> bytes \<Rightarrow> bytes" where
  "WriteUInt64NoTagToArray value target = WriteVarint64ToArray value target"

definition WriteSInt32NoTagToArray :: "int32 \<Rightarrow> bytes \<Rightarrow> bytes" where
  "WriteSInt32NoTagToArray value target = WriteVarint32ToArray (ZigZagEncode32 value) target"

definition WriteSInt64NoTagToArray :: "uint64 \<Rightarrow> bytes \<Rightarrow> bytes" where
  "WriteSInt64NoTagToArray value target = WriteVarint64ToArray (ZigZagEncode64 value) target"

definition WriteFixed32NoTagToArray :: "uint32 \<Rightarrow> bytes \<Rightarrow> bytes" where
  "WriteFixed32NoTagToArray value target = WriteLittleEndian32ToArray value target"

definition WriteFixed64NoTagToArray :: "uint64 \<Rightarrow> bytes \<Rightarrow> bytes" where
  "WriteFixed64NoTagToArray value target = WriteLittleEndian64ToArray value target"

definition WriteSFixed32NoTagToArray :: "int32 \<Rightarrow> bytes \<Rightarrow> bytes" where
  "WriteSFixed32NoTagToArray value target = WriteLittleEndian32ToArray value target"

definition WriteSFixed64NoTagToArray :: "uint64 \<Rightarrow> bytes \<Rightarrow> bytes" where
  "WriteSFixed64NoTagToArray value target = WriteLittleEndian64ToArray value target"

definition WriteFloatNoTagToArray :: "float32 \<Rightarrow> bytes \<Rightarrow> bytes" where
  "WriteFloatNoTagToArray value target = WriteLittleEndian32ToArray value target"

definition WriteDoubleNoTagToArray :: "uint64 \<Rightarrow> bytes \<Rightarrow> bytes" where
  "WriteDoubleNoTagToArray value target = WriteLittleEndian64ToArray value target"

definition WriteBoolNoTagToArray :: "bool \<Rightarrow> bytes \<Rightarrow> bytes" where
  "WriteBoolNoTagToArray value target = WriteVarint32ToArray (if value then 1 else 0) target"

definition WriteEnumNoTagToArray :: "int32 \<Rightarrow> bytes \<Rightarrow> bytes" where
  "WriteEnumNoTagToArray value target = WriteVarint32SignExtendedToArray value target"

section \<open>Fields\<close>

definition WriteUInt64ToArray :: "int32 \<Rightarrow> uint64 \<Rightarrow> bytes \<Rightarrow> bytes" where
  "WriteUInt64ToArray fn value target =
     WriteUInt64NoTagToArray value (WriteTagToArray fn WIRETYPE_VARINT target)"

definition WriteSInt32ToArray :: "int32 \<Rightarrow> int32 \<Rightarrow> bytes \<Rightarrow> bytes" where
  "WriteSInt32ToArray fn value target =
     WriteSInt32NoTagToArray value (WriteTagToArray fn WIRETYPE_VARINT target)"

definition WriteSInt64ToArray :: "int32 \<Rightarrow> uint64 \<Rightarrow> bytes \<Rightarrow> bytes" where
  "WriteSInt64ToArray fn value target =
     WriteSInt64NoTagToArray value (WriteTagToArray fn WIRETYPE_VARINT target)"

definition WriteSFixed32ToArray :: "int32 \<Rightarrow> int32 \<Rightarrow> bytes \<Rightarrow> bytes" where
  "WriteSFixed32ToArray fn value target =
     WriteSFixed32NoTagToArray value (WriteTagToArray fn WIRETYPE_FIXED32 target)"

definition WriteSFixed64ToArray :: "int32 \<Rightarrow> uint64 \<Rightarrow> bytes \<Rightarrow> bytes" where
  "WriteSFixed64ToArray fn value target =
     WriteSFixed64NoTagToArray value (WriteTagToArray fn WIRETYPE_FIXED64 target)"

definition WriteDoubleToArray :: "int32 \<Rightarrow> uint64 \<Rightarrow> bytes \<Rightarrow> bytes" where
  "WriteDoubleToArray fn value target =
     WriteDoubleNoTagToArray value (WriteTagToArray fn WIRETYPE_FIXED64 target)"

text \<open>Groups and messages; the two members of the message class that they call are arguments.\<close>

definition WriteGroupToArray :: "('m \<Rightarrow> bytes \<Rightarrow> bytes) \<Rightarrow> int32 \<Rightarrow> 'm \<Rightarrow> bytes \<Rightarrow> bytes" where
  "WriteGroupToArray SerializeWithCachedSizesToArray fn value target =
     WriteTagToArray fn WIRETYPE_END_GROUP
       (SerializeWithCachedSizesToArray value (WriteTagToArray fn WIRETYPE_START_GROUP target))"

definition WriteMessageToArray :: "('m \<Rightarrow> nat) \<Rightarrow> ('m \<Rightarrow> bytes \<Rightarrow> bytes) \<Rightarrow> int32 \<Rightarrow> 'm \<Rightarrow> bytes \<Rightarrow> bytes" where
  "WriteMessageToArray GetCachedSize SerializeWithCachedSizesToArray fn value target =
     SerializeWithCachedSizesToArray value
       (WriteVarint32ToArray (of_nat (GetCachedSize value)) (WriteTagToArray fn WIRETYPE_LENGTH_DELIMITED target))"

definition WriteGroupNoVirtualToArray :: "('m \<Rightarrow> bytes \<Rightarrow> bytes) \<Rightarrow> int32 \<Rightarrow> 'm \<Rightarrow> bytes \<Rightarrow> bytes" where
  "WriteGroupNoVirtualToArray SerializeWithCachedSizesToArray fn value target =
     WriteTagToArray fn WIRETYPE_END_GROUP
       (SerializeWithCachedSizesToArray value (WriteTagToArray fn WIRETYPE_START_GROUP target))"

definition WriteGroupNoVirtual :: "'s zero_copy_output \<Rightarrow> ('m \<Rightarrow> 's cos \<Rightarrow> 's cos option) \<Rightarrow> int32 \<Rightarrow> 'm \<Rightarrow> 's cos \<Rightarrow> 's cos option" where
  "WriteGroupNoVirtual Z SerializeWithCachedSizes fn value c =
     Option.bind (WriteTag Z fn WIRETYPE_START_GROUP c) (\<lambda>c.
     Option.bind (SerializeWithCachedSizes value c) (WriteTag Z fn WIRETYPE_END_GROUP))"

definition WriteMessageNoVirtual ::
    "'s zero_copy_output \<Rightarrow> ('m \<Rightarrow> nat) \<Rightarrow> ('m \<Rightarrow> 's cos \<Rightarrow> 's cos option) \<Rightarrow> int32 \<Rightarrow> 'm \<Rightarrow> 's cos \<Rightarrow> 's cos option" where
  "WriteMessageNoVirtual Z GetCachedSize SerializeWithCachedSizes fn value c =
     Option.bind (WriteTag Z fn WIRETYPE_LENGTH_DELIMITED c) (\<lambda>c.
     Option.bind (Out_WriteVarint32 Z (of_nat (GetCachedSize value)) c) (SerializeWithCachedSizes value))"

section \<open>Sizes\<close>

definition Int64Size :: "uint64 \<Rightarrow> nat" where
  "Int64Size value = VarintSize64 value"

definition UInt64Size :: "uint64 \<Rightarrow> nat" where
  "UInt64Size value = VarintSize64 value"

definition SInt32Size :: "int32 \<Rightarrow> nat" where
  "SInt32Size value = VarintSize32 (ZigZagEncode32 value)"

definition SInt64Size :: "uint64 \<Rightarrow> nat" where
  "SInt64Size value = VarintSize64 (ZigZagEncode64 value)"

text \<open>\<^verbatim>\<open>ByteSize\<close> caches the size in the message; the results are the size and the message after the call.\<close>

definition GroupSize :: "('m \<Rightarrow> nat \<times> 'm) \<Rightarrow> 'm \<Rightarrow> nat \<times> 'm" where
  "GroupSize ByteSize value = ByteSize value"

definition MessageSize :: "('m \<Rightarrow> nat \<times> 'm) \<Rightarrow> 'm \<Rightarrow> nat \<times> 'm" where
  "MessageSize ByteSize value =
     (let (size, value) = ByteSize value in (VarintSize32 (of_nat size) + size, value))"

definition GroupSizeNoVirtual :: "('m \<Rightarrow> nat \<times> 'm) \<Rightarrow> 'm \<Rightarrow> nat \<times> 'm" where
  "GroupSizeNoVirtual ByteSize value = ByteSize value"

text \<open>The sizes of the types of fixed width.\<close>

definition kFixed32Size :: nat where "kFixed32Size = 4"
definition kFixed64Size :: nat where "kFixed64Size = 8"
definition kSFixed32Size :: nat where "kSFixed32Size = 4"
definition kSFixed64Size :: nat where "kSFixed64Size = 8"
definition kFloatSize :: nat where "kFloatSize = 4"
definition kDoubleSize :: nat where "kDoubleSize = 8"
definition kBoolSize :: nat where "kBoolSize = 1"

section \<open>Readers\<close>

text \<open>The readers of the types that the messages of the whiteboard do not use.\<close>

definition ReadPrimitive_INT64 :: "cis \<Rightarrow> uint64 got" where
  "ReadPrimitive_INT64 c = got_bind (ReadVarint64 c) (\<lambda>temp c. Got temp c)"

definition ReadPrimitive_UINT64 :: "cis \<Rightarrow> uint64 got" where
  "ReadPrimitive_UINT64 c = ReadVarint64 c"

definition ReadPrimitive_SINT32 :: "cis \<Rightarrow> int32 got" where
  "ReadPrimitive_SINT32 c = got_bind (ReadVarint32 c) (\<lambda>temp c. Got (ZigZagDecode32 temp) c)"

definition ReadPrimitive_SINT64 :: "cis \<Rightarrow> uint64 got" where
  "ReadPrimitive_SINT64 c = got_bind (ReadVarint64 c) (\<lambda>temp c. Got (ZigZagDecode64 temp) c)"

definition ReadPrimitive_FIXED32 :: "cis \<Rightarrow> uint32 got" where
  "ReadPrimitive_FIXED32 c = ReadLittleEndian32 c"

definition ReadPrimitive_FIXED64 :: "cis \<Rightarrow> uint64 got" where
  "ReadPrimitive_FIXED64 c = ReadLittleEndian64 c"

definition ReadPrimitive_SFIXED32 :: "cis \<Rightarrow> int32 got" where
  "ReadPrimitive_SFIXED32 c = got_bind (ReadLittleEndian32 c) (\<lambda>temp c. Got temp c)"

definition ReadPrimitive_SFIXED64 :: "cis \<Rightarrow> uint64 got" where
  "ReadPrimitive_SFIXED64 c = got_bind (ReadLittleEndian64 c) (\<lambda>temp c. Got temp c)"

definition ReadPrimitive_DOUBLE :: "cis \<Rightarrow> uint64 got" where
  "ReadPrimitive_DOUBLE c = got_bind (ReadLittleEndian64 c) (\<lambda>temp c. Got temp c)"

text \<open>
  Reading from an array with enough bytes in it: the value, and the pointer behind it. A read past
  the end is \<open>None\<close>.
\<close>

definition ReadPrimitiveFromArray_FIXED32 :: "bytes \<Rightarrow> (uint32 \<times> bytes) option" where
  "ReadPrimitiveFromArray_FIXED32 buffer =
     (if length buffer < 4 then None else Some (ReadLittleEndian32FromArray (take 4 buffer), drop 4 buffer))"

definition ReadPrimitiveFromArray_FIXED64 :: "bytes \<Rightarrow> (uint64 \<times> bytes) option" where
  "ReadPrimitiveFromArray_FIXED64 buffer =
     (if length buffer < 8 then None else Some (ReadLittleEndian64FromArray (take 8 buffer), drop 8 buffer))"

definition ReadPrimitiveFromArray_SFIXED32 :: "bytes \<Rightarrow> (int32 \<times> bytes) option" where
  "ReadPrimitiveFromArray_SFIXED32 buffer =
     (if length buffer < 4 then None else Some (ReadLittleEndian32FromArray (take 4 buffer), drop 4 buffer))"

definition ReadPrimitiveFromArray_SFIXED64 :: "bytes \<Rightarrow> (uint64 \<times> bytes) option" where
  "ReadPrimitiveFromArray_SFIXED64 buffer =
     (if length buffer < 8 then None else Some (ReadLittleEndian64FromArray (take 8 buffer), drop 8 buffer))"

definition ReadPrimitiveFromArray_FLOAT :: "bytes \<Rightarrow> (float32 \<times> bytes) option" where
  "ReadPrimitiveFromArray_FLOAT buffer =
     (if length buffer < 4 then None else Some (ReadLittleEndian32FromArray (take 4 buffer), drop 4 buffer))"

definition ReadPrimitiveFromArray_DOUBLE :: "bytes \<Rightarrow> (uint64 \<times> bytes) option" where
  "ReadPrimitiveFromArray_DOUBLE buffer =
     (if length buffer < 8 then None else Some (ReadLittleEndian64FromArray (take 8 buffer), drop 8 buffer))"

section \<open>A codec\<close>

text \<open>
  What the functions of one scalar type promise: the writer appends the bytes \<open>enc v\<close>, as many as
  the size function says, and the reader takes exactly those bytes and gives the value back; on any
  other bytes it stays inside the buffer. The tag has the wire type \<open>wt\<close> of the table.
\<close>

locale codec =
  fixes NoTagToArray :: "'v \<Rightarrow> bytes \<Rightarrow> bytes"
    and ToArray :: "int32 \<Rightarrow> 'v \<Rightarrow> bytes \<Rightarrow> bytes"
    and sz :: "'v \<Rightarrow> nat"
    and get :: "cis \<Rightarrow> 'v got"
    and ft :: field_type
    and enc :: "'v \<Rightarrow> bytes"
  assumes no_tag: "NoTagToArray v t = t @ enc v"
    and with_tag: "ToArray fn v t = t @ enc_tag fn (kWireTypeForFieldType ft) @ enc v"
    and sized: "sz v = length (enc v)"
    and reads: "reads get (enc v) v"
    and get_sound: "cis_ok c \<Longrightarrow> sound 1 c (get c)"
    and some_bytes: "enc v \<noteq> []"
begin

lemma enc_inj: "enc v = enc w \<Longrightarrow> int (length (enc v)) \<le> kDefaultTotalBytesLimit \<Longrightarrow> v = w"
  using readsD [OF reads [of v], of "CodedInputStream_new (enc v)" "[]"] readsD [OF reads [of w], of "CodedInputStream_new (enc v)" "[]"]
    new_ok [of "enc v"] by simp

text \<open>A field written into an array is read back tag first.\<close>

lemma field_size: "length (ToArray fn v []) = length (enc_tag fn (kWireTypeForFieldType ft)) + sz v"
  by (simp add: with_tag sized)

end

lemma codec_varint_not_Nil [simp]: "varint n \<noteq> []"
  by (simp add: varint.simps)

lemma codec_enc_not_Nil: "enc_int32 v \<noteq> []" "enc_uint32 w \<noteq> []" "enc_bool b \<noteq> []" "enc_fixed32 w \<noteq> []" "enc_fixed64 l \<noteq> []"
  by (simp_all add: enc_int32_def enc_uint32_def enc_bool_def enc_fixed32_def enc_fixed64_def)

lemma WriteBoolNoTagToArray_eq: "WriteBoolNoTagToArray b t = t @ enc_bool b"
  by (simp add: WriteBoolNoTagToArray_def WriteVarint32ToArray_eq enc_bool_def varint.simps last_byte_def)

lemma reads_64:
  "reads ReadPrimitive_INT64 (varint (unat l)) l" "reads ReadPrimitive_UINT64 (varint (unat l)) l"
  "reads ReadPrimitive_SINT64 (varint (unat (ZigZagEncode64 l))) l" "reads ReadPrimitive_FIXED64 (enc_fixed64 l) l"
  "reads ReadPrimitive_SFIXED64 (enc_fixed64 l) l" "reads ReadPrimitive_DOUBLE (enc_fixed64 l) l"
proof -
  show "reads ReadPrimitive_INT64 (varint (unat l)) l" "reads ReadPrimitive_UINT64 (varint (unat l)) l"
    using readsD [OF reads_varint64] by (auto intro!: readsI simp: ReadPrimitive_INT64_def ReadPrimitive_UINT64_def)
  show "reads ReadPrimitive_SINT64 (varint (unat (ZigZagEncode64 l))) l"
    using readsD [OF reads_varint64] by (auto intro!: readsI simp: ReadPrimitive_SINT64_def ZigZag_round_trip)
  show "reads ReadPrimitive_FIXED64 (enc_fixed64 l) l" "reads ReadPrimitive_SFIXED64 (enc_fixed64 l) l" "reads ReadPrimitive_DOUBLE (enc_fixed64 l) l"
    using readsD [OF reads_fixed64]
    by (auto intro!: readsI simp: ReadPrimitive_FIXED64_def ReadPrimitive_SFIXED64_def ReadPrimitive_DOUBLE_def)
qed

lemma reads_32:
  "reads ReadPrimitive_SINT32 (enc_uint32 (ZigZagEncode32 v)) v" "reads ReadPrimitive_FIXED32 (enc_fixed32 v) v"
  "reads ReadPrimitive_SFIXED32 (enc_fixed32 v) v"
proof -
  show "reads ReadPrimitive_SINT32 (enc_uint32 (ZigZagEncode32 v)) v"
    using readsD [OF reads_enc_uint32] by (auto intro!: readsI simp: ReadPrimitive_SINT32_def ZigZag_round_trip)
  show "reads ReadPrimitive_FIXED32 (enc_fixed32 v) v" "reads ReadPrimitive_SFIXED32 (enc_fixed32 v) v"
    using readsD [OF reads_fixed32] by (auto intro!: readsI simp: ReadPrimitive_FIXED32_def ReadPrimitive_SFIXED32_def)
qed

lemma sound_map: "cis_ok c \<Longrightarrow> sound 1 c r \<Longrightarrow> sound 1 c (got_bind r (\<lambda>x c. Got (f x) c))"
  by (rule sound_bind_1) simp_all

lemma more_sound:
  assumes "cis_ok c"
  shows "sound 1 c (ReadPrimitive_INT64 c)" "sound 1 c (ReadPrimitive_UINT64 c)" "sound 1 c (ReadPrimitive_SINT32 c)"
    "sound 1 c (ReadPrimitive_SINT64 c)" "sound 1 c (ReadPrimitive_FIXED32 c)" "sound 1 c (ReadPrimitive_FIXED64 c)"
    "sound 1 c (ReadPrimitive_SFIXED32 c)" "sound 1 c (ReadPrimitive_SFIXED64 c)" "sound 1 c (ReadPrimitive_DOUBLE c)"
  unfolding ReadPrimitive_INT64_def ReadPrimitive_UINT64_def ReadPrimitive_SINT32_def ReadPrimitive_SINT64_def
    ReadPrimitive_FIXED32_def ReadPrimitive_FIXED64_def ReadPrimitive_SFIXED32_def ReadPrimitive_SFIXED64_def ReadPrimitive_DOUBLE_def
  by (intro sound_map read_sound assms)+

lemmas codec_simps = WriteVarint32SignExtendedToArray_eq WriteVarint64ToArray_eq WriteVarint32ToArray_eq WriteLittleEndian32ToArray_eq
  WriteLittleEndian64ToArray_eq enc_uint32_def [symmetric] WriteTagToArray_eq wire

lemma length_fixed: "length (enc_fixed32 v) = 4" "length (enc_fixed64 l) = 8" "length (enc_bool b) = 1"
  by (simp_all add: enc_fixed32_def enc_fixed64_def enc_bool_def)

lemmas codec_facts = reads_primitive reads_bool reads_64 reads_32 primitive_sound more_sound codec_enc_not_Nil length_fixed
  WriteBoolNoTagToArray_eq

interpretation int32_codec: codec WriteInt32NoTagToArray WriteInt32ToArray Int32Size ReadPrimitive_INT32 FT_INT32 enc_int32
  by unfold_locales
    (simp_all add: codec_simps WriteInt32NoTagToArray_def codec_facts del: One_nat_def)

interpretation int64_codec: codec WriteInt64NoTagToArray WriteInt64ToArray Int64Size ReadPrimitive_INT64 FT_INT64 "(\<lambda>v. varint (unat v))"
  by unfold_locales
    (simp_all add: codec_simps WriteInt64NoTagToArray_def Int64Size_def codec_facts del: One_nat_def)

interpretation uint32_codec: codec WriteUInt32NoTagToArray WriteUInt32ToArray UInt32Size ReadPrimitive_UINT32 FT_UINT32 enc_uint32
  by unfold_locales
    (simp_all add: codec_simps WriteUInt32NoTagToArray_def codec_facts del: One_nat_def)

interpretation uint64_codec: codec WriteUInt64NoTagToArray WriteUInt64ToArray UInt64Size ReadPrimitive_UINT64 FT_UINT64 "(\<lambda>v. varint (unat v))"
  by unfold_locales
    (simp_all add: codec_simps WriteUInt64NoTagToArray_def WriteUInt64ToArray_def UInt64Size_def codec_facts del: One_nat_def)

interpretation sint32_codec: codec WriteSInt32NoTagToArray WriteSInt32ToArray SInt32Size ReadPrimitive_SINT32 FT_SINT32 "(\<lambda>v. enc_uint32 (ZigZagEncode32 v))"
  by unfold_locales
    (simp_all add: codec_simps WriteSInt32NoTagToArray_def WriteSInt32ToArray_def SInt32Size_def codec_facts del: One_nat_def)

interpretation sint64_codec: codec WriteSInt64NoTagToArray WriteSInt64ToArray SInt64Size ReadPrimitive_SINT64 FT_SINT64 "(\<lambda>v. varint (unat (ZigZagEncode64 v)))"
  by unfold_locales
    (simp_all add: codec_simps WriteSInt64NoTagToArray_def WriteSInt64ToArray_def SInt64Size_def codec_facts del: One_nat_def)

interpretation fixed32_codec: codec WriteFixed32NoTagToArray WriteFixed32ToArray "(\<lambda>_. kFixed32Size)" ReadPrimitive_FIXED32 FT_FIXED32 enc_fixed32
  by unfold_locales
    (simp_all add: codec_simps WriteFixed32NoTagToArray_def kFixed32Size_def codec_facts del: One_nat_def)

interpretation fixed64_codec: codec WriteFixed64NoTagToArray WriteFixed64ToArray "(\<lambda>_. kFixed64Size)" ReadPrimitive_FIXED64 FT_FIXED64 enc_fixed64
  by unfold_locales
    (simp_all add: codec_simps WriteFixed64NoTagToArray_def kFixed64Size_def codec_facts del: One_nat_def)

interpretation sfixed32_codec: codec WriteSFixed32NoTagToArray WriteSFixed32ToArray "(\<lambda>_. kSFixed32Size)" ReadPrimitive_SFIXED32 FT_SFIXED32 enc_fixed32
  by unfold_locales
    (simp_all add: codec_simps WriteSFixed32NoTagToArray_def WriteSFixed32ToArray_def kSFixed32Size_def codec_facts del: One_nat_def)

interpretation sfixed64_codec: codec WriteSFixed64NoTagToArray WriteSFixed64ToArray "(\<lambda>_. kSFixed64Size)" ReadPrimitive_SFIXED64 FT_SFIXED64 enc_fixed64
  by unfold_locales
    (simp_all add: codec_simps WriteSFixed64NoTagToArray_def WriteSFixed64ToArray_def kSFixed64Size_def codec_facts del: One_nat_def)

interpretation float_codec: codec WriteFloatNoTagToArray WriteFloatToArray "(\<lambda>_. kFloatSize)" ReadPrimitive_FLOAT FT_FLOAT enc_fixed32
  by unfold_locales
    (simp_all add: codec_simps WriteFloatNoTagToArray_def kFloatSize_def codec_facts del: One_nat_def)

interpretation double_codec: codec WriteDoubleNoTagToArray WriteDoubleToArray "(\<lambda>_. kDoubleSize)" ReadPrimitive_DOUBLE FT_DOUBLE enc_fixed64
  by unfold_locales
    (simp_all add: codec_simps WriteDoubleNoTagToArray_def WriteDoubleToArray_def kDoubleSize_def codec_facts del: One_nat_def)

interpretation bool_codec: codec WriteBoolNoTagToArray WriteBoolToArray "(\<lambda>_. kBoolSize)" ReadPrimitive_BOOL FT_BOOL enc_bool
  by unfold_locales
    (simp_all add: codec_simps kBoolSize_def codec_facts del: One_nat_def)

interpretation enum_codec: codec WriteEnumNoTagToArray WriteEnumToArray EnumSize ReadPrimitive_ENUM FT_ENUM enc_int32
  by unfold_locales
    (simp_all add: codec_simps WriteEnumNoTagToArray_def codec_facts del: One_nat_def)

end
