(* ===== verification/Wire_Skip.thy ===== *)
theory Wire_Skip
  imports Parse_Fields
begin

text \<open>
  Skipping: the operations of \<^verbatim>\<open>CodedInputStream\<close> that move without reading
  (\<^verbatim>\<open>io/coded_stream.cc\<close>), and \<^verbatim>\<open>WireFormatLite::SkipField\<close> and \<^verbatim>\<open>SkipMessage\<close> of
  \<^verbatim>\<open>wire_format_lite.cc\<close>, which drop what \<^verbatim>\<open>WireFormat::SkipField\<close> keeps as unknown fields.
\<close>

section \<open>Moving and limits\<close>

text \<open>There is no underlying stream: skipping past the last buffer calls through the null \<^verbatim>\<open>input_\<close>.\<close>

definition Skip :: "int \<Rightarrow> cis \<Rightarrow> unit got" where
  "Skip count c =
     (if count < 0 then Fails c
      else let original_buffer_size = BufferSize c
      in if count \<le> original_buffer_size then Got () (Advance count c)
      else if buffer_size_after_limit c > 0 then Fails (Advance original_buffer_size c)
      else let count = count - original_buffer_size;
               c = c\<lparr>cur := 0, cur_end := 0\<rparr>;
               closest_limit = min (current_limit c) (total_bytes_limit c);
               bytes_until_limit = closest_limit - total_bytes_read c
      in if bytes_until_limit < count
         then (if bytes_until_limit > 0 then Crash else Fails c)
         else Crash)"

definition BytesUntilLimit :: "cis \<Rightarrow> int" where
  "BytesUntilLimit c =
     (if current_limit c = INT_MAX then - 1
      else let current_position = total_bytes_read c - (BufferSize c + buffer_size_after_limit c)
           in current_limit c - current_position)"

text \<open>The second parameter of the code only sets when a warning is logged.\<close>

definition SetTotalBytesLimit :: "int \<Rightarrow> cis \<Rightarrow> cis" where
  "SetTotalBytesLimit limit c =
     (let current_position = total_bytes_read c - (BufferSize c + buffer_size_after_limit c)
      in RecomputeBufferLimits (c\<lparr>total_bytes_limit := max current_position limit\<rparr>))"

definition SetRecursionLimit :: "int \<Rightarrow> cis \<Rightarrow> cis" where
  "SetRecursionLimit limit c = c\<lparr>recursion_limit := limit\<rparr>"

text \<open>A buffer is handed out as the bytes in it.\<close>

definition GetDirectBufferPointerInline :: "cis \<Rightarrow> bytes" where
  "GetDirectBufferPointerInline c = take (nat (BufferSize c)) (ahead c)"

definition GetDirectBufferPointer :: "cis \<Rightarrow> bytes got" where
  "GetDirectBufferPointer c =
     (if BufferSize c = 0 then got_bind (Refresh c :: unit got) (\<lambda>_ c. Got (GetDirectBufferPointerInline c) c)
      else Got (GetDirectBufferPointerInline c) c)"

text \<open>The outer \<open>None\<close> is a read past the end of the array, the inner one the null pointer.\<close>

definition ExpectTagFromArray :: "bytes \<Rightarrow> uint32 \<Rightarrow> bytes option option" where
  "ExpectTagFromArray buffer expected =
     (if expected < push_bit 7 1 then
        (case buffer of [] \<Rightarrow> None | b # rest \<Rightarrow> Some (if ucast b = expected then Some rest else None))
      else if expected < push_bit 14 1 then
        (case buffer of [] \<Rightarrow> None
         | a # rest \<Rightarrow>
             if a = ucast (expected OR 0x80)
             then (case rest of [] \<Rightarrow> None | b # rest \<Rightarrow> Some (if b = ucast (drop_bit 7 expected) then Some rest else None))
             else Some None)
      else Some None)"

section \<open>Fields without a home\<close>

text \<open>As in \<open>SkipField\<close>, the first argument bounds the calls of the two functions.\<close>

fun WFL_SkipField :: "nat \<Rightarrow> uint32 \<Rightarrow> cis \<Rightarrow> unit got"
and WFL_SkipMessage :: "nat \<Rightarrow> cis \<Rightarrow> unit got" where
  "WFL_SkipField 0 tag c = Runs_on"
| "WFL_SkipField (Suc n) tag c =
     (let wire_type = GetTagWireType tag
      in if wire_type = WIRETYPE_VARINT then got_bind (ReadVarint64 c) (\<lambda>_ c. Got () c)
         else if wire_type = WIRETYPE_FIXED64 then got_bind (ReadLittleEndian64 c) (\<lambda>_ c. Got () c)
         else if wire_type = WIRETYPE_LENGTH_DELIMITED then
           got_bind (ReadVarint32 c) (\<lambda>len c. got_bind (Skip (sint len) c) (\<lambda>_ c. Got () c))
         else if wire_type = WIRETYPE_START_GROUP then
           (let (ok, c) = IncrementRecursionDepth c
            in if \<not> ok then Fails c
               else got_bind (WFL_SkipMessage n c) (\<lambda>_ c.
                 let c = DecrementRecursionDepth c
                 in if LastTagWas (MakeTag (GetTagFieldNumber tag) WIRETYPE_END_GROUP) c then Got () c else Fails c))
         else if wire_type = WIRETYPE_END_GROUP then Fails c
         else if wire_type = WIRETYPE_FIXED32 then got_bind (ReadLittleEndian32 c) (\<lambda>_ c. Got () c)
         else Fails c)"
| "WFL_SkipMessage 0 c = Runs_on"
| "WFL_SkipMessage (Suc n) c =
     got_bind (ReadTag c) (\<lambda>tag c.
       if tag = 0 then Got () c
       else let wire_type = GetTagWireType tag
            in if wire_type = WIRETYPE_END_GROUP then Got () c
               else got_bind (WFL_SkipField n tag c) (\<lambda>_ c. WFL_SkipMessage n c))"

definition FieldSkipper_SkipField :: "uint32 \<Rightarrow> cis \<Rightarrow> unit got" where
  "FieldSkipper_SkipField tag c = WFL_SkipField (skip_bound c) tag c"

definition FieldSkipper_SkipMessage :: "cis \<Rightarrow> unit got" where
  "FieldSkipper_SkipMessage c = WFL_SkipMessage (skip_bound c) c"

section \<open>Moving stays inside the buffer\<close>

lemma Skip_eq:
  assumes "cis_ok c"
  shows "Skip count c =
    (if count < 0 then Fails c
     else if count \<le> int (length (unread c)) then Got () (Advance count c)
     else if buffer_size_after_limit c > 0 then Fails (Advance (int (length (unread c))) c)
     else Fails (c\<lparr>cur := 0, cur_end := 0\<rparr>))"
  using assms unread_length(2) [OF assms]
  by (auto simp: Skip_def Let_def cis_ok_def BufferSize_def)

lemma BytesUntilLimit_eq: "cis_ok c \<Longrightarrow> cur_end c \<noteq> INT_MAX \<Longrightarrow> BytesUntilLimit c = int (length (unread c))"
  using unread_length(2) [of c] by (auto simp: BytesUntilLimit_def Let_def cis_ok_def BufferSize_def)

text \<open>
  The total limit never goes below the current position, and lifting it above the end of the array
  changes nothing.
\<close>

lemma SetTotalBytesLimit_eq:
  assumes "cis_ok c" "int (length (array c)) \<le> limit"
  shows "SetTotalBytesLimit limit c = c\<lparr>total_bytes_limit := limit\<rparr>"
  using assms by (auto simp: SetTotalBytesLimit_def RecomputeBufferLimits_def Let_def cis_ok_def BufferSize_def)

lemma SetTotalBytesLimit_position:
  "total_bytes_read c - (BufferSize c + buffer_size_after_limit c) \<le> total_bytes_limit (SetTotalBytesLimit limit c)"
  by (simp add: SetTotalBytesLimit_def RecomputeBufferLimits_def Let_def)

lemma GetDirectBufferPointer_eq:
  assumes "cis_ok c"
  shows "GetDirectBufferPointer c = (if unread c = [] then Fails c else Got (unread c) c)"
  using unread_length(2) [OF assms]
  by (simp add: GetDirectBufferPointer_def GetDirectBufferPointerInline_def [folded unread_def] Refresh_ok [OF assms])

section \<open>Skipping is reading and forgetting\<close>

text \<open>Same outcome, and after a success the same place in the stream.\<close>

definition same_place :: "'a got \<Rightarrow> 'b got \<Rightarrow> bool" where
  "same_place r s \<longleftrightarrow>
     (case (r, s) of (Got x c, Got y d) \<Rightarrow> c = d | (Fails c, Fails d) \<Rightarrow> True | (Crash, Crash) \<Rightarrow> True
      | (Runs_on, Runs_on) \<Rightarrow> True | _ \<Rightarrow> False)"

lemma same_place_simps [simp]:
  "same_place (Got x c) s \<longleftrightarrow> (\<exists>y. s = Got y c)" "same_place r (Got y d) \<longleftrightarrow> (\<exists>x. r = Got x d)"
  "same_place (Fails c) s \<longleftrightarrow> (\<exists>d. s = Fails d)" "same_place Crash s \<longleftrightarrow> s = Crash" "same_place Runs_on s \<longleftrightarrow> s = Runs_on"
  "same_place r (Fails c) \<longleftrightarrow> (\<exists>d. r = Fails d)" "same_place r Crash \<longleftrightarrow> r = Crash" "same_place r Runs_on \<longleftrightarrow> r = Runs_on"
  by (cases s; cases r; auto simp: same_place_def)+

lemma same_place_bind:
  "same_place r s \<Longrightarrow> (\<And>x y c. r = Got x c \<Longrightarrow> s = Got y c \<Longrightarrow> same_place (f x c) (g y c)) \<Longrightarrow> same_place (got_bind r f) (got_bind s g)"
  by (cases r) auto

lemma same_place_refl: "same_place r r"
  by (cases r) simp_all

lemma same_place_Skip: "cis_ok c \<Longrightarrow> same_place (Skip n c) (ReadString n c)"
  by (simp add: Skip_eq ReadString_def InternalReadStringInline_eq)

lemma same_place_value: "same_place (got_bind r (\<lambda>_ c. Got () c)) (got_bind r (\<lambda>x c. Got (f x) c))"
  by (rule same_place_bind [OF same_place_refl]) simp

lemma SkipField_same_place:
  assumes "cis_ok c" "\<And>c'. cis_ok c' \<Longrightarrow> unread c' = unread c \<Longrightarrow> same_place (WFL_SkipMessage n c') (SkipMessage n [] c')"
  shows "same_place (WFL_SkipField (Suc n) tag c) (SkipField (Suc n) tag ufs c)"
proof -
  have s: "same_place (got_bind (ReadVarint32 c) (\<lambda>len c. got_bind (Skip (sint len) c) (\<lambda>_ c. Got () c)))
      (got_bind (ReadVarint32 c) (\<lambda>len c. got_bind (ReadString (sint len) c) (\<lambda>s c. Got (f s) c)))" for f :: "bytes \<Rightarrow> unknown_field_set"
  proof (rule same_place_bind [OF same_place_refl])
    fix x y c' assume "ReadVarint32 c = Got x c'" "ReadVarint32 c = Got y c'"
    then have "x = y" "cis_ok c'" using sound_GotE [OF _ assms(1)] read_sound(1) [OF assms(1)] by auto
    then show "same_place (got_bind (Skip (sint x) c') (\<lambda>_ c. Got () c)) (got_bind (ReadString (sint y) c') (\<lambda>s c. Got (f s) c))"
      using same_place_Skip by (auto intro!: same_place_bind)
  qed
  obtain ok c1 where i: "IncrementRecursionDepth c = (ok, c1)" by (cases "IncrementRecursionDepth c")
  note d = depth_ok [OF assms(1) i]
  have g: "same_place (got_bind (WFL_SkipMessage n c1) (\<lambda>_ c. let c = DecrementRecursionDepth c in if LastTagWas t c then Got () c else Fails c))
      (got_bind (SkipMessage n [] c1) (\<lambda>grp c. let c = DecrementRecursionDepth c in if LastTagWas t c then Got (f grp) c else Fails c))"
    for t and f :: "unknown_field_set \<Rightarrow> unknown_field_set"
    by (rule same_place_bind [OF assms(2) [OF d(1,2)]]) (simp add: Let_def)
  show ?thesis unfolding WFL_SkipField.simps SkipField.simps Let_def i prod.case using s g [unfolded Let_def] by (simp add: same_place_value)
qed

lemma skip_same_place:
  "(cis_ok c \<longrightarrow> 2 * length (unread c) + 2 \<le> n \<longrightarrow> same_place (WFL_SkipField n tag c) (SkipField n tag ufs c)) \<and>
   (cis_ok c \<longrightarrow> 2 * length (unread c) + 1 \<le> n \<longrightarrow> same_place (WFL_SkipMessage n c) (SkipMessage n ufs c))"
proof (induction n arbitrary: tag ufs c)
  case (Suc n)
  have F: "same_place (WFL_SkipField n tag c) (SkipField n tag ufs c)" if "cis_ok c" "2 * length (unread c) + 2 \<le> n" for tag ufs c
    using Suc that by blast
  have M: "same_place (WFL_SkipMessage n c) (SkipMessage n ufs c)" if "cis_ok c" "2 * length (unread c) + 1 \<le> n" for ufs c
    using Suc that by blast
  have "same_place (WFL_SkipMessage (Suc n) c) (SkipMessage (Suc n) ufs c)" if c: "cis_ok c" "2 * length (unread c) + 1 \<le> Suc n"
  proof -
    obtain t c' where t: "ReadTag c = Got t c'" "cis_ok c'" "t \<noteq> 0 \<Longrightarrow> length (unread c') < length (unread c)"
      using tag_step [OF c(1)] by metis
    have "same_place (got_bind (WFL_SkipField n t c') (\<lambda>_ c. WFL_SkipMessage n c))
        (got_bind (SkipField n t ufs c') (\<lambda>ufs c. SkipMessage n ufs c))" if "t \<noteq> 0"
    proof (rule same_place_bind [OF F [OF t(2)]])
      show b: "2 * length (unread c') + 2 \<le> n" using t(3) [OF that] c(2) by linarith
      fix x y c'' assume "SkipField n t ufs c' = Got y c''"
      moreover have "sound 0 c' (SkipField n t ufs c')" using skip_sound [of c' n t ufs] t(2) b by blast
      ultimately obtain k where "cis_ok c''" "unread c'' = drop k (unread c')"
        using sound_GotE [OF _ t(2)] by metis
      then show "same_place (WFL_SkipMessage n c'') (SkipMessage n y c'')" using b by (intro M) simp_all
    qed
    then show ?thesis unfolding WFL_SkipMessage.simps SkipMessage.simps by (simp add: t(1) Let_def)
  qed
  moreover have "same_place (WFL_SkipField (Suc n) tag c) (SkipField (Suc n) tag ufs c)" if "cis_ok c" "2 * length (unread c) + 2 \<le> Suc n"
    by (rule SkipField_same_place [OF that(1) M]) (use that in simp_all)
  ultimately show ?case by blast
qed simp

lemma FieldSkipper_agrees:
  assumes "cis_ok c"
  shows "same_place (FieldSkipper_SkipField tag c) (SkipField (skip_bound c) tag ufs c)"
    "same_place (FieldSkipper_SkipMessage c) (SkipMessage (skip_bound c) ufs c)"
  using skip_same_place [of c "skip_bound c" tag ufs] assms unread_length(1) [OF assms]
  by (simp_all add: FieldSkipper_SkipField_def FieldSkipper_SkipMessage_def skip_bound_def)

text \<open>Skipping too is safe on any bytes.\<close>

lemma FieldSkipper_sound:
  assumes "cis_ok c"
  shows "case FieldSkipper_SkipField tag c of Got _ c' \<Rightarrow> cis_ok c' \<and> length (unread c') \<le> length (unread c) | Fails c' \<Rightarrow> True
    | Crash \<Rightarrow> False | Runs_on \<Rightarrow> False"
proof -
  have s: "sound 0 c (SkipField (skip_bound c) tag [] c)" by (rule SkipField_bound [OF assms])
  have "same_place (FieldSkipper_SkipField tag c) (SkipField (skip_bound c) tag [] c)" by (rule FieldSkipper_agrees [OF assms])
  with s show ?thesis
    by (cases "SkipField (skip_bound c) tag [] c") (auto elim!: sound_GotE [OF _ assms])
qed

text \<open>
  C9: skipping is reading and forgetting. The lite runtime skips a field exactly where the full
  runtime keeps it as an unknown field: with the same outcome and, after a success, at the same
  place with the same state of the stream, whatever the bytes are and however deeply groups nest;
  and it ends without a read outside of the buffer.
\<close>

theorem skipping_is_forgetting:
  assumes "cis_ok c"
  shows "case (FieldSkipper_SkipField tag c, SkipField (skip_bound c) tag ufs c) of
      (Got _ c1, Got _ c2) \<Rightarrow> c1 = c2 \<and> cis_ok c1 \<and> length (unread c1) \<le> length (unread c)
    | (Fails _, Fails _) \<Rightarrow> True
    | _ \<Rightarrow> False"
  using FieldSkipper_agrees(1) [OF assms, of tag ufs] FieldSkipper_sound [OF assms, of tag]
  by (cases "FieldSkipper_SkipField tag c") auto

theorem skipping_is_forgetting_witness:
  "case (FieldSkipper_SkipField 11 (CodedInputStream_new [16, 1, 12, 24, 7]), SkipField (skip_bound (CodedInputStream_new [16, 1, 12, 24, 7])) 11 []
      (CodedInputStream_new [16, 1, 12, 24, 7])) of
      (Got _ c1, Got _ c2) \<Rightarrow> c1 = c2 \<and> cis_ok c1 \<and> length (unread c1) \<le> length (unread (CodedInputStream_new [16, 1, 12, 24, 7]))
    | (Fails _, Fails _) \<Rightarrow> True
    | _ \<Rightarrow> False"
  by (rule skipping_is_forgetting [OF new_ok(1)]) (simp add: kDefaultTotalBytesLimit_def)

end
