(* ===== verification/Repeated_Scalar.thy ===== *)
theory Repeated_Scalar
  imports Repeated_Field
begin

text \<open>
  \<^verbatim>\<open>RepeatedField<Element>\<close> of \<^verbatim>\<open>repeated_field.h\<close>: the container for repeated numbers. The first
  elements live in the object itself (\<^verbatim>\<open>initial_space_\<close>), more of them in an allocated array, and
  \<^verbatim>\<open>elements_\<close> points to the one or the other. Objects have addresses here, because \<^verbatim>\<open>Swap\<close> handles
  pointers into the objects and \<^verbatim>\<open>CopyFrom\<close> and \<^verbatim>\<open>MergeFrom\<close> may be handed their own object.
\<close>

section \<open>The container\<close>

text \<open>\<^verbatim>\<open>elements_\<close>: the space inside the object at an address, or an allocated array.\<close>

datatype 'a place = Initial_space nat | Allocated "'a list"

record 'a repeated_field =
  rf_elements :: "'a place"
  rf_current_size :: nat
  rf_total_size :: nat
  rf_initial_space :: "'a list"

type_synonym 'a fields = "nat \<Rightarrow> 'a repeated_field"

text \<open>
  The array that \<^verbatim>\<open>elements_\<close> of the object \<open>this\<close> points to. A pointer into another object is never
  followed; it has no array.
\<close>

definition rf_array :: "nat \<Rightarrow> 'a repeated_field \<Rightarrow> 'a list" where
  "rf_array this r =
     (case rf_elements r of Initial_space a \<Rightarrow> (if a = this then rf_initial_space r else []) | Allocated xs \<Rightarrow> xs)"

definition rf_write :: "nat \<Rightarrow> 'a list \<Rightarrow> 'a repeated_field \<Rightarrow> 'a repeated_field" where
  "rf_write this xs r =
     (case rf_elements r of Initial_space a \<Rightarrow> (if a = this then r\<lparr>rf_initial_space := xs\<rparr> else r)
      | Allocated ys \<Rightarrow> r\<lparr>rf_elements := Allocated xs\<rparr>)"

text \<open>\<open>junk\<close> is what memory holds that nothing has written yet.\<close>

definition RF_new :: "(nat \<Rightarrow> 'a) \<Rightarrow> nat \<Rightarrow> 'a repeated_field" where
  "RF_new junk this =
     \<lparr>rf_elements = Initial_space this, rf_current_size = 0, rf_total_size = kInitialSize,
      rf_initial_space = map junk [0..<kInitialSize]\<rparr>"

definition RF_size :: "'a repeated_field \<Rightarrow> nat" where
  "RF_size r = rf_current_size r"

definition RF_Capacity :: "'a repeated_field \<Rightarrow> nat" where
  "RF_Capacity r = rf_total_size r"

definition RF_Get :: "nat \<Rightarrow> 'a repeated_field \<Rightarrow> nat \<Rightarrow> 'a option" where
  "RF_Get this r index = (if index < length (rf_array this r) then Some (rf_array this r ! index) else None)"

definition RF_Set :: "nat \<Rightarrow> nat \<Rightarrow> 'a \<Rightarrow> 'a repeated_field \<Rightarrow> 'a repeated_field option" where
  "RF_Set this index v r =
     (if index < length (rf_array this r) then Some (rf_write this ((rf_array this r)[index := v]) r) else None)"

text \<open>\<^verbatim>\<open>MoveArray(to, from, n)\<close> and \<^verbatim>\<open>CopyArray(to + k, from, n)\<close>.\<close>

definition MoveArray :: "'a list \<Rightarrow> 'a list \<Rightarrow> nat \<Rightarrow> 'a list" where
  "MoveArray to from array_size = take array_size from @ drop array_size to"

definition CopyArray :: "'a list \<Rightarrow> nat \<Rightarrow> 'a list \<Rightarrow> nat \<Rightarrow> 'a list" where
  "CopyArray to k from array_size = take k to @ take array_size from @ drop (k + array_size) to"

definition RF_Reserve :: "(nat \<Rightarrow> 'a) \<Rightarrow> nat \<Rightarrow> nat \<Rightarrow> 'a repeated_field \<Rightarrow> 'a repeated_field" where
  "RF_Reserve junk this new_size r =
     (if rf_total_size r \<ge> new_size then r
      else let old_elements = rf_array this r;
               total_size = max (rf_total_size r * 2) new_size
           in r\<lparr>rf_total_size := total_size,
                rf_elements := Allocated (MoveArray (map junk [0..<total_size]) old_elements (rf_current_size r))\<rparr>)"

text \<open>Without room a write through \<^verbatim>\<open>elements_\<close> is undefined.\<close>

definition RF_AddAlreadyReserved :: "nat \<Rightarrow> 'a \<Rightarrow> 'a repeated_field \<Rightarrow> 'a repeated_field option" where
  "RF_AddAlreadyReserved this v r =
     (if rf_current_size r < length (rf_array this r)
      then Some ((rf_write this ((rf_array this r)[rf_current_size r := v]) r)\<lparr>rf_current_size := rf_current_size r + 1\<rparr>)
      else None)"

definition RF_Add :: "(nat \<Rightarrow> 'a) \<Rightarrow> nat \<Rightarrow> 'a \<Rightarrow> 'a repeated_field \<Rightarrow> 'a repeated_field option" where
  "RF_Add junk this v r =
     (let r = (if rf_current_size r = rf_total_size r then RF_Reserve junk this (rf_total_size r + 1) r else r)
      in RF_AddAlreadyReserved this v r)"

definition RF_RemoveLast :: "'a repeated_field \<Rightarrow> 'a repeated_field option" where
  "RF_RemoveLast r = (if rf_current_size r > 0 then Some (r\<lparr>rf_current_size := rf_current_size r - 1\<rparr>) else None)"

definition RF_Clear :: "'a repeated_field \<Rightarrow> 'a repeated_field" where
  "RF_Clear r = r\<lparr>rf_current_size := 0\<rparr>"

definition RF_Truncate :: "nat \<Rightarrow> 'a repeated_field \<Rightarrow> 'a repeated_field option" where
  "RF_Truncate new_size r = (if new_size \<le> rf_current_size r then Some (r\<lparr>rf_current_size := new_size\<rparr>) else None)"

definition RF_SwapElements :: "nat \<Rightarrow> nat \<Rightarrow> nat \<Rightarrow> 'a repeated_field \<Rightarrow> 'a repeated_field option" where
  "RF_SwapElements this index1 index2 r =
     (let xs = rf_array this r
      in if index1 < length xs \<and> index2 < length xs
         then Some (rf_write this (xs[index1 := xs ! index2, index2 := xs ! index1]) r) else None)"

definition RF_SpaceUsedExcludingSelf :: "nat \<Rightarrow> nat \<Rightarrow> 'a repeated_field \<Rightarrow> nat" where
  "RF_SpaceUsedExcludingSelf sizeof_Element this r =
     (if rf_elements r \<noteq> Initial_space this then rf_total_size r * sizeof_Element else 0)"

text \<open>Operations with a second object, which may be the same one.\<close>

definition RF_MergeFrom :: "(nat \<Rightarrow> 'a) \<Rightarrow> nat \<Rightarrow> nat \<Rightarrow> 'a fields \<Rightarrow> 'a fields" where
  "RF_MergeFrom junk this other h =
     (let h = h(this := RF_Reserve junk this (rf_current_size (h this) + rf_current_size (h other)) (h this));
          h = h(this := rf_write this (CopyArray (rf_array this (h this)) (rf_current_size (h this))
                  (rf_array other (h other)) (rf_current_size (h other))) (h this))
      in h(this := (h this)\<lparr>rf_current_size := rf_current_size (h this) + rf_current_size (h other)\<rparr>))"

definition RF_CopyFrom :: "(nat \<Rightarrow> 'a) \<Rightarrow> nat \<Rightarrow> nat \<Rightarrow> 'a fields \<Rightarrow> 'a fields" where
  "RF_CopyFrom junk this other h = RF_MergeFrom junk this other (h(this := RF_Clear (h this)))"

definition RF_copy :: "(nat \<Rightarrow> 'a) \<Rightarrow> nat \<Rightarrow> nat \<Rightarrow> 'a fields \<Rightarrow> 'a fields" where
  "RF_copy junk this other h = RF_CopyFrom junk this other (h(this := RF_new junk this))"

definition RF_Swap :: "nat \<Rightarrow> nat \<Rightarrow> 'a fields \<Rightarrow> 'a fields" where
  "RF_Swap this other h =
     (let swap_elements = rf_elements (h this);
          swap_current_size = rf_current_size (h this);
          swap_total_size = rf_total_size (h this);
          swap_initial_space = rf_initial_space (h this);
          h = h(this := (h this)\<lparr>rf_elements := rf_elements (h other), rf_current_size := rf_current_size (h other),
                rf_total_size := rf_total_size (h other),
                rf_initial_space := MoveArray (rf_initial_space (h this)) (rf_initial_space (h other)) kInitialSize\<rparr>);
          h = h(other := (h other)\<lparr>rf_elements := swap_elements, rf_current_size := swap_current_size,
                rf_total_size := swap_total_size,
                rf_initial_space := MoveArray (rf_initial_space (h other)) swap_initial_space kInitialSize\<rparr>);
          h = (if rf_elements (h this) = Initial_space other then h(this := (h this)\<lparr>rf_elements := Initial_space this\<rparr>) else h)
      in if rf_elements (h other) = Initial_space this then h(other := (h other)\<lparr>rf_elements := Initial_space other\<rparr>) else h)"

section \<open>The representation invariant\<close>

definition rf_ok :: "nat \<Rightarrow> 'a repeated_field \<Rightarrow> bool" where
  "rf_ok this r \<longleftrightarrow>
     rf_current_size r \<le> rf_total_size r \<and> length (rf_initial_space r) = kInitialSize \<and>
     (case rf_elements r of Initial_space a \<Rightarrow> a = this \<and> rf_total_size r = kInitialSize
      | Allocated xs \<Rightarrow> length xs = rf_total_size r)"

definition rf_contents :: "nat \<Rightarrow> 'a repeated_field \<Rightarrow> 'a list" where
  "rf_contents this r = take (rf_current_size r) (rf_array this r)"

lemma rf_array_length: "rf_ok this r \<Longrightarrow> length (rf_array this r) = rf_total_size r"
  by (auto simp: rf_ok_def rf_array_def split: place.splits)

lemma rf_write_simps [simp]:
  "rf_current_size (rf_write this xs r) = rf_current_size r" "rf_total_size (rf_write this xs r) = rf_total_size r"
  by (simp_all add: rf_write_def split: place.split)

lemma rf_write_array: "rf_ok this r \<Longrightarrow> rf_array this (rf_write this xs r) = xs"
  by (auto simp: rf_ok_def rf_write_def rf_array_def split: place.splits)

lemma rf_write_ok: "rf_ok this r \<Longrightarrow> length xs = rf_total_size r \<Longrightarrow> rf_ok this (rf_write this xs r)"
  by (auto simp: rf_ok_def rf_write_def split: place.splits)

lemma rf_size_array [simp]: "rf_array this (r\<lparr>rf_current_size := n\<rparr>) = rf_array this r"
  by (simp add: rf_array_def split: place.split)

lemma rf_size_ok: "rf_ok this r \<Longrightarrow> n \<le> rf_total_size r \<Longrightarrow> rf_ok this (r\<lparr>rf_current_size := n\<rparr>)"
  by (simp add: rf_ok_def split: place.splits)

lemma rf_contents_length: "rf_ok this r \<Longrightarrow> length (rf_contents this r) = RF_size r"
  by (simp add: rf_contents_def rf_array_length RF_size_def) (simp add: rf_ok_def)

lemma RF_new_ok: "rf_ok this (RF_new junk this)" "rf_contents this (RF_new junk this) = []"
  by (simp_all add: RF_new_def rf_ok_def rf_contents_def)

lemma RF_Reserve_ok:
  assumes "rf_ok this r"
  shows "rf_ok this (RF_Reserve junk this n r)" "rf_contents this (RF_Reserve junk this n r) = rf_contents this r"
    "n \<le> rf_total_size (RF_Reserve junk this n r)" "rf_current_size (RF_Reserve junk this n r) = rf_current_size r"
  using assms rf_array_length [OF assms]
  by (auto simp: RF_Reserve_def Let_def rf_ok_def rf_contents_def rf_array_def MoveArray_def)

lemma RF_AddAlreadyReserved_ok:
  assumes "rf_ok this r" "rf_current_size r < rf_total_size r"
  obtains r' where "RF_AddAlreadyReserved this v r = Some r'" "rf_ok this r'" "rf_contents this r' = rf_contents this r @ [v]"
    "rf_total_size r' = rf_total_size r" "rf_current_size r' = rf_current_size r + 1"
proof
  let ?r = "(rf_write this ((rf_array this r)[rf_current_size r := v]) r)\<lparr>rf_current_size := rf_current_size r + 1\<rparr>"
  show "RF_AddAlreadyReserved this v r = Some ?r" using assms by (simp add: RF_AddAlreadyReserved_def rf_array_length)
  show "rf_ok this ?r" using assms by (intro rf_size_ok rf_write_ok) (simp_all add: rf_array_length)
  show "rf_contents this ?r = rf_contents this r @ [v]"
    using assms by (simp add: rf_contents_def rf_write_array rf_array_length take_Suc_conv_snoc)
qed simp_all

text \<open>Adding at the end, whatever the capacity, changes nothing before it.\<close>

lemma RF_Add_ok:
  assumes "rf_ok this r"
  obtains r' where "RF_Add junk this v r = Some r'" "rf_ok this r'" "rf_contents this r' = rf_contents this r @ [v]"
proof (cases "rf_current_size r = rf_total_size r")
  case True
  note R = RF_Reserve_ok [OF assms, where junk = junk and n = "rf_total_size r + 1"]
  have "rf_current_size (RF_Reserve junk this (rf_total_size r + 1) r) < rf_total_size (RF_Reserve junk this (rf_total_size r + 1) r)"
    using R(3,4) True by simp
  then obtain r' where "RF_AddAlreadyReserved this v (RF_Reserve junk this (rf_total_size r + 1) r) = Some r'" "rf_ok this r'"
      "rf_contents this r' = rf_contents this (RF_Reserve junk this (rf_total_size r + 1) r) @ [v]"
    by (rule RF_AddAlreadyReserved_ok [OF R(1)])
  then show thesis using that True R(2) by (simp add: RF_Add_def)
next
  case False
  then have "rf_current_size r < rf_total_size r" using assms by (simp add: rf_ok_def)
  then obtain r' where "RF_AddAlreadyReserved this v r = Some r'" "rf_ok this r'" "rf_contents this r' = rf_contents this r @ [v]"
    by (rule RF_AddAlreadyReserved_ok [OF assms])
  then show thesis using that False by (simp add: RF_Add_def)
qed

lemma RF_Get_contents: "rf_ok this r \<Longrightarrow> index < RF_size r \<Longrightarrow> RF_Get this r index = Some (rf_contents this r ! index)"
  by (simp add: RF_Get_def rf_contents_def RF_size_def rf_array_length) (simp add: rf_ok_def)

lemma RF_Set_ok:
  assumes "rf_ok this r" "index < RF_size r"
  shows "\<exists>r'. RF_Set this index v r = Some r' \<and> rf_ok this r' \<and> rf_contents this r' = (rf_contents this r)[index := v]"
proof -
  have "index < rf_total_size r" using assms by (simp add: rf_ok_def RF_size_def)
  then show ?thesis using assms
    by (simp add: RF_Set_def rf_array_length rf_write_ok rf_contents_def rf_write_array take_update_swap)
qed

lemma RF_Clear_ok: "rf_ok this r \<Longrightarrow> rf_ok this (RF_Clear r)" "rf_contents this (RF_Clear r) = []"
  by (simp_all add: RF_Clear_def rf_size_ok rf_contents_def)

lemma RF_Truncate_ok:
  "rf_ok this r \<Longrightarrow> RF_Truncate n r = Some r' \<Longrightarrow> rf_ok this r' \<and> rf_contents this r' = take n (rf_contents this r)"
  using rf_size_ok [of this r n] by (auto simp: RF_Truncate_def rf_ok_def rf_contents_def min_def split: if_splits)

lemma RF_RemoveLast_ok:
  assumes "rf_ok this r" "RF_RemoveLast r = Some r'"
  shows "rf_ok this r' \<and> rf_contents this r' = butlast (rf_contents this r)"
proof -
  have "r' = r\<lparr>rf_current_size := rf_current_size r - 1\<rparr>" "rf_current_size r \<le> rf_total_size r"
    using assms by (auto simp: RF_RemoveLast_def rf_ok_def split: if_splits)
  then show ?thesis using rf_size_ok [OF assms(1), of "rf_current_size r - 1"]
    by (simp add: rf_contents_def butlast_take rf_array_length [OF assms(1)])
qed

section \<open>Two objects\<close>

lemma RF_MergeFrom_ok:
  assumes "rf_ok this (h this)" "rf_ok other (h other)"
  shows "rf_ok this (RF_MergeFrom junk this other h this)"
    "rf_contents this (RF_MergeFrom junk this other h this) = rf_contents this (h this) @ rf_contents other (h other)"
    "a \<noteq> this \<Longrightarrow> RF_MergeFrom junk this other h a = h a"
proof -
  define n where "n = rf_current_size (h this) + rf_current_size (h other)"
  define r where "r = RF_Reserve junk this n (h this)"
  define xs where "xs = CopyArray (rf_array this r) (rf_current_size r) (rf_array other ((h(this := r)) other)) (rf_current_size (h other))"
  note R = RF_Reserve_ok [OF assms(1), where junk = junk and n = n, folded r_def]
  have o: "rf_ok other ((h(this := r)) other)" "rf_contents other ((h(this := r)) other) = rf_contents other (h other)"
      "rf_current_size ((h(this := r)) other) = rf_current_size (h other)"
    using R assms(2) by auto
  have l: "length (rf_array other ((h(this := r)) other)) \<ge> rf_current_size (h other)"
    using rf_array_length [OF o(1)] o(1,3) by (simp add: rf_ok_def)
  have k: "length (rf_array this r) \<ge> n" "rf_current_size r = rf_current_size (h this)" using R rf_array_length [OF R(1)] by simp_all
  have len: "length xs = rf_total_size r"
    using l k rf_array_length [OF R(1)] by (simp add: xs_def CopyArray_def n_def)
  have xs: "take n xs = rf_contents this (h this) @ rf_contents other (h other)"
  proof -
    have "xs = rf_contents this (h this) @ rf_contents other (h other) @ drop (rf_current_size r + rf_current_size (h other)) (rf_array this r)"
      unfolding R(2) [symmetric] o(2) [symmetric] by (simp only: xs_def CopyArray_def rf_contents_def o(3))
    then show ?thesis
      using rf_contents_length [OF assms(1)] rf_contents_length [OF assms(2)] by (simp add: n_def RF_size_def)
  qed
  have e: "RF_MergeFrom junk this other h = h(this := (rf_write this xs r)\<lparr>rf_current_size := n\<rparr>)"
    by (simp add: RF_MergeFrom_def Let_def xs_def r_def n_def RF_Reserve_ok(4) [OF assms(1)])
  show "rf_ok this (RF_MergeFrom junk this other h this)"
    unfolding e using rf_write_ok [OF R(1) len] R(3) by (simp add: rf_size_ok)
  show "rf_contents this (RF_MergeFrom junk this other h this) = rf_contents this (h this) @ rf_contents other (h other)"
    unfolding e using xs by (simp add: rf_contents_def rf_write_array [OF R(1)])
  show "RF_MergeFrom junk this other h a = h a" if "a \<noteq> this" unfolding e using that by simp
qed

lemma RF_CopyFrom_ok:
  assumes "rf_ok this (h this)" "rf_ok other (h other)" "this \<noteq> other"
  shows "rf_ok this (RF_CopyFrom junk this other h this)"
    "rf_contents this (RF_CopyFrom junk this other h this) = rf_contents other (h other)"
    "a \<noteq> this \<Longrightarrow> RF_CopyFrom junk this other h a = h a"
  using RF_MergeFrom_ok [where this = this and h = "h(this := RF_Clear (h this))" and other = other and junk = junk] RF_Clear_ok [of this "h this"] assms
  by (simp_all add: RF_CopyFrom_def)

lemma RF_CopyFrom_self:
  assumes "rf_ok this (h this)"
  shows "rf_contents this (RF_CopyFrom junk this this h this) = []"
  using RF_MergeFrom_ok [where this = this and h = "h(this := RF_Clear (h this))" and other = this and junk = junk] RF_Clear_ok [of this "h this"] assms
  by (simp add: RF_CopyFrom_def)

lemma RF_Swap_ok:
  assumes "rf_ok this (h this)" "rf_ok other (h other)" "this \<noteq> other"
  shows "rf_ok this (RF_Swap this other h this)" "rf_ok other (RF_Swap this other h other)"
    "rf_contents this (RF_Swap this other h this) = rf_contents other (h other)"
    "rf_contents other (RF_Swap this other h other) = rf_contents this (h this)"
    "a \<noteq> this \<Longrightarrow> a \<noteq> other \<Longrightarrow> RF_Swap this other h a = h a"
  using assms
  by (auto simp: RF_Swap_def Let_def rf_ok_def rf_contents_def rf_array_def MoveArray_def split: place.splits)

lemma RF_Swap_self: "rf_ok this (h this) \<Longrightarrow> RF_Swap this this h = h"
  by (auto simp: RF_Swap_def Let_def rf_ok_def MoveArray_def fun_eq_iff)

text \<open>
  C12: a repeated field of numbers is a list. Adding appends, whether the elements still fit into the object or
  not; merging appends the other object's elements; copying replaces by them; swapping exchanges
  the two lists and leaves no pointer into the other object; and all of that keeps the
  representation invariant and the other object. Copying an object into itself empties it.
\<close>

theorem repeated_numbers_are_lists:
  assumes "rf_ok a (h a)" "rf_ok b (h b)" "a \<noteq> b"
  shows "(\<exists>r. RF_Add junk a v (h a) = Some r \<and> rf_ok a r \<and> rf_contents a r = rf_contents a (h a) @ [v]) \<and>
    (let h' = RF_MergeFrom junk a b h
     in rf_ok a (h' a) \<and> h' b = h b \<and> rf_contents a (h' a) = rf_contents a (h a) @ rf_contents b (h b)) \<and>
    (let h' = RF_CopyFrom junk a b h in rf_ok a (h' a) \<and> h' b = h b \<and> rf_contents a (h' a) = rf_contents b (h b)) \<and>
    (let h' = RF_Swap a b h
     in rf_ok a (h' a) \<and> rf_ok b (h' b) \<and> rf_contents a (h' a) = rf_contents b (h b) \<and> rf_contents b (h' b) = rf_contents a (h a)) \<and>
    rf_contents a (RF_CopyFrom junk a a h a) = []"
proof -
  have b: "b \<noteq> a" using assms(3) by simp
  obtain r where "RF_Add junk a v (h a) = Some r" "rf_ok a r" "rf_contents a r = rf_contents a (h a) @ [v]"
    by (rule RF_Add_ok [OF assms(1)])
  then show ?thesis
    using RF_MergeFrom_ok [of a h b, OF assms(1,2)] RF_CopyFrom_ok [OF assms] RF_Swap_ok(1-4) [OF assms] RF_CopyFrom_self [of a h, OF assms(1)] b
    by (simp add: Let_def)
qed

theorem repeated_numbers_are_lists_witness:
  "let h = (\<lambda>a. if a = 0 then \<lparr>rf_elements = Initial_space 0, rf_current_size = 1, rf_total_size = 4, rf_initial_space = [7, 0, 0, 0]\<rparr>
       else \<lparr>rf_elements = Allocated [1, 2, 3, 4, 5, 0, 0, 0], rf_current_size = 5, rf_total_size = 8, rf_initial_space = [0, 0, 0, 0]\<rparr>)
   in rf_contents 0 (RF_Swap 0 1 h 0) = [1, 2, 3, 4, 5] \<and> rf_contents 1 (RF_Swap 0 1 h 1) = [7::nat] \<and>
     rf_contents 0 (RF_MergeFrom (\<lambda>i. i) 0 1 h 0) = [7, 1, 2, 3, 4, 5] \<and> rf_contents 0 (RF_CopyFrom (\<lambda>i. i) 0 0 h 0) = []"
proof -
  define h :: "nat fields" where "h = (\<lambda>a. if a = 0
       then \<lparr>rf_elements = Initial_space 0, rf_current_size = 1, rf_total_size = 4, rf_initial_space = [7, 0, 0, 0]\<rparr>
       else \<lparr>rf_elements = Allocated [1, 2, 3, 4, 5, 0, 0, 0], rf_current_size = 5, rf_total_size = 8, rf_initial_space = [0, 0, 0, 0]\<rparr>)"
  have ok: "rf_ok 0 (h 0)" "rf_ok 1 (h 1)" "(0::nat) \<noteq> 1" by (simp_all add: h_def rf_ok_def kInitialSize_def)
  have v: "rf_contents 0 (h 0) = [7]" "rf_contents 1 (h 1) = [1, 2, 3, 4, 5]" by (simp_all add: h_def rf_contents_def rf_array_def)
  from repeated_numbers_are_lists [OF ok, of "\<lambda>i. i" 0] show ?thesis
    unfolding h_def [symmetric] v Let_def by simp
qed

end
