(* ===== verification/Field_Lists.thy ===== *)
theory Field_Lists
  imports Field_Codecs Wire_Skip Repeated_Scalar
begin

text \<open>
  Repeated fields of numbers on the wire: the loops of \<^verbatim>\<open>wire_format_lite_inl.h\<close> that read one
  value after the other, those that read values of fixed width straight from the buffer, and packed
  fields; and the readers of groups and of messages through their virtual functions. The template parameters are
  the arguments \<open>get\<close> (\<^verbatim>\<open>ReadPrimitive<CType, DeclaredType>\<close>) and \<open>from_array\<close>
  (\<^verbatim>\<open>ReadPrimitiveFromArray\<close>).
\<close>

section \<open>Repeated values\<close>

primrec repeated_loop :: "nat \<Rightarrow> (cis \<Rightarrow> 'v got) \<Rightarrow> nat \<Rightarrow> uint32 \<Rightarrow> 'v repeated_field \<Rightarrow> cis \<Rightarrow> 'v repeated_field got" where
  "repeated_loop this get 0 tag values c = Got values c"
| "repeated_loop this get (Suc elements_already_reserved) tag values c =
     got_bind (ExpectTag tag c) (\<lambda>expected c.
       if expected
       then got_bind (get c) (\<lambda>v c.
              case RF_AddAlreadyReserved this v values of
                None \<Rightarrow> Crash
              | Some values \<Rightarrow> repeated_loop this get elements_already_reserved tag values c)
       else Got values c)"

definition ReadRepeatedPrimitive ::
    "(nat \<Rightarrow> 'v) \<Rightarrow> nat \<Rightarrow> (cis \<Rightarrow> 'v got) \<Rightarrow> uint32 \<Rightarrow> 'v repeated_field \<Rightarrow> cis \<Rightarrow> 'v repeated_field got" where
  "ReadRepeatedPrimitive junk this get tag values c =
     got_bind (get c) (\<lambda>v c.
       case RF_Add junk this v values of
         None \<Rightarrow> Crash
       | Some values \<Rightarrow> repeated_loop this get (RF_Capacity values - RF_size values) tag values c)"

text \<open>
  The tight loop over the buffer: the values, and how many were read. \<open>None\<close> is a read past the end of the
  array or a write past the end of the values.
\<close>

primrec fixed_loop ::
    "nat \<Rightarrow> (bytes \<Rightarrow> ('v \<times> bytes) option) \<Rightarrow> nat \<Rightarrow> uint32 \<Rightarrow> 'v repeated_field \<Rightarrow> bytes \<Rightarrow> ('v repeated_field \<times> nat) option" where
  "fixed_loop this from_array 0 tag values buffer = Some (values, 0)"
| "fixed_loop this from_array (Suc n) tag values buffer =
     (case ExpectTagFromArray buffer tag of
        None \<Rightarrow> None
      | Some None \<Rightarrow> Some (values, 0)
      | Some (Some buffer) \<Rightarrow>
          Option.bind (from_array buffer) (\<lambda>(v, buffer).
          Option.bind (RF_AddAlreadyReserved this v values) (\<lambda>values.
          map_option (apsnd Suc) (fixed_loop this from_array n tag values buffer))))"

definition ReadRepeatedFixedSizePrimitive ::
    "(nat \<Rightarrow> 'v) \<Rightarrow> nat \<Rightarrow> (cis \<Rightarrow> 'v got) \<Rightarrow> (bytes \<Rightarrow> ('v \<times> bytes) option) \<Rightarrow> nat \<Rightarrow> nat \<Rightarrow> uint32 \<Rightarrow>
      'v repeated_field \<Rightarrow> cis \<Rightarrow> 'v repeated_field got" where
  "ReadRepeatedFixedSizePrimitive junk this get from_array sizeof_value tag_size tag values c =
     got_bind (get c) (\<lambda>v c.
       case RF_Add junk this v values of
         None \<Rightarrow> Crash
       | Some values \<Rightarrow>
           let size = BufferSize c
           in if size > 0
              then let per_value_size = tag_size + sizeof_value;
                       elements_available = min (RF_Capacity values - RF_size values) (nat size div per_value_size)
                   in case fixed_loop this from_array elements_available tag values (ahead c) of
                        None \<Rightarrow> Crash
                      | Some (values, num_read) \<Rightarrow>
                          let read_bytes = num_read * per_value_size
                          in if read_bytes > 0
                             then (case Skip (int read_bytes) c of
                                     Got u c \<Rightarrow> Got values c | Fails c \<Rightarrow> Got values c | Crash \<Rightarrow> Crash | Runs_on \<Rightarrow> Runs_on)
                             else Got values c
              else Got values c)"

section \<open>Packed values\<close>

text \<open>Every turn reads at least one byte, so that one more turn than bytes is enough.\<close>

primrec packed_loop ::
    "(nat \<Rightarrow> 'v) \<Rightarrow> nat \<Rightarrow> (cis \<Rightarrow> 'v got) \<Rightarrow> ('v \<Rightarrow> bool) \<Rightarrow> nat \<Rightarrow> 'v repeated_field \<Rightarrow> cis \<Rightarrow> 'v repeated_field got" where
  "packed_loop junk this get is_valid 0 values c = Runs_on"
| "packed_loop junk this get is_valid (Suc n) values c =
     (if BytesUntilLimit c > 0
      then got_bind (get c) (\<lambda>v c.
             if is_valid v
             then (case RF_Add junk this v values of
                     None \<Rightarrow> Crash | Some values \<Rightarrow> packed_loop junk this get is_valid n values c)
             else packed_loop junk this get is_valid n values c)
      else Got values c)"

definition ReadPackedPrimitive ::
    "(nat \<Rightarrow> 'v) \<Rightarrow> nat \<Rightarrow> (cis \<Rightarrow> 'v got) \<Rightarrow> 'v repeated_field \<Rightarrow> cis \<Rightarrow> 'v repeated_field got" where
  "ReadPackedPrimitive junk this get values c =
     got_bind (ReadVarint32 c) (\<lambda>len c.
       let (limit, c) = PushLimit (sint len) c
       in got_bind (packed_loop junk this get (\<lambda>_. True) (Suc (nat (BufferSize c))) values c)
            (\<lambda>values c. Got values (PopLimit limit c)))"

definition ReadPackedEnumNoInline ::
    "(nat \<Rightarrow> int32) \<Rightarrow> nat \<Rightarrow> (int32 \<Rightarrow> bool) \<Rightarrow> int32 repeated_field \<Rightarrow> cis \<Rightarrow> int32 repeated_field got" where
  "ReadPackedEnumNoInline junk this is_valid values c =
     got_bind (ReadVarint32 c) (\<lambda>len c.
       let (limit, c) = PushLimit (sint len) c
       in got_bind (packed_loop junk this ReadPrimitive_ENUM is_valid (Suc (nat (BufferSize c))) values c)
            (\<lambda>values c. Got values (PopLimit limit c)))"

section \<open>Groups and messages\<close>

definition ReadGroup :: "('m \<Rightarrow> cis \<Rightarrow> 'm got) \<Rightarrow> int32 \<Rightarrow> 'm \<Rightarrow> cis \<Rightarrow> 'm got" where
  "ReadGroup MergePartialFromCodedStream fn value c =
     (let (ok, c) = IncrementRecursionDepth c
      in if \<not> ok then Fails c
         else got_bind (MergePartialFromCodedStream value c) (\<lambda>value c.
           let c = DecrementRecursionDepth c
           in if \<not> LastTagWas (MakeTag fn WIRETYPE_END_GROUP) c then Fails c else Got value c))"

definition ReadMessage :: "('m \<Rightarrow> cis \<Rightarrow> 'm got) \<Rightarrow> 'm \<Rightarrow> cis \<Rightarrow> 'm got" where
  "ReadMessage MergePartialFromCodedStream value c =
     got_bind (ReadVarint32 c) (\<lambda>len c.
       let (ok, c) = IncrementRecursionDepth c
       in if \<not> ok then Fails c
          else let (limit, c) = PushLimit (sint len) c
               in got_bind (MergePartialFromCodedStream value c) (\<lambda>value c.
                    if \<not> ConsumedEntireMessage c then Fails c
                    else Got value (DecrementRecursionDepth (PopLimit limit c))))"

definition ReadGroupNoVirtual :: "('m \<Rightarrow> cis \<Rightarrow> 'm got) \<Rightarrow> int32 \<Rightarrow> 'm \<Rightarrow> cis \<Rightarrow> 'm got" where
  "ReadGroupNoVirtual MergePartialFromCodedStream fn value c =
     (let (ok, c) = IncrementRecursionDepth c
      in if \<not> ok then Fails c
         else got_bind (MergePartialFromCodedStream value c) (\<lambda>value c.
           let c = DecrementRecursionDepth c
           in if \<not> LastTagWas (MakeTag fn WIRETYPE_END_GROUP) c then Fails c else Got value c))"

section \<open>Reading lists back\<close>

lemma Advance_ok:
  assumes "cis_ok c" "unread c = bs @ rest"
  shows "cis_ok (Advance (int (length bs)) c)" "unread (Advance (int (length bs)) c) = rest"
    "cur_end (Advance (int (length bs)) c) = cur_end c"
  using moves_ok [OF assms(1) moves_simps(1), of "length bs"] moves_unread [OF assms(1) moves_simps(1), of "length bs"] assms(2)
  by (simp_all add: Advance_def)

lemma RF_Add_result:
  "rf_ok this r \<Longrightarrow> \<exists>r'. RF_Add junk this v r = Some r' \<and> rf_ok this r' \<and> rf_contents this r' = rf_contents this r @ [v]"
  by (rule RF_Add_ok [where junk = junk and v = v]) auto

text \<open>The bytes of one more element: its tag of one byte and its value.\<close>

definition element_bytes :: "uint32 \<Rightarrow> ('v \<Rightarrow> bytes) \<Rightarrow> 'v \<Rightarrow> bytes" where
  "element_bytes tag enc v = ucast tag # enc v"

text \<open>Where a run of elements with this tag ends.\<close>

definition run_ends :: "uint32 \<Rightarrow> bytes \<Rightarrow> bool" where
  "run_ends tag rest \<longleftrightarrow> rest = [] \<or> hd rest \<noteq> ucast tag"

lemma ucast_tag_eq:
  fixes b :: byte and tag :: uint32
  assumes "unat tag < 128"
  shows "(ucast b :: uint32) = tag \<longleftrightarrow> b = ucast tag"
proof -
  have "ucast (ucast tag :: byte) = tag"
    using assms by (simp add: word_unat_eq_iff unsigned_ucast_eq unsigned_take_bit_eq take_bit_nat_eq_self)
  moreover have "ucast (ucast b :: uint32) = b" by (simp add: ucast_up_ucast_id is_up)
  ultimately show ?thesis by metis
qed

lemma ExpectTag_next:
  assumes "cis_ok c" "unat tag < 128"
  shows "unread c = ucast tag # bs \<Longrightarrow> ExpectTag tag c = Got True (Advance 1 c)"
    "run_ends tag (unread c) \<Longrightarrow> ExpectTag tag c = Got False c"
proof -
  note e = ucast_tag_eq [OF assms(2)]
  show "unread c = ucast tag # bs \<Longrightarrow> ExpectTag tag c = Got True (Advance 1 c)"
    using e [of "ucast tag"] by (simp add: ExpectTag_head [OF assms])
  show "run_ends tag (unread c) \<Longrightarrow> ExpectTag tag c = Got False c"
    by (cases "unread c") (simp_all add: ExpectTag_head [OF assms] e run_ends_def)
qed

text \<open>Both readers of packed fields are one.\<close>

definition packed_field ::
    "(nat \<Rightarrow> 'v) \<Rightarrow> nat \<Rightarrow> (cis \<Rightarrow> 'v got) \<Rightarrow> ('v \<Rightarrow> bool) \<Rightarrow> 'v repeated_field \<Rightarrow> cis \<Rightarrow> 'v repeated_field got" where
  "packed_field junk this get is_valid values c =
     got_bind (ReadVarint32 c) (\<lambda>len c.
       let (limit, c) = PushLimit (sint len) c
       in got_bind (packed_loop junk this get is_valid (Suc (nat (BufferSize c))) values c)
            (\<lambda>values c. Got values (PopLimit limit c)))"

lemma packed_fields:
  "ReadPackedPrimitive junk this get = packed_field junk this get (\<lambda>_. True)"
  "ReadPackedEnumNoInline junk this is_valid = packed_field junk this ReadPrimitive_ENUM is_valid"
  by (simp_all add: fun_eq_iff ReadPackedPrimitive_def ReadPackedEnumNoInline_def packed_field_def)

context codec
begin

lemma packed_loop_reads:
  assumes "cis_ok c" "unread c = concat (map enc vs)" "cur_end c \<noteq> INT_MAX" "rf_ok this r" "length vs < n"
  shows "\<exists>r'. packed_loop junk this get is_valid n r c = Got r' (Advance (int (length (concat (map enc vs)))) c) \<and>
    rf_ok this r' \<and> rf_contents this r' = rf_contents this r @ filter is_valid vs"
  using assms
proof (induction vs arbitrary: c r n)
  case Nil
  then show ?case by (cases n) (simp_all add: BytesUntilLimit_eq)
next
  case (Cons v vs)
  obtain n' where n: "n = Suc n'" "length vs < n'" using Cons.prems(5) by (cases n) simp_all
  let ?c = "Advance (int (length (enc v))) c"
  have u: "unread c = enc v @ concat (map enc vs)" using Cons.prems(2) by simp
  note a = Advance_ok [OF Cons.prems(1) u]
  have g: "get c = Got v ?c" by (rule readsD [OF reads Cons.prems(1) u])
  have b: "BytesUntilLimit c > 0" using BytesUntilLimit_eq [OF Cons.prems(1,3)] u some_bytes [of v] by (simp add: add_pos_nonneg)
  obtain r1 where r1: "RF_Add junk this v r = Some r1" "rf_ok this r1" "rf_contents this r1 = rf_contents this r @ [v]"
    using RF_Add_result [OF Cons.prems(4)] by blast
  have c: "cur_end ?c \<noteq> INT_MAX" using a(3) Cons.prems(3) by simp
  show ?case
  proof (cases "is_valid v")
    case True
    then show ?thesis using Cons.IH [OF a(1,2) c r1(2) n(2)] b g r1 by (auto simp: n(1) add.commute)
  next
    case False
    then show ?thesis using Cons.IH [OF a(1,2) c Cons.prems(4) n(2)] b g by (auto simp: n(1) add.commute)
  qed
qed

text \<open>A packed field is read back as it was written, behind what the field already holds.\<close>

lemma packed_field_reads:
  assumes "cis_ok c" "unread c = enc_bytes (concat (map enc vs)) @ rest" "int (length (array c)) < INT_MAX"
    "length (concat (map enc vs)) < 2 ^ 31" "rf_ok this r"
  shows "\<exists>r' c'. packed_field junk this get is_valid r c = Got r' c' \<and> moves c (length (enc_bytes (concat (map enc vs)))) c' \<and>
    rf_ok this r' \<and> rf_contents this r' = rf_contents this r @ filter is_valid vs"
proof -
  let ?b = "concat (map enc vs)"
  let ?l = "varint (unat (of_nat (length ?b) :: uint32))"
  have u: "unread c = ?l @ ?b @ rest" using assms(2) by (simp add: enc_bytes_def)
  have "Parse_Fields.reads ReadVarint32 ?l (of_nat (length ?b))"
    using reads_enc_uint32 [of "of_nat (length ?b)"] by (simp add: enc_uint32_def)
  then have v: "ReadVarint32 c = Got (of_nat (length ?b)) (Advance (int (length ?l)) c)" by (rule readsD [OF _ assms(1) u])
  let ?c = "Advance (int (length ?l)) c"
  note a = Advance_ok [OF assms(1) u]
  obtain old c1 where p: "PushLimit (int (length ?b)) ?c = (old, c1)" by (cases "PushLimit (int (length ?b)) ?c")
  note l = PushLimit_ok [OF a(1) p]
  have u1: "unread c1 = ?b" using l(4) a(2) by simp
  have "cur_end c1 \<noteq> INT_MAX" using l(2,6) assms(3) by (simp add: cis_ok_def Advance_def)
  moreover have "length vs < Suc (nat (BufferSize c1))"
  proof -
    have "length vs \<le> length ?b" 
    proof (induction vs)
      case (Cons a vs)
      moreover have "1 \<le> length (enc a)" using some_bytes [of a] by (simp add: Suc_le_eq)
      ultimately show ?case by simp
    qed simp
    then show ?thesis using unread_length(1) [OF l(2)] u1 by simp
  qed
  ultimately obtain r' where r': "packed_loop junk this get is_valid (Suc (nat (BufferSize c1))) r c1 = Got r' (Advance (int (length ?b)) c1)"
      "rf_ok this r'" "rf_contents this r' = rf_contents this r @ filter is_valid vs"
    using packed_loop_reads [OF l(2) u1 _ assms(5), of "Suc (nat (BufferSize c1))" junk is_valid] by auto
  have "moves ?c (length ?b) (PopLimit old (Advance (int (length ?b)) c1))" by (rule PopLimit_ok(1) [OF a(1) p moves_simps(1)])
  then have "moves c (length (enc_bytes ?b)) (PopLimit old (Advance (int (length ?b)) c1))"
    using moves_trans [OF moves_simps(1)] by (simp add: enc_bytes_def)
  moreover have "packed_field junk this get is_valid r c = Got r' (PopLimit old (Advance (int (length ?b)) c1))"
    using v p r'(1) sint_length [OF assms(4)] by (simp add: packed_field_def)
  ultimately show ?thesis using r'(2,3) by blast
qed

text \<open>On any bytes at all the readers stay inside the field, end, and leave the values well-formed.\<close>

lemma packed_loop_safe:
  "cis_ok c \<Longrightarrow> rf_ok this r \<Longrightarrow> length (unread c) < n \<Longrightarrow> safe (rf_ok this) 0 c (packed_loop junk this get is_valid n r c)"
proof (induction n arbitrary: c r)
  case (Suc n)
  have "safe (rf_ok this) 0 c (got_bind (get c) (\<lambda>v c. if is_valid v
       then (case RF_Add junk this v r of None \<Rightarrow> Crash | Some r \<Rightarrow> packed_loop junk this get is_valid n r c)
       else packed_loop junk this get is_valid n r c))"
  proof (rule safe_mono [OF safe_bind [OF Suc.prems(1) get_sound [OF Suc.prems(1)], where k = 0]])
    fix v c' assume c': "cis_ok c'" "length (unread c') + 1 \<le> length (unread c)"
    then have l: "length (unread c') < n" using Suc.prems(3) by simp
    obtain r1 where "RF_Add junk this v r = Some r1" "rf_ok this r1" using RF_Add_result [OF Suc.prems(2)] by blast
    then show "safe (rf_ok this) 0 c' (if is_valid v
       then (case RF_Add junk this v r of None \<Rightarrow> Crash | Some r \<Rightarrow> packed_loop junk this get is_valid n r c')
       else packed_loop junk this get is_valid n r c')"
      using Suc.IH [OF c'(1) _ l] Suc.prems(2) by simp
  qed simp
  then show ?case using Suc.prems(2) by simp
qed simp

lemma packed_field_safe:
  assumes "cis_ok c" "rf_ok this r"
  shows "safe (rf_ok this) 1 c (packed_field junk this get is_valid r c)"
proof -
  have "safe (rf_ok this) (1 + 0) c (packed_field junk this get is_valid r c)"
    unfolding packed_field_def
  proof (rule safe_bind [OF assms(1) read_sound(1) [OF assms(1)]])
    fix len :: uint32 and c :: cis
    assume c: "cis_ok c"
    obtain old c1 where p: "PushLimit (sint len) c = (old, c1)" by (cases "PushLimit (sint len) c")
    note l = PushLimit_ok [OF c p]
    have "length (unread c1) < Suc (nat (BufferSize c1))" using unread_length(1) [OF l(2)] by simp
    note s = packed_loop_safe [OF l(2) assms(2) this, of junk is_valid]
    have "safe (rf_ok this) 0 c (got_bind (packed_loop junk this get is_valid (Suc (nat (BufferSize c1))) r c1)
        (\<lambda>values c. Got values (PopLimit old c)))"
    proof (cases "packed_loop junk this get is_valid (Suc (nat (BufferSize c1))) r c1")
      case (Got x c2)
      then have x: "rf_ok this x" "sound 0 c1 (Got x c2)" using s by simp_all
      then obtain n where n: "n \<le> length (unread c1)" "moves c1 n c2" using sound_GotE l(2) by metis
      note q = PopLimit_ok [OF c p n(2)]
      have "sound 0 c (Got x (PopLimit old c2))"
        by (rule sound_Got [of _ n]) (use n l(3) q in \<open>auto simp: flag_ok_def\<close>)
      then show ?thesis unfolding Got got_bind_simps using x by simp
    qed (use s in \<open>simp_all del: packed_loop.simps\<close>)
    then show "safe (rf_ok this) 0 c (let (limit, c) = PushLimit (sint len) c
       in got_bind (packed_loop junk this get is_valid (Suc (nat (BufferSize c))) r c)
            (\<lambda>values c. Got values (PopLimit limit c)))"
      by (simp add: p)
  qed
  then show ?thesis by simp
qed

text \<open>Elements with their tags, as many as fit without growing.\<close>

lemma repeated_loop_reads:
  assumes "cis_ok c" "unat tag < 128" "unread c = concat (map (element_bytes tag enc) vs) @ rest" "rf_ok this r"
    "n \<le> RF_Capacity r - RF_size r" "length vs < n \<longrightarrow> run_ends tag rest"
  shows "\<exists>r'. repeated_loop this get n tag r c =
      Got r' (Advance (int (length (concat (map (element_bytes tag enc) (take n vs))))) c) \<and>
    rf_ok this r' \<and> rf_contents this r' = rf_contents this r @ take n vs"
  using assms
proof (induction n arbitrary: c r vs)
  case (Suc n)
  show ?case
  proof (cases vs)
    case Nil
    then show ?thesis using ExpectTag_next(2) [OF Suc.prems(1,2)] Suc.prems(3-6) by simp
  next
    case (Cons v ws)
    let ?w = "concat (map (element_bytes tag enc) ws) @ rest"
    have u: "unread c = [ucast tag] @ (enc v @ ?w)" using Suc.prems(3) element_bytes_def [of tag enc v] by (simp add: Cons)
    note a = Advance_ok [OF Suc.prems(1) u]
    note b = Advance_ok [OF a(1,2)]
    have room: "rf_current_size r < rf_total_size r" using Suc.prems(5) by (simp add: RF_Capacity_def RF_size_def)
    obtain r1 where r1: "RF_AddAlreadyReserved this v r = Some r1" "rf_ok this r1" "rf_contents this r1 = rf_contents this r @ [v]"
        "rf_total_size r1 = rf_total_size r" "rf_current_size r1 = rf_current_size r + 1"
      by (rule RF_AddAlreadyReserved_ok [OF Suc.prems(4) room]) blast
    have g: "get (Advance 1 c) = Got v (Advance (int (length (enc v))) (Advance 1 c))"
      using readsD [OF reads a(1,2)] by simp
    have n: "n \<le> RF_Capacity r1 - RF_size r1" "length ws < n \<longrightarrow> run_ends tag rest"
      using Suc.prems(5,6) r1(4,5) by (simp_all add: RF_Capacity_def RF_size_def Cons)
    have "ExpectTag tag c = Got True (Advance 1 c)" using ExpectTag_next(1) [OF Suc.prems(1,2)] u by simp
    then show ?thesis
      using Suc.IH [OF b(1) Suc.prems(2) b(2) r1(2) n] g r1 element_bytes_def [of tag enc v] by (auto simp: Cons ac_simps)
  qed
qed simp

lemma ReadRepeatedPrimitive_reads:
  assumes "cis_ok c" "unat tag < 128" "unread c = enc v @ concat (map (element_bytes tag enc) vs) @ rest" "rf_ok this r" "run_ends tag rest"
  shows "\<exists>r1 r' n. RF_Add junk this v r = Some r1 \<and> n = RF_Capacity r1 - RF_size r1 \<and>
    ReadRepeatedPrimitive junk this get tag r c =
      Got r' (Advance (int (length (enc v @ concat (map (element_bytes tag enc) (take n vs))))) c) \<and>
    rf_ok this r' \<and> rf_contents this r' = rf_contents this r @ v # take n vs"
proof -
  note a = Advance_ok [OF assms(1,3)]
  obtain r1 where r1: "RF_Add junk this v r = Some r1" "rf_ok this r1" "rf_contents this r1 = rf_contents this r @ [v]"
    using RF_Add_result [OF assms(4)] by blast
  have g: "get c = Got v (Advance (int (length (enc v))) c)" by (rule readsD [OF reads assms(1,3)])
  from repeated_loop_reads [OF a(1) assms(2) a(2) r1(2) order_refl] assms(5) g r1 show ?thesis
    by (auto simp: ReadRepeatedPrimitive_def add.commute)
qed

end

section \<open>The fast loop over the buffer\<close>

text \<open>A codec of fixed width, which also reads from an array.\<close>

locale fixed_codec = codec NoTagToArray ToArray sz get ft enc
  for NoTagToArray :: "'v \<Rightarrow> bytes \<Rightarrow> bytes" and ToArray :: "int32 \<Rightarrow> 'v \<Rightarrow> bytes \<Rightarrow> bytes" and sz :: "'v \<Rightarrow> nat"
    and get :: "cis \<Rightarrow> 'v got" and ft :: field_type and enc :: "'v \<Rightarrow> bytes" +
  fixes from_array :: "bytes \<Rightarrow> ('v \<times> bytes) option" and width :: nat
  assumes width: "length (enc v) = width"
    and from_array: "from_array (enc v @ rest) = Some (v, rest)"
begin

lemma fixed_loop_reads:
  assumes "unat tag < 128" "rf_ok this r" "n \<le> RF_Capacity r - RF_size r"
    "length vs < n \<longrightarrow> rest \<noteq> [] \<and> run_ends tag rest"
  shows "\<exists>r'. fixed_loop this from_array n tag r (concat (map (element_bytes tag enc) vs) @ rest) = Some (r', length (take n vs)) \<and>
    rf_ok this r' \<and> rf_contents this r' = rf_contents this r @ take n vs"
  using assms
proof (induction n arbitrary: r vs)
  case (Suc n)
  have t: "tag < push_bit 7 1" using assms(1) by (subst unat_less_pow2) simp_all
  note e = ucast_tag_eq [OF assms(1)]
  show ?case
  proof (cases vs)
    case Nil
    then show ?thesis using Suc.prems(2,4) t e by (cases rest) (auto simp: ExpectTagFromArray_def run_ends_def)
  next
    case (Cons v ws)
    have x: "ExpectTagFromArray (ucast tag # bs) tag = Some (Some bs)" for bs
      using t e [of "ucast tag"] by (simp add: ExpectTagFromArray_def)
    have room: "rf_current_size r < rf_total_size r" using Suc.prems(3) by (simp add: RF_Capacity_def RF_size_def)
    obtain r1 where r1: "RF_AddAlreadyReserved this v r = Some r1" "rf_ok this r1" "rf_contents this r1 = rf_contents this r @ [v]"
        "rf_total_size r1 = rf_total_size r" "rf_current_size r1 = rf_current_size r + 1"
      by (rule RF_AddAlreadyReserved_ok [OF Suc.prems(2) room]) blast
    have n: "n \<le> RF_Capacity r1 - RF_size r1" "length ws < n \<longrightarrow> rest \<noteq> [] \<and> run_ends tag rest"
      using Suc.prems(3,4) r1(4,5) by (simp_all add: RF_Capacity_def RF_size_def Cons)
    show ?thesis
      using Suc.IH [OF Suc.prems(1) r1(2) n] r1 x from_array [of v] element_bytes_def [of tag enc v] by (auto simp: Cons)
  qed
qed simp

text \<open>
  The fast loop reads what the plain loop reads and stops at the same place, for complete elements
  up to the end of a run.
\<close>

lemma fixed_is_repeated:
  assumes "cis_ok c" "unat tag < 128" "unread c = enc v @ concat (map (element_bytes tag enc) vs) @ rest" "rf_ok this r" "run_ends tag rest"
  shows "\<exists>r1 r2 c'. ReadRepeatedFixedSizePrimitive junk this get from_array width 1 tag r c = Got r1 c' \<and>
    ReadRepeatedPrimitive junk this get tag r c = Got r2 c' \<and> rf_ok this r1 \<and> rf_ok this r2 \<and>
    rf_contents this r1 = rf_contents this r2"
proof -
  let ?w = "concat (map (element_bytes tag enc) vs)"
  note a = Advance_ok [OF assms(1,3)]
  let ?c = "Advance (int (length (enc v))) c"
  obtain r0 r2 n where p: "RF_Add junk this v r = Some r0" "n = RF_Capacity r0 - RF_size r0"
      "ReadRepeatedPrimitive junk this get tag r c =
        Got r2 (Advance (int (length (enc v @ concat (map (element_bytes tag enc) (take n vs))))) c)"
      "rf_ok this r2" "rf_contents this r2 = rf_contents this r @ v # take n vs"
    using ReadRepeatedPrimitive_reads [OF assms(1,2,3,4,5)] by blast
  have r0: "rf_ok this r0" "rf_contents this r0 = rf_contents this r @ [v]"
    using RF_Add_result [OF assms(4), of junk v] p(1) by auto
  have g: "get c = Got v ?c" by (rule readsD [OF reads assms(1,3)])
  obtain x where x: "ahead ?c = ?w @ rest @ x" using ahead_unread [of ?c] a(2) by auto
  have w: "length (concat (map (element_bytes tag enc) us)) = (1 + width) * length us" for us
    by (induction us) (simp_all add: element_bytes_def width)
  have size: "nat (BufferSize ?c) = (1 + width) * length vs + length rest"
    using unread_length(1) [OF a(1)] a(2) w [of vs] by simp
  define k where "k = min n (nat (BufferSize ?c) div (1 + width))"
  have more: "rest @ x \<noteq> [] \<and> run_ends tag (rest @ x)" if "length vs < k"
  proof -
    have "(1 + width) * k \<le> nat (BufferSize ?c)" unfolding k_def by (metis min.cobounded2 mult_le_mono2 times_div_less_eq_dividend order_trans)
    moreover have "(1 + width) * (length vs + 1) \<le> (1 + width) * k" using that by (intro mult_le_mono2) simp
    ultimately have "rest \<noteq> []" using size by auto
    then show ?thesis using assms(5) by (cases rest) (auto simp: run_ends_def)
  qed
  have kn: "take k vs = take n vs"
  proof (cases "k = n")
    case False
    then have "k = nat (BufferSize ?c) div (1 + width)" unfolding k_def by (auto simp: min_def split: if_splits)
    moreover have "(length rest + length vs * (1 + width)) div (1 + width) = length vs + length rest div (1 + width)"
      by (rule div_mult_self1) simp
    moreover have "nat (BufferSize ?c) = length rest + length vs * (1 + width)" using size by (simp add: algebra_simps)
    ultimately have "length vs \<le> k" by (metis le_add1)
    moreover have "k \<le> n" by (simp add: k_def)
    ultimately show ?thesis by simp
  qed simp
  have "k \<le> RF_Capacity r0 - RF_size r0" by (simp add: k_def p(2))
  then obtain r1 where r1: "fixed_loop this from_array k tag r0 (?w @ rest @ x) = Some (r1, length (take k vs))"
      "rf_ok this r1" "rf_contents this r1 = rf_contents this r0 @ take k vs"
    using fixed_loop_reads [OF assms(2) r0(1), of k vs "rest @ x"] more by auto
  define m where "m = length (take k vs) * (1 + width)"
  have "m \<le> length vs * (1 + width)" unfolding m_def by (rule mult_le_mono1) simp
  moreover have "length (unread ?c) = length vs * (1 + width) + length rest" using a(2) w [of vs] by (simp add: mult.commute)
  ultimately have m: "m \<le> length (unread ?c)" by simp
  have s: "(if 0 < BufferSize ?c then if 0 < m then (case Skip (int m) ?c of Got u c \<Rightarrow> Got r1 c | Fails c \<Rightarrow> Got r1 c | Crash \<Rightarrow> Crash | Runs_on \<Rightarrow> Runs_on)
      else Got r1 ?c else Got r1 ?c) = Got r1 (Advance (int m) ?c)"
    using Skip_eq [OF a(1), of "int m"] m unread_length(2) [OF a(1)] by auto
  have b: "0 < BufferSize ?c \<or> k = 0" using unread_length(2) [OF a(1)] by (auto simp: k_def)
  have z: "rf_contents this r1 = rf_contents this r @ v # take n vs" using r1(3) r0(2) kn by simp
  have d: "Advance (int m) ?c = Advance (int (length (enc v @ concat (map (element_bytes tag enc) (take n vs))))) c"
    using w [of "take n vs"] kn by (simp add: m_def algebra_simps)
  have "ReadRepeatedFixedSizePrimitive junk this get from_array width 1 tag r c = Got (if 0 < BufferSize ?c then r1 else r0) (Advance (int m) ?c)"
  proof -
    have l: "fixed_loop this from_array (min (RF_Capacity r0 - RF_size r0) (nat (BufferSize ?c) div (1 + width))) tag r0 (ahead ?c)
        = Some (r1, length (take k vs))"
      using r1(1) x p(2) by (simp only: k_def)
    show ?thesis
      unfolding ReadRepeatedFixedSizePrimitive_def g got_bind_simps p(1) option.case Let_def l prod.case m_def [symmetric]
      using s b by (auto simp: m_def)
  qed
  moreover have "(if 0 < BufferSize ?c then rf_contents this r1 else rf_contents this r0) = rf_contents this r1"
    using b r1(3) by auto
  ultimately show ?thesis using p(3-5) d z r1(2) r0(1) by (auto split: if_splits)
qed

end

interpretation fixed32_list: fixed_codec WriteFixed32NoTagToArray WriteFixed32ToArray "\<lambda>_. kFixed32Size" ReadPrimitive_FIXED32 FT_FIXED32 enc_fixed32
    ReadPrimitiveFromArray_FIXED32 4
  by unfold_locales (simp_all add: length_fixed ReadPrimitiveFromArray_FIXED32_def)

interpretation fixed64_list: fixed_codec WriteFixed64NoTagToArray WriteFixed64ToArray "\<lambda>_. kFixed64Size" ReadPrimitive_FIXED64 FT_FIXED64 enc_fixed64
    ReadPrimitiveFromArray_FIXED64 8
  by unfold_locales (simp_all add: length_fixed ReadPrimitiveFromArray_FIXED64_def)

interpretation sfixed32_list: fixed_codec WriteSFixed32NoTagToArray WriteSFixed32ToArray "\<lambda>_. kSFixed32Size" ReadPrimitive_SFIXED32 FT_SFIXED32 enc_fixed32
    ReadPrimitiveFromArray_SFIXED32 4
  by unfold_locales (simp_all add: length_fixed ReadPrimitiveFromArray_SFIXED32_def)

interpretation sfixed64_list: fixed_codec WriteSFixed64NoTagToArray WriteSFixed64ToArray "\<lambda>_. kSFixed64Size" ReadPrimitive_SFIXED64 FT_SFIXED64 enc_fixed64
    ReadPrimitiveFromArray_SFIXED64 8
  by unfold_locales (simp_all add: length_fixed ReadPrimitiveFromArray_SFIXED64_def)

interpretation float_list: fixed_codec WriteFloatNoTagToArray WriteFloatToArray "\<lambda>_. kFloatSize" ReadPrimitive_FLOAT FT_FLOAT enc_fixed32
    ReadPrimitiveFromArray_FLOAT 4
  by unfold_locales (simp_all add: length_fixed ReadPrimitiveFromArray_FLOAT_def)

interpretation double_list: fixed_codec WriteDoubleNoTagToArray WriteDoubleToArray "\<lambda>_. kDoubleSize" ReadPrimitive_DOUBLE FT_DOUBLE enc_fixed64
    ReadPrimitiveFromArray_DOUBLE 8
  by unfold_locales (simp_all add: length_fixed ReadPrimitiveFromArray_DOUBLE_def)

section \<open>Groups and messages\<close>

lemma ReadMessage_NoVirtual: "ReadMessage = ReadMessageNoVirtual" "ReadGroup = ReadGroupNoVirtual"
  by (simp_all add: fun_eq_iff ReadMessage_def ReadMessageNoVirtual_def ReadGroup_def ReadGroupNoVirtual_def)

lemma ReadGroup_safe:
  assumes "cis_ok c" "\<And>c. cis_ok c \<Longrightarrow> safe ok 0 c (merge m c)"
  shows "safe ok 0 c (ReadGroup merge fn m c)"
proof -
  obtain b c1 where i: "IncrementRecursionDepth c = (b, c1)" by (cases "IncrementRecursionDepth c")
  note d = depth_ok [OF assms(1) i]
  have "safe ok 0 c (got_bind (merge m c1) (\<lambda>value c. let c = DecrementRecursionDepth c
      in if \<not> LastTagWas (MakeTag fn WIRETYPE_END_GROUP) c then Fails c else Got value c))"
  proof (cases "merge m c1")
    case (Got x c2)
    then have x: "ok x" "sound 0 c1 (Got x c2)" using assms(2) [OF d(1)] by simp_all
    then obtain n where n: "n \<le> length (unread c1)" "moves c1 n c2" "flag_ok c1 \<Longrightarrow> flag_ok c2" using sound_GotE d(1) by metis
    have "sound 0 c (Got x (DecrementRecursionDepth c2))"
      by (rule sound_Got [of _ n]) (use n d(2-4) in simp_all)
    then show ?thesis using x by (simp add: Got Let_def)
  qed (use assms(2) [OF d(1)] in simp_all)
  then show ?thesis by (simp add: ReadGroup_def i)
qed

section \<open>What a receiver of numbers can rely on\<close>

text \<open>
  C17: the loop over the buffer reads floating-point elements as the plain loop does: for a run of complete
  elements it gives the same values behind the ones the field holds and stops at the same place, as
  many as fit without growing.
\<close>

theorem float_runs_agree:
  assumes "cis_ok c" "unat tag < 128" "unread c = enc_fixed32 v @ concat (map (element_bytes tag enc_fixed32) vs) @ rest"
    "rf_ok this r" "run_ends tag rest"
  shows "\<exists>r1 r2 c'. ReadRepeatedFixedSizePrimitive junk this ReadPrimitive_FLOAT ReadPrimitiveFromArray_FLOAT 4 1 tag r c = Got r1 c' \<and>
    ReadRepeatedPrimitive junk this ReadPrimitive_FLOAT tag r c = Got r2 c' \<and> rf_ok this r1 \<and> rf_ok this r2 \<and>
    rf_contents this r1 = rf_contents this r2"
  by (rule float_list.fixed_is_repeated [OF assms])

theorem float_runs_agree_witness:
  "\<exists>r1 r2 c'. ReadRepeatedFixedSizePrimitive (\<lambda>_. 0) 1 ReadPrimitive_FLOAT ReadPrimitiveFromArray_FLOAT 4 1 13 (RF_new (\<lambda>_. 0) 1)
      (CodedInputStream_new [1, 0, 0, 0, 13, 2, 0, 0, 0]) = Got r1 c' \<and>
    ReadRepeatedPrimitive (\<lambda>_. 0) 1 ReadPrimitive_FLOAT 13 (RF_new (\<lambda>_. 0) 1) (CodedInputStream_new [1, 0, 0, 0, 13, 2, 0, 0, 0]) = Got r2 c' \<and>
    rf_ok 1 r1 \<and> rf_ok 1 r2 \<and> rf_contents 1 r1 = rf_contents 1 r2"
proof -
  let ?b = "[1, 0, 0, 0, 13, 2, 0, 0, 0] :: bytes"
  have n: "cis_ok (CodedInputStream_new ?b)" "unread (CodedInputStream_new ?b) = ?b"
    by (rule new_ok, simp add: kDefaultTotalBytesLimit_def)+
  have b: "?b = enc_fixed32 1 @ concat (map (element_bytes 13 enc_fixed32) [2]) @ []"
    by (simp add: enc_fixed32_def element_bytes_def)
  have u: "unread (CodedInputStream_new ?b) = enc_fixed32 1 @ concat (map (element_bytes 13 enc_fixed32) [2]) @ []"
    by (rule trans [OF n(2) b])
  show ?thesis by (rule float_runs_agree [OF n(1) _ u RF_new_ok(1)]) (simp_all add: run_ends_def)
qed

text \<open>
  C10: packed enumerators come back. A packed field of enumerators is read back behind the values
  already there, without the unknown ones, up to its last byte; and on any bytes the reader returns
  or fails inside the buffer with the values well-formed.
\<close>

theorem packed_enums_come_back:
  assumes "cis_ok c" "rf_ok this r"
  shows "(\<forall>vs rest. unread c = enc_bytes (concat (map enc_int32 vs)) @ rest \<longrightarrow> int (length (array c)) < INT_MAX \<longrightarrow>
      (\<exists>r' c'. ReadPackedEnumNoInline junk this is_valid r c = Got r' c' \<and> unread c' = rest \<and> rf_ok this r' \<and>
        rf_contents this r' = rf_contents this r @ filter is_valid vs)) \<and>
    (case ReadPackedEnumNoInline junk this is_valid r c of
       Got r' c' \<Rightarrow> rf_ok this r' \<and> cis_ok c' \<and> length (unread c') < length (unread c) | Fails _ \<Rightarrow> True | Crash \<Rightarrow> False | Runs_on \<Rightarrow> False)"
proof (intro conjI allI impI)
  fix vs rest assume u: "unread c = enc_bytes (concat (map enc_int32 vs)) @ rest" and l: "int (length (array c)) < INT_MAX"
  have "length (concat (map enc_int32 vs)) \<le> length (unread c)" using u by (simp add: enc_bytes_def)
  also have "\<dots> \<le> length (array c)" by (auto simp: unread_def ahead_def)
  finally have "length (concat (map enc_int32 vs)) < 2 ^ 31" using l by (simp add: INT_MAX_def)
  from enum_codec.packed_field_reads [OF assms(1) u l this assms(2), of junk is_valid]
  show "\<exists>r' c'. ReadPackedEnumNoInline junk this is_valid r c = Got r' c' \<and> unread c' = rest \<and> rf_ok this r' \<and>
        rf_contents this r' = rf_contents this r @ filter is_valid vs"
    using moves_unread [OF assms(1)] u by (fastforce simp: packed_fields)
next
  show "case ReadPackedEnumNoInline junk this is_valid r c of
       Got r' c' \<Rightarrow> rf_ok this r' \<and> cis_ok c' \<and> length (unread c') < length (unread c) | Fails _ \<Rightarrow> True | Crash \<Rightarrow> False | Runs_on \<Rightarrow> False"
    using enum_codec.packed_field_safe [OF assms, of junk is_valid]
    by (cases "packed_field junk this ReadPrimitive_ENUM is_valid r c") (auto simp: packed_fields elim!: sound_GotE [OF _ assms(1)])
qed

theorem packed_enums_come_back_witness:
  "\<exists>r' c'. ReadPackedEnumNoInline (\<lambda>_. 0) 1 (\<lambda>v. v < 4) (RF_new (\<lambda>_. 0) 1) (CodedInputStream_new [3, 1, 9, 2, 8]) = Got r' c' \<and>
    unread c' = [8] \<and> rf_contents 1 r' = [1, 2]"
proof -
  let ?b = "[3, 1, 9, 2, 8] :: bytes"
  have n: "cis_ok (CodedInputStream_new ?b)" "unread (CodedInputStream_new ?b) = ?b"
    by (rule new_ok, simp add: kDefaultTotalBytesLimit_def)+
  have "?b = enc_bytes (concat (map enc_int32 [1, 9, 2])) @ [8]"
    by (simp add: enc_bytes_def enc_int32_def varint.simps last_byte_def)
  then have u: "unread (CodedInputStream_new ?b) = enc_bytes (concat (map enc_int32 [1, 9, 2])) @ [8]" using n(2) by simp
  have l: "int (length (array (CodedInputStream_new ?b))) < INT_MAX" by (simp add: CodedInputStream_new_def INT_MAX_def)
  note p = packed_enums_come_back [OF n(1) RF_new_ok(1) [of 1 "\<lambda>_. 0"], of "\<lambda>_. 0" "\<lambda>v. v < 4"]
  from p [THEN conjunct1, rule_format, OF u l]
  show ?thesis using RF_new_ok(2) [of 1 "\<lambda>_. 0 :: int32"] by fastforce
qed

end
