(* ===== verification/Rcf_Buffer.thy ===== *)
theory Rcf_Buffer
  imports Rcf_Frame
begin

text \<open>
  The buffers RCF passes between its layers without copying: \<^verbatim>\<open>ReallocBuffer.cpp\<close> and
  \<^verbatim>\<open>ByteBuffer.cpp\<close> of RCF. Buffers share memory, so the model has a memory of blocks and pointers
  into it; what a buffer holds, what slicing a list of buffers gives, and which operations leave
  which memory alone is proved here.
\<close>

section \<open>Memory\<close>

text \<open>
  A memory is its blocks; a pointer is a block and an offset. Block 0 has no bytes, so the null
  pointer can be passed around but nothing can be read or written through it. A freed block has no
  bytes either.
\<close>

type_synonym memory = "bytes list"
type_synonym ptr = "nat \<times> int"

definition NULL :: ptr where
  "NULL = (0, 0)"

definition memory_ok :: "memory \<Rightarrow> bool" where
  "memory_ok m \<longleftrightarrow> m \<noteq> [] \<and> m ! 0 = []"

definition in_block :: "memory \<Rightarrow> ptr \<Rightarrow> nat \<Rightarrow> bool" where
  "in_block m p n \<longleftrightarrow> n = 0 \<or> fst p < length m \<and> 0 \<le> snd p \<and> nat (snd p) + n \<le> length (m ! fst p)"

text \<open>\<^verbatim>\<open>memcpy\<close> from and to a pointer.\<close>

definition load :: "memory \<Rightarrow> ptr \<Rightarrow> nat \<Rightarrow> bytes option" where
  "load m p n =
     (if n = 0 then Some [] else if in_block m p n then Some (take n (drop (nat (snd p)) (m ! fst p))) else None)"

definition store :: "memory \<Rightarrow> ptr \<Rightarrow> bytes \<Rightarrow> memory option" where
  "store m p bs =
     (if bs = [] then Some m
      else if in_block m p (length bs) then Some (m[fst p := poke (nat (snd p)) bs (m ! fst p)]) else None)"

definition ptr_add :: "ptr \<Rightarrow> int \<Rightarrow> ptr" where
  "ptr_add p n = (fst p, snd p + n)"

text \<open>\<^verbatim>\<open>new std::vector<char>(...)\<close>, and \<^verbatim>\<open>v.empty() ? NULL : &v.front()\<close>.\<close>

definition new_vector :: "bytes \<Rightarrow> memory \<Rightarrow> nat \<times> memory" where
  "new_vector bs m = (length m, m @ [bs])"

definition vector_front :: "nat \<Rightarrow> memory \<Rightarrow> ptr" where
  "vector_front v m = (if m ! v = [] then NULL else (v, 0))"

section \<open>Outcomes\<close>

text \<open>A failed \<^verbatim>\<open>RCF_ASSERT\<close> does not go on: it aborts, or throws an exception nothing here handles.\<close>

definition RCF_ASSERT :: "bool \<Rightarrow> 'a framed \<Rightarrow> 'a framed" where
  "RCF_ASSERT cond r = (if cond then r else Aborted)"

definition RCF_VERIFY :: "bool \<Rightarrow> rcf_error \<Rightarrow> 'a framed \<Rightarrow> 'a framed" where
  "RCF_VERIFY cond e r = (if cond then r else Raised e)"

fun framed_bind :: "'a framed \<Rightarrow> ('a \<Rightarrow> 'b framed) \<Rightarrow> 'b framed" where
  "framed_bind (Done x) f = f x"
| "framed_bind (Raised e) f = Raised e"
| "framed_bind Aborted f = Aborted"
| "framed_bind Broken f = Broken"
| "framed_bind Endless f = Endless"

primrec or_broken :: "'a option \<Rightarrow> 'a framed" where
  "or_broken None = Broken"
| "or_broken (Some x) = Done x"

lemma checked [simp]:
  "RCF_ASSERT True r = r" "RCF_VERIFY True e r = r" "RCF_ASSERT False r = Aborted" "RCF_VERIFY False e r = Raised e"
  by (simp_all add: RCF_ASSERT_def RCF_VERIFY_def)

lemma framed_bind_Done: "framed_bind r f = Done y \<longleftrightarrow> (\<exists>x. r = Done x \<and> f x = Done y)"
  by (cases r) auto

section \<open>Reallocated buffers\<close>

record realloc_buffer =
  mpch :: ptr
  mSize :: nat
  mCapacity :: nat

definition ReallocBuffer_new :: realloc_buffer where
  "ReallocBuffer_new = \<lparr>mpch = NULL, mSize = 0, mCapacity = 0\<rparr>"

text \<open>
  \<^verbatim>\<open>realloc\<close> moves the bytes to a new block and frees the old one; \<open>junk\<close> stands for the bytes that
  were never written.
\<close>

definition realloc_block :: "(nat \<Rightarrow> byte) \<Rightarrow> ptr \<Rightarrow> nat \<Rightarrow> memory \<Rightarrow> ptr \<times> memory" where
  "realloc_block junk p n m =
     (let old = take n (m ! fst p)
      in ((length m, 0), m[fst p := []] @ [old @ map junk [length old..<n]]))"

definition ReallocBuffer_resize :: "(nat \<Rightarrow> byte) \<Rightarrow> nat \<Rightarrow> realloc_buffer \<times> memory \<Rightarrow> realloc_buffer \<times> memory" where
  "ReallocBuffer_resize junk newSize s =
     (let (b, m) = s;
          (b, m) = (if newSize > mCapacity b
                    then let (p, m) = realloc_block junk (mpch b) newSize m in (b\<lparr>mpch := p, mCapacity := newSize\<rparr>, m)
                    else (b, m))
      in (b\<lparr>mSize := newSize\<rparr>, m))"

definition ReallocBuffer_sized :: "(nat \<Rightarrow> byte) \<Rightarrow> nat \<Rightarrow> memory \<Rightarrow> realloc_buffer \<times> memory" where
  "ReallocBuffer_sized junk n m = ReallocBuffer_resize junk n (ReallocBuffer_new, m)"

definition ReallocBuffer_clear :: "(nat \<Rightarrow> byte) \<Rightarrow> realloc_buffer \<times> memory \<Rightarrow> realloc_buffer \<times> memory" where
  "ReallocBuffer_clear junk s = ReallocBuffer_resize junk 0 s"

text \<open>\<^verbatim>\<open>realloc(mpch, 0)\<close> frees.\<close>

definition ReallocBuffer_delete :: "realloc_buffer \<times> memory \<Rightarrow> memory" where
  "ReallocBuffer_delete s = (let (b, m) = s in if mpch b \<noteq> NULL then m[fst (mpch b) := []] else m)"

definition ReallocBuffer_size :: "realloc_buffer \<Rightarrow> nat" where "ReallocBuffer_size b = mSize b"
definition ReallocBuffer_capacity :: "realloc_buffer \<Rightarrow> nat" where "ReallocBuffer_capacity b = mCapacity b"
definition ReallocBuffer_empty :: "realloc_buffer \<Rightarrow> bool" where "ReallocBuffer_empty b \<longleftrightarrow> mSize b = 0"
definition ReallocBuffer_getPtr :: "realloc_buffer \<Rightarrow> ptr" where "ReallocBuffer_getPtr b = mpch b"
definition ReallocBuffer_index :: "realloc_buffer \<Rightarrow> nat \<Rightarrow> ptr" where "ReallocBuffer_index b pos = ptr_add (mpch b) (int pos)"

section \<open>Byte buffers\<close>

text \<open>
  The three shared pointers only keep the memory alive; they hold the identity of their owner (a
  vector is its block).
\<close>

record byte_buffer =
  mSpvc :: "nat option"
  mSpos :: "nat option"
  mSprb :: "nat option"
  mPv :: ptr
  mPvlen :: nat
  mLeftMargin :: nat
  mReadOnly :: bool

definition npos :: nat where "npos = 2 ^ 64 - 1"

definition ByteBuffer_new :: byte_buffer where
  "ByteBuffer_new = \<lparr>mSpvc = None, mSpos = None, mSprb = None, mPv = NULL, mPvlen = 0, mLeftMargin = 0, mReadOnly = False\<rparr>"

definition ByteBuffer_shared_vector :: "nat \<Rightarrow> bool \<Rightarrow> memory \<Rightarrow> byte_buffer" where
  "ByteBuffer_shared_vector spvc readOnly m =
     \<lparr>mSpvc = Some spvc, mSpos = None, mSprb = None, mPv = vector_front spvc m, mPvlen = length (m ! spvc),
      mLeftMargin = 0, mReadOnly = readOnly\<rparr>"

definition ByteBuffer_sized :: "nat \<Rightarrow> memory \<Rightarrow> byte_buffer \<times> memory" where
  "ByteBuffer_sized pvlen m =
     (let (v, m) = new_vector (replicate pvlen 0) m
      in (\<lparr>mSpvc = Some v, mSpos = None, mSprb = None, mPv = vector_front v m, mPvlen = pvlen, mLeftMargin = 0, mReadOnly = False\<rparr>, m))"

definition ByteBuffer_of_vector :: "bytes \<Rightarrow> memory \<Rightarrow> byte_buffer \<times> memory" where
  "ByteBuffer_of_vector vc m =
     (let (v, m) = new_vector vc m
      in (\<lparr>mSpvc = Some v, mSpos = None, mSprb = None, mPv = vector_front v m, mPvlen = length (m ! v),
           mLeftMargin = 0, mReadOnly = False\<rparr>, m))"

definition ByteBuffer_of_string :: "bytes \<Rightarrow> memory \<Rightarrow> byte_buffer \<times> memory" where
  "ByteBuffer_of_string s m =
     (let (v, m) = new_vector s m
      in (\<lparr>mSpvc = Some v, mSpos = None, mSprb = None, mPv = vector_front v m, mPvlen = length (m ! v),
           mLeftMargin = 0, mReadOnly = False\<rparr>, m))"

definition ByteBuffer_realloc :: "nat \<Rightarrow> realloc_buffer \<Rightarrow> bool \<Rightarrow> byte_buffer" where
  "ByteBuffer_realloc sprb b readOnly =
     \<lparr>mSpvc = None, mSpos = None, mSprb = Some sprb,
      mPv = (if ReallocBuffer_empty b then NULL else ReallocBuffer_index b 0), mPvlen = ReallocBuffer_size b,
      mLeftMargin = 0, mReadOnly = readOnly\<rparr>"

definition ByteBuffer_raw :: "ptr \<Rightarrow> nat \<Rightarrow> bool \<Rightarrow> byte_buffer" where
  "ByteBuffer_raw pv pvlen readOnly =
     \<lparr>mSpvc = None, mSpos = None, mSprb = None, mPv = pv, mPvlen = pvlen, mLeftMargin = 0, mReadOnly = readOnly\<rparr>"

definition ByteBuffer_raw_margin :: "ptr \<Rightarrow> nat \<Rightarrow> nat \<Rightarrow> bool \<Rightarrow> byte_buffer" where
  "ByteBuffer_raw_margin pv pvlen leftMargin readOnly =
     \<lparr>mSpvc = None, mSpos = None, mSprb = None, mPv = pv, mPvlen = pvlen, mLeftMargin = leftMargin, mReadOnly = readOnly\<rparr>"

definition ByteBuffer_stream :: "ptr \<Rightarrow> nat \<Rightarrow> nat \<Rightarrow> bool \<Rightarrow> byte_buffer" where
  "ByteBuffer_stream pv pvlen spos readOnly =
     \<lparr>mSpvc = None, mSpos = Some spos, mSprb = None, mPv = pv, mPvlen = pvlen, mLeftMargin = 0, mReadOnly = readOnly\<rparr>"

definition ByteBuffer_stream_margin :: "ptr \<Rightarrow> nat \<Rightarrow> nat \<Rightarrow> nat \<Rightarrow> bool \<Rightarrow> byte_buffer" where
  "ByteBuffer_stream_margin pv pvlen leftMargin spos readOnly =
     \<lparr>mSpvc = None, mSpos = Some spos, mSprb = None, mPv = pv, mPvlen = pvlen, mLeftMargin = leftMargin, mReadOnly = readOnly\<rparr>"

definition ByteBuffer_vector :: "ptr \<Rightarrow> nat \<Rightarrow> nat \<Rightarrow> bool \<Rightarrow> byte_buffer" where
  "ByteBuffer_vector pv pvlen spvc readOnly =
     \<lparr>mSpvc = Some spvc, mSpos = None, mSprb = None, mPv = pv, mPvlen = pvlen, mLeftMargin = 0, mReadOnly = readOnly\<rparr>"

definition ByteBuffer_vector_margin :: "ptr \<Rightarrow> nat \<Rightarrow> nat \<Rightarrow> nat \<Rightarrow> bool \<Rightarrow> byte_buffer" where
  "ByteBuffer_vector_margin pv pvlen leftMargin spvc readOnly =
     \<lparr>mSpvc = Some spvc, mSpos = None, mSprb = None, mPv = pv, mPvlen = pvlen, mLeftMargin = leftMargin, mReadOnly = readOnly\<rparr>"

definition ByteBuffer_sprb :: "ptr \<Rightarrow> nat \<Rightarrow> nat \<Rightarrow> bool \<Rightarrow> byte_buffer" where
  "ByteBuffer_sprb pv pvlen sprb readOnly =
     \<lparr>mSpvc = None, mSpos = None, mSprb = Some sprb, mPv = pv, mPvlen = pvlen, mLeftMargin = 0, mReadOnly = readOnly\<rparr>"

definition ByteBuffer_sprb_margin :: "ptr \<Rightarrow> nat \<Rightarrow> nat \<Rightarrow> nat \<Rightarrow> bool \<Rightarrow> byte_buffer" where
  "ByteBuffer_sprb_margin pv pvlen leftMargin sprb readOnly =
     \<lparr>mSpvc = None, mSpos = None, mSprb = Some sprb, mPv = pv, mPvlen = pvlen, mLeftMargin = leftMargin, mReadOnly = readOnly\<rparr>"

text \<open>\<^verbatim>\<open>ByteBuffer(byteBuffer, offset, len)\<close>: a window on the same memory.\<close>

definition ByteBuffer_slice :: "byte_buffer \<Rightarrow> nat \<Rightarrow> nat \<Rightarrow> byte_buffer framed" where
  "ByteBuffer_slice b offset len =
     (let s = \<lparr>mSpvc = mSpvc b, mSpos = mSpos b, mSprb = mSprb b, mPv = ptr_add (mPv b) (int offset),
               mPvlen = (if len = npos then mPvlen b - offset else len),
               mLeftMargin = (if offset \<noteq> 0 then 0 else mLeftMargin b), mReadOnly = mReadOnly b\<rparr>
      in RCF_ASSERT (offset \<le> mPvlen b) (RCF_ASSERT (len = npos \<or> offset + len \<le> mPvlen b) (Done s)))"

definition getPtr :: "byte_buffer \<Rightarrow> ptr" where "getPtr b = mPv b"
definition getLength :: "byte_buffer \<Rightarrow> nat" where "getLength b = mPvlen b"
definition getLeftMargin :: "byte_buffer \<Rightarrow> nat" where "getLeftMargin b = mLeftMargin b"
definition getReadOnly :: "byte_buffer \<Rightarrow> bool" where "getReadOnly b = mReadOnly b"
definition isEmpty_buffer :: "byte_buffer \<Rightarrow> bool" where "isEmpty_buffer b \<longleftrightarrow> getLength b = 0"
definition ByteBuffer_bool :: "byte_buffer \<Rightarrow> bool" where "ByteBuffer_bool b \<longleftrightarrow> getLength b \<noteq> 0"
definition ByteBuffer_not :: "byte_buffer \<Rightarrow> bool" where "ByteBuffer_not b \<longleftrightarrow> getLength b = 0"

definition ByteBuffer_string :: "memory \<Rightarrow> byte_buffer \<Rightarrow> bytes framed" where
  "ByteBuffer_string m b = or_broken (load m (getPtr b) (getLength b))"

definition ByteBuffer_equal :: "memory \<Rightarrow> byte_buffer \<Rightarrow> byte_buffer \<Rightarrow> bool framed" where
  "ByteBuffer_equal m lhs rhs =
     (if isEmpty_buffer lhs \<and> isEmpty_buffer rhs then Done True
      else if \<not> isEmpty_buffer lhs \<and> \<not> isEmpty_buffer rhs
      then if getLength lhs = getLength rhs
           then framed_bind (or_broken (load m (getPtr lhs) (getLength lhs))) (\<lambda>l.
                framed_bind (or_broken (load m (getPtr rhs) (getLength lhs))) (\<lambda>r. Done (l = r)))
           else Done False
      else Done False)"

definition setLeftMargin :: "nat \<Rightarrow> byte_buffer \<Rightarrow> byte_buffer framed" where
  "setLeftMargin len b =
     RCF_ASSERT (len \<le> mLeftMargin b + mPvlen b)
       (Done (b\<lparr>mPv := ptr_add (mPv b) (int len - int (mLeftMargin b)), mPvlen := mPvlen b + mLeftMargin b - len, mLeftMargin := len\<rparr>))"

definition expandIntoLeftMargin :: "nat \<Rightarrow> byte_buffer \<Rightarrow> byte_buffer framed" where
  "expandIntoLeftMargin len b =
     RCF_ASSERT (len \<le> mLeftMargin b)
       (Done (b\<lparr>mPv := ptr_add (mPv b) (- int len), mPvlen := mPvlen b + len, mLeftMargin := mLeftMargin b - len\<rparr>))"

definition ByteBuffer_release :: "byte_buffer \<Rightarrow> byte_buffer \<times> byte_buffer" where
  "ByteBuffer_release b = (b, ByteBuffer_new)"

definition ByteBuffer_swap :: "byte_buffer \<times> byte_buffer \<Rightarrow> byte_buffer \<times> byte_buffer" where
  "ByteBuffer_swap s = (let (self, rhs) = s; temp = self; self = rhs; rhs = temp in (self, rhs))"

definition ByteBuffer_clear :: "byte_buffer \<Rightarrow> byte_buffer" where
  "ByteBuffer_clear b = ByteBuffer_new"

section \<open>Lists of byte buffers\<close>

definition lengthByteBuffers :: "byte_buffer list \<Rightarrow> nat" where
  "lengthByteBuffers byteBuffers = fold (\<lambda>b length. length + getLength b) byteBuffers 0"

text \<open>
  The loop of \<^verbatim>\<open>forEachByteBuffer\<close>. In its last branch the code assigns \<^verbatim>\<open>pos1 = pos0\<close>, so \<open>pos0\<close> stays
  at the end of the buffer the offset lies in.
\<close>

fun for_each_from :: "(byte_buffer \<Rightarrow> 's \<Rightarrow> 's) \<Rightarrow> byte_buffer list \<Rightarrow> nat \<Rightarrow> nat \<Rightarrow> nat \<Rightarrow> 's \<Rightarrow> 's framed" where
  "for_each_from functor [] offset pos0 remaining s = Done s"
| "for_each_from functor (b # bs) offset pos0 remaining s =
     (let pos1 = pos0 + getLength b
      in if pos1 \<le> offset then for_each_from functor bs offset pos1 remaining s
         else if pos0 \<le> offset \<and> offset < pos1
         then let len = min (pos1 - offset) remaining
              in framed_bind (ByteBuffer_slice b (offset - pos0) len) (\<lambda>byteBuffer.
                   for_each_from functor bs offset pos1 (remaining - len) (functor byteBuffer s))
         else if remaining > 0
         then let len = min (pos1 - pos0) remaining
              in framed_bind (ByteBuffer_slice b 0 len) (\<lambda>byteBuffer.
                   for_each_from functor bs offset pos0 (remaining - len) (functor byteBuffer s))
         else for_each_from functor bs offset pos0 remaining s)"

definition forEachByteBuffer :: "(byte_buffer \<Rightarrow> 's \<Rightarrow> 's) \<Rightarrow> byte_buffer list \<Rightarrow> nat \<Rightarrow> nat \<Rightarrow> 's \<Rightarrow> 's framed" where
  "forEachByteBuffer functor byteBuffers offset len s = for_each_from functor byteBuffers offset 0 len s"

text \<open>The two functors: keep the first buffer, and append to a vector.\<close>

definition GetFirstByteBuffer :: "byte_buffer \<Rightarrow> byte_buffer \<times> bool \<Rightarrow> byte_buffer \<times> bool" where
  "GetFirstByteBuffer byteBuffer s = (if snd s then (byteBuffer, False) else s)"

definition sliceByteBuffer :: "byte_buffer list \<Rightarrow> nat \<Rightarrow> nat \<Rightarrow> byte_buffer framed" where
  "sliceByteBuffer buffers offset len =
     framed_bind (forEachByteBuffer GetFirstByteBuffer buffers offset len (ByteBuffer_new, True)) (\<lambda>s. Done (fst s))"

definition PushBackByteBuffer :: "byte_buffer \<Rightarrow> byte_buffer list \<Rightarrow> byte_buffer list" where
  "PushBackByteBuffer byteBuffer s = s @ [byteBuffer]"

definition sliceByteBuffers :: "byte_buffer list \<Rightarrow> nat \<Rightarrow> nat \<Rightarrow> byte_buffer list framed" where
  "sliceByteBuffers byteBuffers offset len = forEachByteBuffer PushBackByteBuffer byteBuffers offset len []"

fun copyByteBuffers_to :: "byte_buffer list \<Rightarrow> ptr \<Rightarrow> memory \<Rightarrow> memory framed" where
  "copyByteBuffers_to [] pch m = Done m"
| "copyByteBuffers_to (b # bs) pch m =
     framed_bind (or_broken (load m (getPtr b) (getLength b))) (\<lambda>xs.
     framed_bind (or_broken (store m pch xs)) (\<lambda>m.
       copyByteBuffers_to bs (ptr_add pch (int (getLength b))) m))"

text \<open>\<^verbatim>\<open>&(*vecPtr)[0]\<close> is undefined for an empty vector.\<close>

definition copyByteBuffers :: "byte_buffer list \<Rightarrow> memory \<Rightarrow> (byte_buffer \<times> memory) framed" where
  "copyByteBuffers byteBuffers m =
     (let (vecPtr, m) = new_vector (replicate (lengthByteBuffers byteBuffers) 0) m
      in if m ! vecPtr = [] then Broken
         else framed_bind (copyByteBuffers_to byteBuffers (vecPtr, 0) m) (\<lambda>m.
                Done (ByteBuffer_vector (vecPtr, 0) (length (m ! vecPtr)) vecPtr False, m)))"

section \<open>What buffers hold\<close>

text \<open>Memory byte by byte, and the addresses a buffer covers.\<close>

definition byte_at :: "memory \<Rightarrow> ptr \<Rightarrow> byte" where
  "byte_at m a = m ! fst a ! nat (snd a)"

definition cells :: "ptr \<Rightarrow> nat \<Rightarrow> ptr list" where
  "cells p n = map (\<lambda>i. ptr_add p (int i)) [0..<n]"

definition buffer_cells :: "byte_buffer \<Rightarrow> ptr list" where
  "buffer_cells b = cells (mPv b) (mPvlen b)"

definition bytes_of :: "memory \<Rightarrow> byte_buffer \<Rightarrow> bytes" where
  "bytes_of m b = map (byte_at m) (buffer_cells b)"

definition bytes_all :: "memory \<Rightarrow> byte_buffer list \<Rightarrow> bytes" where
  "bytes_all m bs = concat (map (bytes_of m) bs)"

definition buffer_ok :: "memory \<Rightarrow> byte_buffer \<Rightarrow> bool" where
  "buffer_ok m b \<longleftrightarrow> in_block m (mPv b) (mPvlen b)"

text \<open>A later memory in which every block of the earlier one is still there at its size.\<close>

definition extends :: "memory \<Rightarrow> memory \<Rightarrow> bool" where
  "extends m m' \<longleftrightarrow> length m \<le> length m' \<and> (\<forall>i<length m. length (m' ! i) = length (m ! i))"

lemma extends_refl [simp]: "extends m m"
  by (simp add: extends_def)

lemma extends_trans: "extends m m' \<Longrightarrow> extends m' m'' \<Longrightarrow> extends m m''"
  unfolding extends_def by (metis le_trans less_le_trans)

lemma extends_append [simp]: "extends m (m @ bs)"
  by (simp add: extends_def nth_append)

lemma in_block_extends: "in_block m p n \<Longrightarrow> extends m m' \<Longrightarrow> in_block m' p n"
  by (auto simp: in_block_def extends_def)

lemma buffer_ok_extends: "buffer_ok m b \<Longrightarrow> extends m m' \<Longrightarrow> buffer_ok m' b"
  by (simp add: buffer_ok_def in_block_extends)

lemma length_cells [simp]: "length (cells p n) = n"
  by (simp add: cells_def)

lemma length_bytes_of [simp]: "length (bytes_of m b) = mPvlen b"
  by (simp add: bytes_of_def buffer_cells_def)

lemma bytes_all_simps [simp]:
  "bytes_all m [] = []" "bytes_all m (b # bs) = bytes_of m b @ bytes_all m bs" "bytes_all m (bs @ cs) = bytes_all m bs @ bytes_all m cs"
  by (simp_all add: bytes_all_def)

lemma set_cells: "set (cells p n) = {(fst p, i) |i. snd p \<le> i \<and> i < snd p + int n}"
proof (intro set_eqI iffI)
  fix a assume "a \<in> {(fst p, i) |i. snd p \<le> i \<and> i < snd p + int n}"
  then obtain i where "a = (fst p, i)" "snd p \<le> i" "i < snd p + int n" by blast
  then obtain k where "a = ptr_add p (int k)" "k < n"
    using that [of "nat (i - snd p)"] by (simp add: ptr_add_def)
  then show "a \<in> set (cells p n)" unfolding cells_def by auto
qed (auto simp: cells_def ptr_add_def)

lemma bytes_cells:
  assumes "in_block m p n" "0 < n"
  shows "map (byte_at m) (cells p n) = take n (drop (nat (snd p)) (m ! fst p))"
proof (rule nth_equalityI)
  show "length (map (byte_at m) (cells p n)) = length (take n (drop (nat (snd p)) (m ! fst p)))"
    using assms by (auto simp: in_block_def)
  fix i assume "i < length (map (byte_at m) (cells p n))"
  then have i: "i < n" by simp
  then have "nat (snd p + int i) = nat (snd p) + i" using assms by (simp add: in_block_def nat_add_distrib)
  with i show "map (byte_at m) (cells p n) ! i = take n (drop (nat (snd p)) (m ! fst p)) ! i"
    using assms by (simp add: cells_def byte_at_def ptr_add_def in_block_def)
qed

lemma load_cells: "in_block m p n \<Longrightarrow> load m p n = Some (map (byte_at m) (cells p n))"
  by (cases "n = 0") (simp_all add: load_def bytes_cells, simp add: cells_def)

lemma load_buffer: "buffer_ok m b \<Longrightarrow> load m (mPv b) (mPvlen b) = Some (bytes_of m b)"
  by (simp add: buffer_ok_def load_cells bytes_of_def buffer_cells_def)

text \<open>Writing changes the cells it covers and no other, and moves nothing.\<close>

lemma length_poke: "pos + length bs \<le> length xs \<Longrightarrow> length (poke pos bs xs) = length xs"
  by (simp add: poke_def)

lemma nth_poke:
  assumes "pos + length bs \<le> length xs" "i < length xs"
  shows "poke pos bs xs ! i = (if pos \<le> i \<and> i < pos + length bs then bs ! (i - pos) else xs ! i)"
  using assms by (auto simp: poke_def nth_append)

lemma store_shape: "store m p bs = Some m' \<Longrightarrow> extends m m' \<and> length m' = length m"
  by (auto simp: store_def in_block_def extends_def nth_list_update length_poke split: if_splits)

lemma store_in_block: "in_block m p (length bs) \<Longrightarrow> \<exists>m'. store m p bs = Some m'"
  by (simp add: store_def)

lemma store_frame:
  assumes "store m p bs = Some m'" "a \<notin> set (cells p (length bs))" "in_block m a 1"
  shows "byte_at m' a = byte_at m a"
proof (cases "bs = [] \<or> fst a \<noteq> fst p")
  case True
  then show ?thesis using assms(1) by (auto simp: store_def byte_at_def split: if_splits)
next
  case False
  then have i: "in_block m p (length bs)" "m' = m[fst p := poke (nat (snd p)) bs (m ! fst p)]" and e: "fst a = fst p" "0 < length bs"
    using assms(1) by (auto simp: store_def split: if_splits)
  have "\<not> (snd p \<le> snd a \<and> snd a < snd p + int (length bs))"
    using assms(2) e by (cases a) (auto simp: set_cells)
  with i e assms(3) show ?thesis
    by (auto simp: byte_at_def in_block_def nth_poke nat_less_iff)
qed

lemma store_cells:
  assumes "store m p bs = Some m'"
  shows "map (byte_at m') (cells p (length bs)) = bs"
proof (rule nth_equalityI)
  fix j assume "j < length (map (byte_at m') (cells p (length bs)))"
  then have j: "j < length bs" by simp
  then have i: "in_block m p (length bs)" "m' = m[fst p := poke (nat (snd p)) bs (m ! fst p)]"
    using assms by (auto simp: store_def split: if_splits)
  have "nat (snd p + int j) = nat (snd p) + j" using i j by (auto simp: in_block_def nat_add_distrib)
  with i j show "map (byte_at m') (cells p (length bs)) ! j = bs ! j"
    by (auto simp: cells_def byte_at_def ptr_add_def in_block_def nth_poke)
qed simp

lemma cell_in_block: "in_block m p n \<Longrightarrow> a \<in> set (cells p n) \<Longrightarrow> in_block m a 1"
  by (auto simp: set_cells in_block_def)

lemma bytes_of_frame:
  assumes "store m p bs = Some m'" "buffer_ok m b" "set (buffer_cells b) \<inter> set (cells p (length bs)) = {}"
  shows "bytes_of m' b = bytes_of m b"
  unfolding bytes_of_def
proof (rule map_cong [OF refl], rule store_frame [OF assms(1)])
  fix a assume a: "a \<in> set (buffer_cells b)"
  with assms(3) show "a \<notin> set (cells p (length bs))" by blast
  from a assms(2) show "in_block m a 1"
    unfolding buffer_cells_def buffer_ok_def by (rule cell_in_block [rotated])
qed

lemma bytes_of_append:
  assumes "buffer_ok m b"
  shows "bytes_of (m @ bs) b = bytes_of m b"
  unfolding bytes_of_def
proof (rule map_cong [OF refl])
  fix a assume "a \<in> set (buffer_cells b)"
  with assms have "in_block m a 1" unfolding buffer_cells_def buffer_ok_def by (rule cell_in_block)
  then show "byte_at (m @ bs) a = byte_at m a" by (simp add: in_block_def byte_at_def nth_append)
qed

section \<open>Slices\<close>

lemma push_back: "PushBackByteBuffer b s = s @ [b]"
  by (simp add: PushBackByteBuffer_def)

lemma lengthByteBuffers_sum: "lengthByteBuffers bs = sum_list (map mPvlen bs)"
proof -
  have "fold (\<lambda>b n. n + getLength b) bs k = k + sum_list (map mPvlen bs)" for k
    by (induction bs arbitrary: k) (simp_all add: getLength_def)
  then show ?thesis by (simp add: lengthByteBuffers_def)
qed

lemma length_bytes_all: "length (bytes_all m bs) = lengthByteBuffers bs"
  by (induction bs) (simp_all add: lengthByteBuffers_sum)

lemma cells_part: "offset + len \<le> n \<Longrightarrow> cells (ptr_add p (int offset)) len = take len (drop offset (cells p n))"
  by (rule nth_equalityI) (auto simp: cells_def ptr_add_def)

lemma slice_window:
  assumes "buffer_ok m b" "offset + len \<le> mPvlen b" "len \<noteq> npos"
  obtains s where "ByteBuffer_slice b offset len = Done s" "buffer_ok m s" "bytes_of m s = take len (drop offset (bytes_of m b))"
    "mPvlen s = len" "buffer_cells s = take len (drop offset (buffer_cells b))" "mReadOnly s = mReadOnly b"
    "offset = 0 \<longrightarrow> mLeftMargin s = mLeftMargin b"
proof -
  let ?s = "\<lparr>mSpvc = mSpvc b, mSpos = mSpos b, mSprb = mSprb b, mPv = ptr_add (mPv b) (int offset), mPvlen = len,
    mLeftMargin = (if offset \<noteq> 0 then 0 else mLeftMargin b), mReadOnly = mReadOnly b\<rparr>"
  have c: "buffer_cells ?s = take len (drop offset (buffer_cells b))"
    using assms(2) by (simp add: buffer_cells_def cells_part)
  have o: "buffer_ok m ?s" using assms(1,2) by (auto simp: buffer_ok_def in_block_def ptr_add_def)
  show ?thesis
    by (rule that [of ?s]) (use assms c o in \<open>simp_all add: ByteBuffer_slice_def Let_def bytes_of_def take_map drop_map\<close>)
qed

text \<open>All addresses of a list of buffers.\<close>

definition list_cells :: "byte_buffer list \<Rightarrow> ptr list" where
  "list_cells bs = concat (map buffer_cells bs)"

lemma list_cells_simps [simp]:
  "list_cells [] = []" "list_cells (b # bs) = buffer_cells b @ list_cells bs"
  "list_cells (bs @ cs) = list_cells bs @ list_cells cs"
  by (simp_all add: list_cells_def)

lemma length_buffer_cells [simp]: "length (buffer_cells b) = mPvlen b"
  by (simp add: buffer_cells_def)

lemma bytes_all_cells: "bytes_all m bs = map (byte_at m) (list_cells bs)"
  by (induction bs) (simp_all add: bytes_of_def)

lemma length_list_cells: "length (list_cells bs) = lengthByteBuffers bs"
  by (induction bs) (simp_all add: lengthByteBuffers_sum buffer_cells_def)

text \<open>Behind the offset the loop takes whole buffers until the length is used up.\<close>

lemma for_each_behind:
  assumes "\<forall>b\<in>set bs. buffer_ok m b" "offset < pos0" "lengthByteBuffers bs < npos"
  shows "\<exists>sl. for_each_from PushBackByteBuffer bs offset pos0 remaining s = Done (s @ sl) \<and>
    (\<forall>b\<in>set sl. buffer_ok m b) \<and> list_cells sl = take remaining (list_cells bs)"
  using assms
proof (induction bs arbitrary: remaining s)
  case (Cons b bs)
  note IH = Cons.IH [OF _ \<open>offset < pos0\<close>]
  let ?len = "min (mPvlen b) remaining"
  have l: "lengthByteBuffers bs < npos" "?len \<noteq> npos" using Cons.prems by (auto simp: lengthByteBuffers_sum)
  show ?case
  proof (cases "0 < remaining")
    case True
    obtain t where t: "ByteBuffer_slice b 0 ?len = Done t" "buffer_ok m t" "buffer_cells t = take ?len (buffer_cells b)"
      using slice_window [of m b 0 ?len] Cons.prems l by auto
    obtain sl where "for_each_from PushBackByteBuffer bs offset pos0 (remaining - ?len) (s @ [t]) = Done ((s @ [t]) @ sl)"
      "\<forall>b\<in>set sl. buffer_ok m b" "list_cells sl = take (remaining - ?len) (list_cells bs)"
      using IH [of "remaining - ?len" "s @ [t]"] Cons.prems l by auto
    with t True Cons.prems show ?thesis
      by (intro exI [of _ "t # sl"]) (auto simp: getLength_def push_back [of t s] min_def)
  next
    case False
    with IH [of 0 s] Cons.prems l show ?thesis by (auto simp: getLength_def)
  qed
qed simp

lemma for_each_before:
  assumes "\<forall>b\<in>set bs. buffer_ok m b" "pos0 \<le> offset" "lengthByteBuffers bs < npos"
  shows "\<exists>sl. for_each_from PushBackByteBuffer bs offset pos0 remaining s = Done (s @ sl) \<and>
    (\<forall>b\<in>set sl. buffer_ok m b) \<and> list_cells sl = take remaining (drop (offset - pos0) (list_cells bs))"
  using assms
proof (induction bs arbitrary: pos0 s)
  case (Cons b bs)
  have l: "lengthByteBuffers bs < npos" "mPvlen b < npos" using Cons.prems by (auto simp: lengthByteBuffers_sum)
  show ?case
  proof (cases "pos0 + mPvlen b \<le> offset")
    case True
    with Cons.IH [of "pos0 + mPvlen b" s] Cons.prems l show ?thesis
      by (auto simp: getLength_def drop_append)
  next
    case False
    let ?len = "min (pos0 + mPvlen b - offset) remaining"
    obtain t where t: "ByteBuffer_slice b (offset - pos0) ?len = Done t" "buffer_ok m t"
      "buffer_cells t = take ?len (drop (offset - pos0) (buffer_cells b))"
    proof (rule slice_window [of m b "offset - pos0" ?len])
      show "offset - pos0 + ?len \<le> mPvlen b" "?len \<noteq> npos" using Cons.prems(2) l False by simp_all
    qed (use Cons.prems(1) in \<open>simp_all\<close>)
    obtain sl where "for_each_from PushBackByteBuffer bs offset (pos0 + mPvlen b) (remaining - ?len) (s @ [t]) = Done ((s @ [t]) @ sl)"
      "\<forall>b\<in>set sl. buffer_ok m b" "list_cells sl = take (remaining - ?len) (list_cells bs)"
      using for_each_behind [of bs m offset "pos0 + mPvlen b" "remaining - ?len" "s @ [t]"] Cons.prems l False by auto
    moreover have "pos0 + mPvlen b - offset = mPvlen b - (offset - pos0)" using Cons.prems(2) False by simp
    ultimately show ?thesis using t False Cons.prems(2)
      by (intro exI [of _ "t # sl"]) (simp add: getLength_def Let_def push_back [of t s] min_def)
  qed
qed simp

text \<open>Whatever the functor does, it is run on the windows from left to right.\<close>

lemma for_each_windows:
  "for_each_from functor bs offset pos0 remaining s =
     framed_bind (for_each_from PushBackByteBuffer bs offset pos0 remaining []) (\<lambda>sl. Done (fold functor sl s))"
proof -
  have push: "for_each_from PushBackByteBuffer bs offset pos0 remaining (xs @ ys) =
      framed_bind (for_each_from PushBackByteBuffer bs offset pos0 remaining ys) (\<lambda>sl. Done (xs @ sl))" for bs pos0 remaining xs ys
  proof (induction bs arbitrary: pos0 remaining xs ys)
    case (Cons b bs)
    have "framed_bind r (\<lambda>t. for_each_from PushBackByteBuffer bs offset p n (PushBackByteBuffer t (xs @ ys))) =
        framed_bind (framed_bind r (\<lambda>t. for_each_from PushBackByteBuffer bs offset p n (PushBackByteBuffer t ys))) (\<lambda>sl. Done (xs @ sl))" for r p n
      by (cases r) (simp_all add: push_back [of _ "xs @ ys"] push_back [of _ ys] Cons.IH)
    then show ?case by (simp add: Let_def Cons.IH)
  qed simp
  show ?thesis
  proof (induction bs arbitrary: pos0 remaining s)
    case (Cons b bs)
    have "framed_bind r (\<lambda>t. for_each_from functor bs offset p n (functor t s)) =
        framed_bind (framed_bind r (\<lambda>t. for_each_from PushBackByteBuffer bs offset p n (PushBackByteBuffer t []))) (\<lambda>sl. Done (fold functor sl s))" for r p n
    proof (cases r)
      case (Done t)
      have "for_each_from PushBackByteBuffer bs offset p n (PushBackByteBuffer t []) =
          framed_bind (for_each_from PushBackByteBuffer bs offset p n []) (\<lambda>sl. Done ([t] @ sl))"
        using push [of bs p n "[t]" "[]"] by (simp add: push_back [of t "[]"])
      moreover have "for_each_from functor bs offset p n (functor t s) =
          framed_bind (for_each_from PushBackByteBuffer bs offset p n []) (\<lambda>sl. Done (fold functor sl (functor t s)))" by (rule Cons.IH)
      ultimately show ?thesis using Done by (cases "for_each_from PushBackByteBuffer bs offset p n []") simp_all
    qed simp_all
    then show ?case by (simp add: Let_def Cons.IH [of _ _ s])
  qed simp
qed

lemma sliceByteBuffers_window:
  assumes "\<forall>b\<in>set bs. buffer_ok m b" "lengthByteBuffers bs < npos"
  obtains sl where "sliceByteBuffers bs offset len = Done sl" "\<forall>b\<in>set sl. buffer_ok m b"
    "bytes_all m sl = take len (drop offset (bytes_all m bs))" "list_cells sl = take len (drop offset (list_cells bs))"
proof -
  obtain sl where "sliceByteBuffers bs offset len = Done sl" "\<forall>b\<in>set sl. buffer_ok m b"
    "list_cells sl = take len (drop offset (list_cells bs))"
    using for_each_before [OF assms(1) _ assms(2), of 0 offset len "[]"]
    by (auto simp: sliceByteBuffers_def forEachByteBuffer_def)
  then show ?thesis using that by (simp add: bytes_all_cells take_map drop_map)
qed

lemma sliceByteBuffer_hd:
  assumes "sliceByteBuffers bs offset len = Done sl"
  shows "sliceByteBuffer bs offset len = Done (if sl = [] then ByteBuffer_new else hd sl)"
proof -
  have "fold GetFirstByteBuffer sl (b, False) = (b, False)" for sl b
    by (induction sl) (simp_all add: GetFirstByteBuffer_def)
  then have "fst (fold GetFirstByteBuffer sl (ByteBuffer_new, True)) = (if sl = [] then ByteBuffer_new else hd sl)"
    by (cases sl) (simp_all add: GetFirstByteBuffer_def)
  then show ?thesis using assms
    by (simp add: sliceByteBuffer_def sliceByteBuffers_def forEachByteBuffer_def for_each_windows [of GetFirstByteBuffer])
qed

section \<open>Copies\<close>

lemma cells_append: "cells p (n + k) = cells p n @ cells (ptr_add p (int n)) k"
  by (rule nth_equalityI) (auto simp: cells_def nth_append ptr_add_def)

lemma copy_to:
  assumes "\<forall>b\<in>set bs. buffer_ok m b" "in_block m p (lengthByteBuffers bs)"
    "\<forall>b\<in>set bs. set (buffer_cells b) \<inter> set (cells p (lengthByteBuffers bs)) = {}"
  obtains m' where "copyByteBuffers_to bs p m = Done m'" "extends m m'" "length m' = length m"
    "map (byte_at m') (cells p (lengthByteBuffers bs)) = bytes_all m bs"
    "\<forall>a. in_block m a 1 \<longrightarrow> a \<notin> set (cells p (lengthByteBuffers bs)) \<longrightarrow> byte_at m' a = byte_at m a"
proof -
  have "\<exists>m'. copyByteBuffers_to bs p m = Done m' \<and> extends m m' \<and> length m' = length m \<and>
      map (byte_at m') (cells p (lengthByteBuffers bs)) = bytes_all m bs \<and>
      (\<forall>a. in_block m a 1 \<longrightarrow> a \<notin> set (cells p (lengthByteBuffers bs)) \<longrightarrow> byte_at m' a = byte_at m a)"
    using assms
  proof (induction bs arbitrary: p m)
    case (Cons b bs)
    let ?n = "mPvlen b" and ?k = "lengthByteBuffers bs" and ?q = "ptr_add p (int (mPvlen b))"
    have n: "lengthByteBuffers (b # bs) = ?n + ?k" by (simp add: lengthByteBuffers_sum)
    have c: "cells p (?n + ?k) = cells p ?n @ cells ?q ?k" by (rule cells_append)
    have ib: "in_block m p ?n" using Cons.prems(2) n by (auto simp: in_block_def)
    then obtain m1 where m1: "store m p (bytes_of m b) = Some m1" using store_in_block [of m p "bytes_of m b"] by auto
    have e1: "extends m m1" "length m1 = length m" using store_shape [OF m1] by auto
    have fr: "bytes_of m1 b' = bytes_of m b'" if "b' \<in> set bs" for b'
      by (rule bytes_of_frame [OF m1]) (use that Cons.prems n c in auto)
    have "\<exists>m'. copyByteBuffers_to bs ?q m1 = Done m' \<and> extends m1 m' \<and> length m' = length m1 \<and>
        map (byte_at m') (cells ?q ?k) = bytes_all m1 bs \<and>
        (\<forall>a. in_block m1 a 1 \<longrightarrow> a \<notin> set (cells ?q ?k) \<longrightarrow> byte_at m' a = byte_at m1 a)"
    proof (rule Cons.IH)
      show "\<forall>b\<in>set bs. buffer_ok m1 b" using Cons.prems(1) e1 buffer_ok_extends by auto
      have "in_block m ?q ?k" using Cons.prems(2) n by (auto simp: in_block_def ptr_add_def nat_add_distrib)
      then show "in_block m1 ?q ?k" using e1 in_block_extends by blast
      show "\<forall>b\<in>set bs. set (buffer_cells b) \<inter> set (cells ?q ?k) = {}" using Cons.prems(3) n c by auto
    qed
    then obtain m' where m': "copyByteBuffers_to bs ?q m1 = Done m'" "extends m1 m'" "length m' = length m1"
      "map (byte_at m') (cells ?q ?k) = bytes_all m1 bs"
      "\<forall>a. in_block m1 a 1 \<longrightarrow> a \<notin> set (cells ?q ?k) \<longrightarrow> byte_at m' a = byte_at m1 a" by blast
    have "bytes_all m1 bs = bytes_all m bs" unfolding bytes_all_def using fr by (metis map_eq_conv)
    moreover have "map (byte_at m') (cells p ?n) = bytes_of m b"
    proof -
      have "map (byte_at m') (cells p ?n) = map (byte_at m1) (cells p ?n)"
      proof (rule map_cong [OF refl])
        fix a assume a: "a \<in> set (cells p ?n)"
        then have "a \<notin> set (cells ?q ?k)" by (auto simp: set_cells ptr_add_def)
        moreover have "in_block m1 a 1" using cell_in_block [OF ib a] e1 in_block_extends by blast
        ultimately show "byte_at m' a = byte_at m1 a" using m'(5) by blast
      qed
      also have "\<dots> = bytes_of m b" using store_cells [OF m1] by simp
      finally show ?thesis .
    qed
    moreover have "\<forall>a. in_block m a 1 \<longrightarrow> a \<notin> set (cells p (?n + ?k)) \<longrightarrow> byte_at m' a = byte_at m a"
      using m'(5) store_frame [OF m1] e1 in_block_extends c by auto
    ultimately show ?case using m' m1 e1 Cons.prems(1) extends_trans n c
      by (auto simp: getPtr_def getLength_def load_buffer)
  qed (simp add: lengthByteBuffers_def cells_def)
  then show ?thesis using that by blast
qed

text \<open>Copying into a new vector: the buffers are not touched, and the new one holds all their bytes.\<close>

lemma copyByteBuffers_concat:
  assumes "\<forall>b\<in>set bs. buffer_ok m b" "0 < lengthByteBuffers bs"
  obtains b m' where "copyByteBuffers bs m = Done (b, m')" "buffer_ok m' b" "bytes_of m' b = bytes_all m bs"
    "extends m m'" "\<forall>a. in_block m a 1 \<longrightarrow> byte_at m' a = byte_at m a" "mPv b = (length m, 0)"
proof -
  let ?n = "lengthByteBuffers bs" and ?v = "length m"
  let ?m = "m @ [replicate ?n 0]"
  have "\<forall>b\<in>set bs. buffer_ok ?m b" using assms(1) buffer_ok_extends extends_append by blast
  moreover have "in_block ?m (?v, 0) ?n" by (simp add: in_block_def)
  moreover have "\<forall>b\<in>set bs. set (buffer_cells b) \<inter> set (cells (?v, 0) ?n) = {}"
    using assms(1) by (auto simp: buffer_ok_def in_block_def buffer_cells_def set_cells)
  ultimately obtain m' where m': "copyByteBuffers_to bs (?v, 0) ?m = Done m'" "extends ?m m'" "length m' = length ?m"
    "map (byte_at m') (cells (?v, 0) ?n) = bytes_all ?m bs"
    "\<forall>a. in_block ?m a 1 \<longrightarrow> a \<notin> set (cells (?v, 0) ?n) \<longrightarrow> byte_at m' a = byte_at ?m a"
    by (rule copy_to)
  have l: "length (m' ! ?v) = ?n" using m'(2) by (simp add: extends_def)
  let ?b = "ByteBuffer_vector (?v, 0) ?n ?v False"
  have "copyByteBuffers bs m = Done (?b, m')"
    using assms(2) m'(1) l by (simp add: copyByteBuffers_def new_vector_def)
  moreover have "bytes_of m' ?b = bytes_all m bs"
  proof -
    have "bytes_all ?m bs = bytes_all m bs"
      unfolding bytes_all_def using assms(1) bytes_of_append by (metis (mono_tags, lifting) map_cong)
    then show ?thesis using m'(4) by (simp add: bytes_of_def buffer_cells_def ByteBuffer_vector_def)
  qed
  moreover have "buffer_ok m' ?b" using m'(3) l by (simp add: buffer_ok_def in_block_def ByteBuffer_vector_def)
  moreover have "extends m m'" using m'(2) extends_append extends_trans by blast
  moreover have "\<forall>a. in_block m a 1 \<longrightarrow> byte_at m' a = byte_at m a"
    using m'(5) in_block_extends [OF _ extends_append]
    by (auto simp: set_cells in_block_def byte_at_def nth_append)
  ultimately show ?thesis by (intro that) (auto simp: ByteBuffer_vector_def)
qed

section \<open>Margins\<close>

text \<open>Moving into the margin and out of it changes the window only, by as much on both sides.\<close>

lemma margin_window:
  assumes "setLeftMargin len b = Done b'"
  shows "getLeftMargin b' = len" "getLength b' + len = getLength b + getLeftMargin b"
    "ptr_add (getPtr b') (- int len) = ptr_add (getPtr b) (- int (getLeftMargin b))"
  using assms by (auto simp: setLeftMargin_def RCF_ASSERT_def getLeftMargin_def getLength_def getPtr_def ptr_add_def split: if_splits)

lemma expand_margin:
  assumes "len \<le> getLeftMargin b"
  shows "expandIntoLeftMargin len b = setLeftMargin (getLeftMargin b - len) b"
proof -
  have "mLeftMargin b - len \<le> mLeftMargin b + mPvlen b" by simp
  with assms show ?thesis
    by (simp add: expandIntoLeftMargin_def setLeftMargin_def getLeftMargin_def ptr_add_def of_nat_diff)
qed

end
