(* ===== verification/Rcf_Encoding.thy ===== *)
theory Rcf_Encoding
  imports Rcf_Buffer
begin

text \<open>
  The encoding of the headers of remote calls, \<^verbatim>\<open>SF/Encoding.cpp\<close>: booleans, integers, strings and
  byte buffers, written into a vector or into a byte buffer and read from a byte buffer. Every
  reader inverts its writers, and on any bytes it stays inside the buffer or throws.
\<close>

section \<open>Writing into a vector\<close>

text \<open>
  A vector and the position in it. Sizes are natural numbers: they stay below \<open>2 ^ 63\<close>, so no sum
  of them wraps where \<^verbatim>\<open>std::size_t\<close> has 64 bits.
\<close>

type_synonym vec_pos = "bytes \<times> nat"

definition encodeBool :: "bool \<Rightarrow> vec_pos \<Rightarrow> vec_pos framed" where
  "encodeBool value s =
     (let (vec, pos) = s
      in RCF_ASSERT (pos \<le> length vec)
           (let vec = (if pos + 1 > length vec then vec @ [0] else vec);
                vec = (if value then vec[pos := 1] else vec[pos := 0])
            in Done (vec, pos + 1)))"

definition encodeInt :: "int32 \<Rightarrow> vec_pos \<Rightarrow> vec_pos framed" where
  "encodeInt value s =
     (let (vec, pos) = s
      in RCF_ASSERT (pos \<le> length vec)
           (let vec = (if pos + 5 > length vec then vec @ replicate 5 0 else vec)
            in if 0 \<le> sint value \<and> sint value < 255
               then RCF_ASSERT (pos + 1 \<le> length vec) (Done (vec[pos := ucast value], pos + 1))
               else RCF_ASSERT (pos + 1 \<le> length vec)
                 (let vec = vec[pos := 255]; pos = pos + 1
                  in RCF_ASSERT (pos + 4 \<le> length vec)
                       (Done (poke pos (machineToNetworkOrder (enc_fixed32 value)) vec, pos + 4)))))"

text \<open>An \<^verbatim>\<open>int\<close> where a \<^verbatim>\<open>std::size_t\<close> is expected is sign-extended.\<close>

definition int_to_size :: "int32 \<Rightarrow> nat" where
  "int_to_size v = nat (sint v mod 2 ^ 64)"

definition encodeString :: "bytes \<Rightarrow> vec_pos \<Rightarrow> vec_pos framed" where
  "encodeString value s =
     (let len = of_nat (length value) :: int32
      in framed_bind (encodeInt len s) (\<lambda>(vec, pos).
           RCF_ASSERT (pos \<le> length vec)
             (let vec = (if pos + int_to_size len > length vec then vec @ replicate (int_to_size len) 0 else vec)
              in if int_to_size len > length value then Broken
                 else Done (poke pos (take (int_to_size len) value) vec, pos + int_to_size len))))"

definition encodeByteBuffer :: "memory \<Rightarrow> byte_buffer \<Rightarrow> vec_pos \<Rightarrow> vec_pos framed" where
  "encodeByteBuffer m value s =
     (let len = of_nat (getLength value) :: int32
      in framed_bind (encodeInt len s) (\<lambda>(vec, pos).
           RCF_ASSERT (pos \<le> length vec)
             (let vec = (if pos + int_to_size len > length vec then vec @ replicate (int_to_size len) 0 else vec)
              in framed_bind (or_broken (load m (getPtr value) (int_to_size len))) (\<lambda>bs.
                   Done (poke pos bs vec, pos + int_to_size len)))))"

section \<open>Writing into a byte buffer\<close>

definition encodeBool_in :: "bool \<Rightarrow> byte_buffer \<Rightarrow> memory \<times> nat \<Rightarrow> (memory \<times> nat) framed" where
  "encodeBool_in value byteBuffer s =
     (let (m, pos) = s
      in RCF_ASSERT (pos + 1 \<le> getLength byteBuffer)
           (framed_bind (or_broken (if value then store m (ptr_add (getPtr byteBuffer) (int pos)) [1]
                                    else store m (ptr_add (getPtr byteBuffer) (int pos)) [0]))
              (\<lambda>m. Done (m, pos + 1))))"

definition encodeInt_in :: "int32 \<Rightarrow> byte_buffer \<Rightarrow> memory \<times> nat \<Rightarrow> (memory \<times> nat) framed" where
  "encodeInt_in value byteBuffer s =
     (let (m, pos) = s
      in if 0 \<le> sint value \<and> sint value < 255
         then RCF_ASSERT (pos + 1 \<le> getLength byteBuffer)
                (framed_bind (or_broken (store m (ptr_add (getPtr byteBuffer) (int pos)) [ucast value]))
                   (\<lambda>m. Done (m, pos + 1)))
         else RCF_ASSERT (pos + 1 \<le> getLength byteBuffer)
                (framed_bind (or_broken (store m (ptr_add (getPtr byteBuffer) (int pos)) [255])) (\<lambda>m.
                   let pos = pos + 1
                   in RCF_ASSERT (pos + 4 \<le> getLength byteBuffer)
                        (framed_bind (or_broken (store m (ptr_add (getPtr byteBuffer) (int pos)) (machineToNetworkOrder (enc_fixed32 value))))
                           (\<lambda>m. Done (m, pos + 4))))))"

section \<open>Reading from a byte buffer\<close>

definition decodeBool :: "memory \<Rightarrow> byte_buffer \<Rightarrow> nat \<Rightarrow> (bool \<times> nat) framed" where
  "decodeBool m byteBuffer pos =
     RCF_VERIFY (pos + 1 \<le> getLength byteBuffer) Decoding
       (framed_bind (or_broken (load m (ptr_add (getPtr byteBuffer) (int pos)) 1)) (\<lambda>bs.
          let ch = hd bs in RCF_VERIFY (ch = 0 \<or> ch = 1) Decoding (Done (ch \<noteq> 0, pos + 1))))"

definition decodeInt :: "memory \<Rightarrow> byte_buffer \<Rightarrow> nat \<Rightarrow> (int32 \<times> nat) framed" where
  "decodeInt m byteBuffer pos =
     RCF_VERIFY (pos + 1 \<le> getLength byteBuffer) Decoding
       (framed_bind (or_broken (load m (ptr_add (getPtr byteBuffer) (int pos)) 1)) (\<lambda>bs.
          let ch = hd bs; pos = pos + 1
          in if ch < 255 then Done (ucast ch, pos)
             else RCF_VERIFY (pos + 4 \<le> getLength byteBuffer) Decoding
                    (framed_bind (or_broken (load m (ptr_add (getPtr byteBuffer) (int pos)) 4)) (\<lambda>bs.
                       Done (ReadLittleEndian32FromArray (networkToMachineOrder bs), pos + 4)))))"

definition decodeUint :: "memory \<Rightarrow> byte_buffer \<Rightarrow> nat \<Rightarrow> (uint32 \<times> nat) framed" where
  "decodeUint m byteBuffer pos = framed_bind (decodeInt m byteBuffer pos) (\<lambda>(nValue, pos). Done (nValue, pos))"

definition decodeString :: "memory \<Rightarrow> byte_buffer \<Rightarrow> nat \<Rightarrow> (bytes \<times> nat) framed" where
  "decodeString m byteBuffer pos =
     framed_bind (decodeInt m byteBuffer pos) (\<lambda>(len, pos).
       RCF_VERIFY (pos + unat len \<le> getLength byteBuffer) Decoding
         (framed_bind (or_broken (load m (ptr_add (getPtr byteBuffer) (int pos)) (unat len))) (\<lambda>value.
            Done (value, pos + unat len))))"

definition decodeByteBuffer :: "byte_buffer \<Rightarrow> byte_buffer \<Rightarrow> memory \<times> nat \<Rightarrow> (byte_buffer \<times> memory \<times> nat) framed" where
  "decodeByteBuffer value byteBuffer s =
     (let (m, pos) = s
      in framed_bind (decodeInt m byteBuffer pos) (\<lambda>(len, pos).
           RCF_VERIFY (pos + unat len \<le> getLength byteBuffer) Decoding
             (if unat len = 0
              then framed_bind (ByteBuffer_slice value 0 0) (\<lambda>value. Done (value, m, pos + unat len))
              else let (value, m) = (if getLength value < unat len then ByteBuffer_sized (unat len) m else (value, m))
                   in framed_bind (ByteBuffer_slice value 0 (unat len)) (\<lambda>value.
                      framed_bind (or_broken (load m (ptr_add (getPtr byteBuffer) (int pos)) (unat len))) (\<lambda>bs.
                      framed_bind (or_broken (store m (getPtr value) bs)) (\<lambda>m.
                        Done (value, m, pos + unat len)))))))"

section \<open>The encoding\<close>

definition enc_rcf_bool :: "bool \<Rightarrow> bytes" where
  "enc_rcf_bool b = [if b then 1 else 0]"

definition enc_rcf_int :: "int32 \<Rightarrow> bytes" where
  "enc_rcf_int v = (if 0 \<le> sint v \<and> sint v < 255 then [ucast v] else 255 # enc_fixed32 v)"

definition enc_rcf_string :: "bytes \<Rightarrow> bytes" where
  "enc_rcf_string s = enc_rcf_int (of_nat (length s)) @ s"

text \<open>A writer puts its bytes behind the position and moves the position behind them.\<close>

definition vec_writes :: "(vec_pos \<Rightarrow> vec_pos framed) \<Rightarrow> bytes \<Rightarrow> bool" where
  "vec_writes f bs \<longleftrightarrow> (\<forall>vec pos. pos \<le> length vec \<longrightarrow>
     (\<exists>vec'. f (vec, pos) = Done (vec', pos + length bs) \<and> pos + length bs \<le> length vec' \<and>
       take (pos + length bs) vec' = take pos vec @ bs))"

text \<open>The bytes of a buffer from a position on.\<close>

definition rest_is :: "memory \<Rightarrow> byte_buffer \<Rightarrow> nat \<Rightarrow> bytes \<Rightarrow> bool" where
  "rest_is m b pos bs \<longleftrightarrow> buffer_ok m b \<and> pos \<le> mPvlen b \<and> drop pos (bytes_of m b) = bs"

lemma rest_length: "rest_is m b pos bs \<Longrightarrow> pos + length bs = mPvlen b"
  unfolding rest_is_def by (metis add_diff_inverse_nat length_bytes_of length_drop not_less)

lemma rest_drop: "rest_is m b pos (xs @ bs) \<Longrightarrow> n = length xs \<Longrightarrow> rest_is m b (pos + n) bs"
  using rest_length [of m b pos "xs @ bs"]
  by (auto simp: rest_is_def drop_drop [symmetric] add.commute [of pos] simp del: drop_drop)

text \<open>A reader stays inside the buffer: it returns a later position or throws the decoding error.\<close>

definition reads_inside :: "byte_buffer \<Rightarrow> nat \<Rightarrow> ('a \<times> nat) framed \<Rightarrow> bool" where
  "reads_inside b pos r \<longleftrightarrow>
     (case r of Done (x, pos') \<Rightarrow> pos < pos' \<and> pos' \<le> mPvlen b | Raised e \<Rightarrow> e = Decoding | Aborted \<Rightarrow> False | Broken \<Rightarrow> False | Endless \<Rightarrow> False)"

locale rcf_codec =
  fixes put :: "'a \<Rightarrow> vec_pos \<Rightarrow> vec_pos framed"
    and get :: "memory \<Rightarrow> byte_buffer \<Rightarrow> nat \<Rightarrow> ('a \<times> nat) framed"
    and enc :: "'a \<Rightarrow> bytes"
    and fits :: "'a \<Rightarrow> bool"
  assumes puts: "fits x \<Longrightarrow> vec_writes (put x) (enc x)"
    and gets: "fits x \<Longrightarrow> rest_is m b pos (enc x @ bs) \<Longrightarrow> get m b pos = Done (x, pos + length (enc x))"
    and inside: "buffer_ok m b \<Longrightarrow> pos \<le> mPvlen b \<Longrightarrow> reads_inside b pos (get m b pos)"
begin

text \<open>What was put behind any bytes is got back, whatever follows.\<close>

lemma put_get:
  assumes "fits x" "pos \<le> length vec"
  shows "\<exists>vec'. put x (vec, pos) = Done (vec', pos + length (enc x)) \<and>
    (\<forall>m b post. buffer_ok m b \<longrightarrow> bytes_of m b = take (pos + length (enc x)) vec' @ post \<longrightarrow>
      get m b pos = Done (x, pos + length (enc x)))"
proof -
  obtain vec' where v: "put x (vec, pos) = Done (vec', pos + length (enc x))" "pos + length (enc x) \<le> length vec'"
    "take (pos + length (enc x)) vec' = take pos vec @ enc x"
    using puts [OF assms(1)] assms(2) unfolding vec_writes_def by blast
  have "get m b pos = Done (x, pos + length (enc x))"
    if "buffer_ok m b" "bytes_of m b = take (pos + length (enc x)) vec' @ post" for m b post
  proof (rule gets [OF assms(1)])
    have e: "bytes_of m b = take pos vec @ enc x @ post" using that(2) v(3) by simp
    then have "mPvlen b = pos + length (enc x) + length post" using assms(2) length_bytes_of [of m b] by simp
    with e show "rest_is m b pos (enc x @ post)" using that(1) assms(2) by (simp add: rest_is_def)
  qed
  with v(1) show ?thesis by blast
qed

lemma rest_after: "rest_is m b pos (enc x @ bs) \<Longrightarrow> rest_is m b (pos + length (enc x)) bs"
  by (rule rest_drop) simp_all

end

lemma vec_writesI:
  assumes "\<And>vec pos. pos \<le> length vec \<Longrightarrow> \<exists>pad. f (vec, pos) = Done (take pos vec @ bs @ pad, pos + length bs)"
  shows "vec_writes f bs"
  unfolding vec_writes_def
proof (intro allI impI)
  fix vec :: bytes and pos assume "pos \<le> length vec"
  with assms [of pos vec] show "\<exists>vec'. f (vec, pos) = Done (vec', pos + length bs) \<and> pos + length bs \<le> length vec' \<and>
      take (pos + length bs) vec' = take pos vec @ bs" by force
qed

lemma vec_writes_then:
  assumes "vec_writes f a" "vec_writes g b"
  shows "vec_writes (\<lambda>s. framed_bind (f s) g) (a @ b)"
  unfolding vec_writes_def
proof (intro allI impI)
  fix vec :: bytes and pos assume p: "pos \<le> length vec"
  obtain v1 where v1: "f (vec, pos) = Done (v1, pos + length a)" "pos + length a \<le> length v1"
    "take (pos + length a) v1 = take pos vec @ a" using assms(1) p unfolding vec_writes_def by blast
  obtain v2 where v2: "g (v1, pos + length a) = Done (v2, pos + length a + length b)" "pos + length a + length b \<le> length v2"
    "take (pos + length a + length b) v2 = take (pos + length a) v1 @ b" using assms(2) v1(2) unfolding vec_writes_def by blast
  show "\<exists>vec'. framed_bind (f (vec, pos)) g = Done (vec', pos + length (a @ b)) \<and> pos + length (a @ b) \<le> length vec' \<and>
      take (pos + length (a @ b)) vec' = take pos vec @ a @ b"
    using v1 v2 by (intro exI [of _ v2]) (simp add: add.assoc)
qed

lemma vec_writes_nothing: "vec_writes Done []"
  by (rule vec_writesI) (auto intro: append_take_drop_id [symmetric])

lemma poke_over: "pos \<le> length vec \<Longrightarrow> poke pos bs vec = take pos vec @ bs @ drop (pos + length bs) vec"
  by (simp add: poke_def)

lemma update_over: "pos < length vec \<Longrightarrow> vec[pos := x] = take pos vec @ x # drop (pos + 1) vec"
  by (simp add: upd_conv_take_nth_drop)

lemma network_order [simp]: "machineToNetworkOrder bs = bs" "networkToMachineOrder bs = bs"
  by (simp_all add: machineToNetworkOrder_def networkToMachineOrder_def MachineByteOrder_def NetworkByteOrder_def)

lemma encodeBool_writes: "vec_writes (encodeBool b) (enc_rcf_bool b)"
proof (rule vec_writesI)
  fix vec :: bytes and pos assume p: "pos \<le> length vec"
  show "\<exists>pad. encodeBool b (vec, pos) = Done (take pos vec @ enc_rcf_bool b @ pad, pos + length (enc_rcf_bool b))"
  proof (cases "pos = length vec")
    case True
    then show ?thesis by (simp add: encodeBool_def Let_def enc_rcf_bool_def list_update_append)
  next
    case False
    with p show ?thesis by (simp add: encodeBool_def Let_def enc_rcf_bool_def update_over)
  qed
qed

lemma encodeInt_writes: "vec_writes (encodeInt v) (enc_rcf_int v)"
proof (rule vec_writesI)
  fix vec :: bytes and pos assume p: "pos \<le> length vec"
  define w where "w = (if pos + 5 > length vec then vec @ replicate 5 0 else vec)"
  have w: "pos + 5 \<le> length w" "take pos w = take pos vec" using p by (auto simp: w_def)
  show "\<exists>pad. encodeInt v (vec, pos) = Done (take pos vec @ enc_rcf_int v @ pad, pos + length (enc_rcf_int v))"
  proof (cases "0 \<le> sint v \<and> sint v < 255")
    case True
    then show ?thesis using p w
      by (auto simp: encodeInt_def Let_def w_def [symmetric] enc_rcf_int_def update_over)
  next
    case False
    then have "encodeInt v (vec, pos) = Done (poke (pos + 1) (enc_fixed32 v) (w[pos := 255]), pos + 5)"
      using p w by (auto simp: encodeInt_def Let_def w_def [symmetric])
    moreover have "poke (pos + 1) (enc_fixed32 v) (w[pos := 255]) = take pos w @ 255 # enc_fixed32 v @ drop (pos + 5) w"
      using w(1) by (simp add: poke_def update_over add.commute [of 5])
    ultimately show ?thesis using False w(2) by (auto simp: enc_rcf_int_def)
  qed
qed

text \<open>A length that is not negative as an \<^verbatim>\<open>int\<close>.\<close>

lemma int_to_size_length: "n < 2 ^ 31 \<Longrightarrow> int_to_size (of_nat n) = n" "n < 2 ^ 31 \<Longrightarrow> unat (of_nat n :: int32) = n"
proof -
  assume n: "n < 2 ^ 31"
  have "sint (of_nat n :: int32) = int n"
    using n by (simp add: sint_uint take_bit_nat_eq_self uint_word_of_int_eq of_nat_take_bit signed_take_bit_int_eq_self unsigned_of_nat)
  then show "int_to_size (of_nat n) = n" using n by (simp add: int_to_size_def)
  show "unat (of_nat n :: int32) = n" using n by (simp add: unat_of_nat)
qed

lemma string_tail_writes:
  assumes "length s < 2 ^ 31"
  shows "vec_writes (\<lambda>(vec, pos). RCF_ASSERT (pos \<le> length vec)
    (let vec = (if pos + length s > length vec then vec @ replicate (length s) 0 else vec) in Done (poke pos s vec, pos + length s))) s"
  by (rule vec_writesI) (auto simp: Let_def poke_over)

lemma encodeString_writes:
  assumes "length s < 2 ^ 31"
  shows "vec_writes (encodeString s) (enc_rcf_string s)"
proof -
  have "encodeString s = (\<lambda>p. framed_bind (encodeInt (of_nat (length s)) p)
      (\<lambda>(vec, pos). RCF_ASSERT (pos \<le> length vec)
        (let vec = (if pos + length s > length vec then vec @ replicate (length s) 0 else vec) in Done (poke pos s vec, pos + length s))))"
    using int_to_size_length(1) [OF assms] by (simp add: encodeString_def Let_def fun_eq_iff cong: if_cong)
  with vec_writes_then [OF encodeInt_writes string_tail_writes [OF assms]] show ?thesis by (simp add: enc_rcf_string_def)
qed

lemma encodeByteBuffer_writes:
  assumes "buffer_ok m b" "mPvlen b < 2 ^ 31"
  shows "vec_writes (encodeByteBuffer m b) (enc_rcf_string (bytes_of m b))"
proof -
  have "encodeByteBuffer m b = encodeString (bytes_of m b)"
    using int_to_size_length(1) [OF assms(2)] assms(1)
    by (simp add: encodeByteBuffer_def encodeString_def Let_def getLength_def getPtr_def load_buffer fun_eq_iff)
  then show ?thesis using encodeString_writes [of "bytes_of m b"] assms(2) by simp
qed

section \<open>Reading back\<close>

lemma load_at:
  assumes "buffer_ok m b" "pos + n \<le> mPvlen b"
  shows "load m (ptr_add (mPv b) (int pos)) n = Some (take n (drop pos (bytes_of m b)))"
proof -
  have i: "in_block m (ptr_add (mPv b) (int pos)) n"
    using assms by (auto simp: buffer_ok_def in_block_def ptr_add_def nat_add_distrib)
  have "cells (ptr_add (mPv b) (int pos)) n = take n (drop pos (cells (mPv b) (mPvlen b)))"
    by (rule cells_part [OF assms(2)])
  then show ?thesis unfolding load_cells [OF i] by (simp add: bytes_of_def buffer_cells_def take_map drop_map)
qed

lemma rest_load:
  assumes "rest_is m b pos (xs @ bs)" "n = length xs"
  shows "load m (ptr_add (getPtr b) (int pos)) n = Some xs"
  using assms rest_length [OF assms(1)] by (simp add: rest_is_def load_at getPtr_def)

lemma decodeBool_reads: "rest_is m b pos (enc_rcf_bool x @ bs) \<Longrightarrow> decodeBool m b pos = Done (x, pos + length (enc_rcf_bool x))"
  using rest_length [of m b pos "enc_rcf_bool x @ bs"] rest_load [of m b pos "enc_rcf_bool x" bs 1]
  by (auto simp: decodeBool_def enc_rcf_bool_def getLength_def Let_def)

text \<open>An integer that is written as one byte is that byte.\<close>

lemma one_byte_int:
  assumes "0 \<le> sint (v :: int32)" "sint v < 255"
  shows "(ucast v :: byte) < 255" "ucast (ucast v :: byte) = v"
proof -
  have "uint v = sint v mod 2 ^ 32" by (rule uint_of_sint32)
  then have u: "uint v < 255" using assms by simp
  have b: "uint (ucast v :: byte) = uint v" using u by (simp add: unsigned_ucast_eq unsigned_take_bit_eq take_bit_int_eq_self)
  show "(ucast v :: byte) < 255" using u b by (simp add: word_less_def)
  show "ucast (ucast v :: byte) = v"
    by (rule word_uint_eqI) (use u b in \<open>simp add: unsigned_ucast_eq unsigned_take_bit_eq take_bit_int_eq_self\<close>)
qed

lemma decodeInt_reads:
  assumes "rest_is m b pos (enc_rcf_int v @ bs)"
  shows "decodeInt m b pos = Done (v, pos + length (enc_rcf_int v))"
proof (cases "0 \<le> sint v \<and> sint v < 255")
  case True
  then have e: "enc_rcf_int v = [ucast v]" by (simp add: enc_rcf_int_def)
  have "load m (ptr_add (getPtr b) (int pos)) 1 = Some [ucast v]"
    by (rule rest_load [where bs = bs]) (use assms e in simp_all)
  with True one_byte_int [of v] rest_length [OF assms] show ?thesis
    by (simp add: decodeInt_def e getLength_def Let_def)
next
  case False
  then have e: "enc_rcf_int v = [255] @ enc_fixed32 v" by (auto simp: enc_rcf_int_def)
  have r: "rest_is m b (pos + 1) (enc_fixed32 v @ bs)"
    by (rule rest_drop [where xs = "[255]"]) (use assms e in simp_all)
  have "load m (ptr_add (getPtr b) (int pos)) 1 = Some [255]"
    by (rule rest_load [where bs = "enc_fixed32 v @ bs"]) (use assms e in simp_all)
  moreover have "load m (ptr_add (getPtr b) (int (pos + 1))) 4 = Some (enc_fixed32 v)"
    by (rule rest_load [OF r]) simp
  ultimately show ?thesis using rest_length [OF assms]
    by (simp add: decodeInt_def e getLength_def Let_def)
qed

lemma decodeString_reads:
  assumes "length s < 2 ^ 31" "rest_is m b pos (enc_rcf_string s @ bs)"
  shows "decodeString m b pos = Done (s, pos + length (enc_rcf_string s))"
proof -
  let ?l = "of_nat (length s) :: int32"
  have r: "rest_is m b pos (enc_rcf_int ?l @ s @ bs)" using assms(2) by (simp add: enc_rcf_string_def)
  then have r2: "rest_is m b (pos + length (enc_rcf_int ?l)) (s @ bs)" by (rule rest_drop) simp
  have "load m (ptr_add (getPtr b) (int (pos + length (enc_rcf_int ?l)))) (length s) = Some s"
    by (rule rest_load [OF r2]) simp
  then show ?thesis using decodeInt_reads [OF r] int_to_size_length(2) [OF assms(1)] rest_length [OF r2]
    by (simp add: decodeString_def getLength_def enc_rcf_string_def)
qed

lemma decodeBool_inside: "buffer_ok m b \<Longrightarrow> pos \<le> mPvlen b \<Longrightarrow> reads_inside b pos (decodeBool m b pos)"
  by (auto simp: decodeBool_def RCF_VERIFY_def getLength_def getPtr_def load_at Let_def reads_inside_def)

lemma decodeInt_inside:
  assumes "buffer_ok m b" "pos \<le> mPvlen b"
  shows "reads_inside b pos (decodeInt m b pos)"
proof -
  have l: "load m (ptr_add (getPtr b) (int p)) n = Some (take n (drop p (bytes_of m b)))" if "p + n \<le> mPvlen b" for p n
    using load_at [OF assms(1) that] by (simp add: getPtr_def)
  show ?thesis
    by (auto simp: decodeInt_def RCF_VERIFY_def getLength_def l Let_def reads_inside_def)
      (simp add: l [of "Suc pos" 4, simplified])
qed

lemma decodeUint_same: "decodeUint m b pos = decodeInt m b pos"
  by (cases "decodeInt m b pos") (auto simp: decodeUint_def)

lemma decodeString_inside:
  assumes "buffer_ok m b" "pos \<le> mPvlen b"
  shows "reads_inside b pos (decodeString m b pos)"
proof (cases "decodeInt m b pos")
  case (Done r)
  then obtain len p where r: "decodeInt m b pos = Done (len, p)" "pos < p" "p \<le> mPvlen b"
    using decodeInt_inside [OF assms] by (cases r) (auto simp: reads_inside_def)
  show ?thesis
  proof (cases "p + unat len \<le> mPvlen b")
    case True
    with r load_at [OF assms(1) True] show ?thesis by (simp add: decodeString_def reads_inside_def getLength_def getPtr_def)
  qed (use r in \<open>simp add: decodeString_def reads_inside_def getLength_def\<close>)
qed (use decodeInt_inside [OF assms] in \<open>simp_all add: decodeString_def reads_inside_def\<close>)

interpretation rcf_bool: rcf_codec encodeBool decodeBool enc_rcf_bool "\<lambda>_. True"
  by unfold_locales (simp_all add: encodeBool_writes decodeBool_reads decodeBool_inside)

interpretation rcf_int: rcf_codec encodeInt decodeInt enc_rcf_int "\<lambda>_. True"
  by unfold_locales (simp_all add: encodeInt_writes decodeInt_reads decodeInt_inside)

interpretation rcf_uint: rcf_codec encodeInt decodeUint enc_rcf_int "\<lambda>_. True"
  by unfold_locales (simp_all add: encodeInt_writes decodeInt_reads decodeInt_inside decodeUint_same)

interpretation rcf_string: rcf_codec encodeString decodeString enc_rcf_string "\<lambda>s. length s < 2 ^ 31"
  by unfold_locales (simp_all add: encodeString_writes decodeString_reads decodeString_inside)

section \<open>Byte buffers inside messages\<close>

text \<open>
  The bytes are copied into the memory of the old value if it is large enough, else into a new
  vector. Memory outside of the old value keeps its content.
\<close>

definition only_changes :: "memory \<Rightarrow> memory \<Rightarrow> ptr set \<Rightarrow> bool" where
  "only_changes m m' A \<longleftrightarrow> extends m m' \<and> (\<forall>a. in_block m a 1 \<longrightarrow> a \<notin> A \<longrightarrow> byte_at m' a = byte_at m a)"

lemma only_changes_refl [simp]: "only_changes m m A"
  by (simp add: only_changes_def)

lemma only_changes_trans: "only_changes m m' A \<Longrightarrow> only_changes m' m'' B \<Longrightarrow> only_changes m m'' (A \<union> B)"
  unfolding only_changes_def using extends_trans in_block_extends by (metis UnI1 UnI2)

lemma only_changes_mono: "only_changes m m' A \<Longrightarrow> A \<subseteq> B \<Longrightarrow> only_changes m m' B"
  unfolding only_changes_def by blast

lemma only_changes_bytes:
  assumes "only_changes m m' A" "buffer_ok m b" "set (buffer_cells b) \<inter> A = {}"
  shows "bytes_of m' b = bytes_of m b" "buffer_ok m' b"
proof -
  show "buffer_ok m' b" using assms buffer_ok_extends unfolding only_changes_def by blast
  show "bytes_of m' b = bytes_of m b" unfolding bytes_of_def
  proof (rule map_cong [OF refl])
    fix a assume a: "a \<in> set (buffer_cells b)"
    with assms(2) have "in_block m a 1" unfolding buffer_cells_def buffer_ok_def by (rule cell_in_block)
    with a assms show "byte_at m' a = byte_at m a" unfolding only_changes_def by blast
  qed
qed

lemma only_changes_rest:
  "only_changes m m' A \<Longrightarrow> rest_is m b pos bs \<Longrightarrow> set (buffer_cells b) \<inter> A = {} \<Longrightarrow> rest_is m' b pos bs"
  using only_changes_bytes [of m m' A b] by (simp add: rest_is_def)

lemma store_only_changes: "store m p bs = Some m' \<Longrightarrow> only_changes m m' (set (cells p (length bs)))"
  using store_shape [of m p bs m'] store_frame [of m p bs m'] by (simp add: only_changes_def)

text \<open>The addresses a buffer may use: those of an old one, or those of blocks that are new.\<close>

definition within_or_new :: "memory \<Rightarrow> ptr set \<Rightarrow> byte_buffer \<Rightarrow> bool" where
  "within_or_new m A b \<longleftrightarrow> (\<forall>a\<in>set (buffer_cells b). a \<in> A \<or> length m \<le> fst a)"

lemma within_or_new_disjoint:
  assumes "within_or_new m A v" "buffer_ok m b" "set (buffer_cells b) \<inter> A = {}"
  shows "set (buffer_cells b) \<inter> set (buffer_cells v) = {}"
proof -
  have "fst a < length m" if "a \<in> set (buffer_cells b)" for a
    using cell_in_block [of m "mPv b" "mPvlen b" a] that assms(2) by (simp add: buffer_ok_def buffer_cells_def in_block_def)
  then show ?thesis using assms(1,3) unfolding within_or_new_def by fastforce
qed

definition fill_value :: "byte_buffer \<Rightarrow> byte_buffer \<Rightarrow> nat \<Rightarrow> nat \<Rightarrow> memory \<Rightarrow> (byte_buffer \<times> memory \<times> nat) framed" where
  "fill_value value b n pos m =
     (let (value, m) = (if getLength value < n then ByteBuffer_sized n m else (value, m))
      in framed_bind (ByteBuffer_slice value 0 n) (\<lambda>value.
         framed_bind (or_broken (load m (ptr_add (getPtr b) (int pos)) n)) (\<lambda>bs.
         framed_bind (or_broken (store m (getPtr value) bs)) (\<lambda>m. Done (value, m, pos + n)))))"

lemma fill_value_copies:
  assumes "buffer_ok m b" "buffer_ok m value" "pos + n \<le> mPvlen b" "0 < n" "n < npos"
  obtains value' m' where "fill_value value b n pos m = Done (value', m', pos + n)"
    "only_changes m m' (set (buffer_cells value))" "buffer_ok m' value'" "bytes_of m' value' = take n (drop pos (bytes_of m b))"
    "within_or_new m (set (buffer_cells value)) value'"
proof -
  obtain v1 m1 where v1m1: "(v1, m1) = (if getLength value < n then ByteBuffer_sized n m else (value, m))" by (metis surj_pair)
  have v1: "buffer_ok m1 v1" "n \<le> mPvlen v1" "only_changes m m1 {}" "within_or_new m (set (buffer_cells value)) v1"
    "bytes_of m1 b = bytes_of m b" "buffer_ok m1 b"
  proof -
    show c: "only_changes m m1 {}" using v1m1
      by (auto simp: ByteBuffer_sized_def new_vector_def only_changes_def byte_at_def in_block_def nth_append split: if_splits)
    show "bytes_of m1 b = bytes_of m b" "buffer_ok m1 b" using only_changes_bytes [OF c assms(1)] by simp_all
    show "buffer_ok m1 v1" using v1m1 assms(2,4)
      by (auto simp: ByteBuffer_sized_def new_vector_def vector_front_def buffer_ok_def in_block_def split: if_splits)
    show "n \<le> mPvlen v1" using v1m1 by (auto simp: ByteBuffer_sized_def new_vector_def getLength_def split: if_splits)
    show "within_or_new m (set (buffer_cells value)) v1" using v1m1 assms(4)
      by (auto simp: ByteBuffer_sized_def new_vector_def vector_front_def within_or_new_def buffer_cells_def set_cells split: if_splits)
  qed
  obtain w where w: "ByteBuffer_slice v1 0 n = Done w" "buffer_ok m1 w" "mPvlen w = n" "buffer_cells w = take n (buffer_cells v1)"
    using slice_window [of m1 v1 0 n] v1(1,2) assms(5) by auto
  let ?xs = "take n (drop pos (bytes_of m b))"
  have xs: "length ?xs = n" using assms(3) by simp
  have ld: "load m1 (ptr_add (mPv b) (int pos)) n = Some ?xs"
    using load_at [OF v1(6) assms(3)] v1(5) by (simp add: getPtr_def)
  obtain m2 where m2: "store m1 (mPv w) ?xs = Some m2"
    using store_in_block [of m1 "mPv w" ?xs] w(2,3) xs by (auto simp: buffer_ok_def)
  have cw: "cells (mPv w) (length ?xs) = buffer_cells w" using w(3) xs by (simp add: buffer_cells_def)
  have sub: "set (buffer_cells w) \<subseteq> set (buffer_cells v1)" using w(4) set_take_subset by metis
  have "only_changes m1 m2 (set (buffer_cells w))" using store_only_changes [OF m2] cw by simp
  from only_changes_trans [OF v1(3) this]
  have "only_changes m m2 (set (buffer_cells value))"
    using v1(4) sub unfolding only_changes_def within_or_new_def in_block_def by fastforce
  moreover have "bytes_of m2 w = ?xs" using store_cells [OF m2] cw by (simp add: bytes_of_def)
  moreover have "buffer_ok m2 w" using store_shape [OF m2] w(2) buffer_ok_extends by blast
  moreover have "within_or_new m (set (buffer_cells value)) w" using v1(4) sub unfolding within_or_new_def by blast
  moreover have "fill_value value b n pos m = Done (w, m2, pos + n)"
    unfolding fill_value_def v1m1 [symmetric] by (simp add: w(1) ld m2 getPtr_def)
  ultimately show ?thesis using that by blast
qed

lemma decodeByteBuffer_fill:
  assumes "decodeInt m b pos = Done (len, p)"
  shows "decodeByteBuffer value b (m, pos) =
    RCF_VERIFY (p + unat len \<le> getLength b) Decoding
      (if unat len = 0 then framed_bind (ByteBuffer_slice value 0 0) (\<lambda>value. Done (value, m, p + unat len))
       else fill_value value b (unat len) p m)"
  using assms by (simp add: decodeByteBuffer_def fill_value_def)

lemma small_npos: "unat (len :: int32) < npos"
  using unsigned_less [of len, where ?'a = nat] by (simp add: npos_def)

text \<open>The reader inverts \<^verbatim>\<open>encodeByteBuffer\<close> when the old value does not share memory with the message.\<close>

lemma decodeByteBuffer_reads:
  assumes "length xs < 2 ^ 31" "rest_is m b pos (enc_rcf_string xs @ bs)" "buffer_ok m value"
    "set (buffer_cells b) \<inter> set (buffer_cells value) = {}"
  obtains value' m' where "decodeByteBuffer value b (m, pos) = Done (value', m', pos + length (enc_rcf_string xs))"
    "only_changes m m' (set (buffer_cells value))" "buffer_ok m' value'" "bytes_of m' value' = xs"
    "rest_is m' b (pos + length (enc_rcf_string xs)) bs" "within_or_new m (set (buffer_cells value)) value'"
proof -
  let ?l = "of_nat (length xs) :: int32" and ?p = "pos + length (enc_rcf_int (of_nat (length xs)))"
  have r: "rest_is m b pos (enc_rcf_int ?l @ xs @ bs)" using assms(2) by (simp add: enc_rcf_string_def)
  have r2: "rest_is m b ?p (xs @ bs)" by (rule rest_drop [OF r]) simp
  have u: "unat ?l = length xs" using int_to_size_length(2) [OF assms(1)] .
  have fits: "?p + length xs \<le> mPvlen b" using rest_length [OF r2] by simp
  have p: "pos + length (enc_rcf_string xs) = ?p + length xs" by (simp add: enc_rcf_string_def)
  have tail: "rest_is m b (?p + length xs) bs" by (rule rest_drop [OF r2]) simp
  have d: "decodeByteBuffer value b (m, pos) =
      RCF_VERIFY (?p + length xs \<le> mPvlen b) Decoding
        (if xs = [] then framed_bind (ByteBuffer_slice value 0 0) (\<lambda>value. Done (value, m, ?p + length xs))
         else fill_value value b (length xs) ?p m)"
    using decodeByteBuffer_fill [OF decodeInt_reads [OF r], of "value"] by (simp add: u getLength_def)
  show ?thesis
  proof (cases "xs = []")
    case True
    obtain w where w: "ByteBuffer_slice value 0 0 = Done w" "buffer_ok m w" "bytes_of m w = []" "buffer_cells w = []"
      using slice_window [of m "value" 0 0] assms(3) by (auto simp: npos_def)
    show ?thesis by (rule that [of w m]) (use w d tail fits True p in \<open>simp_all add: within_or_new_def\<close>)
  next
    case False
    obtain w m' where w: "fill_value value b (length xs) ?p m = Done (w, m', ?p + length xs)"
      "only_changes m m' (set (buffer_cells value))" "buffer_ok m' w" "bytes_of m' w = take (length xs) (drop ?p (bytes_of m b))"
      "within_or_new m (set (buffer_cells value)) w"
      using fill_value_copies [of m b "value" ?p "length xs"] r2 assms(3) fits False small_npos [of ?l] u
      by (auto simp: rest_is_def)
    have "rest_is m' b (?p + length xs) bs" by (rule only_changes_rest [OF w(2) tail assms(4)])
    moreover have "bytes_of m' w = xs" using w(4) r2 by (simp add: rest_is_def)
    ultimately show ?thesis using that [of w m'] w d fits False p by simp
  qed
qed

lemma decodeByteBuffer_inside:
  assumes "buffer_ok m b" "pos \<le> mPvlen b" "buffer_ok m value"
  shows "case decodeByteBuffer value b (m, pos) of
      Done (value', m', pos') \<Rightarrow> pos < pos' \<and> pos' \<le> mPvlen b \<and> only_changes m m' (set (buffer_cells value)) \<and> buffer_ok m' value' \<and>
        within_or_new m (set (buffer_cells value)) value'
    | Raised e \<Rightarrow> e = Decoding | Aborted \<Rightarrow> False | Broken \<Rightarrow> False | Endless \<Rightarrow> False"
proof (cases "decodeInt m b pos")
  case (Done r)
  then obtain len p where r: "decodeInt m b pos = Done (len, p)" "pos < p" "p \<le> mPvlen b"
    using decodeInt_inside [OF assms(1,2)] by (cases r) (auto simp: reads_inside_def)
  note d = decodeByteBuffer_fill [OF r(1), of "value", unfolded getLength_def]
  show ?thesis
  proof (cases "p + unat len \<le> mPvlen b")
    case fits: True
    show ?thesis
    proof (cases "unat len = 0")
      case True
      obtain w where "ByteBuffer_slice value 0 0 = Done w" "buffer_ok m w" "buffer_cells w = []"
        using slice_window [of m "value" 0 0] assms(3) by (auto simp: npos_def)
      with d r fits True show ?thesis by (simp add: within_or_new_def)
    next
      case False
      obtain w m' where w: "fill_value value b (unat len) p m = Done (w, m', p + unat len)"
        "only_changes m m' (set (buffer_cells value))" "buffer_ok m' w" "bytes_of m' w = take (unat len) (drop p (bytes_of m b))"
        "within_or_new m (set (buffer_cells value)) w"
        by (rule fill_value_copies [OF assms(1,3) fits _ small_npos]) (use False in simp_all)
      with d r fits False show ?thesis by simp
    qed
  qed (use d in simp)
qed (use decodeInt_inside [OF assms(1,2)] in \<open>simp_all add: decodeByteBuffer_def reads_inside_def\<close>)

section \<open>Writing into a byte buffer, from the outside\<close>

lemma store_at:
  assumes "buffer_ok m b" "pos + length bs \<le> mPvlen b"
  obtains m' where "store m (ptr_add (mPv b) (int pos)) bs = Some m'" "only_changes m m' (set (buffer_cells b))"
    "length m' = length m" "bytes_of m' b = poke pos bs (bytes_of m b)" "buffer_ok m' b"
proof -
  let ?p = "ptr_add (mPv b) (int pos)"
  have "in_block m ?p (length bs)" using assms by (auto simp: buffer_ok_def in_block_def ptr_add_def nat_add_distrib)
  then obtain m' where m': "store m ?p bs = Some m'" using store_in_block by blast
  have c: "cells ?p (length bs) = take (length bs) (drop pos (buffer_cells b))"
    unfolding buffer_cells_def by (rule cells_part [OF assms(2)])
  have oc: "only_changes m m' (set (buffer_cells b))"
    by (rule only_changes_mono [OF store_only_changes [OF m']]) (simp add: c, meson order_trans set_drop_subset set_take_subset)
  have parts: "buffer_cells b = take pos (buffer_cells b) @ cells ?p (length bs) @ drop (pos + length bs) (buffer_cells b)"
    unfolding c by (metis append_take_drop_id drop_drop add.commute)
  have d: "distinct (buffer_cells b)" by (auto simp: buffer_cells_def cells_def distinct_map inj_on_def ptr_add_def)
  have fr: "byte_at m' a = byte_at m a" if "a \<in> set (buffer_cells b)" "a \<notin> set (cells ?p (length bs))" for a
  proof (rule store_frame [OF m' that(2)])
    show "in_block m a 1" using that(1) assms(1) unfolding buffer_cells_def buffer_ok_def by (rule cell_in_block [rotated])
  qed
  have sep: "a \<notin> set (cells ?p (length bs))" if "a \<in> set (take pos (buffer_cells b)) \<union> set (drop (pos + length bs) (buffer_cells b))" for a
  proof -
    have "distinct (take pos (buffer_cells b) @ cells ?p (length bs) @ drop (pos + length bs) (buffer_cells b))"
      using d parts by simp
    with that show ?thesis by auto
  qed
  have "map (byte_at m') (take pos (buffer_cells b)) = map (byte_at m) (take pos (buffer_cells b))"
  proof (rule map_cong [OF refl])
    fix a assume a: "a \<in> set (take pos (buffer_cells b))"
    show "byte_at m' a = byte_at m a" by (rule fr) (use a sep in \<open>auto dest: in_set_takeD\<close>)
  qed
  moreover have "map (byte_at m') (drop (pos + length bs) (buffer_cells b)) = map (byte_at m) (drop (pos + length bs) (buffer_cells b))"
  proof (rule map_cong [OF refl])
    fix a assume a: "a \<in> set (drop (pos + length bs) (buffer_cells b))"
    show "byte_at m' a = byte_at m a" by (rule fr) (use a sep in \<open>auto dest: in_set_dropD\<close>)
  qed
  ultimately have "bytes_of m' b = take pos (bytes_of m b) @ bs @ drop (pos + length bs) (bytes_of m b)"
    using store_cells [OF m'] unfolding bytes_of_def by (subst parts) (simp add: take_map drop_map)
  then have "bytes_of m' b = poke pos bs (bytes_of m b)" by (simp add: poke_def)
  moreover have "buffer_ok m' b" "length m' = length m" using store_shape [OF m'] assms(1) buffer_ok_extends by auto
  ultimately show ?thesis using that m' oc by blast
qed

text \<open>A writer puts its bytes into the buffer where they fit, and fails its assertion where they do not.\<close>

definition buf_writes :: "byte_buffer \<Rightarrow> (memory \<times> nat \<Rightarrow> (memory \<times> nat) framed) \<Rightarrow> bytes \<Rightarrow> bool" where
  "buf_writes b f bs \<longleftrightarrow> (\<forall>m pos. buffer_ok m b \<longrightarrow> pos \<le> mPvlen b \<longrightarrow>
     (if pos + length bs \<le> mPvlen b
      then \<exists>m'. f (m, pos) = Done (m', pos + length bs) \<and> only_changes m m' (set (buffer_cells b)) \<and> length m' = length m \<and>
        bytes_of m' b = poke pos bs (bytes_of m b)
      else f (m, pos) = Aborted))"

lemma poke_append: "pos + length a \<le> length xs \<Longrightarrow> poke (pos + length a) b (poke pos a xs) = poke pos (a @ b) xs"
  by (simp add: poke_def ac_simps)

lemma buf_writes_then:
  assumes "buf_writes b f x" "buf_writes b g y"
  shows "buf_writes b (\<lambda>s. framed_bind (f s) g) (x @ y)"
  unfolding buf_writes_def
proof (intro allI impI)
  fix m pos assume o: "buffer_ok m b" "pos \<le> mPvlen b"
  show "if pos + length (x @ y) \<le> mPvlen b
      then \<exists>m'. framed_bind (f (m, pos)) g = Done (m', pos + length (x @ y)) \<and> only_changes m m' (set (buffer_cells b)) \<and>
        length m' = length m \<and> bytes_of m' b = poke pos (x @ y) (bytes_of m b)
      else framed_bind (f (m, pos)) g = Aborted"
  proof (cases "pos + length x \<le> mPvlen b")
    case True
    then obtain m1 where m1: "f (m, pos) = Done (m1, pos + length x)" "only_changes m m1 (set (buffer_cells b))" "length m1 = length m"
      "bytes_of m1 b = poke pos x (bytes_of m b)" using assms(1) [unfolded buf_writes_def, rule_format, OF o] by auto
    have "buffer_ok m1 b" using m1(2) o(1) buffer_ok_extends unfolding only_changes_def by blast
    with assms(2) True have g: "if pos + length x + length y \<le> mPvlen b
      then \<exists>m'. g (m1, pos + length x) = Done (m', pos + length x + length y) \<and> only_changes m1 m' (set (buffer_cells b)) \<and>
        length m' = length m1 \<and> bytes_of m' b = poke (pos + length x) y (bytes_of m1 b)
      else g (m1, pos + length x) = Aborted" unfolding buf_writes_def by blast
    with m1 True show ?thesis
      using only_changes_trans [OF m1(2), of _ "set (buffer_cells b)"] by (auto simp: poke_append add.assoc split: if_splits)
  next
    case False
    then have "f (m, pos) = Aborted" using assms(1) [unfolded buf_writes_def, rule_format, OF o] by simp
    with False show ?thesis by simp
  qed
qed

lemma encodeInt_in_writes: "buf_writes b (encodeInt_in v b) (enc_rcf_int v)"
  unfolding buf_writes_def
proof (intro allI impI)
  fix m pos assume o: "buffer_ok m b" "pos \<le> mPvlen b"
  show "if pos + length (enc_rcf_int v) \<le> mPvlen b
      then \<exists>m'. encodeInt_in v b (m, pos) = Done (m', pos + length (enc_rcf_int v)) \<and> only_changes m m' (set (buffer_cells b)) \<and>
        length m' = length m \<and> bytes_of m' b = poke pos (enc_rcf_int v) (bytes_of m b)
      else encodeInt_in v b (m, pos) = Aborted"
  proof (cases "0 \<le> sint v \<and> sint v < 255")
    case True
    then have e: "enc_rcf_int v = [ucast v]" by (simp add: enc_rcf_int_def)
    show ?thesis
    proof (cases "pos + 1 \<le> mPvlen b")
      case fits: True
      obtain m' where "store m (ptr_add (mPv b) (int pos)) [ucast v] = Some m'" "only_changes m m' (set (buffer_cells b))"
        "length m' = length m" "bytes_of m' b = poke pos [ucast v] (bytes_of m b)"
        by (rule store_at [OF o(1), of pos "[ucast v]"]) (use fits in simp_all)
      with True e fits show ?thesis by (simp add: encodeInt_in_def getLength_def getPtr_def)
    qed (use True e in \<open>simp add: encodeInt_in_def getLength_def\<close>)
  next
    case False
    then have e: "enc_rcf_int v = [255] @ enc_fixed32 v" by (auto simp: enc_rcf_int_def)
    show ?thesis
    proof (cases "pos + 1 \<le> mPvlen b")
      case one: True
      obtain m1 where m1: "store m (ptr_add (mPv b) (int pos)) [255] = Some m1" "only_changes m m1 (set (buffer_cells b))"
        "length m1 = length m" "bytes_of m1 b = poke pos [255] (bytes_of m b)" "buffer_ok m1 b"
        by (rule store_at [OF o(1), of pos "[255]"]) (use one in simp_all)
      show ?thesis
      proof (cases "pos + 1 + 4 \<le> mPvlen b")
        case fits: True
        obtain m2 where m2: "store m1 (ptr_add (mPv b) (int (pos + 1))) (enc_fixed32 v) = Some m2"
          "only_changes m1 m2 (set (buffer_cells b))" "length m2 = length m1"
          "bytes_of m2 b = poke (pos + 1) (enc_fixed32 v) (bytes_of m1 b)"
          by (rule store_at [OF m1(5), of "pos + 1" "enc_fixed32 v"]) (use fits in simp_all)
        have "bytes_of m2 b = poke pos ([255] @ enc_fixed32 v) (bytes_of m b)"
          using m2(4) m1(4) one poke_append [of pos "[255]" "bytes_of m b" "enc_fixed32 v"] by simp
        with m1 m2 False e fits only_changes_trans [OF m1(2) m2(2)] show ?thesis
          by (auto simp: encodeInt_in_def Let_def getLength_def getPtr_def)
      qed (use m1 False e one in \<open>auto simp: encodeInt_in_def Let_def getLength_def getPtr_def\<close>)
    qed (use False e in \<open>auto simp: encodeInt_in_def Let_def getLength_def getPtr_def\<close>)
  qed
qed

lemma encodeBool_in_writes: "buf_writes b (encodeBool_in v b) (enc_rcf_bool v)"
  unfolding buf_writes_def
proof (intro allI impI)
  fix m pos assume o: "buffer_ok m b" "pos \<le> mPvlen b"
  show "if pos + length (enc_rcf_bool v) \<le> mPvlen b
      then \<exists>m'. encodeBool_in v b (m, pos) = Done (m', pos + length (enc_rcf_bool v)) \<and> only_changes m m' (set (buffer_cells b)) \<and>
        length m' = length m \<and> bytes_of m' b = poke pos (enc_rcf_bool v) (bytes_of m b)
      else encodeBool_in v b (m, pos) = Aborted"
  proof (cases "pos + 1 \<le> mPvlen b")
    case True
    obtain m' where "store m (ptr_add (mPv b) (int pos)) (enc_rcf_bool v) = Some m'" "only_changes m m' (set (buffer_cells b))"
      "length m' = length m" "bytes_of m' b = poke pos (enc_rcf_bool v) (bytes_of m b)"
      by (rule store_at [OF o(1), of pos "enc_rcf_bool v"]) (use True in \<open>simp_all add: enc_rcf_bool_def\<close>)
    with True show ?thesis by (cases v) (simp_all add: encodeBool_in_def enc_rcf_bool_def getLength_def getPtr_def)
  qed (simp add: encodeBool_in_def enc_rcf_bool_def getLength_def)
qed

end
