(* ===== verification/Rcf_Filter.thy ===== *)
theory Rcf_Filter
  imports Rcf_Encoding
begin

text \<open>
  Message filters, \<^verbatim>\<open>RCF/Filter.cpp\<close>: filters hold pointers to their neighbours and call each other,
  down with data to read or write and up with completions. Every method ends in such a call, so a
  chain runs as a machine whose steps are the calls. The identity filter and the xor filter are
  modelled; \<^verbatim>\<open>filterData\<close> and \<^verbatim>\<open>unfilterData\<close> put a proxy at the far end of the chain.
\<close>

section \<open>Filter objects\<close>

datatype filter_kind = Identity_Filter | Xor_Filter

record filter_description =
  mFilterName :: string
  mFilterId :: int32
  mRemovable :: bool

definition RcfFilter_Identity :: int32 where "RcfFilter_Identity = 1"
definition RcfFilter_Xor :: int32 where "RcfFilter_Xor = 101"

definition IdentityFilter_spFilterDescription :: filter_description where
  "IdentityFilter_spFilterDescription = \<lparr>mFilterName = ''identity filter'', mFilterId = RcfFilter_Identity, mRemovable = True\<rparr>"

definition XorFilter_spFilterDescription :: filter_description where
  "XorFilter_spFilterDescription = \<lparr>mFilterName = ''Xor filter'', mFilterId = RcfFilter_Xor, mRemovable = True\<rparr>"

text \<open>A \<^verbatim>\<open>Filter *\<close>: null, a filter of the vector, or the proxy on the stack of the caller.\<close>

datatype filter_ptr = Null_Filter | Nth_Filter nat | The_Proxy

record filter_obj =
  f_kind :: filter_kind
  mpPreFilter :: filter_ptr
  mpPostFilter :: filter_ptr
  mMask :: byte
  mTotalBytes :: nat
  mByteBuffers :: "byte_buffer list"
  mTempByteBuffers :: "byte_buffer list"

text \<open>The constructors; \<open>mTotalBytes\<close> is not initialised, and written before it is read.\<close>

definition IdentityFilter_new :: filter_obj where
  "IdentityFilter_new = \<lparr>f_kind = Identity_Filter, mpPreFilter = Null_Filter, mpPostFilter = Null_Filter, mMask = 0,
     mTotalBytes = 0, mByteBuffers = [], mTempByteBuffers = []\<rparr>"

definition XorFilter_new :: filter_obj where
  "XorFilter_new = \<lparr>f_kind = Xor_Filter, mpPreFilter = Null_Filter, mpPostFilter = Null_Filter, mMask = 0x55,
     mTotalBytes = 0, mByteBuffers = [], mTempByteBuffers = []\<rparr>"

definition getFilterDescription :: "filter_obj \<Rightarrow> filter_description" where
  "getFilterDescription f =
     (case f_kind f of Identity_Filter \<Rightarrow> IdentityFilter_spFilterDescription | Xor_Filter \<Rightarrow> XorFilter_spFilterDescription)"

definition getId :: "filter_description \<Rightarrow> int32" where "getId d = mFilterId d"

definition setPreFilter :: "filter_ptr \<Rightarrow> filter_obj \<Rightarrow> filter_obj" where
  "setPreFilter preFilter f = f\<lparr>mpPreFilter := preFilter\<rparr>"

definition setPostFilter :: "filter_ptr \<Rightarrow> filter_obj \<Rightarrow> filter_obj" where
  "setPostFilter postFilter f = f\<lparr>mpPostFilter := postFilter\<rparr>"

text \<open>The two proxies.\<close>

record read_proxy =
  rp_preFilter :: filter_ptr
  mInByteBufferPos :: nat
  rp_mBytesTransferred :: nat
  mInByteBuffer :: byte_buffer
  mOutByteBuffer :: byte_buffer

record write_proxy =
  wp_preFilter :: filter_ptr
  wp_mBytesTransferred :: nat
  wp_mByteBuffers :: "byte_buffer list"

datatype proxy = Read_Proxy read_proxy | Write_Proxy write_proxy

definition ReadProxy_new :: read_proxy where
  "ReadProxy_new = \<lparr>rp_preFilter = Null_Filter, mInByteBufferPos = 0, rp_mBytesTransferred = 0,
     mInByteBuffer = ByteBuffer_new, mOutByteBuffer = ByteBuffer_new\<rparr>"

definition WriteProxy_new :: write_proxy where
  "WriteProxy_new = \<lparr>wp_preFilter = Null_Filter, wp_mBytesTransferred = 0, wp_mByteBuffers = []\<rparr>"

definition getOutByteBuffer :: "read_proxy \<Rightarrow> byte_buffer \<times> read_proxy" where
  "getOutByteBuffer p = (mOutByteBuffer p, p\<lparr>mOutByteBuffer := ByteBuffer_new\<rparr>)"

definition setInByteBuffer :: "byte_buffer \<Rightarrow> read_proxy \<Rightarrow> read_proxy" where
  "setInByteBuffer byteBuffer p = p\<lparr>mInByteBuffer := byteBuffer\<rparr>"

section \<open>Calls between filters\<close>

datatype call =
    Call_read filter_ptr byte_buffer nat
  | Call_write filter_ptr "byte_buffer list"
  | Call_onReadCompleted filter_ptr byte_buffer
  | Call_onWriteCompleted filter_ptr nat

record chain =
  filters :: "filter_obj list"
  proxy_of :: proxy
  mem :: memory

text \<open>A method runs on the state and ends in a call, or in none.\<close>

type_synonym 'a filter_call = "'a \<Rightarrow> chain \<Rightarrow> (call option \<times> chain) framed"

fun nonReadOnly_loop :: "byte_buffer list \<Rightarrow> byte_buffer list \<Rightarrow> memory \<Rightarrow> (byte_buffer list \<times> memory) framed" where
  "nonReadOnly_loop [] nonReadOnlyByteBuffers m = Done (nonReadOnlyByteBuffers, m)"
| "nonReadOnly_loop (b # bs) nonReadOnlyByteBuffers m =
     (if getLength b > 0
      then if getReadOnly b
           then let (spvc, m) = new_vector (replicate (getLength b) 0) m
                in framed_bind (or_broken (load m (getPtr b) (getLength b))) (\<lambda>xs.
                   framed_bind (or_broken (store m (spvc, 0) xs)) (\<lambda>m.
                     nonReadOnly_loop bs (nonReadOnlyByteBuffers @ [ByteBuffer_vector (spvc, 0) (length (m ! spvc)) spvc False]) m))
           else nonReadOnly_loop bs (nonReadOnlyByteBuffers @ [b]) m
      else nonReadOnly_loop bs nonReadOnlyByteBuffers m)"

definition createNonReadOnlyByteBuffers :: "byte_buffer list \<Rightarrow> memory \<Rightarrow> (byte_buffer list \<times> memory) framed" where
  "createNonReadOnlyByteBuffers byteBuffers m = nonReadOnly_loop byteBuffers [] m"

text \<open>\<^verbatim>\<open>getPtr()[j] ^= mMask\<close> for every byte of a buffer.\<close>

definition xor_buffer :: "byte \<Rightarrow> byte_buffer \<Rightarrow> memory \<Rightarrow> memory framed" where
  "xor_buffer key b m =
     framed_bind (or_broken (load m (getPtr b) (getLength b))) (\<lambda>bs.
       or_broken (store m (getPtr b) (map (\<lambda>x. xor x key) bs)))"

fun xor_buffers :: "byte \<Rightarrow> byte_buffer list \<Rightarrow> memory \<Rightarrow> memory framed" where
  "xor_buffers key [] m = Done m"
| "xor_buffers key (b # bs) m = framed_bind (xor_buffer key b m) (xor_buffers key bs)"

definition XorFilter_write :: "nat \<Rightarrow> byte_buffer list filter_call" where
  "XorFilter_write i byteBuffers c =
     (let f = (filters c ! i)\<lparr>mTotalBytes := lengthByteBuffers byteBuffers\<rparr>
      in framed_bind (createNonReadOnlyByteBuffers byteBuffers (mem c)) (\<lambda>(bs, m).
         let f = f\<lparr>mByteBuffers := bs\<rparr>
         in framed_bind (xor_buffers (mMask f) (mByteBuffers f) m) (\<lambda>m.
              Done (Some (Call_write (mpPostFilter f) (mByteBuffers f)), c\<lparr>filters := (filters c)[i := f], mem := m\<rparr>))))"

definition XorFilter_read :: "nat \<Rightarrow> byte_buffer \<Rightarrow> nat filter_call" where
  "XorFilter_read i byteBuffer bytesRequested c =
     Done (Some (Call_read (mpPostFilter (filters c ! i)) byteBuffer bytesRequested), c)"

definition XorFilter_onReadCompleted :: "nat \<Rightarrow> byte_buffer filter_call" where
  "XorFilter_onReadCompleted i byteBuffer c =
     (let f = filters c ! i
      in framed_bind (xor_buffer (mMask f) byteBuffer (mem c)) (\<lambda>m.
           Done (Some (Call_onReadCompleted (mpPreFilter f) byteBuffer), c\<lparr>mem := m\<rparr>)))"

definition XorFilter_onWriteCompleted :: "nat \<Rightarrow> nat filter_call" where
  "XorFilter_onWriteCompleted i bytesTransferred c =
     (let f = filters c ! i
      in if bytesTransferred = lengthByteBuffers (mByteBuffers f)
         then let f = f\<lparr>mByteBuffers := [], mTempByteBuffers := []\<rparr>
              in Done (Some (Call_onWriteCompleted (mpPreFilter f) (mTotalBytes f)), c\<lparr>filters := (filters c)[i := f]\<rparr>)
         else framed_bind (sliceByteBuffers (mByteBuffers f) bytesTransferred npos) (\<lambda>sl.
              let f = f\<lparr>mTempByteBuffers := sl\<rparr>;
                  f = f\<lparr>mByteBuffers := mTempByteBuffers f\<rparr>
              in Done (Some (Call_write (mpPostFilter f) (mByteBuffers f)), c\<lparr>filters := (filters c)[i := f]\<rparr>)))"

definition IdentityFilter_read :: "nat \<Rightarrow> byte_buffer \<Rightarrow> nat filter_call" where
  "IdentityFilter_read i byteBuffer bytesRequested c =
     Done (Some (Call_read (mpPostFilter (filters c ! i)) byteBuffer bytesRequested), c)"

definition IdentityFilter_write :: "nat \<Rightarrow> byte_buffer list filter_call" where
  "IdentityFilter_write i byteBuffers c = Done (Some (Call_write (mpPostFilter (filters c ! i)) byteBuffers), c)"

definition IdentityFilter_onReadCompleted :: "nat \<Rightarrow> byte_buffer filter_call" where
  "IdentityFilter_onReadCompleted i byteBuffer c =
     Done (Some (Call_onReadCompleted (mpPreFilter (filters c ! i)) byteBuffer), c)"

definition IdentityFilter_onWriteCompleted :: "nat \<Rightarrow> nat filter_call" where
  "IdentityFilter_onWriteCompleted i bytesTransferred c =
     Done (Some (Call_onWriteCompleted (mpPreFilter (filters c ! i)) bytesTransferred), c)"

definition ReadProxy_read :: "read_proxy \<Rightarrow> byte_buffer \<Rightarrow> nat filter_call" where
  "ReadProxy_read p byteBuffer bytesRequested c =
     RCF_ASSERT (isEmpty_buffer byteBuffer) (RCF_ASSERT (mInByteBufferPos p < getLength (mInByteBuffer p))
       (let bytesRemaining = getLength (mInByteBuffer p) - mInByteBufferPos p;
            bytesToRead = min bytesRemaining bytesRequested
        in framed_bind (ByteBuffer_slice (mInByteBuffer p) (mInByteBufferPos p) bytesToRead) (\<lambda>myByteBuffer.
             let p = p\<lparr>mInByteBufferPos := mInByteBufferPos p + bytesToRead\<rparr>
             in Done (Some (Call_onReadCompleted (rp_preFilter p) myByteBuffer), c\<lparr>proxy_of := Read_Proxy p\<rparr>))))"

definition ReadProxy_onReadCompleted :: "read_proxy \<Rightarrow> byte_buffer filter_call" where
  "ReadProxy_onReadCompleted p byteBuffer c =
     Done (None, c\<lparr>proxy_of := Read_Proxy (p\<lparr>mOutByteBuffer := byteBuffer, rp_mBytesTransferred := getLength byteBuffer\<rparr>)\<rparr>)"

definition WriteProxy_write :: "write_proxy \<Rightarrow> byte_buffer list filter_call" where
  "WriteProxy_write p byteBuffers c =
     (let p = p\<lparr>wp_mByteBuffers := wp_mByteBuffers p @ byteBuffers\<rparr>;
          bytesTransferred = lengthByteBuffers byteBuffers
      in Done (Some (Call_onWriteCompleted (wp_preFilter p) bytesTransferred), c\<lparr>proxy_of := Write_Proxy p\<rparr>))"

definition WriteProxy_onWriteCompleted :: "write_proxy \<Rightarrow> nat filter_call" where
  "WriteProxy_onWriteCompleted p bytesTransferred c =
     Done (None, c\<lparr>proxy_of := Write_Proxy (p\<lparr>wp_mBytesTransferred := bytesTransferred\<rparr>)\<rparr>)"

text \<open>
  The dispatch of a call. A call on a null pointer is undefined, and so are the calls the proxies
  inherit from the identity filter and that would use the neighbour nobody set.
\<close>

definition at_filter :: "nat \<Rightarrow> chain \<Rightarrow> (filter_kind \<Rightarrow> (call option \<times> chain) framed) \<Rightarrow> (call option \<times> chain) framed" where
  "at_filter i c r = (if i < length (filters c) then r (f_kind (filters c ! i)) else Broken)"

fun step :: "call \<Rightarrow> chain \<Rightarrow> (call option \<times> chain) framed" where
  "step (Call_read (Nth_Filter i) b n) c =
     at_filter i c (\<lambda>k. case k of Identity_Filter \<Rightarrow> IdentityFilter_read i b n c | Xor_Filter \<Rightarrow> XorFilter_read i b n c)"
| "step (Call_write (Nth_Filter i) bs) c =
     at_filter i c (\<lambda>k. case k of Identity_Filter \<Rightarrow> IdentityFilter_write i bs c | Xor_Filter \<Rightarrow> XorFilter_write i bs c)"
| "step (Call_onReadCompleted (Nth_Filter i) b) c =
     at_filter i c (\<lambda>k. case k of Identity_Filter \<Rightarrow> IdentityFilter_onReadCompleted i b c | Xor_Filter \<Rightarrow> XorFilter_onReadCompleted i b c)"
| "step (Call_onWriteCompleted (Nth_Filter i) n) c =
     at_filter i c (\<lambda>k. case k of Identity_Filter \<Rightarrow> IdentityFilter_onWriteCompleted i n c | Xor_Filter \<Rightarrow> XorFilter_onWriteCompleted i n c)"
| "step (Call_read The_Proxy b n) c = (case proxy_of c of Read_Proxy p \<Rightarrow> ReadProxy_read p b n c | Write_Proxy p \<Rightarrow> Broken)"
| "step (Call_write The_Proxy bs) c = (case proxy_of c of Read_Proxy p \<Rightarrow> Broken | Write_Proxy p \<Rightarrow> WriteProxy_write p bs c)"
| "step (Call_onReadCompleted The_Proxy b) c =
     (case proxy_of c of Read_Proxy p \<Rightarrow> ReadProxy_onReadCompleted p b c
      | Write_Proxy p \<Rightarrow> Done (Some (Call_onReadCompleted (wp_preFilter p) b), c))"
| "step (Call_onWriteCompleted The_Proxy n) c =
     (case proxy_of c of Read_Proxy p \<Rightarrow> Done (Some (Call_onWriteCompleted (rp_preFilter p) n), c)
      | Write_Proxy p \<Rightarrow> WriteProxy_onWriteCompleted p n c)"
| "step (Call_read Null_Filter b n) c = Broken"
| "step (Call_write Null_Filter bs) c = Broken"
| "step (Call_onReadCompleted Null_Filter b) c = Broken"
| "step (Call_onWriteCompleted Null_Filter n) c = Broken"

text \<open>A call with everything it calls; \<open>None\<close> when the calls never end.\<close>

partial_function (option) run_calls :: "call \<Rightarrow> chain \<Rightarrow> chain framed option" where
  "run_calls k c =
     (case step k c of
        Done (k', c') \<Rightarrow> (case k' of None \<Rightarrow> Some (Done c') | Some k' \<Rightarrow> run_calls k' c')
      | Raised e \<Rightarrow> Some (Raised e) | Aborted \<Rightarrow> Some Aborted | Broken \<Rightarrow> Some Broken | Endless \<Rightarrow> Some Endless)"

definition finally_done :: "'a framed option \<Rightarrow> 'a framed" where
  "finally_done r = (case r of None \<Rightarrow> Endless | Some r \<Rightarrow> r)"

section \<open>Filtering and unfiltering data\<close>

definition connectFilters :: "filter_obj list \<Rightarrow> filter_obj list" where
  "connectFilters fs =
     fold (\<lambda>i fs.
        let fs = (if i > 0 then fs[i := setPreFilter (Nth_Filter (i - 1)) (fs ! i)] else fs)
        in if i < length fs - 1 then fs[i := setPostFilter (Nth_Filter (i + 1)) (fs ! i)] else fs)
       [0..<length fs] fs"

text \<open>\<^verbatim>\<open>filters.back()->setPostFilter(proxy); filters.front()->setPreFilter(proxy);\<close>\<close>

definition attach_proxy :: "filter_obj list \<Rightarrow> filter_obj list" where
  "attach_proxy fs =
     (let n = length fs - 1;
          fs = fs[n := setPostFilter The_Proxy (fs ! n)]
      in fs[0 := setPreFilter The_Proxy (fs ! 0)])"

partial_function (option) filter_loop :: "byte_buffer list \<Rightarrow> nat \<Rightarrow> nat \<Rightarrow> chain \<Rightarrow> (nat \<times> chain) framed option" where
  "filter_loop unfilteredData unfilteredDataLen transferred c =
     (if transferred < unfilteredDataLen
      then case sliceByteBuffers unfilteredData transferred npos of
          Done sliced \<Rightarrow>
            Option.bind (run_calls (Call_write (Nth_Filter 0) sliced) c) (\<lambda>r. case r of
                Done c' \<Rightarrow> filter_loop unfilteredData unfilteredDataLen
                  (transferred + (case proxy_of c' of Write_Proxy p \<Rightarrow> wp_mBytesTransferred p | Read_Proxy p \<Rightarrow> 0)) c'
              | Raised e \<Rightarrow> Some (Raised e) | Aborted \<Rightarrow> Some Aborted | Broken \<Rightarrow> Some Broken | Endless \<Rightarrow> Some Endless)
        | Raised e \<Rightarrow> Some (Raised e) | Aborted \<Rightarrow> Some Aborted | Broken \<Rightarrow> Some Broken | Endless \<Rightarrow> Some Endless
      else Some (Done (transferred, c)))"

definition filterData :: "byte_buffer list \<Rightarrow> filter_obj list \<Rightarrow> memory \<Rightarrow> (bool \<times> byte_buffer list \<times> filter_obj list \<times> memory) framed" where
  "filterData unfilteredData fs m =
     (if fs = [] then Broken
      else let writeProxy = WriteProxy_new\<lparr>wp_preFilter := Nth_Filter (length fs - 1)\<rparr>;
               c = \<lparr>filters = attach_proxy fs, proxy_of = Write_Proxy writeProxy, mem = m\<rparr>;
               unfilteredDataLen = lengthByteBuffers unfilteredData
           in framed_bind (finally_done (filter_loop unfilteredData unfilteredDataLen 0 c)) (\<lambda>(transferred, c).
                RCF_ASSERT (transferred = unfilteredDataLen)
                  (let filteredData = (case proxy_of c of Write_Proxy p \<Rightarrow> wp_mByteBuffers p | Read_Proxy p \<Rightarrow> [])
                   in Done (transferred = unfilteredDataLen, filteredData, filters c, mem c))))"

partial_function (option) unfilter_loop :: "nat \<Rightarrow> nat \<Rightarrow> byte_buffer list \<Rightarrow> chain \<Rightarrow> (nat \<times> byte_buffer list \<times> chain) framed option" where
  "unfilter_loop unfilteredDataLen transferred out c =
     (if transferred < unfilteredDataLen
      then Option.bind (run_calls (Call_read (Nth_Filter 0) ByteBuffer_new (unfilteredDataLen - transferred)) c) (\<lambda>r. case r of
          Done c' \<Rightarrow>
            (case proxy_of c' of
               Read_Proxy p \<Rightarrow>
                 (case getOutByteBuffer p of (byteBuffer, p') \<Rightarrow>
                    unfilter_loop unfilteredDataLen (transferred + rp_mBytesTransferred p) (out @ [byteBuffer]) (c'\<lparr>proxy_of := Read_Proxy p'\<rparr>))
             | Write_Proxy p \<Rightarrow> Some Broken)
        | Raised e \<Rightarrow> Some (Raised e) | Aborted \<Rightarrow> Some Aborted | Broken \<Rightarrow> Some Broken | Endless \<Rightarrow> Some Endless)
      else Some (Done (transferred, out, c)))"

definition unfilterData_list :: "byte_buffer \<Rightarrow> nat \<Rightarrow> filter_obj list \<Rightarrow> memory \<Rightarrow> (bool \<times> byte_buffer list \<times> filter_obj list \<times> memory) framed" where
  "unfilterData_list filteredByteBuffer unfilteredDataLen fs m =
     (if fs = [] then Broken
      else let readProxy = (setInByteBuffer filteredByteBuffer ReadProxy_new)\<lparr>rp_preFilter := Nth_Filter (length fs - 1)\<rparr>;
               c = \<lparr>filters = attach_proxy fs, proxy_of = Read_Proxy readProxy, mem = m\<rparr>
           in framed_bind (finally_done (unfilter_loop unfilteredDataLen 0 [] c)) (\<lambda>(transferred, out, c).
                Done (transferred = unfilteredDataLen, out, filters c, mem c)))"

definition unfilterData :: "byte_buffer \<Rightarrow> nat \<Rightarrow> filter_obj list \<Rightarrow> memory \<Rightarrow> (bool \<times> byte_buffer \<times> filter_obj list \<times> memory) framed" where
  "unfilterData filteredByteBuffer unfilteredDataLen fs m =
     framed_bind (unfilterData_list filteredByteBuffer unfilteredDataLen fs m) (\<lambda>(ret, unfilteredByteBuffers, fs, m).
       if unfilteredByteBuffers = [] then Done (ret, ByteBuffer_new, fs, m)
       else if length unfilteredByteBuffers = 1 then Done (ret, unfilteredByteBuffers ! 0, fs, m)
       else framed_bind (copyByteBuffers unfilteredByteBuffers m) (\<lambda>(b, m). Done (ret, b, fs, m)))"

section \<open>Lists of buffers\<close>

definition buffers_ok :: "memory \<Rightarrow> byte_buffer list \<Rightarrow> bool" where
  "buffers_ok m bs \<longleftrightarrow> (\<forall>b\<in>set bs. buffer_ok m b)"

text \<open>No two buffers of a list share a byte.\<close>

definition disjoint_buffers :: "byte_buffer list \<Rightarrow> bool" where
  "disjoint_buffers bs \<longleftrightarrow> distinct (list_cells bs)"

lemma buffers_ok_simps [simp]:
  "buffers_ok m []" "buffers_ok m (b # bs) \<longleftrightarrow> buffer_ok m b \<and> buffers_ok m bs"
  by (simp_all add: buffers_ok_def)

lemma buffers_in_block: "buffers_ok m bs \<Longrightarrow> a \<in> set (list_cells bs) \<Longrightarrow> in_block m a 1"
proof (induction bs)
  case (Cons b bs)
  then show ?case using cell_in_block [of m "mPv b" "mPvlen b" a] by (auto simp: buffer_ok_def buffer_cells_def)
qed simp

lemma buffers_below: "buffers_ok m bs \<Longrightarrow> a \<in> set (list_cells bs) \<Longrightarrow> fst a < length m"
  using buffers_in_block by (fastforce simp: in_block_def)

lemma only_changes_list:
  assumes "only_changes m m' A" "buffers_ok m bs" "set (list_cells bs) \<inter> A = {}"
  shows "bytes_all m' bs = bytes_all m bs"
  unfolding bytes_all_cells
proof (rule map_cong [OF refl])
  fix a assume a: "a \<in> set (list_cells bs)"
  with assms buffers_in_block [OF assms(2) a] show "byte_at m' a = byte_at m a" unfolding only_changes_def by blast
qed

lemma only_changes_list_ok: "only_changes m m' A \<Longrightarrow> buffers_ok m bs \<Longrightarrow> buffers_ok m' bs"
  unfolding only_changes_def buffers_ok_def using buffer_ok_extends by blast

text \<open>Changes of new memory are no changes.\<close>

lemma only_changes_new:
  assumes "only_changes m m' A" "\<forall>a\<in>A. a \<in> B \<or> length m \<le> fst a"
  shows "only_changes m m' B"
  using assms unfolding only_changes_def in_block_def by fastforce

section \<open>The xor filter on data\<close>

lemma xor_buffer_ok:
  assumes "buffer_ok m b"
  obtains m' where "xor_buffer k b m = Done m'" "only_changes m m' (set (buffer_cells b))"
    "bytes_of m' b = map (\<lambda>x. xor x k) (bytes_of m b)"
proof -
  let ?xs = "map (\<lambda>x. xor x k) (bytes_of m b)"
  obtain m' where m': "store m (mPv b) ?xs = Some m'"
    using store_in_block [of m "mPv b" ?xs] assms by (auto simp: buffer_ok_def)
  have "only_changes m m' (set (buffer_cells b))" using store_only_changes [OF m'] by (simp add: buffer_cells_def)
  moreover have "bytes_of m' b = ?xs" using store_cells [OF m'] by (simp add: bytes_of_def buffer_cells_def)
  ultimately show ?thesis using that m' assms by (simp add: xor_buffer_def getPtr_def getLength_def load_buffer)
qed

lemma xor_buffers_ok:
  assumes "buffers_ok m bs" "disjoint_buffers bs"
  obtains m' where "xor_buffers k bs m = Done m'" "only_changes m m' (set (list_cells bs))"
    "bytes_all m' bs = map (\<lambda>x. xor x k) (bytes_all m bs)"
proof -
  have "\<exists>m'. xor_buffers k bs m = Done m' \<and> only_changes m m' (set (list_cells bs)) \<and>
      bytes_all m' bs = map (\<lambda>x. xor x k) (bytes_all m bs)" using assms
  proof (induction bs arbitrary: m)
    case (Cons b bs)
    obtain m1 where m1: "xor_buffer k b m = Done m1" "only_changes m m1 (set (buffer_cells b))"
      "bytes_of m1 b = map (\<lambda>x. xor x k) (bytes_of m b)" using Cons.prems(1) xor_buffer_ok [of m b k] by auto
    have d: "set (buffer_cells b) \<inter> set (list_cells bs) = {}" "disjoint_buffers bs"
      using Cons.prems(2) by (auto simp: disjoint_buffers_def)
    have ok1: "buffers_ok m1 bs" "buffer_ok m1 b"
      using only_changes_list_ok [OF m1(2)] Cons.prems(1) only_changes_list_ok [OF m1(2), of "[b]"] by auto
    obtain m2 where m2: "xor_buffers k bs m1 = Done m2" "only_changes m1 m2 (set (list_cells bs))"
      "bytes_all m2 bs = map (\<lambda>x. xor x k) (bytes_all m1 bs)" using Cons.IH [OF ok1(1) d(2)] by blast
    have "bytes_all m1 bs = bytes_all m bs" by (rule only_changes_list [OF m1(2)]) (use Cons.prems(1) d in auto)
    moreover have "bytes_of m2 b = bytes_of m1 b" by (rule only_changes_bytes [OF m2(2) ok1(2) d(1)])
    ultimately show ?case using m1 m2 only_changes_trans [OF m1(2) m2(2)] by simp
  qed simp
  then show ?thesis using that by blast
qed

text \<open>A first buffer that may be written in place stays the first, with its margin.\<close>

definition front_kept :: "byte_buffer list \<Rightarrow> byte_buffer list \<Rightarrow> bool" where
  "front_kept bs out \<longleftrightarrow> (bs \<noteq> [] \<longrightarrow> 0 < mPvlen (hd bs) \<longrightarrow> \<not> mReadOnly (hd bs) \<longrightarrow> out \<noteq> [] \<and> hd out = hd bs)"

lemma front_kept_refl [simp]: "front_kept bs bs"
  by (simp add: front_kept_def)

lemma front_kept_trans: "front_kept bs out \<Longrightarrow> front_kept out out' \<Longrightarrow> front_kept bs out'"
  by (auto simp: front_kept_def)

lemma nonReadOnly_front:
  assumes "nonReadOnly_loop bs [] m = Done (out, m')"
  shows "front_kept bs out"
proof -
  have acc: "nonReadOnly_loop bs acc m = Done (out, m') \<Longrightarrow> \<exists>xs. out = acc @ xs" for bs acc m out m'
  proof (induction bs arbitrary: acc m)
    case (Cons b bs)
    from Cons.prems show ?case
      by (auto simp: Let_def new_vector_def framed_bind_Done split: if_splits dest!: Cons.IH)
  qed simp
  show ?thesis
  proof (cases bs)
    case (Cons b xs)
    then show ?thesis using assms acc [of xs "[b]" m out m'] by (auto simp: front_kept_def getLength_def getReadOnly_def)
  qed (simp add: front_kept_def)
qed

lemma slice_front:
  assumes "sliceByteBuffers bs 0 npos = Done sl" "\<forall>b\<in>set bs. buffer_ok m b" "lengthByteBuffers bs < npos"
  shows "front_kept bs sl"
proof (cases bs)
  case (Cons b xs)
  have n: "lengthByteBuffers xs < npos" "mPvlen b < npos" using assms(3) Cons by (auto simp: lengthByteBuffers_sum)
  show ?thesis
  proof (cases "0 < mPvlen b")
    case True
    have "ByteBuffer_slice b 0 (mPvlen b) = Done b" using n(2) by (simp add: ByteBuffer_slice_def ptr_add_def)
    then have "sliceByteBuffers bs 0 npos = for_each_from PushBackByteBuffer xs 0 (mPvlen b) (npos - mPvlen b) [b]"
      using Cons True n(2) by (simp add: sliceByteBuffers_def forEachByteBuffer_def getLength_def push_back [of b "[]"] Let_def)
    moreover obtain tl where "for_each_from PushBackByteBuffer xs 0 (mPvlen b) (npos - mPvlen b) [b] = Done ([b] @ tl)"
      using for_each_behind [of xs m 0 "mPvlen b" "npos - mPvlen b" "[b]"] assms(2) Cons True n(1) by auto
    ultimately show ?thesis using assms(1) Cons by (auto simp: front_kept_def)
  qed (use Cons in \<open>simp add: front_kept_def\<close>)
qed (simp add: front_kept_def)

lemma nonReadOnly_copies:
  assumes "buffers_ok m bs" "disjoint_buffers bs"
  obtains out m' where "nonReadOnly_loop bs acc m = Done (acc @ out, m')" "only_changes m m' {}" "buffers_ok m' out"
    "bytes_all m' out = bytes_all m bs" "disjoint_buffers out"
    "\<forall>a\<in>set (list_cells out). a \<in> set (list_cells bs) \<or> length m \<le> fst a"
proof -
  have "\<exists>out m'. nonReadOnly_loop bs acc m = Done (acc @ out, m') \<and> only_changes m m' {} \<and> buffers_ok m' out \<and>
      bytes_all m' out = bytes_all m bs \<and> disjoint_buffers out \<and>
      (\<forall>a\<in>set (list_cells out). a \<in> set (list_cells bs) \<or> length m \<le> fst a)" using assms
  proof (induction bs arbitrary: acc m)
    case (Cons b bs)
    have d: "set (buffer_cells b) \<inter> set (list_cells bs) = {}" "disjoint_buffers bs" "distinct (buffer_cells b)"
      using Cons.prems(2) by (auto simp: disjoint_buffers_def)
    have below: "fst a < length m" if "a \<in> set (buffer_cells b) \<union> set (list_cells bs)" for a
      using buffers_below [OF Cons.prems(1)] that by auto
    show ?case
    proof (cases "0 < mPvlen b")
      case empty: False
      then have "buffer_cells b = []" by (simp add: buffer_cells_def cells_def)
      with empty Cons.IH [of m acc] Cons.prems d show ?thesis by (auto simp: getLength_def bytes_of_def)
    next
      case full: True
      show ?thesis
      proof (cases "mReadOnly b")
        case False
        obtain out m' where o: "nonReadOnly_loop bs (acc @ [b]) m = Done ((acc @ [b]) @ out, m')" "only_changes m m' {}"
          "buffers_ok m' out" "bytes_all m' out = bytes_all m bs" "disjoint_buffers out"
          "\<forall>a\<in>set (list_cells out). a \<in> set (list_cells bs) \<or> length m \<le> fst a"
          using Cons.IH [of m "acc @ [b]"] Cons.prems d by auto
        have "set (buffer_cells b) \<inter> set (list_cells out) = {}" using o(6) d(1) below by fastforce
        with o d only_changes_bytes [OF o(2), of b] Cons.prems(1) False full show ?thesis
          by (intro exI [of _ "b # out"] exI [of _ m']) (auto simp: getLength_def getReadOnly_def disjoint_buffers_def)
      next
        case True
        let ?v = "length m" and ?m = "m @ [replicate (mPvlen b) 0]"
        have ok1: "buffer_ok ?m b" "bytes_of ?m b = bytes_of m b"
          using Cons.prems(1) buffer_ok_extends [OF _ extends_append] bytes_of_append by auto
        obtain m1 where m1: "store ?m (?v, 0) (bytes_of m b) = Some m1"
          using store_in_block [of ?m "(?v, 0)" "bytes_of m b"] by (auto simp: in_block_def)
        let ?b = "ByteBuffer_vector (?v, 0) (length (m1 ! ?v)) ?v False"
        have len: "length m1 = length m + 1" "length (m1 ! ?v) = mPvlen b" using store_shape [OF m1] by (auto simp: extends_def)
        have cb: "buffer_cells ?b = cells (?v, 0) (mPvlen b)" by (simp add: buffer_cells_def ByteBuffer_vector_def len)
        have oc: "only_changes m m1 {}"
        proof -
          have "only_changes m ?m {}" by (auto simp: only_changes_def byte_at_def in_block_def nth_append)
          from only_changes_trans [OF this store_only_changes [OF m1]] show ?thesis
            by (rule only_changes_new) (auto simp: set_cells)
        qed
        have "bytes_of m1 ?b = map (byte_at m1) (cells (?v, 0) (mPvlen b))" unfolding bytes_of_def cb ..
        also have "\<dots> = bytes_of m b" using store_cells [OF m1] by simp
        finally have b1: "buffer_ok m1 ?b" "bytes_of m1 ?b = bytes_of m b"
          using len by (simp_all add: buffer_ok_def in_block_def ByteBuffer_vector_def)
        have bs1: "buffers_ok m1 bs" "bytes_all m1 bs = bytes_all m bs"
          using only_changes_list_ok [OF oc] only_changes_list [OF oc] Cons.prems(1) by auto
        obtain out m' where o: "nonReadOnly_loop bs (acc @ [?b]) m1 = Done ((acc @ [?b]) @ out, m')" "only_changes m1 m' {}"
          "buffers_ok m' out" "bytes_all m' out = bytes_all m1 bs" "disjoint_buffers out"
          "\<forall>a\<in>set (list_cells out). a \<in> set (list_cells bs) \<or> length m1 \<le> fst a"
          using Cons.IH [OF bs1(1) d(2), of "acc @ [?b]"] by auto
        have "set (buffer_cells ?b) \<inter> set (list_cells out) = {}" using o(6) below len cb by (fastforce simp: set_cells)
        moreover have "distinct (buffer_cells ?b)" unfolding cb by (auto simp: cells_def distinct_map inj_on_def ptr_add_def)
        moreover have "bytes_of m' ?b = bytes_of m b" "buffer_ok m' ?b" using only_changes_bytes [OF o(2) b1(1)] b1(2) by auto
        moreover have "only_changes m m' {}" using only_changes_trans [OF oc o(2)] by simp
        moreover have "nonReadOnly_loop (b # bs) acc m = nonReadOnly_loop bs (acc @ [?b]) m1"
          using full True load_buffer [OF ok1(1)] ok1(2) m1
          by (simp add: getLength_def getReadOnly_def getPtr_def new_vector_def)
        ultimately show ?thesis using o bs1 cb len
          by (intro exI [of _ "?b # out"] exI [of _ m']) (auto simp: disjoint_buffers_def set_cells)
      qed
    qed
  qed (simp add: disjoint_buffers_def)
  then show ?thesis using that by blast
qed

section \<open>Chains\<close>

text \<open>What a chain does to every byte.\<close>

definition mask_of :: "filter_obj \<Rightarrow> byte" where
  "mask_of f = (case f_kind f of Identity_Filter \<Rightarrow> 0 | Xor_Filter \<Rightarrow> mMask f)"

definition chain_key :: "filter_obj list \<Rightarrow> byte" where
  "chain_key fs = foldr xor (map mask_of fs) 0"

definition scramble :: "byte \<Rightarrow> bytes \<Rightarrow> bytes" where
  "scramble k bs = map (\<lambda>x. xor x k) bs"

lemma scramble_simps [simp]:
  "scramble 0 bs = bs" "scramble k (scramble l bs) = scramble (xor l k) bs" "scramble k [] = []"
  "length (scramble k bs) = length bs" "scramble k (as @ bs) = scramble k as @ scramble k bs"
  by (simp_all add: scramble_def xor.assoc)

lemma scramble_twice [simp]: "scramble k (scramble k bs) = bs"
  by simp

lemma take_scramble: "take n (scramble k bs) = scramble k (take n bs)"
  by (simp add: scramble_def take_map)

text \<open>Neighbours point at each other; in a linked chain both ends point at the proxy.\<close>

definition connected :: "filter_obj list \<Rightarrow> bool" where
  "connected fs \<longleftrightarrow> (\<forall>i<length fs. (0 < i \<longrightarrow> mpPreFilter (fs ! i) = Nth_Filter (i - 1)) \<and>
     (i < length fs - 1 \<longrightarrow> mpPostFilter (fs ! i) = Nth_Filter (i + 1)))"

definition before :: "nat \<Rightarrow> filter_ptr" where
  "before i = (if i = 0 then The_Proxy else Nth_Filter (i - 1))"

definition behind :: "nat \<Rightarrow> nat \<Rightarrow> filter_ptr" where
  "behind n i = (if i = n - 1 then The_Proxy else Nth_Filter (i + 1))"

definition linked :: "filter_obj list \<Rightarrow> bool" where
  "linked fs \<longleftrightarrow> fs \<noteq> [] \<and> (\<forall>i<length fs. mpPreFilter (fs ! i) = before i \<and> mpPostFilter (fs ! i) = behind (length fs) i)"

definition same_filter :: "filter_obj \<Rightarrow> filter_obj \<Rightarrow> bool" where
  "same_filter f g \<longleftrightarrow> f_kind f = f_kind g \<and> mMask f = mMask g \<and> mpPreFilter f = mpPreFilter g \<and> mpPostFilter f = mpPostFilter g"

definition same_filters :: "filter_obj list \<Rightarrow> filter_obj list \<Rightarrow> bool" where
  "same_filters fs gs \<longleftrightarrow> list_all2 same_filter fs gs"

lemma same_filter_refl [simp]: "same_filter f f"
  by (simp add: same_filter_def)

lemma same_filters_refl [simp]: "same_filters fs fs"
  by (simp add: same_filters_def list.rel_refl)

lemma same_filters_trans: "same_filters fs gs \<Longrightarrow> same_filters gs hs \<Longrightarrow> same_filters fs hs"
  unfolding same_filters_def by (rule list_all2_trans) (auto simp: same_filter_def)

lemma same_filters_length: "same_filters fs gs \<Longrightarrow> length gs = length fs"
  by (simp add: same_filters_def list_all2_lengthD)

lemma same_filters_update: "i < length fs \<Longrightarrow> same_filter (fs ! i) f \<Longrightarrow> same_filters fs (fs[i := f])"
  by (auto simp: same_filters_def list_all2_conv_all_nth nth_list_update)

lemma same_filters_linked: "same_filters fs gs \<Longrightarrow> linked fs \<Longrightarrow> linked gs"
  unfolding linked_def same_filters_def
  by (auto simp: list_all2_conv_all_nth same_filter_def) 

lemma same_filters_key: "same_filters fs gs \<Longrightarrow> chain_key (drop i gs) = chain_key (drop i fs)"
proof -
  assume s: "same_filters fs gs"
  then have "map mask_of gs = map mask_of fs"
    by (auto simp: same_filters_def list_all2_conv_all_nth same_filter_def mask_of_def intro!: nth_equalityI split: filter_kind.split)
  then show ?thesis by (simp add: chain_key_def drop_map [symmetric])
qed

lemma chain_key_drop: "i < length fs \<Longrightarrow> chain_key (drop i fs) = xor (mask_of (fs ! i)) (chain_key (drop (Suc i) fs))"
  by (simp add: chain_key_def Cons_nth_drop_Suc [symmetric])

lemma chain_key_take:
  assumes "i < length fs"
  shows "chain_key (take (Suc i) fs) = xor (mask_of (fs ! i)) (chain_key (take i fs))"
proof -
  have "foldr xor xs (xor a b) = xor a (foldr xor xs b)" for xs and a b :: byte
    by (induction xs) (simp_all add: xor.left_commute)
  from this [of "map mask_of (take i fs)" "mask_of (fs ! i)" 0] show ?thesis
    using assms by (simp add: chain_key_def take_Suc_conv_app_nth)
qed

text \<open>A filter that has passed on data and waits for its completion.\<close>

definition passed :: "nat \<Rightarrow> filter_obj \<Rightarrow> bool" where
  "passed n f \<longleftrightarrow> (f_kind f = Xor_Filter \<longrightarrow> mTotalBytes f = n \<and> lengthByteBuffers (mByteBuffers f) = n)"

section \<open>The contract of a filter\<close>

text \<open>
  Each of the four methods passes its call on to a neighbour. Data on its way down is handed on
  changed by the mask, in buffers that share no bytes; data on its way up is changed in place; a
  completion is passed back once all bytes of the filter are gone.
\<close>

definition hands_down :: "nat \<Rightarrow> byte_buffer list \<Rightarrow> chain \<Rightarrow> (call option \<times> chain) framed \<Rightarrow> bool" where
  "hands_down i bs c r \<longleftrightarrow> (\<exists>f' m' bs'.
     r = Done (Some (Call_write (mpPostFilter (filters c ! i)) bs'), c\<lparr>filters := (filters c)[i := f'], mem := m'\<rparr>) \<and>
     same_filter (filters c ! i) f' \<and> passed (lengthByteBuffers bs) f' \<and>
     bytes_all m' bs' = scramble (mask_of (filters c ! i)) (bytes_all (mem c) bs) \<and> buffers_ok m' bs' \<and> disjoint_buffers bs' \<and>
     only_changes (mem c) m' (set (list_cells bs)) \<and> (\<forall>a\<in>set (list_cells bs'). a \<in> set (list_cells bs) \<or> length (mem c) \<le> fst a) \<and>
     front_kept bs bs')"

definition hands_up :: "nat \<Rightarrow> byte_buffer \<Rightarrow> chain \<Rightarrow> (call option \<times> chain) framed \<Rightarrow> bool" where
  "hands_up i b c r \<longleftrightarrow> (\<exists>m'.
     r = Done (Some (Call_onReadCompleted (mpPreFilter (filters c ! i)) b), c\<lparr>mem := m'\<rparr>) \<and>
     bytes_of m' b = scramble (mask_of (filters c ! i)) (bytes_of (mem c) b) \<and> only_changes (mem c) m' (set (buffer_cells b)))"

definition reports :: "nat \<Rightarrow> nat \<Rightarrow> chain \<Rightarrow> (call option \<times> chain) framed \<Rightarrow> bool" where
  "reports i n c r \<longleftrightarrow> (\<exists>f'.
     r = Done (Some (Call_onWriteCompleted (mpPreFilter (filters c ! i)) n), c\<lparr>filters := (filters c)[i := f']\<rparr>) \<and>
     same_filter (filters c ! i) f')"

locale message_filter =
  fixes k :: filter_kind
    and rd :: "nat \<Rightarrow> byte_buffer \<Rightarrow> nat filter_call"
    and wr :: "nat \<Rightarrow> byte_buffer list filter_call"
    and rd_done :: "nat \<Rightarrow> byte_buffer filter_call"
    and wr_done :: "nat \<Rightarrow> nat filter_call"
  assumes dispatched: "i < length (filters c) \<Longrightarrow> f_kind (filters c ! i) = k \<Longrightarrow>
      step (Call_read (Nth_Filter i) b n) c = rd i b n c \<and> step (Call_write (Nth_Filter i) bs) c = wr i bs c \<and>
      step (Call_onReadCompleted (Nth_Filter i) b) c = rd_done i b c \<and>
      step (Call_onWriteCompleted (Nth_Filter i) n) c = wr_done i n c"
    and rd_passes: "rd i b n c = Done (Some (Call_read (mpPostFilter (filters c ! i)) b n), c)"
    and wr_passes: "i < length (filters c) \<Longrightarrow> f_kind (filters c ! i) = k \<Longrightarrow> buffers_ok (mem c) bs \<Longrightarrow> disjoint_buffers bs \<Longrightarrow>
      hands_down i bs c (wr i bs c)"
    and rd_done_passes: "i < length (filters c) \<Longrightarrow> f_kind (filters c ! i) = k \<Longrightarrow> buffer_ok (mem c) b \<Longrightarrow>
      hands_up i b c (rd_done i b c)"
    and wr_done_passes: "i < length (filters c) \<Longrightarrow> f_kind (filters c ! i) = k \<Longrightarrow> passed n (filters c ! i) \<Longrightarrow>
      reports i n c (wr_done i n c)"
begin

lemma steps:
  assumes "i < length (filters c)" "f_kind (filters c ! i) = k"
  shows "step (Call_read (Nth_Filter i) b n) c = Done (Some (Call_read (mpPostFilter (filters c ! i)) b n), c)"
    "buffers_ok (mem c) bs \<Longrightarrow> disjoint_buffers bs \<Longrightarrow> hands_down i bs c (step (Call_write (Nth_Filter i) bs) c)"
    "buffer_ok (mem c) b \<Longrightarrow> hands_up i b c (step (Call_onReadCompleted (Nth_Filter i) b) c)"
    "passed n (filters c ! i) \<Longrightarrow> reports i n c (step (Call_onWriteCompleted (Nth_Filter i) n) c)"
  using dispatched [OF assms] rd_passes wr_passes [OF assms] rd_done_passes [OF assms] wr_done_passes [OF assms]
  by (simp_all del: step.simps)

end

interpretation identity_filter: message_filter Identity_Filter IdentityFilter_read IdentityFilter_write IdentityFilter_onReadCompleted
  IdentityFilter_onWriteCompleted
proof
  fix i :: nat and c :: chain and bs assume a: "i < length (filters c)" "f_kind (filters c ! i) = Identity_Filter" "buffers_ok (mem c) bs" "disjoint_buffers bs"
  have "IdentityFilter_write i bs c = Done (Some (Call_write (mpPostFilter (filters c ! i)) bs), c\<lparr>filters := (filters c)[i := filters c ! i], mem := mem c\<rparr>)"
    by (simp add: IdentityFilter_write_def)
  then show "hands_down i bs c (IdentityFilter_write i bs c)"
    unfolding hands_down_def
    by (intro exI [of _ "filters c ! i"] exI [of _ "mem c"] exI [of _ bs]) (use a in \<open>simp add: passed_def mask_of_def\<close>)
next
  fix i :: nat and c :: chain and b assume a: "i < length (filters c)" "f_kind (filters c ! i) = Identity_Filter"
  then show "hands_up i b c (IdentityFilter_onReadCompleted i b c)"
    unfolding hands_up_def by (intro exI [of _ "mem c"]) (simp add: IdentityFilter_onReadCompleted_def mask_of_def)
next
  fix i n :: nat and c :: chain
  show "reports i n c (IdentityFilter_onWriteCompleted i n c)"
    unfolding reports_def by (intro exI [of _ "filters c ! i"]) (simp add: IdentityFilter_onWriteCompleted_def)
qed (simp_all add: at_filter_def IdentityFilter_read_def)

interpretation xor_filter: message_filter Xor_Filter XorFilter_read XorFilter_write XorFilter_onReadCompleted XorFilter_onWriteCompleted
proof
  fix i :: nat and c :: chain and bs assume a: "i < length (filters c)" "f_kind (filters c ! i) = Xor_Filter" "buffers_ok (mem c) bs" "disjoint_buffers bs"
  let ?f = "filters c ! i"
  obtain out m1 where o: "nonReadOnly_loop bs [] (mem c) = Done (out, m1)" "only_changes (mem c) m1 {}" "buffers_ok m1 out"
    "bytes_all m1 out = bytes_all (mem c) bs" "disjoint_buffers out"
    "\<forall>a\<in>set (list_cells out). a \<in> set (list_cells bs) \<or> length (mem c) \<le> fst a"
    using nonReadOnly_copies [OF a(3,4), of "[]"] by auto
  obtain m2 where m2: "xor_buffers (mMask ?f) out m1 = Done m2" "only_changes m1 m2 (set (list_cells out))"
    "bytes_all m2 out = map (\<lambda>x. xor x (mMask ?f)) (bytes_all m1 out)" using xor_buffers_ok [OF o(3,5)] by blast
  have len: "lengthByteBuffers out = lengthByteBuffers bs"
    using o(4) length_bytes_all [of m1 out] length_bytes_all [of "mem c" bs] by simp
  let ?g = "?f\<lparr>mTotalBytes := lengthByteBuffers bs, mByteBuffers := out\<rparr>"
  have "XorFilter_write i bs c = Done (Some (Call_write (mpPostFilter ?f) out), c\<lparr>filters := (filters c)[i := ?g], mem := m2\<rparr>)"
    using o(1) m2(1) by (simp add: XorFilter_write_def createNonReadOnlyByteBuffers_def Let_def)
  moreover have "only_changes (mem c) m2 (set (list_cells bs))"
    using only_changes_trans [OF o(2) m2(2)] by (rule only_changes_new) (use o(6) in simp)
  moreover have "buffers_ok m2 out" by (rule only_changes_list_ok [OF m2(2) o(3)])
  moreover have "bytes_all m2 out = scramble (mask_of ?f) (bytes_all (mem c) bs)"
    using m2(3) o(4) a(2) by (simp add: mask_of_def scramble_def)
  ultimately show "hands_down i bs c (XorFilter_write i bs c)"
    unfolding hands_down_def using o(5,6) nonReadOnly_front [OF o(1)] len
    by (intro exI [of _ ?g] exI [of _ m2] exI [of _ out]) (simp add: same_filter_def passed_def)
next
  fix i :: nat and c :: chain and b assume a: "i < length (filters c)" "f_kind (filters c ! i) = Xor_Filter" "buffer_ok (mem c) b"
  obtain m' where "xor_buffer (mMask (filters c ! i)) b (mem c) = Done m'" "only_changes (mem c) m' (set (buffer_cells b))"
    "bytes_of m' b = map (\<lambda>x. xor x (mMask (filters c ! i))) (bytes_of (mem c) b)"
    using xor_buffer_ok [OF a(3)] by blast
  with a(2) show "hands_up i b c (XorFilter_onReadCompleted i b c)"
    unfolding hands_up_def by (intro exI [of _ m']) (simp add: XorFilter_onReadCompleted_def mask_of_def scramble_def Let_def)
next
  fix i n :: nat and c :: chain assume "f_kind (filters c ! i) = Xor_Filter" "passed n (filters c ! i)"
  then show "reports i n c (XorFilter_onWriteCompleted i n c)"
    unfolding reports_def by (intro exI [of _ "(filters c ! i)\<lparr>mByteBuffers := [], mTempByteBuffers := []\<rparr>"])
      (simp add: XorFilter_onWriteCompleted_def passed_def same_filter_def Let_def)
qed (simp_all add: at_filter_def XorFilter_read_def)

text \<open>So every filter of a chain keeps the contract.\<close>

lemma filter_steps:
  assumes "i < length (filters c)"
  shows "step (Call_read (Nth_Filter i) b n) c = Done (Some (Call_read (mpPostFilter (filters c ! i)) b n), c)"
    "buffers_ok (mem c) bs \<Longrightarrow> disjoint_buffers bs \<Longrightarrow> hands_down i bs c (step (Call_write (Nth_Filter i) bs) c)"
    "buffer_ok (mem c) b \<Longrightarrow> hands_up i b c (step (Call_onReadCompleted (Nth_Filter i) b) c)"
    "passed n (filters c ! i) \<Longrightarrow> reports i n c (step (Call_onWriteCompleted (Nth_Filter i) n) c)"
  using identity_filter.steps [OF assms] xor_filter.steps [OF assms] by (cases "f_kind (filters c ! i)"; simp del: step.simps)+

lemma write_step:
  assumes "i < length (filters c)" "buffers_ok (mem c) bs" "disjoint_buffers bs"
  obtains f' m' bs' where
    "step (Call_write (Nth_Filter i) bs) c = Done (Some (Call_write (mpPostFilter (filters c ! i)) bs'), c\<lparr>filters := (filters c)[i := f'], mem := m'\<rparr>)"
    "same_filter (filters c ! i) f'" "passed (lengthByteBuffers bs) f'"
    "bytes_all m' bs' = scramble (mask_of (filters c ! i)) (bytes_all (mem c) bs)" "buffers_ok m' bs'" "disjoint_buffers bs'"
    "only_changes (mem c) m' (set (list_cells bs))" "\<forall>a\<in>set (list_cells bs'). a \<in> set (list_cells bs) \<or> length (mem c) \<le> fst a"
    "front_kept bs bs'"
  using filter_steps(2) [OF assms] unfolding hands_down_def by blast

text \<open>Data written into a chain reaches the proxy, and the completion starts on its way back.\<close>

lemma chain_write:
  assumes "linked (filters c)" "i < length (filters c)" "buffers_ok (mem c) bs" "disjoint_buffers bs"
    "proxy_of c = Write_Proxy p" "wp_preFilter p = Nth_Filter (length (filters c) - 1)"
  shows "\<exists>c' out. run_calls (Call_write (Nth_Filter i) bs) c =
      run_calls (Call_onWriteCompleted (Nth_Filter (length (filters c) - 1)) (lengthByteBuffers bs)) c' \<and>
    same_filters (filters c) (filters c') \<and> (\<forall>j<i. filters c' ! j = filters c ! j) \<and>
    (\<forall>j<length (filters c). i \<le> j \<longrightarrow> passed (lengthByteBuffers bs) (filters c' ! j)) \<and>
    proxy_of c' = Write_Proxy (p\<lparr>wp_mByteBuffers := wp_mByteBuffers p @ out\<rparr>) \<and>
    bytes_all (mem c') out = scramble (chain_key (drop i (filters c))) (bytes_all (mem c) bs) \<and> buffers_ok (mem c') out \<and>
    only_changes (mem c) (mem c') (set (list_cells bs)) \<and>
    (\<forall>a\<in>set (list_cells out). a \<in> set (list_cells bs) \<or> length (mem c) \<le> fst a) \<and> front_kept bs out"
  using assms
proof (induction "length (filters c) - i" arbitrary: i c bs)
  case (Suc k)
  let ?n = "length (filters c)"
  obtain f' m' bs' where w:
    "step (Call_write (Nth_Filter i) bs) c = Done (Some (Call_write (mpPostFilter (filters c ! i)) bs'), c\<lparr>filters := (filters c)[i := f'], mem := m'\<rparr>)"
    "same_filter (filters c ! i) f'" "passed (lengthByteBuffers bs) f'"
    "bytes_all m' bs' = scramble (mask_of (filters c ! i)) (bytes_all (mem c) bs)" "buffers_ok m' bs'" "disjoint_buffers bs'"
    "only_changes (mem c) m' (set (list_cells bs))" "\<forall>a\<in>set (list_cells bs'). a \<in> set (list_cells bs) \<or> length (mem c) \<le> fst a"
    "front_kept bs bs'"
    by (rule write_step [OF Suc.prems(2-4)])
  let ?c = "c\<lparr>filters := (filters c)[i := f'], mem := m'\<rparr>"
  have len: "lengthByteBuffers bs' = lengthByteBuffers bs"
    using w(4) length_bytes_all [of m' bs'] length_bytes_all [of "mem c" bs] by simp
  have same: "same_filters (filters c) (filters ?c)" using same_filters_update [OF Suc.prems(2) w(2)] by simp
  have post: "mpPostFilter (filters c ! i) = behind ?n i" using Suc.prems(1,2) by (simp add: linked_def)
  have key: "chain_key (drop i (filters c)) = xor (mask_of (filters c ! i)) (chain_key (drop (Suc i) (filters c)))"
    by (rule chain_key_drop [OF Suc.prems(2)])
  show ?case
  proof (cases "i = ?n - 1")
    case True
    let ?d = "?c\<lparr>proxy_of := Write_Proxy (p\<lparr>wp_mByteBuffers := wp_mByteBuffers p @ bs'\<rparr>)\<rparr>"
    have "run_calls (Call_write (Nth_Filter i) bs) c = run_calls (Call_write The_Proxy bs') ?c"
      using w(1) post True by (subst run_calls.simps) (simp add: behind_def)
    also have "\<dots> = run_calls (Call_onWriteCompleted (Nth_Filter (?n - 1)) (lengthByteBuffers bs)) ?d"
      using Suc.prems(5,6) len by (subst run_calls.simps) (simp add: WriteProxy_write_def)
    finally have "run_calls (Call_write (Nth_Filter i) bs) c = run_calls (Call_onWriteCompleted (Nth_Filter (?n - 1)) (lengthByteBuffers bs)) ?d" .
    moreover have "chain_key (drop (Suc i) (filters c)) = 0" using True Suc.prems(2) by (simp add: chain_key_def)
    ultimately show ?thesis
      using w same key True Suc.prems(2) by (intro exI [of _ ?d] exI [of _ bs']) (auto simp: nth_list_update)
  next
    case False
    then have i: "Suc i < ?n" using Suc.prems(2) by simp
    have "\<exists>c' out. run_calls (Call_write (Nth_Filter (Suc i)) bs') ?c =
        run_calls (Call_onWriteCompleted (Nth_Filter (length (filters ?c) - 1)) (lengthByteBuffers bs')) c' \<and>
      same_filters (filters ?c) (filters c') \<and> (\<forall>j<Suc i. filters c' ! j = filters ?c ! j) \<and>
      (\<forall>j<length (filters ?c). Suc i \<le> j \<longrightarrow> passed (lengthByteBuffers bs') (filters c' ! j)) \<and>
      proxy_of c' = Write_Proxy (p\<lparr>wp_mByteBuffers := wp_mByteBuffers p @ out\<rparr>) \<and>
      bytes_all (mem c') out = scramble (chain_key (drop (Suc i) (filters ?c))) (bytes_all (mem ?c) bs') \<and> buffers_ok (mem c') out \<and>
      only_changes (mem ?c) (mem c') (set (list_cells bs')) \<and>
      (\<forall>a\<in>set (list_cells out). a \<in> set (list_cells bs') \<or> length (mem ?c) \<le> fst a) \<and> front_kept bs' out"
    proof (rule Suc.hyps(1))
      show "linked (filters ?c)" by (rule same_filters_linked [OF same Suc.prems(1)])
    qed (use Suc.hyps(2) i w(5,6) Suc.prems(5,6) in simp_all)
    then obtain c' out where r: "run_calls (Call_write (Nth_Filter (Suc i)) bs') ?c =
        run_calls (Call_onWriteCompleted (Nth_Filter (length (filters ?c) - 1)) (lengthByteBuffers bs')) c'"
      "same_filters (filters ?c) (filters c')" "\<forall>j<Suc i. filters c' ! j = filters ?c ! j"
      "\<forall>j<length (filters ?c). Suc i \<le> j \<longrightarrow> passed (lengthByteBuffers bs') (filters c' ! j)"
      "proxy_of c' = Write_Proxy (p\<lparr>wp_mByteBuffers := wp_mByteBuffers p @ out\<rparr>)"
      "bytes_all (mem c') out = scramble (chain_key (drop (Suc i) (filters ?c))) (bytes_all (mem ?c) bs')" "buffers_ok (mem c') out"
      "only_changes (mem ?c) (mem c') (set (list_cells bs'))"
      "\<forall>a\<in>set (list_cells out). a \<in> set (list_cells bs') \<or> length (mem ?c) \<le> fst a" "front_kept bs' out" by blast
    have e: "length (mem c) \<le> length m'" using w(7) by (simp add: only_changes_def extends_def)
    have "only_changes m' (mem c') (set (list_cells bs'))" using r(8) by simp
    from only_changes_trans [OF w(7) this] have oc: "only_changes (mem c) (mem c') (set (list_cells bs))"
      by (rule only_changes_new) (use w(8) in blast)
    have run: "run_calls (Call_write (Nth_Filter i) bs) c = run_calls (Call_write (Nth_Filter (Suc i)) bs') ?c"
      using w(1) post False by (subst run_calls.simps) (simp add: behind_def)
    have "run_calls (Call_write (Nth_Filter i) bs) c = run_calls (Call_onWriteCompleted (Nth_Filter (?n - 1)) (lengthByteBuffers bs)) c'"
      unfolding run r(1) len by simp
    moreover have "same_filters (filters c) (filters c')" by (rule same_filters_trans [OF same r(2)])
    moreover have "bytes_all (mem c') out = scramble (chain_key (drop i (filters c))) (bytes_all (mem c) bs)"
      using r(6) w(4) key same_filters_key [OF same, of "Suc i"] by simp
    moreover have "passed (lengthByteBuffers bs) (filters c' ! j)" if "j < ?n" "i \<le> j" for j
      using r(3,4) len w(3) that Suc.prems(2) by (cases "j = i") auto
    moreover have "\<forall>j<i. filters c' ! j = filters c ! j" using r(3) by simp
    moreover have "\<forall>a\<in>set (list_cells out). a \<in> set (list_cells bs) \<or> length (mem c) \<le> fst a" using r(9) w(8) e by fastforce
    ultimately show ?thesis using r(5,7) oc front_kept_trans [OF w(9) r(10)] by blast
  qed
qed simp

text \<open>The completion runs back through the chain and every filter forgets its data.\<close>

lemma complete_step:
  assumes "i < length (filters c)" "passed n (filters c ! i)"
  obtains f' where "step (Call_onWriteCompleted (Nth_Filter i) n) c =
      Done (Some (Call_onWriteCompleted (mpPreFilter (filters c ! i)) n), c\<lparr>filters := (filters c)[i := f']\<rparr>)"
    "same_filter (filters c ! i) f'"
  using filter_steps(4) [OF assms] unfolding reports_def by blast

lemma chain_complete:
  assumes "linked (filters c)" "i < length (filters c)" "\<forall>j\<le>i. passed n (filters c ! j)" "proxy_of c = Write_Proxy p"
  shows "\<exists>c'. run_calls (Call_onWriteCompleted (Nth_Filter i) n) c = Some (Done c') \<and> same_filters (filters c) (filters c') \<and>
    proxy_of c' = Write_Proxy (p\<lparr>wp_mBytesTransferred := n\<rparr>) \<and> mem c' = mem c"
  using assms
proof (induction i arbitrary: c)
  case 0
  obtain f' where f: "step (Call_onWriteCompleted (Nth_Filter 0) n) c =
      Done (Some (Call_onWriteCompleted (mpPreFilter (filters c ! 0)) n), c\<lparr>filters := (filters c)[0 := f']\<rparr>)"
    "same_filter (filters c ! 0) f'" by (rule complete_step [OF 0(2)]) (use 0 in auto)
  have "mpPreFilter (filters c ! 0) = The_Proxy" using 0 by (auto simp: linked_def before_def)
  then have "run_calls (Call_onWriteCompleted (Nth_Filter 0) n) c = run_calls (Call_onWriteCompleted The_Proxy n) (c\<lparr>filters := (filters c)[0 := f']\<rparr>)"
    by (subst run_calls.simps) (simp add: f(1) del: step.simps)
  also have "\<dots> = Some (Done (c\<lparr>filters := (filters c)[0 := f'], proxy_of := Write_Proxy (p\<lparr>wp_mBytesTransferred := n\<rparr>)\<rparr>))"
    using 0(4) by (subst run_calls.simps) (simp add: WriteProxy_onWriteCompleted_def)
  finally show ?case using same_filters_update [OF 0(2) f(2)] by simp
next
  case (Suc i)
  obtain f' where f: "step (Call_onWriteCompleted (Nth_Filter (Suc i)) n) c =
      Done (Some (Call_onWriteCompleted (mpPreFilter (filters c ! Suc i)) n), c\<lparr>filters := (filters c)[Suc i := f']\<rparr>)"
    "same_filter (filters c ! Suc i) f'" by (rule complete_step [OF Suc.prems(2)]) (use Suc.prems in auto)
  let ?c = "c\<lparr>filters := (filters c)[Suc i := f']\<rparr>"
  have same: "same_filters (filters c) (filters ?c)" using same_filters_update [OF Suc.prems(2) f(2)] by simp
  have "mpPreFilter (filters c ! Suc i) = Nth_Filter i" using Suc.prems by (auto simp: linked_def before_def)
  then have run: "run_calls (Call_onWriteCompleted (Nth_Filter (Suc i)) n) c = run_calls (Call_onWriteCompleted (Nth_Filter i) n) ?c"
    by (subst run_calls.simps) (simp add: f(1) del: step.simps)
  have "\<exists>c'. run_calls (Call_onWriteCompleted (Nth_Filter i) n) ?c = Some (Done c') \<and> same_filters (filters ?c) (filters c') \<and>
      proxy_of c' = Write_Proxy (p\<lparr>wp_mBytesTransferred := n\<rparr>) \<and> mem c' = mem ?c"
    by (rule Suc.IH) (use Suc.prems same_filters_linked [OF same] in auto)
  then show ?case unfolding run using same_filters_trans [OF same] by fastforce
qed

section \<open>Connecting\<close>

lemma attach_linked:
  assumes "connected fs" "fs \<noteq> []"
  shows "linked (attach_proxy fs)"
  unfolding linked_def
proof (intro conjI allI impI)
  show "attach_proxy fs \<noteq> []" using assms(2) by (simp add: attach_proxy_def Let_def)
  fix i assume "i < length (attach_proxy fs)"
  then have i: "i < length fs" by (simp add: attach_proxy_def Let_def)
  show "mpPreFilter (attach_proxy fs ! i) = before i"
    using assms i by (auto simp: attach_proxy_def Let_def nth_list_update setPreFilter_def setPostFilter_def before_def connected_def)
  show "mpPostFilter (attach_proxy fs ! i) = behind (length (attach_proxy fs)) i"
    using assms i by (auto simp: attach_proxy_def Let_def nth_list_update setPreFilter_def setPostFilter_def behind_def connected_def)
qed

text \<open>The links aside, attaching and connecting change nothing.\<close>

definition same_work :: "filter_obj list \<Rightarrow> filter_obj list \<Rightarrow> bool" where
  "same_work fs gs \<longleftrightarrow> map mask_of gs = map mask_of fs \<and> map f_kind gs = map f_kind fs"

lemma same_work_refl [simp]: "same_work fs fs"
  by (simp add: same_work_def)

lemma same_work_trans: "same_work fs gs \<Longrightarrow> same_work gs hs \<Longrightarrow> same_work fs hs"
  by (simp add: same_work_def)

lemma same_work_key: "same_work fs gs \<Longrightarrow> chain_key gs = chain_key fs"
  by (simp add: same_work_def chain_key_def)

lemma same_filters_work: "same_filters fs gs \<Longrightarrow> same_work fs gs"
  by (auto simp: same_filters_def list_all2_conv_all_nth same_filter_def same_work_def mask_of_def intro!: nth_equalityI split: filter_kind.split)

lemma same_work_update: "f_kind f = f_kind (fs ! i) \<Longrightarrow> mMask f = mMask (fs ! i) \<Longrightarrow> same_work fs (fs[i := f])"
proof (cases "i < length fs")
  case True
  assume "f_kind f = f_kind (fs ! i)" "mMask f = mMask (fs ! i)"
  then have "mask_of f = mask_of (fs ! i)" by (simp add: mask_of_def split: filter_kind.split)
  with True \<open>f_kind f = f_kind (fs ! i)\<close> show ?thesis
    by (simp add: same_work_def map_update list_update_same_conv)
qed (simp add: list_update_beyond)

lemma setters_work [simp]:
  "same_work fs (fs[i := setPreFilter p (fs ! i)])" "same_work fs (fs[i := setPostFilter p (fs ! i)])"
  by (rule same_work_update; simp add: setPreFilter_def setPostFilter_def)+

lemma attach_work: "same_work fs (attach_proxy fs)"
  unfolding attach_proxy_def Let_def by (rule same_work_trans [OF setters_work(2) setters_work(1)])

lemma connectFilters_connects: "connected (connectFilters fs)" "same_work fs (connectFilters fs)"
proof -
  define body where "body = (\<lambda>i (fs :: filter_obj list).
    let fs = (if i > 0 then fs[i := setPreFilter (Nth_Filter (i - 1)) (fs ! i)] else fs)
    in if i < length fs - 1 then fs[i := setPostFilter (Nth_Filter (i + 1)) (fs ! i)] else fs)"
  have len: "length (body i fs) = length fs" for i fs by (simp add: body_def Let_def)
  have work: "same_work fs (body i fs)" for i fs
    unfolding body_def Let_def by (rule same_work_trans [of fs "if i > 0 then fs[i := setPreFilter (Nth_Filter (i - 1)) (fs ! i)] else fs"]) simp_all
  have pre: "mpPreFilter (body i fs ! j) = (if j = i \<and> 0 < i then Nth_Filter (i - 1) else mpPreFilter (fs ! j))" if "i < length fs" for i j fs
    using that by (auto simp: body_def Let_def nth_list_update setPreFilter_def setPostFilter_def)
  have post: "mpPostFilter (body i fs ! j) = (if j = i \<and> i < length fs - 1 then Nth_Filter (i + 1) else mpPostFilter (fs ! j))" if "i < length fs" for i j fs
    using that by (auto simp: body_def Let_def nth_list_update setPreFilter_def setPostFilter_def)
  have "length (fold body [0..<k] fs) = length fs \<and> same_work fs (fold body [0..<k] fs) \<and>
      (\<forall>i<k. (0 < i \<longrightarrow> mpPreFilter (fold body [0..<k] fs ! i) = Nth_Filter (i - 1)) \<and>
        (i < length fs - 1 \<longrightarrow> mpPostFilter (fold body [0..<k] fs ! i) = Nth_Filter (i + 1)))" if "k \<le> length fs" for k
    using that
  proof (induction k)
    case (Suc k)
    let ?g = "fold body [0..<k] fs"
    have g: "length ?g = length fs" "same_work fs ?g" "k < length ?g" using Suc by auto
    have "fold body [0..<Suc k] fs = body k ?g" by simp
    with Suc g same_work_trans [OF g(2) work [of ?g k]] show ?case
      by (auto simp: len pre [OF g(3)] post [OF g(3)] less_Suc_eq)
  qed simp
  from this [of "length fs"] show "connected (connectFilters fs)" "same_work fs (connectFilters fs)"
    unfolding connectFilters_def body_def [symmetric] connected_def by simp_all
qed

section \<open>Filtering\<close>

lemma take_npos: "length xs < npos \<Longrightarrow> take npos xs = xs"
  by simp

text \<open>One turn of the loop passes everything through the chain.\<close>

lemma filterData_scrambles:
  assumes "connected fs" "fs \<noteq> []" "buffers_ok m bs" "disjoint_buffers bs" "lengthByteBuffers bs < npos"
  obtains out fs' m' where "filterData bs fs m = Done (True, out, fs', m')" "same_filters (attach_proxy fs) fs'"
    "bytes_all m' out = scramble (chain_key fs) (bytes_all m bs)" "buffers_ok m' out" "only_changes m m' (set (list_cells bs))"
    "\<forall>a\<in>set (list_cells out). a \<in> set (list_cells bs) \<or> length m \<le> fst a" "front_kept bs out"
proof -
  let ?p = "WriteProxy_new\<lparr>wp_preFilter := Nth_Filter (length fs - 1)\<rparr>" and ?n = "lengthByteBuffers bs"
  let ?c = "\<lparr>filters = attach_proxy fs, proxy_of = Write_Proxy ?p, mem = m\<rparr>"
  have len: "length (attach_proxy fs) = length fs" by (simp add: attach_proxy_def Let_def)
  have linked: "linked (filters ?c)" using attach_linked [OF assms(1,2)] by simp
  have key: "chain_key (attach_proxy fs) = chain_key fs" by (rule same_work_key [OF attach_work])
  show ?thesis
  proof (cases "?n = 0")
    case True
    then have "bytes_all m bs = []" using length_bytes_all [of m bs] by simp
    moreover have "filter_loop bs ?n 0 ?c = Some (Done (0, ?c))" using True by (subst filter_loop.simps) simp
    moreover have "front_kept bs []" using True by (cases bs) (simp_all add: front_kept_def lengthByteBuffers_sum)
    ultimately show ?thesis using that [of "[]" "attach_proxy fs" m] True assms(2)
      by (simp add: filterData_def Let_def finally_done_def WriteProxy_new_def)
  next
    case False
    obtain sl where sl: "sliceByteBuffers bs 0 npos = Done sl" "\<forall>b\<in>set sl. buffer_ok m b"
      "bytes_all m sl = bytes_all m bs" "list_cells sl = list_cells bs"
      using sliceByteBuffers_window [of bs m 0 npos] assms(3,5) length_bytes_all [of m bs] length_list_cells [of bs]
      unfolding buffers_ok_def by auto
    have sln: "lengthByteBuffers sl = ?n" using sl(4) length_list_cells [of sl] length_list_cells [of bs] by simp
    have "\<exists>c' out. run_calls (Call_write (Nth_Filter 0) sl) ?c =
        run_calls (Call_onWriteCompleted (Nth_Filter (length (filters ?c) - 1)) (lengthByteBuffers sl)) c' \<and>
      same_filters (filters ?c) (filters c') \<and> (\<forall>j<0. filters c' ! j = filters ?c ! j) \<and>
      (\<forall>j<length (filters ?c). 0 \<le> j \<longrightarrow> passed (lengthByteBuffers sl) (filters c' ! j)) \<and>
      proxy_of c' = Write_Proxy (?p\<lparr>wp_mByteBuffers := wp_mByteBuffers ?p @ out\<rparr>) \<and>
      bytes_all (mem c') out = scramble (chain_key (drop 0 (filters ?c))) (bytes_all (mem ?c) sl) \<and> buffers_ok (mem c') out \<and>
      only_changes (mem ?c) (mem c') (set (list_cells sl)) \<and>
      (\<forall>a\<in>set (list_cells out). a \<in> set (list_cells sl) \<or> length (mem ?c) \<le> fst a) \<and> front_kept sl out"
      by (rule chain_write [OF linked])
        (use assms(2,4) sl len in \<open>simp_all add: buffers_ok_def disjoint_buffers_def\<close>)
    then obtain c' out where w: "run_calls (Call_write (Nth_Filter 0) sl) ?c = run_calls (Call_onWriteCompleted (Nth_Filter (length fs - 1)) ?n) c'"
      "same_filters (attach_proxy fs) (filters c')" "\<forall>j<length fs. passed ?n (filters c' ! j)"
      "proxy_of c' = Write_Proxy (?p\<lparr>wp_mByteBuffers := out\<rparr>)"
      "bytes_all (mem c') out = scramble (chain_key fs) (bytes_all m bs)" "buffers_ok (mem c') out"
      "only_changes m (mem c') (set (list_cells bs))" "\<forall>a\<in>set (list_cells out). a \<in> set (list_cells bs) \<or> length m \<le> fst a"
      "front_kept sl out"
      using sln len key sl by (auto simp: WriteProxy_new_def)
    have l': "length (filters c') = length fs" using same_filters_length [OF w(2)] len by simp
    have "\<exists>d. run_calls (Call_onWriteCompleted (Nth_Filter (length fs - 1)) ?n) c' = Some (Done d) \<and> same_filters (filters c') (filters d) \<and>
        proxy_of d = Write_Proxy (?p\<lparr>wp_mByteBuffers := out, wp_mBytesTransferred := ?n\<rparr>) \<and> mem d = mem c'"
      by (rule chain_complete [OF same_filters_linked [OF w(2)]])
        (use linked w(3,4) l' assms(2) in \<open>auto simp: less_Suc_eq_le [symmetric]\<close>)
    then obtain d where d: "run_calls (Call_onWriteCompleted (Nth_Filter (length fs - 1)) ?n) c' = Some (Done d)"
      "same_filters (filters c') (filters d)" "proxy_of d = Write_Proxy (?p\<lparr>wp_mByteBuffers := out, wp_mBytesTransferred := ?n\<rparr>)" "mem d = mem c'"
      by blast
    have "filter_loop bs ?n 0 ?c = filter_loop bs ?n ?n d"
      using False sl(1) w(1) d(1,3) by (subst filter_loop.simps) simp
    also have "\<dots> = Some (Done (?n, d))" by (subst filter_loop.simps) simp
    finally have "filterData bs fs m = Done (True, out, filters d, mem d)"
      using assms(2) d(3) by (simp add: filterData_def Let_def finally_done_def)
    moreover have "front_kept bs sl" using slice_front [OF sl(1)] assms(3,5) by (simp add: buffers_ok_def)
    ultimately show ?thesis
      using that [of out "filters d" "mem d"] same_filters_trans [OF w(2) d(2)] w(5-8) d(4) front_kept_trans [OF _ w(9)] by simp
  qed
qed

section \<open>Unfiltering\<close>

text \<open>A read runs down to the proxy, which answers with a window of its data.\<close>

lemma chain_read:
  assumes "linked (filters c)" "i < length (filters c)"
  shows "run_calls (Call_read (Nth_Filter i) b n) c = run_calls (Call_read The_Proxy b n) c"
  using assms
proof (induction "length (filters c) - i" arbitrary: i)
  case (Suc k)
  have "step (Call_read (Nth_Filter i) b n) c = Done (Some (Call_read (behind (length (filters c)) i) b n), c)"
    using Suc.prems filter_steps(1) [OF Suc.prems(2)] by (simp add: linked_def del: step.simps)
  then have "run_calls (Call_read (Nth_Filter i) b n) c = run_calls (Call_read (behind (length (filters c)) i) b n) c"
    by (subst run_calls.simps) (simp del: step.simps)
  also have "\<dots> = run_calls (Call_read The_Proxy b n) c"
    using Suc by (cases "i = length (filters c) - 1") (simp_all add: behind_def)
  finally show ?case .
qed simp

text \<open>The data runs back up, each filter changing it in place.\<close>

lemma chain_read_completed:
  assumes "linked (filters c)" "i < length (filters c)" "buffer_ok (mem c) b" "proxy_of c = Read_Proxy p"
  shows "\<exists>m'. run_calls (Call_onReadCompleted (Nth_Filter i) b) c = Some (Done (c\<lparr>mem := m',
        proxy_of := Read_Proxy (p\<lparr>mOutByteBuffer := b, rp_mBytesTransferred := mPvlen b\<rparr>)\<rparr>)) \<and>
    bytes_of m' b = scramble (chain_key (take (Suc i) (filters c))) (bytes_of (mem c) b) \<and> only_changes (mem c) m' (set (buffer_cells b))"
  using assms
proof (induction i arbitrary: c)
  have one: "\<exists>m'. step (Call_onReadCompleted (Nth_Filter i) b) c = Done (Some (Call_onReadCompleted (mpPreFilter (filters c ! i)) b), c\<lparr>mem := m'\<rparr>) \<and>
      bytes_of m' b = scramble (mask_of (filters c ! i)) (bytes_of (mem c) b) \<and> only_changes (mem c) m' (set (buffer_cells b))"
    if "i < length (filters c)" "buffer_ok (mem c) b" for i c
    using filter_steps(3) [OF that] unfolding hands_up_def .
  {
    case 0
    obtain m' where m': "step (Call_onReadCompleted (Nth_Filter 0) b) c = Done (Some (Call_onReadCompleted (mpPreFilter (filters c ! 0)) b), c\<lparr>mem := m'\<rparr>)"
      "bytes_of m' b = scramble (mask_of (filters c ! 0)) (bytes_of (mem c) b)" "only_changes (mem c) m' (set (buffer_cells b))"
      using one [OF 0(2,3)] by blast
    have "mpPreFilter (filters c ! 0) = The_Proxy" using 0 by (auto simp: linked_def before_def)
    then have "run_calls (Call_onReadCompleted (Nth_Filter 0) b) c = run_calls (Call_onReadCompleted The_Proxy b) (c\<lparr>mem := m'\<rparr>)"
      by (subst run_calls.simps) (simp add: m'(1) del: step.simps)
    also have "\<dots> = Some (Done (c\<lparr>mem := m', proxy_of := Read_Proxy (p\<lparr>mOutByteBuffer := b, rp_mBytesTransferred := mPvlen b\<rparr>)\<rparr>))"
      using 0(4) by (subst run_calls.simps) (simp add: ReadProxy_onReadCompleted_def getLength_def)
    finally show ?case using m' 0(2) by (auto simp: chain_key_def take_Suc_conv_app_nth)
  next
    case (Suc i)
    obtain m1 where m1: "step (Call_onReadCompleted (Nth_Filter (Suc i)) b) c =
        Done (Some (Call_onReadCompleted (mpPreFilter (filters c ! Suc i)) b), c\<lparr>mem := m1\<rparr>)"
      "bytes_of m1 b = scramble (mask_of (filters c ! Suc i)) (bytes_of (mem c) b)" "only_changes (mem c) m1 (set (buffer_cells b))"
      using one [OF Suc.prems(2,3)] by blast
    have ok1: "buffer_ok m1 b" using m1(3) Suc.prems(3) buffer_ok_extends unfolding only_changes_def by blast
    obtain m' where m': "run_calls (Call_onReadCompleted (Nth_Filter i) b) (c\<lparr>mem := m1\<rparr>) = Some (Done ((c\<lparr>mem := m1\<rparr>)\<lparr>mem := m',
          proxy_of := Read_Proxy (p\<lparr>mOutByteBuffer := b, rp_mBytesTransferred := mPvlen b\<rparr>)\<rparr>))"
      "bytes_of m' b = scramble (chain_key (take (Suc i) (filters c))) (bytes_of m1 b)" "only_changes m1 m' (set (buffer_cells b))"
      using Suc.IH [of "c\<lparr>mem := m1\<rparr>"] Suc.prems ok1 by auto
    have "mpPreFilter (filters c ! Suc i) = Nth_Filter i" using Suc.prems by (auto simp: linked_def before_def)
    then have run: "run_calls (Call_onReadCompleted (Nth_Filter (Suc i)) b) c = run_calls (Call_onReadCompleted (Nth_Filter i) b) (c\<lparr>mem := m1\<rparr>)"
      by (subst run_calls.simps) (simp add: m1(1) del: step.simps)
    have key: "chain_key (take (Suc (Suc i)) (filters c)) = xor (mask_of (filters c ! Suc i)) (chain_key (take (Suc i) (filters c)))"
      by (rule chain_key_take [OF Suc.prems(2)])
    show ?case
    proof (intro exI conjI)
      show "run_calls (Call_onReadCompleted (Nth_Filter (Suc i)) b) c = Some (Done (c\<lparr>mem := m',
          proxy_of := Read_Proxy (p\<lparr>mOutByteBuffer := b, rp_mBytesTransferred := mPvlen b\<rparr>)\<rparr>))" unfolding run m'(1) by simp
      show "bytes_of m' b = scramble (chain_key (take (Suc (Suc i)) (filters c))) (bytes_of (mem c) b)"
        unfolding m'(2) m1(2) key scramble_simps(2) ..
      show "only_changes (mem c) m' (set (buffer_cells b))" using only_changes_trans [OF m1(3) m'(3)] by simp
    qed
  }
qed

text \<open>One read from the front of a chain: a window of the data that the proxy still has.\<close>

lemma read_turn:
  assumes "linked (filters c)" "proxy_of c = Read_Proxy p" "rp_preFilter p = Nth_Filter (length (filters c) - 1)"
    and "buffer_ok (mem c) (mInByteBuffer p)" "mPvlen (mInByteBuffer p) < npos" "mInByteBufferPos p < mPvlen (mInByteBuffer p)"
  obtains w q m' where "run_calls (Call_read (Nth_Filter 0) ByteBuffer_new n) c = Some (Done (c\<lparr>mem := m', proxy_of := Read_Proxy q\<rparr>))"
    "mInByteBuffer q = mInByteBuffer p" "mOutByteBuffer q = w" "rp_mBytesTransferred q = mPvlen w"
    "mPvlen w = min (mPvlen (mInByteBuffer p) - mInByteBufferPos p) n" "mInByteBufferPos q = mInByteBufferPos p + mPvlen w"
    "bytes_of m' w = scramble (chain_key (filters c)) (take n (drop (mInByteBufferPos p) (bytes_of (mem c) (mInByteBuffer p))))"
    "only_changes (mem c) m' (set (buffer_cells (mInByteBuffer p)))" "buffer_ok m' w" "set (buffer_cells w) \<subseteq> set (buffer_cells (mInByteBuffer p))"
proof -
  let ?b = "mInByteBuffer p" and ?i = "mInByteBufferPos p" and ?n = "length (filters c)"
  let ?k = "min (mPvlen ?b - ?i) n"
  have pos: "0 < ?n" using assms(1) by (simp add: linked_def)
  obtain w where w: "ByteBuffer_slice ?b ?i ?k = Done w" "buffer_ok (mem c) w" "bytes_of (mem c) w = take ?k (drop ?i (bytes_of (mem c) ?b))" "mPvlen w = ?k"
    "set (buffer_cells w) \<subseteq> set (buffer_cells ?b)"
  proof -
    have k: "?i + ?k \<le> mPvlen ?b" "?k \<noteq> npos" using assms(5,6) by auto
    have sub: "set (take ?k (drop ?i xs)) \<subseteq> set xs" for xs :: "ptr list" by (meson order_trans set_drop_subset set_take_subset)
    obtain w where "ByteBuffer_slice ?b ?i ?k = Done w" "buffer_ok (mem c) w" "bytes_of (mem c) w = take ?k (drop ?i (bytes_of (mem c) ?b))"
      "mPvlen w = ?k" "buffer_cells w = take ?k (drop ?i (buffer_cells ?b))" by (rule slice_window [OF assms(4) k])
    from that [OF this(1-4)] sub [of "buffer_cells ?b", folded this(5)] show ?thesis .
  qed
  let ?q = "p\<lparr>mInByteBufferPos := ?i + ?k\<rparr>"
  let ?c = "c\<lparr>proxy_of := Read_Proxy ?q\<rparr>"
  have "run_calls (Call_read (Nth_Filter 0) ByteBuffer_new n) c = run_calls (Call_read The_Proxy ByteBuffer_new n) c"
    by (rule chain_read [OF assms(1) pos])
  also have "\<dots> = run_calls (Call_onReadCompleted (Nth_Filter (?n - 1)) w) ?c"
    using w(1) assms(2,3,6) by (subst run_calls.simps) (simp add: ReadProxy_read_def isEmpty_buffer_def getLength_def ByteBuffer_new_def)
  finally have run: "run_calls (Call_read (Nth_Filter 0) ByteBuffer_new n) c = run_calls (Call_onReadCompleted (Nth_Filter (?n - 1)) w) ?c" .
  have "\<exists>m'. run_calls (Call_onReadCompleted (Nth_Filter (?n - 1)) w) ?c = Some (Done (?c\<lparr>mem := m',
        proxy_of := Read_Proxy (?q\<lparr>mOutByteBuffer := w, rp_mBytesTransferred := mPvlen w\<rparr>)\<rparr>)) \<and>
      bytes_of m' w = scramble (chain_key (take (Suc (?n - 1)) (filters ?c))) (bytes_of (mem ?c) w) \<and> only_changes (mem ?c) m' (set (buffer_cells w))"
    by (rule chain_read_completed) (use assms(1) pos w(2) in simp_all)
  then obtain m' where m': "run_calls (Call_onReadCompleted (Nth_Filter (?n - 1)) w) ?c = Some (Done (?c\<lparr>mem := m',
        proxy_of := Read_Proxy (?q\<lparr>mOutByteBuffer := w, rp_mBytesTransferred := mPvlen w\<rparr>)\<rparr>))"
      "bytes_of m' w = scramble (chain_key (filters c)) (bytes_of (mem c) w)" "only_changes (mem c) m' (set (buffer_cells w))"
    using pos by auto
  have t: "take ?k (drop ?i (bytes_of (mem c) ?b)) = take n (drop ?i (bytes_of (mem c) ?b))" by (simp add: min_def)
  show ?thesis
    by (rule that [of "?q\<lparr>mOutByteBuffer := w, rp_mBytesTransferred := mPvlen w\<rparr>" m' w])
      (use run m' w t only_changes_mono [OF m'(3) w(5)] in \<open>auto simp: only_changes_def intro: buffer_ok_extends\<close>)
qed

text \<open>A proxy that has nothing left fails its assertion, and so does the loop that asks it.\<close>

lemma dry_chain:
  assumes "linked (filters c)" "proxy_of c = Read_Proxy q" "mPvlen (mInByteBuffer q) \<le> mInByteBufferPos q" "t < n"
  shows "unfilter_loop n t out c = Some Aborted"
proof -
  have "run_calls (Call_read (Nth_Filter 0) ByteBuffer_new (n - t)) c = run_calls (Call_read The_Proxy ByteBuffer_new (n - t)) c"
    by (rule chain_read [OF assms(1)]) (use assms(1) in \<open>simp add: linked_def\<close>)
  also have "\<dots> = Some Aborted"
    using assms(2,3) by (subst run_calls.simps) (simp add: ReadProxy_read_def isEmpty_buffer_def getLength_def ByteBuffer_new_def)
  finally show ?thesis using assms(4) by (subst unfilter_loop.simps) simp
qed

text \<open>Two turns at most: one reads what there is, a second one finds nothing left.\<close>

lemma unfilter_loop_decides:
  assumes "linked (filters c)" "proxy_of c = Read_Proxy p" "rp_preFilter p = Nth_Filter (length (filters c) - 1)"
    and "buffer_ok (mem c) (mInByteBuffer p)" "mPvlen (mInByteBuffer p) < npos" "mInByteBufferPos p = 0" "0 < n"
  shows "if n \<le> mPvlen (mInByteBuffer p)
    then \<exists>w c'. unfilter_loop n 0 [] c = Some (Done (n, [w], c')) \<and> filters c' = filters c \<and>
      bytes_of (mem c') w = scramble (chain_key (filters c)) (take n (bytes_of (mem c) (mInByteBuffer p))) \<and> buffer_ok (mem c') w \<and>
      only_changes (mem c) (mem c') (set (buffer_cells (mInByteBuffer p))) \<and> set (buffer_cells w) \<subseteq> set (buffer_cells (mInByteBuffer p))
    else unfilter_loop n 0 [] c = Some Aborted"
proof (cases "mPvlen (mInByteBuffer p) = 0")
  case True
  with dry_chain [OF assms(1,2), of 0 n "[]"] assms(6,7) show ?thesis by simp
next
  case False
  obtain w q m' where t: "run_calls (Call_read (Nth_Filter 0) ByteBuffer_new n) c = Some (Done (c\<lparr>mem := m', proxy_of := Read_Proxy q\<rparr>))"
    "mInByteBuffer q = mInByteBuffer p" "mOutByteBuffer q = w" "rp_mBytesTransferred q = mPvlen w" "mPvlen w = min (mPvlen (mInByteBuffer p)) n"
    "mInByteBufferPos q = mPvlen w" "bytes_of m' w = scramble (chain_key (filters c)) (take n (bytes_of (mem c) (mInByteBuffer p)))"
    "only_changes (mem c) m' (set (buffer_cells (mInByteBuffer p)))" "buffer_ok m' w" "set (buffer_cells w) \<subseteq> set (buffer_cells (mInByteBuffer p))"
    by (rule read_turn [OF assms(1-5), of n]) (use assms(6) False in simp_all)
  let ?d = "c\<lparr>mem := m', proxy_of := Read_Proxy (q\<lparr>mOutByteBuffer := ByteBuffer_new\<rparr>)\<rparr>"
  have turn: "unfilter_loop n 0 [] c = unfilter_loop n (mPvlen w) [w] ?d"
    using assms(7) t(1,3,4) by (subst unfilter_loop.simps) (simp add: getOutByteBuffer_def)
  show ?thesis
  proof (cases "n \<le> mPvlen (mInByteBuffer p)")
    case True
    then have "unfilter_loop n (mPvlen w) [w] ?d = Some (Done (n, [w], ?d))" using t(5) by (subst unfilter_loop.simps) simp
    with True turn t(7-10) show ?thesis by (intro if_P [THEN iffD2, OF True] exI [of _ w] exI [of _ ?d]) simp
  next
    case False
    have "unfilter_loop n (mPvlen w) [w] ?d = Some Aborted"
      by (rule dry_chain [of _ "q\<lparr>mOutByteBuffer := ByteBuffer_new\<rparr>"]) (use assms(1) t False in simp_all)
    with False turn show ?thesis by simp
  qed
qed

lemma unfilterData_decides:
  assumes "connected fs" "fs \<noteq> []" "buffer_ok m b" "mPvlen b < npos"
  shows "if n \<le> mPvlen b
    then \<exists>b' fs' m'. unfilterData b n fs m = Done (True, b', fs', m') \<and> same_filters (attach_proxy fs) fs' \<and>
      bytes_of m' b' = scramble (chain_key fs) (take n (bytes_of m b)) \<and> buffer_ok m' b' \<and> only_changes m m' (set (buffer_cells b)) \<and>
      set (buffer_cells b') \<subseteq> set (buffer_cells b)
    else unfilterData b n fs m = Aborted"
proof (cases "n = 0")
  case True
  have "unfilter_loop 0 0 [] c = Some (Done (0, [], c))" for c by (subst unfilter_loop.simps) simp
  then have "unfilterData b 0 fs m = Done (True, ByteBuffer_new, attach_proxy fs, m)"
    using assms(2) by (simp add: unfilterData_def unfilterData_list_def Let_def finally_done_def)
  then show ?thesis using True by (simp add: ByteBuffer_new_def bytes_of_def buffer_cells_def cells_def buffer_ok_def in_block_def)
next
  case False
  then have n: "0 < n" by simp
  define p where "p = (setInByteBuffer b ReadProxy_new)\<lparr>rp_preFilter := Nth_Filter (length fs - 1)\<rparr>"
  define c where "c = \<lparr>filters = attach_proxy fs, proxy_of = Read_Proxy p, mem = m\<rparr>"
  have c: "filters c = attach_proxy fs" "proxy_of c = Read_Proxy p" "mem c = m" by (simp_all add: c_def)
  have p: "mInByteBuffer p = b" "mInByteBufferPos p = 0" "rp_preFilter p = Nth_Filter (length (filters c) - 1)"
    by (simp_all add: p_def c(1) setInByteBuffer_def ReadProxy_new_def attach_proxy_def Let_def)
  have linked: "linked (filters c)" using attach_linked [OF assms(1,2)] c(1) by simp
  have key: "chain_key (attach_proxy fs) = chain_key fs" by (rule same_work_key [OF attach_work])
  note l = unfilter_loop_decides [OF linked c(2) p(3), of n, unfolded p(1,2) c(3) key c(1), OF assms(3,4) refl]
  have u: "unfilterData b n fs m = framed_bind (finally_done (unfilter_loop n 0 [] c)) (\<lambda>(transferred, out, c).
      if out = [] then Done (transferred = n, ByteBuffer_new, filters c, mem c)
      else if length out = 1 then Done (transferred = n, out ! 0, filters c, mem c)
      else framed_bind (copyByteBuffers out (mem c)) (\<lambda>(b, m). Done (transferred = n, b, filters c, m)))"
    using assms(2) unfolding c_def p_def
    by (cases "finally_done (unfilter_loop n 0 [] c)") (auto simp: unfilterData_def unfilterData_list_def Let_def c_def p_def)
  show ?thesis
  proof (cases "n \<le> mPvlen b")
    case True
    with l obtain w c' where w: "unfilter_loop n 0 [] c = Some (Done (n, [w], c'))" "filters c' = attach_proxy fs"
      "bytes_of (mem c') w = scramble (chain_key fs) (take n (bytes_of m b))" "buffer_ok (mem c') w"
      "only_changes m (mem c') (set (buffer_cells b))" "set (buffer_cells w) \<subseteq> set (buffer_cells b)" using n by auto
    have "unfilterData b n fs m = Done (True, w, attach_proxy fs, mem c')" unfolding u w(1) using w(2) by (simp add: finally_done_def)
    with True w show ?thesis by simp
  next
    case False
    with l n have "unfilter_loop n 0 [] c = Some Aborted" by simp
    with False show ?thesis unfolding u by (simp add: finally_done_def)
  qed
qed

lemma unfilterData_unscrambles:
  assumes "connected fs" "fs \<noteq> []" "buffer_ok m b" "mPvlen b < npos"
  obtains b' fs' m' where "unfilterData b (mPvlen b) fs m = Done (True, b', fs', m')" "same_filters (attach_proxy fs) fs'"
    "bytes_of m' b' = scramble (chain_key fs) (bytes_of m b)" "buffer_ok m' b'" "only_changes m m' (set (buffer_cells b))"
    "set (buffer_cells b') \<subseteq> set (buffer_cells b)"
  using unfilterData_decides [OF assms, of "mPvlen b"] by auto

end
