(* ===== verification/Rcf_Invocation.thy ===== *)
theory Rcf_Invocation
  imports Rcf_Filter
begin

text \<open>
  The messages of remote calls, \<^verbatim>\<open>RCF/MethodInvocation.cpp\<close>: the head of a request and of a response
  in each version of the protocol, error replies, and the head that names the filters a message
  went through.
\<close>

section \<open>Requests and responses\<close>

definition Descriptor_Error :: int32 where "Descriptor_Error = 0"
definition Descriptor_Request :: int32 where "Descriptor_Request = 1"
definition Descriptor_Response :: int32 where "Descriptor_Response = 2"
definition Descriptor_FilteredPayload :: int32 where "Descriptor_FilteredPayload = 3"

definition RcfError_VersionMismatch :: int32 where "RcfError_VersionMismatch = 70"
definition RcfError_PingBack :: int32 where "RcfError_PingBack = 80"

definition Sp_SfBinary :: int32 where "Sp_SfBinary = 1"
definition Mp_Rcf :: int32 where "Mp_Rcf = 1"

text \<open>A token is its number; a shared vector is its block.\<close>

record invocation_request =
  mToken :: int32
  mSubInterface :: bytes
  mFnId :: int32
  mSerializationProtocol :: int32
  mMarshalingProtocol :: int32
  mOneway :: bool
  mClose :: bool
  mService :: bytes
  mRuntimeVersion :: uint32
  mIgnoreRuntimeVersion :: bool
  mPingBackIntervalMs :: int32
  mArchiveVersion :: uint32
  mRequestUserData :: byte_buffer
  mResponseUserData :: byte_buffer
  mUseNativeWstringSerialization :: bool
  mEnableSfPointerTracking :: bool
  mVecPtr :: "nat option"

definition MethodInvocationRequest_new :: invocation_request where
  "MethodInvocationRequest_new =
     \<lparr>mToken = 0, mSubInterface = [], mFnId = 0, mSerializationProtocol = Sp_SfBinary, mMarshalingProtocol = Mp_Rcf,
      mOneway = False, mClose = False, mService = [], mRuntimeVersion = 0, mIgnoreRuntimeVersion = False,
      mPingBackIntervalMs = 0, mArchiveVersion = 0, mRequestUserData = ByteBuffer_new, mResponseUserData = ByteBuffer_new,
      mUseNativeWstringSerialization = False, mEnableSfPointerTracking = False, mVecPtr = None\<rparr>"

definition Request_init ::
    "int32 \<Rightarrow> bytes \<Rightarrow> bytes \<Rightarrow> int32 \<Rightarrow> int32 \<Rightarrow> int32 \<Rightarrow> bool \<Rightarrow> bool \<Rightarrow> int32 \<Rightarrow> bool \<Rightarrow> uint32 \<Rightarrow> int32 \<Rightarrow> bool \<Rightarrow> bool \<Rightarrow>
      invocation_request \<Rightarrow> invocation_request" where
  "Request_init token service subInterface fnId serializationProtocol marshalingProtocol oneway close runtimeVersion
      ignoreRuntimeVersion pingBackIntervalMs archiveVersion useNativeWstringSerialization enableSfPointerTracking self =
     self\<lparr>mToken := token, mService := service, mSubInterface := subInterface, mFnId := fnId,
          mSerializationProtocol := serializationProtocol, mMarshalingProtocol := marshalingProtocol, mOneway := oneway,
          mClose := close, mRuntimeVersion := runtimeVersion, mIgnoreRuntimeVersion := ignoreRuntimeVersion,
          mPingBackIntervalMs := pingBackIntervalMs, mArchiveVersion := archiveVersion,
          mUseNativeWstringSerialization := useNativeWstringSerialization, mEnableSfPointerTracking := enableSfPointerTracking\<rparr>"

definition Request_init_version :: "int32 \<Rightarrow> invocation_request \<Rightarrow> invocation_request" where
  "Request_init_version runtimeVersion self = self\<lparr>mRuntimeVersion := runtimeVersion, mOneway := True\<rparr>"

definition Request_init_from :: "invocation_request \<Rightarrow> invocation_request \<Rightarrow> invocation_request" where
  "Request_init_from rhs self =
     Request_init (mToken rhs) (mService rhs) (mSubInterface rhs) (mFnId rhs) (mSerializationProtocol rhs)
       (mMarshalingProtocol rhs) (mOneway rhs) (mClose rhs) (mRuntimeVersion rhs) (mIgnoreRuntimeVersion rhs)
       (mPingBackIntervalMs rhs) (mArchiveVersion rhs) (mUseNativeWstringSerialization rhs) (mEnableSfPointerTracking rhs) self"

definition getToken :: "invocation_request \<Rightarrow> int32" where "getToken self = mToken self"
definition getSubInterface :: "invocation_request \<Rightarrow> bytes" where "getSubInterface self = mSubInterface self"
definition getFnId :: "invocation_request \<Rightarrow> int32" where "getFnId self = mFnId self"
definition getOneway :: "invocation_request \<Rightarrow> bool" where "getOneway self = mOneway self"
definition getClose :: "invocation_request \<Rightarrow> bool" where "getClose self = mClose self"
definition getService :: "invocation_request \<Rightarrow> bytes" where "getService self = mService self"
definition setService :: "bytes \<Rightarrow> invocation_request \<Rightarrow> invocation_request" where "setService service self = self\<lparr>mService := service\<rparr>"
definition getPingBackIntervalMs :: "invocation_request \<Rightarrow> int32" where "getPingBackIntervalMs self = mPingBackIntervalMs self"

record remote_call_request =
  rcr_mServantBindingName :: bytes
  rcr_mInterfaceName :: bytes
  rcr_mFnId :: int32
  rcr_mOneway :: bool
  rcr_mSerializationProtocol :: int32
  rcr_mRuntimeVersion :: int32
  rcr_mArchiveVersion :: int32
  rcr_mPingBackIntervalMs :: uint32
  rcr_mUseNativeWstringSerialization :: bool
  rcr_mEnableSfPointerTracking :: bool

definition RemoteCallRequest_new :: "invocation_request \<Rightarrow> remote_call_request" where
  "RemoteCallRequest_new req =
     \<lparr>rcr_mServantBindingName = mService req, rcr_mInterfaceName = mSubInterface req, rcr_mFnId = mFnId req,
      rcr_mOneway = mOneway req, rcr_mSerializationProtocol = mSerializationProtocol req,
      rcr_mRuntimeVersion = mRuntimeVersion req, rcr_mArchiveVersion = mArchiveVersion req,
      rcr_mPingBackIntervalMs = mPingBackIntervalMs req,
      rcr_mUseNativeWstringSerialization = mUseNativeWstringSerialization req,
      rcr_mEnableSfPointerTracking = mEnableSfPointerTracking req\<rparr>"

text \<open>The exception pointer of a response is never set by the code here.\<close>

record invocation_response =
  mException :: bool
  mError :: bool
  mErrorCode :: int32
  mArg0 :: int32
  mArg1 :: int32
  rsp_mEnableSfPointerTracking :: bool

definition MethodInvocationResponse_new :: invocation_response where
  "MethodInvocationResponse_new =
     \<lparr>mException = False, mError = False, mErrorCode = 0, mArg0 = 0, mArg1 = 0, rsp_mEnableSfPointerTracking = False\<rparr>"

definition isException :: "invocation_response \<Rightarrow> bool" where "isException r = mException r"
definition isError :: "invocation_response \<Rightarrow> bool" where "isError r = mError r"
definition getError :: "invocation_response \<Rightarrow> int32" where "getError r = mErrorCode r"
definition getArg0 :: "invocation_response \<Rightarrow> int32" where "getArg0 r = mArg0 r"
definition getArg1 :: "invocation_response \<Rightarrow> int32" where "getArg1 r = mArg1 r"
definition getEnableSfPointerTracking :: "invocation_response \<Rightarrow> bool" where
  "getEnableSfPointerTracking r = rsp_mEnableSfPointerTracking r"

section \<open>The server and its sessions\<close>

text \<open>What the code here uses of them; a stub entry is a number.\<close>

record rcf_server =
  srv_mRuntimeVersion :: uint32
  srv_mArchiveVersion :: uint32
  mFilterFactoryMap :: "(int32 \<rightharpoonup> filter_kind) option"
  mStubMap :: "bytes \<rightharpoonup> nat"
  objectFactory :: "(int32 \<Rightarrow> nat option) option"

record rcf_session =
  ses_mRuntimeVersion :: uint32
  ses_mArchiveVersion :: uint32
  ses_mUseNativeWstringSerialization :: bool
  mFiltered :: bool
  mFilters :: "filter_obj option list"
  defaultStubEntry :: "nat option"

definition createFilter :: "rcf_server \<Rightarrow> int32 \<Rightarrow> filter_obj option" where
  "createFilter srv filterId =
     (case mFilterFactoryMap srv of
        None \<Rightarrow> None
      | Some factories \<Rightarrow>
          (case factories filterId of
             None \<Rightarrow> None | Some Identity_Filter \<Rightarrow> Some IdentityFilter_new | Some Xor_Filter \<Rightarrow> Some XorFilter_new))"

section \<open>Doing several things\<close>

fun run_all :: "('s \<Rightarrow> 's framed) list \<Rightarrow> 's \<Rightarrow> 's framed" where
  "run_all [] s = Done s"
| "run_all (f # fs) s = framed_bind (f s) (run_all fs)"

section \<open>Error replies\<close>

definition encodeServerError :: "int32 \<Rightarrow> byte_buffer \<Rightarrow> memory \<Rightarrow> (byte_buffer \<times> memory) framed" where
  "encodeServerError error byteBuffer m =
     (let Len = 4 + 1 + 1 + 4;
          (byteBuffer, m) = (if getLength byteBuffer + getLeftMargin byteBuffer < Len then ByteBuffer_sized Len m else (byteBuffer, m))
      in framed_bind (setLeftMargin 4 byteBuffer) (\<lambda>byteBuffer.
         framed_bind (run_all [encodeInt_in Descriptor_Error byteBuffer, encodeInt_in 0 byteBuffer, encodeInt_in error byteBuffer] (m, 0))
           (\<lambda>(m, pos). Done (byteBuffer, m))))"

definition encodeServerError_args ::
    "rcf_server \<Rightarrow> int32 \<Rightarrow> int32 \<Rightarrow> int32 \<Rightarrow> byte_buffer \<Rightarrow> memory \<Rightarrow> (byte_buffer \<times> memory) framed" where
  "encodeServerError_args srv error arg0 arg1 byteBuffer m =
     (let Len = 4 + 1 + 1 + 4 + 4;
          (byteBuffer, m) = (if getLength byteBuffer + getLeftMargin byteBuffer < Len then ByteBuffer_sized Len m else (byteBuffer, m))
      in framed_bind (setLeftMargin 4 byteBuffer) (\<lambda>byteBuffer.
           let ver = (if srv_mRuntimeVersion srv \<ge> 8 then 1 else 0) :: int32
           in framed_bind (run_all ([encodeInt_in Descriptor_Error byteBuffer, encodeInt_in ver byteBuffer,
                  encodeInt_in error byteBuffer, encodeInt_in arg0 byteBuffer] @
                  (if ver = 1 then [encodeInt_in arg1 byteBuffer] else [])) (m, 0))
                (\<lambda>(m, pos). Done (byteBuffer, m))))"

section \<open>Heads\<close>

text \<open>
  \<^verbatim>\<open>mVecPtr\<close> is made on first use. \<open>unique\<close> says that no byte buffer of an earlier head is still around;
  the code asserts it.
\<close>

definition own_vector :: "invocation_request \<Rightarrow> memory \<Rightarrow> nat \<times> invocation_request \<times> memory" where
  "own_vector self m =
     (case mVecPtr self of
        None \<Rightarrow> let (v, m) = new_vector (replicate 50 0) m in (v, self\<lparr>mVecPtr := Some v\<rparr>, m)
      | Some v \<Rightarrow> (v, self, m))"

definition request_version :: "uint32 \<Rightarrow> int32" where
  "request_version runtime =
     (let runtimeVersion = sint runtime
      in if runtimeVersion < 2 then 0
         else if runtimeVersion < 5 then 1
         else if runtimeVersion = 5 then 2
         else if runtimeVersion = 6 then 3
         else if runtimeVersion = 7 then 4
         else if runtimeVersion \<le> 9 then 5
         else 6)"

definition request_head :: "memory \<Rightarrow> invocation_request \<Rightarrow> int32 \<Rightarrow> (vec_pos \<Rightarrow> vec_pos framed) list" where
  "request_head m self messageVersion =
     [encodeInt Descriptor_Request, encodeInt messageVersion, encodeString (mService self), encodeInt (mToken self),
      if mSubInterface self = mService self then encodeString [] else encodeString (mSubInterface self),
      encodeInt (mFnId self), encodeInt (mSerializationProtocol self), encodeBool (mOneway self), encodeBool (mClose self)] @
     (if messageVersion = 1 then
        [encodeInt (mRuntimeVersion self), encodeBool (mIgnoreRuntimeVersion self)]
      else if messageVersion = 2 then
        [encodeInt (mRuntimeVersion self), encodeBool (mIgnoreRuntimeVersion self), encodeInt (mPingBackIntervalMs self)]
      else if messageVersion = 3 then
        [encodeInt (mRuntimeVersion self), encodeBool (mIgnoreRuntimeVersion self), encodeInt (mPingBackIntervalMs self),
         encodeInt (mArchiveVersion self)]
      else if messageVersion = 4 then
        [encodeInt (mRuntimeVersion self), encodeBool (mIgnoreRuntimeVersion self), encodeInt (mPingBackIntervalMs self),
         encodeInt (mArchiveVersion self), encodeByteBuffer m (mRequestUserData self)]
      else if messageVersion = 5 then
        [encodeInt (mRuntimeVersion self), encodeBool (mIgnoreRuntimeVersion self), encodeInt (mPingBackIntervalMs self),
         encodeInt (mArchiveVersion self), encodeByteBuffer m (mRequestUserData self), encodeBool (mUseNativeWstringSerialization self)]
      else if messageVersion = 6 then
        [encodeInt (mRuntimeVersion self), encodeBool (mIgnoreRuntimeVersion self), encodeInt (mPingBackIntervalMs self),
         encodeInt (mArchiveVersion self), encodeByteBuffer m (mRequestUserData self), encodeBool (mUseNativeWstringSerialization self),
         encodeBool (mEnableSfPointerTracking self)]
      else [])"

definition encodeRequestHeader :: "bool \<Rightarrow> invocation_request \<Rightarrow> memory \<Rightarrow> (byte_buffer \<times> invocation_request \<times> memory) framed" where
  "encodeRequestHeader unique self m =
     RCF_ASSERT (mVecPtr self = None \<or> unique)
       (let (v, self, m) = own_vector self m;
            messageVersion = request_version (mRuntimeVersion self)
        in framed_bind (run_all (request_head m self messageVersion) (m ! v, 0)) (\<lambda>(vec, pos).
             let m = m[v := take pos vec] in Done (ByteBuffer_shared_vector v False m, self, m)))"

definition response_version :: "uint32 \<Rightarrow> int32" where
  "response_version runtime =
     (let runtimeVersion = sint runtime in if runtimeVersion < 7 then 0 else if runtimeVersion \<le> 9 then 1 else 2)"

definition response_head :: "memory \<Rightarrow> invocation_request \<Rightarrow> bool \<Rightarrow> bool \<Rightarrow> int32 \<Rightarrow> (vec_pos \<Rightarrow> vec_pos framed) list" where
  "response_head m self isExc enableSfPointerTracking messageVersion =
     [encodeInt Descriptor_Response, encodeInt messageVersion, encodeBool isExc] @
     (if messageVersion = 1 then [encodeByteBuffer m (mResponseUserData self)]
      else if messageVersion = 2 then [encodeByteBuffer m (mResponseUserData self), encodeBool enableSfPointerTracking]
      else [])"

text \<open>\<open>isExc\<close> is \<^verbatim>\<open>pRe ? true : false\<close>; the exception itself is serialised by the caller.\<close>

definition encodeResponse ::
    "bool \<Rightarrow> bool \<Rightarrow> bool \<Rightarrow> invocation_request \<Rightarrow> memory \<Rightarrow> (bool \<times> byte_buffer \<times> invocation_request \<times> memory) framed" where
  "encodeResponse unique isExc enableSfPointerTracking self m =
     RCF_ASSERT (mVecPtr self = None \<or> unique)
       (let (v, self, m) = own_vector self m;
            messageVersion = response_version (mRuntimeVersion self)
        in framed_bind (run_all (response_head m self isExc enableSfPointerTracking messageVersion) (m ! v, 0)) (\<lambda>(vec, pos).
             let m = m[v := take pos vec] in Done (True, ByteBuffer_shared_vector v False m, self, m)))"

section \<open>Messages and filters\<close>

text \<open>
  The filter head is written into an array of the stack (a block of the memory that is left behind)
  and copied into the left margin of the first buffer.
\<close>

definition filter_head :: "filter_obj list \<Rightarrow> nat \<Rightarrow> byte_buffer \<Rightarrow> memory \<times> nat \<Rightarrow> (memory \<times> nat) framed" where
  "filter_head fs unfilteredLen byteBuffer s =
     framed_bind (run_all [encodeInt_in Descriptor_FilteredPayload byteBuffer, encodeInt_in 0 byteBuffer] s) (\<lambda>s.
       RCF_VERIFY (length fs \<le> 10) (FilterCount (length fs) 10)
         (run_all ([encodeInt_in (of_nat (length fs)) byteBuffer] @
            map (\<lambda>f. encodeInt_in (getId (getFilterDescription f)) byteBuffer) fs @
            [encodeInt_in 0 byteBuffer, encodeInt_in (of_nat unfilteredLen) byteBuffer]) s))"

definition encodeToMessage ::
    "byte_buffer list \<Rightarrow> filter_obj list \<Rightarrow> memory \<Rightarrow> (byte_buffer list \<times> filter_obj list \<times> memory) framed" where
  "encodeToMessage buffers fs m =
     (if fs = [] then Done (buffers, fs, m)
      else let unfilteredLen = lengthByteBuffers buffers
           in framed_bind (filterData buffers fs m) (\<lambda>(ok, filteredBuffers, fs, m).
              RCF_VERIFY ok FilterMessage
              (framed_bind
                (if filteredBuffers = []
                 then RCF_ASSERT (lengthByteBuffers buffers = 0) (RCF_ASSERT (buffers \<noteq> [])
                        (RCF_ASSERT (getLength (hd buffers) = 0) (Done [hd buffers])))
                 else Done filteredBuffers) (\<lambda>message.
               let VecLen = (5 + 10) * 4;
                   (vec, m) = new_vector (replicate VecLen 0) m;
                   byteBuffer = ByteBuffer_raw (vec, 0) VecLen False
               in framed_bind (filter_head fs unfilteredLen byteBuffer (m, 0)) (\<lambda>(m, headerLen).
                  RCF_ASSERT (headerLen \<le> VecLen)
                  (RCF_ASSERT (message \<noteq> [] \<and> getLeftMargin (hd message) \<ge> headerLen)
                    (framed_bind (expandIntoLeftMargin headerLen (hd message)) (\<lambda>front.
                     framed_bind (or_broken (load m (vec, 0) headerLen)) (\<lambda>bs.
                     framed_bind (or_broken (store m (getPtr front) bs)) (\<lambda>m.
                       Done (front # tl message, fs, m)))))))))))"

definition encodeRequest ::
    "byte_buffer list \<Rightarrow> filter_obj list \<Rightarrow> memory \<Rightarrow> (byte_buffer list \<times> filter_obj list \<times> memory) framed" where
  "encodeRequest buffers fs m = encodeToMessage buffers fs m"

fun decode_ids :: "nat \<Rightarrow> memory \<Rightarrow> byte_buffer \<Rightarrow> int32 list \<Rightarrow> nat \<Rightarrow> (int32 list \<times> nat) framed" where
  "decode_ids 0 m message filterIds pos = Done (filterIds, pos)"
| "decode_ids (Suc n) m message filterIds pos =
     framed_bind (decodeInt m message pos) (\<lambda>(filterId, pos). decode_ids n m message (filterIds @ [filterId]) pos)"

text \<open>
  The filter head, if there is one. The code looks at the first byte of the message before it looks
  at the length.
\<close>

definition decode_filter_head :: "memory \<Rightarrow> byte_buffer \<Rightarrow> (int32 list \<times> nat \<times> nat) framed" where
  "decode_filter_head m message =
     framed_bind (or_broken (load m (getPtr message) 1)) (\<lambda>pch.
       if hd pch = ucast Descriptor_FilteredPayload
       then framed_bind (decodeInt m message 0) (\<lambda>(descriptor, pos).
            RCF_VERIFY (descriptor = Descriptor_FilteredPayload) Decoding
            (framed_bind (decodeInt m message pos) (\<lambda>(version, pos).
             RCF_VERIFY (version = 0) Decoding
             (framed_bind (decodeInt m message pos) (\<lambda>(filterCount, pos).
              RCF_VERIFY (0 < sint filterCount \<and> sint filterCount \<le> 10) Decoding
              (framed_bind (decode_ids (nat (sint filterCount)) m message [] pos) (\<lambda>(filterIds, pos).
               framed_bind (decodeInt m message pos) (\<lambda>(clearLen, pos).
               RCF_VERIFY (0 \<le> sint clearLen) Decoding
               (framed_bind (decodeInt m message pos) (\<lambda>(unfilteredLen, pos).
                RCF_VERIFY (0 \<le> sint unfilteredLen) Decoding
                  (Done (filterIds, nat (sint unfilteredLen), pos))))))))))))
       else Done ([], 0, 0))"

text \<open>\<^verbatim>\<open>std::equal\<close> with \<^verbatim>\<open>FilterIdComparison\<close>, for lists of the same length.\<close>

definition filter_ids_equal :: "filter_obj list \<Rightarrow> int32 list \<Rightarrow> bool" where
  "filter_ids_equal fs filterIds \<longleftrightarrow> list_all2 (\<lambda>f filterId. getId (getFilterDescription f) = filterId) fs filterIds"

text \<open>The filters of the session may hold null pointers; a null pointer that is compared is undefined.\<close>

fun session_ids_equal :: "filter_obj option list \<Rightarrow> int32 list \<Rightarrow> bool framed" where
  "session_ids_equal (None # fs) (filterId # filterIds) = Broken"
| "session_ids_equal (Some f # fs) (filterId # filterIds) =
     (if getId (getFilterDescription f) = filterId then session_ids_equal fs filterIds else Done False)"
| "session_ids_equal fs filterIds = Done True"

definition decodeFromMessage_server ::
    "rcf_server \<Rightarrow> byte_buffer \<Rightarrow> invocation_request \<Rightarrow> rcf_session \<Rightarrow> memory \<Rightarrow>
      (byte_buffer \<times> invocation_request \<times> rcf_session \<times> memory) framed" where
  "decodeFromMessage_server srv message self session m =
     (let self = self\<lparr>mMarshalingProtocol := Mp_Rcf\<rparr>
      in framed_bind (decode_filter_head m message) (\<lambda>(filterIds, unfilteredLen, pos).
         framed_bind (ByteBuffer_slice message pos npos) (\<lambda>filteredData.
           if filterIds = [] then Done (filteredData, self, session\<lparr>mFiltered := False\<rparr>, m)
           else let session = session\<lparr>mFiltered := True\<rparr>
                in framed_bind (if length (mFilters session) \<noteq> length filterIds then Done False
                                else session_ids_equal (mFilters session) filterIds) (\<lambda>same.
                   framed_bind
                     (if same then Done session
                      else let session = session\<lparr>mFilters := map (createFilter srv) filterIds\<rparr>
                           in if None \<in> set (mFilters session) then Raised UnknownFilter
                              else Done (session\<lparr>mFilters := map Some (connectFilters (map the (mFilters session)))\<rparr>)) (\<lambda>session.
                   framed_bind (unfilterData filteredData unfilteredLen (map the (mFilters session)) m) (\<lambda>(bRet, buffer, fs, m).
                   RCF_ASSERT bRet (Done (buffer, self, session\<lparr>mFilters := map Some fs\<rparr>, m))))))))"

definition decodeFromMessage_client ::
    "byte_buffer \<Rightarrow> filter_obj list \<Rightarrow> invocation_request \<Rightarrow> memory \<Rightarrow>
      (byte_buffer \<times> invocation_request \<times> filter_obj list \<times> memory) framed" where
  "decodeFromMessage_client message existingFilters self m =
     (let self = self\<lparr>mMarshalingProtocol := Mp_Rcf\<rparr>
      in framed_bind (decode_filter_head m message) (\<lambda>(filterIds, unfilteredLen, pos).
         framed_bind (ByteBuffer_slice message pos npos) (\<lambda>filteredData.
           if length existingFilters = length filterIds \<and> filter_ids_equal existingFilters filterIds
           then if existingFilters = [] then Done (filteredData, self, existingFilters, m)
                else framed_bind (unfilterData filteredData unfilteredLen existingFilters m) (\<lambda>(bRet, buffer, fs, m).
                     RCF_VERIFY bRet UnfilterMessage (Done (buffer, self, fs, m)))
           else Raised PayloadFilterMismatch)))"

section \<open>Decoding requests\<close>

text \<open>Readers of one field: they move on in the buffer and update the request.\<close>

type_synonym reading = "invocation_request \<times> memory \<times> nat"

definition read_int :: "byte_buffer \<Rightarrow> (int32 \<Rightarrow> invocation_request \<Rightarrow> invocation_request) \<Rightarrow> reading \<Rightarrow> reading framed" where
  "read_int buffer upd r =
     (let (self, m, pos) = r in framed_bind (decodeInt m buffer pos) (\<lambda>(x, pos). Done (upd x self, m, pos)))"

definition read_uint :: "byte_buffer \<Rightarrow> (uint32 \<Rightarrow> invocation_request \<Rightarrow> invocation_request) \<Rightarrow> reading \<Rightarrow> reading framed" where
  "read_uint buffer upd r =
     (let (self, m, pos) = r in framed_bind (decodeUint m buffer pos) (\<lambda>(x, pos). Done (upd x self, m, pos)))"

definition read_bool :: "byte_buffer \<Rightarrow> (bool \<Rightarrow> invocation_request \<Rightarrow> invocation_request) \<Rightarrow> reading \<Rightarrow> reading framed" where
  "read_bool buffer upd r =
     (let (self, m, pos) = r in framed_bind (decodeBool m buffer pos) (\<lambda>(x, pos). Done (upd x self, m, pos)))"

definition read_string :: "byte_buffer \<Rightarrow> (bytes \<Rightarrow> invocation_request \<Rightarrow> invocation_request) \<Rightarrow> reading \<Rightarrow> reading framed" where
  "read_string buffer upd r =
     (let (self, m, pos) = r in framed_bind (decodeString m buffer pos) (\<lambda>(x, pos). Done (upd x self, m, pos)))"

definition read_user_data :: "byte_buffer \<Rightarrow> reading \<Rightarrow> reading framed" where
  "read_user_data buffer r =
     (let (self, m, pos) = r
      in framed_bind (decodeByteBuffer (mRequestUserData self) buffer (m, pos)) (\<lambda>(x, m, pos).
           Done (self\<lparr>mRequestUserData := x\<rparr>, m, pos)))"

definition request_fields :: "byte_buffer \<Rightarrow> int32 \<Rightarrow> (reading \<Rightarrow> reading framed) list" where
  "request_fields buffer messageVersion =
     (let mRuntime = read_uint buffer (\<lambda>x self. self\<lparr>mRuntimeVersion := x\<rparr>);
          ignoreRuntime = read_bool buffer (\<lambda>x self. self);
          pingBack = read_int buffer (\<lambda>x self. self\<lparr>mPingBackIntervalMs := x\<rparr>);
          archive = read_uint buffer (\<lambda>x self. self\<lparr>mArchiveVersion := x\<rparr>);
          wstring = read_bool buffer (\<lambda>x self. self\<lparr>mUseNativeWstringSerialization := x\<rparr>);
          tracking = read_bool buffer (\<lambda>x self. self\<lparr>mEnableSfPointerTracking := x\<rparr>)
      in [read_string buffer (\<lambda>x self. self\<lparr>mService := x\<rparr>),
          read_int buffer (\<lambda>x self. self\<lparr>mToken := x\<rparr>),
          read_string buffer (\<lambda>x self. self\<lparr>mSubInterface := x\<rparr>),
          read_int buffer (\<lambda>x self. self\<lparr>mFnId := x\<rparr>),
          read_int buffer (\<lambda>x self. self\<lparr>mSerializationProtocol := x\<rparr>),
          read_bool buffer (\<lambda>x self. self\<lparr>mOneway := x\<rparr>),
          read_bool buffer (\<lambda>x self. self\<lparr>mClose := x\<rparr>)] @
         (if messageVersion = 1 then [mRuntime, ignoreRuntime, \<lambda>(self, r). Done (self\<lparr>mPingBackIntervalMs := 0\<rparr>, r)]
          else if messageVersion = 2 then [mRuntime, ignoreRuntime, pingBack]
          else if messageVersion = 3 then [mRuntime, ignoreRuntime, pingBack, archive]
          else if messageVersion = 4 then [mRuntime, ignoreRuntime, pingBack, archive, read_user_data buffer]
          else if messageVersion = 5 then [mRuntime, ignoreRuntime, pingBack, archive, read_user_data buffer, wstring]
          else if messageVersion = 6 then [mRuntime, ignoreRuntime, pingBack, archive, read_user_data buffer, wstring, tracking]
          else []))"

text \<open>
  The local \<^verbatim>\<open>tokenId\<close> is put into the request at once: nothing in between reads the token, and an
  exception in between ends the call. \<open>None\<close> instead of a message body is \<^verbatim>\<open>return false\<close>.
\<close>

definition decodeRequest ::
    "rcf_server \<Rightarrow> byte_buffer \<Rightarrow> invocation_request \<Rightarrow> rcf_session \<Rightarrow> memory \<Rightarrow>
      (byte_buffer option \<times> invocation_request \<times> rcf_session \<times> memory) framed" where
  "decodeRequest srv message self session m =
     framed_bind (decodeFromMessage_server srv message self session m) (\<lambda>(buffer, self, session, m).
       let self = self\<lparr>mRuntimeVersion := 1, mEnableSfPointerTracking := True\<rparr>
       in framed_bind (decodeInt m buffer 0) (\<lambda>(msgId, pos).
          RCF_VERIFY (msgId = Descriptor_Request) Decoding
          (framed_bind (decodeInt m buffer pos) (\<lambda>(messageVersion, pos).
           if sint messageVersion > 6 then Done (None, self, session, m)
           else framed_bind (run_all (request_fields buffer messageVersion) (self, m, pos)) (\<lambda>(self, m, pos).
             let self = (if mSubInterface self = [] then self\<lparr>mSubInterface := mService self\<rparr> else self)
             in if mRuntimeVersion self > srv_mRuntimeVersion srv then Done (None, self, session, m)
                else let session = session\<lparr>ses_mRuntimeVersion := mRuntimeVersion self\<rparr>;
                         serverArchiveVersion = srv_mArchiveVersion srv
                     in if serverArchiveVersion \<noteq> 0 \<and> mArchiveVersion self > serverArchiveVersion then Done (None, self, session, m)
                        else let session = session\<lparr>ses_mArchiveVersion := mArchiveVersion self,
                                     ses_mUseNativeWstringSerialization := mUseNativeWstringSerialization self\<rparr>
                             in framed_bind (ByteBuffer_slice buffer pos npos) (\<lambda>messageBody.
                                  Done (Some messageBody, self, session, m)))))))"

section \<open>Decoding responses\<close>

definition decode_error :: "memory \<Rightarrow> byte_buffer \<Rightarrow> int32 \<Rightarrow> invocation_response \<Rightarrow> nat \<Rightarrow> (invocation_response \<times> nat) framed" where
  "decode_error m buffer ver response pos =
     RCF_VERIFY (sint ver \<le> 1) Decoding
       (framed_bind (decodeInt m buffer pos) (\<lambda>(error, pos).
          let response = response\<lparr>mException := False, mError := True, mErrorCode := error\<rparr>
          in if error = RcfError_VersionMismatch \<or> error = RcfError_PingBack
             then framed_bind (decodeInt m buffer pos) (\<lambda>(arg0, pos).
                  let response = response\<lparr>mArg0 := arg0\<rparr>
                  in if ver = 1
                     then framed_bind (decodeInt m buffer pos) (\<lambda>(arg1, pos). Done (response\<lparr>mArg1 := arg1\<rparr>, pos))
                     else Done (response, pos))
             else Done (response, pos)))"

definition decode_result ::
    "byte_buffer \<Rightarrow> int32 \<Rightarrow> int32 \<Rightarrow> invocation_response \<Rightarrow> reading \<Rightarrow> (invocation_response \<times> reading) framed" where
  "decode_result buffer msgId ver response r =
     (let (self, m, pos) = r
      in RCF_VERIFY (msgId = Descriptor_Response) Decoding (RCF_VERIFY (sint ver \<le> 2) Decoding
         (let response = response\<lparr>rsp_mEnableSfPointerTracking := True\<rparr>
          in framed_bind (decodeBool m buffer pos) (\<lambda>(exc, pos).
             let response = response\<lparr>mException := exc\<rparr>
             in framed_bind
                  (if ver = 1
                   then framed_bind (decodeByteBuffer (mResponseUserData self) buffer (m, pos)) (\<lambda>(x, m, pos).
                        Done (response, self\<lparr>mResponseUserData := x\<rparr>, m, pos))
                   else if ver = 2
                   then framed_bind (decodeByteBuffer (mResponseUserData self) buffer (m, pos)) (\<lambda>(x, m, pos).
                        framed_bind (decodeBool m buffer pos) (\<lambda>(t, pos).
                        Done (response\<lparr>rsp_mEnableSfPointerTracking := t\<rparr>, self\<lparr>mResponseUserData := x\<rparr>, m, pos)))
                   else Done (response, self, m, pos)) (\<lambda>(response, r).
                Done (response\<lparr>mError := False, mErrorCode := 0, mArg0 := 0, mArg1 := 0\<rparr>, r))))))"

definition decodeResponse ::
    "byte_buffer \<Rightarrow> filter_obj list \<Rightarrow> invocation_response \<Rightarrow> invocation_request \<Rightarrow> memory \<Rightarrow>
      (byte_buffer \<times> invocation_response \<times> invocation_request \<times> filter_obj list \<times> memory) framed" where
  "decodeResponse message fs response self m =
     framed_bind (decodeFromMessage_client message fs self m) (\<lambda>(buffer, self, fs, m).
     framed_bind (decodeInt m buffer 0) (\<lambda>(msgId, pos).
     framed_bind (decodeInt m buffer pos) (\<lambda>(ver, pos).
     framed_bind
       (if msgId = Descriptor_Error
        then framed_bind (decode_error m buffer ver response pos) (\<lambda>(response, pos). Done (response, self, m, pos))
        else decode_result buffer msgId ver response (self, m, pos)) (\<lambda>(response, self, m, pos).
     framed_bind (ByteBuffer_slice buffer pos npos) (\<lambda>buffer. Done (buffer, response, self, fs, m))))))"

section \<open>Finding the servant\<close>

definition locateStubEntryPtr :: "rcf_server \<Rightarrow> rcf_session \<Rightarrow> invocation_request \<Rightarrow> nat option framed" where
  "locateStubEntryPtr srv session self =
     (let targetToken = getToken self; targetName = getService self
      in if targetToken \<noteq> 0
         then (case objectFactory srv of None \<Rightarrow> Aborted | Some getStubEntryPtr \<Rightarrow> Done (getStubEntryPtr targetToken))
         else if targetName \<noteq> [] then Done (mStubMap srv targetName)
         else Done (defaultStubEntry session))"

section \<open>What heads look like\<close>

definition enc_request :: "invocation_request \<Rightarrow> int32 \<Rightarrow> bytes \<Rightarrow> bytes" where
  "enc_request r ver userData =
     enc_rcf_string (mService r) @ enc_rcf_int (mToken r) @
     enc_rcf_string (if mSubInterface r = mService r then [] else mSubInterface r) @
     enc_rcf_int (mFnId r) @ enc_rcf_int (mSerializationProtocol r) @ enc_rcf_bool (mOneway r) @ enc_rcf_bool (mClose r) @
     (if 1 \<le> unat ver then enc_rcf_int (mRuntimeVersion r) @ enc_rcf_bool (mIgnoreRuntimeVersion r) else []) @
     (if 2 \<le> unat ver then enc_rcf_int (mPingBackIntervalMs r) else []) @
     (if 3 \<le> unat ver then enc_rcf_int (mArchiveVersion r) else []) @
     (if 4 \<le> unat ver then enc_rcf_string userData else []) @
     (if 5 \<le> unat ver then enc_rcf_bool (mUseNativeWstringSerialization r) else []) @
     (if 6 \<le> unat ver then enc_rcf_bool (mEnableSfPointerTracking r) else [])"

definition enc_request_head :: "invocation_request \<Rightarrow> bytes \<Rightarrow> bytes" where
  "enc_request_head r userData =
     (let ver = request_version (mRuntimeVersion r)
      in enc_rcf_int Descriptor_Request @ enc_rcf_int ver @ enc_request r ver userData)"

definition enc_response_head :: "uint32 \<Rightarrow> bool \<Rightarrow> bool \<Rightarrow> bytes \<Rightarrow> bytes" where
  "enc_response_head runtime isExc tracking userData =
     (let ver = response_version runtime
      in enc_rcf_int Descriptor_Response @ enc_rcf_int ver @ enc_rcf_bool isExc @
         (if 1 \<le> unat ver then enc_rcf_string userData else []) @ (if 2 \<le> unat ver then enc_rcf_bool tracking else []))"

lemma run_all_writes: "list_all2 vec_writes fs bss \<Longrightarrow> vec_writes (run_all fs) (concat bss)"
proof (induction rule: list_all2_induct)
  case Nil
  have "run_all [] = Done" by (rule ext) simp
  then show ?case using vec_writes_nothing by simp
next
  case (Cons f fs bs bss)
  have "run_all (f # fs) = (\<lambda>s. framed_bind (f s) (run_all fs))" by (rule ext) simp
  then show ?case using vec_writes_then [OF Cons(1) Cons(3)] by simp
qed

lemma request_version_cases: "request_version v \<in> {0, 1, 2, 3, 4, 5, 6}"
  by (simp add: request_version_def Let_def)

lemma response_version_cases: "response_version v \<in> {0, 1, 2}"
  by (simp add: response_version_def Let_def)

text \<open>Requests whose strings and user data have sizes that fit an \<^verbatim>\<open>int\<close>.\<close>

definition request_ok :: "memory \<Rightarrow> invocation_request \<Rightarrow> bool" where
  "request_ok m r \<longleftrightarrow> length (mService r) < 2 ^ 31 \<and> length (mSubInterface r) < 2 ^ 31 \<and>
     buffer_ok m (mRequestUserData r) \<and> mPvlen (mRequestUserData r) < 2 ^ 31 \<and>
     buffer_ok m (mResponseUserData r) \<and> mPvlen (mResponseUserData r) < 2 ^ 31 \<and>
     (case mVecPtr r of None \<Rightarrow> True | Some v \<Rightarrow> v < length m)"

lemmas rcf_writes = encodeInt_writes encodeBool_writes encodeString_writes encodeByteBuffer_writes

lemma request_head_writes:
  assumes "request_ok m r" "ver \<in> {0, 1, 2, 3, 4, 5, 6}"
  shows "vec_writes (run_all (request_head m r ver)) (enc_rcf_int Descriptor_Request @ enc_rcf_int ver @ enc_request r ver (bytes_of m (mRequestUserData r)))"
proof -
  let ?ud = "enc_rcf_string (bytes_of m (mRequestUserData r))"
  let ?front = "[enc_rcf_int Descriptor_Request, enc_rcf_int ver, enc_rcf_string (mService r), enc_rcf_int (mToken r),
    enc_rcf_string (if mSubInterface r = mService r then [] else mSubInterface r), enc_rcf_int (mFnId r),
    enc_rcf_int (mSerializationProtocol r), enc_rcf_bool (mOneway r), enc_rcf_bool (mClose r)]"
  let ?fields = "(if 1 \<le> unat ver then [enc_rcf_int (mRuntimeVersion r), enc_rcf_bool (mIgnoreRuntimeVersion r)] else []) @
    (if 2 \<le> unat ver then [enc_rcf_int (mPingBackIntervalMs r)] else []) @ (if 3 \<le> unat ver then [enc_rcf_int (mArchiveVersion r)] else []) @
    (if 4 \<le> unat ver then [?ud] else []) @ (if 5 \<le> unat ver then [enc_rcf_bool (mUseNativeWstringSerialization r)] else []) @
    (if 6 \<le> unat ver then [enc_rcf_bool (mEnableSfPointerTracking r)] else [])"
  have "list_all2 vec_writes (request_head m r ver) (?front @ ?fields)"
    using assms by (auto simp: request_head_def request_ok_def rcf_writes)
  from run_all_writes [OF this] show ?thesis
    using assms(2) by (auto simp: enc_request_def)
qed

lemma response_head_writes:
  assumes "request_ok m r"
  shows "vec_writes (run_all (response_head m r isExc tracking (response_version v))) (enc_response_head v isExc tracking (bytes_of m (mResponseUserData r)))"
proof -
  define ver where "ver = response_version v"
  have ver: "ver \<in> {0, 1, 2}" using response_version_cases by (simp add: ver_def)
  let ?bss = "[enc_rcf_int Descriptor_Response, enc_rcf_int ver, enc_rcf_bool isExc] @
    (if 1 \<le> unat ver then [enc_rcf_string (bytes_of m (mResponseUserData r))] else []) @ (if 2 \<le> unat ver then [enc_rcf_bool tracking] else [])"
  have "list_all2 vec_writes (response_head m r isExc tracking ver) ?bss"
    using assms ver by (auto simp: response_head_def request_ok_def rcf_writes)
  from run_all_writes [OF this] show ?thesis
    using ver by (auto simp: enc_response_head_def ver_def [symmetric])
qed

text \<open>A vector that was written to is handed out as a byte buffer of exactly those bytes.\<close>

lemma handed_out:
  assumes "v < length m" "bs \<noteq> []"
  shows "buffer_ok (m[v := bs]) (ByteBuffer_shared_vector v False (m[v := bs]))"
    "bytes_of (m[v := bs]) (ByteBuffer_shared_vector v False (m[v := bs])) = bs"
proof -
  let ?b = "ByteBuffer_shared_vector v False (m[v := bs])"
  have p: "mPv ?b = (v, 0)" "mPvlen ?b = length bs" using assms by (simp_all add: ByteBuffer_shared_vector_def vector_front_def)
  then have i: "in_block (m[v := bs]) (v, 0) (length bs)" using assms by (simp add: in_block_def)
  then show "buffer_ok (m[v := bs]) ?b" using p by (simp add: buffer_ok_def)
  show "bytes_of (m[v := bs]) ?b = bs"
    unfolding bytes_of_def buffer_cells_def p using bytes_cells [OF i] assms by simp
qed

lemma own_vector_fits:
  assumes "request_ok m r" "own_vector r m = (v, r', m')"
  shows "v < length m'" "request_ok m' r'" "bytes_of m' (mRequestUserData r') = bytes_of m (mRequestUserData r)"
    "bytes_of m' (mResponseUserData r') = bytes_of m (mResponseUserData r)" "r' = r\<lparr>mVecPtr := Some v\<rparr>" "only_changes m m' {}"
  using assms
  by (auto simp: own_vector_def new_vector_def request_ok_def bytes_of_append only_changes_def byte_at_def in_block_def nth_append
      intro: buffer_ok_extends split: option.splits)

lemma enc_head_not_Nil: "enc_request_head r ud \<noteq> []" "enc_response_head v e t ud \<noteq> []"
  by (simp_all add: enc_request_head_def enc_response_head_def enc_rcf_int_def Let_def)

lemma encodeRequestHeader_bytes:
  assumes "request_ok m r" "mVecPtr r = None \<or> unique"
  obtains b r' m' where "encodeRequestHeader unique r m = Done (b, r', m')" "buffer_ok m' b" "mLeftMargin b = 0"
    "bytes_of m' b = enc_request_head r (bytes_of m (mRequestUserData r))"
proof -
  obtain v r1 m1 where o: "own_vector r m = (v, r1, m1)" by (cases "own_vector r m") auto
  note f = own_vector_fits [OF assms(1) o]
  let ?ver = "request_version (mRuntimeVersion r)"
  let ?bs = "enc_request_head r (bytes_of m (mRequestUserData r))"
  have e: "enc_rcf_int Descriptor_Request @ enc_rcf_int ?ver @ enc_request r1 ?ver (bytes_of m1 (mRequestUserData r1)) = ?bs"
    using f(3,5) by (simp add: enc_request_head_def enc_request_def Let_def)
  obtain vec where "run_all (request_head m1 r1 ?ver) (m1 ! v, 0) = Done (vec, 0 + length ?bs)" "take (0 + length ?bs) vec = take 0 (m1 ! v) @ ?bs"
    using request_head_writes [OF f(2) request_version_cases, of "mRuntimeVersion r"] unfolding e vec_writes_def by blast
  moreover have "mRuntimeVersion r1 = mRuntimeVersion r" using f(5) by simp
  ultimately have "encodeRequestHeader unique r m = Done (ByteBuffer_shared_vector v False (m1[v := ?bs]), r1, m1[v := ?bs])"
    using assms(2) by (simp add: encodeRequestHeader_def RCF_ASSERT_def o Let_def)
  then show ?thesis by (rule that) (use handed_out [OF f(1) enc_head_not_Nil(1)] in \<open>simp_all add: ByteBuffer_shared_vector_def\<close>)
qed

lemma encodeResponse_bytes:
  assumes "request_ok m r" "mVecPtr r = None \<or> unique"
  obtains b r' m' where "encodeResponse unique isExc tracking r m = Done (True, b, r', m')" "buffer_ok m' b" "mLeftMargin b = 0"
    "bytes_of m' b = enc_response_head (mRuntimeVersion r) isExc tracking (bytes_of m (mResponseUserData r))"
proof -
  obtain v r1 m1 where o: "own_vector r m = (v, r1, m1)" by (cases "own_vector r m") auto
  note f = own_vector_fits [OF assms(1) o]
  let ?bs = "enc_response_head (mRuntimeVersion r) isExc tracking (bytes_of m (mResponseUserData r))"
  have rt: "mRuntimeVersion r1 = mRuntimeVersion r" using f(5) by simp
  obtain vec where "run_all (response_head m1 r1 isExc tracking (response_version (mRuntimeVersion r))) (m1 ! v, 0) = Done (vec, 0 + length ?bs)"
      "take (0 + length ?bs) vec = take 0 (m1 ! v) @ ?bs"
    using response_head_writes [OF f(2), of isExc tracking "mRuntimeVersion r"] unfolding f(4) vec_writes_def by blast
  then have "encodeResponse unique isExc tracking r m = Done (True, ByteBuffer_shared_vector v False (m1[v := ?bs]), r1, m1[v := ?bs])"
    using assms(2) rt by (simp add: encodeResponse_def RCF_ASSERT_def o Let_def)
  then show ?thesis by (rule that) (use handed_out [OF f(1) enc_head_not_Nil(2)] in \<open>simp_all add: ByteBuffer_shared_vector_def\<close>)
qed

section \<open>Reading a request back\<close>

text \<open>User data that can be read without touching the message: it is its own memory.\<close>

definition ready :: "byte_buffer \<Rightarrow> invocation_request \<times> memory \<Rightarrow> bool" where
  "ready b s \<longleftrightarrow> buffer_ok (snd s) (mRequestUserData (fst s)) \<and> set (buffer_cells b) \<inter> set (buffer_cells (mRequestUserData (fst s))) = {}"

text \<open>A reader takes exactly these bytes, and changes request and memory as \<open>R\<close> says.\<close>

definition reads_as :: "byte_buffer \<Rightarrow> (reading \<Rightarrow> reading framed) \<Rightarrow> bytes \<Rightarrow>
    (invocation_request \<times> memory \<Rightarrow> invocation_request \<times> memory \<Rightarrow> bool) \<Rightarrow> bool" where
  "reads_as b f bs R \<longleftrightarrow> (\<forall>self m pos post. ready b (self, m) \<longrightarrow> rest_is m b pos (bs @ post) \<longrightarrow>
     (\<exists>self' m'. f (self, m, pos) = Done (self', m', pos + length bs) \<and> R (self, m) (self', m') \<and> ready b (self', m') \<and>
       rest_is m' b (pos + length bs) post))"

text \<open>Setting a field of the request.\<close>

definition sets :: "(invocation_request \<Rightarrow> invocation_request) \<Rightarrow> invocation_request \<times> memory \<Rightarrow> invocation_request \<times> memory \<Rightarrow> bool" where
  "sets g s s' \<longleftrightarrow> s' = (g (fst s), snd s)"

definition sets_user_data :: "bytes \<Rightarrow> invocation_request \<times> memory \<Rightarrow> invocation_request \<times> memory \<Rightarrow> bool" where
  "sets_user_data ud s s' \<longleftrightarrow> (\<exists>x. fst s' = (fst s)\<lparr>mRequestUserData := x\<rparr> \<and> bytes_of (snd s') x = ud \<and> buffer_ok (snd s') x \<and>
     only_changes (snd s) (snd s') (set (buffer_cells (mRequestUserData (fst s)))))"

lemma reads_as_then:
  assumes "reads_as b f bs R" "reads_as b (run_all fs) cs S"
  shows "reads_as b (run_all (f # fs)) (bs @ cs) (R OO S)"
  unfolding reads_as_def
proof (intro allI impI)
  fix self m pos post assume a: "ready b (self, m)" "rest_is m b pos ((bs @ cs) @ post)"
  then obtain s1 m1 where 1: "f (self, m, pos) = Done (s1, m1, pos + length bs)" "R (self, m) (s1, m1)" "ready b (s1, m1)"
    "rest_is m1 b (pos + length bs) (cs @ post)" using assms(1) unfolding reads_as_def by (metis append.assoc)
  then obtain s2 m2 where "run_all fs (s1, m1, pos + length bs) = Done (s2, m2, pos + length bs + length cs)" "S (s1, m1) (s2, m2)"
    "ready b (s2, m2)" "rest_is m2 b (pos + length bs + length cs) post" using assms(2) unfolding reads_as_def by meson
  with 1 show "\<exists>self' m'. run_all (f # fs) (self, m, pos) = Done (self', m', pos + length (bs @ cs)) \<and> (R OO S) (self, m) (self', m') \<and>
      ready b (self', m') \<and> rest_is m' b (pos + length (bs @ cs)) post" by (auto simp: add.assoc)
qed

lemma reads_as_nothing: "reads_as b (run_all []) [] (sets (\<lambda>r. r))"
  by (auto simp: reads_as_def sets_def)

lemma sets_then [simp]: "sets g OO sets h = sets (\<lambda>r. h (g r))"
  by (auto simp: fun_eq_iff sets_def)

lemma field_reads:
  assumes "\<And>m pos bs. rest_is m b pos (e @ bs) \<Longrightarrow> get m b pos = Done (x, pos + length e)"
    and "\<And>r. mRequestUserData (g r) = mRequestUserData r"
    and "\<And>self m pos. f (self, m, pos) = framed_bind (get m b pos) (\<lambda>(y, pos). Done (upd y self, m, pos))"
    and "g = upd x"
  shows "reads_as b f e (sets g)"
  unfolding reads_as_def
proof (intro allI impI)
  fix self m pos post assume "ready b (self, m)" "rest_is m b pos (e @ post)"
  with assms(1) [OF this(2)] assms(2,3,4) rest_drop [of m b pos e post]
  show "\<exists>self' m'. f (self, m, pos) = Done (self', m', pos + length e) \<and> sets g (self, m) (self', m') \<and> ready b (self', m') \<and>
      rest_is m' b (pos + length e) post" by (simp add: sets_def ready_def)
qed

lemma read_int_as:
  assumes "\<And>r. mRequestUserData (upd x r) = mRequestUserData r"
  shows "reads_as b (read_int b upd) (enc_rcf_int x) (sets (upd x))" "reads_as b (read_uint b upd) (enc_rcf_int x) (sets (upd x))"
  using assms decodeInt_reads [of _ b _ x]
  by (auto intro!: field_reads [where get = decodeInt and x = x] field_reads [where get = decodeUint and x = x]
      simp: read_int_def read_uint_def decodeUint_same)

lemma read_bool_as:
  assumes "\<And>r. mRequestUserData (upd x r) = mRequestUserData r"
  shows "reads_as b (read_bool b upd) (enc_rcf_bool x) (sets (upd x))"
  using assms decodeBool_reads [of _ b _ x] by (auto intro!: field_reads [where get = decodeBool and x = x] simp: read_bool_def)

lemma read_string_as:
  assumes "\<And>r. mRequestUserData (upd x r) = mRequestUserData r" "length x < 2 ^ 31"
  shows "reads_as b (read_string b upd) (enc_rcf_string x) (sets (upd x))"
  using assms(1) decodeString_reads [OF assms(2), of _ b] by (auto intro!: field_reads [where get = decodeString and x = x] simp: read_string_def)

lemma read_user_data_as:
  assumes "length ud < 2 ^ 31"
  shows "reads_as b (read_user_data b) (enc_rcf_string ud) (sets_user_data ud)"
  unfolding reads_as_def
proof (intro allI impI)
  fix self m pos post assume r: "ready b (self, m)" "rest_is m b pos (enc_rcf_string ud @ post)"
  then have "buffer_ok m (mRequestUserData self)" "set (buffer_cells b) \<inter> set (buffer_cells (mRequestUserData self)) = {}"
    by (simp_all add: ready_def)
  with assms r(2) obtain x m' where x: "decodeByteBuffer (mRequestUserData self) b (m, pos) = Done (x, m', pos + length (enc_rcf_string ud))"
    "only_changes m m' (set (buffer_cells (mRequestUserData self)))" "buffer_ok m' x" "bytes_of m' x = ud"
    "rest_is m' b (pos + length (enc_rcf_string ud)) post" "within_or_new m (set (buffer_cells (mRequestUserData self))) x"
    by (rule decodeByteBuffer_reads)
  have "buffer_ok m b" using r(2) by (simp add: rest_is_def)
  from within_or_new_disjoint [OF x(6) this] r(1) have "set (buffer_cells b) \<inter> set (buffer_cells x) = {}" by (simp add: ready_def)
  with x show "\<exists>self' m'. read_user_data b (self, m, pos) = Done (self', m', pos + length (enc_rcf_string ud)) \<and>
      sets_user_data ud (self, m) (self', m') \<and> ready b (self', m') \<and> rest_is m' b (pos + length (enc_rcf_string ud)) post"
    by (intro exI [of _ "self\<lparr>mRequestUserData := x\<rparr>"] exI [of _ m']) (auto simp: read_user_data_def sets_user_data_def ready_def)
qed

lemma reset_ping_back_as: "reads_as b (\<lambda>(self, r). Done (self\<lparr>mPingBackIntervalMs := 0\<rparr>, r)) [] (sets (\<lambda>self. self\<lparr>mPingBackIntervalMs := 0\<rparr>))"
  by (auto simp: reads_as_def sets_def ready_def)

text \<open>What the receiver knows of a request after reading it in each version.\<close>

definition understood :: "int32 \<Rightarrow> invocation_request \<Rightarrow> invocation_request \<Rightarrow> invocation_request" where
  "understood ver r self = self\<lparr>
     mService := mService r, mToken := mToken r,
     mSubInterface := (if mSubInterface r = mService r then [] else mSubInterface r),
     mFnId := mFnId r, mSerializationProtocol := mSerializationProtocol r, mOneway := mOneway r, mClose := mClose r,
     mRuntimeVersion := (if 1 \<le> unat ver then mRuntimeVersion r else mRuntimeVersion self),
     mPingBackIntervalMs := (if ver = 1 then 0 else if 2 \<le> unat ver then mPingBackIntervalMs r else mPingBackIntervalMs self),
     mArchiveVersion := (if 3 \<le> unat ver then mArchiveVersion r else mArchiveVersion self),
     mUseNativeWstringSerialization := (if 5 \<le> unat ver then mUseNativeWstringSerialization r else mUseNativeWstringSerialization self),
     mEnableSfPointerTracking := (if 6 \<le> unat ver then mEnableSfPointerTracking r else mEnableSfPointerTracking self)\<rparr>"

definition learns :: "int32 \<Rightarrow> invocation_request \<Rightarrow> bytes \<Rightarrow> invocation_request \<times> memory \<Rightarrow> invocation_request \<times> memory \<Rightarrow> bool" where
  "learns ver r ud s s' \<longleftrightarrow>
     (if 4 \<le> unat ver
      then fst s' = (understood ver r (fst s))\<lparr>mRequestUserData := mRequestUserData (fst s')\<rparr> \<and>
        bytes_of (snd s') (mRequestUserData (fst s')) = ud \<and>
        only_changes (snd s) (snd s') (set (buffer_cells (mRequestUserData (fst s))))
      else s' = (understood ver r (fst s), snd s))"

lemma reads_as_last: "reads_as b f bs R \<Longrightarrow> reads_as b (run_all [f]) bs R"
proof -
  assume r: "reads_as b f bs R"
  have "run_all [f] = f"
  proof
    fix s show "run_all [f] s = f s" by (cases "f s") simp_all
  qed
  with r show ?thesis by simp
qed

lemmas reads_head = reads_as_then [OF read_string_as] reads_as_then [OF read_int_as(1)] reads_as_then [OF read_int_as(2)]
  reads_as_then [OF read_bool_as] reads_as_then [OF read_user_data_as]

lemmas reads_last = reads_as_last [OF read_int_as(1)] reads_as_last [OF read_int_as(2)] reads_as_last [OF read_bool_as]
  reads_as_last [OF read_user_data_as]
  reads_as_then [OF read_bool_as reads_as_last [OF reset_ping_back_as], simplified append_Nil2]

lemma reads_as_weaken: "reads_as b f bs R \<Longrightarrow> (\<And>s s'. R s s' \<Longrightarrow> S s s') \<Longrightarrow> reads_as b f bs S"
  unfolding reads_as_def by meson

lemma request_fields_read:
  assumes "length (mService r) < 2 ^ 31" "length (mSubInterface r) < 2 ^ 31" "length ud < 2 ^ 31" "ver \<in> {0, 1, 2, 3, 4, 5, 6}"
  shows "reads_as b (run_all (request_fields b ver)) (enc_request r ver ud) (learns ver r ud)"
proof -
  define sub where "sub = (if mSubInterface r = mService r then [] else mSubInterface r)"
  have "length sub < 2 ^ 31" using assms(2) by (simp add: sub_def)
  note side = assms(1,3) this
  from assms(4) show ?thesis
    unfolding request_fields_def enc_request_def Let_def sub_def [symmetric]
    apply (elim insertE emptyE)
    apply (simp_all del: run_all.simps)
    by (rule reads_as_weaken, ((rule reads_last reads_head; (rule side | simp)?)+),
      (auto simp: learns_def understood_def sets_def sets_user_data_def sub_def)[1])+
qed

section \<open>Requests and responses come across\<close>

lemma slice_rest:
  assumes "buffer_ok m b" "pos \<le> mPvlen b"
  obtains w where "ByteBuffer_slice b pos npos = Done w" "buffer_ok m w" "bytes_of m w = drop pos (bytes_of m b)"
    "buffer_cells w = drop pos (buffer_cells b)" "pos = 0 \<longrightarrow> w = b"
proof -
  let ?w = "\<lparr>mSpvc = mSpvc b, mSpos = mSpos b, mSprb = mSprb b, mPv = ptr_add (mPv b) (int pos), mPvlen = mPvlen b - pos,
    mLeftMargin = (if pos \<noteq> 0 then 0 else mLeftMargin b), mReadOnly = mReadOnly b\<rparr>"
  have c: "buffer_cells ?w = drop pos (buffer_cells b)"
    using cells_part [of pos "mPvlen b - pos" "mPvlen b" "mPv b"] assms(2) by (simp add: buffer_cells_def)
  have "buffer_ok m ?w" using assms by (auto simp: buffer_ok_def in_block_def ptr_add_def)
  moreover have "ByteBuffer_slice b pos npos = Done ?w" using assms(2) by (simp add: ByteBuffer_slice_def Let_def)
  ultimately show ?thesis by (intro that [of ?w]) (use c in \<open>simp_all add: bytes_of_def drop_map ptr_add_def\<close>)
qed

lemma rest_from_start: "buffer_ok m b \<Longrightarrow> bytes_of m b = bs \<Longrightarrow> rest_is m b 0 bs"
  by (simp add: rest_is_def)

text \<open>A message that does not start with the filter descriptor has no filter head.\<close>

lemma no_filter_head:
  assumes "buffer_ok m b" "bytes_of m b = x # xs" "x \<noteq> ucast Descriptor_FilteredPayload"
  shows "decode_filter_head m b = Done ([], 0, 0)"
proof -
  have "rest_is m b 0 ([x] @ xs)" using assms by (simp add: rest_is_def)
  from rest_load [OF this, of 1] have "load m (getPtr b) 1 = Some [x]" by (simp add: ptr_add_def)
  with assms(3) show ?thesis by (simp add: decode_filter_head_def)
qed

lemma start_byte: "enc_rcf_int Descriptor_Request = [1]" "enc_rcf_int Descriptor_Response = [2]" "enc_rcf_int Descriptor_Error = [0]"
  "enc_rcf_int Descriptor_FilteredPayload = [3]" "ucast Descriptor_FilteredPayload = (3 :: byte)"
  by (simp_all add: enc_rcf_int_def Descriptor_Request_def Descriptor_Response_def Descriptor_Error_def Descriptor_FilteredPayload_def)

lemma unfiltered_server:
  assumes "buffer_ok m b" "bytes_of m b = x # xs" "x \<noteq> 3"
  shows "decodeFromMessage_server srv b self session m = Done (b, self\<lparr>mMarshalingProtocol := Mp_Rcf\<rparr>, session\<lparr>mFiltered := False\<rparr>, m)"
proof -
  obtain w where "ByteBuffer_slice b 0 npos = Done w" "w = b" using slice_rest [OF assms(1), of 0] by auto
  with no_filter_head [OF assms(1,2)] assms(3) show ?thesis by (simp add: decodeFromMessage_server_def start_byte)
qed

lemma unfiltered_client:
  assumes "buffer_ok m b" "bytes_of m b = x # xs" "x \<noteq> 3"
  shows "decodeFromMessage_client b [] self m = Done (b, self\<lparr>mMarshalingProtocol := Mp_Rcf\<rparr>, [], m)"
proof -
  obtain w where "ByteBuffer_slice b 0 npos = Done w" "w = b" using slice_rest [OF assms(1), of 0] by auto
  with no_filter_head [OF assms(1,2)] assms(3) show ?thesis by (simp add: decodeFromMessage_client_def start_byte filter_ids_equal_def)
qed

lemma rcf_int_next:
  assumes "rest_is m b pos (enc_rcf_int x @ bs)"
  shows "\<exists>p. decodeInt m b pos = Done (x, p) \<and> rest_is m b p bs"
  using decodeInt_reads [OF assms] rest_drop [OF assms] by blast

lemma rcf_bool_next:
  assumes "rest_is m b pos (enc_rcf_bool x @ bs)"
  shows "\<exists>p. decodeBool m b pos = Done (x, p) \<and> rest_is m b p bs"
  using decodeBool_reads [OF assms] rest_drop [OF assms] by blast

definition with_interface :: "invocation_request \<Rightarrow> invocation_request" where
  "with_interface self = (if mSubInterface self = [] then self\<lparr>mSubInterface := mService self\<rparr> else self)"

definition fresh_request :: "invocation_request \<Rightarrow> invocation_request" where
  "fresh_request self = self\<lparr>mMarshalingProtocol := Mp_Rcf, mRuntimeVersion := 1, mEnableSfPointerTracking := True\<rparr>"

lemma request_version_small: "\<not> 6 < sint (request_version v)"
  by (simp add: request_version_def Let_def)

lemma decodeRequest_reads:
  assumes "length (mService r) < 2 ^ 31" "length (mSubInterface r) < 2 ^ 31" "length ud < 2 ^ 31"
    and "buffer_ok m b" "bytes_of m b = enc_request_head r ud @ body" "ready b (self, m)"
  obtains self1 m' where "learns (request_version (mRuntimeVersion r)) r ud (fresh_request self, m) (self1, m')" "buffer_ok m' b"
    "if mRuntimeVersion self1 \<le> srv_mRuntimeVersion srv \<and> (srv_mArchiveVersion srv = 0 \<or> mArchiveVersion self1 \<le> srv_mArchiveVersion srv)
     then \<exists>body'. decodeRequest srv b self session m = Done (Some body', with_interface self1,
         session\<lparr>mFiltered := False, ses_mRuntimeVersion := mRuntimeVersion self1, ses_mArchiveVersion := mArchiveVersion self1,
           ses_mUseNativeWstringSerialization := mUseNativeWstringSerialization self1\<rparr>, m') \<and> buffer_ok m' body' \<and> bytes_of m' body' = body
     else \<exists>session'. decodeRequest srv b self session m = Done (None, with_interface self1, session', m')"
proof -
  define ver where "ver = request_version (mRuntimeVersion r)"
  have ver: "ver \<in> {0, 1, 2, 3, 4, 5, 6}" "\<not> 6 < sint ver" using request_version_cases request_version_small by (simp_all add: ver_def)
  have bytes: "bytes_of m b = 1 # enc_rcf_int ver @ enc_request r ver ud @ body"
    using assms(5) by (simp add: enc_request_head_def start_byte ver_def [symmetric] Let_def)
  note un = unfiltered_server [OF assms(4) bytes, of srv self session, simplified]
  have r0: "rest_is m b 0 (enc_rcf_int Descriptor_Request @ enc_rcf_int ver @ enc_request r ver ud @ body)"
    using assms(4) bytes by (intro rest_from_start) (simp_all add: start_byte)
  obtain p1 where d0: "decodeInt m b 0 = Done (Descriptor_Request, p1)" "rest_is m b p1 (enc_rcf_int ver @ enc_request r ver ud @ body)"
    using rcf_int_next [OF r0] by blast
  obtain p2 where d1: "decodeInt m b p1 = Done (ver, p2)" "rest_is m b p2 (enc_request r ver ud @ body)"
    using rcf_int_next [OF d0(2)] by blast
  have "ready b (fresh_request self, m)" using assms(6) by (simp add: ready_def fresh_request_def)
  with request_fields_read [OF assms(1,2,3) ver(1), of b] d1(2) obtain self1 m' p3 where
    f: "run_all (request_fields b ver) (fresh_request self, m, p2) = Done (self1, m', p3)"
      "learns ver r ud (fresh_request self, m) (self1, m')" "rest_is m' b p3 body"
    unfolding reads_as_def by meson
  have ok: "buffer_ok m' b" "p3 \<le> mPvlen b" "drop p3 (bytes_of m' b) = body" using f(3) by (simp_all add: rest_is_def)
  obtain w where w: "ByteBuffer_slice b p3 npos = Done w" "buffer_ok m' w" "bytes_of m' w = body"
    using slice_rest [OF ok(1,2)] ok(3) by metis
  have fr: "self\<lparr>mMarshalingProtocol := Mp_Rcf, mRuntimeVersion := 1, mEnableSfPointerTracking := True\<rparr> = fresh_request self"
    by (simp add: fresh_request_def)
  have wi: "(if mSubInterface self1 = [] then self1\<lparr>mSubInterface := mService self1\<rparr> else self1) = with_interface self1"
    by (simp add: with_interface_def)
  have same: "mRuntimeVersion (with_interface self1) = mRuntimeVersion self1" "mArchiveVersion (with_interface self1) = mArchiveVersion self1"
    "mUseNativeWstringSerialization (with_interface self1) = mUseNativeWstringSerialization self1"
    by (simp_all add: with_interface_def)
  show ?thesis
  proof (rule that [OF f(2) [unfolded ver_def] ok(1)])
    show "if mRuntimeVersion self1 \<le> srv_mRuntimeVersion srv \<and> (srv_mArchiveVersion srv = 0 \<or> mArchiveVersion self1 \<le> srv_mArchiveVersion srv)
      then \<exists>body'. decodeRequest srv b self session m = Done (Some body', with_interface self1,
         session\<lparr>mFiltered := False, ses_mRuntimeVersion := mRuntimeVersion self1, ses_mArchiveVersion := mArchiveVersion self1,
           ses_mUseNativeWstringSerialization := mUseNativeWstringSerialization self1\<rparr>, m') \<and> buffer_ok m' body' \<and> bytes_of m' body' = body
      else \<exists>session'. decodeRequest srv b self session m = Done (None, with_interface self1, session', m')"
      using w ver(2) by (auto simp: decodeRequest_def un d0(1) d1(1) f(1) fr wi same Let_def not_less not_le [symmetric])
  qed
qed

end
