(* ===== verification/Rcf_Calls.thy ===== *)
theory Rcf_Calls
  imports Rcf_Invocation
begin

text \<open>
  What the messages of remote calls guarantee: requests, responses and error replies come across,
  and no bytes make a receiver read outside of its buffer. What filters need of the head in front of
  a filtered message is here as well.
\<close>

section \<open>Responses\<close>

lemma decodeResponse_reads:
  assumes "length ud < 2 ^ 31" "buffer_ok m b" "bytes_of m b = enc_response_head runtime isExc tracking ud @ body"
    and "buffer_ok m (mResponseUserData self)" "set (buffer_cells b) \<inter> set (buffer_cells (mResponseUserData self)) = {}"
  obtains body' self' m' where "decodeResponse b [] response self m =
      Done (body', \<lparr>mException = isExc, mError = False, mErrorCode = 0, mArg0 = 0, mArg1 = 0,
        rsp_mEnableSfPointerTracking = (if response_version runtime = 2 then tracking else True)\<rparr>, self', [], m')"
    "buffer_ok m' body'" "bytes_of m' body' = body"
    "response_version runtime \<noteq> 0 \<longrightarrow> bytes_of m' (mResponseUserData self') = ud"
proof -
  define ver where "ver = response_version runtime"
  have ver: "ver \<in> {0, 1, 2}" using response_version_cases by (simp add: ver_def)
  then have small: "sint ver \<le> 2" by auto
  have ne: "Descriptor_Response \<noteq> Descriptor_Error" by (simp add: Descriptor_Response_def Descriptor_Error_def)
  let ?tail = "(if 1 \<le> unat ver then enc_rcf_string ud else []) @ (if 2 \<le> unat ver then enc_rcf_bool tracking else []) @ body"
  have bytes: "bytes_of m b = 2 # enc_rcf_int ver @ enc_rcf_bool isExc @ ?tail"
    using assms(3) by (simp add: enc_response_head_def start_byte ver_def [symmetric] Let_def)
  note un = unfiltered_client [OF assms(2) bytes, of self, simplified]
  have r0: "rest_is m b 0 (enc_rcf_int Descriptor_Response @ enc_rcf_int ver @ enc_rcf_bool isExc @ ?tail)"
    using assms(2) bytes by (intro rest_from_start) (simp_all add: start_byte)
  obtain p1 where d1: "decodeInt m b 0 = Done (Descriptor_Response, p1)" "rest_is m b p1 (enc_rcf_int ver @ enc_rcf_bool isExc @ ?tail)"
    using rcf_int_next [OF r0] by blast
  obtain p2 where d2: "decodeInt m b p1 = Done (ver, p2)" "rest_is m b p2 (enc_rcf_bool isExc @ ?tail)"
    using rcf_int_next [OF d1(2)] by blast
  obtain p3 where d3: "decodeBool m b p2 = Done (isExc, p3)" "rest_is m b p3 ?tail"
    using rcf_bool_next [OF d2(2)] by blast
  let ?self = "self\<lparr>mMarshalingProtocol := Mp_Rcf\<rparr>"
  let ?r = "\<lparr>mException = isExc, mError = False, mErrorCode = 0, mArg0 = 0, mArg1 = 0,
    rsp_mEnableSfPointerTracking = (if ver = 2 then tracking else True)\<rparr>"
  have "\<exists>self' m' p. decode_result b Descriptor_Response ver response (?self, m, p2) = Done (?r, self', m', p) \<and>
      rest_is m' b p body \<and> (ver \<noteq> 0 \<longrightarrow> bytes_of m' (mResponseUserData self') = ud)"
  proof (cases "ver = 0")
    case True
    with d3 show ?thesis by (auto simp: decode_result_def)
  next
    case False
    with ver have v: "1 \<le> unat ver" "ver = 1 \<or> ver = 2" by auto
    let ?last = "(if 2 \<le> unat ver then enc_rcf_bool tracking else []) @ body"
    have r3: "rest_is m b p3 (enc_rcf_string ud @ ?last)" using d3(2) v(1) by simp
    obtain x m' p4 where x: "decodeByteBuffer (mResponseUserData self) b (m, p3) = Done (x, m', p4)"
      "bytes_of m' x = ud" "rest_is m' b p4 ?last"
      using decodeByteBuffer_reads [OF assms(1) r3 assms(4,5)] by metis
    show ?thesis
    proof (cases "ver = 1")
      case True
      with d3(1) x show ?thesis by (auto simp: decode_result_def)
    next
      case False
      with v have v2: "ver = 2" by simp
      obtain p5 where "decodeBool m' b p4 = Done (tracking, p5)" "rest_is m' b p5 body"
        using rcf_bool_next [of m' b p4 tracking body] x(3) v2 by auto
      with d3(1) x v2 show ?thesis by (auto simp: decode_result_def)
    qed
  qed
  then obtain self' m' p where e: "decode_result b Descriptor_Response ver response (?self, m, p2) = Done (?r, self', m', p)"
    "rest_is m' b p body" "ver \<noteq> 0 \<longrightarrow> bytes_of m' (mResponseUserData self') = ud" by blast
  obtain w where w: "ByteBuffer_slice b p npos = Done w" "buffer_ok m' w" "bytes_of m' w = body"
    using slice_rest [of m' b p] e(2) unfolding rest_is_def by metis
  have "decodeResponse b [] response self m = Done (w, ?r, self', [], m')"
    using un d1(1) d2(1) e(1) w(1) ne by (simp add: decodeResponse_def)
  then show ?thesis by (rule that [unfolded ver_def [symmetric]]) (use w e(3) in simp_all)
qed

section \<open>Error replies\<close>

text \<open>The last writer of a sequence that fits decides the buffer.\<close>

lemma run_all_in_writes: "list_all2 (buf_writes b) fs bss \<Longrightarrow> buf_writes b (run_all fs) (concat bss)"
proof (induction rule: list_all2_induct)
  case Nil
  show ?case by (auto simp: buf_writes_def poke_def)
next
  case (Cons f fs bs bss)
  have "run_all (f # fs) = (\<lambda>s. framed_bind (f s) (run_all fs))" by (rule ext) simp
  then show ?case using buf_writes_then [OF Cons(1) Cons(3)] by simp
qed

definition enc_error :: "int32 \<Rightarrow> int32 list \<Rightarrow> bytes" where
  "enc_error ver xs = enc_rcf_int Descriptor_Error @ enc_rcf_int ver @ concat (map enc_rcf_int xs)"

text \<open>
  A reply is written behind a margin of four bytes into a buffer that is made large enough; it fails
  an assertion when the integers need more than that.
\<close>

definition reply_space :: "nat \<Rightarrow> byte_buffer \<Rightarrow> nat" where
  "reply_space n b = max (if getLength b + getLeftMargin b < n then n else getLength b + getLeftMargin b) 4 - 4"

definition window_ok :: "memory \<Rightarrow> byte_buffer \<Rightarrow> bool" where
  "window_ok m b \<longleftrightarrow> in_block m (ptr_add (mPv b) (- int (mLeftMargin b))) (mLeftMargin b + mPvlen b)"

lemma reply_buffer:
  assumes "window_ok m b" "4 < n"
  obtains b0 m0 b1 where "(if getLength b + getLeftMargin b < n then ByteBuffer_sized n m else (b, m)) = (b0, m0)"
    "setLeftMargin 4 b0 = Done b1" "buffer_ok m0 b1" "mPvlen b1 = reply_space n b" "extends m m0"
proof (cases "getLength b + getLeftMargin b < n")
  case True
  obtain b0 m0 where s: "ByteBuffer_sized n m = (b0, m0)" by (cases "ByteBuffer_sized n m") auto
  then have f: "m0 = m @ [replicate n 0]" "mPv b0 = (length m, 0)" "mPvlen b0 = n" "mLeftMargin b0 = 0"
    using assms(2) by (auto simp: ByteBuffer_sized_def new_vector_def vector_front_def)
  let ?b1 = "b0\<lparr>mPv := ptr_add (mPv b0) 4, mPvlen := n - 4, mLeftMargin := 4\<rparr>"
  have "setLeftMargin 4 b0 = Done ?b1" using assms(2) f by (simp add: setLeftMargin_def)
  moreover have "buffer_ok m0 ?b1" using assms(2) f by (simp add: buffer_ok_def in_block_def ptr_add_def)
  moreover have "n - 4 = reply_space n b" using True assms(2) by (simp add: reply_space_def)
  ultimately show ?thesis using that [of b0 m0 ?b1] True s f(1) by simp
next
  case False
  let ?l = "mPvlen b + mLeftMargin b - 4"
  let ?b1 = "b\<lparr>mPv := ptr_add (mPv b) (int 4 - int (mLeftMargin b)), mPvlen := ?l, mLeftMargin := 4\<rparr>"
  have l: "4 < mLeftMargin b + mPvlen b" using False assms(2) by (simp add: getLength_def getLeftMargin_def)
  then have "setLeftMargin 4 b = Done ?b1" by (simp add: setLeftMargin_def)
  moreover have "buffer_ok m ?b1" using assms(1) l
    by (auto simp: window_ok_def buffer_ok_def in_block_def ptr_add_def nat_add_distrib)
  moreover have "?l = reply_space n b" using False l by (simp add: reply_space_def getLength_def getLeftMargin_def)
  ultimately show ?thesis using that [of b m ?b1] False by simp
qed

lemma error_args_writes:
  fixes error arg0 arg1 :: int32
  shows "buf_writes b (run_all ([encodeInt_in Descriptor_Error b, encodeInt_in ver b, encodeInt_in error b, encodeInt_in arg0 b] @
    (if ver = 1 then [encodeInt_in arg1 b] else []))) (enc_error ver ([error, arg0] @ (if ver = 1 then [arg1] else [])))"
  using run_all_in_writes [of b "[encodeInt_in Descriptor_Error b, encodeInt_in ver b, encodeInt_in error b, encodeInt_in arg0 b] @
      (if ver = 1 then [encodeInt_in arg1 b] else [])"
      "[enc_rcf_int Descriptor_Error, enc_rcf_int ver, enc_rcf_int error, enc_rcf_int arg0] @ (if ver = 1 then [enc_rcf_int arg1] else [])"]
  by (auto simp: enc_error_def encodeInt_in_writes simp del: run_all.simps)

lemma encodeServerError_args_writes:
  fixes srv error arg0 arg1
  defines "ver \<equiv> if srv_mRuntimeVersion srv \<ge> 8 then 1 else 0 :: int32"
  defines "bs \<equiv> enc_error ver ([error, arg0] @ (if ver = 1 then [arg1] else []))"
  assumes "window_ok m b"
  shows "if length bs \<le> reply_space 14 b
    then \<exists>b' m'. encodeServerError_args srv error arg0 arg1 b m = Done (b', m') \<and> buffer_ok m' b' \<and> mLeftMargin b' = 4 \<and>
      take (length bs) (bytes_of m' b') = bs
    else encodeServerError_args srv error arg0 arg1 b m = Aborted"
proof -
  obtain b0 m0 b1 where r: "(if getLength b + getLeftMargin b < 14 then ByteBuffer_sized 14 m else (b, m)) = (b0, m0)"
    "setLeftMargin 4 b0 = Done b1" "buffer_ok m0 b1" "mPvlen b1 = reply_space 14 b" "extends m m0"
    using reply_buffer [OF assms(3), of 14] by auto
  have margin: "mLeftMargin b1 = 4" using margin_window(1) [OF r(2)] by (simp add: getLeftMargin_def)
  note w = error_args_writes [of b1 ver error arg0 arg1, folded bs_def, unfolded buf_writes_def, rule_format, OF r(3) le0, simplified]
  show ?thesis
  proof (cases "length bs \<le> reply_space 14 b")
    case True
    then obtain m' where m': "run_all ([encodeInt_in Descriptor_Error b1, encodeInt_in ver b1, encodeInt_in error b1, encodeInt_in arg0 b1] @
        (if ver = 1 then [encodeInt_in arg1 b1] else [])) (m0, 0) = Done (m', length bs)"
      "only_changes m0 m' (set (buffer_cells b1))" "bytes_of m' b1 = poke 0 bs (bytes_of m0 b1)"
      using w r(4) by (auto simp del: run_all.simps)
    have "encodeServerError_args srv error arg0 arg1 b m = Done (b1, m')"
      using r(1,2) m'(1) by (simp add: encodeServerError_args_def ver_def [symmetric] Let_def del: run_all.simps)
    moreover have "buffer_ok m' b1" using m'(2) r(3) buffer_ok_extends unfolding only_changes_def by blast
    ultimately show ?thesis using True margin m'(3) by (simp add: poke_def)
  next
    case False
    then show ?thesis
      using r(1,2,4) w by (simp add: encodeServerError_args_def ver_def [symmetric] Let_def del: run_all.simps)
  qed
qed

lemma decodeResponse_error:
  assumes "buffer_ok m b" "bytes_of m b = enc_error ver ([error, arg0] @ (if ver = 1 then [arg1] else [])) @ rest" "ver \<in> {0, 1}"
    and "error \<in> {RcfError_VersionMismatch, RcfError_PingBack}"
  obtains body self' where "decodeResponse b [] response self m = Done (body,
      response\<lparr>mException := False, mError := True, mErrorCode := error, mArg0 := arg0,
        mArg1 := (if ver = 1 then arg1 else mArg1 response)\<rparr>, self', [], m)"
    "bytes_of m body = rest"
proof -
  let ?args = "(if ver = 1 then enc_rcf_int arg1 else []) @ rest"
  have bytes: "bytes_of m b = 0 # enc_rcf_int ver @ enc_rcf_int error @ enc_rcf_int arg0 @ ?args"
    using assms(2) by (simp add: enc_error_def start_byte)
  note un = unfiltered_client [OF assms(1) bytes, of self, simplified]
  have r0: "rest_is m b 0 (enc_rcf_int Descriptor_Error @ enc_rcf_int ver @ enc_rcf_int error @ enc_rcf_int arg0 @ ?args)"
    using assms(1) bytes by (intro rest_from_start) (simp_all add: start_byte)
  obtain p1 where d1: "decodeInt m b 0 = Done (Descriptor_Error, p1)" "rest_is m b p1 (enc_rcf_int ver @ enc_rcf_int error @ enc_rcf_int arg0 @ ?args)"
    using rcf_int_next [OF r0] by blast
  obtain p2 where d2: "decodeInt m b p1 = Done (ver, p2)" "rest_is m b p2 (enc_rcf_int error @ enc_rcf_int arg0 @ ?args)"
    using rcf_int_next [OF d1(2)] by blast
  obtain p3 where d3: "decodeInt m b p2 = Done (error, p3)" "rest_is m b p3 (enc_rcf_int arg0 @ ?args)"
    using rcf_int_next [OF d2(2)] by blast
  obtain p4 where d4: "decodeInt m b p3 = Done (arg0, p4)" "rest_is m b p4 ?args"
    using rcf_int_next [OF d3(2)] by blast
  let ?r = "response\<lparr>mException := False, mError := True, mErrorCode := error, mArg0 := arg0,
    mArg1 := (if ver = 1 then arg1 else mArg1 response)\<rparr>"
  have "\<exists>p. decode_error m b ver response p2 = Done (?r, p) \<and> rest_is m b p rest"
  proof (cases "ver = 1")
    case True
    then obtain p5 where "decodeInt m b p4 = Done (arg1, p5)" "rest_is m b p5 rest" using rcf_int_next [of m b p4 arg1 rest] d4(2) by auto
    with True d3(1) d4(1) assms(4) show ?thesis by (auto simp: decode_error_def)
  next
    case False
    then have "ver = 0" using assms(3) by simp
    with d3(1) d4 assms(4) show ?thesis by (auto simp: decode_error_def)
  qed
  then obtain p where e: "decode_error m b ver response p2 = Done (?r, p)" "rest_is m b p rest" by blast
  obtain w where w: "ByteBuffer_slice b p npos = Done w" "bytes_of m w = rest"
    using slice_rest [of m b p] e(2) unfolding rest_is_def by metis
  show ?thesis
    by (rule that [of w]) (use un d1(1) d2(1) e(1) w in \<open>simp_all add: decodeResponse_def\<close>)
qed

section \<open>Filtered messages\<close>

definition filter_id :: "filter_obj \<Rightarrow> int32" where
  "filter_id f = getId (getFilterDescription f)"

definition enc_filter_head :: "filter_obj list \<Rightarrow> nat \<Rightarrow> bytes" where
  "enc_filter_head fs n =
     enc_rcf_int Descriptor_FilteredPayload @ enc_rcf_int 0 @ enc_rcf_int (of_nat (length fs)) @
     concat (map (\<lambda>f. enc_rcf_int (filter_id f)) fs) @ enc_rcf_int 0 @ enc_rcf_int (of_nat n)"

lemma length_enc_rcf_int: "length (enc_rcf_int v) \<le> 5"
  by (simp add: enc_rcf_int_def)

lemma filter_id_byte: "length (enc_rcf_int (filter_id f)) = 1"
  by (cases "f_kind f") (simp_all add: filter_id_def getFilterDescription_def getId_def IdentityFilter_spFilterDescription_def
    XorFilter_spFilterDescription_def RcfFilter_Identity_def RcfFilter_Xor_def enc_rcf_int_def)

lemma enc_rcf_int_zero [simp]: "enc_rcf_int 0 = [0]"
  by (simp add: enc_rcf_int_def)

text \<open>The head of at most ten filters fits into the array on the stack, and nearly into its margin.\<close>

lemma filter_head_length:
  assumes "length fs \<le> 10"
  shows "length (enc_filter_head fs n) \<le> 23" "enc_filter_head fs n \<noteq> []" "hd (enc_filter_head fs n) = 3"
proof -
  have "length (concat (map (\<lambda>f. enc_rcf_int (filter_id f)) fs)) = length fs"
    by (induction fs) (simp_all add: filter_id_byte)
  with assms length_enc_rcf_int [of "of_nat (length fs)"] length_enc_rcf_int [of "of_nat n"]
  show "length (enc_filter_head fs n) \<le> 23" by (simp add: enc_filter_head_def start_byte)
qed (simp_all add: enc_filter_head_def start_byte)

lemma filter_head_writes:
  assumes "length fs \<le> 10"
  shows "buf_writes b (filter_head fs n b) (enc_filter_head fs n)"
proof -
  have 1: "buf_writes b (run_all [encodeInt_in Descriptor_FilteredPayload b, encodeInt_in 0 b]) (enc_rcf_int Descriptor_FilteredPayload @ enc_rcf_int 0)"
    using run_all_in_writes [of b "[encodeInt_in Descriptor_FilteredPayload b, encodeInt_in 0 b]" "[enc_rcf_int Descriptor_FilteredPayload, enc_rcf_int 0]"]
    by (simp add: encodeInt_in_writes del: run_all.simps enc_rcf_int_zero)
  let ?fs = "[encodeInt_in (of_nat (length fs)) b] @ map (\<lambda>f. encodeInt_in (getId (getFilterDescription f)) b) fs @
    [encodeInt_in 0 b, encodeInt_in (of_nat n) b]"
  have "list_all2 (buf_writes b) ?fs ([enc_rcf_int (of_nat (length fs))] @ map (\<lambda>f. enc_rcf_int (filter_id f)) fs @ [enc_rcf_int 0, enc_rcf_int (of_nat n)])"
    by (intro list_all2_appendI) (simp_all add: encodeInt_in_writes list_all2_map1 list_all2_map2 list.rel_refl_strong filter_id_def del: enc_rcf_int_zero)
  note 2 = run_all_in_writes [OF this]
  have "filter_head fs n b = (\<lambda>s. framed_bind (run_all [encodeInt_in Descriptor_FilteredPayload b, encodeInt_in 0 b] s) (run_all ?fs))"
    using assms by (intro ext) (simp add: filter_head_def del: run_all.simps)
  with buf_writes_then [OF 1 2] show ?thesis by (simp add: enc_filter_head_def del: run_all.simps enc_rcf_int_zero)
qed

lemma decode_ids_reads:
  assumes "rest_is m b pos (concat (map enc_rcf_int ids) @ bs)"
  shows "\<exists>p. decode_ids (length ids) m b acc pos = Done (acc @ ids, p) \<and> rest_is m b p bs"
  using assms
proof (induction ids arbitrary: acc pos)
  case (Cons i ids)
  then have "rest_is m b pos (enc_rcf_int i @ concat (map enc_rcf_int ids) @ bs)" by simp
  from rcf_int_next [OF this] obtain p where p: "decodeInt m b pos = Done (i, p)" "rest_is m b p (concat (map enc_rcf_int ids) @ bs)" by blast
  with Cons.IH [OF p(2), of "acc @ [i]"] show ?case by simp
qed simp

lemma decode_filter_head_reads:
  assumes "buffer_ok m b" "bytes_of m b = enc_filter_head fs n @ data" "0 < length fs" "length fs \<le> 10" "n < 2 ^ 31"
  obtains p where "decode_filter_head m b = Done (map filter_id fs, n, p)" "rest_is m b p data"
proof -
  have nn: "sint (of_nat n :: int32) = int n"
    using assms(5) by (simp add: sint_uint uint_word_of_int_eq signed_take_bit_int_eq_self unsigned_of_nat take_bit_nat_eq_self)
  have kk: "sint (of_nat (length fs) :: int32) = int (length fs)"
    using assms(4) by (simp add: sint_uint uint_word_of_int_eq signed_take_bit_int_eq_self unsigned_of_nat take_bit_nat_eq_self)
  let ?ids = "concat (map enc_rcf_int (map filter_id fs))"
  have eq: "enc_filter_head fs n @ data = enc_rcf_int Descriptor_FilteredPayload @ enc_rcf_int 0 @ enc_rcf_int (of_nat (length fs)) @
      ?ids @ enc_rcf_int 0 @ enc_rcf_int (of_nat n) @ data" by (simp add: enc_filter_head_def comp_def)
  have r0: "rest_is m b 0 (enc_rcf_int Descriptor_FilteredPayload @ enc_rcf_int 0 @ enc_rcf_int (of_nat (length fs)) @
      ?ids @ enc_rcf_int 0 @ enc_rcf_int (of_nat n) @ data)"
    using assms(1,2) by (intro rest_from_start) (simp_all only: eq)
  have "rest_is m b 0 ([3] @ tl (bytes_of m b))" using assms(1,2) filter_head_length(2,3) [OF assms(4), of n]
    by (cases "enc_filter_head fs n") (simp_all add: rest_is_def)
  from rest_load [OF this, of 1] have l: "load m (getPtr b) 1 = Some [3]" by (simp add: ptr_add_def)
  obtain p1 where d1: "decodeInt m b 0 = Done (Descriptor_FilteredPayload, p1)"
    "rest_is m b p1 (enc_rcf_int 0 @ enc_rcf_int (of_nat (length fs)) @ ?ids @ enc_rcf_int 0 @ enc_rcf_int (of_nat n) @ data)"
    using rcf_int_next [OF r0] by blast
  obtain p2 where d2: "decodeInt m b p1 = Done (0, p2)" "rest_is m b p2 (enc_rcf_int (of_nat (length fs)) @ ?ids @ enc_rcf_int 0 @ enc_rcf_int (of_nat n) @ data)"
    using rcf_int_next [OF d1(2)] by blast
  obtain p3 where d3: "decodeInt m b p2 = Done (of_nat (length fs), p3)" "rest_is m b p3 (?ids @ enc_rcf_int 0 @ enc_rcf_int (of_nat n) @ data)"
    using rcf_int_next [OF d2(2)] by blast
  obtain p4 where d4: "decode_ids (length fs) m b [] p3 = Done (map filter_id fs, p4)" "rest_is m b p4 (enc_rcf_int 0 @ enc_rcf_int (of_nat n) @ data)"
    using decode_ids_reads [OF d3(2), of "[]"] by auto
  obtain p5 where d5: "decodeInt m b p4 = Done (0, p5)" "rest_is m b p5 (enc_rcf_int (of_nat n) @ data)"
    using rcf_int_next [OF d4(2)] by blast
  obtain p6 where d6: "decodeInt m b p5 = Done (of_nat n, p6)" "rest_is m b p6 data"
    using rcf_int_next [OF d5(2)] by blast
  show ?thesis
    by (rule that [OF _ d6(2)])
      (use l d1(1) d2(1) d3(1) d4(1) d5(1) d6(1) nn kk assms(3,4) in \<open>simp add: decode_filter_head_def start_byte\<close>)
qed

section \<open>What comes across\<close>

text \<open>
  The receiver's view of a request: what every version of the head carries, and what the head
  carries from some runtime version of the sender on.
\<close>

definition carried :: "invocation_request \<Rightarrow> bytes \<Rightarrow> invocation_request \<Rightarrow> memory \<Rightarrow> bool" where
  "carried r userData self m \<longleftrightarrow>
     mService self = mService r \<and> mToken self = mToken r \<and> mFnId self = mFnId r \<and>
     mSubInterface self = (if mSubInterface r = [] then mService r else mSubInterface r) \<and>
     mSerializationProtocol self = mSerializationProtocol r \<and> mOneway self = mOneway r \<and> mClose self = mClose r \<and>
     mRuntimeVersion self = (if 2 \<le> sint (mRuntimeVersion r) then mRuntimeVersion r else 1) \<and>
     (2 \<le> sint (mRuntimeVersion r) \<longrightarrow> mPingBackIntervalMs self = (if 5 \<le> sint (mRuntimeVersion r) then mPingBackIntervalMs r else 0)) \<and>
     (6 \<le> sint (mRuntimeVersion r) \<longrightarrow> mArchiveVersion self = mArchiveVersion r) \<and>
     (7 \<le> sint (mRuntimeVersion r) \<longrightarrow> bytes_of m (mRequestUserData self) = userData) \<and>
     (8 \<le> sint (mRuntimeVersion r) \<longrightarrow> mUseNativeWstringSerialization self = mUseNativeWstringSerialization r) \<and>
     mEnableSfPointerTracking self = (if 10 \<le> sint (mRuntimeVersion r) then mEnableSfPointerTracking r else True)"

lemma version_from:
  "1 \<le> unat (request_version v) \<longleftrightarrow> 2 \<le> sint v" "2 \<le> unat (request_version v) \<longleftrightarrow> 5 \<le> sint v"
  "3 \<le> unat (request_version v) \<longleftrightarrow> 6 \<le> sint v" "4 \<le> unat (request_version v) \<longleftrightarrow> 7 \<le> sint v"
  "5 \<le> unat (request_version v) \<longleftrightarrow> 8 \<le> sint v" "6 \<le> unat (request_version v) \<longleftrightarrow> 10 \<le> sint v"
  "request_version v = 1 \<longleftrightarrow> 2 \<le> sint v \<and> sint v < 5"
  by (auto simp: request_version_def Let_def)

lemmas versions = version_from version_from(1) [unfolded One_nat_def]

lemma learned_carried:
  assumes "learns (request_version (mRuntimeVersion r)) r ud (fresh_request self, m) (self1, m')"
  shows "carried r ud (with_interface self1) m'"
proof (cases "7 \<le> sint (mRuntimeVersion r)")
  case True
  with assms have l: "self1 = (understood (request_version (mRuntimeVersion r)) r (fresh_request self))\<lparr>mRequestUserData := mRequestUserData self1\<rparr>"
    "bytes_of m' (mRequestUserData self1) = ud" by (simp_all add: learns_def version_from)
  have "carried r ud (with_interface ((understood (request_version (mRuntimeVersion r)) r (fresh_request self))\<lparr>mRequestUserData := x\<rparr>)) m'"
    if "bytes_of m' x = ud" for x
    using that True by (auto simp: carried_def with_interface_def understood_def versions fresh_request_def)
  from this [OF l(2)] l(1) show ?thesis by simp
next
  case False
  with assms have "self1 = understood (request_version (mRuntimeVersion r)) r (fresh_request self)"
    by (simp add: learns_def version_from)
  then show ?thesis using False by (auto simp: carried_def with_interface_def understood_def versions fresh_request_def)
qed

text \<open>The server takes a request if it is not older than the sender.\<close>

definition accepts :: "rcf_server \<Rightarrow> invocation_request \<Rightarrow> bool" where
  "accepts srv self \<longleftrightarrow> mRuntimeVersion self \<le> srv_mRuntimeVersion srv \<and>
     (srv_mArchiveVersion srv = 0 \<or> mArchiveVersion self \<le> srv_mArchiveVersion srv)"

lemma decodeRequest_carried:
  assumes "length (mService r) < 2 ^ 31" "length (mSubInterface r) < 2 ^ 31" "length ud < 2 ^ 31"
    and "buffer_ok m b" "bytes_of m b = enc_request_head r ud @ body" "ready b (self, m)"
  shows "\<exists>body' self' session' m'. decodeRequest srv b self session m = Done (body', self', session', m') \<and>
      carried r ud self' m' \<and>
      (if accepts srv self' then \<exists>b. body' = Some b \<and> bytes_of m' b = body \<and> ses_mRuntimeVersion session' = mRuntimeVersion self' \<and>
         ses_mArchiveVersion session' = mArchiveVersion self'
       else body' = None)"
proof -
  obtain self1 m' where l: "learns (request_version (mRuntimeVersion r)) r (ud) (fresh_request self, m) (self1, m')"
    "if mRuntimeVersion self1 \<le> srv_mRuntimeVersion srv \<and> (srv_mArchiveVersion srv = 0 \<or> mArchiveVersion self1 \<le> srv_mArchiveVersion srv)
     then \<exists>body'. decodeRequest srv b self session m = Done (Some body', with_interface self1,
         session\<lparr>mFiltered := False, ses_mRuntimeVersion := mRuntimeVersion self1, ses_mArchiveVersion := mArchiveVersion self1,
           ses_mUseNativeWstringSerialization := mUseNativeWstringSerialization self1\<rparr>, m') \<and> buffer_ok m' body' \<and> bytes_of m' body' = body
     else \<exists>session'. decodeRequest srv b self session m = Done (None, with_interface self1, session', m')"
    by (rule decodeRequest_reads [OF assms, of srv session])
  have same: "mRuntimeVersion (with_interface self1) = mRuntimeVersion self1" "mArchiveVersion (with_interface self1) = mArchiveVersion self1"
    by (simp_all add: with_interface_def)
  have acc: "accepts srv (with_interface self1) \<longleftrightarrow>
      mRuntimeVersion self1 \<le> srv_mRuntimeVersion srv \<and> (srv_mArchiveVersion srv = 0 \<or> mArchiveVersion self1 \<le> srv_mArchiveVersion srv)"
    using same by (simp add: accepts_def)
  show ?thesis
  proof (cases "accepts srv (with_interface self1)")
    case True
    with l(2) acc obtain c where "bytes_of m' c = body" "decodeRequest srv b self session m = Done (Some c, with_interface self1,
         session\<lparr>mFiltered := False, ses_mRuntimeVersion := mRuntimeVersion self1, ses_mArchiveVersion := mArchiveVersion self1,
           ses_mUseNativeWstringSerialization := mUseNativeWstringSerialization self1\<rparr>, m')" by auto
    with True learned_carried [OF l(1)] same show ?thesis by simp
  next
    case False
    with l(2) acc obtain s where "decodeRequest srv b self session m = Done (None, with_interface self1, s, m')" by (auto split: if_splits)
    with False learned_carried [OF l(1)] show ?thesis by simp
  qed
qed

text \<open>
  C7: Requests come across. The head that a sender writes for its request, followed by any body,
  is decoded by the server to a request that carries the same service, interface, function,
  token and flags, and the same runtime dependent fields from the version on that sends them; the
  rest of the message is handed on as the body exactly if the server is as new as the sender.
\<close>
theorem request_comes_across:
  assumes "request_ok m r" "mVecPtr r = None \<or> unique"
  shows "\<exists>head r' m1. encodeRequestHeader unique r m = Done (head, r', m1) \<and> buffer_ok m1 head \<and>
    (\<forall>m2 msg body self session srv.
       buffer_ok m2 msg \<longrightarrow> bytes_of m2 msg = bytes_of m1 head @ body \<longrightarrow> ready msg (self, m2) \<longrightarrow>
       (\<exists>body' self' session' m'. decodeRequest srv msg self session m2 = Done (body', self', session', m') \<and>
          carried r (bytes_of m (mRequestUserData r)) self' m' \<and>
          (if accepts srv self'
           then \<exists>b. body' = Some b \<and> bytes_of m' b = body \<and> ses_mRuntimeVersion session' = mRuntimeVersion self' \<and>
             ses_mArchiveVersion session' = mArchiveVersion self'
           else body' = None)))"
proof -
  obtain head r' m1 where h: "encodeRequestHeader unique r m = Done (head, r', m1)" "buffer_ok m1 head"
    "bytes_of m1 head = enc_request_head r (bytes_of m (mRequestUserData r))"
    using encodeRequestHeader_bytes [OF assms] by metis
  have ok: "length (mService r) < 2 ^ 31" "length (mSubInterface r) < 2 ^ 31" "length (bytes_of m (mRequestUserData r)) < 2 ^ 31"
    using assms(1) by (simp_all add: request_ok_def)
  have "\<exists>body' self' session' m'. decodeRequest srv msg self session m2 = Done (body', self', session', m') \<and>
      carried r (bytes_of m (mRequestUserData r)) self' m' \<and>
      (if accepts srv self' then \<exists>b. body' = Some b \<and> bytes_of m' b = body \<and> ses_mRuntimeVersion session' = mRuntimeVersion self' \<and>
         ses_mArchiveVersion session' = mArchiveVersion self'
       else body' = None)"
    if here: "buffer_ok m2 msg" "bytes_of m2 msg = bytes_of m1 head @ body" "ready msg (self, m2)" for m2 msg body self session srv
    by (rule decodeRequest_carried [OF ok here(1) here(2) [unfolded h(3)] here(3)])
  with h(1,2) show ?thesis by blast
qed

definition sample_request :: invocation_request where
  "sample_request = MethodInvocationRequest_new\<lparr>mService := [66, 111, 97, 114, 100], mFnId := 7, mRuntimeVersion := 11, mArchiveVersion := 11\<rparr>"

definition sample_server :: rcf_server where
  "sample_server = \<lparr>srv_mRuntimeVersion = 11, srv_mArchiveVersion = 11, mFilterFactoryMap = Some [1 \<mapsto> Identity_Filter, 101 \<mapsto> Xor_Filter],
     mStubMap = [[66, 111, 97, 114, 100] \<mapsto> 0], objectFactory = None\<rparr>"

definition sample_session :: rcf_session where
  "sample_session = \<lparr>ses_mRuntimeVersion = 0, ses_mArchiveVersion = 0, ses_mUseNativeWstringSerialization = False, mFiltered = False,
     mFilters = [], defaultStubEntry = None\<rparr>"

lemma request_comes_across_witness:
  "\<exists>head r' m1 b self' session' m'. encodeRequestHeader True sample_request [[]] = Done (head, r', m1) \<and>
     decodeRequest sample_server head MethodInvocationRequest_new sample_session m1 = Done (Some b, self', session', m') \<and>
     mService self' = [66, 111, 97, 114, 100] \<and> mFnId self' = 7 \<and> ses_mRuntimeVersion session' = 11"
proof -
  have ok: "request_ok [[]] sample_request"
    by (simp add: request_ok_def sample_request_def MethodInvocationRequest_new_def ByteBuffer_new_def buffer_ok_def in_block_def)
  obtain head r' m1 where h: "encodeRequestHeader True sample_request [[]] = Done (head, r', m1)" "buffer_ok m1 head"
    "\<And>m2 msg body self session srv.
       buffer_ok m2 msg \<Longrightarrow> bytes_of m2 msg = bytes_of m1 head @ body \<Longrightarrow> ready msg (self, m2) \<Longrightarrow>
       (\<exists>body' self' session' m'. decodeRequest srv msg self session m2 = Done (body', self', session', m') \<and>
          carried sample_request (bytes_of [[]] (mRequestUserData sample_request)) self' m' \<and>
          (if accepts srv self'
           then \<exists>b. body' = Some b \<and> bytes_of m' b = body \<and> ses_mRuntimeVersion session' = mRuntimeVersion self' \<and>
             ses_mArchiveVersion session' = mArchiveVersion self'
           else body' = None))"
    using request_comes_across [OF ok disjI2 [of True]] by blast
  have "ready head (MethodInvocationRequest_new, m1)"
    by (simp add: ready_def MethodInvocationRequest_new_def ByteBuffer_new_def buffer_ok_def in_block_def buffer_cells_def cells_def)
  from h(3) [OF h(2) _ this, of "[]" sample_server sample_session] obtain body' self' session' m' where
    d: "decodeRequest sample_server head MethodInvocationRequest_new sample_session m1 = Done (body', self', session', m')"
      "carried sample_request (bytes_of [[]] (mRequestUserData sample_request)) self' m'"
      "if accepts sample_server self' then \<exists>b. body' = Some b \<and> bytes_of m' b = [] \<and> ses_mRuntimeVersion session' = mRuntimeVersion self' \<and>
         ses_mArchiveVersion session' = mArchiveVersion self' else body' = None" by auto
  have "mService self' = [66, 111, 97, 114, 100]" "mFnId self' = 7" "mRuntimeVersion self' = 11" "mArchiveVersion self' = 11"
    using d(2) by (simp_all add: carried_def sample_request_def MethodInvocationRequest_new_def)
  with d h(1) show ?thesis by (auto simp: accepts_def sample_server_def)
qed

text \<open>
  C21: Responses come across. What a server writes for a call is decoded by the client, which has no
  filters, to the same exception flag, the same user data and tracking flag from the versions on
  that send them, no error, and the rest of the message as the body.
\<close>
theorem response_comes_across:
  assumes "request_ok m r" "mVecPtr r = None \<or> unique"
  shows "\<exists>head r' m1. encodeResponse unique isExc tracking r m = Done (True, head, r', m1) \<and> buffer_ok m1 head \<and>
    (\<forall>m2 msg body self response.
       buffer_ok m2 msg \<longrightarrow> bytes_of m2 msg = bytes_of m1 head @ body \<longrightarrow> buffer_ok m2 (mResponseUserData self) \<longrightarrow>
       set (buffer_cells msg) \<inter> set (buffer_cells (mResponseUserData self)) = {} \<longrightarrow>
       (\<exists>b response' self' m'. decodeResponse msg [] response self m2 = Done (b, response', self', [], m') \<and>
          bytes_of m' b = body \<and> isException response' = isExc \<and> \<not> isError response' \<and>
          getEnableSfPointerTracking response' = (if 10 \<le> sint (mRuntimeVersion r) then tracking else True) \<and>
          (7 \<le> sint (mRuntimeVersion r) \<longrightarrow> bytes_of m' (mResponseUserData self') = bytes_of m (mResponseUserData r))))"
proof -
  obtain head r' m1 where h: "encodeResponse unique isExc tracking r m = Done (True, head, r', m1)" "buffer_ok m1 head"
    "bytes_of m1 head = enc_response_head (mRuntimeVersion r) isExc tracking (bytes_of m (mResponseUserData r))"
    using encodeResponse_bytes [OF assms] by metis
  have ok: "length (bytes_of m (mResponseUserData r)) < 2 ^ 31" using assms(1) by (simp add: request_ok_def)
  have v: "response_version (mRuntimeVersion r) = 2 \<longleftrightarrow> 10 \<le> sint (mRuntimeVersion r)"
    "response_version (mRuntimeVersion r) \<noteq> 0 \<longleftrightarrow> 7 \<le> sint (mRuntimeVersion r)"
    by (auto simp: response_version_def Let_def)
  have "\<exists>b response' self' m'. decodeResponse msg [] response self m2 = Done (b, response', self', [], m') \<and>
      bytes_of m' b = body \<and> isException response' = isExc \<and> \<not> isError response' \<and>
      getEnableSfPointerTracking response' = (if 10 \<le> sint (mRuntimeVersion r) then tracking else True) \<and>
      (7 \<le> sint (mRuntimeVersion r) \<longrightarrow> bytes_of m' (mResponseUserData self') = bytes_of m (mResponseUserData r))"
    if here: "buffer_ok m2 msg" "bytes_of m2 msg = bytes_of m1 head @ body" "buffer_ok m2 (mResponseUserData self)"
      "set (buffer_cells msg) \<inter> set (buffer_cells (mResponseUserData self)) = {}" for m2 msg body self response
  proof -
    obtain b self' m' where "decodeResponse msg [] response self m2 = Done (b, \<lparr>mException = isExc, mError = False, mErrorCode = 0,
        mArg0 = 0, mArg1 = 0, rsp_mEnableSfPointerTracking = (if response_version (mRuntimeVersion r) = 2 then tracking else True)\<rparr>, self', [], m')"
      "bytes_of m' b = body" "response_version (mRuntimeVersion r) \<noteq> 0 \<longrightarrow> bytes_of m' (mResponseUserData self') = bytes_of m (mResponseUserData r)"
      by (rule decodeResponse_reads [OF ok here(1) here(2) [unfolded h(3)] here(3,4), of response])
    then show ?thesis unfolding v by (simp add: isException_def isError_def getEnableSfPointerTracking_def)
  qed
  with h(1,2) show ?thesis by blast
qed

lemma response_comes_across_witness:
  "\<exists>head r' m1 b response' self' m'. encodeResponse True True False sample_request [[]] = Done (True, head, r', m1) \<and>
     decodeResponse head [] MethodInvocationResponse_new MethodInvocationRequest_new m1 = Done (b, response', self', [], m') \<and>
     isException response' \<and> \<not> getEnableSfPointerTracking response' \<and> bytes_of m' b = []"
proof -
  have ok: "request_ok [[]] sample_request"
    by (simp add: request_ok_def sample_request_def MethodInvocationRequest_new_def ByteBuffer_new_def buffer_ok_def in_block_def)
  have ud: "buffer_ok m' (mResponseUserData MethodInvocationRequest_new)" "buffer_cells (mResponseUserData MethodInvocationRequest_new) = []" for m'
    by (simp_all add: MethodInvocationRequest_new_def ByteBuffer_new_def buffer_ok_def in_block_def buffer_cells_def cells_def)
  have v: "10 \<le> sint (mRuntimeVersion sample_request)" by (simp add: sample_request_def)
  show ?thesis using response_comes_across [OF ok disjI2 [of True], of True False] ud v
    by (metis (no_types, lifting) append_Nil2 inf_bot_right list.set(1))
qed

definition error_reply :: "rcf_server \<Rightarrow> int32 \<Rightarrow> int32 \<Rightarrow> int32 \<Rightarrow> bytes" where
  "error_reply srv error arg0 arg1 =
     (let ver = (if srv_mRuntimeVersion srv \<ge> 8 then 1 else 0) in enc_error ver ([error, arg0] @ (if ver = 1 then [arg1] else [])))"

text \<open>
  C28: A refused call is told why. A server that answers with a version mismatch or a ping back
  writes a reply of four or five integers into a buffer of its own or the one it is given: if they
  fit, the client decodes exactly the error and its arguments (the second one only from runtime
  version 8 of the server on), and if they do not fit the buffer behind its margin of four bytes,
  an assertion of the encoder fails.
\<close>
theorem error_reply_comes_across:
  fixes srv :: rcf_server and error arg0 arg1 :: int32
  assumes "window_ok m b" "error \<in> {RcfError_VersionMismatch, RcfError_PingBack}"
  shows "if length (error_reply srv error arg0 arg1) \<le> reply_space 14 b
    then \<exists>b' m' body response' self'. encodeServerError_args srv error arg0 arg1 b m = Done (b', m') \<and> getLeftMargin b' = 4 \<and>
      decodeResponse b' [] response self m' = Done (body, response', self', [], m') \<and> isError response' \<and> \<not> isException response' \<and>
      getError response' = error \<and> getArg0 response' = arg0 \<and> getArg1 response' = (if srv_mRuntimeVersion srv \<ge> 8 then arg1 else getArg1 response)
    else encodeServerError_args srv error arg0 arg1 b m = Aborted"
proof (cases "length (error_reply srv error arg0 arg1) \<le> reply_space 14 b")
  case True
  define ver where "ver = (if srv_mRuntimeVersion srv \<ge> 8 then 1 else 0 :: int32)"
  define bs where "bs = enc_error ver ([error, arg0] @ (if ver = 1 then [arg1] else []))"
  have "error_reply srv error arg0 arg1 = bs" by (simp add: error_reply_def bs_def ver_def Let_def)
  with True encodeServerError_args_writes [OF assms(1), of srv error arg0 arg1] obtain b' m' where
    e: "encodeServerError_args srv error arg0 arg1 b m = Done (b', m')" "buffer_ok m' b'" "mLeftMargin b' = 4" "take (length bs) (bytes_of m' b') = bs"
    by (auto simp: ver_def bs_def)
  have "bytes_of m' b' = enc_error ver ([error, arg0] @ (if ver = 1 then [arg1] else [])) @ drop (length bs) (bytes_of m' b')"
    unfolding bs_def [symmetric] using e(4) by (metis append_take_drop_id)
  moreover have "ver \<in> {0, 1}" by (simp add: ver_def)
  ultimately obtain body self' where "decodeResponse b' [] response self m' = Done (body,
      response\<lparr>mException := False, mError := True, mErrorCode := error, mArg0 := arg0,
        mArg1 := (if ver = 1 then arg1 else mArg1 response)\<rparr>, self', [], m')"
    by (rule decodeResponse_error [OF e(2) _ _ assms(2), of ver arg0 arg1])
  with True e show ?thesis by (simp add: getLeftMargin_def isError_def isException_def getError_def getArg0_def getArg1_def ver_def)
next
  case False
  then show ?thesis using encodeServerError_args_writes [OF assms(1), of srv error arg0 arg1] by (simp add: error_reply_def Let_def)
qed

lemma error_reply_comes_across_witness:
  "(\<exists>b' m' body response' self'.
      encodeServerError_args sample_server RcfError_VersionMismatch 11 11 ByteBuffer_new [[]] = Done (b', m') \<and>
      decodeResponse b' [] MethodInvocationResponse_new MethodInvocationRequest_new m' = Done (body, response', self', [], m') \<and>
      getError response' = 70 \<and> getArg0 response' = 11 \<and> getArg1 response' = 11) \<and>
   encodeServerError_args sample_server RcfError_VersionMismatch 1000 1000 ByteBuffer_new [[]] = Aborted"
proof -
  have w: "window_ok [[]] ByteBuffer_new" by (simp add: window_ok_def ByteBuffer_new_def in_block_def)
  have e: "RcfError_VersionMismatch \<in> {RcfError_VersionMismatch, RcfError_PingBack}" by simp
  have v: "8 \<le> srv_mRuntimeVersion sample_server" by (simp add: sample_server_def)
  have s: "reply_space 14 ByteBuffer_new = 10" by (simp add: reply_space_def ByteBuffer_new_def getLength_def getLeftMargin_def)
  have n: "length (error_reply sample_server RcfError_VersionMismatch 11 11) = 5"
    "length (error_reply sample_server RcfError_VersionMismatch 1000 1000) = 13"
    using v by (simp_all add: error_reply_def enc_error_def enc_rcf_int_def RcfError_VersionMismatch_def Descriptor_Error_def)
  show ?thesis
    using error_reply_comes_across [OF w e, of sample_server 11 11 MethodInvocationResponse_new MethodInvocationRequest_new]
      error_reply_comes_across [OF w e, of sample_server 1000 1000 MethodInvocationResponse_new MethodInvocationRequest_new] v s n
    by (simp add: RcfError_VersionMismatch_def) blast
qed

section \<open>No message makes a receiver read outside of it\<close>

text \<open>A computation that yields only good results, or throws one of these errors.\<close>

definition or_throws :: "rcf_error set \<Rightarrow> ('a \<Rightarrow> bool) \<Rightarrow> 'a framed \<Rightarrow> bool" where
  "or_throws E P r = (case r of Done x \<Rightarrow> P x | Raised e \<Rightarrow> e \<in> E | Aborted \<Rightarrow> False | Broken \<Rightarrow> False | Endless \<Rightarrow> False)"

lemma or_throws_simps [simp]:
  "or_throws E P (Done x) = P x" "or_throws E P (Raised e) \<longleftrightarrow> e \<in> E" "\<not> or_throws E P Aborted" "\<not> or_throws E P Broken"
  "\<not> or_throws E P Endless"
  by (simp_all add: or_throws_def)

lemma or_throws_bind: "or_throws E P r \<Longrightarrow> (\<And>x. P x \<Longrightarrow> or_throws E Q (f x)) \<Longrightarrow> or_throws E Q (framed_bind r f)"
  by (cases r) auto

lemma or_throws_verify: "e \<in> E \<Longrightarrow> (c \<Longrightarrow> or_throws E P r) \<Longrightarrow> or_throws E P (RCF_VERIFY c e r)"
  by (simp add: RCF_VERIFY_def)

lemma or_throws_mono: "or_throws E P r \<Longrightarrow> (\<And>x. P x \<Longrightarrow> Q x) \<Longrightarrow> E \<subseteq> F \<Longrightarrow> or_throws F Q r"
  by (cases r) auto

lemma or_throws_if: "(c \<Longrightarrow> or_throws E P r) \<Longrightarrow> (\<not> c \<Longrightarrow> or_throws E P s) \<Longrightarrow> or_throws E P (if c then r else s)"
  by simp

lemma reads_or_throws: "reads_inside b pos r \<longleftrightarrow> or_throws {Decoding} (\<lambda>(x, p). pos < p \<and> p \<le> mPvlen b) r"
  by (cases r) (auto simp: reads_inside_def)

lemma int_or_throws:
  "buffer_ok m b \<Longrightarrow> pos \<le> mPvlen b \<Longrightarrow> Decoding \<in> E \<Longrightarrow> or_throws E (\<lambda>(x, p). p \<le> mPvlen b) (decodeInt m b pos)"
  "buffer_ok m b \<Longrightarrow> pos \<le> mPvlen b \<Longrightarrow> Decoding \<in> E \<Longrightarrow> or_throws E (\<lambda>(x, p). p \<le> mPvlen b) (decodeBool m b pos)"
  using rcf_int.inside [of m b pos] rcf_bool.inside [of m b pos] by (auto simp: reads_or_throws elim!: or_throws_mono)

lemma user_data_or_throws:
  assumes "buffer_ok m b" "pos \<le> mPvlen b" "buffer_ok m ud" "Decoding \<in> E"
  shows "or_throws E (\<lambda>(x, m', p). p \<le> mPvlen b \<and> only_changes m m' (set (buffer_cells ud)) \<and> buffer_ok m' x)
    (decodeByteBuffer ud b (m, pos))"
  using decodeByteBuffer_inside [OF assms(1-3)] assms(4) by (cases "decodeByteBuffer ud b (m, pos)") auto

lemma slice_or_throws:
  assumes "buffer_ok m b" "pos \<le> mPvlen b"
  shows "or_throws E (\<lambda>w. buffer_ok m w \<and> set (buffer_cells w) \<subseteq> set (buffer_cells b)) (ByteBuffer_slice b pos npos)"
proof -
  obtain w where "ByteBuffer_slice b pos npos = Done w" "buffer_ok m w" "buffer_cells w = drop pos (buffer_cells b)"
    using slice_rest [OF assms] by metis
  then show ?thesis by (auto dest: in_set_dropD)
qed

text \<open>What a reader of a field may do: move on inside the message, or throw.\<close>

definition still_inside :: "byte_buffer \<Rightarrow> reading \<Rightarrow> bool" where
  "still_inside b r \<longleftrightarrow> (case r of (self, m, pos) \<Rightarrow> buffer_ok m b \<and> buffer_ok m (mRequestUserData self) \<and> pos \<le> mPvlen b)"

definition stays_inside :: "byte_buffer \<Rightarrow> (reading \<Rightarrow> reading framed) \<Rightarrow> bool" where
  "stays_inside b f \<longleftrightarrow> (\<forall>r. still_inside b r \<longrightarrow> or_throws {Decoding} (still_inside b) (f r))"

lemma field_inside:
  assumes "\<And>m pos. buffer_ok m b \<Longrightarrow> pos \<le> mPvlen b \<Longrightarrow> reads_inside b pos (get m b pos)"
    and "\<And>x r. mRequestUserData (upd x r) = mRequestUserData r"
    and "\<And>self m pos. f (self, m, pos) = framed_bind (get m b pos) (\<lambda>(y, pos). Done (upd y self, m, pos))"
  shows "stays_inside b f"
  unfolding stays_inside_def
proof (intro allI impI)
  fix r assume r: "still_inside b r"
  obtain self m pos where e: "r = (self, m, pos)" by (cases r)
  from r have "or_throws {Decoding} (\<lambda>(x, p). pos < p \<and> p \<le> mPvlen b) (get m b pos)"
    using assms(1) [of m pos] by (simp add: e still_inside_def reads_or_throws)
  then show "or_throws {Decoding} (still_inside b) (f r)"
    unfolding e assms(3) by (rule or_throws_bind) (use r assms(2) in \<open>auto simp: e still_inside_def\<close>)
qed

lemma user_data_inside: "stays_inside b (read_user_data b)"
  unfolding stays_inside_def
proof (intro allI impI)
  fix r assume r: "still_inside b r"
  obtain self m pos where e: "r = (self, m, pos)" by (cases r)
  have "or_throws {Decoding} (\<lambda>(x, m', p). p \<le> mPvlen b \<and> only_changes m m' (set (buffer_cells (mRequestUserData self))) \<and> buffer_ok m' x)
      (decodeByteBuffer (mRequestUserData self) b (m, pos))"
    by (rule user_data_or_throws) (use r in \<open>simp_all add: e still_inside_def\<close>)
  then show "or_throws {Decoding} (still_inside b) (read_user_data b r)"
    unfolding read_user_data_def e Let_def prod.case
    by (rule or_throws_bind) (use r in \<open>auto simp: e still_inside_def only_changes_def intro: buffer_ok_extends\<close>)
qed

lemma reset_inside: "stays_inside b (\<lambda>(self, r). Done (self\<lparr>mPingBackIntervalMs := 0\<rparr>, r))"
  by (auto simp: stays_inside_def still_inside_def)

lemma run_all_inside: "\<forall>f\<in>set fs. stays_inside b f \<Longrightarrow> stays_inside b (run_all fs)"
proof (induction fs)
  case (Cons f fs)
  then have f: "stays_inside b f" "stays_inside b (run_all fs)" by simp_all
  show ?case
    unfolding stays_inside_def run_all.simps
  proof (intro allI impI)
    fix r assume "still_inside b r"
    with f(1) have "or_throws {Decoding} (still_inside b) (f r)" unfolding stays_inside_def by blast
    then show "or_throws {Decoding} (still_inside b) (framed_bind (f r) (run_all fs))"
      by (rule or_throws_bind) (use f(2) in \<open>unfold stays_inside_def, blast\<close>)
  qed
qed (simp add: stays_inside_def)

lemma read_inside:
  "(\<And>x r. mRequestUserData (updi x r) = mRequestUserData r) \<Longrightarrow> stays_inside b (read_int b updi)"
  "(\<And>x r. mRequestUserData (updi x r) = mRequestUserData r) \<Longrightarrow> stays_inside b (read_uint b updi)"
  "(\<And>x r. mRequestUserData (updb x r) = mRequestUserData r) \<Longrightarrow> stays_inside b (read_bool b updb)"
  "(\<And>x r. mRequestUserData (upds x r) = mRequestUserData r) \<Longrightarrow> stays_inside b (read_string b upds)"
proof -
  show "stays_inside b (read_int b updi)" if "\<And>x r. mRequestUserData (updi x r) = mRequestUserData r"
    by (rule field_inside [where get = decodeInt and upd = updi]) (simp_all add: that read_int_def rcf_int.inside)
  show "stays_inside b (read_uint b updi)" if "\<And>x r. mRequestUserData (updi x r) = mRequestUserData r"
    by (rule field_inside [where get = decodeUint and upd = updi]) (simp_all add: that read_uint_def rcf_uint.inside)
  show "stays_inside b (read_bool b updb)" if "\<And>x r. mRequestUserData (updb x r) = mRequestUserData r"
    by (rule field_inside [where get = decodeBool and upd = updb]) (simp_all add: that read_bool_def rcf_bool.inside)
  show "stays_inside b (read_string b upds)" if "\<And>x r. mRequestUserData (upds x r) = mRequestUserData r"
    by (rule field_inside [where get = decodeString and upd = upds]) (simp_all add: that read_string_def rcf_string.inside)
qed

lemma request_fields_inside: "stays_inside b (run_all (request_fields b ver))"
  by (rule run_all_inside) (auto simp: request_fields_def Let_def intro!: read_inside user_data_inside reset_inside)

lemma decode_ids_inside:
  assumes "buffer_ok m b" "pos \<le> mPvlen b" "Decoding \<in> E"
  shows "or_throws E (\<lambda>(ids, p). p \<le> mPvlen b \<and> length ids = length acc + n) (decode_ids n m b acc pos)"
  using assms(2)
proof (induction n arbitrary: acc pos)
  case (Suc n)
  show ?case unfolding decode_ids.simps
  proof (rule or_throws_bind [OF int_or_throws(1) [OF assms(1) Suc.prems assms(3)]], clarify)
    fix x p assume "p \<le> mPvlen b"
    from Suc.IH [OF this, of "acc @ [x]"]
    show "or_throws E (\<lambda>(ids, p). p \<le> mPvlen b \<and> length ids = length acc + Suc n) (decode_ids n m b (acc @ [x]) p)" by simp
  qed
qed simp

lemma first_byte:
  assumes "buffer_ok m b" "0 < mPvlen b"
  obtains x where "load m (getPtr b) 1 = Some [x]"
proof -
  have "load m (getPtr b) 1 = Some (take 1 (bytes_of m b))" using load_at [OF assms(1), of 0 1] assms(2) by (simp add: getPtr_def ptr_add_def)
  moreover obtain x xs where "bytes_of m b = x # xs" using assms(2) by (metis length_bytes_of length_0_conv less_numeral_extra(3) neq_Nil_conv)
  ultimately show ?thesis using that [of x] by simp
qed

lemma decode_filter_head_inside:
  assumes "buffer_ok m b" "0 < mPvlen b" "Decoding \<in> E"
  shows "or_throws E (\<lambda>(ids, n, pos). pos \<le> mPvlen b \<and> length ids \<le> 10 \<and> n < 2 ^ 31) (decode_filter_head m b)"
proof -
  obtain x where x: "load m (getPtr b) 1 = Some [x]" by (rule first_byte [OF assms(1,2)])
  note int = int_or_throws(1) [OF assms(1) _ assms(3)]
  have small: "nat (sint v) < 2 ^ 31" for v :: int32 using sint_lt [of v] by simp
  show ?thesis
    unfolding decode_filter_head_def x or_broken.simps framed_bind.simps
    apply (rule or_throws_if)
     apply (rule or_throws_bind [OF int], simp, clarify)
     apply (rule or_throws_verify [OF assms(3)])
     apply (rule or_throws_bind [OF int], simp, clarify)
     apply (rule or_throws_verify [OF assms(3)])
     apply (rule or_throws_bind [OF int], simp, clarify)
     apply (rule or_throws_verify [OF assms(3)])
     apply (rule or_throws_bind [OF decode_ids_inside [OF assms(1) _ assms(3)]], simp, clarify)
     apply (rule or_throws_bind [OF int], simp, clarify)
     apply (rule or_throws_verify [OF assms(3)])
     apply (rule or_throws_bind [OF int], simp, clarify)
     apply (rule or_throws_verify [OF assms(3)])
    using small by auto
qed

text \<open>Filters that were not set up only make a message be rejected.\<close>

lemma unfiltered_client_inside:
  assumes "buffer_ok m b" "0 < mPvlen b"
  shows "or_throws {Decoding, PayloadFilterMismatch} (\<lambda>(w, self', fs, m'). self' = self\<lparr>mMarshalingProtocol := Mp_Rcf\<rparr> \<and> fs = [] \<and> m' = m \<and>
    buffer_ok m w \<and> set (buffer_cells w) \<subseteq> set (buffer_cells b)) (decodeFromMessage_client b [] self m)"
proof (cases "decode_filter_head m b")
  case (Done r)
  obtain ids n pos where r: "r = (ids, n, pos)" by (cases r)
  with Done decode_filter_head_inside [OF assms, of UNIV] have "pos \<le> mPvlen b" by simp
  then obtain w where w: "ByteBuffer_slice b pos npos = Done w" "buffer_ok m w" "buffer_cells w = drop pos (buffer_cells b)"
    using slice_rest [OF assms(1)] by metis
  with Done r show ?thesis by (auto simp: decodeFromMessage_client_def Let_def dest: in_set_dropD)
qed (use decode_filter_head_inside [OF assms, of "{Decoding}"] in \<open>auto simp: decodeFromMessage_client_def\<close>)

lemma unfiltered_server_inside:
  assumes "buffer_ok m b" "0 < mPvlen b" "mFilterFactoryMap srv = None" "mFilters session = []"
  shows "or_throws {Decoding, UnknownFilter} (\<lambda>(w, self', session', m'). self' = self\<lparr>mMarshalingProtocol := Mp_Rcf\<rparr> \<and> m' = m \<and>
    buffer_ok m w) (decodeFromMessage_server srv b self session m)"
proof (cases "decode_filter_head m b")
  case (Done r)
  obtain ids n pos where r: "r = (ids, n, pos)" by (cases r)
  with Done decode_filter_head_inside [OF assms(1,2), of UNIV] have "pos \<le> mPvlen b" by simp
  then obtain w where w: "ByteBuffer_slice b pos npos = Done w" "buffer_ok m w" using slice_rest [OF assms(1)] by metis
  have "None \<in> set (map (createFilter srv) ids)" if "ids \<noteq> []" using that assms(3) by (cases ids) (simp_all add: createFilter_def)
  with w Done r assms(4) show ?thesis by (auto simp: decodeFromMessage_server_def Let_def)
qed (use decode_filter_head_inside [OF assms(1,2), of "{Decoding}"] in \<open>auto simp: decodeFromMessage_server_def\<close>)

lemma decode_error_inside:
  assumes "buffer_ok m b" "pos \<le> mPvlen b" "Decoding \<in> E"
  shows "or_throws E (\<lambda>(r, p). p \<le> mPvlen b) (decode_error m b ver response pos)"
proof -
  note int = int_or_throws(1) [OF assms(1) _ assms(3)]
  show ?thesis
    unfolding decode_error_def Let_def
    apply (rule or_throws_verify [OF assms(3)], rule or_throws_bind [OF int [OF assms(2)]], clarify)
    apply (rule or_throws_if, rule or_throws_bind [OF int], assumption, clarify)
     apply (rule or_throws_if, rule or_throws_bind [OF int], assumption)
    by auto
qed

lemma decode_result_inside:
  assumes "buffer_ok m b" "pos \<le> mPvlen b" "buffer_ok m (mResponseUserData self)" "Decoding \<in> E"
  shows "or_throws E (\<lambda>(r, self', m', p). p \<le> mPvlen b \<and> only_changes m m' (set (buffer_cells (mResponseUserData self))))
    (decode_result b msgId ver response (self, m, pos))"
proof -
  let ?P = "\<lambda>(r :: invocation_response, self' :: invocation_request, m', p).
    p \<le> mPvlen b \<and> only_changes m m' (set (buffer_cells (mResponseUserData self)))"
  have bool: "or_throws E (\<lambda>(x, p). p \<le> mPvlen b) (decodeBool m' b p)" if "p \<le> mPvlen b" "extends m m'" for m' p
    using int_or_throws(2) [OF buffer_ok_extends [OF assms(1) that(2)] that(1) assms(4)] .
  have ext: "extends m m'" if "only_changes m m' A" for m' A using that by (simp add: only_changes_def)
  have ud: "or_throws E (\<lambda>(x, m', q). q \<le> mPvlen b \<and> only_changes m m' (set (buffer_cells (mResponseUserData self))) \<and> buffer_ok m' x)
      (decodeByteBuffer (mResponseUserData self) b (m, p))" if "p \<le> mPvlen b" for p
    by (rule user_data_or_throws [OF assms(1) that assms(3,4)])
  have 1: "or_throws E ?P (framed_bind (decodeByteBuffer (mResponseUserData self) b (m, p)) (\<lambda>(x, m, pos). Done (r, self\<lparr>mResponseUserData := x\<rparr>, m, pos)))"
    if "p \<le> mPvlen b" for p r by (rule or_throws_bind [OF ud [OF that]]) auto
  have 2: "or_throws E ?P (framed_bind (decodeByteBuffer (mResponseUserData self) b (m, p)) (\<lambda>(x, m, pos).
      framed_bind (decodeBool m b pos) (\<lambda>(t, pos). Done (r t, self\<lparr>mResponseUserData := x\<rparr>, m, pos))))"
    if "p \<le> mPvlen b" for p r
    by (rule or_throws_bind [OF ud [OF that]], clarify, rule or_throws_bind [OF bool]) (auto dest: ext)
  show ?thesis
    unfolding decode_result_def Let_def prod.case
    apply (rule or_throws_verify [OF assms(4)])+
    apply (rule or_throws_bind [OF bool [OF assms(2) extends_refl]], clarify)
    apply (rule or_throws_bind [where P = ?P])
     apply (intro or_throws_if)
       apply (rule 1, assumption)
      apply (rule 2, assumption)
    by auto
qed



text \<open>What \<^verbatim>\<open>decodeRequest\<close> does once the message is unfiltered.\<close>

definition request_rest ::
    "rcf_server \<Rightarrow> byte_buffer \<Rightarrow> invocation_request \<Rightarrow> rcf_session \<Rightarrow> memory \<Rightarrow>
      (byte_buffer option \<times> invocation_request \<times> rcf_session \<times> memory) framed" where
  "request_rest srv buffer self session m =
     (let self = self\<lparr>mRuntimeVersion := 1, mEnableSfPointerTracking := True\<rparr>
      in framed_bind (decodeInt m buffer 0) (\<lambda>(msgId, pos).
         RCF_VERIFY (msgId = Descriptor_Request) Decoding
         (framed_bind (decodeInt m buffer pos) (\<lambda>(messageVersion, pos).
          if sint messageVersion > 6 then Done (None, self, session, m)
          else framed_bind (run_all (request_fields buffer messageVersion) (self, m, pos)) (\<lambda>(self, m, pos).
            let self = (if mSubInterface self = [] then self\<lparr>mSubInterface := mService self\<rparr> else self)
            in if mRuntimeVersion self > srv_mRuntimeVersion srv then Done (None, self, session, m)
               else let session = session\<lparr>ses_mRuntimeVersion := mRuntimeVersion self\<rparr>;
                        serverArchiveVersion = srv_mArchiveVersion srv
                    in if serverArchiveVersion \<noteq> 0 \<and> mArchiveVersion self > serverArchiveVersion then Done (None, self, session, m)
                       else let session = session\<lparr>ses_mArchiveVersion := mArchiveVersion self,
                                    ses_mUseNativeWstringSerialization := mUseNativeWstringSerialization self\<rparr>
                            in framed_bind (ByteBuffer_slice buffer pos npos) (\<lambda>messageBody.
                                 Done (Some messageBody, self, session, m)))))))"

lemma request_rest_inside:
  assumes "buffer_ok m w" "buffer_ok m (mRequestUserData self)"
  shows "or_throws {Decoding, UnknownFilter}
    (\<lambda>(body, self', session', m'). \<forall>b. body = Some b \<longrightarrow> buffer_ok m' b \<and> accepts srv self') (request_rest srv w self session m)"
proof -
  have d: "Decoding \<in> {Decoding, UnknownFilter}" by simp
  note int = int_or_throws(1) [OF assms(1) _ d]
  have keeps: "mRuntimeVersion (if c then x\<lparr>mSubInterface := y\<rparr> else x) = mRuntimeVersion x"
    "mArchiveVersion (if c then x\<lparr>mSubInterface := y\<rparr> else x) = mArchiveVersion x" for c y and x :: invocation_request by simp_all
  let ?self = "self\<lparr>mRuntimeVersion := 1, mEnableSfPointerTracking := True\<rparr>"
  have fields: "or_throws {Decoding, UnknownFilter} (still_inside w) (run_all (request_fields w ver) (?self, m, p))" if "p \<le> mPvlen w" for ver p
  proof -
    have "still_inside w (?self, m, p)" using assms that by (simp add: still_inside_def)
    with request_fields_inside [of w ver] have "or_throws {Decoding} (still_inside w) (run_all (request_fields w ver) (?self, m, p))"
      unfolding stays_inside_def by blast
    then show ?thesis by (rule or_throws_mono) auto
  qed
  show ?thesis
    unfolding request_rest_def Let_def
    apply (rule or_throws_bind [OF int], simp, clarify)
    apply (rule or_throws_verify [OF d])
    apply (rule or_throws_bind [OF int], assumption, clarify)
    apply (rule or_throws_if, simp)
    apply (rule or_throws_bind [OF fields], assumption, clarify)
    apply (rule or_throws_if, simp)
    apply (rule or_throws_if, simp)
    apply (rule or_throws_bind [OF slice_or_throws])
    by (auto simp: still_inside_def accepts_def keeps not_less)
qed



text \<open>
  C40: The empty message is the exception: both receivers read its first byte before they look at
  its length, and an empty buffer that points to no memory has none.
\<close>
theorem empty_message_is_read:
  assumes "getLength message = 0" "getPtr message = NULL" "memory_ok m"
  shows "decodeRequest srv message self session m = Broken \<and> decodeResponse message fs response self m = Broken"
proof -
  have "load m (getPtr message) 1 = None" using assms(2,3) by (simp add: load_def in_block_def NULL_def memory_ok_def)
  then have "decode_filter_head m message = Broken" by (simp add: decode_filter_head_def)
  then show ?thesis
    by (simp_all add: decodeRequest_def decodeResponse_def decodeFromMessage_server_def decodeFromMessage_client_def)
qed

lemma empty_message_is_read_witness:
  "decodeRequest sample_server ByteBuffer_new MethodInvocationRequest_new sample_session [[]] = Broken \<and>
   decodeResponse ByteBuffer_new [] MethodInvocationResponse_new MethodInvocationRequest_new [[]] = Broken"
  by (rule empty_message_is_read) (simp_all add: ByteBuffer_new_def getLength_def getPtr_def memory_ok_def)

text \<open>
  C34: Slicing a list of buffers and taking its first buffer. For any buffers whose sizes do not
  overflow, \<^verbatim>\<open>sliceByteBuffers\<close> returns without a failed assertion buffers that hold exactly the
  bytes from the offset on, at most \<open>len\<close> of them, and \<^verbatim>\<open>sliceByteBuffer\<close> returns the first of them.
\<close>
theorem slices_are_windows:
  assumes "\<forall>b\<in>set bs. buffer_ok m b" "lengthByteBuffers bs < npos"
  shows "\<exists>sl. sliceByteBuffers bs offset len = Done sl \<and> (\<forall>b\<in>set sl. buffer_ok m b) \<and>
    bytes_all m sl = take len (drop offset (bytes_all m bs)) \<and>
    sliceByteBuffer bs offset len = Done (if sl = [] then ByteBuffer_new else hd sl)"
proof -
  obtain sl where "sliceByteBuffers bs offset len = Done sl" "\<forall>b\<in>set sl. buffer_ok m b"
    "bytes_all m sl = take len (drop offset (bytes_all m bs))" by (rule sliceByteBuffers_window [OF assms])
  with sliceByteBuffer_hd [OF this(1)] show ?thesis by blast
qed

lemma slices_are_windows_witness:
  "\<exists>sl. sliceByteBuffers [ByteBuffer_raw (1, 0) 3 True, ByteBuffer_raw (2, 1) 2 True] 2 2 = Done sl \<and>
     bytes_all [[], [10, 11, 12], [20, 21, 22]] sl = [12, 21]"
proof -
  let ?bs = "[ByteBuffer_raw (1, 0) 3 True, ByteBuffer_raw (2, 1) 2 True]" and ?m = "[[], [10, 11, 12], [20, 21, 22]] :: memory"
  have "\<forall>b\<in>set ?bs. buffer_ok ?m b" "lengthByteBuffers ?bs < npos"
    by (simp_all add: ByteBuffer_raw_def buffer_ok_def in_block_def lengthByteBuffers_sum npos_def)
  from slices_are_windows [OF this, of 2 2] show ?thesis
    by (auto simp: ByteBuffer_raw_def bytes_of_def buffer_cells_def cells_def byte_at_def ptr_add_def upt_rec)
qed

end
