(* ===== verification/Rcf_Messages.thy ===== *)
theory Rcf_Messages
  imports Rcf_Calls
begin

text \<open>
  Messages that go through filters: what the sender's chain does to a message is undone by a chain
  of the same filters on the other side, whether the client set it up or the server made it from the
  ids in the message.
\<close>

section \<open>Chains that do the same\<close>

lemma attach_connected: "connected fs \<Longrightarrow> connected (attach_proxy fs)"
  unfolding connected_def
proof (intro allI impI)
  fix i assume c: "\<forall>i<length fs. (0 < i \<longrightarrow> mpPreFilter (fs ! i) = Nth_Filter (i - 1)) \<and>
     (i < length fs - 1 \<longrightarrow> mpPostFilter (fs ! i) = Nth_Filter (i + 1))" and "i < length (attach_proxy fs)"
  then have "i < length fs" "0 < length fs" by (auto simp: attach_proxy_def Let_def)
  with c show "(0 < i \<longrightarrow> mpPreFilter (attach_proxy fs ! i) = Nth_Filter (i - 1)) \<and>
     (i < length (attach_proxy fs) - 1 \<longrightarrow> mpPostFilter (attach_proxy fs ! i) = Nth_Filter (i + 1))"
    by (auto simp: attach_proxy_def Let_def nth_list_update setPreFilter_def setPostFilter_def)
qed

lemma same_filters_connected: "same_filters fs gs \<Longrightarrow> connected fs \<Longrightarrow> connected gs"
  unfolding connected_def same_filters_def by (auto simp: list_all2_conv_all_nth same_filter_def)

lemma after_use:
  assumes "same_filters (attach_proxy fs) fs'" "connected fs"
  shows "connected fs'" "same_work fs fs'"
  using same_filters_connected [OF assms(1) attach_connected [OF assms(2)]]
    same_work_trans [OF attach_work same_filters_work [OF assms(1)]] .

lemma same_work_sym: "same_work fs gs \<Longrightarrow> same_work gs fs"
  by (simp add: same_work_def)

lemma same_work_length: "same_work fs gs \<Longrightarrow> length gs = length fs"
  unfolding same_work_def by (metis length_map)

lemma filter_id_kind: "filter_id f = (case f_kind f of Identity_Filter \<Rightarrow> RcfFilter_Identity | Xor_Filter \<Rightarrow> RcfFilter_Xor)"
  by (cases "f_kind f") (simp_all add: filter_id_def getFilterDescription_def getId_def IdentityFilter_spFilterDescription_def
    XorFilter_spFilterDescription_def)

lemma same_work_ids: "same_work fs gs \<Longrightarrow> map filter_id gs = map filter_id fs"
proof -
  assume "same_work fs gs"
  then have "map (\<lambda>k. case k of Identity_Filter \<Rightarrow> RcfFilter_Identity | Xor_Filter \<Rightarrow> RcfFilter_Xor) (map f_kind gs) =
      map (\<lambda>k. case k of Identity_Filter \<Rightarrow> RcfFilter_Identity | Xor_Filter \<Rightarrow> RcfFilter_Xor) (map f_kind fs)"
    by (simp add: same_work_def)
  then show ?thesis by (simp add: filter_id_kind comp_def cong: map_cong)
qed

text \<open>
  Filters cancel. Whatever buffers go down a chain of filters, the sender's call returns, and a
  receiver that reads the filtered bytes through a chain of the same kinds of filters, connected
  the same way, gets the original bytes back; both calls end with success.
\<close>
lemma filters_cancel:
  assumes "same_work fs gs" "fs \<noteq> []" "buffers_ok m bs" "disjoint_buffers bs" "lengthByteBuffers bs < npos"
  shows "\<exists>out fs' m'. filterData bs (connectFilters fs) m = Done (True, out, fs', m') \<and> buffers_ok m' out \<and>
    lengthByteBuffers out = lengthByteBuffers bs \<and>
    (\<forall>m2 msg. buffer_ok m2 msg \<longrightarrow> bytes_of m2 msg = bytes_all m' out \<longrightarrow>
      (\<exists>b gs' m3. unfilterData msg (lengthByteBuffers bs) (connectFilters gs) m2 = Done (True, b, gs', m3) \<and>
        bytes_of m3 b = bytes_all m bs))"
proof -
  have ne: "connectFilters fs \<noteq> []" "connectFilters gs \<noteq> []"
    using same_work_length [OF connectFilters_connects(2) [of fs]] same_work_length [OF connectFilters_connects(2) [of gs]]
      same_work_length [OF assms(1)] assms(2) by auto
  have key: "chain_key (connectFilters gs) = chain_key (connectFilters fs)"
    using connectFilters_connects(2) assms(1) by (metis same_work_key)
  obtain out fs' m' where f: "filterData bs (connectFilters fs) m = Done (True, out, fs', m')"
    "bytes_all m' out = scramble (chain_key (connectFilters fs)) (bytes_all m bs)" "buffers_ok m' out"
    by (rule filterData_scrambles [OF connectFilters_connects(1) ne(1) assms(3-5)])
  have "\<exists>b gs' m3. unfilterData msg (lengthByteBuffers bs) (connectFilters gs) m2 = Done (True, b, gs', m3) \<and> bytes_of m3 b = bytes_all m bs"
    if here: "buffer_ok m2 msg" "bytes_of m2 msg = bytes_all m' out" for m2 msg
  proof -
    have len: "mPvlen msg = lengthByteBuffers bs"
      using arg_cong [OF here(2), of length] f(2) by (simp add: length_bytes_all)
    obtain b gs' m3 where "unfilterData msg (mPvlen msg) (connectFilters gs) m2 = Done (True, b, gs', m3)"
      "bytes_of m3 b = scramble (chain_key (connectFilters gs)) (bytes_of m2 msg)"
      using unfilterData_unscrambles [OF connectFilters_connects(1) ne(2) here(1)] assms(5) len by metis
    then show ?thesis using here(2) f(2) key len by auto
  qed
  moreover have "lengthByteBuffers out = lengthByteBuffers bs"
    using arg_cong [OF f(2), of length] by (simp add: length_bytes_all)
  ultimately show ?thesis using f(1,3) by blast
qed

lemma filters_cancel_witness:
  "\<exists>out fs' m' b gs' m3. filterData [ByteBuffer_raw (1, 0) 3 False] (connectFilters [XorFilter_new, IdentityFilter_new]) [[], [10, 11, 12]] =
      Done (True, out, fs', m') \<and>
     unfilterData (ByteBuffer_raw (0, 0) 3 True) 3 (connectFilters [XorFilter_new, IdentityFilter_new]) [bytes_all m' out] = Done (True, b, gs', m3) \<and>
     bytes_of m3 b = [10, 11, 12]"
proof -
  let ?fs = "[XorFilter_new, IdentityFilter_new]" and ?bs = "[ByteBuffer_raw (1, 0) 3 False]" and ?m = "[[], [10, 11, 12]] :: memory"
  have h: "buffers_ok ?m ?bs" "disjoint_buffers ?bs" "lengthByteBuffers ?bs = 3" "lengthByteBuffers ?bs < npos" "bytes_all ?m ?bs = [10, 11, 12]"
    by (simp_all add: ByteBuffer_raw_def buffer_ok_def in_block_def lengthByteBuffers_sum npos_def disjoint_buffers_def buffer_cells_def
        cells_def ptr_add_def bytes_of_def byte_at_def upt_rec)
  obtain out fs' m' where f: "filterData ?bs (connectFilters ?fs) ?m = Done (True, out, fs', m')" "lengthByteBuffers out = 3"
    "\<And>m2 msg. buffer_ok m2 msg \<Longrightarrow> bytes_of m2 msg = bytes_all m' out \<Longrightarrow>
      (\<exists>b gs' m3. unfilterData msg 3 (connectFilters ?fs) m2 = Done (True, b, gs', m3) \<and> bytes_of m3 b = [10, 11, 12])"
    using filters_cancel [OF same_work_refl [of ?fs] _ h(1,2,4)] unfolding h(3,5) by auto
  have "length (bytes_all m' out) = 3" using f(2) by (simp add: length_bytes_all)
  then have "buffer_ok [bytes_all m' out] (ByteBuffer_raw (0, 0) 3 True)" "bytes_of [bytes_all m' out] (ByteBuffer_raw (0, 0) 3 True) = bytes_all m' out"
    using bytes_cells [of "[bytes_all m' out]" "(0, 0)" 3]
    by (simp_all add: ByteBuffer_raw_def buffer_ok_def in_block_def bytes_of_def buffer_cells_def)
  from f(3) [OF this] f(1) show ?thesis by blast
qed

section \<open>Writing the head of a filtered message\<close>

text \<open>
  The room for the head is in front of the first buffer: a writable buffer with bytes, whose margin
  lies in the same block and shares no byte with any buffer of the message.
\<close>

definition margin_cells :: "byte_buffer \<Rightarrow> ptr list" where
  "margin_cells b = cells (ptr_add (mPv b) (- int (mLeftMargin b))) (mLeftMargin b)"

definition sendable :: "memory \<Rightarrow> nat \<Rightarrow> byte_buffer list \<Rightarrow> bool" where
  "sendable m n bs \<longleftrightarrow> bs \<noteq> [] \<and> buffers_ok m bs \<and> disjoint_buffers bs \<and> lengthByteBuffers bs < 2 ^ 31 \<and>
     0 < mPvlen (hd bs) \<and> \<not> mReadOnly (hd bs) \<and> n \<le> mLeftMargin (hd bs) \<and> window_ok m (hd bs) \<and>
     set (margin_cells (hd bs)) \<inter> set (list_cells bs) = {}"

text \<open>The buffer that grew into its margin.\<close>

lemma grown:
  assumes "expandIntoLeftMargin n b = Done b'" "window_ok m b"
  shows "n \<le> mLeftMargin b" "buffer_ok m b'" "buffer_cells b' = cells (getPtr b') n @ buffer_cells b" "set (cells (getPtr b') n) \<subseteq> set (margin_cells b)"
proof -
  from assms(1) show n: "n \<le> mLeftMargin b" by (auto simp: expandIntoLeftMargin_def RCF_ASSERT_def split: if_splits)
  then have b': "b' = b\<lparr>mPv := ptr_add (mPv b) (- int n), mPvlen := mPvlen b + n, mLeftMargin := mLeftMargin b - n\<rparr>"
    using assms(1) by (simp add: expandIntoLeftMargin_def)
  show "buffer_ok m b'" using assms(2) n by (auto simp: b' window_ok_def buffer_ok_def in_block_def ptr_add_def)
  show "buffer_cells b' = cells (getPtr b') n @ buffer_cells b"
    using cells_append [of "ptr_add (mPv b) (- int n)" n "mPvlen b"] by (simp add: b' buffer_cells_def getPtr_def ptr_add_def add.commute)
  show "set (cells (getPtr b') n) \<subseteq> set (margin_cells b)"
    using n by (auto simp: b' getPtr_def margin_cells_def set_cells ptr_add_def)
qed

lemma window_ok_extends: "window_ok m b \<Longrightarrow> extends m m' \<Longrightarrow> window_ok m' b"
  by (simp add: window_ok_def in_block_extends)

lemma margin_below: "window_ok m b \<Longrightarrow> a \<in> set (margin_cells b) \<Longrightarrow> fst a < length m"
  by (auto simp: window_ok_def margin_cells_def set_cells in_block_def ptr_add_def)

text \<open>The array of the stack the head is written to.\<close>

lemma head_array:
  assumes "length fs \<le> 10"
  obtains m' where "filter_head fs n (ByteBuffer_raw (length m, 0) 60 False) (m @ [replicate 60 0], 0) = Done (m', length (enc_filter_head fs n))"
    "only_changes m m' {}" "load m' (length m, 0) (length (enc_filter_head fs n)) = Some (enc_filter_head fs n)"
proof -
  let ?b = "ByteBuffer_raw (length m, 0) 60 False" and ?m = "m @ [replicate 60 0]" and ?bs = "enc_filter_head fs n"
  have ok: "buffer_ok ?m ?b" "mPvlen ?b = 60" "mPv ?b = (length m, 0)" by (simp_all add: ByteBuffer_raw_def buffer_ok_def in_block_def)
  have fits: "0 + length ?bs \<le> mPvlen ?b" using filter_head_length(1) [OF assms, of n] ok(2) by simp
  obtain m' where m': "filter_head fs n ?b (?m, 0) = Done (m', 0 + length ?bs)" "only_changes ?m m' (set (buffer_cells ?b))"
    "bytes_of m' ?b = poke 0 ?bs (bytes_of ?m ?b)"
    using filter_head_writes [OF assms, of ?b n, unfolded buf_writes_def, rule_format, OF ok(1) le0] fits by auto
  have "only_changes m ?m {}" by (auto simp: only_changes_def byte_at_def in_block_def nth_append)
  from only_changes_trans [OF this m'(2)] have "only_changes m m' (set (buffer_cells ?b))" by simp
  then have "only_changes m m' {}"
    by (rule only_changes_new) (auto simp: buffer_cells_def ok(3) set_cells)
  moreover have "load m' (length m, 0) (length ?bs) = Some ?bs"
  proof -
    have "buffer_ok m' ?b" using m'(2) ok(1) buffer_ok_extends unfolding only_changes_def by blast
    from load_at [OF this, of 0 "length ?bs"] fits show ?thesis by (simp add: ok(3) m'(3) ptr_add_def poke_def)
  qed
  ultimately show ?thesis using that m'(1) by simp
qed

lemma encodeToMessage_bytes:
  assumes "connected fs" "fs \<noteq> []" "length fs \<le> 10" "sendable m (length (enc_filter_head fs (lengthByteBuffers bs))) bs"
  obtains message fs' m' where "encodeToMessage bs fs m = Done (message, fs', m')" "connected fs'" "same_work fs fs'" "buffers_ok m' message"
    "bytes_all m' message = enc_filter_head fs (lengthByteBuffers bs) @ scramble (chain_key fs) (bytes_all m bs)"
proof -
  let ?n = "lengthByteBuffers bs"
  let ?head = "enc_filter_head fs ?n"
  have s: "bs \<noteq> []" "buffers_ok m bs" "disjoint_buffers bs" "?n < npos" "0 < mPvlen (hd bs)" "\<not> mReadOnly (hd bs)"
    "length ?head \<le> mLeftMargin (hd bs)" "window_ok m (hd bs)" "set (margin_cells (hd bs)) \<inter> set (list_cells bs) = {}"
    using assms(4) by (simp_all add: sendable_def npos_def)
  obtain out fs' m1 where f: "filterData bs fs m = Done (True, out, fs', m1)" "same_filters (attach_proxy fs) fs'"
    "bytes_all m1 out = scramble (chain_key fs) (bytes_all m bs)" "buffers_ok m1 out" "only_changes m m1 (set (list_cells bs))"
    "\<forall>a\<in>set (list_cells out). a \<in> set (list_cells bs) \<or> length m \<le> fst a" "front_kept bs out"
    by (rule filterData_scrambles [OF assms(1,2) s(2-4)])
  note fs' = after_use [OF f(2) assms(1)]
  have out: "out \<noteq> []" "hd out = hd bs" using f(7) s(1,5,6) by (simp_all add: front_kept_def)
  have ids: "enc_filter_head fs' ?n = ?head" "length fs' \<le> 10"
    using same_work_ids [OF fs'(2)] same_work_length [OF fs'(2)] assms(3)
    by (simp_all add: enc_filter_head_def map_map [symmetric, unfolded comp_def] flip: map_map)
  obtain m2 where h: "filter_head fs' ?n (ByteBuffer_raw (length m1, 0) 60 False) (m1 @ [replicate 60 0], 0) = Done (m2, length ?head)"
    "only_changes m1 m2 {}" "load m2 (length m1, 0) (length ?head) = Some ?head"
    using head_array [OF ids(2), of ?n m1] unfolding ids(1) by blast
  have ext: "extends m m1" "extends m1 m2" using f(5) h(2) by (simp_all add: only_changes_def)
  obtain front where front: "expandIntoLeftMargin (length ?head) (hd bs) = Done front" using s(7) by (simp add: expandIntoLeftMargin_def)
  have w2: "window_ok m2 (hd bs)" using s(8) ext by (meson window_ok_extends)
  note g = grown [OF front w2]
  have pl: "length (?head) \<le> mPvlen front" using arg_cong [OF g(3), of length] by simp
  obtain m3 where m3: "store m2 (getPtr front) ?head = Some m3"
    using store_in_block [of m2 "getPtr front" ?head] g(2) pl by (auto simp: buffer_ok_def in_block_def getPtr_def)
  have apart: "set (list_cells out) \<inter> set (cells (getPtr front) (length ?head)) = {}"
    using f(6) g(4) s(9) margin_below [OF s(8)] by fastforce
  have oc: "only_changes m2 m3 (set (cells (getPtr front) (length ?head)))" by (rule store_only_changes [OF m3])
  have out2: "buffers_ok m2 out" "bytes_all m2 out = bytes_all m1 out"
    using only_changes_list_ok [OF h(2) f(4)] only_changes_list [OF h(2) f(4)] by simp_all
  have out3: "buffers_ok m3 out" "bytes_all m3 out = bytes_all m1 out"
    using only_changes_list_ok [OF oc out2(1)] only_changes_list [OF oc out2(1) apart] out2(2) by simp_all
  obtain tl' where tl: "out = hd bs # tl'" using out by (cases out) auto
  have front_bytes: "bytes_of m3 front = ?head @ bytes_of m3 (hd bs)"
    using store_cells [OF m3] g(3) by (simp add: bytes_of_def)
  show ?thesis
  proof (rule that [of "front # tl'" fs' m3])
    show "encodeToMessage bs fs m = Done (front # tl', fs', m3)"
      using assms(2) f(1) tl h(1,3) s(7) front m3 filter_head_length(1) [OF assms(3), of ?n]
      by (simp add: encodeToMessage_def new_vector_def getLeftMargin_def Let_def)
    show "buffers_ok m3 (front # tl')" using out3(1) tl buffer_ok_extends [OF g(2)] oc by (simp add: only_changes_def)
    show "bytes_all m3 (front # tl') = ?head @ scramble (chain_key fs) (bytes_all m bs)"
      using out3(2) f(3) tl front_bytes by simp
  qed (use fs' in simp_all)
qed

section \<open>Reading filtered messages\<close>

text \<open>The part of the message behind its head.\<close>

lemma filtered_head_and_data:
  assumes "buffer_ok m b" "bytes_of m b = enc_filter_head fs (length data) @ data" "fs \<noteq> []" "length fs \<le> 10" "length data < 2 ^ 31"
  obtains pos w where "decode_filter_head m b = Done (map filter_id fs, length data, pos)" "ByteBuffer_slice b pos npos = Done w"
    "buffer_ok m w" "bytes_of m w = data" "mPvlen w = length data"
proof -
  obtain pos where p: "decode_filter_head m b = Done (map filter_id fs, length data, pos)" "rest_is m b pos data"
    by (rule decode_filter_head_reads [OF assms(1,2) _ assms(4,5)]) (use assms(3) in simp)
  obtain w where w: "ByteBuffer_slice b pos npos = Done w" "buffer_ok m w" "bytes_of m w = data"
    using slice_rest [of m b pos] p(2) unfolding rest_is_def by metis
  show ?thesis by (rule that [OF p(1) w]) (use w(3) in \<open>metis length_bytes_of\<close>)
qed

lemma ids_match: "filter_ids_equal gs (map filter_id fs) \<longleftrightarrow> map filter_id gs = map filter_id fs"
  by (auto simp: filter_ids_equal_def filter_id_def list_all2_conv_all_nth list_eq_iff_nth_eq)

lemma session_ids_match: "session_ids_equal (map Some gs) ids = Done (length gs = length ids \<longrightarrow> map filter_id gs = ids)"
  if "length gs = length ids"
  using that by (induction gs ids rule: list_induct2) (simp_all add: filter_id_def)

lemma client_unfilters:
  assumes "buffer_ok m b" "bytes_of m b = enc_filter_head fs (length data) @ data" "fs \<noteq> []" "length fs \<le> 10" "length data < 2 ^ 31"
    and "same_work fs gs" "connected gs"
  obtains buffer gs' m' where "decodeFromMessage_client b gs self m = Done (buffer, self\<lparr>mMarshalingProtocol := Mp_Rcf\<rparr>, gs', m')"
    "bytes_of m' buffer = scramble (chain_key gs) data" "connected gs'" "same_work gs gs'"
proof -
  obtain pos w where d: "decode_filter_head m b = Done (map filter_id fs, length data, pos)" "ByteBuffer_slice b pos npos = Done w"
    "buffer_ok m w" "bytes_of m w = data" "mPvlen w = length data" by (rule filtered_head_and_data [OF assms(1-5)])
  have ne: "gs \<noteq> []" and len: "length gs = length fs" using same_work_length [OF assms(6)] assms(3) by auto
  have small: "mPvlen w < npos" using d(5) assms(5) by (simp add: npos_def)
  obtain buffer gs' m' where u: "unfilterData w (mPvlen w) gs m = Done (True, buffer, gs', m')" "same_filters (attach_proxy gs) gs'"
    "bytes_of m' buffer = scramble (chain_key gs) (bytes_of m w)"
    by (rule unfilterData_unscrambles [OF assms(7) ne d(3) small])
  show ?thesis
  proof (rule that)
    show "decodeFromMessage_client b gs self m = Done (buffer, self\<lparr>mMarshalingProtocol := Mp_Rcf\<rparr>, gs', m')"
      using d(1,2,5) u(1) ne len same_work_ids [OF assms(6)] by (simp add: decodeFromMessage_client_def ids_match)
  qed (use u(3) d(4) after_use [OF u(2) assms(7)] in simp_all)
qed

text \<open>
  The server compares the ids with the filters of its session, and makes new ones when they differ.
  Every filter has the default mask of its kind; the factories must know the ids.
\<close>

definition new_filter :: "filter_kind \<Rightarrow> filter_obj" where
  "new_filter k = (case k of Identity_Filter \<Rightarrow> IdentityFilter_new | Xor_Filter \<Rightarrow> XorFilter_new)"

definition knows :: "rcf_server \<Rightarrow> filter_obj \<Rightarrow> bool" where
  "knows srv f \<longleftrightarrow> (\<exists>factories. mFilterFactoryMap srv = Some factories \<and> factories (filter_id f) = Some (f_kind f)) \<and>
     mask_of f = mask_of (new_filter (f_kind f))"

definition session_ready :: "rcf_session \<Rightarrow> bool" where
  "session_ready session \<longleftrightarrow> (\<exists>gs. mFilters session = map Some gs \<and> connected gs \<and> (\<forall>g\<in>set gs. mask_of g = mask_of (new_filter (f_kind g))))"

lemma created: "knows srv f \<Longrightarrow> createFilter srv (filter_id f) = Some (new_filter (f_kind f))"
  by (auto simp: knows_def createFilter_def new_filter_def split: filter_kind.split)

lemma new_filter_kind [simp]: "f_kind (new_filter k) = k"
  by (cases k) (simp_all add: new_filter_def IdentityFilter_new_def XorFilter_new_def)

lemma made_chain:
  assumes "\<forall>f\<in>set fs. knows srv f"
  shows "map (createFilter srv) (map filter_id fs) = map Some (map (\<lambda>f. new_filter (f_kind f)) fs)"
    "same_work fs (map (\<lambda>f. new_filter (f_kind f)) fs)"
proof -
  show "map (createFilter srv) (map filter_id fs) = map Some (map (\<lambda>f. new_filter (f_kind f)) fs)" using assms by (simp add: created)
  have "\<forall>f\<in>set fs. mask_of (new_filter (f_kind f)) = mask_of f" using assms by (simp add: knows_def)
  then show "same_work fs (map (\<lambda>f. new_filter (f_kind f)) fs)" by (simp add: same_work_def)
qed

lemma same_ids_work:
  assumes "map filter_id gs = map filter_id fs" "\<forall>f\<in>set fs. mask_of f = mask_of (new_filter (f_kind f))"
    "\<forall>g\<in>set gs. mask_of g = mask_of (new_filter (f_kind g))"
  shows "same_work fs gs"
proof -
  have len: "length gs = length fs" using arg_cong [OF assms(1), of length] by simp
  have k: "f_kind (gs ! i) = f_kind (fs ! i)" if "i < length fs" for i
    using arg_cong [OF assms(1), of "\<lambda>xs. xs ! i"] that len
    by (auto simp: filter_id_kind RcfFilter_Identity_def RcfFilter_Xor_def split: filter_kind.splits)
  have "mask_of (gs ! i) = mask_of (fs ! i)" if "i < length fs" for i
    using k [OF that] assms(2,3) that len by (metis nth_mem)
  with k len show ?thesis by (auto simp: same_work_def list_eq_iff_nth_eq)
qed

lemma same_work_masks:
  assumes "same_work gs hs" "\<forall>g\<in>set gs. mask_of g = mask_of (new_filter (f_kind g))"
  shows "\<forall>h\<in>set hs. mask_of h = mask_of (new_filter (f_kind h))"
proof
  fix h assume "h \<in> set hs"
  then obtain i where i: "i < length hs" "h = hs ! i" by (metis in_set_conv_nth)
  have len: "length hs = length gs" by (rule same_work_length [OF assms(1)])
  have "map mask_of hs ! i = map mask_of gs ! i" "map f_kind hs ! i = map f_kind gs ! i" using assms(1) by (simp_all add: same_work_def)
  with i len assms(2) show "mask_of h = mask_of (new_filter (f_kind h))" by (metis nth_map nth_mem)
qed

lemma server_unfilters:
  assumes "buffer_ok m b" "bytes_of m b = enc_filter_head fs (length data) @ data" "fs \<noteq> []" "length fs \<le> 10" "length data < 2 ^ 31"
    and "\<forall>f\<in>set fs. knows srv f" "session_ready session"
  obtains buffer session' m' where
    "decodeFromMessage_server srv b self session m = Done (buffer, self\<lparr>mMarshalingProtocol := Mp_Rcf\<rparr>, session', m')"
    "bytes_of m' buffer = scramble (chain_key fs) data" "session_ready session'" "mFiltered session'"
    "map filter_id (map the (mFilters session')) = map filter_id fs"
proof -
  obtain pos w where d: "decode_filter_head m b = Done (map filter_id fs, length data, pos)" "ByteBuffer_slice b pos npos = Done w"
    "buffer_ok m w" "bytes_of m w = data" "mPvlen w = length data" by (rule filtered_head_and_data [OF assms(1-5)])
  have small: "mPvlen w < npos" using d(5) assms(5) by (simp add: npos_def)
  have masks: "\<forall>f\<in>set fs. mask_of f = mask_of (new_filter (f_kind f))" using assms(6) by (simp add: knows_def)
  obtain gs where gs: "mFilters session = map Some gs" "connected gs" "\<forall>g\<in>set gs. mask_of g = mask_of (new_filter (f_kind g))"
    using assms(7) by (auto simp: session_ready_def)
  let ?new = "connectFilters (map (\<lambda>f. new_filter (f_kind f)) fs)"
  define hs where "hs = (if map filter_id gs = map filter_id fs then gs else ?new)"
  have made: "same_work fs ?new" using same_work_trans [OF made_chain(2) [OF assms(6)] connectFilters_connects(2)] .
  have work: "same_work fs hs" using made same_ids_work [OF _ masks gs(3)] by (simp add: hs_def)
  have con: "connected hs" using gs(2) connectFilters_connects(1) by (simp add: hs_def)
  have ne: "hs \<noteq> []" using same_work_length [OF work] assms(3) by auto
  have hm: "\<forall>g\<in>set hs. mask_of g = mask_of (new_filter (f_kind g))" by (rule same_work_masks [OF work masks])
  obtain buffer hs' m' where u: "unfilterData w (mPvlen w) hs m = Done (True, buffer, hs', m')" "same_filters (attach_proxy hs) hs'"
    "bytes_of m' buffer = scramble (chain_key hs) (bytes_of m w)"
    by (rule unfilterData_unscrambles [OF con ne d(3) small])
  note used = after_use [OF u(2) con]
  have the_Some: "map the (map Some xs) = xs" for xs :: "filter_obj list" by (simp add: comp_def)
  let ?s = "session\<lparr>mFiltered := True\<rparr>"
  have same: "(if length (mFilters ?s) \<noteq> length (map filter_id fs) then Done False
      else session_ids_equal (mFilters ?s) (map filter_id fs)) = Done (map filter_id gs = map filter_id fs)"
    using gs(1) session_ids_match [of gs "map filter_id fs"] by (auto simp del: map_map dest: map_eq_imp_length_eq)
  have ne': "map filter_id fs \<noteq> []" using assms(3) by simp
  have run: "decodeFromMessage_server srv b self session m =
      Done (buffer, self\<lparr>mMarshalingProtocol := Mp_Rcf\<rparr>, ?s\<lparr>mFilters := map Some hs'\<rparr>, m')"
    unfolding decodeFromMessage_server_def Let_def d(1) framed_bind.simps prod.case d(2) if_not_P [OF ne'] same
    using u(1) d(5) the_Some gs(1) by (simp add: hs_def made_chain(1) [OF assms(6)] del: map_map split: if_splits)
  show ?thesis
  proof (rule that [OF run])
    show "bytes_of m' buffer = scramble (chain_key fs) data" using u(3) d(4) same_work_key [OF work] by simp
    show "session_ready (?s\<lparr>mFilters := map Some hs'\<rparr>)"
      using used(1) same_work_masks [OF used(2) hm] by (auto simp: session_ready_def)
    show "map filter_id (map the (mFilters (?s\<lparr>mFilters := map Some hs'\<rparr>))) = map filter_id fs"
      using same_work_ids [OF work] same_work_ids [OF used(2)] by (simp add: comp_def)
  qed simp
qed

text \<open>
  C16: Filtered messages come across to the client. A message that goes through a chain of one to ten
  filters is sent with a head that names them, written into the margin of its first buffer; a client
  with the same filters restores exactly the bytes, and its chain is again one of the same filters,
  so the next message works as well.
\<close>
theorem filtered_message_comes_across:
  assumes "connected fs" "fs \<noteq> []" "length fs \<le> 10" "sendable m (length (enc_filter_head fs (lengthByteBuffers bs))) bs"
    and "same_work fs gs" "connected gs"
  shows "\<exists>message fs' m'. encodeToMessage bs fs m = Done (message, fs', m') \<and> connected fs' \<and> same_work fs fs' \<and>
    (\<forall>m2 msg self. buffer_ok m2 msg \<longrightarrow> bytes_of m2 msg = bytes_all m' message \<longrightarrow>
      (\<exists>buffer self' gs' m3. decodeFromMessage_client msg gs self m2 = Done (buffer, self', gs', m3) \<and>
        bytes_of m3 buffer = bytes_all m bs \<and> connected gs' \<and> same_work gs gs'))"
proof -
  obtain message fs' m' where e: "encodeToMessage bs fs m = Done (message, fs', m')" "connected fs'" "same_work fs fs'"
    "bytes_all m' message = enc_filter_head fs (lengthByteBuffers bs) @ scramble (chain_key fs) (bytes_all m bs)"
    by (rule encodeToMessage_bytes [OF assms(1-4)])
  let ?data = "scramble (chain_key fs) (bytes_all m bs)"
  have len: "length ?data = lengthByteBuffers bs" by (simp add: length_bytes_all)
  then have small: "length ?data < 2 ^ 31" using assms(4) by (simp add: sendable_def)
  have "\<exists>buffer self' gs' m3. decodeFromMessage_client msg gs self m2 = Done (buffer, self', gs', m3) \<and>
      bytes_of m3 buffer = bytes_all m bs \<and> connected gs' \<and> same_work gs gs'"
    if here: "buffer_ok m2 msg" "bytes_of m2 msg = bytes_all m' message" for m2 msg self
  proof -
    have b: "bytes_of m2 msg = enc_filter_head fs (length ?data) @ ?data" using here(2) e(4) len by simp
    show ?thesis
      by (rule client_unfilters [OF here(1) b assms(2,3) small assms(5,6), of self]) (use same_work_key [OF assms(5)] in auto)
  qed
  with e(1-3) show ?thesis by blast
qed

definition sample_buffer :: byte_buffer where
  "sample_buffer = ByteBuffer_raw_margin (1, 10) 3 10 False"

definition sample_chain :: "filter_obj list" where
  "sample_chain = connectFilters [XorFilter_new, IdentityFilter_new]"

definition sample_memory :: memory where
  "sample_memory = [[], replicate 10 0 @ [10, 11, 12]]"

lemma sample_chain_work: "connected sample_chain" "same_work [XorFilter_new, IdentityFilter_new] sample_chain" "sample_chain \<noteq> []"
    "length sample_chain \<le> 10"
  using connectFilters_connects [of "[XorFilter_new, IdentityFilter_new]"]
    same_work_length [OF connectFilters_connects(2) [of "[XorFilter_new, IdentityFilter_new]"]]
  by (auto simp: sample_chain_def)

lemma sample_sendable: "sendable sample_memory (length (enc_filter_head sample_chain (lengthByteBuffers [sample_buffer]))) [sample_buffer]"
    "lengthByteBuffers [sample_buffer] = 3" "bytes_all sample_memory [sample_buffer] = [10, 11, 12]"
proof -
  have len: "lengthByteBuffers [sample_buffer] = 3" by (simp add: lengthByteBuffers_sum sample_buffer_def ByteBuffer_raw_margin_def)
  have "map filter_id sample_chain = [101, 1]"
    using same_work_ids [OF sample_chain_work(2)] by (simp add: filter_id_kind XorFilter_new_def IdentityFilter_new_def RcfFilter_Xor_def RcfFilter_Identity_def)
  then have "map enc_rcf_int (map filter_id sample_chain) = [[101], [1]]" by (simp only:) (simp add: enc_rcf_int_def)
  then have ids: "map (\<lambda>f. enc_rcf_int (filter_id f)) sample_chain = [[101], [1]]" "length sample_chain = 2"
    using same_work_length [OF sample_chain_work(2)] by (simp_all add: comp_def)
  have "length (enc_filter_head sample_chain 3) = 7"
    unfolding enc_filter_head_def ids by (simp add: enc_rcf_int_def Descriptor_FilteredPayload_def)
  then show "sendable sample_memory (length (enc_filter_head sample_chain (lengthByteBuffers [sample_buffer]))) [sample_buffer]"
    unfolding len
    by (simp add: sendable_def sample_buffer_def ByteBuffer_raw_margin_def buffer_ok_def in_block_def lengthByteBuffers_sum disjoint_buffers_def
        buffer_cells_def window_ok_def margin_cells_def ptr_add_def set_cells sample_memory_def) (auto simp: cells_def ptr_add_def upt_rec)
  show "bytes_all sample_memory [sample_buffer] = [10, 11, 12]"
    by (simp add: sample_memory_def sample_buffer_def ByteBuffer_raw_margin_def bytes_of_def buffer_cells_def cells_def ptr_add_def byte_at_def upt_rec
        nat_add_distrib nth_append)
qed (simp add: lengthByteBuffers_sum sample_buffer_def ByteBuffer_raw_margin_def)

lemma copied_message:
  "buffer_ok [xs] (ByteBuffer_raw (0, 0) (length xs) True)" "bytes_of [xs] (ByteBuffer_raw (0, 0) (length xs) True) = xs"
  using bytes_cells [of "[xs]" "(0, 0)" "length xs"]
  by (cases "xs = []"; simp add: ByteBuffer_raw_def buffer_ok_def in_block_def bytes_of_def buffer_cells_def cells_def)+

lemma filtered_message_comes_across_witness:
  "\<exists>message fs' m' buffer self' gs' m3. encodeToMessage [sample_buffer] sample_chain sample_memory = Done (message, fs', m') \<and>
     decodeFromMessage_client (ByteBuffer_raw (0, 0) (length (bytes_all m' message)) True) sample_chain MethodInvocationRequest_new
       [bytes_all m' message] = Done (buffer, self', gs', m3) \<and> bytes_of m3 buffer = [10, 11, 12]"
  using filtered_message_comes_across [OF sample_chain_work(1,3,4) sample_sendable(1) same_work_refl sample_chain_work(1)]
    copied_message sample_sendable(3) by metis



section \<open>Messages that lie about their length\<close>

text \<open>
  C22: What unfiltering does with the length the sender claims. With at least as many filtered
  bytes as claimed it returns exactly the claimed number of original bytes; a claim of more bytes
  than the message has fails an assertion of the proxy, since the chain asks it again when it has
  nothing left.
\<close>
theorem claimed_length_decides:
  assumes "gs \<noteq> []" "buffer_ok m msg" "getLength msg < npos"
  shows "if n \<le> getLength msg
    then \<exists>b gs' m'. unfilterData msg n (connectFilters gs) m = Done (True, b, gs', m') \<and>
      bytes_of m' b = scramble (chain_key gs) (take n (bytes_of m msg))
    else unfilterData msg n (connectFilters gs) m = Aborted"
proof -
  have ne: "connectFilters gs \<noteq> []" using same_work_length [OF connectFilters_connects(2) [of gs]] assms(1) by auto
  have key: "chain_key (connectFilters gs) = chain_key gs" by (rule same_work_key [OF connectFilters_connects(2)])
  show ?thesis
    using unfilterData_decides [OF connectFilters_connects(1) ne assms(2), of n] assms(3) key by (auto simp: getLength_def split: if_splits)
qed

lemma claimed_length_decides_witness:
  "unfilterData (ByteBuffer_raw (1, 0) 2 True) 3 (connectFilters [XorFilter_new]) [[], [7, 8]] = Aborted \<and>
   (\<exists>b gs' m'. unfilterData (ByteBuffer_raw (1, 0) 2 True) 1 (connectFilters [IdentityFilter_new]) [[], [7, 8]] = Done (True, b, gs', m') \<and>
     bytes_of m' b = [7])"
proof -
  let ?b = "ByteBuffer_raw (1, 0) 2 True" and ?m = "[[], [7, 8]] :: memory"
  have b: "buffer_ok ?m ?b" "getLength ?b = 2" "getLength ?b < npos" "bytes_of ?m ?b = [7, 8]"
    by (simp_all add: ByteBuffer_raw_def buffer_ok_def in_block_def getLength_def npos_def bytes_of_def buffer_cells_def cells_def ptr_add_def
        byte_at_def upt_rec)
  have "chain_key [IdentityFilter_new] = 0" by (simp add: chain_key_def mask_of_def IdentityFilter_new_def)
  with claimed_length_decides [of "[XorFilter_new]" ?m ?b 3] claimed_length_decides [of "[IdentityFilter_new]" ?m ?b 1] b
  show ?thesis by simp
qed

end
