(* ===== verification/Spec2Isabelle.thy ===== *)
theory Spec2Isabelle
  imports Board_Model Server_Delegate Wire_Properties Utf8_Scan Message_Streams Field_Lists Rcf_Messages
begin

text \<open>
  A verification library for \<^verbatim>\<open>OwbClientlibXcode\<close>, the iOS client library of an online whiteboard.
  Paths are relative to \<^verbatim>\<open>src/OwbClientlibXcode\<close>; \<^verbatim>\<open>protobuf\<close> and \<^verbatim>\<open>RCF\<close> stand for the two
  libraries under \<^verbatim>\<open>ThridParty\<close>.

  \<^bold>\<open>The program.\<close> A user draws on a view. Each drawing is an operation object
  (\<^verbatim>\<open>Models/MessageModel.mm\<close>) that owns a message of a generated class
  (\<^verbatim>\<open>ProtoBuffer/message.pb.cc\<close>). The server delegate (\<^verbatim>\<open>Server\<close>, \<^verbatim>\<open>NetWork\<close>) sends it to the updater
  by a remote call of RCF and polls the provider for the operations of everybody. Received
  operations go into a queue (\<^verbatim>\<open>Tools/OwbClientOperationQueue.mm\<close>); the board
  (\<^verbatim>\<open>Models/BoardModel.mm\<close>) takes them out on the main thread and draws each one on five canvases of
  different size with one of five drawers (\<^verbatim>\<open>Tools/Drawer.mm\<close>). On the wire a message is the bytes of
  the protobuf runtime, put into a frame and behind the head of a remote call by RCF, which may pass
  the whole through filters.

  \<^bold>\<open>What the code of a part is here.\<close>
  \<^item> A class is a record with the fields of the class, a method a function from the object to the
    object and the result. \<^verbatim>\<open>int\<close>, \<^verbatim>\<open>uint32\<close>, \<^verbatim>\<open>int64\<close> are words, a \<^verbatim>\<open>float\<close> is its bit pattern
    (\<open>Float32\<close> has the arithmetic), \<^verbatim>\<open>std::string\<close> a list of bytes. Sizes of objects in memory
    (\<^verbatim>\<open>size_t\<close>) are natural numbers: no sum of sizes of objects that exist wraps where it has 64 bits.
    Where a size is a 32-bit \<^verbatim>\<open>int\<close> and can be too large, the statement has the bound.
  \<^item> Errors are values. An Objective-C method gives \<open>Returns\<close>, \<open>Throws\<close> or \<open>Undefined\<close> (\<open>Objc\<close>), a
    parser \<open>Got\<close>, \<open>Fails\<close>, \<open>Crash\<close> or \<open>Runs_on\<close> (\<open>Coded_Input\<close>), code of RCF \<open>Done\<close>, \<open>Raised\<close>,
    \<open>Aborted\<close> (a failed assertion), \<open>Broken\<close> (undefined behaviour, such as a read outside of a block)
    or \<open>Endless\<close> (\<open>Rcf_Frame\<close>).
  \<^item> Loops that read a buffer are bounded by the bytes that are left, since every turn reads one:
    \<open>parse_loop\<close> and \<open>packed_loop\<close> get one turn more than there are bytes, \<open>SkipField\<close> and
    \<open>SkipMessage\<close>, which call each other, \<open>skip_bound\<close> calls, two per byte and two more. When the turns
    are used up the outcome is \<open>Runs_on\<close>, and every safety theorem shows that it does not occur.
    The two loops of the board run for a number of turns that the theorem gives. The loops over streams
    (\<open>Out_WriteRaw\<close>, \<open>Out_Skip_loop\<close>), of the UTF-8 scanner and of the filters (\<open>run_calls\<close>,
    \<open>filter_loop\<close>, \<open>unfilter_loop\<close>) are partial functions; the theorems about them show that they
    return.

  \<^bold>\<open>Prelude.\<close> \<open>Owb_Prelude\<close> names the machine types and holds the rules and lemmas that all share;
  \<open>Objc\<close> has the results of Objective-C methods and its strings.

  \<^bold>\<open>The messages.\<close>
  \<^item> \<open>Repeated_Field\<close> (\<^verbatim>\<open>protobuf/.../repeated_field.h\<close>, \<^verbatim>\<open>.cc\<close>): the pointer container with its cleared
    objects. Locale \<open>type_handler\<close>: what it needs of its element class.
  \<^item> \<open>Has_Bits\<close>, \<open>Pb_Point\<close>, \<open>Pb_OperationData\<close>, \<open>Pb_Operation\<close>, \<open>Pb_Operations\<close>, \<open>Pb_Document\<close>,
    \<open>Pb_Meeting\<close>, \<open>Pb_User\<close>, \<open>Pb_Heart\<close> (\<^verbatim>\<open>ProtoBuffer/message.pb.h\<close>, \<^verbatim>\<open>.cc\<close>): the twelve classes with
    presence bits and shared default strings; accessors, \<^verbatim>\<open>Clear\<close>, \<^verbatim>\<open>MergeFrom\<close>, \<^verbatim>\<open>CopyFrom\<close>, \<^verbatim>\<open>Swap\<close>,
    \<^verbatim>\<open>IsInitialized\<close>, \<^verbatim>\<open>ByteSize\<close>, \<^verbatim>\<open>SerializeWithCachedSizesToArray\<close>. For each class there is an abstract
    message of options and lists; every operation keeps the invariant \<open>..._ok\<close> and implements its
    abstract counterpart through \<open>..._abs\<close>.
  \<^item> \<open>Float32\<close>, \<open>Message_Model\<close> (\<^verbatim>\<open>Models/MessageModel.mm\<close>): the operation objects over their messages,
    the factory, duplicates and the wrappers. Locale \<open>point_field\<close>: a point inside a message, for its six
    uses.

  \<^bold>\<open>The client.\<close>
  \<^item> \<open>Operation_Queue\<close>: methods as lists of calls; one thread runs them as functions, several
    interleave as a step relation with two recursive locks. Locale \<open>fifo\<close>: the abstract queue. Order,
    exclusion, freedom from deadlock, and the two ways in which \<^verbatim>\<open>dequeue\<close> goes wrong.
  \<^item> \<open>Drawer\<close> (\<^verbatim>\<open>Tools/ColorMaker.mm\<close>, \<^verbatim>\<open>Tools/Drawer.mm\<close>): a canvas is the list of its Core Graphics
    calls; strokes refine the curve through their points; the registration of resources.
  \<^item> \<open>Board_Model\<close> (\<^verbatim>\<open>Models/BoardModel.mm\<close>): canvases, snapshots, placement, and blocks on the serial
    and the main queue, run in their order.
  \<^item> \<open>Server_Delegate\<close> (\<^verbatim>\<open>NetWork/ServerDelegate.cc\<close>, \<^verbatim>\<open>Server/OwbClientServerDelegate.mm\<close>): the
    singletons, bindings, calls and what they do with exceptions. The remote methods are a parameter.

  \<^bold>\<open>The protobuf runtime.\<close>
  \<^item> \<open>Varint\<close>, \<open>Wire_Format\<close>: the unrolled varint routines against one reference coder, tags, writers and
    sizes, unknown fields. \<open>Coded_Input\<close>: \<^verbatim>\<open>CodedInputStream\<close> over an array, with limits and
    recursion budget. \<open>Coded_Output\<close>: \<^verbatim>\<open>CodedOutputStream\<close> over any stream; \<open>Zero_Copy_Streams\<close>: the
    streams (locale \<open>output_stream\<close>, for arrays and for strings).
  \<^item> \<open>Parse_Loop\<close>, \<open>Parse_Fields\<close>, \<open>Message_Format\<close>: the readers, the skipping of unknown fields and
    the loop of a generated parser, with locales \<open>message_parser\<close> (safe on any bytes) and
    \<open>message_format\<close> (reads back what the writers give). \<open>Parse_Operations\<close>, \<open>Parse_Meeting\<close>: the twelve
    parsers as their interpretations. \<open>Wire_Skip\<close>: skipping without keeping.
  \<^item> \<open>Field_Codecs\<close> (locale \<open>codec\<close>, fourteen interpretations), \<open>Repeated_Scalar\<close>, \<open>Field_Lists\<close> (locale
    \<open>fixed_codec\<close>): every scalar type, repeated and packed.
  \<^item> \<open>Message_Lite\<close> (locale \<open>wire_message\<close>), \<open>Wire_Messages\<close> (its twelve interpretations),
    \<open>Message_Streams\<close> (locale \<open>message_on_stream\<close>): the interface of \<^verbatim>\<open>message_lite.cc\<close>. \<open>Utf8_Scan\<close>: the scanner
    of \<^verbatim>\<open>stubs/structurally_valid.cc\<close> with its tables.
  \<^item> \<open>Wire_Properties\<close>: a message from one client to another; uses \<open>Rcf_Frame\<close> and \<open>Message_Model\<close>.

  \<^bold>\<open>RCF.\<close>
  \<^item> \<open>Rcf_Frame\<close> (\<^verbatim>\<open>SerializationProtocol.hpp\<close>, \<^verbatim>\<open>MemStream.cpp\<close>, \<^verbatim>\<open>ByteOrdering.cpp\<close>): frames of protobuf
    messages.
  \<^item> \<open>Rcf_Buffer\<close> (\<^verbatim>\<open>ByteBuffer.cpp\<close>, \<^verbatim>\<open>ReallocBuffer.cpp\<close>): a memory of blocks, and buffers as windows with a
    margin in front. What a buffer holds is \<open>bytes_of\<close>; frame lemmas say what a write leaves alone
    (\<open>only_changes\<close>).
  \<^item> \<open>Rcf_Encoding\<close> (\<^verbatim>\<open>SF/Encoding.cpp\<close>): locale \<open>rcf_codec\<close>, a writer, its bytes and its reader, for four
    types; \<open>vec_writes\<close> and \<open>buf_writes\<close> compose writers, \<open>rest_is\<close> readers.
  \<^item> \<open>Rcf_Filter\<close> (\<^verbatim>\<open>Filter.cpp\<close>): filters call their neighbours, so a chain is a machine of calls
    (\<open>step\<close>, \<open>run_calls\<close>). Locale \<open>message_filter\<close> is the contract of one filter, kept by the identity and
    the xor filter. Filtering scrambles all bytes with the key of the chain in one pass.
  \<^item> \<open>Rcf_Invocation\<close> (\<^verbatim>\<open>MethodInvocation.cpp\<close>): the heads of requests and responses in each version of
    the protocol, error replies, filter heads, the search for the servant. \<open>Rcf_Calls\<close>: heads come
    across, and no nonempty message makes a receiver without filters fail. \<open>Rcf_Messages\<close>: filtered messages come across,
    and what a wrong length does.

  \<^bold>\<open>Not modelled.\<close> UIKit and Core Graphics beyond the recorded calls, \<^verbatim>\<open>View/Canvas.mm\<close>, which stores
  properties and draws nothing; reference counts and the release of objects; memory exhaustion. Of
  protobuf: descriptors, reflection, text format, extensions, the compiler, input from streams of
  several buffers. Of RCF: sockets, threads, sessions beyond the fields that decoding uses, the
  SF serialisation of values and exceptions, and the filters for compression and encryption, which
  need libraries that are not part of the source. The generated stubs of the remote interface are macros of
  RCF; the client is modelled over their documented behaviour, that a call returns the answer of the
  server or throws.
\<close>

end
